(* ===== verification/DM_Prelude.thy ===== *)
theory DM_Prelude
  imports Main "HOL-Library.Word" "HOL-Library.Monad_Syntax"
begin

text \<open>
  Shared vocabulary of the development: the machine types of the toolkit (\<open>smldef.h\<close>,
  \<open>md5.h\<close>), its return codes (\<open>smlerr.h\<close>), C strings as byte lists, and the generic
  lemmas on lists, bits and options that the component theories use.

  Undefined behaviour of the C code (a read or write out of bounds, a dangling pointer, a
  double free) is the value \<open>None\<close> of an \<open>option\<close> result. A theorem that an operation
  returns \<open>Some\<close> therefore also says that the operation is memory safe there.
\<close>

unbundle bit_operations_syntax

named_theorems prelude_bits \<open>bit operations on \<open>nat\<close> as division and remainder\<close>

section \<open>Machine types\<close>

type_synonym byte = "8 word"
type_synonym u16 = "16 word"
type_synonym u32 = "32 word"

text \<open>Return codes of the toolkit, \<open>Ret_t\<close> of \<open>smlerr.h\<close>.\<close>

datatype ret =
    SML_ERR_OK
  | SML_ERR_UNSPECIFIC
  | SML_ERR_NOT_ENOUGH_SPACE
  | SML_ERR_WRONG_USAGE
  | SML_ERR_WRONG_PARAM
  | SML_ERR_INVALID_SIZE
  | SML_ERR_INVALID_HANDLE
  | SML_ERR_INVALID_OPTIONS
  | SML_ERR_A_MGR_ERROR
  | SML_ERR_MGR_INVALID_INSTANCE_INFO
  | SML_ERR_COMMAND_NOT_HANDLED
  | SML_ERR_ALREADY_INITIALIZED
  | SML_ERR_XLT_MISSING_CONT
  | SML_ERR_XLT_BUF_ERR
  | SML_ERR_XLT_INVAL_PCDATA_TYPE
  | SML_ERR_XLT_INVAL_LIST_TYPE
  | SML_ERR_XLT_INVAL_TAG_TYPE
  | SML_ERR_XLT_ENC_UNK
  | SML_ERR_XLT_INVAL_PROTO_ELEM
  | SML_ERR_MISSING_LIST_ELEM
  | SML_ERR_XLT_INCOMP_WBXML_VERS
  | SML_ERR_XLT_INVAL_SYNCML_DOC
  | SML_ERR_XLT_INVAL_PCDATA
  | SML_ERR_XLT_TOKENIZER_ERROR
  | SML_ERR_XLT_INVAL_WBXML_DOC
  | SML_ERR_XLT_WBXML_UKN_TOK
  | SML_ERR_XLT_MISSING_END_TAG
  | SML_ERR_XLT_INVALID_CODEPAGE
  | SML_ERR_XLT_END_OF_BUFFER
  | SML_ERR_XLT_INVAL_XML_DOC
  | SML_ERR_XLT_XML_UKN_TAG
  | SML_ERR_XLT_INVAL_PUB_IDENT
  | SML_ERR_XLT_INVAL_EXT
  | SML_ERR_XLT_NO_MATCHING_CODEPAGE
  | SML_ERR_XLT_INVAL_INPUT_DATA
  | SML_ERR_WSM_BUF_TABLE_FULL
  | SML_ERR_A_UTI_UNKNOWN_PROTO_ELEMENT
  | SML_ERR_CODE int

text \<open>
  \<open>Ret_t\<close> is a 16-bit integer: some functions return -1, or a code cut to a byte. Such a value
  that is not one of the named codes is \<open>SML_ERR_CODE\<close>; \<open>ret_code\<close> is the number of
  \<open>smlerr.h\<close> and \<open>ret_of\<close> reads a number back.
\<close>

fun ret_code :: "ret \<Rightarrow> int" where
  "ret_code SML_ERR_OK = 0x00"
| "ret_code SML_ERR_UNSPECIFIC = 0x10"
| "ret_code SML_ERR_NOT_ENOUGH_SPACE = 0x11"
| "ret_code SML_ERR_WRONG_USAGE = 0x13"
| "ret_code SML_ERR_WRONG_PARAM = 0x20"
| "ret_code SML_ERR_INVALID_SIZE = 0x21"
| "ret_code SML_ERR_INVALID_HANDLE = 0x22"
| "ret_code SML_ERR_INVALID_OPTIONS = 0x23"
| "ret_code SML_ERR_A_MGR_ERROR = 0x1001"
| "ret_code SML_ERR_MGR_INVALID_INSTANCE_INFO = 0x1002"
| "ret_code SML_ERR_COMMAND_NOT_HANDLED = 0x1003"
| "ret_code SML_ERR_ALREADY_INITIALIZED = 0x1004"
| "ret_code SML_ERR_XLT_MISSING_CONT = 0x2001"
| "ret_code SML_ERR_XLT_BUF_ERR = 0x2002"
| "ret_code SML_ERR_XLT_INVAL_PCDATA_TYPE = 0x2003"
| "ret_code SML_ERR_XLT_INVAL_LIST_TYPE = 0x2004"
| "ret_code SML_ERR_XLT_INVAL_TAG_TYPE = 0x2005"
| "ret_code SML_ERR_XLT_ENC_UNK = 0x2007"
| "ret_code SML_ERR_XLT_INVAL_PROTO_ELEM = 0x2008"
| "ret_code SML_ERR_MISSING_LIST_ELEM = 0x2009"
| "ret_code SML_ERR_XLT_INCOMP_WBXML_VERS = 0x200A"
| "ret_code SML_ERR_XLT_INVAL_SYNCML_DOC = 0x200B"
| "ret_code SML_ERR_XLT_INVAL_PCDATA = 0x200C"
| "ret_code SML_ERR_XLT_TOKENIZER_ERROR = 0x200D"
| "ret_code SML_ERR_XLT_INVAL_WBXML_DOC = 0x200E"
| "ret_code SML_ERR_XLT_WBXML_UKN_TOK = 0x200F"
| "ret_code SML_ERR_XLT_MISSING_END_TAG = 0x2010"
| "ret_code SML_ERR_XLT_INVALID_CODEPAGE = 0x2011"
| "ret_code SML_ERR_XLT_END_OF_BUFFER = 0x2012"
| "ret_code SML_ERR_XLT_INVAL_XML_DOC = 0x2013"
| "ret_code SML_ERR_XLT_XML_UKN_TAG = 0x2014"
| "ret_code SML_ERR_XLT_INVAL_PUB_IDENT = 0x2015"
| "ret_code SML_ERR_XLT_INVAL_EXT = 0x2016"
| "ret_code SML_ERR_XLT_NO_MATCHING_CODEPAGE = 0x2017"
| "ret_code SML_ERR_XLT_INVAL_INPUT_DATA = 0x2018"
| "ret_code SML_ERR_WSM_BUF_TABLE_FULL = 0x3001"
| "ret_code SML_ERR_A_UTI_UNKNOWN_PROTO_ELEMENT = 0x7001"
| "ret_code (SML_ERR_CODE n) = n"

definition named_codes :: "ret list" where
  "named_codes =
     [SML_ERR_OK,
      SML_ERR_UNSPECIFIC,
      SML_ERR_NOT_ENOUGH_SPACE,
      SML_ERR_WRONG_USAGE,
      SML_ERR_WRONG_PARAM,
      SML_ERR_INVALID_SIZE,
      SML_ERR_INVALID_HANDLE,
      SML_ERR_INVALID_OPTIONS,
      SML_ERR_A_MGR_ERROR,
      SML_ERR_MGR_INVALID_INSTANCE_INFO,
      SML_ERR_COMMAND_NOT_HANDLED,
      SML_ERR_ALREADY_INITIALIZED,
      SML_ERR_XLT_MISSING_CONT,
      SML_ERR_XLT_BUF_ERR,
      SML_ERR_XLT_INVAL_PCDATA_TYPE,
      SML_ERR_XLT_INVAL_LIST_TYPE,
      SML_ERR_XLT_INVAL_TAG_TYPE,
      SML_ERR_XLT_ENC_UNK,
      SML_ERR_XLT_INVAL_PROTO_ELEM,
      SML_ERR_MISSING_LIST_ELEM,
      SML_ERR_XLT_INCOMP_WBXML_VERS,
      SML_ERR_XLT_INVAL_SYNCML_DOC,
      SML_ERR_XLT_INVAL_PCDATA,
      SML_ERR_XLT_TOKENIZER_ERROR,
      SML_ERR_XLT_INVAL_WBXML_DOC,
      SML_ERR_XLT_WBXML_UKN_TOK,
      SML_ERR_XLT_MISSING_END_TAG,
      SML_ERR_XLT_INVALID_CODEPAGE,
      SML_ERR_XLT_END_OF_BUFFER,
      SML_ERR_XLT_INVAL_XML_DOC,
      SML_ERR_XLT_XML_UKN_TAG,
      SML_ERR_XLT_INVAL_PUB_IDENT,
      SML_ERR_XLT_INVAL_EXT,
      SML_ERR_XLT_NO_MATCHING_CODEPAGE,
      SML_ERR_XLT_INVAL_INPUT_DATA,
      SML_ERR_WSM_BUF_TABLE_FULL,
      SML_ERR_A_UTI_UNKNOWN_PROTO_ELEMENT]"

definition ret_of :: "int \<Rightarrow> ret" where
  "ret_of n = (case find (\<lambda>r. ret_code r = n) named_codes of Some r \<Rightarrow> r | None \<Rightarrow> SML_ERR_CODE n)"

text \<open>A code stored through a byte variable, as \<open>(MemByte_t)\<close> casts do.\<close>

definition ret_byte :: "ret \<Rightarrow> ret" where
  "ret_byte r = ret_of (ret_code r mod 256)"

lemma ret_byte_OK [simp]: "ret_byte SML_ERR_OK = SML_ERR_OK"
  by (simp add: ret_byte_def ret_of_def named_codes_def)

lemma ret_byte_codes [simp]:
  "ret_byte SML_ERR_NOT_ENOUGH_SPACE = SML_ERR_NOT_ENOUGH_SPACE"
  "ret_byte SML_ERR_XLT_INVAL_PROTO_ELEM = SML_ERR_CODE 8"
  by (simp_all add: ret_byte_def ret_of_def named_codes_def)


text \<open>The bytes of a C string literal, without its terminating zero.\<close>

definition bytes_of :: "string \<Rightarrow> byte list" where
  "bytes_of s = map of_char s"

lemma bytes_of_simps [simp]:
  "bytes_of [] = []"
  "bytes_of (c # s) = of_char c # bytes_of s"
  by (simp_all add: bytes_of_def)

lemma length_bytes_of [simp]: "length (bytes_of s) = length s"
  by (simp add: bytes_of_def)

section \<open>Signed integers\<close>

text \<open>Signed 32-bit arithmetic: an overflow is undefined.\<close>

definition s32 :: "int \<Rightarrow> int option" where
  "s32 x = (if - (2 ^ 31) \<le> x \<and> x < 2 ^ 31 then Some x else None)"

section \<open>Bits of natural numbers\<close>

lemma nat_and_mask [prelude_bits]:
  "(n::nat) AND 3 = n mod 4"
  "(n::nat) AND 15 = n mod 16"
  "(n::nat) AND 63 = n mod 64"
  by (simp_all flip: take_bit_eq_mod [of 2, simplified] take_bit_eq_mod [of 4, simplified]
      take_bit_eq_mod [of 6, simplified] add: take_bit_eq_mask mask_eq_exp_minus_1)

lemma nat_and_push_bit: "(n::nat) AND push_bit k m = push_bit k (drop_bit k n AND m)"
  by (rule bit_eqI) (auto simp: bit_simps)

lemma nat_and_192 [prelude_bits]: "n < 256 \<Longrightarrow> (n::nat) AND 192 = 64 * (n div 64)"
  using nat_and_push_bit [of n 6 3]
  by (simp add: push_bit_eq_mult drop_bit_eq_div nat_and_mask)

lemma nat_shift [prelude_bits]:
  "drop_bit 2 (n::nat) = n div 4" "drop_bit 4 n = n div 16" "drop_bit 6 n = n div 64"
  "push_bit 2 n = n * 4" "push_bit 4 n = n * 16" "push_bit 6 n = n * 64"
  by (simp_all add: drop_bit_eq_div push_bit_eq_mult)

section \<open>Machine words as natural numbers\<close>

named_theorems word_nat \<open>arithmetic on words built from natural numbers below their range\<close>

lemma unat_of_nat_u32 [word_nat]: "n < 2 ^ 32 \<Longrightarrow> unat (of_nat n :: u32) = n"
  by (simp add: unsigned_of_nat take_bit_nat_eq_self)

lemma u32_of_nat_div [word_nat]:
  "n < 2 ^ 32 \<Longrightarrow> k < 2 ^ 32 \<Longrightarrow> (of_nat n :: u32) div of_nat k = of_nat (n div k)"
  by (simp add: word_unat_eq_iff unat_div_distrib unat_of_nat_u32 order.strict_trans1 [OF div_le_dividend])

lemma u32_of_nat_mod [word_nat]:
  "n < 2 ^ 32 \<Longrightarrow> k < 2 ^ 32 \<Longrightarrow> (of_nat n :: u32) mod of_nat k = of_nat (n mod k)"
  by (simp add: word_unat_eq_iff unat_mod_distrib unat_of_nat_u32
      order.strict_trans1 [OF mod_less_eq_dividend])

lemma u32_of_nat_minus [word_nat]: "k \<le> n \<Longrightarrow> (of_nat n :: u32) - of_nat k = of_nat (n - k)"
  by (simp add: of_nat_diff)

section \<open>Checked writes into a buffer\<close>

text \<open>\<open>memcpy\<close> into a buffer at an offset; writing past its end is undefined behaviour.\<close>

definition buf_put :: "'a list \<Rightarrow> nat \<Rightarrow> 'a list \<Rightarrow> 'a list option" where
  "buf_put buf off bs =
     (if off + length bs \<le> length buf then Some (take off buf @ bs @ drop (off + length bs) buf)
      else None)"

lemma buf_put_ok [simp]:
  "off + length bs \<le> length buf \<Longrightarrow>
     buf_put buf off bs = Some (take off buf @ bs @ drop (off + length bs) buf)"
  by (simp add: buf_put_def)

lemma buf_put_fail [simp]: "length buf < off + length bs \<Longrightarrow> buf_put buf off bs = None"
  by (simp add: buf_put_def)

lemma length_buf_put: "buf_put buf off bs = Some buf' \<Longrightarrow> length buf' = length buf"
  by (auto simp: buf_put_def split: if_splits)

lemma buf_put_NoneD: "buf_put buf off bs = None \<Longrightarrow> length buf < off + length bs"
  by (auto simp: buf_put_def split: if_splits)

end
