(* ===== verification/Base64.thy ===== *)
theory Base64
  imports DM_Prelude
begin

text \<open>
  The base64 codec \<open>oma_toolkit/src/xpt-b64.c\<close>, which the credentials, the nonces and the
  binary node values of the engine go through. The encoder works on a target buffer of
  \<open>cbTargetSize\<close> bytes, a source buffer, and an optional save area for the bytes of an
  incomplete group; the decoder skips white space between the characters of a group. Sizes
  are \<open>BufferSize_t\<close>, an unsigned 32-bit integer: it matters in \<open>base64GetSize\<close> only, the
  other sizes are lengths of buffers in memory and are natural numbers here.
\<close>

section \<open>Decoding one character\<close>

text \<open>\<open>strchr\<close> on the skip list also finds the terminating zero, so a zero byte is skipped.\<close>

definition is_skip_char :: "byte \<Rightarrow> bool" where
  "is_skip_char ch \<longleftrightarrow> ch \<in> set (bytes_of [CHR 0x09, CHR 0x0D, CHR 0x0A, CHR '' '']) \<or> ch = 0"

definition b64_value :: "byte \<Rightarrow> int" where
  "b64_value ch =
     (if 48 \<le> ch \<and> ch \<le> 57 then uint ch + 4
      else if 65 \<le> ch \<and> ch \<le> 90 then uint ch - 65
      else if 97 \<le> ch \<and> ch \<le> 122 then uint ch - 71
      else if ch = 47 then 63
      else if ch = 43 then 62
      else if ch = 61 then 64
      else if \<not> is_skip_char ch then - 2
      else - 1)"

fun nextBase64Loop :: "byte list \<Rightarrow> int \<times> byte list" where
  "nextBase64Loop [] = (- 1, [])"
| "nextBase64Loop (ch # bs) =
     (let r = b64_value ch in if r = - 1 then nextBase64Loop bs else (r, bs))"

definition nextBase64Char :: "byte list \<Rightarrow> int \<times> byte list" where
  "nextBase64Char data =
     (if data = [] then (- 1, data)
      else let (r, rest) = nextBase64Loop data in if r \<noteq> - 1 then (r, rest) else (r, data))"

section \<open>The size of the encoded document\<close>

definition MAX_COLUMNS :: nat where
  "MAX_COLUMNS = 45"

definition base64GetSize :: "u32 \<Rightarrow> u32" where
  "base64GetSize cbRealDataSize =
     (let iMod = cbRealDataSize mod 3;
          cbEncodedSize = ((cbRealDataSize - iMod) div 3) * 4;
          cbEncodedSize = (if iMod \<noteq> 0 then cbEncodedSize + 4 else cbEncodedSize)
      in cbEncodedSize + ((cbEncodedSize - 1) div of_nat ((MAX_COLUMNS * 4) div 3)) * 2)"

section \<open>The encoder\<close>

definition b64_tab :: "byte list" where
  "b64_tab = bytes_of ''ABCDEFGHIJKLMNOPQRSTUVWXYZabcdefghijklmnopqrstuvwxyz0123456789+/=''"

record enc_state =
  es_target :: nat                 \<comment> \<open>\<open>cbTargetSize\<close>\<close>
  es_src :: "byte list"            \<comment> \<open>\<open>pbSourceData\<close>, of length \<open>cbDataProcessed\<close>\<close>
  es_save :: "byte list option"    \<comment> \<open>\<open>pbSaveBytes\<close>, \<open>None\<close> for a null pointer\<close>
  es_isave :: nat                  \<comment> \<open>\<open>iSave\<close>\<close>
  es_off :: nat                    \<comment> \<open>\<open>*pcbOffset\<close>\<close>
  es_out :: "byte list"            \<comment> \<open>the bytes written to \<open>pbTarget\<close> so far\<close>

text \<open>
  The next input byte: from the save area while its counter is not zero, else from the source.
\<close>

definition b64_fetch :: "enc_state \<Rightarrow> (nat \<times> enc_state) option" where
  "b64_fetch s =
     (let from_src = (case es_src s of [] \<Rightarrow> None
                      | x # xs \<Rightarrow> Some (unat x, s\<lparr>es_src := xs\<rparr>))
      in case es_save s of
           None \<Rightarrow> from_src
         | Some sv \<Rightarrow>
             if sv = [] then None
             else if sv ! 0 \<noteq> 0 then
               (if es_isave s < length sv
                then Some (unat (sv ! es_isave s),
                           s\<lparr>es_isave := Suc (es_isave s), es_save := Some (sv[0 := sv ! 0 - 1])\<rparr>)
                else None)
             else from_src)"

definition b64_emit :: "nat \<Rightarrow> nat \<Rightarrow> nat \<Rightarrow> nat \<Rightarrow> enc_state \<Rightarrow> enc_state" where
  "b64_emit i0 i1 i2 i3 s =
     s\<lparr>es_out := es_out s @ [b64_tab ! i0, b64_tab ! i1, b64_tab ! i2, b64_tab ! i3],
       es_target := es_target s - 4\<rparr>"

text \<open>One turn of the encoding loop.\<close>

definition b64_group :: "enc_state \<Rightarrow> enc_state option" where
  "b64_group s = do {
     (byt, s) \<leftarrow> b64_fetch s;
     let i0 = drop_bit 2 byt;
     let i1 = push_bit 4 (byt AND 0x0003);
     let s = s\<lparr>es_off := Suc (es_off s)\<rparr>;
     if es_src s \<noteq> [] then do {
       (byt, s) \<leftarrow> b64_fetch s;
       let i1 = i1 + drop_bit 4 byt;
       let i2 = push_bit 2 (byt AND 0x000F);
       let s = s\<lparr>es_off := Suc (es_off s)\<rparr>;
       if es_src s \<noteq> [] then do {
         (byt, s) \<leftarrow> b64_fetch s;
         let i2 = i2 + drop_bit 6 (byt AND 0x00C0);
         let i3 = byt AND 0x003F;
         let s = s\<lparr>es_off := Suc (es_off s)\<rparr>;
         Some (b64_emit i0 i1 i2 i3 s)
       } else Some (b64_emit i0 i1 i2 64 s)
     } else Some (b64_emit i0 i1 64 64 s)
   }"

lemma b64_fetch_target: "b64_fetch s = Some (b, s') \<Longrightarrow> es_target s' = es_target s"
  by (auto simp: b64_fetch_def Let_def split: option.splits list.splits if_splits)

lemma b64_group_target: "b64_group s = Some s' \<Longrightarrow> es_target s' = es_target s - 4"
  by (auto simp: b64_group_def b64_emit_def Let_def bind_eq_Some_conv split: if_splits
      dest!: b64_fetch_target)

function b64_encode_loop :: "enc_state \<Rightarrow> enc_state option" where
  "b64_encode_loop s =
     (if 4 \<le> es_target s \<and> es_src s \<noteq> []
      then (case b64_group s of None \<Rightarrow> None | Some s' \<Rightarrow> b64_encode_loop s')
      else Some s)"
  by pat_completeness auto
termination
  by (relation "measure es_target") (auto dest: b64_group_target)

declare b64_encode_loop.simps [simp del]

text \<open>
  The branch for a null data pointer: the last call, which flushes the save area. It writes
  without looking at \<open>cbTargetSize\<close>.
\<close>

definition b64_flush :: "enc_state \<Rightarrow> nat \<Rightarrow> enc_state option" where
  "b64_flush s bLast =
     (case es_save s of
        None \<Rightarrow> Some s
      | Some sv \<Rightarrow>
          if bLast \<noteq> 0 \<and> sv = [] then None
          else if bLast \<noteq> 0 \<and> sv ! 0 \<noteq> 0 then do {
            let s = (if 0 < es_off s \<and> es_off s mod MAX_COLUMNS = 0
                     then s\<lparr>es_out := es_out s @ [13, 10], es_target := es_target s - 2\<rparr> else s);
            (byt, s) \<leftarrow> b64_fetch s;
            let i0 = drop_bit 2 byt;
            let i1 = push_bit 4 (byt AND 0x0003);
            let s = s\<lparr>es_off := Suc (es_off s)\<rparr>;
            if the (es_save s) ! 0 \<noteq> 0 then do {
              (byt, s) \<leftarrow> b64_fetch s;
              let i1 = i1 + drop_bit 4 byt;
              let i2 = push_bit 2 (byt AND 0x000F);
              Some (b64_emit i0 i1 i2 i2 s)
            } else Some (b64_emit i0 i1 64 64 s)
          }
          else Some s)"

text \<open>After the loop: the rest of a block that is not the last goes to the save area.\<close>

definition b64_save_rest :: "nat \<Rightarrow> enc_state \<Rightarrow> enc_state option" where
  "b64_save_rest bLast s =
     (if bLast = 0 \<and> length (es_src s) \<le> 2 \<and> es_save s \<noteq> None then
        (let sv = the (es_save s); n = length (es_src s) in
         if n < length sv
         then Some (s\<lparr>es_save := Some (of_nat n # es_src s @ drop (Suc n) sv), es_src := []\<rparr>)
         else None)
      else Some s)"

text \<open>
  \<open>base64Encode\<close>: the bytes written, the rest of the source buffer (\<open>*pcbDataLength\<close> is its
  length), the new offset and save area are in the resulting state. Writing more than
  \<open>cbTargetSize\<close> bytes is undefined behaviour.
\<close>

definition base64Encode ::
    "nat \<Rightarrow> byte list option \<Rightarrow> nat \<Rightarrow> nat \<Rightarrow> byte list option \<Rightarrow> enc_state option" where
  "base64Encode cbTargetSize pbData off bLast save = do {
     let s0 = \<lparr>es_target = cbTargetSize, es_src = (case pbData of None \<Rightarrow> [] | Some d \<Rightarrow> d),
               es_save = save, es_isave = 1, es_off = off, es_out = []\<rparr>;
     s \<leftarrow> (if pbData = None then b64_flush s0 bLast
           else Option.bind (b64_encode_loop s0) (b64_save_rest bLast));
     if length (es_out s) \<le> cbTargetSize then Some s else None
   }"

section \<open>The decoder\<close>

text \<open>The three bytes of a quadruple, truncated to \<open>unsigned char\<close>.\<close>

definition b64_byte0 :: "int \<Rightarrow> int \<Rightarrow> byte" where
  "b64_byte0 i0 i1 = word_of_int (push_bit 2 i0 + drop_bit 4 i1)"

definition b64_byte1 :: "int \<Rightarrow> int \<Rightarrow> byte" where
  "b64_byte1 i1 i2 = word_of_int (push_bit 4 (i1 AND 0x000f) + drop_bit 2 i2)"

definition b64_byte2 :: "int \<Rightarrow> int \<Rightarrow> byte" where
  "b64_byte2 i2 i3 = word_of_int (push_bit 6 (i2 AND 0x0003) + i3)"

record dec_state =
  ds_out :: "byte list"
  ds_rest :: "byte list"
  ds_i :: "int list"     \<comment> \<open>the last values of \<open>i0\<close> .. \<open>i3\<close>\<close>

fun b64_decode_loop :: "nat \<Rightarrow> dec_state \<Rightarrow> dec_state" where
  "b64_decode_loop cbTargetSize s =
     (if cbTargetSize = 0 then s
      else
       (let (i0, p) = nextBase64Char (ds_rest s);
            (i1, p) = nextBase64Char p;
            (i2, p) = nextBase64Char p;
            (i3, p) = nextBase64Char p;
            s1 = s\<lparr>ds_i := [i0, i1, i2, i3]\<rparr>
        in if i0 < 0 \<or> i1 < 0 \<or> i2 < 0 \<or> i3 < 0 then s1
           else if (cbTargetSize \<le> 2 \<and> i3 \<noteq> 64) \<or> (cbTargetSize \<le> 1 \<and> i2 \<noteq> 64) then s1
           else
            (let b0 = b64_byte0 i0 i1; b1 = b64_byte1 i1 i2; b2 = b64_byte2 i2 i3
             in if i2 = 64
                then b64_decode_loop (cbTargetSize - 1) (s1\<lparr>ds_rest := p, ds_out := ds_out s @ [b0]\<rparr>)
                else if i3 = 64
                then b64_decode_loop (cbTargetSize - 2)
                       (s1\<lparr>ds_rest := p, ds_out := ds_out s @ [b0, b1]\<rparr>)
                else b64_decode_loop (cbTargetSize - 3)
                       (s1\<lparr>ds_rest := p, ds_out := ds_out s @ [b0, b1, b2]\<rparr>))))"

declare b64_decode_loop.simps [simp del]

text \<open>
  \<open>base64Decode\<close>: the returned count, the bytes in the target buffer and the unread source.
  On invalid data the count is 0 although bytes may have been written.
\<close>

definition base64Decode :: "nat \<Rightarrow> byte list \<Rightarrow> nat \<times> byte list \<times> byte list" where
  "base64Decode cbTargetSize data =
     (let s = b64_decode_loop cbTargetSize \<lparr>ds_out = [], ds_rest = data, ds_i = [0, 0, 0, 0]\<rparr>;
          cbDataCopied = (if - 2 \<in> set (ds_i s) then 0 else length (ds_out s))
      in (cbDataCopied, ds_out s, ds_rest s))"


section \<open>Reference encoding\<close>

text \<open>The encoding of RFC 2045, three bytes at a time, with the padding of a short last group.\<close>

fun b64_ref :: "byte list \<Rightarrow> byte list" where
  "b64_ref [] = []"
| "b64_ref [a] =
     [b64_tab ! (unat a div 4), b64_tab ! ((unat a mod 4) * 16), b64_tab ! 64, b64_tab ! 64]"
| "b64_ref [a, b] =
     [b64_tab ! (unat a div 4), b64_tab ! ((unat a mod 4) * 16 + unat b div 16),
      b64_tab ! ((unat b mod 16) * 4), b64_tab ! 64]"
| "b64_ref (a # b # c # xs) =
     [b64_tab ! (unat a div 4), b64_tab ! ((unat a mod 4) * 16 + unat b div 16),
      b64_tab ! ((unat b mod 16) * 4 + unat c div 64), b64_tab ! (unat c mod 64)] @ b64_ref xs"

lemma div3_step: "(5 + n) div 3 = Suc (Suc (Suc n) div (3::nat))"
  by presburger

lemma length_b64_ref: "length (b64_ref xs) = 4 * ((length xs + 2) div 3)"
  by (induction xs rule: b64_ref.induct) (auto simp: div3_step)

section \<open>The encoder against the reference\<close>

text \<open>A save area is idle when it is absent or its counter is zero.\<close>

definition save_idle :: "byte list option \<Rightarrow> bool" where
  "save_idle save \<longleftrightarrow> (case save of None \<Rightarrow> True | Some sv \<Rightarrow> sv \<noteq> [] \<and> sv ! 0 = 0)"

lemma b64_fetch_idle:
  "save_idle (es_save s) \<Longrightarrow> es_src s = x # xs \<Longrightarrow> b64_fetch s = Some (unat x, s\<lparr>es_src := xs\<rparr>)"
  by (auto simp: b64_fetch_def save_idle_def split: option.splits)

lemma unat_byte_less: "unat (b :: byte) < 256"
  using unsigned_less [of b] by simp

lemma byt_div_64_mod_4: "unat (b :: byte) div 64 mod 4 = unat b div 64"
  using unat_byte_less [of b] by simp

lemma b64_group_idle:
  assumes "save_idle (es_save s)" and "es_src s = d" and "d \<noteq> []"
  shows "b64_group s = Some (s\<lparr>es_src := drop 3 d, es_off := es_off s + min 3 (length d),
           es_out := es_out s @ b64_ref (take 3 d), es_target := es_target s - 4\<rparr>)"
proof -
  consider a where "d = [a]" | a b where "d = [a, b]" | a b c xs where "d = a # b # c # xs"
    using assms(3) by (metis list.exhaust)
  then show ?thesis
    using assms(1,2)
    by cases (simp_all add: b64_group_def b64_fetch_idle b64_emit_def prelude_bits byt_div_64_mod_4
        Let_def)
qed

lemma b64_ref_append3: "length xs = 3 * n \<Longrightarrow> b64_ref (xs @ ys) = b64_ref xs @ b64_ref ys"
proof (induction n arbitrary: xs)
  case (Suc n)
  then obtain a b c zs where "xs = a # b # c # zs"
    by (auto simp: length_Suc_conv numeral_3_eq_3)
  with Suc show ?case by simp
qed simp

lemma b64_encode_loop_idle:
  assumes "save_idle (es_save s)"
  shows "b64_encode_loop s =
    (let k = 3 * (es_target s div 4); d = es_src s in
     Some (s\<lparr>es_src := drop k d, es_off := es_off s + min k (length d),
             es_out := es_out s @ b64_ref (take k d),
             es_target := es_target s - 4 * min (es_target s div 4) ((length d + 2) div 3)\<rparr>))"
  using assms
proof (induction s rule: b64_encode_loop.induct)
  case (1 s)
  let ?d = "es_src s"
  show ?case
  proof (cases "4 \<le> es_target s \<and> ?d \<noteq> []")
    case False
    then show ?thesis
      by (cases "?d = []") (auto simp: b64_encode_loop.simps [of s] Let_def)
  next
    case True
    let ?t = "s\<lparr>es_src := drop 3 ?d, es_off := es_off s + min 3 (length ?d),
           es_out := es_out s @ b64_ref (take 3 ?d), es_target := es_target s - 4\<rparr>"
    from True "1.prems" have g: "b64_group s = Some ?t"
      by (intro b64_group_idle) auto
    define m where "m = (es_target s - 4) div 4"
    have m: "es_target s div 4 = Suc m"
      using True by (simp add: m_def) (metis Suc_eq_plus1 add.commute div_add_self2 le_add_diff_inverse2 zero_neq_numeral)
    have out: "b64_ref (take (3 * Suc m) ?d) = b64_ref (take 3 ?d) @ b64_ref (take (3 * m) (drop 3 ?d))"
    proof (cases "3 \<le> length ?d")
      case True
      then have "b64_ref (take 3 ?d @ take (3 * m) (drop 3 ?d))
          = b64_ref (take 3 ?d) @ b64_ref (take (3 * m) (drop 3 ?d))"
        by (intro b64_ref_append3 [where n = 1]) simp
      then show ?thesis by (simp add: take_add [of 3, symmetric] )
    qed simp
    have tgt: "es_target s - 4 - 4 * min m ((length ?d - 3 + 2) div 3)
        = es_target s - 4 * min (Suc m) ((length ?d + 2) div 3)"
    proof (cases "3 \<le> length ?d")
      case True
      then have "(length ?d + 2) div 3 = Suc ((length ?d - 3 + 2) div 3)"
        by (auto simp: le_iff_add)
      then show ?thesis by simp
    next
      case False
      moreover from True have "length ?d \<noteq> 0" by simp
      ultimately have "length ?d = 1 \<or> length ?d = 2" by linarith
      then show ?thesis by auto
    qed
    define K where "K = 3 * Suc m"
    have dr: "drop (3 * m) (drop 3 ?d) = drop K ?d"
      and off: "es_off s + min 3 (length ?d) + min (3 * m) (length ?d - 3) = es_off s + min K (length ?d)"
      by (simp_all add: K_def add.commute)
    from "1.IH" [OF True g] "1.prems" have "b64_encode_loop ?t = Some (?t\<lparr>
        es_src := drop (3 * m) (drop 3 ?d),
        es_off := es_off s + min 3 (length ?d) + min (3 * m) (length ?d - 3),
        es_out := es_out s @ b64_ref (take 3 ?d) @ b64_ref (take (3 * m) (drop 3 ?d)),
        es_target := es_target s - 4 - 4 * min m ((length ?d - 3 + 2) div 3)\<rparr>)"
      by (simp add: Let_def flip: m_def)
    with True g show ?thesis
      by (simp only: b64_encode_loop.simps [of s] m tgt dr off out [symmetric] Let_def K_def [symmetric]
          if_True option.case simp_thms) simp
  qed
qed

lemma b64_group_count: "4 * ((n + 2) div 3) \<le> t \<longleftrightarrow> n \<le> 3 * (t div (4::nat))"
proof -
  have "4 * m \<le> t \<longleftrightarrow> m \<le> t div 4" for m
    by linarith
  moreover have "(n + 2) div 3 \<le> m \<longleftrightarrow> n \<le> 3 * m" for m
    by linarith
  ultimately show ?thesis by blast
qed

lemma b64_prefix_fits: "4 * ((min n (3 * (t div 4)) + 2) div 3) \<le> (t::nat)"
  by (subst b64_group_count) simp

text \<open>What the encoder does with the last block of a document and an idle save area.\<close>

lemma base64Encode_ref:
  assumes "save_idle save" and "bLast \<noteq> 0"
  shows "\<exists>s. base64Encode cbTargetSize (Some data) off bLast save = Some s
     \<and> es_out s = b64_ref (take (3 * (cbTargetSize div 4)) data)
     \<and> es_src s = drop (3 * (cbTargetSize div 4)) data
     \<and> es_save s = save
     \<and> es_off s = off + min (3 * (cbTargetSize div 4)) (length data)"
  using assms b64_prefix_fits [of "length data" cbTargetSize]
  by (simp add: base64Encode_def b64_encode_loop_idle b64_save_rest_def Let_def length_b64_ref
      del: One_nat_def)


section \<open>Round trip\<close>

abbreviation payload :: "byte list \<Rightarrow> byte list" where
  "payload \<equiv> filter (\<lambda>ch. b64_value ch \<noteq> - 1)"

lemma nextBase64Char_payload:
  "payload src = c # cs \<Longrightarrow>
     \<exists>rest. nextBase64Char src = (b64_value c, rest) \<and> payload rest = cs"
proof -
  assume p: "payload src = c # cs"
  then have "src \<noteq> []" and "b64_value c \<noteq> - 1"
    by (auto simp: filter_eq_Cons_iff)
  moreover from p have "\<exists>rest. nextBase64Loop src = (b64_value c, rest) \<and> payload rest = cs"
    by (induction src) (auto simp: Let_def split: if_splits)
  ultimately show ?thesis
    by (auto simp: nextBase64Char_def)
qed

lemma nextBase64Char_no_payload: "payload src = [] \<Longrightarrow> nextBase64Char src = (- 1, src)"
proof -
  assume "payload src = []"
  then have "nextBase64Loop src = (- 1, [])"
    by (induction src) (auto split: if_splits)
  then show ?thesis by (simp add: nextBase64Char_def)
qed

text \<open>The table and the character ranges of the decoder agree.\<close>

lemma b64_value_tab: "n \<le> 64 \<Longrightarrow> b64_value (b64_tab ! n) = int n"
proof -
  have "list_all (\<lambda>n. b64_value (b64_tab ! n) = int n) [0..<65]"
    by code_simp
  then show "n \<le> 64 \<Longrightarrow> ?thesis" by (auto simp: list_all_iff)
qed

lemma byte_parts:
  "unat (a :: byte) div 4 < 64" "unat a div 16 < 16" "unat a div 64 < 4"
  "unat a mod 4 < 4" "unat a mod 16 < 16" "unat a mod 64 < 64"
  using unat_byte_less [of a] by simp_all

lemma b64_index [simp]:
  "unat (a :: byte) div 4 \<le> 64"
  "unat (a :: byte) mod 4 * 16 + unat (b :: byte) div 16 \<le> 64"
  "unat (a :: byte) mod 16 * 4 + unat (b :: byte) div 64 \<le> 64"
  "unat (a :: byte) mod 4 * 16 \<le> 64" "unat (a :: byte) mod 16 * 4 \<le> 64"
  "unat (a :: byte) mod 64 \<le> 64"
  using byte_parts [of a] byte_parts [of b] by linarith+

lemma payload_b64_ref [simp]: "payload (b64_ref xs) = b64_ref xs"
  by (induction xs rule: b64_ref.induct) (simp_all add: b64_value_tab)

text \<open>Decoding the four characters of a group gives its bytes back.\<close>

lemma word_of_int_nat_eq: "n = unat (x :: byte) \<Longrightarrow> word_of_int (int n) = x"
  by simp

lemma int_bits:
  "push_bit k (int m) = int (push_bit k m)" "drop_bit k (int m) = int (drop_bit k m)"
  "int m AND 15 = int (m AND 15)" "int m AND 3 = int (m AND 3)"
  by (simp_all add: push_bit_of_nat drop_bit_of_nat of_nat_and_eq)

lemma join_bits:
  "(q::nat) < 16 \<Longrightarrow> (m * 16 + q) div 16 = m" "(q::nat) < 16 \<Longrightarrow> (m * 16 + q) mod 16 = q"
  "(r::nat) < 4 \<Longrightarrow> (m * 4 + r) div 4 = m" "(r::nat) < 4 \<Longrightarrow> (m * 4 + r) mod 4 = r"
  "m * 16 div 16 = (m::nat)" "m * 4 div 4 = (m::nat)"
  by simp_all

lemma b64_bytes_join [simp]:
  "b64_byte0 (int (unat a div 4)) (int (unat a mod 4 * 16 + unat b div 16)) = a"
  "b64_byte0 (int (unat a div 4)) (int (unat a mod 4 * 16)) = a"
  "b64_byte1 (int (unat a mod 4 * 16 + unat b div 16)) (int (unat b mod 16 * 4 + unat c div 64)) = b"
  "b64_byte1 (int (unat a mod 4 * 16 + unat b div 16)) (int (unat b mod 16 * 4)) = b"
  "b64_byte2 (int (unat b mod 16 * 4 + unat c div 64)) (int (unat c mod 64)) = c"
  unfolding b64_byte0_def b64_byte1_def b64_byte2_def int_bits of_nat_add [symmetric]
  by (rule word_of_int_nat_eq, simp only: prelude_bits join_bits byte_parts div_mult_mod_eq)+

lemma b64_decode_step1:
  assumes "nextBase64Char (ds_rest s) = (int i0, p0)" and "nextBase64Char p0 = (int i1, p1)"
    and "nextBase64Char p1 = (int i2, p2)" and "nextBase64Char p2 = (int i3, p3)"
    and "i2 = 64" and "i3 = 64" and "1 \<le> n"
  shows "b64_decode_loop n s = b64_decode_loop (n - 1) (s\<lparr>ds_i := map int [i0, i1, i2, i3],
    ds_rest := p3, ds_out := ds_out s @ [b64_byte0 (int i0) (int i1)]\<rparr>)"
  using assms by (subst b64_decode_loop.simps) (simp add: Let_def)

lemma b64_decode_step2:
  assumes "nextBase64Char (ds_rest s) = (int i0, p0)" and "nextBase64Char p0 = (int i1, p1)"
    and "nextBase64Char p1 = (int i2, p2)" and "nextBase64Char p2 = (int i3, p3)"
    and "i2 < 64" and "i3 = 64" and "2 \<le> n"
  shows "b64_decode_loop n s = b64_decode_loop (n - 2) (s\<lparr>ds_i := map int [i0, i1, i2, i3],
    ds_rest := p3, ds_out := ds_out s @ [b64_byte0 (int i0) (int i1), b64_byte1 (int i1) (int i2)]\<rparr>)"
  using assms by (subst b64_decode_loop.simps) (simp add: Let_def)

lemma b64_decode_step3:
  assumes "nextBase64Char (ds_rest s) = (int i0, p0)" and "nextBase64Char p0 = (int i1, p1)"
    and "nextBase64Char p1 = (int i2, p2)" and "nextBase64Char p2 = (int i3, p3)"
    and "i2 < 64" and "i3 < 64" and "3 \<le> n"
  shows "b64_decode_loop n s = b64_decode_loop (n - 3) (s\<lparr>ds_i := map int [i0, i1, i2, i3],
    ds_rest := p3, ds_out := ds_out s @ [b64_byte0 (int i0) (int i1), b64_byte1 (int i1) (int i2), b64_byte2 (int i2) (int i3)]\<rparr>)"
  using assms by (subst b64_decode_loop.simps) (simp add: Let_def)

lemma b64_decode_loop_end:
  assumes "payload (ds_rest s) = []" and "- 2 \<notin> set (ds_i s)"
  shows "ds_out (b64_decode_loop n s) = ds_out s \<and> payload (ds_rest (b64_decode_loop n s)) = []
    \<and> - 2 \<notin> set (ds_i (b64_decode_loop n s))"
  using assms by (subst (1 2 3) b64_decode_loop.simps) (simp add: nextBase64Char_no_payload Let_def)

lemma b64_value_pad [simp]: "b64_value (b64_tab ! 64) = 64"
  by (simp add: b64_value_tab)

lemma payload4:
  assumes "payload src = c0 # c1 # c2 # c3 # cs"
  obtains p0 p1 p2 p3 where "nextBase64Char src = (b64_value c0, p0)"
    "nextBase64Char p0 = (b64_value c1, p1)" "nextBase64Char p1 = (b64_value c2, p2)"
    "nextBase64Char p2 = (b64_value c3, p3)" "payload p3 = cs"
  using assms by (metis nextBase64Char_payload)

lemma b64_decode_loop_ref:
  assumes "payload (ds_rest s) = b64_ref d" and "length d \<le> n" and "- 2 \<notin> set (ds_i s)"
  shows "ds_out (b64_decode_loop n s) = ds_out s @ d \<and> payload (ds_rest (b64_decode_loop n s)) = []
    \<and> - 2 \<notin> set (ds_i (b64_decode_loop n s))"
  using assms
proof (induction d arbitrary: n s rule: b64_ref.induct)
  case 1
  then show ?case by (simp add: b64_decode_loop_end)
next
  case (2 a)
  from "2.prems"(1) obtain p0 p1 p2 p3 where "nextBase64Char (ds_rest s) = (int (unat a div 4), p0)"
    "nextBase64Char p0 = (int (unat a mod 4 * 16), p1)"
    "nextBase64Char p1 = (int 64, p2)" "nextBase64Char p2 = (int 64, p3)" and p: "payload p3 = []"
    by (auto simp: b64_value_tab elim: payload4)
  note step = b64_decode_step1 [OF this(1-4) refl refl, of n]
  from "2.prems" p show ?case
    by (simp add: step b64_decode_loop_end del: of_nat_add of_nat_mult)
next
  case (3 a b)
  from "3.prems"(1) obtain p0 p1 p2 p3 where "nextBase64Char (ds_rest s) = (int (unat a div 4), p0)"
    "nextBase64Char p0 = (int (unat a mod 4 * 16 + unat b div 16), p1)"
    "nextBase64Char p1 = (int (unat b mod 16 * 4), p2)" "nextBase64Char p2 = (int 64, p3)"
    and p: "payload p3 = []"
    by (auto simp: b64_value_tab elim: payload4)
  note step = b64_decode_step2 [OF this(1-4) _ refl, of n]
  from byte_parts [of b] have "unat b mod 16 * 4 < 64" by linarith
  with "3.prems" p show ?case
    by (simp add: step b64_decode_loop_end del: of_nat_add of_nat_mult)
next
  case (4 a b c xs)
  from "4.prems"(1) obtain p0 p1 p2 p3 where "nextBase64Char (ds_rest s) = (int (unat a div 4), p0)"
    "nextBase64Char p0 = (int (unat a mod 4 * 16 + unat b div 16), p1)"
    "nextBase64Char p1 = (int (unat b mod 16 * 4 + unat c div 64), p2)"
    "nextBase64Char p2 = (int (unat c mod 64), p3)" and p: "payload p3 = b64_ref xs"
    by (auto simp: b64_value_tab elim: payload4)
  note step = b64_decode_step3 [OF this(1-4), of n]
  from byte_parts [of b] byte_parts [of c] have "unat b mod 16 * 4 + unat c div 64 < 64"
    by linarith
  with "4.prems" "4.IH" p show ?case
    by (simp add: step del: of_nat_add of_nat_mult)
qed

lemma base64Decode_ref:
  assumes "payload src = b64_ref data" and "length data \<le> cbTargetSize"
  shows "\<exists>rest. base64Decode cbTargetSize src = (length data, data, rest) \<and> payload rest = []"
  using b64_decode_loop_ref [of "\<lparr>ds_out = [], ds_rest = src, ds_i = [0, 0, 0, 0]\<rparr>" data cbTargetSize] assms
  by (simp add: base64Decode_def Let_def)


text \<open>The decoder never writes more than \<open>cbTargetSize\<close> bytes.\<close>

lemma b64_decode_loop_bound: "length (ds_out (b64_decode_loop n s)) \<le> length (ds_out s) + n"
proof (induction n arbitrary: s rule: less_induct)
  case (less n)
  show ?case
    by (subst b64_decode_loop.simps)
      (auto simp: Let_def split: prod.splits intro!: order.trans [OF less.IH])
qed

text \<open>Full groups are decoded before anything that follows them is looked at.\<close>

lemma b64_decode_loop_prefix:
  assumes "payload (ds_rest s) = b64_ref d @ q" and "length d = 3 * k" and "3 * k \<le> n"
  shows "\<exists>s'. b64_decode_loop n s = b64_decode_loop (n - 3 * k) s' \<and> payload (ds_rest s') = q"
  using assms
proof (induction k arbitrary: d n s)
  case 0
  then show ?case by auto
next
  case (Suc k)
  then obtain a b c xs where d: "d = a # b # c # xs"
    by (auto simp: length_Suc_conv numeral_3_eq_3)
  with Suc.prems(1) obtain p0 p1 p2 p3 where "nextBase64Char (ds_rest s) = (int (unat a div 4), p0)"
    "nextBase64Char p0 = (int (unat a mod 4 * 16 + unat b div 16), p1)"
    "nextBase64Char p1 = (int (unat b mod 16 * 4 + unat c div 64), p2)"
    "nextBase64Char p2 = (int (unat c mod 64), p3)" and p: "payload p3 = b64_ref xs @ q"
    by (auto simp: b64_value_tab elim: payload4)
  note step = b64_decode_step3 [OF this(1-4), of n]
  from byte_parts [of b] byte_parts [of c] have "unat b mod 16 * 4 + unat c div 64 < 64"
    by linarith
  with Suc.prems d p Suc.IH [of _ xs "n - 3"] show ?case
    by (simp add: step del: of_nat_add of_nat_mult)
qed

lemma base64_invalid:
  assumes "payload src = b64_ref d @ [c0, c1, c2, c3] @ q" and "length d = 3 * k"
    and "length d < cbTargetSize" and "- 2 \<in> b64_value ` {c0, c1, c2, c3}"
  shows "fst (base64Decode cbTargetSize src) = 0"
proof -
  let ?s = "\<lparr>ds_out = [], ds_rest = src, ds_i = [0, 0, 0, 0]\<rparr>"
  from assms(1-3) obtain s' where s': "b64_decode_loop cbTargetSize ?s = b64_decode_loop (cbTargetSize - 3 * k) s'"
    and "payload (ds_rest s') = [c0, c1, c2, c3] @ q"
    using b64_decode_loop_prefix [of ?s d "[c0, c1, c2, c3] @ q" k cbTargetSize] by auto
  then obtain p0 p1 p2 p3 where "nextBase64Char (ds_rest s') = (b64_value c0, p0)"
    "nextBase64Char p0 = (b64_value c1, p1)" "nextBase64Char p1 = (b64_value c2, p2)"
    "nextBase64Char p2 = (b64_value c3, p3)"
    by (auto elim: payload4)
  with assms(2-4) s' have "ds_i (b64_decode_loop cbTargetSize ?s)
      = [b64_value c0, b64_value c1, b64_value c2, b64_value c3]"
    by (subst (asm) b64_decode_loop.simps) (auto simp: Let_def)
  with assms(4) show ?thesis
    by (auto simp: base64Decode_def Let_def)
qed

section \<open>The size the callers reserve\<close>

lemma base64GetSize_nat:
  assumes "0 < n" and "n < 2 ^ 30"
  shows "4 * ((n + 2) div 3) \<le> unat (base64GetSize (of_nat n))"
proof -
  define e where "e = 4 * ((n + 2) div 3)"
  have "(of_nat n :: u32) mod 3 = of_nat (n mod 3)"
    using u32_of_nat_mod [of n 3] assms by simp
  moreover have "((of_nat n :: u32) - of_nat (n mod 3)) div 3 = of_nat (n div 3)"
    using u32_of_nat_div [of "n - n mod 3" 3] assms
    by (simp add: u32_of_nat_minus minus_mod_eq_mult_div order.strict_trans1)
  moreover have "(of_nat n :: u32) div 3 = of_nat (n div 3)"
    using u32_of_nat_div [of n 3] assms by simp
  moreover have "(of_nat (n mod 3) :: u32) \<noteq> 0 \<longleftrightarrow> n mod 3 \<noteq> 0"
  proof -
    have "n mod 3 < 2 ^ 32" by (rule order.strict_trans [of _ 3]) simp_all
    then show ?thesis by (simp add: word_unat_eq_iff unat_of_nat_u32)
  qed
  moreover have "e = (if n mod 3 \<noteq> 0 then n div 3 * 4 + 4 else n div 3 * 4)"
    unfolding e_def by presburger
  ultimately have "base64GetSize (of_nat n) = of_nat e + ((of_nat e - 1) div 60) * 2"
    by (simp add: base64GetSize_def MAX_COLUMNS_def Let_def)
  also have "\<dots> = of_nat (e + (e - 1) div 60 * 2)"
  proof -
    have "4 \<le> e" "e < 2 ^ 32" using assms by (simp_all add: e_def) 
    then show ?thesis
      using u32_of_nat_div [of "e - 1" 60] by (simp add: of_nat_diff)
  qed
  finally have "base64GetSize (of_nat n) = of_nat (e + (e - 1) div 60 * 2)" .
  moreover have "n < 1073741824" using assms(2) by simp
  then have "e + (e - 1) div 60 * 2 < 4294967296" unfolding e_def by linarith
  then have "e + (e - 1) div 60 * 2 < 2 ^ 32" by simp
  ultimately have "unat (base64GetSize (of_nat n)) = e + (e - 1) div 60 * 2"
    by (simp only: unat_of_nat_u32)
  then show ?thesis by (simp add: e_def)
qed

section \<open>Properties\<close>



text \<open>
  Property C18 (functional, partial encoding). Whatever the target size, the last block of a
  document with an idle save area is encoded group by group as long as four bytes of target are
  left: the output is the RFC 2045 encoding of the first \<open>3 * (cbTargetSize div 4)\<close> bytes, the
  rest of the block stays in the source buffer, and the encoder is memory safe.
\<close>

theorem base64Encode_prefix:
  assumes "save_idle save" and "bLast \<noteq> 0"
  shows "\<exists>s. base64Encode cbTargetSize (Some data) off bLast save = Some s
     \<and> es_out s = b64_ref (take (3 * (cbTargetSize div 4)) data)
     \<and> es_src s = drop (3 * (cbTargetSize div 4)) data
     \<and> es_save s = save \<and> length (es_out s) \<le> cbTargetSize"
  using base64Encode_ref [OF assms, of cbTargetSize data off]
    b64_prefix_fits [of "length data" cbTargetSize]
  by (auto simp: length_b64_ref)

theorem base64Encode_prefix_witness:
  "\<exists>s. base64Encode 7 (Some (bytes_of ''abcd'')) 0 1 None = Some s
     \<and> es_out s = b64_ref (take (3 * (7 div 4)) (bytes_of ''abcd''))
     \<and> es_src s = drop (3 * (7 div 4)) (bytes_of ''abcd'') \<and> es_save s = None \<and> length (es_out s) \<le> 7"
  by (rule base64Encode_prefix) (simp_all add: save_idle_def)

text \<open>
  When the quadruple that follows some full groups holds an invalid
  character and there is target space left, the decoder reports 0 decoded bytes.
\<close>

theorem base64Decode_invalid:
  assumes "payload src = b64_ref d @ [c0, c1, c2, c3] @ q" and "length d = 3 * k"
    and "length d < cbTargetSize" and "- 2 \<in> b64_value ` {c0, c1, c2, c3}"
  shows "fst (base64Decode cbTargetSize src) = 0"
  using assms by (rule base64_invalid)

theorem base64Decode_invalid_witness: "fst (base64Decode 20 (bytes_of ''TWFu TW*u'')) = 0"
  by (rule base64Decode_invalid [of _ "bytes_of ''Man''" 84 87 42 117 "[]" 1]) code_simp+

text \<open>
  Property C36 (bounds). The decoder never writes more than \<open>cbTargetSize\<close> bytes, whatever the
  source bytes are, and never reports more bytes than it has written.
\<close>

theorem base64Decode_bound:
  "length (fst (snd (base64Decode cbTargetSize src))) \<le> cbTargetSize
   \<and> fst (base64Decode cbTargetSize src) \<le> length (fst (snd (base64Decode cbTargetSize src)))"
  using b64_decode_loop_bound [of cbTargetSize "\<lparr>ds_out = [], ds_rest = src, ds_i = [0, 0, 0, 0]\<rparr>"]
  by (simp add: base64Decode_def Let_def)

text \<open>
  A buffer of \<open>base64GetSize\<close> bytes, which is what the callers allocate,
  is large enough for the whole encoding of a document of 1 to \<open>2^30 - 1\<close> bytes.
\<close>

theorem base64GetSize_sufficient:
  assumes "data \<noteq> []" and "length data < 2 ^ 30" and "save_idle save" and "bLast \<noteq> 0"
  shows "\<exists>s. base64Encode (unat (base64GetSize (of_nat (length data)))) (Some data) off bLast save
     = Some s \<and> es_out s = b64_ref data \<and> es_src s = []"
proof -
  have "4 * ((length data + 2) div 3) \<le> unat (base64GetSize (of_nat (length data)))"
    using assms by (intro base64GetSize_nat) auto
  then have "length data \<le> 3 * (unat (base64GetSize (of_nat (length data))) div 4)"
    by (simp only: b64_group_count)
  with base64Encode_ref [OF assms(3,4), of "unat (base64GetSize (of_nat (length data)))" data off]
  show ?thesis by auto
qed

theorem base64GetSize_sufficient_witness:
  "\<exists>s. base64Encode (unat (base64GetSize (of_nat (length (bytes_of ''abc''))))) (Some (bytes_of ''abc''))
     0 1 None = Some s \<and> es_out s = b64_ref (bytes_of ''abc'') \<and> es_src s = []"
  by (rule base64GetSize_sufficient) (simp_all add: save_idle_def)

text \<open>
  For 0 bytes the unsigned subtraction
  \<open>cbEncodedSize - 1\<close> wraps, so \<open>base64GetSize\<close> asks for 143165576 bytes for an empty encoding.
\<close>

theorem base64GetSize_empty: "base64GetSize 0 = 143165576 \<and> b64_ref [] = []"
  by (simp add: base64GetSize_def MAX_COLUMNS_def)

text \<open>
  The call with a null data pointer that
  flushes two saved bytes emits the third character twice instead of a padding character, so
  the decoder reads three bytes where two were saved.
\<close>

theorem base64_flush_two_bytes:
  "map_option es_out (base64Encode 4 None 2 1 (Some [2, 77, 97])) = Some (bytes_of ''TWEE'')
   \<and> b64_ref [77, 97] = bytes_of ''TWE=''
   \<and> fst (base64Decode 4 (bytes_of ''TWEE'')) = 3"
  by code_simp

end
