(* ===== verification/MD5.thy ===== *)
theory MD5
  imports DM_Prelude
begin

text \<open>
  The MD5 message digest \<open>oma_toolkit/src/md5c.c\<close>: context, block transformation, streaming
  update and finalisation. The context keeps the number of message bits as two 32-bit words and
  the bytes of an incomplete block. The section at the end gives the digest of RFC 1321 on a
  whole message and shows that the streaming interface computes it, however the message is cut
  into updates.
\<close>

section \<open>Context and basic functions\<close>

type_synonym md5_state = "u32 \<times> u32 \<times> u32 \<times> u32"

record MD5_CTX =
  md_state :: md5_state
  md_count0 :: u32
  md_count1 :: u32
  md_buffer :: "byte list"   \<comment> \<open>64 bytes\<close>

definition S11 :: nat where "S11 = 7"
definition S12 :: nat where "S12 = 12"
definition S13 :: nat where "S13 = 17"
definition S14 :: nat where "S14 = 22"
definition S21 :: nat where "S21 = 5"
definition S22 :: nat where "S22 = 9"
definition S23 :: nat where "S23 = 14"
definition S24 :: nat where "S24 = 20"
definition S31 :: nat where "S31 = 4"
definition S32 :: nat where "S32 = 11"
definition S33 :: nat where "S33 = 16"
definition S34 :: nat where "S34 = 23"
definition S41 :: nat where "S41 = 6"
definition S42 :: nat where "S42 = 10"
definition S43 :: nat where "S43 = 15"
definition S44 :: nat where "S44 = 21"

lemmas md5_shifts = S11_def S12_def S13_def S14_def S21_def S22_def S23_def S24_def
  S31_def S32_def S33_def S34_def S41_def S42_def S43_def S44_def

definition PADDING :: "byte list" where
  "PADDING = 0x80 # replicate 63 0"

definition md5_F :: "u32 \<Rightarrow> u32 \<Rightarrow> u32 \<Rightarrow> u32" where
  "md5_F x y z = ((x AND y) OR (NOT x AND z))"

definition md5_G :: "u32 \<Rightarrow> u32 \<Rightarrow> u32 \<Rightarrow> u32" where
  "md5_G x y z = ((x AND z) OR (y AND NOT z))"

definition md5_H :: "u32 \<Rightarrow> u32 \<Rightarrow> u32 \<Rightarrow> u32" where
  "md5_H x y z = (x XOR y XOR z)"

definition md5_I :: "u32 \<Rightarrow> u32 \<Rightarrow> u32 \<Rightarrow> u32" where
  "md5_I x y z = (y XOR (x OR NOT z))"

definition ROTATE_LEFT :: "u32 \<Rightarrow> nat \<Rightarrow> u32" where
  "ROTATE_LEFT x n = (push_bit n x OR drop_bit (32 - n) x)"

text \<open>The macros return the new value of their first argument.\<close>

definition FF :: "u32 \<Rightarrow> u32 \<Rightarrow> u32 \<Rightarrow> u32 \<Rightarrow> u32 \<Rightarrow> nat \<Rightarrow> u32 \<Rightarrow> u32" where
  "FF a b c d x s ac = ROTATE_LEFT (a + (md5_F b c d + x + ac)) s + b"

definition GG :: "u32 \<Rightarrow> u32 \<Rightarrow> u32 \<Rightarrow> u32 \<Rightarrow> u32 \<Rightarrow> nat \<Rightarrow> u32 \<Rightarrow> u32" where
  "GG a b c d x s ac = ROTATE_LEFT (a + (md5_G b c d + x + ac)) s + b"

definition HH :: "u32 \<Rightarrow> u32 \<Rightarrow> u32 \<Rightarrow> u32 \<Rightarrow> u32 \<Rightarrow> nat \<Rightarrow> u32 \<Rightarrow> u32" where
  "HH a b c d x s ac = ROTATE_LEFT (a + (md5_H b c d + x + ac)) s + b"

definition II :: "u32 \<Rightarrow> u32 \<Rightarrow> u32 \<Rightarrow> u32 \<Rightarrow> u32 \<Rightarrow> nat \<Rightarrow> u32 \<Rightarrow> u32" where
  "II a b c d x s ac = ROTATE_LEFT (a + (md5_I b c d + x + ac)) s + b"

section \<open>Words and bytes\<close>

fun md5_Encode :: "u32 list \<Rightarrow> byte list" where
  "md5_Encode [] = []"
| "md5_Encode (w # ws) =
     [ucast (w AND 0xff), ucast (drop_bit 8 w AND 0xff), ucast (drop_bit 16 w AND 0xff),
      ucast (drop_bit 24 w AND 0xff)] @ md5_Encode ws"

fun md5_Decode :: "byte list \<Rightarrow> u32 list" where
  "md5_Decode (b0 # b1 # b2 # b3 # bs) =
     (ucast b0 OR push_bit 8 (ucast b1) OR push_bit 16 (ucast b2) OR push_bit 24 (ucast b3))
       # md5_Decode bs"
| "md5_Decode _ = []"

section \<open>The block transformation\<close>

text \<open>The four rounds on the registers, with the block as sixteen words \<open>x\<close>.\<close>

definition MD5Rounds :: "u32 list \<Rightarrow> md5_state \<Rightarrow> md5_state" where
  "MD5Rounds x st =
     (case st of (a, b, c, d) \<Rightarrow>
      let a = FF a b c d (x ! 0) S11 0xd76aa478;
      d = FF d a b c (x ! 1) S12 0xe8c7b756;
      c = FF c d a b (x ! 2) S13 0x242070db;
      b = FF b c d a (x ! 3) S14 0xc1bdceee;
      a = FF a b c d (x ! 4) S11 0xf57c0faf;
      d = FF d a b c (x ! 5) S12 0x4787c62a;
      c = FF c d a b (x ! 6) S13 0xa8304613;
      b = FF b c d a (x ! 7) S14 0xfd469501;
      a = FF a b c d (x ! 8) S11 0x698098d8;
      d = FF d a b c (x ! 9) S12 0x8b44f7af;
      c = FF c d a b (x ! 10) S13 0xffff5bb1;
      b = FF b c d a (x ! 11) S14 0x895cd7be;
      a = FF a b c d (x ! 12) S11 0x6b901122;
      d = FF d a b c (x ! 13) S12 0xfd987193;
      c = FF c d a b (x ! 14) S13 0xa679438e;
      b = FF b c d a (x ! 15) S14 0x49b40821;
      a = GG a b c d (x ! 1) S21 0xf61e2562;
      d = GG d a b c (x ! 6) S22 0xc040b340;
      c = GG c d a b (x ! 11) S23 0x265e5a51;
      b = GG b c d a (x ! 0) S24 0xe9b6c7aa;
      a = GG a b c d (x ! 5) S21 0xd62f105d;
      d = GG d a b c (x ! 10) S22 0x2441453;
      c = GG c d a b (x ! 15) S23 0xd8a1e681;
      b = GG b c d a (x ! 4) S24 0xe7d3fbc8;
      a = GG a b c d (x ! 9) S21 0x21e1cde6;
      d = GG d a b c (x ! 14) S22 0xc33707d6;
      c = GG c d a b (x ! 3) S23 0xf4d50d87;
      b = GG b c d a (x ! 8) S24 0x455a14ed;
      a = GG a b c d (x ! 13) S21 0xa9e3e905;
      d = GG d a b c (x ! 2) S22 0xfcefa3f8;
      c = GG c d a b (x ! 7) S23 0x676f02d9;
      b = GG b c d a (x ! 12) S24 0x8d2a4c8a;
      a = HH a b c d (x ! 5) S31 0xfffa3942;
      d = HH d a b c (x ! 8) S32 0x8771f681;
      c = HH c d a b (x ! 11) S33 0x6d9d6122;
      b = HH b c d a (x ! 14) S34 0xfde5380c;
      a = HH a b c d (x ! 1) S31 0xa4beea44;
      d = HH d a b c (x ! 4) S32 0x4bdecfa9;
      c = HH c d a b (x ! 7) S33 0xf6bb4b60;
      b = HH b c d a (x ! 10) S34 0xbebfbc70;
      a = HH a b c d (x ! 13) S31 0x289b7ec6;
      d = HH d a b c (x ! 0) S32 0xeaa127fa;
      c = HH c d a b (x ! 3) S33 0xd4ef3085;
      b = HH b c d a (x ! 6) S34 0x4881d05;
      a = HH a b c d (x ! 9) S31 0xd9d4d039;
      d = HH d a b c (x ! 12) S32 0xe6db99e5;
      c = HH c d a b (x ! 15) S33 0x1fa27cf8;
      b = HH b c d a (x ! 2) S34 0xc4ac5665;
      a = II a b c d (x ! 0) S41 0xf4292244;
      d = II d a b c (x ! 7) S42 0x432aff97;
      c = II c d a b (x ! 14) S43 0xab9423a7;
      b = II b c d a (x ! 5) S44 0xfc93a039;
      a = II a b c d (x ! 12) S41 0x655b59c3;
      d = II d a b c (x ! 3) S42 0x8f0ccc92;
      c = II c d a b (x ! 10) S43 0xffeff47d;
      b = II b c d a (x ! 1) S44 0x85845dd1;
      a = II a b c d (x ! 8) S41 0x6fa87e4f;
      d = II d a b c (x ! 15) S42 0xfe2ce6e0;
      c = II c d a b (x ! 6) S43 0xa3014314;
      b = II b c d a (x ! 13) S44 0x4e0811a1;
      a = II a b c d (x ! 4) S41 0xf7537e82;
      d = II d a b c (x ! 11) S42 0xbd3af235;
      c = II c d a b (x ! 2) S43 0x2ad7d2bb;
      b = II b c d a (x ! 9) S44 0xeb86d391
      in (a, b, c, d))"

definition MD5Transform :: "md5_state \<Rightarrow> byte list \<Rightarrow> md5_state" where
  "MD5Transform st block =
     (case (st, MD5Rounds (md5_Decode block) st) of
        ((a0, b0, c0, d0), (a, b, c, d)) \<Rightarrow> (a0 + a, b0 + b, c0 + c, d0 + d))"

section \<open>Initialisation, update, finalisation\<close>

definition smlMD5Init :: "MD5_CTX \<Rightarrow> MD5_CTX" where
  "smlMD5Init context0 = context0\<lparr>md_count0 := 0, md_count1 := 0,
     md_state := (0x67452301, 0xefcdab89, 0x98badcfe, 0x10325476)\<rparr>"

function md5_blocks :: "md5_state \<Rightarrow> byte list \<Rightarrow> nat \<Rightarrow> md5_state \<times> nat" where
  "md5_blocks st input i =
     (if i + 63 < length input
      then md5_blocks (MD5Transform st (take 64 (drop i input))) input (i + 64)
      else (st, i))"
  by pat_completeness auto
termination
  by (relation "measure (\<lambda>(st, input, i). length input - i)") auto

declare md5_blocks.simps [simp del]

text \<open>\<open>memcpy\<close> into the buffer at an offset.\<close>

definition md5_put :: "byte list \<Rightarrow> nat \<Rightarrow> byte list \<Rightarrow> byte list" where
  "md5_put buf index bs = take index buf @ bs @ drop (index + length bs) buf"

definition smlMD5Update :: "MD5_CTX \<Rightarrow> byte list \<Rightarrow> MD5_CTX" where
  "smlMD5Update ctx input =
     (let inputLen = of_nat (length input) :: u32;
          index = unat (drop_bit 3 (md_count0 ctx) AND 0x3F);
          count0 = md_count0 ctx + push_bit 3 inputLen;
          count1 = (if count0 < push_bit 3 inputLen then md_count1 ctx + 1 else md_count1 ctx);
          count1 = count1 + drop_bit 29 inputLen;
          partLen = 64 - index;
          (st, buf, index, i) =
            (if partLen \<le> length input
             then (let buf = md5_put (md_buffer ctx) index (take partLen input);
                       st = MD5Transform (md_state ctx) buf;
                       (st, i) = md5_blocks st input partLen
                   in (st, buf, 0, i))
             else (md_state ctx, md_buffer ctx, index, 0))
      in \<lparr>md_state = st, md_count0 = count0, md_count1 = count1,
          md_buffer = md5_put buf index (drop i input)\<rparr>)"

text \<open>The digest, and the context with everything set to zero.\<close>

definition md5_zero :: MD5_CTX where
  "md5_zero = \<lparr>md_state = (0, 0, 0, 0), md_count0 = 0, md_count1 = 0, md_buffer = replicate 64 0\<rparr>"

definition smlMD5Final :: "MD5_CTX \<Rightarrow> byte list \<times> MD5_CTX" where
  "smlMD5Final ctx =
     (let bits = md5_Encode [md_count0 ctx, md_count1 ctx];
          index = unat (drop_bit 3 (md_count0 ctx) AND 0x3f);
          padLen = (if index < 56 then 56 - index else 120 - index);
          ctx = smlMD5Update ctx (take padLen PADDING);
          ctx = smlMD5Update ctx bits;
          digest = (case md_state ctx of (a, b, c, d) \<Rightarrow> md5_Encode [a, b, c, d])
      in (digest, md5_zero))"

section \<open>The digest of RFC 1321\<close>

text \<open>
  The compression function as the RFC tabulates it: step \<open>i\<close> (from 0) of round \<open>r = i div 16\<close>
  uses the round's boolean function, word \<open>i\<close>, \<open>5i+1\<close>, \<open>3i+5\<close> or \<open>7i\<close> modulo 16 of the
  block, a shift that depends on the round and on \<open>i mod 4\<close>, and constant \<open>T[i+1]\<close>; after each
  step the registers rotate.
\<close>

definition md5_T :: "u32 list" where
  "md5_T =
    [0xd76aa478, 0xe8c7b756, 0x242070db, 0xc1bdceee, 0xf57c0faf, 0x4787c62a,
     0xa8304613, 0xfd469501, 0x698098d8, 0x8b44f7af, 0xffff5bb1, 0x895cd7be,
     0x6b901122, 0xfd987193, 0xa679438e, 0x49b40821, 0xf61e2562, 0xc040b340,
     0x265e5a51, 0xe9b6c7aa, 0xd62f105d, 0x2441453, 0xd8a1e681, 0xe7d3fbc8,
     0x21e1cde6, 0xc33707d6, 0xf4d50d87, 0x455a14ed, 0xa9e3e905, 0xfcefa3f8,
     0x676f02d9, 0x8d2a4c8a, 0xfffa3942, 0x8771f681, 0x6d9d6122, 0xfde5380c,
     0xa4beea44, 0x4bdecfa9, 0xf6bb4b60, 0xbebfbc70, 0x289b7ec6, 0xeaa127fa,
     0xd4ef3085, 0x4881d05, 0xd9d4d039, 0xe6db99e5, 0x1fa27cf8, 0xc4ac5665,
     0xf4292244, 0x432aff97, 0xab9423a7, 0xfc93a039, 0x655b59c3, 0x8f0ccc92,
     0xffeff47d, 0x85845dd1, 0x6fa87e4f, 0xfe2ce6e0, 0xa3014314, 0x4e0811a1,
     0xf7537e82, 0xbd3af235, 0x2ad7d2bb, 0xeb86d391]"

definition rfc_fun :: "nat \<Rightarrow> u32 \<Rightarrow> u32 \<Rightarrow> u32 \<Rightarrow> u32" where
  "rfc_fun r = [md5_F, md5_G, md5_H, md5_I] ! r"

definition rfc_index :: "nat \<Rightarrow> nat" where
  "rfc_index i = [i, 5 * i + 1, 3 * i + 5, 7 * i] ! (i div 16) mod 16"

definition rfc_shift :: "nat \<Rightarrow> nat" where
  "rfc_shift i = [[7, 12, 17, 22], [5, 9, 14, 20], [4, 11, 16, 23], [6, 10, 15, 21]] ! (i div 16) ! (i mod 4)"

definition rfc_value :: "nat \<Rightarrow> u32 list \<Rightarrow> u32 \<Rightarrow> u32 \<Rightarrow> u32 \<Rightarrow> u32 \<Rightarrow> u32" where
  "rfc_value i x a b c d =
     ROTATE_LEFT (a + (rfc_fun (i div 16) b c d + x ! rfc_index i + md5_T ! i)) (rfc_shift i) + b"

fun rfc_steps :: "nat list \<Rightarrow> u32 list \<Rightarrow> md5_state \<Rightarrow> md5_state" where
  "rfc_steps [] x s = s"
| "rfc_steps (i # is) x (a, b, c, d) = rfc_steps is x (d, rfc_value i x a b c d, b, c)"

definition rfc_compress :: "md5_state \<Rightarrow> byte list \<Rightarrow> md5_state" where
  "rfc_compress st block =
     (case (st, rfc_steps [0..<64] (md5_Decode block) st) of
        ((a0, b0, c0, d0), (a, b, c, d)) \<Rightarrow> (a0 + a, b0 + b, c0 + c, d0 + d))"

lemma rfc_steps_4:
  "rfc_steps (i # j # k # l # is) x (a, b, c, d) =
     (let a = rfc_value i x a b c d; d = rfc_value j x d a b c; c = rfc_value k x c d a b;
          b = rfc_value l x b c d a in rfc_steps is x (a, b, c, d))"
  by (simp add: Let_def)

lemma upt_64: "[0..<64] = [0,1,2,3,4,5,6,7,8,9,10,11,12,13,14,15,16,17,18,19,20,21,22,23,24,25,
  26,27,28,29,30,31,32,33,34,35,36,37,38,39,40,41,42,43,44,45,46,47,48,49,50,51,52,53,54,55,56,57,
  58,59,60,61,62,63]"
  by (simp add: upt_rec)

lemma rfc_tables:
  "rfc_index 0 = 0" "rfc_shift 0 = S11" "rfc_fun (0 div 16) = md5_F" "md5_T ! 0 = 0xd76aa478"
  "rfc_index 1 = 1" "rfc_shift 1 = S12" "rfc_fun (1 div 16) = md5_F" "md5_T ! 1 = 0xe8c7b756"
  "rfc_index 2 = 2" "rfc_shift 2 = S13" "rfc_fun (2 div 16) = md5_F" "md5_T ! 2 = 0x242070db"
  "rfc_index 3 = 3" "rfc_shift 3 = S14" "rfc_fun (3 div 16) = md5_F" "md5_T ! 3 = 0xc1bdceee"
  "rfc_index 4 = 4" "rfc_shift 4 = S11" "rfc_fun (4 div 16) = md5_F" "md5_T ! 4 = 0xf57c0faf"
  "rfc_index 5 = 5" "rfc_shift 5 = S12" "rfc_fun (5 div 16) = md5_F" "md5_T ! 5 = 0x4787c62a"
  "rfc_index 6 = 6" "rfc_shift 6 = S13" "rfc_fun (6 div 16) = md5_F" "md5_T ! 6 = 0xa8304613"
  "rfc_index 7 = 7" "rfc_shift 7 = S14" "rfc_fun (7 div 16) = md5_F" "md5_T ! 7 = 0xfd469501"
  "rfc_index 8 = 8" "rfc_shift 8 = S11" "rfc_fun (8 div 16) = md5_F" "md5_T ! 8 = 0x698098d8"
  "rfc_index 9 = 9" "rfc_shift 9 = S12" "rfc_fun (9 div 16) = md5_F" "md5_T ! 9 = 0x8b44f7af"
  "rfc_index 10 = 10" "rfc_shift 10 = S13" "rfc_fun (10 div 16) = md5_F" "md5_T ! 10 = 0xffff5bb1"
  "rfc_index 11 = 11" "rfc_shift 11 = S14" "rfc_fun (11 div 16) = md5_F" "md5_T ! 11 = 0x895cd7be"
  "rfc_index 12 = 12" "rfc_shift 12 = S11" "rfc_fun (12 div 16) = md5_F" "md5_T ! 12 = 0x6b901122"
  "rfc_index 13 = 13" "rfc_shift 13 = S12" "rfc_fun (13 div 16) = md5_F" "md5_T ! 13 = 0xfd987193"
  "rfc_index 14 = 14" "rfc_shift 14 = S13" "rfc_fun (14 div 16) = md5_F" "md5_T ! 14 = 0xa679438e"
  "rfc_index 15 = 15" "rfc_shift 15 = S14" "rfc_fun (15 div 16) = md5_F" "md5_T ! 15 = 0x49b40821"
  "rfc_index 16 = 1" "rfc_shift 16 = S21" "rfc_fun (16 div 16) = md5_G" "md5_T ! 16 = 0xf61e2562"
  "rfc_index 17 = 6" "rfc_shift 17 = S22" "rfc_fun (17 div 16) = md5_G" "md5_T ! 17 = 0xc040b340"
  "rfc_index 18 = 11" "rfc_shift 18 = S23" "rfc_fun (18 div 16) = md5_G" "md5_T ! 18 = 0x265e5a51"
  "rfc_index 19 = 0" "rfc_shift 19 = S24" "rfc_fun (19 div 16) = md5_G" "md5_T ! 19 = 0xe9b6c7aa"
  "rfc_index 20 = 5" "rfc_shift 20 = S21" "rfc_fun (20 div 16) = md5_G" "md5_T ! 20 = 0xd62f105d"
  "rfc_index 21 = 10" "rfc_shift 21 = S22" "rfc_fun (21 div 16) = md5_G" "md5_T ! 21 = 0x2441453"
  "rfc_index 22 = 15" "rfc_shift 22 = S23" "rfc_fun (22 div 16) = md5_G" "md5_T ! 22 = 0xd8a1e681"
  "rfc_index 23 = 4" "rfc_shift 23 = S24" "rfc_fun (23 div 16) = md5_G" "md5_T ! 23 = 0xe7d3fbc8"
  "rfc_index 24 = 9" "rfc_shift 24 = S21" "rfc_fun (24 div 16) = md5_G" "md5_T ! 24 = 0x21e1cde6"
  "rfc_index 25 = 14" "rfc_shift 25 = S22" "rfc_fun (25 div 16) = md5_G" "md5_T ! 25 = 0xc33707d6"
  "rfc_index 26 = 3" "rfc_shift 26 = S23" "rfc_fun (26 div 16) = md5_G" "md5_T ! 26 = 0xf4d50d87"
  "rfc_index 27 = 8" "rfc_shift 27 = S24" "rfc_fun (27 div 16) = md5_G" "md5_T ! 27 = 0x455a14ed"
  "rfc_index 28 = 13" "rfc_shift 28 = S21" "rfc_fun (28 div 16) = md5_G" "md5_T ! 28 = 0xa9e3e905"
  "rfc_index 29 = 2" "rfc_shift 29 = S22" "rfc_fun (29 div 16) = md5_G" "md5_T ! 29 = 0xfcefa3f8"
  "rfc_index 30 = 7" "rfc_shift 30 = S23" "rfc_fun (30 div 16) = md5_G" "md5_T ! 30 = 0x676f02d9"
  "rfc_index 31 = 12" "rfc_shift 31 = S24" "rfc_fun (31 div 16) = md5_G" "md5_T ! 31 = 0x8d2a4c8a"
  "rfc_index 32 = 5" "rfc_shift 32 = S31" "rfc_fun (32 div 16) = md5_H" "md5_T ! 32 = 0xfffa3942"
  "rfc_index 33 = 8" "rfc_shift 33 = S32" "rfc_fun (33 div 16) = md5_H" "md5_T ! 33 = 0x8771f681"
  "rfc_index 34 = 11" "rfc_shift 34 = S33" "rfc_fun (34 div 16) = md5_H" "md5_T ! 34 = 0x6d9d6122"
  "rfc_index 35 = 14" "rfc_shift 35 = S34" "rfc_fun (35 div 16) = md5_H" "md5_T ! 35 = 0xfde5380c"
  "rfc_index 36 = 1" "rfc_shift 36 = S31" "rfc_fun (36 div 16) = md5_H" "md5_T ! 36 = 0xa4beea44"
  "rfc_index 37 = 4" "rfc_shift 37 = S32" "rfc_fun (37 div 16) = md5_H" "md5_T ! 37 = 0x4bdecfa9"
  "rfc_index 38 = 7" "rfc_shift 38 = S33" "rfc_fun (38 div 16) = md5_H" "md5_T ! 38 = 0xf6bb4b60"
  "rfc_index 39 = 10" "rfc_shift 39 = S34" "rfc_fun (39 div 16) = md5_H" "md5_T ! 39 = 0xbebfbc70"
  "rfc_index 40 = 13" "rfc_shift 40 = S31" "rfc_fun (40 div 16) = md5_H" "md5_T ! 40 = 0x289b7ec6"
  "rfc_index 41 = 0" "rfc_shift 41 = S32" "rfc_fun (41 div 16) = md5_H" "md5_T ! 41 = 0xeaa127fa"
  "rfc_index 42 = 3" "rfc_shift 42 = S33" "rfc_fun (42 div 16) = md5_H" "md5_T ! 42 = 0xd4ef3085"
  "rfc_index 43 = 6" "rfc_shift 43 = S34" "rfc_fun (43 div 16) = md5_H" "md5_T ! 43 = 0x4881d05"
  "rfc_index 44 = 9" "rfc_shift 44 = S31" "rfc_fun (44 div 16) = md5_H" "md5_T ! 44 = 0xd9d4d039"
  "rfc_index 45 = 12" "rfc_shift 45 = S32" "rfc_fun (45 div 16) = md5_H" "md5_T ! 45 = 0xe6db99e5"
  "rfc_index 46 = 15" "rfc_shift 46 = S33" "rfc_fun (46 div 16) = md5_H" "md5_T ! 46 = 0x1fa27cf8"
  "rfc_index 47 = 2" "rfc_shift 47 = S34" "rfc_fun (47 div 16) = md5_H" "md5_T ! 47 = 0xc4ac5665"
  "rfc_index 48 = 0" "rfc_shift 48 = S41" "rfc_fun (48 div 16) = md5_I" "md5_T ! 48 = 0xf4292244"
  "rfc_index 49 = 7" "rfc_shift 49 = S42" "rfc_fun (49 div 16) = md5_I" "md5_T ! 49 = 0x432aff97"
  "rfc_index 50 = 14" "rfc_shift 50 = S43" "rfc_fun (50 div 16) = md5_I" "md5_T ! 50 = 0xab9423a7"
  "rfc_index 51 = 5" "rfc_shift 51 = S44" "rfc_fun (51 div 16) = md5_I" "md5_T ! 51 = 0xfc93a039"
  "rfc_index 52 = 12" "rfc_shift 52 = S41" "rfc_fun (52 div 16) = md5_I" "md5_T ! 52 = 0x655b59c3"
  "rfc_index 53 = 3" "rfc_shift 53 = S42" "rfc_fun (53 div 16) = md5_I" "md5_T ! 53 = 0x8f0ccc92"
  "rfc_index 54 = 10" "rfc_shift 54 = S43" "rfc_fun (54 div 16) = md5_I" "md5_T ! 54 = 0xffeff47d"
  "rfc_index 55 = 1" "rfc_shift 55 = S44" "rfc_fun (55 div 16) = md5_I" "md5_T ! 55 = 0x85845dd1"
  "rfc_index 56 = 8" "rfc_shift 56 = S41" "rfc_fun (56 div 16) = md5_I" "md5_T ! 56 = 0x6fa87e4f"
  "rfc_index 57 = 15" "rfc_shift 57 = S42" "rfc_fun (57 div 16) = md5_I" "md5_T ! 57 = 0xfe2ce6e0"
  "rfc_index 58 = 6" "rfc_shift 58 = S43" "rfc_fun (58 div 16) = md5_I" "md5_T ! 58 = 0xa3014314"
  "rfc_index 59 = 13" "rfc_shift 59 = S44" "rfc_fun (59 div 16) = md5_I" "md5_T ! 59 = 0x4e0811a1"
  "rfc_index 60 = 4" "rfc_shift 60 = S41" "rfc_fun (60 div 16) = md5_I" "md5_T ! 60 = 0xf7537e82"
  "rfc_index 61 = 11" "rfc_shift 61 = S42" "rfc_fun (61 div 16) = md5_I" "md5_T ! 61 = 0xbd3af235"
  "rfc_index 62 = 2" "rfc_shift 62 = S43" "rfc_fun (62 div 16) = md5_I" "md5_T ! 62 = 0x2ad7d2bb"
  "rfc_index 63 = 9" "rfc_shift 63 = S44" "rfc_fun (63 div 16) = md5_I" "md5_T ! 63 = 0xeb86d391"
  by (simp_all add: rfc_fun_def rfc_index_def rfc_shift_def md5_T_def md5_shifts)

lemma rfc_value_code:
  "rfc_value 0 x a b c d = FF a b c d (x ! 0) S11 0xd76aa478"
  "rfc_value 1 x a b c d = FF a b c d (x ! 1) S12 0xe8c7b756"
  "rfc_value 2 x a b c d = FF a b c d (x ! 2) S13 0x242070db"
  "rfc_value 3 x a b c d = FF a b c d (x ! 3) S14 0xc1bdceee"
  "rfc_value 4 x a b c d = FF a b c d (x ! 4) S11 0xf57c0faf"
  "rfc_value 5 x a b c d = FF a b c d (x ! 5) S12 0x4787c62a"
  "rfc_value 6 x a b c d = FF a b c d (x ! 6) S13 0xa8304613"
  "rfc_value 7 x a b c d = FF a b c d (x ! 7) S14 0xfd469501"
  "rfc_value 8 x a b c d = FF a b c d (x ! 8) S11 0x698098d8"
  "rfc_value 9 x a b c d = FF a b c d (x ! 9) S12 0x8b44f7af"
  "rfc_value 10 x a b c d = FF a b c d (x ! 10) S13 0xffff5bb1"
  "rfc_value 11 x a b c d = FF a b c d (x ! 11) S14 0x895cd7be"
  "rfc_value 12 x a b c d = FF a b c d (x ! 12) S11 0x6b901122"
  "rfc_value 13 x a b c d = FF a b c d (x ! 13) S12 0xfd987193"
  "rfc_value 14 x a b c d = FF a b c d (x ! 14) S13 0xa679438e"
  "rfc_value 15 x a b c d = FF a b c d (x ! 15) S14 0x49b40821"
  "rfc_value 16 x a b c d = GG a b c d (x ! 1) S21 0xf61e2562"
  "rfc_value 17 x a b c d = GG a b c d (x ! 6) S22 0xc040b340"
  "rfc_value 18 x a b c d = GG a b c d (x ! 11) S23 0x265e5a51"
  "rfc_value 19 x a b c d = GG a b c d (x ! 0) S24 0xe9b6c7aa"
  "rfc_value 20 x a b c d = GG a b c d (x ! 5) S21 0xd62f105d"
  "rfc_value 21 x a b c d = GG a b c d (x ! 10) S22 0x2441453"
  "rfc_value 22 x a b c d = GG a b c d (x ! 15) S23 0xd8a1e681"
  "rfc_value 23 x a b c d = GG a b c d (x ! 4) S24 0xe7d3fbc8"
  "rfc_value 24 x a b c d = GG a b c d (x ! 9) S21 0x21e1cde6"
  "rfc_value 25 x a b c d = GG a b c d (x ! 14) S22 0xc33707d6"
  "rfc_value 26 x a b c d = GG a b c d (x ! 3) S23 0xf4d50d87"
  "rfc_value 27 x a b c d = GG a b c d (x ! 8) S24 0x455a14ed"
  "rfc_value 28 x a b c d = GG a b c d (x ! 13) S21 0xa9e3e905"
  "rfc_value 29 x a b c d = GG a b c d (x ! 2) S22 0xfcefa3f8"
  "rfc_value 30 x a b c d = GG a b c d (x ! 7) S23 0x676f02d9"
  "rfc_value 31 x a b c d = GG a b c d (x ! 12) S24 0x8d2a4c8a"
  "rfc_value 32 x a b c d = HH a b c d (x ! 5) S31 0xfffa3942"
  "rfc_value 33 x a b c d = HH a b c d (x ! 8) S32 0x8771f681"
  "rfc_value 34 x a b c d = HH a b c d (x ! 11) S33 0x6d9d6122"
  "rfc_value 35 x a b c d = HH a b c d (x ! 14) S34 0xfde5380c"
  "rfc_value 36 x a b c d = HH a b c d (x ! 1) S31 0xa4beea44"
  "rfc_value 37 x a b c d = HH a b c d (x ! 4) S32 0x4bdecfa9"
  "rfc_value 38 x a b c d = HH a b c d (x ! 7) S33 0xf6bb4b60"
  "rfc_value 39 x a b c d = HH a b c d (x ! 10) S34 0xbebfbc70"
  "rfc_value 40 x a b c d = HH a b c d (x ! 13) S31 0x289b7ec6"
  "rfc_value 41 x a b c d = HH a b c d (x ! 0) S32 0xeaa127fa"
  "rfc_value 42 x a b c d = HH a b c d (x ! 3) S33 0xd4ef3085"
  "rfc_value 43 x a b c d = HH a b c d (x ! 6) S34 0x4881d05"
  "rfc_value 44 x a b c d = HH a b c d (x ! 9) S31 0xd9d4d039"
  "rfc_value 45 x a b c d = HH a b c d (x ! 12) S32 0xe6db99e5"
  "rfc_value 46 x a b c d = HH a b c d (x ! 15) S33 0x1fa27cf8"
  "rfc_value 47 x a b c d = HH a b c d (x ! 2) S34 0xc4ac5665"
  "rfc_value 48 x a b c d = II a b c d (x ! 0) S41 0xf4292244"
  "rfc_value 49 x a b c d = II a b c d (x ! 7) S42 0x432aff97"
  "rfc_value 50 x a b c d = II a b c d (x ! 14) S43 0xab9423a7"
  "rfc_value 51 x a b c d = II a b c d (x ! 5) S44 0xfc93a039"
  "rfc_value 52 x a b c d = II a b c d (x ! 12) S41 0x655b59c3"
  "rfc_value 53 x a b c d = II a b c d (x ! 3) S42 0x8f0ccc92"
  "rfc_value 54 x a b c d = II a b c d (x ! 10) S43 0xffeff47d"
  "rfc_value 55 x a b c d = II a b c d (x ! 1) S44 0x85845dd1"
  "rfc_value 56 x a b c d = II a b c d (x ! 8) S41 0x6fa87e4f"
  "rfc_value 57 x a b c d = II a b c d (x ! 15) S42 0xfe2ce6e0"
  "rfc_value 58 x a b c d = II a b c d (x ! 6) S43 0xa3014314"
  "rfc_value 59 x a b c d = II a b c d (x ! 13) S44 0x4e0811a1"
  "rfc_value 60 x a b c d = II a b c d (x ! 4) S41 0xf7537e82"
  "rfc_value 61 x a b c d = II a b c d (x ! 11) S42 0xbd3af235"
  "rfc_value 62 x a b c d = II a b c d (x ! 2) S43 0x2ad7d2bb"
  "rfc_value 63 x a b c d = II a b c d (x ! 9) S44 0xeb86d391"
  unfolding rfc_value_def FF_def GG_def HH_def II_def
  by (simp_all only: rfc_tables)

lemma MD5Rounds_rfc: "MD5Rounds x st = rfc_steps [0..<64] x st"
  by (cases st) (simp only: MD5Rounds_def prod.case upt_64 rfc_steps_4 rfc_value_code rfc_steps.simps(1))

lemma MD5Transform_rfc: "MD5Transform st block = rfc_compress st block"
  by (simp add: MD5Transform_def rfc_compress_def MD5Rounds_rfc)

text \<open>Splitting, padding and length of the message.\<close>

definition md5_init_state :: md5_state where
  "md5_init_state = (0x67452301, 0xefcdab89, 0x98badcfe, 0x10325476)"

function rfc_process :: "md5_state \<Rightarrow> byte list \<Rightarrow> md5_state" where
  "rfc_process st bs =
     (if length bs < 64 then st else rfc_process (rfc_compress st (take 64 bs)) (drop 64 bs))"
  by pat_completeness auto
termination
  by (relation "measure (\<lambda>(st, bs). length bs)") auto

declare rfc_process.simps [simp del]

definition rfc_pad :: "byte list \<Rightarrow> byte list" where
  "rfc_pad m = m @ [0x80] @ replicate ((119 - length m mod 64) mod 64) 0"

definition rfc_length :: "byte list \<Rightarrow> byte list" where
  "rfc_length m = map (\<lambda>i. of_nat (8 * length m div 256 ^ i)) [0..<8]"

definition rfc_md5 :: "byte list \<Rightarrow> byte list" where
  "rfc_md5 m = (case rfc_process md5_init_state (rfc_pad m @ rfc_length m) of
     (a, b, c, d) \<Rightarrow> md5_Encode [a, b, c, d])"

section \<open>The streaming interface against the reference\<close>

lemma rfc_process_small: "length bs < 64 \<Longrightarrow> rfc_process st bs = st"
  by (simp add: rfc_process.simps)

lemma rfc_process_block:
  "length b = 64 \<Longrightarrow> rfc_process st (b @ bs) = rfc_process (rfc_compress st b) bs"
  by (subst rfc_process.simps) simp

lemma rfc_process_append:
  "length xs = 64 * k \<Longrightarrow> rfc_process st (xs @ ys) = rfc_process (rfc_process st xs) ys"
proof (induction k arbitrary: xs st)
  case 0
  then show ?case by (simp add: rfc_process_small)
next
  case (Suc k)
  then have xs: "xs = take 64 xs @ drop 64 xs" and "length (take 64 xs) = 64"
    and "length (drop 64 xs) = 64 * k"
    by simp_all
  with Suc.IH show ?case
    by (metis append_assoc rfc_process_block)
qed

lemma md5_blocks_process:
  "md5_blocks st input i = (st', j) \<Longrightarrow>
     st' = rfc_process st (drop i input) \<and> i \<le> j \<and> length (drop j input) < 64
     \<and> (i \<le> length input \<longrightarrow> j \<le> length input) \<and> (\<exists>k. j = i + 64 * k)"
proof (induction st input i rule: md5_blocks.induct)
  case (1 st input i)
  show ?case
  proof (cases "i + 63 < length input")
    case True
    with "1.prems" have *: "md5_blocks (MD5Transform st (take 64 (drop i input))) input (i + 64) = (st', j)"
      by (simp add: md5_blocks.simps [of st])
    have "rfc_process st (drop i input) =
        rfc_process (MD5Transform st (take 64 (drop i input))) (drop (i + 64) input)"
    proof -
      have "\<not> length (drop i input) < 64" using True by simp
      then show ?thesis
        using rfc_process.simps [of st "drop i input"]
        by (simp only: if_False MD5Transform_rfc drop_drop add.commute)
    qed
    with "1.IH" [OF True *] True show ?thesis
      by (auto simp: add.assoc) (metis add.commute mult_Suc_right)
  next
    case False
    with "1.prems" have "st' = st" "j = i"
      by (simp_all add: md5_blocks.simps [of st])
    with False show ?thesis
      by (auto simp: rfc_process_small)
  qed
qed

definition md5_inv :: "byte list \<Rightarrow> MD5_CTX \<Rightarrow> bool" where
  "md5_inv m ctx \<longleftrightarrow> length (md_buffer ctx) = 64
     \<and> md_state ctx = rfc_process md5_init_state m
     \<and> take (length m mod 64) (md_buffer ctx) = drop (64 * (length m div 64)) m
     \<and> md_count0 ctx = of_nat (8 * length m)
     \<and> md_count1 ctx = of_nat (8 * length m div 2 ^ 32)"

lemma md5_inv_init: "length (md_buffer ctx) = 64 \<Longrightarrow> md5_inv [] (smlMD5Init ctx)"
  by (simp add: md5_inv_def smlMD5Init_def md5_init_state_def rfc_process_small)

lemma md5_index: "unat (drop_bit 3 (of_nat (8 * n) :: u32) AND 0x3F) = n mod 64"
proof -
  have m: "(0x3F :: u32) = mask 6" by (simp add: mask_eq_exp_minus_1)
  have n: "n mod 64 = take_bit 6 n" by (simp add: take_bit_eq_mod)
  have e: "8 * n = push_bit 3 n" by (simp add: push_bit_eq_mult)
  have "drop_bit 3 (of_nat (8 * n) :: u32) AND 0x3F = of_nat (n mod 64)"
    unfolding m n e by (rule bit_word_eqI) (auto simp: bit_simps)
  then show ?thesis by (simp add: unat_of_nat_u32 order.strict_trans [of _ 64])
qed

lemma div_one: "w \<le> s \<Longrightarrow> s < 2 * w \<Longrightarrow> s div w = (1::nat)"
  by (rule div_nat_eqI) simp_all

lemma mod_one: "w \<le> s \<Longrightarrow> s < 2 * w \<Longrightarrow> s mod w = s - (w::nat)"
  by (simp add: le_mod_geq)

lemma carry_div:
  fixes a b w :: nat
  assumes "0 < w"
  shows "(a + b) div w = a div w + b div w + (if (a + b) mod w < b mod w then 1 else 0)"
proof -
  let ?s = "a mod w + b mod w"
  have a: "a mod w < w" and b: "b mod w < w" using assms by simp_all
  have m: "(a + b) mod w = ?s mod w" by (simp add: mod_add_eq)
  show ?thesis
  proof (cases "?s < w")
    case True
    then show ?thesis by (simp add: div_add1_eq [of a b] m)
  next
    case False
    have "w \<le> ?s" "?s < 2 * w" using a b False by linarith+
    then have "?s div w = 1" and "?s mod w = ?s - w" by (rule div_one, rule mod_one)
    moreover have "?s - w < b mod w" using a b False by linarith
    ultimately show ?thesis by (simp add: div_add1_eq [of a b] m)
  qed
qed

lemma u32_less_of_nat: "(of_nat x :: u32) < of_nat y \<longleftrightarrow> x mod 2 ^ 32 < y mod 2 ^ 32"
  by (simp add: word_less_nat_alt unsigned_of_nat take_bit_eq_mod)

lemma push_bit_3_of_nat: "push_bit 3 (of_nat n :: u32) = of_nat (8 * n)"
  by (simp add: push_bit_eq_mult mult.commute)

lemma drop_bit_29_of_nat: "n < 2 ^ 32 \<Longrightarrow> drop_bit 29 (of_nat n :: u32) = of_nat (8 * n div 2 ^ 32)"
proof -
  assume n: "n < 2 ^ 32"
  have "8 * n div 2 ^ 32 = n div 2 ^ 29" by simp
  moreover have "drop_bit 29 (of_nat n :: u32) = of_nat n div of_nat (2 ^ 29)"
    by (simp add: drop_bit_eq_div)
  moreover have "(of_nat n :: u32) div of_nat (2 ^ 29) = of_nat (n div 2 ^ 29)"
    by (rule u32_of_nat_div [OF n]) simp
  ultimately show ?thesis by (simp only:)
qed

text \<open>The bit counter over both words.\<close>

lemma md5_counts:
  assumes "md_count0 ctx = of_nat (8 * k)" and "md_count1 ctx = of_nat (8 * k div 2 ^ 32)"
    and "length input < 2 ^ 32"
  shows "md_count0 (smlMD5Update ctx input) = of_nat (8 * (k + length input))"
    and "md_count1 (smlMD5Update ctx input) = of_nat (8 * (k + length input) div 2 ^ 32)"
proof -
  let ?n = "length input"
  have c0: "md_count0 (smlMD5Update ctx input) = md_count0 ctx + push_bit 3 (of_nat ?n)"
    and c1: "md_count1 (smlMD5Update ctx input) = (if md_count0 ctx + push_bit 3 (of_nat ?n)
        < push_bit 3 (of_nat ?n) then md_count1 ctx + 1 else md_count1 ctx) + drop_bit 29 (of_nat ?n)"
    by (simp_all add: smlMD5Update_def Let_def split: prod.splits)
  have s: "(of_nat (8 * k) + of_nat (8 * ?n) :: u32) = of_nat (8 * (k + ?n))"
    by (simp add: algebra_simps)
  show "md_count0 (smlMD5Update ctx input) = of_nat (8 * (k + ?n))"
    by (simp only: c0 assms(1) push_bit_3_of_nat s)
  have "md_count1 (smlMD5Update ctx input) = of_nat (8 * k div 2 ^ 32 + 8 * ?n div 2 ^ 32
      + (if 8 * (k + ?n) mod 2 ^ 32 < 8 * ?n mod 2 ^ 32 then 1 else 0))"
    by (simp only: c1 assms(1,2) push_bit_3_of_nat s u32_less_of_nat drop_bit_29_of_nat [OF assms(3)]) simp
  also have "\<dots> = of_nat (8 * (k + ?n) div 2 ^ 32)"
    using carry_div [of "2 ^ 32" "8 * k" "8 * ?n"] by (simp only: add_mult_distrib2) simp
  finally show "md_count1 (smlMD5Update ctx input) = of_nat (8 * (k + ?n) div 2 ^ 32)" .
qed

lemma tail_split:
  fixes m :: "'a list"
  obtains A r k where "m = A @ r" and "length A = 64 * k" and "length r < 64"
proof
  let ?k = "64 * (length m div 64)"
  show "m = take ?k m @ drop ?k m" by simp
  show "length (take ?k m) = ?k" and "length (drop ?k m) < 64"
    by (simp_all add: minus_mult_div_eq_mod)
qed

lemma md5_inv_split:
  assumes "length A = 64 * k" and "length r < 64"
  shows "md5_inv (A @ r) ctx \<longleftrightarrow> length (md_buffer ctx) = 64
     \<and> md_state ctx = rfc_process md5_init_state A \<and> take (length r) (md_buffer ctx) = r
     \<and> md_count0 ctx = of_nat (8 * length (A @ r))
     \<and> md_count1 ctx = of_nat (8 * length (A @ r) div 2 ^ 32)"
  using assms by (simp add: md5_inv_def rfc_process_append rfc_process_small del: of_nat_mult)

lemma md5_put_start:
  "length buf = 64 \<Longrightarrow> length bs \<le> 64 \<Longrightarrow>
     length (md5_put buf 0 bs) = 64 \<and> take (length bs) (md5_put buf 0 bs) = bs"
  by (simp add: md5_put_def)

lemma md5_update_split:
  assumes idx: "unat (drop_bit 3 (md_count0 ctx) AND 0x3F) = length r" and "length r < 64"
    and buf: "length (md_buffer ctx) = 64" "take (length r) (md_buffer ctx) = r"
  obtains A' r' k' where "r @ input = A' @ r'" and "length A' = 64 * k'" and "length r' < 64"
    and "md_state (smlMD5Update ctx input) = rfc_process (md_state ctx) A'"
    and "length (md_buffer (smlMD5Update ctx input)) = 64"
    and "take (length r') (md_buffer (smlMD5Update ctx input)) = r'"
proof (cases "64 - length r \<le> length input")
  case True
  let ?part = "64 - length r"
  let ?b = "r @ take ?part input"
  have b: "md5_put (md_buffer ctx) (length r) (take ?part input) = ?b" and lb: "length ?b = 64"
    using True buf assms(2) by (simp_all add: md5_put_def min_def)
  obtain st' i where bl: "md5_blocks (MD5Transform (md_state ctx) ?b) input ?part = (st', i)"
    by fastforce
  from md5_blocks_process [OF bl] True obtain k where
    st': "st' = rfc_process (rfc_compress (md_state ctx) ?b) (drop ?part input)"
    and i: "i = ?part + 64 * k" "i \<le> length input" "length input - i < 64"
    by (auto simp: MD5Transform_rfc)
  have up: "md_state (smlMD5Update ctx input) = st'"
    "md_buffer (smlMD5Update ctx input) = md5_put ?b 0 (drop i input)"
    using True by (simp_all add: smlMD5Update_def idx Let_def b bl)
  let ?mid = "take (64 * k) (drop ?part input)"
  have d: "drop ?part input = ?mid @ drop i input"
    by (simp add: i(1) add.commute flip: drop_drop)
  have lm: "length ?mid = 64 * k" using i by simp
  from st' have "st' = rfc_process (rfc_compress (md_state ctx) ?b) (?mid @ drop i input)"
    by (subst (asm) d)
  then have "st' = rfc_process (rfc_compress (md_state ctx) ?b) ?mid"
    using i(3) by (simp only: rfc_process_append [OF lm]) (simp add: rfc_process_small)
  then have "st' = rfc_process (md_state ctx) (?b @ ?mid)"
    by (simp only: rfc_process_block [OF lb])
  with up have st: "md_state (smlMD5Update ctx input) = rfc_process (md_state ctx) (?b @ ?mid)"
    by simp
  have split: "r @ input = (?b @ ?mid) @ drop i input"
    using d by (metis append_assoc append_take_drop_id)
  have len: "length (?b @ ?mid) = 64 * Suc k"
    using lb lm by (simp only: length_append) simp
  from i(3) have di: "length (drop i input) < 64" by simp
  with md5_put_start [OF lb, of "drop i input"] up(2) show ?thesis
    by (intro that [OF split len di st]) simp_all
next
  case False
  have up: "md_state (smlMD5Update ctx input) = md_state ctx"
    "md_buffer (smlMD5Update ctx input) = md5_put (md_buffer ctx) (length r) input"
    using False by (simp_all add: smlMD5Update_def idx Let_def)
  with False buf show ?thesis
    by (intro that [of "[]" "r @ input" 0]) (auto simp: md5_put_def rfc_process_small)
qed

lemma md5_inv_update:
  assumes inv: "md5_inv m ctx" and n: "length input < 2 ^ 32"
  shows "md5_inv (m @ input) (smlMD5Update ctx input)"
proof -
  obtain A r k where m: "m = A @ r" and A: "length A = 64 * k" and r: "length r < 64"
    by (rule tail_split)
  note inv' = inv [unfolded m md5_inv_split [OF A r]]
  have "unat (drop_bit 3 (md_count0 ctx) AND 0x3F) = length (A @ r) mod 64"
    by (simp only: inv' md5_index)
  then have "unat (drop_bit 3 (md_count0 ctx) AND 0x3F) = length r"
    using A r by simp
  from md5_update_split [OF this r, of input] inv' obtain A' r' k' where
    s: "r @ input = A' @ r'" and A': "length A' = 64 * k'" and r': "length r' < 64"
    and st: "md_state (smlMD5Update ctx input) = rfc_process (md_state ctx) A'"
    and buf: "length (md_buffer (smlMD5Update ctx input)) = 64"
      "take (length r') (md_buffer (smlMD5Update ctx input)) = r'"
    by blast
  have eq: "m @ input = (A @ A') @ r'" using m s by simp
  have AA: "length (A @ A') = 64 * (k + k')" using A A' by (simp add: distrib_left)
  have len: "length ((A @ A') @ r') = length (A @ r) + length input"
    using arg_cong [OF s, of length] by simp
  show ?thesis
    unfolding eq md5_inv_split [OF AA r'] len
    using md5_counts [of ctx "length (A @ r)" input] inv' n buf
    by (simp add: st rfc_process_append [OF A])
qed

lemma md5_inv_updates:
  "md5_inv m ctx \<Longrightarrow> \<forall>x \<in> set msgs. length x < 2 ^ 32 \<Longrightarrow>
     md5_inv (m @ concat msgs) (fold (\<lambda>x c. smlMD5Update c x) msgs ctx)"
proof (induction msgs arbitrary: m ctx)
  case (Cons x msgs)
  then show ?case
    using md5_inv_update [of m ctx x] Cons.IH [of "m @ x" "smlMD5Update ctx x"] by simp
qed simp

lemma md5_Encode_length:
  "md5_Encode [of_nat n, of_nat (n div 2 ^ 32)] = map (\<lambda>i. of_nat (n div 256 ^ i)) [0..<8]"
proof -
  have m: "(0xff :: u32) = mask 8" by (simp add: mask_eq_exp_minus_1)
  have "ucast (drop_bit k (of_nat n :: u32) AND 0xff) = (of_nat (drop_bit k n) :: byte)"
    if "k + 8 \<le> 32" for k n
    unfolding m using that by (intro bit_word_eqI) (auto simp: bit_simps)
  from this [of 0] this [of 8] this [of 16] this [of 24]
  have e: "ucast ((of_nat n :: u32) AND 0xff) = (of_nat n :: byte)"
    "ucast (drop_bit 8 (of_nat n :: u32) AND 0xff) = (of_nat (n div 2 ^ 8) :: byte)"
    "ucast (drop_bit 16 (of_nat n :: u32) AND 0xff) = (of_nat (n div 2 ^ 16) :: byte)"
    "ucast (drop_bit 24 (of_nat n :: u32) AND 0xff) = (of_nat (n div 2 ^ 24) :: byte)" for n
    by (simp_all add: drop_bit_eq_div)
  have "[0..<8] = [0, 1, 2, 3, 4, 5, 6, 7 :: nat]" by (simp add: upt_rec)
  then show ?thesis
    by (simp only: md5_Encode.simps e append.simps list.map div_mult2_eq [symmetric]) simp
qed

lemma take_PADDING:
  assumes "i < 64"
  shows "take (if i < 56 then 56 - i else 120 - i) PADDING = 0x80 # replicate ((119 - i) mod 64) 0"
proof (cases "i < 56")
  case True
  then have "56 - i = Suc (55 - i)" and "(119 - i) mod 64 = 55 - i"
    using mod_one [of 64 "119 - i"] by simp_all
  with True show ?thesis by (simp add: PADDING_def)
next
  case False
  with assms have "120 - i = Suc (119 - i)" and "(119 - i) mod 64 = 119 - i"
    by simp_all
  with False assms show ?thesis by (simp add: PADDING_def)
qed

lemma md5_final_inv:
  assumes inv: "md5_inv m ctx"
  shows "smlMD5Final ctx = (rfc_md5 m, md5_zero)"
proof -
  let ?idx = "length m mod 64"
  let ?pad = "take (if ?idx < 56 then 56 - ?idx else 120 - ?idx) PADDING"
  let ?bits = "md5_Encode [md_count0 ctx, md_count1 ctx]"
  have c: "md_count0 ctx = of_nat (8 * length m)" "md_count1 ctx = of_nat (8 * length m div 2 ^ 32)"
    using inv by (simp_all add: md5_inv_def)
  have idx: "unat (drop_bit 3 (md_count0 ctx) AND 0x3F) = ?idx"
    by (simp only: c md5_index)
  have bits: "?bits = rfc_length m"
    by (simp only: c md5_Encode_length rfc_length_def)
  have pad: "m @ ?pad = rfc_pad m"
    by (simp only: rfc_pad_def take_PADDING mod_less_divisor zero_less_numeral) simp
  let ?ctx' = "smlMD5Update (smlMD5Update ctx ?pad) ?bits"
  have "md5_inv ((m @ ?pad) @ ?bits) ?ctx'"
    by (intro md5_inv_update inv) (simp_all add: PADDING_def)
  then have "md_state ?ctx' = rfc_process md5_init_state (rfc_pad m @ rfc_length m)"
    by (simp only: md5_inv_def pad bits)
  then show ?thesis
    by (simp add: smlMD5Final_def rfc_md5_def idx Let_def)
qed

lemma md5_stream:
  assumes "length (md_buffer ctx) = 64" and "\<forall>x \<in> set msgs. length x < 2 ^ 32"
  shows "smlMD5Final (fold (\<lambda>x c. smlMD5Update c x) msgs (smlMD5Init ctx)) = (rfc_md5 (concat msgs), md5_zero)"
  using md5_final_inv [OF md5_inv_updates [OF md5_inv_init [OF assms(1)] assms(2)]] by simp

text \<open>The same with the updates written out one after the other, as the callers have them.\<close>

lemma md5_stream_cases:
  assumes "length (md_buffer ctx) = 64" "length a < 2 ^ 32" "length b < 2 ^ 32" "length c < 2 ^ 32"
  shows "smlMD5Final (smlMD5Update (smlMD5Init ctx) a) = (rfc_md5 a, md5_zero)"
    and "smlMD5Final (smlMD5Update (smlMD5Update (smlMD5Update (smlMD5Init ctx) a) b) c)
      = (rfc_md5 (a @ b @ c), md5_zero)"
  using md5_stream [of ctx "[a]"] md5_stream [of ctx "[a, b, c]"] assms by simp_all

lemma length_md5_zero [simp]: "length (md_buffer md5_zero) = 64"
  by (simp add: md5_zero_def)

lemma length_rfc_md5 [simp]: "length (rfc_md5 m) = 16"
  by (simp add: rfc_md5_def split: prod.split)

section \<open>Properties\<close>

text \<open>
  Property C16 (equivalence). The unrolled block transformation is the tabulated compression
  function of RFC 1321, on every state and every block.
\<close>

theorem MD5Transform_is_rfc: "MD5Transform st block = rfc_compress st block"
  by (rule MD5Transform_rfc)

text \<open>
  Property C15 (equivalence of streaming and one-shot digest). From any context with a 64-byte
  buffer, initialising it, feeding a message in pieces of less than \<open>2^32\<close> bytes and finalising
  gives the RFC 1321 digest of the whole message: the pieces may have any lengths, the bit
  counter carries between its two words, and no byte is lost at a block boundary.
\<close>

theorem md5_streaming:
  assumes "length (md_buffer ctx) = 64" and "\<forall>x \<in> set msgs. length x < 2 ^ 32"
  shows "smlMD5Final (fold (\<lambda>x c. smlMD5Update c x) msgs (smlMD5Init ctx)) = (rfc_md5 (concat msgs), md5_zero)"
  using assms by (rule md5_stream)

theorem md5_streaming_witness:
  "smlMD5Final (fold (\<lambda>x c. smlMD5Update c x) [bytes_of ''a'', bytes_of ''bc'']
     (smlMD5Init \<lparr>md_state = (1, 2, 3, 4), md_count0 = 5, md_count1 = 6, md_buffer = replicate 64 7\<rparr>))
   = (rfc_md5 (bytes_of ''abc''), md5_zero)"
  using md5_streaming [of "\<lparr>md_state = (1, 2, 3, 4), md_count0 = 5, md_count1 = 6,
      md_buffer = replicate 64 7\<rparr>" "[bytes_of ''a'', bytes_of ''bc'']"]
  by simp

end
