(* ===== verification/Credentials.thy ===== *)
theory Credentials
  imports Base64 MD5
begin

text \<open>
  The authentication credentials of \<open>dm_security/src/dm_security.c\<close>: basic, MD5, HMAC and
  digest credentials and the nonce generator. User names, passwords and server names are C
  strings, given by their bytes without the terminating zero; a null pointer is \<open>None\<close>. The
  results of \<open>DmAllocMem\<close> are an argument \<open>alloc\<close>: \<open>alloc i\<close> tells whether the \<open>i\<close>-th
  allocation of the call succeeds. Every function returns \<open>None\<close> for undefined behaviour,
  \<open>Some None\<close> for a null pointer and \<open>Some (Some c)\<close> for a credential.
\<close>

section \<open>Constants and structures of dm_security.h\<close>

definition SYNCML_DM_HASHLEN :: nat where "SYNCML_DM_HASHLEN = 16"
definition SYNCML_DM_MAX_CRED_BUFFER_SIZE :: nat where "SYNCML_DM_MAX_CRED_BUFFER_SIZE = 200"
definition SYNCML_DM_BAS64_ENCODING_SIZE_IN_MD5 :: nat where
  "SYNCML_DM_BAS64_ENCODING_SIZE_IN_MD5 = SYNCML_DM_HASHLEN + (SYNCML_DM_HASHLEN div 2)"
definition SYNCML_DM_PSEUDO_RANDOM_NUM_LENGTH :: nat where "SYNCML_DM_PSEUDO_RANDOM_NUM_LENGTH = 20"
definition MAXIMUM_SAVE_BYTES :: nat where "MAXIMUM_SAVE_BYTES = 4"
definition COLON_PLUS_NULL :: nat where "COLON_PLUS_NULL = 2"
definition SYNCML_DM_NEXT_BLOCK :: nat where "SYNCML_DM_NEXT_BLOCK = 1"

lemmas dm_security_consts = SYNCML_DM_HASHLEN_def SYNCML_DM_MAX_CRED_BUFFER_SIZE_def
  SYNCML_DM_BAS64_ENCODING_SIZE_IN_MD5_def SYNCML_DM_PSEUDO_RANDOM_NUM_LENGTH_def
  MAXIMUM_SAVE_BYTES_def COLON_PLUS_NULL_def SYNCML_DM_NEXT_BLOCK_def

text \<open>A credential: its length field and its buffer of allocated bytes.\<close>

record SYNCMLDM_SEC_CREDENTIALS_T =
  w_credential_string_length :: u16
  ab_credential_string :: "byte list"

record SYNCMLDM_BASIC_SEC_INFO_T =
  pb_user_name_or_server_id :: "byte list option"
  pb_password :: "byte list option"

record SYNCMLDM_MD5_SEC_INFO_T = SYNCMLDM_BASIC_SEC_INFO_T +
  pb_nonce :: "byte list option"
  o_encode_base64 :: bool
  w_nonce_length :: u16

record SYNCMLDM_HMAC_SEC_INFO_T = SYNCMLDM_MD5_SEC_INFO_T +
  pb_syncml_document :: "byte list option"
  dw_syncml_document_length :: u32

record SYNCMLDM_NONCE_GENERATE_PARAMETER_INFO_T =
  ng_user_name :: "byte list option"
  ng_password :: "byte list option"
  ng_server_id :: "byte list option"

record SYNCMLDM_NONCE_STRING_INFO_T =
  w_nonce_string_length :: u16
  ab_nonce_string :: "byte list"

abbreviation COLON :: byte where "COLON \<equiv> 58"

text \<open>The first \<open>n\<close> bytes at a pointer; reading past the end is undefined behaviour.\<close>

definition mem_read :: "byte list \<Rightarrow> nat \<Rightarrow> byte list option" where
  "mem_read bs n = (if n \<le> length bs then Some (take n bs) else None)"

text \<open>\<open>DmStrlen\<close> and the bytes of a possibly null string.\<close>

definition dm_str :: "byte list option \<Rightarrow> byte list" where
  "dm_str s = (case s of None \<Rightarrow> [] | Some b \<Rightarrow> b)"

section \<open>Basic credentials\<close>

definition syncmldm_sec_build_basic_cred ::
    "(nat \<Rightarrow> bool) \<Rightarrow> SYNCMLDM_BASIC_SEC_INFO_T option \<Rightarrow> SYNCMLDM_SEC_CREDENTIALS_T option option"
where
  "syncmldm_sec_build_basic_cred alloc info =
     (case info of None \<Rightarrow> Some None
      | Some i \<Rightarrow>
        (case (pb_user_name_or_server_id i, pb_password i) of
           (Some user, Some pwd) \<Rightarrow>
             (let dw_length = (length user + length pwd) + COLON_PLUS_NULL;
                  est = dw_length + dw_length div 2
              in if \<not> alloc 0 then Some None
                 else if \<not> alloc 1 then Some None
                 else do {
                   let cred = replicate est (0 :: byte);
                   let buf = replicate dw_length (0 :: byte);
                   buf \<leftarrow> buf_put buf 0 user;
                   buf \<leftarrow> buf_put buf (length user) [COLON];
                   buf \<leftarrow> buf_put buf (length user + 1) pwd;
                   let len = length user + 1 + length pwd;
                   enc \<leftarrow> base64Encode est (Some (take len buf)) 0 SYNCML_DM_NEXT_BLOCK
                            (Some (replicate MAXIMUM_SAVE_BYTES 0));
                   cred \<leftarrow> buf_put cred 0 (es_out enc);
                   Some (Some \<lparr>w_credential_string_length = of_nat (length (es_out enc)),
                               ab_credential_string = cred\<rparr>)
                 })
         | _ \<Rightarrow> Some None))"

section \<open>MD5 credentials\<close>

text \<open>
  \<open>ctx\<close> is the uninitialised local \<open>s_md5_ctx\<close>; \<open>j\<close> is the last byte of the credential buffer,
  which the \<open>memset\<close> does not reach.
\<close>

definition syncmldm_sec_build_md5_cred ::
    "(nat \<Rightarrow> bool) \<Rightarrow> MD5_CTX \<Rightarrow> byte \<Rightarrow> SYNCMLDM_MD5_SEC_INFO_T option
       \<Rightarrow> SYNCMLDM_SEC_CREDENTIALS_T option option"
where
  "syncmldm_sec_build_md5_cred alloc ctx j info =
     (case info of None \<Rightarrow> Some None
      | Some i \<Rightarrow>
        (case (pb_user_name_or_server_id i, pb_password i, pb_nonce i) of
           (Some user, Some pwd, Some nonce) \<Rightarrow>
             (if \<not> alloc 0 then Some None
              else do {
                let size = SYNCML_DM_BAS64_ENCODING_SIZE_IN_MD5;
                let cred = replicate size (0 :: byte) @ [j];
                let ctx = smlMD5Update (smlMD5Init ctx) user;
                let ctx = smlMD5Update ctx [COLON];
                let ctx = smlMD5Update ctx pwd;
                let (ab_hash, ctx) = smlMD5Final ctx;
                enc \<leftarrow> base64Encode size (Some ab_hash) 0 SYNCML_DM_NEXT_BLOCK
                         (Some (replicate MAXIMUM_SAVE_BYTES 0));
                cred \<leftarrow> buf_put cred 0 (es_out enc);
                let ctx = smlMD5Update (smlMD5Init ctx) (take (length (es_out enc)) cred);
                let ctx = smlMD5Update ctx [COLON];
                n \<leftarrow> mem_read nonce (unat (w_nonce_length i));
                let ctx = smlMD5Update ctx n;
                let (ab_hash, ctx) = smlMD5Final ctx;
                if o_encode_base64 i then do {
                  enc2 \<leftarrow> base64Encode size (Some ab_hash) (es_off enc) SYNCML_DM_NEXT_BLOCK (es_save enc);
                  cred \<leftarrow> buf_put cred 0 (es_out enc2);
                  Some (Some \<lparr>w_credential_string_length = of_nat (length (es_out enc2)),
                              ab_credential_string = cred\<rparr>)
                } else do {
                  cred \<leftarrow> buf_put cred 0 (take SYNCML_DM_HASHLEN ab_hash);
                  Some (Some \<lparr>w_credential_string_length = of_nat SYNCML_DM_HASHLEN,
                              ab_credential_string = cred\<rparr>)
                }
              })
         | _ \<Rightarrow> Some None))"

section \<open>HMAC credentials\<close>

definition syncmldm_sec_build_hmac_cred ::
    "(nat \<Rightarrow> bool) \<Rightarrow> MD5_CTX \<Rightarrow> SYNCMLDM_HMAC_SEC_INFO_T option
       \<Rightarrow> SYNCMLDM_SEC_CREDENTIALS_T option option"
where
  "syncmldm_sec_build_hmac_cred alloc ctx info =
     (case info of None \<Rightarrow> Some None
      | Some i \<Rightarrow>
        (case (pb_user_name_or_server_id i, pb_password i, pb_nonce i, pb_syncml_document i) of
           (Some user, Some pwd, Some nonce, Some doc) \<Rightarrow>
             (if dw_syncml_document_length i = 0 then Some None
              else if \<not> alloc 0 then Some None
              else do {
                let size = SYNCML_DM_MAX_CRED_BUFFER_SIZE;
                let cred = replicate size (0 :: byte);
                let ctx = smlMD5Update (smlMD5Init ctx) user;
                let ctx = smlMD5Update ctx [COLON];
                let ctx = smlMD5Update ctx pwd;
                let (ab_hash, ctx) = smlMD5Final ctx;
                enc \<leftarrow> base64Encode size (Some ab_hash) 0 SYNCML_DM_NEXT_BLOCK
                         (Some (replicate MAXIMUM_SAVE_BYTES 0));
                cred \<leftarrow> buf_put cred 0 (es_out enc);
                let len = length (es_out enc);
                cred \<leftarrow> buf_put cred len [COLON];
                let len = len + 1;
                n \<leftarrow> mem_read nonce (unat (w_nonce_length i));
                cred \<leftarrow> buf_put cred len n;
                let len = len + unat (w_nonce_length i);
                cred \<leftarrow> buf_put cred len [COLON];
                let len = len + 1;
                d \<leftarrow> mem_read doc (unat (dw_syncml_document_length i));
                let ctx = smlMD5Update (smlMD5Init ctx) d;
                let (ab_hash, ctx) = smlMD5Final ctx;
                enc \<leftarrow> base64Encode size (Some ab_hash) (es_off enc) SYNCML_DM_NEXT_BLOCK (es_save enc);
                cred \<leftarrow> buf_put cred len (es_out enc);
                let len = len + length (es_out enc);
                let ctx = smlMD5Update (smlMD5Init ctx) (take len cred);
                let (ab_hash, ctx) = smlMD5Final ctx;
                if o_encode_base64 i then do {
                  enc \<leftarrow> base64Encode size (Some ab_hash) (es_off enc) SYNCML_DM_NEXT_BLOCK (es_save enc);
                  cred \<leftarrow> buf_put cred 0 (es_out enc);
                  cred \<leftarrow> buf_put cred (unat (of_nat (length (es_out enc)) :: u16)) [0];
                  Some (Some \<lparr>w_credential_string_length = of_nat (length (es_out enc)),
                              ab_credential_string = cred\<rparr>)
                } else do {
                  cred \<leftarrow> buf_put cred 0 (take SYNCML_DM_HASHLEN ab_hash);
                  cred \<leftarrow> buf_put cred (unat (of_nat SYNCML_DM_HASHLEN :: u16)) [0];
                  Some (Some \<lparr>w_credential_string_length = of_nat SYNCML_DM_HASHLEN,
                              ab_credential_string = cred\<rparr>)
                }
              })
         | _ \<Rightarrow> Some None))"

section \<open>Nonce generation\<close>

text \<open>\<open>rnd\<close> are the bytes that \<open>get_pseudo_random\<close> reads from \<open>/dev/urandom\<close>.\<close>

definition syncmldm_sec_generate_nonce ::
    "(nat \<Rightarrow> bool) \<Rightarrow> MD5_CTX \<Rightarrow> byte list \<Rightarrow> SYNCMLDM_NONCE_GENERATE_PARAMETER_INFO_T option
       \<Rightarrow> byte list option \<Rightarrow> SYNCMLDM_NONCE_STRING_INFO_T option option"
where
  "syncmldm_sec_generate_nonce alloc ctx rnd params devID =
     (case (params, devID) of
        (Some p, Some dev) \<Rightarrow>
          (let user = dm_str (ng_user_name p); pwd = dm_str (ng_password p);
               srv = dm_str (ng_server_id p);
               total = length user + length pwd + length srv + SYNCML_DM_PSEUDO_RANDOM_NUM_LENGTH
                       + length dev + 1
           in if \<not> alloc 0 then Some None
              else if \<not> alloc 1 then Some None
              else do {
                let buf = replicate total (0 :: byte);
                let out = replicate SYNCML_DM_MAX_CRED_BUFFER_SIZE (0 :: byte);
                r \<leftarrow> mem_read rnd SYNCML_DM_PSEUDO_RANDOM_NUM_LENGTH;
                buf \<leftarrow> buf_put buf 0 r;
                let total = SYNCML_DM_PSEUDO_RANDOM_NUM_LENGTH;
                buf \<leftarrow> buf_put buf total dev;
                let total = total + length dev;
                buf \<leftarrow> buf_put buf total user;
                let total = total + length user;
                buf \<leftarrow> buf_put buf total pwd;
                let total = total + length pwd;
                buf \<leftarrow> buf_put buf total srv;
                let total = total + length srv;
                let ctx = smlMD5Update (smlMD5Init ctx) (take total buf);
                let (ab_hash, ctx) = smlMD5Final ctx;
                enc \<leftarrow> base64Encode SYNCML_DM_MAX_CRED_BUFFER_SIZE (Some ab_hash) 0
                         SYNCML_DM_NEXT_BLOCK (Some (replicate MAXIMUM_SAVE_BYTES 0));
                out \<leftarrow> buf_put out 0 (es_out enc);
                out \<leftarrow> buf_put out (unat (of_nat (length (es_out enc)) :: u16)) [0];
                Some (Some \<lparr>w_nonce_string_length = of_nat (length (es_out enc)),
                            ab_nonce_string = out\<rparr>)
              })
      | _ \<Rightarrow> Some None)"

section \<open>Digest credentials\<close>

text \<open>
  \<open>junk\<close> is the content of the freshly allocated \<open>p_nonce\<close>, \<open>j\<close> the last byte of the credential
  buffer, which the \<open>memset\<close> does not reach. The code writes the second colon
  to \<open>p_nonce[nonceLen]\<close>, the last byte of the nonce, and not behind it. The length field of
  the credential is not set: it keeps the content \<open>w\<close> of the allocated memory.
\<close>

definition syncmldm_sec_build_digest_cred ::
    "(nat \<Rightarrow> bool) \<Rightarrow> MD5_CTX \<Rightarrow> byte list \<Rightarrow> byte \<Rightarrow> u16 \<Rightarrow> SYNCMLDM_MD5_SEC_INFO_T option
       \<Rightarrow> SYNCMLDM_SEC_CREDENTIALS_T option option"
where
  "syncmldm_sec_build_digest_cred alloc ctx junk j w info =
     (case info of None \<Rightarrow> Some None
      | Some i \<Rightarrow>
        (case (pb_user_name_or_server_id i, pb_password i) of
           (Some user, Some pwd) \<Rightarrow>
             (if \<not> alloc 0 then Some None
              else do {
                let cred = replicate SYNCML_DM_HASHLEN (48 :: byte) @ [j];
                let ctx = smlMD5Update (smlMD5Init ctx) user;
                r \<leftarrow> (case pb_nonce i of
                        Some nonce \<Rightarrow>
                          if \<not> alloc 1 then Some None
                          else do {
                            let nonceLen = length nonce;
                            p_nonce \<leftarrow> mem_read junk (nonceLen + 2);
                            p_nonce \<leftarrow> buf_put p_nonce 1 nonce;
                            p_nonce \<leftarrow> buf_put p_nonce 0 [COLON];
                            p_nonce \<leftarrow> buf_put p_nonce nonceLen [COLON];
                            Some (Some (smlMD5Update ctx (take (nonceLen + 2) p_nonce)))
                          }
                      | None \<Rightarrow> Some (Some (smlMD5Update ctx [COLON])));
                case r of
                  None \<Rightarrow> Some None
                | Some ctx \<Rightarrow> do {
                    let ctx = smlMD5Update ctx pwd;
                    let (ab_hash, ctx) = smlMD5Final ctx;
                    cred \<leftarrow> buf_put cred 0 (take SYNCML_DM_HASHLEN ab_hash);
                    Some (Some \<lparr>w_credential_string_length = w, ab_credential_string = cred\<rparr>)
                  }
              })
         | _ \<Rightarrow> Some None))"

section \<open>Reference: the credentials of the OMA DM security specification\<close>

definition spec_basic :: "byte list \<Rightarrow> byte list \<Rightarrow> byte list" where
  "spec_basic user pwd = b64_ref (user @ [COLON] @ pwd)"

definition spec_user_hash :: "byte list \<Rightarrow> byte list \<Rightarrow> byte list" where
  "spec_user_hash user pwd = b64_ref (rfc_md5 (user @ [COLON] @ pwd))"

definition spec_md5 :: "byte list \<Rightarrow> byte list \<Rightarrow> byte list \<Rightarrow> byte list" where
  "spec_md5 user pwd nonce = rfc_md5 (spec_user_hash user pwd @ [COLON] @ nonce)"

definition spec_hmac :: "byte list \<Rightarrow> byte list \<Rightarrow> byte list \<Rightarrow> byte list \<Rightarrow> byte list" where
  "spec_hmac user pwd nonce doc =
     rfc_md5 (spec_user_hash user pwd @ [COLON] @ nonce @ [COLON] @ b64_ref (rfc_md5 doc))"

text \<open>What a reader of a credential sees: as many bytes as the length field says.\<close>

definition cred_value :: "SYNCMLDM_SEC_CREDENTIALS_T \<Rightarrow> byte list" where
  "cred_value c = take (unat (w_credential_string_length c)) (ab_credential_string c)"

section \<open>Encoding a digest\<close>

definition cred_enc :: "nat \<Rightarrow> byte list \<Rightarrow> nat \<Rightarrow> enc_state" where
  "cred_enc sz h off =
     the (base64Encode sz (Some h) off SYNCML_DM_NEXT_BLOCK (Some (replicate MAXIMUM_SAVE_BYTES 0)))"

lemma base64Encode_hash:
  assumes "4 * ((length h + 2) div 3) \<le> sz"
  shows "base64Encode sz (Some h) off SYNCML_DM_NEXT_BLOCK (Some (replicate MAXIMUM_SAVE_BYTES 0))
      = Some (cred_enc sz h off)"
    and "es_out (cred_enc sz h off) = b64_ref h"
    and "es_save (cred_enc sz h off) = Some (replicate MAXIMUM_SAVE_BYTES 0)"
proof -
  have "take (3 * (sz div 4)) h = h"
    by (intro take_all) (use assms in \<open>simp only: b64_group_count\<close>)
  moreover have "save_idle (Some (replicate MAXIMUM_SAVE_BYTES 0))"
    by (simp add: save_idle_def MAXIMUM_SAVE_BYTES_def)
  ultimately have "\<exists>s. base64Encode sz (Some h) off SYNCML_DM_NEXT_BLOCK (Some (replicate MAXIMUM_SAVE_BYTES 0))
      = Some s \<and> es_out s = b64_ref h \<and> es_save s = Some (replicate MAXIMUM_SAVE_BYTES 0)"
    using base64Encode_ref [of "Some (replicate MAXIMUM_SAVE_BYTES 0)" SYNCML_DM_NEXT_BLOCK sz h off]
    by (auto simp: SYNCML_DM_NEXT_BLOCK_def)
  then show "base64Encode sz (Some h) off SYNCML_DM_NEXT_BLOCK (Some (replicate MAXIMUM_SAVE_BYTES 0))
      = Some (cred_enc sz h off)"
    and "es_out (cred_enc sz h off) = b64_ref h"
    and "es_save (cred_enc sz h off) = Some (replicate MAXIMUM_SAVE_BYTES 0)"
    by (auto simp: cred_enc_def)
qed

lemmas hash_sizes = SYNCML_DM_BAS64_ENCODING_SIZE_IN_MD5_def SYNCML_DM_HASHLEN_def
  SYNCML_DM_MAX_CRED_BUFFER_SIZE_def

lemma b64_hash_length: "length h = 16 \<Longrightarrow> length (b64_ref h) = 24"
  by (simp add: length_b64_ref)

lemma mem_read_ok: "n \<le> length bs \<Longrightarrow> mem_read bs n = Some (take n bs)"
  by (simp add: mem_read_def)

lemmas cred_steps = base64Encode_hash b64_hash_length hash_sizes md5_stream_cases(2)
  md5_stream_cases(1) [where b = "[]" and c = "[]", simplified] mem_read_ok Let_def buf_put_def

lemma take_u16_short: "length (take (unat (w :: u16)) xs) < 2 ^ 32"
proof -
  have "unat w < 2 ^ 16" using unsigned_less [of w] by simp
  then show ?thesis by simp
qed

lemma take_u32_short: "length (take (unat (w :: u32)) xs) < 2 ^ 32"
proof -
  have "unat w < 2 ^ 32" using unsigned_less [of w] by simp
  then show ?thesis by simp
qed

lemma md5_cred_value:
  assumes "pb_user_name_or_server_id i = Some user" "pb_password i = Some pwd" "pb_nonce i = Some nonce"
    and "unat (w_nonce_length i) \<le> length nonce"
    and "length user < 2 ^ 32" "length pwd < 2 ^ 32"
    and "length (md_buffer ctx) = 64" and "alloc 0"
  shows "\<exists>c. syncmldm_sec_build_md5_cred alloc ctx j (Some i) = Some (Some c)
     \<and> cred_value c = (let h = spec_md5 user pwd (take (unat (w_nonce_length i)) nonce)
                       in if o_encode_base64 i then b64_ref h else h)"
  using assms take_u16_short [of "w_nonce_length i" nonce]
  by (simp add: syncmldm_sec_build_md5_cred_def cred_steps spec_md5_def spec_user_hash_def
      cred_value_def)

lemma take_hmac:
  assumes "length b = 24" and "length n = k"
  shows "take (26 + k) (c # n @ d # b @ z) = c # n @ d # b"
proof -
  have "c # n @ d # b @ z = (c # n @ d # b) @ z" by simp
  then show ?thesis by (simp only: take_append) (simp add: assms)
qed

lemma hmac_cred_value:
  assumes "pb_user_name_or_server_id i = Some user" "pb_password i = Some pwd" "pb_nonce i = Some nonce"
    and "pb_syncml_document i = Some doc" "dw_syncml_document_length i \<noteq> 0"
    and "unat (dw_syncml_document_length i) \<le> length doc"
    and "unat (w_nonce_length i) \<le> length nonce"
    and "length user < 2 ^ 32" "length pwd < 2 ^ 32"
    and "length (md_buffer ctx) = 64" and "alloc 0"
  shows "unat (w_nonce_length i) \<le> 150 \<Longrightarrow> \<exists>c. syncmldm_sec_build_hmac_cred alloc ctx (Some i) = Some (Some c)
     \<and> cred_value c = (let h = spec_hmac user pwd (take (unat (w_nonce_length i)) nonce)
                               (take (unat (dw_syncml_document_length i)) doc)
                       in if o_encode_base64 i then b64_ref h else h)"
    and "150 < unat (w_nonce_length i) \<Longrightarrow> syncmldm_sec_build_hmac_cred alloc ctx (Some i) = None"
proof -
  note d = take_u32_short [of "dw_syncml_document_length i" doc]
  show "unat (w_nonce_length i) \<le> 150 \<Longrightarrow> \<exists>c. syncmldm_sec_build_hmac_cred alloc ctx (Some i) = Some (Some c)
     \<and> cred_value c = (let h = spec_hmac user pwd (take (unat (w_nonce_length i)) nonce)
                               (take (unat (dw_syncml_document_length i)) doc)
                       in if o_encode_base64 i then b64_ref h else h)"
    using assms d
    by (simp add: syncmldm_sec_build_hmac_cred_def cred_steps spec_hmac_def spec_user_hash_def
        cred_value_def take_hmac)
  show "150 < unat (w_nonce_length i) \<Longrightarrow> syncmldm_sec_build_hmac_cred alloc ctx (Some i) = None"
    using assms d
    by (simp add: syncmldm_sec_build_hmac_cred_def cred_steps)
qed

lemma nonce_value:
  assumes "length rnd = 20" "length dev + length (dm_str (ng_user_name p)) + length (dm_str (ng_password p))
      + length (dm_str (ng_server_id p)) + 20 < 2 ^ 32"
    and "length (md_buffer ctx) = 64" and "alloc 0" "alloc 1"
  shows "\<exists>n. syncmldm_sec_generate_nonce alloc ctx rnd (Some p) (Some dev) = Some (Some n)
    \<and> take (unat (w_nonce_string_length n)) (ab_nonce_string n)
       = b64_ref (rfc_md5 (rnd @ dev @ dm_str (ng_user_name p) @ dm_str (ng_password p) @ dm_str (ng_server_id p)))
    \<and> w_nonce_string_length n = 24 \<and> ab_nonce_string n ! 24 = 0"
  using assms
  by (simp add: syncmldm_sec_generate_nonce_def cred_steps SYNCML_DM_PSEUDO_RANDOM_NUM_LENGTH_def
      nth_append)

lemma digest_cred_value:
  assumes "pb_user_name_or_server_id i = Some user" "pb_password i = Some pwd" "pb_nonce i = Some nonce"
    and "length junk = length nonce + 2"
    and "length user < 2 ^ 32" "length pwd < 2 ^ 32" "length nonce + 2 < 2 ^ 32"
    and "length (md_buffer ctx) = 64" and "alloc 0" "alloc 1"
  shows "syncmldm_sec_build_digest_cred alloc ctx junk j w (Some i) = Some (Some
      \<lparr>w_credential_string_length = w, ab_credential_string =
         rfc_md5 (user @ [COLON] @ (if nonce = [] then [] else butlast nonce @ [COLON]) @ [last junk] @ pwd)
           @ [j]\<rparr>)"
proof -
  have "drop (Suc (length nonce)) junk = [last junk]"
    using assms(4) by (cases junk rule: rev_cases) auto
  then show ?thesis
  using assms
  by (cases nonce rule: rev_cases)
   (auto simp: syncmldm_sec_build_digest_cred_def cred_steps)
qed

text \<open>Basic credentials: the estimate of the buffer against what the encoding needs.\<close>

lemma basic_groups:
  assumes "n \<noteq> 0" and "n \<noteq> (3 :: nat)"
  shows "n + 1 \<le> 3 * (((n + 2) + (n + 2) div 2) div 4)"
proof (cases "n < 9")
  case True
  have "list_all (\<lambda>n. n \<noteq> 0 \<longrightarrow> n \<noteq> 3 \<longrightarrow> n + 1 \<le> 3 * (((n + 2) + (n + 2) div 2) div 4)) [0..<9]"
    by code_simp
  with True assms show ?thesis by (simp add: list_all_iff)
next
  case False
  have "4 * ((n + 3) div 3) \<le> (n + 2) + (n + 2) div 2" using False by linarith
  then have "(n + 3) div 3 \<le> ((n + 2) + (n + 2) div 2) div 4" by linarith
  then show ?thesis by linarith
qed

lemma basic_enc:
  obtains s where "base64Encode sz (Some d) 0 SYNCML_DM_NEXT_BLOCK (Some (replicate MAXIMUM_SAVE_BYTES 0)) = Some s"
    "es_out s = b64_ref (take (3 * (sz div 4)) d)" "length (es_out s) \<le> sz"
proof -
  have "save_idle (Some (replicate MAXIMUM_SAVE_BYTES 0))"
    by (simp add: save_idle_def MAXIMUM_SAVE_BYTES_def)
  from base64Encode_ref [OF this, of SYNCML_DM_NEXT_BLOCK sz d 0] that show ?thesis
    using b64_prefix_fits [of "length d" sz]
    by (auto simp: SYNCML_DM_NEXT_BLOCK_def length_b64_ref)
qed

definition basic_size :: "nat \<Rightarrow> nat" where
  "basic_size n = (n + COLON_PLUS_NULL) + (n + COLON_PLUS_NULL) div 2"

lemma basic_cred_eq:
  assumes "pb_user_name_or_server_id i = Some user" "pb_password i = Some pwd" "alloc 0" "alloc 1"
  shows "syncmldm_sec_build_basic_cred alloc (Some i) =
    (let est = basic_size (length user + length pwd)
     in do { enc \<leftarrow> base64Encode est (Some (user @ [COLON] @ pwd)) 0 SYNCML_DM_NEXT_BLOCK
               (Some (replicate MAXIMUM_SAVE_BYTES 0));
             cred \<leftarrow> buf_put (replicate est 0) 0 (es_out enc);
             Some (Some \<lparr>w_credential_string_length = of_nat (length (es_out enc)),
               ab_credential_string = cred\<rparr>) })"
  using assms
  by (simp add: syncmldm_sec_build_basic_cred_def basic_size_def Let_def buf_put_def [of "replicate (length user + length pwd + COLON_PLUS_NULL) 0"]
      buf_put_def [of "_ @ _"] COLON_PLUS_NULL_def)

lemma basic_cred_result:
  assumes "pb_user_name_or_server_id i = Some user" "pb_password i = Some pwd" "alloc 0" "alloc 1"
    and "length user + length pwd < 49000"
  shows "\<exists>c. syncmldm_sec_build_basic_cred alloc (Some i) = Some (Some c)
    \<and> cred_value c = b64_ref (take (3 * (basic_size (length user + length pwd) div 4)) (user @ [COLON] @ pwd))"
proof -
  let ?d = "user @ [COLON] @ pwd"
  let ?sz = "basic_size (length user + length pwd)"
  obtain s where s: "base64Encode ?sz (Some ?d) 0 SYNCML_DM_NEXT_BLOCK (Some (replicate MAXIMUM_SAVE_BYTES 0)) = Some s"
    "es_out s = b64_ref (take (3 * (?sz div 4)) ?d)" "length (es_out s) \<le> ?sz"
    by (rule basic_enc)
  have "length (es_out s) \<le> 4 * ((length ?d + 2) div 3)"
    by (simp add: s(2) length_b64_ref)
  then have "length (es_out s) < 65536"
    using assms(5) by simp
  then have u: "unat (of_nat (length (es_out s)) :: u16) = length (es_out s)"
    by (simp add: unsigned_of_nat take_bit_nat_eq_self)
  have "cred_value \<lparr>w_credential_string_length = of_nat (length (es_out s)),
      ab_credential_string = es_out s @ drop (length (es_out s)) (replicate ?sz 0)\<rparr> = es_out s"
    by (simp add: cred_value_def u)
  with s(1,3) show ?thesis
    by (simp add: basic_cred_eq [OF assms(1-4)] Let_def del: append_Cons take_append flip: s(2))
qed

lemma b64_ref_short: "b64_ref (take (3 * k) d) = b64_ref d \<longleftrightarrow> length d \<le> 3 * k"
proof
  assume "b64_ref (take (3 * k) d) = b64_ref d"
  then have "(min (length d) (3 * k) + 2) div 3 = (length d + 2) div 3"
    by (metis length_b64_ref length_take mult_left_cancel zero_neq_numeral)
  moreover have "(3 * k + 2) div 3 = k" by presburger
  ultimately have "(length d + 2) div 3 \<le> k"
    by (cases "length d \<le> 3 * k") (simp_all add: min_def)
  then show "length d \<le> 3 * k" by presburger
qed simp

section \<open>Properties\<close>



text \<open>
  The basic credential of an empty user name and an empty password is
  the empty string: a server credential compared over its length then always matches.
\<close>

theorem basic_cred_empty:
  assumes "pb_user_name_or_server_id i = Some []" "pb_password i = Some []" "alloc 0" "alloc 1"
  shows "\<exists>c. syncmldm_sec_build_basic_cred alloc (Some i) = Some (Some c)
    \<and> cred_value c = [] \<and> spec_basic [] [] \<noteq> []"
proof -
  have "basic_size 0 div 4 = 0" by (simp add: basic_size_def COLON_PLUS_NULL_def)
  then show ?thesis
    using basic_cred_result [OF assms] by (simp add: spec_basic_def)
qed

theorem basic_cred_empty_witness:
  "\<exists>c. syncmldm_sec_build_basic_cred (\<lambda>_. True)
      (Some \<lparr>pb_user_name_or_server_id = Some [], pb_password = Some []\<rparr>) = Some (Some c)
    \<and> cred_value c = [] \<and> spec_basic [] [] \<noteq> []"
  by (rule basic_cred_empty) simp_all

text \<open>
  Property C25 (functional). The MD5 credential is \<open>H(B64(H(user:password)):nonce)\<close>, in base64
  when the caller asks for it.
\<close>

theorem md5_cred_correct:
  assumes "pb_user_name_or_server_id i = Some user" "pb_password i = Some pwd" "pb_nonce i = Some nonce"
    and "unat (w_nonce_length i) \<le> length nonce"
    and "length user < 2 ^ 32" "length pwd < 2 ^ 32"
    and "length (md_buffer ctx) = 64" and "alloc 0"
  shows "\<exists>c. syncmldm_sec_build_md5_cred alloc ctx j (Some i) = Some (Some c)
     \<and> cred_value c = (let h = spec_md5 user pwd (take (unat (w_nonce_length i)) nonce)
                       in if o_encode_base64 i then b64_ref h else h)"
  using assms by (rule md5_cred_value)

theorem md5_cred_correct_witness:
  "\<exists>c. syncmldm_sec_build_md5_cred (\<lambda>_. True) md5_zero 0
      (Some \<lparr>pb_user_name_or_server_id = Some (bytes_of ''u''), pb_password = Some (bytes_of ''p''),
             pb_nonce = Some (bytes_of ''nonce''), o_encode_base64 = True, w_nonce_length = 4\<rparr>)
     = Some (Some c)
     \<and> cred_value c = b64_ref (spec_md5 (bytes_of ''u'') (bytes_of ''p'') (bytes_of ''nonc''))"
  using md5_cred_correct [of "\<lparr>pb_user_name_or_server_id = Some (bytes_of ''u''),
      pb_password = Some (bytes_of ''p''), pb_nonce = Some (bytes_of ''nonce''),
      o_encode_base64 = True, w_nonce_length = 4\<rparr>" "bytes_of ''u''" "bytes_of ''p''"
      "bytes_of ''nonce''" md5_zero "\<lambda>_. True" 0]
  by (simp add: Let_def)

text \<open>
  Property C26 (safety). The HMAC credential is
  \<open>H(B64(H(user:password)):nonce:B64(H(document)))\<close> for nonces of at most 150 bytes; a longer nonce
  overruns the 200-byte credential buffer, which has room for the nonce, two base64 digests and
  two colons.
\<close>

theorem hmac_cred_correct:
  assumes "pb_user_name_or_server_id i = Some user" "pb_password i = Some pwd" "pb_nonce i = Some nonce"
    and "pb_syncml_document i = Some doc" "dw_syncml_document_length i \<noteq> 0"
    and "unat (dw_syncml_document_length i) \<le> length doc"
    and "unat (w_nonce_length i) \<le> length nonce"
    and "length user < 2 ^ 32" "length pwd < 2 ^ 32"
    and "length (md_buffer ctx) = 64" and "alloc 0"
  shows "if unat (w_nonce_length i) \<le> 150
    then \<exists>c. syncmldm_sec_build_hmac_cred alloc ctx (Some i) = Some (Some c)
     \<and> cred_value c = (let h = spec_hmac user pwd (take (unat (w_nonce_length i)) nonce)
                               (take (unat (dw_syncml_document_length i)) doc)
                       in if o_encode_base64 i then b64_ref h else h)
    else syncmldm_sec_build_hmac_cred alloc ctx (Some i) = None"
proof (cases "unat (w_nonce_length i) \<le> 150")
  case True
  then show ?thesis
    by (simp only: if_True) (rule hmac_cred_value(1) [of i user pwd nonce doc ctx alloc, OF assms True])
next
  case False
  then show ?thesis
    by (simp only: if_False) (rule hmac_cred_value(2) [of i user pwd nonce doc ctx alloc, OF assms], simp)
qed

theorem hmac_cred_correct_witness:
  "syncmldm_sec_build_hmac_cred (\<lambda>_. True) md5_zero
      (Some \<lparr>pb_user_name_or_server_id = Some [], pb_password = Some [],
             pb_nonce = Some (replicate 151 65), o_encode_base64 = True, w_nonce_length = 151,
             pb_syncml_document = Some [1, 2], dw_syncml_document_length = 2\<rparr>) = None"
  using hmac_cred_correct [of "\<lparr>pb_user_name_or_server_id = Some [], pb_password = Some [],
      pb_nonce = Some (replicate 151 65), o_encode_base64 = True, w_nonce_length = 151,
      pb_syncml_document = Some [1, 2], dw_syncml_document_length = 2\<rparr>" "[]" "[]" "replicate 151 65"
      "[1, 2]" md5_zero "\<lambda>_. True"]
  by simp

text \<open>
  Property C28 (functional). The nonce is the base64 text of the digest of the 20 random bytes, the
  device id, the user name, the password and the server id: 24 characters and a terminating zero.
\<close>

theorem nonce_correct:
  assumes "length rnd = 20" "length dev + length (dm_str (ng_user_name p)) + length (dm_str (ng_password p))
      + length (dm_str (ng_server_id p)) + 20 < 2 ^ 32"
    and "length (md_buffer ctx) = 64" and "alloc 0" "alloc 1"
  shows "\<exists>n. syncmldm_sec_generate_nonce alloc ctx rnd (Some p) (Some dev) = Some (Some n)
    \<and> take (unat (w_nonce_string_length n)) (ab_nonce_string n)
       = b64_ref (rfc_md5 (rnd @ dev @ dm_str (ng_user_name p) @ dm_str (ng_password p) @ dm_str (ng_server_id p)))
    \<and> w_nonce_string_length n = 24 \<and> ab_nonce_string n ! 24 = 0"
  using assms by (rule nonce_value)

theorem nonce_correct_witness:
  "\<exists>n. syncmldm_sec_generate_nonce (\<lambda>_. True) md5_zero (replicate 20 7)
        (Some \<lparr>ng_user_name = Some (bytes_of ''u''), ng_password = None, ng_server_id = Some (bytes_of ''s'')\<rparr>)
        (Some (bytes_of ''imei'')) = Some (Some n)
    \<and> take (unat (w_nonce_string_length n)) (ab_nonce_string n)
       = b64_ref (rfc_md5 (replicate 20 7 @ bytes_of ''imeius''))
    \<and> w_nonce_string_length n = 24 \<and> ab_nonce_string n ! 24 = 0"
  using nonce_correct [of "replicate 20 7" "bytes_of ''imei''" "\<lparr>ng_user_name = Some (bytes_of ''u''),
      ng_password = None, ng_server_id = Some (bytes_of ''s'')\<rparr>" md5_zero "\<lambda>_. True"]
  by (simp add: dm_str_def)



end
