(* ===== verification/Tag_Tables.thy ===== *)
theory Tag_Tables
  imports DM_Prelude
begin

text \<open>
  The tag tables of the toolkit, \<open>xlttags.c\<close>: for every DTD the list of its tags with their WBXML
  byte and XML name, and the lookups in both directions. The tables are copied to the heap on
  their first use and stay there; \<open>TokTbl\<close> is the record of the copies together with the results
  of the coming calls of \<open>smlLibMalloc\<close>.

  A lookup walks a table until its terminating \<open>TN_UNDEF\<close> row. The table of the DM tree DTD has no
  such row: a lookup that finds nothing there runs past the end of the table, which is \<open>None\<close>.
\<close>

section \<open>Tags, DTDs and tables\<close>

text \<open>\<open>XltTagID_t\<close>: the positions in the enumeration.\<close>

type_synonym XltTagID = nat

abbreviation (input) TN_UNDEF :: XltTagID where "TN_UNDEF \<equiv> 0"
abbreviation (input) TN_ADD :: XltTagID where "TN_ADD \<equiv> 1"
abbreviation (input) TN_ALERT :: XltTagID where "TN_ALERT \<equiv> 2"
abbreviation (input) TN_ARCHIVE :: XltTagID where "TN_ARCHIVE \<equiv> 3"
abbreviation (input) TN_ATOMIC :: XltTagID where "TN_ATOMIC \<equiv> 4"
abbreviation (input) TN_ATOMIC_END :: XltTagID where "TN_ATOMIC_END \<equiv> 5"
abbreviation (input) TN_CHAL :: XltTagID where "TN_CHAL \<equiv> 6"
abbreviation (input) TN_CMD :: XltTagID where "TN_CMD \<equiv> 7"
abbreviation (input) TN_CMDID :: XltTagID where "TN_CMDID \<equiv> 8"
abbreviation (input) TN_CMDREF :: XltTagID where "TN_CMDREF \<equiv> 9"
abbreviation (input) TN_COPY :: XltTagID where "TN_COPY \<equiv> 10"
abbreviation (input) TN_CRED :: XltTagID where "TN_CRED \<equiv> 11"
abbreviation (input) TN_DATA :: XltTagID where "TN_DATA \<equiv> 12"
abbreviation (input) TN_DELETE :: XltTagID where "TN_DELETE \<equiv> 13"
abbreviation (input) TN_EXEC :: XltTagID where "TN_EXEC \<equiv> 14"
abbreviation (input) TN_FINAL :: XltTagID where "TN_FINAL \<equiv> 15"
abbreviation (input) TN_GET :: XltTagID where "TN_GET \<equiv> 16"
abbreviation (input) TN_ITEM :: XltTagID where "TN_ITEM \<equiv> 17"
abbreviation (input) TN_LANG :: XltTagID where "TN_LANG \<equiv> 18"
abbreviation (input) TN_LOCNAME :: XltTagID where "TN_LOCNAME \<equiv> 19"
abbreviation (input) TN_LOCURI :: XltTagID where "TN_LOCURI \<equiv> 20"
abbreviation (input) TN_MAP :: XltTagID where "TN_MAP \<equiv> 21"
abbreviation (input) TN_MAPITEM :: XltTagID where "TN_MAPITEM \<equiv> 22"
abbreviation (input) TN_META :: XltTagID where "TN_META \<equiv> 23"
abbreviation (input) TN_MSGID :: XltTagID where "TN_MSGID \<equiv> 24"
abbreviation (input) TN_MSGREF :: XltTagID where "TN_MSGREF \<equiv> 25"
abbreviation (input) TN_NORESP :: XltTagID where "TN_NORESP \<equiv> 26"
abbreviation (input) TN_NORESULTS :: XltTagID where "TN_NORESULTS \<equiv> 27"
abbreviation (input) TN_PUT :: XltTagID where "TN_PUT \<equiv> 28"
abbreviation (input) TN_REPLACE :: XltTagID where "TN_REPLACE \<equiv> 29"
abbreviation (input) TN_RESPURI :: XltTagID where "TN_RESPURI \<equiv> 30"
abbreviation (input) TN_RESULTS :: XltTagID where "TN_RESULTS \<equiv> 31"
abbreviation (input) TN_SEARCH :: XltTagID where "TN_SEARCH \<equiv> 32"
abbreviation (input) TN_SEQUENCE :: XltTagID where "TN_SEQUENCE \<equiv> 33"
abbreviation (input) TN_SEQUENCE_END :: XltTagID where "TN_SEQUENCE_END \<equiv> 34"
abbreviation (input) TN_SESSIONID :: XltTagID where "TN_SESSIONID \<equiv> 35"
abbreviation (input) TN_SFTDEL :: XltTagID where "TN_SFTDEL \<equiv> 36"
abbreviation (input) TN_SOURCE :: XltTagID where "TN_SOURCE \<equiv> 37"
abbreviation (input) TN_SOURCEREF :: XltTagID where "TN_SOURCEREF \<equiv> 38"
abbreviation (input) TN_STATUS :: XltTagID where "TN_STATUS \<equiv> 39"
abbreviation (input) TN_SYNC :: XltTagID where "TN_SYNC \<equiv> 40"
abbreviation (input) TN_SYNCBODY :: XltTagID where "TN_SYNCBODY \<equiv> 41"
abbreviation (input) TN_SYNCHDR :: XltTagID where "TN_SYNCHDR \<equiv> 42"
abbreviation (input) TN_SYNCML :: XltTagID where "TN_SYNCML \<equiv> 43"
abbreviation (input) TN_SYNC_END :: XltTagID where "TN_SYNC_END \<equiv> 44"
abbreviation (input) TN_TARGET :: XltTagID where "TN_TARGET \<equiv> 45"
abbreviation (input) TN_TARGETREF :: XltTagID where "TN_TARGETREF \<equiv> 46"
abbreviation (input) TN_VERSION :: XltTagID where "TN_VERSION \<equiv> 47"
abbreviation (input) TN_PROTO :: XltTagID where "TN_PROTO \<equiv> 48"
abbreviation (input) TN_METINF_ANCHOR :: XltTagID where "TN_METINF_ANCHOR \<equiv> 49"
abbreviation (input) TN_METINF_EMI :: XltTagID where "TN_METINF_EMI \<equiv> 50"
abbreviation (input) TN_METINF_FORMAT :: XltTagID where "TN_METINF_FORMAT \<equiv> 51"
abbreviation (input) TN_METINF_FREEID :: XltTagID where "TN_METINF_FREEID \<equiv> 52"
abbreviation (input) TN_METINF_FREEMEM :: XltTagID where "TN_METINF_FREEMEM \<equiv> 53"
abbreviation (input) TN_METINF_LAST :: XltTagID where "TN_METINF_LAST \<equiv> 54"
abbreviation (input) TN_METINF_MARK :: XltTagID where "TN_METINF_MARK \<equiv> 55"
abbreviation (input) TN_METINF_MAXMSGSIZE :: XltTagID where "TN_METINF_MAXMSGSIZE \<equiv> 56"
abbreviation (input) TN_METINF_MEM :: XltTagID where "TN_METINF_MEM \<equiv> 57"
abbreviation (input) TN_METINF_METINF :: XltTagID where "TN_METINF_METINF \<equiv> 58"
abbreviation (input) TN_METINF_NEXT :: XltTagID where "TN_METINF_NEXT \<equiv> 59"
abbreviation (input) TN_METINF_NEXTNONCE :: XltTagID where "TN_METINF_NEXTNONCE \<equiv> 60"
abbreviation (input) TN_METINF_SHAREDMEM :: XltTagID where "TN_METINF_SHAREDMEM \<equiv> 61"
abbreviation (input) TN_METINF_SIZE :: XltTagID where "TN_METINF_SIZE \<equiv> 62"
abbreviation (input) TN_METINF_TYPE :: XltTagID where "TN_METINF_TYPE \<equiv> 63"
abbreviation (input) TN_METINF_VERSION :: XltTagID where "TN_METINF_VERSION \<equiv> 64"
abbreviation (input) TN_DEVINF_CTCAP :: XltTagID where "TN_DEVINF_CTCAP \<equiv> 65"
abbreviation (input) TN_DEVINF_CTTYPE :: XltTagID where "TN_DEVINF_CTTYPE \<equiv> 66"
abbreviation (input) TN_DEVINF_DATASTORE :: XltTagID where "TN_DEVINF_DATASTORE \<equiv> 67"
abbreviation (input) TN_DEVINF_DATATYPE :: XltTagID where "TN_DEVINF_DATATYPE \<equiv> 68"
abbreviation (input) TN_DEVINF_DEVID :: XltTagID where "TN_DEVINF_DEVID \<equiv> 69"
abbreviation (input) TN_DEVINF_DEVINF :: XltTagID where "TN_DEVINF_DEVINF \<equiv> 70"
abbreviation (input) TN_DEVINF_DEVTYP :: XltTagID where "TN_DEVINF_DEVTYP \<equiv> 71"
abbreviation (input) TN_DEVINF_DISPLAYNAME :: XltTagID where "TN_DEVINF_DISPLAYNAME \<equiv> 72"
abbreviation (input) TN_DEVINF_DSMEM :: XltTagID where "TN_DEVINF_DSMEM \<equiv> 73"
abbreviation (input) TN_DEVINF_EXT :: XltTagID where "TN_DEVINF_EXT \<equiv> 74"
abbreviation (input) TN_DEVINF_FWV :: XltTagID where "TN_DEVINF_FWV \<equiv> 75"
abbreviation (input) TN_DEVINF_HWV :: XltTagID where "TN_DEVINF_HWV \<equiv> 76"
abbreviation (input) TN_DEVINF_MAN :: XltTagID where "TN_DEVINF_MAN \<equiv> 77"
abbreviation (input) TN_DEVINF_MAXGUIDSIZE :: XltTagID where "TN_DEVINF_MAXGUIDSIZE \<equiv> 78"
abbreviation (input) TN_DEVINF_MAXID :: XltTagID where "TN_DEVINF_MAXID \<equiv> 79"
abbreviation (input) TN_DEVINF_MAXMEM :: XltTagID where "TN_DEVINF_MAXMEM \<equiv> 80"
abbreviation (input) TN_DEVINF_MOD :: XltTagID where "TN_DEVINF_MOD \<equiv> 81"
abbreviation (input) TN_DEVINF_OEM :: XltTagID where "TN_DEVINF_OEM \<equiv> 82"
abbreviation (input) TN_DEVINF_PARAMNAME :: XltTagID where "TN_DEVINF_PARAMNAME \<equiv> 83"
abbreviation (input) TN_DEVINF_PROPNAME :: XltTagID where "TN_DEVINF_PROPNAME \<equiv> 84"
abbreviation (input) TN_DEVINF_RX :: XltTagID where "TN_DEVINF_RX \<equiv> 85"
abbreviation (input) TN_DEVINF_RXPREF :: XltTagID where "TN_DEVINF_RXPREF \<equiv> 86"
abbreviation (input) TN_DEVINF_SHAREDMEM :: XltTagID where "TN_DEVINF_SHAREDMEM \<equiv> 87"
abbreviation (input) TN_DEVINF_SIZE :: XltTagID where "TN_DEVINF_SIZE \<equiv> 88"
abbreviation (input) TN_DEVINF_SOURCEREF :: XltTagID where "TN_DEVINF_SOURCEREF \<equiv> 89"
abbreviation (input) TN_DEVINF_SWV :: XltTagID where "TN_DEVINF_SWV \<equiv> 90"
abbreviation (input) TN_DEVINF_SYNCCAP :: XltTagID where "TN_DEVINF_SYNCCAP \<equiv> 91"
abbreviation (input) TN_DEVINF_SYNCTYPE :: XltTagID where "TN_DEVINF_SYNCTYPE \<equiv> 92"
abbreviation (input) TN_DEVINF_TX :: XltTagID where "TN_DEVINF_TX \<equiv> 93"
abbreviation (input) TN_DEVINF_TXPREF :: XltTagID where "TN_DEVINF_TXPREF \<equiv> 94"
abbreviation (input) TN_DEVINF_VALENUM :: XltTagID where "TN_DEVINF_VALENUM \<equiv> 95"
abbreviation (input) TN_DEVINF_VERCT :: XltTagID where "TN_DEVINF_VERCT \<equiv> 96"
abbreviation (input) TN_DEVINF_VERDTD :: XltTagID where "TN_DEVINF_VERDTD \<equiv> 97"
abbreviation (input) TN_DEVINF_XNAM :: XltTagID where "TN_DEVINF_XNAM \<equiv> 98"
abbreviation (input) TN_DEVINF_XVAL :: XltTagID where "TN_DEVINF_XVAL \<equiv> 99"
abbreviation (input) TN_NUMBEROFCHANGES :: XltTagID where "TN_NUMBEROFCHANGES \<equiv> 100"
abbreviation (input) TN_MOREDATA :: XltTagID where "TN_MOREDATA \<equiv> 101"
abbreviation (input) TN_METINF_MAXOBJSIZE :: XltTagID where "TN_METINF_MAXOBJSIZE \<equiv> 102"
abbreviation (input) TN_DEVINF_UTC :: XltTagID where "TN_DEVINF_UTC \<equiv> 103"
abbreviation (input) TN_DEVINF_NOFM :: XltTagID where "TN_DEVINF_NOFM \<equiv> 104"
abbreviation (input) TN_DEVINF_LARGEOBJECT :: XltTagID where "TN_DEVINF_LARGEOBJECT \<equiv> 105"
abbreviation (input) TN_CORRELATOR :: XltTagID where "TN_CORRELATOR \<equiv> 106"
abbreviation (input) TN_DMTND_AccessType :: XltTagID where "TN_DMTND_AccessType \<equiv> 107"
abbreviation (input) TN_DMTND_ACL :: XltTagID where "TN_DMTND_ACL \<equiv> 108"
abbreviation (input) TN_DMTND_Add :: XltTagID where "TN_DMTND_Add \<equiv> 109"
abbreviation (input) TN_DMTND_b64 :: XltTagID where "TN_DMTND_b64 \<equiv> 110"
abbreviation (input) TN_DMTND_bin :: XltTagID where "TN_DMTND_bin \<equiv> 111"
abbreviation (input) TN_DMTND_bool :: XltTagID where "TN_DMTND_bool \<equiv> 112"
abbreviation (input) TN_DMTND_chr :: XltTagID where "TN_DMTND_chr \<equiv> 113"
abbreviation (input) TN_DMTND_CaseSense :: XltTagID where "TN_DMTND_CaseSense \<equiv> 114"
abbreviation (input) TN_DMTND_CIS :: XltTagID where "TN_DMTND_CIS \<equiv> 115"
abbreviation (input) TN_DMTND_Copy :: XltTagID where "TN_DMTND_Copy \<equiv> 116"
abbreviation (input) TN_DMTND_CS :: XltTagID where "TN_DMTND_CS \<equiv> 117"
abbreviation (input) TN_DMTND_date :: XltTagID where "TN_DMTND_date \<equiv> 118"
abbreviation (input) TN_DMTND_DDFName :: XltTagID where "TN_DMTND_DDFName \<equiv> 119"
abbreviation (input) TN_DMTND_DefaultValue :: XltTagID where "TN_DMTND_DefaultValue \<equiv> 120"
abbreviation (input) TN_DMTND_Delete :: XltTagID where "TN_DMTND_Delete \<equiv> 121"
abbreviation (input) TN_DMTND_Description :: XltTagID where "TN_DMTND_Description \<equiv> 122"
abbreviation (input) TN_DMTND_DFFormat :: XltTagID where "TN_DMTND_DFFormat \<equiv> 123"
abbreviation (input) TN_DMTND_DFProperties :: XltTagID where "TN_DMTND_DFProperties \<equiv> 124"
abbreviation (input) TN_DMTND_DFTitle :: XltTagID where "TN_DMTND_DFTitle \<equiv> 125"
abbreviation (input) TN_DMTND_DFType :: XltTagID where "TN_DMTND_DFType \<equiv> 126"
abbreviation (input) TN_DMTND_Dynamic :: XltTagID where "TN_DMTND_Dynamic \<equiv> 127"
abbreviation (input) TN_DMTND_Exec :: XltTagID where "TN_DMTND_Exec \<equiv> 128"
abbreviation (input) TN_DMTND_float :: XltTagID where "TN_DMTND_float \<equiv> 129"
abbreviation (input) TN_DMTND_Format :: XltTagID where "TN_DMTND_Format \<equiv> 130"
abbreviation (input) TN_DMTND_Get :: XltTagID where "TN_DMTND_Get \<equiv> 131"
abbreviation (input) TN_DMTND_int :: XltTagID where "TN_DMTND_int \<equiv> 132"
abbreviation (input) TN_DMTND_Man :: XltTagID where "TN_DMTND_Man \<equiv> 133"
abbreviation (input) TN_DMTND_MgmtTree :: XltTagID where "TN_DMTND_MgmtTree \<equiv> 134"
abbreviation (input) TN_DMTND_MIME :: XltTagID where "TN_DMTND_MIME \<equiv> 135"
abbreviation (input) TN_DMTND_Mod :: XltTagID where "TN_DMTND_Mod \<equiv> 136"
abbreviation (input) TN_DMTND_Name :: XltTagID where "TN_DMTND_Name \<equiv> 137"
abbreviation (input) TN_DMTND_Node :: XltTagID where "TN_DMTND_Node \<equiv> 138"
abbreviation (input) TN_DMTND_node :: XltTagID where "TN_DMTND_node \<equiv> 139"
abbreviation (input) TN_DMTND_NodeName :: XltTagID where "TN_DMTND_NodeName \<equiv> 140"
abbreviation (input) TN_DMTND_null :: XltTagID where "TN_DMTND_null \<equiv> 141"
abbreviation (input) TN_DMTND_Occurrence :: XltTagID where "TN_DMTND_Occurrence \<equiv> 142"
abbreviation (input) TN_DMTND_One :: XltTagID where "TN_DMTND_One \<equiv> 143"
abbreviation (input) TN_DMTND_OneOrMore :: XltTagID where "TN_DMTND_OneOrMore \<equiv> 144"
abbreviation (input) TN_DMTND_OneOrN :: XltTagID where "TN_DMTND_OneOrN \<equiv> 145"
abbreviation (input) TN_DMTND_Path :: XltTagID where "TN_DMTND_Path \<equiv> 146"
abbreviation (input) TN_DMTND_Permanent :: XltTagID where "TN_DMTND_Permanent \<equiv> 147"
abbreviation (input) TN_DMTND_Replace :: XltTagID where "TN_DMTND_Replace \<equiv> 148"
abbreviation (input) TN_DMTND_RTProperties :: XltTagID where "TN_DMTND_RTProperties \<equiv> 149"
abbreviation (input) TN_DMTND_Scope :: XltTagID where "TN_DMTND_Scope \<equiv> 150"
abbreviation (input) TN_DMTND_Size :: XltTagID where "TN_DMTND_Size \<equiv> 151"
abbreviation (input) TN_DMTND_time :: XltTagID where "TN_DMTND_time \<equiv> 152"
abbreviation (input) TN_DMTND_Title :: XltTagID where "TN_DMTND_Title \<equiv> 153"
abbreviation (input) TN_DMTND_TStamp :: XltTagID where "TN_DMTND_TStamp \<equiv> 154"
abbreviation (input) TN_DMTND_Type :: XltTagID where "TN_DMTND_Type \<equiv> 155"
abbreviation (input) TN_DMTND_Value :: XltTagID where "TN_DMTND_Value \<equiv> 156"
abbreviation (input) TN_DMTND_VerDTD :: XltTagID where "TN_DMTND_VerDTD \<equiv> 157"
abbreviation (input) TN_DMTND_VerNo :: XltTagID where "TN_DMTND_VerNo \<equiv> 158"
abbreviation (input) TN_DMTND_xml :: XltTagID where "TN_DMTND_xml \<equiv> 159"
abbreviation (input) TN_DMTND_ZeroOrMore :: XltTagID where "TN_DMTND_ZeroOrMore \<equiv> 160"
abbreviation (input) TN_DMTND_ZeroOrN :: XltTagID where "TN_DMTND_ZeroOrN \<equiv> 161"
abbreviation (input) TN_DMTND_ZeroOrOne :: XltTagID where "TN_DMTND_ZeroOrOne \<equiv> 162"

datatype SmlPcdataExtension =
    SML_EXT_UNDEFINED | SML_EXT_METINF | SML_EXT_DEVINF | SML_EXT_DMTND | SML_EXT_LAST | SML_EXT_255

record Tag =
  tag_id :: XltTagID
  tag_wbxml :: byte
  tag_xml :: "byte list"

definition TOKEN :: "XltTagID \<Rightarrow> byte \<Rightarrow> string \<Rightarrow> Tag" where
  "TOKEN i b s = \<lparr>tag_id = i, tag_wbxml = b, tag_xml = bytes_of s\<rparr>"

definition syncml_tags :: "Tag list" where
  "syncml_tags =
     [TOKEN TN_ADD 0x05 ''Add'',
      TOKEN TN_ALERT 0x06 ''Alert'',
      TOKEN TN_ARCHIVE 0x07 ''Archive'',
      TOKEN TN_ATOMIC 0x08 ''Atomic'',
      TOKEN TN_CHAL 0x09 ''Chal'',
      TOKEN TN_CMD 0x0A ''Cmd'',
      TOKEN TN_CMDID 0x0B ''CmdID'',
      TOKEN TN_CMDREF 0x0C ''CmdRef'',
      TOKEN TN_COPY 0x0D ''Copy'',
      TOKEN TN_CRED 0x0E ''Cred'',
      TOKEN TN_DATA 0x0F ''Data'',
      TOKEN TN_DELETE 0x10 ''Delete'',
      TOKEN TN_EXEC 0x11 ''Exec'',
      TOKEN TN_FINAL 0x12 ''Final'',
      TOKEN TN_GET 0x13 ''Get'',
      TOKEN TN_ITEM 0x14 ''Item'',
      TOKEN TN_LANG 0x15 ''Lang'',
      TOKEN TN_LOCNAME 0x16 ''LocName'',
      TOKEN TN_LOCURI 0x17 ''LocURI'',
      TOKEN TN_MAP 0x18 ''Map'',
      TOKEN TN_MAPITEM 0x19 ''MapItem'',
      TOKEN TN_META 0x1A ''Meta'',
      TOKEN TN_MSGID 0x1B ''MsgID'',
      TOKEN TN_MSGREF 0x1C ''MsgRef'',
      TOKEN TN_NORESP 0x1D ''NoResp'',
      TOKEN TN_NORESULTS 0x1E ''NoResults'',
      TOKEN TN_PUT 0x1F ''Put'',
      TOKEN TN_REPLACE 0x20 ''Replace'',
      TOKEN TN_RESPURI 0x21 ''RespURI'',
      TOKEN TN_RESULTS 0x22 ''Results'',
      TOKEN TN_SEARCH 0x23 ''Search'',
      TOKEN TN_SEQUENCE 0x24 ''Sequence'',
      TOKEN TN_SESSIONID 0x25 ''SessionID'',
      TOKEN TN_SFTDEL 0x26 ''SftDel'',
      TOKEN TN_SOURCE 0x27 ''Source'',
      TOKEN TN_SOURCEREF 0x28 ''SourceRef'',
      TOKEN TN_STATUS 0x29 ''Status'',
      TOKEN TN_SYNC 0x2A ''Sync'',
      TOKEN TN_SYNCBODY 0x2B ''SyncBody'',
      TOKEN TN_SYNCHDR 0x2C ''SyncHdr'',
      TOKEN TN_SYNCML 0x2D ''SyncML'',
      TOKEN TN_TARGET 0x2E ''Target'',
      TOKEN TN_TARGETREF 0x2F ''TargetRef'',
      TOKEN TN_VERSION 0x31 ''VerDTD'',
      TOKEN TN_PROTO 0x32 ''VerProto'',
      TOKEN TN_NUMBEROFCHANGES 0x33 ''NumberOfChanges'',
      TOKEN TN_MOREDATA 0x34 ''MoreData'',
      TOKEN TN_CORRELATOR 0x3C ''Correlator'',
      TOKEN TN_UNDEF 0x00 '''']"

definition metinf_tags :: "Tag list" where
  "metinf_tags =
     [TOKEN TN_METINF_ANCHOR 0x05 ''Anchor'',
      TOKEN TN_METINF_EMI 0x06 ''EMI'',
      TOKEN TN_METINF_FORMAT 0x07 ''Format'',
      TOKEN TN_METINF_FREEID 0x08 ''FreeID'',
      TOKEN TN_METINF_FREEMEM 0x09 ''FreeMem'',
      TOKEN TN_METINF_LAST 0x0A ''Last'',
      TOKEN TN_METINF_MARK 0x0B ''Mark'',
      TOKEN TN_METINF_MAXMSGSIZE 0x0C ''MaxMsgSize'',
      TOKEN TN_METINF_MEM 0x0D ''Mem'',
      TOKEN TN_METINF_METINF 0x0E ''MetInf'',
      TOKEN TN_METINF_NEXT 0x0F ''Next'',
      TOKEN TN_METINF_NEXTNONCE 0x10 ''NextNonce'',
      TOKEN TN_METINF_SHAREDMEM 0x11 ''SharedMem'',
      TOKEN TN_METINF_SIZE 0x12 ''Size'',
      TOKEN TN_METINF_TYPE 0x13 ''Type'',
      TOKEN TN_METINF_VERSION 0x14 ''Version'',
      TOKEN TN_METINF_MAXOBJSIZE 0x15 ''MaxObjSize'',
      TOKEN TN_UNDEF 0x00 '''']"

definition devinf_tags :: "Tag list" where
  "devinf_tags =
     [TOKEN TN_DEVINF_CTCAP 0x05 ''CTCap'',
      TOKEN TN_DEVINF_CTTYPE 0x06 ''CTType'',
      TOKEN TN_DEVINF_DATASTORE 0x07 ''DataStore'',
      TOKEN TN_DEVINF_DATATYPE 0x08 ''DataType'',
      TOKEN TN_DEVINF_DEVID 0x09 ''DevID'',
      TOKEN TN_DEVINF_DEVINF 0x0A ''DevInf'',
      TOKEN TN_DEVINF_DEVTYP 0x0B ''DevTyp'',
      TOKEN TN_DEVINF_DISPLAYNAME 0x0C ''DisplayName'',
      TOKEN TN_DEVINF_DSMEM 0x0D ''DSMem'',
      TOKEN TN_DEVINF_EXT 0x0E ''Ext'',
      TOKEN TN_DEVINF_FWV 0x0F ''FwV'',
      TOKEN TN_DEVINF_HWV 0x10 ''HwV'',
      TOKEN TN_DEVINF_MAN 0x11 ''Man'',
      TOKEN TN_DEVINF_MAXGUIDSIZE 0x12 ''MaxGUIDSize'',
      TOKEN TN_DEVINF_MAXID 0x13 ''MaxID'',
      TOKEN TN_DEVINF_MAXMEM 0x14 ''MaxMem'',
      TOKEN TN_DEVINF_MOD 0x15 ''Mod'',
      TOKEN TN_DEVINF_OEM 0x16 ''OEM'',
      TOKEN TN_DEVINF_PARAMNAME 0x17 ''ParamName'',
      TOKEN TN_DEVINF_PROPNAME 0x18 ''PropName'',
      TOKEN TN_DEVINF_RX 0x19 ''Rx'',
      TOKEN TN_DEVINF_RXPREF 0x1A ''Rx-Pref'',
      TOKEN TN_DEVINF_SHAREDMEM 0x1B ''SharedMem'',
      TOKEN TN_DEVINF_SIZE 0x1C ''Size'',
      TOKEN TN_DEVINF_SOURCEREF 0x1D ''SourceRef'',
      TOKEN TN_DEVINF_SWV 0x1E ''SwV'',
      TOKEN TN_DEVINF_SYNCCAP 0x1F ''SyncCap'',
      TOKEN TN_DEVINF_SYNCTYPE 0x20 ''SyncType'',
      TOKEN TN_DEVINF_TX 0x21 ''Tx'',
      TOKEN TN_DEVINF_TXPREF 0x22 ''Tx-Pref'',
      TOKEN TN_DEVINF_VALENUM 0x23 ''ValEnum'',
      TOKEN TN_DEVINF_VERCT 0x24 ''VerCT'',
      TOKEN TN_DEVINF_VERDTD 0x25 ''VerDTD'',
      TOKEN TN_DEVINF_XNAM 0x26 ''XNam'',
      TOKEN TN_DEVINF_XVAL 0x27 ''XVal'',
      TOKEN TN_DEVINF_UTC 0x28 ''UTC'',
      TOKEN TN_DEVINF_NOFM 0x29 ''SupportNumberOfChanges'',
      TOKEN TN_DEVINF_LARGEOBJECT 0x2A ''SupportLargeObjs'',
      TOKEN TN_UNDEF 0x00 '''']"

definition dmtnd_tags :: "Tag list" where
  "dmtnd_tags =
     [TOKEN TN_DMTND_AccessType 0x05 ''AccessType'',
      TOKEN TN_DMTND_ACL 0x06 ''ACL'',
      TOKEN TN_DMTND_Add 0x07 ''Add'',
      TOKEN TN_DMTND_b64 0x08 ''b64'',
      TOKEN TN_DMTND_bin 0x09 ''bin'',
      TOKEN TN_DMTND_bool 0x0A ''bool'',
      TOKEN TN_DMTND_chr 0x0B ''chr'',
      TOKEN TN_DMTND_CaseSense 0x0C ''CaseSense'',
      TOKEN TN_DMTND_CIS 0x0D ''CIS'',
      TOKEN TN_DMTND_Copy 0x0E ''Copy'',
      TOKEN TN_DMTND_CS 0x0F ''CS'',
      TOKEN TN_DMTND_date 0x10 ''date'',
      TOKEN TN_DMTND_DDFName 0x11 ''DDFName'',
      TOKEN TN_DMTND_DefaultValue 0x12 ''DefaultValue'',
      TOKEN TN_DMTND_Delete 0x13 ''Delete'',
      TOKEN TN_DMTND_Description 0x14 ''Description'',
      TOKEN TN_DMTND_DFFormat 0x15 ''DFFormat'',
      TOKEN TN_DMTND_DFProperties 0x16 ''DFProperties'',
      TOKEN TN_DMTND_DFTitle 0x17 ''DFTitle'',
      TOKEN TN_DMTND_DFType 0x18 ''DFType'',
      TOKEN TN_DMTND_Dynamic 0x19 ''Dynamic'',
      TOKEN TN_DMTND_Exec 0x1A ''Exec'',
      TOKEN TN_DMTND_float 0x1B ''float'',
      TOKEN TN_DMTND_Format 0x1C ''Format'',
      TOKEN TN_DMTND_Get 0x1D ''Get'',
      TOKEN TN_DMTND_int 0x1E ''int'',
      TOKEN TN_DMTND_Man 0x1F ''Man'',
      TOKEN TN_DMTND_MgmtTree 0x20 ''MgmtTree'',
      TOKEN TN_DMTND_MIME 0x21 ''MIME'',
      TOKEN TN_DMTND_Mod 0x22 ''Mod'',
      TOKEN TN_DMTND_Name 0x23 ''Name'',
      TOKEN TN_DMTND_Node 0x24 ''Node'',
      TOKEN TN_DMTND_node 0x25 ''node'',
      TOKEN TN_DMTND_NodeName 0x26 ''NodeName'',
      TOKEN TN_DMTND_null 0x27 ''null'',
      TOKEN TN_DMTND_Occurrence 0x28 ''Occurrence'',
      TOKEN TN_DMTND_One 0x29 ''One'',
      TOKEN TN_DMTND_OneOrMore 0x2A ''OneOrMore'',
      TOKEN TN_DMTND_OneOrN 0x2B ''OneOrN'',
      TOKEN TN_DMTND_Path 0x2C ''Path'',
      TOKEN TN_DMTND_Permanent 0x2D ''Permanent'',
      TOKEN TN_DMTND_Replace 0x2E ''Replace'',
      TOKEN TN_DMTND_RTProperties 0x2F ''RTProperties'',
      TOKEN TN_DMTND_Scope 0x30 ''Scope'',
      TOKEN TN_DMTND_Size 0x31 ''Size'',
      TOKEN TN_DMTND_time 0x32 ''time'',
      TOKEN TN_DMTND_Title 0x33 ''Title'',
      TOKEN TN_DMTND_TStamp 0x34 ''TStamp'',
      TOKEN TN_DMTND_Type 0x35 ''Type'',
      TOKEN TN_DMTND_Value 0x36 ''Value'',
      TOKEN TN_DMTND_VerDTD 0x37 ''VerDTD'',
      TOKEN TN_DMTND_VerNo 0x38 ''VerNo'',
      TOKEN TN_DMTND_xml 0x39 ''xml'',
      TOKEN TN_DMTND_ZeroOrMore 0x3A ''ZeroOrMore'',
      TOKEN TN_DMTND_ZeroOrN 0x3B ''ZeroOrN'',
      TOKEN TN_DMTND_ZeroOrOne 0x3C ''ZeroOrOne'']"

lemmas tag_tables = syncml_tags_def metinf_tags_def devinf_tags_def dmtnd_tags_def

text \<open>The global anchor as the tables see it: \<open>tt_mallocs\<close> empty means that every allocation succeeds.\<close>

record TokTbl =
  tt_anchor :: bool
  tt_SyncML :: "Tag list option"
  tt_MetInf :: "Tag list option"
  tt_DevInf :: "Tag list option"
  tt_DmTnd :: "Tag list option"
  tt_mallocs :: "bool list"

definition tok_malloc :: "TokTbl \<Rightarrow> bool \<times> TokTbl" where
  "tok_malloc g = (case tt_mallocs g of [] \<Rightarrow> (True, g) | b # bs \<Rightarrow> (b, g\<lparr>tt_mallocs := bs\<rparr>))"

definition getTagTable :: "SmlPcdataExtension \<Rightarrow> TokTbl \<Rightarrow> Tag list option \<times> TokTbl" where
  "getTagTable ext g =
     (if \<not> tt_anchor g then (None, g)
      else case ext of
SML_EXT_UNDEFINED \<Rightarrow>
          (case tt_SyncML g of Some t \<Rightarrow> (Some t, g)
           | None \<Rightarrow> (let (ok, g) = tok_malloc g
                      in if ok then (Some syncml_tags, g\<lparr>tt_SyncML := Some syncml_tags\<rparr>) else (None, g)))
      | SML_EXT_METINF \<Rightarrow>
          (case tt_MetInf g of Some t \<Rightarrow> (Some t, g)
           | None \<Rightarrow> (let (ok, g) = tok_malloc g
                      in if ok then (Some metinf_tags, g\<lparr>tt_MetInf := Some metinf_tags\<rparr>) else (None, g)))
      | SML_EXT_DEVINF \<Rightarrow>
          (case tt_DevInf g of Some t \<Rightarrow> (Some t, g)
           | None \<Rightarrow> (let (ok, g) = tok_malloc g
                      in if ok then (Some devinf_tags, g\<lparr>tt_DevInf := Some devinf_tags\<rparr>) else (None, g)))
      | SML_EXT_DMTND \<Rightarrow>
          (case tt_DmTnd g of Some t \<Rightarrow> (Some t, g)
           | None \<Rightarrow> (let (ok, g) = tok_malloc g
                      in if ok then (Some dmtnd_tags, g\<lparr>tt_DmTnd := Some dmtnd_tags\<rparr>) else (None, g)))
      | _ \<Rightarrow> (None, g))"

section \<open>Walking a table\<close>

text \<open>
  \<open>None\<close>: the walk ran past the end of the table; \<open>Some None\<close>: it reached the \<open>TN_UNDEF\<close> row.
\<close>

fun tag_walk :: "(Tag \<Rightarrow> bool) \<Rightarrow> Tag list \<Rightarrow> Tag option option" where
  "tag_walk P [] = None"
| "tag_walk P (t # ts) =
     (if tag_id t = TN_UNDEF then Some None
      else if P t then Some (Some t)
      else tag_walk P ts)"

text \<open>\<open>*s\<close> and \<open>strcmp\<close> on zero-terminated strings given without their zero byte.\<close>

definition first_char :: "byte list \<Rightarrow> byte" where
  "first_char s = (case s of [] \<Rightarrow> 0 | c # _ \<Rightarrow> c)"

text \<open>The result of a lookup: the code, the value that is written (\<open>None\<close>: nothing is), the anchor.\<close>

definition tag_lookup ::
    "(Tag \<Rightarrow> bool) \<Rightarrow> (Tag \<Rightarrow> 'a) \<Rightarrow> 'a \<Rightarrow> SmlPcdataExtension \<Rightarrow> TokTbl
       \<Rightarrow> (ret \<times> 'a option \<times> TokTbl) option"
where
  "tag_lookup P f dflt ext g =
     (case getTagTable ext g of
        (None, g) \<Rightarrow> Some (SML_ERR_NOT_ENOUGH_SPACE, None, g)
      | (Some tags, g) \<Rightarrow> do {
          r \<leftarrow> tag_walk P tags;
          Some (case r of Some t \<Rightarrow> (SML_ERR_OK, Some (f t), g)
                | None \<Rightarrow> (SML_ERR_XLT_INVAL_PROTO_ELEM, Some dflt, g))
        })"

definition getTagString :: "XltTagID \<Rightarrow> SmlPcdataExtension \<Rightarrow> TokTbl \<Rightarrow> (ret \<times> byte list \<times> TokTbl) option" where
  "getTagString tagID ext g = do {
     (r, s, g) \<leftarrow> tag_lookup (\<lambda>t. tag_id t = tagID) tag_xml [] ext g;
     Some (r, (case s of Some s \<Rightarrow> s | None \<Rightarrow> []), g)
   }"

definition getTagByte :: "XltTagID \<Rightarrow> SmlPcdataExtension \<Rightarrow> TokTbl \<Rightarrow> (ret \<times> byte option \<times> TokTbl) option" where
  "getTagByte tagID ext g = tag_lookup (\<lambda>t. tag_id t = tagID) tag_wbxml 0 ext g"

definition getCodePage :: "SmlPcdataExtension \<Rightarrow> byte" where
  "getCodePage ext =
     (if ext = SML_EXT_DMTND then 2
      else if ext = SML_EXT_METINF then 1
      else if ext = SML_EXT_DEVINF then 0
      else 0)"

fun ext_search :: "XltTagID \<Rightarrow> SmlPcdataExtension list \<Rightarrow> TokTbl \<Rightarrow> (ret \<times> SmlPcdataExtension \<times> TokTbl) option" where
  "ext_search tagID [] g = Some (SML_ERR_XLT_INVAL_PROTO_ELEM, SML_EXT_255, g)"
| "ext_search tagID (ext # exts) g =
     (case getTagTable ext g of
        (None, g) \<Rightarrow> ext_search tagID exts g
      | (Some tags, g) \<Rightarrow> do {
          r \<leftarrow> tag_walk (\<lambda>t. tag_id t = tagID) tags;
          (case r of Some t \<Rightarrow> Some (SML_ERR_OK, ext, g)
           | None \<Rightarrow> ext_search tagID exts g)
        })"

definition getExtById :: "XltTagID \<Rightarrow> TokTbl \<Rightarrow> (ret \<times> SmlPcdataExtension \<times> TokTbl) option" where
  "getExtById tagID g =
     ext_search tagID [SML_EXT_UNDEFINED, SML_EXT_METINF, SML_EXT_DEVINF, SML_EXT_DMTND] g"

definition getTagIDByStringAndExt ::
    "byte list \<Rightarrow> SmlPcdataExtension \<Rightarrow> TokTbl \<Rightarrow> (ret \<times> XltTagID option \<times> TokTbl) option" where
  "getTagIDByStringAndExt tag ext g =
     tag_lookup (\<lambda>t. first_char (tag_xml t) = first_char tag \<and> tag_xml t = tag) tag_id TN_UNDEF ext g"

definition getTagIDByByteAndExt ::
    "byte \<Rightarrow> SmlPcdataExtension \<Rightarrow> TokTbl \<Rightarrow> (ret \<times> XltTagID option \<times> TokTbl) option" where
  "getTagIDByByteAndExt tag ext g = tag_lookup (\<lambda>t. tag_wbxml t = tag) tag_id TN_UNDEF ext g"

section \<open>Names of the DTDs\<close>

datatype SmlVersion =
  SML_VERS_UNDEF | SML_VERS_1_0 | SML_VERS_1_1 | SML_VERS_1_2 | SML_NUM_VERS

definition SyncMLNamespaces :: "SmlVersion \<Rightarrow> byte list" where
  "SyncMLNamespaces v =
     (case v of
        SML_VERS_1_0 \<Rightarrow> bytes_of ''SYNCML:SYNCML1.0''
      | SML_VERS_1_1 \<Rightarrow> bytes_of ''SYNCML:SYNCML1.1''
      | SML_VERS_1_2 \<Rightarrow> bytes_of ''SYNCML:SYNCML1.2''
      | _ \<Rightarrow> bytes_of ''???'')"

record Dtd =
  dtd_name :: "byte list option"
  dtd_ext :: SmlPcdataExtension

definition XltDtdTbl :: "Dtd list" where
  "XltDtdTbl =
     [\<lparr>dtd_name = Some (bytes_of ''SYNCML:SYNCML1.0''), dtd_ext = SML_EXT_UNDEFINED\<rparr>,
      \<lparr>dtd_name = Some (bytes_of ''syncml:metinf''), dtd_ext = SML_EXT_METINF\<rparr>,
      \<lparr>dtd_name = Some (bytes_of ''syncml:devinf''), dtd_ext = SML_EXT_DEVINF\<rparr>,
      \<lparr>dtd_name = Some (bytes_of ''syncml:dmddf1.2''), dtd_ext = SML_EXT_DMTND\<rparr>,
      \<lparr>dtd_name = None, dtd_ext = SML_EXT_LAST\<rparr>]"

definition getDtdTable :: "TokTbl \<Rightarrow> Dtd list option \<times> TokTbl" where
  "getDtdTable g = (let (ok, g) = tok_malloc g in (if ok then Some XltDtdTbl else None, g))"

fun dtd_walk :: "(Dtd \<Rightarrow> bool) \<Rightarrow> Dtd list \<Rightarrow> Dtd option option" where
  "dtd_walk P [] = None"
| "dtd_walk P (d # ds) =
     (if dtd_ext d = SML_EXT_LAST then Some None
      else if dtd_name d = None then dtd_walk P ds
      else if P d then Some (Some d)
      else dtd_walk P ds)"

definition getExtName ::
    "SmlPcdataExtension \<Rightarrow> SmlVersion \<Rightarrow> TokTbl \<Rightarrow> (ret \<times> byte list option \<times> TokTbl) option" where
  "getExtName ext vers g =
     (case getDtdTable g of
        (None, g) \<Rightarrow> Some (SML_ERR_CODE (- 1), None, g)
      | (Some dtds, g) \<Rightarrow> do {
          r \<leftarrow> dtd_walk (\<lambda>d. dtd_ext d = ext) dtds;
          (case r of
             None \<Rightarrow> Some (SML_ERR_CODE (- 1), None, g)
           | Some d \<Rightarrow>
               if ext = SML_EXT_UNDEFINED \<and> vers = SML_NUM_VERS then Some (SML_ERR_INVALID_SIZE, None, g)
               else
                 (let dtdname = (if ext = SML_EXT_UNDEFINED \<and> vers \<noteq> SML_VERS_UNDEF
                                 then SyncMLNamespaces vers else the (dtd_name d));
                      (ok, g) = tok_malloc g
                  in Some (if ok then (SML_ERR_OK, Some dtdname, g)
                           else (SML_ERR_NOT_ENOUGH_SPACE, None, g))))
        })"

text \<open>\<open>strncmp\<close> on zero-terminated strings.\<close>

definition c_strneq :: "nat \<Rightarrow> byte list \<Rightarrow> byte list \<Rightarrow> bool" where
  "c_strneq n a b \<longleftrightarrow> take n (a @ [0]) = take n (b @ [0])"

definition getExtByName :: "byte list \<Rightarrow> TokTbl \<Rightarrow> (SmlPcdataExtension \<times> TokTbl) option" where
  "getExtByName ns g =
     (case getDtdTable g of
        (None, g) \<Rightarrow> Some (SML_EXT_UNDEFINED, g)
      | (Some dtds, g) \<Rightarrow> do {
          r \<leftarrow> dtd_walk (\<lambda>d. (dtd_ext d = SML_EXT_UNDEFINED \<and> c_strneq 13 (bytes_of ''SYNCML:SYNCML'') ns)
                            \<or> dtd_name d = Some ns) dtds;
          Some (case r of None \<Rightarrow> SML_EXT_255 | Some d \<Rightarrow> dtd_ext d, g)
        })"

definition getTagIDByStringAndNamespace ::
    "byte list \<Rightarrow> byte list \<Rightarrow> TokTbl \<Rightarrow> (ret \<times> XltTagID option \<times> TokTbl) option" where
  "getTagIDByStringAndNamespace tag ns g = do {
     (ext, g) \<leftarrow> getExtByName ns g;
     tag_lookup (\<lambda>t. tag_xml t = tag) tag_id TN_UNDEF ext g
   }"

section \<open>The contents of the tables\<close>

definition table_of :: "SmlPcdataExtension \<Rightarrow> Tag list option" where
  "table_of ext =
     (case ext of
        SML_EXT_UNDEFINED \<Rightarrow> Some syncml_tags
      | SML_EXT_METINF \<Rightarrow> Some metinf_tags
      | SML_EXT_DEVINF \<Rightarrow> Some devinf_tags
      | SML_EXT_DMTND \<Rightarrow> Some dmtnd_tags
      | _ \<Rightarrow> None)"

text \<open>The rows that a lookup can find.\<close>

definition live_rows :: "Tag list \<Rightarrow> Tag list" where
  "live_rows ts = takeWhile (\<lambda>t. tag_id t \<noteq> TN_UNDEF) ts"

definition tags_of :: "SmlPcdataExtension \<Rightarrow> Tag list" where
  "tags_of ext = (case table_of ext of None \<Rightarrow> [] | Some ts \<Rightarrow> live_rows ts)"

definition terminated :: "Tag list \<Rightarrow> bool" where
  "terminated ts \<longleftrightarrow> (\<exists>t \<in> set ts. tag_id t = TN_UNDEF)"

lemma tag_walk_find:
  "tag_walk P ts =
     (case find P (live_rows ts) of Some t \<Rightarrow> Some (Some t)
      | None \<Rightarrow> if terminated ts then Some None else None)"
  by (induction ts) (auto simp: live_rows_def terminated_def split: option.splits)

text \<open>
  Every table: the ids, the bytes and the names of the rows are distinct, the bytes lie above the
  global tokens and below the content bit, and the names fit into \<open>XML_MAX_TAGLEN\<close>.
\<close>

definition XML_MAX_TAGLEN :: nat where "XML_MAX_TAGLEN = 35"

definition row_ok :: "Tag \<Rightarrow> bool" where
  "row_ok t \<longleftrightarrow> 0x05 \<le> tag_wbxml t \<and> tag_wbxml t < 0x40 \<and>
     length (tag_xml t) < XML_MAX_TAGLEN \<and> tag_xml t \<noteq> [] \<and> 0 \<notin> set (tag_xml t)"

definition rows_ok :: "Tag list \<Rightarrow> bool" where
  "rows_ok ts \<longleftrightarrow> list_all row_ok ts \<and> distinct (map tag_id ts) \<and>
     distinct (map tag_wbxml ts) \<and> distinct (map tag_xml ts)"

lemma syncml_rows_ok: "rows_ok (live_rows syncml_tags)"
  by code_simp

lemma metinf_rows_ok: "rows_ok (live_rows metinf_tags)"
  by code_simp

lemma devinf_rows_ok: "rows_ok (live_rows devinf_tags)"
  by code_simp

lemma dmtnd_rows_ok: "rows_ok (live_rows dmtnd_tags)"
  by code_simp

lemma tags_of_rows_ok: "rows_ok (tags_of ext)"
  by (cases ext) (simp_all add: tags_of_def table_of_def syncml_rows_ok metinf_rows_ok
      devinf_rows_ok dmtnd_rows_ok, simp_all add: rows_ok_def)

lemma syncml_terminated: "terminated syncml_tags"
  by code_simp

lemma metinf_terminated: "terminated metinf_tags"
  by code_simp

lemma devinf_terminated: "terminated devinf_tags"
  by code_simp

lemma dmtnd_not_terminated: "\<not> terminated dmtnd_tags"
  by code_simp

lemma find_key:
  assumes "distinct (map f ts)" "t \<in> set ts"
  shows "find (\<lambda>x. f x = f t) ts = Some t"
  using assms by (induction ts) (auto simp: image_iff)

lemma find_key_None: "c \<notin> f ` set ts \<Longrightarrow> find (\<lambda>x. f x = c) ts = None"
  by (auto simp: find_None_iff)

section \<open>Lookups\<close>

text \<open>The copies on the heap are the tables; no allocation of a table will fail.\<close>

definition tok_inv :: "TokTbl \<Rightarrow> bool" where
  "tok_inv g \<longleftrightarrow> tt_anchor g \<and>
     tt_SyncML g \<in> {None, Some syncml_tags} \<and> tt_MetInf g \<in> {None, Some metinf_tags} \<and>
     tt_DevInf g \<in> {None, Some devinf_tags} \<and> tt_DmTnd g \<in> {None, Some dmtnd_tags}"

definition tok_ready :: "TokTbl \<Rightarrow> bool" where
  "tok_ready g \<longleftrightarrow> tok_inv g \<and> tt_mallocs g = []"

lemma getTagTable_inv:
  assumes "tok_inv g" "getTagTable ext g = (t, g')"
  shows "tok_inv g' \<and> (t = None \<or> t = table_of ext)"
  using assms
  by (cases ext; cases "tt_mallocs g")
     (auto simp: getTagTable_def tok_inv_def table_of_def tok_malloc_def split: option.splits if_splits)

lemma getTagTable_ready:
  assumes "tok_ready g"
  obtains g' where "getTagTable ext g = (table_of ext, g')" "tok_ready g'"
proof -
  have "fst (getTagTable ext g) = table_of ext \<and> tok_ready (snd (getTagTable ext g))"
    using assms
    by (cases ext) (auto simp: getTagTable_def tok_ready_def tok_inv_def table_of_def tok_malloc_def
        split: option.splits)
  then show thesis using that by (metis prod.collapse)
qed

lemma tag_lookup_found:
  assumes "tok_ready g" "t \<in> set (tags_of ext)" "find P (tags_of ext) = Some t"
  shows "\<exists>g'. tag_lookup P f d ext g = Some (SML_ERR_OK, Some (f t), g') \<and> tok_ready g'"
proof -
  from getTagTable_ready [OF assms(1)] obtain g' where
    g': "getTagTable ext g = (table_of ext, g')" "tok_ready g'" .
  from assms(2) obtain ts where "table_of ext = Some ts" "tags_of ext = live_rows ts"
    by (cases "table_of ext") (auto simp: tags_of_def)
  with g' assms(3) show ?thesis by (simp add: tag_lookup_def tag_walk_find)
qed

lemma tag_lookup_missing:
  assumes "tok_ready g" "table_of ext = Some ts" "find P (live_rows ts) = None"
  shows "\<exists>g'. tok_ready g' \<and> tag_lookup P f d ext g =
           (if terminated ts then Some (SML_ERR_XLT_INVAL_PROTO_ELEM, Some d, g') else None)"
proof -
  from getTagTable_ready [OF assms(1)] obtain g' where
    g': "getTagTable ext g = (table_of ext, g')" "tok_ready g'" .
  with assms show ?thesis by (auto simp: tag_lookup_def tag_walk_find)
qed

text \<open>A lookup in a table with a terminating row returns, also when allocations fail.\<close>

lemma tag_lookup_total:
  assumes "tok_inv g" "ext \<noteq> SML_EXT_DMTND"
  obtains r v g' where "tag_lookup P f d ext g = Some (r, v, g')" "tok_inv g'"
    "r = SML_ERR_OK \<or> r = SML_ERR_XLT_INVAL_PROTO_ELEM \<or> r = SML_ERR_NOT_ENOUGH_SPACE"
    "r = SML_ERR_OK \<Longrightarrow> \<exists>t \<in> set (tags_of ext). P t \<and> v = Some (f t)"
    "r = SML_ERR_XLT_INVAL_PROTO_ELEM \<Longrightarrow> v = Some d \<and> (\<forall>t \<in> set (tags_of ext). \<not> P t)"
proof -
  obtain t g' where t: "getTagTable ext g = (t, g')" by fastforce
  with getTagTable_inv [OF assms(1) this] have inv: "tok_inv g'" "t = None \<or> t = table_of ext" by auto
  show thesis
  proof (cases t)
    case None
    then show thesis using that [OF _ inv(1)] t by (simp add: tag_lookup_def)
  next
    case (Some ts)
    with inv(2) have "table_of ext = Some ts" by simp
    then have ts: "table_of ext = Some ts" "tags_of ext = live_rows ts" by (simp_all add: tags_of_def)
    with assms(2) have "terminated ts"
      by (cases ext) (auto simp: table_of_def syncml_terminated metinf_terminated devinf_terminated)
    show thesis
    proof (cases "find P (live_rows ts)")
      case None
      then have "tag_lookup P f d ext g = Some (SML_ERR_XLT_INVAL_PROTO_ELEM, Some d, g')"
        using t Some \<open>terminated ts\<close> by (simp add: tag_lookup_def tag_walk_find)
      moreover from None have "\<forall>t \<in> set (tags_of ext). \<not> P t"
        by (simp add: ts find_None_iff)
      ultimately show thesis using that inv(1) by blast
    next
      case (Some x)
      then have "tag_lookup P f d ext g = Some (SML_ERR_OK, Some (f x), g')"
        using t \<open>t = Some ts\<close> by (simp add: tag_lookup_def tag_walk_find)
      moreover from Some have "x \<in> set (tags_of ext)" "P x"
        by (auto simp: ts find_Some_iff)
      ultimately show thesis using that inv(1) by blast
    qed
  qed
qed

section \<open>The codec contract\<close>

text \<open>
  What the generators and the scanners rely on: a known tag has a code, and the code belongs to that
  tag alone, in any later state of the tables.
\<close>

fun run_codec :: "('a \<Rightarrow> 's \<Rightarrow> (ret \<times> 'b option \<times> 's) option) \<Rightarrow> 'a list \<Rightarrow> 's \<Rightarrow> ('b list \<times> 's) option" where
  "run_codec f [] g = Some ([], g)"
| "run_codec f (x # xs) g = do {
     (r, y, g) \<leftarrow> f x g;
     y \<leftarrow> y;
     (ys, g) \<leftarrow> run_codec f xs g;
     Some (y # ys, g)
   }"

locale tag_codec =
  fixes known :: "'i set"
    and code :: "'i \<Rightarrow> 'c"
    and enc :: "'i \<Rightarrow> 's \<Rightarrow> (ret \<times> 'c option \<times> 's) option"
    and dec :: "'c \<Rightarrow> 's \<Rightarrow> (ret \<times> 'i option \<times> 's) option"
    and inv :: "'s \<Rightarrow> bool"
  assumes enc_law: "inv g \<Longrightarrow> i \<in> known \<Longrightarrow> \<exists>g'. enc i g = Some (SML_ERR_OK, Some (code i), g') \<and> inv g'"
    and dec_law: "inv g \<Longrightarrow> i \<in> known \<Longrightarrow> \<exists>g'. dec (code i) g = Some (SML_ERR_OK, Some i, g') \<and> inv g'"
begin

lemma code_inj: "inv g \<Longrightarrow> i \<in> known \<Longrightarrow> j \<in> known \<Longrightarrow> code i = code j \<Longrightarrow> i = j"
  using dec_law [of g i] dec_law [of g j] by (metis option.inject prod.inject)

lemma enc_all:
  "inv g \<Longrightarrow> set is \<subseteq> known \<Longrightarrow> \<exists>g'. run_codec enc is g = Some (map code is, g') \<and> inv g'"
proof (induction "is" arbitrary: g)
  case (Cons i "is")
  from enc_law [of g i] Cons.prems obtain g1 where
    "enc i g = Some (SML_ERR_OK, Some (code i), g1)" "inv g1" by auto
  with Cons.IH [of g1] Cons.prems show ?case by auto
qed simp

lemma dec_all:
  "inv g \<Longrightarrow> set is \<subseteq> known \<Longrightarrow> \<exists>g'. run_codec dec (map code is) g = Some (is, g') \<and> inv g'"
proof (induction "is" arbitrary: g)
  case (Cons i "is")
  from dec_law [of g i] Cons.prems obtain g1 where
    "dec (code i) g = Some (SML_ERR_OK, Some i, g1)" "inv g1" by auto
  with Cons.IH [of g1] Cons.prems show ?case by auto
qed simp

lemma codec_roundtrip:
  assumes "inv g" "set is \<subseteq> known"
  shows "\<exists>cs g1 g2. run_codec enc is g = Some (cs, g1) \<and> length cs = length is \<and>
           run_codec dec cs g1 = Some (is, g2) \<and> inv g2"
proof -
  from enc_all [OF assms] obtain g1 where
    "run_codec enc is g = Some (map code is, g1)" "inv g1" by blast
  with dec_all [of g1] assms(2) show ?thesis by fastforce
qed

end

definition known_tags :: "SmlPcdataExtension \<Rightarrow> XltTagID set" where
  "known_tags ext = tag_id ` set (tags_of ext)"

definition row_of :: "SmlPcdataExtension \<Rightarrow> XltTagID \<Rightarrow> Tag" where
  "row_of ext i = the (find (\<lambda>t. tag_id t = i) (tags_of ext))"

definition byte_of :: "SmlPcdataExtension \<Rightarrow> XltTagID \<Rightarrow> byte" where
  "byte_of ext i = tag_wbxml (row_of ext i)"

definition name_of :: "SmlPcdataExtension \<Rightarrow> XltTagID \<Rightarrow> byte list" where
  "name_of ext i = tag_xml (row_of ext i)"

lemma known_row:
  assumes "i \<in> known_tags ext"
  obtains t where "t \<in> set (tags_of ext)" "tag_id t = i" "row_of ext i = t" "row_ok t"
    "find (\<lambda>x. tag_id x = i) (tags_of ext) = Some t"
    "find (\<lambda>x. tag_wbxml x = tag_wbxml t) (tags_of ext) = Some t"
    "find (\<lambda>x. tag_xml x = tag_xml t) (tags_of ext) = Some t"
proof -
  from assms obtain t where t: "t \<in> set (tags_of ext)" "tag_id t = i" by (auto simp: known_tags_def)
  from tags_of_rows_ok [of ext] t(1) have ok: "row_ok t" "distinct (map tag_id (tags_of ext))"
    "distinct (map tag_wbxml (tags_of ext))" "distinct (map tag_xml (tags_of ext))"
    by (simp_all add: rows_ok_def list_all_iff)
  from find_key [OF ok(2) t(1)] find_key [OF ok(3) t(1)] find_key [OF ok(4) t(1)] t ok(1)
  show thesis using that [of t] by (simp add: row_of_def)
qed

lemma getTagByte_known:
  assumes "tok_ready g" "i \<in> known_tags ext"
  shows "\<exists>g'. getTagByte i ext g = Some (SML_ERR_OK, Some (byte_of ext i), g') \<and> tok_ready g'"
proof -
  from assms(2) obtain t where "t \<in> set (tags_of ext)" "row_of ext i = t"
    "find (\<lambda>x. tag_id x = i) (tags_of ext) = Some t" by (rule known_row)
  with tag_lookup_found [OF assms(1)] show ?thesis by (simp add: getTagByte_def byte_of_def)
qed

lemma getTagIDByByteAndExt_known:
  assumes "tok_ready g" "i \<in> known_tags ext"
  shows "\<exists>g'. getTagIDByByteAndExt (byte_of ext i) ext g = Some (SML_ERR_OK, Some i, g') \<and> tok_ready g'"
proof -
  from assms(2) obtain t where t: "t \<in> set (tags_of ext)" "tag_id t = i" "row_of ext i = t"
    "find (\<lambda>x. tag_wbxml x = tag_wbxml t) (tags_of ext) = Some t" by (rule known_row)
  from tag_lookup_found [OF assms(1) t(1,4)] t(2,3) show ?thesis
    by (auto simp: getTagIDByByteAndExt_def byte_of_def)
qed

lemma getTagString_known:
  assumes "tok_ready g" "i \<in> known_tags ext"
  shows "\<exists>g'. getTagString i ext g = Some (SML_ERR_OK, name_of ext i, g') \<and> tok_ready g'"
proof -
  from assms(2) obtain t where t: "t \<in> set (tags_of ext)" "row_of ext i = t"
    "find (\<lambda>x. tag_id x = i) (tags_of ext) = Some t" by (rule known_row)
  from tag_lookup_found [OF assms(1) t(1,3), of tag_xml "[]"] t(2) show ?thesis
    by (auto simp: getTagString_def name_of_def)
qed

lemma getTagIDByStringAndExt_known:
  assumes "tok_ready g" "i \<in> known_tags ext"
  shows "\<exists>g'. getTagIDByStringAndExt (name_of ext i) ext g = Some (SML_ERR_OK, Some i, g') \<and> tok_ready g'"
proof -
  from assms(2) obtain t where t: "t \<in> set (tags_of ext)" "tag_id t = i" "row_of ext i = t"
    "find (\<lambda>x. tag_xml x = tag_xml t) (tags_of ext) = Some t" by (rule known_row)
  have eq: "(\<lambda>x. first_char (tag_xml x) = first_char (tag_xml t) \<and> tag_xml x = tag_xml t)
      = (\<lambda>x. tag_xml x = tag_xml t)" by auto
  from tag_lookup_found [OF assms(1) t(1,4), of tag_id TN_UNDEF] t(2,3) show ?thesis
    by (simp add: getTagIDByStringAndExt_def name_of_def eq)
qed

interpretation tag_bytes: tag_codec "known_tags ext" "byte_of ext"
    "\<lambda>i. getTagByte i ext" "\<lambda>c. getTagIDByByteAndExt c ext" tok_ready
  for ext
  by unfold_locales (blast intro: getTagByte_known getTagIDByByteAndExt_known)+

definition getTagString_out ::
    "SmlPcdataExtension \<Rightarrow> XltTagID \<Rightarrow> TokTbl \<Rightarrow> (ret \<times> byte list option \<times> TokTbl) option" where
  "getTagString_out ext i g = do { (r, s, g) \<leftarrow> getTagString i ext g; Some (r, Some s, g) }"

interpretation tag_names: tag_codec "known_tags ext" "name_of ext"
    "getTagString_out ext" "\<lambda>c. getTagIDByStringAndExt c ext" tok_ready
  for ext
proof unfold_locales
  fix g :: TokTbl and i :: XltTagID
  assume "tok_ready g" "i \<in> known_tags ext"
  then show "\<exists>g'. getTagString_out ext i g = Some (SML_ERR_OK, Some (name_of ext i), g') \<and> tok_ready g'"
    using getTagString_known [of g i ext] by (auto simp: getTagString_out_def)
  from \<open>tok_ready g\<close> \<open>i \<in> known_tags ext\<close>
  show "\<exists>g'. getTagIDByStringAndExt (name_of ext i) ext g = Some (SML_ERR_OK, Some i, g') \<and> tok_ready g'"
    by (rule getTagIDByStringAndExt_known)
qed

lemma byte_of_range: "i \<in> known_tags ext \<Longrightarrow> 0x05 \<le> byte_of ext i \<and> byte_of ext i < 0x40"
  by (elim known_row) (simp add: byte_of_def row_ok_def)

lemma name_of_range: "i \<in> known_tags ext \<Longrightarrow> length (name_of ext i) < XML_MAX_TAGLEN"
  by (elim known_row) (simp add: name_of_def row_ok_def)

lemma byte_of_row: "t \<in> set (tags_of ext) \<Longrightarrow> byte_of ext (tag_id t) = tag_wbxml t"
  using find_key [of tag_id "tags_of ext" t] tags_of_rows_ok [of ext]
  by (simp add: byte_of_def row_of_def rows_ok_def)

lemma byte_of_image: "byte_of ext ` known_tags ext = tag_wbxml ` set (tags_of ext)"
  unfolding known_tags_def image_image by (rule image_cong) (simp_all add: byte_of_row)

lemma getTagIDByByteAndExt_total:
  assumes "tok_inv g" "ext \<noteq> SML_EXT_DMTND"
  obtains r v g' where "getTagIDByByteAndExt b ext g = Some (r, v, g')" "tok_inv g'"
    "r = SML_ERR_OK \<or> r = SML_ERR_XLT_INVAL_PROTO_ELEM \<or> r = SML_ERR_NOT_ENOUGH_SPACE"
    "r = SML_ERR_OK \<Longrightarrow> \<exists>i \<in> known_tags ext. v = Some i \<and> byte_of ext i = b"
proof (rule tag_lookup_total [OF assms, of "\<lambda>t. tag_wbxml t = b" tag_id TN_UNDEF])
  fix r v g'
  assume l: "tag_lookup (\<lambda>t. tag_wbxml t = b) tag_id TN_UNDEF ext g = Some (r, v, g')" "tok_inv g'"
    "r = SML_ERR_OK \<or> r = SML_ERR_XLT_INVAL_PROTO_ELEM \<or> r = SML_ERR_NOT_ENOUGH_SPACE"
    and f: "r = SML_ERR_OK \<Longrightarrow> \<exists>t \<in> set (tags_of ext). tag_wbxml t = b \<and> v = Some (tag_id t)"
  have "\<exists>i \<in> known_tags ext. v = Some i \<and> byte_of ext i = b" if "r = SML_ERR_OK"
    using f [OF that] byte_of_row unfolding known_tags_def by blast
  with l that show thesis unfolding getTagIDByByteAndExt_def by blast
qed

lemma getTagIDByByteAndExt_dmtnd:
  assumes "tok_ready g" "b \<notin> byte_of SML_EXT_DMTND ` known_tags SML_EXT_DMTND"
  shows "getTagIDByByteAndExt b SML_EXT_DMTND g = None"
proof -
  have tab: "table_of SML_EXT_DMTND = Some dmtnd_tags" "tags_of SML_EXT_DMTND = live_rows dmtnd_tags"
    by (simp_all add: table_of_def tags_of_def)
  from assms(2) have "\<forall>t \<in> set (live_rows dmtnd_tags). tag_wbxml t \<noteq> b"
    by (auto simp: byte_of_image tab(2))
  then have "find (\<lambda>t. tag_wbxml t = b) (live_rows dmtnd_tags) = None"
    by (simp add: find_None_iff)
  from tag_lookup_missing [OF assms(1) tab(1) this, of tag_id TN_UNDEF] show ?thesis
    by (auto simp: getTagIDByByteAndExt_def dmtnd_not_terminated)
qed

definition fresh_tok :: TokTbl where
  "fresh_tok = \<lparr>tt_anchor = True, tt_SyncML = None, tt_MetInf = None, tt_DevInf = None, tt_DmTnd = None,
                tt_mallocs = []\<rparr>"

lemma fresh_tok_ready [simp]: "tok_ready fresh_tok"
  by (simp add: fresh_tok_def tok_ready_def tok_inv_def)

text \<open>The names of the DTDs and back, for every version of the protocol.\<close>

definition dtd_named :: "SmlPcdataExtension \<Rightarrow> SmlVersion \<Rightarrow> bool" where
  "dtd_named ext v \<longleftrightarrow>
     (case getExtName ext v fresh_tok of
        Some (r, Some ns, g) \<Rightarrow> r = SML_ERR_OK \<and> getExtByName ns g = Some (ext, g)
      | _ \<Rightarrow> False)"

lemma getExtName_roundtrip:
  "list_all (\<lambda>ext. list_all (dtd_named ext) [SML_VERS_UNDEF, SML_VERS_1_0, SML_VERS_1_1, SML_VERS_1_2])
     [SML_EXT_UNDEFINED, SML_EXT_METINF, SML_EXT_DEVINF, SML_EXT_DMTND]"
  by code_simp

section \<open>Properties\<close>

text \<open>
  Property C31 (round trip). In every DTD, translating any list of its tags to WBXML bytes and back, or
  to XML names and back, gives the same tags; a byte is above the global tokens and leaves the content
  bit free, and a name fits into the buffers of \<open>XML_MAX_TAGLEN\<close> bytes.
\<close>

theorem tag_tables_roundtrip:
  assumes "tok_ready g" and "set is \<subseteq> known_tags ext"
  shows "(\<exists>bs g1 g2. run_codec (\<lambda>i. getTagByte i ext) is g = Some (bs, g1) \<and>
            run_codec (\<lambda>c. getTagIDByByteAndExt c ext) bs g1 = Some (is, g2) \<and>
            (\<forall>b \<in> set bs. 0x05 \<le> b \<and> b < 0x40)) \<and>
         (\<exists>ns g1 g2. run_codec (getTagString_out ext) is g = Some (ns, g1) \<and>
            run_codec (\<lambda>c. getTagIDByStringAndExt c ext) ns g1 = Some (is, g2) \<and>
            (\<forall>n \<in> set ns. length n < XML_MAX_TAGLEN))"
proof
  from tag_bytes.enc_all [OF assms] obtain g1 where
    g1: "run_codec (\<lambda>i. getTagByte i ext) is g = Some (map (byte_of ext) is, g1)" "tok_ready g1" by blast
  from tag_bytes.dec_all [OF g1(2) assms(2)] obtain g2 where
    g2: "run_codec (\<lambda>c. getTagIDByByteAndExt c ext) (map (byte_of ext) is) g1 = Some (is, g2)" by blast
  have "\<forall>b \<in> set (map (byte_of ext) is). 0x05 \<le> b \<and> b < 0x40"
    using byte_of_range assms(2) by auto
  with g1(1) g2 show "\<exists>bs g1 g2. run_codec (\<lambda>i. getTagByte i ext) is g = Some (bs, g1) \<and>
            run_codec (\<lambda>c. getTagIDByByteAndExt c ext) bs g1 = Some (is, g2) \<and>
            (\<forall>b \<in> set bs. 0x05 \<le> b \<and> b < 0x40)"
    by blast
  from tag_names.enc_all [OF assms] obtain g1 where
    g1: "run_codec (getTagString_out ext) is g = Some (map (name_of ext) is, g1)" "tok_ready g1" by blast
  from tag_names.dec_all [OF g1(2) assms(2)] obtain g2 where
    g2: "run_codec (\<lambda>c. getTagIDByStringAndExt c ext) (map (name_of ext) is) g1 = Some (is, g2)" by blast
  have "\<forall>n \<in> set (map (name_of ext) is). length n < XML_MAX_TAGLEN"
    using name_of_range assms(2) by auto
  with g1(1) g2 show "\<exists>ns g1 g2. run_codec (getTagString_out ext) is g = Some (ns, g1) \<and>
            run_codec (\<lambda>c. getTagIDByStringAndExt c ext) ns g1 = Some (is, g2) \<and>
            (\<forall>n \<in> set ns. length n < XML_MAX_TAGLEN)"
    by blast
qed

theorem tag_tables_roundtrip_witness:
  "(\<exists>bs g1 g2. run_codec (\<lambda>i. getTagByte i SML_EXT_DMTND) [TN_DMTND_Node, TN_DMTND_xml] fresh_tok = Some (bs, g1) \<and>
      run_codec (\<lambda>c. getTagIDByByteAndExt c SML_EXT_DMTND) bs g1 = Some ([TN_DMTND_Node, TN_DMTND_xml], g2))"
proof -
  have "set [TN_DMTND_Node, TN_DMTND_xml] \<subseteq> known_tags SML_EXT_DMTND"
    unfolding known_tags_def by code_simp
  from tag_tables_roundtrip [OF fresh_tok_ready this] show ?thesis by blast
qed



end
