(* ===== verification/Generators.thy ===== *)
theory Generators
  imports Tag_Tables
begin

text \<open>
  The generators of the toolkit: writing to the document buffer (\<open>xltenccom.c\<close>), WBXML tokens
  (\<open>xltencwbxml.c\<close>), XML tags (\<open>xltencxml.c\<close>) and the choice between them (\<open>xltGenerateTag\<close> of
  \<open>xltenc.c\<close>).

  \<open>bm_mem\<close> is the memory of the document buffer and \<open>bm_pos\<close> the offset of \<open>smlXltBufferP\<close> in
  it. A write outside the memory is \<open>None\<close>, and so is an overflow of the 32-bit sizes.
\<close>

section \<open>The document buffer\<close>

datatype XltTagType = TT_END | TT_BEG | TT_ALL

datatype XltElementType = UNDEF_elem | END_elem | STR_I_elem | OPAQUE_elem | TAG_elem

datatype SmlEncoding = SML_UNDEF | SML_WBXML | SML_XML

record BufferMgmt =
  bm_mem :: "byte list"
  bm_pos :: int
  bm_written :: int
  bm_len :: int
  bm_switchExtTag :: XltTagID
  bm_curExt :: SmlPcdataExtension
  bm_lastExt :: SmlPcdataExtension
  bm_activeExt :: SmlPcdataExtension
  bm_endTagSize :: int
  bm_eval :: bool
  bm_vers :: SmlVersion
  bm_tok :: TokTbl

type_synonym enc_result = "(ret \<times> BufferMgmt) option"

text \<open>\<open>memcpy\<close>: the bytes behind a pointer (null is allowed for no bytes), and the copy to the buffer.\<close>

definition ptr_bytes :: "byte list option \<Rightarrow> int \<Rightarrow> byte list option" where
  "ptr_bytes p n =
     (if n < 0 then None
      else case p of
        None \<Rightarrow> if n = 0 then Some [] else None
      | Some bs \<Rightarrow> if n \<le> int (length bs) then Some (take (nat n) bs) else None)"

definition mem_put :: "byte list \<Rightarrow> int \<Rightarrow> byte list \<Rightarrow> byte list option" where
  "mem_put m p bs = (if 0 \<le> p then buf_put m (nat p) bs else None)"

definition xltAddToBuffer :: "byte list option \<Rightarrow> int \<Rightarrow> BufferMgmt \<Rightarrow> enc_result" where
  "xltAddToBuffer pContent n b =
     (if \<not> bm_eval b then do {
        total \<leftarrow> s32 (n + bm_written b);
        if total > bm_len b then Some (SML_ERR_XLT_BUF_ERR, b)
        else do {
          bs \<leftarrow> ptr_bytes pContent n;
          m \<leftarrow> mem_put (bm_mem b) (bm_pos b) bs;
          Some (SML_ERR_OK, b\<lparr>bm_mem := m, bm_pos := bm_pos b + n, bm_written := total\<rparr>)
        }
      } else do {
        total \<leftarrow> s32 (n + bm_written b);
        Some (SML_ERR_OK, b\<lparr>bm_written := total\<rparr>)
      })"

definition add_bytes :: "byte list \<Rightarrow> BufferMgmt \<Rightarrow> enc_result" where
  "add_bytes bs b = xltAddToBuffer (Some bs) (int (length bs)) b"

text \<open>\<open>if ((_err = f(...)) != SML_ERR_OK) return _err;\<close>\<close>

definition enc_then :: "enc_result \<Rightarrow> (BufferMgmt \<Rightarrow> enc_result) \<Rightarrow> enc_result" where
  "enc_then m k = do { (err, b) \<leftarrow> m; if err \<noteq> SML_ERR_OK then Some (err, b) else k b }"

text \<open>A series of calls of \<open>xltAddToBuffer\<close> that stops at the first error.\<close>

fun add_all :: "byte list list \<Rightarrow> BufferMgmt \<Rightarrow> enc_result" where
  "add_all [] b = Some (SML_ERR_OK, b)"
| "add_all (c # cs) b = enc_then (add_bytes c b) (add_all cs)"

definition end_tag_add :: "int \<Rightarrow> BufferMgmt \<Rightarrow> enc_result" where
  "end_tag_add n b = do { e \<leftarrow> s32 (bm_endTagSize b + n); Some (SML_ERR_OK, b\<lparr>bm_endTagSize := e\<rparr>) }"

section \<open>WBXML tokens\<close>

definition XLT_CONTBYTE :: byte where "XLT_CONTBYTE = 0x40"
definition XLT_TERMSTR :: byte where "XLT_TERMSTR = 0x00"
definition XLT_SWITCHPAGE :: byte where "XLT_SWITCHPAGE = 0x00"

definition globtoken :: "(XltElementType \<times> byte) list" where
  "globtoken = [(END_elem, 0x01), (STR_I_elem, 0x03), (OPAQUE_elem, 0xC3), (UNDEF_elem, 0x00)]"

definition wbxmlGetGlobToken :: "XltElementType \<Rightarrow> byte" where
  "wbxmlGetGlobToken elType =
     (case find (\<lambda>(i, b). i = UNDEF_elem \<or> i = elType) globtoken of
        Some (i, b) \<Rightarrow> if i = UNDEF_elem then 0 else b
      | None \<Rightarrow> 0)"

text \<open>
  \<open>wbxmlOpaqueSize2Buf\<close>: the loop over \<open>j = 1..sizeof(Long_t)\<close> looks for the number of bytes; for
  sizes from \<open>128^4\<close> on it stays 0.
\<close>

definition opaque_bytes_needed :: "int \<Rightarrow> nat" where
  "opaque_bytes_needed n =
     (case find (\<lambda>j. n < 128 ^ j) [1, 2, 3, 4] of Some j \<Rightarrow> j | None \<Rightarrow> 0)"

definition opaque_byte :: "int \<Rightarrow> nat \<Rightarrow> byte" where
  "opaque_byte n k =
     (if k = 0 then of_int (n AND 0x7F) else of_int ((drop_bit (7 * k) n AND 0x7F) OR 0x80))"

definition wbxmlOpaqueSize2Buf :: "int \<Rightarrow> BufferMgmt \<Rightarrow> enc_result" where
  "wbxmlOpaqueSize2Buf n b =
     (let need = opaque_bytes_needed n
      in if \<not> bm_eval b then
           (let (ok, g) = tok_malloc (bm_tok b); b = b\<lparr>bm_tok := g\<rparr>
            in if \<not> ok then Some (SML_ERR_NOT_ENOUGH_SPACE, b)
            else add_bytes (map (opaque_byte n) (rev [0..<need])) b)
         else do {
           w \<leftarrow> s32 (bm_written b + int need);
           Some (SML_ERR_OK, b\<lparr>bm_written := w\<rparr>)
         })"

text \<open>The tag byte, with the code cut to a byte by the cast on \<open>getTagByte\<close>.\<close>

definition tag_byte :: "XltTagID \<Rightarrow> BufferMgmt \<Rightarrow> (ret \<times> byte \<times> BufferMgmt) option" where
  "tag_byte tagId b = do {
     (err, v, g) \<leftarrow> getTagByte tagId (bm_curExt b) (bm_tok b);
     Some (ret_byte err, (case v of Some c \<Rightarrow> c | None \<Rightarrow> 0), b\<lparr>bm_tok := g\<rparr>)
   }"

definition wbxmlGenerateTag :: "XltTagID \<Rightarrow> XltTagType \<Rightarrow> BufferMgmt \<Rightarrow> enc_result" where
  "wbxmlGenerateTag tagId tagType b =
     (case tagType of
        TT_END \<Rightarrow>
          (let tmp = wbxmlGetGlobToken END_elem
           in if tmp = 0 then Some (SML_ERR_XLT_INVAL_TAG_TYPE, b)
              else enc_then (add_bytes [tmp] b) (end_tag_add (- 1)))
      | TT_ALL \<Rightarrow> do {
          (err, tmp, b) \<leftarrow> tag_byte tagId b;
          if tmp = 0 \<or> err \<noteq> SML_ERR_OK then Some (err, b) else add_bytes [tmp] b
        }
      | TT_BEG \<Rightarrow> do {
          (err, tmp, b) \<leftarrow> tag_byte tagId b;
          if tmp = 0 \<or> err \<noteq> SML_ERR_OK then Some (err, b)
          else enc_then (add_bytes [tmp OR XLT_CONTBYTE] b) (end_tag_add 1)
        })"

text \<open>\<open>strlen\<close> of a C string in a memory block.\<close>

fun c_strlen :: "byte list \<Rightarrow> int option" where
  "c_strlen [] = None"
| "c_strlen (c # cs) = (if c = 0 then Some 0 else do { n \<leftarrow> c_strlen cs; Some (n + 1) })"

definition wbxmlWriteTypeToBuffer :: "byte list option \<Rightarrow> XltElementType \<Rightarrow> int \<Rightarrow> BufferMgmt \<Rightarrow> enc_result" where
  "wbxmlWriteTypeToBuffer pContent elType n b =
     (case elType of
        TAG_elem \<Rightarrow> xltAddToBuffer pContent n b
      | STR_I_elem \<Rightarrow>
          (let tmp = wbxmlGetGlobToken STR_I_elem
           in if tmp = 0 then Some (SML_ERR_XLT_WBXML_UKN_TOK, b)
              else enc_then (add_bytes [tmp] b) (\<lambda>b. do {
                len \<leftarrow> (case pContent of None \<Rightarrow> Some 0 | Some bs \<Rightarrow> c_strlen bs);
                enc_then (xltAddToBuffer pContent len b) (add_bytes [XLT_TERMSTR])
              }))
      | OPAQUE_elem \<Rightarrow>
          (let tmp = wbxmlGetGlobToken OPAQUE_elem
           in if tmp = 0 then Some (SML_ERR_XLT_WBXML_UKN_TOK, b)
              else enc_then (add_bytes [tmp] b) (\<lambda>b.
                enc_then (wbxmlOpaqueSize2Buf n b) (xltAddToBuffer pContent n)))
      | _ \<Rightarrow> Some (SML_ERR_XLT_INVAL_PCDATA_TYPE, b))"

section \<open>XML tags\<close>

definition xml_begpar :: "byte list" where "xml_begpar = bytes_of ''<''"
definition xml_tagdel :: "byte list" where "xml_tagdel = bytes_of ''/''"
definition xml_endpar :: "byte list" where "xml_endpar = bytes_of ''>''"

text \<open>\<open> xmlns='\<close> with its apostrophe (39).\<close>

definition xml_nsstart :: "byte list" where "xml_nsstart = bytes_of '' xmlns='' @ [39]"
definition xml_nsend :: "byte list" where "xml_nsend = [39]"

definition xml_attr :: "byte list option \<Rightarrow> byte list list" where
  "xml_attr ns = (case ns of None \<Rightarrow> [] | Some s \<Rightarrow> [xml_nsstart, s, xml_nsend])"

definition xmlEndTag :: "byte list \<Rightarrow> XltTagID \<Rightarrow> SmlPcdataExtension \<Rightarrow> BufferMgmt \<Rightarrow> enc_result" where
  "xmlEndTag tagstr tagId attFlag b =
     enc_then (add_all [xml_begpar, xml_tagdel, tagstr, xml_endpar] b) (\<lambda>b.
       let b = (if tagId = bm_switchExtTag b
                then b\<lparr>bm_activeExt := bm_lastExt b, bm_curExt := bm_lastExt b, bm_lastExt := attFlag\<rparr>
                else b)
       in end_tag_add (- (3 + int (length tagstr))) b)"

definition xmlGenerateTag ::
    "XltTagID \<Rightarrow> XltTagType \<Rightarrow> SmlPcdataExtension \<Rightarrow> BufferMgmt \<Rightarrow> enc_result" where
  "xmlGenerateTag tagId tagType attFlag b =
     (let (ok, g) = tok_malloc (bm_tok b); b = b\<lparr>bm_tok := g\<rparr>
      in if \<not> ok then Some (SML_ERR_NOT_ENOUGH_SPACE, b)
      else do {
        (err, tagstr, g) \<leftarrow> getTagString tagId attFlag (bm_tok b);
        let b = b\<lparr>bm_tok := g\<rparr>;
        if err \<noteq> SML_ERR_OK then Some (err, b)
        else do {
          _ \<leftarrow> (if length tagstr < XML_MAX_TAGLEN then Some () else None);
          (err, ns, g) \<leftarrow>
            (if attFlag \<noteq> bm_activeExt b \<or> tagId = TN_SYNCML
             then getExtName attFlag (bm_vers b) (bm_tok b)
             else Some (SML_ERR_OK, None, bm_tok b));
          let b = b\<lparr>bm_tok := g\<rparr>;
          if err \<noteq> SML_ERR_OK then Some (SML_ERR_XLT_INVAL_TAG_TYPE, b)
          else
            (let b = b\<lparr>bm_activeExt := attFlag\<rparr>
             in case tagType of
                  TT_END \<Rightarrow> xmlEndTag tagstr tagId attFlag b
                | TT_ALL \<Rightarrow> add_all ([xml_begpar, tagstr] @ xml_attr ns @ [xml_tagdel, xml_endpar]) b
                | TT_BEG \<Rightarrow>
                    enc_then (add_all ([xml_begpar, tagstr] @ xml_attr ns @ [xml_endpar]) b)
                      (end_tag_add (3 + int (length tagstr))))
        }
      })"

section \<open>Tags with their code page or namespace\<close>

definition set_ext :: "XltTagID \<Rightarrow> SmlPcdataExtension \<Rightarrow> BufferMgmt \<Rightarrow> BufferMgmt" where
  "set_ext tagId attFlag b =
     (if attFlag \<noteq> bm_curExt b
      then b\<lparr>bm_switchExtTag := tagId, bm_lastExt := bm_curExt b, bm_curExt := attFlag\<rparr> else b)"

definition xltGenerateTag ::
    "XltTagID \<Rightarrow> XltTagType \<Rightarrow> SmlEncoding \<Rightarrow> SmlPcdataExtension \<Rightarrow> BufferMgmt \<Rightarrow> enc_result" where
  "xltGenerateTag tagId tagType enc attFlag b =
     (case enc of
        SML_WBXML \<Rightarrow>
          if tagType \<noteq> TT_END then
            enc_then
              (if getCodePage attFlag \<noteq> getCodePage (bm_curExt b)
               then enc_then (wbxmlWriteTypeToBuffer (Some [XLT_SWITCHPAGE]) TAG_elem 1 b)
                      (wbxmlWriteTypeToBuffer (Some [getCodePage attFlag]) TAG_elem 1)
               else Some (SML_ERR_OK, b))
              (\<lambda>b. wbxmlGenerateTag tagId tagType (set_ext tagId attFlag b))
          else wbxmlGenerateTag tagId tagType b
      | SML_XML \<Rightarrow> xmlGenerateTag tagId tagType attFlag (set_ext tagId attFlag b)
      | _ \<Rightarrow> Some (SML_ERR_XLT_ENC_UNK, b))"

end
