(* ===== verification/Util_Stack.thy ===== *)
theory Util_Stack
  imports DM_Prelude
begin

text \<open>
  The tag stack of the scanner, \<open>xltutilstack.c\<close>: an array that grows and shrinks in chunks.
  The record is \<open>ArrayStack_t\<close>; an array cell that has not been written is \<open>None\<close>. The results
  of \<open>smlLibMalloc\<close> and \<open>smlLibRealloc\<close> are the boolean arguments of the operations.

  The contract of the client is the locale \<open>lifo\<close>; its interpretation on the operations of the
  file gives the properties.
\<close>

section \<open>The operations\<close>

record 'a ArrayStack =
  topidx :: int
  stk_size :: int
  chunksize :: int
  stk_array :: "'a option list"

definition arr_get :: "'a option list \<Rightarrow> int \<Rightarrow> 'a option" where
  "arr_get a i = (if 0 \<le> i \<and> i < int (length a) then a ! nat i else None)"

definition arr_set :: "'a option list \<Rightarrow> int \<Rightarrow> 'a \<Rightarrow> 'a option list option" where
  "arr_set a i x = (if 0 \<le> i \<and> i < int (length a) then Some (a[nat i := Some x]) else None)"

text \<open>\<open>realloc\<close> keeps the cells that fit and leaves new ones unwritten.\<close>

definition arr_resize :: "'a option list \<Rightarrow> int \<Rightarrow> 'a option list" where
  "arr_resize a n = take (nat n) a @ replicate (nat n - length a) None"

definition xltUtilCreateStack :: "bool \<Rightarrow> bool \<Rightarrow> int \<Rightarrow> ret \<times> 'a ArrayStack option" where
  "xltUtilCreateStack al1 al2 n =
     (if n \<le> 0 then (SML_ERR_WRONG_PARAM, None)
      else if \<not> al1 then (SML_ERR_NOT_ENOUGH_SPACE, None)
      else if \<not> al2 then (SML_ERR_NOT_ENOUGH_SPACE, None)
      else (SML_ERR_OK, Some \<lparr>topidx = - 1, stk_size = n, chunksize = n,
                              stk_array = replicate (nat n) None\<rparr>))"

definition stack_top :: "'a ArrayStack \<Rightarrow> (ret \<times> 'a option) option" where
  "stack_top s =
     (if topidx s = - 1 then Some (SML_ERR_WRONG_USAGE, None)
      else do { item \<leftarrow> arr_get (stk_array s) (topidx s); Some (SML_ERR_OK, Some item) })"

definition stack_pop :: "bool \<Rightarrow> 'a ArrayStack \<Rightarrow> (ret \<times> 'a option \<times> 'a ArrayStack) option" where
  "stack_pop al s =
     (if topidx s = - 1 then Some (SML_ERR_WRONG_USAGE, None, s)
      else do {
        item \<leftarrow> arr_get (stk_array s) (topidx s);
        let s = s\<lparr>topidx := topidx s - 1\<rparr>;
        if 0 \<le> topidx s \<and> topidx s < stk_size s - chunksize s then
          (let newsize = stk_size s - chunksize s
           in if al then Some (SML_ERR_OK, Some item,
                               s\<lparr>stk_size := newsize, stk_array := arr_resize (stk_array s) newsize\<rparr>)
              else Some (SML_ERR_NOT_ENOUGH_SPACE, None, s))
        else Some (SML_ERR_OK, Some item, s)
      })"

definition stack_push :: "bool \<Rightarrow> 'a \<Rightarrow> 'a ArrayStack \<Rightarrow> (ret \<times> 'a ArrayStack) option" where
  "stack_push al item s = do {
     (full, s) \<leftarrow>
       (if topidx s = stk_size s - 1 then do {
          newsize \<leftarrow> s32 (stk_size s + chunksize s);
          Some (if al then (False, s\<lparr>stk_size := newsize, stk_array := arr_resize (stk_array s) newsize\<rparr>)
                else (True, s))
        } else Some (False, s));
     if full then Some (SML_ERR_NOT_ENOUGH_SPACE, s)
     else do {
       let s = s\<lparr>topidx := topidx s + 1\<rparr>;
       a \<leftarrow> arr_set (stk_array s) (topidx s) item;
       Some (SML_ERR_OK, s\<lparr>stk_array := a\<rparr>)
     }
   }"

text \<open>\<open>_destroy\<close> frees the array and the record; a null stack is accepted.\<close>

definition stack_destroy :: "'a ArrayStack option \<Rightarrow> ret \<times> 'a ArrayStack option" where
  "stack_destroy p = (case p of None \<Rightarrow> (SML_ERR_OK, None) | Some s \<Rightarrow> (SML_ERR_OK, None))"

section \<open>Invariant and view\<close>

definition stk_inv :: "'a ArrayStack \<Rightarrow> bool" where
  "stk_inv s \<longleftrightarrow>
     0 < chunksize s \<and> 0 < stk_size s \<and> chunksize s dvd stk_size s \<and> int (length (stk_array s)) = stk_size s \<and>
     - 1 \<le> topidx s \<and> topidx s < stk_size s \<and>
     (\<forall>i < nat (topidx s + 1). stk_array s ! i \<noteq> None)"

text \<open>No shrinking has failed: the spare room is less than two chunks.\<close>

definition stk_tight :: "'a ArrayStack \<Rightarrow> bool" where
  "stk_tight s \<longleftrightarrow> stk_inv s \<and> stk_size s \<le> max 0 (topidx s) + chunksize s"

definition stk_view :: "'a ArrayStack \<Rightarrow> 'a list" where
  "stk_view s = rev (map the (take (nat (topidx s + 1)) (stk_array s)))"

definition stk_room :: "'a ArrayStack \<Rightarrow> nat" where
  "stk_room s = nat (2 ^ 31 - 2 * chunksize s - topidx s - 1)"

lemma stk_view_Nil_iff: "stk_inv s \<Longrightarrow> stk_view s = [] \<longleftrightarrow> topidx s = - 1"
  by (auto simp: stk_view_def stk_inv_def)

lemma stk_view_Cons:
  assumes "stk_inv s" "topidx s \<noteq> - 1"
  obtains x where "arr_get (stk_array s) (topidx s) = Some x"
    and "stk_view s = x # rev (map the (take (nat (topidx s)) (stk_array s)))"
proof -
  define t where "t = nat (topidx s)"
  with assms have t: "topidx s = int t" "t < length (stk_array s)" "stk_array s ! t \<noteq> None"
    by (auto simp: stk_inv_def)
  then obtain x where "stk_array s ! t = Some x" by blast
  moreover from t have "nat (topidx s + 1) = Suc t" by simp
  ultimately show thesis
    using t that [of x] by (simp add: arr_get_def stk_view_def take_Suc_conv_app_nth)
qed

lemma take_arr_resize: "k \<le> nat n \<Longrightarrow> k \<le> length a \<Longrightarrow> take k (arr_resize a n) = take k a"
  by (simp add: arr_resize_def min_absorb2)

lemma nth_arr_resize: "k < nat n \<Longrightarrow> k < length a \<Longrightarrow> arr_resize a n ! k = a ! k"
  by (simp add: arr_resize_def nth_append)

lemma length_arr_resize [simp]: "length (arr_resize a n) = nat n"
  by (simp add: arr_resize_def)

section \<open>Every operation on every branch\<close>

lemma stack_top_view:
  assumes "stk_inv s"
  shows "stack_top s = Some (case stk_view s of [] \<Rightarrow> (SML_ERR_WRONG_USAGE, None)
                                              | x # xs \<Rightarrow> (SML_ERR_OK, Some x))"
proof (cases "topidx s = - 1")
  case True
  with assms stk_view_Nil_iff [OF assms] show ?thesis by (simp add: stack_top_def)
next
  case False
  obtain x where "arr_get (stk_array s) (topidx s) = Some x"
    and "stk_view s = x # rev (map the (take (nat (topidx s)) (stk_array s)))"
    using stk_view_Cons [OF assms False] .
  with False show ?thesis by (simp add: stack_top_def)
qed

lemma stack_pop_empty: "stk_inv s \<Longrightarrow> stk_view s = [] \<Longrightarrow> stack_pop al s = Some (SML_ERR_WRONG_USAGE, None, s)"
  by (simp add: stk_view_Nil_iff stack_pop_def)

lemma stk_inv_pop:
  assumes "stk_inv s" "topidx s \<noteq> - 1"
  shows "stk_inv (s\<lparr>topidx := topidx s - 1\<rparr>)"
  using assms by (auto simp: stk_inv_def)

lemma stk_inv_resize:
  assumes "stk_inv s" "chunksize s dvd n" "0 < n" "topidx s < n"
  shows "stk_inv (s\<lparr>stk_size := n, stk_array := arr_resize (stk_array s) n\<rparr>)"
    and "stk_view (s\<lparr>stk_size := n, stk_array := arr_resize (stk_array s) n\<rparr>) = stk_view s"
proof -
  have k: "i < nat n" "i < length (stk_array s)" if "i < nat (topidx s + 1)" for i
    using that assms by (auto simp: stk_inv_def)
  have "stk_array s ! i \<noteq> None" if "i < nat (topidx s + 1)" for i
    using that assms(1) unfolding stk_inv_def by blast
  then have "\<forall>i < nat (topidx s + 1). arr_resize (stk_array s) n ! i \<noteq> None"
    using k by (simp add: nth_arr_resize)
  then show "stk_inv (s\<lparr>stk_size := n, stk_array := arr_resize (stk_array s) n\<rparr>)"
    using assms by (simp add: stk_inv_def)
  have "nat (topidx s + 1) \<le> nat n" "nat (topidx s + 1) \<le> length (stk_array s)"
    using assms by (auto simp: stk_inv_def)
  then show "stk_view (s\<lparr>stk_size := n, stk_array := arr_resize (stk_array s) n\<rparr>) = stk_view s"
    by (simp add: stk_view_def take_arr_resize)
qed

text \<open>\<open>_pop\<close>: the top item is gone in either case; it is delivered unless shrinking fails.\<close>

definition pop_shrinks :: "'a ArrayStack \<Rightarrow> bool" where
  "pop_shrinks s \<longleftrightarrow> 1 \<le> topidx s \<and> topidx s \<le> stk_size s - chunksize s"

lemma stack_pop_view:
  assumes inv: "stk_inv s" and v: "stk_view s = x # xs"
  shows "\<exists>s'. stack_pop al s =
           Some (if pop_shrinks s \<and> \<not> al then (SML_ERR_NOT_ENOUGH_SPACE, None, s')
                 else (SML_ERR_OK, Some x, s')) \<and>
         stk_inv s' \<and> stk_view s' = xs \<and> chunksize s' = chunksize s \<and> topidx s' = topidx s - 1 \<and>
         stk_size s' = (if pop_shrinks s \<and> al then stk_size s - chunksize s else stk_size s)"
proof -
  from inv v have ne: "topidx s \<noteq> - 1" using stk_view_Nil_iff by force
  define s1 where "s1 = s\<lparr>topidx := topidx s - 1\<rparr>"
  obtain y where y: "arr_get (stk_array s) (topidx s) = Some y"
    "stk_view s = y # rev (map the (take (nat (topidx s)) (stk_array s)))"
    using stk_view_Cons [OF inv ne] .
  with v have item: "arr_get (stk_array s) (topidx s) = Some x"
    and v1: "stk_view s1 = xs" by (simp_all add: s1_def stk_view_def)
  from stk_inv_pop [OF inv ne] have i1: "stk_inv s1" by (simp add: s1_def)
  show ?thesis
  proof (cases "pop_shrinks s")
    case False
    then show ?thesis
      using item i1 v1 ne by (auto simp: stack_pop_def Let_def pop_shrinks_def s1_def)
  next
    case sh: True
    define n where "n = stk_size s - chunksize s"
    with inv sh have n: "chunksize s1 dvd n" "0 < n" "topidx s1 < n" "0 \<le> topidx s1"
      by (auto simp: pop_shrinks_def stk_inv_def s1_def)
    define s2 where "s2 = s1\<lparr>stk_size := n, stk_array := arr_resize (stk_array s1) n\<rparr>"
    have "stk_inv s2" "stk_view s2 = xs"
      unfolding s2_def using stk_inv_resize [OF i1 n(1-3)] v1 by simp_all
    moreover have "stack_pop al s =
        Some (if al then (SML_ERR_OK, Some x, s2) else (SML_ERR_NOT_ENOUGH_SPACE, None, s1))"
      using ne item n by (simp add: stack_pop_def Let_def s1_def s2_def n_def)
    ultimately show ?thesis
      using sh i1 v1 by (auto simp: s2_def s1_def n_def)
  qed
qed

text \<open>\<open>_push\<close>: a failed growth leaves the stack as it was.\<close>

definition push_grows :: "'a ArrayStack \<Rightarrow> bool" where
  "push_grows s \<longleftrightarrow> topidx s = stk_size s - 1"

lemma stack_push_slot:
  assumes inv: "stk_inv s" and slot: "topidx s < stk_size s - 1"
  shows "\<exists>a. arr_set (stk_array s) (topidx s + 1) x = Some a \<and>
           stk_inv (s\<lparr>topidx := topidx s + 1, stk_array := a\<rparr>) \<and>
           stk_view (s\<lparr>topidx := topidx s + 1, stk_array := a\<rparr>) = x # stk_view s"
proof -
  define t where "t = nat (topidx s + 1)"
  with inv slot have t: "topidx s + 1 = int t" "t < length (stk_array s)"
    by (auto simp: stk_inv_def)
  then have n: "nat (topidx s + 1) = t" "nat (topidx s + 2) = Suc t" "topidx s = int t - 1"
    "nat (int t + 1) = Suc t" by auto
  have "\<forall>i < t. stk_array s ! i \<noteq> None" using inv n by (simp add: stk_inv_def)
  then have ok: "\<forall>i < Suc t. (stk_array s)[t := Some x] ! i \<noteq> None"
    using t(2) by (auto simp: nth_list_update less_Suc_eq)
  have "arr_set (stk_array s) (topidx s + 1) x = Some ((stk_array s)[t := Some x])"
    using t by (simp add: arr_set_def)
  moreover have "stk_inv (s\<lparr>topidx := topidx s + 1, stk_array := (stk_array s)[t := Some x]\<rparr>)"
    using inv slot ok n t by (simp add: stk_inv_def)
  moreover have "stk_view (s\<lparr>topidx := topidx s + 1, stk_array := (stk_array s)[t := Some x]\<rparr>)
      = x # stk_view s"
    using t n by (simp add: stk_view_def take_Suc_conv_app_nth)
  ultimately show ?thesis by blast
qed

lemma stack_push_view:
  assumes inv: "stk_inv s" and rng: "stk_size s + chunksize s < 2 ^ 31"
  shows "\<exists>s'. stack_push al x s =
           Some (if push_grows s \<and> \<not> al then SML_ERR_NOT_ENOUGH_SPACE else SML_ERR_OK, s') \<and>
         stk_inv s' \<and> chunksize s' = chunksize s \<and>
         (if push_grows s \<and> \<not> al then s' = s
          else stk_view s' = x # stk_view s \<and> topidx s' = topidx s + 1 \<and>
               stk_size s' = (if push_grows s then stk_size s + chunksize s else stk_size s))"
proof (cases "push_grows s")
  case False
  with inv have "topidx s < stk_size s - 1" by (auto simp: push_grows_def stk_inv_def)
  from stack_push_slot [OF inv this, of x] obtain a where
    "arr_set (stk_array s) (topidx s + 1) x = Some a"
    "stk_inv (s\<lparr>topidx := topidx s + 1, stk_array := a\<rparr>)"
    "stk_view (s\<lparr>topidx := topidx s + 1, stk_array := a\<rparr>) = x # stk_view s" by blast
  with False show ?thesis by (simp add: stack_push_def Let_def push_grows_def)
next
  case gr: True
  define n where "n = stk_size s + chunksize s"
  from inv have n: "chunksize s dvd n" "0 < n" "topidx s < n" "s32 n = Some n" "topidx s < n - 1"
    using rng gr by (auto simp: stk_inv_def n_def push_grows_def s32_def)
  define s1 where "s1 = s\<lparr>stk_size := n, stk_array := arr_resize (stk_array s) n\<rparr>"
  have s1: "stk_inv s1" "stk_view s1 = stk_view s"
    unfolding s1_def using stk_inv_resize [OF inv n(1-3)] by simp_all
  moreover have "topidx s1 < stk_size s1 - 1" using n by (simp add: s1_def)
  ultimately obtain a where
    "arr_set (stk_array s1) (topidx s1 + 1) x = Some a"
    "stk_inv (s1\<lparr>topidx := topidx s1 + 1, stk_array := a\<rparr>)"
    "stk_view (s1\<lparr>topidx := topidx s1 + 1, stk_array := a\<rparr>) = x # stk_view s"
    using stack_push_slot [of s1 x] by auto
  with gr inv n(4) show ?thesis
    by (cases al) (simp_all add: stack_push_def Let_def push_grows_def s1_def flip: n_def)
qed

section \<open>The LIFO contract\<close>

fun push_all :: "('a \<Rightarrow> 's \<Rightarrow> (ret \<times> 's) option) \<Rightarrow> 'a list \<Rightarrow> 's \<Rightarrow> 's option" where
  "push_all psh [] s = Some s"
| "push_all psh (x # xs) s = do { (r, s) \<leftarrow> psh x s; if r = SML_ERR_OK then push_all psh xs s else None }"

fun pop_all :: "('s \<Rightarrow> (ret \<times> 'a option \<times> 's) option) \<Rightarrow> nat \<Rightarrow> 's \<Rightarrow> ('a list \<times> 's) option" where
  "pop_all pp 0 s = Some ([], s)"
| "pop_all pp (Suc n) s = do {
     (r, x, s) \<leftarrow> pp s;
     x \<leftarrow> x;
     (xs, s) \<leftarrow> pop_all pp n s;
     Some (x # xs, s)
   }"

locale lifo =
  fixes view :: "'s \<Rightarrow> 'a list"
    and room :: "'s \<Rightarrow> nat"
    and psh :: "'a \<Rightarrow> 's \<Rightarrow> (ret \<times> 's) option"
    and pp :: "'s \<Rightarrow> (ret \<times> 'a option \<times> 's) option"
    and inv :: "'s \<Rightarrow> bool"
  assumes psh_law: "inv s \<Longrightarrow> 0 < room s \<Longrightarrow>
      \<exists>s'. psh x s = Some (SML_ERR_OK, s') \<and> inv s' \<and> view s' = x # view s \<and> room s \<le> Suc (room s')"
    and pp_law: "inv s \<Longrightarrow> view s = x # xs \<Longrightarrow>
      \<exists>s'. pp s = Some (SML_ERR_OK, Some x, s') \<and> inv s' \<and> view s' = xs"
begin

lemma push_all_view:
  "inv s \<Longrightarrow> length xs \<le> room s \<Longrightarrow>
     \<exists>s'. push_all psh xs s = Some s' \<and> inv s' \<and> view s' = rev xs @ view s"
proof (induction xs arbitrary: s)
  case (Cons x xs)
  then obtain s1 where s1: "psh x s = Some (SML_ERR_OK, s1)" "inv s1" "view s1 = x # view s"
    "room s \<le> Suc (room s1)" using psh_law [of s x] by auto
  with Cons.prems Cons.IH [of s1] show ?case by auto
qed simp

lemma pop_all_view:
  "inv s \<Longrightarrow> view s = xs @ ys \<Longrightarrow>
     \<exists>s'. pop_all pp (length xs) s = Some (xs, s') \<and> inv s' \<and> view s' = ys"
proof (induction xs arbitrary: s)
  case (Cons x xs)
  then obtain s1 where s1: "pp s = Some (SML_ERR_OK, Some x, s1)" "inv s1" "view s1 = xs @ ys"
    using pp_law [of s x "xs @ ys"] by auto
  with Cons.IH [of s1] show ?case by auto
qed simp

lemma push_pop_all:
  assumes "inv s" "length xs \<le> room s"
  shows "\<exists>s1 s2. push_all psh xs s = Some s1 \<and> pop_all pp (length xs) s1 = Some (rev xs, s2) \<and>
           inv s2 \<and> view s2 = view s"
proof -
  from push_all_view [OF assms] obtain s1 where
    s1: "push_all psh xs s = Some s1" "inv s1" "view s1 = rev xs @ view s" by blast
  from pop_all_view [OF s1(2,3)] show ?thesis using s1(1) by auto
qed

end

text \<open>The operations of the file when no reallocation fails.\<close>

lemma stk_tight_push:
  assumes t: "stk_tight s" and room: "0 < stk_room s"
  shows "\<exists>s'. stack_push True x s = Some (SML_ERR_OK, s') \<and> stk_tight s' \<and>
           stk_view s' = x # stk_view s \<and> stk_room s \<le> Suc (stk_room s')"
proof -
  from t have inv: "stk_inv s" and sz: "stk_size s \<le> max 0 (topidx s) + chunksize s"
    by (simp_all add: stk_tight_def)
  from room sz inv have "stk_size s + chunksize s < 2 ^ 31"
    by (auto simp: stk_room_def stk_inv_def max_def split: if_splits)
  from stack_push_view [OF inv this, of True x] show ?thesis
    using sz inv room by (auto simp: stk_tight_def stk_room_def push_grows_def stk_inv_def max_def split: if_splits)
qed

lemma stk_tight_pop:
  assumes t: "stk_tight s" and v: "stk_view s = x # xs"
  shows "\<exists>s'. stack_pop True s = Some (SML_ERR_OK, Some x, s') \<and> stk_tight s' \<and> stk_view s' = xs"
proof -
  from t have inv: "stk_inv s" and sz: "stk_size s \<le> max 0 (topidx s) + chunksize s"
    by (simp_all add: stk_tight_def)
  from stack_pop_view [OF inv v, of True] show ?thesis
    using sz inv by (auto simp: stk_tight_def pop_shrinks_def stk_inv_def max_def split: if_splits)
qed

interpretation tag_lifo: lifo stk_view stk_room "stack_push True" "stack_pop True" stk_tight
  by unfold_locales (blast intro: stk_tight_push stk_tight_pop)+

lemma created_tight:
  assumes "xltUtilCreateStack True True n = (r, Some s)"
  shows "r = SML_ERR_OK \<and> stk_tight s \<and> stk_view s = [] \<and> stk_room s = nat (2 ^ 31 - 2 * n)"
  using assms
  by (auto simp: xltUtilCreateStack_def stk_tight_def stk_inv_def stk_view_def stk_room_def split: if_splits)

section \<open>Properties\<close>

text \<open>
  Property C30 (refinement, every allocation outcome). On the view, a push conses and a pop takes the
  head off, whatever the sizes of the array: a push that cannot grow the array leaves the stack
  as it was. A pop that cannot shrink the array reports \<open>SML_ERR_NOT_ENOUGH_SPACE\<close> although the
  item is already off the stack: the item is lost. No call reads an unwritten cell or writes past
  the array.
\<close>

theorem stack_refines_list:
  assumes "stk_inv s" and "stk_size s + chunksize s < 2 ^ 31"
  shows "stack_top s = Some (if stk_view s = [] then (SML_ERR_WRONG_USAGE, None)
                             else (SML_ERR_OK, Some (hd (stk_view s)))) \<and>
    (\<exists>s'. stack_push al x s =
       Some (if push_grows s \<and> \<not> al then SML_ERR_NOT_ENOUGH_SPACE else SML_ERR_OK, s') \<and> stk_inv s' \<and>
       stk_view s' = (if push_grows s \<and> \<not> al then stk_view s else x # stk_view s)) \<and>
    (\<exists>s'. stack_pop al s =
       Some (if stk_view s = [] then (SML_ERR_WRONG_USAGE, None, s')
             else if pop_shrinks s \<and> \<not> al then (SML_ERR_NOT_ENOUGH_SPACE, None, s')
             else (SML_ERR_OK, Some (hd (stk_view s)), s')) \<and> stk_inv s' \<and>
       stk_view s' = tl (stk_view s))"
proof (intro conjI)
  show "stack_top s = Some (if stk_view s = [] then (SML_ERR_WRONG_USAGE, None)
                             else (SML_ERR_OK, Some (hd (stk_view s))))"
    using stack_top_view [OF assms(1)] by (simp split: list.splits)
  show "\<exists>s'. stack_push al x s =
       Some (if push_grows s \<and> \<not> al then SML_ERR_NOT_ENOUGH_SPACE else SML_ERR_OK, s') \<and> stk_inv s' \<and>
       stk_view s' = (if push_grows s \<and> \<not> al then stk_view s else x # stk_view s)"
    using stack_push_view [OF assms, of al x] by (auto split: if_splits)
  show "\<exists>s'. stack_pop al s =
       Some (if stk_view s = [] then (SML_ERR_WRONG_USAGE, None, s')
             else if pop_shrinks s \<and> \<not> al then (SML_ERR_NOT_ENOUGH_SPACE, None, s')
             else (SML_ERR_OK, Some (hd (stk_view s)), s')) \<and> stk_inv s' \<and>
       stk_view s' = tl (stk_view s)"
  proof (cases "stk_view s")
    case Nil
    then show ?thesis using stack_pop_empty [OF assms(1) Nil] assms(1) by simp
  next
    case (Cons y ys)
    then show ?thesis using stack_pop_view [OF assms(1) Cons, of al] by auto
  qed
qed

theorem stack_refines_list_witness:
  "\<exists>s'. stack_pop False \<lparr>topidx = 1, stk_size = 2, chunksize = 1, stk_array = [Some (7 :: nat), Some 8]\<rparr> =
     Some (SML_ERR_NOT_ENOUGH_SPACE, None, s') \<and> stk_view s' = [7]"
proof -
  let ?s = "\<lparr>topidx = 1, stk_size = 2, chunksize = 1, stk_array = [Some (7 :: nat), Some 8]\<rparr>"
  have "stk_inv ?s" by (simp add: stk_inv_def less_Suc_eq numeral_2_eq_2)
  moreover have "stk_view ?s = [8, 7]" "pop_shrinks ?s" by (simp_all add: stk_view_def pop_shrinks_def)
  ultimately show ?thesis using stack_refines_list [of ?s False 0] by auto
qed

text \<open>
  A new stack takes any number of items,
  growing chunk by chunk, and gives them back in the opposite order, shrinking again.
\<close>

theorem stack_lifo:
  fixes xs :: "'a list"
  assumes "0 < n" and "int (length xs) + 2 * n \<le> 2 ^ 31"
  shows "\<exists>s s1 s2. xltUtilCreateStack True True n = (SML_ERR_OK, Some s) \<and>
           push_all (stack_push True) xs s = Some s1 \<and> stk_view s1 = rev xs \<and>
           pop_all (stack_pop True) (length xs) s1 = Some (rev xs, s2) \<and> stk_view s2 = []"
proof -
  obtain s :: "'a ArrayStack" where c: "xltUtilCreateStack True True n = (SML_ERR_OK, Some s)"
    using assms(1) by (simp add: xltUtilCreateStack_def)
  from created_tight [OF c] assms have s: "stk_tight s" "stk_view s = []" "length xs \<le> stk_room s"
    by (auto simp: le_nat_iff)
  from tag_lifo.push_all_view [OF s(1,3)] obtain s1 where
    s1: "push_all (stack_push True) xs s = Some s1" "stk_tight s1" "stk_view s1 = rev xs"
    using s(2) by auto
  with tag_lifo.push_pop_all [OF s(1,3)] s(2) c show ?thesis by auto
qed

theorem stack_lifo_witness:
  "\<exists>s s1 s2. xltUtilCreateStack True True 2 = (SML_ERR_OK, Some s) \<and>
     push_all (stack_push True) [10, 20, 30, 40, 50 :: nat] s = Some s1 \<and>
     pop_all (stack_pop True) 5 s1 = Some ([50, 40, 30, 20, 10], s2)"
  using stack_lifo [of 2 "[10, 20, 30, 40, 50 :: nat]"] by (simp add: eval_nat_numeral del: push_all.simps pop_all.simps) blast

end
