(* ===== verification/Wbxml_Scanner.thy ===== *)
theory Wbxml_Scanner
  imports Tag_Tables Util_Stack
begin

text \<open>
  The WBXML scanner of the toolkit, \<open>xltdecwbxml.c\<close>: the document header, multi-byte integers,
  strings, opaque data, tags, code pages, and the elements that it skips.

  \<open>sc_mem\<close> is the memory that can be read from the start of the document on, \<open>sc_bufend\<close> the end
  of the document in it. The scanner compares its position with \<open>sc_bufend\<close> when it advances, but it
  reads the byte at its position without a check: reading outside \<open>sc_mem\<close> is \<open>None\<close>, and so is
  an overflow of the 32-bit integers, a string without its zero byte, and freeing twice.
\<close>

section \<open>Tokens and the scanner object\<close>

datatype XltTokType = TOK_UNDEF | TOK_TAG_START | TOK_TAG_END | TOK_TAG_EMPTY | TOK_CONT

datatype SmlPcdataType =
  SML_PCDATA_UNDEFINED | SML_PCDATA_STRING | SML_PCDATA_OPAQUE | SML_PCDATA_EXTENSION | SML_PCDATA_CDATA

text \<open>\<open>pc_extension\<close> is \<open>None\<close> where the code leaves the field as \<open>malloc\<close> returned it.\<close>

record SmlPcdata =
  pc_contentType :: SmlPcdataType
  pc_extension :: "SmlPcdataExtension option"
  pc_length :: int
  pc_content :: "byte list"

text \<open>A pointer to a \<open>SmlPcdata_t\<close>: null, to a live block, or to a block that has been freed.\<close>

datatype pcdata_ptr = PC_NULL | PC_live SmlPcdata | PC_freed

definition pcdata_free :: "pcdata_ptr \<Rightarrow> pcdata_ptr option" where
  "pcdata_free p = (case p of PC_NULL \<Rightarrow> Some PC_NULL | PC_live d \<Rightarrow> Some PC_freed | PC_freed \<Rightarrow> None)"

record XltDecToken =
  tok_type :: XltTokType
  tok_tagid :: XltTagID
  tok_ext :: SmlPcdataExtension
  tok_pcdata :: pcdata_ptr
  tok_start :: "int option"

definition zero_token :: XltDecToken where
  "zero_token = \<lparr>tok_type = TOK_UNDEF, tok_tagid = TN_UNDEF, tok_ext = SML_EXT_UNDEFINED,
                 tok_pcdata = PC_NULL, tok_start = None\<rparr>"

datatype scan_state = TAG_STATE | ATTRIBUTE_STATE

record wbxmlScanner =
  sc_mem :: "byte list"
  sc_curtok :: XltDecToken
  sc_charset :: int
  sc_pubID :: int
  sc_pubIDStr :: "int option"
  sc_finished :: bool
  sc_pos :: int
  sc_bufend :: int
  sc_pubIDIdx :: int
  sc_tagstack :: "XltTagID ArrayStack"
  sc_strtbl :: "byte list option"
  sc_strtbllen :: int
  sc_state :: scan_state
  sc_cptag :: byte
  sc_cpattr :: byte
  sc_activeExt :: SmlPcdataExtension
  sc_tok :: TokTbl

type_synonym scan = "(ret \<times> wbxmlScanner) option"

definition sc_malloc :: "wbxmlScanner \<Rightarrow> bool \<times> wbxmlScanner" where
  "sc_malloc s = (let (ok, g) = tok_malloc (sc_tok s) in (ok, s\<lparr>sc_tok := g\<rparr>))"

definition mem_at :: "byte list \<Rightarrow> int \<Rightarrow> byte option" where
  "mem_at m p = (if 0 \<le> p \<and> p < int (length m) then Some (m ! nat p) else None)"

definition sc_cur :: "wbxmlScanner \<Rightarrow> byte option" where
  "sc_cur s = mem_at (sc_mem s) (sc_pos s)"

text \<open>\<open>strlen\<close>: the string at a position of a memory block; without a zero byte it has no length.\<close>

fun c_string :: "byte list \<Rightarrow> byte list option" where
  "c_string [] = None"
| "c_string (c # cs) = (if c = 0 then Some [] else do { s \<leftarrow> c_string cs; Some (c # s) })"

definition string_at :: "byte list \<Rightarrow> int \<Rightarrow> byte list option" where
  "string_at m p = (if 0 \<le> p then c_string (drop (nat p) m) else None)"

section \<open>The token classes\<close>

definition HAS_ATTRIBUTES :: "byte \<Rightarrow> bool" where "HAS_ATTRIBUTES b \<longleftrightarrow> b AND 0x80 \<noteq> 0"
definition HAS_CONTENT :: "byte \<Rightarrow> bool" where "HAS_CONTENT b \<longleftrightarrow> b AND 0x40 \<noteq> 0"
definition IDENTITY :: "byte \<Rightarrow> byte" where "IDENTITY b = b AND 0x3F"
definition IS_SWITCH :: "byte \<Rightarrow> bool" where "IS_SWITCH b \<longleftrightarrow> b = 0x00"
definition IS_END :: "byte \<Rightarrow> bool" where "IS_END b \<longleftrightarrow> b = 0x01"
definition IS_ENTITY :: "byte \<Rightarrow> bool" where "IS_ENTITY b \<longleftrightarrow> b = 0x02"
definition IS_STR_I :: "byte \<Rightarrow> bool" where "IS_STR_I b \<longleftrightarrow> b = 0x03"
definition IS_LITERAL :: "byte \<Rightarrow> bool" where "IS_LITERAL b \<longleftrightarrow> IDENTITY b = 0x04"
definition IS_EXT_I :: "byte \<Rightarrow> bool" where "IS_EXT_I b \<longleftrightarrow> b = 0x40 \<or> b = 0x41 \<or> b = 0x42"
definition IS_PI :: "byte \<Rightarrow> bool" where "IS_PI b \<longleftrightarrow> b = 0x43"
definition IS_EXT_T :: "byte \<Rightarrow> bool" where "IS_EXT_T b \<longleftrightarrow> b = 0x80 \<or> b = 0x81 \<or> b = 0x82"
definition IS_STR_T :: "byte \<Rightarrow> bool" where "IS_STR_T b \<longleftrightarrow> b = 0x83"
definition IS_EXT :: "byte \<Rightarrow> bool" where "IS_EXT b \<longleftrightarrow> b = 0xC0 \<or> b = 0xC1 \<or> b = 0xC2"
definition IS_OPAQUE :: "byte \<Rightarrow> bool" where "IS_OPAQUE b \<longleftrightarrow> b = 0xC3"
definition IS_STRING :: "byte \<Rightarrow> bool" where "IS_STRING b \<longleftrightarrow> IS_STR_I b \<or> IS_STR_T b"
definition IS_EXTENSION :: "byte \<Rightarrow> bool" where "IS_EXTENSION b \<longleftrightarrow> IS_EXT_I b \<or> IS_EXT_T b \<or> IS_EXT b"

lemmas token_classes = HAS_ATTRIBUTES_def HAS_CONTENT_def IDENTITY_def IS_SWITCH_def IS_END_def
  IS_ENTITY_def IS_STR_I_def IS_LITERAL_def IS_EXT_I_def IS_PI_def IS_EXT_T_def IS_STR_T_def
  IS_EXT_def IS_OPAQUE_def IS_STRING_def IS_EXTENSION_def

section \<open>Reading and multi-byte integers\<close>

definition readBytes :: "int \<Rightarrow> wbxmlScanner \<Rightarrow> bool \<times> wbxmlScanner" where
  "readBytes n s =
     (if sc_pos s + n > sc_bufend s then (False, s\<lparr>sc_finished := True\<rparr>)
      else (True, s\<lparr>sc_pos := sc_pos s + n\<rparr>))"

text \<open>
  The two control patterns of the file: \<open>if (!readBytes(s, n)) return SML_ERR_XLT_END_OF_BUFFER;\<close> and
  \<open>if ((rc = f(s)) != SML_ERR_OK) return rc;\<close>, with the rest of the function as an argument.
\<close>

definition need :: "int \<Rightarrow> wbxmlScanner \<Rightarrow> (wbxmlScanner \<Rightarrow> scan) \<Rightarrow> scan" where
  "need n s k =
     (case readBytes n s of (ok, s) \<Rightarrow> if ok then k s else Some (SML_ERR_XLT_END_OF_BUFFER, s))"

definition on_ok :: "(ret \<times> 'a \<times> wbxmlScanner) option \<Rightarrow> ('a \<Rightarrow> wbxmlScanner \<Rightarrow> scan) \<Rightarrow> scan" where
  "on_ok m k = do { (rc, v, s) \<leftarrow> m; if rc = SML_ERR_OK then k v s else Some (rc, s) }"

function parseInt_loop :: "int \<Rightarrow> wbxmlScanner \<Rightarrow> (ret \<times> int \<times> wbxmlScanner) option" where
  "parseInt_loop mbi s = do {
     mbi \<leftarrow> s32 (mbi * 128);
     b \<leftarrow> sc_cur s;
     mbi \<leftarrow> s32 (mbi + uint (b AND 0x7F));
     if b AND 0x80 = 0 then Some (SML_ERR_OK, mbi, s)
     else if sc_pos s + 1 > sc_bufend s
     then Some (SML_ERR_XLT_END_OF_BUFFER, mbi, s\<lparr>sc_finished := True\<rparr>)
     else parseInt_loop mbi (s\<lparr>sc_pos := sc_pos s + 1\<rparr>)
   }"
  by pat_completeness auto
termination
  by (relation "measure (\<lambda>(mbi, s). nat (sc_bufend s - sc_pos s))") auto

declare parseInt_loop.simps [simp del]

definition parseInt :: "wbxmlScanner \<Rightarrow> (ret \<times> int \<times> wbxmlScanner) option" where
  "parseInt s = parseInt_loop 0 s"

section \<open>Strings and opaque data\<close>

definition set_content :: "SmlPcdata \<Rightarrow> wbxmlScanner \<Rightarrow> wbxmlScanner" where
  "set_content d s = s\<lparr>sc_curtok := (sc_curtok s)\<lparr>tok_pcdata := PC_live d, tok_type := TOK_CONT\<rparr>\<rparr>"

definition wbxmlStringToken :: "wbxmlScanner \<Rightarrow> scan" where
  "wbxmlStringToken s =
     (let (ok, s) = sc_malloc s
      in if \<not> ok then Some (SML_ERR_NOT_ENOUGH_SPACE, s)
      else do {
        b \<leftarrow> sc_cur s;
        if IS_STR_I b then
          need 1 s (\<lambda>s. do {
            str \<leftarrow> string_at (sc_mem s) (sc_pos s);
            let len = int (length str);
            if sc_pos s + len + 1 > sc_bufend s then Some (SML_ERR_XLT_END_OF_BUFFER, s)
            else
              (let (ok, s) = sc_malloc s
               in if \<not> ok then Some (SML_ERR_NOT_ENOUGH_SPACE, s)
               else
                 (let s = snd (readBytes (len + 1) s)
                  in Some (SML_ERR_OK,
                       set_content \<lparr>pc_contentType = SML_PCDATA_STRING, pc_extension = Some SML_EXT_UNDEFINED,
                                    pc_length = len, pc_content = str @ [0]\<rparr> s)))
          })
        else
          need 1 s (\<lambda>s. on_ok (parseInt s) (\<lambda>offset s.
            if offset \<ge> sc_strtbllen s then Some (SML_ERR_XLT_INVAL_WBXML_DOC, s)
            else do {
              tbl \<leftarrow> sc_strtbl s;
              str \<leftarrow> string_at tbl offset;
              let len = int (length str);
              (let (ok, s) = sc_malloc s
               in if \<not> ok then Some (SML_ERR_NOT_ENOUGH_SPACE, s)
               else
                 (let s = snd (readBytes 1 s)
                  in Some (SML_ERR_OK,
                       set_content \<lparr>pc_contentType = SML_PCDATA_STRING, pc_extension = None,
                                    pc_length = len, pc_content = str @ [0]\<rparr> s)))
            }))
      })"

text \<open>\<open>memcpy\<close> from the buffer.\<close>

definition bytes_at :: "byte list \<Rightarrow> int \<Rightarrow> int \<Rightarrow> byte list option" where
  "bytes_at m p n =
     (if 0 \<le> p \<and> 0 \<le> n \<and> p + n \<le> int (length m) then Some (take (nat n) (drop (nat p) m)) else None)"

definition wbxmlOpaqueToken :: "wbxmlScanner \<Rightarrow> scan" where
  "wbxmlOpaqueToken s =
     need 1 s (\<lambda>s. on_ok (parseInt s) (\<lambda>len s. need 1 s (\<lambda>s.
       if sc_pos s + len > sc_bufend s then Some (SML_ERR_XLT_END_OF_BUFFER, s)
       else
         (let (ok, s) = sc_malloc s
          in if \<not> ok then Some (SML_ERR_NOT_ENOUGH_SPACE, s)
          else
            (let (ok, s) = sc_malloc s
             in if \<not> ok then Some (SML_ERR_NOT_ENOUGH_SPACE, s)
             else do {
               bs \<leftarrow> bytes_at (sc_mem s) (sc_pos s) len;
               let s = s\<lparr>sc_curtok := (sc_curtok s)\<lparr>tok_pcdata :=
                 PC_live \<lparr>pc_contentType = SML_PCDATA_OPAQUE, pc_extension = Some SML_EXT_UNDEFINED,
                          pc_length = len, pc_content = bs @ [0]\<rparr>\<rparr>\<rparr>;
               let s = snd (readBytes len s);
               Some (SML_ERR_OK, s\<lparr>sc_curtok := (sc_curtok s)\<lparr>tok_type := TOK_CONT\<rparr>\<rparr>)
             })))))"

section \<open>Code pages\<close>

text \<open>
  \<open>sc_cptag\<close> holds the byte of the page, so the case \<open>0xFD2\<close> of the device information cannot occur.
\<close>

definition page_ext :: "byte \<Rightarrow> SmlPcdataExtension" where
  "page_ext cp =
     (if cp = 0x00 then SML_EXT_UNDEFINED
      else if cp = 0x01 then SML_EXT_METINF
      else if cp = 0x02 then SML_EXT_DMTND
      else if uint cp = 0xFD2 then SML_EXT_DEVINF
      else SML_EXT_UNDEFINED)"

definition wbxmlSwitchPage :: "wbxmlScanner \<Rightarrow> scan" where
  "wbxmlSwitchPage s =
     need 1 s (\<lambda>s. do {
       b \<leftarrow> sc_cur s;
       let s = (if sc_state s = TAG_STATE then s\<lparr>sc_cptag := b\<rparr> else s\<lparr>sc_cpattr := b\<rparr>);
       let s = snd (readBytes 1 s);
       Some (SML_ERR_OK, s\<lparr>sc_activeExt := page_ext (sc_cptag s)\<rparr>)
     })"

section \<open>Elements that are skipped\<close>

definition wbxmlSkipEntity :: "wbxmlScanner \<Rightarrow> scan" where
  "wbxmlSkipEntity s =
     need 1 s (\<lambda>s. on_ok (parseInt s) (\<lambda>tmp s. need 1 s (\<lambda>s. Some (SML_ERR_OK, s))))"

definition wbxmlSkipExtension :: "wbxmlScanner \<Rightarrow> scan" where
  "wbxmlSkipExtension s = do {
     b \<leftarrow> sc_cur s;
     if IS_EXT b then need 1 s (\<lambda>s. Some (SML_ERR_OK, s))
     else if IS_EXT_I b then
       need 1 s (\<lambda>s. do {
         str \<leftarrow> string_at (sc_mem s) (sc_pos s);
         need (int (length str) + 1) s (\<lambda>s. Some (SML_ERR_OK, s))
       })
     else
       need 1 s (\<lambda>s. on_ok (parseInt s) (\<lambda>tmp s. do {
         n \<leftarrow> s32 (tmp + 1);
         need n s (\<lambda>s. Some (SML_ERR_OK, s))
       }))
   }"

text \<open>
  One round of the loop of \<open>wbxmlSkipAttribute\<close> on the byte \<open>b\<close>; the token's pcdata is freed whether
  the string or opaque token was read or not.
\<close>

definition free_pcdata :: "ret \<times> wbxmlScanner \<Rightarrow> scan" where
  "free_pcdata r = (case r of (rc, s) \<Rightarrow> do {
     p \<leftarrow> pcdata_free (tok_pcdata (sc_curtok s));
     Some (rc, s\<lparr>sc_curtok := (sc_curtok s)\<lparr>tok_pcdata := p\<rparr>\<rparr>)
   })"

definition attr_step :: "byte \<Rightarrow> wbxmlScanner \<Rightarrow> scan" where
  "attr_step b s =
     (if IS_STRING b then do { r \<leftarrow> wbxmlStringToken s; free_pcdata r }
      else if IS_EXTENSION b then wbxmlSkipExtension s
      else if IS_ENTITY b then wbxmlSkipEntity s
      else if IS_OPAQUE b then do { r \<leftarrow> wbxmlOpaqueToken s; free_pcdata r }
      else if IS_LITERAL b then
        need 1 s (\<lambda>s. do {
          (rc, tmp, s) \<leftarrow> parseInt s;
          need 1 s (\<lambda>s. Some (rc, s))
        })
      else if IS_SWITCH b then wbxmlSwitchPage s
      else need 1 s (\<lambda>s. Some (SML_ERR_OK, s)))"

text \<open>
  No step changes the document; the position never goes back and never passes the end of the
  document, and a step that succeeds advances it.
\<close>

definition keeps :: "wbxmlScanner \<Rightarrow> wbxmlScanner \<Rightarrow> bool" where
  "keeps s s' \<longleftrightarrow> sc_pos s \<le> sc_pos s' \<and> (sc_pos s' = sc_pos s \<or> sc_pos s' \<le> sc_bufend s) \<and>
     sc_bufend s' = sc_bufend s \<and> sc_mem s' = sc_mem s \<and>
     sc_strtbl s' = sc_strtbl s \<and> sc_strtbllen s' = sc_strtbllen s"

definition advances :: "ret \<Rightarrow> wbxmlScanner \<Rightarrow> wbxmlScanner \<Rightarrow> bool" where
  "advances r s s' \<longleftrightarrow> keeps s s' \<and> (r = SML_ERR_OK \<longrightarrow> sc_pos s < sc_pos s')"

named_theorems scan_progress \<open>the position after a step\<close>

lemma keeps_refl [simp]: "keeps s s"
  by (simp add: keeps_def)

lemma keeps_trans [trans]: "keeps s s1 \<Longrightarrow> keeps s1 s2 \<Longrightarrow> keeps s s2"
  by (auto simp: keeps_def)

lemma sc_malloc_frame: "sc_malloc s = (ok, s') \<Longrightarrow>
    sc_pos s' = sc_pos s \<and> sc_bufend s' = sc_bufend s \<and> sc_mem s' = sc_mem s \<and> sc_strtbl s' = sc_strtbl s \<and>
    sc_strtbllen s' = sc_strtbllen s \<and> sc_curtok s' = sc_curtok s \<and> sc_activeExt s' = sc_activeExt s \<and>
    sc_tagstack s' = sc_tagstack s"
  by (auto simp: sc_malloc_def split: prod.splits)

lemma sc_malloc_keeps: "sc_malloc s = (ok, s') \<Longrightarrow> keeps s s'"
  by (simp add: keeps_def sc_malloc_frame)

lemma needE:
  assumes "need n s k = Some (r, s')"
  obtains "sc_pos s + n > sc_bufend s" "r = SML_ERR_XLT_END_OF_BUFFER" "s' = s\<lparr>sc_finished := True\<rparr>"
  | "sc_pos s + n \<le> sc_bufend s" "k (s\<lparr>sc_pos := sc_pos s + n\<rparr>) = Some (r, s')"
  using assms by (auto simp: need_def readBytes_def split: if_splits)

lemma on_okE:
  assumes "on_ok m k = Some (r, s')"
  obtains v s1 where "m = Some (SML_ERR_OK, v, s1)" "k v s1 = Some (r, s')"
  | v where "m = Some (r, v, s')" "r \<noteq> SML_ERR_OK"
  using assms by (auto simp: on_ok_def bind_eq_Some_conv split: if_splits)

lemma readBytes_keeps: "0 \<le> n \<Longrightarrow> keeps s (snd (readBytes n s))"
  by (auto simp: readBytes_def keeps_def)

lemma parseInt_loop_keeps:
  "parseInt_loop mbi s = Some (r, v, s') \<Longrightarrow> 0 \<le> mbi \<Longrightarrow>
     keeps s s' \<and> 0 \<le> v \<and> (r = SML_ERR_OK \<or> r = SML_ERR_XLT_END_OF_BUFFER)"
proof (induction mbi s rule: parseInt_loop.induct)
  case (1 mbi s)
  from "1.prems"(1) obtain m b v1 where m: "s32 (mbi * 128) = Some m" "sc_cur s = Some b"
    "s32 (m + uint (b AND 0x7F)) = Some v1"
    and res: "(if b AND 0x80 = 0 then Some (SML_ERR_OK, v1, s)
       else if sc_bufend s < sc_pos s + 1
       then Some (SML_ERR_XLT_END_OF_BUFFER, v1, s\<lparr>sc_finished := True\<rparr>)
       else parseInt_loop v1 (s\<lparr>sc_pos := sc_pos s + 1\<rparr>)) = Some (r, v, s')"
    by (subst (asm) parseInt_loop.simps) (auto simp: bind_eq_Some_conv)
  from m(1,3) "1.prems"(2) have v1: "0 \<le> v1"
    by (auto simp: s32_def split: if_splits)
  show ?case
  proof (cases "b AND 0x80 = 0 \<or> sc_bufend s < sc_pos s + 1")
    case True
    with res v1 show ?thesis by (auto simp: keeps_def split: if_splits)
  next
    case False
    with res have "parseInt_loop v1 (s\<lparr>sc_pos := sc_pos s + 1\<rparr>) = Some (r, v, s')" by simp
    with "1.IH" [OF m] False v1 have "keeps (s\<lparr>sc_pos := sc_pos s + 1\<rparr>) s' \<and> 0 \<le> v \<and>
        (r = SML_ERR_OK \<or> r = SML_ERR_XLT_END_OF_BUFFER)" by simp
    with False show ?thesis by (auto simp: keeps_def)
  qed
qed

lemma parseInt_keeps:
  "parseInt s = Some (r, v, s') \<Longrightarrow> keeps s s' \<and> 0 \<le> v \<and> (r = SML_ERR_OK \<or> r = SML_ERR_XLT_END_OF_BUFFER)"
  unfolding parseInt_def by (drule parseInt_loop_keeps) simp_all

text \<open>A calculus over the control patterns: every outcome of \<open>m\<close> keeps, or advances, the scanner \<open>s0\<close>.\<close>

definition all_keep :: "wbxmlScanner \<Rightarrow> scan \<Rightarrow> bool" where
  "all_keep s0 m \<longleftrightarrow> (\<forall>r s. m = Some (r, s) \<longrightarrow> keeps s0 s)"

definition all_advance :: "wbxmlScanner \<Rightarrow> scan \<Rightarrow> bool" where
  "all_advance s0 m \<longleftrightarrow> (\<forall>r s. m = Some (r, s) \<longrightarrow> advances r s0 s)"

named_theorems keep_rules

lemma all_keep_Some [keep_rules]: "keeps s0 s \<Longrightarrow> all_keep s0 (Some (r, s))"
  by (simp add: all_keep_def)

lemma all_keep_bind [keep_rules]: "(\<And>x. m = Some x \<Longrightarrow> all_keep s0 (k x)) \<Longrightarrow> all_keep s0 (m \<bind> k)"
  by (cases m) (auto simp: all_keep_def)

lemma all_keep_if [keep_rules]:
  "(b \<Longrightarrow> all_keep s0 m1) \<Longrightarrow> (\<not> b \<Longrightarrow> all_keep s0 m2) \<Longrightarrow> all_keep s0 (if b then m1 else m2)"
  by simp

lemma all_keep_need [keep_rules]:
  assumes "keeps s0 s" "0 \<le> n" "\<And>s1. keeps s0 s1 \<Longrightarrow> all_keep s0 (k s1)"
  shows "all_keep s0 (need n s k)"
  unfolding all_keep_def
proof (intro allI impI)
  fix r s'
  assume "need n s k = Some (r, s')"
  then show "keeps s0 s'"
  proof (cases rule: needE)
    case 1
    with assms(1) show ?thesis by (auto simp: keeps_def)
  next
    case 2
    with assms(1,2) have "keeps s0 (s\<lparr>sc_pos := sc_pos s + n\<rparr>)" by (auto simp: keeps_def)
    from assms(3) [OF this] 2(2) show ?thesis by (simp add: all_keep_def)
  qed
qed

lemma all_keep_on_ok [keep_rules]:
  assumes "keeps s0 s" "\<And>v s1. 0 \<le> v \<Longrightarrow> keeps s0 s1 \<Longrightarrow> all_keep s0 (k v s1)"
  shows "all_keep s0 (on_ok (parseInt s) k)"
  unfolding all_keep_def
proof (intro allI impI)
  fix r s'
  assume "on_ok (parseInt s) k = Some (r, s')"
  then show "keeps s0 s'"
  proof (cases rule: on_okE)
    case (1 v s1)
    with parseInt_keeps [OF 1(1)] assms(1) keeps_trans have "0 \<le> v" "keeps s0 s1" by blast+
    with assms(2) [of v s1] 1(2) show ?thesis by (simp add: all_keep_def)
  next
    case (2 v)
    with parseInt_keeps [OF 2(1)] assms(1) keeps_trans show ?thesis by blast
  qed
qed

lemma all_keep_malloc [keep_rules]:
  assumes "keeps s0 s" "\<And>s1. keeps s0 s1 \<Longrightarrow> all_keep s0 (k s1)"
  shows "all_keep s0 (case sc_malloc s of (ok, s) \<Rightarrow> if \<not> ok then Some (e, s) else k s)"
proof -
  obtain ok s1 where m: "sc_malloc s = (ok, s1)" by fastforce
  from sc_malloc_keeps [OF this] assms(1) have "keeps s0 s1" using keeps_trans by blast
  with assms(2) [OF this] show ?thesis by (simp add: m all_keep_def)
qed

lemma keeps_if [keep_rules]: "keeps s0 a \<Longrightarrow> keeps s0 b \<Longrightarrow> keeps s0 (if c then a else b)"
  by simp

lemma keeps_content [keep_rules]: "keeps s0 s \<Longrightarrow> keeps s0 (set_content d s)"
  by (simp add: set_content_def keeps_def)

lemma keeps_curtok [keep_rules]: "keeps s0 s \<Longrightarrow> keeps s0 (s\<lparr>sc_curtok := t\<rparr>)"
  by (simp add: keeps_def)

lemma keeps_page [keep_rules]:
  "keeps s0 s \<Longrightarrow> keeps s0 (s\<lparr>sc_activeExt := e\<rparr>)"
  "keeps s0 s \<Longrightarrow> keeps s0 (s\<lparr>sc_cptag := b\<rparr>)"
  "keeps s0 s \<Longrightarrow> keeps s0 (s\<lparr>sc_cpattr := b\<rparr>)"
  "keeps s0 s \<Longrightarrow> keeps s0 (s\<lparr>sc_state := st\<rparr>)"
  "keeps s0 s \<Longrightarrow> keeps s0 (s\<lparr>sc_tagstack := ts\<rparr>)"
  "keeps s0 s \<Longrightarrow> keeps s0 (s\<lparr>sc_tok := g\<rparr>)"
  by (simp_all add: keeps_def)

lemma keeps_read [keep_rules]: "keeps s0 s \<Longrightarrow> 0 \<le> n \<Longrightarrow> keeps s0 (snd (readBytes n s))"
  using readBytes_keeps keeps_trans by blast

lemma all_keep_0 [keep_rules]: "0 \<le> (1::int)" "0 \<le> int n + 1" "0 \<le> int n"
  by simp_all

lemma all_advance_need:
  assumes "1 \<le> n" "\<And>s1. all_keep s1 (k s1)"
  shows "all_advance s (need n s k)"
  unfolding all_advance_def
proof (intro allI impI)
  fix r s'
  assume "need n s k = Some (r, s')"
  then show "advances r s s'"
  proof (cases rule: needE)
    case 1
    then show ?thesis by (auto simp: advances_def keeps_def)
  next
    case 2
    from assms(2) 2 have "keeps (s\<lparr>sc_pos := sc_pos s + n\<rparr>) s'" by (simp add: all_keep_def)
    with assms(1) 2(1) show ?thesis by (auto simp: advances_def keeps_def)
  qed
qed

lemma all_advance_malloc:
  assumes "e \<noteq> SML_ERR_OK" "\<And>s1. all_advance s1 (k s1)"
  shows "all_advance s (case sc_malloc s of (ok, s) \<Rightarrow> if \<not> ok then Some (e, s) else k s)"
proof -
  obtain ok s1 where m: "sc_malloc s = (ok, s1)" by fastforce
  from sc_malloc_keeps [OF m] have k: "keeps s s1" "sc_pos s1 = sc_pos s"
    using sc_malloc_frame [OF m] by auto
  with assms(1) assms(2) [of s1] show ?thesis
    by (auto simp: m all_advance_def advances_def dest: keeps_trans)
qed

lemma all_advance_bind: "(\<And>x. m = Some x \<Longrightarrow> all_advance s0 (k x)) \<Longrightarrow> all_advance s0 (m \<bind> k)"
  by (cases m) (auto simp: all_advance_def)

lemma all_advance_if:
  "(b \<Longrightarrow> all_advance s0 m1) \<Longrightarrow> (\<not> b \<Longrightarrow> all_advance s0 m2) \<Longrightarrow> all_advance s0 (if b then m1 else m2)"
  by simp

lemma s32_succ_nonneg: "s32 (v + 1) = Some n \<Longrightarrow> 0 \<le> v \<Longrightarrow> 0 \<le> n"
  by (auto simp: s32_def split: if_splits)

lemmas advance_rules = all_advance_malloc all_advance_bind all_advance_if all_advance_need

lemma err_neq [simp]: "SML_ERR_NOT_ENOUGH_SPACE \<noteq> SML_ERR_OK"
  by simp

lemma wbxmlSwitchPage_advance: "all_advance s (wbxmlSwitchPage s)"
  unfolding wbxmlSwitchPage_def Let_def
  by (rule all_advance_need, simp) (intro keep_rules keeps_refl)

lemma wbxmlSkipEntity_advance: "all_advance s (wbxmlSkipEntity s)"
  unfolding wbxmlSkipEntity_def
  by (rule all_advance_need, simp) (intro keep_rules keeps_refl; assumption)

lemma wbxmlOpaqueToken_advance: "all_advance s (wbxmlOpaqueToken s)"
  unfolding wbxmlOpaqueToken_def Let_def
  by (rule all_advance_need, simp) (intro keep_rules keeps_refl; assumption)

lemma wbxmlStringToken_advance: "all_advance s (wbxmlStringToken s)"
  unfolding wbxmlStringToken_def Let_def
  by (intro advance_rules keep_rules keeps_refl order.refl ret.distinct; assumption)

lemma wbxmlSkipExtension_advance: "all_advance s (wbxmlSkipExtension s)"
  unfolding wbxmlSkipExtension_def
  by (intro advance_rules keep_rules keeps_refl order.refl;
      (assumption | erule s32_succ_nonneg, assumption))

lemma free_pcdata_advance:
  assumes "all_advance s m"
  shows "all_advance s (m \<bind> free_pcdata)"
  using assms
  by (cases m) (auto simp: all_advance_def free_pcdata_def advances_def keeps_def bind_eq_Some_conv)

lemma attr_step_advance: "all_advance s (attr_step b s)"
  unfolding attr_step_def
proof (intro all_advance_if free_pcdata_advance wbxmlStringToken_advance wbxmlSkipExtension_advance
    wbxmlSkipEntity_advance wbxmlOpaqueToken_advance wbxmlSwitchPage_advance)
  show "all_advance s (need 1 s (\<lambda>s. parseInt s \<bind>
      (\<lambda>a. case a of (rc, tmp, s) \<Rightarrow> need 1 s (\<lambda>s. Some (rc, s)))))"
  proof (rule all_advance_need)
    fix s1
    show "all_keep s1 (parseInt s1 \<bind> (\<lambda>a. case a of (rc, tmp, s) \<Rightarrow> need 1 s (\<lambda>s. Some (rc, s))))"
      using parseInt_keeps [of s1] by (intro all_keep_bind) (auto intro!: keep_rules)
  qed simp
  show "all_advance s (need 1 s (\<lambda>s. Some (SML_ERR_OK, s)))"
    by (rule all_advance_need) (simp_all add: all_keep_def)
qed

section \<open>Attributes and tags\<close>

function attr_loop :: "wbxmlScanner \<Rightarrow> scan" where
  "attr_loop s =
     (case sc_cur s of
        None \<Rightarrow> None
      | Some b \<Rightarrow>
          if IS_END b then Some (SML_ERR_OK, s)
          else
            (case attr_step b s of
               None \<Rightarrow> None
             | Some (rc, s') \<Rightarrow> if rc \<noteq> SML_ERR_OK then Some (rc, s') else attr_loop s'))"
  by pat_completeness auto
termination
proof (relation "measure (\<lambda>s. nat (sc_bufend s - sc_pos s))", goal_cases)
  case (2 s b x rc s')
  then have "advances SML_ERR_OK s s'"
    using attr_step_advance [of s b] by (auto simp: all_advance_def)
  then show ?case by (auto simp: advances_def keeps_def)
qed simp

declare attr_loop.simps [simp del]

definition wbxmlSkipAttribute :: "wbxmlScanner \<Rightarrow> scan" where
  "wbxmlSkipAttribute s =
     (let (ok, s) = sc_malloc s
      in if \<not> ok then Some (SML_ERR_NOT_ENOUGH_SPACE, s)
      else
        (let oldtok = sc_curtok s
         in do {
           (rc, s) \<leftarrow> attr_loop s;
           if rc \<noteq> SML_ERR_OK then Some (rc, s)
           else
             (let s = snd (readBytes 1 s)
              in Some (SML_ERR_OK, s\<lparr>sc_curtok := oldtok\<rparr>))
         }))"

definition wbxmlSkipPI :: "wbxmlScanner \<Rightarrow> scan" where
  "wbxmlSkipPI s = wbxmlSkipAttribute s"

definition set_tag :: "XltTagID \<Rightarrow> bool \<Rightarrow> wbxmlScanner \<Rightarrow> wbxmlScanner" where
  "set_tag i has_cont s =
     s\<lparr>sc_curtok := (sc_curtok s)\<lparr>tok_tagid := i,
          tok_type := (if has_cont then TOK_TAG_START else TOK_TAG_EMPTY),
          tok_ext := page_ext (sc_cptag s)\<rparr>\<rparr>"

text \<open>\<open>tagstack->pop\<close> and \<open>tagstack->push\<close>; they allocate only when the array changes its size.\<close>

definition wbxmlPop :: "wbxmlScanner \<Rightarrow> (ret \<times> XltTagID option \<times> wbxmlScanner) option" where
  "wbxmlPop s = do {
     let (ok, g) = (if pop_shrinks (sc_tagstack s) then tok_malloc (sc_tok s) else (True, sc_tok s));
     (rc, tagid, st) \<leftarrow> stack_pop ok (sc_tagstack s);
     Some (rc, tagid, s\<lparr>sc_tok := g, sc_tagstack := st\<rparr>)
   }"

definition wbxmlPush :: "XltTagID \<Rightarrow> wbxmlScanner \<Rightarrow> scan" where
  "wbxmlPush i s = do {
     let (ok, g) = (if push_grows (sc_tagstack s) then tok_malloc (sc_tok s) else (True, sc_tok s));
     (rc, st) \<leftarrow> stack_push ok i (sc_tagstack s);
     Some (rc, s\<lparr>sc_tok := g, sc_tagstack := st\<rparr>)
   }"

text \<open>The end of a tag: the open tag comes from the stack.\<close>

definition wbxmlEndTag :: "wbxmlScanner \<Rightarrow> scan" where
  "wbxmlEndTag s =
     need 1 s (\<lambda>s. do {
       let s = s\<lparr>sc_curtok := (sc_curtok s)\<lparr>tok_type := TOK_TAG_END\<rparr>\<rparr>;
       (rc, tagid, s) \<leftarrow> wbxmlPop s;
       if rc = SML_ERR_WRONG_USAGE then Some (SML_ERR_XLT_INVAL_WBXML_DOC, s)
       else if rc \<noteq> SML_ERR_OK then Some (rc, s)
       else do {
         i \<leftarrow> tagid;
         Some (SML_ERR_OK, s\<lparr>sc_curtok := (sc_curtok s)\<lparr>tok_tagid := i\<rparr>\<rparr>)
       }
     })"

text \<open>The tag id of a literal or of a byte.\<close>

definition wbxmlTagId :: "byte \<Rightarrow> wbxmlScanner \<Rightarrow> (ret \<times> XltTagID option \<times> wbxmlScanner) option" where
  "wbxmlTagId b s =
     (if IS_LITERAL b then
        (case readBytes 1 s of (ok, s) \<Rightarrow>
           if \<not> ok then Some (SML_ERR_XLT_END_OF_BUFFER, None, s)
           else do {
             (rc, offset, s) \<leftarrow> parseInt s;
             if rc \<noteq> SML_ERR_OK then Some (rc, None, s)
             else if offset > sc_strtbllen s then Some (SML_ERR_XLT_INVAL_WBXML_DOC, None, s)
             else do {
               tbl \<leftarrow> sc_strtbl s;
               str \<leftarrow> string_at tbl offset;
               (rc, tagid, g) \<leftarrow> getTagIDByStringAndExt str (sc_activeExt s) (sc_tok s);
               Some (rc, tagid, s\<lparr>sc_tok := g\<rparr>)
             }
           })
      else do {
        (rc, tagid, g) \<leftarrow> getTagIDByByteAndExt (IDENTITY b) (sc_activeExt s) (sc_tok s);
        Some (rc, tagid, s\<lparr>sc_tok := g\<rparr>)
      })"

text \<open>After the tag byte: an open tag goes to the stack, its attributes are skipped.\<close>

definition wbxmlOpenTag :: "byte \<Rightarrow> XltTagID \<Rightarrow> wbxmlScanner \<Rightarrow> scan" where
  "wbxmlOpenTag b i s = do {
     (rc, s) \<leftarrow> (if HAS_CONTENT b then wbxmlPush i s else Some (SML_ERR_OK, s));
     if rc \<noteq> SML_ERR_OK then Some (rc, s)
     else if HAS_ATTRIBUTES b then do {
       (rc, s) \<leftarrow> wbxmlSkipAttribute (s\<lparr>sc_state := ATTRIBUTE_STATE\<rparr>);
       if rc \<noteq> SML_ERR_OK then Some (rc, s) else Some (SML_ERR_OK, s\<lparr>sc_state := TAG_STATE\<rparr>)
     }
     else Some (SML_ERR_OK, s)
   }"

definition wbxmlStartTag :: "byte \<Rightarrow> wbxmlScanner \<Rightarrow> scan" where
  "wbxmlStartTag b s = do {
     (rc, tagid, s) \<leftarrow> wbxmlTagId b s;
     if rc \<noteq> SML_ERR_OK \<or> tagid = Some TN_UNDEF then Some (rc, s)
     else do {
       i \<leftarrow> tagid;
       need 1 (set_tag i (HAS_CONTENT b) s) (wbxmlOpenTag b i)
     }
   }"

definition wbxmlTagToken :: "wbxmlScanner \<Rightarrow> scan" where
  "wbxmlTagToken s = do {
     b \<leftarrow> sc_cur s;
     (rc, s) \<leftarrow> (if IS_SWITCH b then wbxmlSwitchPage s else Some (SML_ERR_OK, s));
     if rc \<noteq> SML_ERR_OK then Some (rc, s)
     else do {
       b \<leftarrow> sc_cur s;
       if IS_END b then wbxmlEndTag s else wbxmlStartTag b s
     }
   }"

section \<open>Progress of tags\<close>

lemma attr_loop_keeps:
  "attr_loop s = Some (r, s') \<Longrightarrow>
     keeps s s' \<and> (r = SML_ERR_OK \<longrightarrow> (\<exists>b. sc_cur s' = Some b \<and> IS_END b))"
proof (induction s rule: attr_loop.induct)
  case (1 s)
  obtain b where b: "sc_cur s = Some b" using "1.prems" by (auto simp: attr_loop.simps split: option.splits)
  show ?case
  proof (cases "IS_END b")
    case True
    with "1.prems" b show ?thesis by (auto simp: attr_loop.simps)
  next
    case False
    obtain rc s1 where st: "attr_step b s = Some (rc, s1)"
      using "1.prems" b False by (auto simp: attr_loop.simps split: option.splits)
    then have k: "keeps s s1" using attr_step_advance [of s b] by (auto simp: all_advance_def advances_def)
    show ?thesis
    proof (cases "rc = SML_ERR_OK")
      case True
      with "1.prems" b False st have "attr_loop s1 = Some (r, s')" by (subst (asm) attr_loop.simps) simp
      with "1.IH" [OF b False st, of rc s1] True k keeps_trans show ?thesis by simp
    next
      case False
      with "1.prems" b \<open>\<not> IS_END b\<close> st k show ?thesis by (subst (asm) attr_loop.simps) auto
    qed
  qed
qed

lemma attr_loop_advances:
  assumes "attr_loop s = Some (r, s')" "sc_cur s = Some b" "\<not> IS_END b"
  shows "advances r s s'"
proof -
  obtain rc s1 where st: "attr_step b s = Some (rc, s1)"
    using assms by (auto simp: attr_loop.simps split: option.splits)
  then have a: "advances rc s s1" using attr_step_advance [of s b] by (auto simp: all_advance_def)
  show ?thesis
  proof (cases "rc = SML_ERR_OK")
    case True
    with assms st have "attr_loop s1 = Some (r, s')" by (subst (asm) attr_loop.simps) simp
    with attr_loop_keeps [OF this] a True show ?thesis by (auto simp: advances_def keeps_def)
  next
    case False
    with assms st a show ?thesis by (subst (asm) attr_loop.simps) auto
  qed
qed

lemma wbxmlSkipAttribute_keep: "all_keep s (wbxmlSkipAttribute s)"
  unfolding wbxmlSkipAttribute_def Let_def
proof (intro all_keep_malloc all_keep_bind keeps_refl)
  fix s1 x
  assume "keeps s s1" "attr_loop s1 = Some x"
  then have "keeps s (snd x)" using attr_loop_keeps [of s1 "fst x" "snd x"] keeps_trans by force
  then show "all_keep s (case x of (rc, sa) \<Rightarrow> if rc \<noteq> SML_ERR_OK then Some (rc, sa)
      else Some (SML_ERR_OK, snd (readBytes 1 sa)\<lparr>sc_curtok := sc_curtok s1\<rparr>))"
    by (cases x) (auto intro!: keep_rules)
qed

lemma wbxmlSkipAttribute_advance:
  assumes "sc_cur s = Some b" "\<not> IS_END b"
  shows "all_advance s (wbxmlSkipAttribute s)"
  unfolding wbxmlSkipAttribute_def Let_def all_advance_def
proof (intro allI impI)
  fix r s'
  obtain ok s1 where m: "sc_malloc s = (ok, s1)" by fastforce
  note fr = sc_malloc_frame [OF m] and k = sc_malloc_keeps [OF m]
  from fr assms have cur: "sc_cur s1 = Some b" by (simp add: sc_cur_def)
  assume res: "(case sc_malloc s of (ok, sa) \<Rightarrow> if \<not> ok then Some (SML_ERR_NOT_ENOUGH_SPACE, sa)
       else attr_loop sa \<bind> (\<lambda>(rc, sb). if rc \<noteq> SML_ERR_OK then Some (rc, sb)
         else Some (SML_ERR_OK, snd (readBytes 1 sb)\<lparr>sc_curtok := sc_curtok sa\<rparr>))) = Some (r, s')"
  show "advances r s s'"
  proof (cases ok)
    case False
    with res k show ?thesis by (auto simp: m advances_def)
  next
    case True
    with res obtain rc s2 where l: "attr_loop s1 = Some (rc, s2)"
      and r: "(if rc \<noteq> SML_ERR_OK then Some (rc, s2)
         else Some (SML_ERR_OK, snd (readBytes 1 s2)\<lparr>sc_curtok := sc_curtok s1\<rparr>)) = Some (r, s')"
      by (auto simp: m bind_eq_Some_conv)
    from attr_loop_advances [OF l cur assms(2)] have "advances rc s s2"
      using k fr keeps_trans by (auto simp: advances_def)
    with r readBytes_keeps [of 1 s2] show ?thesis
      by (auto simp: advances_def keeps_def split: if_splits)
  qed
qed

lemma wbxmlPop_keep: "wbxmlPop s = Some (rc, i, s') \<Longrightarrow> keeps s s'"
  by (auto simp: wbxmlPop_def keeps_def bind_eq_Some_conv split: prod.splits if_splits)

lemma wbxmlPush_keep: "all_keep s (wbxmlPush i s)"
  by (auto simp: all_keep_def wbxmlPush_def keeps_def bind_eq_Some_conv split: prod.splits if_splits)

lemma keeps_set_tag [keep_rules]: "keeps s0 s \<Longrightarrow> keeps s0 (set_tag i c s)"
  by (simp add: set_tag_def keeps_def)

lemma all_keep_trans: "keeps s0 s \<Longrightarrow> all_keep s m \<Longrightarrow> all_keep s0 m"
  using keeps_trans by (auto simp: all_keep_def)

lemma advances_trans: "keeps s0 s \<Longrightarrow> advances r s s' \<Longrightarrow> advances r s0 s'"
  unfolding advances_def using keeps_trans [of s0 s s'] by (auto simp: keeps_def)

lemma all_advance_trans: "keeps s0 s \<Longrightarrow> all_advance s m \<Longrightarrow> all_advance s0 m"
  unfolding all_advance_def using advances_trans by blast

lemma tag_walk_id: "tag_walk P ts = Some (Some t) \<Longrightarrow> tag_id t \<noteq> TN_UNDEF"
  by (induction ts) (auto split: if_splits)

lemma tag_lookup_id:
  assumes "tag_lookup P tag_id TN_UNDEF ext g = Some (SML_ERR_OK, v, g')"
  shows "v \<noteq> Some TN_UNDEF"
proof -
  obtain t g1 where t: "getTagTable ext g = (t, g1)" by fastforce
  with assms obtain ts x where "tag_walk P ts = Some (Some x)" "v = Some (tag_id x)"
    by (auto simp: tag_lookup_def bind_eq_Some_conv split: option.splits)
  with tag_walk_id show ?thesis by auto
qed

lemma literal_lookup_keep:
  assumes "(do { tbl \<leftarrow> sc_strtbl s; str \<leftarrow> string_at tbl v;
                 (rc, tagid, g) \<leftarrow> getTagIDByStringAndExt str (sc_activeExt s) (sc_tok s);
                 Some (rc, tagid, s\<lparr>sc_tok := g\<rparr>) }) = Some (rc, i, s')"
  shows "keeps s s' \<and> (rc = SML_ERR_OK \<longrightarrow> i \<noteq> Some TN_UNDEF)"
proof -
  from assms obtain str g where "getTagIDByStringAndExt str (sc_activeExt s) (sc_tok s) = Some (rc, i, g)"
    and s': "s' = s\<lparr>sc_tok := g\<rparr>" by (auto simp: bind_eq_Some_conv)
  then show ?thesis unfolding getTagIDByStringAndExt_def
    by (auto simp: keeps_def dest: tag_lookup_id)
qed

lemma wbxmlTagId_keep:
  assumes w: "wbxmlTagId b s = Some (rc, i, s')"
  shows "keeps s s' \<and> (rc = SML_ERR_OK \<longrightarrow> i \<noteq> Some TN_UNDEF)"
proof (cases "IS_LITERAL b")
  case lit: True
  obtain ok s1 where r: "readBytes 1 s = (ok, s1)" by fastforce
  from readBytes_keeps [of 1 s] r have k: "keeps s s1" by simp
  show ?thesis
  proof (cases ok)
    case False
    with w lit r k show ?thesis by (simp add: wbxmlTagId_def)
  next
    case ok: True
    with w lit r obtain rc1 v s2 where p: "parseInt s1 = Some (rc1, v, s2)"
      by (auto simp: wbxmlTagId_def bind_eq_Some_conv)
    with parseInt_keeps [OF p] k keeps_trans have k2: "keeps s s2" by blast
    show ?thesis
    proof (cases "rc1 \<noteq> SML_ERR_OK \<or> v > sc_strtbllen s2")
      case True
      with w lit r ok p k2 show ?thesis by (auto simp: wbxmlTagId_def split: if_splits)
    next
      case False
      with w lit r ok p have "(do { tbl \<leftarrow> sc_strtbl s2; str \<leftarrow> string_at tbl v;
                 (rc, tagid, g) \<leftarrow> getTagIDByStringAndExt str (sc_activeExt s2) (sc_tok s2);
                 Some (rc, tagid, s2\<lparr>sc_tok := g\<rparr>) }) = Some (rc, i, s')"
        by (simp add: wbxmlTagId_def)
      from literal_lookup_keep [OF this] k2 keeps_trans show ?thesis by blast
    qed
  qed
next
  case False
  with w obtain g where "getTagIDByByteAndExt (IDENTITY b) (sc_activeExt s) (sc_tok s) = Some (rc, i, g)"
    and s': "s' = s\<lparr>sc_tok := g\<rparr>" by (auto simp: wbxmlTagId_def bind_eq_Some_conv)
  then show ?thesis unfolding getTagIDByByteAndExt_def by (auto simp: keeps_def dest: tag_lookup_id)
qed

lemma wbxmlEndTag_advance: "all_advance s (wbxmlEndTag s)"
  unfolding wbxmlEndTag_def Let_def
proof (rule all_advance_need)
  fix s1
  have "keeps s1 s2" if "wbxmlPop (s1\<lparr>sc_curtok := t\<rparr>) = Some (rc, i, s2)" for t rc i s2
    using wbxmlPop_keep [OF that] by (simp add: keeps_def)
  then show "all_keep s1 (wbxmlPop (s1\<lparr>sc_curtok := (sc_curtok s1)\<lparr>tok_type := TOK_TAG_END\<rparr>\<rparr>) \<bind>
      (\<lambda>(rc, tagid, s). if rc = SML_ERR_WRONG_USAGE then Some (SML_ERR_XLT_INVAL_WBXML_DOC, s)
        else if rc \<noteq> SML_ERR_OK then Some (rc, s)
        else tagid \<bind> (\<lambda>i. Some (SML_ERR_OK, s\<lparr>sc_curtok := (sc_curtok s)\<lparr>tok_tagid := i\<rparr>\<rparr>))))"
    by (intro all_keep_bind) (auto intro!: keep_rules)
qed simp

lemma wbxmlOpenTag_keep: "all_keep s (wbxmlOpenTag b i s)"
  unfolding wbxmlOpenTag_def
proof (rule all_keep_bind, clarify)
  fix rc s1
  assume "(if HAS_CONTENT b then wbxmlPush i s else Some (SML_ERR_OK, s)) = Some (rc, s1)"
  then have k: "keeps s s1" using wbxmlPush_keep [of s i] by (auto simp: all_keep_def split: if_splits)
  have "all_keep s (wbxmlSkipAttribute (s1\<lparr>sc_state := ATTRIBUTE_STATE\<rparr>))"
    by (rule all_keep_trans [OF _ wbxmlSkipAttribute_keep]) (rule keep_rules k)+
  then have "all_keep s (wbxmlSkipAttribute (s1\<lparr>sc_state := ATTRIBUTE_STATE\<rparr>) \<bind>
      (\<lambda>(rc, s). if rc \<noteq> SML_ERR_OK then Some (rc, s) else Some (SML_ERR_OK, s\<lparr>sc_state := TAG_STATE\<rparr>)))"
    by (intro all_keep_bind) (auto simp: all_keep_def keeps_def split: if_splits)
  with k show "all_keep s (if rc \<noteq> SML_ERR_OK then Some (rc, s1)
       else if HAS_ATTRIBUTES b then wbxmlSkipAttribute (s1\<lparr>sc_state := ATTRIBUTE_STATE\<rparr>) \<bind>
         (\<lambda>(rc, s). if rc \<noteq> SML_ERR_OK then Some (rc, s) else Some (SML_ERR_OK, s\<lparr>sc_state := TAG_STATE\<rparr>))
       else Some (SML_ERR_OK, s1))"
    by (simp add: all_keep_Some)
qed

lemma wbxmlStartTag_advance: "all_advance s (wbxmlStartTag b s)"
  unfolding wbxmlStartTag_def
proof (rule all_advance_bind, clarify)
  fix rc tagid s1
  assume "wbxmlTagId b s = Some (rc, tagid, s1)"
  note k = wbxmlTagId_keep [OF this]
  have "all_advance s (need 1 (set_tag i (HAS_CONTENT b) s1) (wbxmlOpenTag b i))" for i
    by (rule all_advance_trans [OF _ all_advance_need])
       (use k in \<open>auto intro!: keep_rules wbxmlOpenTag_keep\<close>)
  with k show "all_advance s (if rc \<noteq> SML_ERR_OK \<or> tagid = Some TN_UNDEF then Some (rc, s1)
       else tagid \<bind> (\<lambda>i. need 1 (set_tag i (HAS_CONTENT b) s1) (wbxmlOpenTag b i)))"
    by (cases tagid) (auto simp: all_advance_def advances_def)
qed

lemma wbxmlTagToken_advance: "all_advance s (wbxmlTagToken s)"
  unfolding wbxmlTagToken_def
proof (intro all_advance_bind, clarify)
  fix b rc s1
  assume "(if IS_SWITCH b then wbxmlSwitchPage s else Some (SML_ERR_OK, s)) = Some (rc, s1)"
  then have k: "keeps s s1" "rc \<noteq> SML_ERR_OK \<Longrightarrow> advances rc s s1"
    using wbxmlSwitchPage_advance [of s] by (auto simp: all_advance_def advances_def split: if_splits)
  have "all_advance s (sc_cur s1 \<bind> (\<lambda>b. if IS_END b then wbxmlEndTag s1 else wbxmlStartTag b s1))"
    by (rule all_advance_trans [OF k(1)])
       (intro all_advance_bind all_advance_if wbxmlEndTag_advance wbxmlStartTag_advance)
  with k(2) show "all_advance s (if rc \<noteq> SML_ERR_OK then Some (rc, s1)
       else sc_cur s1 \<bind> (\<lambda>b. if IS_END b then wbxmlEndTag s1 else wbxmlStartTag b s1))"
    by (simp add: all_advance_def)
qed

section \<open>The next token\<close>

definition skip_step :: "byte \<Rightarrow> wbxmlScanner \<Rightarrow> scan" where
  "skip_step b s =
     (if IS_PI b then wbxmlSkipPI s
      else if IS_EXTENSION b then wbxmlSkipExtension s
      else wbxmlSkipEntity s)"

definition token_step :: "byte \<Rightarrow> wbxmlScanner \<Rightarrow> scan" where
  "token_step b s =
     (if IS_STRING b then wbxmlStringToken s
      else if IS_OPAQUE b then wbxmlOpaqueToken s
      else wbxmlTagToken s)"

lemma skip_step_advance: "sc_cur s = Some b \<Longrightarrow> all_advance s (skip_step b s)"
  unfolding skip_step_def wbxmlSkipPI_def
  by (intro all_advance_if wbxmlSkipExtension_advance wbxmlSkipEntity_advance
      wbxmlSkipAttribute_advance) (auto simp: token_classes)

lemma token_step_advance: "all_advance s (token_step b s)"
  unfolding token_step_def
  by (intro all_advance_if wbxmlStringToken_advance wbxmlOpaqueToken_advance wbxmlTagToken_advance)

function nextTok_loop :: "wbxmlScanner \<Rightarrow> scan" where
  "nextTok_loop s =
     (case sc_cur s of
        None \<Rightarrow> None
      | Some b \<Rightarrow>
          if IS_PI b \<or> IS_EXTENSION b \<or> IS_ENTITY b then
            (case skip_step b s of
               None \<Rightarrow> None
             | Some (rc, s') \<Rightarrow> if rc \<noteq> SML_ERR_OK then Some (rc, s') else nextTok_loop s')
          else token_step b s)"
  by pat_completeness auto
termination
proof (relation "measure (\<lambda>s. nat (sc_bufend s - sc_pos s))", goal_cases)
  case (2 s b x rc s')
  then have "advances SML_ERR_OK s s'"
    using skip_step_advance [of s b] by (auto simp: all_advance_def)
  then show ?case by (auto simp: advances_def keeps_def)
qed simp

declare nextTok_loop.simps [simp del]

definition nextTok :: "wbxmlScanner \<Rightarrow> scan" where
  "nextTok s = nextTok_loop (s\<lparr>sc_curtok := zero_token\<lparr>tok_start := Some (sc_pos s)\<rparr>\<rparr>)"

definition pushTok :: "wbxmlScanner \<Rightarrow> scan" where
  "pushTok s =
     (case tok_start (sc_curtok s) of
        None \<Rightarrow> Some (SML_ERR_WRONG_USAGE, s)
      | Some p \<Rightarrow> do {
          let s = s\<lparr>sc_pos := p\<rparr>;
          (rc, s) \<leftarrow>
            (if tok_type (sc_curtok s) = TOK_TAG_START then do { (rc, i, s) \<leftarrow> wbxmlPop s; Some (rc, s) }
             else if tok_type (sc_curtok s) = TOK_TAG_END then wbxmlPush (tok_tagid (sc_curtok s)) s
             else Some (SML_ERR_OK, s));
          if rc \<noteq> SML_ERR_OK then Some (rc, s)
          else Some (SML_ERR_OK, s\<lparr>sc_curtok := (sc_curtok s)\<lparr>tok_type := TOK_UNDEF\<rparr>\<rparr>)
        })"

definition setBuf :: "byte list \<Rightarrow> int \<Rightarrow> int \<Rightarrow> wbxmlScanner \<Rightarrow> wbxmlScanner" where
  "setBuf m start end s = s\<lparr>sc_mem := m, sc_pos := start, sc_bufend := end\<rparr>"

definition getPos :: "wbxmlScanner \<Rightarrow> int" where
  "getPos s = sc_pos s"

section \<open>The document header\<close>

definition MAJOR_VERSION :: byte where "MAJOR_VERSION = 1"
definition MINOR_VERSION :: byte where "MINOR_VERSION = 2"

definition wbxmlVersion :: "wbxmlScanner \<Rightarrow> scan" where
  "wbxmlVersion s = do {
     b \<leftarrow> sc_cur s;
     let minor = b AND 0x0F;
     let major = drop_bit 4 b + 1;
     if major \<noteq> MAJOR_VERSION \<or> minor > MINOR_VERSION then Some (SML_ERR_XLT_INCOMP_WBXML_VERS, s)
     else need 1 s (\<lambda>s. Some (SML_ERR_OK, s))
   }"

definition wbxmlPublicID :: "wbxmlScanner \<Rightarrow> scan" where
  "wbxmlPublicID s = do {
     b \<leftarrow> sc_cur s;
     if b \<noteq> 0 then
       on_ok (parseInt s) (\<lambda>tmp s.
         need 1 (s\<lparr>sc_pubID := tmp, sc_pubIDIdx := 0\<rparr>) (\<lambda>s. Some (SML_ERR_OK, s)))
     else
       need 1 s (\<lambda>s. on_ok (parseInt s) (\<lambda>tmp s.
         need 1 (s\<lparr>sc_pubID := 0, sc_pubIDIdx := tmp\<rparr>) (\<lambda>s. Some (SML_ERR_OK, s))))
   }"

definition wbxmlCharset :: "wbxmlScanner \<Rightarrow> scan" where
  "wbxmlCharset s =
     on_ok (parseInt s) (\<lambda>mibenum s. need 1 (s\<lparr>sc_charset := mibenum\<rparr>) (\<lambda>s. Some (SML_ERR_OK, s)))"

definition wbxmlPubIDStr :: "wbxmlScanner \<Rightarrow> scan" where
  "wbxmlPubIDStr s =
     (if sc_pubID s = 0 then
        (if sc_pubIDIdx s > sc_strtbllen s then Some (SML_ERR_XLT_INVAL_WBXML_DOC, s)
         else Some (SML_ERR_OK, s\<lparr>sc_pubIDStr := Some (sc_pubIDIdx s)\<rparr>))
      else Some (SML_ERR_OK, s))"

definition wbxmlStrtbl :: "wbxmlScanner \<Rightarrow> scan" where
  "wbxmlStrtbl s =
     on_ok (parseInt s) (\<lambda>len s. need 1 s (\<lambda>s.
       let s = s\<lparr>sc_strtbllen := len\<rparr>
       in if len > 0 then
            (if sc_pos s + len > sc_bufend s then Some (SML_ERR_XLT_END_OF_BUFFER, s)
             else
               (case sc_malloc s of (ok, s) \<Rightarrow>
                  if \<not> ok then Some (SML_ERR_NOT_ENOUGH_SPACE, s)
                  else do {
                    bs \<leftarrow> bytes_at (sc_mem s) (sc_pos s) len;
                    wbxmlPubIDStr (snd (readBytes len (s\<lparr>sc_strtbl := Some bs\<rparr>)))
                  }))
          else wbxmlPubIDStr (s\<lparr>sc_strtbl := None\<rparr>)))"

definition and_then :: "scan \<Rightarrow> (wbxmlScanner \<Rightarrow> scan) \<Rightarrow> scan" where
  "and_then m k = do { (rc, s) \<leftarrow> m; if rc \<noteq> SML_ERR_OK then Some (rc, s) else k s }"

definition wbxmlHeader :: "wbxmlScanner \<Rightarrow> scan" where
  "wbxmlHeader s =
     and_then (wbxmlVersion s) (\<lambda>s. and_then (wbxmlPublicID s) (\<lambda>s.
       and_then (wbxmlCharset s) wbxmlStrtbl))"

text \<open>
  \<open>xltDecWbxmlInit\<close>: the scanner, the token and the two blocks of the stack are allocated, in this
  order; when the header is refused the scanner is destroyed again.
\<close>

definition scanner_init :: "byte list \<Rightarrow> int \<Rightarrow> int \<Rightarrow> XltTagID ArrayStack \<Rightarrow> TokTbl \<Rightarrow> wbxmlScanner" where
  "scanner_init m end start st g =
     \<lparr>sc_mem = m, sc_curtok = zero_token, sc_charset = 0, sc_pubID = 0, sc_pubIDStr = None,
      sc_finished = False, sc_pos = start, sc_bufend = end, sc_pubIDIdx = 0, sc_tagstack = st,
      sc_strtbl = None, sc_strtbllen = 0, sc_state = TAG_STATE, sc_cptag = 0, sc_cpattr = 0,
      sc_activeExt = SML_EXT_UNDEFINED, sc_tok = g\<rparr>"

definition wbxml_destroy :: "wbxmlScanner option \<Rightarrow> ret \<times> wbxmlScanner option" where
  "wbxml_destroy p = (case p of None \<Rightarrow> (SML_ERR_OK, None) | Some s \<Rightarrow> (SML_ERR_OK, None))"

definition xltDecWbxmlInit ::
    "byte list \<Rightarrow> int \<Rightarrow> int \<Rightarrow> TokTbl \<Rightarrow> (ret \<times> wbxmlScanner option \<times> TokTbl) option" where
  "xltDecWbxmlInit m end start g =
     (let (ok, g) = tok_malloc g
      in if \<not> ok then Some (SML_ERR_NOT_ENOUGH_SPACE, None, g)
      else
        (let (ok, g) = tok_malloc g
         in if \<not> ok then Some (SML_ERR_NOT_ENOUGH_SPACE, None, g)
         else
           (let (al1, g) = tok_malloc g;
                (al2, g) = (if al1 then tok_malloc g else (False, g))
            in case xltUtilCreateStack al1 al2 10 of
                 (rc, None) \<Rightarrow> Some (rc, None, g)
               | (rc, Some st) \<Rightarrow> do {
                   (rc, s) \<leftarrow> wbxmlHeader (scanner_init m end start st g);
                   if rc \<noteq> SML_ERR_OK then Some (rc, snd (wbxml_destroy (Some s)), sc_tok s)
                   else Some (SML_ERR_OK, Some s, sc_tok s)
                 })))"

lemma nextTok_loop_advance: "nextTok_loop s = Some (r, s') \<Longrightarrow> advances r s s'"
proof (induction s rule: nextTok_loop.induct)
  case (1 s)
  obtain b where b: "sc_cur s = Some b" using "1.prems" by (auto simp: nextTok_loop.simps split: option.splits)
  show ?case
  proof (cases "IS_PI b \<or> IS_EXTENSION b \<or> IS_ENTITY b")
    case False
    with "1.prems" b have "token_step b s = Some (r, s')" by (simp add: nextTok_loop.simps)
    with token_step_advance [of s b] show ?thesis by (simp add: all_advance_def)
  next
    case sk: True
    with "1.prems" b obtain rc s1 where st: "skip_step b s = Some (rc, s1)"
      by (auto simp: nextTok_loop.simps split: option.splits)
    with skip_step_advance [OF b] have a: "advances rc s s1" by (simp add: all_advance_def)
    show ?thesis
    proof (cases "rc = SML_ERR_OK")
      case True
      with "1.prems" b sk st have "nextTok_loop s1 = Some (r, s')"
        by (subst (asm) nextTok_loop.simps) simp
      with "1.IH" [OF b sk st, of rc s1] True have "advances r s1 s'" by simp
      with a show ?thesis using advances_trans advances_def by blast
    next
      case False
      with "1.prems" b sk st a show ?thesis by (subst (asm) nextTok_loop.simps) auto
    qed
  qed
qed

lemma nextTok_advance: "nextTok s = Some (r, s') \<Longrightarrow> advances r s s'"
  unfolding nextTok_def by (drule nextTok_loop_advance) (simp add: advances_def keeps_def)

end
