(* ===== verification/Sml_Elements.thy ===== *)
theory Sml_Elements
  imports Generators Wbxml_Scanner
begin

text \<open>
  The SyncML elements that the encoder writes and the decoder builds: \<open>smldtd.h\<close>,
  \<open>smlmetinfdtd.h\<close>, \<open>smldevinfdtd.h\<close> and \<open>smldmtnddtd.h\<close>.

  A pointer to an optional element is an \<open>option\<close>, a null-terminated linked list a list (the null
  pointer is the empty list) whose entries may hold null pointers again, and a \<open>Flag_t\<close> a 16-bit word.
  The field \<open>elementType\<close>, which only the dispatcher reads, is left out.
\<close>

type_synonym Flag = "16 word"

abbreviation (input) SmlArchive_f :: Flag where "SmlArchive_f \<equiv> 0x8000"
abbreviation (input) SmlSftDel_f :: Flag where "SmlSftDel_f \<equiv> 0x4000"
abbreviation (input) SmlMoreData_f :: Flag where "SmlMoreData_f \<equiv> 0x0400"
abbreviation (input) SmlNoResults_f :: Flag where "SmlNoResults_f \<equiv> 0x0200"
abbreviation (input) SmlNoResp_f :: Flag where "SmlNoResp_f \<equiv> 0x0100"
abbreviation (input) SmlFinal_f :: Flag where "SmlFinal_f \<equiv> 0x0001"
abbreviation (input) SmlMetInfSharedMem_f :: Flag where "SmlMetInfSharedMem_f \<equiv> 0x0002"
abbreviation (input) SmlDevInfSharedMem_f :: Flag where "SmlDevInfSharedMem_f \<equiv> 0x0004"
abbreviation (input) SmlDevInfUTC_f :: Flag where "SmlDevInfUTC_f \<equiv> 0x0001"
abbreviation (input) SmlDevInfNOfM_f :: Flag where "SmlDevInfNOfM_f \<equiv> 0x0002"
abbreviation (input) SmlDevInfLargeObject_f :: Flag where "SmlDevInfLargeObject_f \<equiv> 0x0008"

datatype XltRO = OPTIONAL | REQUIRED

section \<open>Character data\<close>

text \<open>
  \<open>SmlPcdata_t\<close>, with the type of what \<open>content\<close> points to as a parameter: the data of a leaf of a
  sub-DTD are bytes, the data of a SyncML element are bytes or the root of a sub-DTD.
\<close>

record 'c Pcdata =
  pd_contentType :: SmlPcdataType
  pd_extension :: SmlPcdataExtension
  pd_length :: int
  pd_content :: "'c option"

type_synonym leaf = "byte list Pcdata"

section \<open>Meta information\<close>

record SmlMetInfAnchor =
  mia_last :: "leaf option"
  mia_next :: "leaf option"

record SmlMetInfMem =
  mim_shared :: "leaf option"
  mim_free :: "leaf option"
  mim_freeid :: "leaf option"

record SmlMetInfMetInf =
  mi_format :: "leaf option"
  mi_type :: "leaf option"
  mi_mark :: "leaf option"
  mi_size :: "leaf option"
  mi_nextnonce :: "leaf option"
  mi_version :: "leaf option"
  mi_maxmsgsize :: "leaf option"
  mi_maxobjsize :: "leaf option"
  mi_mem :: "SmlMetInfMem option"
  mi_emi :: "leaf option list"
  mi_anchor :: "SmlMetInfAnchor option"

section \<open>Device information\<close>

record SmlDevInfExt =
  dix_xnam :: "leaf option"
  dix_xval :: "leaf option list"

record SmlDevInfSyncCap =
  dis_synctype :: "leaf option list"

record SmlDevInfCTData =
  did_name :: "leaf option"
  did_dname :: "leaf option"
  did_valenum :: "leaf option list"
  did_datatype :: "leaf option"
  did_size :: "leaf option"

record SmlDevInfCTDataProp =
  dip_prop :: "SmlDevInfCTData option"
  dip_param :: "SmlDevInfCTData option list"

record SmlDevInfCTCap =
  dic_cttype :: "leaf option"
  dic_prop :: "SmlDevInfCTDataProp option list"

record SmlDevInfDSMem =
  dim_flags :: Flag
  dim_maxmem :: "leaf option"
  dim_maxid :: "leaf option"

record SmlDevInfXmit =
  dit_cttype :: "leaf option"
  dit_verct :: "leaf option"

record SmlDevInfDatastore =
  ds_sourceref :: "leaf option"
  ds_displayname :: "leaf option"
  ds_maxguidsize :: "leaf option"
  ds_rxpref :: "SmlDevInfXmit option"
  ds_rx :: "SmlDevInfXmit option list"
  ds_txpref :: "SmlDevInfXmit option"
  ds_tx :: "SmlDevInfXmit option list"
  ds_dsmem :: "SmlDevInfDSMem option"
  ds_synccap :: "SmlDevInfSyncCap option"

record SmlDevInfDevInf =
  di_verdtd :: "leaf option"
  di_man :: "leaf option"
  di_mod :: "leaf option"
  di_oem :: "leaf option"
  di_fwv :: "leaf option"
  di_swv :: "leaf option"
  di_hwv :: "leaf option"
  di_devid :: "leaf option"
  di_devtyp :: "leaf option"
  di_datastore :: "SmlDevInfDatastore option list"
  di_ctcap :: "SmlDevInfCTCap option list"
  di_ext :: "SmlDevInfExt option list"
  di_flags :: Flag

section \<open>The tree and description serialisation of management nodes\<close>

record SmlDmTndFormat =
  tf_value :: "leaf option"

record SmlDmTndType =
  tt_mime :: "leaf option"
  tt_ddfname :: "leaf option"

record SmlDmTndRTProps =
  rt_acl :: "leaf option"
  rt_format :: "SmlDmTndFormat option"
  rt_name :: "leaf option"
  rt_size :: "leaf option"
  rt_title :: "leaf option"
  rt_tstamp :: "leaf option"
  rt_type :: "SmlDmTndType option"
  rt_verno :: "leaf option"

record SmlDmTndDFElement =
  df_value :: "leaf option"

text \<open>
  The field \<open>defaultvalue\<close> is declared as character data, but the decoder stores a format in it; it
  has the type of what is stored.
\<close>

record SmlDmTndDFProps =
  dp_accesstype :: "SmlDmTndDFElement option"
  dp_defaultvalue :: "SmlDmTndFormat option"
  dp_description :: "leaf option"
  dp_dfformat :: "SmlDmTndFormat option"
  dp_occurrence :: "SmlDmTndDFElement option"
  dp_scope :: "SmlDmTndDFElement option"
  dp_dftitle :: "leaf option"
  dp_dftype :: "SmlDmTndType option"
  dp_casesense :: "SmlDmTndDFElement option"

text \<open>A node holds the list of its children.\<close>

datatype SmlDmTndNode =
  DmTndNode (nd_nodename: "leaf option") (nd_path: "leaf option") (nd_rtprops: "SmlDmTndRTProps option")
    (nd_dfprops: "SmlDmTndDFProps option") (nd_value: "leaf option") (nd_nodelist: "SmlDmTndNode option list")

record SmlDmTnd =
  tnd_verdtd :: "leaf option"
  tnd_man :: "leaf option"
  tnd_mod :: "leaf option"
  tnd_nodelist :: "SmlDmTndNode option list"

section \<open>SyncML elements\<close>

datatype sml_content =
  C_bytes "byte list" | C_metinf SmlMetInfMetInf | C_devinf SmlDevInfDevInf | C_dmtnd SmlDmTnd

type_synonym data = "sml_content Pcdata"

record SmlChal =
  chal_meta :: "data option"

record SmlCred =
  cred_meta :: "data option"
  cred_data :: "data option"

record SmlTarget =
  tgt_locURI :: "data option"
  tgt_locName :: "data option"

record SmlSyncHdr =
  hdr_version :: "data option"
  hdr_proto :: "data option"
  hdr_sessionID :: "data option"
  hdr_msgID :: "data option"
  hdr_flags :: Flag
  hdr_target :: "SmlTarget option"
  hdr_source :: "SmlTarget option"
  hdr_respURI :: "data option"
  hdr_cred :: "SmlCred option"
  hdr_meta :: "data option"

record SmlItem =
  item_target :: "SmlTarget option"
  item_source :: "SmlTarget option"
  item_meta :: "data option"
  item_data :: "data option"
  item_flags :: Flag

record SmlGenericCmd =
  gen_cmdID :: "data option"
  gen_flags :: Flag
  gen_cred :: "SmlCred option"
  gen_meta :: "data option"
  gen_itemList :: "SmlItem option list"

record SmlAlert =
  al_cmdID :: "data option"
  al_flags :: Flag
  al_cred :: "SmlCred option"
  al_data :: "data option"
  al_itemList :: "SmlItem option list"
  al_correlator :: "data option"

record SmlAtomic =
  at_cmdID :: "data option"
  at_flags :: Flag
  at_meta :: "data option"

record SmlSync =
  sy_cmdID :: "data option"
  sy_flags :: Flag
  sy_cred :: "SmlCred option"
  sy_target :: "SmlTarget option"
  sy_source :: "SmlTarget option"
  sy_meta :: "data option"
  sy_noc :: "data option"

record SmlExec =
  ex_cmdID :: "data option"
  ex_flags :: Flag
  ex_cred :: "SmlCred option"
  ex_meta :: "data option"
  ex_item :: "SmlItem option"
  ex_correlator :: "data option"

record SmlGetPut =
  gp_cmdID :: "data option"
  gp_flags :: Flag
  gp_lang :: "data option"
  gp_cred :: "SmlCred option"
  gp_meta :: "data option"
  gp_itemList :: "SmlItem option list"

record SmlMapItem =
  mpi_target :: "SmlTarget option"
  mpi_source :: "SmlTarget option"

record SmlMap =
  mp_cmdID :: "data option"
  mp_target :: "SmlTarget option"
  mp_source :: "SmlTarget option"
  mp_cred :: "SmlCred option"
  mp_meta :: "data option"
  mp_mapItemList :: "SmlMapItem option list"

record SmlResults =
  rs_cmdID :: "data option"
  rs_msgRef :: "data option"
  rs_cmdRef :: "data option"
  rs_meta :: "data option"
  rs_targetRef :: "data option"
  rs_sourceRef :: "data option"
  rs_itemList :: "SmlItem option list"

record SmlSearch =
  se_cmdID :: "data option"
  se_flags :: Flag
  se_cred :: "SmlCred option"
  se_target :: "SmlTarget option"
  se_sourceList :: "SmlTarget option list"
  se_lang :: "data option"
  se_meta :: "data option"
  se_data :: "data option"

record SmlStatus =
  st_cmdID :: "data option"
  st_msgRef :: "data option"
  st_cmdRef :: "data option"
  st_cmd :: "data option"
  st_targetRefList :: "data option list"
  st_sourceRefList :: "data option list"
  st_cred :: "SmlCred option"
  st_chal :: "SmlChal option"
  st_data :: "data option"
  st_itemList :: "SmlItem option list"

text \<open>What the untyped content pointer of \<open>xltEncBlock\<close> points to.\<close>

datatype sml_elem =
    El_pcdata data | El_flags Flag | El_chal SmlChal | El_cred SmlCred | El_target SmlTarget
  | El_item SmlItem | El_hdr SmlSyncHdr | El_generic SmlGenericCmd | El_alert SmlAlert
  | El_atomic SmlAtomic | El_sync SmlSync | El_exec SmlExec | El_getput SmlGetPut
  | El_mapitem SmlMapItem | El_map SmlMap | El_results SmlResults | El_search SmlSearch
  | El_status SmlStatus

datatype SmlProtoElement =
    SML_PE_UNDEF | SML_PE_ERROR | SML_PE_ADD | SML_PE_ALERT | SML_PE_ATOMIC_START | SML_PE_ATOMIC_END
  | SML_PE_COPY | SML_PE_DELETE | SML_PE_EXEC | SML_PE_GET | SML_PE_MAP | SML_PE_PUT | SML_PE_RESULTS
  | SML_PE_SEARCH | SML_PE_SEQUENCE_START | SML_PE_SEQUENCE_END | SML_PE_STATUS | SML_PE_SYNC_START
  | SML_PE_SYNC_END | SML_PE_REPLACE | SML_PE_HEADER | SML_PE_PUT_GET | SML_PE_CMD_GROUP
  | SML_PE_GENERIC | SML_PE_FINAL

end
