(* ===== verification/Decoder_Core.thy ===== *)
theory Decoder_Core
  imports Sml_Elements
begin

text \<open>
  The frame of the document decoder \<open>xltdec.c\<close>: the decoder object, its tokens and its tag stack, the
  loop that every builder runs over its child elements, and character data.

  The scanner is the WBXML scanner of \<open>Wbxml_Scanner\<close>. \<open>None\<close> is a read or write outside a block, or
  of a freed one, an overflow of a signed integer, and a loop that never ends. What a builder has made of
  a structure is not visible when it returns an error, because the code frees it. That an error path may
  free a block twice is not part of the model: the token keeps the pointer to the last character data
  although a structure owns them, \<open>buildTargetOrSource\<close> frees the data of the token, and
  \<open>buildDmTndFormatCmd\<close> frees the name of the format and then the structure that holds it.
\<close>

section \<open>The decoder object\<close>

text \<open>
  What the code reads although it has not written it. \<open>xltDecInit\<close> leaves \<open>smlEncoding\<close> and
  \<open>tndsEncoding\<close> as \<open>malloc\<close> returned them, because it initialises them under the macro \<open>__DM_TND__\<close>,
  which nothing defines, while the members exist and are read under \<open>__USE_DMTND__\<close>; the decoder of an
  inlined document does the same. A string from the string table has no \<open>extension\<close>. \<open>hp_block\<close> is the
  size of the smallest block that the allocator hands out, counted in pointers.
\<close>

record Heap =
  hp_encodings :: "int \<times> int"
  hp_sub_encodings :: "int \<times> int"
  hp_extension :: SmlPcdataExtension
  hp_block :: nat

record XltDecoder =
  xd_charset :: int
  xd_finished :: bool
  xd_final :: bool
  xd_scanner :: wbxmlScanner
  xd_tagstack :: "XltTagID ArrayStack"
  xd_smlEncoding :: int
  xd_tndsEncoding :: int
  xd_heap :: Heap

text \<open>The values of \<open>SmlEncoding_t\<close>.\<close>

abbreviation (input) enc_WBXML :: int where "enc_WBXML \<equiv> 1"
abbreviation (input) enc_XML :: int where "enc_XML \<equiv> 2"

definition curtok :: "XltDecoder \<Rightarrow> XltDecToken" where
  "curtok d = sc_curtok (xd_scanner d)"

definition IS_START :: "XltDecToken \<Rightarrow> bool" where "IS_START t \<longleftrightarrow> tok_type t = TOK_TAG_START"
definition IS_END_TOK :: "XltDecToken \<Rightarrow> bool" where "IS_END_TOK t \<longleftrightarrow> tok_type t = TOK_TAG_END"
definition IS_EMPTY :: "XltDecToken \<Rightarrow> bool" where "IS_EMPTY t \<longleftrightarrow> tok_type t = TOK_TAG_EMPTY"
definition IS_START_OR_EMPTY :: "XltDecToken \<Rightarrow> bool" where "IS_START_OR_EMPTY t \<longleftrightarrow> IS_START t \<or> IS_EMPTY t"
definition IS_CONTENT :: "XltDecToken \<Rightarrow> bool" where "IS_CONTENT t \<longleftrightarrow> tok_type t = TOK_CONT"

lemmas tok_classes = IS_START_def IS_END_TOK_def IS_EMPTY_def IS_START_OR_EMPTY_def IS_CONTENT_def

definition dec_malloc :: "XltDecoder \<Rightarrow> bool \<times> XltDecoder" where
  "dec_malloc d = (let (ok, s) = sc_malloc (xd_scanner d) in (ok, d\<lparr>xd_scanner := s\<rparr>))"

type_synonym dec = "(ret \<times> XltDecoder) option"

text \<open>A builder: the old value of \<open>*ppElem\<close>, and the new one.\<close>

type_synonym 'a builder = "'a option \<Rightarrow> XltDecoder \<Rightarrow> (ret \<times> 'a option \<times> XltDecoder) option"

text \<open>\<open>tagstack->push\<close> and \<open>tagstack->pop\<close>; they allocate only when the array changes its size.\<close>

definition dec_push :: "XltTagID \<Rightarrow> XltDecoder \<Rightarrow> dec" where
  "dec_push i d = do {
     let (ok, d) = (if push_grows (xd_tagstack d) then dec_malloc d else (True, d));
     (rc, st) \<leftarrow> stack_push ok i (xd_tagstack d);
     Some (rc, d\<lparr>xd_tagstack := st\<rparr>)
   }"

definition dec_pop :: "XltDecoder \<Rightarrow> (ret \<times> XltTagID option \<times> XltDecoder) option" where
  "dec_pop d = do {
     let (ok, d) = (if pop_shrinks (xd_tagstack d) then dec_malloc d else (True, d));
     (rc, tagid, st) \<leftarrow> stack_pop ok (xd_tagstack d);
     Some (rc, tagid, d\<lparr>xd_tagstack := st\<rparr>)
   }"

section \<open>Tokens\<close>

definition nextToken :: "XltDecoder \<Rightarrow> dec" where
  "nextToken d =
     (if xd_smlEncoding d \<noteq> xd_tndsEncoding d then Some (SML_ERR_OK, d)
      else do {
        (rc, s) \<leftarrow> nextTok (xd_scanner d);
        let d = d\<lparr>xd_scanner := s\<rparr>;
        if rc \<noteq> SML_ERR_OK then Some (rc, d)
        else if IS_START (curtok d) then do {
          (rc, d) \<leftarrow> dec_push (tok_tagid (curtok d)) d;
          Some (if rc \<noteq> SML_ERR_OK then SML_ERR_UNSPECIFIC else SML_ERR_OK, d)
        }
        else if IS_END_TOK (curtok d) then do {
          (rc, lastopen, d) \<leftarrow> dec_pop d;
          if rc \<noteq> SML_ERR_OK then Some (SML_ERR_UNSPECIFIC, d)
          else do {
            i \<leftarrow> lastopen;
            Some (if tok_tagid (curtok d) \<noteq> i then SML_ERR_XLT_INVAL_SYNCML_DOC else SML_ERR_OK, d)
          }
        }
        else Some (SML_ERR_OK, d)
      })"

text \<open>Going back one token pops the tag stack of the decoder whether or not the token had been pushed.\<close>

definition dec_pushTok :: "XltDecoder \<Rightarrow> dec" where
  "dec_pushTok d = do { (rc, s) \<leftarrow> pushTok (xd_scanner d); Some (rc, d\<lparr>xd_scanner := s\<rparr>) }"

definition discardToken :: "XltDecoder \<Rightarrow> dec" where
  "discardToken d = do {
     (rc, d) \<leftarrow> dec_pushTok d;
     if rc \<noteq> SML_ERR_OK then Some (rc, d)
     else do {
       (rc, tmp, d) \<leftarrow> dec_pop d;
       Some (rc, d)
     }
   }"

section \<open>The loop over the child elements\<close>

text \<open>
  \<open>while (curtok->type != TOK_TAG_END) { switch (curtok->tagid) ... nextToken(); }\<close>. The \<open>switch\<close> is a
  table from tags to what their case does; another tag is the default case, an invalid document. \<open>seen\<close>
  lists the tags that have been handled: a counter of the code, as \<open>cmdid\<close> or \<open>items\<close>, is the number of
  times its tag occurs there. A tag of \<open>brk\<close> ends the loop of \<open>buildSync\<close> and \<open>buildAtomOrSeq\<close>: it is
  given back, and the result says so.
\<close>

type_synonym 'a cases = "(XltTagID \<times> ('a \<Rightarrow> XltDecoder \<Rightarrow> (ret \<times> 'a \<times> XltDecoder) option)) list"

definition switch :: "'a cases \<Rightarrow> XltTagID \<Rightarrow> 'a \<Rightarrow> XltDecoder \<Rightarrow> (ret \<times> 'a \<times> XltDecoder) option" where
  "switch cs i x d =
     (case map_of cs i of None \<Rightarrow> Some (SML_ERR_XLT_INVAL_SYNCML_DOC, x, d) | Some f \<Rightarrow> f x d)"

partial_function (option) build_loop ::
    "XltTagID list \<Rightarrow> 'a cases \<Rightarrow> 'a \<Rightarrow> XltTagID list \<Rightarrow> XltDecoder \<Rightarrow>
     (ret \<times> bool \<times> 'a \<times> XltTagID list \<times> XltDecoder) option" where
  "build_loop brk cs x seen d =
     (if IS_END_TOK (curtok d) then Some (SML_ERR_OK, False, x, seen, d)
      else let i = tok_tagid (curtok d) in
      if i \<in> set brk then do { (rc, d) \<leftarrow> discardToken d; Some (rc, True, x, seen, d) }
      else do {
        (rc, x, d) \<leftarrow> switch cs i x d;
        if rc \<noteq> SML_ERR_OK then Some (rc, False, x, seen, d)
        else do {
          (rc, d) \<leftarrow> nextToken d;
          if rc \<noteq> SML_ERR_OK then Some (rc, False, x, i # seen, d)
          else build_loop brk cs x (i # seen) d
        }
      })"

declare build_loop.simps [code]

text \<open>The children of a structure: the first token, the loop, and the counters that must not be zero.\<close>

definition build_children ::
    "'a cases \<Rightarrow> XltTagID list \<Rightarrow> 'a \<Rightarrow> XltDecoder \<Rightarrow> (ret \<times> 'a \<times> XltTagID list \<times> XltDecoder) option" where
  "build_children cs req x d = do {
     (rc, d) \<leftarrow> nextToken d;
     if rc \<noteq> SML_ERR_OK then Some (rc, x, [], d)
     else do {
       (rc, brk, x, seen, d) \<leftarrow> build_loop [] cs x [] d;
       Some (if rc = SML_ERR_OK \<and> \<not> set req \<subseteq> set seen then SML_ERR_XLT_INVAL_SYNCML_DOC else rc, x, seen, d)
     }
   }"

text \<open>
  The frame of a builder: the element must not have occurred before, the structure is allocated and
  zeroed, an empty element is accepted, accepted without a structure, or refused.
\<close>

datatype empty_elem = Empty_ok | Empty_null | Empty_bad

definition build_struct :: "empty_elem \<Rightarrow> 'a \<Rightarrow> 'a cases \<Rightarrow> XltTagID list \<Rightarrow> 'a builder" where
  "build_struct em zero cs req p d =
     (if p \<noteq> None then Some (SML_ERR_XLT_INVAL_SYNCML_DOC, p, d)
      else let (ok, d) = dec_malloc d in
      if \<not> ok then Some (SML_ERR_NOT_ENOUGH_SPACE, None, d)
      else if IS_EMPTY (curtok d) then
        Some (case em of Empty_ok \<Rightarrow> (SML_ERR_OK, Some zero, d) | Empty_null \<Rightarrow> (SML_ERR_OK, None, d)
              | Empty_bad \<Rightarrow> (SML_ERR_XLT_INVAL_SYNCML_DOC, None, d))
      else do {
        (rc, x, seen, d) \<leftarrow> build_children cs req zero d;
        Some (rc, if rc = SML_ERR_OK then Some x else None, d)
      })"

text \<open>The cases of a \<open>switch\<close>: build a member, set a flag, append to a list, skip the tag.\<close>

definition into ::
    "'b builder \<Rightarrow> ('a \<Rightarrow> 'b option) \<Rightarrow> (('b option \<Rightarrow> 'b option) \<Rightarrow> 'a \<Rightarrow> 'a) \<Rightarrow>
     'a \<Rightarrow> XltDecoder \<Rightarrow> (ret \<times> 'a \<times> XltDecoder) option" where
  "into build get upd x d = do { (rc, p, d) \<leftarrow> build (get x) d; Some (rc, upd (\<lambda>_. p) x, d) }"

definition flag_case ::
    "Flag \<Rightarrow> ((Flag \<Rightarrow> Flag) \<Rightarrow> 'a \<Rightarrow> 'a) \<Rightarrow> 'a \<Rightarrow> XltDecoder \<Rightarrow> (ret \<times> 'a \<times> XltDecoder) option" where
  "flag_case m upd x d = Some (SML_ERR_OK, upd (\<lambda>f. f OR m) x, d)"

definition skip_case :: "'a \<Rightarrow> XltDecoder \<Rightarrow> (ret \<times> 'a \<times> XltDecoder) option" where
  "skip_case x d = Some (SML_ERR_OK, x, d)"

definition into_list ::
    "('b list \<Rightarrow> XltDecoder \<Rightarrow> (ret \<times> 'b list \<times> XltDecoder) option) \<Rightarrow> ('a \<Rightarrow> 'b list) \<Rightarrow>
     (('b list \<Rightarrow> 'b list) \<Rightarrow> 'a \<Rightarrow> 'a) \<Rightarrow> 'a \<Rightarrow> XltDecoder \<Rightarrow> (ret \<times> 'a \<times> XltDecoder) option" where
  "into_list add get upd x d = do { (rc, l, d) \<leftarrow> add (get x) d; Some (rc, upd (\<lambda>_. l) x, d) }"

text \<open>
  The two ways to append to a linked list, whose entries are pointers. The \<open>append\<close> functions link the
  new entry when its content has been built, the \<open>build...List\<close> functions before that.
\<close>

definition append_built ::
    "'b builder \<Rightarrow> 'b option list \<Rightarrow> XltDecoder \<Rightarrow> (ret \<times> 'b option list \<times> XltDecoder) option" where
  "append_built build l d =
     (let (ok, d) = dec_malloc d in
      if \<not> ok then Some (SML_ERR_NOT_ENOUGH_SPACE, l, d)
      else do {
        (rc, p, d) \<leftarrow> build None d;
        Some (rc, if rc \<noteq> SML_ERR_OK then l else l @ [p], d)
      })"

definition build_in_list ::
    "'b builder \<Rightarrow> 'b option list \<Rightarrow> XltDecoder \<Rightarrow> (ret \<times> 'b option list \<times> XltDecoder) option" where
  "build_in_list build l d =
     (let (ok, d) = dec_malloc d in
      if \<not> ok then Some (SML_ERR_NOT_ENOUGH_SPACE, l, d)
      else do { (rc, p, d) \<leftarrow> build None d; Some (rc, l @ [p], d) })"

section \<open>Character data\<close>

text \<open>
  \<open>strcat\<close> writes into the block of the first string, which holds exactly that string: appending
  anything writes behind the block. \<open>realloc\<close> keeps the bytes that fit into the new size.
\<close>

definition concatPCData ::
    "SmlPcdata \<Rightarrow> SmlPcdata \<Rightarrow> XltDecoder \<Rightarrow> (SmlPcdata option \<times> XltDecoder) option" where
  "concatPCData p q d =
     (if pc_contentType p \<noteq> pc_contentType q then Some (None, d)
      else case pc_contentType p of
        SML_PCDATA_STRING \<Rightarrow> do {
          s \<leftarrow> c_string (pc_content p);
          t \<leftarrow> c_string (pc_content q);
          if length s + length t + 1 > length (pc_content p) then None
          else do {
            n \<leftarrow> s32 (pc_length p + pc_length q);
            Some (Some (p\<lparr>pc_content := s @ t @ 0 # drop (length s + length t + 1) (pc_content p),
                          pc_length := n\<rparr>), d)
          }
        }
      | SML_PCDATA_OPAQUE \<Rightarrow> do {
          n \<leftarrow> s32 (pc_length p + pc_length q);
          a \<leftarrow> bytes_at (pc_content p) 0 (pc_length p);
          b \<leftarrow> bytes_at (pc_content q) 0 (pc_length q);
          let (ok, d) = dec_malloc d;
          if \<not> ok then Some (None, d)
          else Some (Some (p\<lparr>pc_content := a @ b, pc_length := n\<rparr>), d)
        }
      | _ \<Rightarrow> Some (None, d))"

text \<open>The data of the current token; after \<open>smlLibFree\<close> the token still points to it.\<close>

definition tok_data :: "XltDecoder \<Rightarrow> SmlPcdata option" where
  "tok_data d = (case tok_pcdata (curtok d) of PC_live p \<Rightarrow> Some p | _ \<Rightarrow> None)"

definition set_curtok :: "XltDecToken \<Rightarrow> XltDecoder \<Rightarrow> XltDecoder" where
  "set_curtok t d = d\<lparr>xd_scanner := (xd_scanner d)\<lparr>sc_curtok := t\<rparr>\<rparr>"

definition free_tok_data :: "XltDecoder \<Rightarrow> XltDecoder" where
  "free_tok_data d = set_curtok ((curtok d)\<lparr>tok_pcdata := PC_freed\<rparr>) d"

partial_function (option) content_loop ::
    "SmlPcdata option \<Rightarrow> XltDecoder \<Rightarrow> (ret \<times> SmlPcdata option \<times> XltDecoder) option" where
  "content_loop p d =
     (if \<not> IS_CONTENT (curtok d) then Some (SML_ERR_OK, p, d)
      else do {
        q \<leftarrow> tok_data d;
        (p, d) \<leftarrow> (case p of
                      None \<Rightarrow> Some (Some q, d)
                    | Some p \<Rightarrow> do { (r, d) \<leftarrow> concatPCData p q d; Some (r, free_tok_data d) });
        if p = None then Some (SML_ERR_XLT_INVAL_PCDATA, None, d)
        else do {
          (rc, d) \<leftarrow> nextToken d;
          if rc \<noteq> SML_ERR_OK then Some (rc, p, d) else content_loop p d
        }
      })"

declare content_loop.simps [code]

text \<open>The data of a token as the structures hold them; \<open>mk\<close> makes the content of bytes.\<close>

definition to_pcdata :: "(byte list \<Rightarrow> 'c) \<Rightarrow> XltDecoder \<Rightarrow> SmlPcdata \<Rightarrow> 'c Pcdata" where
  "to_pcdata mk d p = \<lparr>pd_contentType = pc_contentType p,
     pd_extension = (case pc_extension p of Some e \<Rightarrow> e | None \<Rightarrow> hp_extension (xd_heap d)),
     pd_length = pc_length p, pd_content = Some (mk (pc_content p))\<rparr>"

definition zero_pcdata :: "'c Pcdata" where
  "zero_pcdata = \<lparr>pd_contentType = SML_PCDATA_UNDEFINED, pd_extension = SML_EXT_UNDEFINED,
                  pd_length = 0, pd_content = None\<rparr>"

text \<open>
  \<open>buildPCData\<close>. \<open>sub\<close> is the \<open>switch\<close> over the extension: it builds the content and leaves the closing tag
  of the character data as the current token. When the first token is an error, \<open>*ppPCData\<close> becomes the
  data of that token.
\<close>

definition tok_error :: "(byte list \<Rightarrow> 'c) \<Rightarrow> ret \<Rightarrow> XltDecoder \<Rightarrow> (ret \<times> 'c Pcdata option \<times> XltDecoder) option" where
  "tok_error mk rc d =
     (if rc = SML_ERR_XLT_INVAL_SYNCML_DOC then
        (case tok_pcdata (curtok d) of
           PC_NULL \<Rightarrow> Some (rc, None, d)
         | PC_live p \<Rightarrow> Some (rc, Some (to_pcdata mk d p), d)
         | PC_freed \<Rightarrow> None)
      else Some (rc, None, d))"

definition ext_content ::
    "(SmlPcdataExtension \<Rightarrow> XltDecoder \<Rightarrow> (ret \<times> 'c option \<times> XltDecoder) option) \<Rightarrow>
     XltDecoder \<Rightarrow> (ret \<times> 'c Pcdata option \<times> XltDecoder) option" where
  "ext_content sub d = do {
     let ext = tok_ext (curtok d);
     (rc, d) \<leftarrow> discardToken d;
     if rc \<noteq> SML_ERR_OK then Some (rc, None, d)
     else let (ok, d) = dec_malloc d in
     if \<not> ok then Some (SML_ERR_NOT_ENOUGH_SPACE, None, d)
     else do {
       (rc, c, d) \<leftarrow> sub ext d;
       if rc \<noteq> SML_ERR_OK then Some (rc, None, d)
       else Some (SML_ERR_OK, Some \<lparr>pd_contentType = SML_PCDATA_EXTENSION, pd_extension = ext,
                                    pd_length = 0, pd_content = c\<rparr>, d)
     }
   }"

definition pcdata_end :: "'c Pcdata option \<Rightarrow> XltDecoder \<Rightarrow> (ret \<times> 'c Pcdata option \<times> XltDecoder) option" where
  "pcdata_end p d =
     (if \<not> IS_END_TOK (curtok d) then Some (SML_ERR_XLT_INVAL_PCDATA, None, d)
      else case p of
        Some x \<Rightarrow> Some (SML_ERR_OK, p, d)
      | None \<Rightarrow> (let (ok, d) = dec_malloc d in
                 if ok then Some (SML_ERR_OK, Some zero_pcdata, d) else Some (SML_ERR_NOT_ENOUGH_SPACE, None, d)))"

definition build_pcdata ::
    "(byte list \<Rightarrow> 'c) \<Rightarrow> (SmlPcdataExtension \<Rightarrow> XltDecoder \<Rightarrow> (ret \<times> 'c option \<times> XltDecoder) option) \<Rightarrow>
     'c Pcdata builder" where
  "build_pcdata mk sub p d =
     (if p \<noteq> None then Some (SML_ERR_XLT_INVAL_SYNCML_DOC, p, d)
      else if IS_EMPTY (curtok d) then
        (let (ok, d) = dec_malloc d in
         if ok then Some (SML_ERR_OK, Some zero_pcdata, d) else Some (SML_ERR_NOT_ENOUGH_SPACE, None, d))
      else do {
        (rc, d) \<leftarrow> nextToken d;
        if rc \<noteq> SML_ERR_OK then tok_error mk rc d
        else if IS_CONTENT (curtok d) then do {
          (rc, q, d) \<leftarrow> content_loop None d;
          if rc \<noteq> SML_ERR_OK then Some (rc, map_option (to_pcdata mk d) q, d)
          else pcdata_end (map_option (to_pcdata mk d) q) d
        }
        else if IS_START_OR_EMPTY (curtok d) then do {
          (rc, q, d) \<leftarrow> ext_content sub d;
          if rc \<noteq> SML_ERR_OK then Some (rc, None, d) else pcdata_end q d
        }
        else if IS_END_TOK (curtok d) then pcdata_end None d
        else Some (SML_ERR_XLT_INVAL_PCDATA, None, d)
      })"

text \<open>
  Inside a sub-DTD the character data are bytes. A sub-DTD inside a leaf of a sub-DTD is outside the
  model, as it is in the encoder.
\<close>

definition no_sub :: "SmlPcdataExtension \<Rightarrow> XltDecoder \<Rightarrow> (ret \<times> 'c option \<times> XltDecoder) option" where
  "no_sub ext d =
     (if ext \<in> {SML_EXT_METINF, SML_EXT_DEVINF, SML_EXT_DMTND} then None else Some (SML_ERR_XLT_INVAL_EXT, None, d))"

definition build_leaf :: "leaf builder" where
  "build_leaf = build_pcdata (\<lambda>bs. bs) no_sub"

definition buildPCDataList :: "leaf option list \<Rightarrow> XltDecoder \<Rightarrow> (ret \<times> leaf option list \<times> XltDecoder) option" where
  "buildPCDataList = build_in_list build_leaf"

end
