(* ===== verification/Decoder_SubDtd.thy ===== *)
theory Decoder_SubDtd
  imports Decoder_Core
begin

text \<open>
  The decoders of the sub-DTDs: meta information (\<open>xltmetinf.c\<close>), device information (\<open>xltdevinf.c\<close>)
  and management trees (\<open>xltdmtnd.c\<close>).
\<close>

section \<open>Meta information\<close>

definition zero_anchor :: SmlMetInfAnchor where
  "zero_anchor = \<lparr>mia_last = None, mia_next = None\<rparr>"

definition buildMetInfAnchorCmd :: "SmlMetInfAnchor builder" where
  "buildMetInfAnchorCmd = build_struct Empty_ok zero_anchor
     [(TN_METINF_LAST, into build_leaf mia_last mia_last_update),
      (TN_METINF_NEXT, into build_leaf mia_next mia_next_update)] []"

definition zero_mem :: SmlMetInfMem where
  "zero_mem = \<lparr>mim_shared = None, mim_free = None, mim_freeid = None\<rparr>"

definition buildMetInfMemCmd :: "SmlMetInfMem builder" where
  "buildMetInfMemCmd = build_struct Empty_ok zero_mem
     [(TN_METINF_SHAREDMEM, into build_leaf mim_shared mim_shared_update),
      (TN_METINF_FREEMEM, into build_leaf mim_free mim_free_update),
      (TN_METINF_FREEID, into build_leaf mim_freeid mim_freeid_update)] []"

definition zero_metinf :: SmlMetInfMetInf where
  "zero_metinf = \<lparr>mi_format = None, mi_type = None, mi_mark = None, mi_size = None, mi_nextnonce = None,
     mi_version = None, mi_maxmsgsize = None, mi_maxobjsize = None, mi_mem = None, mi_emi = [],
     mi_anchor = None\<rparr>"

definition META_TYPE_TNDS_XML :: "byte list" where
  "META_TYPE_TNDS_XML = bytes_of ''application/vnd.syncml.dmtnds+xml''"

text \<open>
  The type says in which encoding a management tree of the item is written. Both comparisons of the
  code are with \<open>META_TYPE_TNDS_XML\<close>, so the second one, for WBXML, never holds.
\<close>

definition type_case :: "SmlMetInfMetInf \<Rightarrow> XltDecoder \<Rightarrow> (ret \<times> SmlMetInfMetInf \<times> XltDecoder) option" where
  "type_case x d = do {
     (rc, x, d) \<leftarrow> into build_leaf mi_type mi_type_update x d;
     (case Option.bind (mi_type x) pd_content of
        None \<Rightarrow> Some (rc, x, d)
      | Some c \<Rightarrow> do {
          s \<leftarrow> c_string c;
          let d = (if s = META_TYPE_TNDS_XML then d\<lparr>xd_tndsEncoding := enc_XML\<rparr>
                   else if s = META_TYPE_TNDS_XML then d\<lparr>xd_tndsEncoding := enc_WBXML\<rparr> else d);
          Some (if xd_smlEncoding d \<noteq> xd_tndsEncoding d then SML_ERR_XLT_INVAL_SYNCML_DOC else rc, x, d)
        })
   }"

definition metinf_cases :: "SmlMetInfMetInf cases" where
  "metinf_cases =
     [(TN_METINF_METINF, skip_case),
      (TN_METINF_FORMAT, into build_leaf mi_format mi_format_update),
      (TN_METINF_TYPE, type_case),
      (TN_METINF_MARK, into build_leaf mi_mark mi_mark_update),
      (TN_METINF_SIZE, into build_leaf mi_size mi_size_update),
      (TN_METINF_VERSION, into build_leaf mi_version mi_version_update),
      (TN_METINF_NEXTNONCE, into build_leaf mi_nextnonce mi_nextnonce_update),
      (TN_METINF_ANCHOR, into buildMetInfAnchorCmd mi_anchor mi_anchor_update),
      (TN_METINF_MAXMSGSIZE, into build_leaf mi_maxmsgsize mi_maxmsgsize_update),
      (TN_METINF_MAXOBJSIZE, into build_leaf mi_maxobjsize mi_maxobjsize_update),
      (TN_METINF_MEM, into buildMetInfMemCmd mi_mem mi_mem_update),
      (TN_METINF_EMI, into_list buildPCDataList mi_emi mi_emi_update)]"

text \<open>After an optional wrapper \<open>MetInf\<close> the current token is the closing tag of the wrapper.\<close>

definition buildMetInfMetInfCmd :: "SmlMetInfMetInf builder" where
  "buildMetInfMetInfCmd p d =
     (if p \<noteq> None then Some (SML_ERR_XLT_INVAL_SYNCML_DOC, p, d)
      else let (ok, d) = dec_malloc d in
      if \<not> ok then Some (SML_ERR_NOT_ENOUGH_SPACE, None, d)
      else if IS_EMPTY (curtok d) then Some (SML_ERR_OK, Some zero_metinf, d)
      else do {
        (rc, x, seen, d) \<leftarrow> build_children metinf_cases [] zero_metinf d;
        if rc \<noteq> SML_ERR_OK then Some (rc, None, d)
        else if TN_METINF_METINF \<in> set seen then do {
          (rc, d) \<leftarrow> nextToken d;
          Some (rc, if rc = SML_ERR_OK then Some x else None, d)
        }
        else Some (SML_ERR_OK, Some x, d)
      })"

section \<open>Management trees\<close>

text \<open>
  A format is an empty tag; its name becomes the content of \<open>value\<close>, in a block of six zeroed bytes. After
  one element the end tag must follow, so the loop is run at most once.
\<close>

definition format_name :: "XltTagID \<Rightarrow> string option" where
  "format_name = map_of
     [(TN_DMTND_b64, ''b64''), (TN_DMTND_bin, ''bin''), (TN_DMTND_bool, ''bool''), (TN_DMTND_chr, ''chr''),
      (TN_DMTND_int, ''int''), (TN_DMTND_node, ''node''), (TN_DMTND_null, ''null''), (TN_DMTND_xml, ''xml''),
      (TN_DMTND_date, ''date''), (TN_DMTND_time, ''time''), (TN_DMTND_float, ''float'')]"

definition zeroed_name :: "nat \<Rightarrow> string \<Rightarrow> byte list" where
  "zeroed_name n s = bytes_of s @ replicate (n - length s) 0"

definition at_end :: "XltDecoder \<Rightarrow> 'a \<Rightarrow> (ret \<times> 'a option \<times> XltDecoder) option" where
  "at_end d x = do {
     (rc, d) \<leftarrow> nextToken d;
     if rc \<noteq> SML_ERR_OK then Some (rc, None, d)
     else if \<not> IS_END_TOK (curtok d) then Some (SML_ERR_XLT_INVAL_SYNCML_DOC, None, d)
     else Some (SML_ERR_OK, Some x, d)
   }"

definition format_child :: "XltDecoder \<Rightarrow> (ret \<times> SmlDmTndFormat option \<times> XltDecoder) option" where
  "format_child d =
     (let (ok, d) = dec_malloc d in
      if \<not> ok then Some (SML_ERR_NOT_ENOUGH_SPACE, None, d)
      else case format_name (tok_tagid (curtok d)) of
        None \<Rightarrow> Some (SML_ERR_XLT_INVAL_SYNCML_DOC, None, d)
      | Some name \<Rightarrow> do {
          (rc, p, d) \<leftarrow> build_leaf None d;
          if rc \<noteq> SML_ERR_OK then Some (rc, None, d)
          else do {
            v \<leftarrow> p;
            at_end d \<lparr>tf_value = Some (v\<lparr>pd_content := Some (zeroed_name 6 name), pd_length := int (length name)\<rparr>)\<rparr>
          }
        })"

definition first_child ::
    "'a \<Rightarrow> (XltDecoder \<Rightarrow> (ret \<times> 'a option \<times> XltDecoder) option) \<Rightarrow> 'a builder" where
  "first_child zero child p d =
     (if p \<noteq> None then Some (SML_ERR_XLT_INVAL_SYNCML_DOC, p, d)
      else let (ok, d) = dec_malloc d in
      if \<not> ok then Some (SML_ERR_NOT_ENOUGH_SPACE, None, d)
      else if IS_EMPTY (curtok d) then Some (SML_ERR_OK, Some zero, d)
      else do {
        (rc, d) \<leftarrow> nextToken d;
        if rc \<noteq> SML_ERR_OK then Some (rc, None, d)
        else if IS_END_TOK (curtok d) then Some (SML_ERR_OK, Some zero, d)
        else child d
      })"

definition buildDmTndFormatCmd :: "SmlDmTndFormat builder" where
  "buildDmTndFormatCmd = first_child \<lparr>tf_value = None\<rparr> format_child"

text \<open>
  A type is \<open>MIME\<close>, \<open>DDFName\<close> or plain character data; the latter are copied, without the terminating
  zero, into \<open>mime\<close>.
\<close>

definition copy_mime :: "XltDecoder \<Rightarrow> (ret \<times> leaf option \<times> XltDecoder) option" where
  "copy_mime d = do {
     q \<leftarrow> tok_data d;
     let (ok, d) = dec_malloc d;
     if \<not> ok then Some (SML_ERR_NOT_ENOUGH_SPACE, None, d)
     else do {
       let (ok, d) = dec_malloc d;
       if \<not> ok then Some (SML_ERR_NOT_ENOUGH_SPACE, None, d)
       else do {
         bs \<leftarrow> bytes_at (pc_content q) 0 (pc_length q);
         Some (SML_ERR_OK, Some (zero_pcdata\<lparr>pd_content := Some bs, pd_length := pc_length q\<rparr>), d)
       }
     }
   }"

definition type_child :: "XltDecoder \<Rightarrow> (ret \<times> SmlDmTndType option \<times> XltDecoder) option" where
  "type_child d =
     (let zero = \<lparr>tt_mime = None, tt_ddfname = None\<rparr> in do {
        (rc, x, d) \<leftarrow>
          (if IS_CONTENT (curtok d) then do { (rc, p, d) \<leftarrow> copy_mime d; Some (rc, zero\<lparr>tt_mime := p\<rparr>, d) }
           else switch [(TN_DMTND_MIME, into build_leaf tt_mime tt_mime_update),
                        (TN_DMTND_DDFName, into build_leaf tt_ddfname tt_ddfname_update)]
                  (tok_tagid (curtok d)) zero d);
        if rc \<noteq> SML_ERR_OK then Some (rc, None, d) else at_end d x
      })"

definition buildDmTndTypeCmd :: "SmlDmTndType builder" where
  "buildDmTndTypeCmd = first_child \<lparr>tt_mime = None, tt_ddfname = None\<rparr> type_child"

text \<open>The name of a property of the description framework is written to a block that is then dropped.\<close>

definition df_tags :: "XltTagID list" where
  "df_tags = [TN_DMTND_Add, TN_DMTND_Copy, TN_DMTND_Delete, TN_DMTND_Exec, TN_DMTND_Get, TN_DMTND_Replace,
     TN_DMTND_One, TN_DMTND_ZeroOrOne, TN_DMTND_ZeroOrMore, TN_DMTND_OneOrMore, TN_DMTND_ZeroOrN,
     TN_DMTND_OneOrN, TN_DMTND_Permanent, TN_DMTND_Dynamic, TN_DMTND_CS, TN_DMTND_CIS]"

definition dfelement_child :: "XltDecoder \<Rightarrow> (ret \<times> SmlDmTndDFElement option \<times> XltDecoder) option" where
  "dfelement_child d =
     (let (ok, d) = dec_malloc d in
      if \<not> ok then Some (SML_ERR_NOT_ENOUGH_SPACE, None, d)
      else if tok_tagid (curtok d) \<notin> set df_tags then Some (SML_ERR_XLT_INVAL_SYNCML_DOC, None, d)
      else at_end d \<lparr>df_value = None\<rparr>)"

definition buildDmTndDFElementCmd :: "SmlDmTndDFElement builder" where
  "buildDmTndDFElementCmd = first_child \<lparr>df_value = None\<rparr> dfelement_child"

definition zero_rtprops :: SmlDmTndRTProps where
  "zero_rtprops = \<lparr>rt_acl = None, rt_format = None, rt_name = None, rt_size = None, rt_title = None,
     rt_tstamp = None, rt_type = None, rt_verno = None\<rparr>"

definition buildDmTndRTPropsCmd :: "SmlDmTndRTProps builder" where
  "buildDmTndRTPropsCmd = build_struct Empty_ok zero_rtprops
     [(TN_DMTND_ACL, into build_leaf rt_acl rt_acl_update),
      (TN_DMTND_Format, into buildDmTndFormatCmd rt_format rt_format_update),
      (TN_DMTND_Name, into build_leaf rt_name rt_name_update),
      (TN_DMTND_Size, into build_leaf rt_size rt_size_update),
      (TN_DMTND_Title, into build_leaf rt_title rt_title_update),
      (TN_DMTND_TStamp, into build_leaf rt_tstamp rt_tstamp_update),
      (TN_DMTND_Type, into buildDmTndTypeCmd rt_type rt_type_update),
      (TN_DMTND_VerNo, into build_leaf rt_verno rt_verno_update)] []"

definition zero_dfprops :: SmlDmTndDFProps where
  "zero_dfprops = \<lparr>dp_accesstype = None, dp_defaultvalue = None, dp_description = None, dp_dfformat = None,
     dp_occurrence = None, dp_scope = None, dp_dftitle = None, dp_dftype = None, dp_casesense = None\<rparr>"

definition buildDmTndDFPropsCmd :: "SmlDmTndDFProps builder" where
  "buildDmTndDFPropsCmd = build_struct Empty_ok zero_dfprops
     [(TN_DMTND_AccessType, into buildDmTndDFElementCmd dp_accesstype dp_accesstype_update),
      (TN_DMTND_DefaultValue, into buildDmTndFormatCmd dp_defaultvalue dp_defaultvalue_update),
      (TN_DMTND_Description, into build_leaf dp_description dp_description_update),
      (TN_DMTND_DFFormat, into buildDmTndFormatCmd dp_dfformat dp_dfformat_update),
      (TN_DMTND_Occurrence, into buildDmTndDFElementCmd dp_occurrence dp_occurrence_update),
      (TN_DMTND_Scope, into buildDmTndDFElementCmd dp_scope dp_scope_update),
      (TN_DMTND_DFTitle, into build_leaf dp_dftitle dp_dftitle_update),
      (TN_DMTND_DFType, into buildDmTndTypeCmd dp_dftype dp_dftype_update),
      (TN_DMTND_CaseSense, into buildDmTndDFElementCmd dp_casesense dp_casesense_update)] []"

text \<open>
  A node and the list of its children. The entry of a list is allocated with the size of a pointer to
  it and then written with its two pointers. The number that counts down bounds the nesting; a level
  costs at least the byte of a start tag.
\<close>

definition buildDmTndNodeList ::
    "SmlDmTndNode builder \<Rightarrow> SmlDmTndNode option list \<Rightarrow> XltDecoder \<Rightarrow>
     (ret \<times> SmlDmTndNode option list \<times> XltDecoder) option" where
  "buildDmTndNodeList node l d =
     (let (ok, d') = dec_malloc d in
      if ok \<and> hp_block (xd_heap d) < 2 then None else build_in_list node l d)"

definition nd_nodename_update :: "(leaf option \<Rightarrow> leaf option) \<Rightarrow> SmlDmTndNode \<Rightarrow> SmlDmTndNode" where
  "nd_nodename_update f n = DmTndNode (f (nd_nodename n)) (nd_path n) (nd_rtprops n) (nd_dfprops n) (nd_value n) (nd_nodelist n)"

definition nd_path_update :: "(leaf option \<Rightarrow> leaf option) \<Rightarrow> SmlDmTndNode \<Rightarrow> SmlDmTndNode" where
  "nd_path_update f n = DmTndNode (nd_nodename n) (f (nd_path n)) (nd_rtprops n) (nd_dfprops n) (nd_value n) (nd_nodelist n)"

definition nd_rtprops_update :: "(SmlDmTndRTProps option \<Rightarrow> SmlDmTndRTProps option) \<Rightarrow> SmlDmTndNode \<Rightarrow> SmlDmTndNode" where
  "nd_rtprops_update f n = DmTndNode (nd_nodename n) (nd_path n) (f (nd_rtprops n)) (nd_dfprops n) (nd_value n) (nd_nodelist n)"

definition nd_dfprops_update :: "(SmlDmTndDFProps option \<Rightarrow> SmlDmTndDFProps option) \<Rightarrow> SmlDmTndNode \<Rightarrow> SmlDmTndNode" where
  "nd_dfprops_update f n = DmTndNode (nd_nodename n) (nd_path n) (nd_rtprops n) (f (nd_dfprops n)) (nd_value n) (nd_nodelist n)"

definition nd_value_update :: "(leaf option \<Rightarrow> leaf option) \<Rightarrow> SmlDmTndNode \<Rightarrow> SmlDmTndNode" where
  "nd_value_update f n = DmTndNode (nd_nodename n) (nd_path n) (nd_rtprops n) (nd_dfprops n) (f (nd_value n)) (nd_nodelist n)"

definition nd_nodelist_update ::
    "(SmlDmTndNode option list \<Rightarrow> SmlDmTndNode option list) \<Rightarrow> SmlDmTndNode \<Rightarrow> SmlDmTndNode" where
  "nd_nodelist_update f n = DmTndNode (nd_nodename n) (nd_path n) (nd_rtprops n) (nd_dfprops n) (nd_value n) (f (nd_nodelist n))"

definition zero_node :: SmlDmTndNode where
  "zero_node = DmTndNode None None None None None []"

primrec buildDmTndNodeCmd :: "nat \<Rightarrow> SmlDmTndNode builder" where
  "buildDmTndNodeCmd 0 = (\<lambda>p d. None)"
| "buildDmTndNodeCmd (Suc n) = build_struct Empty_ok zero_node
     [(TN_DMTND_NodeName, into build_leaf nd_nodename nd_nodename_update),
      (TN_DMTND_Path, into build_leaf nd_path nd_path_update),
      (TN_DMTND_RTProperties, into buildDmTndRTPropsCmd nd_rtprops nd_rtprops_update),
      (TN_DMTND_DFProperties, into buildDmTndDFPropsCmd nd_dfprops nd_dfprops_update),
      (TN_DMTND_Value, into build_leaf nd_value nd_value_update),
      (TN_DMTND_Node, into_list (buildDmTndNodeList (buildDmTndNodeCmd n)) nd_nodelist nd_nodelist_update)] []"

definition nesting_bound :: "XltDecoder \<Rightarrow> nat" where
  "nesting_bound d = nat (sc_bufend (xd_scanner d) - sc_pos (xd_scanner d)) + 1"

definition zero_tnd :: SmlDmTnd where
  "zero_tnd = \<lparr>tnd_verdtd = None, tnd_man = None, tnd_mod = None, tnd_nodelist = []\<rparr>"

definition tree_cases :: "nat \<Rightarrow> SmlDmTnd cases" where
  "tree_cases n =
     [(TN_DMTND_MgmtTree, skip_case),
      (TN_DMTND_VerDTD, into build_leaf tnd_verdtd tnd_verdtd_update),
      (TN_DMTND_Man, into build_leaf tnd_man tnd_man_update),
      (TN_DMTND_Mod, into build_leaf tnd_mod tnd_mod_update),
      (TN_DMTND_Node, into_list (buildDmTndNodeList (buildDmTndNodeCmd n)) tnd_nodelist tnd_nodelist_update)]"

definition buildDmTndCmd :: "SmlDmTnd builder" where
  "buildDmTndCmd p d = build_struct Empty_ok zero_tnd (tree_cases (nesting_bound d)) [] p d"

section \<open>Device information\<close>

definition buildDevInfXmitCmd :: "SmlDevInfXmit builder" where
  "buildDevInfXmitCmd = build_struct Empty_ok \<lparr>dit_cttype = None, dit_verct = None\<rparr>
     [(TN_DEVINF_CTTYPE, into build_leaf dit_cttype dit_cttype_update),
      (TN_DEVINF_VERCT, into build_leaf dit_verct dit_verct_update)] []"

definition buildDevInfXmitList ::
    "SmlDevInfXmit option list \<Rightarrow> XltDecoder \<Rightarrow> (ret \<times> SmlDevInfXmit option list \<times> XltDecoder) option" where
  "buildDevInfXmitList = build_in_list buildDevInfXmitCmd"

definition buildDevInfDSMemCmd :: "SmlDevInfDSMem builder" where
  "buildDevInfDSMemCmd = build_struct Empty_ok \<lparr>dim_flags = 0, dim_maxmem = None, dim_maxid = None\<rparr>
     [(TN_DEVINF_SHAREDMEM, flag_case SmlDevInfSharedMem_f dim_flags_update),
      (TN_DEVINF_MAXMEM, into build_leaf dim_maxmem dim_maxmem_update),
      (TN_DEVINF_MAXID, into build_leaf dim_maxid dim_maxid_update)] []"

definition buildDevInfCTCapCmd :: "SmlDevInfCTCap builder" where
  "buildDevInfCTCapCmd = build_struct Empty_ok \<lparr>dic_cttype = None, dic_prop = []\<rparr>
     [(TN_DEVINF_CTTYPE, into build_leaf dic_cttype dic_cttype_update)] []"

definition buildDevInfSyncCapCmd :: "SmlDevInfSyncCap builder" where
  "buildDevInfSyncCapCmd = build_struct Empty_ok \<lparr>dis_synctype = []\<rparr>
     [(TN_DEVINF_SYNCTYPE, into_list buildPCDataList dis_synctype dis_synctype_update)] []"

definition buildDevInfExtCmd :: "SmlDevInfExt builder" where
  "buildDevInfExtCmd = build_struct Empty_ok \<lparr>dix_xnam = None, dix_xval = []\<rparr>
     [(TN_DEVINF_XNAM, into build_leaf dix_xnam dix_xnam_update),
      (TN_DEVINF_XVAL, into_list buildPCDataList dix_xval dix_xval_update)] []"

definition buildDevInfExtList ::
    "SmlDevInfExt option list \<Rightarrow> XltDecoder \<Rightarrow> (ret \<times> SmlDevInfExt option list \<times> XltDecoder) option" where
  "buildDevInfExtList = build_in_list buildDevInfExtCmd"

definition buildDevInfDataStoreCmd :: "SmlDevInfDatastore builder" where
  "buildDevInfDataStoreCmd = build_struct Empty_ok
     \<lparr>ds_sourceref = None, ds_displayname = None, ds_maxguidsize = None, ds_rxpref = None, ds_rx = [],
      ds_txpref = None, ds_tx = [], ds_dsmem = None, ds_synccap = None\<rparr>
     [(TN_DEVINF_SOURCEREF, into build_leaf ds_sourceref ds_sourceref_update),
      (TN_DEVINF_DISPLAYNAME, into build_leaf ds_displayname ds_displayname_update),
      (TN_DEVINF_MAXGUIDSIZE, into build_leaf ds_maxguidsize ds_maxguidsize_update),
      (TN_DEVINF_RXPREF, into buildDevInfXmitCmd ds_rxpref ds_rxpref_update),
      (TN_DEVINF_TXPREF, into buildDevInfXmitCmd ds_txpref ds_txpref_update),
      (TN_DEVINF_RX, into_list buildDevInfXmitList ds_rx ds_rx_update),
      (TN_DEVINF_TX, into_list buildDevInfXmitList ds_tx ds_tx_update),
      (TN_DEVINF_DSMEM, into buildDevInfDSMemCmd ds_dsmem ds_dsmem_update),
      (TN_DEVINF_SYNCCAP, into buildDevInfSyncCapCmd ds_synccap ds_synccap_update)] []"

definition buildDevInfDataStoreList ::
    "SmlDevInfDatastore option list \<Rightarrow> XltDecoder \<Rightarrow> (ret \<times> SmlDevInfDatastore option list \<times> XltDecoder) option" where
  "buildDevInfDataStoreList = build_in_list buildDevInfDataStoreCmd"

text \<open>
  \<open>buildDevInfCtcap\<close> turns a flat series of elements into a tree: a content type begins an entry of the
  list, a property name a property of the last entry, a parameter name a parameter of the last property,
  and the other four fill the last parameter, or the last property when it has none yet.
\<close>

definition last_entry :: "'a option list \<Rightarrow> 'a option" where
  "last_entry xs = (if xs = [] then None else last xs)"

definition set_last :: "'a option list \<Rightarrow> 'a \<Rightarrow> 'a option list" where
  "set_last xs x = butlast xs @ [Some x]"

definition zero_ctdata :: SmlDevInfCTData where
  "zero_ctdata = \<lparr>did_name = None, did_dname = None, did_valenum = [], did_datatype = None, did_size = None\<rparr>"

text \<open>Allocating \<open>n\<close> blocks one after another.\<close>

fun dec_mallocs :: "nat \<Rightarrow> XltDecoder \<Rightarrow> bool \<times> XltDecoder" where
  "dec_mallocs 0 d = (True, d)"
| "dec_mallocs (Suc n) d = (case dec_malloc d of (ok, d) \<Rightarrow> if ok then dec_mallocs n d else (False, d))"

type_synonym ctcap_case =
  "SmlDevInfCTCap option list \<Rightarrow> XltDecoder \<Rightarrow> (ret \<times> SmlDevInfCTCap option list \<times> XltDecoder) option"

definition cttype_case :: ctcap_case where
  "cttype_case cs d =
     (let (ok, d) = dec_mallocs 2 d in
      if \<not> ok then Some (SML_ERR_NOT_ENOUGH_SPACE, cs, d)
      else do {
        (rc, p, d) \<leftarrow> build_leaf None d;
        Some (rc, cs @ [Some \<lparr>dic_cttype = p, dic_prop = []\<rparr>], d)
      })"

definition propname_case :: ctcap_case where
  "propname_case cs d =
     (if cs = [] then Some (SML_ERR_XLT_INVAL_SYNCML_DOC, cs, d)
      else do {
        c \<leftarrow> last_entry cs;
        let (ok, d) = dec_mallocs 3 d;
        if \<not> ok then Some (SML_ERR_NOT_ENOUGH_SPACE, cs, d)
        else do {
          (rc, p, d) \<leftarrow> build_leaf None d;
          let prop = \<lparr>dip_prop = Some (zero_ctdata\<lparr>did_name := p\<rparr>), dip_param = []\<rparr>;
          Some (rc, set_last cs (c\<lparr>dic_prop := dic_prop c @ [Some prop]\<rparr>), d)
        }
      })"

definition paramname_case :: ctcap_case where
  "paramname_case cs d =
     (if cs = [] then Some (SML_ERR_XLT_INVAL_SYNCML_DOC, cs, d)
      else do {
        c \<leftarrow> last_entry cs;
        if dic_prop c = [] then Some (SML_ERR_XLT_INVAL_SYNCML_DOC, cs, d)
        else do {
          q \<leftarrow> last_entry (dic_prop c);
          let (ok, d) = dec_mallocs 2 d;
          if \<not> ok then Some (SML_ERR_NOT_ENOUGH_SPACE, cs, d)
          else do {
            (rc, p, d) \<leftarrow> build_leaf None d;
            let q = q\<lparr>dip_param := dip_param q @ [Some (zero_ctdata\<lparr>did_name := p\<rparr>)]\<rparr>;
            Some (rc, set_last cs (c\<lparr>dic_prop := set_last (dic_prop c) q\<rparr>), d)
          }
        }
      })"

definition ctdata_case :: "(SmlDevInfCTData \<Rightarrow> XltDecoder \<Rightarrow> (ret \<times> SmlDevInfCTData \<times> XltDecoder) option) \<Rightarrow> ctcap_case" where
  "ctdata_case f cs d =
     (if cs = [] then Some (SML_ERR_XLT_INVAL_SYNCML_DOC, cs, d)
      else do {
        c \<leftarrow> last_entry cs;
        if dic_prop c = [] then Some (SML_ERR_XLT_INVAL_SYNCML_DOC, cs, d)
        else case last_entry (dic_prop c) of
          None \<Rightarrow> Some (SML_ERR_XLT_INVAL_SYNCML_DOC, cs, d)
        | Some q \<Rightarrow>
            (case dip_prop q of
               None \<Rightarrow> Some (SML_ERR_XLT_INVAL_SYNCML_DOC, cs, d)
             | Some x \<Rightarrow>
                 if dip_param q = [] then do {
                   (rc, x, d) \<leftarrow> f x d;
                   Some (rc, set_last cs (c\<lparr>dic_prop := set_last (dic_prop c) (q\<lparr>dip_prop := Some x\<rparr>)\<rparr>), d)
                 }
                 else (case last_entry (dip_param q) of
                     None \<Rightarrow> Some (SML_ERR_XLT_INVAL_SYNCML_DOC, cs, d)
                   | Some y \<Rightarrow> do {
                       (rc, y, d) \<leftarrow> f y d;
                       let q = q\<lparr>dip_param := set_last (dip_param q) y\<rparr>;
                       Some (rc, set_last cs (c\<lparr>dic_prop := set_last (dic_prop c) q\<rparr>), d)
                     }))
      })"

definition ctcap_cases :: "SmlDevInfCTCap option list cases" where
  "ctcap_cases =
     [(TN_DEVINF_CTTYPE, cttype_case),
      (TN_DEVINF_PROPNAME, propname_case),
      (TN_DEVINF_PARAMNAME, paramname_case),
      (TN_DEVINF_DISPLAYNAME, ctdata_case (into build_leaf did_dname did_dname_update)),
      (TN_DEVINF_VALENUM, ctdata_case (into_list buildPCDataList did_valenum did_valenum_update)),
      (TN_DEVINF_DATATYPE, ctdata_case (into build_leaf did_datatype did_datatype_update)),
      (TN_DEVINF_SIZE, ctdata_case (into build_leaf did_size did_size_update))]"

definition buildDevInfCtcap :: ctcap_case where
  "buildDevInfCtcap cs d =
     (if IS_EMPTY (curtok d) then Some (SML_ERR_OK, cs, d)
      else do {
        (rc, cs, seen, d) \<leftarrow> build_children ctcap_cases [] cs d;
        Some (rc, cs, d)
      })"

text \<open>
  The three flags may have content, which is read and looked at. The test reads through the pointer
  even when \<open>buildPCData\<close> has failed and left it null.
\<close>

definition devinf_flag_case ::
    "Flag \<Rightarrow> SmlDevInfDevInf \<Rightarrow> XltDecoder \<Rightarrow> (ret \<times> SmlDevInfDevInf \<times> XltDecoder) option" where
  "devinf_flag_case m x d = do {
     (rc, p, d) \<leftarrow> build_leaf None d;
     t \<leftarrow> p;
     let bad = (pd_contentType t \<noteq> SML_PCDATA_UNDEFINED \<and> pd_extension t \<noteq> SML_EXT_UNDEFINED \<and>
                pd_length t \<noteq> 0 \<and> pd_content t \<noteq> None);
     Some (if bad then SML_ERR_XLT_INVAL_SYNCML_DOC else rc, x\<lparr>di_flags := di_flags x OR m\<rparr>, d)
   }"

definition zero_devinf :: SmlDevInfDevInf where
  "zero_devinf = \<lparr>di_verdtd = None, di_man = None, di_mod = None, di_oem = None, di_fwv = None, di_swv = None,
     di_hwv = None, di_devid = None, di_devtyp = None, di_datastore = [], di_ctcap = [], di_ext = [], di_flags = 0\<rparr>"

definition buildDevInfDevInfContent :: "SmlDevInfDevInf builder" where
  "buildDevInfDevInfContent = build_struct Empty_ok zero_devinf
     [(TN_DEVINF_VERDTD, into build_leaf di_verdtd di_verdtd_update),
      (TN_DEVINF_MAN, into build_leaf di_man di_man_update),
      (TN_DEVINF_MOD, into build_leaf di_mod di_mod_update),
      (TN_DEVINF_OEM, into build_leaf di_oem di_oem_update),
      (TN_DEVINF_FWV, into build_leaf di_fwv di_fwv_update),
      (TN_DEVINF_SWV, into build_leaf di_swv di_swv_update),
      (TN_DEVINF_HWV, into build_leaf di_hwv di_hwv_update),
      (TN_DEVINF_DEVID, into build_leaf di_devid di_devid_update),
      (TN_DEVINF_DEVTYP, into build_leaf di_devtyp di_devtyp_update),
      (TN_DEVINF_DATASTORE, into_list buildDevInfDataStoreList di_datastore di_datastore_update),
      (TN_DEVINF_CTCAP, into_list buildDevInfCtcap di_ctcap di_ctcap_update),
      (TN_DEVINF_EXT, into_list buildDevInfExtList di_ext di_ext_update),
      (TN_DEVINF_UTC, devinf_flag_case SmlDevInfUTC_f),
      (TN_DEVINF_NOFM, devinf_flag_case SmlDevInfNOfM_f),
      (TN_DEVINF_LARGEOBJECT, devinf_flag_case SmlDevInfLargeObject_f)] []"

definition buildDevInfDevInfCmd :: "SmlDevInfDevInf builder" where
  "buildDevInfDevInfCmd p d =
     (if p \<noteq> None then Some (SML_ERR_XLT_INVAL_SYNCML_DOC, p, d)
      else if IS_EMPTY (curtok d) then Some (SML_ERR_OK, None, d)
      else do {
        (rc, d) \<leftarrow> nextToken d;
        if rc \<noteq> SML_ERR_OK then Some (rc, None, d)
        else if tok_tagid (curtok d) \<noteq> TN_DEVINF_DEVINF then Some (SML_ERR_XLT_INVAL_SYNCML_DOC, None, d)
        else do {
          (rc, x, d) \<leftarrow> buildDevInfDevInfContent None d;
          Some (rc, if rc = SML_ERR_OK then x else None, d)
        }
      })"

end
