(* ===== verification/Decoder.thy ===== *)
theory Decoder
  imports Decoder_SubDtd
begin

text \<open>
  The document decoder \<open>xltdec.c\<close>: the elements and commands of SyncML, the inlined documents of
  \<open>subdtdDecodeWbxml\<close> (\<open>xltdecwbxml.c\<close>), and opening a document, reading its next command and closing it.
\<close>

section \<open>Character data of the document\<close>

text \<open>
  The \<open>switch\<close> over the extension in \<open>buildPCData\<close>. Device information and management trees end on their
  own closing tag, so the closing tag of the character data is still to be read.
\<close>

definition then_next :: "(ret \<times> 'c option \<times> XltDecoder) option \<Rightarrow> (ret \<times> 'c option \<times> XltDecoder) option" where
  "then_next m = do {
     (rc, c, d) \<leftarrow> m;
     if rc \<noteq> SML_ERR_OK then Some (rc, None, d)
     else do { (rc, d) \<leftarrow> nextToken d; Some (rc, c, d) }
   }"

definition as_content :: "('a \<Rightarrow> sml_content) \<Rightarrow> (ret \<times> 'a option \<times> XltDecoder) option \<Rightarrow>
    (ret \<times> sml_content option \<times> XltDecoder) option" where
  "as_content f m = do { (rc, p, d) \<leftarrow> m; Some (rc, map_option f p, d) }"

definition sub_document :: "SmlPcdataExtension \<Rightarrow> XltDecoder \<Rightarrow> (ret \<times> sml_content option \<times> XltDecoder) option" where
  "sub_document ext d =
     (case ext of
        SML_EXT_METINF \<Rightarrow> as_content C_metinf (buildMetInfMetInfCmd None d)
      | SML_EXT_DEVINF \<Rightarrow> then_next (as_content C_devinf (buildDevInfDevInfCmd None d))
      | SML_EXT_DMTND \<Rightarrow> then_next (as_content C_dmtnd (buildDmTndCmd None d))
      | _ \<Rightarrow> Some (SML_ERR_XLT_INVAL_EXT, None, d))"

definition buildPCData :: "data builder" where
  "buildPCData = build_pcdata C_bytes sub_document"

section \<open>Inlined documents\<close>

text \<open>
  \<open>subdtdDecodeWbxml\<close> tries to read opaque data as a WBXML document of their own. The decoder of that
  document shares the toolkit globals with the outer one. When the document cannot be decoded the data
  stay as they are.
\<close>

definition sub_decoder :: "XltDecoder \<Rightarrow> wbxmlScanner \<Rightarrow> XltTagID ArrayStack \<Rightarrow> XltDecoder" where
  "sub_decoder d s st =
     \<lparr>xd_charset = sc_charset s, xd_finished = False, xd_final = False, xd_scanner = s, xd_tagstack = st,
      xd_smlEncoding = fst (hp_sub_encodings (xd_heap d)), xd_tndsEncoding = snd (hp_sub_encodings (xd_heap d)),
      xd_heap = xd_heap d\<rparr>"

definition set_tok :: "TokTbl \<Rightarrow> XltDecoder \<Rightarrow> XltDecoder" where
  "set_tok g d = d\<lparr>xd_scanner := (xd_scanner d)\<lparr>sc_tok := g\<rparr>\<rparr>"

definition dec_tok :: "XltDecoder \<Rightarrow> TokTbl" where
  "dec_tok d = sc_tok (xd_scanner d)"

text \<open>The root of the inlined document; a first token that is no start tag is not an error.\<close>

definition sub_root :: "XltDecoder \<Rightarrow> (ret \<times> data \<times> XltDecoder) option" where
  "sub_root d = do {
     (err, d) \<leftarrow> nextToken d;
     if err \<noteq> SML_ERR_OK \<or> \<not> IS_START (curtok d) then Some (err, zero_pcdata, d)
     else do {
       let ext = tok_ext (curtok d);
       (err, d) \<leftarrow> discardToken d;
       if err \<noteq> SML_ERR_OK then Some (err, zero_pcdata, d)
       else do {
         let d = d\<lparr>xd_scanner := (xd_scanner d)\<lparr>sc_activeExt := ext\<rparr>\<rparr>;
         (err, c, d) \<leftarrow>
           (case ext of
              SML_EXT_DEVINF \<Rightarrow> as_content C_devinf (buildDevInfDevInfCmd None d)
            | SML_EXT_DMTND \<Rightarrow> as_content C_dmtnd (buildDmTndCmd None d)
            | _ \<Rightarrow> Some (SML_ERR_XLT_INVAL_EXT, None, d));
         Some (err, zero_pcdata\<lparr>pd_contentType := SML_PCDATA_EXTENSION, pd_extension := ext, pd_content := c\<rparr>, d)
       }
     }
   }"

definition sub_scan :: "byte list \<Rightarrow> XltDecoder \<Rightarrow> (ret \<times> data \<times> XltDecoder) option" where
  "sub_scan bs d =
     (case dec_mallocs 2 d of (ok, d) \<Rightarrow>
        if \<not> ok then Some (SML_ERR_NOT_ENOUGH_SPACE, zero_pcdata, d)
        else let (ok1, d) = dec_malloc d; (ok2, d) = (if ok1 then dec_malloc d else (False, d)) in
        case xltUtilCreateStack ok1 ok2 10 of
          (rc, None) \<Rightarrow> Some (rc, zero_pcdata, d)
        | (_, Some st) \<Rightarrow> do {
            (rc, sc, g) \<leftarrow> xltDecWbxmlInit bs (int (length bs)) 0 (dec_tok d);
            let d = set_tok g d;
            case sc of
              None \<Rightarrow> Some (rc, zero_pcdata, d)
            | Some s \<Rightarrow> do {
                let (ok, d) = dec_malloc d;
                if \<not> ok then Some (SML_ERR_NOT_ENOUGH_SPACE, zero_pcdata, d)
                else do {
                  let s = s\<lparr>sc_tok := dec_tok d, sc_activeExt := SML_EXT_UNDEFINED, sc_cpattr := 0, sc_cptag := 0,
                           sc_curtok := zero_token\<rparr>;
                  (err, p, sub) \<leftarrow> sub_root (sub_decoder d s st);
                  Some (err, p, set_tok (dec_tok sub) d)
                }
              }
          })"

definition subdtdDecodeWbxml :: "data option \<Rightarrow> XltDecoder \<Rightarrow> (data option \<times> XltDecoder) option" where
  "subdtdDecodeWbxml pp d =
     (case pp of
        None \<Rightarrow> Some (None, d)
      | Some p \<Rightarrow>
          if pd_contentType p \<noteq> SML_PCDATA_OPAQUE then Some (pp, d)
          else (case pd_content p of
            Some (C_bytes c) \<Rightarrow> do {
              bs \<leftarrow> bytes_at c 0 (pd_length p);
              (err, q, d) \<leftarrow> sub_scan bs d;
              Some (if err \<noteq> SML_ERR_OK then pp else Some q, d)
            }
          | _ \<Rightarrow> None))"

section \<open>Elements\<close>

definition zero_target :: SmlTarget where
  "zero_target = \<lparr>tgt_locURI = None, tgt_locName = None\<rparr>"

definition target_cases :: "SmlTarget cases" where
  "target_cases =
     [(TN_LOCURI, into buildPCData tgt_locURI tgt_locURI_update),
      (TN_LOCNAME, into buildPCData tgt_locName tgt_locName_update)]"

text \<open>An empty element is accepted, and leaves a null pointer.\<close>

definition buildTargetOrSource :: "SmlTarget builder" where
  "buildTargetOrSource = build_struct Empty_null zero_target target_cases [TN_LOCURI]"

definition buildChal :: "SmlChal builder" where
  "buildChal = build_struct Empty_ok \<lparr>chal_meta = None\<rparr>
     [(TN_META, into buildPCData chal_meta chal_meta_update)] [TN_META]"

definition buildCred :: "SmlCred builder" where
  "buildCred = build_struct Empty_ok \<lparr>cred_meta = None, cred_data = None\<rparr>
     [(TN_DATA, into buildPCData cred_data cred_data_update),
      (TN_META, into buildPCData cred_meta cred_meta_update)] [TN_DATA]"

definition zero_item :: SmlItem where
  "zero_item = \<lparr>item_target = None, item_source = None, item_meta = None, item_data = None, item_flags = 0\<rparr>"

text \<open>The data of an item may be an inlined document, whatever the result of reading them was.\<close>

definition item_data_case :: "SmlItem \<Rightarrow> XltDecoder \<Rightarrow> (ret \<times> SmlItem \<times> XltDecoder) option" where
  "item_data_case x d = do {
     (rc, x, d) \<leftarrow> into buildPCData item_data item_data_update x d;
     (p, d) \<leftarrow> subdtdDecodeWbxml (item_data x) d;
     Some (rc, x\<lparr>item_data := p\<rparr>, d)
   }"

definition buildItem :: "SmlItem builder" where
  "buildItem = build_struct Empty_ok zero_item
     [(TN_META, into buildPCData item_meta item_meta_update),
      (TN_DATA, item_data_case),
      (TN_TARGET, into buildTargetOrSource item_target item_target_update),
      (TN_SOURCE, into buildTargetOrSource item_source item_source_update),
      (TN_MOREDATA, flag_case SmlMoreData_f item_flags_update)] []"

definition buildMapItem :: "SmlMapItem builder" where
  "buildMapItem = build_struct Empty_bad \<lparr>mpi_target = None, mpi_source = None\<rparr>
     [(TN_TARGET, into buildTargetOrSource mpi_target mpi_target_update),
      (TN_SOURCE, into buildTargetOrSource mpi_source mpi_source_update)] [TN_TARGET, TN_SOURCE]"

definition appendItemList ::
    "SmlItem option list \<Rightarrow> XltDecoder \<Rightarrow> (ret \<times> SmlItem option list \<times> XltDecoder) option" where
  "appendItemList = append_built buildItem"

definition appendSourceList ::
    "SmlTarget option list \<Rightarrow> XltDecoder \<Rightarrow> (ret \<times> SmlTarget option list \<times> XltDecoder) option" where
  "appendSourceList = append_built buildTargetOrSource"

definition appendMapItemList ::
    "SmlMapItem option list \<Rightarrow> XltDecoder \<Rightarrow> (ret \<times> SmlMapItem option list \<times> XltDecoder) option" where
  "appendMapItemList = append_built buildMapItem"

definition appendTargetRefList ::
    "data option list \<Rightarrow> XltDecoder \<Rightarrow> (ret \<times> data option list \<times> XltDecoder) option" where
  "appendTargetRefList = append_built buildPCData"

definition appendSourceRefList ::
    "data option list \<Rightarrow> XltDecoder \<Rightarrow> (ret \<times> data option list \<times> XltDecoder) option" where
  "appendSourceRefList = append_built buildPCData"

section \<open>Commands\<close>

definition zero_hdr :: SmlSyncHdr where
  "zero_hdr = \<lparr>hdr_version = None, hdr_proto = None, hdr_sessionID = None, hdr_msgID = None, hdr_flags = 0,
     hdr_target = None, hdr_source = None, hdr_respURI = None, hdr_cred = None, hdr_meta = None\<rparr>"

definition buildSyncHdr :: "SmlSyncHdr builder" where
  "buildSyncHdr = build_struct Empty_ok zero_hdr
     [(TN_VERSION, into buildPCData hdr_version hdr_version_update),
      (TN_PROTO, into buildPCData hdr_proto hdr_proto_update),
      (TN_SESSIONID, into buildPCData hdr_sessionID hdr_sessionID_update),
      (TN_MSGID, into buildPCData hdr_msgID hdr_msgID_update),
      (TN_RESPURI, into buildPCData hdr_respURI hdr_respURI_update),
      (TN_TARGET, into buildTargetOrSource hdr_target hdr_target_update),
      (TN_SOURCE, into buildTargetOrSource hdr_source hdr_source_update),
      (TN_CRED, into buildCred hdr_cred hdr_cred_update),
      (TN_META, into buildPCData hdr_meta hdr_meta_update),
      (TN_NORESP, flag_case SmlNoResp_f hdr_flags_update)]
     [TN_SESSIONID, TN_MSGID, TN_TARGET, TN_SOURCE, TN_VERSION, TN_PROTO]"

text \<open>
  \<open>Sync\<close>, \<open>Atomic\<close> and \<open>Sequence\<close> end where their first command begins. A \<open>Sync\<close> without commands gives its
  end tag back; the other two must have a command.
\<close>

definition sync_cases :: "SmlSync cases" where
  "sync_cases =
     [(TN_CMDID, into buildPCData sy_cmdID sy_cmdID_update),
      (TN_META, into buildPCData sy_meta sy_meta_update),
      (TN_NUMBEROFCHANGES, into buildPCData sy_noc sy_noc_update),
      (TN_CRED, into buildCred sy_cred sy_cred_update),
      (TN_TARGET, into buildTargetOrSource sy_target sy_target_update),
      (TN_SOURCE, into buildTargetOrSource sy_source sy_source_update),
      (TN_NORESP, flag_case SmlNoResp_f sy_flags_update)]"

definition sync_breaks :: "XltTagID list" where
  "sync_breaks = [TN_ADD, TN_ATOMIC, TN_COPY, TN_DELETE, TN_SEQUENCE, TN_REPLACE]"

definition zero_sync :: SmlSync where
  "zero_sync = \<lparr>sy_cmdID = None, sy_flags = 0, sy_cred = None, sy_target = None, sy_source = None,
     sy_meta = None, sy_noc = None\<rparr>"

definition sync_end :: "SmlSync \<Rightarrow> XltDecoder \<Rightarrow> (ret \<times> SmlSync option \<times> XltDecoder) option" where
  "sync_end x d =
     (if tok_tagid (curtok d) \<noteq> TN_SYNC then Some (SML_ERR_XLT_INVAL_SYNCML_DOC, None, d)
      else do {
        (rc, d) \<leftarrow> dec_push (tok_tagid (curtok d)) d;
        if rc \<noteq> SML_ERR_OK then Some (SML_ERR_UNSPECIFIC, None, d)
        else do {
          (rc, d) \<leftarrow> dec_pushTok d;
          Some (rc, if rc = SML_ERR_OK then Some x else None, d)
        }
      })"

definition buildSync :: "SmlSync builder" where
  "buildSync p d =
     (if p \<noteq> None then Some (SML_ERR_XLT_INVAL_SYNCML_DOC, p, d)
      else let (ok, d) = dec_malloc d in
      if \<not> ok then Some (SML_ERR_NOT_ENOUGH_SPACE, None, d)
      else if IS_EMPTY (curtok d) then Some (SML_ERR_OK, None, d)
      else do {
        (rc, d) \<leftarrow> nextToken d;
        if rc \<noteq> SML_ERR_OK then Some (rc, None, d)
        else do {
          (rc, brk, x, seen, d) \<leftarrow> build_loop sync_breaks sync_cases zero_sync [] d;
          if rc \<noteq> SML_ERR_OK then Some (rc, None, d)
          else if \<not> brk then sync_end x d
          else Some (SML_ERR_OK, Some x, d)
        }
      })"

definition zero_atomic :: SmlAtomic where
  "zero_atomic = \<lparr>at_cmdID = None, at_flags = 0, at_meta = None\<rparr>"

definition atomic_cases :: "SmlAtomic cases" where
  "atomic_cases =
     [(TN_CMDID, into buildPCData at_cmdID at_cmdID_update),
      (TN_META, into buildPCData at_meta at_meta_update),
      (TN_NORESP, flag_case SmlNoResp_f at_flags_update)]"

definition atomic_breaks :: "XltTagID list" where
  "atomic_breaks = [TN_ADD, TN_REPLACE, TN_DELETE, TN_COPY, TN_ATOMIC, TN_MAP, TN_SYNC, TN_GET, TN_ALERT, TN_EXEC]"

definition buildAtomOrSeq :: "SmlAtomic builder" where
  "buildAtomOrSeq p d =
     (if p \<noteq> None then Some (SML_ERR_XLT_INVAL_SYNCML_DOC, p, d)
      else let (ok, d) = dec_malloc d in
      if \<not> ok then Some (SML_ERR_NOT_ENOUGH_SPACE, None, d)
      else if IS_EMPTY (curtok d) then Some (SML_ERR_XLT_INVAL_SYNCML_DOC, None, d)
      else do {
        (rc, d) \<leftarrow> nextToken d;
        if rc \<noteq> SML_ERR_OK then Some (rc, None, d)
        else do {
          (rc, brk, x, seen, d) \<leftarrow> build_loop atomic_breaks atomic_cases zero_atomic [] d;
          if rc \<noteq> SML_ERR_OK then Some (rc, None, d)
          else if \<not> brk \<or> TN_CMDID \<notin> set seen then Some (SML_ERR_XLT_INVAL_SYNCML_DOC, None, d)
          else Some (SML_ERR_OK, Some x, d)
        }
      })"

definition zero_exec :: SmlExec where
  "zero_exec = \<lparr>ex_cmdID = None, ex_flags = 0, ex_cred = None, ex_meta = None, ex_item = None, ex_correlator = None\<rparr>"

definition buildExec :: "SmlExec builder" where
  "buildExec = build_struct Empty_bad zero_exec
     [(TN_CMDID, into buildPCData ex_cmdID ex_cmdID_update),
      (TN_CORRELATOR, into buildPCData ex_correlator ex_correlator_update),
      (TN_META, into buildPCData ex_meta ex_meta_update),
      (TN_CRED, into buildCred ex_cred ex_cred_update),
      (TN_ITEM, into buildItem ex_item ex_item_update),
      (TN_NORESP, flag_case SmlNoResp_f ex_flags_update)] [TN_ITEM, TN_CMDID]"

definition zero_generic :: SmlGenericCmd where
  "zero_generic = \<lparr>gen_cmdID = None, gen_flags = 0, gen_cred = None, gen_meta = None, gen_itemList = []\<rparr>"

definition buildGenericCmd :: "SmlGenericCmd builder" where
  "buildGenericCmd = build_struct Empty_bad zero_generic
     [(TN_CMDID, into buildPCData gen_cmdID gen_cmdID_update),
      (TN_META, into buildPCData gen_meta gen_meta_update),
      (TN_CRED, into buildCred gen_cred gen_cred_update),
      (TN_NORESP, flag_case SmlNoResp_f gen_flags_update),
      (TN_ARCHIVE, flag_case SmlArchive_f gen_flags_update),
      (TN_SFTDEL, flag_case SmlSftDel_f gen_flags_update),
      (TN_ITEM, into_list appendItemList gen_itemList gen_itemList_update)] [TN_ITEM, TN_CMDID]"

definition zero_alert :: SmlAlert where
  "zero_alert = \<lparr>al_cmdID = None, al_flags = 0, al_cred = None, al_data = None, al_itemList = [], al_correlator = None\<rparr>"

definition buildAlert :: "SmlAlert builder" where
  "buildAlert = build_struct Empty_bad zero_alert
     [(TN_CMDID, into buildPCData al_cmdID al_cmdID_update),
      (TN_CORRELATOR, into buildPCData al_correlator al_correlator_update),
      (TN_DATA, into buildPCData al_data al_data_update),
      (TN_CRED, into buildCred al_cred al_cred_update),
      (TN_NORESP, flag_case SmlNoResp_f al_flags_update),
      (TN_ITEM, into_list appendItemList al_itemList al_itemList_update)] [TN_CMDID]"

definition zero_map :: SmlMap where
  "zero_map = \<lparr>mp_cmdID = None, mp_target = None, mp_source = None, mp_cred = None, mp_meta = None, mp_mapItemList = []\<rparr>"

definition buildMap :: "SmlMap builder" where
  "buildMap = build_struct Empty_bad zero_map
     [(TN_CMDID, into buildPCData mp_cmdID mp_cmdID_update),
      (TN_META, into buildPCData mp_meta mp_meta_update),
      (TN_CRED, into buildCred mp_cred mp_cred_update),
      (TN_SOURCE, into buildTargetOrSource mp_source mp_source_update),
      (TN_TARGET, into buildTargetOrSource mp_target mp_target_update),
      (TN_MAPITEM, into_list appendMapItemList mp_mapItemList mp_mapItemList_update)]
     [TN_SOURCE, TN_MAPITEM, TN_TARGET, TN_CMDID]"

definition zero_search :: SmlSearch where
  "zero_search = \<lparr>se_cmdID = None, se_flags = 0, se_cred = None, se_target = None, se_sourceList = [],
     se_lang = None, se_meta = None, se_data = None\<rparr>"

definition buildSearch :: "SmlSearch builder" where
  "buildSearch = build_struct Empty_bad zero_search
     [(TN_CMDID, into buildPCData se_cmdID se_cmdID_update),
      (TN_LANG, into buildPCData se_lang se_lang_update),
      (TN_META, into buildPCData se_meta se_meta_update),
      (TN_DATA, into buildPCData se_data se_data_update),
      (TN_CRED, into buildCred se_cred se_cred_update),
      (TN_TARGET, into buildTargetOrSource se_target se_target_update),
      (TN_NORESP, flag_case SmlNoResp_f se_flags_update),
      (TN_NORESULTS, flag_case SmlNoResults_f se_flags_update),
      (TN_SOURCE, into_list appendSourceList se_sourceList se_sourceList_update)]
     [TN_SOURCE, TN_META, TN_DATA, TN_CMDID]"

definition zero_getput :: SmlGetPut where
  "zero_getput = \<lparr>gp_cmdID = None, gp_flags = 0, gp_lang = None, gp_cred = None, gp_meta = None, gp_itemList = []\<rparr>"

definition buildPutOrGet :: "SmlGetPut builder" where
  "buildPutOrGet = build_struct Empty_bad zero_getput
     [(TN_CMDID, into buildPCData gp_cmdID gp_cmdID_update),
      (TN_LANG, into buildPCData gp_lang gp_lang_update),
      (TN_META, into buildPCData gp_meta gp_meta_update),
      (TN_CRED, into buildCred gp_cred gp_cred_update),
      (TN_NORESP, flag_case SmlNoResp_f gp_flags_update),
      (TN_ITEM, into_list appendItemList gp_itemList gp_itemList_update)] [TN_ITEM, TN_CMDID]"

definition zero_status :: SmlStatus where
  "zero_status = \<lparr>st_cmdID = None, st_msgRef = None, st_cmdRef = None, st_cmd = None, st_targetRefList = [],
     st_sourceRefList = [], st_cred = None, st_chal = None, st_data = None, st_itemList = []\<rparr>"

definition buildStatus :: "SmlStatus builder" where
  "buildStatus = build_struct Empty_bad zero_status
     [(TN_CMDID, into buildPCData st_cmdID st_cmdID_update),
      (TN_MSGREF, into buildPCData st_msgRef st_msgRef_update),
      (TN_CMDREF, into buildPCData st_cmdRef st_cmdRef_update),
      (TN_CMD, into buildPCData st_cmd st_cmd_update),
      (TN_DATA, into buildPCData st_data st_data_update),
      (TN_CHAL, into buildChal st_chal st_chal_update),
      (TN_CRED, into buildCred st_cred st_cred_update),
      (TN_ITEM, into_list appendItemList st_itemList st_itemList_update),
      (TN_TARGETREF, into_list appendTargetRefList st_targetRefList st_targetRefList_update),
      (TN_SOURCEREF, into_list appendSourceRefList st_sourceRefList st_sourceRefList_update)]
     [TN_CMD, TN_DATA, TN_CMDID]"

definition zero_results :: SmlResults where
  "zero_results = \<lparr>rs_cmdID = None, rs_msgRef = None, rs_cmdRef = None, rs_meta = None, rs_targetRef = None,
     rs_sourceRef = None, rs_itemList = []\<rparr>"

definition buildResults :: "SmlResults builder" where
  "buildResults = build_struct Empty_bad zero_results
     [(TN_CMDID, into buildPCData rs_cmdID rs_cmdID_update),
      (TN_MSGREF, into buildPCData rs_msgRef rs_msgRef_update),
      (TN_CMDREF, into buildPCData rs_cmdRef rs_cmdRef_update),
      (TN_META, into buildPCData rs_meta rs_meta_update),
      (TN_TARGETREF, into buildPCData rs_targetRef rs_targetRef_update),
      (TN_SOURCEREF, into buildPCData rs_sourceRef rs_sourceRef_update),
      (TN_ITEM, into_list appendItemList rs_itemList rs_itemList_update)] [TN_CMDREF, TN_ITEM, TN_CMDID]"

section \<open>The document\<close>

text \<open>A builder of the table of protocol elements works on the untyped content pointer.\<close>

definition elem_builder :: "('a \<Rightarrow> sml_elem) \<Rightarrow> 'a builder \<Rightarrow> sml_elem builder" where
  "elem_builder f build p d =
     (if p \<noteq> None then Some (SML_ERR_XLT_INVAL_SYNCML_DOC, p, d)
      else do { (rc, x, d) \<leftarrow> build None d; Some (rc, map_option f x, d) })"

definition getPETable :: "(XltTagID \<times> SmlProtoElement \<times> sml_elem builder) list" where
  "getPETable =
     [(TN_ADD, SML_PE_ADD, elem_builder El_generic buildGenericCmd),
      (TN_ALERT, SML_PE_ALERT, elem_builder El_alert buildAlert),
      (TN_ATOMIC, SML_PE_ATOMIC_START, elem_builder El_atomic buildAtomOrSeq),
      (TN_COPY, SML_PE_COPY, elem_builder El_generic buildGenericCmd),
      (TN_DELETE, SML_PE_DELETE, elem_builder El_generic buildGenericCmd),
      (TN_EXEC, SML_PE_EXEC, elem_builder El_exec buildExec),
      (TN_GET, SML_PE_GET, elem_builder El_getput buildPutOrGet),
      (TN_MAP, SML_PE_MAP, elem_builder El_map buildMap),
      (TN_PUT, SML_PE_PUT, elem_builder El_getput buildPutOrGet),
      (TN_RESULTS, SML_PE_RESULTS, elem_builder El_results buildResults),
      (TN_SEARCH, SML_PE_SEARCH, elem_builder El_search buildSearch),
      (TN_SEQUENCE, SML_PE_SEQUENCE_START, elem_builder El_atomic buildAtomOrSeq),
      (TN_STATUS, SML_PE_STATUS, elem_builder El_status buildStatus),
      (TN_SYNC, SML_PE_SYNC_START, elem_builder El_sync buildSync),
      (TN_REPLACE, SML_PE_REPLACE, elem_builder El_generic buildGenericCmd)]"

text \<open>
  \<open>xltDecTerminate\<close> frees the decoder, its scanner and its stack. \<open>xltDecInit\<close> for a document in XML is
  outside the model; \<open>ppSyncHdr\<close> is the header that the caller may already have.
\<close>

definition xltDecTerminate :: "XltDecoder option \<Rightarrow> ret \<times> XltDecoder option" where
  "xltDecTerminate p = (case p of None \<Rightarrow> (SML_ERR_OK, None) | Some d \<Rightarrow> (SML_ERR_OK, None))"

definition new_decoder :: "Heap \<Rightarrow> wbxmlScanner \<Rightarrow> XltTagID ArrayStack \<Rightarrow> XltDecoder" where
  "new_decoder h s st =
     \<lparr>xd_charset = sc_charset s, xd_finished = False, xd_final = False, xd_scanner = s, xd_tagstack = st,
      xd_smlEncoding = fst (hp_encodings h), xd_tndsEncoding = snd (hp_encodings h), xd_heap = h\<rparr>"

text \<open>\<open>None\<close> for the decoder: \<open>*ppDecoder\<close> is not written.\<close>

type_synonym dec_init = "(ret \<times> int \<times> XltDecoder option \<times> SmlSyncHdr option \<times> TokTbl) option"

definition init_header :: "int \<Rightarrow> SmlSyncHdr option \<Rightarrow> XltDecoder \<Rightarrow> dec_init" where
  "init_header pos hdr d = do {
     (rc, d) \<leftarrow> nextToken d;
     if rc \<noteq> SML_ERR_OK then Some (rc, pos, snd (xltDecTerminate (Some d)), hdr, dec_tok d)
     else if \<not> IS_START (curtok d) \<or> tok_tagid (curtok d) \<noteq> TN_SYNCML then do {
       p \<leftarrow> pcdata_free (tok_pcdata (curtok d));
       Some (SML_ERR_XLT_INVAL_SYNCML_DOC, pos, snd (xltDecTerminate (Some d)), hdr, dec_tok d)
     }
     else do {
       (rc, d) \<leftarrow> nextToken d;
       if rc \<noteq> SML_ERR_OK then Some (rc, pos, snd (xltDecTerminate (Some d)), hdr, dec_tok d)
       else do {
         (rc, hdr, d) \<leftarrow> buildSyncHdr hdr d;
         if rc \<noteq> SML_ERR_OK then Some (rc, pos, snd (xltDecTerminate (Some d)), hdr, dec_tok d)
         else Some (SML_ERR_OK, getPos (xd_scanner d), Some d, hdr, dec_tok d)
       }
     }
   }"

definition xltDecInit ::
    "SmlEncoding \<Rightarrow> byte list \<Rightarrow> int \<Rightarrow> int \<Rightarrow> SmlSyncHdr option \<Rightarrow> Heap \<Rightarrow> TokTbl \<Rightarrow> dec_init" where
  "xltDecInit enc mem bufend pos hdr h g =
     (let (ok, g) = tok_malloc g in
      if \<not> ok then Some (SML_ERR_NOT_ENOUGH_SPACE, pos, None, hdr, g)
      else let (ok1, g) = tok_malloc g; (ok2, g) = (if ok1 then tok_malloc g else (False, g)) in
      case xltUtilCreateStack ok1 ok2 10 of
        (rc, None) \<Rightarrow> Some (rc, pos, None, hdr, g)
      | (_, Some st) \<Rightarrow>
          (case enc of
             SML_WBXML \<Rightarrow> do {
               (rc, sc, g) \<leftarrow> xltDecWbxmlInit mem bufend pos g;
               case sc of
                 None \<Rightarrow> Some (rc, pos, None, hdr, g)
               | Some s \<Rightarrow> init_header pos hdr (new_decoder h (s\<lparr>sc_tok := g\<rparr>) st)
             }
           | SML_XML \<Rightarrow> None
           | _ \<Rightarrow> Some (SML_ERR_XLT_ENC_UNK, pos, None, hdr, g)))"

text \<open>The elements that are recognised by their end tag, and the final flag.\<close>

definition end_element :: "SmlProtoElement \<Rightarrow> XltDecoder \<Rightarrow> (ret \<times> SmlProtoElement \<times> XltDecoder) option" where
  "end_element pe d =
     (let i = tok_tagid (curtok d) in
      if i = TN_ATOMIC then Some (SML_ERR_OK, SML_PE_ATOMIC_END, d)
      else if i = TN_SEQUENCE then Some (SML_ERR_OK, SML_PE_SEQUENCE_END, d)
      else if i = TN_SYNC then Some (SML_ERR_OK, SML_PE_SYNC_END, d)
      else if i = TN_FINAL then Some (SML_ERR_OK, SML_PE_FINAL, d\<lparr>xd_final := True\<rparr>)
      else if i = TN_SYNCBODY then do {
        (rc, d) \<leftarrow> nextToken d;
        if rc \<noteq> SML_ERR_OK then Some (rc, pe, d)
        else if IS_END_TOK (curtok d) \<and> tok_tagid (curtok d) = TN_SYNCML
        then Some (SML_ERR_OK, SML_PE_UNDEF, d\<lparr>xd_finished := True\<rparr>)
        else Some (SML_ERR_XLT_INVAL_SYNCML_DOC, pe, d)
      }
      else Some (SML_ERR_XLT_INVAL_PROTO_ELEM, pe, d))"

definition pe_element ::
    "SmlProtoElement \<Rightarrow> sml_elem option \<Rightarrow> XltDecoder \<Rightarrow> (ret \<times> SmlProtoElement \<times> sml_elem option \<times> XltDecoder) option" where
  "pe_element pe c d =
     (let (ok, d) = dec_malloc d in
      if \<not> ok then Some (SML_ERR_NOT_ENOUGH_SPACE, pe, c, d)
      else case map_of getPETable (tok_tagid (curtok d)) of
        None \<Rightarrow> Some (SML_ERR_XLT_INVAL_PROTO_ELEM, SML_PE_UNDEF, None, d)
      | Some (pe, build) \<Rightarrow> do { (rc, c, d) \<leftarrow> build c d; Some (rc, pe, c, d) })"

text \<open>Outside the body the start tag of the body comes first.\<close>

definition enter_body :: "XltDecoder \<Rightarrow> dec" where
  "enter_body d = do {
     (rc, tagid) \<leftarrow> stack_top (xd_tagstack d);
     if rc \<noteq> SML_ERR_OK then Some (rc, d)
     else if tagid = Some TN_SYNCML then do {
       (rc, d) \<leftarrow> nextToken d;
       if rc \<noteq> SML_ERR_OK then Some (rc, d)
       else if \<not> (IS_START (curtok d) \<and> tok_tagid (curtok d) = TN_SYNCBODY)
       then Some (SML_ERR_XLT_INVAL_PROTO_ELEM, d)
       else Some (SML_ERR_OK, d)
     }
     else Some (SML_ERR_OK, d)
   }"

type_synonym dec_next = "(ret \<times> int \<times> SmlProtoElement \<times> sml_elem option \<times> XltDecoder) option"

definition xltDecNext ::
    "byte list \<Rightarrow> int \<Rightarrow> int \<Rightarrow> SmlProtoElement \<Rightarrow> sml_elem option \<Rightarrow> XltDecoder \<Rightarrow> dec_next" where
  "xltDecNext mem bufend pos pe c d = do {
     let d = d\<lparr>xd_scanner := setBuf mem pos bufend (xd_scanner d)\<rparr>;
     (rc, d) \<leftarrow> enter_body d;
     if rc \<noteq> SML_ERR_OK then Some (rc, pos, pe, c, d)
     else do {
       (rc, d) \<leftarrow> nextToken d;
       if rc \<noteq> SML_ERR_OK then Some (rc, pos, pe, c, d)
       else do {
         (rc, pe, c, d) \<leftarrow>
           (if IS_START_OR_EMPTY (curtok d) \<and> tok_tagid (curtok d) \<noteq> TN_FINAL then pe_element pe c d
            else do { (rc, pe, d) \<leftarrow> end_element pe d; Some (rc, pe, if rc = SML_ERR_OK then None else c, d) });
         Some (rc, if rc = SML_ERR_OK then getPos (xd_scanner d) else pos, pe, c, d)
       }
     }
   }"

end
