(* ===== verification/Encoder_SubDtd.thy ===== *)
theory Encoder_SubDtd
  imports Sml_Elements
begin

text \<open>
  Writing character data and the sub-DTDs: \<open>xltEncPcdata\<close>, \<open>xltBuildExtention\<close> and \<open>subdtdEncWBXML\<close> of
  \<open>xltenc.c\<close>, \<open>metinfEncBlock\<close> (\<open>xltmetinf.c\<close>), \<open>dmtndEncBlock\<close> (\<open>xltdmtnd.c\<close>) and \<open>devinfEncBlock\<close>
  (\<open>xltdevinf.c\<close>).

  Every recursive call of a block encoder names its tag, so each case of its \<open>switch\<close> is a definition
  of its own and a call is a call of that definition. \<open>enc_elem\<close> is the test of the content pointer
  with which a block encoder begins and \<open>enc_seq\<close> a series of calls with an early return.
\<close>

section \<open>Calls and early returns\<close>

fun enc_seq :: "(BufferMgmt \<Rightarrow> enc_result) list \<Rightarrow> BufferMgmt \<Rightarrow> enc_result" where
  "enc_seq [] b = Some (SML_ERR_OK, b)"
| "enc_seq (f # fs) b = enc_then (f b) (enc_seq fs)"

definition enc_fail :: "ret \<Rightarrow> BufferMgmt \<Rightarrow> enc_result" where
  "enc_fail r b = Some (r, b)"

definition enc_elem :: "XltRO \<Rightarrow> 'a option \<Rightarrow> ('a \<Rightarrow> BufferMgmt \<Rightarrow> enc_result) \<Rightarrow> BufferMgmt \<Rightarrow> enc_result" where
  "enc_elem reqOptFlag pContent f b =
     (case pContent of
        None \<Rightarrow> Some (if reqOptFlag = REQUIRED then SML_ERR_XLT_MISSING_CONT else SML_ERR_OK, b)
      | Some x \<Rightarrow> f x b)"

text \<open>The empty elements that stand for a bit of a flag word.\<close>

definition enc_flag :: "XltTagID \<Rightarrow> Flag \<Rightarrow> Flag \<Rightarrow> SmlEncoding \<Rightarrow> SmlPcdataExtension \<Rightarrow> BufferMgmt \<Rightarrow> enc_result" where
  "enc_flag tagId f flags enc ext b =
     (if flags AND f \<noteq> 0 then xltGenerateTag tagId TT_ALL enc ext b else Some (SML_ERR_OK, b))"

section \<open>Character data\<close>

text \<open>
  \<open>as_bytes\<close> is \<open>None\<close> for a pointer to something that is not a block of bytes, and \<open>build\<close> is the call
  of \<open>xltBuildExtention\<close>.
\<close>

definition content_ptr :: "('c \<Rightarrow> byte list option) \<Rightarrow> 'c option \<Rightarrow> byte list option option" where
  "content_ptr as_bytes p = (case p of None \<Rightarrow> Some None | Some c \<Rightarrow> map_option Some (as_bytes c))"

definition empty_pcdata :: "'c Pcdata \<Rightarrow> bool" where
  "empty_pcdata p \<longleftrightarrow> pd_contentType p = SML_PCDATA_UNDEFINED \<and> pd_extension p = SML_EXT_UNDEFINED \<and>
     pd_length p = 0 \<and> pd_content p = None"

definition pcdata_wbxml ::
    "('c \<Rightarrow> byte list option) \<Rightarrow> (SmlPcdataExtension \<Rightarrow> 'c option \<Rightarrow> BufferMgmt \<Rightarrow> enc_result) \<Rightarrow>
     'c Pcdata \<Rightarrow> BufferMgmt \<Rightarrow> enc_result" where
  "pcdata_wbxml as_bytes build p b =
     (case pd_contentType p of
        SML_PCDATA_STRING \<Rightarrow> do {
          q \<leftarrow> content_ptr as_bytes (pd_content p);
          wbxmlWriteTypeToBuffer q STR_I_elem (pd_length p) b
        }
      | SML_PCDATA_EXTENSION \<Rightarrow> build (pd_extension p) (pd_content p) b
      | SML_PCDATA_UNDEFINED \<Rightarrow>
          Some (if empty_pcdata p then SML_ERR_OK else SML_ERR_XLT_INVAL_PCDATA_TYPE, b)
      | _ \<Rightarrow> do {
          q \<leftarrow> content_ptr as_bytes (pd_content p);
          wbxmlWriteTypeToBuffer q OPAQUE_elem (pd_length p) b
        })"

definition pcdata_xml ::
    "('c \<Rightarrow> byte list option) \<Rightarrow> (SmlPcdataExtension \<Rightarrow> 'c option \<Rightarrow> BufferMgmt \<Rightarrow> enc_result) \<Rightarrow>
     'c Pcdata \<Rightarrow> BufferMgmt \<Rightarrow> enc_result" where
  "pcdata_xml as_bytes build p b =
     (case pd_contentType p of
        SML_PCDATA_CDATA \<Rightarrow>
          enc_then (add_bytes (bytes_of ''<![CDATA['') b) (\<lambda>b. do {
            q \<leftarrow> content_ptr as_bytes (pd_content p);
            enc_then (xltAddToBuffer q (pd_length p) b) (add_bytes (bytes_of '']]>''))
          })
      | SML_PCDATA_EXTENSION \<Rightarrow> build (pd_extension p) (pd_content p) b
      | SML_PCDATA_UNDEFINED \<Rightarrow>
          Some (if empty_pcdata p then SML_ERR_OK else SML_ERR_XLT_INVAL_PCDATA_TYPE, b)
      | _ \<Rightarrow> do {
          q \<leftarrow> content_ptr as_bytes (pd_content p);
          xltAddToBuffer q (pd_length p) b
        })"

definition xltEncPcdata ::
    "('c \<Rightarrow> byte list option) \<Rightarrow> (SmlPcdataExtension \<Rightarrow> 'c option \<Rightarrow> BufferMgmt \<Rightarrow> enc_result) \<Rightarrow>
     XltTagID \<Rightarrow> SmlEncoding \<Rightarrow> SmlPcdataExtension \<Rightarrow> 'c Pcdata \<Rightarrow> BufferMgmt \<Rightarrow> enc_result" where
  "xltEncPcdata as_bytes build tagId enc attFlag p =
     enc_seq
      [xltGenerateTag tagId TT_BEG enc attFlag,
       (case enc of
          SML_WBXML \<Rightarrow> pcdata_wbxml as_bytes build p
        | SML_XML \<Rightarrow> pcdata_xml as_bytes build p
        | _ \<Rightarrow> enc_fail SML_ERR_XLT_ENC_UNK),
       xltGenerateTag tagId TT_END enc attFlag]"

text \<open>
  The default case of the sub-DTD encoders. A sub-DTD inside the leaf of a sub-DTD is outside the
  model: the call is \<open>None\<close>.
\<close>

definition enc_leaf :: "XltTagID \<Rightarrow> XltRO \<Rightarrow> leaf option \<Rightarrow> SmlEncoding \<Rightarrow> SmlPcdataExtension \<Rightarrow> BufferMgmt \<Rightarrow> enc_result" where
  "enc_leaf tagId ro p enc ext = enc_elem ro p (xltEncPcdata Some (\<lambda>_ _ _. None) tagId enc ext)"

section \<open>Meta information\<close>

definition metinf_leaf :: "SmlEncoding \<Rightarrow> XltTagID \<Rightarrow> XltRO \<Rightarrow> leaf option \<Rightarrow> BufferMgmt \<Rightarrow> enc_result" where
  "metinf_leaf enc tagId ro p = enc_leaf tagId ro p enc SML_EXT_METINF"

definition metinf_anchor :: "SmlEncoding \<Rightarrow> SmlMetInfAnchor \<Rightarrow> BufferMgmt \<Rightarrow> enc_result" where
  "metinf_anchor enc a = enc_seq
     [xltGenerateTag TN_METINF_ANCHOR TT_BEG enc SML_EXT_METINF,
      metinf_leaf enc TN_METINF_LAST OPTIONAL (mia_last a),
      metinf_leaf enc TN_METINF_NEXT REQUIRED (mia_next a),
      xltGenerateTag TN_METINF_ANCHOR TT_END enc SML_EXT_METINF]"

text \<open>
  \<open>TN_METINF_SHAREDMEM\<close> reads its content as a flag word, but the field holds character data: the
  word read is the low half of \<open>contentType\<close>.
\<close>

definition content_type_word :: "SmlPcdataType \<Rightarrow> Flag" where
  "content_type_word t =
     (case t of SML_PCDATA_UNDEFINED \<Rightarrow> 0 | SML_PCDATA_STRING \<Rightarrow> 1 | SML_PCDATA_OPAQUE \<Rightarrow> 2
      | SML_PCDATA_EXTENSION \<Rightarrow> 3 | SML_PCDATA_CDATA \<Rightarrow> 4)"

definition metinf_mem :: "SmlEncoding \<Rightarrow> SmlMetInfMem \<Rightarrow> BufferMgmt \<Rightarrow> enc_result" where
  "metinf_mem enc m = enc_seq
     [xltGenerateTag TN_METINF_MEM TT_BEG enc SML_EXT_METINF,
      enc_elem OPTIONAL (mim_shared m) (\<lambda>p. enc_flag TN_METINF_SHAREDMEM SmlMetInfSharedMem_f
        (content_type_word (pd_contentType p)) enc SML_EXT_METINF),
      metinf_leaf enc TN_METINF_FREEMEM REQUIRED (mim_free m),
      metinf_leaf enc TN_METINF_FREEID REQUIRED (mim_freeid m),
      xltGenerateTag TN_METINF_MEM TT_END enc SML_EXT_METINF]"

definition metinf_metinf :: "SmlEncoding \<Rightarrow> SmlMetInfMetInf \<Rightarrow> BufferMgmt \<Rightarrow> enc_result" where
  "metinf_metinf enc m = enc_seq
     ([metinf_leaf enc TN_METINF_FORMAT OPTIONAL (mi_format m),
       metinf_leaf enc TN_METINF_TYPE OPTIONAL (mi_type m),
       metinf_leaf enc TN_METINF_MARK OPTIONAL (mi_mark m),
       metinf_leaf enc TN_METINF_SIZE OPTIONAL (mi_size m),
       enc_elem OPTIONAL (mi_anchor m) (metinf_anchor enc),
       metinf_leaf enc TN_METINF_VERSION OPTIONAL (mi_version m),
       metinf_leaf enc TN_METINF_NEXTNONCE OPTIONAL (mi_nextnonce m),
       metinf_leaf enc TN_METINF_MAXMSGSIZE OPTIONAL (mi_maxmsgsize m),
       metinf_leaf enc TN_METINF_MAXOBJSIZE OPTIONAL (mi_maxobjsize m)] @
      map (metinf_leaf enc TN_METINF_EMI OPTIONAL) (mi_emi m) @
      [enc_elem OPTIONAL (mi_mem m) (metinf_mem enc)])"

definition metinfEncBlock :: "XltRO \<Rightarrow> SmlMetInfMetInf option \<Rightarrow> SmlEncoding \<Rightarrow> BufferMgmt \<Rightarrow> enc_result" where
  "metinfEncBlock ro p enc = enc_elem ro p (metinf_metinf enc)"

section \<open>Management trees\<close>

definition dmtnd_leaf :: "SmlEncoding \<Rightarrow> XltTagID \<Rightarrow> XltRO \<Rightarrow> leaf option \<Rightarrow> BufferMgmt \<Rightarrow> enc_result" where
  "dmtnd_leaf enc tagId ro p = enc_leaf tagId ro p enc SML_EXT_DMTND"

text \<open>
  The format is the tag whose name is the C string of the value. \<open>strcmp\<close> reads the value up to its
  zero byte and is \<open>None\<close> here when there is none.
\<close>

fun c_str :: "byte list \<Rightarrow> byte list option" where
  "c_str [] = None"
| "c_str (c # cs) = (if c = 0 then Some [] else map_option (\<lambda>s. c # s) (c_str cs))"

definition format_tags :: "(byte list \<times> XltTagID) list" where
  "format_tags =
     [(bytes_of ''b64'', TN_DMTND_b64), (bytes_of ''bin'', TN_DMTND_bin), (bytes_of ''bool'', TN_DMTND_bool),
      (bytes_of ''chr'', TN_DMTND_chr), (bytes_of ''int'', TN_DMTND_int), (bytes_of ''node'', TN_DMTND_node),
      (bytes_of ''null'', TN_DMTND_null), (bytes_of ''xml'', TN_DMTND_xml), (bytes_of ''date'', TN_DMTND_date),
      (bytes_of ''time'', TN_DMTND_time), (bytes_of ''float'', TN_DMTND_float)]"

definition dmtnd_format :: "SmlEncoding \<Rightarrow> SmlDmTndFormat \<Rightarrow> BufferMgmt \<Rightarrow> enc_result" where
  "dmtnd_format enc f b =
     (case Option.bind (tf_value f) pd_content of
        None \<Rightarrow> Some (SML_ERR_OK, b)
      | Some bs \<Rightarrow>
          enc_then (xltGenerateTag TN_DMTND_Format TT_BEG enc SML_EXT_DMTND b) (\<lambda>b. do {
            s \<leftarrow> c_str bs;
            (case map_of format_tags s of
               None \<Rightarrow> Some (SML_ERR_XLT_INVAL_SYNCML_DOC, b)
             | Some tagId \<Rightarrow> enc_seq
                 [xltGenerateTag tagId TT_ALL enc SML_EXT_DMTND,
                  xltGenerateTag TN_DMTND_Format TT_END enc SML_EXT_DMTND] b)
          }))"

definition dmtnd_type :: "SmlEncoding \<Rightarrow> SmlDmTndType \<Rightarrow> BufferMgmt \<Rightarrow> enc_result" where
  "dmtnd_type enc t = enc_seq
     [xltGenerateTag TN_DMTND_Type TT_BEG enc SML_EXT_DMTND,
      (if tt_mime t \<noteq> None then dmtnd_leaf enc TN_DMTND_MIME OPTIONAL (tt_mime t)
       else if tt_ddfname t \<noteq> None then dmtnd_leaf enc TN_DMTND_DDFName OPTIONAL (tt_ddfname t)
       else enc_fail SML_ERR_OK),
      xltGenerateTag TN_DMTND_Type TT_END enc SML_EXT_DMTND]"

definition dmtnd_rtprops :: "SmlEncoding \<Rightarrow> SmlDmTndRTProps \<Rightarrow> BufferMgmt \<Rightarrow> enc_result" where
  "dmtnd_rtprops enc r = enc_seq
     [xltGenerateTag TN_DMTND_RTProperties TT_BEG enc SML_EXT_DMTND,
      dmtnd_leaf enc TN_DMTND_ACL OPTIONAL (rt_acl r),
      enc_elem OPTIONAL (rt_format r) (dmtnd_format enc),
      dmtnd_leaf enc TN_DMTND_Name OPTIONAL (rt_name r),
      dmtnd_leaf enc TN_DMTND_Size OPTIONAL (rt_size r),
      dmtnd_leaf enc TN_DMTND_Title OPTIONAL (rt_title r),
      dmtnd_leaf enc TN_DMTND_TStamp OPTIONAL (rt_tstamp r),
      enc_elem REQUIRED (rt_type r) (dmtnd_type enc),
      dmtnd_leaf enc TN_DMTND_VerNo OPTIONAL (rt_verno r),
      xltGenerateTag TN_DMTND_RTProperties TT_END enc SML_EXT_DMTND]"

lemma enc_elem_cong [fundef_cong]:
  "ro = ro' \<Longrightarrow> p = p' \<Longrightarrow> (\<And>x. p' = Some x \<Longrightarrow> f x = g x) \<Longrightarrow> enc_elem ro p f = enc_elem ro' p' g"
  by (auto simp: enc_elem_def fun_eq_iff split: option.splits)

fun dmtnd_node :: "SmlEncoding \<Rightarrow> SmlDmTndNode \<Rightarrow> BufferMgmt \<Rightarrow> enc_result" where
  "dmtnd_node enc (DmTndNode nodename path rtprops dfprops value nodelist) = enc_seq
     ([xltGenerateTag TN_DMTND_Node TT_BEG enc SML_EXT_DMTND,
       dmtnd_leaf enc TN_DMTND_NodeName REQUIRED nodename,
       dmtnd_leaf enc TN_DMTND_Path OPTIONAL path,
       enc_elem OPTIONAL rtprops (dmtnd_rtprops enc),
       dmtnd_leaf enc TN_DMTND_Value OPTIONAL value] @
      map (\<lambda>n. enc_elem OPTIONAL n (dmtnd_node enc)) nodelist @
      [xltGenerateTag TN_DMTND_Node TT_END enc SML_EXT_DMTND])"

definition dmtnd_tree :: "SmlEncoding \<Rightarrow> SmlDmTnd \<Rightarrow> BufferMgmt \<Rightarrow> enc_result" where
  "dmtnd_tree enc t = enc_seq
     ([xltGenerateTag TN_DMTND_MgmtTree TT_BEG enc SML_EXT_DMTND,
       dmtnd_leaf enc TN_DMTND_VerDTD REQUIRED (tnd_verdtd t),
       dmtnd_leaf enc TN_DMTND_Man OPTIONAL (tnd_man t),
       dmtnd_leaf enc TN_DMTND_Mod OPTIONAL (tnd_mod t)] @
      map (\<lambda>n. enc_elem OPTIONAL n (dmtnd_node enc)) (tnd_nodelist t) @
      [xltGenerateTag TN_DMTND_MgmtTree TT_END enc SML_EXT_DMTND])"

definition dmtndEncBlock :: "XltRO \<Rightarrow> SmlDmTnd option \<Rightarrow> SmlEncoding \<Rightarrow> BufferMgmt \<Rightarrow> enc_result" where
  "dmtndEncBlock ro p enc = enc_elem ro p (dmtnd_tree enc)"

section \<open>Device information\<close>

definition devinf_leaf :: "SmlEncoding \<Rightarrow> XltTagID \<Rightarrow> XltRO \<Rightarrow> leaf option \<Rightarrow> BufferMgmt \<Rightarrow> enc_result" where
  "devinf_leaf enc tagId ro p = enc_leaf tagId ro p enc SML_EXT_DEVINF"

definition devinf_ext :: "SmlEncoding \<Rightarrow> SmlDevInfExt \<Rightarrow> BufferMgmt \<Rightarrow> enc_result" where
  "devinf_ext enc x = enc_seq
     ([xltGenerateTag TN_DEVINF_EXT TT_BEG enc SML_EXT_DEVINF,
       devinf_leaf enc TN_DEVINF_XNAM REQUIRED (dix_xnam x)] @
      map (devinf_leaf enc TN_DEVINF_XVAL OPTIONAL) (dix_xval x) @
      [xltGenerateTag TN_DEVINF_EXT TT_END enc SML_EXT_DEVINF])"

definition devinf_synccap :: "SmlEncoding \<Rightarrow> SmlDevInfSyncCap \<Rightarrow> BufferMgmt \<Rightarrow> enc_result" where
  "devinf_synccap enc x = enc_seq
     ([xltGenerateTag TN_DEVINF_SYNCCAP TT_BEG enc SML_EXT_DEVINF] @
      map (devinf_leaf enc TN_DEVINF_SYNCTYPE OPTIONAL) (dis_synctype x) @
      [xltGenerateTag TN_DEVINF_SYNCCAP TT_END enc SML_EXT_DEVINF])"

text \<open>A property or a parameter of a content type: the name, the values or their type, the display name.\<close>

definition devinf_ctdata :: "SmlEncoding \<Rightarrow> XltTagID \<Rightarrow> SmlDevInfCTData \<Rightarrow> BufferMgmt \<Rightarrow> enc_result" where
  "devinf_ctdata enc nameTag d = enc_seq
     ([devinf_leaf enc nameTag REQUIRED (did_name d)] @
      (if did_valenum d \<noteq> [] \<and> did_datatype d \<noteq> None then [enc_fail SML_ERR_XLT_INVAL_INPUT_DATA]
       else if did_valenum d \<noteq> [] then map (devinf_leaf enc TN_DEVINF_VALENUM REQUIRED) (did_valenum d)
       else if did_datatype d \<noteq> None then
         [devinf_leaf enc TN_DEVINF_DATATYPE REQUIRED (did_datatype d),
          devinf_leaf enc TN_DEVINF_SIZE OPTIONAL (did_size d)]
       else []) @
      [devinf_leaf enc TN_DEVINF_DISPLAYNAME OPTIONAL (did_dname d)])"

text \<open>The entries of the list of parameters are read without a test for null.\<close>

definition devinf_param :: "SmlEncoding \<Rightarrow> SmlDevInfCTData option \<Rightarrow> BufferMgmt \<Rightarrow> enc_result" where
  "devinf_param enc p b = do { d \<leftarrow> p; devinf_ctdata enc TN_DEVINF_PARAMNAME d b }"

definition devinf_prop :: "SmlEncoding \<Rightarrow> SmlDevInfCTDataProp option \<Rightarrow> BufferMgmt \<Rightarrow> enc_result" where
  "devinf_prop enc p =
     (case Option.bind p dip_prop of
        None \<Rightarrow> enc_fail SML_ERR_XLT_INVAL_INPUT_DATA
      | Some d \<Rightarrow> enc_seq (devinf_ctdata enc TN_DEVINF_PROPNAME d # map (devinf_param enc) (dip_param (the p))))"

definition devinf_ctcap_entry :: "SmlEncoding \<Rightarrow> SmlDevInfCTCap option \<Rightarrow> BufferMgmt \<Rightarrow> enc_result" where
  "devinf_ctcap_entry enc c =
     (case c of
        None \<Rightarrow> enc_fail SML_ERR_XLT_INVAL_INPUT_DATA
      | Some c \<Rightarrow> enc_seq (devinf_leaf enc TN_DEVINF_CTTYPE OPTIONAL (dic_cttype c) #
                            map (devinf_prop enc) (dic_prop c)))"

text \<open>The content of \<open>TN_DEVINF_CTCAP\<close> is a list; the empty one is the null pointer.\<close>

definition devinf_ctcap :: "SmlEncoding \<Rightarrow> XltRO \<Rightarrow> SmlDevInfCTCap option list \<Rightarrow> BufferMgmt \<Rightarrow> enc_result" where
  "devinf_ctcap enc ro cs = enc_elem ro (if cs = [] then None else Some cs) (\<lambda>cs. enc_seq
     ([xltGenerateTag TN_DEVINF_CTCAP TT_BEG enc SML_EXT_DEVINF] @
      map (devinf_ctcap_entry enc) cs @
      [xltGenerateTag TN_DEVINF_CTCAP TT_END enc SML_EXT_DEVINF]))"

definition devinf_dsmem :: "SmlEncoding \<Rightarrow> SmlDevInfDSMem \<Rightarrow> BufferMgmt \<Rightarrow> enc_result" where
  "devinf_dsmem enc m = enc_seq
     [xltGenerateTag TN_DEVINF_DSMEM TT_BEG enc SML_EXT_DEVINF,
      enc_flag TN_DEVINF_SHAREDMEM SmlDevInfSharedMem_f (dim_flags m) enc SML_EXT_DEVINF,
      devinf_leaf enc TN_DEVINF_MAXMEM OPTIONAL (dim_maxmem m),
      devinf_leaf enc TN_DEVINF_MAXID OPTIONAL (dim_maxid m),
      xltGenerateTag TN_DEVINF_DSMEM TT_END enc SML_EXT_DEVINF]"

definition devinf_xmit :: "SmlEncoding \<Rightarrow> XltTagID \<Rightarrow> SmlDevInfXmit \<Rightarrow> BufferMgmt \<Rightarrow> enc_result" where
  "devinf_xmit enc tagId x = enc_seq
     [xltGenerateTag tagId TT_BEG enc SML_EXT_DEVINF,
      devinf_leaf enc TN_DEVINF_CTTYPE REQUIRED (dit_cttype x),
      devinf_leaf enc TN_DEVINF_VERCT REQUIRED (dit_verct x),
      xltGenerateTag tagId TT_END enc SML_EXT_DEVINF]"

definition devinf_datastore :: "SmlEncoding \<Rightarrow> SmlDevInfDatastore \<Rightarrow> BufferMgmt \<Rightarrow> enc_result" where
  "devinf_datastore enc d = enc_seq
     ([xltGenerateTag TN_DEVINF_DATASTORE TT_BEG enc SML_EXT_DEVINF,
       devinf_leaf enc TN_DEVINF_SOURCEREF REQUIRED (ds_sourceref d),
       devinf_leaf enc TN_DEVINF_DISPLAYNAME OPTIONAL (ds_displayname d),
       devinf_leaf enc TN_DEVINF_MAXGUIDSIZE OPTIONAL (ds_maxguidsize d),
       enc_elem REQUIRED (ds_rxpref d) (devinf_xmit enc TN_DEVINF_RXPREF)] @
      map (\<lambda>x. enc_elem OPTIONAL x (devinf_xmit enc TN_DEVINF_RX)) (ds_rx d) @
      [enc_elem REQUIRED (ds_txpref d) (devinf_xmit enc TN_DEVINF_TXPREF)] @
      map (\<lambda>x. enc_elem OPTIONAL x (devinf_xmit enc TN_DEVINF_TX)) (ds_tx d) @
      [enc_elem OPTIONAL (ds_dsmem d) (devinf_dsmem enc),
       enc_elem REQUIRED (ds_synccap d) (devinf_synccap enc),
       xltGenerateTag TN_DEVINF_DATASTORE TT_END enc SML_EXT_DEVINF])"

definition devinf_devinf :: "SmlEncoding \<Rightarrow> SmlDevInfDevInf \<Rightarrow> BufferMgmt \<Rightarrow> enc_result" where
  "devinf_devinf enc d = enc_seq
     ([xltGenerateTag TN_DEVINF_DEVINF TT_BEG enc SML_EXT_DEVINF,
       devinf_leaf enc TN_DEVINF_VERDTD REQUIRED (di_verdtd d),
       devinf_leaf enc TN_DEVINF_MAN OPTIONAL (di_man d),
       devinf_leaf enc TN_DEVINF_MOD OPTIONAL (di_mod d),
       devinf_leaf enc TN_DEVINF_OEM OPTIONAL (di_oem d),
       devinf_leaf enc TN_DEVINF_FWV OPTIONAL (di_fwv d),
       devinf_leaf enc TN_DEVINF_SWV OPTIONAL (di_swv d),
       devinf_leaf enc TN_DEVINF_HWV OPTIONAL (di_hwv d),
       devinf_leaf enc TN_DEVINF_DEVID REQUIRED (di_devid d),
       devinf_leaf enc TN_DEVINF_DEVTYP REQUIRED (di_devtyp d),
       enc_flag TN_DEVINF_UTC SmlDevInfUTC_f (di_flags d) enc SML_EXT_DEVINF,
       enc_flag TN_DEVINF_NOFM SmlDevInfNOfM_f (di_flags d) enc SML_EXT_DEVINF,
       enc_flag TN_DEVINF_LARGEOBJECT SmlDevInfLargeObject_f (di_flags d) enc SML_EXT_DEVINF] @
      (case di_datastore d of
         [] \<Rightarrow> [enc_fail SML_ERR_XLT_MISSING_CONT]
       | x # xs \<Rightarrow> enc_elem REQUIRED x (devinf_datastore enc) #
                    map (\<lambda>x. enc_elem OPTIONAL x (devinf_datastore enc)) xs) @
      [devinf_ctcap enc OPTIONAL (di_ctcap d)] @
      map (\<lambda>x. enc_elem OPTIONAL x (devinf_ext enc)) (di_ext d) @
      [xltGenerateTag TN_DEVINF_DEVINF TT_END enc SML_EXT_DEVINF])"

definition devinfEncBlock :: "XltRO \<Rightarrow> SmlDevInfDevInf option \<Rightarrow> SmlEncoding \<Rightarrow> BufferMgmt \<Rightarrow> enc_result" where
  "devinfEncBlock ro p enc = enc_elem ro p (devinf_devinf enc)"

section \<open>Sub-DTDs in the document\<close>

text \<open>
  In WBXML the device information is a document of its own, encoded in a buffer of 12000 bytes and
  written into the opaque data of the outer one. The writes to the outer buffer by
  \<open>smlLibMemmove\<close> do not look at its length; the result of \<open>wbxmlOpaqueSize2Buf\<close> is not used.
\<close>

definition devinf_fpi :: "SmlVersion \<Rightarrow> byte list option" where
  "devinf_fpi v =
     (case v of
        SML_VERS_1_0 \<Rightarrow> Some (bytes_of ''-//SYNCML//DTD DevInf 1.0//EN'')
      | SML_VERS_1_1 \<Rightarrow> Some (bytes_of ''-//SYNCML//DTD DevInf 1.1//EN'')
      | SML_VERS_1_2 \<Rightarrow> Some (bytes_of ''-//SYNCML//DTD DevInf 1.1//EN'')
      | _ \<Rightarrow> None)"

definition sub_buffer :: "byte list \<Rightarrow> BufferMgmt \<Rightarrow> BufferMgmt" where
  "sub_buffer fpi b =
     (let hdr = [0x02, 0x00, 0x00, 0x6A, 0x1D] @ fpi; n = length hdr
      in b\<lparr>bm_mem := (if bm_eval b then replicate 12000 0 else hdr @ replicate (12000 - n) 0),
           bm_pos := (if bm_eval b then 0 else int n), bm_written := int n, bm_len := 12000,
           bm_switchExtTag := TN_UNDEF, bm_endTagSize := 0, bm_vers := SML_VERS_UNDEF\<rparr>)"

definition raw_put :: "byte list \<Rightarrow> BufferMgmt \<Rightarrow> BufferMgmt option" where
  "raw_put bs b = do {
     m \<leftarrow> mem_put (bm_mem b) (bm_pos b) bs;
     Some (b\<lparr>bm_mem := m, bm_pos := bm_pos b + int (length bs)\<rparr>)
   }"

definition subdtdEncWBXML :: "XltRO \<Rightarrow> SmlDevInfDevInf option \<Rightarrow> SmlEncoding \<Rightarrow> BufferMgmt \<Rightarrow> enc_result" where
  "subdtdEncWBXML ro p enc b =
     (case devinf_fpi (bm_vers b) of
        None \<Rightarrow> Some (SML_ERR_WRONG_PARAM, b)
      | Some fpi \<Rightarrow>
          (let (ok, g) = tok_malloc (bm_tok b); b = b\<lparr>bm_tok := g\<rparr>
           in if \<not> ok then Some (SML_ERR_NOT_ENOUGH_SPACE, b)
           else let (ok, g) = tok_malloc (bm_tok b); b = b\<lparr>bm_tok := g\<rparr>
           in if \<not> ok then Some (SML_ERR_NOT_ENOUGH_SPACE, b)
           else do {
             (err, sub) \<leftarrow> devinfEncBlock ro p enc (sub_buffer fpi b);
             let b = b\<lparr>bm_tok := bm_tok sub\<rparr>;
             if err \<noteq> SML_ERR_OK then Some (err, b)
             else if \<not> bm_eval b then do {
               b \<leftarrow> raw_put [0xC3] b;
               (_, b) \<leftarrow> wbxmlOpaqueSize2Buf (bm_written sub) b;
               bs \<leftarrow> ptr_bytes (Some (bm_mem sub)) (bm_written sub);
               b \<leftarrow> raw_put bs b;
               w \<leftarrow> s32 (bm_written b + bm_written sub);
               Some (err, b\<lparr>bm_written := w\<rparr>)
             } else do {
               w \<leftarrow> s32 (bm_written b + 1);
               (_, b) \<leftarrow> wbxmlOpaqueSize2Buf (bm_written sub) (b\<lparr>bm_written := w\<rparr>);
               w \<leftarrow> s32 (bm_written b + bm_written sub);
               Some (err, b\<lparr>bm_written := w\<rparr>)
             }
           }))"

definition xltBuildExtention ::
    "XltRO \<Rightarrow> SmlEncoding \<Rightarrow> SmlPcdataExtension \<Rightarrow> sml_content option \<Rightarrow> BufferMgmt \<Rightarrow> enc_result" where
  "xltBuildExtention ro enc extId pContent b =
     (case extId of
        SML_EXT_METINF \<Rightarrow>
          (case pContent of
             None \<Rightarrow> metinfEncBlock ro None enc b
           | Some (C_metinf m) \<Rightarrow> metinfEncBlock ro (Some m) enc b
           | _ \<Rightarrow> None)
      | SML_EXT_DEVINF \<Rightarrow>
          (case pContent of
             None \<Rightarrow> (if enc = SML_XML then devinfEncBlock ro None enc b else subdtdEncWBXML ro None SML_WBXML b)
           | Some (C_devinf d) \<Rightarrow>
               (if enc = SML_XML then devinfEncBlock ro (Some d) enc b else subdtdEncWBXML ro (Some d) SML_WBXML b)
           | _ \<Rightarrow> None)
      | SML_EXT_DMTND \<Rightarrow>
          (case pContent of
             None \<Rightarrow> dmtndEncBlock ro None enc b
           | Some (C_dmtnd t) \<Rightarrow> dmtndEncBlock ro (Some t) enc b
           | _ \<Rightarrow> None)
      | _ \<Rightarrow> Some (SML_ERR_XLT_INVAL_EXT, b))"

end
