(* ===== verification/Encoder.thy ===== *)
theory Encoder
  imports Encoder_SubDtd
begin

text \<open>
  The document encoder \<open>xltenc.c\<close>: the blocks of the SyncML elements, and starting, extending, ending
  and measuring a document. The cases of \<open>xltEncBlock\<close> are definitions of their own, as in
  \<open>Encoder_SubDtd\<close>; \<open>xltEncBlock\<close> itself chooses one of them from a tag that is not known in advance.
\<close>

section \<open>Elements\<close>

abbreviation tag_beg :: "SmlEncoding \<Rightarrow> XltTagID \<Rightarrow> BufferMgmt \<Rightarrow> enc_result" where
  "tag_beg enc tagId \<equiv> xltGenerateTag tagId TT_BEG enc SML_EXT_UNDEFINED"

abbreviation tag_end :: "SmlEncoding \<Rightarrow> XltTagID \<Rightarrow> BufferMgmt \<Rightarrow> enc_result" where
  "tag_end enc tagId \<equiv> xltGenerateTag tagId TT_END enc SML_EXT_UNDEFINED"

definition content_bytes :: "sml_content \<Rightarrow> byte list option" where
  "content_bytes c = (case c of C_bytes bs \<Rightarrow> Some bs | _ \<Rightarrow> None)"

definition enc_pcdata :: "SmlEncoding \<Rightarrow> XltTagID \<Rightarrow> XltRO \<Rightarrow> data option \<Rightarrow> BufferMgmt \<Rightarrow> enc_result" where
  "enc_pcdata enc tagId ro p =
     enc_elem ro p (xltEncPcdata content_bytes (xltBuildExtention ro enc) tagId enc SML_EXT_UNDEFINED)"

definition flag_tag :: "SmlEncoding \<Rightarrow> XltTagID \<Rightarrow> Flag \<Rightarrow> Flag \<Rightarrow> BufferMgmt \<Rightarrow> enc_result" where
  "flag_tag enc tagId f flags = enc_flag tagId f flags enc SML_EXT_UNDEFINED"

definition enc_chal :: "SmlEncoding \<Rightarrow> SmlChal \<Rightarrow> BufferMgmt \<Rightarrow> enc_result" where
  "enc_chal enc c = enc_seq
     [tag_beg enc TN_CHAL,
      enc_pcdata enc TN_META REQUIRED (chal_meta c),
      tag_end enc TN_CHAL]"

definition enc_cred :: "SmlEncoding \<Rightarrow> SmlCred \<Rightarrow> BufferMgmt \<Rightarrow> enc_result" where
  "enc_cred enc c = enc_seq
     [tag_beg enc TN_CRED,
      enc_pcdata enc TN_META OPTIONAL (cred_meta c),
      enc_pcdata enc TN_DATA REQUIRED (cred_data c),
      tag_end enc TN_CRED]"

definition enc_target :: "SmlEncoding \<Rightarrow> XltTagID \<Rightarrow> SmlTarget \<Rightarrow> BufferMgmt \<Rightarrow> enc_result" where
  "enc_target enc tagId t = enc_seq
     [tag_beg enc tagId,
      enc_pcdata enc TN_LOCURI REQUIRED (tgt_locURI t),
      enc_pcdata enc TN_LOCNAME OPTIONAL (tgt_locName t),
      tag_end enc tagId]"

definition enc_hdr :: "SmlEncoding \<Rightarrow> SmlSyncHdr \<Rightarrow> BufferMgmt \<Rightarrow> enc_result" where
  "enc_hdr enc h = enc_seq
     [tag_beg enc TN_SYNCHDR,
      enc_pcdata enc TN_VERSION REQUIRED (hdr_version h),
      enc_pcdata enc TN_PROTO REQUIRED (hdr_proto h),
      enc_pcdata enc TN_SESSIONID REQUIRED (hdr_sessionID h),
      enc_pcdata enc TN_MSGID REQUIRED (hdr_msgID h),
      enc_elem REQUIRED (hdr_target h) (enc_target enc TN_TARGET),
      enc_elem REQUIRED (hdr_source h) (enc_target enc TN_SOURCE),
      enc_pcdata enc TN_RESPURI OPTIONAL (hdr_respURI h),
      flag_tag enc TN_NORESP SmlNoResp_f (hdr_flags h),
      enc_elem OPTIONAL (hdr_cred h) (enc_cred enc),
      enc_pcdata enc TN_META OPTIONAL (hdr_meta h),
      tag_end enc TN_SYNCHDR]"

definition enc_item :: "SmlEncoding \<Rightarrow> SmlItem \<Rightarrow> BufferMgmt \<Rightarrow> enc_result" where
  "enc_item enc i = enc_seq
     [tag_beg enc TN_ITEM,
      enc_elem OPTIONAL (item_target i) (enc_target enc TN_TARGET),
      enc_elem OPTIONAL (item_source i) (enc_target enc TN_SOURCE),
      enc_pcdata enc TN_META OPTIONAL (item_meta i),
      enc_pcdata enc TN_DATA OPTIONAL (item_data i),
      flag_tag enc TN_MOREDATA SmlMoreData_f (item_flags i),
      tag_end enc TN_ITEM]"

definition enc_mapitem :: "SmlEncoding \<Rightarrow> SmlMapItem \<Rightarrow> BufferMgmt \<Rightarrow> enc_result" where
  "enc_mapitem enc i = enc_seq
     [tag_beg enc TN_MAPITEM,
      enc_elem REQUIRED (mpi_target i) (enc_target enc TN_TARGET),
      enc_elem REQUIRED (mpi_source i) (enc_target enc TN_SOURCE),
      tag_end enc TN_MAPITEM]"

text \<open>\<open>xltEncList\<close>: the elements of a list are optional, the list itself is required or optional.\<close>

definition xltEncList :: "XltRO \<Rightarrow> 'a option list \<Rightarrow> ('a \<Rightarrow> BufferMgmt \<Rightarrow> enc_result) \<Rightarrow> BufferMgmt \<Rightarrow> enc_result" where
  "xltEncList reqOptFlag xs f =
     (if xs = [] then enc_fail (if reqOptFlag = REQUIRED then SML_ERR_XLT_MISSING_CONT else SML_ERR_OK)
      else enc_seq (map (\<lambda>x. enc_elem OPTIONAL x f) xs))"

definition item_list :: "SmlEncoding \<Rightarrow> XltRO \<Rightarrow> SmlItem option list \<Rightarrow> BufferMgmt \<Rightarrow> enc_result" where
  "item_list enc ro xs = xltEncList ro xs (enc_item enc)"

definition pcdata_list :: "SmlEncoding \<Rightarrow> XltTagID \<Rightarrow> XltRO \<Rightarrow> data option list \<Rightarrow> BufferMgmt \<Rightarrow> enc_result" where
  "pcdata_list enc tagId ro xs =
     xltEncList ro xs (\<lambda>p. enc_pcdata enc tagId OPTIONAL (Some p))"

section \<open>Commands\<close>

text \<open>\<open>TN_ADD\<close>, \<open>TN_COPY\<close> and \<open>TN_REPLACE\<close>.\<close>

definition enc_generic :: "SmlEncoding \<Rightarrow> XltTagID \<Rightarrow> SmlGenericCmd \<Rightarrow> BufferMgmt \<Rightarrow> enc_result" where
  "enc_generic enc tagId c = enc_seq
     [tag_beg enc tagId,
      enc_pcdata enc TN_CMDID REQUIRED (gen_cmdID c),
      flag_tag enc TN_NORESP SmlNoResp_f (gen_flags c),
      enc_elem OPTIONAL (gen_cred c) (enc_cred enc),
      enc_pcdata enc TN_META OPTIONAL (gen_meta c),
      item_list enc REQUIRED (gen_itemList c),
      tag_end enc tagId]"

definition enc_delete :: "SmlEncoding \<Rightarrow> SmlGenericCmd \<Rightarrow> BufferMgmt \<Rightarrow> enc_result" where
  "enc_delete enc c = enc_seq
     [tag_beg enc TN_DELETE,
      enc_pcdata enc TN_CMDID REQUIRED (gen_cmdID c),
      flag_tag enc TN_NORESP SmlNoResp_f (gen_flags c),
      flag_tag enc TN_ARCHIVE SmlArchive_f (gen_flags c),
      flag_tag enc TN_SFTDEL SmlSftDel_f (gen_flags c),
      enc_elem OPTIONAL (gen_cred c) (enc_cred enc),
      enc_pcdata enc TN_META OPTIONAL (gen_meta c),
      item_list enc REQUIRED (gen_itemList c),
      tag_end enc TN_DELETE]"

definition enc_alert :: "SmlEncoding \<Rightarrow> SmlAlert \<Rightarrow> BufferMgmt \<Rightarrow> enc_result" where
  "enc_alert enc c = enc_seq
     [tag_beg enc TN_ALERT,
      enc_pcdata enc TN_CMDID REQUIRED (al_cmdID c),
      flag_tag enc TN_NORESP SmlNoResp_f (al_flags c),
      enc_elem OPTIONAL (al_cred c) (enc_cred enc),
      enc_pcdata enc TN_DATA OPTIONAL (al_data c),
      enc_pcdata enc TN_CORRELATOR OPTIONAL (al_correlator c),
      item_list enc OPTIONAL (al_itemList c),
      tag_end enc TN_ALERT]"

text \<open>\<open>TN_ATOMIC\<close> and \<open>TN_SEQUENCE\<close>: the end tag is written by \<open>TN_ATOMIC_END\<close> and \<open>TN_SEQUENCE_END\<close>.\<close>

definition enc_atomic :: "SmlEncoding \<Rightarrow> XltTagID \<Rightarrow> SmlAtomic \<Rightarrow> BufferMgmt \<Rightarrow> enc_result" where
  "enc_atomic enc tagId c = enc_seq
     [tag_beg enc tagId,
      enc_pcdata enc TN_CMDID REQUIRED (at_cmdID c),
      flag_tag enc TN_NORESP SmlNoResp_f (at_flags c),
      enc_pcdata enc TN_META OPTIONAL (at_meta c)]"

definition enc_exec :: "SmlEncoding \<Rightarrow> SmlExec \<Rightarrow> BufferMgmt \<Rightarrow> enc_result" where
  "enc_exec enc c = enc_seq
     [tag_beg enc TN_EXEC,
      enc_pcdata enc TN_CMDID REQUIRED (ex_cmdID c),
      flag_tag enc TN_NORESP SmlNoResp_f (ex_flags c),
      enc_elem OPTIONAL (ex_cred c) (enc_cred enc),
      enc_pcdata enc TN_META OPTIONAL (ex_meta c),
      enc_pcdata enc TN_CORRELATOR OPTIONAL (ex_correlator c),
      enc_elem REQUIRED (ex_item c) (enc_item enc),
      tag_end enc TN_EXEC]"

definition enc_getput :: "SmlEncoding \<Rightarrow> XltTagID \<Rightarrow> SmlGetPut \<Rightarrow> BufferMgmt \<Rightarrow> enc_result" where
  "enc_getput enc tagId c = enc_seq
     [tag_beg enc tagId,
      enc_pcdata enc TN_CMDID REQUIRED (gp_cmdID c),
      flag_tag enc TN_NORESP SmlNoResp_f (gp_flags c),
      enc_pcdata enc TN_LANG OPTIONAL (gp_lang c),
      enc_elem OPTIONAL (gp_cred c) (enc_cred enc),
      enc_pcdata enc TN_META OPTIONAL (gp_meta c),
      item_list enc REQUIRED (gp_itemList c),
      tag_end enc tagId]"

definition enc_map :: "SmlEncoding \<Rightarrow> SmlMap \<Rightarrow> BufferMgmt \<Rightarrow> enc_result" where
  "enc_map enc c = enc_seq
     [tag_beg enc TN_MAP,
      enc_pcdata enc TN_CMDID REQUIRED (mp_cmdID c),
      enc_elem REQUIRED (mp_target c) (enc_target enc TN_TARGET),
      enc_elem REQUIRED (mp_source c) (enc_target enc TN_SOURCE),
      enc_elem OPTIONAL (mp_cred c) (enc_cred enc),
      enc_pcdata enc TN_META OPTIONAL (mp_meta c),
      xltEncList REQUIRED (mp_mapItemList c) (enc_mapitem enc),
      tag_end enc TN_MAP]"

definition enc_results :: "SmlEncoding \<Rightarrow> SmlResults \<Rightarrow> BufferMgmt \<Rightarrow> enc_result" where
  "enc_results enc c = enc_seq
     [tag_beg enc TN_RESULTS,
      enc_pcdata enc TN_CMDID REQUIRED (rs_cmdID c),
      enc_pcdata enc TN_MSGREF OPTIONAL (rs_msgRef c),
      enc_pcdata enc TN_CMDREF REQUIRED (rs_cmdRef c),
      enc_pcdata enc TN_META OPTIONAL (rs_meta c),
      enc_pcdata enc TN_TARGETREF OPTIONAL (rs_targetRef c),
      enc_pcdata enc TN_SOURCEREF OPTIONAL (rs_sourceRef c),
      item_list enc REQUIRED (rs_itemList c),
      tag_end enc TN_RESULTS]"

definition enc_search :: "SmlEncoding \<Rightarrow> SmlSearch \<Rightarrow> BufferMgmt \<Rightarrow> enc_result" where
  "enc_search enc c = enc_seq
     [tag_beg enc TN_SEARCH,
      enc_pcdata enc TN_CMDID REQUIRED (se_cmdID c),
      flag_tag enc TN_NORESP SmlNoResp_f (se_flags c),
      flag_tag enc TN_NORESULTS SmlNoResults_f (se_flags c),
      enc_elem OPTIONAL (se_cred c) (enc_cred enc),
      enc_elem OPTIONAL (se_target c) (enc_target enc TN_TARGET),
      xltEncList REQUIRED (se_sourceList c) (enc_target enc TN_SOURCE),
      enc_pcdata enc TN_LANG OPTIONAL (se_lang c),
      enc_pcdata enc TN_META REQUIRED (se_meta c),
      enc_pcdata enc TN_DATA REQUIRED (se_data c),
      tag_end enc TN_SEARCH]"

definition enc_status :: "SmlEncoding \<Rightarrow> SmlStatus \<Rightarrow> BufferMgmt \<Rightarrow> enc_result" where
  "enc_status enc c = enc_seq
     [tag_beg enc TN_STATUS,
      enc_pcdata enc TN_CMDID REQUIRED (st_cmdID c),
      enc_pcdata enc TN_MSGREF REQUIRED (st_msgRef c),
      enc_pcdata enc TN_CMDREF REQUIRED (st_cmdRef c),
      enc_pcdata enc TN_CMD REQUIRED (st_cmd c),
      pcdata_list enc TN_TARGETREF OPTIONAL (st_targetRefList c),
      pcdata_list enc TN_SOURCEREF OPTIONAL (st_sourceRefList c),
      enc_elem OPTIONAL (st_cred c) (enc_cred enc),
      enc_elem OPTIONAL (st_chal c) (enc_chal enc),
      enc_pcdata enc TN_DATA REQUIRED (st_data c),
      item_list enc OPTIONAL (st_itemList c),
      tag_end enc TN_STATUS]"

text \<open>The end tag is written by \<open>TN_SYNC_END\<close>.\<close>

definition enc_sync :: "SmlEncoding \<Rightarrow> SmlSync \<Rightarrow> BufferMgmt \<Rightarrow> enc_result" where
  "enc_sync enc c = enc_seq
     [tag_beg enc TN_SYNC,
      enc_pcdata enc TN_CMDID REQUIRED (sy_cmdID c),
      flag_tag enc TN_NORESP SmlNoResp_f (sy_flags c),
      enc_elem OPTIONAL (sy_cred c) (enc_cred enc),
      enc_elem OPTIONAL (sy_target c) (enc_target enc TN_TARGET),
      enc_elem OPTIONAL (sy_source c) (enc_target enc TN_SOURCE),
      enc_pcdata enc TN_META OPTIONAL (sy_meta c),
      enc_pcdata enc TN_NUMBEROFCHANGES OPTIONAL (sy_noc c)]"

section \<open>The block encoder\<close>

text \<open>
  A content pointer of another type than the one its tag casts it to is undefined behaviour
  (\<open>None\<close>); \<open>TN_ATOMIC_END\<close>, \<open>TN_SEQUENCE_END\<close> and \<open>TN_SYNC_END\<close> do not read it.
\<close>

definition end_tag_of :: "XltTagID \<Rightarrow> XltTagID option" where
  "end_tag_of tagId =
     (if tagId = TN_ATOMIC_END then Some TN_ATOMIC
      else if tagId = TN_SEQUENCE_END then Some TN_SEQUENCE
      else if tagId = TN_SYNC_END then Some TN_SYNC else None)"

definition flag_of_tag :: "XltTagID \<Rightarrow> Flag option" where
  "flag_of_tag tagId =
     (if tagId = TN_ARCHIVE then Some SmlArchive_f
      else if tagId = TN_SFTDEL then Some SmlSftDel_f
      else if tagId = TN_MOREDATA then Some SmlMoreData_f
      else if tagId = TN_NORESULTS then Some SmlNoResults_f
      else if tagId = TN_NORESP then Some SmlNoResp_f
      else if tagId = TN_FINAL then Some SmlFinal_f else None)"

definition struct_tags :: "XltTagID list" where
  "struct_tags = [TN_SYNCHDR, TN_CRED, TN_SOURCE, TN_TARGET, TN_ITEM, TN_ADD, TN_COPY, TN_ALERT, TN_ATOMIC,
     TN_SEQUENCE, TN_DELETE, TN_EXEC, TN_GET, TN_PUT, TN_MAP, TN_MAPITEM, TN_RESULTS, TN_CHAL, TN_SEARCH,
     TN_STATUS, TN_SYNC, TN_REPLACE]"

definition enc_content :: "SmlEncoding \<Rightarrow> XltTagID \<Rightarrow> XltRO \<Rightarrow> sml_elem \<Rightarrow> BufferMgmt \<Rightarrow> enc_result" where
  "enc_content enc tagId ro c =
     (case c of
        El_hdr h \<Rightarrow> if tagId = TN_SYNCHDR then enc_hdr enc h else (\<lambda>b. None)
      | El_cred x \<Rightarrow> if tagId = TN_CRED then enc_cred enc x else (\<lambda>b. None)
      | El_target x \<Rightarrow> if tagId \<in> {TN_SOURCE, TN_TARGET} then enc_target enc tagId x else (\<lambda>b. None)
      | El_item x \<Rightarrow> if tagId = TN_ITEM then enc_item enc x else (\<lambda>b. None)
      | El_generic x \<Rightarrow>
          if tagId \<in> {TN_ADD, TN_COPY, TN_REPLACE} then enc_generic enc tagId x
          else if tagId = TN_DELETE then enc_delete enc x else (\<lambda>b. None)
      | El_alert x \<Rightarrow> if tagId = TN_ALERT then enc_alert enc x else (\<lambda>b. None)
      | El_atomic x \<Rightarrow> if tagId \<in> {TN_ATOMIC, TN_SEQUENCE} then enc_atomic enc tagId x else (\<lambda>b. None)
      | El_exec x \<Rightarrow> if tagId = TN_EXEC then enc_exec enc x else (\<lambda>b. None)
      | El_getput x \<Rightarrow> if tagId \<in> {TN_GET, TN_PUT} then enc_getput enc tagId x else (\<lambda>b. None)
      | El_map x \<Rightarrow> if tagId = TN_MAP then enc_map enc x else (\<lambda>b. None)
      | El_mapitem x \<Rightarrow> if tagId = TN_MAPITEM then enc_mapitem enc x else (\<lambda>b. None)
      | El_results x \<Rightarrow> if tagId = TN_RESULTS then enc_results enc x else (\<lambda>b. None)
      | El_chal x \<Rightarrow> if tagId = TN_CHAL then enc_chal enc x else (\<lambda>b. None)
      | El_search x \<Rightarrow> if tagId = TN_SEARCH then enc_search enc x else (\<lambda>b. None)
      | El_status x \<Rightarrow> if tagId = TN_STATUS then enc_status enc x else (\<lambda>b. None)
      | El_sync x \<Rightarrow> if tagId = TN_SYNC then enc_sync enc x else (\<lambda>b. None)
      | El_flags f \<Rightarrow>
          (case flag_of_tag tagId of Some m \<Rightarrow> flag_tag enc tagId m f | None \<Rightarrow> (\<lambda>b. None))
      | El_pcdata p \<Rightarrow>
          if tagId \<in> set struct_tags \<or> flag_of_tag tagId \<noteq> None then (\<lambda>b. None)
          else enc_pcdata enc tagId ro (Some p))"

definition xltEncBlock :: "XltTagID \<Rightarrow> XltRO \<Rightarrow> sml_elem option \<Rightarrow> SmlEncoding \<Rightarrow> BufferMgmt \<Rightarrow> enc_result" where
  "xltEncBlock tagId reqOptFlag pContent enc =
     (case end_tag_of tagId of
        Some t \<Rightarrow> tag_end enc t
      | None \<Rightarrow> enc_elem reqOptFlag pContent (enc_content enc tagId reqOptFlag))"

section \<open>Documents\<close>

record XltSpaceEvaluation =
  ev_written_bytes :: int
  ev_end_tag_size :: int
  ev_cur_ext :: SmlPcdataExtension
  ev_last_ext :: SmlPcdataExtension

record XltEncoder =
  xe_enc :: SmlEncoding
  xe_vers :: SmlVersion
  xe_cur_ext :: SmlPcdataExtension
  xe_last_ext :: SmlPcdataExtension
  xe_final :: bool
  xe_space_evaluation :: "XltSpaceEvaluation option"
  xe_end_tag_size :: int

text \<open>
  The document outside the encoder: the memory, the offset \<open>*ppBufPos\<close> in it, and the toolkit globals.
  \<open>pBufEnd\<close> is an offset in the same memory.
\<close>

record Doc =
  doc_mem :: "byte list"
  doc_pos :: int
  doc_tok :: TokTbl

definition getPEEncTable :: "(XltTagID \<times> SmlProtoElement) list" where
  "getPEEncTable =
     [(TN_ADD, SML_PE_ADD), (TN_ALERT, SML_PE_ALERT), (TN_ATOMIC, SML_PE_ATOMIC_START),
      (TN_ATOMIC_END, SML_PE_ATOMIC_END), (TN_COPY, SML_PE_COPY), (TN_DELETE, SML_PE_DELETE),
      (TN_EXEC, SML_PE_EXEC), (TN_GET, SML_PE_GET), (TN_MAP, SML_PE_MAP), (TN_PUT, SML_PE_PUT),
      (TN_RESULTS, SML_PE_RESULTS), (TN_SEARCH, SML_PE_SEARCH), (TN_SEQUENCE, SML_PE_SEQUENCE_START),
      (TN_SEQUENCE_END, SML_PE_SEQUENCE_END), (TN_STATUS, SML_PE_STATUS), (TN_SYNC, SML_PE_SYNC_START),
      (TN_SYNC_END, SML_PE_SYNC_END), (TN_REPLACE, SML_PE_REPLACE), (TN_UNDEF, SML_PE_UNDEF)]"

fun pe_walk :: "SmlProtoElement \<Rightarrow> (XltTagID \<times> SmlProtoElement) list \<Rightarrow> ret \<times> XltTagID" where
  "pe_walk pE [] = (SML_ERR_XLT_INVAL_PROTO_ELEM, TN_UNDEF)"
| "pe_walk pE ((tagid, type) # rows) =
     (if type = SML_PE_UNDEF then (SML_ERR_XLT_INVAL_PROTO_ELEM, TN_UNDEF)
      else if type = pE then (SML_ERR_OK, tagid)
      else pe_walk pE rows)"

text \<open>\<open>tagID\<close> is the value that \<open>*tagID\<close> keeps when the copy of the table cannot be allocated.\<close>

definition getTNbyPE :: "SmlProtoElement \<Rightarrow> XltTagID \<Rightarrow> TokTbl \<Rightarrow> ret \<times> XltTagID \<times> TokTbl" where
  "getTNbyPE pE tagID g =
     (let (ok, g) = tok_malloc g
      in if \<not> ok then (SML_ERR_NOT_ENOUGH_SPACE, tagID, g)
         else let (r, t) = pe_walk pE getPEEncTable in (r, t, g))"

definition new_buffer :: "Doc \<Rightarrow> int \<Rightarrow> XltEncoder \<Rightarrow> SmlPcdataExtension \<Rightarrow> BufferMgmt" where
  "new_buffer d pBufEnd e active =
     \<lparr>bm_mem = doc_mem d, bm_pos = doc_pos d, bm_written = 0, bm_len = pBufEnd - doc_pos d,
      bm_switchExtTag = TN_UNDEF, bm_curExt = xe_cur_ext e, bm_lastExt = xe_last_ext e, bm_activeExt = active,
      bm_endTagSize = 0, bm_eval = (xe_space_evaluation e \<noteq> None), bm_vers = xe_vers e, bm_tok = doc_tok d\<rparr>"

definition keep_pos :: "BufferMgmt \<Rightarrow> Doc \<Rightarrow> Doc" where
  "keep_pos b d = d\<lparr>doc_mem := bm_mem b, doc_tok := bm_tok b\<rparr>"

definition syncml_fpi :: "SmlVersion \<Rightarrow> byte list option" where
  "syncml_fpi v =
     (case v of
        SML_VERS_1_0 \<Rightarrow> Some (bytes_of ''-//SYNCML//DTD SyncML 1.0//EN'')
      | SML_VERS_1_1 \<Rightarrow> Some (bytes_of ''-//SYNCML//DTD SyncML 1.1//EN'')
      | SML_VERS_1_2 \<Rightarrow> Some (bytes_of ''-//SYNCML//DTD SyncML 1.2//EN'')
      | _ \<Rightarrow> None)"

definition XLT_STABLEN :: byte where "XLT_STABLEN = 0x1D"
definition XLT_WBXMLVER :: byte where "XLT_WBXMLVER = 0x02"
definition XLT_CHARSET :: byte where "XLT_CHARSET = 0x6A"
definition XLT_PUBIDENT1 :: byte where "XLT_PUBIDENT1 = 0x00"
definition XLT_PUBIDENT2 :: byte where "XLT_PUBIDENT2 = 0x00"

definition write_byte :: "byte \<Rightarrow> BufferMgmt \<Rightarrow> enc_result" where
  "write_byte c = wbxmlWriteTypeToBuffer (Some [c]) TAG_elem 1"

text \<open>The quotation marks of the XML declaration are written as 34.\<close>

definition enc_prolog :: "SmlEncoding \<Rightarrow> byte list \<Rightarrow> BufferMgmt \<Rightarrow> enc_result" where
  "enc_prolog enc fpi =
     (case enc of
        SML_WBXML \<Rightarrow> enc_seq
          [write_byte XLT_WBXMLVER, write_byte XLT_PUBIDENT1, write_byte XLT_PUBIDENT2,
           write_byte XLT_CHARSET, write_byte XLT_STABLEN, add_bytes fpi]
      | SML_XML \<Rightarrow> add_all
          [xml_begpar, bytes_of ''?xml version='' @ [34], bytes_of ''1.0'',
           [34] @ bytes_of '' encoding='' @ [34], bytes_of ''UTF-8'', [34] @ bytes_of ''?'', xml_endpar]
      | _ \<Rightarrow> enc_fail SML_ERR_XLT_ENC_UNK)"

definition xltEncInit ::
    "SmlEncoding \<Rightarrow> SmlSyncHdr option \<Rightarrow> int \<Rightarrow> SmlVersion \<Rightarrow> Doc \<Rightarrow> (ret \<times> XltEncoder option \<times> Doc) option" where
  "xltEncInit enc pHeader pBufEnd vers d =
     (case syncml_fpi vers of
        None \<Rightarrow> Some (SML_ERR_WRONG_PARAM, None, d)
      | Some fpi \<Rightarrow>
          (let (ok, g) = tok_malloc (doc_tok d); d = d\<lparr>doc_tok := g\<rparr>
           in if \<not> ok then Some (SML_ERR_NOT_ENOUGH_SPACE, None, d)
           else let (ok, g) = tok_malloc (doc_tok d); d = d\<lparr>doc_tok := g\<rparr>
           in if \<not> ok then Some (SML_ERR_NOT_ENOUGH_SPACE, None, d)
           else
             let e = \<lparr>xe_enc = enc, xe_vers = vers, xe_cur_ext = SML_EXT_UNDEFINED,
                      xe_last_ext = SML_EXT_UNDEFINED, xe_final = False, xe_space_evaluation = None,
                      xe_end_tag_size = 0\<rparr>
             in do {
               (err, b) \<leftarrow> enc_seq
                 [enc_prolog enc fpi,
                  tag_beg enc TN_SYNCML,
                  xltEncBlock TN_SYNCHDR REQUIRED (map_option El_hdr pHeader) enc,
                  tag_beg enc TN_SYNCBODY] (new_buffer d pBufEnd e SML_EXT_UNDEFINED);
               if err \<noteq> SML_ERR_OK then Some (err, None, keep_pos b d)
               else Some (SML_ERR_OK,
                 Some (e\<lparr>xe_cur_ext := bm_curExt b, xe_last_ext := bm_lastExt b,
                          xe_end_tag_size := bm_endTagSize b\<rparr>),
                 (keep_pos b d)\<lparr>doc_pos := bm_pos b\<rparr>)
             }))"

definition xltEncAppend ::
    "XltEncoder \<Rightarrow> SmlProtoElement \<Rightarrow> int \<Rightarrow> sml_elem option \<Rightarrow> Doc \<Rightarrow> (ret \<times> XltEncoder \<times> Doc) option" where
  "xltEncAppend e pe pBufEnd pContent d =
     (let (ok, g) = tok_malloc (doc_tok d); d = d\<lparr>doc_tok := g\<rparr>
      in if \<not> ok then Some (SML_ERR_NOT_ENOUGH_SPACE, e, d)
      else
        let b = new_buffer d pBufEnd e SML_EXT_UNDEFINED;
            b = (case xe_space_evaluation e of
                   None \<Rightarrow> b
                 | Some ev \<Rightarrow> b\<lparr>bm_curExt := ev_cur_ext ev, bm_lastExt := ev_last_ext ev\<rparr>);
            (_, tagID, g) = getTNbyPE pe TN_UNDEF (bm_tok b)
        in do {
          (err, b) \<leftarrow> xltEncBlock tagID REQUIRED pContent (xe_enc e) (b\<lparr>bm_tok := g\<rparr>);
          if err \<noteq> SML_ERR_OK then Some (err, e, keep_pos b d)
          else do {
            e \<leftarrow> (case xe_space_evaluation e of
                    Some ev \<Rightarrow> do {
                      w \<leftarrow> s32 (ev_written_bytes ev + bm_written b);
                      t \<leftarrow> s32 (ev_end_tag_size ev + bm_endTagSize b);
                      Some (e\<lparr>xe_space_evaluation := Some \<lparr>ev_written_bytes = w, ev_end_tag_size = t,
                               ev_cur_ext = bm_curExt b, ev_last_ext = bm_lastExt b\<rparr>\<rparr>)
                    }
                  | None \<Rightarrow> do {
                      t \<leftarrow> s32 (xe_end_tag_size e + bm_endTagSize b);
                      Some (e\<lparr>xe_end_tag_size := t, xe_cur_ext := bm_curExt b, xe_last_ext := bm_lastExt b\<rparr>)
                    });
            Some (SML_ERR_OK, e, (keep_pos b d)\<lparr>doc_pos := bm_pos b\<rparr>)
          }
        })"

text \<open>The encoder is freed on every path.\<close>

definition xltEncTerminate :: "XltEncoder \<Rightarrow> int \<Rightarrow> Doc \<Rightarrow> (ret \<times> Doc) option" where
  "xltEncTerminate e pBufEnd d =
     (let (ok, g) = tok_malloc (doc_tok d); d = d\<lparr>doc_tok := g\<rparr>
      in if \<not> ok then Some (SML_ERR_NOT_ENOUGH_SPACE, d)
      else do {
        (err, b) \<leftarrow> enc_seq
          ((if xe_final e then [xltGenerateTag TN_FINAL TT_ALL (xe_enc e) SML_EXT_UNDEFINED] else []) @
           [tag_end (xe_enc e) TN_SYNCBODY, tag_end (xe_enc e) TN_SYNCML])
          (new_buffer d pBufEnd e (xe_cur_ext e));
        if err \<noteq> SML_ERR_OK then Some (err, keep_pos b d)
        else Some (SML_ERR_OK, (keep_pos b d)\<lparr>doc_pos := bm_pos b\<rparr>)
      })"

section \<open>Measuring a document\<close>

definition xltStartEvaluation :: "XltEncoder \<Rightarrow> TokTbl \<Rightarrow> ret \<times> XltEncoder \<times> TokTbl" where
  "xltStartEvaluation e g =
     (if xe_space_evaluation e \<noteq> None then (SML_ERR_WRONG_USAGE, e, g)
      else
        let (ok, g) = tok_malloc g
        in if \<not> ok then (SML_ERR_NOT_ENOUGH_SPACE, e, g)
           else (SML_ERR_OK,
                 e\<lparr>xe_space_evaluation := Some \<lparr>ev_written_bytes = 0, ev_end_tag_size = 0,
                     ev_cur_ext = xe_cur_ext e, ev_last_ext = xe_last_ext e\<rparr>\<rparr>, g))"

text \<open>\<open>free\<close> is the result of \<open>smlGetFreeBuffer\<close>; the free size is \<open>None\<close> when nothing is stored.\<close>

definition xltEndEvaluation :: "int \<Rightarrow> XltEncoder \<Rightarrow> (ret \<times> int option \<times> XltEncoder) option" where
  "xltEndEvaluation free e =
     (case xe_space_evaluation e of
        None \<Rightarrow> Some (SML_ERR_WRONG_USAGE, None, e)
      | Some ev \<Rightarrow> do {
          f \<leftarrow> s32 (free - ev_written_bytes ev);
          f \<leftarrow> s32 (f - ev_end_tag_size ev);
          f \<leftarrow> s32 (f - xe_end_tag_size e);
          Some (SML_ERR_OK, Some f, e\<lparr>xe_space_evaluation := None\<rparr>)
        })"

end
