(* ===== verification/Wbxml_Roundtrip.thy ===== *)
theory Wbxml_Roundtrip
  imports Generators Wbxml_Scanner
begin

text \<open>
  The WBXML generator and the WBXML scanner against one byte-level specification: what the generator
  writes for a sequence of events, and the tokens that the scanner reads from it.
\<close>

section \<open>The bytes of an event\<close>

datatype wb_event =
    Ev_start SmlPcdataExtension XltTagID
  | Ev_empty SmlPcdataExtension XltTagID
  | Ev_end
  | Ev_str "byte list"
  | Ev_opaque "byte list"

definition mb_uint :: "nat \<Rightarrow> byte list" where
  "mb_uint n = map (opaque_byte (int n)) (rev [0..<opaque_bytes_needed (int n)])"

definition page_switch :: "SmlPcdataExtension \<Rightarrow> SmlPcdataExtension \<Rightarrow> byte list" where
  "page_switch cur ext = (if getCodePage ext \<noteq> getCodePage cur then [XLT_SWITCHPAGE, getCodePage ext] else [])"

fun ev_bytes :: "SmlPcdataExtension \<Rightarrow> wb_event \<Rightarrow> byte list" where
  "ev_bytes cur (Ev_start ext i) = page_switch cur ext @ [byte_of ext i OR XLT_CONTBYTE]"
| "ev_bytes cur (Ev_empty ext i) = page_switch cur ext @ [byte_of ext i]"
| "ev_bytes cur Ev_end = [0x01]"
| "ev_bytes cur (Ev_str s) = 0x03 # s @ [0]"
| "ev_bytes cur (Ev_opaque bs) = 0xC3 # mb_uint (length bs) @ bs"

fun ev_ext :: "SmlPcdataExtension \<Rightarrow> wb_event \<Rightarrow> SmlPcdataExtension" where
  "ev_ext cur (Ev_start ext i) = ext"
| "ev_ext cur (Ev_empty ext i) = ext"
| "ev_ext cur _ = cur"

fun doc_bytes :: "SmlPcdataExtension \<Rightarrow> wb_event list \<Rightarrow> byte list" where
  "doc_bytes cur [] = []"
| "doc_bytes cur (e # es) = ev_bytes cur e @ doc_bytes (ev_ext cur e) es"

text \<open>The tags are in their tables, strings have no zero byte, opaque data is shorter than \<open>2^28\<close>.\<close>

fun ev_ok :: "wb_event \<Rightarrow> bool" where
  "ev_ok (Ev_start ext i) = (i \<in> known_tags ext)"
| "ev_ok (Ev_empty ext i) = (i \<in> known_tags ext)"
| "ev_ok Ev_end = True"
| "ev_ok (Ev_str s) = (0 \<notin> set s)"
| "ev_ok (Ev_opaque bs) = (length bs < 2 ^ 28)"

section \<open>Multi-byte integers\<close>

lemma low_bits_table:
  "list_all (\<lambda>x. uint ((of_int x :: byte) AND 0x7F) = x \<and> (of_int x :: byte) AND 0x80 = 0 \<and>
       uint ((of_int (x OR 0x80) :: byte) AND 0x7F) = x \<and> (of_int (x OR 0x80) :: byte) AND 0x80 \<noteq> 0)
     [0..127]"
  by code_simp

lemma low_bits:
  assumes "0 \<le> x" "x < 128"
  shows "uint ((of_int x :: byte) AND 0x7F) = x" "(of_int x :: byte) AND 0x80 = 0"
    "uint ((of_int (x OR 0x80) :: byte) AND 0x7F) = x" "(of_int (x OR 0x80) :: byte) AND 0x80 \<noteq> 0"
proof -
  have "x \<in> set [0..127]" using assms by simp
  with low_bits_table show "uint ((of_int x :: byte) AND 0x7F) = x" "(of_int x :: byte) AND 0x80 = 0"
    "uint ((of_int (x OR 0x80) :: byte) AND 0x7F) = x" "(of_int (x OR 0x80) :: byte) AND 0x80 \<noteq> 0"
    unfolding list_all_iff by blast+
qed

lemma int_and_127: "(x::int) AND 127 = x mod 128"
  using take_bit_eq_mask [of 7 x] by (simp add: take_bit_eq_mod mask_eq_exp_minus_1)

lemma opaque_byte_low:
  "uint (opaque_byte n k AND 0x7F) = drop_bit (7 * k) n mod 128"
  "opaque_byte n k AND 0x80 = 0 \<longleftrightarrow> k = 0"
proof -
  have r: "0 \<le> drop_bit (7 * k) n mod 128" "drop_bit (7 * k) n mod 128 < 128" by simp_all
  show "uint (opaque_byte n k AND 0x7F) = drop_bit (7 * k) n mod 128"
    using low_bits(1,3) [OF r] by (cases "k = 0") (simp_all add: opaque_byte_def int_and_127)
  show "opaque_byte n k AND 0x80 = 0 \<longleftrightarrow> k = 0"
    using low_bits(2,4) [OF r] by (cases "k = 0") (simp_all add: opaque_byte_def int_and_127)
qed

lemma drop_bit_7_Suc: "drop_bit (7 * Suc k) (n::int) * 128 + drop_bit (7 * k) n mod 128 = drop_bit (7 * k) n"
proof -
  have "drop_bit (7 * Suc k) n = drop_bit 7 (drop_bit (7 * k) n)"
    by (simp add: drop_bit_drop_bit)
  also have "\<dots> = drop_bit (7 * k) n div 128" by (subst drop_bit_eq_div) simp
  finally have "drop_bit (7 * Suc k) n = drop_bit (7 * k) n div 128" .
  then show ?thesis by simp
qed

lemma opaque_bytes_needed_spec:
  assumes "0 \<le> n" "n < 2 ^ 28"
  shows "0 < opaque_bytes_needed n \<and> opaque_bytes_needed n \<le> 4 \<and> drop_bit (7 * opaque_bytes_needed n) n = 0"
  using assms by (auto simp: opaque_bytes_needed_def drop_bit_eq_div)

lemma s32_ok: "0 \<le> x \<Longrightarrow> x < 2 ^ 31 \<Longrightarrow> s32 x = Some x"
  by (simp add: s32_def)

section \<open>What lies ahead of the scanner\<close>

definition in_doc :: "wbxmlScanner \<Rightarrow> bool" where
  "in_doc s \<longleftrightarrow> 0 \<le> sc_pos s \<and> sc_pos s \<le> sc_bufend s \<and> sc_bufend s \<le> int (length (sc_mem s))"

definition ahead :: "wbxmlScanner \<Rightarrow> byte list" where
  "ahead s = drop (nat (sc_pos s)) (take (nat (sc_bufend s)) (sc_mem s))"

lemma length_ahead: "in_doc s \<Longrightarrow> int (length (ahead s)) = sc_bufend s - sc_pos s"
  by (auto simp: in_doc_def ahead_def)

lemma sc_cur_ahead: "in_doc s \<Longrightarrow> ahead s = b # bs \<Longrightarrow> sc_cur s = Some b"
proof -
  assume d: "in_doc s" and a: "ahead s = b # bs"
  from length_ahead [OF d] a have "sc_pos s < sc_bufend s" by simp
  with d have p: "nat (sc_pos s) < nat (sc_bufend s)" "nat (sc_pos s) < length (sc_mem s)"
    "0 \<le> sc_pos s" "sc_pos s < int (length (sc_mem s))" by (auto simp: in_doc_def)
  have "b = ahead s ! 0" using a by simp
  also have "\<dots> = sc_mem s ! nat (sc_pos s)"
  proof -
    have "nat (sc_pos s) \<le> length (take (nat (sc_bufend s)) (sc_mem s))"
      using p(1,2) by (simp only: length_take min_def split: if_splits) linarith
    then have "ahead s ! 0 = take (nat (sc_bufend s)) (sc_mem s) ! nat (sc_pos s)"
      unfolding ahead_def by (subst nth_drop) simp_all
    then show ?thesis using p(1) by (simp only: nth_take)
  qed
  finally show ?thesis using p by (simp add: sc_cur_def mem_at_def)
qed

lemma ahead_skip:
  assumes "in_doc s" "n \<le> length (ahead s)"
  shows "in_doc (s\<lparr>sc_pos := sc_pos s + int n\<rparr>)"
    and "ahead (s\<lparr>sc_pos := sc_pos s + int n\<rparr>) = drop n (ahead s)"
  using assms length_ahead [OF assms(1)]
  by (auto simp: in_doc_def ahead_def nat_add_distrib add.commute)

lemma need_ok:
  assumes "in_doc s" "n \<le> length (ahead s)"
  shows "need (int n) s k = k (s\<lparr>sc_pos := sc_pos s + int n\<rparr>)"
  using assms length_ahead [OF assms(1)] by (simp add: need_def readBytes_def)

lemma need_1:
  assumes "in_doc s" "ahead s = b # bs"
  shows "need 1 s k = k (s\<lparr>sc_pos := sc_pos s + 1\<rparr>)"
    and "in_doc (s\<lparr>sc_pos := sc_pos s + 1\<rparr>)" "ahead (s\<lparr>sc_pos := sc_pos s + 1\<rparr>) = bs"
  using need_ok [of s 1 k] ahead_skip [of s 1] assms by simp_all

lemma readBytes_ok:
  assumes "in_doc s" "n \<le> length (ahead s)"
  shows "readBytes (int n) s = (True, s\<lparr>sc_pos := sc_pos s + int n\<rparr>)"
  using assms length_ahead [OF assms(1)] by (simp add: readBytes_def)

text \<open>The bytes of an integer are read back; the position stays on the last of them.\<close>

lemma parseInt_loop_opaque:
  assumes "0 \<le> n" "n < 2 ^ 28"
  shows "in_doc s \<Longrightarrow> ahead s = map (opaque_byte n) (rev [0..<Suc k]) @ rest \<Longrightarrow>
    parseInt_loop (drop_bit (7 * Suc k) n) s = Some (SML_ERR_OK, n, s\<lparr>sc_pos := sc_pos s + int k\<rparr>)"
proof (induction k arbitrary: s)
  case 0
  then have a: "ahead s = opaque_byte n 0 # rest" by simp
  have "drop_bit 7 n * 128 + n mod 128 = n" using drop_bit_7_Suc [of 0 n] by simp
  moreover from this have "0 \<le> drop_bit 7 n * 128" "drop_bit 7 n * 128 \<le> n" using assms(1) by auto
  ultimately show ?case
    using assms opaque_byte_low [of n 0] sc_cur_ahead [OF "0.prems"(1) a]
    by (subst parseInt_loop.simps) (simp add: s32_def)
next
  case (Suc k)
  define m where "m = drop_bit (7 * Suc k) n"
  let ?c = "opaque_byte n (Suc k)"
  from Suc.prems(2) have a: "ahead s = ?c # map (opaque_byte n) (rev [0..<Suc k]) @ rest" by simp
  note st = need_1 [OF Suc.prems(1) a]
  have m: "drop_bit (7 * Suc (Suc k)) n * 128 + m mod 128 = m"
    unfolding m_def by (rule drop_bit_7_Suc)
  define d where "d = drop_bit (7 * Suc (Suc k)) n"
  have "m \<le> n" using assms(1) zdiv_mono2 [of n 1 "2 ^ (7 * Suc k)"]
    by (simp add: m_def drop_bit_eq_div)
  moreover have "0 \<le> m" "0 \<le> d" using assms(1) by (simp_all add: m_def d_def)
  moreover have md: "d * 128 + m mod 128 = m" using m by (simp add: d_def)
  ultimately have "s32 (d * 128) = Some (d * 128)" "s32 (d * 128 + m mod 128) = Some m"
    using assms pos_mod_sign [of 128 m] s32_ok [of "d * 128"] s32_ok [of m] by simp_all
  moreover have "uint (?c AND 0x7F) = m mod 128" "?c AND 0x80 \<noteq> 0"
    unfolding m_def opaque_byte_low by simp_all
  ultimately have "parseInt_loop d s = parseInt_loop m (s\<lparr>sc_pos := sc_pos s + 1\<rparr>)"
    using sc_cur_ahead [OF Suc.prems(1) a] st(2)
    by (subst parseInt_loop.simps) (simp add: in_doc_def)
  then have "parseInt_loop (drop_bit (7 * Suc (Suc k)) n) s = parseInt_loop m (s\<lparr>sc_pos := sc_pos s + 1\<rparr>)"
    unfolding d_def .
  also have "\<dots> = Some (SML_ERR_OK, n, s\<lparr>sc_pos := sc_pos s + 1\<rparr>\<lparr>sc_pos := sc_pos (s\<lparr>sc_pos := sc_pos s + 1\<rparr>) + int k\<rparr>)"
    unfolding m_def using Suc.IH [OF st(2,3)] by blast
  finally show ?case by (simp add: add.assoc)
qed

lemma mb_uint_snoc: "n < 2 ^ 28 \<Longrightarrow> \<exists>k. opaque_bytes_needed (int n) = Suc k"
  using opaque_bytes_needed_spec [of "int n"] by (cases "opaque_bytes_needed (int n)") auto

lemma parseInt_mb:
  assumes d: "in_doc s" and a: "ahead s = mb_uint n @ rest" and n: "n < 2 ^ 28"
  shows "parseInt s = Some (SML_ERR_OK, int n, s\<lparr>sc_pos := sc_pos s + int (length (mb_uint n)) - 1\<rparr>)"
    and "in_doc (s\<lparr>sc_pos := sc_pos s + int (length (mb_uint n)) - 1\<rparr>)"
    and "\<exists>b. ahead (s\<lparr>sc_pos := sc_pos s + int (length (mb_uint n)) - 1\<rparr>) = b # rest"
proof -
  from mb_uint_snoc [OF n] obtain k where k: "opaque_bytes_needed (int n) = Suc k" by blast
  have z: "drop_bit (7 * Suc k) (int n) = 0"
    using opaque_bytes_needed_spec [of "int n"] n k by simp
  have len: "length (mb_uint n) = Suc k" by (simp add: mb_uint_def k)
  have "parseInt_loop (drop_bit (7 * Suc k) (int n)) s = Some (SML_ERR_OK, int n, s\<lparr>sc_pos := sc_pos s + int k\<rparr>)"
    by (rule parseInt_loop_opaque [OF _ _ d, of "int n" k rest]) (use a n in \<open>simp_all add: mb_uint_def k\<close>)
  with z show "parseInt s = Some (SML_ERR_OK, int n, s\<lparr>sc_pos := sc_pos s + int (length (mb_uint n)) - 1\<rparr>)"
    by (simp add: parseInt_def len)
  have "k \<le> length (ahead s)" using a len by simp
  from ahead_skip [OF d this] show "in_doc (s\<lparr>sc_pos := sc_pos s + int (length (mb_uint n)) - 1\<rparr>)"
    by (simp add: len)
  have "mb_uint n = map (opaque_byte (int n)) (rev [Suc 0..<Suc k]) @ [opaque_byte (int n) 0]"
    by (simp add: mb_uint_def k upt_conv_Cons del: upt_Suc)
  then have "drop k (mb_uint n) = [opaque_byte (int n) 0]" by simp
  with a len have "drop k (ahead s) = opaque_byte (int n) 0 # rest" by simp
  with ahead_skip [OF d \<open>k \<le> length (ahead s)\<close>]
  show "\<exists>b. ahead (s\<lparr>sc_pos := sc_pos s + int (length (mb_uint n)) - 1\<rparr>) = b # rest"
    by (simp add: len)
qed

section \<open>Classes of tag bytes\<close>

definition plain_byte :: "byte \<Rightarrow> bool" where
  "plain_byte b \<longleftrightarrow> \<not> IS_PI b \<and> \<not> IS_EXTENSION b \<and> \<not> IS_ENTITY b \<and> \<not> IS_STRING b \<and> \<not> IS_OPAQUE b \<and>
     \<not> IS_SWITCH b \<and> \<not> IS_END b \<and> \<not> IS_LITERAL b \<and> \<not> HAS_ATTRIBUTES b"

lemma tag_byte_table:
  "list_all (\<lambda>b. plain_byte b \<and> IDENTITY b = b \<and> \<not> HAS_CONTENT b \<and>
       plain_byte (b OR XLT_CONTBYTE) \<and> IDENTITY (b OR XLT_CONTBYTE) = b \<and> HAS_CONTENT (b OR XLT_CONTBYTE))
     (map word_of_nat [5..<64])"
  by code_simp

lemma tag_byte_class:
  assumes "0x05 \<le> b" "b < (0x40 :: byte)"
  shows "plain_byte b" "IDENTITY b = b" "\<not> HAS_CONTENT b" "plain_byte (b OR XLT_CONTBYTE)"
    "IDENTITY (b OR XLT_CONTBYTE) = b" "HAS_CONTENT (b OR XLT_CONTBYTE)"
proof -
  have "b = word_of_nat (unat b)" by simp
  moreover have "unat b \<in> set [5..<64]"
    using assms unat_mono [OF assms(2)] unfolding set_upt atLeastLessThan_iff
    by (simp add: word_le_nat_alt)
  ultimately have "b \<in> set (map word_of_nat [5..<64])" by (metis imageI list.set_map)
  with tag_byte_table show "plain_byte b" "IDENTITY b = b" "\<not> HAS_CONTENT b" "plain_byte (b OR XLT_CONTBYTE)"
    "IDENTITY (b OR XLT_CONTBYTE) = b" "HAS_CONTENT (b OR XLT_CONTBYTE)"
    unfolding list_all_iff by blast+
qed

section \<open>The tokens of the events\<close>

definition str_pcdata :: "byte list \<Rightarrow> SmlPcdata" where
  "str_pcdata s = \<lparr>pc_contentType = SML_PCDATA_STRING, pc_extension = Some SML_EXT_UNDEFINED,
                   pc_length = int (length s), pc_content = s @ [0]\<rparr>"

definition opaque_pcdata :: "byte list \<Rightarrow> SmlPcdata" where
  "opaque_pcdata bs = \<lparr>pc_contentType = SML_PCDATA_OPAQUE, pc_extension = Some SML_EXT_UNDEFINED,
                       pc_length = int (length bs), pc_content = bs @ [0]\<rparr>"

text \<open>The token of an event, given the open tags before it.\<close>

fun tok_of :: "XltTagID list \<Rightarrow> wb_event \<Rightarrow> XltDecToken \<Rightarrow> bool" where
  "tok_of st (Ev_start ext i) t \<longleftrightarrow> tok_type t = TOK_TAG_START \<and> tok_tagid t = i \<and> tok_ext t = ext"
| "tok_of st (Ev_empty ext i) t \<longleftrightarrow> tok_type t = TOK_TAG_EMPTY \<and> tok_tagid t = i \<and> tok_ext t = ext"
| "tok_of st Ev_end t \<longleftrightarrow> st \<noteq> [] \<and> tok_type t = TOK_TAG_END \<and> tok_tagid t = hd st"
| "tok_of st (Ev_str s) t \<longleftrightarrow> tok_type t = TOK_CONT \<and> tok_pcdata t = PC_live (str_pcdata s)"
| "tok_of st (Ev_opaque bs) t \<longleftrightarrow> tok_type t = TOK_CONT \<and> tok_pcdata t = PC_live (opaque_pcdata bs)"

text \<open>The open tags after an event; \<open>None\<close> for an end tag without a start tag.\<close>

fun ev_stack :: "wb_event \<Rightarrow> XltTagID list \<Rightarrow> XltTagID list option" where
  "ev_stack (Ev_start ext i) st = Some (i # st)"
| "ev_stack Ev_end st = (case st of [] \<Rightarrow> None | i # st \<Rightarrow> Some st)"
| "ev_stack _ st = Some st"

fun ev_page_ok :: "wb_event \<Rightarrow> bool" where
  "ev_page_ok (Ev_start ext i) = (ext \<in> {SML_EXT_UNDEFINED, SML_EXT_METINF, SML_EXT_DMTND})"
| "ev_page_ok (Ev_empty ext i) = (ext \<in> {SML_EXT_UNDEFINED, SML_EXT_METINF, SML_EXT_DMTND})"
| "ev_page_ok _ = True"

text \<open>The scanner between two tokens of the document, on the code page of \<open>cur\<close>.\<close>

definition scan_ready :: "SmlPcdataExtension \<Rightarrow> XltTagID list \<Rightarrow> byte list \<Rightarrow> wbxmlScanner \<Rightarrow> bool" where
  "scan_ready cur st rest s \<longleftrightarrow>
     in_doc s \<and> ahead s = rest \<and> tok_ready (sc_tok s) \<and> sc_state s = TAG_STATE \<and>
     sc_cptag s = getCodePage cur \<and> sc_activeExt s = cur \<and> page_ext (getCodePage cur) = cur \<and>
     stk_tight (sc_tagstack s) \<and> stk_view (sc_tagstack s) = st \<and> chunksize (sc_tagstack s) = 10"

lemma sc_malloc_ready: "tok_ready (sc_tok s) \<Longrightarrow> sc_malloc s = (True, s)"
  by (simp add: sc_malloc_def tok_malloc_def tok_ready_def)

lemma tok_malloc_ready: "tok_ready g \<Longrightarrow> tok_malloc g = (True, g)"
  by (simp add: tok_malloc_def tok_ready_def)

lemma nextTok_step:
  assumes "in_doc s" "ahead s = b # bs" "\<not> IS_PI b" "\<not> IS_EXTENSION b" "\<not> IS_ENTITY b"
  shows "nextTok s = token_step b (s\<lparr>sc_curtok := zero_token\<lparr>tok_start := Some (sc_pos s)\<rparr>\<rparr>)"
  using assms sc_cur_ahead [OF assms(1,2)] by (simp add: nextTok_def nextTok_loop.simps sc_cur_def)

lemma in_doc_curtok [simp]: "in_doc (s\<lparr>sc_curtok := t\<rparr>) = in_doc s" "ahead (s\<lparr>sc_curtok := t\<rparr>) = ahead s"
  by (simp_all add: in_doc_def ahead_def)

lemma c_string_zero: "0 \<notin> set s \<Longrightarrow> c_string (s @ 0 # rest) = Some s"
  by (induction s) auto

lemma string_at_ahead:
  assumes "in_doc s" "ahead s = str @ 0 # rest" "0 \<notin> set str"
  shows "string_at (sc_mem s) (sc_pos s) = Some str"
proof -
  have "drop (nat (sc_pos s)) (sc_mem s) = ahead s @ drop (nat (sc_bufend s)) (sc_mem s)"
  proof -
    have "drop (nat (sc_pos s)) (take (nat (sc_bufend s)) (sc_mem s) @ drop (nat (sc_bufend s)) (sc_mem s))
        = ahead s @ drop (nat (sc_bufend s)) (sc_mem s)"
    proof -
      have "nat (sc_pos s) - length (take (nat (sc_bufend s)) (sc_mem s)) = 0"
        using assms(1) by (auto simp: in_doc_def min_def)
      then show ?thesis unfolding drop_append ahead_def by (simp del: length_take)
    qed
    then show ?thesis by simp
  qed
  with assms c_string_zero [OF assms(3)] show ?thesis by (simp add: string_at_def in_doc_def)
qed

lemma zero_token_start [simp]:
  "tok_start (zero_token\<lparr>tok_start := p\<rparr>) = p"
  by simp

lemma scan_str:
  assumes r: "scan_ready cur st (0x03 # str @ 0 # rest) s" and str: "0 \<notin> set str"
  shows "\<exists>s'. nextTok s = Some (SML_ERR_OK, s') \<and> scan_ready cur st rest s' \<and>
           tok_of st (Ev_str str) (sc_curtok s')"
proof -
  define s0 where "s0 = s\<lparr>sc_curtok := zero_token\<lparr>tok_start := Some (sc_pos s)\<rparr>\<rparr>"
  define s1 where "s1 = s0\<lparr>sc_pos := sc_pos s0 + 1\<rparr>"
  define s2 where "s2 = s1\<lparr>sc_pos := sc_pos s1 + int (length str + 1)\<rparr>"
  from r have d0: "in_doc s0" and a0: "ahead s0 = 0x03 # str @ 0 # rest" and g: "tok_ready (sc_tok s0)"
    by (simp_all add: scan_ready_def s0_def)
  note c = sc_cur_ahead [OF d0 a0] and n1 = need_1 [OF d0 a0, folded s1_def]
  from ahead_skip [OF n1(2), of "length str + 1"] n1(3)
  have d2: "in_doc s2" "ahead s2 = rest" by (simp_all add: s2_def)
  have bound: "sc_pos s1 + int (length str) + 1 \<le> sc_bufend s1"
    using length_ahead [OF n1(2)] n1(3) by simp
  have rd: "readBytes (int (length str) + 1) s1 = (True, s2)"
    using readBytes_ok [OF n1(2), of "length str + 1"] n1(3) by (simp add: s2_def add.commute)
  have "wbxmlStringToken s0 = Some (SML_ERR_OK, set_content (str_pcdata str) s2)"
    using sc_malloc_ready [of s0] sc_malloc_ready [of s1] g c n1(1) string_at_ahead [OF n1(2,3) str] bound rd
    by (simp add: wbxmlStringToken_def Let_def IS_STR_I_def str_pcdata_def s1_def)
  moreover have "nextTok s = wbxmlStringToken s0"
    using nextTok_step [of s "0x03" "str @ 0 # rest"] r
    by (simp add: scan_ready_def s0_def token_step_def token_classes)
  moreover have "scan_ready cur st rest (set_content (str_pcdata str) s2)"
    using r d2 by (simp add: scan_ready_def set_content_def s2_def s1_def s0_def in_doc_def ahead_def)
  ultimately show ?thesis by (simp add: set_content_def)
qed

lemma scan_opaque:
  assumes r: "scan_ready cur st (0xC3 # mb_uint (length bs) @ bs @ rest) s" and n: "length bs < 2 ^ 28"
  shows "\<exists>s'. nextTok s = Some (SML_ERR_OK, s') \<and> scan_ready cur st rest s' \<and>
           tok_of st (Ev_opaque bs) (sc_curtok s')"
proof -
  define s0 where "s0 = s\<lparr>sc_curtok := zero_token\<lparr>tok_start := Some (sc_pos s)\<rparr>\<rparr>"
  define s1 where "s1 = s0\<lparr>sc_pos := sc_pos s0 + 1\<rparr>"
  define s2 where "s2 = s1\<lparr>sc_pos := sc_pos s1 + int (length (mb_uint (length bs))) - 1\<rparr>"
  define s3 where "s3 = s2\<lparr>sc_pos := sc_pos s2 + 1\<rparr>"
  define s4 where "s4 = s3\<lparr>sc_pos := sc_pos s3 + int (length bs)\<rparr>"
  from r have d0: "in_doc s0" and a0: "ahead s0 = 0xC3 # mb_uint (length bs) @ bs @ rest"
    and g: "tok_ready (sc_tok s0)"
    by (simp_all add: scan_ready_def s0_def)
  note n1 = need_1 [OF d0 a0, folded s1_def]
  note p = parseInt_mb [OF n1(2,3) n, folded s2_def]
  from p(3) obtain b where a2: "ahead s2 = b # bs @ rest" by blast
  note n3 = need_1 [OF p(2) a2, folded s3_def]
  from ahead_skip [OF n3(2), of "length bs"] n3(3)
  have d4: "in_doc s4" "ahead s4 = rest" by (simp_all add: s4_def)
  have bound: "sc_pos s3 + int (length bs) \<le> sc_bufend s3"
    using length_ahead [OF n3(2)] n3(3) by simp
  have content: "bytes_at (sc_mem s3) (sc_pos s3) (int (length bs)) = Some bs"
  proof -
    have "take (length bs) (ahead s3) = bs" using n3(3) by simp
    moreover have "nat (sc_pos s3) + length bs \<le> nat (sc_bufend s3)"
      using bound n3(2) by (auto simp: in_doc_def)
    ultimately show ?thesis
      using bound n3(2) by (simp add: bytes_at_def in_doc_def ahead_def take_drop)
  qed
  have rd: "readBytes (int (length bs)) (s3\<lparr>sc_curtok := t\<rparr>) = (True, s4\<lparr>sc_curtok := t\<rparr>)" for t
    using readBytes_ok [of "s3\<lparr>sc_curtok := t\<rparr>" "length bs"] n3(2,3) by (simp add: s4_def)
  have "wbxmlOpaqueToken s0 = Some (SML_ERR_OK,
      s4\<lparr>sc_curtok := (sc_curtok s3)\<lparr>tok_pcdata := PC_live (opaque_pcdata bs), tok_type := TOK_CONT\<rparr>\<rparr>)"
    using sc_malloc_ready [of s3] g n1(1) p(1) n3(1) bound content rd
    by (simp add: wbxmlOpaqueToken_def Let_def on_ok_def opaque_pcdata_def s3_def s2_def s1_def not_less)
  moreover have "nextTok s = wbxmlOpaqueToken s0"
    using nextTok_step [of s "0xC3" "mb_uint (length bs) @ bs @ rest"] r
    by (simp add: scan_ready_def s0_def token_step_def token_classes)
  moreover have "scan_ready cur st rest (s4\<lparr>sc_curtok := t\<rparr>)" for t
    using r d4 by (simp add: scan_ready_def s4_def s3_def s2_def s1_def s0_def in_doc_def ahead_def)
  ultimately show ?thesis by simp
qed

text \<open>The stack operations of the scanner while no allocation fails.\<close>

lemma wbxmlPop_ready:
  assumes "tok_ready (sc_tok s)" "stk_tight (sc_tagstack s)" "stk_view (sc_tagstack s) = i # st"
  shows "\<exists>ts. wbxmlPop s = Some (SML_ERR_OK, Some i, s\<lparr>sc_tagstack := ts\<rparr>) \<and> stk_tight ts \<and>
           stk_view ts = st \<and> chunksize ts = chunksize (sc_tagstack s)"
proof -
  from stk_tight_pop [OF assms(2,3)] obtain ts where
    ts: "stack_pop True (sc_tagstack s) = Some (SML_ERR_OK, Some i, ts)" "stk_tight ts" "stk_view ts = st" by blast
  moreover have "chunksize ts = chunksize (sc_tagstack s)"
    using stack_pop_view [of "sc_tagstack s" i st True] assms(2,3) ts(1) by (auto simp: stk_tight_def)
  ultimately show ?thesis
    using tok_malloc_ready [OF assms(1)] by (intro exI [of _ ts]) (simp add: wbxmlPop_def)
qed

lemma stk_room_view:
  assumes "stk_tight ts"
  shows "stk_room ts = 2 ^ 31 - 2 * nat (chunksize ts) - length (stk_view ts)"
proof -
  from assms have i: "stk_inv ts" by (simp add: stk_tight_def)
  then have "int (length (stk_view ts)) = topidx ts + 1"
    by (auto simp: stk_view_def stk_inv_def)
  moreover from i have "0 < chunksize ts" by (simp add: stk_inv_def)
  ultimately show ?thesis by (simp add: stk_room_def nat_diff_distrib nat_mult_distrib)
qed

lemma wbxmlPush_ready:
  assumes "tok_ready (sc_tok s)" "stk_tight (sc_tagstack s)" "chunksize (sc_tagstack s) = 10"
    "length (stk_view (sc_tagstack s)) < 2 ^ 31 - 20"
  shows "\<exists>ts. wbxmlPush i s = Some (SML_ERR_OK, s\<lparr>sc_tagstack := ts\<rparr>) \<and> stk_tight ts \<and>
           stk_view ts = i # stk_view (sc_tagstack s) \<and> chunksize ts = 10"
proof -
  have room: "0 < stk_room (sc_tagstack s)"
    using stk_room_view [OF assms(2)] assms(3,4) by simp
  from stk_tight_push [OF assms(2) room, of i] obtain ts where
    ts: "stack_push True i (sc_tagstack s) = Some (SML_ERR_OK, ts)" "stk_tight ts"
    "stk_view ts = i # stk_view (sc_tagstack s)" by blast
  moreover have "chunksize ts = chunksize (sc_tagstack s)"
  proof -
    have "stk_size (sc_tagstack s) + chunksize (sc_tagstack s) < 2 ^ 31"
      using assms(2) room by (auto simp: stk_tight_def stk_room_def stk_inv_def max_def split: if_splits)
    with stack_push_view [of "sc_tagstack s" True i] assms(2) ts(1) show ?thesis
      by (auto simp: stk_tight_def)
  qed
  ultimately show ?thesis
    using tok_malloc_ready [OF assms(1)] assms(3) by (intro exI [of _ ts]) (simp add: wbxmlPush_def)
qed

lemma scan_end:
  assumes r: "scan_ready cur (i # st) (0x01 # rest) s"
  shows "\<exists>s'. nextTok s = Some (SML_ERR_OK, s') \<and> scan_ready cur st rest s' \<and>
           tok_of (i # st) Ev_end (sc_curtok s')"
proof -
  define s0 where "s0 = s\<lparr>sc_curtok := zero_token\<lparr>tok_start := Some (sc_pos s)\<rparr>\<rparr>"
  define s1 where "s1 = s0\<lparr>sc_pos := sc_pos s0 + 1\<rparr>"
  define s2 where "s2 = s1\<lparr>sc_curtok := (sc_curtok s1)\<lparr>tok_type := TOK_TAG_END\<rparr>\<rparr>"
  from r have d0: "in_doc s0" and a0: "ahead s0 = 0x01 # rest"
    by (simp_all add: scan_ready_def s0_def)
  note n1 = need_1 [OF d0 a0, folded s1_def]
  from r obtain ts where ts: "wbxmlPop s2 = Some (SML_ERR_OK, Some i, s2\<lparr>sc_tagstack := ts\<rparr>)"
    "stk_tight ts" "stk_view ts = st" "chunksize ts = 10"
    using wbxmlPop_ready [of s2 i st] by (auto simp: scan_ready_def s2_def s1_def s0_def)
  have "wbxmlEndTag s0 = Some (SML_ERR_OK,
      s2\<lparr>sc_tagstack := ts, sc_curtok := (sc_curtok s2)\<lparr>tok_tagid := i\<rparr>\<rparr>)"
    using n1(1) ts(1) by (simp add: wbxmlEndTag_def s2_def)
  moreover have "nextTok s = wbxmlEndTag s0"
    using nextTok_step [of s "0x01" rest] r sc_cur_ahead [OF d0 a0]
    by (simp add: scan_ready_def s0_def token_step_def token_classes wbxmlTagToken_def)
  moreover have "scan_ready cur st rest (s2\<lparr>sc_tagstack := ts, sc_curtok := t\<rparr>)" for t
    using r n1(2,3) ts by (simp add: scan_ready_def s2_def s1_def s0_def in_doc_def ahead_def)
  ultimately show ?thesis by (simp add: s2_def)
qed

lemma known_tag_nonzero: "i \<in> known_tags ext \<Longrightarrow> i \<noteq> TN_UNDEF"
  by (auto simp: known_tags_def tags_of_def live_rows_def split: option.splits dest: set_takeWhileD)

text \<open>The tag byte itself, on the right code page.\<close>

lemma scan_start_tag:
  assumes d: "in_doc s" and a: "ahead s = b # rest" and g: "tok_ready (sc_tok s)"
    and i: "i \<in> known_tags ext" and b: "b = (if c then byte_of ext i OR XLT_CONTBYTE else byte_of ext i)"
    and page: "sc_activeExt s = ext" "sc_cptag s = getCodePage ext" "page_ext (getCodePage ext) = ext"
    and st: "stk_tight (sc_tagstack s)" "stk_view (sc_tagstack s) = st" "chunksize (sc_tagstack s) = 10"
      "length st < 2 ^ 31 - 20" and state: "sc_state s = TAG_STATE"
  shows "\<exists>s'. wbxmlStartTag b s = Some (SML_ERR_OK, s') \<and>
           scan_ready ext (if c then i # st else st) rest s' \<and>
           tok_type (sc_curtok s') = (if c then TOK_TAG_START else TOK_TAG_EMPTY) \<and>
           tok_tagid (sc_curtok s') = i \<and> tok_ext (sc_curtok s') = ext \<and>
           tok_start (sc_curtok s') = tok_start (sc_curtok s)"
proof -
  note cls = tag_byte_class [of "byte_of ext i"] byte_of_range [OF i]
  from cls b have bc: "plain_byte b" "IDENTITY b = byte_of ext i" "HAS_CONTENT b = c" by auto
  from tag_bytes.dec_law [OF g i] obtain g' where
    g': "getTagIDByByteAndExt (byte_of ext i) ext (sc_tok s) = Some (SML_ERR_OK, Some i, g')" "tok_ready g'"
    by blast
  define s1 where "s1 = set_tag i c (s\<lparr>sc_tok := g'\<rparr>)"
  define s2 where "s2 = s1\<lparr>sc_pos := sc_pos s1 + 1\<rparr>"
  have d1: "in_doc s1" "ahead s1 = b # rest"
    using d a by (simp_all add: s1_def set_tag_def in_doc_def ahead_def)
  note n = need_1 [OF d1, folded s2_def]
  have start: "wbxmlStartTag b s = wbxmlOpenTag b i s2"
    using bc g' page known_tag_nonzero [OF i] n(1)
    by (simp add: wbxmlStartTag_def wbxmlTagId_def plain_byte_def s1_def)
  have s2: "sc_tok s2 = g'" "sc_tagstack s2 = sc_tagstack s" "sc_state s2 = TAG_STATE" "sc_activeExt s2 = ext"
    "sc_cptag s2 = getCodePage ext" "tok_type (sc_curtok s2) = (if c then TOK_TAG_START else TOK_TAG_EMPTY)"
    "tok_tagid (sc_curtok s2) = i" "tok_ext (sc_curtok s2) = ext"
    "tok_start (sc_curtok s2) = tok_start (sc_curtok s)"
    using page state by (simp_all add: s2_def s1_def set_tag_def)
  show ?thesis
  proof (cases c)
    case True
    from wbxmlPush_ready [of s2 i] obtain ts where
      ts: "wbxmlPush i s2 = Some (SML_ERR_OK, s2\<lparr>sc_tagstack := ts\<rparr>)" "stk_tight ts"
      "stk_view ts = i # st" "chunksize ts = 10" using s2 g'(2) st by auto
    then have "wbxmlOpenTag b i s2 = Some (SML_ERR_OK, s2\<lparr>sc_tagstack := ts\<rparr>)"
      using bc True by (simp add: wbxmlOpenTag_def plain_byte_def)
    moreover have "scan_ready ext (i # st) rest (s2\<lparr>sc_tagstack := ts\<rparr>)"
      using n(2,3) s2 g'(2) ts page(3) by (simp add: scan_ready_def in_doc_def ahead_def)
    ultimately show ?thesis using start s2 True by simp
  next
    case False
    then have "wbxmlOpenTag b i s2 = Some (SML_ERR_OK, s2)"
      using bc by (simp add: wbxmlOpenTag_def plain_byte_def)
    moreover have "scan_ready ext st rest s2"
      using n(2,3) s2 g'(2) st page(3) by (simp add: scan_ready_def)
    ultimately show ?thesis using start s2 False by simp
  qed
qed

lemma page_code_inj:
  assumes "page_ext (getCodePage e1) = e1" "page_ext (getCodePage e2) = e2" "getCodePage e1 = getCodePage e2"
  shows "e1 = e2"
  using assms by metis

lemma wbxmlSwitchPage_ready:
  assumes d: "in_doc s" and a: "ahead s = 0 # p # rest" and st: "sc_state s = TAG_STATE"
  shows "wbxmlSwitchPage s = Some (SML_ERR_OK,
           s\<lparr>sc_pos := sc_pos s + 2, sc_cptag := p, sc_activeExt := page_ext p\<rparr>)"
    and "in_doc (s\<lparr>sc_pos := sc_pos s + 2, sc_cptag := p, sc_activeExt := page_ext p\<rparr>)"
    and "ahead (s\<lparr>sc_pos := sc_pos s + 2, sc_cptag := p, sc_activeExt := page_ext p\<rparr>) = rest"
proof -
  define s1 where "s1 = s\<lparr>sc_pos := sc_pos s + 1\<rparr>"
  note n = need_1 [OF d a, folded s1_def]
  have d1: "in_doc (s1\<lparr>sc_cptag := p\<rparr>)" "ahead (s1\<lparr>sc_cptag := p\<rparr>) = p # rest"
    using n(2,3) by (simp_all add: in_doc_def ahead_def)
  have "readBytes 1 (s1\<lparr>sc_cptag := p\<rparr>) = (True, s1\<lparr>sc_cptag := p\<rparr>\<lparr>sc_pos := sc_pos s1 + 1\<rparr>)"
    using readBytes_ok [OF d1(1), of 1] d1(2) by simp
  then show "wbxmlSwitchPage s = Some (SML_ERR_OK,
           s\<lparr>sc_pos := sc_pos s + 2, sc_cptag := p, sc_activeExt := page_ext p\<rparr>)"
    using n sc_cur_ahead [OF n(2,3)] st by (simp add: wbxmlSwitchPage_def s1_def)
  from need_1(2,3) [OF d1] show
    "in_doc (s\<lparr>sc_pos := sc_pos s + 2, sc_cptag := p, sc_activeExt := page_ext p\<rparr>)"
    "ahead (s\<lparr>sc_pos := sc_pos s + 2, sc_cptag := p, sc_activeExt := page_ext p\<rparr>) = rest"
    by (simp_all add: s1_def in_doc_def ahead_def add.assoc)
qed

text \<open>
  A tag after a switch to its page is read on any page; the scanner is there when the tag has been given
  back.
\<close>

lemma scan_tag_from:
  assumes r: "scan_ready now st (page_switch cur ext @ b # rest) s"
    and now: "now = cur \<or> getCodePage ext \<noteq> getCodePage cur"
    and i: "i \<in> known_tags ext" and b: "b = (if c then byte_of ext i OR XLT_CONTBYTE else byte_of ext i)"
    and page: "page_ext (getCodePage ext) = ext" and len: "length st < 2 ^ 31 - 20"
  shows "\<exists>s'. nextTok s = Some (SML_ERR_OK, s') \<and>
           scan_ready ext (if c then i # st else st) rest s' \<and>
           tok_type (sc_curtok s') = (if c then TOK_TAG_START else TOK_TAG_EMPTY) \<and>
           tok_tagid (sc_curtok s') = i \<and> tok_ext (sc_curtok s') = ext \<and>
           tok_start (sc_curtok s') = Some (sc_pos s)"
proof -
  define s0 where "s0 = s\<lparr>sc_curtok := zero_token\<lparr>tok_start := Some (sc_pos s)\<rparr>\<rparr>"
  have r0: "scan_ready now st (page_switch cur ext @ b # rest) s0"
    using r by (simp add: scan_ready_def s0_def)
  from tag_byte_class [of "byte_of ext i"] byte_of_range [OF i] b have pl: "plain_byte b" by auto
  obtain s1 where s1: "in_doc s1" "ahead s1 = b # rest" "tok_ready (sc_tok s1)" "sc_activeExt s1 = ext"
      "sc_cptag s1 = getCodePage ext" "sc_state s1 = TAG_STATE" "stk_tight (sc_tagstack s1)"
      "stk_view (sc_tagstack s1) = st" "chunksize (sc_tagstack s1) = 10"
      "tok_start (sc_curtok s1) = Some (sc_pos s)"
    and tok: "nextTok s = wbxmlStartTag b s1"
  proof (cases "getCodePage ext = getCodePage cur")
    case True
    with now have "now = cur" by simp
    with True r0 page have e: "ext = cur" by (auto simp: scan_ready_def intro: page_code_inj)
    with r0 have s0: "in_doc s0" "ahead s0 = b # rest" by (simp_all add: scan_ready_def page_switch_def)
    have "nextTok s = wbxmlStartTag b s0"
      using nextTok_step [of s b rest] r e pl \<open>now = cur\<close> sc_cur_ahead [OF s0]
      by (simp add: scan_ready_def page_switch_def s0_def token_step_def wbxmlTagToken_def plain_byte_def)
    moreover have "tok_start (sc_curtok s0) = Some (sc_pos s)" by (simp add: s0_def)
    ultimately show thesis using that [of s0] r0 e s0 \<open>now = cur\<close> by (simp add: scan_ready_def)
  next
    case False
    with r0 have a0: "in_doc s0" "ahead s0 = 0 # getCodePage ext # b # rest" "sc_state s0 = TAG_STATE"
      by (simp_all add: scan_ready_def page_switch_def XLT_SWITCHPAGE_def)
    note sw = wbxmlSwitchPage_ready [OF a0]
    let ?s1 = "s0\<lparr>sc_pos := sc_pos s0 + 2, sc_cptag := getCodePage ext, sc_activeExt := page_ext (getCodePage ext)\<rparr>"
    have "nextTok s = wbxmlTagToken s0"
      using nextTok_step [of s 0 "getCodePage ext # b # rest"] r False
      by (simp add: scan_ready_def page_switch_def XLT_SWITCHPAGE_def s0_def token_step_def token_classes)
    also have "\<dots> = wbxmlStartTag b ?s1"
      using sc_cur_ahead [OF a0(1,2)] sw(1) sc_cur_ahead [OF sw(2,3)] pl
      by (simp add: wbxmlTagToken_def IS_SWITCH_def plain_byte_def)
    finally have "nextTok s = wbxmlStartTag b ?s1" .
    moreover have "tok_start (sc_curtok ?s1) = Some (sc_pos s)" by (simp add: s0_def)
    ultimately show thesis
      using that [of ?s1] sw(2,3) r0 page by (simp add: scan_ready_def)
  qed
  from scan_start_tag [OF s1(1,2,3) i b s1(4,5) page s1(7,8,9) len s1(6)] tok s1(10) show ?thesis by simp
qed

lemmas scan_tag = scan_tag_from [OF _ disjI1, OF _ refl]

text \<open>One event: its bytes are read as its token.\<close>

lemma scan_event:
  assumes r: "scan_ready cur st (ev_bytes cur e @ rest) s" and ok: "ev_ok e" "ev_page_ok e"
    and st: "ev_stack e st = Some st'" and len: "length st < 2 ^ 31 - 20"
  shows "\<exists>s'. nextTok s = Some (SML_ERR_OK, s') \<and> scan_ready (ev_ext cur e) st' rest s' \<and>
           tok_of st e (sc_curtok s')"
proof (cases e)
  case (Ev_start ext i)
  then have "page_ext (getCodePage ext) = ext" using ok(2) by (auto simp: getCodePage_def page_ext_def)
  with scan_tag [of cur st ext "byte_of ext i OR XLT_CONTBYTE" rest s i True] r ok(1) st len Ev_start
  show ?thesis by auto
next
  case (Ev_empty ext i)
  then have "page_ext (getCodePage ext) = ext" using ok(2) by (auto simp: getCodePage_def page_ext_def)
  with scan_tag [of cur st ext "byte_of ext i" rest s i False] r ok(1) st len Ev_empty
  show ?thesis by auto
next
  case Ev_end
  with st obtain i where "st = i # st'" by (auto split: list.splits)
  with scan_end [of cur i st' rest s] r Ev_end show ?thesis by simp
next
  case (Ev_str str)
  with scan_str [of cur st str rest s] r ok(1) st show ?thesis by simp
next
  case (Ev_opaque bs)
  with scan_opaque [of cur st bs rest s] r ok(1) st show ?thesis by simp
qed

text \<open>A whole sequence of events: as many calls of \<open>nextTok\<close>.\<close>

fun scan_all :: "nat \<Rightarrow> wbxmlScanner \<Rightarrow> (XltDecToken list \<times> wbxmlScanner) option" where
  "scan_all 0 s = Some ([], s)"
| "scan_all (Suc n) s = do {
     (rc, s) \<leftarrow> nextTok s;
     if rc \<noteq> SML_ERR_OK then None
     else do { (ts, s') \<leftarrow> scan_all n s; Some (sc_curtok s # ts, s') }
   }"

fun toks_of :: "XltTagID list \<Rightarrow> wb_event list \<Rightarrow> XltDecToken list \<Rightarrow> bool" where
  "toks_of st [] ts \<longleftrightarrow> ts = []"
| "toks_of st (e # es) ts \<longleftrightarrow>
     (\<exists>t ts' st'. ts = t # ts' \<and> tok_of st e t \<and> ev_stack e st = Some st' \<and> toks_of st' es ts')"

fun stack_after :: "wb_event list \<Rightarrow> XltTagID list \<Rightarrow> XltTagID list option" where
  "stack_after [] st = Some st"
| "stack_after (e # es) st = do { st \<leftarrow> ev_stack e st; stack_after es st }"

fun ext_after :: "SmlPcdataExtension \<Rightarrow> wb_event list \<Rightarrow> SmlPcdataExtension" where
  "ext_after cur [] = cur"
| "ext_after cur (e # es) = ext_after (ev_ext cur e) es"

lemma ev_stack_length: "ev_stack e st = Some st' \<Longrightarrow> length st' \<le> Suc (length st)"
  by (cases e) (auto split: list.splits)

lemma scan_events:
  assumes "scan_ready cur st (doc_bytes cur es @ rest) s" "list_all ev_ok es" "list_all ev_page_ok es"
    "stack_after es st = Some st'" "length st + length es \<le> 2 ^ 31 - 20"
  shows "\<exists>ts s'. scan_all (length es) s = Some (ts, s') \<and> toks_of st es ts \<and>
           scan_ready (ext_after cur es) st' rest s'"
  using assms
proof (induction es arbitrary: cur st s)
  case (Cons e es)
  from Cons.prems(4) obtain st1 where st1: "ev_stack e st = Some st1" "stack_after es st1 = Some st'"
    by (auto simp: bind_eq_Some_conv)
  have r: "scan_ready cur st (ev_bytes cur e @ doc_bytes (ev_ext cur e) es @ rest) s"
    using Cons.prems(1) by simp
  from scan_event [OF r _ _ st1(1)] Cons.prems obtain s1 where
    s1: "nextTok s = Some (SML_ERR_OK, s1)" "scan_ready (ev_ext cur e) st1 (doc_bytes (ev_ext cur e) es @ rest) s1"
    "tok_of st e (sc_curtok s1)" by auto
  have "length st1 + length es \<le> 2 ^ 31 - 20"
    using ev_stack_length [OF st1(1)] Cons.prems(5) by simp
  from Cons.IH [OF s1(2) _ _ st1(2) this] Cons.prems obtain ts s' where
    "scan_all (length es) s1 = Some (ts, s')" "toks_of st1 es ts"
    "scan_ready (ext_after (ev_ext cur e) es) st' rest s'" by auto
  with s1 st1(1) show ?case by auto
qed simp

end
