(* ===== verification/Generator_Spec.thy ===== *)
theory Generator_Spec
  imports Generators Wbxml_Roundtrip
begin

text \<open>
  What the WBXML generator writes: a calculus for the operations on the document buffer, the bytes
  of the events, the behaviour on a full buffer, and the evaluation mode that only counts.
\<close>

section \<open>The buffer while a document is written\<close>

definition buf_ok :: "BufferMgmt \<Rightarrow> bool" where
  "buf_ok b \<longleftrightarrow> \<not> bm_eval b \<and> 0 \<le> bm_pos b \<and> 0 \<le> bm_written b \<and> bm_written b \<le> bm_len b \<and>
     bm_len b < 2 ^ 31 \<and> bm_pos b + (bm_len b - bm_written b) \<le> int (length (bm_mem b)) \<and>
     \<bar>bm_endTagSize b\<bar> \<le> bm_written b \<and> tok_ready (bm_tok b)"

definition buf_put_bytes :: "byte list \<Rightarrow> BufferMgmt \<Rightarrow> BufferMgmt" where
  "buf_put_bytes bs b =
     b\<lparr>bm_mem := take (nat (bm_pos b)) (bm_mem b) @ bs @ drop (nat (bm_pos b) + length bs) (bm_mem b),
       bm_pos := bm_pos b + int (length bs), bm_written := bm_written b + int (length bs)\<rparr>"

text \<open>The document fields agree.\<close>

definition same_doc :: "BufferMgmt \<Rightarrow> BufferMgmt \<Rightarrow> bool" where
  "same_doc b b' \<longleftrightarrow> bm_mem b' = bm_mem b \<and> bm_pos b' = bm_pos b \<and> bm_written b' = bm_written b \<and>
     bm_len b' = bm_len b \<and> bm_eval b' = bm_eval b \<and> bm_vers b' = bm_vers b"

text \<open>
  The bytes \<open>bs\<close> have been written, or the buffer was full and a prefix of them has been.
\<close>

definition emits :: "BufferMgmt \<Rightarrow> byte list \<Rightarrow> ret \<Rightarrow> BufferMgmt \<Rightarrow> bool" where
  "emits b bs r b' \<longleftrightarrow>
     (if bm_written b + int (length bs) \<le> bm_len b
      then r = SML_ERR_OK \<and> same_doc (buf_put_bytes bs b) b'
      else r = SML_ERR_XLT_BUF_ERR \<and>
        (\<exists>n < length bs. bm_written b + int n \<le> bm_len b \<and> same_doc (buf_put_bytes (take n bs) b) b'))"

text \<open>... and after success \<open>cur\<close> is the current sub-DTD and \<open>d\<close> more bytes are owed for end tags.\<close>

definition enc_emits :: "enc_result \<Rightarrow> BufferMgmt \<Rightarrow> byte list \<Rightarrow> SmlPcdataExtension \<Rightarrow> int \<Rightarrow> bool" where
  "enc_emits m b bs cur d \<longleftrightarrow>
     (\<exists>r b'. m = Some (r, b') \<and> emits b bs r b' \<and> buf_ok b' \<and>
       (r = SML_ERR_OK \<longrightarrow> bm_curExt b' = cur \<and> bm_endTagSize b' = bm_endTagSize b + d))"

lemma same_doc_refl [simp]: "same_doc b b"
  by (simp add: same_doc_def)

lemma same_doc_trans: "same_doc a b \<Longrightarrow> same_doc b c \<Longrightarrow> same_doc a c"
  by (simp add: same_doc_def)

lemma buf_put_put:
  assumes "0 \<le> bm_pos b" "nat (bm_pos b) + length xs + length ys \<le> length (bm_mem b)"
  shows "buf_put_bytes ys (buf_put_bytes xs b) = buf_put_bytes (xs @ ys) b"
  using assms by (simp add: buf_put_bytes_def nat_add_distrib add.commute add.left_commute)

lemma same_doc_put: "same_doc a b \<Longrightarrow> same_doc (buf_put_bytes bs a) (buf_put_bytes bs b)"
  by (simp add: same_doc_def buf_put_bytes_def)

lemma same_doc_len: "same_doc (buf_put_bytes bs b) b' \<Longrightarrow>
    bm_len b' = bm_len b \<and> bm_written b' = bm_written b + int (length bs)"
  by (simp add: same_doc_def buf_put_bytes_def)

lemma put_room:
  assumes "buf_ok b" "bm_written b + int n \<le> bm_len b"
  shows "nat (bm_pos b) + n \<le> length (bm_mem b)"
  using assms by (auto simp: buf_ok_def)

lemma put_put_doc:
  assumes b: "buf_ok b" "bm_written b + int (length xs + length ys) \<le> bm_len b"
    and s: "same_doc (buf_put_bytes xs b) b1" "same_doc (buf_put_bytes ys b1) b2"
  shows "same_doc (buf_put_bytes (xs @ ys) b) b2"
proof -
  from put_room [OF b] have "buf_put_bytes ys (buf_put_bytes xs b) = buf_put_bytes (xs @ ys) b"
    using b(1) by (intro buf_put_put) (auto simp: buf_ok_def)
  with same_doc_trans [OF same_doc_put [OF s(1)] s(2)] show ?thesis by simp
qed

text \<open>Running one operation after another.\<close>

lemma emits_then:
  assumes b: "buf_ok b" and e1: "emits b xs SML_ERR_OK b1" and e2: "emits b1 ys r b2"
  shows "emits b (xs @ ys) r b2"
proof -
  from e1 have x: "bm_written b + int (length xs) \<le> bm_len b" "same_doc (buf_put_bytes xs b) b1"
    by (auto simp: emits_def split: if_splits)
  note l = same_doc_len [OF x(2)]
  show ?thesis
  proof (cases "bm_written b1 + int (length ys) \<le> bm_len b1")
    case True
    with e2 have "r = SML_ERR_OK" "same_doc (buf_put_bytes ys b1) b2" by (auto simp: emits_def)
    with put_put_doc [OF b _ x(2)] True l show ?thesis by (simp add: emits_def)
  next
    case False
    with e2 obtain n where n: "r = SML_ERR_XLT_BUF_ERR" "n < length ys" "bm_written b1 + int n \<le> bm_len b1"
      "same_doc (buf_put_bytes (take n ys) b1) b2" by (auto simp: emits_def)
    with put_put_doc [OF b _ x(2), of "take n ys"] l
    have "same_doc (buf_put_bytes (take (length xs + n) (xs @ ys)) b) b2" by simp
    with n l False show ?thesis
      by (auto simp: emits_def intro!: exI [of _ "length xs + n"])
  qed
qed

lemma emits_err:
  assumes "emits b xs r b1" "r \<noteq> SML_ERR_OK"
  shows "emits b (xs @ ys) r b1"
proof -
  from assms obtain n where n: "r = SML_ERR_XLT_BUF_ERR" "n < length xs" "bm_written b + int n \<le> bm_len b"
    "same_doc (buf_put_bytes (take n xs) b) b1" "bm_written b + int (length xs) > bm_len b"
    by (auto simp: emits_def split: if_splits)
  then show ?thesis by (auto simp: emits_def intro!: exI [of _ n])
qed

lemma enc_emits_then:
  assumes b: "buf_ok b" and m: "enc_emits m b xs cur1 d1"
    and k: "\<And>b1. buf_ok b1 \<Longrightarrow> bm_curExt b1 = cur1 \<Longrightarrow> bm_len b1 = bm_len b \<Longrightarrow> enc_emits (k b1) b1 ys cur2 d2"
  shows "enc_emits (enc_then m k) b (xs @ ys) cur2 (d1 + d2)"
proof -
  from m obtain r b1 where m1: "m = Some (r, b1)" "emits b xs r b1" "buf_ok b1"
    "r = SML_ERR_OK \<Longrightarrow> bm_curExt b1 = cur1 \<and> bm_endTagSize b1 = bm_endTagSize b + d1"
    by (auto simp: enc_emits_def)
  show ?thesis
  proof (cases "r = SML_ERR_OK")
    case True
    with m1(2) have "bm_len b1 = bm_len b"
      by (auto simp: emits_def dest: same_doc_len split: if_splits)
    from k [OF m1(3) conjunct1 [OF m1(4) [OF True]] this] obtain r2 b2 where
      k1: "k b1 = Some (r2, b2)" "emits b1 ys r2 b2" "buf_ok b2"
      "r2 = SML_ERR_OK \<Longrightarrow> bm_curExt b2 = cur2 \<and> bm_endTagSize b2 = bm_endTagSize b1 + d2"
      by (auto simp: enc_emits_def)
    from emits_then [OF b _ k1(2)] m1(2) True have "emits b (xs @ ys) r2 b2" by simp
    with m1(1,4) True k1 show ?thesis by (simp add: enc_emits_def enc_then_def)
  next
    case False
    with m1 emits_err [OF m1(2) False] show ?thesis by (simp add: enc_emits_def enc_then_def)
  qed
qed

lemma buf_ok_put:
  assumes "buf_ok b" "bm_written b + int (length bs) \<le> bm_len b"
  shows "buf_ok (buf_put_bytes bs b)"
  using assms put_room [OF assms] by (auto simp: buf_ok_def buf_put_bytes_def)

lemma xltAddToBuffer_emits:
  assumes b: "buf_ok b" "bm_len b + int (length bs) < 2 ^ 31" and p: "ptr_bytes p (int (length bs)) = Some bs"
  shows "enc_emits (xltAddToBuffer p (int (length bs)) b) b bs (bm_curExt b) 0"
proof -
  have t: "s32 (int (length bs) + bm_written b) = Some (bm_written b + int (length bs))"
    using b by (auto simp: s32_def buf_ok_def)
  show ?thesis
  proof (cases "bm_written b + int (length bs) \<le> bm_len b")
    case True
    note room = put_room [OF b(1) True]
    have "mem_put (bm_mem b) (bm_pos b) bs =
        Some (take (nat (bm_pos b)) (bm_mem b) @ bs @ drop (nat (bm_pos b) + length bs) (bm_mem b))"
      using room b(1) by (simp add: mem_put_def buf_ok_def)
    with t True p b(1) have "xltAddToBuffer p (int (length bs)) b = Some (SML_ERR_OK, buf_put_bytes bs b)"
      by (simp add: xltAddToBuffer_def buf_ok_def buf_put_bytes_def)
    with True buf_ok_put [OF b(1) True] show ?thesis
      by (simp add: enc_emits_def emits_def) (simp add: buf_put_bytes_def)
  next
    case False
    with t b have "xltAddToBuffer p (int (length bs)) b = Some (SML_ERR_XLT_BUF_ERR, b)"
      by (simp add: xltAddToBuffer_def buf_ok_def)
    moreover have "same_doc (buf_put_bytes (take 0 bs) b) b"
      by (simp add: same_doc_def buf_put_bytes_def)
    moreover have "bs \<noteq> []" using False b(1) by (auto simp: buf_ok_def)
    ultimately show ?thesis using False b(1)
      by (auto simp: enc_emits_def emits_def buf_ok_def intro!: exI [of _ 0])
  qed
qed

lemma add_bytes_emits:
  assumes "buf_ok b" "bm_len b + int (length bs) < 2 ^ 31"
  shows "enc_emits (add_bytes bs b) b bs (bm_curExt b) 0"
  unfolding add_bytes_def using assms by (intro xltAddToBuffer_emits) (simp_all add: ptr_bytes_def)

lemma enc_emits_ok: "buf_ok b \<Longrightarrow> enc_emits (Some (SML_ERR_OK, b)) b [] (bm_curExt b) 0"
  by (auto simp: enc_emits_def emits_def buf_ok_def same_doc_def buf_put_bytes_def)

lemma enc_emits_same:
  assumes "enc_emits m b bs cur d" "same_doc a b" "bm_endTagSize a = bm_endTagSize b"
  shows "enc_emits m a bs cur d"
proof -
  have "same_doc (buf_put_bytes xs a) c = same_doc (buf_put_bytes xs b) c" for xs c
    using assms(2) by (simp add: same_doc_def buf_put_bytes_def)
  moreover have "bm_written a = bm_written b" "bm_len a = bm_len b"
    using assms(2) by (simp_all add: same_doc_def)
  ultimately have "emits a bs r c = emits b bs r c" for r c by (simp add: emits_def)
  then show ?thesis using assms(1,3) by (auto simp: enc_emits_def)
qed

text \<open>A byte that changes the number of bytes owed for end tags.\<close>

lemma add_tag_emits:
  assumes b: "buf_ok b" "bm_len b + 1 < 2 ^ 31" and n: "\<bar>n\<bar> \<le> 1"
  shows "enc_emits (enc_then (add_bytes [c] b) (end_tag_add n)) b [c] (bm_curExt b) n"
proof -
  from add_bytes_emits [of b "[c]"] b obtain r b' where
    b': "add_bytes [c] b = Some (r, b')" "emits b [c] r b'" "buf_ok b'" "r = SML_ERR_OK \<Longrightarrow> bm_curExt b' = bm_curExt b"
    by (auto simp: enc_emits_def)
  have et: "bm_endTagSize b' = bm_endTagSize b"
    using b'(1) by (auto simp: add_bytes_def xltAddToBuffer_def bind_eq_Some_conv split: if_splits)
  show ?thesis
  proof (cases "r = SML_ERR_OK")
    case True
    with b'(2) have w: "bm_written b' = bm_written b + 1"
      by (auto simp: emits_def dest: same_doc_len split: if_splits)
    have bd: "\<bar>bm_endTagSize b' + n\<bar> \<le> bm_written b'" using b(1) n w et by (auto simp: buf_ok_def)
    moreover have "bm_written b' < 2 ^ 31" using b'(3) by (simp add: buf_ok_def)
    ultimately have s: "s32 (bm_endTagSize b' + n) = Some (bm_endTagSize b' + n)" by (auto simp: s32_def)
    have "emits b [c] SML_ERR_OK (b'\<lparr>bm_endTagSize := e\<rparr>)" for e
      using b'(2) True by (auto simp: emits_def same_doc_def split: if_splits)
    moreover have "buf_ok (b'\<lparr>bm_endTagSize := bm_endTagSize b' + n\<rparr>)"
      using b'(3) bd by (simp add: buf_ok_def)
    ultimately show ?thesis using b' True s et
      by (simp add: enc_emits_def enc_then_def end_tag_add_def)
  next
    case False
    with b' show ?thesis by (simp add: enc_emits_def enc_then_def)
  qed
qed

lemma c_strlen_zero: "0 \<notin> set s \<Longrightarrow> c_strlen (s @ 0 # r) = Some (int (length s))"
  by (induction s) auto

text \<open>The bytes of an integer.\<close>

lemma opaque_size_emits:
  assumes b: "buf_ok b" "bm_len b + int (length (mb_uint n)) < 2 ^ 31"
  shows "enc_emits (wbxmlOpaqueSize2Buf (int n) b) b (mb_uint n) (bm_curExt b) 0"
proof -
  have "tok_malloc (bm_tok b) = (True, bm_tok b)" using b(1) by (intro tok_malloc_ready) (simp add: buf_ok_def)
  with b(1) have "wbxmlOpaqueSize2Buf (int n) b = add_bytes (mb_uint n) b"
    by (simp add: wbxmlOpaqueSize2Buf_def mb_uint_def buf_ok_def Let_def)
  with add_bytes_emits [OF b] show ?thesis by simp
qed

section \<open>Counting\<close>

text \<open>In evaluation mode the bytes are counted and the document does not change.\<close>

definition eval_ok :: "BufferMgmt \<Rightarrow> bool" where
  "eval_ok b \<longleftrightarrow> bm_eval b \<and> 0 \<le> bm_written b \<and> \<bar>bm_endTagSize b\<bar> \<le> bm_written b \<and> tok_ready (bm_tok b)"

definition enc_counts :: "enc_result \<Rightarrow> BufferMgmt \<Rightarrow> byte list \<Rightarrow> SmlPcdataExtension \<Rightarrow> int \<Rightarrow> bool" where
  "enc_counts m b bs cur d \<longleftrightarrow>
     (\<exists>b'. m = Some (SML_ERR_OK, b') \<and> eval_ok b' \<and> bm_written b' = bm_written b + int (length bs) \<and>
       bm_curExt b' = cur \<and> bm_endTagSize b' = bm_endTagSize b + d \<and> bm_mem b' = bm_mem b \<and>
       bm_pos b' = bm_pos b \<and> bm_len b' = bm_len b \<and> bm_vers b' = bm_vers b)"

definition write_room :: "BufferMgmt \<Rightarrow> nat \<Rightarrow> bool" where
  "write_room b n \<longleftrightarrow> bm_len b + int n + 5 < 2 ^ 31"

definition count_room :: "BufferMgmt \<Rightarrow> nat \<Rightarrow> bool" where
  "count_room b n \<longleftrightarrow> bm_written b + int n + 5 < 2 ^ 31"

lemma enc_counts_then:
  assumes m: "enc_counts m b xs cur1 d1"
    and k: "\<And>b1. eval_ok b1 \<Longrightarrow> bm_curExt b1 = cur1 \<Longrightarrow> bm_written b1 = bm_written b + int (length xs) \<Longrightarrow>
              enc_counts (k b1) b1 ys cur2 d2"
  shows "enc_counts (enc_then m k) b (xs @ ys) cur2 (d1 + d2)"
proof -
  from m obtain b1 where b1: "m = Some (SML_ERR_OK, b1)" "eval_ok b1" "bm_curExt b1 = cur1"
    "bm_written b1 = bm_written b + int (length xs)" "bm_endTagSize b1 = bm_endTagSize b + d1"
    "bm_mem b1 = bm_mem b" "bm_pos b1 = bm_pos b" "bm_len b1 = bm_len b" "bm_vers b1 = bm_vers b"
    by (auto simp: enc_counts_def)
  from k [OF b1(2,3,4)] b1 show ?thesis by (auto simp: enc_counts_def enc_then_def)
qed

lemma xltAddToBuffer_counts:
  assumes "eval_ok b" "bm_written b + int n < 2 ^ 31" "length bs = n"
  shows "enc_counts (xltAddToBuffer p (int n) b) b bs (bm_curExt b) 0"
proof -
  have "s32 (int n + bm_written b) = Some (bm_written b + int n)" using assms by (simp add: s32_def eval_ok_def)
  with assms show ?thesis by (auto simp: enc_counts_def xltAddToBuffer_def eval_ok_def)
qed

lemma add_tag_counts:
  assumes b: "eval_ok b" "bm_written b + 1 < 2 ^ 31" and n: "\<bar>n\<bar> \<le> 1"
  shows "enc_counts (enc_then (add_bytes [c] b) (end_tag_add n)) b [c] (bm_curExt b) n"
proof -
  from xltAddToBuffer_counts [of b 1 "[c]" "Some [c]"] b obtain b' where
    b': "add_bytes [c] b = Some (SML_ERR_OK, b')" "eval_ok b'" "bm_written b' = bm_written b + 1"
    "bm_curExt b' = bm_curExt b" "bm_endTagSize b' = bm_endTagSize b" "bm_mem b' = bm_mem b"
    "bm_pos b' = bm_pos b" "bm_len b' = bm_len b" "bm_vers b' = bm_vers b"
    by (auto simp: enc_counts_def add_bytes_def)
  have bd: "\<bar>bm_endTagSize b' + n\<bar> \<le> bm_written b'" using b(1) n b'(3,5) by (auto simp: eval_ok_def)
  then have "s32 (bm_endTagSize b' + n) = Some (bm_endTagSize b' + n)" using b(2) b'(3) by (auto simp: s32_def)
  with b' bd show ?thesis by (simp add: enc_counts_def enc_then_def end_tag_add_def eval_ok_def)
qed

lemma opaque_size_counts:
  assumes b: "eval_ok b" "bm_written b + int (length (mb_uint n)) < 2 ^ 31"
  shows "enc_counts (wbxmlOpaqueSize2Buf (int n) b) b (mb_uint n) (bm_curExt b) 0"
proof -
  have "s32 (bm_written b + int (opaque_bytes_needed (int n))) = Some (bm_written b + int (length (mb_uint n)))"
    using b by (simp add: s32_def eval_ok_def mb_uint_def)
  with b show ?thesis by (auto simp: enc_counts_def wbxmlOpaqueSize2Buf_def eval_ok_def)
qed

section \<open>What an event writes\<close>

text \<open>The fields that do not belong to the document.\<close>

definition retag :: "TokTbl \<Rightarrow> XltTagID \<Rightarrow> SmlPcdataExtension \<Rightarrow> SmlPcdataExtension \<Rightarrow> BufferMgmt \<Rightarrow> BufferMgmt" where
  "retag g i c l b = b\<lparr>bm_tok := g, bm_switchExtTag := i, bm_curExt := c, bm_lastExt := l\<rparr>"

text \<open>
  The interface between the events and the buffer: \<open>R m b bs cur d\<close> says what the result \<open>m\<close> of an
  operation on \<open>b\<close> has to do with the bytes \<open>bs\<close>. Writing and counting are its two instances.
\<close>

locale sink =
  fixes ok :: "BufferMgmt \<Rightarrow> bool"
    and room :: "BufferMgmt \<Rightarrow> nat \<Rightarrow> bool"
    and R :: "enc_result \<Rightarrow> BufferMgmt \<Rightarrow> byte list \<Rightarrow> SmlPcdataExtension \<Rightarrow> int \<Rightarrow> bool"
  assumes ok_ready: "ok b \<Longrightarrow> tok_ready (bm_tok b)"
    and ok_retag: "ok b \<Longrightarrow> tok_ready g \<Longrightarrow> ok (retag g i c l b)"
    and room_retag: "room b k \<Longrightarrow> room (retag g i c l b) k"
    and room_less: "room b k \<Longrightarrow> j \<le> k \<Longrightarrow> room b j"
    and R_retag: "R m (retag g i c l b) bs cur d \<Longrightarrow> R m b bs cur d"
    and R_nothing: "ok b \<Longrightarrow> R (Some (SML_ERR_OK, b)) b [] (bm_curExt b) 0"
    and R_add: "ok b \<Longrightarrow> room b (length bs) \<Longrightarrow> ptr_bytes p (int (length bs)) = Some bs \<Longrightarrow>
      R (xltAddToBuffer p (int (length bs)) b) b bs (bm_curExt b) 0"
    and R_tag: "ok b \<Longrightarrow> room b 1 \<Longrightarrow> \<bar>n\<bar> \<le> 1 \<Longrightarrow>
      R (enc_then (add_bytes [x] b) (end_tag_add n)) b [x] (bm_curExt b) n"
    and R_size: "ok b \<Longrightarrow> room b (length (mb_uint k)) \<Longrightarrow>
      R (wbxmlOpaqueSize2Buf (int k) b) b (mb_uint k) (bm_curExt b) 0"
    and R_then: "ok b \<Longrightarrow> R m b xs cur1 d1 \<Longrightarrow>
      (\<And>b1. ok b1 \<Longrightarrow> bm_curExt b1 = cur1 \<Longrightarrow> (\<And>n. room b (length xs + n) \<Longrightarrow> room b1 n) \<Longrightarrow> R (f b1) b1 ys cur2 d2) \<Longrightarrow>
      R (enc_then m f) b (xs @ ys) cur2 (d1 + d2)"
begin

lemma add_one: "ok b \<Longrightarrow> room b 1 \<Longrightarrow> R (add_bytes [x] b) b [x] (bm_curExt b) 0"
  using R_add [of b "[x]" "Some [x]"] by (simp add: add_bytes_def ptr_bytes_def)

lemma add_more:
  "ok b \<Longrightarrow> room b (length bs) \<Longrightarrow> R (xltAddToBuffer (Some (bs @ r)) (int (length bs)) b) b bs (bm_curExt b) 0"
  using R_add [of b bs "Some (bs @ r)"] by (simp add: ptr_bytes_def)

lemma page_switch:
  assumes b: "ok b" "room b (length (page_switch (bm_curExt b) ext))"
  shows "R (if getCodePage ext \<noteq> getCodePage (bm_curExt b)
            then enc_then (wbxmlWriteTypeToBuffer (Some [XLT_SWITCHPAGE]) TAG_elem 1 b)
              (wbxmlWriteTypeToBuffer (Some [getCodePage ext]) TAG_elem 1)
            else Some (SML_ERR_OK, b)) b (page_switch (bm_curExt b) ext) (bm_curExt b) 0"
proof (cases "getCodePage ext = getCodePage (bm_curExt b)")
  case True
  with R_nothing [OF b(1)] show ?thesis by (simp add: page_switch_def)
next
  case False
  then have rm: "room b 2" using b(2) by (simp add: page_switch_def numeral_2_eq_2)
  have eq: "wbxmlWriteTypeToBuffer (Some [c]) TAG_elem 1 = add_bytes [c]" for c
    by (simp add: fun_eq_iff wbxmlWriteTypeToBuffer_def add_bytes_def)
  have "R (enc_then (add_bytes [XLT_SWITCHPAGE] b) (add_bytes [getCodePage ext])) b
      ([XLT_SWITCHPAGE] @ [getCodePage ext]) (bm_curExt b) (0 + 0)"
  proof (rule R_then [OF b(1) add_one [OF b(1) room_less [OF rm]]])
    fix b1
    assume b1: "ok b1" "bm_curExt b1 = bm_curExt b" "\<And>n. room b (length [XLT_SWITCHPAGE] + n) \<Longrightarrow> room b1 n"
    have "room b1 1" by (rule b1(3)) (use rm in \<open>simp add: numeral_2_eq_2\<close>)
    with add_one [OF b1(1), of "getCodePage ext"] b1(2)
    show "R (add_bytes [getCodePage ext] b1) b1 [getCodePage ext] (bm_curExt b) 0" by simp
  qed simp
  with False show ?thesis by (simp add: page_switch_def eq)
qed

lemma tag_byte_known:
  assumes "ok b" "i \<in> known_tags (bm_curExt b)"
  shows "\<exists>g. tok_ready g \<and> tag_byte i b = Some (SML_ERR_OK, byte_of (bm_curExt b) i, b\<lparr>bm_tok := g\<rparr>)"
proof -
  from tag_bytes.enc_law [OF ok_ready [OF assms(1)] assms(2)] obtain g where
    "getTagByte i (bm_curExt b) (bm_tok b) = Some (SML_ERR_OK, Some (byte_of (bm_curExt b) i), g)" "tok_ready g"
    by blast
  moreover have "ret_byte SML_ERR_OK = SML_ERR_OK" by code_simp
  ultimately show ?thesis by (auto simp: tag_byte_def intro!: exI [of _ g])
qed

lemma generate_tag:
  assumes b: "ok b" "room b 1" and i: "i \<in> known_tags (bm_curExt b)"
    and t: "tt = TT_BEG \<and> c = byte_of (bm_curExt b) i OR XLT_CONTBYTE \<and> d = 1 \<or>
            tt = TT_ALL \<and> c = byte_of (bm_curExt b) i \<and> d = 0"
  shows "R (wbxmlGenerateTag i tt b) b [c] (bm_curExt b) d"
proof -
  let ?c = "byte_of (bm_curExt b) i"
  from tag_byte_known [OF b(1) i] obtain g where
    g: "tok_ready g" "tag_byte i b = Some (SML_ERR_OK, ?c, b\<lparr>bm_tok := g\<rparr>)" by blast
  let ?b = "retag g (bm_switchExtTag b) (bm_curExt b) (bm_lastExt b) b"
  have nz: "?c \<noteq> 0" using byte_of_range [OF i] by auto
  have eq: "b\<lparr>bm_tok := g\<rparr> = ?b" by (simp add: retag_def)
  have "ok ?b" "room ?b 1" "bm_curExt ?b = bm_curExt b"
    by (rule ok_retag [OF b(1) g(1)], rule room_retag [OF b(2)]) (simp add: retag_def)
  with R_tag [of ?b 1 "?c OR XLT_CONTBYTE"] add_one [of ?b ?c] t g(2) nz
  have "R (wbxmlGenerateTag i tt b) ?b [c] (bm_curExt b) d"
    by (auto simp: wbxmlGenerateTag_def eq)
  then show ?thesis by (rule R_retag)
qed

lemma end_tag:
  assumes "ok b" "room b 1"
  shows "R (wbxmlGenerateTag i TT_END b) b [0x01] (bm_curExt b) (- 1)"
  using R_tag [OF assms, of "- 1" "0x01"]
  by (simp add: wbxmlGenerateTag_def wbxmlGetGlobToken_def globtoken_def)

lemma start_tag:
  assumes b: "ok b" "room b (length (page_switch (bm_curExt b) ext) + 1)" and i: "i \<in> known_tags ext"
    and t: "tt = TT_BEG \<and> c = byte_of ext i OR XLT_CONTBYTE \<and> d = 1 \<or> tt = TT_ALL \<and> c = byte_of ext i \<and> d = 0"
  shows "R (xltGenerateTag i tt SML_WBXML ext b) b (page_switch (bm_curExt b) ext @ [c]) ext d"
proof -
  let ?sw = "if getCodePage ext \<noteq> getCodePage (bm_curExt b)
       then enc_then (wbxmlWriteTypeToBuffer (Some [XLT_SWITCHPAGE]) TAG_elem 1 b)
         (wbxmlWriteTypeToBuffer (Some [getCodePage ext]) TAG_elem 1)
       else Some (SML_ERR_OK, b)"
  have "R (enc_then ?sw (\<lambda>b. wbxmlGenerateTag i tt (set_ext i ext b))) b
      (page_switch (bm_curExt b) ext @ [c]) ext (0 + d)"
  proof (rule R_then [OF b(1) page_switch [OF b(1) room_less [OF b(2)]]])
    fix b1
    assume b1: "ok b1" "bm_curExt b1 = bm_curExt b"
      "\<And>n. room b (length (page_switch (bm_curExt b) ext) + n) \<Longrightarrow> room b1 n"
    obtain j l where eq: "set_ext i ext b1 = retag (bm_tok b1) j ext l b1"
    proof (cases "ext = bm_curExt b1")
      case True
      then show ?thesis using that [of "bm_switchExtTag b1" "bm_lastExt b1"] by (simp add: set_ext_def retag_def)
    next
      case False
      then show ?thesis using that [of i "bm_curExt b1"] by (simp add: set_ext_def retag_def)
    qed
    let ?b = "retag (bm_tok b1) j ext l b1"
    have "ok ?b" "room ?b 1" "bm_curExt ?b = ext"
      by (rule ok_retag [OF b1(1) ok_ready [OF b1(1)]], rule room_retag [OF b1(3) [OF b(2)]]) (simp add: retag_def)
    with generate_tag [of ?b i tt c d] i t have "R (wbxmlGenerateTag i tt ?b) ?b [c] ext d" by auto
    then show "R (wbxmlGenerateTag i tt (set_ext i ext b1)) b1 [c] ext d" unfolding eq by (rule R_retag)
  qed simp
  with t show ?thesis by (auto simp: xltGenerateTag_def)
qed

lemma string_text:
  assumes b: "ok b" "room b (length s + 2)"
    and s: "p = None \<and> s = [] \<or> p = Some (s @ 0 # r) \<and> 0 \<notin> set s"
  shows "R (wbxmlWriteTypeToBuffer p STR_I_elem n b) b (0x03 # s @ [0]) (bm_curExt b) 0"
proof -
  have add: "R (xltAddToBuffer p (int (length s)) b1) b1 s (bm_curExt b1) 0" if "ok b1" "room b1 (length s)" for b1
    using s that R_add [of b1 "[]" None] add_more [OF that, of "0 # r"] by (auto simp: ptr_bytes_def)
  have len: "(case p of None \<Rightarrow> Some 0 | Some bs \<Rightarrow> c_strlen bs) = Some (int (length s))"
    using s c_strlen_zero [of s r] by auto
  have "R (enc_then (add_bytes [0x03] b) (\<lambda>b. enc_then (xltAddToBuffer p (int (length s)) b)
      (add_bytes [XLT_TERMSTR]))) b ([0x03] @ s @ [0]) (bm_curExt b) (0 + (0 + 0))"
  proof (rule R_then [OF b(1) add_one [OF b(1) room_less [OF b(2)]]])
    fix b1
    assume b1: "ok b1" "bm_curExt b1 = bm_curExt b" "\<And>n. room b (length [0x03 :: byte] + n) \<Longrightarrow> room b1 n"
    have r1: "room b1 (length s + 1)" by (rule b1(3)) (use b(2) in simp)
    have "R (xltAddToBuffer p (int (length s)) b1) b1 s (bm_curExt b) 0"
      using add [OF b1(1) room_less [OF r1]] b1(2) by simp
    then show "R (enc_then (xltAddToBuffer p (int (length s)) b1) (add_bytes [XLT_TERMSTR])) b1
        (s @ [0]) (bm_curExt b) (0 + 0)"
    proof (rule R_then [OF b1(1)])
      fix b2
      assume b2: "ok b2" "bm_curExt b2 = bm_curExt b" "\<And>n. room b1 (length s + n) \<Longrightarrow> room b2 n"
      from add_one [OF b2(1) b2(3) [OF r1], of XLT_TERMSTR] b2(2)
      show "R (add_bytes [XLT_TERMSTR] b2) b2 [0] (bm_curExt b) 0" by (simp add: XLT_TERMSTR_def)
    qed
  qed simp
  then show ?thesis
    by (simp add: wbxmlWriteTypeToBuffer_def wbxmlGetGlobToken_def globtoken_def len)
qed

lemma opaque_data:
  assumes b: "ok b" "room b (length (mb_uint (length bs)) + length bs + 1)"
    and p: "ptr_bytes p (int (length bs)) = Some bs"
  shows "R (wbxmlWriteTypeToBuffer p OPAQUE_elem (int (length bs)) b) b
     (0xC3 # mb_uint (length bs) @ bs) (bm_curExt b) 0"
proof -
  have "R (enc_then (add_bytes [0xC3] b) (\<lambda>b. enc_then (wbxmlOpaqueSize2Buf (int (length bs)) b)
      (xltAddToBuffer p (int (length bs))))) b ([0xC3] @ mb_uint (length bs) @ bs) (bm_curExt b) (0 + (0 + 0))"
  proof (rule R_then [OF b(1) add_one [OF b(1) room_less [OF b(2)]]])
    fix b1
    assume b1: "ok b1" "bm_curExt b1 = bm_curExt b" "\<And>n. room b (length [0xC3 :: byte] + n) \<Longrightarrow> room b1 n"
    have r1: "room b1 (length (mb_uint (length bs)) + length bs)" by (rule b1(3)) (use b(2) in simp)
    have "R (wbxmlOpaqueSize2Buf (int (length bs)) b1) b1 (mb_uint (length bs)) (bm_curExt b) 0"
      using R_size [OF b1(1) room_less [OF r1]] b1(2) by simp
    then show "R (enc_then (wbxmlOpaqueSize2Buf (int (length bs)) b1)
        (xltAddToBuffer p (int (length bs)))) b1 (mb_uint (length bs) @ bs) (bm_curExt b) (0 + 0)"
    proof (rule R_then [OF b1(1)])
      fix b2
      assume b2: "ok b2" "bm_curExt b2 = bm_curExt b" "\<And>n. room b1 (length (mb_uint (length bs)) + n) \<Longrightarrow> room b2 n"
      from R_add [OF b2(1) b2(3) [OF r1] p] b2(2)
      show "R (xltAddToBuffer p (int (length bs)) b2) b2 bs (bm_curExt b) 0" by simp
    qed
  qed simp
  then show ?thesis
    by (simp add: wbxmlWriteTypeToBuffer_def wbxmlGetGlobToken_def globtoken_def)
qed

end

section \<open>Sequences of events\<close>

text \<open>The end tags that an event makes necessary.\<close>

fun ev_open :: "wb_event \<Rightarrow> int" where
  "ev_open (Ev_start ext i) = 1"
| "ev_open Ev_end = - 1"
| "ev_open _ = 0"

lemma doc_bytes_append:
  "doc_bytes cur (es @ fs) = doc_bytes cur es @ doc_bytes (ext_after cur es) fs"
  by (induction es arbitrary: cur) simp_all

lemma ext_after_append: "ext_after cur (es @ fs) = ext_after (ext_after cur es) fs"
  by (induction es arbitrary: cur) simp_all

definition writes ::
    "(BufferMgmt \<Rightarrow> bool) \<Rightarrow> (BufferMgmt \<Rightarrow> nat \<Rightarrow> bool) \<Rightarrow>
     (enc_result \<Rightarrow> BufferMgmt \<Rightarrow> byte list \<Rightarrow> SmlPcdataExtension \<Rightarrow> int \<Rightarrow> bool) \<Rightarrow>
     (BufferMgmt \<Rightarrow> enc_result) \<Rightarrow> wb_event list \<Rightarrow> bool" where
  "writes ok room R f es \<longleftrightarrow>
     (\<forall>b. ok b \<and> room b (length (doc_bytes (bm_curExt b) es)) \<longrightarrow>
       R (f b) b (doc_bytes (bm_curExt b) es) (ext_after (bm_curExt b) es) (sum_list (map ev_open es)))"

context sink
begin

lemma writes_nil: "writes ok room R (\<lambda>b. Some (SML_ERR_OK, b)) []"
  by (simp add: writes_def R_nothing)

lemma writes_then:
  assumes f: "writes ok room R f es" and g: "writes ok room R g fs"
  shows "writes ok room R (\<lambda>b. enc_then (f b) g) (es @ fs)"
  unfolding writes_def
proof (intro allI impI)
  fix b
  assume b: "ok b \<and> room b (length (doc_bytes (bm_curExt b) (es @ fs)))"
  let ?c = "ext_after (bm_curExt b) es"
  have rm: "room b (length (doc_bytes (bm_curExt b) es) + length (doc_bytes ?c fs))"
    using b by (simp add: doc_bytes_append)
  have "R (f b) b (doc_bytes (bm_curExt b) es) ?c (sum_list (map ev_open es))"
    using f b room_less [OF rm] by (simp add: writes_def)
  then have "R (enc_then (f b) g) b (doc_bytes (bm_curExt b) es @ doc_bytes ?c fs) (ext_after ?c fs)
      (sum_list (map ev_open es) + sum_list (map ev_open fs))"
  proof (rule R_then [OF conjunct1 [OF b]])
    fix b1
    assume b1: "ok b1" "bm_curExt b1 = ?c" "\<And>n. room b (length (doc_bytes (bm_curExt b) es) + n) \<Longrightarrow> room b1 n"
    from g b1(1,2) b1(3) [OF rm]
    show "R (g b1) b1 (doc_bytes ?c fs) (ext_after ?c fs) (sum_list (map ev_open fs))"
      by (auto simp: writes_def)
  qed
  then show "R (enc_then (f b) g) b (doc_bytes (bm_curExt b) (es @ fs)) (ext_after (bm_curExt b) (es @ fs))
      (sum_list (map ev_open (es @ fs)))"
    by (simp add: doc_bytes_append ext_after_append)
qed

lemma writes_start:
  "i \<in> known_tags ext \<Longrightarrow> writes ok room R (xltGenerateTag i TT_BEG SML_WBXML ext) [Ev_start ext i]"
  by (auto simp: writes_def intro: start_tag)

lemma writes_empty:
  "i \<in> known_tags ext \<Longrightarrow> writes ok room R (xltGenerateTag i TT_ALL SML_WBXML ext) [Ev_empty ext i]"
  by (auto simp: writes_def intro: start_tag)

lemma writes_end: "writes ok room R (xltGenerateTag i TT_END SML_WBXML ext) [Ev_end]"
  using end_tag by (simp add: writes_def xltGenerateTag_def)

lemma writes_string:
  assumes "p = None \<and> s = [] \<or> p = Some (s @ 0 # r) \<and> 0 \<notin> set s"
  shows "writes ok room R (wbxmlWriteTypeToBuffer p STR_I_elem n) [Ev_str s]"
  using string_text [OF _ _ assms] by (simp add: writes_def)

lemma writes_opaque:
  assumes "ptr_bytes p (int (length bs)) = Some bs"
  shows "writes ok room R (wbxmlWriteTypeToBuffer p OPAQUE_elem (int (length bs))) [Ev_opaque bs]"
  using opaque_data [OF _ _ assms] by (simp add: writes_def)

end

lemma ok_retag:
  "buf_ok b \<Longrightarrow> tok_ready g \<Longrightarrow> buf_ok (retag g i c l b)"
  "eval_ok b \<Longrightarrow> tok_ready g \<Longrightarrow> eval_ok (retag g i c l b)"
  "buf_ok b \<Longrightarrow> tok_ready (bm_tok b)"
  "eval_ok b \<Longrightarrow> tok_ready (bm_tok b)"
  by (simp_all add: buf_ok_def eval_ok_def retag_def)

text \<open>Writing to the document, and counting.\<close>

interpretation writing: sink buf_ok write_room enc_emits
proof unfold_locales
  fix m g i c l b bs cur d
  assume "enc_emits m (retag g i c l b) bs cur d"
  then show "enc_emits m b bs cur d"
    by (rule enc_emits_same) (simp_all add: same_doc_def retag_def)
next
  fix b m xs cur1 d1 f ys cur2 d2
  assume *: "buf_ok b" "enc_emits m b xs cur1 d1"
    "\<And>b1. buf_ok b1 \<Longrightarrow> bm_curExt b1 = cur1 \<Longrightarrow> (\<And>n. write_room b (length xs + n) \<Longrightarrow> write_room b1 n) \<Longrightarrow>
      enc_emits (f b1) b1 ys cur2 d2"
  show "enc_emits (enc_then m f) b (xs @ ys) cur2 (d1 + d2)"
  proof (rule enc_emits_then [OF *(1,2)])
    fix b1
    assume "buf_ok b1" "bm_curExt b1 = cur1" "bm_len b1 = bm_len b"
    then show "enc_emits (f b1) b1 ys cur2 d2" by (intro *(3)) (simp_all add: write_room_def)
  qed
qed (simp_all add: ok_retag write_room_def enc_emits_ok xltAddToBuffer_emits add_tag_emits opaque_size_emits,
     simp add: retag_def)

interpretation counting: sink eval_ok count_room enc_counts
proof unfold_locales
  fix m g i c l b bs cur d
  assume "enc_counts m (retag g i c l b) bs cur d"
  then show "enc_counts m b bs cur d" by (simp add: enc_counts_def retag_def)
next
  fix b m xs cur1 d1 f ys cur2 d2
  assume *: "eval_ok b" "enc_counts m b xs cur1 d1"
    "\<And>b1. eval_ok b1 \<Longrightarrow> bm_curExt b1 = cur1 \<Longrightarrow> (\<And>n. count_room b (length xs + n) \<Longrightarrow> count_room b1 n) \<Longrightarrow>
      enc_counts (f b1) b1 ys cur2 d2"
  show "enc_counts (enc_then m f) b (xs @ ys) cur2 (d1 + d2)"
  proof (rule enc_counts_then [OF *(2)])
    fix b1
    assume "eval_ok b1" "bm_curExt b1 = cur1" "bm_written b1 = bm_written b + int (length xs)"
    then show "enc_counts (f b1) b1 ys cur2 d2" by (intro *(3)) (simp_all add: count_room_def)
  qed
next
  show "eval_ok b \<Longrightarrow> enc_counts (Some (SML_ERR_OK, b)) b [] (bm_curExt b) 0" for b
    by (simp add: enc_counts_def)
qed (simp_all add: ok_retag count_room_def xltAddToBuffer_counts add_tag_counts opaque_size_counts,
     simp add: retag_def)

text \<open>\<open>f\<close> writes the events \<open>es\<close>, in both modes.\<close>

definition gens :: "(BufferMgmt \<Rightarrow> enc_result) \<Rightarrow> wb_event list \<Rightarrow> bool" where
  "gens f es \<longleftrightarrow> writes buf_ok write_room enc_emits f es \<and> writes eval_ok count_room enc_counts f es"

lemma gens_nil: "gens (\<lambda>b. Some (SML_ERR_OK, b)) []"
  by (simp add: gens_def writing.writes_nil counting.writes_nil)

lemma gens_then: "gens f es \<Longrightarrow> gens g fs \<Longrightarrow> gens (\<lambda>b. enc_then (f b) g) (es @ fs)"
  by (simp add: gens_def writing.writes_then counting.writes_then)

lemma gens_start: "i \<in> known_tags ext \<Longrightarrow> gens (xltGenerateTag i TT_BEG SML_WBXML ext) [Ev_start ext i]"
  by (simp add: gens_def writing.writes_start counting.writes_start)

lemma gens_empty: "i \<in> known_tags ext \<Longrightarrow> gens (xltGenerateTag i TT_ALL SML_WBXML ext) [Ev_empty ext i]"
  by (simp add: gens_def writing.writes_empty counting.writes_empty)

lemma gens_end: "gens (xltGenerateTag i TT_END SML_WBXML ext) [Ev_end]"
  by (simp add: gens_def writing.writes_end counting.writes_end)

lemma gens_string:
  "p = None \<and> s = [] \<or> p = Some (s @ 0 # r) \<and> 0 \<notin> set s \<Longrightarrow>
     gens (wbxmlWriteTypeToBuffer p STR_I_elem n) [Ev_str s]"
  unfolding gens_def using writing.writes_string counting.writes_string by blast

lemma gens_opaque:
  "ptr_bytes p (int (length bs)) = Some bs \<Longrightarrow>
     gens (wbxmlWriteTypeToBuffer p OPAQUE_elem (int (length bs))) [Ev_opaque bs]"
  by (simp add: gens_def writing.writes_opaque counting.writes_opaque)

end
