(* ===== verification/Encoder_Spec.thy ===== *)
theory Encoder_Spec
  imports Encoder Generator_Spec
begin

text \<open>
  What the encoder has to write: every element stands for a well nested sequence of events, or is not
  acceptable because a required part is missing. The encoder implements this specification, and it
  does so alike when it writes and when it only counts.
\<close>

section \<open>Well nested sequences\<close>

inductive nested :: "wb_event list \<Rightarrow> bool" where
  nested_nil: "nested []"
| nested_append: "nested es \<Longrightarrow> nested fs \<Longrightarrow> nested (es @ fs)"
| nested_node: "nested es \<Longrightarrow> nested (Ev_start ext i # es @ [Ev_end])"
| nested_empty: "nested [Ev_empty ext i]"
| nested_str: "nested [Ev_str s]"
| nested_opaque: "nested [Ev_opaque bs]"

inductive_cases nested_startE: "nested [Ev_start ext i]"

lemma stack_after_append:
  "stack_after (es @ fs) st = Option.bind (stack_after es st) (stack_after fs)"
  by (induction es arbitrary: st) (simp_all split: Option.bind_split)

lemma nested_stack: "nested es \<Longrightarrow> stack_after es st = Some st"
  by (induction es arbitrary: st rule: nested.induct) (simp_all add: stack_after_append)

lemma nested_open: "nested es \<Longrightarrow> sum_list (map ev_open es) = 0"
  by (induction es rule: nested.induct) simp_all

section \<open>Specifications\<close>

text \<open>
  \<open>Sp_ok es\<close>: the events to write. \<open>Sp_err\<close>: the element is not acceptable. \<open>Sp_unspec\<close>: nothing is
  promised (a string without a terminating zero, data of \<open>2^28\<close> bytes or more, a sub-document).
  The number in \<open>Sp_err n\<close> bounds the bytes that are written before the error is noticed.
\<close>

datatype spec = Sp_ok "wb_event list" | Sp_err nat | Sp_unspec

fun sp_append :: "spec \<Rightarrow> spec \<Rightarrow> spec" where
  "sp_append (Sp_ok es) (Sp_ok fs) = Sp_ok (es @ fs)"
| "sp_append Sp_unspec _ = Sp_unspec"
| "sp_append _ Sp_unspec = Sp_unspec"
| "sp_append (Sp_err n) _ = Sp_err n"
| "sp_append (Sp_ok es) (Sp_err n) = Sp_err (length (doc_bytes SML_EXT_UNDEFINED es) + 2 + n)"

definition sp_seq :: "spec list \<Rightarrow> spec" where
  "sp_seq ps = foldr sp_append ps (Sp_ok [])"

definition sp_node :: "SmlPcdataExtension \<Rightarrow> XltTagID \<Rightarrow> spec list \<Rightarrow> spec" where
  "sp_node ext i ps =
     (case sp_seq ps of Sp_ok es \<Rightarrow> Sp_ok (Ev_start ext i # es @ [Ev_end]) | Sp_err n \<Rightarrow> Sp_err (n + 5)
      | Sp_unspec \<Rightarrow> Sp_unspec)"

definition sp_elem :: "XltRO \<Rightarrow> 'a option \<Rightarrow> ('a \<Rightarrow> spec) \<Rightarrow> spec" where
  "sp_elem ro p f = (case p of None \<Rightarrow> if ro = REQUIRED then Sp_err 0 else Sp_ok [] | Some x \<Rightarrow> f x)"

definition sp_flag :: "SmlPcdataExtension \<Rightarrow> XltTagID \<Rightarrow> Flag \<Rightarrow> Flag \<Rightarrow> spec" where
  "sp_flag ext i f flags = Sp_ok (if flags AND f \<noteq> 0 then [Ev_empty ext i] else [])"

definition sp_list :: "XltRO \<Rightarrow> 'a option list \<Rightarrow> ('a \<Rightarrow> spec) \<Rightarrow> spec" where
  "sp_list ro xs f =
     (if xs = [] then if ro = REQUIRED then Sp_err 0 else Sp_ok []
      else sp_seq (map (\<lambda>x. sp_elem OPTIONAL x f) xs))"

text \<open>
  The encoder against the specification. A call that fails returns an error in every buffer whose
  size leaves some room below the largest \<open>MemSize_t\<close>.
\<close>

definition doc_ok :: "wb_event list \<Rightarrow> bool" where
  "doc_ok es \<longleftrightarrow> list_all ev_ok es \<and> list_all ev_page_ok es"

definition fails :: "nat \<Rightarrow> (BufferMgmt \<Rightarrow> enc_result) \<Rightarrow> bool" where
  "fails n f \<longleftrightarrow>
     (\<forall>b. buf_ok b \<and> bm_len b + int n + 5 < 2 ^ 31 \<longrightarrow> (\<exists>r b'. f b = Some (r, b') \<and> r \<noteq> SML_ERR_OK))"

definition implements :: "(BufferMgmt \<Rightarrow> enc_result) \<Rightarrow> spec \<Rightarrow> bool" where
  "implements f p \<longleftrightarrow>
     (case p of Sp_ok es \<Rightarrow> doc_ok es \<and> nested es \<and> gens f es | Sp_err n \<Rightarrow> fails n f | Sp_unspec \<Rightarrow> True)"

text \<open>The same for a series of calls that leaves elements open.\<close>

definition opens :: "wb_event list \<Rightarrow> (BufferMgmt \<Rightarrow> enc_result) \<Rightarrow> spec \<Rightarrow> bool" where
  "opens pre f p \<longleftrightarrow>
     (case p of
        Sp_ok es \<Rightarrow> doc_ok es \<and> gens f es \<and> (\<exists>fs. es = pre @ fs \<and> nested fs)
      | Sp_err n \<Rightarrow> fails n f | Sp_unspec \<Rightarrow> True)"

lemma implements_unspec [simp]: "implements f Sp_unspec"
  by (simp add: implements_def)

lemma implements_nothing: "implements (\<lambda>b. Some (SML_ERR_OK, b)) (Sp_ok [])"
  by (simp add: implements_def doc_ok_def nested_nil gens_nil)

lemma implements_error: "r \<noteq> SML_ERR_OK \<Longrightarrow> implements (\<lambda>b. Some (r, b)) (Sp_err n)"
  by (simp add: implements_def fails_def)

lemma fails_then: "fails n f \<Longrightarrow> fails n (\<lambda>b. enc_then (f b) g)"
  unfolding fails_def enc_then_def by fastforce

text \<open>The code page before the first tag accounts for two bytes.\<close>

lemma doc_bytes_page: "length (doc_bytes cur es) \<le> length (doc_bytes cur' es) + 2"
proof (induction es arbitrary: cur cur')
  case (Cons e es)
  have "length (ev_bytes cur e) \<le> length (ev_bytes cur' e) + 2" by (cases e) (simp_all add: page_switch_def)
  moreover have "ev_ext cur e = ev_ext cur' e \<or> ev_bytes cur e = ev_bytes cur' e" by (cases e) simp_all
  ultimately show ?case using Cons.IH [of "ev_ext cur e" "ev_ext cur' e"] by auto
qed simp

lemma fails_after:
  assumes f: "gens f es" and g: "fails n g"
  shows "fails (length (doc_bytes SML_EXT_UNDEFINED es) + 2 + n) (\<lambda>b. enc_then (f b) g)"
  unfolding fails_def
proof (intro allI impI, elim conjE)
  fix b
  assume b: "buf_ok b" "bm_len b + int (length (doc_bytes SML_EXT_UNDEFINED es) + 2 + n) + 5 < 2 ^ 31"
  have "length (doc_bytes (bm_curExt b) es) \<le> length (doc_bytes SML_EXT_UNDEFINED es) + 2" by (rule doc_bytes_page)
  with b(2) have "write_room b (length (doc_bytes (bm_curExt b) es))" by (simp add: write_room_def)
  with b(1) f have "enc_emits (f b) b (doc_bytes (bm_curExt b) es) (ext_after (bm_curExt b) es) (sum_list (map ev_open es))"
    unfolding gens_def writes_def by blast
  then obtain r b' where fb: "f b = Some (r, b')" "emits b (doc_bytes (bm_curExt b) es) r b'" "buf_ok b'"
    by (auto simp: enc_emits_def)
  show "\<exists>r b'. enc_then (f b) g = Some (r, b') \<and> r \<noteq> SML_ERR_OK"
  proof (cases "r = SML_ERR_OK")
    case True
    with fb(2) have "bm_len b' = bm_len b" using same_doc_len by (auto simp: emits_def split: if_splits)
    then have "bm_len b' + int n + 5 < 2 ^ 31" using b(2) by simp
    with g fb(3) have "\<exists>r b2. g b' = Some (r, b2) \<and> r \<noteq> SML_ERR_OK" unfolding fails_def by blast
    with True fb(1) show ?thesis by (simp add: enc_then_def)
  qed (simp add: fb(1) enc_then_def)
qed

lemma fails_mono: "fails n f \<Longrightarrow> n \<le> m \<Longrightarrow> fails m f"
  by (simp add: fails_def)

lemma fails_start:
  assumes "i \<in> known_tags ext" "fails n g"
  shows "fails (n + 5) (\<lambda>b. enc_then (xltGenerateTag i TT_BEG SML_WBXML ext b) g)"
  using fails_after [OF gens_start [OF assms(1)] assms(2)]
  by (rule fails_mono) (simp add: page_switch_def)

lemma implements_then:
  assumes "implements f p" "implements g q"
  shows "implements (\<lambda>b. enc_then (f b) g) (sp_append p q)"
  using assms
  by (cases p; cases q)
     (auto simp: implements_def doc_ok_def intro: nested_append gens_then fails_then dest: fails_after)

lemma implements_seq: "list_all2 implements fs ps \<Longrightarrow> implements (enc_seq fs) (sp_seq ps)"
proof (induction rule: list_all2_induct)
  case Nil
  have "enc_seq [] = (\<lambda>b. Some (SML_ERR_OK, b))" by (simp add: fun_eq_iff)
  then show ?case by (simp add: sp_seq_def implements_nothing)
next
  case (Cons f fs p ps)
  have "enc_seq (f # fs) = (\<lambda>b. enc_then (f b) (enc_seq fs))" by (simp add: fun_eq_iff)
  with implements_then [OF Cons.hyps(1) Cons.IH] show ?case by (simp add: sp_seq_def)
qed

lemma enc_seq_append: "enc_seq (fs @ gs) = (\<lambda>b. enc_then (enc_seq fs b) (enc_seq gs))"
  by (induction fs) (auto simp: fun_eq_iff enc_then_def bind_eq_Some_conv intro!: Option.bind_cong split: prod.splits)

text \<open>An element: its start tag, the parts, its end tag.\<close>

definition parts :: "(BufferMgmt \<Rightarrow> enc_result) list \<Rightarrow> spec list \<Rightarrow> bool" where
  "parts fs ps \<longleftrightarrow> (\<exists>gs j ext. fs = gs @ [xltGenerateTag j TT_END SML_WBXML ext] \<and> list_all2 implements gs ps)"

lemma parts_end: "parts [xltGenerateTag j TT_END SML_WBXML ext] []"
  by (auto simp: parts_def)

lemma parts_Cons: "implements f p \<Longrightarrow> parts fs ps \<Longrightarrow> parts (f # fs) (p # ps)"
  unfolding parts_def by (metis append_Cons list_all2_Cons)

lemma parts_append: "list_all2 implements fs ps \<Longrightarrow> parts gs qs \<Longrightarrow> parts (fs @ gs) (ps @ qs)"
  by (induction rule: list_all2_induct) (simp_all add: parts_Cons)

lemma parts_map:
  assumes "\<And>x. x \<in> set xs \<Longrightarrow> implements (f x) (g x)"
  shows "parts (map f xs @ [xltGenerateTag j TT_END SML_WBXML ext]) (map g xs)"
proof -
  have "list_all2 implements (map f xs) (map g xs)" using assms by (induction xs) auto
  then show ?thesis by (auto simp: parts_def)
qed

lemma enc_seq_Cons: "enc_seq (f # fs) = (\<lambda>b. enc_then (f b) (enc_seq fs))"
  by (simp add: fun_eq_iff)

definition plain_ext :: "SmlPcdataExtension \<Rightarrow> bool" where
  "plain_ext ext \<longleftrightarrow> ext \<in> {SML_EXT_UNDEFINED, SML_EXT_METINF, SML_EXT_DMTND}"

lemma gens_seq_snoc: "gens (enc_seq fs) es \<Longrightarrow> gens g es' \<Longrightarrow> gens (enc_seq (fs @ [g])) (es @ es')"
proof -
  assume "gens (enc_seq fs) es" "gens g es'"
  moreover have "enc_then m (enc_seq []) = m" for m by (cases m) (auto simp: enc_then_def)
  then have "enc_seq [g] = g" by (simp add: fun_eq_iff)
  ultimately show ?thesis using gens_then by (simp add: enc_seq_append)
qed

lemma implements_node:
  assumes i: "i \<in> known_tags ext" "plain_ext ext" and fs: "parts fs ps"
  shows "implements (enc_seq (xltGenerateTag i TT_BEG SML_WBXML ext # fs)) (sp_node ext i ps)"
proof -
  from fs obtain gs j e where gs: "fs = gs @ [xltGenerateTag j TT_END SML_WBXML e]" "list_all2 implements gs ps"
    by (auto simp: parts_def)
  note im = implements_seq [OF gs(2)]
  have eq: "enc_seq (xltGenerateTag i TT_BEG SML_WBXML ext # fs) =
      (\<lambda>b. enc_then (xltGenerateTag i TT_BEG SML_WBXML ext b) (enc_seq fs))" by (simp add: fun_eq_iff)
  show ?thesis
  proof (cases "sp_seq ps")
    case (Sp_ok es)
    with im have es: "doc_ok es" "nested es" "gens (enc_seq gs) es" by (simp_all add: implements_def)
    from gens_then [OF gens_start [OF i(1)] gens_seq_snoc [OF es(3) gens_end [of j e], folded gs(1)]]
    have "gens (enc_seq (xltGenerateTag i TT_BEG SML_WBXML ext # fs)) (Ev_start ext i # es @ [Ev_end])"
      by (simp add: eq)
    moreover have "doc_ok (Ev_start ext i # es @ [Ev_end])"
      using es(1) i by (auto simp: doc_ok_def plain_ext_def)
    ultimately show ?thesis using Sp_ok nested_node [OF es(2)] by (simp add: implements_def sp_node_def)
  next
    case (Sp_err n)
    with im have "fails n (enc_seq gs)" by (simp add: implements_def)
    then have "fails n (enc_seq fs)" unfolding gs(1) enc_seq_append by (rule fails_then)
    from fails_start [OF i(1) this] Sp_err show ?thesis unfolding eq by (simp add: implements_def sp_node_def)
  qed (simp add: sp_node_def)
qed

lemma implements_elem:
  "(\<And>x. p = Some x \<Longrightarrow> implements (f x) (g x)) \<Longrightarrow> implements (enc_elem ro p f) (sp_elem ro p g)"
proof (cases p)
  case None
  have "enc_elem ro None f = (\<lambda>b. Some (if ro = REQUIRED then SML_ERR_XLT_MISSING_CONT else SML_ERR_OK, b))"
    by (simp add: fun_eq_iff enc_elem_def)
  with None show ?thesis by (simp add: sp_elem_def implements_nothing implements_error)
next
  case (Some x)
  assume "\<And>x. p = Some x \<Longrightarrow> implements (f x) (g x)"
  moreover have "enc_elem ro (Some x) f = f x" by (simp add: fun_eq_iff enc_elem_def)
  ultimately show ?thesis using Some by (simp add: sp_elem_def)
qed

lemma implements_flag:
  assumes "i \<in> known_tags ext" "plain_ext ext"
  shows "implements (enc_flag i f flags SML_WBXML ext) (sp_flag ext i f flags)"
proof (cases "flags AND f = 0")
  case True
  then have "enc_flag i f flags SML_WBXML ext = (\<lambda>b. Some (SML_ERR_OK, b))"
    by (simp add: fun_eq_iff enc_flag_def)
  with True show ?thesis by (simp add: sp_flag_def implements_nothing)
next
  case False
  then have "enc_flag i f flags SML_WBXML ext = xltGenerateTag i TT_ALL SML_WBXML ext"
    by (simp add: fun_eq_iff enc_flag_def)
  with False assms gens_empty [OF assms(1)] show ?thesis
    by (auto simp: sp_flag_def implements_def doc_ok_def plain_ext_def nested_empty)
qed

lemma implements_map:
  "(\<And>x. x \<in> set xs \<Longrightarrow> implements (f x) (g x)) \<Longrightarrow> list_all2 implements (map f xs) (map g xs)"
  by (induction xs) auto

lemma implements_list:
  assumes "\<And>x. Some x \<in> set xs \<Longrightarrow> implements (f x) (g x)"
  shows "implements (xltEncList ro xs f) (sp_list ro xs g)"
proof (cases "xs = []")
  case True
  then have "xltEncList ro xs f = (\<lambda>b. Some (if ro = REQUIRED then SML_ERR_XLT_MISSING_CONT else SML_ERR_OK, b))"
    by (simp add: fun_eq_iff xltEncList_def enc_fail_def)
  with True show ?thesis by (simp add: sp_list_def implements_nothing implements_error)
next
  case False
  have "list_all2 implements (map (\<lambda>x. enc_elem OPTIONAL x f) xs) (map (\<lambda>x. sp_elem OPTIONAL x g) xs)"
    using assms by (intro implements_map implements_elem) auto
  with False show ?thesis by (simp add: xltEncList_def sp_list_def implements_seq)
qed

end
