(* ===== verification/Encoder_Dtd.thy ===== *)
theory Encoder_Dtd
  imports Encoder_Spec
begin

text \<open>
  The DTD of the documents that the encoder writes: the events of every element, and the proof that
  the encoder implements them.
\<close>

section \<open>Known tags\<close>

lemma known_syncml_table:
  "list_all (\<lambda>i. i \<in> known_tags SML_EXT_UNDEFINED)
     ([1..<5] @ [6..<34] @ [35..<44] @ [45, 46, 47, 48, 100, 101, 106])"
  by code_simp

lemma known_metinf_table: "list_all (\<lambda>i. i \<in> known_tags SML_EXT_METINF) ([49..<65] @ [102])"
  by code_simp

lemma known_dmtnd_table: "list_all (\<lambda>i. i \<in> known_tags SML_EXT_DMTND) [107..<163]"
  by code_simp

lemmas range_simps = set_append set_upt Un_iff atLeastLessThan_iff list.set insert_iff empty_iff

lemma known_syncml:
  "0 < i \<Longrightarrow> i \<le> 48 \<Longrightarrow> i \<noteq> 5 \<Longrightarrow> i \<noteq> 34 \<Longrightarrow> i \<noteq> 44 \<Longrightarrow> i \<in> known_tags SML_EXT_UNDEFINED"
  "i = 100 \<or> i = 101 \<or> i = 106 \<Longrightarrow> i \<in> known_tags SML_EXT_UNDEFINED"
  by (rule bspec [OF known_syncml_table [unfolded list_all_iff]]; simp only: range_simps; arith)+

lemma known_metinf: "49 \<le> i \<Longrightarrow> i \<le> 64 \<Longrightarrow> i \<in> known_tags SML_EXT_METINF" "102 \<in> known_tags SML_EXT_METINF"
  by (rule bspec [OF known_metinf_table [unfolded list_all_iff]]; simp only: range_simps; arith)+

lemma known_dmtnd: "107 \<le> i \<Longrightarrow> i \<le> 162 \<Longrightarrow> i \<in> known_tags SML_EXT_DMTND"
  by (rule bspec [OF known_dmtnd_table [unfolded list_all_iff]]; simp only: range_simps; arith)

lemma plain_exts [simp]:
  "plain_ext SML_EXT_UNDEFINED" "plain_ext SML_EXT_METINF" "plain_ext SML_EXT_DMTND"
  by (simp_all add: plain_ext_def)

section \<open>Character data\<close>

definition opaque_spec :: "byte list option \<Rightarrow> int \<Rightarrow> spec" where
  "opaque_spec q n =
     (case ptr_bytes q n of
        Some bs \<Rightarrow> if n < 2 ^ 28 then Sp_ok [Ev_opaque bs] else Sp_unspec
      | None \<Rightarrow> Sp_unspec)"

definition string_spec :: "byte list option \<Rightarrow> spec" where
  "string_spec q =
     (case q of
        None \<Rightarrow> Sp_ok [Ev_str []]
      | Some bs \<Rightarrow> (case c_str bs of Some s \<Rightarrow> Sp_ok [Ev_str s] | None \<Rightarrow> Sp_unspec))"

definition body_spec :: "('c \<Rightarrow> byte list option) \<Rightarrow> (SmlPcdataExtension \<Rightarrow> 'c option \<Rightarrow> spec) \<Rightarrow> 'c Pcdata \<Rightarrow> spec" where
  "body_spec as_bytes build p =
     (case pd_contentType p of
        SML_PCDATA_EXTENSION \<Rightarrow> build (pd_extension p) (pd_content p)
      | SML_PCDATA_UNDEFINED \<Rightarrow> if empty_pcdata p then Sp_ok [] else Sp_err 0
      | t \<Rightarrow>
          (case content_ptr as_bytes (pd_content p) of
             None \<Rightarrow> Sp_unspec
           | Some q \<Rightarrow> if t = SML_PCDATA_STRING then string_spec q else opaque_spec q (pd_length p)))"

definition leaf_spec :: "SmlPcdataExtension \<Rightarrow> XltTagID \<Rightarrow> XltRO \<Rightarrow> leaf option \<Rightarrow> spec" where
  "leaf_spec ext i ro p = sp_elem ro p (\<lambda>p. sp_node ext i [body_spec Some (\<lambda>_ _. Sp_unspec) p])"

lemma c_str_split: "c_str bs = Some s \<Longrightarrow> \<exists>r. bs = s @ 0 # r \<and> 0 \<notin> set s"
  by (induction bs arbitrary: s) (auto split: if_splits)

lemma ptr_bytes_length: "ptr_bytes q n = Some bs \<Longrightarrow> n = int (length bs)"
  by (auto simp: ptr_bytes_def split: if_splits option.splits)

lemma implements_opaque: "implements (wbxmlWriteTypeToBuffer q OPAQUE_elem n) (opaque_spec q n)"
proof (cases "ptr_bytes q n")
  case (Some bs)
  then have "n = int (length bs)" by (rule ptr_bytes_length)
  with Some gens_opaque [of q bs] show ?thesis
    by (auto simp: opaque_spec_def implements_def doc_ok_def nested_opaque)
qed (simp add: opaque_spec_def)

lemma implements_string: "implements (wbxmlWriteTypeToBuffer q STR_I_elem n) (string_spec q)"
proof (cases q)
  case None
  then show ?thesis using gens_string [of None "[]"]
    by (simp add: string_spec_def implements_def doc_ok_def nested_str)
next
  case (Some bs)
  show ?thesis
  proof (cases "c_str bs")
    case (Some s)
    from c_str_split [OF Some] obtain r where "bs = s @ 0 # r" "0 \<notin> set s" by blast
    with \<open>q = Some bs\<close> Some gens_string [of q s r n] show ?thesis
      by (simp add: string_spec_def implements_def doc_ok_def nested_str)
  qed (simp add: string_spec_def \<open>q = Some bs\<close>)
qed

lemma implements_body:
  assumes "\<And>e c. implements (build e c) (sbuild e c)"
  shows "implements (pcdata_wbxml as_bytes build p) (body_spec as_bytes sbuild p)"
proof (cases "pd_contentType p")
  case SML_PCDATA_UNDEFINED
  then have "pcdata_wbxml as_bytes build p =
      (\<lambda>b. Some (if empty_pcdata p then SML_ERR_OK else SML_ERR_XLT_INVAL_PCDATA_TYPE, b))"
    by (simp add: fun_eq_iff pcdata_wbxml_def)
  with SML_PCDATA_UNDEFINED show ?thesis by (simp add: body_spec_def implements_nothing implements_error)
next
  case SML_PCDATA_EXTENSION
  then have "pcdata_wbxml as_bytes build p = build (pd_extension p) (pd_content p)"
    by (simp add: fun_eq_iff pcdata_wbxml_def)
  with SML_PCDATA_EXTENSION assms show ?thesis by (simp add: body_spec_def)
next
  case SML_PCDATA_STRING
  show ?thesis
  proof (cases "content_ptr as_bytes (pd_content p)")
    case (Some q)
    with SML_PCDATA_STRING have "pcdata_wbxml as_bytes build p = wbxmlWriteTypeToBuffer q STR_I_elem (pd_length p)"
      by (simp add: fun_eq_iff pcdata_wbxml_def)
    with SML_PCDATA_STRING Some implements_string show ?thesis by (simp add: body_spec_def)
  qed (simp add: body_spec_def SML_PCDATA_STRING)
next
  case SML_PCDATA_OPAQUE
  show ?thesis
  proof (cases "content_ptr as_bytes (pd_content p)")
    case (Some q)
    with SML_PCDATA_OPAQUE have "pcdata_wbxml as_bytes build p = wbxmlWriteTypeToBuffer q OPAQUE_elem (pd_length p)"
      by (simp add: fun_eq_iff pcdata_wbxml_def)
    with SML_PCDATA_OPAQUE Some implements_opaque show ?thesis by (simp add: body_spec_def)
  qed (simp add: body_spec_def SML_PCDATA_OPAQUE)
next
  case SML_PCDATA_CDATA
  show ?thesis
  proof (cases "content_ptr as_bytes (pd_content p)")
    case (Some q)
    with SML_PCDATA_CDATA have "pcdata_wbxml as_bytes build p = wbxmlWriteTypeToBuffer q OPAQUE_elem (pd_length p)"
      by (simp add: fun_eq_iff pcdata_wbxml_def)
    with SML_PCDATA_CDATA Some implements_opaque show ?thesis by (simp add: body_spec_def)
  qed (simp add: body_spec_def SML_PCDATA_CDATA)
qed

lemma implements_pcdata:
  assumes "\<And>e c. implements (build e c) (sbuild e c)" "i \<in> known_tags ext" "plain_ext ext"
  shows "implements (xltEncPcdata as_bytes build i SML_WBXML ext p) (sp_node ext i [body_spec as_bytes sbuild p])"
  unfolding xltEncPcdata_def using assms
  by (auto intro!: implements_node parts_Cons parts_end implements_body)

lemma implements_leaf:
  assumes "i \<in> known_tags ext" "plain_ext ext"
  shows "implements (enc_leaf i ro p SML_WBXML ext) (leaf_spec ext i ro p)"
  unfolding enc_leaf_def leaf_spec_def using assms by (intro implements_elem implements_pcdata) simp_all

section \<open>Meta information\<close>

definition mi_leaf :: "XltTagID \<Rightarrow> XltRO \<Rightarrow> leaf option \<Rightarrow> spec" where
  "mi_leaf = leaf_spec SML_EXT_METINF"

definition anchor_spec :: "SmlMetInfAnchor \<Rightarrow> spec" where
  "anchor_spec a = sp_node SML_EXT_METINF TN_METINF_ANCHOR
     [mi_leaf TN_METINF_LAST OPTIONAL (mia_last a), mi_leaf TN_METINF_NEXT REQUIRED (mia_next a)]"

definition mem_spec :: "SmlMetInfMem \<Rightarrow> spec" where
  "mem_spec m = sp_node SML_EXT_METINF TN_METINF_MEM
     [sp_elem OPTIONAL (mim_shared m) (\<lambda>p. sp_flag SML_EXT_METINF TN_METINF_SHAREDMEM SmlMetInfSharedMem_f
        (content_type_word (pd_contentType p))),
      mi_leaf TN_METINF_FREEMEM REQUIRED (mim_free m), mi_leaf TN_METINF_FREEID REQUIRED (mim_freeid m)]"

definition metinf_spec :: "SmlMetInfMetInf \<Rightarrow> spec" where
  "metinf_spec m = sp_seq
     ([mi_leaf TN_METINF_FORMAT OPTIONAL (mi_format m), mi_leaf TN_METINF_TYPE OPTIONAL (mi_type m),
       mi_leaf TN_METINF_MARK OPTIONAL (mi_mark m), mi_leaf TN_METINF_SIZE OPTIONAL (mi_size m),
       sp_elem OPTIONAL (mi_anchor m) anchor_spec,
       mi_leaf TN_METINF_VERSION OPTIONAL (mi_version m), mi_leaf TN_METINF_NEXTNONCE OPTIONAL (mi_nextnonce m),
       mi_leaf TN_METINF_MAXMSGSIZE OPTIONAL (mi_maxmsgsize m),
       mi_leaf TN_METINF_MAXOBJSIZE OPTIONAL (mi_maxobjsize m)] @
      map (mi_leaf TN_METINF_EMI OPTIONAL) (mi_emi m) @
      [sp_elem OPTIONAL (mi_mem m) mem_spec])"

lemma implements_mi_leaf:
  "i \<in> known_tags SML_EXT_METINF \<Longrightarrow> implements (metinf_leaf SML_WBXML i ro p) (mi_leaf i ro p)"
  unfolding metinf_leaf_def mi_leaf_def by (rule implements_leaf) simp_all

lemmas parts_intros = implements_node parts_Cons parts_map parts_append parts_end implements_elem implements_map

lemma implements_anchor: "implements (metinf_anchor SML_WBXML a) (anchor_spec a)"
  unfolding metinf_anchor_def anchor_spec_def
  by (intro parts_intros implements_mi_leaf) (simp_all add: known_metinf)

lemma implements_mem: "implements (metinf_mem SML_WBXML m) (mem_spec m)"
  unfolding metinf_mem_def mem_spec_def
  by (intro parts_intros implements_mi_leaf implements_flag) (simp_all add: known_metinf)

lemma implements_metinf: "implements (metinf_metinf SML_WBXML m) (metinf_spec m)"
  unfolding metinf_metinf_def metinf_spec_def
  by (intro implements_seq list_all2_appendI list.rel_intros implements_map implements_elem
        implements_mi_leaf implements_anchor implements_mem) (simp_all add: known_metinf)

section \<open>Management trees\<close>

definition tnd_leaf :: "XltTagID \<Rightarrow> XltRO \<Rightarrow> leaf option \<Rightarrow> spec" where
  "tnd_leaf = leaf_spec SML_EXT_DMTND"

definition format_spec :: "SmlDmTndFormat \<Rightarrow> spec" where
  "format_spec f =
     (case Option.bind (tf_value f) pd_content of
        None \<Rightarrow> Sp_ok []
      | Some bs \<Rightarrow>
          (case c_str bs of
             None \<Rightarrow> Sp_unspec
           | Some s \<Rightarrow>
               (case map_of format_tags s of
                  None \<Rightarrow> Sp_err 5
                | Some i \<Rightarrow> Sp_ok [Ev_start SML_EXT_DMTND TN_DMTND_Format, Ev_empty SML_EXT_DMTND i, Ev_end])))"

definition type_spec :: "SmlDmTndType \<Rightarrow> spec" where
  "type_spec t = sp_node SML_EXT_DMTND TN_DMTND_Type
     [if tt_mime t \<noteq> None then tnd_leaf TN_DMTND_MIME OPTIONAL (tt_mime t)
      else if tt_ddfname t \<noteq> None then tnd_leaf TN_DMTND_DDFName OPTIONAL (tt_ddfname t) else Sp_ok []]"

definition rtprops_spec :: "SmlDmTndRTProps \<Rightarrow> spec" where
  "rtprops_spec r = sp_node SML_EXT_DMTND TN_DMTND_RTProperties
     [tnd_leaf TN_DMTND_ACL OPTIONAL (rt_acl r), sp_elem OPTIONAL (rt_format r) format_spec,
      tnd_leaf TN_DMTND_Name OPTIONAL (rt_name r), tnd_leaf TN_DMTND_Size OPTIONAL (rt_size r),
      tnd_leaf TN_DMTND_Title OPTIONAL (rt_title r), tnd_leaf TN_DMTND_TStamp OPTIONAL (rt_tstamp r),
      sp_elem REQUIRED (rt_type r) type_spec, tnd_leaf TN_DMTND_VerNo OPTIONAL (rt_verno r)]"

lemma sp_elem_cong [fundef_cong]:
  "ro = ro' \<Longrightarrow> p = p' \<Longrightarrow> (\<And>x. p' = Some x \<Longrightarrow> f x = g x) \<Longrightarrow> sp_elem ro p f = sp_elem ro' p' g"
  by (auto simp: sp_elem_def split: option.splits)

fun node_spec :: "SmlDmTndNode \<Rightarrow> spec" where
  "node_spec (DmTndNode nodename path rtprops dfprops value nodelist) = sp_node SML_EXT_DMTND TN_DMTND_Node
     ([tnd_leaf TN_DMTND_NodeName REQUIRED nodename, tnd_leaf TN_DMTND_Path OPTIONAL path,
       sp_elem OPTIONAL rtprops rtprops_spec, tnd_leaf TN_DMTND_Value OPTIONAL value] @
      map (\<lambda>n. sp_elem OPTIONAL n node_spec) nodelist)"

definition tree_spec :: "SmlDmTnd \<Rightarrow> spec" where
  "tree_spec t = sp_node SML_EXT_DMTND TN_DMTND_MgmtTree
     ([tnd_leaf TN_DMTND_VerDTD REQUIRED (tnd_verdtd t), tnd_leaf TN_DMTND_Man OPTIONAL (tnd_man t),
       tnd_leaf TN_DMTND_Mod OPTIONAL (tnd_mod t)] @
      map (\<lambda>n. sp_elem OPTIONAL n node_spec) (tnd_nodelist t))"

lemma implements_tnd_leaf:
  "i \<in> known_tags SML_EXT_DMTND \<Longrightarrow> implements (dmtnd_leaf SML_WBXML i ro p) (tnd_leaf i ro p)"
  unfolding dmtnd_leaf_def tnd_leaf_def by (rule implements_leaf) simp_all

lemma format_tag_known: "map_of format_tags s = Some i \<Longrightarrow> i \<in> known_tags SML_EXT_DMTND"
  by (drule map_of_SomeD) (auto simp: format_tags_def intro!: known_dmtnd)

lemma implements_format: "implements (dmtnd_format SML_WBXML f) (format_spec f)"
proof (cases "Option.bind (tf_value f) pd_content")
  case None
  then have "dmtnd_format SML_WBXML f = (\<lambda>b. Some (SML_ERR_OK, b))" by (simp add: fun_eq_iff dmtnd_format_def)
  with None show ?thesis by (simp add: format_spec_def implements_nothing)
next
  case (Some bs)
  note bs = this
  show ?thesis
  proof (cases "c_str bs")
    case (Some s)
    note s = this
    show ?thesis
    proof (cases "map_of format_tags s")
      case None
      with bs s have "dmtnd_format SML_WBXML f =
          (\<lambda>b. enc_then (xltGenerateTag TN_DMTND_Format TT_BEG SML_WBXML SML_EXT_DMTND b)
            (\<lambda>b. Some (SML_ERR_XLT_INVAL_SYNCML_DOC, b)))"
        by (simp add: fun_eq_iff dmtnd_format_def)
      moreover have "fails 0 (\<lambda>b. Some (SML_ERR_XLT_INVAL_SYNCML_DOC, b))" by (simp add: fails_def)
      moreover have "TN_DMTND_Format \<in> known_tags SML_EXT_DMTND" by (rule known_dmtnd) simp_all
      ultimately have "fails 5 (dmtnd_format SML_WBXML f)" using fails_start [of _ _ 0] by simp
      with bs s None show ?thesis by (simp add: format_spec_def implements_def)
    next
      case (Some i)
      have "enc_flag i 1 1 SML_WBXML SML_EXT_DMTND = xltGenerateTag i TT_ALL SML_WBXML SML_EXT_DMTND"
        by (simp add: fun_eq_iff enc_flag_def)
      with bs s Some have eq: "dmtnd_format SML_WBXML f = enc_seq
          [xltGenerateTag TN_DMTND_Format TT_BEG SML_WBXML SML_EXT_DMTND,
           enc_flag i 1 1 SML_WBXML SML_EXT_DMTND, xltGenerateTag TN_DMTND_Format TT_END SML_WBXML SML_EXT_DMTND]"
        by (intro ext) (simp add: dmtnd_format_def enc_seq_Cons del: enc_seq.simps(2))
      have "implements (dmtnd_format SML_WBXML f) (sp_node SML_EXT_DMTND TN_DMTND_Format [sp_flag SML_EXT_DMTND i 1 1])"
        unfolding eq by (intro parts_intros implements_flag format_tag_known [OF Some]) (simp_all add: known_dmtnd)
      with bs s Some show ?thesis by (simp add: format_spec_def sp_node_def sp_flag_def sp_seq_def)
    qed
  qed (simp add: format_spec_def bs)
qed

lemma implements_type: "implements (dmtnd_type SML_WBXML t) (type_spec t)"
proof -
  have "enc_fail SML_ERR_OK = (\<lambda>b. Some (SML_ERR_OK, b))" by (simp add: fun_eq_iff enc_fail_def)
  then show ?thesis unfolding dmtnd_type_def type_spec_def
    by (auto intro!: parts_intros implements_tnd_leaf simp: known_dmtnd implements_nothing)
qed

lemma implements_rtprops: "implements (dmtnd_rtprops SML_WBXML r) (rtprops_spec r)"
  unfolding dmtnd_rtprops_def rtprops_spec_def
  by (intro parts_intros implements_tnd_leaf implements_format implements_type) (simp_all add: known_dmtnd)

lemma implements_tnd_node: "implements (dmtnd_node SML_WBXML n) (node_spec n)"
proof (induction n rule: node_spec.induct)
  case (1 nodename path rtprops val nodelist)
  show ?case unfolding dmtnd_node.simps node_spec.simps append_Cons append_Nil
    by (intro parts_intros implements_tnd_leaf implements_rtprops "1") (simp_all add: known_dmtnd)
qed

lemma implements_tree: "implements (dmtnd_tree SML_WBXML t) (tree_spec t)"
  unfolding dmtnd_tree_def tree_spec_def append_Cons append_Nil
  by (intro parts_intros implements_tnd_leaf implements_tnd_node) (simp_all add: known_dmtnd)

section \<open>SyncML elements\<close>

text \<open>A sub-DTD as the content of an element; device information is a document of its own.\<close>

definition build_spec :: "XltRO \<Rightarrow> SmlPcdataExtension \<Rightarrow> sml_content option \<Rightarrow> spec" where
  "build_spec ro e c =
     (case e of
        SML_EXT_METINF \<Rightarrow>
          (case c of
             None \<Rightarrow> sp_elem ro None metinf_spec
           | Some (C_metinf m) \<Rightarrow> metinf_spec m
           | _ \<Rightarrow> Sp_unspec)
      | SML_EXT_DMTND \<Rightarrow>
          (case c of
             None \<Rightarrow> sp_elem ro None tree_spec
           | Some (C_dmtnd t) \<Rightarrow> tree_spec t
           | _ \<Rightarrow> Sp_unspec)
      | SML_EXT_DEVINF \<Rightarrow> Sp_unspec
      | _ \<Rightarrow> Sp_err 0)"

lemma implements_build: "implements (xltBuildExtention ro SML_WBXML e c) (build_spec ro e c)"
proof (cases e)
  case SML_EXT_METINF
  show ?thesis
  proof (cases c)
    case None
    have "xltBuildExtention ro SML_WBXML e c = enc_elem ro None (metinf_metinf SML_WBXML)"
      by (simp add: fun_eq_iff xltBuildExtention_def SML_EXT_METINF None metinfEncBlock_def)
    with SML_EXT_METINF None implements_elem [of None "metinf_metinf SML_WBXML" metinf_spec ro]
    show ?thesis by (simp add: build_spec_def)
  next
    case (Some x)
    then show ?thesis
    proof (cases x)
      case (C_metinf m)
      have "xltBuildExtention ro SML_WBXML e c = metinf_metinf SML_WBXML m"
        by (simp add: fun_eq_iff xltBuildExtention_def SML_EXT_METINF Some C_metinf metinfEncBlock_def enc_elem_def)
      with implements_metinf show ?thesis by (simp add: build_spec_def SML_EXT_METINF Some C_metinf)
    qed (simp_all add: build_spec_def SML_EXT_METINF)
  qed
next
  case SML_EXT_DMTND
  show ?thesis
  proof (cases c)
    case None
    have "xltBuildExtention ro SML_WBXML e c = enc_elem ro None (dmtnd_tree SML_WBXML)"
      by (simp add: fun_eq_iff xltBuildExtention_def SML_EXT_DMTND None dmtndEncBlock_def)
    with SML_EXT_DMTND None implements_elem [of None "dmtnd_tree SML_WBXML" tree_spec ro]
    show ?thesis by (simp add: build_spec_def)
  next
    case (Some x)
    then show ?thesis
    proof (cases x)
      case (C_dmtnd t)
      have "xltBuildExtention ro SML_WBXML e c = dmtnd_tree SML_WBXML t"
        by (simp add: fun_eq_iff xltBuildExtention_def SML_EXT_DMTND Some C_dmtnd dmtndEncBlock_def enc_elem_def)
      with implements_tree show ?thesis by (simp add: build_spec_def SML_EXT_DMTND Some C_dmtnd)
    qed (simp_all add: build_spec_def SML_EXT_DMTND)
  qed
next
  case SML_EXT_UNDEFINED
  then have "xltBuildExtention ro SML_WBXML e c = (\<lambda>b. Some (SML_ERR_XLT_INVAL_EXT, b))"
    by (simp add: fun_eq_iff xltBuildExtention_def)
  with SML_EXT_UNDEFINED show ?thesis by (simp add: build_spec_def implements_error)
next
  case SML_EXT_LAST
  then have "xltBuildExtention ro SML_WBXML e c = (\<lambda>b. Some (SML_ERR_XLT_INVAL_EXT, b))"
    by (simp add: fun_eq_iff xltBuildExtention_def)
  with SML_EXT_LAST show ?thesis by (simp add: build_spec_def implements_error)
next
  case SML_EXT_255
  then have "xltBuildExtention ro SML_WBXML e c = (\<lambda>b. Some (SML_ERR_XLT_INVAL_EXT, b))"
    by (simp add: fun_eq_iff xltBuildExtention_def)
  with SML_EXT_255 show ?thesis by (simp add: build_spec_def implements_error)
qed (simp add: build_spec_def)

end
