(* ===== verification/Encoder_Correct.thy ===== *)
theory Encoder_Correct
  imports Encoder_Dtd
begin

text \<open>
  The SyncML elements and whole documents: the encoder implements their DTD.
\<close>

section \<open>The DTD of SyncML\<close>

definition el_data :: "XltTagID \<Rightarrow> XltRO \<Rightarrow> data option \<Rightarrow> spec" where
  "el_data i ro p =
     sp_elem ro p (\<lambda>p. sp_node SML_EXT_UNDEFINED i [body_spec content_bytes (build_spec ro) p])"

definition el_flag :: "XltTagID \<Rightarrow> Flag \<Rightarrow> Flag \<Rightarrow> spec" where
  "el_flag i f flags = sp_flag SML_EXT_UNDEFINED i f flags"

abbreviation el_node :: "XltTagID \<Rightarrow> spec list \<Rightarrow> spec" where
  "el_node i ps \<equiv> sp_node SML_EXT_UNDEFINED i ps"

definition el_chal :: "SmlChal \<Rightarrow> spec" where
  "el_chal c = el_node TN_CHAL [el_data TN_META REQUIRED (chal_meta c)]"

definition el_cred :: "SmlCred \<Rightarrow> spec" where
  "el_cred c = el_node TN_CRED
     [el_data TN_META OPTIONAL (cred_meta c), el_data TN_DATA REQUIRED (cred_data c)]"

definition el_target :: "XltTagID \<Rightarrow> SmlTarget \<Rightarrow> spec" where
  "el_target i t = el_node i
     [el_data TN_LOCURI REQUIRED (tgt_locURI t), el_data TN_LOCNAME OPTIONAL (tgt_locName t)]"

definition el_hdr :: "SmlSyncHdr \<Rightarrow> spec" where
  "el_hdr h = el_node TN_SYNCHDR
     [el_data TN_VERSION REQUIRED (hdr_version h), el_data TN_PROTO REQUIRED (hdr_proto h),
      el_data TN_SESSIONID REQUIRED (hdr_sessionID h), el_data TN_MSGID REQUIRED (hdr_msgID h),
      sp_elem REQUIRED (hdr_target h) (el_target TN_TARGET), sp_elem REQUIRED (hdr_source h) (el_target TN_SOURCE),
      el_data TN_RESPURI OPTIONAL (hdr_respURI h), el_flag TN_NORESP SmlNoResp_f (hdr_flags h),
      sp_elem OPTIONAL (hdr_cred h) el_cred, el_data TN_META OPTIONAL (hdr_meta h)]"

definition el_item :: "SmlItem \<Rightarrow> spec" where
  "el_item i = el_node TN_ITEM
     [sp_elem OPTIONAL (item_target i) (el_target TN_TARGET), sp_elem OPTIONAL (item_source i) (el_target TN_SOURCE),
      el_data TN_META OPTIONAL (item_meta i), el_data TN_DATA OPTIONAL (item_data i),
      el_flag TN_MOREDATA SmlMoreData_f (item_flags i)]"

definition el_mapitem :: "SmlMapItem \<Rightarrow> spec" where
  "el_mapitem i = el_node TN_MAPITEM
     [sp_elem REQUIRED (mpi_target i) (el_target TN_TARGET), sp_elem REQUIRED (mpi_source i) (el_target TN_SOURCE)]"

definition el_items :: "XltRO \<Rightarrow> SmlItem option list \<Rightarrow> spec" where
  "el_items ro xs = sp_list ro xs el_item"

definition el_generic :: "XltTagID \<Rightarrow> SmlGenericCmd \<Rightarrow> spec" where
  "el_generic i c = el_node i
     [el_data TN_CMDID REQUIRED (gen_cmdID c), el_flag TN_NORESP SmlNoResp_f (gen_flags c),
      sp_elem OPTIONAL (gen_cred c) el_cred, el_data TN_META OPTIONAL (gen_meta c),
      el_items REQUIRED (gen_itemList c)]"

definition el_delete :: "SmlGenericCmd \<Rightarrow> spec" where
  "el_delete c = el_node TN_DELETE
     [el_data TN_CMDID REQUIRED (gen_cmdID c), el_flag TN_NORESP SmlNoResp_f (gen_flags c),
      el_flag TN_ARCHIVE SmlArchive_f (gen_flags c), el_flag TN_SFTDEL SmlSftDel_f (gen_flags c),
      sp_elem OPTIONAL (gen_cred c) el_cred, el_data TN_META OPTIONAL (gen_meta c),
      el_items REQUIRED (gen_itemList c)]"

definition el_alert :: "SmlAlert \<Rightarrow> spec" where
  "el_alert c = el_node TN_ALERT
     [el_data TN_CMDID REQUIRED (al_cmdID c), el_flag TN_NORESP SmlNoResp_f (al_flags c),
      sp_elem OPTIONAL (al_cred c) el_cred, el_data TN_DATA OPTIONAL (al_data c),
      el_data TN_CORRELATOR OPTIONAL (al_correlator c), el_items OPTIONAL (al_itemList c)]"

definition el_exec :: "SmlExec \<Rightarrow> spec" where
  "el_exec c = el_node TN_EXEC
     [el_data TN_CMDID REQUIRED (ex_cmdID c), el_flag TN_NORESP SmlNoResp_f (ex_flags c),
      sp_elem OPTIONAL (ex_cred c) el_cred, el_data TN_META OPTIONAL (ex_meta c),
      el_data TN_CORRELATOR OPTIONAL (ex_correlator c), sp_elem REQUIRED (ex_item c) el_item]"

definition el_getput :: "XltTagID \<Rightarrow> SmlGetPut \<Rightarrow> spec" where
  "el_getput i c = el_node i
     [el_data TN_CMDID REQUIRED (gp_cmdID c), el_flag TN_NORESP SmlNoResp_f (gp_flags c),
      el_data TN_LANG OPTIONAL (gp_lang c), sp_elem OPTIONAL (gp_cred c) el_cred,
      el_data TN_META OPTIONAL (gp_meta c), el_items REQUIRED (gp_itemList c)]"

definition el_map :: "SmlMap \<Rightarrow> spec" where
  "el_map c = el_node TN_MAP
     [el_data TN_CMDID REQUIRED (mp_cmdID c), sp_elem REQUIRED (mp_target c) (el_target TN_TARGET),
      sp_elem REQUIRED (mp_source c) (el_target TN_SOURCE), sp_elem OPTIONAL (mp_cred c) el_cred,
      el_data TN_META OPTIONAL (mp_meta c), sp_list REQUIRED (mp_mapItemList c) el_mapitem]"

definition el_results :: "SmlResults \<Rightarrow> spec" where
  "el_results c = el_node TN_RESULTS
     [el_data TN_CMDID REQUIRED (rs_cmdID c), el_data TN_MSGREF OPTIONAL (rs_msgRef c),
      el_data TN_CMDREF REQUIRED (rs_cmdRef c), el_data TN_META OPTIONAL (rs_meta c),
      el_data TN_TARGETREF OPTIONAL (rs_targetRef c), el_data TN_SOURCEREF OPTIONAL (rs_sourceRef c),
      el_items REQUIRED (rs_itemList c)]"

definition el_search :: "SmlSearch \<Rightarrow> spec" where
  "el_search c = el_node TN_SEARCH
     [el_data TN_CMDID REQUIRED (se_cmdID c), el_flag TN_NORESP SmlNoResp_f (se_flags c),
      el_flag TN_NORESULTS SmlNoResults_f (se_flags c), sp_elem OPTIONAL (se_cred c) el_cred,
      sp_elem OPTIONAL (se_target c) (el_target TN_TARGET), sp_list REQUIRED (se_sourceList c) (el_target TN_SOURCE),
      el_data TN_LANG OPTIONAL (se_lang c), el_data TN_META REQUIRED (se_meta c), el_data TN_DATA REQUIRED (se_data c)]"

definition el_status :: "SmlStatus \<Rightarrow> spec" where
  "el_status c = el_node TN_STATUS
     [el_data TN_CMDID REQUIRED (st_cmdID c), el_data TN_MSGREF REQUIRED (st_msgRef c),
      el_data TN_CMDREF REQUIRED (st_cmdRef c), el_data TN_CMD REQUIRED (st_cmd c),
      sp_list OPTIONAL (st_targetRefList c) (\<lambda>p. el_data TN_TARGETREF OPTIONAL (Some p)),
      sp_list OPTIONAL (st_sourceRefList c) (\<lambda>p. el_data TN_SOURCEREF OPTIONAL (Some p)),
      sp_elem OPTIONAL (st_cred c) el_cred, sp_elem OPTIONAL (st_chal c) el_chal,
      el_data TN_DATA REQUIRED (st_data c), el_items OPTIONAL (st_itemList c)]"

text \<open>Elements whose end tag is written later.\<close>

definition sp_open :: "XltTagID \<Rightarrow> spec list \<Rightarrow> spec" where
  "sp_open i ps =
     (case sp_seq ps of Sp_ok es \<Rightarrow> Sp_ok (Ev_start SML_EXT_UNDEFINED i # es) | Sp_err n \<Rightarrow> Sp_err (n + 5)
      | Sp_unspec \<Rightarrow> Sp_unspec)"

definition el_atomic :: "XltTagID \<Rightarrow> SmlAtomic \<Rightarrow> spec" where
  "el_atomic i c = sp_open i
     [el_data TN_CMDID REQUIRED (at_cmdID c), el_flag TN_NORESP SmlNoResp_f (at_flags c),
      el_data TN_META OPTIONAL (at_meta c)]"

definition el_sync :: "SmlSync \<Rightarrow> spec" where
  "el_sync c = sp_open TN_SYNC
     [el_data TN_CMDID REQUIRED (sy_cmdID c), el_flag TN_NORESP SmlNoResp_f (sy_flags c),
      sp_elem OPTIONAL (sy_cred c) el_cred, sp_elem OPTIONAL (sy_target c) (el_target TN_TARGET),
      sp_elem OPTIONAL (sy_source c) (el_target TN_SOURCE), el_data TN_META OPTIONAL (sy_meta c),
      el_data TN_NUMBEROFCHANGES OPTIONAL (sy_noc c)]"

section \<open>The elements\<close>

lemma implements_data:
  "i \<in> known_tags SML_EXT_UNDEFINED \<Longrightarrow> implements (enc_pcdata SML_WBXML i ro p) (el_data i ro p)"
  unfolding enc_pcdata_def el_data_def by (intro implements_elem implements_pcdata implements_build) simp_all

lemma implements_flag_tag:
  "i \<in> known_tags SML_EXT_UNDEFINED \<Longrightarrow> implements (flag_tag SML_WBXML i f flags) (el_flag i f flags)"
  unfolding flag_tag_def el_flag_def by (rule implements_flag) simp_all

lemmas el_intros = parts_intros implements_data implements_flag_tag implements_list

lemma implements_chal: "implements (enc_chal SML_WBXML c) (el_chal c)"
  unfolding enc_chal_def el_chal_def by (intro el_intros) (simp_all add: known_syncml)

lemma implements_cred: "implements (enc_cred SML_WBXML c) (el_cred c)"
  unfolding enc_cred_def el_cred_def by (intro el_intros) (simp_all add: known_syncml)

lemma implements_target: "i \<in> known_tags SML_EXT_UNDEFINED \<Longrightarrow> implements (enc_target SML_WBXML i t) (el_target i t)"
  unfolding enc_target_def el_target_def by (intro el_intros) (simp_all add: known_syncml)

lemma implements_hdr: "implements (enc_hdr SML_WBXML h) (el_hdr h)"
  unfolding enc_hdr_def el_hdr_def
  by (intro el_intros implements_target implements_cred) (simp_all add: known_syncml)

lemma implements_item: "implements (enc_item SML_WBXML i) (el_item i)"
  unfolding enc_item_def el_item_def by (intro el_intros implements_target) (simp_all add: known_syncml)

lemma implements_mapitem: "implements (enc_mapitem SML_WBXML i) (el_mapitem i)"
  unfolding enc_mapitem_def el_mapitem_def by (intro el_intros implements_target) (simp_all add: known_syncml)

lemma implements_items: "implements (item_list SML_WBXML ro xs) (el_items ro xs)"
  unfolding item_list_def el_items_def by (intro implements_list implements_item)

lemma implements_pcdata_list:
  "i \<in> known_tags SML_EXT_UNDEFINED \<Longrightarrow>
     implements (pcdata_list SML_WBXML i ro xs) (sp_list ro xs (\<lambda>p. el_data i OPTIONAL (Some p)))"
  unfolding pcdata_list_def by (intro implements_list implements_data)

lemmas cmd_intros = el_intros implements_target implements_cred implements_chal implements_item implements_mapitem
  implements_items implements_pcdata_list

lemma implements_generic: "i \<in> known_tags SML_EXT_UNDEFINED \<Longrightarrow> implements (enc_generic SML_WBXML i c) (el_generic i c)"
  unfolding enc_generic_def el_generic_def by (intro cmd_intros) (simp_all add: known_syncml)

lemma implements_delete: "implements (enc_delete SML_WBXML c) (el_delete c)"
  unfolding enc_delete_def el_delete_def by (intro cmd_intros) (simp_all add: known_syncml)

lemma implements_alert: "implements (enc_alert SML_WBXML c) (el_alert c)"
  unfolding enc_alert_def el_alert_def by (intro cmd_intros) (simp_all add: known_syncml)

lemma implements_exec: "implements (enc_exec SML_WBXML c) (el_exec c)"
  unfolding enc_exec_def el_exec_def by (intro cmd_intros) (simp_all add: known_syncml)

lemma implements_getput: "i \<in> known_tags SML_EXT_UNDEFINED \<Longrightarrow> implements (enc_getput SML_WBXML i c) (el_getput i c)"
  unfolding enc_getput_def el_getput_def by (intro cmd_intros) (simp_all add: known_syncml)

lemma implements_map_cmd: "implements (enc_map SML_WBXML c) (el_map c)"
  unfolding enc_map_def el_map_def by (intro cmd_intros) (simp_all add: known_syncml)

lemma implements_results: "implements (enc_results SML_WBXML c) (el_results c)"
  unfolding enc_results_def el_results_def by (intro cmd_intros) (simp_all add: known_syncml)

lemma implements_search: "implements (enc_search SML_WBXML c) (el_search c)"
  unfolding enc_search_def el_search_def by (intro cmd_intros) (simp_all add: known_syncml)

lemma implements_status: "implements (enc_status SML_WBXML c) (el_status c)"
  unfolding enc_status_def el_status_def by (intro cmd_intros) (simp_all add: known_syncml)

section \<open>Blocks\<close>

text \<open>As \<open>implements\<close>, for a series of calls whose events need not be well nested.\<close>

definition realises :: "(BufferMgmt \<Rightarrow> enc_result) \<Rightarrow> spec \<Rightarrow> bool" where
  "realises f p \<longleftrightarrow>
     (case p of Sp_ok es \<Rightarrow> doc_ok es \<and> gens f es | Sp_err n \<Rightarrow> fails n f | Sp_unspec \<Rightarrow> True)"

lemma implements_realises: "implements f p \<Longrightarrow> realises f p"
  by (auto simp: implements_def realises_def split: spec.splits)

lemma realises_unspec [simp]: "realises f Sp_unspec"
  by (simp add: realises_def)

lemma realises_open:
  assumes i: "i \<in> known_tags SML_EXT_UNDEFINED" and fs: "list_all2 implements fs ps"
  shows "realises (enc_seq (tag_beg SML_WBXML i # fs)) (sp_open i ps)"
proof (cases "sp_seq ps")
  case (Sp_ok es)
  with implements_seq [OF fs] have es: "doc_ok es" "gens (enc_seq fs) es" by (simp_all add: implements_def)
  from gens_then [OF gens_start [OF i] es(2)] have
    "gens (enc_seq (tag_beg SML_WBXML i # fs)) (Ev_start SML_EXT_UNDEFINED i # es)" by (simp add: enc_seq_Cons)
  with Sp_ok es(1) i show ?thesis by (simp add: realises_def sp_open_def doc_ok_def)
next
  case (Sp_err n)
  with implements_seq [OF fs] have "fails n (enc_seq fs)" by (simp add: implements_def)
  from fails_start [OF i this] Sp_err show ?thesis by (simp add: realises_def sp_open_def enc_seq_Cons)
qed (simp add: sp_open_def)

lemma realises_atomic: "i \<in> known_tags SML_EXT_UNDEFINED \<Longrightarrow> realises (enc_atomic SML_WBXML i c) (el_atomic i c)"
  unfolding enc_atomic_def el_atomic_def
  by (intro realises_open list.rel_intros cmd_intros) (simp_all add: known_syncml)

lemma realises_sync: "realises (enc_sync SML_WBXML c) (el_sync c)"
  unfolding enc_sync_def el_sync_def
  by (intro realises_open list.rel_intros cmd_intros) (simp_all add: known_syncml)

definition content_spec :: "XltTagID \<Rightarrow> XltRO \<Rightarrow> sml_elem \<Rightarrow> spec" where
  "content_spec i ro c =
     (case c of
        El_hdr h \<Rightarrow> if i = TN_SYNCHDR then el_hdr h else Sp_unspec
      | El_cred x \<Rightarrow> if i = TN_CRED then el_cred x else Sp_unspec
      | El_target x \<Rightarrow> if i \<in> {TN_SOURCE, TN_TARGET} then el_target i x else Sp_unspec
      | El_item x \<Rightarrow> if i = TN_ITEM then el_item x else Sp_unspec
      | El_generic x \<Rightarrow> if i \<in> {TN_ADD, TN_COPY, TN_REPLACE} then el_generic i x
                         else if i = TN_DELETE then el_delete x else Sp_unspec
      | El_alert x \<Rightarrow> if i = TN_ALERT then el_alert x else Sp_unspec
      | El_atomic x \<Rightarrow> if i \<in> {TN_ATOMIC, TN_SEQUENCE} then el_atomic i x else Sp_unspec
      | El_exec x \<Rightarrow> if i = TN_EXEC then el_exec x else Sp_unspec
      | El_getput x \<Rightarrow> if i \<in> {TN_GET, TN_PUT} then el_getput i x else Sp_unspec
      | El_map x \<Rightarrow> if i = TN_MAP then el_map x else Sp_unspec
      | El_mapitem x \<Rightarrow> if i = TN_MAPITEM then el_mapitem x else Sp_unspec
      | El_results x \<Rightarrow> if i = TN_RESULTS then el_results x else Sp_unspec
      | El_chal x \<Rightarrow> if i = TN_CHAL then el_chal x else Sp_unspec
      | El_search x \<Rightarrow> if i = TN_SEARCH then el_search x else Sp_unspec
      | El_status x \<Rightarrow> if i = TN_STATUS then el_status x else Sp_unspec
      | El_sync x \<Rightarrow> if i = TN_SYNC then el_sync x else Sp_unspec
      | El_flags f \<Rightarrow> (case flag_of_tag i of Some m \<Rightarrow> el_flag i m f | None \<Rightarrow> Sp_unspec)
      | El_pcdata p \<Rightarrow>
          if i \<in> set struct_tags \<or> flag_of_tag i \<noteq> None \<or> i \<notin> known_tags SML_EXT_UNDEFINED then Sp_unspec
          else el_data i ro (Some p))"

definition block_spec :: "XltTagID \<Rightarrow> XltRO \<Rightarrow> sml_elem option \<Rightarrow> spec" where
  "block_spec i ro c =
     (case end_tag_of i of Some t \<Rightarrow> Sp_ok [Ev_end] | None \<Rightarrow> sp_elem ro c (content_spec i ro))"

lemma flag_of_tag_known: "flag_of_tag i = Some m \<Longrightarrow> i \<in> known_tags SML_EXT_UNDEFINED"
  by (auto simp: flag_of_tag_def split: if_splits intro: known_syncml)

lemmas cmd_realises = implements_hdr implements_cred implements_item implements_delete implements_alert implements_exec
  implements_map_cmd implements_mapitem implements_results implements_chal implements_search implements_status

lemma realises_content: "realises (enc_content SML_WBXML i ro c) (content_spec i ro c)"
proof (cases c)
  case (El_flags f)
  then show ?thesis using implements_flag_tag flag_of_tag_known
    by (auto simp: enc_content_def content_spec_def intro!: implements_realises split: option.splits)
next
  case (El_pcdata p)
  then show ?thesis using implements_data by (auto simp: enc_content_def content_spec_def intro!: implements_realises)
next
  case (El_atomic x)
  then show ?thesis using realises_atomic by (auto simp: enc_content_def content_spec_def known_syncml)
next
  case (El_sync x)
  then show ?thesis using realises_sync by (auto simp: enc_content_def content_spec_def)
next
  case (El_generic x)
  then show ?thesis using implements_generic implements_delete
    by (auto simp: enc_content_def content_spec_def known_syncml intro!: implements_realises)
next
  case (El_getput x)
  then show ?thesis using implements_getput
    by (auto simp: enc_content_def content_spec_def known_syncml intro!: implements_realises)
next
  case (El_target x)
  then show ?thesis using implements_target
    by (auto simp: enc_content_def content_spec_def known_syncml intro!: implements_realises)
qed (use cmd_realises in \<open>auto simp: enc_content_def content_spec_def intro!: implements_realises\<close>)

lemma realises_block: "realises (xltEncBlock i ro c SML_WBXML) (block_spec i ro c)"
proof (cases "end_tag_of i")
  case (Some t)
  then show ?thesis
    by (simp add: xltEncBlock_def block_spec_def realises_def doc_ok_def gens_end)
next
  case None
  show ?thesis
  proof (cases c)
    case None
    have "enc_elem ro None (enc_content SML_WBXML i ro) =
        (\<lambda>b. Some (if ro = REQUIRED then SML_ERR_XLT_MISSING_CONT else SML_ERR_OK, b))"
      by (simp add: fun_eq_iff enc_elem_def)
    with None \<open>end_tag_of i = None\<close> show ?thesis
      by (simp add: xltEncBlock_def block_spec_def sp_elem_def implements_nothing implements_error implements_realises)
  next
    case (Some x)
    have "enc_elem ro (Some x) (enc_content SML_WBXML i ro) = enc_content SML_WBXML i ro x"
      by (simp add: fun_eq_iff enc_elem_def)
    with Some None realises_content show ?thesis by (simp add: xltEncBlock_def block_spec_def sp_elem_def)
  qed
qed

end
