(* ===== verification/Encoder_Doc.thy ===== *)
theory Encoder_Doc
  imports Encoder_Correct
begin

text \<open>
  Whole documents: what \<open>xltEncInit\<close>, \<open>xltEncAppend\<close> and \<open>xltEncTerminate\<close> write, the counts of the
  evaluation mode, and the scanner on the finished document.
\<close>

section \<open>The header, read by the scanner\<close>

definition doc_header :: "byte list \<Rightarrow> byte list" where
  "doc_header fpi = [XLT_WBXMLVER, XLT_PUBIDENT1, XLT_PUBIDENT2, XLT_CHARSET, XLT_STABLEN] @ fpi"

lemma parseInt_byte:
  assumes "in_doc s" "ahead s = b # bs" "b AND 0x80 = 0"
  shows "parseInt s = Some (SML_ERR_OK, uint (b AND 0x7F), s)"
proof -
  have "s32 (uint (b AND 0x7F)) = Some (uint (b AND 0x7F))"
    using uint_lt2p [of "b AND 0x7F"] by (intro s32_ok) simp_all
  then show ?thesis using assms sc_cur_ahead [OF assms(1,2)]
    by (subst parseInt_def, subst parseInt_loop.simps) (simp add: s32_ok [of 0])
qed

lemma need_next:
  assumes "in_doc s" "ahead s = b # bs"
  shows "need 1 s k = k (s\<lparr>sc_pos := sc_pos s + 1\<rparr>)"
  using need_1(1) [OF assms] .

text \<open>The position moves over one byte of what lies ahead; other fields may have changed.\<close>

definition at :: "byte list \<Rightarrow> wbxmlScanner \<Rightarrow> bool" where
  "at bs s \<longleftrightarrow> in_doc s \<and> ahead s = bs"

lemma at_next: "at (b # bs) s \<Longrightarrow> at bs (s\<lparr>sc_pos := sc_pos s + 1\<rparr>)"
  using need_1(2,3) [of s b bs] by (simp add: at_def)

lemma at_cong:
  "sc_mem s' = sc_mem s \<Longrightarrow> sc_bufend s' = sc_bufend s \<Longrightarrow> sc_pos s' = sc_pos s \<Longrightarrow> at bs s' = at bs s"
  by (simp add: at_def in_doc_def ahead_def)

lemma at_need: "at (b # bs) s \<Longrightarrow> need 1 s k = k (s\<lparr>sc_pos := sc_pos s + 1\<rparr>)"
  by (simp add: at_def need_next)

lemma at_parse: "at (b # bs) s \<Longrightarrow> b AND 0x80 = 0 \<Longrightarrow> parseInt s = Some (SML_ERR_OK, uint (b AND 0x7F), s)"
  by (simp add: at_def parseInt_byte)

lemma at_cur: "at (b # bs) s \<Longrightarrow> sc_cur s = Some b"
  by (simp add: at_def sc_cur_ahead)

lemma wbxmlVersion_ok:
  "at (XLT_WBXMLVER # bs) s \<Longrightarrow> wbxmlVersion s = Some (SML_ERR_OK, s\<lparr>sc_pos := sc_pos s + 1\<rparr>)"
  by (simp add: wbxmlVersion_def at_cur at_need XLT_WBXMLVER_def MAJOR_VERSION_def MINOR_VERSION_def)

lemma wbxmlPublicID_ok:
  assumes "at (XLT_PUBIDENT1 # XLT_PUBIDENT2 # bs) s"
  shows "wbxmlPublicID s = Some (SML_ERR_OK, s\<lparr>sc_pos := sc_pos s + 2, sc_pubID := 0, sc_pubIDIdx := 0\<rparr>)"
proof -
  note a1 = assms [unfolded XLT_PUBIDENT1_def XLT_PUBIDENT2_def]
  note a2 = at_next [OF a1]
  have a3: "at (0 # bs) ((s\<lparr>sc_pos := sc_pos s + 1\<rparr>)\<lparr>sc_pubID := 0, sc_pubIDIdx := 0\<rparr>)"
    using a2 by (subst at_cong) simp_all
  from at_cur [OF a1] at_need [OF a1] at_parse [OF a2] at_need [OF a3] show ?thesis
    by (simp add: wbxmlPublicID_def on_ok_def)
qed

lemma wbxmlCharset_ok:
  assumes "at (XLT_CHARSET # bs) s"
  shows "wbxmlCharset s = Some (SML_ERR_OK, s\<lparr>sc_pos := sc_pos s + 1, sc_charset := 106\<rparr>)"
proof -
  note a1 = assms [unfolded XLT_CHARSET_def]
  have a2: "at (0x6A # bs) (s\<lparr>sc_charset := 106\<rparr>)" using a1 by (subst at_cong) simp_all
  from at_parse [OF a1] at_need [OF a2] show ?thesis by (simp add: wbxmlCharset_def on_ok_def)
qed

lemma at_skip:
  assumes "at (xs @ bs) s"
  shows "at bs (s\<lparr>sc_pos := sc_pos s + int (length xs)\<rparr>)"
    and "readBytes (int (length xs)) s = (True, s\<lparr>sc_pos := sc_pos s + int (length xs)\<rparr>)"
    and "bytes_at (sc_mem s) (sc_pos s) (int (length xs)) = Some xs"
    and "sc_pos s + int (length xs) \<le> sc_bufend s"
proof -
  from assms have d: "in_doc s" and a: "ahead s = xs @ bs" by (simp_all add: at_def)
  then have n: "length xs \<le> length (ahead s)" by simp
  from ahead_skip [OF d n] a show "at bs (s\<lparr>sc_pos := sc_pos s + int (length xs)\<rparr>)" by (simp add: at_def)
  from readBytes_ok [OF d n] show "readBytes (int (length xs)) s = (True, s\<lparr>sc_pos := sc_pos s + int (length xs)\<rparr>)" .
  show le: "sc_pos s + int (length xs) \<le> sc_bufend s" using length_ahead [OF d] n by simp
  have "take (length xs) (drop (nat (sc_pos s)) (sc_mem s)) = take (length xs) (ahead s)"
  proof -
    have "length xs \<le> nat (sc_bufend s) - nat (sc_pos s)" 
      using le d by (auto simp: in_doc_def nat_diff_distrib' [symmetric] le_nat_iff)
    then show ?thesis by (simp add: ahead_def drop_take min_def)
  qed
  then show "bytes_at (sc_mem s) (sc_pos s) (int (length xs)) = Some xs"
    using a le d by (simp add: bytes_at_def in_doc_def)
qed


lemma wbxmlStrtbl_ok:
  assumes "at (XLT_STABLEN # fpi @ bs) s" "length fpi = 29" "tok_ready (sc_tok s)" "sc_pubID s = 0" "sc_pubIDIdx s = 0"
  shows "wbxmlStrtbl s = Some (SML_ERR_OK,
           s\<lparr>sc_pos := sc_pos s + 30, sc_strtbllen := 29, sc_strtbl := Some fpi, sc_pubIDStr := Some 0\<rparr>)"
proof -
  note a1 = assms(1) [unfolded XLT_STABLEN_def]
  define s1 where "s1 = (s\<lparr>sc_pos := sc_pos s + 1\<rparr>)\<lparr>sc_strtbllen := 29\<rparr>"
  define s2 where "s2 = s1\<lparr>sc_strtbl := Some fpi\<rparr>"
  have a2: "at (fpi @ bs) s1" using at_next [OF a1] by (subst at_cong [of _ "s\<lparr>sc_pos := sc_pos s + 1\<rparr>"]) (simp_all add: s1_def)
  have a3: "at (fpi @ bs) s2" using a2 by (subst at_cong [of _ s1]) (simp_all add: s2_def)
  have "sc_malloc s1 = (True, s1)" using assms(3) by (intro sc_malloc_ready) (simp add: s1_def)
  moreover have "wbxmlPubIDStr (s2\<lparr>sc_pos := sc_pos s2 + 29\<rparr>) =
      Some (SML_ERR_OK, s2\<lparr>sc_pos := sc_pos s2 + 29, sc_pubIDStr := Some 0\<rparr>)"
    using assms(4,5) by (simp add: wbxmlPubIDStr_def s2_def s1_def)
  ultimately show ?thesis
    using at_parse [OF a1] at_need [OF a1] at_skip(3,4) [OF a2] at_skip(2) [OF a3] assms(2)
    by (simp add: wbxmlStrtbl_def on_ok_def s1_def s2_def Let_def)
qed

lemma fpi_length: "syncml_fpi v = Some fpi \<Longrightarrow> length fpi = 29"
  by (auto simp: syncml_fpi_def bytes_of_def split: SmlVersion.splits)

lemma scan_header:
  assumes at: "at (doc_header fpi @ bs) (scanner_init m end start st g)"
    and fpi: "length fpi = 29" and g: "tok_ready g"
    and st: "xltUtilCreateStack True True 10 = (SML_ERR_OK, Some st)"
  shows "\<exists>s. wbxmlHeader (scanner_init m end start st g) = Some (SML_ERR_OK, s) \<and>
     scan_ready SML_EXT_UNDEFINED [] bs s \<and> sc_tok s = g"
proof -
  define s0 where "s0 = scanner_init m end start st g"
  define s1 where "s1 = s0\<lparr>sc_pos := sc_pos s0 + 1\<rparr>"
  define s2 where "s2 = s1\<lparr>sc_pos := sc_pos s1 + 2, sc_pubID := 0, sc_pubIDIdx := 0\<rparr>"
  define s3 where "s3 = s2\<lparr>sc_pos := sc_pos s2 + 1, sc_charset := 106\<rparr>"
  define s4 where "s4 = s3\<lparr>sc_pos := sc_pos s3 + 30, sc_strtbllen := 29, sc_strtbl := Some fpi, sc_pubIDStr := Some 0\<rparr>"
  have a0: "at (XLT_WBXMLVER # XLT_PUBIDENT1 # XLT_PUBIDENT2 # XLT_CHARSET # XLT_STABLEN # fpi @ bs) s0"
    using at by (simp add: s0_def doc_header_def)
  have a1: "at (XLT_PUBIDENT1 # XLT_PUBIDENT2 # XLT_CHARSET # XLT_STABLEN # fpi @ bs) s1"
    using at_next [OF a0] by (simp add: s1_def)
  have a2: "at (XLT_CHARSET # XLT_STABLEN # fpi @ bs) s2"
    using at_next [OF at_next [OF a1]] by (subst at_cong [of _ "s1\<lparr>sc_pos := sc_pos s1 + 2\<rparr>"]) (simp_all add: s2_def add.assoc)
  have a3: "at (XLT_STABLEN # fpi @ bs) s3"
    using at_next [OF a2] by (subst at_cong [of _ "s2\<lparr>sc_pos := sc_pos s2 + 1\<rparr>"]) (simp_all add: s3_def)
  have a4: "at bs s4"
    using at_skip(1) [of "XLT_STABLEN # fpi" bs s3] a3 fpi
    by (subst at_cong [of _ "s3\<lparr>sc_pos := sc_pos s3 + 30\<rparr>"]) (simp_all add: s4_def)
  have "wbxmlHeader s0 = Some (SML_ERR_OK, s4)"
    using wbxmlVersion_ok [OF a0] wbxmlPublicID_ok [OF a1] wbxmlCharset_ok [OF a2] wbxmlStrtbl_ok [OF a3 fpi] g
    by (simp add: wbxmlHeader_def and_then_def s1_def [symmetric] s2_def [symmetric] s3_def [symmetric])
      (simp add: s4_def s3_def s2_def s1_def s0_def scanner_init_def)
  moreover have "stk_tight st \<and> stk_view st = [] \<and> chunksize st = 10"
    using st by (auto simp: xltUtilCreateStack_def stk_tight_def stk_inv_def stk_view_def)
  then have "scan_ready SML_EXT_UNDEFINED [] bs s4"
    using a4 g by (simp add: scan_ready_def at_def s4_def s3_def s2_def s1_def s0_def scanner_init_def
        getCodePage_def page_ext_def)
  ultimately show ?thesis by (auto simp: s0_def [symmetric] s4_def s3_def s2_def s1_def) (simp add: s0_def scanner_init_def)
qed

lemma xltDecWbxmlInit_ok:
  assumes doc: "0 \<le> start" "start \<le> end" "end \<le> int (length m)"
    and bytes: "drop (nat start) (take (nat end) m) = doc_header fpi @ bs" and fpi: "length fpi = 29"
    and g: "tok_ready g"
  shows "\<exists>s. xltDecWbxmlInit m end start g = Some (SML_ERR_OK, Some s, g) \<and> scan_ready SML_EXT_UNDEFINED [] bs s"
proof -
  obtain st :: "XltTagID ArrayStack" where st: "xltUtilCreateStack True True 10 = (SML_ERR_OK, Some st)"
    by (simp add: xltUtilCreateStack_def)
  have "at (doc_header fpi @ bs) (scanner_init m end start st g)"
    using doc bytes by (simp add: at_def in_doc_def ahead_def scanner_init_def)
  from scan_header [OF this fpi g st] obtain s where
    "wbxmlHeader (scanner_init m end start st g) = Some (SML_ERR_OK, s)"
    "scan_ready SML_EXT_UNDEFINED [] bs s" "sc_tok s = g" by blast
  with tok_malloc_ready [OF g] st show ?thesis by (simp add: xltDecWbxmlInit_def)
qed

section \<open>Writing to the document\<close>

definition doc_ready :: "int \<Rightarrow> Doc \<Rightarrow> bool" where
  "doc_ready pBufEnd d \<longleftrightarrow>
     0 \<le> doc_pos d \<and> doc_pos d \<le> pBufEnd \<and> pBufEnd \<le> int (length (doc_mem d)) \<and> tok_ready (doc_tok d)"

definition doc_put :: "byte list \<Rightarrow> Doc \<Rightarrow> TokTbl \<Rightarrow> Doc" where
  "doc_put bs d g =
     d\<lparr>doc_mem := take (nat (doc_pos d)) (doc_mem d) @ bs @ drop (nat (doc_pos d) + length bs) (doc_mem d),
       doc_pos := doc_pos d + int (length bs), doc_tok := g\<rparr>"

lemma doc_put_ready:
  assumes "doc_ready E d" "doc_pos d + int (length bs) \<le> E" "tok_ready g"
  shows "doc_ready E (doc_put bs d g)"
proof -
  have "nat (doc_pos d) + length bs \<le> length (doc_mem d)" using assms(1,2) by (auto simp: doc_ready_def)
  with assms show ?thesis by (auto simp: doc_ready_def doc_put_def)
qed

lemma doc_put_put:
  assumes "doc_ready E d" "doc_pos d + int (length xs) + int (length ys) \<le> E"
  shows "doc_put ys (doc_put xs d g) g' = doc_put (xs @ ys) d g'"
proof -
  have "nat (doc_pos d) + length xs + length ys \<le> length (doc_mem d)" "0 \<le> doc_pos d"
    using assms by (auto simp: doc_ready_def)
  then show ?thesis by (simp add: doc_put_def nat_add_distrib add.commute add.left_commute)
qed

text \<open>What a buffer operation on a new buffer leaves behind, in both outcomes.\<close>

definition doc_result :: "int \<Rightarrow> Doc \<Rightarrow> byte list \<Rightarrow> ret \<Rightarrow> BufferMgmt \<Rightarrow> bool" where
  "doc_result E d bs r b \<longleftrightarrow> tok_ready (bm_tok b) \<and>
     (if doc_pos d + int (length bs) \<le> E
      then r = SML_ERR_OK \<and> (keep_pos b d)\<lparr>doc_pos := bm_pos b\<rparr> = doc_put bs d (bm_tok b)
      else r = SML_ERR_XLT_BUF_ERR \<and>
        (\<exists>n < length bs. keep_pos b d = (doc_put (take n bs) d (bm_tok b))\<lparr>doc_pos := doc_pos d\<rparr> \<and>
                         doc_pos d + int n \<le> E))"

lemma enc_emits_doc:
  assumes m: "enc_emits m (new_buffer d E e a) bs cur k" and d: "doc_ready E d"
  shows "\<exists>r b. m = Some (r, b) \<and> doc_result E d bs r b \<and>
           (r = SML_ERR_OK \<longrightarrow> bm_curExt b = cur \<and> bm_endTagSize b = k \<and> bm_written b = int (length bs))"
proof -
  from m obtain r b where b: "m = Some (r, b)" "emits (new_buffer d E e a) bs r b" "buf_ok b"
    "r = SML_ERR_OK \<longrightarrow> bm_curExt b = cur \<and> bm_endTagSize b = k"
    by (auto simp: enc_emits_def new_buffer_def)
  have "doc_result E d bs r b"
  proof (cases "doc_pos d + int (length bs) \<le> E")
    case True
    with b(2,3) show ?thesis
      by (auto simp: doc_result_def emits_def new_buffer_def same_doc_def buf_put_bytes_def keep_pos_def doc_put_def buf_ok_def)
  next
    case False
    with b(2) obtain n where n: "r = SML_ERR_XLT_BUF_ERR" "n < length bs" "int n \<le> E - doc_pos d"
      "same_doc (buf_put_bytes (take n bs) (new_buffer d E e a)) b"
      by (auto simp: emits_def new_buffer_def)
    then have "keep_pos b d = (doc_put (take n bs) d (bm_tok b))\<lparr>doc_pos := doc_pos d\<rparr>"
      by (simp add: new_buffer_def same_doc_def buf_put_bytes_def keep_pos_def doc_put_def)
    moreover have "doc_pos d + int n \<le> E" using n(3) by simp
    ultimately have "\<exists>n < length bs. keep_pos b d = (doc_put (take n bs) d (bm_tok b))\<lparr>doc_pos := doc_pos d\<rparr> \<and>
        doc_pos d + int n \<le> E" using n(2) by blast
    moreover have "tok_ready (bm_tok b)" using b(3) by (simp add: buf_ok_def)
    ultimately show ?thesis using False n(1) by (simp add: doc_result_def)
  qed
  moreover have "r = SML_ERR_OK \<longrightarrow> bm_written b = int (length bs)"
    using b(2) by (auto simp: emits_def new_buffer_def same_doc_def buf_put_bytes_def split: if_splits)
  ultimately show ?thesis using b by blast
qed

lemma new_buffer_ok:
  "doc_ready E d \<Longrightarrow> E - doc_pos d < 2 ^ 31 \<Longrightarrow> xe_space_evaluation e = None \<Longrightarrow> buf_ok (new_buffer d E e a)"
  by (simp add: doc_ready_def buf_ok_def new_buffer_def)

lemma gens_doc:
  assumes f: "gens f es" and d: "doc_ready E d" "xe_space_evaluation e = None"
    and len: "E - doc_pos d + int (length (doc_bytes (xe_cur_ext e) es)) + 5 < 2 ^ 31"
  shows "\<exists>r b. f (new_buffer d E e a) = Some (r, b) \<and> doc_result E d (doc_bytes (xe_cur_ext e) es) r b \<and>
           (r = SML_ERR_OK \<longrightarrow> bm_curExt b = ext_after (xe_cur_ext e) es \<and>
              bm_endTagSize b = sum_list (map ev_open es) \<and>
              bm_written b = int (length (doc_bytes (xe_cur_ext e) es)))"
proof -
  let ?b = "new_buffer d E e a"
  have c: "bm_curExt ?b = xe_cur_ext e" by (simp add: new_buffer_def)
  have "buf_ok ?b" using d len by (intro new_buffer_ok) simp_all
  moreover have "write_room ?b (length (doc_bytes (bm_curExt ?b) es))"
    using len by (simp add: write_room_def c) (simp add: new_buffer_def)
  ultimately have "enc_emits (f ?b) ?b (doc_bytes (xe_cur_ext e) es) (ext_after (xe_cur_ext e) es) (sum_list (map ev_open es))"
    using f unfolding gens_def writes_def c [symmetric] by blast
  from enc_emits_doc [OF this d(1)] show ?thesis .
qed

section \<open>Appending a command\<close>

definition pe_tag :: "SmlProtoElement \<Rightarrow> XltTagID" where
  "pe_tag pe = snd (pe_walk pe getPEEncTable)"

definition cmd_spec :: "SmlProtoElement \<times> sml_elem option \<Rightarrow> spec" where
  "cmd_spec c = block_spec (pe_tag (fst c)) REQUIRED (snd c)"

lemma getTNbyPE_ready: "tok_ready g \<Longrightarrow> getTNbyPE pe t g = (fst (pe_walk pe getPEEncTable), pe_tag pe, g)"
  by (simp add: getTNbyPE_def tok_malloc_ready pe_tag_def split: prod.splits)

lemma ev_bytes_pos: "0 < length (ev_bytes cur e)"
  by (cases e) simp_all

lemma events_le_bytes: "length es \<le> length (doc_bytes cur es)"
proof (induction es arbitrary: cur)
  case (Cons e es)
  have "1 \<le> length (ev_bytes cur e)" using ev_bytes_pos [of cur e] by linarith
  with Cons.IH [of "ev_ext cur e"] show ?case by simp
qed simp

lemma open_bound: "\<bar>sum_list (map ev_open es)\<bar> \<le> int (length (doc_bytes cur es))"
proof (induction es arbitrary: cur)
  case (Cons e es)
  have "\<bar>ev_open e\<bar> \<le> 1" by (cases e) simp_all
  moreover have "1 \<le> int (length (ev_bytes cur e))" using ev_bytes_pos [of cur e] by linarith
  ultimately show ?case using Cons.IH [of "ev_ext cur e"]
    unfolding doc_bytes.simps length_append of_nat_add list.map sum_list.Cons by linarith
qed simp

lemma block_gens: "block_spec i ro c = Sp_ok es \<Longrightarrow> gens (xltEncBlock i ro c SML_WBXML) es \<and> doc_ok es"
  using realises_block [of i ro c] by (simp add: realises_def)

lemma new_buffer_tok: "new_buffer d E e a\<lparr>bm_tok := doc_tok d\<rparr> = new_buffer d E e a"
  by (simp add: new_buffer_def)

lemma xltEncAppend_writes:
  assumes e: "xe_enc e = SML_WBXML" "xe_space_evaluation e = None" and d: "doc_ready E d"
    and es: "cmd_spec (pe, c) = Sp_ok es"
    and len: "E - doc_pos d + int (length (doc_bytes (xe_cur_ext e) es)) + 5 < 2 ^ 31"
      "\<bar>xe_end_tag_size e\<bar> + int (length (doc_bytes (xe_cur_ext e) es)) < 2 ^ 31"
  shows "if doc_pos d + int (length (doc_bytes (xe_cur_ext e) es)) \<le> E
    then \<exists>l g. tok_ready g \<and> xltEncAppend e pe E c d = Some (SML_ERR_OK,
            e\<lparr>xe_end_tag_size := xe_end_tag_size e + sum_list (map ev_open es),
              xe_cur_ext := ext_after (xe_cur_ext e) es, xe_last_ext := l\<rparr>,
            doc_put (doc_bytes (xe_cur_ext e) es) d g)
    else \<exists>n g. tok_ready g \<and> n < length (doc_bytes (xe_cur_ext e) es) \<and> doc_pos d + int n \<le> E \<and>
           xltEncAppend e pe E c d = Some (SML_ERR_XLT_BUF_ERR, e,
             (doc_put (take n (doc_bytes (xe_cur_ext e) es)) d g)\<lparr>doc_pos := doc_pos d\<rparr>)"
proof -
  let ?bs = "doc_bytes (xe_cur_ext e) es"
  have g: "tok_ready (doc_tok d)" using d by (simp add: doc_ready_def)
  from es have blk: "gens (xltEncBlock (pe_tag pe) REQUIRED c SML_WBXML) es"
    using block_gens by (simp add: cmd_spec_def)
  from gens_doc [OF blk d e(2) len(1), of SML_EXT_UNDEFINED] obtain r b where
    b: "xltEncBlock (pe_tag pe) REQUIRED c SML_WBXML (new_buffer d E e SML_EXT_UNDEFINED) = Some (r, b)"
    "doc_result E d ?bs r b" and
    ok: "r = SML_ERR_OK \<Longrightarrow> bm_curExt b = ext_after (xe_cur_ext e) es \<and> bm_endTagSize b = sum_list (map ev_open es)"
    by blast
  have run: "xltEncAppend e pe E c d =
      (if r \<noteq> SML_ERR_OK then Some (r, e, keep_pos b d)
       else do {
         t \<leftarrow> s32 (xe_end_tag_size e + bm_endTagSize b);
         Some (SML_ERR_OK, e\<lparr>xe_end_tag_size := t, xe_cur_ext := bm_curExt b, xe_last_ext := bm_lastExt b\<rparr>,
               (keep_pos b d)\<lparr>doc_pos := bm_pos b\<rparr>)
       })"
    using b(1) e tok_malloc_ready [OF g] getTNbyPE_ready [OF g]
    by (simp add: xltEncAppend_def Let_def new_buffer_def)
  have tok: "tok_ready (bm_tok b)" using b(2) by (simp add: doc_result_def)
  show ?thesis
  proof (cases "doc_pos d + int (length ?bs) \<le> E")
    case True
    with b(2) have r: "r = SML_ERR_OK" "(keep_pos b d)\<lparr>doc_pos := bm_pos b\<rparr> = doc_put ?bs d (bm_tok b)"
      by (simp_all add: doc_result_def)
    have "s32 (xe_end_tag_size e + bm_endTagSize b) = Some (xe_end_tag_size e + bm_endTagSize b)"
      using open_bound [of es "xe_cur_ext e"] len(2) ok [OF r(1)] by (auto simp: s32_def)
    with True r ok [OF r(1)] run tok show ?thesis by auto
  next
    case False
    with b(2) obtain n where "r = SML_ERR_XLT_BUF_ERR" "n < length ?bs" "doc_pos d + int n \<le> E"
      "keep_pos b d = (doc_put (take n ?bs) d (bm_tok b))\<lparr>doc_pos := doc_pos d\<rparr>"
      by (auto simp: doc_result_def)
    moreover from this run have "xltEncAppend e pe E c d = Some (SML_ERR_XLT_BUF_ERR, e,
        (doc_put (take n ?bs) d (bm_tok b))\<lparr>doc_pos := doc_pos d\<rparr>)" by simp
    ultimately have "\<exists>n g. tok_ready g \<and> n < length ?bs \<and> doc_pos d + int n \<le> E \<and>
        xltEncAppend e pe E c d = Some (SML_ERR_XLT_BUF_ERR, e, (doc_put (take n ?bs) d g)\<lparr>doc_pos := doc_pos d\<rparr>)"
      using tok by blast
    with False show ?thesis by (simp only: if_False)
  qed
qed

lemma xltEncAppend_refuses:
  assumes e: "xe_enc e = SML_WBXML" "xe_space_evaluation e = None" and d: "doc_ready E d"
    and c: "cmd_spec (pe, c) = Sp_err n" and room: "E - doc_pos d + int n + 5 < 2 ^ 31"
  shows "\<exists>r d'. xltEncAppend e pe E c d = Some (r, e, d') \<and> r \<noteq> SML_ERR_OK \<and> doc_pos d' = doc_pos d"
proof -
  have g: "tok_ready (doc_tok d)" using d by (simp add: doc_ready_def)
  define b0 where "b0 = new_buffer d E e SML_EXT_UNDEFINED"
  have "fails n (xltEncBlock (pe_tag pe) REQUIRED c SML_WBXML)"
    using c realises_block [of "pe_tag pe" REQUIRED c] by (simp add: cmd_spec_def realises_def)
  moreover have "buf_ok b0" using d e room unfolding b0_def by (intro new_buffer_ok) simp_all
  moreover have "bm_len b0 + int n + 5 < 2 ^ 31" using room by (simp add: b0_def new_buffer_def)
  ultimately obtain r b where "xltEncBlock (pe_tag pe) REQUIRED c SML_WBXML b0 = Some (r, b)" "r \<noteq> SML_ERR_OK"
    unfolding fails_def by blast
  then show ?thesis using e tok_malloc_ready [OF g] getTNbyPE_ready [OF g]
    by (simp add: xltEncAppend_def Let_def new_buffer_def b0_def keep_pos_def)
qed

text \<open>The same command when only its size is asked for.\<close>

lemma xltEncAppend_counts:
  assumes e: "xe_enc e = SML_WBXML" "xe_space_evaluation e = Some ev" and g: "tok_ready (doc_tok d)"
    and es: "cmd_spec (pe, c) = Sp_ok es"
    and len: "0 \<le> ev_written_bytes ev" "\<bar>ev_end_tag_size ev\<bar> \<le> ev_written_bytes ev"
      "ev_written_bytes ev + int (length (doc_bytes (ev_cur_ext ev) es)) + 5 < 2 ^ 31"
  shows "\<exists>l g. tok_ready g \<and> xltEncAppend e pe E c d = Some (SML_ERR_OK,
      e\<lparr>xe_space_evaluation := Some
          \<lparr>ev_written_bytes = ev_written_bytes ev + int (length (doc_bytes (ev_cur_ext ev) es)),
           ev_end_tag_size = ev_end_tag_size ev + sum_list (map ev_open es),
           ev_cur_ext = ext_after (ev_cur_ext ev) es, ev_last_ext = l\<rparr>\<rparr>, d\<lparr>doc_tok := g\<rparr>)"
proof -
  let ?bs = "doc_bytes (ev_cur_ext ev) es"
  define b0 where "b0 = (new_buffer d E e SML_EXT_UNDEFINED)\<lparr>bm_curExt := ev_cur_ext ev, bm_lastExt := ev_last_ext ev\<rparr>"
  have c: "bm_curExt b0 = ev_cur_ext ev" by (simp add: b0_def)
  from es have blk: "gens (xltEncBlock (pe_tag pe) REQUIRED c SML_WBXML) es"
    using block_gens by (simp add: cmd_spec_def)
  have "eval_ok b0" using e g by (simp add: eval_ok_def new_buffer_def b0_def)
  moreover have "count_room b0 (length (doc_bytes (bm_curExt b0) es))"
    using len(1,3) by (simp add: count_room_def new_buffer_def b0_def)
  ultimately have "enc_counts (xltEncBlock (pe_tag pe) REQUIRED c SML_WBXML b0) b0 ?bs
      (ext_after (ev_cur_ext ev) es) (sum_list (map ev_open es))"
    using blk unfolding gens_def writes_def c [symmetric] by blast
  then obtain b where b: "xltEncBlock (pe_tag pe) REQUIRED c SML_WBXML b0 = Some (SML_ERR_OK, b)"
    "bm_written b = int (length ?bs)" "bm_curExt b = ext_after (ev_cur_ext ev) es"
    "bm_endTagSize b = sum_list (map ev_open es)" "tok_ready (bm_tok b)" "bm_mem b = doc_mem d" "bm_pos b = doc_pos d"
    by (auto simp: enc_counts_def eval_ok_def new_buffer_def b0_def)
  have s: "s32 (ev_written_bytes ev + bm_written b) = Some (ev_written_bytes ev + bm_written b)"
    "s32 (ev_end_tag_size ev + bm_endTagSize b) = Some (ev_end_tag_size ev + bm_endTagSize b)"
    using open_bound [of es "ev_cur_ext ev"] len b(2,4) by (auto simp: s32_def)
  have "xltEncAppend e pe E c d = Some (SML_ERR_OK,
      e\<lparr>xe_space_evaluation := Some \<lparr>ev_written_bytes = ev_written_bytes ev + bm_written b,
           ev_end_tag_size = ev_end_tag_size ev + bm_endTagSize b,
           ev_cur_ext = bm_curExt b, ev_last_ext = bm_lastExt b\<rparr>\<rparr>, (keep_pos b d)\<lparr>doc_pos := bm_pos b\<rparr>)"
    using b(1) s e tok_malloc_ready [OF g] getTNbyPE_ready [OF g]
    by (simp add: xltEncAppend_def Let_def new_buffer_def b0_def)
  moreover have "(keep_pos b d)\<lparr>doc_pos := bm_pos b\<rparr> = d\<lparr>doc_tok := bm_tok b\<rparr>"
    using b(6,7) by (simp add: keep_pos_def)
  ultimately show ?thesis using b by auto
qed

end
