(* ===== verification/Encoder_Message.thy ===== *)
theory Encoder_Message
  imports Encoder_Doc
begin

text \<open>
  A whole message: the document is opened with a header, commands are appended, it is closed. What the
  encoder leaves in memory is the specified document, and the scanner reads it back.
\<close>

section \<open>Specification of a message\<close>

type_synonym cmd = "SmlProtoElement \<times> sml_elem option"

fun cmds_spec :: "cmd list \<Rightarrow> spec" where
  "cmds_spec [] = Sp_ok []"
| "cmds_spec (c # cs) = sp_append (cmd_spec c) (cmds_spec cs)"

definition open_spec :: "SmlSyncHdr option \<Rightarrow> spec" where
  "open_spec h =
     sp_append (Sp_ok [Ev_start SML_EXT_UNDEFINED TN_SYNCML])
       (sp_append (block_spec TN_SYNCHDR REQUIRED (map_option El_hdr h))
         (Sp_ok [Ev_start SML_EXT_UNDEFINED TN_SYNCBODY]))"

definition close_events :: "bool \<Rightarrow> wb_event list" where
  "close_events fin = (if fin then [Ev_empty SML_EXT_UNDEFINED TN_FINAL] else []) @ [Ev_end, Ev_end]"

definition message_spec :: "SmlSyncHdr option \<Rightarrow> cmd list \<Rightarrow> bool \<Rightarrow> spec" where
  "message_spec h cs fin = sp_append (open_spec h) (sp_append (cmds_spec cs) (Sp_ok (close_events fin)))"

text \<open>Elements that are opened by one command and closed by a later one.\<close>

fun balanced :: "nat \<Rightarrow> cmd list \<Rightarrow> bool" where
  "balanced n [] \<longleftrightarrow> n = 0"
| "balanced n ((pe, c) # cs) \<longleftrightarrow>
     (if pe \<in> {SML_PE_ATOMIC_START, SML_PE_SEQUENCE_START, SML_PE_SYNC_START} then balanced (Suc n) cs
      else if pe \<in> {SML_PE_ATOMIC_END, SML_PE_SEQUENCE_END, SML_PE_SYNC_END} then 0 < n \<and> balanced (n - 1) cs
      else balanced n cs)"

lemma sp_append_ok: "sp_append p q = Sp_ok es \<longleftrightarrow> (\<exists>as bs. p = Sp_ok as \<and> q = Sp_ok bs \<and> es = as @ bs)"
  by (cases p; cases q) auto

text \<open>What one command does to the open elements.\<close>

lemma nested_of: "implements f p \<Longrightarrow> p = Sp_ok es \<Longrightarrow> nested es"
  by (simp add: implements_def)

lemmas nested_cmds = cmd_realises [THEN nested_of]

lemma known_cmds:
  "TN_ADD \<in> known_tags SML_EXT_UNDEFINED" "TN_COPY \<in> known_tags SML_EXT_UNDEFINED"
  "TN_REPLACE \<in> known_tags SML_EXT_UNDEFINED" "TN_GET \<in> known_tags SML_EXT_UNDEFINED"
  "TN_PUT \<in> known_tags SML_EXT_UNDEFINED" "TN_SOURCE \<in> known_tags SML_EXT_UNDEFINED"
  "TN_TARGET \<in> known_tags SML_EXT_UNDEFINED" "TN_SYNCML \<in> known_tags SML_EXT_UNDEFINED"
  "TN_SYNCBODY \<in> known_tags SML_EXT_UNDEFINED" "TN_FINAL \<in> known_tags SML_EXT_UNDEFINED"
  by (rule known_syncml; simp)+

lemma nested_content:
  assumes "content_spec i ro c = Sp_ok es" "i \<notin> {TN_ATOMIC, TN_SEQUENCE, TN_SYNC}"
  shows "nested es"
proof (cases c)
  case (El_flags f)
  then show ?thesis using assms(1) implements_flag_tag [THEN nested_of] flag_of_tag_known
    by (simp add: content_spec_def split: option.splits) blast
next
  case (El_pcdata p)
  then show ?thesis using assms(1) implements_data [THEN nested_of]
    by (simp add: content_spec_def split: if_splits) blast
next
  case (El_generic x)
  then show ?thesis using assms(1) implements_generic [THEN nested_of] implements_delete [THEN nested_of] known_cmds
    by (auto simp: content_spec_def split: if_splits)
next
  case (El_getput x)
  then show ?thesis using assms(1) implements_getput [THEN nested_of] known_cmds
    by (auto simp: content_spec_def split: if_splits)
next
  case (El_target x)
  then show ?thesis using assms(1) implements_target [THEN nested_of] known_cmds
    by (auto simp: content_spec_def split: if_splits)
qed (use assms nested_cmds in \<open>simp_all add: content_spec_def split: if_splits\<close>)

lemma sp_open_shape:
  assumes "\<forall>p \<in> set ps. \<forall>es. p = Sp_ok es \<longrightarrow> nested es" "sp_open i ps = Sp_ok es"
  shows "\<exists>fs. es = Ev_start SML_EXT_UNDEFINED i # fs \<and> nested fs"
proof -
  have "\<forall>p \<in> set ps. \<forall>es. p = Sp_ok es \<longrightarrow> nested es \<Longrightarrow> sp_seq ps = Sp_ok fs \<Longrightarrow> nested fs" for fs
    by (induction ps arbitrary: fs) (auto simp: sp_seq_def sp_append_ok nested_nil intro: nested_append)
  with assms show ?thesis by (auto simp: sp_open_def split: spec.splits)
qed

lemma nested_data: "el_data i ro p = Sp_ok es \<Longrightarrow> i \<in> known_tags SML_EXT_UNDEFINED \<Longrightarrow> nested es"
  by (rule nested_of [OF implements_data])

lemma nested_flag: "el_flag i m f = Sp_ok es \<Longrightarrow> i \<in> known_tags SML_EXT_UNDEFINED \<Longrightarrow> nested es"
  by (rule nested_of [OF implements_flag_tag])

lemma nested_elem:
  "sp_elem ro p f = Sp_ok es \<Longrightarrow> (\<And>x. f x = Sp_ok es \<Longrightarrow> nested es) \<Longrightarrow> nested es"
  by (cases p) (auto simp: sp_elem_def nested_nil split: if_splits)

lemma nested_cred: "el_cred c = Sp_ok es \<Longrightarrow> nested es"
  by (rule nested_of [OF implements_cred])

lemma nested_target: "el_target i t = Sp_ok es \<Longrightarrow> i \<in> known_tags SML_EXT_UNDEFINED \<Longrightarrow> nested es"
  by (rule nested_of [OF implements_target])

lemmas nested_parts = nested_data nested_flag nested_cred nested_target nested_elem

lemma known_parts:
  "TN_CMDID \<in> known_tags SML_EXT_UNDEFINED" "TN_NORESP \<in> known_tags SML_EXT_UNDEFINED"
  "TN_META \<in> known_tags SML_EXT_UNDEFINED" "TN_NUMBEROFCHANGES \<in> known_tags SML_EXT_UNDEFINED"
  by (rule known_syncml; simp)+

lemma open_content:
  assumes "content_spec i ro c = Sp_ok es" "i \<in> {TN_ATOMIC, TN_SEQUENCE, TN_SYNC}"
  shows "\<exists>fs. es = Ev_start SML_EXT_UNDEFINED i # fs \<and> nested fs"
proof -
  have a: "el_atomic i x = Sp_ok es \<Longrightarrow> ?thesis" for x
    unfolding el_atomic_def
    by (erule sp_open_shape [rotated]) (auto elim!: nested_parts simp: known_parts)
  have s: "el_sync x = Sp_ok es \<Longrightarrow> i = TN_SYNC \<Longrightarrow> ?thesis" for x
    unfolding el_sync_def
    by (simp, erule sp_open_shape [rotated]) (auto elim!: nested_parts simp: known_parts known_cmds)
  show ?thesis using assms a s
    by (cases c) (auto simp: content_spec_def flag_of_tag_def struct_tags_def split: if_splits)
qed


definition starts :: "SmlProtoElement set" where
  "starts = {SML_PE_ATOMIC_START, SML_PE_SEQUENCE_START, SML_PE_SYNC_START}"

definition ends :: "SmlProtoElement set" where
  "ends = {SML_PE_ATOMIC_END, SML_PE_SEQUENCE_END, SML_PE_SYNC_END}"

lemma pe_tag_kind:
  "pe \<in> starts \<longleftrightarrow> pe_tag pe \<in> {TN_ATOMIC, TN_SEQUENCE, TN_SYNC}"
  "pe \<in> ends \<longleftrightarrow> end_tag_of (pe_tag pe) \<noteq> None"
  by (cases pe; simp add: starts_def ends_def pe_tag_def getPEEncTable_def end_tag_of_def)+

lemma cmd_shape:
  assumes "cmd_spec (pe, c) = Sp_ok es"
  shows "if pe \<in> starts then \<exists>i fs. es = Ev_start SML_EXT_UNDEFINED i # fs \<and> nested fs
         else if pe \<in> ends then es = [Ev_end] else nested es"
proof (cases "pe \<in> ends")
  case True
  then have "pe \<notin> starts" by (auto simp: starts_def ends_def)
  with True assms show ?thesis by (auto simp: cmd_spec_def block_spec_def pe_tag_kind)
next
  case False
  with assms obtain x where x: "content_spec (pe_tag pe) REQUIRED x = Sp_ok es"
    by (auto simp: cmd_spec_def block_spec_def pe_tag_kind sp_elem_def split: option.splits)
  show ?thesis
  proof (cases "pe \<in> starts")
    case True
    then show ?thesis using open_content [OF x] pe_tag_kind(1) by auto
  next
    case False
    then have "pe_tag pe \<notin> {TN_ATOMIC, TN_SEQUENCE, TN_SYNC}" using pe_tag_kind(1) by blast
    from nested_content [OF x this] False \<open>pe \<notin> ends\<close> show ?thesis by simp
  qed
qed

lemma balanced_kind:
  "balanced n ((pe, c) # cs) \<longleftrightarrow>
     (if pe \<in> starts then balanced (Suc n) cs else if pe \<in> ends then 0 < n \<and> balanced (n - 1) cs else balanced n cs)"
  by (simp add: starts_def ends_def)

lemma cmds_stack:
  assumes "cmds_spec cs = Sp_ok es" "balanced n cs" "n \<le> length st"
  shows "stack_after es st = Some (drop n st)"
  using assms
proof (induction cs arbitrary: n es st)
  case (Cons x cs)
  obtain pe c where x: "x = (pe, c)" by (cases x)
  from Cons.prems(1) obtain as bs where es: "cmd_spec (pe, c) = Sp_ok as" "cmds_spec cs = Sp_ok bs" "es = as @ bs"
    by (auto simp: x sp_append_ok)
  note shape = cmd_shape [OF es(1)] and b = Cons.prems(2) [unfolded x balanced_kind]
  consider "pe \<in> starts" | "pe \<notin> starts" "pe \<in> ends" | "pe \<notin> starts" "pe \<notin> ends" by blast
  then show ?case
  proof cases
    case 1
    with shape obtain i fs where "as = Ev_start SML_EXT_UNDEFINED i # fs" "nested fs" by auto
    with Cons.IH [OF es(2), of "Suc n" "i # st"] 1 b Cons.prems(3) show ?thesis
      by (simp add: es(3) stack_after_append nested_stack)
  next
    case 2
    with shape b have "as = [Ev_end]" "0 < n" "balanced (n - 1) cs" by auto
    moreover obtain y ys where "st = y # ys" using Cons.prems(3) \<open>0 < n\<close> by (cases st) auto
    ultimately show ?thesis using Cons.IH [OF es(2), of "n - 1" ys] Cons.prems(3)
      by (cases n) (simp_all add: es(3))
  next
    case 3
    with shape b have "nested as" "balanced n cs" by auto
    with Cons.IH [OF es(2) _ Cons.prems(3)] show ?thesis by (simp add: es(3) stack_after_append nested_stack)
  qed
qed (simp add: drop_0)

lemma message_stack:
  assumes "message_spec h cs fin = Sp_ok es" "balanced 0 cs"
  shows "stack_after es [] = Some []"
proof -
  from assms(1) obtain hs bs where es: "block_spec TN_SYNCHDR REQUIRED (map_option El_hdr h) = Sp_ok hs"
    "cmds_spec cs = Sp_ok bs"
    "es = Ev_start SML_EXT_UNDEFINED TN_SYNCML # hs @ Ev_start SML_EXT_UNDEFINED TN_SYNCBODY # bs @ close_events fin"
    by (auto simp: message_spec_def open_spec_def sp_append_ok)
  from es(1) have "nested hs"
    by (cases h) (auto simp: block_spec_def end_tag_of_def sp_elem_def content_spec_def intro: nested_of [OF implements_hdr])
  with cmds_stack [OF es(2) assms(2)] show ?thesis
    by (simp add: es(3) stack_after_append nested_stack close_events_def)
qed

section \<open>Writing a message\<close>

fun append_all :: "XltEncoder \<Rightarrow> cmd list \<Rightarrow> int \<Rightarrow> Doc \<Rightarrow> (ret \<times> XltEncoder \<times> Doc) option" where
  "append_all e [] pBufEnd d = Some (SML_ERR_OK, e, d)"
| "append_all e ((pe, c) # cs) pBufEnd d = do {
     (r, e, d) \<leftarrow> xltEncAppend e pe pBufEnd c d;
     if r \<noteq> SML_ERR_OK then Some (r, e, d) else append_all e cs pBufEnd d
   }"

definition encode_message ::
    "SmlSyncHdr option \<Rightarrow> SmlVersion \<Rightarrow> cmd list \<Rightarrow> bool \<Rightarrow> int \<Rightarrow> Doc \<Rightarrow> (ret \<times> Doc) option" where
  "encode_message h v cs fin pBufEnd d = do {
     (r, e, d) \<leftarrow> xltEncInit SML_WBXML h pBufEnd v d;
     case e of
       None \<Rightarrow> Some (r, d)
     | Some e \<Rightarrow> do {
         (r, e, d) \<leftarrow> append_all e cs pBufEnd d;
         if r \<noteq> SML_ERR_OK then Some (r, d) else xltEncTerminate (e\<lparr>xe_final := fin\<rparr>) pBufEnd d
       }
   }"

text \<open>The bytes are in the document, or a prefix of them is and the buffer was too small.\<close>

definition docs :: "int \<Rightarrow> Doc \<Rightarrow> byte list \<Rightarrow> ret \<Rightarrow> Doc \<Rightarrow> bool" where
  "docs E d bs r d' \<longleftrightarrow> tok_ready (doc_tok d') \<and>
     (if doc_pos d + int (length bs) \<le> E then r = SML_ERR_OK \<and> d' = doc_put bs d (doc_tok d')
      else r = SML_ERR_XLT_BUF_ERR \<and>
        (\<exists>n < length bs. doc_pos d + int n \<le> E \<and> doc_mem d' = doc_mem (doc_put (take n bs) d (doc_tok d))))"

lemma doc_put_mem: "doc_mem (doc_put bs d g) = doc_mem (doc_put bs d g')"
  by (simp add: doc_put_def)

lemma docs_then:
  assumes d: "doc_ready E d" and x: "docs E d xs SML_ERR_OK d1" and y: "docs E d1 ys r d2"
  shows "docs E d (xs @ ys) r d2"
proof -
  from x have p: "doc_pos d + int (length xs) \<le> E" "d1 = doc_put xs d (doc_tok d1)"
    by (auto simp: docs_def split: if_splits)
  have pos: "doc_pos d1 = doc_pos d + int (length xs)" by (subst p(2)) (simp add: doc_put_def)
  show ?thesis
  proof (cases "doc_pos d1 + int (length ys) \<le> E")
    case True
    with y have "r = SML_ERR_OK" "d2 = doc_put ys d1 (doc_tok d2)" "tok_ready (doc_tok d2)" by (auto simp: docs_def)
    moreover have "doc_put ys (doc_put xs d (doc_tok d1)) (doc_tok d2) = doc_put (xs @ ys) d (doc_tok d2)"
      using True pos by (intro doc_put_put [OF d]) simp
    ultimately show ?thesis using True pos p(2) by (simp add: docs_def add.assoc)
  next
    case False
    with y obtain n where n: "r = SML_ERR_XLT_BUF_ERR" "n < length ys" "doc_pos d1 + int n \<le> E"
      "doc_mem d2 = doc_mem (doc_put (take n ys) d1 (doc_tok d1))" "tok_ready (doc_tok d2)" by (auto simp: docs_def)
    have "doc_put (take n ys) (doc_put xs d (doc_tok d1)) (doc_tok d) = doc_put (xs @ take n ys) d (doc_tok d)"
      using n(2,3) pos by (intro doc_put_put [OF d]) simp
    then have "doc_mem d2 = doc_mem (doc_put (take (length xs + n) (xs @ ys)) d (doc_tok d))"
      using n(4) p(2) doc_put_mem by (metis append_take_drop_id take_append take_all le_add1 add_diff_cancel_left')
    moreover have "length xs + n < length (xs @ ys)" "doc_pos d + int (length xs + n) \<le> E"
      using n(2,3) pos by simp_all
    ultimately have "\<exists>m < length (xs @ ys). doc_pos d + int m \<le> E \<and>
        doc_mem d2 = doc_mem (doc_put (take m (xs @ ys)) d (doc_tok d))" by blast
    moreover have "\<not> doc_pos d + int (length (xs @ ys)) \<le> E" using False pos by simp
    ultimately show ?thesis using n(1,5) unfolding docs_def by (simp only: if_False)
  qed
qed

lemma docs_err: "docs E d xs r d1 \<Longrightarrow> r \<noteq> SML_ERR_OK \<Longrightarrow> docs E d (xs @ ys) r d1"
proof -
  assume x: "docs E d xs r d1" "r \<noteq> SML_ERR_OK"
  then obtain n where n: "r = SML_ERR_XLT_BUF_ERR" "n < length xs" "doc_pos d + int n \<le> E" "tok_ready (doc_tok d1)"
    "doc_mem d1 = doc_mem (doc_put (take n xs) d (doc_tok d))" "\<not> doc_pos d + int (length xs) \<le> E"
    by (auto simp: docs_def split: if_splits)
  then have "\<exists>m < length (xs @ ys). doc_pos d + int m \<le> E \<and>
      doc_mem d1 = doc_mem (doc_put (take m (xs @ ys)) d (doc_tok d))" by (intro exI [of _ n]) simp
  with n show ?thesis unfolding docs_def by simp
qed

lemma docs_nil: "doc_ready E d \<Longrightarrow> docs E d [] SML_ERR_OK d"
  by (simp add: docs_def doc_ready_def doc_put_def)

lemma docs_ready: "docs E d bs SML_ERR_OK d' \<Longrightarrow> doc_ready E d \<Longrightarrow> doc_ready E d'"
  using doc_put_ready [of E d bs "doc_tok d'"] by (auto simp: docs_def split: if_splits)

lemma docs_pos: "docs E d bs SML_ERR_OK d' \<Longrightarrow> doc_pos d' = doc_pos d + int (length bs) \<and> doc_pos d' \<le> E"
proof -
  assume "docs E d bs SML_ERR_OK d'"
  then have "d' = doc_put bs d (doc_tok d')" "doc_pos d + int (length bs) \<le> E" by (auto simp: docs_def split: if_splits)
  then show ?thesis by (metis (no_types) doc_put_def Doc.select_convs(2) Doc.surjective Doc.update_convs)
qed

definition appended :: "int \<Rightarrow> XltEncoder \<Rightarrow> Doc \<Rightarrow> wb_event list \<Rightarrow> ret \<Rightarrow> XltEncoder \<Rightarrow> Doc \<Rightarrow> bool" where
  "appended E e d es r e' d' \<longleftrightarrow> docs E d (doc_bytes (xe_cur_ext e) es) r d' \<and>
     (r = SML_ERR_OK \<longrightarrow> (\<exists>l. e' = e\<lparr>xe_end_tag_size := xe_end_tag_size e + sum_list (map ev_open es),
        xe_cur_ext := ext_after (xe_cur_ext e) es, xe_last_ext := l\<rparr>))"

lemma append_one:
  assumes "xe_enc e = SML_WBXML" "xe_space_evaluation e = None" "doc_ready E d" "cmd_spec (pe, c) = Sp_ok es"
    "E - doc_pos d + int (length (doc_bytes (xe_cur_ext e) es)) + 5 < 2 ^ 31"
    "\<bar>xe_end_tag_size e\<bar> + int (length (doc_bytes (xe_cur_ext e) es)) < 2 ^ 31"
  shows "\<exists>r e' d'. xltEncAppend e pe E c d = Some (r, e', d') \<and> appended E e d es r e' d'"
proof (cases "doc_pos d + int (length (doc_bytes (xe_cur_ext e) es)) \<le> E")
  case True
  with xltEncAppend_writes [OF assms] obtain l g where "tok_ready g"
    "xltEncAppend e pe E c d = Some (SML_ERR_OK,
       e\<lparr>xe_end_tag_size := xe_end_tag_size e + sum_list (map ev_open es),
         xe_cur_ext := ext_after (xe_cur_ext e) es, xe_last_ext := l\<rparr>,
       doc_put (doc_bytes (xe_cur_ext e) es) d g)" by (auto simp only: if_True)
  moreover have "doc_tok (doc_put (doc_bytes (xe_cur_ext e) es) d g) = g" by (simp add: doc_put_def)
  ultimately show ?thesis using True by (auto simp: appended_def docs_def)
next
  case False
  let ?bs = "doc_bytes (xe_cur_ext e) es"
  from False xltEncAppend_writes [OF assms] obtain n g where n: "tok_ready g" "n < length ?bs" "doc_pos d + int n \<le> E"
    "xltEncAppend e pe E c d = Some (SML_ERR_XLT_BUF_ERR, e, (doc_put (take n ?bs) d g)\<lparr>doc_pos := doc_pos d\<rparr>)"
    by (auto simp only: if_False)
  have m: "\<exists>m < length ?bs. doc_pos d + int m \<le> E \<and>
      doc_mem ((doc_put (take n ?bs) d g)\<lparr>doc_pos := doc_pos d\<rparr>) = doc_mem (doc_put (take m ?bs) d (doc_tok d))"
    using n(2,3) by (intro exI [of _ n]) (simp add: doc_put_def)
  have "docs E d ?bs SML_ERR_XLT_BUF_ERR ((doc_put (take n ?bs) d g)\<lparr>doc_pos := doc_pos d\<rparr>)"
    using False m n(1) unfolding docs_def by (simp add: doc_put_def)
  with n(4) show ?thesis by (auto simp: appended_def)
qed

lemma append_all_writes:
  assumes "xe_enc e = SML_WBXML" "xe_space_evaluation e = None" "doc_ready E d" "cmds_spec cs = Sp_ok es"
    "E - doc_pos d + int (length (doc_bytes (xe_cur_ext e) es)) + 5 < 2 ^ 31"
    "\<bar>xe_end_tag_size e\<bar> + int (length (doc_bytes (xe_cur_ext e) es)) < 2 ^ 31"
  shows "\<exists>r e' d'. append_all e cs E d = Some (r, e', d') \<and> appended E e d es r e' d'"
  using assms
proof (induction cs arbitrary: e d es)
  case Nil
  then show ?case by (auto simp: appended_def docs_nil intro!: exI [of _ "xe_last_ext e"])
next
  case (Cons x cs)
  obtain pe c where x: "x = (pe, c)" by (cases x)
  from Cons.prems(4) obtain as bs where es: "cmd_spec (pe, c) = Sp_ok as" "cmds_spec cs = Sp_ok bs" "es = as @ bs"
    by (auto simp: x sp_append_ok)
  let ?xs = "doc_bytes (xe_cur_ext e) as" and ?cur = "ext_after (xe_cur_ext e) as"
  have bytes: "doc_bytes (xe_cur_ext e) es = ?xs @ doc_bytes ?cur bs" by (simp add: es(3) doc_bytes_append)
  obtain r e1 d1 where one: "xltEncAppend e pe E c d = Some (r, e1, d1)" "appended E e d as r e1 d1"
    using append_one [OF Cons.prems(1-3) es(1)] Cons.prems(5,6) unfolding bytes by auto
  show ?case
  proof (cases "r = SML_ERR_OK")
    case False
    with one have "docs E d (doc_bytes (xe_cur_ext e) es) r d1" unfolding bytes by (intro docs_err) (simp_all add: appended_def)
    with one False show ?thesis by (simp add: x appended_def)
  next
    case True
    with one(2) obtain l where d1: "docs E d ?xs SML_ERR_OK d1" and
      e1: "e1 = e\<lparr>xe_end_tag_size := xe_end_tag_size e + sum_list (map ev_open as), xe_cur_ext := ?cur, xe_last_ext := l\<rparr>"
      by (auto simp: appended_def)
    have room: "E - doc_pos d1 + int (length (doc_bytes ?cur bs)) + 5 < 2 ^ 31"
      "\<bar>xe_end_tag_size e + sum_list (map ev_open as)\<bar> + int (length (doc_bytes ?cur bs)) < 2 ^ 31"
      using Cons.prems(5,6) docs_pos [OF d1] open_bound [of as "xe_cur_ext e"] unfolding bytes by simp_all
    obtain r' e' d' where rest: "append_all e1 cs E d1 = Some (r', e', d')" "appended E e1 d1 bs r' e' d'"
      using Cons.IH [of e1 d1 bs] Cons.prems(1,2) docs_ready [OF d1 Cons.prems(3)] es(2) room by (auto simp: e1)
    have "docs E d (doc_bytes (xe_cur_ext e) es) r' d'"
      using docs_then [OF Cons.prems(3) d1] rest(2) unfolding bytes by (simp add: appended_def e1)
    moreover have "r' = SML_ERR_OK \<longrightarrow> (\<exists>l. e' = e\<lparr>xe_end_tag_size := xe_end_tag_size e + sum_list (map ev_open es),
        xe_cur_ext := ext_after (xe_cur_ext e) es, xe_last_ext := l\<rparr>)"
      using rest(2) by (auto simp: appended_def e1 es(3) ext_after_append add.assoc)
    ultimately show ?thesis using rest(1) one(1) True by (simp add: x appended_def)
  qed
qed

section \<open>Opening and closing the document\<close>

lemma enc_seq_bytes:
  assumes "buf_ok b" "bm_len b + int (length (concat bss)) < 2 ^ 31"
  shows "enc_emits (enc_seq (map add_bytes bss) b) b (concat bss) (bm_curExt b) 0"
  using assms
proof (induction bss arbitrary: b)
  case (Cons bs bss)
  have one: "enc_emits (add_bytes bs b) b bs (bm_curExt b) 0"
    using Cons.prems by (intro add_bytes_emits) simp_all
  have rest: "enc_emits (enc_seq (map add_bytes bss) b1) b1 (concat bss) (bm_curExt b) 0"
    if "buf_ok b1" "bm_curExt b1 = bm_curExt b" "bm_len b1 = bm_len b" for b1
    using Cons.IH [OF that(1)] that(2,3) Cons.prems(2) by simp
  have "enc_emits (enc_then (add_bytes bs b) (enc_seq (map add_bytes bss))) b (bs @ concat bss) (bm_curExt b) (0 + 0)"
    by (rule enc_emits_then [OF Cons.prems(1) one]) (rule rest)
  then show ?case by simp
qed (simp add: enc_emits_ok)

lemma enc_prolog_emits:
  assumes "buf_ok b" "bm_len b + int (length fpi) + 5 < 2 ^ 31"
  shows "enc_emits (enc_prolog SML_WBXML fpi b) b (doc_header fpi) (bm_curExt b) 0"
proof -
  let ?bss = "[[XLT_WBXMLVER], [XLT_PUBIDENT1], [XLT_PUBIDENT2], [XLT_CHARSET], [XLT_STABLEN], fpi]"
  have "write_byte c = add_bytes [c]" for c by (simp add: fun_eq_iff write_byte_def wbxmlWriteTypeToBuffer_def add_bytes_def)
  then have "enc_prolog SML_WBXML fpi = enc_seq (map add_bytes ?bss)" by (simp add: enc_prolog_def)
  with enc_seq_bytes [OF assms(1), of ?bss] assms(2) show ?thesis by (simp add: doc_header_def)
qed

definition new_encoder :: "SmlVersion \<Rightarrow> XltEncoder" where
  "new_encoder v = \<lparr>xe_enc = SML_WBXML, xe_vers = v, xe_cur_ext = SML_EXT_UNDEFINED, xe_last_ext = SML_EXT_UNDEFINED,
     xe_final = False, xe_space_evaluation = None, xe_end_tag_size = 0\<rparr>"

lemma gens_open:
  assumes "open_spec h = Sp_ok es"
  shows "gens (enc_seq [tag_beg SML_WBXML TN_SYNCML, xltEncBlock TN_SYNCHDR REQUIRED (map_option El_hdr h) SML_WBXML,
                        tag_beg SML_WBXML TN_SYNCBODY]) es"
proof -
  from assms obtain hs where hs: "block_spec TN_SYNCHDR REQUIRED (map_option El_hdr h) = Sp_ok hs"
    "es = [Ev_start SML_EXT_UNDEFINED TN_SYNCML] @ hs @ [Ev_start SML_EXT_UNDEFINED TN_SYNCBODY]"
    by (auto simp: open_spec_def sp_append_ok)
  have "enc_seq [] = (\<lambda>b. Some (SML_ERR_OK, b))" by (simp add: fun_eq_iff)
  with gens_nil have "gens (enc_seq []) []" by simp
  then have "gens (enc_seq [tag_beg SML_WBXML TN_SYNCBODY]) ([Ev_start SML_EXT_UNDEFINED TN_SYNCBODY] @ [])"
    unfolding enc_seq_Cons by (intro gens_then gens_start) (simp_all add: known_cmds)
  then show ?thesis unfolding enc_seq_Cons hs(2)
    using block_gens [OF hs(1)] known_cmds by (intro gens_then gens_start) simp_all
qed

lemma doc_result_docs:
  assumes "doc_result E d bs r b"
  shows "docs E d bs r (if r = SML_ERR_OK then (keep_pos b d)\<lparr>doc_pos := bm_pos b\<rparr> else keep_pos b d)"
proof (cases "doc_pos d + int (length bs) \<le> E")
  case True
  with assms show ?thesis by (simp add: doc_result_def docs_def) (simp add: doc_put_def)
next
  case False
  with assms obtain n where n: "r = SML_ERR_XLT_BUF_ERR" "n < length bs" "doc_pos d + int n \<le> E" "tok_ready (bm_tok b)"
    "keep_pos b d = (doc_put (take n bs) d (bm_tok b))\<lparr>doc_pos := doc_pos d\<rparr>"
    by (auto simp: doc_result_def)
  have "\<exists>m < length bs. doc_pos d + int m \<le> E \<and> doc_mem (keep_pos b d) = doc_mem (doc_put (take m bs) d (doc_tok d))"
    using n(2,3) by (intro exI [of _ n]) (simp add: n(5) doc_put_def)
  with False n(1,4) show ?thesis unfolding docs_def by (simp add: keep_pos_def)
qed

lemma xltEncInit_writes:
  assumes v: "syncml_fpi v = Some fpi" and d: "doc_ready E d" and es: "open_spec h = Sp_ok es"
    and len: "E - doc_pos d + int (length (doc_header fpi @ doc_bytes SML_EXT_UNDEFINED es)) + 5 < 2 ^ 31"
  shows "\<exists>r e d'. xltEncInit SML_WBXML h E v d = Some (r, e, d') \<and>
     docs E d (doc_header fpi @ doc_bytes SML_EXT_UNDEFINED es) r d' \<and>
     (if r = SML_ERR_OK
      then \<exists>l. e = Some ((new_encoder v)\<lparr>xe_cur_ext := ext_after SML_EXT_UNDEFINED es, xe_last_ext := l,
             xe_end_tag_size := sum_list (map ev_open es)\<rparr>)
      else e = None)"
proof -
  let ?bs = "doc_bytes SML_EXT_UNDEFINED es" and ?cur = "ext_after SML_EXT_UNDEFINED es"
  define b0 where "b0 = new_buffer d E (new_encoder v) SML_EXT_UNDEFINED"
  let ?fs = "[tag_beg SML_WBXML TN_SYNCML, xltEncBlock TN_SYNCHDR REQUIRED (map_option El_hdr h) SML_WBXML,
      tag_beg SML_WBXML TN_SYNCBODY]"
  have b0: "buf_ok b0" "bm_curExt b0 = SML_EXT_UNDEFINED" "bm_len b0 = E - doc_pos d"
    using d len unfolding b0_def by (intro new_buffer_ok) (simp_all add: new_encoder_def, simp_all add: new_buffer_def)
  have p: "enc_emits (enc_prolog SML_WBXML fpi b0) b0 (doc_header fpi) SML_EXT_UNDEFINED 0"
    using enc_prolog_emits [OF b0(1), of fpi] b0(2,3) len by (simp add: doc_header_def)
  have k: "enc_emits (enc_seq ?fs b1) b1 ?bs ?cur (sum_list (map ev_open es))"
    if "buf_ok b1" "bm_curExt b1 = SML_EXT_UNDEFINED" "bm_len b1 = bm_len b0" for b1
  proof -
    have "write_room b1 (length (doc_bytes (bm_curExt b1) es))" using that len by (simp add: write_room_def b0(3))
    with gens_open [OF es] that(1) have "enc_emits (enc_seq ?fs b1) b1 (doc_bytes (bm_curExt b1) es)
        (ext_after (bm_curExt b1) es) (sum_list (map ev_open es))"
      unfolding gens_def writes_def by blast
    with that(2) show ?thesis by simp
  qed
  have "enc_emits (enc_then (enc_prolog SML_WBXML fpi b0) (enc_seq ?fs)) b0
      (doc_header fpi @ ?bs) ?cur (0 + sum_list (map ev_open es))"
    by (rule enc_emits_then [OF b0(1) p]) (rule k)
  then have "enc_emits (enc_seq (enc_prolog SML_WBXML fpi # ?fs) b0) b0 (doc_header fpi @ ?bs) ?cur
      (sum_list (map ev_open es))" unfolding enc_seq_Cons [of "enc_prolog SML_WBXML fpi"] add_0 .
  from enc_emits_doc [OF this [unfolded b0_def] d] obtain r b where
    run: "enc_seq (enc_prolog SML_WBXML fpi # ?fs) (new_buffer d E (new_encoder v) SML_EXT_UNDEFINED) = Some (r, b)" and
    res: "doc_result E d (doc_header fpi @ ?bs) r b" and
    ok: "r = SML_ERR_OK \<longrightarrow> bm_curExt b = ?cur \<and> bm_endTagSize b = sum_list (map ev_open es)" by auto
  have g: "tok_malloc (doc_tok d) = (True, doc_tok d)" using d by (intro tok_malloc_ready) (simp add: doc_ready_def)
  have "xltEncInit SML_WBXML h E v d = Some (if r \<noteq> SML_ERR_OK then (r, None, keep_pos b d)
      else (SML_ERR_OK, Some ((new_encoder v)\<lparr>xe_cur_ext := bm_curExt b, xe_last_ext := bm_lastExt b,
              xe_end_tag_size := bm_endTagSize b\<rparr>), (keep_pos b d)\<lparr>doc_pos := bm_pos b\<rparr>))"
    using run unfolding xltEncInit_def new_encoder_def by (simp add: v g Let_def del: enc_seq.simps)
  with doc_result_docs [OF res] ok show ?thesis by auto
qed

lemma gens_close:
  "gens (enc_seq ((if fin then [xltGenerateTag TN_FINAL TT_ALL SML_WBXML SML_EXT_UNDEFINED] else []) @
           [tag_end SML_WBXML TN_SYNCBODY, tag_end SML_WBXML TN_SYNCML])) (close_events fin)"
proof -
  have "enc_seq [] = (\<lambda>b. Some (SML_ERR_OK, b))" by (simp add: fun_eq_iff)
  with gens_nil have nil: "gens (enc_seq []) []" by simp
  have "gens (enc_seq [tag_end SML_WBXML TN_SYNCBODY, tag_end SML_WBXML TN_SYNCML]) ([Ev_end] @ [Ev_end] @ [])"
    unfolding enc_seq_Cons by (intro gens_then gens_end nil)
  moreover from this gens_empty [OF known_cmds(10)] have
    "gens (enc_seq [xltGenerateTag TN_FINAL TT_ALL SML_WBXML SML_EXT_UNDEFINED, tag_end SML_WBXML TN_SYNCBODY,
        tag_end SML_WBXML TN_SYNCML]) ([Ev_empty SML_EXT_UNDEFINED TN_FINAL] @ [Ev_end] @ [Ev_end] @ [])"
    unfolding enc_seq_Cons [of "xltGenerateTag TN_FINAL TT_ALL SML_WBXML SML_EXT_UNDEFINED"] by (intro gens_then)
  ultimately show ?thesis by (simp add: close_events_def del: enc_seq.simps)
qed

lemma xltEncTerminate_writes:
  assumes e: "xe_enc e = SML_WBXML" "xe_space_evaluation e = None" and d: "doc_ready E d"
    and len: "E - doc_pos d + int (length (doc_bytes (xe_cur_ext e) (close_events (xe_final e)))) + 5 < 2 ^ 31"
  shows "\<exists>r d'. xltEncTerminate e E d = Some (r, d') \<and> docs E d (doc_bytes (xe_cur_ext e) (close_events (xe_final e))) r d'"
proof -
  define f where "f = enc_seq ((if xe_final e then [xltGenerateTag TN_FINAL TT_ALL SML_WBXML SML_EXT_UNDEFINED] else []) @
           [tag_end SML_WBXML TN_SYNCBODY, tag_end SML_WBXML TN_SYNCML])"
  have "gens f (close_events (xe_final e))" unfolding f_def by (rule gens_close)
  from gens_doc [OF this d e(2) len, of "xe_cur_ext e"] obtain r b where
    run: "f (new_buffer d E e (xe_cur_ext e)) = Some (r, b)" and
    res: "doc_result E d (doc_bytes (xe_cur_ext e) (close_events (xe_final e))) r b" by blast
  have g: "tok_malloc (doc_tok d) = (True, doc_tok d)" using d by (intro tok_malloc_ready) (simp add: doc_ready_def)
  have id: "d\<lparr>doc_tok := doc_tok d\<rparr> = d" by simp
  have "xltEncTerminate e E d =
      Some (r, if r = SML_ERR_OK then (keep_pos b d)\<lparr>doc_pos := bm_pos b\<rparr> else keep_pos b d)"
    unfolding xltEncTerminate_def g Let_def e(1) prod.case id f_def [symmetric] run by simp
  with doc_result_docs [OF res] show ?thesis by blast
qed

section \<open>The whole message\<close>

definition message_bytes :: "byte list \<Rightarrow> wb_event list \<Rightarrow> byte list" where
  "message_bytes fpi es = doc_header fpi @ doc_bytes SML_EXT_UNDEFINED es"

lemma encode_message_writes:
  assumes v: "syncml_fpi v = Some fpi" and d: "doc_ready E d" and es: "message_spec h cs fin = Sp_ok es"
    and len: "E - doc_pos d + int (length (message_bytes fpi es)) + 5 < 2 ^ 31"
  shows "\<exists>r d'. encode_message h v cs fin E d = Some (r, d') \<and> docs E d (message_bytes fpi es) r d'"
proof -
  from es obtain hs bs where p: "open_spec h = Sp_ok hs" "cmds_spec cs = Sp_ok bs" "es = hs @ bs @ close_events fin"
    by (auto simp: message_spec_def sp_append_ok)
  let ?c1 = "ext_after SML_EXT_UNDEFINED hs"
  let ?x = "doc_header fpi @ doc_bytes SML_EXT_UNDEFINED hs" and ?y = "doc_bytes ?c1 bs"
  let ?c2 = "ext_after ?c1 bs"
  let ?z = "doc_bytes ?c2 (close_events fin)"
  have bytes: "message_bytes fpi es = ?x @ ?y @ ?z" by (simp add: message_bytes_def p(3) doc_bytes_append)
  have n: "E - doc_pos d + int (length ?x) + int (length ?y) + int (length ?z) + 5 < 2 ^ 31" "0 \<le> E - doc_pos d"
    using len d unfolding bytes by (simp_all add: doc_ready_def)
  from xltEncInit_writes [OF v d p(1)] n obtain r e d1 where
    i: "xltEncInit SML_WBXML h E v d = Some (r, e, d1)" "docs E d ?x r d1"
    "if r = SML_ERR_OK then \<exists>l. e = Some ((new_encoder v)\<lparr>xe_cur_ext := ?c1, xe_last_ext := l,
             xe_end_tag_size := sum_list (map ev_open hs)\<rparr>) else e = None" by auto
  show ?thesis
  proof (cases "r = SML_ERR_OK")
    case False
    with i docs_err [OF i(2)] show ?thesis unfolding bytes by (simp add: encode_message_def)
  next
    case True
    with i(2,3) obtain l where x: "docs E d ?x SML_ERR_OK d1" and e: "e = Some ((new_encoder v)\<lparr>xe_cur_ext := ?c1,
        xe_last_ext := l, xe_end_tag_size := sum_list (map ev_open hs)\<rparr>)" by auto
    define e1 where "e1 = (new_encoder v)\<lparr>xe_cur_ext := ?c1, xe_last_ext := l, xe_end_tag_size := sum_list (map ev_open hs)\<rparr>"
    have e1: "xe_enc e1 = SML_WBXML" "xe_space_evaluation e1 = None" "xe_cur_ext e1 = ?c1"
      "xe_end_tag_size e1 = sum_list (map ev_open hs)" by (simp_all add: e1_def new_encoder_def)
    note r1 = docs_ready [OF x d] and pos = docs_pos [OF x]
    have "\<bar>sum_list (map ev_open hs)\<bar> \<le> int (length ?x)" using open_bound [of hs SML_EXT_UNDEFINED] by simp
    with append_all_writes [OF e1(1,2) r1 p(2)] n pos obtain r2 e2 d2 where
      a: "append_all e1 cs E d1 = Some (r2, e2, d2)" "appended E e1 d1 bs r2 e2 d2" unfolding e1(3,4) by auto
    show ?thesis
    proof (cases "r2 = SML_ERR_OK")
      case False
      have "docs E d (?x @ ?y) r2 d2" using docs_then [OF d x] a(2) by (simp add: appended_def e1(3))
      from docs_err [OF this False, of ?z] have "docs E d (message_bytes fpi es) r2 d2" unfolding bytes by simp
      with i(1) e a(1) False show ?thesis by (simp add: encode_message_def e1_def)
    next
      case True2: True
      with a(2) have y: "docs E d1 ?y SML_ERR_OK d2" by (simp add: appended_def e1(3))
      from True2 a(2) e1 have e2: "xe_enc (e2\<lparr>xe_final := fin\<rparr>) = SML_WBXML"
        "xe_space_evaluation (e2\<lparr>xe_final := fin\<rparr>) = None" "xe_cur_ext (e2\<lparr>xe_final := fin\<rparr>) = ?c2"
        by (auto simp: appended_def)
      from xltEncTerminate_writes [OF e2(1,2) docs_ready [OF y r1]] n pos docs_pos [OF y] obtain r3 d3 where
        t: "xltEncTerminate (e2\<lparr>xe_final := fin\<rparr>) E d2 = Some (r3, d3)" "docs E d2 ?z r3 d3"
        unfolding e2(3) by auto
      have "docs E d (message_bytes fpi es) r3 d3"
        using docs_then [OF d x docs_then [OF r1 y t(2)]] unfolding bytes .
      with i(1) e a(1) True2 t(1) show ?thesis by (simp add: encode_message_def e1_def)
    qed
  qed
qed

lemma message_ok:
  assumes "message_spec h cs fin = Sp_ok es"
  shows "doc_ok es"
proof -
  have "doc_ok bs" if "cmds_spec cs = Sp_ok bs" for bs
    using that
  proof (induction cs arbitrary: bs)
    case (Cons c cs)
    then show ?case using block_gens
      by (fastforce simp: sp_append_ok cmd_spec_def doc_ok_def)
  qed (simp add: doc_ok_def)
  with assms block_gens known_cmds show ?thesis
    by (fastforce simp: message_spec_def open_spec_def sp_append_ok doc_ok_def close_events_def)
qed

text \<open>A document in memory, read back.\<close>

lemma message_scanned:
  assumes "docs E d (message_bytes fpi es) SML_ERR_OK d'" "doc_ready E d" "length fpi = 29" "doc_ok es"
    "stack_after es [] = Some []" "int (length es) \<le> 2 ^ 31 - 20" "tok_ready g"
  shows "\<exists>s ts s'. xltDecWbxmlInit (doc_mem d') (doc_pos d') (doc_pos d) g = Some (SML_ERR_OK, Some s, g) \<and>
           scan_all (length es) s = Some (ts, s') \<and> toks_of [] es ts \<and> stk_view (sc_tagstack s') = [] \<and>
           ahead s' = []"
proof -
  let ?bs = "doc_bytes SML_EXT_UNDEFINED es"
  have d': "d' = doc_put (message_bytes fpi es) d (doc_tok d')" "doc_pos d + int (length (message_bytes fpi es)) \<le> E"
    using assms(1) by (auto simp: docs_def split: if_splits)
  have pos: "doc_pos d' = doc_pos d + int (length (message_bytes fpi es))" using docs_pos [OF assms(1)] by simp
  have d: "0 \<le> doc_pos d" "E \<le> int (length (doc_mem d))" using assms(2) by (simp_all add: doc_ready_def)
  have m: "doc_mem d' = take (nat (doc_pos d)) (doc_mem d) @ message_bytes fpi es @
      drop (nat (doc_pos d) + length (message_bytes fpi es)) (doc_mem d)" by (subst d'(1)) (simp add: doc_put_def)
  have l: "nat (doc_pos d) + length (message_bytes fpi es) \<le> length (doc_mem d)" using d d'(2) by linarith
  have "drop (nat (doc_pos d)) (take (nat (doc_pos d')) (doc_mem d')) = doc_header fpi @ ?bs"
    using l d(1) by (simp add: m pos nat_add_distrib message_bytes_def)
  moreover have "doc_pos d \<le> doc_pos d'" "doc_pos d' \<le> int (length (doc_mem d'))" using pos l d(1) by (simp_all add: m)
  ultimately obtain s where s: "xltDecWbxmlInit (doc_mem d') (doc_pos d') (doc_pos d) g = Some (SML_ERR_OK, Some s, g)"
    "scan_ready SML_EXT_UNDEFINED [] ?bs s"
    using xltDecWbxmlInit_ok [OF d(1) _ _ _ assms(3,7)] by blast
  obtain ts s' where "scan_all (length es) s = Some (ts, s')" "toks_of [] es ts"
    "scan_ready (ext_after SML_EXT_UNDEFINED es) [] [] s'"
    using scan_events [of SML_EXT_UNDEFINED "[]" es "[]" s "[]"] s(2) assms(4-6) by (auto simp: doc_ok_def)
  moreover from this(3) have "stk_view (sc_tagstack s') = []" "ahead s' = []" by (simp_all add: scan_ready_def)
  ultimately show ?thesis using s(1) by blast
qed

end
