(* ===== verification/Decoder_Read.thy ===== *)
theory Decoder_Read
  imports Decoder Encoder_Message
begin

text \<open>
  The decoder on a well nested series of events: what one token, one element and the loop over the
  children of an element do when the bytes ahead are the bytes of events.
\<close>

section \<open>Between two tokens\<close>

text \<open>What no step of the decoder changes.\<close>

type_synonym ctx = "int \<times> bool \<times> bool \<times> int \<times> int \<times> Heap \<times> byte list \<times> int"

definition dec_ctx :: "XltDecoder \<Rightarrow> ctx" where
  "dec_ctx d = (xd_charset d, xd_finished d, xd_final d, xd_smlEncoding d, xd_tndsEncoding d, xd_heap d,
     sc_mem (xd_scanner d), sc_bufend (xd_scanner d))"

definition heap_ok :: "int \<Rightarrow> int \<Rightarrow> Heap \<Rightarrow> bool" where
  "heap_ok e1 e2 h \<longleftrightarrow> e1 = e2 \<and> 2 \<le> hp_block h"

definition ctx_ok :: "ctx \<Rightarrow> bool" where
  "ctx_ok K = (case K of (_, _, _, e1, e2, h, _) \<Rightarrow> heap_ok e1 e2 h)"

definition stk_ready :: "XltTagID list \<Rightarrow> XltTagID ArrayStack \<Rightarrow> bool" where
  "stk_ready st s \<longleftrightarrow> stk_tight s \<and> stk_view s = st \<and> chunksize s = 10"

text \<open>
  The scanner is between two tokens on the page of \<open>cur\<close>, the tags of \<open>st\<close> are open, \<open>rest\<close> lies ahead.
\<close>

definition dec_ready :: "ctx \<Rightarrow> SmlPcdataExtension \<Rightarrow> XltTagID list \<Rightarrow> byte list \<Rightarrow> XltDecoder \<Rightarrow> bool" where
  "dec_ready K cur st rest d \<longleftrightarrow>
     scan_ready cur st rest (xd_scanner d) \<and> stk_ready st (xd_tagstack d) \<and> dec_ctx d = K \<and> ctx_ok K"

lemma dec_malloc_ready: "dec_ready K cur st rest d \<Longrightarrow> dec_malloc d = (True, d)"
  by (simp add: dec_ready_def dec_malloc_def scan_ready_def sc_malloc_ready)

lemma dec_ready_encodings: "dec_ready K cur st rest d \<Longrightarrow> xd_smlEncoding d = xd_tndsEncoding d"
  by (auto simp: dec_ready_def dec_ctx_def ctx_ok_def heap_ok_def)

lemma dec_ready_block: "dec_ready K cur st rest d \<Longrightarrow> 2 \<le> hp_block (xd_heap d)"
  by (auto simp: dec_ready_def dec_ctx_def ctx_ok_def heap_ok_def)

lemma stack_push_ready:
  assumes "stk_ready st s" "length st < 2 ^ 31 - 20"
  shows "\<exists>s'. stack_push True i s = Some (SML_ERR_OK, s') \<and> stk_ready (i # st) s'"
proof -
  have s: "stk_tight s" "stk_view s = st" "chunksize s = 10" using assms(1) by (simp_all add: stk_ready_def)
  have room: "0 < stk_room s" using stk_room_view [OF s(1)] s(2,3) assms(2) by simp
  from stk_tight_push [OF s(1) this, of i] obtain s' where
    p: "stack_push True i s = Some (SML_ERR_OK, s')" "stk_tight s'" "stk_view s' = i # st" using s(2) by auto
  have "stk_size s + chunksize s < 2 ^ 31"
    using s(1) room by (auto simp: stk_tight_def stk_room_def stk_inv_def max_def split: if_splits)
  with stack_push_view [of s True i] s p(1) have "chunksize s' = chunksize s" by (auto simp: stk_tight_def)
  with p s(3) show ?thesis by (simp add: stk_ready_def)
qed

lemma stack_pop_ready:
  assumes "stk_ready (i # st) s"
  shows "\<exists>s'. stack_pop True s = Some (SML_ERR_OK, Some i, s') \<and> stk_ready st s'"
proof -
  have s: "stk_tight s" "stk_view s = i # st" "chunksize s = 10" using assms by (simp_all add: stk_ready_def)
  from stk_tight_pop [OF s(1,2)] obtain s' where
    p: "stack_pop True s = Some (SML_ERR_OK, Some i, s')" "stk_tight s'" "stk_view s' = st" by blast
  moreover have "chunksize s' = chunksize s"
    using stack_pop_view [of s i st True] s p(1) by (auto simp: stk_tight_def)
  ultimately show ?thesis using s(3) by (simp add: stk_ready_def)
qed

text \<open>The stack of the decoder while no allocation fails.\<close>

definition no_oom :: "XltDecoder \<Rightarrow> bool" where
  "no_oom d \<longleftrightarrow> tok_ready (dec_tok d)"

lemma no_oom_malloc: "no_oom d \<Longrightarrow> dec_malloc d = (True, d)"
  by (simp add: no_oom_def dec_tok_def dec_malloc_def sc_malloc_ready)

lemma dec_push_ready:
  assumes "no_oom d" "stk_ready st (xd_tagstack d)" "length st < 2 ^ 31 - 20"
  shows "\<exists>s. dec_push i d = Some (SML_ERR_OK, d\<lparr>xd_tagstack := s\<rparr>) \<and> stk_ready (i # st) s"
  using stack_push_ready [OF assms(2,3), of i] no_oom_malloc [OF assms(1)] by (auto simp: dec_push_def)

lemma dec_pop_ready:
  assumes "no_oom d" "stk_ready (i # st) (xd_tagstack d)"
  shows "\<exists>s. dec_pop d = Some (SML_ERR_OK, Some i, d\<lparr>xd_tagstack := s\<rparr>) \<and> stk_ready st s"
  using stack_pop_ready [OF assms(2)] no_oom_malloc [OF assms(1)] by (auto simp: dec_pop_def)

section \<open>One token\<close>

lemma dec_ctx_stack [simp]: "dec_ctx (d\<lparr>xd_tagstack := s\<rparr>) = dec_ctx d" "curtok (d\<lparr>xd_tagstack := s\<rparr>) = curtok d"
  by (simp_all add: dec_ctx_def curtok_def)

lemma nextTok_keeps: "nextTok s = Some (r, s') \<Longrightarrow> sc_mem s' = sc_mem s \<and> sc_bufend s' = sc_bufend s"
  using nextTok_advance [of s r s'] by (simp add: advances_def keeps_def)

text \<open>What the decoder makes of a token that the scanner has read.\<close>

lemma nextToken_scanned:
  assumes r: "dec_ready K now st0 rest0 d" and tok: "nextTok (xd_scanner d) = Some (SML_ERR_OK, s)"
    and s: "scan_ready cur st' rest s" "tok_of st0 e (sc_curtok s)"
    and st: "ev_stack e st0 = Some st'" and len: "length st0 < 2 ^ 31 - 20"
  shows "\<exists>t. nextToken d = Some (SML_ERR_OK, d\<lparr>xd_scanner := s, xd_tagstack := t\<rparr>) \<and>
     dec_ready K cur st' rest (d\<lparr>xd_scanner := s, xd_tagstack := t\<rparr>)"
proof -
  let ?d = "d\<lparr>xd_scanner := s\<rparr>"
  have K: "dec_ctx (?d\<lparr>xd_tagstack := t\<rparr>) = K" "ctx_ok K" for t
    using r nextTok_keeps [OF tok] by (simp_all add: dec_ready_def dec_ctx_def)
  have d: "stk_ready st0 (xd_tagstack ?d)" "no_oom ?d" "xd_smlEncoding d = xd_tndsEncoding d"
    using r s(1) dec_ready_encodings [OF r] by (simp_all add: dec_ready_def scan_ready_def no_oom_def dec_tok_def)
  have goal: ?thesis if "nextToken d = Some (SML_ERR_OK, ?d\<lparr>xd_tagstack := t\<rparr>)" "stk_ready st' t" for t
    using that K s(1) by (auto simp: dec_ready_def)
  show ?thesis
  proof (cases e)
    case (Ev_start ext i)
    with dec_push_ready [OF d(2,1) len, of i] st obtain t where
      t: "dec_push i ?d = Some (SML_ERR_OK, ?d\<lparr>xd_tagstack := t\<rparr>)" "stk_ready st' t" by auto
    with s(2) Ev_start tok d(3) have "nextToken d = Some (SML_ERR_OK, ?d\<lparr>xd_tagstack := t\<rparr>)"
      by (simp add: nextToken_def curtok_def tok_classes)
    with t(2) show ?thesis by (intro goal)
  next
    case Ev_end
    with st obtain i where i: "st0 = i # st'" by (auto split: list.splits)
    with dec_pop_ready [OF d(2)] d(1) obtain t where
      t: "dec_pop ?d = Some (SML_ERR_OK, Some i, ?d\<lparr>xd_tagstack := t\<rparr>)" "stk_ready st' t" by auto
    with s(2) Ev_end tok d(3) i have "nextToken d = Some (SML_ERR_OK, ?d\<lparr>xd_tagstack := t\<rparr>)"
      by (simp add: nextToken_def curtok_def tok_classes)
    with t(2) show ?thesis by (intro goal)
  next
    case (Ev_empty ext i)
    with s(2) tok d(3) have "nextToken d = Some (SML_ERR_OK, ?d\<lparr>xd_tagstack := xd_tagstack d\<rparr>)"
      by (simp add: nextToken_def curtok_def tok_classes)
    with st d(1) Ev_empty show ?thesis by (intro goal) simp_all
  next
    case (Ev_str x)
    with s(2) tok d(3) have "nextToken d = Some (SML_ERR_OK, ?d\<lparr>xd_tagstack := xd_tagstack d\<rparr>)"
      by (simp add: nextToken_def curtok_def tok_classes)
    with st d(1) Ev_str show ?thesis by (intro goal) simp_all
  next
    case (Ev_opaque x)
    with s(2) tok d(3) have "nextToken d = Some (SML_ERR_OK, ?d\<lparr>xd_tagstack := xd_tagstack d\<rparr>)"
      by (simp add: nextToken_def curtok_def tok_classes)
    with st d(1) Ev_opaque show ?thesis by (intro goal) simp_all
  qed
qed

lemma next_event:
  assumes r: "dec_ready K cur st (ev_bytes cur e @ rest) d" and ok: "ev_ok e" "ev_page_ok e"
    and st: "ev_stack e st = Some st'" and len: "length st < 2 ^ 31 - 20"
  shows "\<exists>d'. nextToken d = Some (SML_ERR_OK, d') \<and> dec_ready K (ev_ext cur e) st' rest d' \<and> tok_of st e (curtok d')"
proof -
  from r have "scan_ready cur st (ev_bytes cur e @ rest) (xd_scanner d)" by (simp add: dec_ready_def)
  from scan_event [OF this ok st len] obtain s where
    s: "nextTok (xd_scanner d) = Some (SML_ERR_OK, s)" "scan_ready (ev_ext cur e) st' rest s" "tok_of st e (sc_curtok s)"
    by blast
  from nextToken_scanned [OF r s st len] s(3) show ?thesis by (auto simp: curtok_def)
qed

text \<open>A start tag: it can be given back and read again.\<close>

definition started :: "SmlPcdataExtension \<Rightarrow> XltTagID \<Rightarrow> XltDecoder \<Rightarrow> bool" where
  "started ext i d \<longleftrightarrow> tok_type (curtok d) = TOK_TAG_START \<and> tok_tagid (curtok d) = i \<and> tok_ext (curtok d) = ext"

lemma next_start:
  assumes r: "dec_ready K now st (ev_bytes cur (Ev_start ext i) @ rest) d"
    and now: "now = cur \<or> getCodePage ext \<noteq> getCodePage cur"
    and i: "i \<in> known_tags ext" "plain_ext ext" and len: "length st < 2 ^ 31 - 20"
  shows "\<exists>d'. nextToken d = Some (SML_ERR_OK, d') \<and> dec_ready K ext (i # st) rest d' \<and> started ext i d' \<and>
     tok_start (curtok d') = Some (sc_pos (xd_scanner d))"
proof -
  have sc: "scan_ready now st (page_switch cur ext @ (byte_of ext i OR XLT_CONTBYTE) # rest) (xd_scanner d)"
    using r by (simp add: dec_ready_def)
  have "page_ext (getCodePage ext) = ext" using i(2) by (auto simp: plain_ext_def getCodePage_def page_ext_def)
  from scan_tag_from [OF sc now i(1), of True, OF _ this len] obtain s where
    s: "nextTok (xd_scanner d) = Some (SML_ERR_OK, s)" "scan_ready ext (i # st) rest s"
      "tok_type (sc_curtok s) = TOK_TAG_START" "tok_tagid (sc_curtok s) = i" "tok_ext (sc_curtok s) = ext"
      "tok_start (sc_curtok s) = Some (sc_pos (xd_scanner d))" by auto
  from nextToken_scanned [OF r s(1,2), of "Ev_start ext i"] s(3-6) len show ?thesis
    by (auto simp: curtok_def started_def)
qed

lemma discard_start:
  assumes r: "dec_ready K now st rest0 d0" and d: "dec_ready K ext (i # st) rest d" "started ext i d"
    and start: "tok_start (curtok d) = Some (sc_pos (xd_scanner d0))"
  shows "\<exists>d'. discardToken d = Some (SML_ERR_OK, d') \<and> dec_ready K ext st rest0 d' \<and> tok_type (curtok d') = TOK_UNDEF"
proof -
  let ?s = "(xd_scanner d)\<lparr>sc_pos := sc_pos (xd_scanner d0)\<rparr>"
  have sc: "scan_ready ext (i # st) rest (xd_scanner d)" "scan_ready now st rest0 (xd_scanner d0)"
    and K: "dec_ctx d = K" "dec_ctx d0 = K" using r d(1) by (simp_all add: dec_ready_def)
  then have m: "sc_mem (xd_scanner d) = sc_mem (xd_scanner d0)" "sc_bufend (xd_scanner d) = sc_bufend (xd_scanner d0)"
    by (auto simp: dec_ctx_def)
  from wbxmlPop_ready [of ?s i st] sc(1) obtain ts where
    ts: "wbxmlPop ?s = Some (SML_ERR_OK, Some i, ?s\<lparr>sc_tagstack := ts\<rparr>)" "stk_tight ts" "stk_view ts = st"
      "chunksize ts = 10" by (auto simp: scan_ready_def)
  define s' where "s' = ?s\<lparr>sc_tagstack := ts, sc_curtok := (curtok d)\<lparr>tok_type := TOK_UNDEF\<rparr>\<rparr>"
  have p: "dec_pushTok d = Some (SML_ERR_OK, d\<lparr>xd_scanner := s'\<rparr>)"
    using start d(2) ts(1)
    by (simp add: dec_pushTok_def pushTok_def started_def curtok_def s'_def)
  have sr: "scan_ready ext st rest0 s'"
    using sc ts m by (simp add: scan_ready_def s'_def in_doc_def ahead_def)
  have "no_oom (d\<lparr>xd_scanner := s'\<rparr>)" "stk_ready (i # st) (xd_tagstack (d\<lparr>xd_scanner := s'\<rparr>))"
    using sr d(1) by (simp_all add: no_oom_def dec_tok_def scan_ready_def dec_ready_def)
  from dec_pop_ready [OF this] obtain t where
    t: "dec_pop (d\<lparr>xd_scanner := s'\<rparr>) = Some (SML_ERR_OK, Some i, d\<lparr>xd_scanner := s', xd_tagstack := t\<rparr>)" "stk_ready st t"
    by auto
  have "discardToken d = Some (SML_ERR_OK, d\<lparr>xd_scanner := s', xd_tagstack := t\<rparr>)"
    using p t(1) by (simp add: discardToken_def)
  moreover have "dec_ready K ext st rest0 (d\<lparr>xd_scanner := s', xd_tagstack := t\<rparr>)"
    using sr t(2) K d(1) by (simp add: dec_ready_def dec_ctx_def s'_def)
  moreover have "tok_type (curtok (d\<lparr>xd_scanner := s', xd_tagstack := t\<rparr>)) = TOK_UNDEF"
    by (simp add: curtok_def s'_def)
  ultimately show ?thesis by blast
qed

text \<open>
  The events \<open>es\<close>, written after the page of \<open>cur\<close>, lie ahead. The scanner is on that page, or on
  another one when the first event is a tag that switches the page: a tag that was given back.
\<close>

definition ahead_of :: "ctx \<Rightarrow> SmlPcdataExtension \<Rightarrow> XltTagID list \<Rightarrow> wb_event list \<Rightarrow> byte list \<Rightarrow> XltDecoder \<Rightarrow> bool" where
  "ahead_of K cur st es rest d \<longleftrightarrow>
     (\<exists>now. dec_ready K now st (doc_bytes cur es @ rest) d \<and>
        (now = cur \<or> (\<exists>ext i fs. es = Ev_start ext i # fs \<and> getCodePage ext \<noteq> getCodePage cur)))"

lemma ahead_of_ready: "dec_ready K cur st (doc_bytes cur es @ rest) d \<Longrightarrow> ahead_of K cur st es rest d"
  by (auto simp: ahead_of_def)

lemma ahead_of_nil: "ahead_of K cur st [] rest d \<longleftrightarrow> dec_ready K cur st rest d"
  by (auto simp: ahead_of_def)

lemma ahead_of_malloc: "ahead_of K cur st es rest d \<Longrightarrow> dec_malloc d = (True, d)"
  by (auto simp: ahead_of_def dec_malloc_ready)

lemma next_ahead:
  assumes r: "ahead_of K cur st (e # es) rest d" and ok: "ev_ok e" "ev_page_ok e"
    and st: "ev_stack e st = Some st'" and len: "length st < 2 ^ 31 - 20"
  shows "\<exists>d'. nextToken d = Some (SML_ERR_OK, d') \<and>
     dec_ready K (ev_ext cur e) st' (doc_bytes (ev_ext cur e) es @ rest) d' \<and> tok_of st e (curtok d')"
proof -
  from r obtain now where now: "dec_ready K now st (ev_bytes cur e @ doc_bytes (ev_ext cur e) es @ rest) d"
    "now = cur \<or> (\<exists>ext i. e = Ev_start ext i \<and> getCodePage ext \<noteq> getCodePage cur)"
    by (auto simp: ahead_of_def)
  show ?thesis
  proof (cases "now = cur")
    case True
    with next_event [of K cur st e "doc_bytes (ev_ext cur e) es @ rest" d st'] now(1) ok st len show ?thesis by simp
  next
    case False
    with now(2) obtain ext i where e: "e = Ev_start ext i" "getCodePage ext \<noteq> getCodePage cur" by blast
    with ok have "plain_ext ext" "i \<in> known_tags ext" by (auto simp: plain_ext_def)
    with next_start [of K now st cur ext i "doc_bytes ext es @ rest" d] now(1) e len st show ?thesis
      by (auto simp: started_def)
  qed
qed

text \<open>A start tag that has been read and given back.\<close>

lemma start_again:
  assumes r: "ahead_of K cur st (Ev_start ext i # es) rest d"
    and i: "i \<in> known_tags ext" "plain_ext ext" "plain_ext cur" and len: "length st < 2 ^ 31 - 20"
  shows "\<exists>d1 d2. nextToken d = Some (SML_ERR_OK, d1) \<and> started ext i d1 \<and> discardToken d1 = Some (SML_ERR_OK, d2) \<and>
     tok_type (curtok d2) = TOK_UNDEF \<and> ahead_of K cur st (Ev_start ext i # es) rest d2"
proof -
  from r obtain now where now: "dec_ready K now st (doc_bytes cur (Ev_start ext i # es) @ rest) d"
    "now = cur \<or> getCodePage ext \<noteq> getCodePage cur" by (auto simp: ahead_of_def)
  then have "dec_ready K now st (ev_bytes cur (Ev_start ext i) @ doc_bytes ext es @ rest) d" by simp
  from next_start [OF this now(2) i(1,2) len] obtain d1 where
    d1: "nextToken d = Some (SML_ERR_OK, d1)" "dec_ready K ext (i # st) (doc_bytes ext es @ rest) d1" "started ext i d1"
      "tok_start (curtok d1) = Some (sc_pos (xd_scanner d))" by auto
  from discard_start [OF now(1) d1(2,3,4)] obtain d2 where
    d2: "discardToken d1 = Some (SML_ERR_OK, d2)" "dec_ready K ext st (doc_bytes cur (Ev_start ext i # es) @ rest) d2"
      "tok_type (curtok d2) = TOK_UNDEF" by blast
  have "ext = cur \<or> getCodePage ext \<noteq> getCodePage cur"
    using i(2,3) by (auto simp: plain_ext_def getCodePage_def)
  with d2(2) have "ahead_of K cur st (Ev_start ext i # es) rest d2" unfolding ahead_of_def by blast
  with d1 d2 show ?thesis by blast
qed

lemmas start_back = start_again [OF ahead_of_ready]

end
