(* ===== verification/Decoder_Loop.thy ===== *)
theory Decoder_Loop
  imports Decoder_Read
begin

text \<open>
  The loop over the children of an element, by composition: \<open>handles\<close> is one turn of the loop on the
  events of one child, \<open>loops\<close> the loop on the events of several, \<open>builds\<close> a builder on an element.
\<close>

section \<open>Builders\<close>

text \<open>
  The start tag \<open>i\<close> has been read; the builder reads the children \<open>es\<close> up to the end tag and leaves it as
  the current token.
\<close>

definition at_tag_end :: "ctx \<Rightarrow> SmlPcdataExtension \<Rightarrow> XltTagID list \<Rightarrow> byte list \<Rightarrow> XltDecoder \<Rightarrow> bool" where
  "at_tag_end K cur st rest d \<longleftrightarrow> dec_ready K cur st rest d \<and> IS_END_TOK (curtok d)"

definition builds ::
    "ctx \<Rightarrow> 'a builder \<Rightarrow> SmlPcdataExtension \<Rightarrow> XltTagID \<Rightarrow> wb_event list \<Rightarrow> 'a option \<Rightarrow> bool" where
  "builds K b ext i es x \<longleftrightarrow>
     (\<forall>st rest d. dec_ready K ext (i # st) (doc_bytes ext (es @ [Ev_end]) @ rest) d \<and> started ext i d \<and>
        Suc (length st) + length es < 2 ^ 31 - 25 \<longrightarrow>
        (\<exists>d'. b None d = Some (SML_ERR_OK, x, d') \<and> at_tag_end K (ext_after ext es) st rest d'))"

text \<open>One turn of the loop, the first event having been read; the \<open>switch\<close> leaves the end tag as current token.\<close>

definition first_ok :: "wb_event \<Rightarrow> XltTagID \<Rightarrow> bool" where
  "first_ok e i \<longleftrightarrow> ev_ok e \<and> ev_page_ok e \<and> (\<exists>ext. e = Ev_start ext i \<or> e = Ev_empty ext i)"

definition handles :: "ctx \<Rightarrow> 'a cases \<Rightarrow> wb_event list \<Rightarrow> XltTagID \<Rightarrow> 'a \<Rightarrow> 'a \<Rightarrow> bool" where
  "handles K cs es i x x' \<longleftrightarrow>
     (\<exists>e body. es = e # body \<and> first_ok e i \<and>
        (\<forall>cur st st' rest d. ev_stack e st = Some st' \<and>
           dec_ready K (ev_ext cur e) st' (doc_bytes (ev_ext cur e) body @ rest) d \<and> tok_of st e (curtok d) \<and>
           length st + length es < 2 ^ 31 - 25 \<longrightarrow>
           (\<exists>d'. switch cs i x d = Some (SML_ERR_OK, x', d') \<and> dec_ready K (ext_after cur es) st rest d')))"

inductive loops :: "ctx \<Rightarrow> 'a cases \<Rightarrow> wb_event list \<Rightarrow> 'a \<Rightarrow> 'a \<Rightarrow> XltTagID list \<Rightarrow> bool" for K cs where
  loops_nil: "loops K cs [] x x []"
| loops_one: "handles K cs es i x x' \<Longrightarrow> loops K cs es x x' [i]"
| loops_append: "loops K cs es x x' t \<Longrightarrow> loops K cs fs x' x'' u \<Longrightarrow> loops K cs (es @ fs) x x'' (u @ t)"

definition next_loop ::
    "XltTagID list \<Rightarrow> 'a cases \<Rightarrow> 'a \<Rightarrow> XltTagID list \<Rightarrow> XltDecoder \<Rightarrow>
     (ret \<times> bool \<times> 'a \<times> XltTagID list \<times> XltDecoder) option" where
  "next_loop brk cs x seen d = do {
     (rc, d) \<leftarrow> nextToken d;
     if rc \<noteq> SML_ERR_OK then Some (rc, False, x, seen, d) else build_loop brk cs x seen d
   }"

lemma loop_turn:
  assumes h: "handles K cs es i x x'" and brk: "i \<notin> set brk"
    and r: "ahead_of K cur st (es @ fs) rest d" and len: "length st + length es < 2 ^ 31 - 25"
  shows "\<exists>d'. next_loop brk cs x seen d = next_loop brk cs x' (i # seen) d' \<and>
     ahead_of K (ext_after cur es) st fs rest d'"
proof -
  from h obtain e body where e: "es = e # body" "first_ok e i" and
    sw: "\<And>cur st st' rest d. ev_stack e st = Some st' \<and>
           dec_ready K (ev_ext cur e) st' (doc_bytes (ev_ext cur e) body @ rest) d \<and> tok_of st e (curtok d) \<and>
           length st + length es < 2 ^ 31 - 25 \<Longrightarrow>
           (\<exists>d'. switch cs i x d = Some (SML_ERR_OK, x', d') \<and> dec_ready K (ext_after cur es) st rest d')"
    unfolding handles_def by blast
  from e(2) obtain st' where st': "ev_stack e st = Some st'" by (auto simp: first_ok_def)
  have "ahead_of K cur st (e # body @ fs) rest d" using r by (simp add: e(1))
  from next_ahead [OF this _ _ st'] e(2) len obtain d1 where
    d1: "nextToken d = Some (SML_ERR_OK, d1)" "tok_of st e (curtok d1)"
      "dec_ready K (ev_ext cur e) st' (doc_bytes (ev_ext cur e) body @ doc_bytes (ext_after (ev_ext cur e) body) fs @ rest) d1"
    by (auto simp: first_ok_def doc_bytes_append)
  from sw [of st st' cur "doc_bytes (ext_after (ev_ext cur e) body) fs @ rest" d1] st' d1 len obtain d2 where
    d2: "switch cs i x d1 = Some (SML_ERR_OK, x', d2)"
      "dec_ready K (ext_after cur es) st (doc_bytes (ext_after (ev_ext cur e) body) fs @ rest) d2" by blast
  have tok: "\<not> IS_END_TOK (curtok d1)" "tok_tagid (curtok d1) = i"
    using d1(2) e(2) by (auto simp: first_ok_def IS_END_TOK_def)
  have "next_loop brk cs x seen d = next_loop brk cs x' (i # seen) d2"
    using d1(1) d2(1) tok brk by (simp add: next_loop_def build_loop.simps [of _ _ _ _ d1])
  moreover have "ahead_of K (ext_after cur es) st fs rest d2"
    using d2(2) by (intro ahead_of_ready) (simp add: e(1))
  ultimately show ?thesis by blast
qed

lemma loops_next:
  assumes "loops K cs es x x' t" "ahead_of K cur st (es @ fs) rest d"
    "length st + length es < 2 ^ 31 - 25" "set t \<inter> set brk = {}"
  shows "\<exists>d'. next_loop brk cs x seen d = next_loop brk cs x' (t @ seen) d' \<and>
     ahead_of K (ext_after cur es) st fs rest d'"
  using assms
proof (induction arbitrary: cur d fs seen rule: loops.induct)
  case (loops_nil x)
  then show ?case by auto
next
  case (loops_one es i x x')
  with loop_turn [of K cs es i x x' brk cur st fs rest d seen] show ?case by simp
next
  case (loops_append es x x' t gs x'' u)
  have r: "ahead_of K cur st (es @ gs @ fs) rest d" "length st + length es < 2 ^ 31 - 25"
    "set t \<inter> set brk = {}" "set u \<inter> set brk = {}" "length st + length gs < 2 ^ 31 - 25"
    using loops_append.prems by auto
  from loops_append.IH(1) [OF r(1,2,3), of seen] obtain d1 where
    d1: "next_loop brk cs x seen d = next_loop brk cs x' (t @ seen) d1"
      "ahead_of K (ext_after cur es) st (gs @ fs) rest d1" by blast
  from loops_append.IH(2) [OF d1(2) r(5,4), of "t @ seen"] d1(1) show ?case by (auto simp: ext_after_append)
qed

lemma next_loop_end:
  assumes "ahead_of K cur (i # st) (Ev_end # es) rest d" "length st < 2 ^ 31 - 25"
  shows "\<exists>d'. next_loop brk cs x seen d = Some (SML_ERR_OK, False, x, seen, d') \<and>
     at_tag_end K cur st (doc_bytes cur es @ rest) d' \<and> tok_tagid (curtok d') = i"
proof -
  from next_ahead [of K cur "i # st" Ev_end es rest d st] assms obtain d' where
    d': "nextToken d = Some (SML_ERR_OK, d')" "dec_ready K cur st (doc_bytes cur es @ rest) d'" "tok_of (i # st) Ev_end (curtok d')"
    by auto
  then have "build_loop brk cs x seen d' = Some (SML_ERR_OK, False, x, seen, d')"
    by (simp add: build_loop.simps [of _ _ _ _ d'] IS_END_TOK_def)
  with d' show ?thesis by (auto simp: next_loop_def at_tag_end_def IS_END_TOK_def)
qed

lemma build_children_next:
  "build_children cs req x d = do {
     (rc, brk, x, seen, d) \<leftarrow> next_loop [] cs x [] d;
     Some (if rc = SML_ERR_OK \<and> \<not> set req \<subseteq> set seen then SML_ERR_XLT_INVAL_SYNCML_DOC else rc, x, seen, d)
   }"
  by (auto simp: build_children_def next_loop_def bind_eq_Some_conv intro!: Option.bind_cong split: prod.splits)

lemma build_children_ok:
  assumes l: "loops K cs es x x' t" and req: "set req \<subseteq> set t"
    and r: "ahead_of K cur (i # st) (es @ Ev_end # fs) rest d"
    and len: "Suc (length st) + length es < 2 ^ 31 - 25"
  shows "\<exists>d'. build_children cs req x d = Some (SML_ERR_OK, x', t, d') \<and>
     at_tag_end K (ext_after cur es) st (doc_bytes (ext_after cur es) fs @ rest) d'"
proof -
  from loops_next [OF l r, of "[]" "[]"] len obtain d1 where
    d1: "next_loop [] cs x [] d = next_loop [] cs x' t d1"
      "ahead_of K (ext_after cur es) (i # st) (Ev_end # fs) rest d1" by auto
  from next_loop_end [OF d1(2), of "[]" cs x' t] d1(1) len req show ?thesis
    unfolding build_children_next by fastforce
qed

lemma builds_struct:
  assumes "loops K cs es zero x t" "set req \<subseteq> set t"
  shows "builds K (build_struct em zero cs req) ext i es (Some x)"
  unfolding builds_def
proof (intro allI impI, elim conjE)
  fix st rest d
  assume r: "dec_ready K ext (i # st) (doc_bytes ext (es @ [Ev_end]) @ rest) d" and s: "started ext i d"
    and len: "Suc (length st) + length es < 2 ^ 31 - 25"
  have "\<exists>d'. build_children cs req zero d = Some (SML_ERR_OK, x, t, d') \<and> at_tag_end K (ext_after ext es) st rest d'"
    using build_children_ok [OF assms ahead_of_ready [OF r]] len by simp
  then show "\<exists>d'. build_struct em zero cs req None d = Some (SML_ERR_OK, Some x, d') \<and>
      at_tag_end K (ext_after ext es) st rest d'"
    using dec_malloc_ready [OF r] s by (auto simp: build_struct_def started_def IS_EMPTY_def)
qed

end
