(* ===== verification/Decoder_Parts.thy ===== *)
theory Decoder_Parts
  imports Decoder_Loop
begin

text \<open>
  The cases of a \<open>switch\<close> on the events of the encoder's specification: members, lists, flags and
  character data.
\<close>

section \<open>Specifications that succeed\<close>

lemma sp_seq_nil: "sp_seq [] = Sp_ok es \<longleftrightarrow> es = []"
  by (auto simp: sp_seq_def)

lemma sp_seq_cons: "sp_seq (p # ps) = Sp_ok es \<longleftrightarrow> (\<exists>a b. p = Sp_ok a \<and> sp_seq ps = Sp_ok b \<and> es = a @ b)"
  by (simp add: sp_seq_def sp_append_ok)

lemma sp_seq_append: "sp_seq (ps @ qs) = Sp_ok es \<longleftrightarrow> (\<exists>a b. sp_seq ps = Sp_ok a \<and> sp_seq qs = Sp_ok b \<and> es = a @ b)"
  by (induction ps arbitrary: es) (auto simp: sp_seq_nil sp_seq_cons)

lemma sp_node_ok: "sp_node ext i ps = Sp_ok es \<longleftrightarrow> (\<exists>fs. sp_seq ps = Sp_ok fs \<and> es = Ev_start ext i # fs @ [Ev_end])"
  by (auto simp: sp_node_def split: spec.splits)

lemma sp_open_ok: "sp_open i ps = Sp_ok es \<longleftrightarrow> (\<exists>fs. sp_seq ps = Sp_ok fs \<and> es = Ev_start SML_EXT_UNDEFINED i # fs)"
  by (auto simp: sp_open_def split: spec.splits)

lemmas sp_simps = sp_seq_nil sp_seq_cons sp_seq_append sp_node_ok sp_open_ok

section \<open>Members of a structure\<close>

definition member :: "('a \<Rightarrow> 'b) \<Rightarrow> (('b \<Rightarrow> 'b) \<Rightarrow> 'a \<Rightarrow> 'a) \<Rightarrow> bool" where
  "member get upd \<longleftrightarrow> (\<forall>x f. get (upd f x) = f (get x)) \<and> (\<forall>x f. f (get x) = get x \<longrightarrow> upd f x = x) \<and>
     (\<forall>x f g. upd f (upd g x) = upd (\<lambda>v. f (g v)) x) \<and> (\<forall>x f. upd f x = upd (\<lambda>_. f (get x)) x)"

lemma member_get: "member get upd \<Longrightarrow> get (upd f x) = f (get x)"
  by (simp add: member_def)

lemma member_same: "member get upd \<Longrightarrow> f (get x) = get x \<Longrightarrow> upd f x = x"
  by (simp add: member_def)

lemma member_comp: "member get upd \<Longrightarrow> upd f (upd g x) = upd (\<lambda>v. f (g v)) x"
  by (simp add: member_def)

text \<open>An element with its tags.\<close>

definition element :: "ctx \<Rightarrow> 'a builder \<Rightarrow> SmlPcdataExtension \<Rightarrow> XltTagID \<Rightarrow> wb_event list \<Rightarrow> 'a option \<Rightarrow> bool" where
  "element K b ext i es x \<longleftrightarrow>
     (\<exists>body. es = Ev_start ext i # body @ [Ev_end] \<and> i \<in> known_tags ext \<and> plain_ext ext \<and> builds K b ext i body x)"

lemma plain_first: "i \<in> known_tags ext \<Longrightarrow> plain_ext ext \<Longrightarrow> first_ok (Ev_start ext i) i \<and> first_ok (Ev_empty ext i) i"
  by (auto simp: first_ok_def plain_ext_def)

lemma handles_element_ready:
  assumes el: "element K b ext i es y"
    and sw: "\<And>cur st rest d d'. b None d = Some (SML_ERR_OK, y, d') \<Longrightarrow> dec_malloc d = (True, d) \<Longrightarrow>
      dec_ready K cur st rest d' \<Longrightarrow> 2 \<le> hp_block (xd_heap d) \<Longrightarrow> switch cs i x d = Some (SML_ERR_OK, x', d')"
  shows "handles K cs es i x x'"
proof -
  from el obtain body where es: "es = Ev_start ext i # body @ [Ev_end]" "i \<in> known_tags ext" "plain_ext ext"
    and b: "builds K b ext i body y" by (auto simp: element_def)
  have "\<exists>d'. switch cs i x d = Some (SML_ERR_OK, x', d') \<and> dec_ready K (ext_after ext body) st rest d'"
    if r: "dec_ready K ext (i # st) (doc_bytes ext (body @ [Ev_end]) @ rest) d" "started ext i d"
      "length st + length es < 2 ^ 31 - 25" for st rest d
  proof -
    from r(3) have "Suc (length st) + length body < 2 ^ 31 - 25" by (simp add: es(1))
    with b r(1,2) obtain d' where d': "b None d = Some (SML_ERR_OK, y, d')" "at_tag_end K (ext_after ext body) st rest d'"
      unfolding builds_def by blast
    then have "dec_ready K (ext_after ext body) st rest d'" by (simp add: at_tag_end_def)
    with sw [OF d'(1) dec_malloc_ready [OF r(1)] this dec_ready_block [OF r(1)]] show ?thesis by blast
  qed
  then show ?thesis
    unfolding handles_def using plain_first [OF es(2,3)]
    by (intro exI [of _ "Ev_start ext i"] exI [of _ "body @ [Ev_end]"])
       (auto simp: es(1) ext_after_append started_def)
qed

lemma handles_element:
  assumes "element K b ext i es y"
    and "\<And>d d'. b None d = Some (SML_ERR_OK, y, d') \<Longrightarrow> dec_malloc d = (True, d) \<Longrightarrow>
      xd_smlEncoding d' = xd_tndsEncoding d' \<Longrightarrow> 2 \<le> hp_block (xd_heap d) \<Longrightarrow>
      switch cs i x d = Some (SML_ERR_OK, x', d')"
  shows "handles K cs es i x x'"
  by (rule handles_element_ready [OF assms(1)]) (rule assms(2), assumption+, erule dec_ready_encodings, assumption)

lemma handles_into:
  assumes "map_of cs i = Some (into b get upd)" "get x = None" "element K b ext i es y"
  shows "handles K cs es i x (upd (\<lambda>_. y) x)"
  by (rule handles_element [OF assms(3)]) (simp add: switch_def assms(1,2) into_def)

lemma handles_append:
  assumes "map_of cs i = Some (into_list (append_built b) get upd)" "element K b ext i es y"
  shows "handles K cs es i x (upd (\<lambda>_. get x @ [y]) x)"
  by (rule handles_element [OF assms(2)]) (simp add: switch_def assms(1) into_list_def append_built_def)

lemma handles_list:
  assumes "map_of cs i = Some (into_list (build_in_list b) get upd)" "element K b ext i es y"
  shows "handles K cs es i x (upd (\<lambda>_. get x @ [y]) x)"
  by (rule handles_element [OF assms(2)]) (simp add: switch_def assms(1) into_list_def build_in_list_def)

lemma handles_flag:
  assumes "map_of cs i = Some (flag_case m upd)" "i \<in> known_tags ext" "plain_ext ext"
  shows "handles K cs [Ev_empty ext i] i x (upd (\<lambda>f. f OR m) x)"
  unfolding handles_def using plain_first [OF assms(2,3)]
  by (auto simp: switch_def assms(1) flag_case_def)

section \<open>Optional members, flags and lists\<close>

definition opt_tag :: "'a option \<Rightarrow> XltTagID \<Rightarrow> XltTagID list" where
  "opt_tag p i = (if p = None then [] else [i])"

text \<open>A part whose builder may also be given nothing at all.\<close>

lemma loops_bind:
  assumes sp: "sp_elem ro p f = Sp_ok es" and cs: "map_of cs i = Some (into b get upd)"
    and m: "member get upd" "get x = None"
    and el: "\<And>y. p = Some y \<Longrightarrow> f y = Sp_ok es \<Longrightarrow>
      (if n y = None then es = [] else element K b ext i es (n y))"
  shows "loops K cs es x (upd (\<lambda>_. Option.bind p n) x) (opt_tag (Option.bind p n) i)"
proof (cases "Option.bind p n")
  case None
  then have "es = []" using sp el by (cases p) (auto simp: sp_elem_def split: if_splits)
  moreover have "upd (\<lambda>_. None) x = x" using member_same [OF m(1), of "\<lambda>_. None" x] m(2) by simp
  ultimately show ?thesis using None loops_nil by (simp add: opt_tag_def)
next
  case (Some z)
  then obtain y where y: "p = Some y" "n y = Some z" by (cases p) auto
  with sp have "f y = Sp_ok es" by (simp add: sp_elem_def)
  with el y have "element K b ext i es (Some z)" by simp
  from loops_one [OF handles_into [where upd = upd, OF cs m(2) this]] show ?thesis
    by (simp add: Some opt_tag_def)
qed

lemma loops_elem:
  assumes "sp_elem ro p f = Sp_ok es" "map_of cs i = Some (into b get upd)" "member get upd" "get x = None"
    "\<And>y. p = Some y \<Longrightarrow> f y = Sp_ok es \<Longrightarrow> element K b ext i es (Some (n y))"
  shows "loops K cs es x (upd (\<lambda>_. map_option n p) x) (opt_tag p i)"
proof -
  have "Option.bind p (\<lambda>y. Some (n y)) = map_option n p" "opt_tag (map_option n p) i = opt_tag p i"
    by (cases p; simp add: opt_tag_def)+
  with loops_bind [OF assms(1-4), where n = "\<lambda>y. Some (n y)" and K = K and ext = ext] assms(5)
  show ?thesis by simp
qed

text \<open>The bits of a flag word.\<close>

lemma flag_bit: "(w :: Flag) AND 2 ^ k = (if bit w k then 2 ^ k else 0)"
  by (rule bit_word_eqI) (auto simp: bit_and_iff bit_exp_iff)

definition one_bit :: "Flag \<Rightarrow> bool" where
  "one_bit m \<longleftrightarrow> (\<exists>k < 16. m = 2 ^ k)"

lemma one_bits [simp]:
  "one_bit SmlArchive_f" "one_bit SmlSftDel_f" "one_bit SmlMoreData_f" "one_bit SmlNoResults_f" "one_bit SmlNoResp_f"
  unfolding one_bit_def
  by (rule exI [of _ 15], simp, rule exI [of _ 14], simp, rule exI [of _ 10], simp, rule exI [of _ 9], simp,
      rule exI [of _ 8], simp)

definition flag_tags :: "Flag \<Rightarrow> Flag \<Rightarrow> XltTagID \<Rightarrow> XltTagID list" where
  "flag_tags w m i = (if w AND m = 0 then [] else [i])"

lemma loops_flag:
  assumes sp: "sp_flag ext i m w = Sp_ok es" and cs: "map_of cs i = Some (flag_case m upd)"
    and m: "member get upd" "one_bit m" and i: "i \<in> known_tags ext" "plain_ext ext"
  shows "loops K cs es x (upd (\<lambda>f. f OR (w AND m)) x) (flag_tags w m i)"
proof (cases "w AND m = 0")
  case True
  with sp have "es = []" by (simp add: sp_flag_def)
  moreover have "upd (\<lambda>f. f OR 0) x = x" by (rule member_same [OF m(1)]) simp
  ultimately show ?thesis using True loops_nil by (simp add: flag_tags_def)
next
  case False
  with sp have "es = [Ev_empty ext i]" by (simp add: sp_flag_def)
  moreover from m(2) False have "w AND m = m" by (auto simp: one_bit_def flag_bit split: if_splits)
  ultimately show ?thesis using False loops_one [OF handles_flag [OF cs i]] by (simp add: flag_tags_def)
qed

text \<open>The entries of a list that are not null.\<close>

definition entries :: "('a \<Rightarrow> 'a) \<Rightarrow> 'a option list \<Rightarrow> 'a option list" where
  "entries n xs = map (map_option n) (filter (\<lambda>p. p \<noteq> None) xs)"

lemma loops_list:
  assumes sp: "sp_seq (map (\<lambda>p. sp_elem OPTIONAL p f) xs) = Sp_ok es" and m: "member get upd"
    and h: "\<And>p es' x. Some p \<in> set xs \<Longrightarrow> f p = Sp_ok es' \<Longrightarrow> length es' \<le> length es \<Longrightarrow>
      handles K cs es' i x (upd (\<lambda>_. get x @ [Some (n p)]) x)"
  shows "loops K cs es x (upd (\<lambda>_. get x @ entries n xs) x) (replicate (length (entries n xs)) i)"
  using sp h
proof (induction xs arbitrary: x es)
  case Nil
  moreover have "upd (\<lambda>_. get x) x = x" by (rule member_same [OF m]) simp
  ultimately show ?case using loops_nil by (simp add: sp_seq_nil entries_def)
next
  case (Cons p xs)
  from Cons.prems(1) obtain a b where ab: "sp_elem OPTIONAL p f = Sp_ok a" "es = a @ b"
    "sp_seq (map (\<lambda>p. sp_elem OPTIONAL p f) xs) = Sp_ok b" by (auto simp: sp_seq_cons)
  have h: "handles K cs es' i x (upd (\<lambda>_. get x @ [Some (n q)]) x)"
    if "Some q \<in> set xs" "f q = Sp_ok es'" "length es' \<le> length b" for q es' x
  proof -
    have "Some q \<in> set (p # xs)" using that(1) by simp
    moreover have "length es' \<le> length es" using that(3) by (simp only: ab(2) length_append)
    ultimately show ?thesis using that(2) Cons.prems(2) by blast
  qed
  have IH: "loops K cs b x (upd (\<lambda>_. get x @ entries n xs) x) (replicate (length (entries n xs)) i)" for x
    by (rule Cons.IH [OF ab(3) h])
  show ?case
  proof (cases p)
    case None
    with ab(1) have "a = []" by (simp add: sp_elem_def)
    with IH [of x] None ab(2) show ?thesis by (simp add: entries_def)
  next
    case (Some y)
    with ab(1) have fy: "f y = Sp_ok a" by (simp add: sp_elem_def)
    let ?x = "upd (\<lambda>_. get x @ [Some (n y)]) x"
    have "Some y \<in> set (p # xs)" "length a \<le> length es" by (simp_all add: Some ab(2))
    then have "handles K cs a i x ?x" using fy Cons.prems(2) by blast
    then have "loops K cs a x ?x [i]" by (rule loops_one)
    from loops_append [OF this IH [of ?x]] show ?thesis
      using Some by (simp add: ab(2) entries_def member_get [OF m] member_comp [OF m] replicate_append_same)
  qed
qed

lemma entries_cong [fundef_cong]:
  "xs = ys \<Longrightarrow> (\<And>y. Some y \<in> set ys \<Longrightarrow> f y = g y) \<Longrightarrow> entries f xs = entries g ys"
  unfolding entries_def by (rule map_cong) (auto intro!: option.map_cong0)

text \<open>The tags that have been handled.\<close>

lemma tags_seen [simp]:
  "set (opt_tag p i) = (if p = None then {} else {i})" "set (flag_tags w m i) = (if w AND m = 0 then {} else {i})"
  by (simp_all add: opt_tag_def flag_tags_def)

section \<open>Character data\<close>

definition string_pc :: "(byte list \<Rightarrow> 'c) \<Rightarrow> byte list \<Rightarrow> 'c Pcdata" where
  "string_pc mk s = \<lparr>pd_contentType = SML_PCDATA_STRING, pd_extension = SML_EXT_UNDEFINED,
     pd_length = int (length s), pd_content = Some (mk (s @ [0]))\<rparr>"

definition opaque_pc :: "(byte list \<Rightarrow> 'c) \<Rightarrow> byte list \<Rightarrow> 'c Pcdata" where
  "opaque_pc mk bs = \<lparr>pd_contentType = SML_PCDATA_OPAQUE, pd_extension = SML_EXT_UNDEFINED,
     pd_length = int (length bs), pd_content = Some (mk (bs @ [0]))\<rparr>"

text \<open>What the receiver has instead of the data that were sent.\<close>

definition nrm_bytes :: "(byte list \<Rightarrow> 'c) \<Rightarrow> ('c \<Rightarrow> byte list option) \<Rightarrow> 'c Pcdata \<Rightarrow> 'c Pcdata" where
  "nrm_bytes mk as_bytes p =
     (let bs = (case Option.bind (pd_content p) as_bytes of None \<Rightarrow> [] | Some bs \<Rightarrow> bs) in
      case pd_contentType p of
        SML_PCDATA_UNDEFINED \<Rightarrow> zero_pcdata
      | SML_PCDATA_STRING \<Rightarrow> string_pc mk (takeWhile (\<lambda>b. b \<noteq> 0) bs)
      | _ \<Rightarrow> opaque_pc mk (take (nat (pd_length p)) bs))"

lemma builds_nothing: "builds K (build_pcdata mk sub) ext i [] (Some zero_pcdata)"
  unfolding builds_def
proof (intro allI impI, elim conjE)
  fix st rest d
  assume r: "dec_ready K ext (i # st) (doc_bytes ext ([] @ [Ev_end]) @ rest) d" and s: "started ext i d"
    and len: "Suc (length st) + length ([] :: wb_event list) < 2 ^ 31 - 25"
  from next_ahead [OF ahead_of_ready, of K ext "i # st" Ev_end "[]" rest d st] r len obtain d' where
    d': "nextToken d = Some (SML_ERR_OK, d')" "dec_ready K ext st rest d'" "tok_of (i # st) Ev_end (curtok d')" by auto
  then show "\<exists>d'. build_pcdata mk sub None d = Some (SML_ERR_OK, Some zero_pcdata, d') \<and>
      at_tag_end K (ext_after ext []) st rest d'"
    using s dec_malloc_ready [OF d'(2)]
    by (auto simp: build_pcdata_def started_def tok_classes pcdata_end_def at_tag_end_def)
qed

lemma builds_content:
  assumes ok: "ev_ok e" and e: "e = Ev_str s \<and> q = str_pcdata s \<or> e = Ev_opaque s \<and> q = opaque_pcdata s"
  shows "builds K (build_pcdata mk sub) ext i [e]
    (Some \<lparr>pd_contentType = pc_contentType q, pd_extension = SML_EXT_UNDEFINED, pd_length = pc_length q,
           pd_content = Some (mk (pc_content q))\<rparr>)"
  unfolding builds_def
proof (intro allI impI, elim conjE)
  fix st rest d
  assume r: "dec_ready K ext (i # st) (doc_bytes ext ([e] @ [Ev_end]) @ rest) d" and s: "started ext i d"
    and len: "Suc (length st) + length [e] < 2 ^ 31 - 25"
  have ev: "ev_page_ok e" "ev_stack e (i # st) = Some (i # st)" "ev_ext ext e = ext" using e by auto
  from next_ahead [OF ahead_of_ready, of K ext "i # st" e "[Ev_end]" rest d "i # st"] r len ok ev obtain d1 where
    d1: "nextToken d = Some (SML_ERR_OK, d1)" "dec_ready K ext (i # st) (doc_bytes ext [Ev_end] @ rest) d1"
      "tok_of (i # st) e (curtok d1)" by auto
  from next_ahead [OF ahead_of_ready [OF d1(2)], of st] len obtain d2 where
    d2: "nextToken d1 = Some (SML_ERR_OK, d2)" "dec_ready K ext st rest d2" "tok_of (i # st) Ev_end (curtok d2)" by auto
  have t: "IS_CONTENT (curtok d1)" "tok_data d1 = Some q" "\<not> IS_CONTENT (curtok d2)" "IS_END_TOK (curtok d2)"
    "pc_extension q = Some SML_EXT_UNDEFINED"
    using d1(3) d2(3) e by (auto simp: tok_classes tok_data_def str_pcdata_def opaque_pcdata_def)
  have "content_loop None d1 = Some (SML_ERR_OK, Some q, d2)"
    using t d2(1) by (simp add: content_loop.simps [of None d1] content_loop.simps [of "Some q" d2])
  then show "\<exists>d'. build_pcdata mk sub None d = Some (SML_ERR_OK, Some \<lparr>pd_contentType = pc_contentType q,
        pd_extension = SML_EXT_UNDEFINED, pd_length = pc_length q, pd_content = Some (mk (pc_content q))\<rparr>, d') \<and>
      at_tag_end K (ext_after ext [e]) st rest d'"
    using d1(1) d2(2) t s ev(3)
    by (auto simp: build_pcdata_def started_def IS_EMPTY_def pcdata_end_def at_tag_end_def to_pcdata_def)
qed

lemma takeWhile_c_str: "c_str bs = Some s \<Longrightarrow> takeWhile (\<lambda>b. b \<noteq> 0) bs = s \<and> 0 \<notin> set s"
  by (induction bs arbitrary: s) (auto split: if_splits)

text \<open>The data of a member that is no sub-DTD.\<close>

lemma builds_body:
  assumes sp: "body_spec as_bytes build p = Sp_ok es" and t: "pd_contentType p \<noteq> SML_PCDATA_EXTENSION"
  shows "builds K (build_pcdata mk sub) ext i es (Some (nrm_bytes mk as_bytes p))"
proof -
  have str: "builds K (build_pcdata mk sub) ext i [Ev_str s] (Some (string_pc mk s))" if "0 \<notin> set s" for s
    using builds_content [of "Ev_str s" s "str_pcdata s"] that by (simp add: str_pcdata_def string_pc_def)
  have opq: "builds K (build_pcdata mk sub) ext i [Ev_opaque s] (Some (opaque_pc mk s))" if "length s < 2 ^ 28" for s
    using builds_content [of "Ev_opaque s" s "opaque_pcdata s"] that by (simp add: opaque_pcdata_def opaque_pc_def)
  have q: "q = Option.bind (pd_content p) as_bytes" if "content_ptr as_bytes (pd_content p) = Some q" for q
    using that by (auto simp: content_ptr_def split: option.splits)
  have bytes: "builds K (build_pcdata mk sub) ext i es (Some (opaque_pc mk (take (nat (pd_length p))
      (case Option.bind (pd_content p) as_bytes of None \<Rightarrow> [] | Some bs \<Rightarrow> bs))))"
    if "content_ptr as_bytes (pd_content p) = Some q" "opaque_spec q (pd_length p) = Sp_ok es" for q
  proof -
    from that(2) obtain bs where bs: "ptr_bytes q (pd_length p) = Some bs" "pd_length p < 2 ^ 28" "es = [Ev_opaque bs]"
      by (auto simp: opaque_spec_def split: option.splits if_splits)
    with ptr_bytes_length [OF bs(1)] opq [of bs] q [OF that(1)] show ?thesis
      by (auto simp: ptr_bytes_def split: option.splits if_splits)
  qed
  show ?thesis
  proof (cases "pd_contentType p")
    case SML_PCDATA_UNDEFINED
    with sp have "es = []" by (auto simp: body_spec_def split: if_splits)
    with SML_PCDATA_UNDEFINED builds_nothing show ?thesis by (simp add: nrm_bytes_def)
  next
    case SML_PCDATA_STRING
    with sp obtain r where r: "content_ptr as_bytes (pd_content p) = Some r" "string_spec r = Sp_ok es"
      by (auto simp: body_spec_def split: option.splits)
    then obtain s where "es = [Ev_str s]" "0 \<notin> set s"
      "takeWhile (\<lambda>b. b \<noteq> 0) (case r of None \<Rightarrow> [] | Some bs \<Rightarrow> bs) = s"
      using takeWhile_c_str by (auto simp: string_spec_def split: option.splits)
    with str [of s] SML_PCDATA_STRING q [OF r(1)] show ?thesis by (simp add: nrm_bytes_def)
  next
    case SML_PCDATA_OPAQUE
    with sp obtain r where r: "content_ptr as_bytes (pd_content p) = Some r" "opaque_spec r (pd_length p) = Sp_ok es"
      by (auto simp: body_spec_def split: option.splits)
    from bytes [OF r] SML_PCDATA_OPAQUE show ?thesis by (simp add: nrm_bytes_def)
  next
    case SML_PCDATA_CDATA
    with sp obtain r where r: "content_ptr as_bytes (pd_content p) = Some r" "opaque_spec r (pd_length p) = Sp_ok es"
      by (auto simp: body_spec_def split: option.splits)
    from bytes [OF r] SML_PCDATA_CDATA show ?thesis by (simp add: nrm_bytes_def)
  qed (use t in simp)
qed

lemma element_node:
  assumes "sp_node ext i [p] = Sp_ok es" "i \<in> known_tags ext" "plain_ext ext"
    and "\<And>fs. p = Sp_ok fs \<Longrightarrow> builds K b ext i fs y"
  shows "element K b ext i es y"
  using assms by (auto simp: element_def sp_simps)

text \<open>
  A sub-DTD as character data: its first start tag is given back and the decoder of the sub-DTD reads on
  from there to the closing tag of the data.
\<close>

definition reads_sub ::
    "ctx \<Rightarrow> (XltDecoder \<Rightarrow> (ret \<times> 'c option \<times> XltDecoder) option) \<Rightarrow> wb_event list \<Rightarrow> 'c option \<Rightarrow> bool" where
  "reads_sub K sub es c \<longleftrightarrow>
     (\<forall>cur i st rest d. ahead_of K cur (i # st) (es @ [Ev_end]) rest d \<and> tok_type (curtok d) = TOK_UNDEF \<and>
        Suc (length st) + length es < 2 ^ 31 - 25 \<longrightarrow>
        (\<exists>d'. sub d = Some (SML_ERR_OK, c, d') \<and> at_tag_end K (ext_after cur es) st rest d'))"

lemma builds_ext:
  assumes es: "es = Ev_start e j # fs" and i: "j \<in> known_tags e" "plain_ext e" "plain_ext ext"
    and sub: "reads_sub K (sub e) es c"
  shows "builds K (build_pcdata mk sub) ext i es (Some \<lparr>pd_contentType = SML_PCDATA_EXTENSION, pd_extension = e,
    pd_length = 0, pd_content = c\<rparr>)"
  unfolding builds_def
proof (intro allI impI, elim conjE)
  fix st rest d
  assume r: "dec_ready K ext (i # st) (doc_bytes ext (es @ [Ev_end]) @ rest) d" and s: "started ext i d"
    and len: "Suc (length st) + length es < 2 ^ 31 - 25"
  from start_back [of K ext "i # st" e j "fs @ [Ev_end]" rest d] r i len obtain d1 d2 where
    d1: "nextToken d = Some (SML_ERR_OK, d1)" "started e j d1"
    and d2: "discardToken d1 = Some (SML_ERR_OK, d2)" "tok_type (curtok d2) = TOK_UNDEF"
      "ahead_of K ext (i # st) (es @ [Ev_end]) rest d2" by (auto simp: es)
  from sub d2(2,3) len obtain d3 where
    d3: "sub e d2 = Some (SML_ERR_OK, c, d3)" "at_tag_end K (ext_after ext es) st rest d3"
    unfolding reads_sub_def by blast
  have "build_pcdata mk sub None d = Some (SML_ERR_OK, Some \<lparr>pd_contentType = SML_PCDATA_EXTENSION,
      pd_extension = e, pd_length = 0, pd_content = c\<rparr>, d3)"
    using s d1 d2(1) ahead_of_malloc [OF d2(3)] d3
    by (simp add: build_pcdata_def started_def tok_classes ext_content_def pcdata_end_def at_tag_end_def)
  with d3(2) show "\<exists>d'. build_pcdata mk sub None d = Some (SML_ERR_OK, Some \<lparr>pd_contentType = SML_PCDATA_EXTENSION,
      pd_extension = e, pd_length = 0, pd_content = c\<rparr>, d') \<and> at_tag_end K (ext_after ext es) st rest d'" by blast
qed

section \<open>Series of specifications\<close>

text \<open>The loop on the events of a series of parts; the rules below take them one at a time.\<close>

definition parse ::
    "ctx \<Rightarrow> 'a cases \<Rightarrow> spec list \<Rightarrow> 'a \<Rightarrow> 'a \<Rightarrow> XltTagID list \<Rightarrow> bool" where
  "parse K cs ps x y t \<longleftrightarrow> (\<forall>es. sp_seq ps = Sp_ok es \<longrightarrow> loops K cs es x y t)"

lemma parse_nil: "parse K cs [] x x []"
  by (simp add: parse_def sp_seq_nil loops_nil)

lemma parse_cons:
  "(\<And>es. p = Sp_ok es \<Longrightarrow> loops K cs es x x' t) \<Longrightarrow> parse K cs ps x' y u \<Longrightarrow> parse K cs (p # ps) x y (u @ t)"
  by (auto simp: parse_def sp_seq_cons intro: loops_append)

lemma parse_append: "parse K cs ps x x' t \<Longrightarrow> parse K cs qs x' y u \<Longrightarrow> parse K cs (ps @ qs) x y (u @ t)"
  by (auto simp: parse_def sp_seq_append intro: loops_append)

lemma parse_elem:
  assumes "\<And>es y. p = Some y \<Longrightarrow> f y = Sp_ok es \<Longrightarrow> element K b ext i es (Some (n y))"
    "map_of cs i = Some (into b get upd)" "member get upd" "get x = None"
    "parse K cs ps (upd (\<lambda>_. map_option n p) x) z u"
  shows "parse K cs (sp_elem ro p f # ps) x z (u @ opt_tag p i)"
  using assms(5) by (rule parse_cons [rotated]) (rule loops_elem [OF _ assms(2,3,4,1)])

lemma parse_bind:
  assumes "\<And>es y. p = Some y \<Longrightarrow> f y = Sp_ok es \<Longrightarrow> (if n y = None then es = [] else element K b ext i es (n y))"
    "map_of cs i = Some (into b get upd)" "member get upd" "get x = None"
    "parse K cs ps (upd (\<lambda>_. Option.bind p n) x) z u"
  shows "parse K cs (sp_elem ro p f # ps) x z (u @ opt_tag (Option.bind p n) i)"
  using assms(5) by (rule parse_cons [rotated]) (rule loops_bind [OF _ assms(2,3,4,1)])

lemma parse_none: "parse K cs ps x z u \<Longrightarrow> parse K cs (sp_elem OPTIONAL None f # ps) x z u"
  by (simp add: parse_def sp_seq_cons sp_elem_def)

lemma parse_flag:
  assumes "map_of cs i = Some (flag_case m upd)" "member get upd" "one_bit m" "i \<in> known_tags ext" "plain_ext ext"
    "parse K cs ps (upd (\<lambda>f. f OR (w AND m)) x) z u"
  shows "parse K cs (sp_flag ext i m w # ps) x z (u @ flag_tags w m i)"
  using assms(6) by (rule parse_cons [rotated]) (rule loops_flag [OF _ assms(1-5)])

lemma builds_parse:
  assumes "parse K cs ps zero y t" "set req \<subseteq> set t" "sp_seq ps = Sp_ok es"
  shows "builds K (build_struct em zero cs req) ext i es (Some y)"
  using assms by (intro builds_struct) (auto simp: parse_def)

lemma element_struct:
  assumes "sp_node ext i ps = Sp_ok es" "i \<in> known_tags ext" "plain_ext ext" "parse K cs ps zero y t" "set req \<subseteq> set t"
  shows "element K (build_struct em zero cs req) ext i es (Some y)"
  using assms by (auto simp: element_def sp_node_ok intro: builds_parse)

section \<open>Leaves of a sub-DTD\<close>

definition nrm_leaf :: "leaf \<Rightarrow> leaf" where
  "nrm_leaf = nrm_bytes (\<lambda>bs. bs) Some"

lemma element_leaf:
  assumes "sp_node ext i [body_spec Some (\<lambda>_ _. Sp_unspec) p] = Sp_ok es" "i \<in> known_tags ext" "plain_ext ext"
  shows "element K build_leaf ext i es (Some (nrm_leaf p))"
proof (rule element_node [OF assms])
  fix fs
  assume fs: "body_spec Some (\<lambda>_ _. Sp_unspec) p = Sp_ok fs"
  then have "pd_contentType p \<noteq> SML_PCDATA_EXTENSION" by (auto simp: body_spec_def)
  with builds_body [OF fs] show "builds K build_leaf ext i fs (Some (nrm_leaf p))"
    unfolding build_leaf_def nrm_leaf_def .
qed

lemma loops_leaf:
  assumes "leaf_spec ext i ro p = Sp_ok es" "map_of cs i = Some (into build_leaf get upd)"
    "member get upd" "get x = None" "i \<in> known_tags ext" "plain_ext ext"
  shows "loops K cs es x (upd (\<lambda>_. map_option nrm_leaf p) x) (opt_tag p i)"
  by (rule loops_elem [OF assms(1) [unfolded leaf_spec_def] assms(2,3,4)]) (rule element_leaf [OF _ assms(5,6)])

lemma loops_leaves:
  assumes sp: "sp_seq (map (leaf_spec ext i OPTIONAL) xs) = Sp_ok es"
    and cs: "map_of cs i = Some (into_list buildPCDataList get upd)" and m: "member get upd"
    and i: "i \<in> known_tags ext" "plain_ext ext"
  shows "loops K cs es x (upd (\<lambda>_. get x @ entries nrm_leaf xs) x) (replicate (length (entries nrm_leaf xs)) i)"
proof (rule loops_list [OF _ m])
  show "sp_seq (map (\<lambda>p. sp_elem OPTIONAL p (\<lambda>p. sp_node ext i [body_spec Some (\<lambda>_ _. Sp_unspec) p])) xs) = Sp_ok es"
    using sp by (simp add: leaf_spec_def [abs_def])
  show "handles K cs es i x (upd (\<lambda>_. get x @ [Some (nrm_leaf p)]) x)"
    if "sp_node ext i [body_spec Some (\<lambda>_ _. Sp_unspec) p] = Sp_ok es" for p es x
    using handles_list [OF cs [unfolded buildPCDataList_def] element_leaf [OF that i]] .
qed

lemma parse_leaf:
  assumes "map_of cs i = Some (into build_leaf get upd)" "member get upd" "get x = None"
    "i \<in> known_tags ext" "plain_ext ext" "parse K cs ps (upd (\<lambda>_. map_option nrm_leaf p) x) z u"
  shows "parse K cs (leaf_spec ext i ro p # ps) x z (u @ opt_tag p i)"
  using assms(6) by (rule parse_cons [rotated]) (rule loops_leaf [OF _ assms(1-5)])

lemma parse_leaves:
  assumes "map_of cs i = Some (into_list buildPCDataList get upd)" "member get upd"
    "i \<in> known_tags ext" "plain_ext ext" "parse K cs ps (upd (\<lambda>_. get x @ entries nrm_leaf xs) x) z u"
  shows "parse K cs (map (leaf_spec ext i OPTIONAL) xs @ ps) x z (u @ replicate (length (entries nrm_leaf xs)) i)"
  by (rule parse_append [OF _ assms(5)]) (simp add: parse_def loops_leaves [OF _ assms(1-4)])

end
