(* ===== verification/Decoder_Dtd.thy ===== *)
theory Decoder_Dtd
  imports Decoder_Parts Encoder_Doc
begin

text \<open>
  The decoders of meta information and of management trees read what the encoders of \<open>Encoder_Dtd\<close> write.
\<close>

section \<open>Proof rules\<close>

lemma parse_done: "x = y \<Longrightarrow> parse K cs [] x y []"
  by (simp add: parse_nil)

lemmas parse_rules = parse_done parse_leaf parse_leaves parse_flag

section \<open>Meta information\<close>

lemma member_anchor [simp]: "member mia_last mia_last_update" "member mia_next mia_next_update"
  by (auto simp: member_def intro!: SmlMetInfAnchor.equality)

lemma member_mem [simp]: "member mim_free mim_free_update" "member mim_freeid mim_freeid_update"
  by (auto simp: member_def intro!: SmlMetInfMem.equality)

lemma member_metinf [simp]:
  "member mi_format mi_format_update" "member mi_type mi_type_update" "member mi_mark mi_mark_update"
  "member mi_size mi_size_update" "member mi_nextnonce mi_nextnonce_update" "member mi_version mi_version_update"
  "member mi_maxmsgsize mi_maxmsgsize_update" "member mi_maxobjsize mi_maxobjsize_update" "member mi_mem mi_mem_update"
  "member mi_emi mi_emi_update" "member mi_anchor mi_anchor_update"
  by (auto simp: member_def intro!: SmlMetInfMetInf.equality)

definition nrm_anchor :: "SmlMetInfAnchor \<Rightarrow> SmlMetInfAnchor" where
  "nrm_anchor a = \<lparr>mia_last = map_option nrm_leaf (mia_last a), mia_next = map_option nrm_leaf (mia_next a)\<rparr>"

definition nrm_mem :: "SmlMetInfMem \<Rightarrow> SmlMetInfMem" where
  "nrm_mem m = \<lparr>mim_shared = None, mim_free = map_option nrm_leaf (mim_free m),
     mim_freeid = map_option nrm_leaf (mim_freeid m)\<rparr>"

definition nrm_metinf :: "SmlMetInfMetInf \<Rightarrow> SmlMetInfMetInf" where
  "nrm_metinf m = \<lparr>mi_format = map_option nrm_leaf (mi_format m), mi_type = map_option nrm_leaf (mi_type m),
     mi_mark = map_option nrm_leaf (mi_mark m), mi_size = map_option nrm_leaf (mi_size m),
     mi_nextnonce = map_option nrm_leaf (mi_nextnonce m), mi_version = map_option nrm_leaf (mi_version m),
     mi_maxmsgsize = map_option nrm_leaf (mi_maxmsgsize m), mi_maxobjsize = map_option nrm_leaf (mi_maxobjsize m),
     mi_mem = map_option nrm_mem (mi_mem m), mi_emi = entries nrm_leaf (mi_emi m),
     mi_anchor = map_option nrm_anchor (mi_anchor m)\<rparr>"

lemma element_anchor:
  "anchor_spec a = Sp_ok es \<Longrightarrow> element K buildMetInfAnchorCmd SML_EXT_METINF TN_METINF_ANCHOR es (Some (nrm_anchor a))"
  unfolding buildMetInfAnchorCmd_def anchor_spec_def mi_leaf_def
  by (erule element_struct)
     (rule parse_rules | simp add: zero_anchor_def known_metinf nrm_anchor_def)+

lemma parse_gone: "p = None \<Longrightarrow> parse K cs ps x z u \<Longrightarrow> parse K cs (sp_elem OPTIONAL p f # ps) x z u"
  by (simp add: parse_none)

lemma element_mem:
  "mem_spec m = Sp_ok es \<Longrightarrow> mim_shared m = None \<Longrightarrow>
     element K buildMetInfMemCmd SML_EXT_METINF TN_METINF_MEM es (Some (nrm_mem m))"
  unfolding buildMetInfMemCmd_def mem_spec_def mi_leaf_def
  by (erule element_struct)
     (rule parse_rules parse_gone | simp add: zero_mem_def known_metinf nrm_mem_def)+

text \<open>The type of an item may not announce a tree in XML.\<close>

definition type_ok :: "leaf option \<Rightarrow> bool" where
  "type_ok p = (case Option.bind (map_option nrm_leaf p) pd_content of
     None \<Rightarrow> True | Some c \<Rightarrow> c_string c \<noteq> Some META_TYPE_TNDS_XML)"

lemma c_string_end: "\<exists>s. c_string (bs @ [0]) = Some s"
  by (induction bs) auto

lemma c_string_nrm: "pd_content (nrm_leaf p) = Some c \<Longrightarrow> \<exists>s. c_string c = Some s"
  using c_string_end
  by (auto simp: nrm_leaf_def nrm_bytes_def Let_def string_pc_def opaque_pc_def zero_pcdata_def
      split: SmlPcdataType.splits)

lemma parse_type:
  assumes "mi_type x = None" "type_ok p"
    "parse K metinf_cases ps (mi_type_update (\<lambda>_. map_option nrm_leaf p) x) z u"
  shows "parse K metinf_cases (leaf_spec SML_EXT_METINF TN_METINF_TYPE OPTIONAL p # ps) x z (u @ opt_tag p TN_METINF_TYPE)"
  using assms(3)
proof (rule parse_cons [rotated])
  fix es
  assume es: "leaf_spec SML_EXT_METINF TN_METINF_TYPE OPTIONAL p = Sp_ok es"
  show "loops K metinf_cases es x (mi_type_update (\<lambda>_. map_option nrm_leaf p) x) (opt_tag p TN_METINF_TYPE)"
  proof (cases p)
    case None
    with es have "es = []" by (simp add: leaf_spec_def sp_elem_def)
    moreover have "mi_type_update (\<lambda>_. None) x = x" using assms(1) by simp
    ultimately show ?thesis by (simp add: None opt_tag_def loops_nil)
  next
    case (Some q)
    have el: "element K build_leaf SML_EXT_METINF TN_METINF_TYPE es (Some (nrm_leaf q))"
      using es by (intro element_leaf) (simp_all add: leaf_spec_def sp_elem_def Some known_metinf)
    have "type_case x d = Some (SML_ERR_OK, mi_type_update (\<lambda>_. Some (nrm_leaf q)) x, d')"
      if "build_leaf None d = Some (SML_ERR_OK, Some (nrm_leaf q), d')" "xd_smlEncoding d' = xd_tndsEncoding d'" for d d'
      using that assms(1,2) c_string_nrm [of q]
      by (auto simp: type_case_def into_def type_ok_def Some split: option.splits)
    then have "handles K metinf_cases es TN_METINF_TYPE x (mi_type_update (\<lambda>_. Some (nrm_leaf q)) x)"
      by (intro handles_element [OF el]) (simp add: switch_def metinf_cases_def)
    from loops_one [OF this] show ?thesis by (simp add: Some opt_tag_def)
  qed
qed

definition good_metinf :: "SmlMetInfMetInf \<Rightarrow> bool" where
  "good_metinf m \<longleftrightarrow> type_ok (mi_type m) \<and> (case mi_mem m of None \<Rightarrow> True | Some x \<Rightarrow> mim_shared x = None)"

lemma parse_metinf:
  assumes "metinf_spec m = Sp_ok es" "good_metinf m"
  shows "\<exists>t. loops K metinf_cases es zero_metinf (nrm_metinf m) t \<and> TN_METINF_METINF \<notin> set t"
proof -
  have "\<exists>t. parse K metinf_cases
     ([mi_leaf TN_METINF_FORMAT OPTIONAL (mi_format m), mi_leaf TN_METINF_TYPE OPTIONAL (mi_type m),
       mi_leaf TN_METINF_MARK OPTIONAL (mi_mark m), mi_leaf TN_METINF_SIZE OPTIONAL (mi_size m),
       sp_elem OPTIONAL (mi_anchor m) anchor_spec,
       mi_leaf TN_METINF_VERSION OPTIONAL (mi_version m), mi_leaf TN_METINF_NEXTNONCE OPTIONAL (mi_nextnonce m),
       mi_leaf TN_METINF_MAXMSGSIZE OPTIONAL (mi_maxmsgsize m),
       mi_leaf TN_METINF_MAXOBJSIZE OPTIONAL (mi_maxobjsize m)] @
      map (mi_leaf TN_METINF_EMI OPTIONAL) (mi_emi m) @
      [sp_elem OPTIONAL (mi_mem m) mem_spec]) zero_metinf (nrm_metinf m) t \<and> TN_METINF_METINF \<notin> set t"
    using assms(2) unfolding mi_leaf_def append_Cons append_Nil good_metinf_def
    by (intro exI conjI)
      (rule parse_type parse_rules parse_elem | erule element_anchor element_mem
       | simp add: zero_metinf_def metinf_cases_def known_metinf nrm_metinf_def)+
  with assms(1) show ?thesis by (auto simp: metinf_spec_def parse_def)
qed

text \<open>As character data; the closing tag of the data ends the loop.\<close>

lemma reads_metinf:
  assumes "metinf_spec m = Sp_ok es" "good_metinf m"
  shows "reads_sub K (sub_document SML_EXT_METINF) es (Some (C_metinf (nrm_metinf m)))"
  unfolding reads_sub_def
proof (intro allI impI, elim conjE)
  fix cur i st rest d
  assume r: "ahead_of K cur (i # st) (es @ [Ev_end]) rest d" and t: "tok_type (curtok d) = TOK_UNDEF"
    and len: "Suc (length st) + length es < 2 ^ 31 - 25"
  from parse_metinf [OF assms] obtain t where
    t': "loops K metinf_cases es zero_metinf (nrm_metinf m) t" "TN_METINF_METINF \<notin> set t" by blast
  from build_children_ok [OF t'(1), of "[]" cur i st "[]" rest d] r len obtain d' where
    d': "build_children metinf_cases [] zero_metinf d = Some (SML_ERR_OK, nrm_metinf m, t, d')"
      "at_tag_end K (ext_after cur es) st rest d'" by auto
  then show "\<exists>d'. sub_document SML_EXT_METINF d = Some (SML_ERR_OK, Some (C_metinf (nrm_metinf m)), d') \<and>
      at_tag_end K (ext_after cur es) st rest d'"
    using ahead_of_malloc [OF r] t t'(2)
    by (auto simp: sub_document_def as_content_def buildMetInfMetInfCmd_def IS_EMPTY_def)
qed

section \<open>Management trees\<close>

lemma member_rtprops [simp]:
  "member rt_acl rt_acl_update" "member rt_format rt_format_update" "member rt_name rt_name_update"
  "member rt_size rt_size_update" "member rt_title rt_title_update" "member rt_tstamp rt_tstamp_update"
  "member rt_type rt_type_update" "member rt_verno rt_verno_update"
  by (auto simp: member_def intro!: SmlDmTndRTProps.equality)

lemma member_type [simp]: "member tt_mime tt_mime_update" "member tt_ddfname tt_ddfname_update"
  by (auto simp: member_def intro!: SmlDmTndType.equality)

lemma member_tnd [simp]:
  "member tnd_verdtd tnd_verdtd_update" "member tnd_man tnd_man_update" "member tnd_mod tnd_mod_update"
  "member tnd_nodelist tnd_nodelist_update"
  by (auto simp: member_def intro!: SmlDmTnd.equality)

lemma member_node [simp]:
  "member nd_nodename nd_nodename_update" "member nd_path nd_path_update" "member nd_rtprops nd_rtprops_update"
  "member nd_value nd_value_update" "member nd_nodelist nd_nodelist_update"
  by (auto simp: member_def nd_nodename_update_def nd_path_update_def nd_rtprops_update_def nd_value_update_def
      nd_nodelist_update_def SmlDmTndNode.expand)

text \<open>A builder of at most one child.\<close>

lemma builds_first_none: "builds K (first_child zero child) ext i [] (Some zero)"
  unfolding builds_def
proof (intro allI impI, elim conjE)
  fix st rest d
  assume r: "dec_ready K ext (i # st) (doc_bytes ext ([] @ [Ev_end]) @ rest) d" and s: "started ext i d"
    and len: "Suc (length st) + length ([] :: wb_event list) < 2 ^ 31 - 25"
  from next_ahead [OF ahead_of_ready, of K ext "i # st" Ev_end "[]" rest d st] r len obtain d' where
    d': "nextToken d = Some (SML_ERR_OK, d')" "dec_ready K ext st rest d'" "tok_of (i # st) Ev_end (curtok d')" by auto
  with s dec_malloc_ready [OF r] show "\<exists>d'. first_child zero child None d = Some (SML_ERR_OK, Some zero, d') \<and>
      at_tag_end K (ext_after ext []) st rest d'"
    by (auto simp: first_child_def started_def tok_classes at_tag_end_def)
qed

lemma builds_first:
  assumes h: "handles K cs es j zero x"
    and child: "\<And>d d'. \<not> IS_CONTENT (curtok d) \<Longrightarrow> dec_malloc d = (True, d) \<Longrightarrow>
      switch cs (tok_tagid (curtok d)) zero d = Some (SML_ERR_OK, x, d') \<Longrightarrow> child d = at_end d' x"
  shows "builds K (first_child zero child) ext i es (Some x)"
  unfolding builds_def
proof (intro allI impI, elim conjE)
  fix st rest d
  assume r: "dec_ready K ext (i # st) (doc_bytes ext (es @ [Ev_end]) @ rest) d" and s: "started ext i d"
    and len: "Suc (length st) + length es < 2 ^ 31 - 25"
  from h obtain e body where e: "es = e # body" "first_ok e j" and
    sw: "\<And>cur st st' rest d. ev_stack e st = Some st' \<and>
           dec_ready K (ev_ext cur e) st' (doc_bytes (ev_ext cur e) body @ rest) d \<and> tok_of st e (curtok d) \<and>
           length st + length es < 2 ^ 31 - 25 \<Longrightarrow>
           (\<exists>d'. switch cs j zero d = Some (SML_ERR_OK, x, d') \<and> dec_ready K (ext_after cur es) st rest d')"
    unfolding handles_def by blast
  from e(2) obtain st' where st': "ev_stack e (i # st) = Some st'" by (auto simp: first_ok_def)
  have "ahead_of K ext (i # st) (e # body @ [Ev_end]) rest d" using r by (intro ahead_of_ready) (simp add: e(1))
  from next_ahead [OF this _ _ st'] e(2) len obtain d1 where
    d1: "nextToken d = Some (SML_ERR_OK, d1)" "tok_of (i # st) e (curtok d1)"
      "dec_ready K (ev_ext ext e) st' (doc_bytes (ev_ext ext e) body @ doc_bytes (ext_after ext es) [Ev_end] @ rest) d1"
    by (auto simp: first_ok_def doc_bytes_append e(1))
  from sw [of "i # st" st' ext "doc_bytes (ext_after ext es) [Ev_end] @ rest" d1] st' d1(2,3) len obtain d2 where
    d2: "switch cs j zero d1 = Some (SML_ERR_OK, x, d2)"
      "dec_ready K (ext_after ext es) (i # st) (doc_bytes (ext_after ext es) [Ev_end] @ rest) d2" by auto
  have tok: "\<not> IS_CONTENT (curtok d1)" "\<not> IS_END_TOK (curtok d1)" "tok_tagid (curtok d1) = j"
    using d1(2) e(2) by (auto simp: first_ok_def tok_classes)
  from next_ahead [OF ahead_of_ready [OF d2(2)], of st] len obtain d3 where
    d3: "nextToken d2 = Some (SML_ERR_OK, d3)" "dec_ready K (ext_after ext es) st rest d3"
      "tok_of (i # st) Ev_end (curtok d3)" by auto
  have "child d1 = at_end d2 x" using tok d2(1) dec_malloc_ready [OF d1(3)] by (intro child) simp_all
  with d1(1) d3 s tok(2) dec_malloc_ready [OF r]
  show "\<exists>d'. first_child zero child None d = Some (SML_ERR_OK, Some x, d') \<and> at_tag_end K (ext_after ext es) st rest d'"
    by (auto simp: first_child_def at_end_def started_def tok_classes at_tag_end_def)
qed

text \<open>A format is the name of its tag.\<close>

definition nrm_format :: "SmlDmTndFormat \<Rightarrow> SmlDmTndFormat option" where
  "nrm_format f = Option.bind (Option.bind (tf_value f) pd_content) (\<lambda>bs. map_option (\<lambda>s.
     \<lparr>tf_value = Some (zero_pcdata\<lparr>pd_content := Some (s @ replicate (6 - length s) 0), pd_length := int (length s)\<rparr>)\<rparr>)
     (c_str bs))"

lemma format_names:
  "list_all (\<lambda>(s, i). map_option bytes_of (format_name i) = Some s) format_tags"
  by code_simp

lemma format_name_tag:
  assumes "map_of format_tags s = Some i"
  shows "\<exists>name. format_name i = Some name \<and> bytes_of name = s"
proof -
  from map_of_SomeD [OF assms] have "map_option bytes_of (format_name i) = Some s"
    using format_names by (auto simp: list_all_iff)
  then show ?thesis by auto
qed

lemma element_format:
  assumes "format_spec f = Sp_ok es"
  shows "if nrm_format f = None then es = []
    else element K buildDmTndFormatCmd SML_EXT_DMTND TN_DMTND_Format es (nrm_format f)"
proof (cases "Option.bind (tf_value f) pd_content")
  case None
  with assms show ?thesis by (simp add: format_spec_def nrm_format_def)
next
  case (Some bs)
  with assms obtain s i where s: "c_str bs = Some s" "map_of format_tags s = Some i"
    "es = [Ev_start SML_EXT_DMTND TN_DMTND_Format, Ev_empty SML_EXT_DMTND i, Ev_end]"
    by (auto simp: format_spec_def split: option.splits)
  let ?x = "\<lparr>tf_value = Some (zero_pcdata\<lparr>pd_content := Some (s @ replicate (6 - length s) 0), pd_length := int (length s)\<rparr>)\<rparr>"
  let ?cs = "[(i, \<lambda>(_ :: SmlDmTndFormat) d. if IS_EMPTY (curtok d) then Some (SML_ERR_OK, ?x, d) else None)]"
  from format_name_tag [OF s(2)] obtain name where name: "format_name i = Some name" "bytes_of name = s" by blast
  have "handles K ?cs [Ev_empty SML_EXT_DMTND i] i \<lparr>tf_value = None\<rparr> ?x"
    unfolding handles_def using plain_first [OF format_tag_known [OF s(2)]]
    by (auto simp: switch_def IS_EMPTY_def)
  then have "builds K buildDmTndFormatCmd SML_EXT_DMTND TN_DMTND_Format [Ev_empty SML_EXT_DMTND i] (Some ?x)"
    unfolding buildDmTndFormatCmd_def using name
    by (elim builds_first)
       (auto simp: switch_def format_child_def build_leaf_def build_pcdata_def zeroed_name_def split: if_splits)
  with s show ?thesis by (simp add: nrm_format_def Some element_def known_dmtnd)
qed

definition nrm_type :: "SmlDmTndType \<Rightarrow> SmlDmTndType" where
  "nrm_type t =
     (if tt_mime t \<noteq> None then \<lparr>tt_mime = map_option nrm_leaf (tt_mime t), tt_ddfname = None\<rparr>
      else \<lparr>tt_mime = None, tt_ddfname = map_option nrm_leaf (tt_ddfname t)\<rparr>)"

lemma builds_type_child:
  assumes "tnd_leaf j OPTIONAL (Some p) = Sp_ok es"
    "map_of [(TN_DMTND_MIME, into build_leaf tt_mime tt_mime_update),
             (TN_DMTND_DDFName, into build_leaf tt_ddfname tt_ddfname_update)] j = Some (into build_leaf get upd)"
    "get \<lparr>tt_mime = None, tt_ddfname = None\<rparr> = None" "j \<in> known_tags SML_EXT_DMTND"
  shows "builds K buildDmTndTypeCmd SML_EXT_DMTND TN_DMTND_Type es
    (Some (upd (\<lambda>_. Some (nrm_leaf p)) \<lparr>tt_mime = None, tt_ddfname = None\<rparr>))"
proof -
  have "element K build_leaf SML_EXT_DMTND j es (Some (nrm_leaf p))"
    using assms(1,4) by (intro element_leaf) (simp_all add: tnd_leaf_def leaf_spec_def sp_elem_def)
  from handles_into [where upd = upd, OF assms(2,3) this] show ?thesis
    unfolding buildDmTndTypeCmd_def by (elim builds_first) (simp add: type_child_def)
qed

lemma element_type:
  assumes "type_spec t = Sp_ok es"
  shows "element K buildDmTndTypeCmd SML_EXT_DMTND TN_DMTND_Type es (Some (nrm_type t))"
  using assms unfolding type_spec_def
proof (rule element_node)
  fix fs
  assume fs: "(if tt_mime t \<noteq> None then tnd_leaf TN_DMTND_MIME OPTIONAL (tt_mime t)
      else if tt_ddfname t \<noteq> None then tnd_leaf TN_DMTND_DDFName OPTIONAL (tt_ddfname t) else Sp_ok []) = Sp_ok fs"
  consider p where "tt_mime t = Some p" | p where "tt_mime t = None" "tt_ddfname t = Some p"
    | "tt_mime t = None" "tt_ddfname t = None" by blast
  then show "builds K buildDmTndTypeCmd SML_EXT_DMTND TN_DMTND_Type fs (Some (nrm_type t))"
  proof cases
    case 1
    with builds_type_child [of TN_DMTND_MIME p fs tt_mime tt_mime_update K] fs show ?thesis
      by (simp add: nrm_type_def known_dmtnd)
  next
    case 2
    with builds_type_child [of TN_DMTND_DDFName p fs tt_ddfname tt_ddfname_update K] fs show ?thesis
      by (simp add: nrm_type_def known_dmtnd)
  next
    case 3
    with fs builds_first_none show ?thesis by (simp add: nrm_type_def buildDmTndTypeCmd_def)
  qed
qed (simp_all add: known_dmtnd)

definition nrm_rtprops :: "SmlDmTndRTProps \<Rightarrow> SmlDmTndRTProps" where
  "nrm_rtprops r = \<lparr>rt_acl = map_option nrm_leaf (rt_acl r), rt_format = Option.bind (rt_format r) nrm_format,
     rt_name = map_option nrm_leaf (rt_name r), rt_size = map_option nrm_leaf (rt_size r),
     rt_title = map_option nrm_leaf (rt_title r), rt_tstamp = map_option nrm_leaf (rt_tstamp r),
     rt_type = map_option nrm_type (rt_type r), rt_verno = map_option nrm_leaf (rt_verno r)\<rparr>"

lemma element_rtprops:
  "rtprops_spec r = Sp_ok es \<Longrightarrow>
     element K buildDmTndRTPropsCmd SML_EXT_DMTND TN_DMTND_RTProperties es (Some (nrm_rtprops r))"
  unfolding buildDmTndRTPropsCmd_def rtprops_spec_def tnd_leaf_def
  by (erule element_struct)
     (rule parse_rules parse_bind [OF element_format] parse_elem | erule element_type
      | simp add: zero_rtprops_def known_dmtnd nrm_rtprops_def)+


text \<open>Nodes; what a node says about the description framework is not written, and null entries are left out.\<close>

fun nrm_node :: "SmlDmTndNode \<Rightarrow> SmlDmTndNode" where
  "nrm_node (DmTndNode nodename path rtprops dfprops value nodelist) =
     DmTndNode (map_option nrm_leaf nodename) (map_option nrm_leaf path) (map_option nrm_rtprops rtprops) None
       (map_option nrm_leaf value) (entries nrm_node nodelist)"

lemma handles_nodes:
  assumes "map_of cs i = Some (into_list (buildDmTndNodeList b) get upd)" "element K b ext i es y"
  shows "handles K cs es i x (upd (\<lambda>_. get x @ [y]) x)"
  by (rule handles_element [OF assms(2)])
     (simp add: switch_def assms(1) into_list_def buildDmTndNodeList_def build_in_list_def)

lemma parse_nodes:
  assumes "map_of cs TN_DMTND_Node = Some (into_list (buildDmTndNodeList b) get upd)" "member get upd"
    "\<And>nd es. Some nd \<in> set nds \<Longrightarrow> node_spec nd = Sp_ok es \<Longrightarrow>
      element K b SML_EXT_DMTND TN_DMTND_Node es (Some (nrm_node nd))"
    "parse K cs ps (upd (\<lambda>_. get x @ entries nrm_node nds) x) z u"
  shows "parse K cs (map (\<lambda>n. sp_elem OPTIONAL n node_spec) nds @ ps) x z
    (u @ replicate (length (entries nrm_node nds)) TN_DMTND_Node)"
  by (rule parse_append [OF _ assms(4)])
     (auto simp: parse_def intro!: loops_list [OF _ assms(2)] handles_nodes [OF assms(1)] assms(3))

fun nd_count :: "SmlDmTndNode \<Rightarrow> nat" where
  "nd_count (DmTndNode nodename path rtprops dfprops value nodelist) =
     Suc (sum_list (map (\<lambda>n. case n of None \<Rightarrow> 0 | Some n \<Rightarrow> nd_count n) nodelist))"

lemma element_tnd_node:
  "node_spec nd = Sp_ok es \<Longrightarrow> nd_count nd \<le> n \<Longrightarrow>
     element K (buildDmTndNodeCmd n) SML_EXT_DMTND TN_DMTND_Node es (Some (nrm_node nd))"
proof (induction n arbitrary: nd es)
  case 0
  then show ?case by (cases nd) simp
next
  case (Suc n)
  obtain a b c d e nds where nd: "nd = DmTndNode a b c d e nds" by (cases nd)
  have IH: "element K (buildDmTndNodeCmd n) SML_EXT_DMTND TN_DMTND_Node es (Some (nrm_node x))"
    if "Some x \<in> set nds" "node_spec x = Sp_ok es" for x es
  proof (rule Suc.IH [OF that(2)])
    have "(case Some x of None \<Rightarrow> 0 | Some n \<Rightarrow> nd_count n) \<le>
        sum_list (map (\<lambda>n. case n of None \<Rightarrow> 0 | Some n \<Rightarrow> nd_count n) nds)"
      using that(1) by (intro member_le_sum_list) (force, simp)
    with Suc.prems(2) nd show "nd_count x \<le> n" by simp
  qed
  have "sp_node SML_EXT_DMTND TN_DMTND_Node
     ([leaf_spec SML_EXT_DMTND TN_DMTND_NodeName REQUIRED a, leaf_spec SML_EXT_DMTND TN_DMTND_Path OPTIONAL b,
       sp_elem OPTIONAL c rtprops_spec, leaf_spec SML_EXT_DMTND TN_DMTND_Value OPTIONAL e] @
      map (\<lambda>n. sp_elem OPTIONAL n node_spec) nds @ []) = Sp_ok es"
    using Suc.prems(1) by (simp add: nd tnd_leaf_def)
  then show ?case unfolding buildDmTndNodeCmd.simps append_Cons append_Nil
    by (elim element_struct)
       (rule parse_rules parse_elem parse_nodes | erule element_rtprops IH | assumption
        | simp add: known_dmtnd nd zero_node_def nd_nodename_update_def nd_path_update_def nd_rtprops_update_def
            nd_value_update_def nd_nodelist_update_def)+
qed


lemma nodes_count:
  assumes "sp_seq (map (\<lambda>n. sp_elem OPTIONAL n node_spec) nds) = Sp_ok es"
    "\<And>nd es. Some nd \<in> set nds \<Longrightarrow> node_spec nd = Sp_ok es \<Longrightarrow> nd_count nd \<le> length es"
  shows "sum_list (map (\<lambda>n. case n of None \<Rightarrow> 0 | Some n \<Rightarrow> nd_count n) nds) \<le> length es"
  using assms
proof (induction nds arbitrary: es)
  case (Cons n nds)
  from Cons.prems(1) obtain a b where ab: "sp_elem OPTIONAL n node_spec = Sp_ok a" "es = a @ b"
    "sp_seq (map (\<lambda>n. sp_elem OPTIONAL n node_spec) nds) = Sp_ok b" by (auto simp: sp_seq_cons)
  have "(case n of None \<Rightarrow> 0 | Some n \<Rightarrow> nd_count n) \<le> length a"
    using ab(1) Cons.prems(2) by (cases n) (auto simp: sp_elem_def)
  moreover have "sum_list (map (\<lambda>n. case n of None \<Rightarrow> 0 | Some n \<Rightarrow> nd_count n) nds) \<le> length b"
    using ab(3) Cons.prems(2) by (intro Cons.IH) auto
  ultimately show ?case by (simp add: ab(2))
qed simp

lemma node_count: "node_spec nd = Sp_ok es \<Longrightarrow> nd_count nd \<le> length es"
proof (induction nd arbitrary: es rule: nd_count.induct)
  case (1 a b c d e nds)
  from "1.prems" obtain fs where fs: "sp_seq (map (\<lambda>n. sp_elem OPTIONAL n node_spec) nds) = Sp_ok fs" "length fs < length es"
    by (auto simp: sp_simps)
  have "sum_list (map (\<lambda>n. case n of None \<Rightarrow> 0 | Some n \<Rightarrow> nd_count n) nds) \<le> length fs"
    using "1.IH" by (intro nodes_count [OF fs(1)]) auto
  with fs(2) show ?case by simp
qed

definition nrm_tree :: "SmlDmTnd \<Rightarrow> SmlDmTnd" where
  "nrm_tree t = \<lparr>tnd_verdtd = map_option nrm_leaf (tnd_verdtd t), tnd_man = map_option nrm_leaf (tnd_man t),
     tnd_mod = map_option nrm_leaf (tnd_mod t), tnd_nodelist = entries nrm_node (tnd_nodelist t)\<rparr>"

lemma loops_tree:
  assumes es: "tree_spec t = Sp_ok (Ev_start SML_EXT_DMTND TN_DMTND_MgmtTree # fs @ [Ev_end])" and n: "length fs \<le> n"
  shows "\<exists>u. loops K (tree_cases n) fs zero_tnd (nrm_tree t) u"
proof -
  let ?ps = "[leaf_spec SML_EXT_DMTND TN_DMTND_VerDTD REQUIRED (tnd_verdtd t),
       leaf_spec SML_EXT_DMTND TN_DMTND_Man OPTIONAL (tnd_man t), leaf_spec SML_EXT_DMTND TN_DMTND_Mod OPTIONAL (tnd_mod t)]"
  let ?ns = "map (\<lambda>n. sp_elem OPTIONAL n node_spec) (tnd_nodelist t)"
  from es have fs: "sp_seq (?ps @ ?ns @ []) = Sp_ok fs"
    by (auto simp: tree_spec_def tnd_leaf_def sp_node_ok)
  then obtain gs where gs: "sp_seq ?ns = Sp_ok gs" "length gs \<le> length fs"
    unfolding append_Nil2 sp_seq_append by auto
  have node: "element K (buildDmTndNodeCmd n) SML_EXT_DMTND TN_DMTND_Node ns (Some (nrm_node nd))"
    if nd: "Some nd \<in> set (tnd_nodelist t)" "node_spec nd = Sp_ok ns" for nd ns
  proof (rule element_tnd_node [OF nd(2)])
    have "(case Some nd of None \<Rightarrow> 0 | Some n \<Rightarrow> nd_count n) \<le>
        sum_list (map (\<lambda>n. case n of None \<Rightarrow> 0 | Some n \<Rightarrow> nd_count n) (tnd_nodelist t))"
      using nd(1) by (intro member_le_sum_list) (force, simp)
    also have "\<dots> \<le> length gs" using node_count by (intro nodes_count [OF gs(1)])
    finally show "nd_count nd \<le> n" using gs(2) n by simp
  qed
  have "\<exists>u. parse K (tree_cases n) (?ps @ ?ns @ []) zero_tnd (nrm_tree t) u"
    unfolding append_Cons append_Nil
    by (intro exI)
       (rule parse_rules parse_nodes | erule node | assumption
        | simp add: known_dmtnd tree_cases_def zero_tnd_def nrm_tree_def)+
  with fs show ?thesis by (auto simp: parse_def)
qed


text \<open>The bytes that are left bound the nesting.\<close>

lemma nesting_enough: "ahead_of K cur st es rest d \<Longrightarrow> length es < nesting_bound d"
proof -
  assume "ahead_of K cur st es rest d"
  then have "in_doc (xd_scanner d)" "ahead (xd_scanner d) = doc_bytes cur es @ rest"
    by (auto simp: ahead_of_def dec_ready_def scan_ready_def)
  with length_ahead [of "xd_scanner d"] events_le_bytes [of es cur] show ?thesis
    by (simp add: nesting_bound_def)
qed

lemma reads_tree:
  assumes "tree_spec t = Sp_ok es"
  shows "reads_sub K (sub_document SML_EXT_DMTND) es (Some (C_dmtnd (nrm_tree t)))"
  unfolding reads_sub_def
proof (intro allI impI, elim conjE)
  fix cur i st rest d
  assume r: "ahead_of K cur (i # st) (es @ [Ev_end]) rest d" and tok: "tok_type (curtok d) = TOK_UNDEF"
    and len: "Suc (length st) + length es < 2 ^ 31 - 25"
  let ?D = SML_EXT_DMTND and ?T = TN_DMTND_MgmtTree and ?cs = "tree_cases (nesting_bound d)"
  from assms obtain fs where es: "es = Ev_start ?D ?T # fs @ [Ev_end]" by (auto simp: tree_spec_def sp_node_ok)
  have "length fs \<le> nesting_bound d" using nesting_enough [OF r] by (simp add: es)
  with loops_tree [of t fs "nesting_bound d" K] assms es obtain u where u: "loops K ?cs fs zero_tnd (nrm_tree t) u" by auto
  have "ev_ok (Ev_start ?D ?T) \<and> ev_page_ok (Ev_start ?D ?T)" using plain_first [of ?T ?D] by (simp add: first_ok_def known_dmtnd)
  with next_ahead [of K cur "i # st" "Ev_start ?D ?T" "fs @ [Ev_end, Ev_end]" rest d "?T # i # st"] r len obtain d1 where
    d1: "nextToken d = Some (SML_ERR_OK, d1)" "started ?D ?T d1"
      "dec_ready K ?D (?T # i # st) (doc_bytes ?D (fs @ [Ev_end, Ev_end]) @ rest) d1"
    by (auto simp: es started_def)
  have "next_loop [] ?cs zero_tnd [] d = next_loop [] ?cs zero_tnd [?T] d1"
    using d1(1,2)
    by (simp add: next_loop_def build_loop.simps [of _ _ _ _ d1] started_def tok_classes switch_def tree_cases_def skip_case_def)
  moreover from loops_next [OF u ahead_of_ready [OF d1(3)], of "[]" "[?T]"] len es obtain d2 where
    "next_loop [] ?cs zero_tnd [?T] d1 = next_loop [] ?cs (nrm_tree t) (u @ [?T]) d2"
    "ahead_of K (ext_after ?D fs) (?T # i # st) [Ev_end, Ev_end] rest d2" by auto
  moreover from next_loop_end [OF this(2), of "[]" ?cs "nrm_tree t" "u @ [?T]"] len obtain d3 where
    "next_loop [] ?cs (nrm_tree t) (u @ [?T]) d2 = Some (SML_ERR_OK, False, nrm_tree t, u @ [?T], d3)"
    "at_tag_end K (ext_after ?D fs) (i # st) (doc_bytes (ext_after ?D fs) [Ev_end] @ rest) d3" by auto
  moreover from next_ahead [OF ahead_of_ready, of K "ext_after ?D fs" "i # st" Ev_end "[]" rest d3 st] this(2) len
  obtain d4 where "nextToken d3 = Some (SML_ERR_OK, d4)" "at_tag_end K (ext_after ?D fs) st rest d4"
    by (auto simp: at_tag_end_def IS_END_TOK_def)
  moreover have "ext_after cur es = ext_after ?D fs" by (simp add: es ext_after_append)
  ultimately show "\<exists>d'. sub_document ?D d = Some (SML_ERR_OK, Some (C_dmtnd (nrm_tree t)), d') \<and>
      at_tag_end K (ext_after cur es) st rest d'"
    using ahead_of_malloc [OF r] tok
    by (auto simp: sub_document_def then_next_def as_content_def buildDmTndCmd_def build_struct_def IS_EMPTY_def
        build_children_next)
qed

end
