(* ===== verification/Decoder_Elements.thy ===== *)
theory Decoder_Elements
  imports Decoder_Dtd Encoder_Message
begin

text \<open>
  The decoders of the SyncML elements read what the encoders of \<open>Encoder_Correct\<close> write. \<open>nrm\<close> functions say
  what the receiver has instead of the element that was sent, \<open>good\<close> predicates which elements arrive at all.
\<close>

section \<open>Character data\<close>

definition ext_pc :: "SmlPcdataExtension \<Rightarrow> sml_content \<Rightarrow> data" where
  "ext_pc e c = \<lparr>pd_contentType = SML_PCDATA_EXTENSION, pd_extension = e, pd_length = 0, pd_content = Some c\<rparr>"

text \<open>Character data lose what does not belong to their type; empty meta information is no data at all.\<close>

definition nrm_data :: "data \<Rightarrow> data" where
  "nrm_data p =
     (if pd_contentType p \<noteq> SML_PCDATA_EXTENSION then nrm_bytes C_bytes content_bytes p
      else case pd_content p of
        Some (C_metinf m) \<Rightarrow>
          if metinf_spec m = Sp_ok [] then zero_pcdata else ext_pc SML_EXT_METINF (C_metinf (nrm_metinf m))
      | Some (C_dmtnd t) \<Rightarrow> ext_pc SML_EXT_DMTND (C_dmtnd (nrm_tree t))
      | _ \<Rightarrow> zero_pcdata)"

definition good_data :: "data \<Rightarrow> bool" where
  "good_data p \<longleftrightarrow> (case pd_content p of Some (C_metinf m) \<Rightarrow> good_metinf m | _ \<Rightarrow> True)"

definition begins :: "SmlPcdataExtension \<Rightarrow> spec \<Rightarrow> bool" where
  "begins ext p \<longleftrightarrow> (\<forall>es. p = Sp_ok es \<longrightarrow> es = [] \<or> (\<exists>j fs. es = Ev_start ext j # fs \<and> j \<in> known_tags ext))"

lemma begins_node: "i \<in> known_tags ext \<Longrightarrow> begins ext (sp_node ext i ps)"
  by (auto simp: begins_def sp_node_ok)

lemma begins_elem: "(\<And>x. p = Some x \<Longrightarrow> begins ext (f x)) \<Longrightarrow> begins ext (sp_elem ro p f)"
  by (auto simp: begins_def sp_elem_def split: option.splits)

lemma begins_seq: "\<forall>p \<in> set ps. begins ext p \<Longrightarrow> begins ext (sp_seq ps)"
proof (induction ps)
  case (Cons p ps)
  then have "begins ext p" "begins ext (sp_seq ps)" by simp_all
  then show ?case unfolding begins_def sp_seq_cons by fastforce
qed (simp add: begins_def sp_seq_nil)

lemma begins_metinf: "begins SML_EXT_METINF (metinf_spec m)"
  unfolding metinf_spec_def mi_leaf_def leaf_spec_def anchor_spec_def mem_spec_def
  by (rule begins_seq) (auto intro!: begins_node begins_elem simp: known_metinf)

lemma builds_data:
  assumes es: "body_spec content_bytes (build_spec ro) p = Sp_ok es" and good: "good_data p"
  shows "builds K buildPCData SML_EXT_UNDEFINED i es (Some (nrm_data p))"
proof (cases "pd_contentType p = SML_PCDATA_EXTENSION")
  case False
  with builds_body [OF es] show ?thesis by (simp add: buildPCData_def nrm_data_def)
next
  case True
  with es have b: "build_spec ro (pd_extension p) (pd_content p) = Sp_ok es" by (simp add: body_spec_def)
  have none: ?thesis if "es = []" "nrm_data p = zero_pcdata"
    unfolding that buildPCData_def by (rule builds_nothing)
  consider "pd_content p = None" | m where "pd_content p = Some (C_metinf m)" "pd_extension p = SML_EXT_METINF"
    | t where "pd_content p = Some (C_dmtnd t)" "pd_extension p = SML_EXT_DMTND"
    using b by (auto simp: build_spec_def split: SmlPcdataExtension.splits option.splits sml_content.splits)
  then show ?thesis
  proof cases
    case 1
    with b True show ?thesis
      by (intro none) (auto simp: build_spec_def sp_elem_def nrm_data_def split: SmlPcdataExtension.splits if_splits)
  next
    case (2 m)
    with b have m: "metinf_spec m = Sp_ok es" by (simp add: build_spec_def)
    show ?thesis
    proof (cases "es = []")
      case True
      with m \<open>pd_contentType p = SML_PCDATA_EXTENSION\<close> 2 show ?thesis by (intro none) (simp_all add: nrm_data_def)
    next
      case False
      with begins_metinf [of m] m obtain j fs where j: "es = Ev_start SML_EXT_METINF j # fs" "j \<in> known_tags SML_EXT_METINF"
        by (auto simp: begins_def)
      have "reads_sub K (sub_document SML_EXT_METINF) es (Some (C_metinf (nrm_metinf m)))"
        using good 2 by (intro reads_metinf [OF m]) (simp add: good_data_def)
      from builds_ext [where sub = sub_document and ext = SML_EXT_UNDEFINED and mk = C_bytes and i = i, OF j(1) j(2) _ _ this] True 2 m j(1) show ?thesis
        by (simp add: buildPCData_def nrm_data_def ext_pc_def)
    qed
  next
    case (3 t)
    with b have t: "tree_spec t = Sp_ok es" by (simp add: build_spec_def)
    then obtain fs where j: "es = Ev_start SML_EXT_DMTND TN_DMTND_MgmtTree # fs" by (auto simp: tree_spec_def sp_node_ok)
    from builds_ext [where sub = sub_document and ext = SML_EXT_UNDEFINED and mk = C_bytes and i = i and K = K,
      OF j _ _ _ reads_tree [OF t]] True 3 show ?thesis
      by (simp add: buildPCData_def nrm_data_def ext_pc_def known_dmtnd)
  qed
qed

lemma element_data:
  assumes "el_data i ro (Some p) = Sp_ok es" "good_data p" "i \<in> known_tags SML_EXT_UNDEFINED"
  shows "element K buildPCData SML_EXT_UNDEFINED i es (Some (nrm_data p))"
  using assms by (auto simp: el_data_def sp_elem_def intro!: element_node builds_data)

section \<open>Proof rules\<close>

lemma parse_req:
  assumes "\<And>y. p = Some y \<Longrightarrow> parse K cs (sp_elem REQUIRED p f # ps) x z (u @ opt_tag p i)"
  shows "parse K cs (sp_elem REQUIRED p f # ps) x z (u @ [i])"
proof (cases p)
  case None
  then show ?thesis by (simp add: parse_def sp_seq_cons sp_elem_def)
next
  case (Some y)
  from assms [OF this] show ?thesis by (simp add: Some opt_tag_def)
qed

lemma parse_part:
  assumes "\<And>es y. f y = Sp_ok es \<Longrightarrow> g y \<Longrightarrow> element K b ext i es (Some (n y))" "pred_option g p"
    "map_of cs i = Some (into b get upd)" "member get upd" "get x = None"
    "parse K cs ps (upd (\<lambda>_. map_option n p) x) z u"
  shows "parse K cs (sp_elem OPTIONAL p f # ps) x z (u @ opt_tag p i)"
  using assms(2) by (intro parse_elem [where ext = ext, OF _ assms(3-6)] assms(1)) auto

lemma parse_part_req:
  assumes "\<And>es y. f y = Sp_ok es \<Longrightarrow> g y \<Longrightarrow> element K b ext i es (Some (n y))" "pred_option g p"
    "map_of cs i = Some (into b get upd)" "member get upd" "get x = None"
    "parse K cs ps (upd (\<lambda>_. map_option n p) x) z u"
  shows "parse K cs (sp_elem REQUIRED p f # ps) x z (u @ [i])"
  using assms(2) by (intro parse_req parse_elem [where ext = ext, OF _ assms(3-6)] assms(1)) auto

lemma el_data_elem:
  "el_data i ro p = sp_elem ro p (\<lambda>p. el_data i ro (Some p))"
  by (cases p) (simp_all add: el_data_def sp_elem_def)

lemma parse_data:
  assumes "map_of cs i = Some (into buildPCData get upd)" "member get upd" "get x = None"
    "i \<in> known_tags SML_EXT_UNDEFINED" "pred_option good_data p"
    "parse K cs ps (upd (\<lambda>_. map_option nrm_data p) x) z u"
  shows "parse K cs (el_data i OPTIONAL p # ps) x z (u @ opt_tag p i)"
  by (subst el_data_elem) (rule parse_part [OF element_data assms(5,1,2,3,6)], assumption+, rule assms(4))

lemma parse_data_req:
  assumes "map_of cs i = Some (into buildPCData get upd)" "member get upd" "get x = None"
    "i \<in> known_tags SML_EXT_UNDEFINED" "pred_option good_data p"
    "parse K cs ps (upd (\<lambda>_. map_option nrm_data p) x) z u"
  shows "parse K cs (el_data i REQUIRED p # ps) x z (u @ [i])"
  by (subst el_data_elem) (rule parse_part_req [OF element_data assms(5,1,2,3,6)], assumption+, rule assms(4))

lemma parse_el_flag:
  assumes "map_of cs i = Some (flag_case m upd)" "member get upd" "one_bit m" "i \<in> known_tags SML_EXT_UNDEFINED"
    "parse K cs ps (upd (\<lambda>f. f OR (w AND m)) x) z u"
  shows "parse K cs (el_flag i m w # ps) x z (u @ flag_tags w m i)"
  unfolding el_flag_def by (rule parse_flag [OF assms(1-4) _ assms(5)]) simp

text \<open>Lists without null entries.\<close>

definition good_entry :: "('a \<Rightarrow> bool) \<Rightarrow> 'a option \<Rightarrow> bool" where
  "good_entry g p = (case p of None \<Rightarrow> False | Some x \<Rightarrow> g x)"

lemma entries_all: "list_all (good_entry g) xs \<Longrightarrow> entries n xs = map (map_option n) xs"
  by (induction xs) (auto simp: entries_def good_entry_def split: option.splits)

lemma loops_entries:
  fixes n :: "'a \<Rightarrow> 'a"
  assumes "\<And>es y. f y = Sp_ok es \<Longrightarrow> g y \<Longrightarrow> element K b ext i es (Some (n y))" "list_all (good_entry g) xs"
    "map_of cs i = Some (into_list (append_built b) get upd)" "member get upd" "sp_list ro xs f = Sp_ok es"
  shows "loops K cs es x (upd (\<lambda>_. get x @ map (map_option n) xs) x) (replicate (length xs) i)"
proof -
  have el: "element K b ext i es (Some (n y))" if "Some y \<in> set xs" "f y = Sp_ok es" for y es
    using that assms(2) by (intro assms(1)) (auto simp: list_all_iff good_entry_def)
  have sp: "sp_seq (map (\<lambda>p. sp_elem OPTIONAL p f) xs) = Sp_ok es"
    using assms(5) by (auto simp: sp_list_def sp_seq_nil split: if_splits)
  have "loops K cs es x (upd (\<lambda>_. get x @ entries n xs) x) (replicate (length (entries n xs)) i)"
    by (rule loops_list [OF sp assms(4)]) (rule handles_append [OF assms(3) el])
  then show ?thesis by (simp add: entries_all [OF assms(2)])
qed

lemma parse_list:
  fixes n :: "'a \<Rightarrow> 'a"
  assumes "\<And>es y. f y = Sp_ok es \<Longrightarrow> g y \<Longrightarrow> element K b ext i es (Some (n y))" "list_all (good_entry g) xs"
    "map_of cs i = Some (into_list (append_built b) get upd)" "member get upd"
    "parse K cs ps (upd (\<lambda>_. get x @ map (map_option n) xs) x) z u"
  shows "parse K cs (sp_list OPTIONAL xs f # ps) x z (u @ replicate (length xs) i)"
  using assms(5) by (rule parse_cons [rotated]) (rule loops_entries [OF assms(1-4)])

lemma parse_list_req:
  fixes n :: "'a \<Rightarrow> 'a"
  assumes "\<And>es y. f y = Sp_ok es \<Longrightarrow> g y \<Longrightarrow> element K b ext i es (Some (n y))" "list_all (good_entry g) xs"
    "map_of cs i = Some (into_list (append_built b) get upd)" "member get upd"
    "parse K cs ps (upd (\<lambda>_. get x @ map (map_option n) xs) x) z u"
  shows "parse K cs (sp_list REQUIRED xs f # ps) x z (u @ i # replicate (length xs - 1) i)"
  using assms(5)
proof (rule parse_cons [rotated])
  fix es
  assume es: "sp_list REQUIRED xs f = Sp_ok es"
  then have "xs \<noteq> []" by (auto simp: sp_list_def)
  then have "i # replicate (length xs - 1) i = replicate (length xs) i" by (cases xs) simp_all
  with loops_entries [OF assms(1-4) es] show
    "loops K cs es x (upd (\<lambda>_. get x @ map (map_option n) xs) x) (i # replicate (length xs - 1) i)" by simp
qed

lemmas el_rules = parse_done parse_data parse_data_req parse_el_flag

section \<open>Elements\<close>

lemma member_elements [simp]:
  "member chal_meta chal_meta_update" "member cred_meta cred_meta_update" "member cred_data cred_data_update"
  "member tgt_locURI tgt_locURI_update" "member tgt_locName tgt_locName_update"
  "member mpi_target mpi_target_update" "member mpi_source mpi_source_update"
  by (auto simp: member_def intro!: SmlChal.equality SmlCred.equality SmlTarget.equality SmlMapItem.equality)

lemma member_item [simp]:
  "member item_target item_target_update" "member item_source item_source_update"
  "member item_meta item_meta_update"
  "member item_data item_data_update" "member item_flags item_flags_update"
  by (auto simp: member_def intro!: SmlItem.equality)

definition nrm_chal :: "SmlChal \<Rightarrow> SmlChal" where
  "nrm_chal c = \<lparr>chal_meta = map_option nrm_data (chal_meta c)\<rparr>"

definition good_chal :: "SmlChal \<Rightarrow> bool" where
  "good_chal c \<longleftrightarrow> pred_option good_data (chal_meta c)"

lemma element_chal: "el_chal c = Sp_ok es \<Longrightarrow> good_chal c \<Longrightarrow> element K buildChal SML_EXT_UNDEFINED TN_CHAL es (Some (nrm_chal c))"
  unfolding buildChal_def el_chal_def good_chal_def
  by (erule element_struct) (rule el_rules | simp add: known_syncml nrm_chal_def)+

definition nrm_cred :: "SmlCred \<Rightarrow> SmlCred" where
  "nrm_cred c = \<lparr>cred_meta = map_option nrm_data (cred_meta c), cred_data = map_option nrm_data (cred_data c)\<rparr>"

definition good_cred :: "SmlCred \<Rightarrow> bool" where
  "good_cred c \<longleftrightarrow> pred_option good_data (cred_meta c) \<and> pred_option good_data (cred_data c)"

lemma element_cred: "el_cred c = Sp_ok es \<Longrightarrow> good_cred c \<Longrightarrow> element K buildCred SML_EXT_UNDEFINED TN_CRED es (Some (nrm_cred c))"
  unfolding buildCred_def el_cred_def good_cred_def
  by (erule element_struct) (rule el_rules | simp add: known_syncml nrm_cred_def)+

definition nrm_target :: "SmlTarget \<Rightarrow> SmlTarget" where
  "nrm_target t = \<lparr>tgt_locURI = map_option nrm_data (tgt_locURI t), tgt_locName = map_option nrm_data (tgt_locName t)\<rparr>"

definition good_target :: "SmlTarget \<Rightarrow> bool" where
  "good_target t \<longleftrightarrow> pred_option good_data (tgt_locURI t) \<and> pred_option good_data (tgt_locName t)"

lemma element_target:
  "el_target i t = Sp_ok es \<Longrightarrow> good_target t \<Longrightarrow> i \<in> known_tags SML_EXT_UNDEFINED \<Longrightarrow>
     element K buildTargetOrSource SML_EXT_UNDEFINED i es (Some (nrm_target t))"
  unfolding buildTargetOrSource_def el_target_def good_target_def
  by (erule element_struct) (rule el_rules | assumption | simp add: known_syncml nrm_target_def target_cases_def zero_target_def)+

lemma element_targets:
  "el_target TN_TARGET t = Sp_ok es \<Longrightarrow> good_target t \<Longrightarrow> element K buildTargetOrSource SML_EXT_UNDEFINED TN_TARGET es (Some (nrm_target t))"
  "el_target TN_SOURCE t = Sp_ok es \<Longrightarrow> good_target t \<Longrightarrow> element K buildTargetOrSource SML_EXT_UNDEFINED TN_SOURCE es (Some (nrm_target t))"
  by (rule element_target; assumption?; simp add: known_syncml)+

definition nrm_mapitem :: "SmlMapItem \<Rightarrow> SmlMapItem" where
  "nrm_mapitem i = \<lparr>mpi_target = map_option nrm_target (mpi_target i), mpi_source = map_option nrm_target (mpi_source i)\<rparr>"

definition good_mapitem :: "SmlMapItem \<Rightarrow> bool" where
  "good_mapitem i \<longleftrightarrow> pred_option good_target (mpi_target i) \<and> pred_option good_target (mpi_source i)"

lemma element_mapitem:
  "el_mapitem i = Sp_ok es \<Longrightarrow> good_mapitem i \<Longrightarrow> element K buildMapItem SML_EXT_UNDEFINED TN_MAPITEM es (Some (nrm_mapitem i))"
  unfolding buildMapItem_def el_mapitem_def good_mapitem_def
  by (erule element_struct)
     (rule el_rules parse_part_req | erule (1) element_targets | simp add: known_syncml nrm_mapitem_def)+

text \<open>
  The data of an item are tried as an inlined document when they are opaque; data whose first byte is not
  the version of a WBXML document stay as they are.
\<close>

definition no_document :: "byte list \<Rightarrow> bool" where
  "no_document bs = (case bs of [] \<Rightarrow> False | b # _ \<Rightarrow> drop_bit 4 b + 1 \<noteq> MAJOR_VERSION \<or> b AND 0x0F > MINOR_VERSION)"

definition good_item_data :: "data \<Rightarrow> bool" where
  "good_item_data p \<longleftrightarrow> good_data p \<and>
     (pd_contentType (nrm_data p) = SML_PCDATA_OPAQUE \<longrightarrow>
        (case pd_content (nrm_data p) of Some (C_bytes c) \<Rightarrow> no_document (butlast c) | _ \<Rightarrow> False))"

lemma opaque_shape:
  assumes "pd_contentType (nrm_data p) = SML_PCDATA_OPAQUE"
  shows "\<exists>bs. nrm_data p = opaque_pc C_bytes bs"
  using assms
  by (auto simp: nrm_data_def nrm_bytes_def Let_def zero_pcdata_def ext_pc_def string_pc_def opaque_pc_def
      split: if_splits option.splits sml_content.splits SmlPcdataType.splits)

lemma bad_version:
  assumes "no_document bs" "tok_ready g"
  shows "\<exists>rc. xltDecWbxmlInit bs (int (length bs)) 0 g = Some (rc, None, g) \<and> rc \<noteq> SML_ERR_OK"
proof -
  from assms(1) obtain b r where b: "bs = b # r" "drop_bit 4 b + 1 \<noteq> MAJOR_VERSION \<or> b AND 0x0F > MINOR_VERSION"
    by (auto simp: no_document_def split: list.splits)
  obtain st :: "XltTagID ArrayStack" where st: "xltUtilCreateStack True True 10 = (SML_ERR_OK, Some st)"
    by (simp add: xltUtilCreateStack_def)
  have "sc_cur (scanner_init bs (int (length bs)) 0 st g) = Some b"
    by (simp add: b(1) sc_cur_def scanner_init_def mem_at_def)
  then have "wbxmlHeader (scanner_init bs (int (length bs)) 0 st g) =
      Some (SML_ERR_XLT_INCOMP_WBXML_VERS, scanner_init bs (int (length bs)) 0 st g)"
    using b(2) by (simp add: wbxmlHeader_def and_then_def wbxmlVersion_def Let_def)
  moreover have "sc_tok (scanner_init bs (int (length bs)) 0 st g) = g" by (simp add: scanner_init_def)
  ultimately show ?thesis
    using tok_malloc_ready [OF assms(2)] st by (simp add: xltDecWbxmlInit_def wbxml_destroy_def)
qed

lemma subdtdDecodeWbxml_keeps:
  assumes "good_item_data p" "dec_ready K cur st rest d"
  shows "subdtdDecodeWbxml (Some (nrm_data p)) d = Some (Some (nrm_data p), d)"
proof (cases "pd_contentType (nrm_data p) = SML_PCDATA_OPAQUE")
  case False
  then show ?thesis by (simp add: subdtdDecodeWbxml_def)
next
  case True
  with assms(1) obtain bs where bs: "nrm_data p = opaque_pc C_bytes bs" "no_document bs"
    using opaque_shape [OF True] by (auto simp: good_item_data_def opaque_pc_def)
  have g: "tok_ready (dec_tok d)" using assms(2) by (simp add: dec_ready_def scan_ready_def dec_tok_def)
  from bad_version [OF bs(2) g] obtain rc where
    rc: "xltDecWbxmlInit bs (int (length bs)) 0 (dec_tok d) = Some (rc, None, dec_tok d)" "rc \<noteq> SML_ERR_OK" by blast
  have m: "dec_malloc d = (True, d)" using assms(2) by (rule dec_malloc_ready)
  have "set_tok (dec_tok d) d = d" by (simp add: set_tok_def dec_tok_def)
  then have "sub_scan bs d = Some (rc, zero_pcdata, d)"
    using m rc(1) by (simp add: sub_scan_def numeral_2_eq_2 xltUtilCreateStack_def)
  moreover have "bytes_at (bs @ [0]) 0 (int (length bs)) = Some bs" by (simp add: bytes_at_def)
  ultimately show ?thesis using rc(2) by (simp add: subdtdDecodeWbxml_def bs(1) opaque_pc_def)
qed

lemma parse_item_data:
  assumes "map_of cs TN_DATA = Some item_data_case" "item_data x = None" "pred_option good_item_data p"
    "parse K cs ps (item_data_update (\<lambda>_. map_option nrm_data p) x) z u"
  shows "parse K cs (el_data TN_DATA OPTIONAL p # ps) x z (u @ opt_tag p TN_DATA)"
  using assms(4)
proof (rule parse_cons [rotated])
  fix es
  assume es: "el_data TN_DATA OPTIONAL p = Sp_ok es"
  show "loops K cs es x (item_data_update (\<lambda>_. map_option nrm_data p) x) (opt_tag p TN_DATA)"
  proof (cases p)
    case None
    with es have "es = []" by (simp add: el_data_def sp_elem_def)
    moreover have "item_data_update (\<lambda>_. None) x = x" using assms(2) by simp
    ultimately show ?thesis by (simp add: None opt_tag_def loops_nil)
  next
    case (Some q)
    with assms(3) have q: "good_item_data q" "good_data q" by (simp_all add: good_item_data_def)
    have el: "element K buildPCData SML_EXT_UNDEFINED TN_DATA es (Some (nrm_data q))"
      using es Some q(2) by (intro element_data) (simp_all add: known_syncml)
    have "handles K cs es TN_DATA x (item_data_update (\<lambda>_. Some (nrm_data q)) x)"
    proof (rule handles_element_ready [OF el])
      fix cur st rest d d'
      assume "buildPCData None d = Some (SML_ERR_OK, Some (nrm_data q), d')" "dec_ready K cur st rest d'"
      with subdtdDecodeWbxml_keeps [OF q(1), of K cur st rest d'] assms(1,2)
      show "switch cs TN_DATA x d = Some (SML_ERR_OK, item_data_update (\<lambda>_. Some (nrm_data q)) x, d')"
        by (simp add: switch_def item_data_case_def into_def)
    qed
    from loops_one [OF this] show ?thesis by (simp add: Some opt_tag_def)
  qed
qed

definition nrm_item :: "SmlItem \<Rightarrow> SmlItem" where
  "nrm_item i = \<lparr>item_target = map_option nrm_target (item_target i), item_source = map_option nrm_target (item_source i),
     item_meta = map_option nrm_data (item_meta i), item_data = map_option nrm_data (item_data i),
     item_flags = item_flags i AND SmlMoreData_f\<rparr>"

definition good_item :: "SmlItem \<Rightarrow> bool" where
  "good_item i \<longleftrightarrow> pred_option good_target (item_target i) \<and> pred_option good_target (item_source i) \<and>
     pred_option good_data (item_meta i) \<and> pred_option good_item_data (item_data i)"

lemma element_item:
  "el_item i = Sp_ok es \<Longrightarrow> good_item i \<Longrightarrow> element K buildItem SML_EXT_UNDEFINED TN_ITEM es (Some (nrm_item i))"
  unfolding buildItem_def el_item_def good_item_def
  by (erule element_struct)
     (rule parse_item_data el_rules parse_part member_item | erule (1) element_targets
      | simp add: known_syncml nrm_item_def zero_item_def)+

section \<open>Commands\<close>

lemmas element_parts = element_targets element_cred element_item element_chal element_mapitem

lemma member_hdr [simp]:
  "member hdr_version hdr_version_update" "member hdr_proto hdr_proto_update"
  "member hdr_sessionID hdr_sessionID_update"
  "member hdr_msgID hdr_msgID_update" "member hdr_flags hdr_flags_update" "member hdr_target hdr_target_update"
  "member hdr_source hdr_source_update" "member hdr_respURI hdr_respURI_update"
  "member hdr_cred hdr_cred_update"
  "member hdr_meta hdr_meta_update"
  by (auto simp: member_def intro!: SmlSyncHdr.equality)

definition no_resp :: "Flag \<Rightarrow> Flag" where
  "no_resp f = f AND SmlNoResp_f"

definition nrm_hdr :: "SmlSyncHdr \<Rightarrow> SmlSyncHdr" where
  "nrm_hdr h = \<lparr>hdr_version = map_option nrm_data (hdr_version h), hdr_proto = map_option nrm_data (hdr_proto h),
     hdr_sessionID = map_option nrm_data (hdr_sessionID h), hdr_msgID = map_option nrm_data (hdr_msgID h),
     hdr_flags = no_resp (hdr_flags h), hdr_target = map_option nrm_target (hdr_target h),
     hdr_source = map_option nrm_target (hdr_source h), hdr_respURI = map_option nrm_data (hdr_respURI h),
     hdr_cred = map_option nrm_cred (hdr_cred h), hdr_meta = map_option nrm_data (hdr_meta h)\<rparr>"

definition good_hdr :: "SmlSyncHdr \<Rightarrow> bool" where
  "good_hdr h \<longleftrightarrow> list_all (pred_option good_data)
       [hdr_version h, hdr_proto h, hdr_sessionID h, hdr_msgID h, hdr_respURI h, hdr_meta h] \<and>
     pred_option good_target (hdr_target h) \<and> pred_option good_target (hdr_source h) \<and> pred_option good_cred (hdr_cred h)"

lemma element_hdr:
  "el_hdr h = Sp_ok es \<Longrightarrow> good_hdr h \<Longrightarrow> element K buildSyncHdr SML_EXT_UNDEFINED TN_SYNCHDR es (Some (nrm_hdr h))"
  unfolding buildSyncHdr_def el_hdr_def good_hdr_def
  by (erule element_struct)
     (rule el_rules parse_part parse_part_req member_hdr | erule (1) element_parts
      | simp add: known_syncml nrm_hdr_def zero_hdr_def no_resp_def)+

lemma member_generic [simp]:
  "member gen_cmdID gen_cmdID_update" "member gen_flags gen_flags_update" "member gen_cred gen_cred_update"
  "member gen_meta gen_meta_update" "member gen_itemList gen_itemList_update"
  by (auto simp: member_def intro!: SmlGenericCmd.equality)

definition good_items :: "SmlItem option list \<Rightarrow> bool" where
  "good_items xs \<longleftrightarrow> list_all (good_entry good_item) xs"

definition nrm_items :: "SmlItem option list \<Rightarrow> SmlItem option list" where
  "nrm_items xs = map (map_option nrm_item) xs"

text \<open>Only a \<open>Delete\<close> is written with the flags for archiving and soft deletion.\<close>

definition delete_flags :: "Flag \<Rightarrow> Flag" where
  "delete_flags f = (f AND SmlNoResp_f OR f AND SmlArchive_f) OR f AND SmlSftDel_f"

definition nrm_generic :: "(Flag \<Rightarrow> Flag) \<Rightarrow> SmlGenericCmd \<Rightarrow> SmlGenericCmd" where
  "nrm_generic w c = \<lparr>gen_cmdID = map_option nrm_data (gen_cmdID c), gen_flags = w (gen_flags c),
     gen_cred = map_option nrm_cred (gen_cred c), gen_meta = map_option nrm_data (gen_meta c),
     gen_itemList = nrm_items (gen_itemList c)\<rparr>"

definition good_generic :: "SmlGenericCmd \<Rightarrow> bool" where
  "good_generic c \<longleftrightarrow> list_all (pred_option good_data) [gen_cmdID c, gen_meta c] \<and> pred_option good_cred (gen_cred c) \<and>
     good_items (gen_itemList c)"

lemma element_generic:
  "el_generic i c = Sp_ok es \<Longrightarrow> good_generic c \<Longrightarrow> i \<in> known_tags SML_EXT_UNDEFINED \<Longrightarrow>
     element K buildGenericCmd SML_EXT_UNDEFINED i es (Some (nrm_generic no_resp c))"
  unfolding buildGenericCmd_def el_generic_def good_generic_def el_items_def good_items_def
  by (erule element_struct)
     (assumption | rule el_rules parse_part parse_list_req member_generic | erule (1) element_parts
      | simp add: known_syncml nrm_generic_def nrm_items_def zero_generic_def appendItemList_def no_resp_def delete_flags_def)+

lemma element_delete:
  "el_delete c = Sp_ok es \<Longrightarrow> good_generic c \<Longrightarrow>
     element K buildGenericCmd SML_EXT_UNDEFINED TN_DELETE es (Some (nrm_generic delete_flags c))"
  unfolding buildGenericCmd_def el_delete_def good_generic_def el_items_def good_items_def
  by (erule element_struct)
     (assumption | rule el_rules parse_part parse_list_req member_generic | erule (1) element_parts
      | simp add: known_syncml nrm_generic_def nrm_items_def zero_generic_def appendItemList_def no_resp_def delete_flags_def)+

lemma member_alert [simp]:
  "member al_cmdID al_cmdID_update" "member al_flags al_flags_update" "member al_cred al_cred_update"
  "member al_data al_data_update" "member al_itemList al_itemList_update"
  "member al_correlator al_correlator_update"
  by (auto simp: member_def intro!: SmlAlert.equality)

definition nrm_alert :: "SmlAlert \<Rightarrow> SmlAlert" where
  "nrm_alert c = \<lparr>al_cmdID = map_option nrm_data (al_cmdID c),
     al_flags = no_resp (al_flags c),
     al_cred = map_option nrm_cred (al_cred c),
     al_data = map_option nrm_data (al_data c),
     al_itemList = nrm_items (al_itemList c),
     al_correlator = map_option nrm_data (al_correlator c)\<rparr>"

definition good_alert :: "SmlAlert \<Rightarrow> bool" where
  "good_alert c \<longleftrightarrow> list_all (pred_option good_data) [al_cmdID c, al_data c, al_correlator c] \<and>
     pred_option good_cred (al_cred c) \<and>
     good_items (al_itemList c)"

lemma element_alert:
  "el_alert c = Sp_ok es \<Longrightarrow> good_alert c \<Longrightarrow>
     element K buildAlert SML_EXT_UNDEFINED TN_ALERT es (Some (nrm_alert c))"
  unfolding buildAlert_def el_alert_def good_alert_def el_items_def good_items_def
  by (erule element_struct)
     (assumption | rule el_rules parse_part parse_part_req parse_list parse_list_req member_alert | erule (1) element_parts
      | simp add: known_syncml nrm_alert_def nrm_items_def zero_alert_def no_resp_def appendItemList_def)+

lemma member_exec [simp]:
  "member ex_cmdID ex_cmdID_update" "member ex_flags ex_flags_update" "member ex_cred ex_cred_update"
  "member ex_meta ex_meta_update" "member ex_item ex_item_update"
  "member ex_correlator ex_correlator_update"
  by (auto simp: member_def intro!: SmlExec.equality)

definition nrm_exec :: "SmlExec \<Rightarrow> SmlExec" where
  "nrm_exec c = \<lparr>ex_cmdID = map_option nrm_data (ex_cmdID c),
     ex_flags = no_resp (ex_flags c),
     ex_cred = map_option nrm_cred (ex_cred c),
     ex_meta = map_option nrm_data (ex_meta c),
     ex_item = map_option nrm_item (ex_item c),
     ex_correlator = map_option nrm_data (ex_correlator c)\<rparr>"

definition good_exec :: "SmlExec \<Rightarrow> bool" where
  "good_exec c \<longleftrightarrow> list_all (pred_option good_data) [ex_cmdID c, ex_meta c, ex_correlator c] \<and>
     pred_option good_cred (ex_cred c) \<and>
     pred_option good_item (ex_item c)"

lemma element_exec:
  "el_exec c = Sp_ok es \<Longrightarrow> good_exec c \<Longrightarrow>
     element K buildExec SML_EXT_UNDEFINED TN_EXEC es (Some (nrm_exec c))"
  unfolding buildExec_def el_exec_def good_exec_def el_items_def good_items_def
  by (erule element_struct)
     (assumption | rule el_rules parse_part parse_part_req parse_list parse_list_req member_exec | erule (1) element_parts
      | simp add: known_syncml nrm_exec_def nrm_items_def zero_exec_def no_resp_def)+

lemma member_getput [simp]:
  "member gp_cmdID gp_cmdID_update" "member gp_flags gp_flags_update" "member gp_lang gp_lang_update"
  "member gp_cred gp_cred_update" "member gp_meta gp_meta_update" "member gp_itemList gp_itemList_update"
  by (auto simp: member_def intro!: SmlGetPut.equality)

definition nrm_getput :: "SmlGetPut \<Rightarrow> SmlGetPut" where
  "nrm_getput c = \<lparr>gp_cmdID = map_option nrm_data (gp_cmdID c),
     gp_flags = no_resp (gp_flags c),
     gp_lang = map_option nrm_data (gp_lang c),
     gp_cred = map_option nrm_cred (gp_cred c),
     gp_meta = map_option nrm_data (gp_meta c),
     gp_itemList = nrm_items (gp_itemList c)\<rparr>"

definition good_getput :: "SmlGetPut \<Rightarrow> bool" where
  "good_getput c \<longleftrightarrow> list_all (pred_option good_data) [gp_cmdID c, gp_lang c, gp_meta c] \<and>
     pred_option good_cred (gp_cred c) \<and>
     good_items (gp_itemList c)"

lemma element_getput:
  "el_getput i c = Sp_ok es \<Longrightarrow> good_getput c \<Longrightarrow> i \<in> known_tags SML_EXT_UNDEFINED \<Longrightarrow>
     element K buildPutOrGet SML_EXT_UNDEFINED i es (Some (nrm_getput c))"
  unfolding buildPutOrGet_def el_getput_def good_getput_def el_items_def good_items_def
  by (erule element_struct)
     (assumption | rule el_rules parse_part parse_part_req parse_list parse_list_req member_getput | erule (1) element_parts
      | simp add: known_syncml nrm_getput_def nrm_items_def zero_getput_def no_resp_def appendItemList_def)+

lemma member_map [simp]:
  "member mp_cmdID mp_cmdID_update" "member mp_target mp_target_update" "member mp_source mp_source_update"
  "member mp_cred mp_cred_update" "member mp_meta mp_meta_update"
  "member mp_mapItemList mp_mapItemList_update"
  by (auto simp: member_def intro!: SmlMap.equality)

definition nrm_map :: "SmlMap \<Rightarrow> SmlMap" where
  "nrm_map c = \<lparr>mp_cmdID = map_option nrm_data (mp_cmdID c),
     mp_target = map_option nrm_target (mp_target c),
     mp_source = map_option nrm_target (mp_source c),
     mp_cred = map_option nrm_cred (mp_cred c),
     mp_meta = map_option nrm_data (mp_meta c),
     mp_mapItemList = map (map_option nrm_mapitem) (mp_mapItemList c)\<rparr>"

definition good_map :: "SmlMap \<Rightarrow> bool" where
  "good_map c \<longleftrightarrow> list_all (pred_option good_data) [mp_cmdID c, mp_meta c] \<and>
     pred_option good_target (mp_target c) \<and>
     pred_option good_target (mp_source c) \<and>
     pred_option good_cred (mp_cred c) \<and>
     list_all (good_entry good_mapitem) (mp_mapItemList c)"

lemma element_map:
  "el_map c = Sp_ok es \<Longrightarrow> good_map c \<Longrightarrow>
     element K buildMap SML_EXT_UNDEFINED TN_MAP es (Some (nrm_map c))"
  unfolding buildMap_def el_map_def good_map_def el_items_def good_items_def
  by (erule element_struct)
     (assumption | rule el_rules parse_part parse_part_req parse_list parse_list_req member_map | erule (1) element_parts
      | simp add: known_syncml nrm_map_def nrm_items_def zero_map_def no_resp_def appendMapItemList_def)+

lemma member_results [simp]:
  "member rs_cmdID rs_cmdID_update" "member rs_msgRef rs_msgRef_update" "member rs_cmdRef rs_cmdRef_update"
  "member rs_meta rs_meta_update" "member rs_targetRef rs_targetRef_update"
  "member rs_sourceRef rs_sourceRef_update" "member rs_itemList rs_itemList_update"
  by (auto simp: member_def intro!: SmlResults.equality)

definition nrm_results :: "SmlResults \<Rightarrow> SmlResults" where
  "nrm_results c = \<lparr>rs_cmdID = map_option nrm_data (rs_cmdID c),
     rs_msgRef = map_option nrm_data (rs_msgRef c),
     rs_cmdRef = map_option nrm_data (rs_cmdRef c),
     rs_meta = map_option nrm_data (rs_meta c),
     rs_targetRef = map_option nrm_data (rs_targetRef c),
     rs_sourceRef = map_option nrm_data (rs_sourceRef c),
     rs_itemList = nrm_items (rs_itemList c)\<rparr>"

definition good_results :: "SmlResults \<Rightarrow> bool" where
  "good_results c \<longleftrightarrow> list_all (pred_option good_data)
       [rs_cmdID c, rs_msgRef c, rs_cmdRef c, rs_meta c, rs_targetRef c, rs_sourceRef c] \<and>
     good_items (rs_itemList c)"

lemma element_results:
  "el_results c = Sp_ok es \<Longrightarrow> good_results c \<Longrightarrow>
     element K buildResults SML_EXT_UNDEFINED TN_RESULTS es (Some (nrm_results c))"
  unfolding buildResults_def el_results_def good_results_def el_items_def good_items_def
  by (erule element_struct)
     (assumption | rule el_rules parse_part parse_part_req parse_list parse_list_req member_results | erule (1) element_parts
      | simp add: known_syncml nrm_results_def nrm_items_def zero_results_def no_resp_def appendItemList_def)+

lemma member_search [simp]:
  "member se_cmdID se_cmdID_update" "member se_flags se_flags_update" "member se_cred se_cred_update"
  "member se_target se_target_update" "member se_sourceList se_sourceList_update"
  "member se_lang se_lang_update" "member se_meta se_meta_update" "member se_data se_data_update"
  by (auto simp: member_def intro!: SmlSearch.equality)

definition nrm_search :: "SmlSearch \<Rightarrow> SmlSearch" where
  "nrm_search c = \<lparr>se_cmdID = map_option nrm_data (se_cmdID c),
     se_flags = no_resp (se_flags c) OR se_flags c AND SmlNoResults_f,
     se_cred = map_option nrm_cred (se_cred c),
     se_target = map_option nrm_target (se_target c),
     se_sourceList = map (map_option nrm_target) (se_sourceList c),
     se_lang = map_option nrm_data (se_lang c),
     se_meta = map_option nrm_data (se_meta c),
     se_data = map_option nrm_data (se_data c)\<rparr>"

definition good_search :: "SmlSearch \<Rightarrow> bool" where
  "good_search c \<longleftrightarrow> list_all (pred_option good_data) [se_cmdID c, se_lang c, se_meta c, se_data c] \<and>
     pred_option good_cred (se_cred c) \<and>
     pred_option good_target (se_target c) \<and>
     list_all (good_entry good_target) (se_sourceList c)"

lemma element_search:
  "el_search c = Sp_ok es \<Longrightarrow> good_search c \<Longrightarrow>
     element K buildSearch SML_EXT_UNDEFINED TN_SEARCH es (Some (nrm_search c))"
  unfolding buildSearch_def el_search_def good_search_def el_items_def good_items_def
  by (erule element_struct)
     (assumption | rule el_rules parse_part parse_part_req parse_list parse_list_req member_search | erule (1) element_parts
      | simp add: known_syncml nrm_search_def nrm_items_def zero_search_def no_resp_def appendSourceList_def)+

lemma member_status [simp]:
  "member st_cmdID st_cmdID_update" "member st_msgRef st_msgRef_update" "member st_cmdRef st_cmdRef_update"
  "member st_cmd st_cmd_update" "member st_targetRefList st_targetRefList_update"
  "member st_sourceRefList st_sourceRefList_update" "member st_cred st_cred_update" "member st_chal st_chal_update"
  "member st_data st_data_update" "member st_itemList st_itemList_update"
  by (auto simp: member_def intro!: SmlStatus.equality)

definition nrm_status :: "SmlStatus \<Rightarrow> SmlStatus" where
  "nrm_status c = \<lparr>st_cmdID = map_option nrm_data (st_cmdID c), st_msgRef = map_option nrm_data (st_msgRef c),
     st_cmdRef = map_option nrm_data (st_cmdRef c), st_cmd = map_option nrm_data (st_cmd c),
     st_targetRefList = map (map_option nrm_data) (st_targetRefList c),
     st_sourceRefList = map (map_option nrm_data) (st_sourceRefList c),
     st_cred = map_option nrm_cred (st_cred c), st_chal = map_option nrm_chal (st_chal c),
     st_data = map_option nrm_data (st_data c), st_itemList = nrm_items (st_itemList c)\<rparr>"

definition good_status :: "SmlStatus \<Rightarrow> bool" where
  "good_status c \<longleftrightarrow> list_all (pred_option good_data) [st_cmdID c, st_msgRef c, st_cmdRef c, st_cmd c, st_data c] \<and>
     list_all (good_entry good_data) (st_targetRefList c) \<and> list_all (good_entry good_data) (st_sourceRefList c) \<and>
     pred_option good_cred (st_cred c) \<and> pred_option good_chal (st_chal c) \<and> good_items (st_itemList c)"

lemma element_refs:
  "el_data TN_TARGETREF OPTIONAL (Some p) = Sp_ok es \<Longrightarrow> good_data p \<Longrightarrow>
     element K buildPCData SML_EXT_UNDEFINED TN_TARGETREF es (Some (nrm_data p))"
  "el_data TN_SOURCEREF OPTIONAL (Some p) = Sp_ok es \<Longrightarrow> good_data p \<Longrightarrow>
     element K buildPCData SML_EXT_UNDEFINED TN_SOURCEREF es (Some (nrm_data p))"
  by (rule element_data; assumption?; simp add: known_syncml)+

lemma element_status:
  "el_status c = Sp_ok es \<Longrightarrow> good_status c \<Longrightarrow>
     element K buildStatus SML_EXT_UNDEFINED TN_STATUS es (Some (nrm_status c))"
  unfolding buildStatus_def el_status_def good_status_def el_items_def good_items_def
  by (erule element_struct)
     (rule el_rules parse_part parse_list member_status | erule (1) element_parts element_refs
      | simp add: known_syncml nrm_status_def nrm_items_def zero_status_def appendItemList_def
          appendTargetRefList_def appendSourceRefList_def)+

text \<open>The elements that begin a group of commands; their loop stops at the first command.\<close>

lemma member_groups [simp]:
  "member at_cmdID at_cmdID_update" "member at_flags at_flags_update" "member at_meta at_meta_update"
  "member sy_cmdID sy_cmdID_update" "member sy_flags sy_flags_update" "member sy_cred sy_cred_update"
  "member sy_target sy_target_update" "member sy_source sy_source_update" "member sy_meta sy_meta_update"
  "member sy_noc sy_noc_update"
  by (auto simp: member_def intro!: SmlAtomic.equality SmlSync.equality)

definition nrm_atomic :: "SmlAtomic \<Rightarrow> SmlAtomic" where
  "nrm_atomic c = \<lparr>at_cmdID = map_option nrm_data (at_cmdID c), at_flags = no_resp (at_flags c),
     at_meta = map_option nrm_data (at_meta c)\<rparr>"

definition good_atomic :: "SmlAtomic \<Rightarrow> bool" where
  "good_atomic c \<longleftrightarrow> list_all (pred_option good_data) [at_cmdID c, at_meta c]"

definition nrm_sync :: "SmlSync \<Rightarrow> SmlSync" where
  "nrm_sync c = \<lparr>sy_cmdID = map_option nrm_data (sy_cmdID c), sy_flags = no_resp (sy_flags c),
     sy_cred = map_option nrm_cred (sy_cred c), sy_target = map_option nrm_target (sy_target c),
     sy_source = map_option nrm_target (sy_source c), sy_meta = map_option nrm_data (sy_meta c),
     sy_noc = map_option nrm_data (sy_noc c)\<rparr>"

definition good_sync :: "SmlSync \<Rightarrow> bool" where
  "good_sync c \<longleftrightarrow> list_all (pred_option good_data) [sy_cmdID c, sy_meta c, sy_noc c] \<and> pred_option good_cred (sy_cred c) \<and>
     pred_option good_target (sy_target c) \<and> pred_option good_target (sy_source c)"

lemma loops_atomic:
  assumes "el_atomic i c = Sp_ok es" "good_atomic c"
  shows "\<exists>fs t. es = Ev_start SML_EXT_UNDEFINED i # fs \<and> loops K atomic_cases fs zero_atomic (nrm_atomic c) t \<and>
    TN_CMDID \<in> set t \<and> set t \<inter> set atomic_breaks = {}"
proof -
  have "\<exists>t. parse K atomic_cases
     [el_data TN_CMDID REQUIRED (at_cmdID c), el_flag TN_NORESP SmlNoResp_f (at_flags c),
      el_data TN_META OPTIONAL (at_meta c)] zero_atomic (nrm_atomic c) t \<and> TN_CMDID \<in> set t \<and> set t \<inter> set atomic_breaks = {}"
    using assms(2) unfolding good_atomic_def
    by (intro exI conjI)
      (rule el_rules member_groups
       | simp add: known_syncml nrm_atomic_def zero_atomic_def no_resp_def atomic_cases_def atomic_breaks_def)+
  with assms(1) show ?thesis unfolding el_atomic_def sp_open_ok parse_def by blast
qed

lemma loops_sync:
  assumes "el_sync c = Sp_ok es" "good_sync c"
  shows "\<exists>fs t. es = Ev_start SML_EXT_UNDEFINED TN_SYNC # fs \<and> loops K sync_cases fs zero_sync (nrm_sync c) t \<and>
    set t \<inter> set sync_breaks = {}"
proof -
  have "\<exists>t. parse K sync_cases
     [el_data TN_CMDID REQUIRED (sy_cmdID c), el_flag TN_NORESP SmlNoResp_f (sy_flags c),
      sp_elem OPTIONAL (sy_cred c) el_cred, sp_elem OPTIONAL (sy_target c) (el_target TN_TARGET),
      sp_elem OPTIONAL (sy_source c) (el_target TN_SOURCE), el_data TN_META OPTIONAL (sy_meta c),
      el_data TN_NUMBEROFCHANGES OPTIONAL (sy_noc c)] zero_sync (nrm_sync c) t \<and> set t \<inter> set sync_breaks = {}"
    using assms(2) unfolding good_sync_def
    by (intro exI conjI)
      (rule el_rules parse_part member_groups | erule (1) element_parts
       | simp add: known_syncml nrm_sync_def zero_sync_def no_resp_def sync_cases_def sync_breaks_def)+
  with assms(1) show ?thesis unfolding el_sync_def sp_open_ok parse_def by blast
qed

end
