(* ===== verification/Decoder_Message.thy ===== *)
theory Decoder_Message
  imports Decoder_Elements
begin

text \<open>
  Whole documents: \<open>xltDecInit\<close> reads the header, every call of \<open>xltDecNext\<close> the next command.
\<close>

section \<open>Between two calls\<close>

text \<open>
  Between two calls the caller may move the document; the decoder only gets the part that is left. The
  bytes at a place are a document part.
\<close>

definition doc_at :: "byte list \<Rightarrow> int \<Rightarrow> int \<Rightarrow> byte list \<Rightarrow> bool" where
  "doc_at m start end bs \<longleftrightarrow>
     0 \<le> start \<and> start \<le> end \<and> end \<le> int (length m) \<and> drop (nat start) (take (nat end) m) = bs"

definition rebuf :: "byte list \<Rightarrow> int \<Rightarrow> int \<Rightarrow> XltDecoder \<Rightarrow> XltDecoder" where
  "rebuf m start end d = d\<lparr>xd_scanner := setBuf m start end (xd_scanner d)\<rparr>"

text \<open>What the decoder is apart from the buffer: flags, encodings, the page it is on, and the open tags.\<close>

definition paused :: "bool \<Rightarrow> bool \<Rightarrow> SmlPcdataExtension \<Rightarrow> XltTagID list \<Rightarrow> wb_event list \<Rightarrow> XltDecoder \<Rightarrow> bool" where
  "paused fi fl cur st es d \<longleftrightarrow> xd_finished d = fi \<and> xd_final d = fl \<and>
     (\<forall>m start end. doc_at m start end (doc_bytes cur es) \<longrightarrow>
        ahead_of (dec_ctx (rebuf m start end d)) cur st es [] (rebuf m start end d))"

lemma rebuf_scan:
  "scan_ready cur st bs (xd_scanner d) \<Longrightarrow> doc_at m start end bs' \<Longrightarrow> scan_ready cur st bs' (xd_scanner (rebuf m start end d))"
  by (simp add: scan_ready_def rebuf_def setBuf_def doc_at_def in_doc_def ahead_def)

lemma doc_at_length: "doc_at m pos E bs \<Longrightarrow> E - pos = int (length bs)"
  by (auto simp: doc_at_def min_def)

lemma doc_at_skip:
  assumes "doc_at m pos E (xs @ ys)"
  shows "doc_at m (pos + int (length xs)) E ys"
proof -
  from assms have "drop (nat pos + length xs) (take (nat E) m) = ys"
    by (metis append_eq_conv_conj doc_at_def drop_drop add.commute)
  with assms doc_at_length [OF assms] show ?thesis by (simp add: doc_at_def nat_add_distrib)
qed

lemma ready_paused:
  assumes "dec_ready K cur st bs d"
  shows "paused (xd_finished d) (xd_final d) cur st es d"
proof -
  have "ahead_of (dec_ctx (rebuf m start end d)) cur st es [] (rebuf m start end d)"
    if "doc_at m start end (doc_bytes cur es)" for m start "end"
  proof (rule ahead_of_ready)
    have "scan_ready cur st (doc_bytes cur es) (xd_scanner (rebuf m start end d))"
      using assms that by (intro rebuf_scan [of cur st bs]) (simp_all add: dec_ready_def)
    then show "dec_ready (dec_ctx (rebuf m start end d)) cur st (doc_bytes cur es @ []) (rebuf m start end d)"
      using assms by (auto simp: dec_ready_def rebuf_def dec_ctx_def ctx_ok_def)
  qed
  then show ?thesis by (simp add: paused_def)
qed

lemma ahead_paused:
  assumes "ahead_of K cur st es [] d"
  shows "paused (xd_finished d) (xd_final d) cur st es d"
proof -
  from assms obtain now where now: "dec_ready K now st (doc_bytes cur es) d"
    "now = cur \<or> (\<exists>ext i fs. es = Ev_start ext i # fs \<and> getCodePage ext \<noteq> getCodePage cur)"
    by (auto simp: ahead_of_def)
  have "ahead_of (dec_ctx (rebuf m start end d)) cur st es [] (rebuf m start end d)"
    if "doc_at m start end (doc_bytes cur es)" for m start "end"
  proof -
    have "scan_ready now st (doc_bytes cur es) (xd_scanner (rebuf m start end d))"
      using now(1) that by (intro rebuf_scan [of now st "doc_bytes cur es"]) (simp_all add: dec_ready_def)
    moreover have "stk_ready st (xd_tagstack (rebuf m start end d))" "ctx_ok (dec_ctx (rebuf m start end d))"
      using now(1) by (auto simp: dec_ready_def rebuf_def dec_ctx_def ctx_ok_def)
    ultimately have "dec_ready (dec_ctx (rebuf m start end d)) now st (doc_bytes cur es @ []) (rebuf m start end d)"
      by (simp add: dec_ready_def)
    with now(2) show ?thesis unfolding ahead_of_def by blast
  qed
  then show ?thesis by (simp add: paused_def)
qed

text \<open>The document after a call.\<close>

lemma ahead_doc:
  assumes "ahead_of (dec_ctx (rebuf m start end d0)) cur st es [] d"
  shows "doc_at m (getPos (xd_scanner d)) end (doc_bytes cur es)"
proof -
  from assms have s: "in_doc (xd_scanner d)" "ahead (xd_scanner d) = doc_bytes cur es"
    "dec_ctx d = dec_ctx (rebuf m start end d0)" by (auto simp: ahead_of_def dec_ready_def scan_ready_def)
  then have "sc_mem (xd_scanner d) = m" "sc_bufend (xd_scanner d) = end"
    by (auto simp: dec_ctx_def rebuf_def setBuf_def)
  with s(1,2) show ?thesis by (simp add: doc_at_def in_doc_def ahead_def getPos_def)
qed

section \<open>The next command\<close>

text \<open>\<open>xltDecNext\<close> inside the body.\<close>

definition next_element :: "int \<Rightarrow> SmlProtoElement \<Rightarrow> sml_elem option \<Rightarrow> XltDecoder \<Rightarrow> dec_next" where
  "next_element pos pe c d = do {
     (rc, d) \<leftarrow> nextToken d;
     if rc \<noteq> SML_ERR_OK then Some (rc, pos, pe, c, d)
     else do {
       (rc, pe, c, d) \<leftarrow>
         (if IS_START_OR_EMPTY (curtok d) \<and> tok_tagid (curtok d) \<noteq> TN_FINAL then pe_element pe c d
          else do { (rc, pe, d) \<leftarrow> end_element pe d; Some (rc, pe, if rc = SML_ERR_OK then None else c, d) });
       Some (rc, if rc = SML_ERR_OK then getPos (xd_scanner d) else pos, pe, c, d)
     }
   }"

lemma xltDecNext_steps:
  "xltDecNext m end pos pe c d = do {
     (rc, d) \<leftarrow> enter_body (rebuf m pos end d);
     if rc \<noteq> SML_ERR_OK then Some (rc, pos, pe, c, d) else next_element pos pe c d
   }"
  unfolding xltDecNext_def next_element_def rebuf_def Let_def by (rule refl)

lemma enter_inside:
  assumes "ahead_of K cur (i # st) es rest d" "i \<noteq> TN_SYNCML"
  shows "enter_body d = Some (SML_ERR_OK, d)"
proof -
  from assms(1) have "stk_inv (xd_tagstack d)" "stk_view (xd_tagstack d) = i # st"
    by (auto simp: ahead_of_def dec_ready_def stk_ready_def stk_tight_def)
  with stack_top_view [of "xd_tagstack d"] assms(2) show ?thesis by (simp add: enter_body_def)
qed

lemma enter_first:
  assumes "ahead_of K cur [TN_SYNCML] (Ev_start SML_EXT_UNDEFINED TN_SYNCBODY # es) rest d"
  shows "\<exists>d'. enter_body d = Some (SML_ERR_OK, d') \<and>
    ahead_of K SML_EXT_UNDEFINED [TN_SYNCBODY, TN_SYNCML] es rest d'"
proof -
  from assms have "stk_inv (xd_tagstack d)" "stk_view (xd_tagstack d) = [TN_SYNCML]"
    by (auto simp: ahead_of_def dec_ready_def stk_ready_def stk_tight_def)
  with stack_top_view [of "xd_tagstack d"] have top: "stack_top (xd_tagstack d) = Some (SML_ERR_OK, Some TN_SYNCML)" by simp
  have "ev_ok (Ev_start SML_EXT_UNDEFINED TN_SYNCBODY) \<and> ev_page_ok (Ev_start SML_EXT_UNDEFINED TN_SYNCBODY)"
    using plain_first [of TN_SYNCBODY SML_EXT_UNDEFINED] by (simp add: first_ok_def known_syncml)
  with next_ahead [OF assms, of "[TN_SYNCBODY, TN_SYNCML]"] obtain d' where
    "nextToken d = Some (SML_ERR_OK, d')" "dec_ready K SML_EXT_UNDEFINED [TN_SYNCBODY, TN_SYNCML]
      (doc_bytes SML_EXT_UNDEFINED es @ rest) d'" "started SML_EXT_UNDEFINED TN_SYNCBODY d'"
    by (auto simp: started_def)
  with top show ?thesis by (auto simp: enter_body_def started_def IS_START_def intro: ahead_of_ready)
qed

text \<open>An element that is complete.\<close>

lemma element_read:
  assumes el: "element K b SML_EXT_UNDEFINED i es (Some y)"
    and r: "ahead_of K cur st (es @ fs) rest d" and len: "length st + length es < 2 ^ 31 - 25"
  shows "\<exists>d1 d2. nextToken d = Some (SML_ERR_OK, d1) \<and> started SML_EXT_UNDEFINED i d1 \<and> dec_malloc d1 = (True, d1) \<and>
    b None d1 = Some (SML_ERR_OK, Some y, d2) \<and> ahead_of K (ext_after cur es) st fs rest d2"
proof -
  from el obtain body where es: "es = Ev_start SML_EXT_UNDEFINED i # body @ [Ev_end]" "i \<in> known_tags SML_EXT_UNDEFINED"
    and b: "builds K b SML_EXT_UNDEFINED i body (Some y)" by (auto simp: element_def)
  have "ahead_of K cur st (Ev_start SML_EXT_UNDEFINED i # body @ [Ev_end] @ fs) rest d" using r by (simp add: es)
  from next_ahead [OF this, of "i # st"] plain_first [OF es(2)] len obtain d1 where
    d1: "nextToken d = Some (SML_ERR_OK, d1)" "started SML_EXT_UNDEFINED i d1"
      "dec_ready K SML_EXT_UNDEFINED (i # st) (doc_bytes SML_EXT_UNDEFINED (body @ [Ev_end] @ fs) @ rest) d1"
    by (auto simp: first_ok_def started_def)
  have "doc_bytes SML_EXT_UNDEFINED (body @ [Ev_end] @ fs) @ rest =
      doc_bytes SML_EXT_UNDEFINED (body @ [Ev_end]) @ doc_bytes (ext_after cur es) fs @ rest"
    by (simp add: doc_bytes_append es ext_after_append)
  with b d1(2,3) len obtain d2 where
    d2: "b None d1 = Some (SML_ERR_OK, Some y, d2)"
      "at_tag_end K (ext_after SML_EXT_UNDEFINED body) st (doc_bytes (ext_after cur es) fs @ rest) d2"
    unfolding builds_def es(1) by fastforce
  have "ext_after SML_EXT_UNDEFINED body = ext_after cur es" by (simp add: es ext_after_append)
  with d2 d1 dec_malloc_ready [OF d1(3)] show ?thesis by (auto simp: at_tag_end_def intro: ahead_of_ready)
qed

lemma next_complete:
  assumes el: "element K b SML_EXT_UNDEFINED i es (Some y)" and tab: "map_of getPETable i = Some (pe', b)"
    and r: "ahead_of K cur st (es @ fs) [] d" and len: "length st + length es < 2 ^ 31 - 25" and i: "i \<noteq> TN_FINAL"
  shows "\<exists>d'. next_element pos pe None d = Some (SML_ERR_OK, getPos (xd_scanner d'), pe', Some y, d') \<and>
    ahead_of K (ext_after cur es) st fs [] d'"
  using element_read [OF el r len] tab i
  by (auto simp: next_element_def started_def tok_classes pe_element_def)

text \<open>A group of commands: its first element stops in front of the first command of the group.\<close>

lemma group_loop:
  assumes l: "loops K cs fs zero x t" and t: "set t \<inter> set brk = {}" and j: "j \<in> set brk" "j \<in> known_tags SML_EXT_UNDEFINED"
    and r: "dec_ready K SML_EXT_UNDEFINED (i # st) (doc_bytes SML_EXT_UNDEFINED (fs @ Ev_start SML_EXT_UNDEFINED j # gs)) d"
    and len: "Suc (length st) + length fs < 2 ^ 31 - 25" and plain: "plain_ext (ext_after SML_EXT_UNDEFINED fs)"
  shows "\<exists>d'. next_loop brk cs zero [] d = Some (SML_ERR_OK, True, x, t, d') \<and>
    ahead_of K (ext_after SML_EXT_UNDEFINED fs) (i # st) (Ev_start SML_EXT_UNDEFINED j # gs) [] d'"
proof -
  let ?U = SML_EXT_UNDEFINED
  have "ahead_of K ?U (i # st) (fs @ Ev_start ?U j # gs) [] d" using r by (intro ahead_of_ready) simp
  from loops_next [OF l this _ t, of "[]"] len obtain d1 where
    d1: "next_loop brk cs zero [] d = next_loop brk cs x t d1"
      "ahead_of K (ext_after ?U fs) (i # st) (Ev_start ?U j # gs) [] d1" by auto
  from start_again [OF d1(2) j(2) _ plain] len obtain d2 d3 where
    d2: "nextToken d1 = Some (SML_ERR_OK, d2)" "started ?U j d2" "discardToken d2 = Some (SML_ERR_OK, d3)"
      "ahead_of K (ext_after ?U fs) (i # st) (Ev_start ?U j # gs) [] d3" by auto
  then have "next_loop brk cs x t d1 = Some (SML_ERR_OK, True, x, t, d3)"
    using j(1) by (simp add: next_loop_def build_loop.simps [of _ _ _ _ d2] started_def tok_classes)
  with d1(1) d2(4) show ?thesis by auto
qed

section \<open>Commands\<close>

definition nrm_elem :: "SmlProtoElement \<Rightarrow> sml_elem \<Rightarrow> sml_elem" where
  "nrm_elem pe c =
     (case c of
        El_generic x \<Rightarrow> El_generic (nrm_generic (if pe = SML_PE_DELETE then delete_flags else no_resp) x)
      | El_alert x \<Rightarrow> El_alert (nrm_alert x)
      | El_atomic x \<Rightarrow> El_atomic (nrm_atomic x)
      | El_exec x \<Rightarrow> El_exec (nrm_exec x)
      | El_getput x \<Rightarrow> El_getput (nrm_getput x)
      | El_map x \<Rightarrow> El_map (nrm_map x)
      | El_results x \<Rightarrow> El_results (nrm_results x)
      | El_search x \<Rightarrow> El_search (nrm_search x)
      | El_status x \<Rightarrow> El_status (nrm_status x)
      | El_sync x \<Rightarrow> El_sync (nrm_sync x)
      | _ \<Rightarrow> c)"

definition good_elem :: "sml_elem \<Rightarrow> bool" where
  "good_elem c =
     (case c of
        El_generic x \<Rightarrow> good_generic x
      | El_alert x \<Rightarrow> good_alert x
      | El_atomic x \<Rightarrow> good_atomic x
      | El_exec x \<Rightarrow> good_exec x
      | El_getput x \<Rightarrow> good_getput x
      | El_map x \<Rightarrow> good_map x
      | El_results x \<Rightarrow> good_results x
      | El_search x \<Rightarrow> good_search x
      | El_status x \<Rightarrow> good_status x
      | El_sync x \<Rightarrow> good_sync x
      | _ \<Rightarrow> True)"

lemma pe_tag_iff:
  "pe_tag pe = TN_ADD \<longleftrightarrow> pe = SML_PE_ADD" "pe_tag pe = TN_ALERT \<longleftrightarrow> pe = SML_PE_ALERT"
  "pe_tag pe = TN_ATOMIC \<longleftrightarrow> pe = SML_PE_ATOMIC_START" "pe_tag pe = TN_COPY \<longleftrightarrow> pe = SML_PE_COPY"
  "pe_tag pe = TN_DELETE \<longleftrightarrow> pe = SML_PE_DELETE" "pe_tag pe = TN_EXEC \<longleftrightarrow> pe = SML_PE_EXEC"
  "pe_tag pe = TN_GET \<longleftrightarrow> pe = SML_PE_GET" "pe_tag pe = TN_MAP \<longleftrightarrow> pe = SML_PE_MAP"
  "pe_tag pe = TN_PUT \<longleftrightarrow> pe = SML_PE_PUT" "pe_tag pe = TN_RESULTS \<longleftrightarrow> pe = SML_PE_RESULTS"
  "pe_tag pe = TN_SEARCH \<longleftrightarrow> pe = SML_PE_SEARCH" "pe_tag pe = TN_SEQUENCE \<longleftrightarrow> pe = SML_PE_SEQUENCE_START"
  "pe_tag pe = TN_STATUS \<longleftrightarrow> pe = SML_PE_STATUS" "pe_tag pe = TN_SYNC \<longleftrightarrow> pe = SML_PE_SYNC_START"
  "pe_tag pe = TN_REPLACE \<longleftrightarrow> pe = SML_PE_REPLACE"
  by (cases pe; simp add: pe_tag_def getPEEncTable_def)+

lemma pe_tag_range: "pe_tag pe \<in> set (map fst getPEEncTable)"
  by (cases pe) (simp_all add: pe_tag_def getPEEncTable_def)

lemma pe_tag_command:
  "pe_tag pe \<notin> {TN_SYNCHDR, TN_CRED, TN_SOURCE, TN_TARGET, TN_ITEM, TN_MAPITEM, TN_CHAL}" "flag_of_tag (pe_tag pe) = None"
  "pe_tag pe \<in> set struct_tags \<or> pe_tag pe \<notin> known_tags SML_EXT_UNDEFINED \<or> end_tag_of (pe_tag pe) \<noteq> None"
proof -
  have u: "0 \<notin> known_tags SML_EXT_UNDEFINED" by code_simp
  from pe_tag_range [of pe] show "pe_tag pe \<notin> {TN_SYNCHDR, TN_CRED, TN_SOURCE, TN_TARGET, TN_ITEM, TN_MAPITEM, TN_CHAL}"
    by (auto simp: getPEEncTable_def)
  from pe_tag_range [of pe] show "flag_of_tag (pe_tag pe) = None" by (auto simp: getPEEncTable_def flag_of_tag_def)
  from pe_tag_range [of pe] u show
    "pe_tag pe \<in> set struct_tags \<or> pe_tag pe \<notin> known_tags SML_EXT_UNDEFINED \<or> end_tag_of (pe_tag pe) \<noteq> None"
    by (auto simp: getPEEncTable_def struct_tags_def end_tag_of_def)
qed

lemma cmd_content:
  assumes "cmd_spec (pe, c) = Sp_ok es" "pe \<notin> ends"
  obtains x where "c = Some x" "content_spec (pe_tag pe) REQUIRED x = Sp_ok es"
  using assms by (auto simp: cmd_spec_def block_spec_def pe_tag_kind sp_elem_def split: option.splits)

lemma table_element:
  assumes "element K b SML_EXT_UNDEFINED i es (Some y)" "map_of getPETable i = Some (pe, elem_builder f b)"
  shows "\<exists>B. map_of getPETable i = Some (pe, B) \<and> element K B SML_EXT_UNDEFINED i es (Some (f y))"
proof -
  have "builds K (elem_builder f b) SML_EXT_UNDEFINED i fs (Some (f y))" if "builds K b SML_EXT_UNDEFINED i fs (Some y)" for fs
    using that unfolding builds_def by (fastforce simp: elem_builder_def)
  with assms show ?thesis by (auto simp: element_def)
qed

lemmas element_commands = element_generic element_delete element_alert element_exec element_getput element_map
  element_results element_search element_status

text \<open>Every command that is complete has a row in the table, and its builder reads what was written.\<close>

lemma complete_command:
  assumes es: "content_spec (pe_tag pe) REQUIRED c = Sp_ok es" and pe: "pe \<notin> starts" "pe \<notin> ends" and good: "good_elem c"
  shows "\<exists>B. map_of getPETable (pe_tag pe) = Some (pe, B) \<and>
    element K B SML_EXT_UNDEFINED (pe_tag pe) es (Some (nrm_elem pe c))"
proof -
  note tab = getPETable_def and known = known_syncml known_cmds
  have no: "pe_tag pe \<noteq> TN_ATOMIC" "pe_tag pe \<noteq> TN_SEQUENCE" "pe_tag pe \<noteq> TN_SYNC" "end_tag_of (pe_tag pe) = None"
    using pe by (auto simp: pe_tag_kind)
  show ?thesis
  proof (cases c)
    case (El_generic x)
    show ?thesis
    proof (cases "pe_tag pe = TN_DELETE")
      case True
      then have "pe = SML_PE_DELETE" by (simp add: pe_tag_iff)
      moreover have "element K buildGenericCmd SML_EXT_UNDEFINED TN_DELETE es (Some (nrm_generic delete_flags x))"
        using es good True El_generic by (intro element_delete) (simp_all add: content_spec_def good_elem_def)
      from table_element [OF this, of SML_PE_DELETE El_generic] have
        "\<exists>B. map_of getPETable TN_DELETE = Some (SML_PE_DELETE, B) \<and>
           element K B SML_EXT_UNDEFINED TN_DELETE es (Some (El_generic (nrm_generic delete_flags x)))" by (simp add: tab)
      ultimately show ?thesis using True by (simp add: El_generic nrm_elem_def)
    next
      case False
      then have i: "pe_tag pe \<in> {TN_ADD, TN_COPY, TN_REPLACE}" "el_generic (pe_tag pe) x = Sp_ok es" "pe \<noteq> SML_PE_DELETE"
        using es by (auto simp: El_generic content_spec_def pe_tag_iff split: if_splits)
      then have "map_of getPETable (pe_tag pe) = Some (pe, elem_builder El_generic buildGenericCmd)"
        "pe_tag pe \<in> known_tags SML_EXT_UNDEFINED" using pe_tag_iff [of pe] known_cmds by (auto simp: tab)
      with table_element [OF element_generic [OF i(2)]] good i(3) show ?thesis
        by (auto simp: El_generic nrm_elem_def good_elem_def)
    qed
  next
    case (El_alert x)
    with es have "pe_tag pe = TN_ALERT" "el_alert x = Sp_ok es" by (auto simp: content_spec_def split: if_splits)
    with table_element [OF element_alert [of x es K], of pe El_alert] good El_alert show ?thesis
      using pe_tag_iff [of pe] by (auto simp: tab nrm_elem_def good_elem_def)
  next
    case (El_exec x)
    with es have "pe_tag pe = TN_EXEC" "el_exec x = Sp_ok es" by (auto simp: content_spec_def split: if_splits)
    with table_element [OF element_exec [of x es K], of pe El_exec] good El_exec show ?thesis
      using pe_tag_iff [of pe] by (auto simp: tab nrm_elem_def good_elem_def)
  next
    case (El_getput x)
    with es have i: "pe_tag pe \<in> {TN_GET, TN_PUT}" "el_getput (pe_tag pe) x = Sp_ok es"
      by (auto simp: content_spec_def split: if_splits)
    then have "map_of getPETable (pe_tag pe) = Some (pe, elem_builder El_getput buildPutOrGet)"
      "pe_tag pe \<in> known_tags SML_EXT_UNDEFINED" using pe_tag_iff [of pe] known_cmds by (auto simp: tab)
    with table_element [OF element_getput [OF i(2)]] good show ?thesis by (auto simp: El_getput nrm_elem_def good_elem_def)
  next
    case (El_map x)
    with es have "pe_tag pe = TN_MAP" "el_map x = Sp_ok es" by (auto simp: content_spec_def split: if_splits)
    with table_element [OF element_map [of x es K], of pe El_map] good El_map show ?thesis
      using pe_tag_iff [of pe] by (auto simp: tab nrm_elem_def good_elem_def)
  next
    case (El_results x)
    with es have "pe_tag pe = TN_RESULTS" "el_results x = Sp_ok es" by (auto simp: content_spec_def split: if_splits)
    with table_element [OF element_results [of x es K], of pe El_results] good El_results show ?thesis
      using pe_tag_iff [of pe] by (auto simp: tab nrm_elem_def good_elem_def)
  next
    case (El_search x)
    with es have "pe_tag pe = TN_SEARCH" "el_search x = Sp_ok es" by (auto simp: content_spec_def split: if_splits)
    with table_element [OF element_search [of x es K], of pe El_search] good El_search show ?thesis
      using pe_tag_iff [of pe] by (auto simp: tab nrm_elem_def good_elem_def)
  next
    case (El_status x)
    with es have "pe_tag pe = TN_STATUS" "el_status x = Sp_ok es" by (auto simp: content_spec_def split: if_splits)
    with table_element [OF element_status [of x es K], of pe El_status] good El_status show ?thesis
      using pe_tag_iff [of pe] by (auto simp: tab nrm_elem_def good_elem_def)
  qed (use es no pe_tag_command [of pe] in \<open>auto simp: content_spec_def split: if_splits\<close>)
qed

text \<open>A command of the table, and the two builders that stop at a command.\<close>

lemma next_builder:
  assumes r: "ahead_of K cur st (Ev_start SML_EXT_UNDEFINED i # es) [] d" and i: "i \<in> known_tags SML_EXT_UNDEFINED" "i \<noteq> TN_FINAL"
    and tab: "map_of getPETable i = Some (pe', b)" and len: "length st < 2 ^ 31 - 20"
    and b: "\<And>d. dec_ready K SML_EXT_UNDEFINED (i # st) (doc_bytes SML_EXT_UNDEFINED es) d \<Longrightarrow> started SML_EXT_UNDEFINED i d \<Longrightarrow>
      \<exists>d'. b None d = Some (SML_ERR_OK, Some y, d') \<and> ahead_of K cur' st' fs [] d'"
  shows "\<exists>d'. next_element pos pe None d = Some (SML_ERR_OK, getPos (xd_scanner d'), pe', Some y, d') \<and>
    ahead_of K cur' st' fs [] d'"
proof -
  from next_ahead [OF r, of "i # st"] plain_first [OF i(1)] len obtain d1 where
    d1: "nextToken d = Some (SML_ERR_OK, d1)" "started SML_EXT_UNDEFINED i d1"
      "dec_ready K SML_EXT_UNDEFINED (i # st) (doc_bytes SML_EXT_UNDEFINED es) d1"
    by (auto simp: first_ok_def started_def)
  from b [OF d1(3,2)] obtain d2 where "b None d1 = Some (SML_ERR_OK, Some y, d2)" "ahead_of K cur' st' fs [] d2" by blast
  with d1 tab i(2) dec_malloc_ready [OF d1(3)] show ?thesis
    by (auto simp: next_element_def started_def tok_classes pe_element_def)
qed

lemma buildAtomOrSeq_loop:
  "dec_malloc d = (True, d) \<Longrightarrow> \<not> IS_EMPTY (curtok d) \<Longrightarrow>
   next_loop atomic_breaks atomic_cases zero_atomic [] d = Some (SML_ERR_OK, True, x, t, d') \<Longrightarrow> TN_CMDID \<in> set t \<Longrightarrow>
     buildAtomOrSeq None d = Some (SML_ERR_OK, Some x, d')"
  by (auto simp: buildAtomOrSeq_def next_loop_def bind_eq_Some_conv split: if_splits)

lemma buildSync_loop:
  "dec_malloc d = (True, d) \<Longrightarrow> \<not> IS_EMPTY (curtok d) \<Longrightarrow>
   next_loop sync_breaks sync_cases zero_sync [] d = Some (SML_ERR_OK, True, x, t, d') \<Longrightarrow>
     buildSync None d = Some (SML_ERR_OK, Some x, d')"
  by (auto simp: buildSync_def next_loop_def bind_eq_Some_conv split: if_splits)

lemma break_tags:
  "j \<in> set atomic_breaks \<or> j \<in> set sync_breaks \<Longrightarrow> j \<in> known_tags SML_EXT_UNDEFINED \<and> j \<noteq> TN_FINAL"
  by (auto simp: atomic_breaks_def sync_breaks_def known_syncml)

definition breaks_of :: "SmlProtoElement \<Rightarrow> XltTagID list" where
  "breaks_of pe = (if pe = SML_PE_SYNC_START then sync_breaks else atomic_breaks)"

lemma next_group:
  assumes es: "content_spec (pe_tag pe) REQUIRED c = Sp_ok es" and pe: "pe \<in> starts" and good: "good_elem c"
    and j: "j \<in> set (breaks_of pe)" and plain: "plain_ext (ext_after cur es)"
    and r: "ahead_of K cur st (es @ Ev_start SML_EXT_UNDEFINED j # gs) [] d"
    and len: "length st + length es < 2 ^ 31 - 25"
  shows "\<exists>d'. next_element pos pe0 None d = Some (SML_ERR_OK, getPos (xd_scanner d'), pe, Some (nrm_elem pe c), d') \<and>
    ahead_of K (ext_after cur es) (pe_tag pe # st) (Ev_start SML_EXT_UNDEFINED j # gs) [] d'"
proof -
  let ?U = SML_EXT_UNDEFINED and ?i = "pe_tag pe"
  have j': "j \<in> known_tags ?U" using j break_tags by (auto simp: breaks_of_def split: if_splits)
  have i: "?i \<in> known_tags ?U" "?i \<noteq> TN_FINAL"
    using pe by (auto simp: pe_tag_kind known_syncml)
  have run: ?thesis
    if fs: "es = Ev_start ?U ?i # fs" and tab: "map_of getPETable ?i = Some (pe, b)" and l: "loops K cs fs zero x t"
      and t: "set t \<inter> set (breaks_of pe) = {}"
      and b: "\<And>d d'. dec_malloc d = (True, d) \<Longrightarrow> \<not> IS_EMPTY (curtok d) \<Longrightarrow>
        next_loop (breaks_of pe) cs zero [] d = Some (SML_ERR_OK, True, x, t, d') \<Longrightarrow> b None d = Some (SML_ERR_OK, Some (nrm_elem pe c), d')"
    for fs b and zero x :: 'b and cs t
  proof (rule next_builder [OF _ i tab])
    show "ahead_of K cur st (Ev_start ?U ?i # fs @ Ev_start ?U j # gs) [] d" using r by (simp add: fs)
    show "length st < 2 ^ 31 - 20" using len by simp
    fix d
    assume d: "dec_ready K ?U (?i # st) (doc_bytes ?U (fs @ Ev_start ?U j # gs)) d" "started ?U ?i d"
    have cur: "ext_after cur es = ext_after ?U fs" by (simp add: fs)
    with group_loop [OF l t j j' d(1)] len plain obtain d' where
      d': "next_loop (breaks_of pe) cs zero [] d = Some (SML_ERR_OK, True, x, t, d')"
        "ahead_of K (ext_after ?U fs) (?i # st) (Ev_start ?U j # gs) [] d'" by (auto simp: fs)
    with b [OF dec_malloc_ready [OF d(1)] _ d'(1)] d(2) show
      "\<exists>d'. b None d = Some (SML_ERR_OK, Some (nrm_elem pe c), d') \<and>
         ahead_of K (ext_after cur es) (?i # st) (Ev_start ?U j # gs) [] d'"
      unfolding cur by (auto simp: started_def IS_EMPTY_def)
  qed
  show ?thesis
  proof (cases "pe = SML_PE_SYNC_START")
    case True
    then have tag: "?i = TN_SYNC" using pe_tag_iff by simp
    with es obtain x where x: "c = El_sync x" "el_sync x = Sp_ok es"
      by (auto simp: content_spec_def flag_of_tag_def struct_tags_def split: sml_elem.splits if_splits)
    from loops_sync [OF x(2), of K] good obtain fs t where
      l: "es = Ev_start ?U TN_SYNC # fs" "loops K sync_cases fs zero_sync (nrm_sync x) t" "set t \<inter> set sync_breaks = {}"
      by (auto simp: x(1) good_elem_def)
    from l(1) tag have "es = Ev_start ?U ?i # fs" by simp
    from run [OF this _ l(2), of "elem_builder El_sync buildSync"] l(3) tag True buildSync_loop show ?thesis
      by (simp add: getPETable_def breaks_of_def elem_builder_def x(1) nrm_elem_def)
  next
    case False
    with pe have tag: "?i \<in> {TN_ATOMIC, TN_SEQUENCE}" "breaks_of pe = atomic_breaks"
      by (auto simp: pe_tag_kind pe_tag_iff breaks_of_def)
    with es obtain x where x: "c = El_atomic x" "el_atomic ?i x = Sp_ok es"
      by (auto simp: content_spec_def flag_of_tag_def struct_tags_def split: sml_elem.splits if_splits)
    from loops_atomic [OF x(2), of K] good obtain fs t where
      l: "es = Ev_start ?U ?i # fs" "loops K atomic_cases fs zero_atomic (nrm_atomic x) t" "TN_CMDID \<in> set t"
        "set t \<inter> set atomic_breaks = {}"
      by (auto simp: x(1) good_elem_def)
    have "map_of getPETable ?i = Some (pe, elem_builder El_atomic buildAtomOrSeq)"
      using tag(1) pe_tag_iff [of pe] by (auto simp: getPETable_def)
    from run [OF l(1) this l(2)] l(3,4) tag(2) buildAtomOrSeq_loop show ?thesis
      by (simp add: elem_builder_def x(1) nrm_elem_def)
  qed
qed

section \<open>Messages\<close>

text \<open>
  The commands that arrive: every group is closed by its own end, it begins with a command that its first
  element recognises, and the elements are good.
\<close>

definition follows :: "XltTagID list \<Rightarrow> cmd list \<Rightarrow> bool" where
  "follows brk cs = (case cs of [] \<Rightarrow> False | (pe, c) # _ \<Rightarrow> pe_tag pe \<in> set brk)"

fun wf_cmds :: "XltTagID list \<Rightarrow> cmd list \<Rightarrow> bool" where
  "wf_cmds st [] \<longleftrightarrow> st = []"
| "wf_cmds st ((pe, c) # cs) \<longleftrightarrow> pred_option good_elem c \<and>
     (if pe \<in> starts then follows (breaks_of pe) cs \<and> wf_cmds (pe_tag pe # st) cs
      else if pe \<in> ends then (case st of [] \<Rightarrow> False | i # st' \<Rightarrow> end_tag_of (pe_tag pe) = Some i \<and> wf_cmds st' cs)
      else wf_cmds st cs)"

definition nrm_cmd :: "cmd \<Rightarrow> cmd" where
  "nrm_cmd x = (case x of (pe, c) \<Rightarrow> (pe, if pe \<in> ends then None else map_option (nrm_elem pe) c))"

lemma wf_balanced: "wf_cmds st cs \<Longrightarrow> balanced (length st) cs"
proof (induction cs arbitrary: st)
  case (Cons x cs)
  obtain pe c where x: "x = (pe, c)" by (cases x)
  have "balanced (length st) (x # cs) \<longleftrightarrow> (if pe \<in> starts then balanced (Suc (length st)) cs
      else if pe \<in> ends then 0 < length st \<and> balanced (length st - 1) cs else balanced (length st) cs)"
    unfolding x by (rule balanced_kind)
  with Cons.prems Cons.IH [of "pe_tag pe # st"] Cons.IH [of st] Cons.IH [of "tl st"] show ?case
    by (cases st) (simp_all add: x split: if_splits)
qed simp

lemma wf_tags: "wf_cmds st cs \<Longrightarrow> set st \<subseteq> {TN_ATOMIC, TN_SEQUENCE, TN_SYNC}"
proof (induction cs arbitrary: st)
  case (Cons x cs)
  obtain pe c where x: "x = (pe, c)" by (cases x)
  have e: "i \<in> {TN_ATOMIC, TN_SEQUENCE, TN_SYNC}" if "end_tag_of (pe_tag pe) = Some i" for i
    using that by (auto simp: end_tag_of_def split: if_splits)
  show ?case using Cons.prems Cons.IH e by (fastforce simp: x split: if_splits list.splits)
qed simp

lemma end_element_pe:
  "end_tag_of (pe_tag pe) = Some i \<Longrightarrow> tok_tagid (curtok d) = i \<Longrightarrow> end_element pe0 d = Some (SML_ERR_OK, pe, d)"
  by (cases pe) (auto simp: pe_tag_def getPEEncTable_def end_tag_of_def end_element_def)

lemma good_begins:
  assumes "cmd_spec (pe, c) = Sp_ok es" "pred_option good_elem c" "pe \<notin> ends"
  shows "\<exists>fs. es = Ev_start SML_EXT_UNDEFINED (pe_tag pe) # fs"
proof -
  obtain x where x: "c = Some x" "content_spec (pe_tag pe) REQUIRED x = Sp_ok es" by (rule cmd_content [OF assms(1,3)])
  show ?thesis
  proof (cases "pe \<in> starts")
    case True
    then have "pe_tag pe \<in> {TN_ATOMIC, TN_SEQUENCE, TN_SYNC}" by (simp add: pe_tag_kind)
    from open_content [OF x(2) this] show ?thesis by blast
  next
    case False
    from assms(2) x(1) have "good_elem x" by simp
    from complete_command [OF x(2) False assms(3) this, of undefined] show ?thesis by (auto simp: element_def)
  qed
qed

lemma next_command:
  assumes es: "cmd_spec (pe, c) = Sp_ok es" and wf: "wf_cmds st ((pe, c) # cs)" and bs: "cmds_spec cs = Sp_ok bs"
    and plain: "plain_ext (ext_after cur es)" and len: "length st + 2 + length es < 2 ^ 31 - 25"
    and r: "ahead_of K cur (st @ [TN_SYNCBODY, TN_SYNCML]) (es @ bs @ cl) [] d"
  shows "\<exists>st' d'. wf_cmds st' cs \<and> length st' \<le> length st + length es \<and>
    next_element pos pe0 None d = Some (SML_ERR_OK, getPos (xd_scanner d'), pe, snd (nrm_cmd (pe, c)), d') \<and>
    ahead_of K (ext_after cur es) (st' @ [TN_SYNCBODY, TN_SYNCML]) (bs @ cl) [] d'"
proof (cases "pe \<in> ends")
  case True
  with es have e: "es = [Ev_end]" using cmd_shape [OF es] by (auto simp: starts_def ends_def)
  from True wf obtain i st' where st: "st = i # st'" "end_tag_of (pe_tag pe) = Some i" "wf_cmds st' cs"
    by (auto simp: starts_def ends_def split: list.splits)
  let ?S = "st' @ [TN_SYNCBODY, TN_SYNCML]"
  have r': "ahead_of K cur (i # ?S) (Ev_end # bs @ cl) [] d" using r by (simp add: e st(1))
  have ok: "ev_ok Ev_end" "ev_page_ok Ev_end" "length (i # ?S) < 2 ^ 31 - 20" using len st(1) by simp_all
  have "ev_stack Ev_end (i # ?S) = Some ?S" by simp
  from next_ahead [OF r' ok(1,2) this ok(3)] obtain d1 where
    d1: "nextToken d = Some (SML_ERR_OK, d1)" "tok_tagid (curtok d1) = i" "IS_END_TOK (curtok d1)"
      "dec_ready K cur ?S (doc_bytes cur (bs @ cl)) d1"
    by (auto simp: IS_END_TOK_def)
  then have "\<not> IS_START_OR_EMPTY (curtok d1)" by (simp add: tok_classes)
  with d1 end_element_pe [OF st(2) d1(2)] True have
    "next_element pos pe0 None d = Some (SML_ERR_OK, getPos (xd_scanner d1), pe, snd (nrm_cmd (pe, c)), d1)"
    by (simp add: next_element_def nrm_cmd_def)
  moreover have "ahead_of K (ext_after cur es) (st' @ [TN_SYNCBODY, TN_SYNCML]) (bs @ cl) [] d1"
    using d1(4) by (intro ahead_of_ready) (simp add: e)
  moreover have "length st' \<le> length st + length es" using st(1) by simp
  ultimately show ?thesis using st(3) by blast
next
  case False
  note no_end = this
  obtain x where x: "c = Some x" "content_spec (pe_tag pe) REQUIRED x = Sp_ok es" by (rule cmd_content [OF es False])
  have good: "good_elem x" using wf x(1) by simp
  have nrm: "snd (nrm_cmd (pe, c)) = Some (nrm_elem pe x)" using False x(1) by (simp add: nrm_cmd_def)
  show ?thesis
  proof (cases "pe \<in> starts")
    case False
    from complete_command [OF x(2) False no_end good, of K] obtain B where
      B: "map_of getPETable (pe_tag pe) = Some (pe, B)" "element K B SML_EXT_UNDEFINED (pe_tag pe) es (Some (nrm_elem pe x))" by blast
    have "pe_tag pe \<noteq> TN_FINAL" using pe_tag_range [of pe] by (auto simp: getPEEncTable_def)
    from next_complete [OF B(2,1) r _ this, of pos pe0] len nrm no_end False wf show ?thesis by auto
  next
    case True
    from True wf have w: "follows (breaks_of pe) cs" "wf_cmds (pe_tag pe # st) cs" by simp_all
    from w(1) obtain pe' c' cs' where cs: "cs = (pe', c') # cs'" "pe_tag pe' \<in> set (breaks_of pe)"
      by (cases cs) (auto simp: follows_def)
    from bs cs(1) obtain es' bs' where es': "cmd_spec (pe', c') = Sp_ok es'" "bs = es' @ bs'" by (auto simp: sp_append_ok)
    have "end_tag_of (pe_tag pe') = None"
      using cs(2) by (auto simp: breaks_of_def atomic_breaks_def sync_breaks_def end_tag_of_def split: if_splits)
    then have "pe' \<notin> ends" by (simp add: pe_tag_kind)
    moreover have "pred_option good_elem c'" using w(2) cs(1) by simp
    ultimately obtain fs where fs: "es' = Ev_start SML_EXT_UNDEFINED (pe_tag pe') # fs" using good_begins [OF es'(1)] by blast
    have "ahead_of K cur (st @ [TN_SYNCBODY, TN_SYNCML]) (es @ Ev_start SML_EXT_UNDEFINED (pe_tag pe') # fs @ bs' @ cl) [] d"
      using r by (simp add: es'(2) fs)
    from next_group [OF x(2) True good cs(2) plain this, of pos pe0] len obtain d' where
      "next_element pos pe0 None d = Some (SML_ERR_OK, getPos (xd_scanner d'), pe, Some (nrm_elem pe x), d')"
      "ahead_of K (ext_after cur es) (pe_tag pe # st @ [TN_SYNCBODY, TN_SYNCML]) (bs @ cl) [] d'"
      by (auto simp: es'(2) fs)
    moreover have "es \<noteq> []" using cmd_shape [OF es] True by auto
    then have "Suc (length st) \<le> length st + length es" by (cases es) simp_all
    ultimately show ?thesis using w(2) nrm by (intro exI [of _ "pe_tag pe # st"]) auto
  qed
qed

text \<open>
  Where the decoder is when \<open>xltDecNext\<close> is called: inside the body, or in front of it when the header has
  just been read. \<open>fl\<close> tells whether the final flag has been read.
\<close>

definition body_start :: wb_event where
  "body_start = Ev_start SML_EXT_UNDEFINED TN_SYNCBODY"

definition at_body ::
    "byte list \<Rightarrow> int \<Rightarrow> int \<Rightarrow> bool \<Rightarrow> SmlPcdataExtension \<Rightarrow> XltTagID list \<Rightarrow> wb_event list \<Rightarrow> XltDecoder \<Rightarrow> bool" where
  "at_body m pos E fl cur st es d \<longleftrightarrow>
     (TN_SYNCML \<notin> set st \<and> doc_at m pos E (doc_bytes cur es) \<and> paused False fl cur (st @ [TN_SYNCBODY, TN_SYNCML]) es d) \<or>
     (\<exists>c. cur = SML_EXT_UNDEFINED \<and> st = [] \<and> doc_at m pos E (doc_bytes c (body_start # es)) \<and>
        paused False fl c [TN_SYNCML] (body_start # es) d)"

lemma at_body_enter:
  assumes "at_body m pos E fl cur st es d"
  shows "xd_finished d = False \<and> xd_final d = fl \<and> (\<exists>d'. enter_body (rebuf m pos E d) = Some (SML_ERR_OK, d') \<and>
    ahead_of (dec_ctx (rebuf m pos E d)) cur (st @ [TN_SYNCBODY, TN_SYNCML]) es [] d')"
  using assms unfolding at_body_def
proof (elim disjE exE conjE)
  assume n: "TN_SYNCML \<notin> set st" and a: "doc_at m pos E (doc_bytes cur es)" and p: "paused False fl cur (st @ [TN_SYNCBODY, TN_SYNCML]) es d"
  obtain i st' where st: "st @ [TN_SYNCBODY, TN_SYNCML] = i # st'" by (cases st) auto
  then have "i \<noteq> TN_SYNCML" using n by (cases st) auto
  moreover have "ahead_of (dec_ctx (rebuf m pos E d)) cur (i # st') es [] (rebuf m pos E d)"
    using a p by (simp add: paused_def st)
  ultimately show ?thesis using enter_inside p unfolding st paused_def by blast
next
  fix c
  assume c: "cur = SML_EXT_UNDEFINED" "st = []" "doc_at m pos E (doc_bytes c (body_start # es))"
    "paused False fl c [TN_SYNCML] (body_start # es) d"
  then have "ahead_of (dec_ctx (rebuf m pos E d)) c [TN_SYNCML] (Ev_start SML_EXT_UNDEFINED TN_SYNCBODY # es) [] (rebuf m pos E d)"
    by (simp add: paused_def body_start_def)
  from enter_first [OF this] c show ?thesis by (simp add: paused_def)
qed

lemma at_body_next:
  assumes "ahead_of (dec_ctx (rebuf m pos E d0)) cur (st @ [TN_SYNCBODY, TN_SYNCML]) es [] d" "TN_SYNCML \<notin> set st"
  shows "at_body m (getPos (xd_scanner d)) E (xd_final d0) cur st es d \<or> xd_finished d0"
proof -
  from ahead_doc [OF assms(1)] have "doc_at m (getPos (xd_scanner d)) E (doc_bytes cur es)" .
  moreover have "dec_ctx d = dec_ctx (rebuf m pos E d0)" using assms by (auto simp: ahead_of_def dec_ready_def)
  then have "xd_finished d = xd_finished d0" "xd_final d = xd_final d0" by (simp_all add: dec_ctx_def rebuf_def)
  moreover from ahead_paused [OF assms(1)] have "paused (xd_finished d) (xd_final d) cur (st @ [TN_SYNCBODY, TN_SYNCML]) es d" .
  ultimately show ?thesis using assms(2) by (cases "xd_finished d0") (simp_all add: at_body_def)
qed

text \<open>The three kinds of call: a command, the final flag, the end of the document.\<close>

lemma xltDecNext_command:
  assumes es: "cmd_spec (pe, c) = Sp_ok es" and wf: "wf_cmds st ((pe, c) # cs)" and bs: "cmds_spec cs = Sp_ok bs"
    and plain: "plain_ext (ext_after cur es)" and len: "length st + 2 + length es < 2 ^ 31 - 25"
    and b: "at_body m pos E fl cur st (es @ bs @ cl) d"
  shows "\<exists>st' q d'. xltDecNext m E pos pe0 None d = Some (SML_ERR_OK, q, pe, snd (nrm_cmd (pe, c)), d') \<and>
    at_body m q E fl (ext_after cur es) st' (bs @ cl) d' \<and> wf_cmds st' cs \<and> length st' \<le> length st + length es"
proof -
  from at_body_enter [OF b] obtain d1 where d1: "xd_finished d = False" "xd_final d = fl"
    "enter_body (rebuf m pos E d) = Some (SML_ERR_OK, d1)"
    "ahead_of (dec_ctx (rebuf m pos E d)) cur (st @ [TN_SYNCBODY, TN_SYNCML]) (es @ bs @ cl) [] d1" by blast
  from next_command [OF es wf bs plain len d1(4)] obtain st' d2 where d2: "wf_cmds st' cs" "length st' \<le> length st + length es"
    "next_element pos pe0 None d1 = Some (SML_ERR_OK, getPos (xd_scanner d2), pe, snd (nrm_cmd (pe, c)), d2)"
    "ahead_of (dec_ctx (rebuf m pos E d)) (ext_after cur es) (st' @ [TN_SYNCBODY, TN_SYNCML]) (bs @ cl) [] d2" by blast
  have "TN_SYNCML \<notin> set st'" using wf_tags [OF d2(1)] by auto
  from at_body_next [OF d2(4) this] d1 d2 show ?thesis by (auto simp: xltDecNext_steps)
qed

lemma ready_final: "dec_ready K cur st bs d \<Longrightarrow> dec_ready (dec_ctx (d\<lparr>xd_final := True\<rparr>)) cur st bs (d\<lparr>xd_final := True\<rparr>)"
  by (auto simp: dec_ready_def dec_ctx_def ctx_ok_def)

lemma plain_undef: "plain_ext SML_EXT_UNDEFINED"
  by (simp add: plain_ext_def)

lemma xltDecNext_final:
  assumes b: "at_body m pos E fl cur [] (Ev_empty SML_EXT_UNDEFINED TN_FINAL # es) d"
  shows "\<exists>q d'. xltDecNext m E pos pe0 None d = Some (SML_ERR_OK, q, SML_PE_FINAL, None, d') \<and>
    at_body m q E True SML_EXT_UNDEFINED [] es d'"
proof -
  let ?U = SML_EXT_UNDEFINED
  from at_body_enter [OF b] obtain d1 where d1: "xd_finished d = False" "xd_final d = fl"
    "enter_body (rebuf m pos E d) = Some (SML_ERR_OK, d1)"
    "ahead_of (dec_ctx (rebuf m pos E d)) cur [TN_SYNCBODY, TN_SYNCML] (Ev_empty ?U TN_FINAL # es) [] d1" by auto
  have "ev_ok (Ev_empty ?U TN_FINAL) \<and> ev_page_ok (Ev_empty ?U TN_FINAL)"
    using plain_first [of TN_FINAL ?U] plain_undef by (simp add: first_ok_def known_syncml)
  with next_ahead [OF d1(4), of "[TN_SYNCBODY, TN_SYNCML]"] obtain d2 where
    d2: "nextToken d1 = Some (SML_ERR_OK, d2)" "dec_ready (dec_ctx (rebuf m pos E d)) ?U [TN_SYNCBODY, TN_SYNCML] (doc_bytes ?U es) d2"
      "tok_tagid (curtok d2) = TN_FINAL" by auto
  let ?d = "d2\<lparr>xd_final := True\<rparr>"
  have "next_element pos pe0 None d1 = Some (SML_ERR_OK, getPos (xd_scanner ?d), SML_PE_FINAL, None, ?d)"
    using d2(1,3) by (simp add: next_element_def end_element_def)
  moreover have "rebuf m pos E d\<lparr>xd_final := True\<rparr> = rebuf m pos E (d\<lparr>xd_final := True\<rparr>)" by (simp add: rebuf_def)
  moreover have "dec_ctx ?d = dec_ctx (rebuf m pos E (d\<lparr>xd_final := True\<rparr>))"
    using d2(2) by (simp add: dec_ready_def dec_ctx_def rebuf_def)
  with ready_final [OF d2(2)] have "ahead_of (dec_ctx (rebuf m pos E (d\<lparr>xd_final := True\<rparr>))) ?U ([] @ [TN_SYNCBODY, TN_SYNCML]) es [] ?d"
    by (intro ahead_of_ready) simp
  from at_body_next [OF this] d1(1) have "at_body m (getPos (xd_scanner ?d)) E True ?U [] es ?d" by simp
  ultimately show ?thesis using d1(3) by (auto simp: xltDecNext_steps)
qed

lemma xltDecNext_close:
  assumes b: "at_body m pos E fl cur [] [Ev_end, Ev_end] d"
  shows "\<exists>d'. xltDecNext m E pos pe0 None d = Some (SML_ERR_OK, E, SML_PE_UNDEF, None, d') \<and>
    xd_finished d' \<and> xd_final d' = fl"
proof -
  from at_body_enter [OF b] obtain d1 where d1: "xd_finished d = False" "xd_final d = fl"
    "enter_body (rebuf m pos E d) = Some (SML_ERR_OK, d1)"
    "ahead_of (dec_ctx (rebuf m pos E d)) cur [TN_SYNCBODY, TN_SYNCML] [Ev_end, Ev_end] [] d1" by auto
  from next_ahead [OF d1(4), of "[TN_SYNCML]"] obtain d2 where
    d2: "nextToken d1 = Some (SML_ERR_OK, d2)" "dec_ready (dec_ctx (rebuf m pos E d)) cur [TN_SYNCML] (doc_bytes cur [Ev_end]) d2"
      "tok_of [TN_SYNCBODY, TN_SYNCML] Ev_end (curtok d2)" by auto
  from next_ahead [OF ahead_of_ready, of "dec_ctx (rebuf m pos E d)" cur "[TN_SYNCML]" Ev_end "[]" "[]" d2 "[]"] d2(2) obtain d3 where
    d3: "nextToken d2 = Some (SML_ERR_OK, d3)" "dec_ready (dec_ctx (rebuf m pos E d)) cur [] [] d3"
      "tok_of [TN_SYNCML] Ev_end (curtok d3)" by auto
  have "sc_bufend (xd_scanner d3) = E" "in_doc (xd_scanner d3)" "ahead (xd_scanner d3) = []" "xd_final d3 = xd_final d"
    using d3(2) by (auto simp: dec_ready_def scan_ready_def dec_ctx_def rebuf_def setBuf_def)
  with length_ahead [of "xd_scanner d3"] have "getPos (xd_scanner d3) = E" by (simp add: getPos_def in_doc_def)
  with d1 d2 d3 show ?thesis
    by (simp add: xltDecNext_steps next_element_def end_element_def tok_classes rebuf_def \<open>xd_final d3 = xd_final d\<close>)
qed

section \<open>Reading a document\<close>

text \<open>
  The caller's loop: \<open>xltDecNext\<close> until the end of the document has been read; the last element it gets is
  \<open>SML_PE_UNDEF\<close>. \<open>None\<close> when \<open>n\<close> calls are not enough.
\<close>

fun decode_all :: "nat \<Rightarrow> byte list \<Rightarrow> int \<Rightarrow> int \<Rightarrow> XltDecoder \<Rightarrow> (ret \<times> cmd list \<times> int \<times> XltDecoder) option" where
  "decode_all 0 m E pos d = None"
| "decode_all (Suc n) m E pos d =
     (if xd_finished d then Some (SML_ERR_OK, [], pos, d)
      else do {
        (rc, pos, pe, c, d) \<leftarrow> xltDecNext m E pos SML_PE_UNDEF None d;
        if rc \<noteq> SML_ERR_OK then Some (rc, [], pos, d)
        else do {
          (rc, cs, pos, d) \<leftarrow> decode_all n m E pos d;
          Some (rc, (pe, c) # cs, pos, d)
        }
      })"

definition decode_message ::
    "nat \<Rightarrow> byte list \<Rightarrow> int \<Rightarrow> int \<Rightarrow> Heap \<Rightarrow> TokTbl \<Rightarrow> (ret \<times> SmlSyncHdr option \<times> cmd list \<times> int \<times> bool) option" where
  "decode_message n m E pos h g = do {
     (rc, pos, d, hdr, g) \<leftarrow> xltDecInit SML_WBXML m E pos None h g;
     case d of
       None \<Rightarrow> Some (rc, hdr, [], pos, False)
     | Some d \<Rightarrow> do {
         (rc, cs, pos, d) \<leftarrow> decode_all n m E pos d;
         Some (rc, hdr, cs, pos, xd_final d)
       }
   }"

lemma plain_after: "doc_ok es \<Longrightarrow> plain_ext cur \<Longrightarrow> plain_ext (ext_after cur es)"
proof (induction es arbitrary: cur)
  case (Cons e es)
  then show ?case by (cases e) (auto simp: doc_ok_def plain_ext_def)
qed simp

lemma cmd_doc_ok: "cmd_spec c = Sp_ok es \<Longrightarrow> doc_ok es"
  using block_gens by (cases c) (simp add: cmd_spec_def)

definition close_cmds :: "bool \<Rightarrow> cmd list" where
  "close_cmds fin = (if fin then [(SML_PE_FINAL, None)] else []) @ [(SML_PE_UNDEF, None)]"

lemma decode_close:
  assumes "at_body m pos E False cur [] (close_events fin) d" "2 + n = k"
  shows "\<exists>d'. decode_all (Suc k) m E pos d = Some (SML_ERR_OK, close_cmds fin, E, d') \<and> xd_final d' = fin"
proof (cases fin)
  case False
  with assms(1) have b: "at_body m pos E False cur [] [Ev_end, Ev_end] d" by (simp add: close_events_def)
  from xltDecNext_close [OF b, of SML_PE_UNDEF] at_body_enter [OF b] show ?thesis
    using assms(2) False by (auto simp: close_cmds_def)
next
  case True
  with assms(1) have b: "at_body m pos E False cur [] (Ev_empty SML_EXT_UNDEFINED TN_FINAL # [Ev_end, Ev_end]) d"
    by (simp add: close_events_def)
  from xltDecNext_final [OF b, of SML_PE_UNDEF] obtain q d1 where
    d1: "xltDecNext m E pos SML_PE_UNDEF None d = Some (SML_ERR_OK, q, SML_PE_FINAL, None, d1)"
      "at_body m q E True SML_EXT_UNDEFINED [] [Ev_end, Ev_end] d1" by blast
  from xltDecNext_close [OF d1(2), of SML_PE_UNDEF] at_body_enter [OF d1(2)] at_body_enter [OF b] d1(1) show ?thesis
    using assms(2) True by (auto simp: close_cmds_def)
qed

lemma decode_body:
  assumes "wf_cmds st cs" "cmds_spec cs = Sp_ok es" "plain_ext cur" "length st + 2 + length es < 2 ^ 31 - 25"
    "at_body m pos E False cur st (es @ close_events fin) d" "length cs + 3 \<le> n"
  shows "\<exists>d'. decode_all n m E pos d = Some (SML_ERR_OK, map nrm_cmd cs @ close_cmds fin, E, d') \<and> xd_final d' = fin"
  using assms
proof (induction cs arbitrary: st es cur pos d n)
  case Nil
  then have "at_body m pos E False cur [] (close_events fin) d" "2 + (n - 3) = n - 1" "n = Suc (n - 1)" by simp_all
  with decode_close [OF this(1,2)] show ?case by simp
next
  case (Cons x cs)
  obtain pe c where x: "x = (pe, c)" by (cases x)
  from Cons.prems(2) obtain as bs where es: "cmd_spec (pe, c) = Sp_ok as" "cmds_spec cs = Sp_ok bs" "es = as @ bs"
    by (auto simp: x sp_append_ok)
  have plain: "plain_ext (ext_after cur as)" using plain_after [OF cmd_doc_ok [OF es(1)] Cons.prems(3)] .
  have b: "at_body m pos E False cur st (as @ bs @ close_events fin) d" using Cons.prems(5) by (simp add: es(3))
  have len: "length st + 2 + length as < 2 ^ 31 - 25" using Cons.prems(4) by (simp add: es(3))
  from xltDecNext_command [OF es(1) Cons.prems(1) [unfolded x] es(2) plain len b, of SML_PE_UNDEF] obtain st' q d1 where
    d1: "xltDecNext m E pos SML_PE_UNDEF None d = Some (SML_ERR_OK, q, pe, snd (nrm_cmd (pe, c)), d1)"
      "at_body m q E False (ext_after cur as) st' (bs @ close_events fin) d1" "wf_cmds st' cs" "length st' \<le> length st + length as"
    by blast
  obtain k where k: "n = Suc k" "length cs + 3 \<le> k" using Cons.prems(6) by (cases n) auto
  have "length st' + 2 + length bs < 2 ^ 31 - 25" using d1(4) Cons.prems(4) by (simp add: es(3))
  from Cons.IH [OF d1(3) es(2) plain this d1(2) k(2)] d1(1) at_body_enter [OF b] show ?case
    by (auto simp: k(1) x nrm_cmd_def)
qed

text \<open>The header of the document leaves the buffer as it is.\<close>

definition same_buf :: "wbxmlScanner \<Rightarrow> wbxmlScanner \<Rightarrow> bool" where
  "same_buf s s' \<longleftrightarrow> sc_mem s' = sc_mem s \<and> sc_bufend s' = sc_bufend s"

lemma wbxmlPubIDStr_buf: "wbxmlPubIDStr s = Some (r, s') \<Longrightarrow> same_buf s s'"
  by (auto simp: wbxmlPubIDStr_def same_buf_def split: if_splits)

lemma wbxmlStrtbl_buf:
  assumes "wbxmlStrtbl s = Some (r, s')"
  shows "same_buf s s'"
  using assms [unfolded wbxmlStrtbl_def]
proof (cases rule: on_okE)
  case (1 len s1)
  from parseInt_keeps [OF 1(1)] have s1: "same_buf s s1" by (simp add: keeps_def same_buf_def)
  from 1(2) show ?thesis
  proof (cases rule: needE)
    case 1
    with s1 show ?thesis by (simp add: same_buf_def)
  next
    case 2
    from 2(2) s1 show ?thesis
      by (auto simp: Let_def same_buf_def readBytes_def bind_eq_Some_conv sc_malloc_frame split: if_splits prod.splits
          dest!: wbxmlPubIDStr_buf)
  qed
next
  case (2 v)
  with parseInt_keeps [OF 2(1)] show ?thesis by (simp add: keeps_def same_buf_def)
qed

lemma and_then_buf:
  assumes "and_then m k = Some (r, s')" "\<And>r s'. m = Some (r, s') \<Longrightarrow> same_buf s s'"
    "\<And>s1 r s'. k s1 = Some (r, s') \<Longrightarrow> same_buf s1 s'"
  shows "same_buf s s'"
proof -
  from assms(1) obtain r1 s1 where m: "m = Some (r1, s1)" "s' = s1 \<or> k s1 = Some (r, s')"
    by (auto simp: and_then_def bind_eq_Some_conv split: if_splits)
  from assms(2) [OF m(1)] m(2) assms(3) [of s1 r s'] show ?thesis by (auto simp: same_buf_def)
qed

lemma all_keep_buf: "all_keep s m \<Longrightarrow> m = Some (r, s') \<Longrightarrow> same_buf s s'"
  by (simp add: all_keep_def keeps_def same_buf_def)

lemma wbxmlHeader_buf: "wbxmlHeader s = Some (r, s') \<Longrightarrow> same_buf s s'"
proof -
  assume h: "wbxmlHeader s = Some (r, s')"
  have k: "all_keep s (wbxmlVersion s)" "all_keep s (wbxmlPublicID s)" "all_keep s (wbxmlCharset s)" for s
    unfolding wbxmlVersion_def wbxmlPublicID_def wbxmlCharset_def Let_def
    by ((rule keep_rules keeps_refl | assumption | simp add: keeps_def)+)[3]
  show ?thesis
    by (rule and_then_buf [OF h [unfolded wbxmlHeader_def] all_keep_buf [OF k(1)]], assumption,
        erule and_then_buf, erule all_keep_buf [OF k(2)], erule and_then_buf, erule all_keep_buf [OF k(3)], erule wbxmlStrtbl_buf)
qed

lemma xltDecWbxmlInit_buffer:
  assumes "xltDecWbxmlInit m E pos g = Some (r, Some s, g')"
  shows "sc_mem s = m \<and> sc_bufend s = E"
proof -
  have "sc_mem s = m \<and> sc_bufend s = E" if "wbxmlHeader (scanner_init m E pos st g) = Some (r, s)" for st g r
    using wbxmlHeader_buf [OF that] by (simp add: same_buf_def scanner_init_def)
  with assms show ?thesis
    by (auto simp: xltDecWbxmlInit_def wbxml_destroy_def bind_eq_Some_conv split: prod.splits if_splits option.splits)
qed

text \<open>A new decoder in front of the first tag, and the header.\<close>

lemma new_decoder_ready:
  assumes "scan_ready SML_EXT_UNDEFINED [] bs s" "tok_ready g" "heap_ok (fst (hp_encodings h)) (snd (hp_encodings h)) h"
    and "xltUtilCreateStack True True 10 = (SML_ERR_OK, Some st)"
  shows "dec_ready (dec_ctx (new_decoder h (s\<lparr>sc_tok := g\<rparr>) st)) SML_EXT_UNDEFINED [] bs (new_decoder h (s\<lparr>sc_tok := g\<rparr>) st)"
proof -
  have "stk_ready [] st" using assms(4)
    by (auto simp: xltUtilCreateStack_def stk_ready_def stk_tight_def stk_view_def stk_inv_def)
  with assms(1-3) show ?thesis
    by (simp add: dec_ready_def new_decoder_def scan_ready_def dec_ctx_def ctx_ok_def in_doc_def ahead_def)
qed

lemma init_header_ok:
  assumes es: "el_hdr h = Sp_ok hs" and good: "good_hdr h" and len: "length hs < 2 ^ 31 - 30"
    and r: "dec_ready K SML_EXT_UNDEFINED [] (doc_bytes SML_EXT_UNDEFINED (Ev_start SML_EXT_UNDEFINED TN_SYNCML # hs) @ rest) d"
  shows "\<exists>d'. init_header pos None d = Some (SML_ERR_OK, getPos (xd_scanner d'), Some d', Some (nrm_hdr h), dec_tok d') \<and>
    dec_ready K (ext_after SML_EXT_UNDEFINED hs) [TN_SYNCML] rest d'"
proof -
  let ?U = SML_EXT_UNDEFINED
  have "ahead_of K ?U [] (Ev_start ?U TN_SYNCML # hs) rest d" using r by (intro ahead_of_ready) simp
  moreover have "ev_ok (Ev_start ?U TN_SYNCML) \<and> ev_page_ok (Ev_start ?U TN_SYNCML)"
    using plain_first [of TN_SYNCML ?U] plain_undef by (simp add: first_ok_def known_syncml)
  ultimately obtain d1 where d1: "nextToken d = Some (SML_ERR_OK, d1)" "started ?U TN_SYNCML d1"
    "dec_ready K ?U [TN_SYNCML] (doc_bytes ?U hs @ rest) d1"
    using next_ahead [of K ?U "[]" "Ev_start ?U TN_SYNCML" hs rest d "[TN_SYNCML]"] by (auto simp: started_def)
  have "ahead_of K ?U [TN_SYNCML] (hs @ []) rest d1" using d1(3) by (intro ahead_of_ready) simp
  from element_read [OF element_hdr [OF es good] this] len obtain d2 d3 where
    "nextToken d1 = Some (SML_ERR_OK, d2)" "buildSyncHdr None d2 = Some (SML_ERR_OK, Some (nrm_hdr h), d3)"
    "ahead_of K (ext_after ?U hs) [TN_SYNCML] [] rest d3" by auto
  with d1 show ?thesis by (auto simp: init_header_def started_def tok_classes ahead_of_nil)
qed

text \<open>A document that begins with a header; the rest may be anything.\<close>

definition hdr_bytes :: "byte list \<Rightarrow> wb_event list \<Rightarrow> byte list" where
  "hdr_bytes fpi hs = doc_header fpi @ doc_bytes SML_EXT_UNDEFINED (Ev_start SML_EXT_UNDEFINED TN_SYNCML # hs)"

lemma xltDecInit_ok:
  assumes es: "el_hdr h = Sp_ok hs" and good: "good_hdr h" and len: "length hs < 2 ^ 31 - 30"
    and doc: "doc_at m pos E (hdr_bytes fpi hs @ rest)" "length fpi = 29"
    and g: "tok_ready g" and heap: "heap_ok (fst (hp_encodings hp)) (snd (hp_encodings hp)) hp"
  shows "\<exists>d. xltDecInit SML_WBXML m E pos None hp g =
      Some (SML_ERR_OK, pos + int (length (hdr_bytes fpi hs)), Some d, Some (nrm_hdr h), dec_tok d) \<and>
    xd_finished d = False \<and> xd_final d = False \<and> dec_ready (dec_ctx d) (ext_after SML_EXT_UNDEFINED hs) [TN_SYNCML] rest d"
proof -
  let ?U = SML_EXT_UNDEFINED and ?es = "Ev_start SML_EXT_UNDEFINED TN_SYNCML # hs"
  obtain st :: "XltTagID ArrayStack" where st: "xltUtilCreateStack True True 10 = (SML_ERR_OK, Some st)"
    by (simp add: xltUtilCreateStack_def)
  from doc xltDecWbxmlInit_ok [of pos E m fpi "doc_bytes ?U ?es @ rest" g] g obtain s where
    s: "xltDecWbxmlInit m E pos g = Some (SML_ERR_OK, Some s, g)" "scan_ready ?U [] (doc_bytes ?U ?es @ rest) s"
    by (auto simp: doc_at_def hdr_bytes_def)
  let ?d = "new_decoder hp (s\<lparr>sc_tok := g\<rparr>) st"
  from init_header_ok [OF es good len new_decoder_ready [OF s(2) g heap st], of pos] obtain d1 where
    d1: "init_header pos None ?d = Some (SML_ERR_OK, getPos (xd_scanner d1), Some d1, Some (nrm_hdr h), dec_tok d1)"
      "dec_ready (dec_ctx ?d) (ext_after ?U hs) [TN_SYNCML] rest d1" by blast
  then have ctx: "dec_ctx d1 = dec_ctx ?d" by (simp add: dec_ready_def)
  then have b: "sc_mem (xd_scanner d1) = m" "sc_bufend (xd_scanner d1) = E" "xd_finished d1 = False" "xd_final d1 = False"
    using xltDecWbxmlInit_buffer [OF s(1)] by (simp_all add: dec_ctx_def new_decoder_def)
  have "in_doc (xd_scanner d1)" "ahead (xd_scanner d1) = rest" using d1(2) by (simp_all add: dec_ready_def scan_ready_def)
  with length_ahead [of "xd_scanner d1"] b have "E - getPos (xd_scanner d1) = int (length rest)" by (simp add: getPos_def)
  moreover note doc_at_length [OF doc(1)]
  ultimately have "getPos (xd_scanner d1) = pos + int (length (hdr_bytes fpi hs))" by simp
  with s(1) st d1(1) tok_malloc_ready [OF g] have "xltDecInit SML_WBXML m E pos None hp g =
      Some (SML_ERR_OK, pos + int (length (hdr_bytes fpi hs)), Some d1, Some (nrm_hdr h), dec_tok d1)"
    by (simp add: xltDecInit_def)
  with b d1(2) ctx show ?thesis by auto
qed

text \<open>
  \<open>xltDecInit\<close> and the calls of \<open>xltDecNext\<close> on the bytes of a document.
\<close>

lemma decode_message_ok:
  assumes es: "message_spec (Some h) cs fin = Sp_ok es" and good: "good_hdr h" "wf_cmds [] cs"
    and doc: "doc_at m pos E (message_bytes fpi es)" "length fpi = 29" "length es < 2 ^ 31 - 30"
    and g: "tok_ready g" and heap: "heap_ok (fst (hp_encodings hp)) (snd (hp_encodings hp)) hp" and n: "length cs + 3 \<le> n"
  shows "decode_message n m E pos hp g = Some (SML_ERR_OK, Some (nrm_hdr h), map nrm_cmd cs @ close_cmds fin, E, fin)"
proof -
  let ?U = SML_EXT_UNDEFINED
  from es obtain hs bs where ev: "el_hdr h = Sp_ok hs" "cmds_spec cs = Sp_ok bs"
    "es = Ev_start ?U TN_SYNCML # hs @ body_start # bs @ close_events fin"
    by (auto simp: message_spec_def open_spec_def sp_append_ok block_spec_def end_tag_of_def sp_elem_def content_spec_def body_start_def)
  let ?rest = "doc_bytes (ext_after ?U hs) (body_start # bs @ close_events fin)"
  have m: "message_bytes fpi es = hdr_bytes fpi hs @ ?rest"
    by (simp add: message_bytes_def hdr_bytes_def ev(3) doc_bytes_append)
  from xltDecInit_ok [OF ev(1) good(1) _ doc(1) [unfolded m] doc(2) g heap] doc(3) obtain d1 where
    d1: "xltDecInit SML_WBXML m E pos None hp g =
        Some (SML_ERR_OK, pos + int (length (hdr_bytes fpi hs)), Some d1, Some (nrm_hdr h), dec_tok d1)"
      "xd_finished d1 = False" "xd_final d1 = False" "dec_ready (dec_ctx d1) (ext_after ?U hs) [TN_SYNCML] ?rest d1"
    by (auto simp: ev(3))
  have "doc_at m (pos + int (length (hdr_bytes fpi hs))) E ?rest" using doc(1) unfolding m by (rule doc_at_skip)
  with ready_paused [OF d1(4)] d1(2,3) have
    "at_body m (pos + int (length (hdr_bytes fpi hs))) E False ?U [] (bs @ close_events fin) d1"
    unfolding at_body_def by auto
  from decode_body [OF good(2) ev(2) plain_undef _ this n] doc(3) obtain d2 where
    "decode_all n m E (pos + int (length (hdr_bytes fpi hs))) d1 = Some (SML_ERR_OK, map nrm_cmd cs @ close_cmds fin, E, d2)" "xd_final d2 = fin"
    by (auto simp: ev(3))
  with d1(1) show ?thesis by (simp add: decode_message_def)
qed

end
