(* ===== verification/Encoder_Size.thy ===== *)
theory Encoder_Size
  imports Encoder_Message
begin

text \<open>
  Measuring: between \<open>xltStartEvaluation\<close> and \<open>xltEndEvaluation\<close> the same calls write nothing and
  count instead; the reported free size is what really writing the commands and the end tags leaves.
\<close>

section \<open>Counting\<close>

definition counting_in :: "XltEncoder \<Rightarrow> XltSpaceEvaluation \<Rightarrow> Doc \<Rightarrow> bool" where
  "counting_in e ev d \<longleftrightarrow> xe_enc e = SML_WBXML \<and> xe_space_evaluation e = Some ev \<and> tok_ready (doc_tok d) \<and>
     0 \<le> ev_written_bytes ev \<and> \<bar>ev_end_tag_size ev\<bar> \<le> ev_written_bytes ev"

lemma append_all_counts:
  assumes "counting_in e ev d" "cmds_spec cs = Sp_ok es"
    "ev_written_bytes ev + int (length (doc_bytes (ev_cur_ext ev) es)) + 5 < 2 ^ 31"
  shows "\<exists>l g. tok_ready g \<and> append_all e cs E d = Some (SML_ERR_OK,
      e\<lparr>xe_space_evaluation := Some
          \<lparr>ev_written_bytes = ev_written_bytes ev + int (length (doc_bytes (ev_cur_ext ev) es)),
           ev_end_tag_size = ev_end_tag_size ev + sum_list (map ev_open es),
           ev_cur_ext = ext_after (ev_cur_ext ev) es, ev_last_ext = l\<rparr>\<rparr>, d\<lparr>doc_tok := g\<rparr>)"
  using assms
proof (induction cs arbitrary: e ev d es)
  case Nil
  have "e\<lparr>xe_space_evaluation := Some ev\<rparr> = e" using Nil.prems(1) by (cases e) (simp add: counting_in_def)
  with Nil.prems show ?case
    by (auto simp: counting_in_def intro!: exI [of _ "ev_last_ext ev"] exI [of _ "doc_tok d"])
next
  case (Cons x cs)
  obtain pe c where x: "x = (pe, c)" by (cases x)
  from Cons.prems(2) obtain as bs where es: "cmd_spec (pe, c) = Sp_ok as" "cmds_spec cs = Sp_ok bs" "es = as @ bs"
    by (auto simp: x sp_append_ok)
  let ?cur = "ext_after (ev_cur_ext ev) as"
  have n: "ev_written_bytes ev + int (length (doc_bytes (ev_cur_ext ev) as)) + int (length (doc_bytes ?cur bs)) + 5 < 2 ^ 31"
    using Cons.prems(3) by (simp add: es(3) doc_bytes_append)
  obtain l g where one: "tok_ready g" "xltEncAppend e pe E c d = Some (SML_ERR_OK,
      e\<lparr>xe_space_evaluation := Some
          \<lparr>ev_written_bytes = ev_written_bytes ev + int (length (doc_bytes (ev_cur_ext ev) as)),
           ev_end_tag_size = ev_end_tag_size ev + sum_list (map ev_open as),
           ev_cur_ext = ?cur, ev_last_ext = l\<rparr>\<rparr>, d\<lparr>doc_tok := g\<rparr>)"
    using xltEncAppend_counts [of e ev d pe c as E] Cons.prems(1) es(1) n by (auto simp: counting_in_def)
  define ev1 where "ev1 = \<lparr>ev_written_bytes = ev_written_bytes ev + int (length (doc_bytes (ev_cur_ext ev) as)),
      ev_end_tag_size = ev_end_tag_size ev + sum_list (map ev_open as), ev_cur_ext = ?cur, ev_last_ext = l\<rparr>"
  have "counting_in (e\<lparr>xe_space_evaluation := Some ev1\<rparr>) ev1 (d\<lparr>doc_tok := g\<rparr>)"
    using Cons.prems(1) one(1) open_bound [of as "ev_cur_ext ev"] by (auto simp: counting_in_def ev1_def)
  from Cons.IH [OF this es(2)] n obtain l2 g2 where "tok_ready g2"
    "append_all (e\<lparr>xe_space_evaluation := Some ev1\<rparr>) cs E (d\<lparr>doc_tok := g\<rparr>) = Some (SML_ERR_OK,
      e\<lparr>xe_space_evaluation := Some
          \<lparr>ev_written_bytes = ev_written_bytes ev1 + int (length (doc_bytes ?cur bs)),
           ev_end_tag_size = ev_end_tag_size ev1 + sum_list (map ev_open bs),
           ev_cur_ext = ext_after ?cur bs, ev_last_ext = l2\<rparr>\<rparr>, d\<lparr>doc_tok := g2\<rparr>)"
    by (auto simp: ev1_def)
  then show ?case using one(2)
    by (auto simp: x es(3) doc_bytes_append ext_after_append ev1_def add.assoc)
qed

definition measure_cmds :: "XltEncoder \<Rightarrow> cmd list \<Rightarrow> int \<Rightarrow> int \<Rightarrow> Doc \<Rightarrow> (int option \<times> XltEncoder \<times> Doc) option" where
  "measure_cmds e cs free pBufEnd d =
     (case xltStartEvaluation e (doc_tok d) of
        (r, e, g) \<Rightarrow> do {
          (r, e, d) \<leftarrow> append_all e cs pBufEnd (d\<lparr>doc_tok := g\<rparr>);
          (r, f, e) \<leftarrow> xltEndEvaluation free e;
          Some (f, e, d)
        })"

lemma measure_cmds_ok:
  assumes e: "xe_enc e = SML_WBXML" "xe_space_evaluation e = None" and d: "tok_ready (doc_tok d)"
    and es: "cmds_spec cs = Sp_ok es" and len: "int (length (doc_bytes (xe_cur_ext e) es)) + 5 < 2 ^ 31"
    and free: "0 \<le> free" "free < 2 ^ 31" "0 \<le> xe_end_tag_size e"
      "xe_end_tag_size e + 2 * int (length (doc_bytes (xe_cur_ext e) es)) < 2 ^ 31"
  shows "\<exists>g. tok_ready g \<and> measure_cmds e cs free E d =
    Some (Some (free - int (length (doc_bytes (xe_cur_ext e) es)) - sum_list (map ev_open es) - xe_end_tag_size e),
          e, d\<lparr>doc_tok := g\<rparr>)"
proof -
  define ev where "ev = \<lparr>ev_written_bytes = 0, ev_end_tag_size = 0, ev_cur_ext = xe_cur_ext e, ev_last_ext = xe_last_ext e\<rparr>"
  let ?n = "int (length (doc_bytes (xe_cur_ext e) es))" and ?o = "sum_list (map ev_open es)"
  have st: "xltStartEvaluation e (doc_tok d) = (SML_ERR_OK, e\<lparr>xe_space_evaluation := Some ev\<rparr>, doc_tok d)"
    using e d by (simp add: xltStartEvaluation_def tok_malloc_ready ev_def)
  have "counting_in (e\<lparr>xe_space_evaluation := Some ev\<rparr>) ev d" using e d by (simp add: counting_in_def ev_def)
  from append_all_counts [OF this es, of E] len obtain l g where a: "tok_ready g"
    "append_all (e\<lparr>xe_space_evaluation := Some ev\<rparr>) cs E d = Some (SML_ERR_OK,
      e\<lparr>xe_space_evaluation := Some \<lparr>ev_written_bytes = ?n, ev_end_tag_size = ?o,
           ev_cur_ext = ext_after (xe_cur_ext e) es, ev_last_ext = l\<rparr>\<rparr>, d\<lparr>doc_tok := g\<rparr>)"
    by (auto simp: ev_def)
  have o: "\<bar>?o\<bar> \<le> ?n" by (rule open_bound)
  have s: "s32 (free - ?n) = Some (free - ?n)" "s32 (free - ?n - ?o) = Some (free - ?n - ?o)"
    "s32 (free - ?n - ?o - xe_end_tag_size e) = Some (free - ?n - ?o - xe_end_tag_size e)"
    using o free by (auto simp: s32_def)
  have "e\<lparr>xe_space_evaluation := None\<rparr> = e" using e(2) by (cases e) simp
  with st a s show ?thesis by (auto simp: measure_cmds_def xltEndEvaluation_def)
qed


section \<open>Measuring and writing\<close>

definition write_cmds :: "XltEncoder \<Rightarrow> cmd list \<Rightarrow> int \<Rightarrow> Doc \<Rightarrow> (ret \<times> Doc) option" where
  "write_cmds e cs pBufEnd d = do {
     (r, e, d) \<leftarrow> append_all e cs pBufEnd d;
     if r \<noteq> SML_ERR_OK then Some (r, d) else xltEncTerminate e pBufEnd d
   }"

lemma stack_length:
  "stack_after es st = Some st' \<Longrightarrow> int (length st') = int (length st) + sum_list (map ev_open es)"
proof (induction es arbitrary: st)
  case (Cons e es)
  then obtain st1 where s: "ev_stack e st = Some st1" "stack_after es st1 = Some st'" by (auto simp: bind_eq_Some_conv)
  have "int (length st1) = int (length st) + ev_open e" using s(1) by (cases e) (auto split: list.splits)
  with Cons.IH [OF s(2)] show ?case by simp
qed simp

lemma balanced_open: "cmds_spec cs = Sp_ok es \<Longrightarrow> balanced 0 cs \<Longrightarrow> sum_list (map ev_open es) = 0"
  using cmds_stack [of cs es 0 "[]"] stack_length [of es "[]" "[]"] by simp

lemma write_cmds_docs:
  assumes e: "xe_enc e = SML_WBXML" "xe_space_evaluation e = None" "\<not> xe_final e" and d: "doc_ready E d"
    and es: "cmds_spec cs = Sp_ok es"
    and len: "E - doc_pos d + int (length (doc_bytes (xe_cur_ext e) es)) + 7 < 2 ^ 31"
      "\<bar>xe_end_tag_size e\<bar> + int (length (doc_bytes (xe_cur_ext e) es)) < 2 ^ 31"
  shows "\<exists>r d'. write_cmds e cs E d = Some (r, d') \<and> docs E d (doc_bytes (xe_cur_ext e) es @ [1, 1]) r d'"
proof -
  let ?x = "doc_bytes (xe_cur_ext e) es"
  obtain r e1 d1 where a: "append_all e cs E d = Some (r, e1, d1)" "appended E e d es r e1 d1"
    using append_all_writes [OF e(1,2) d es _ len(2)] len(1) by auto
  show ?thesis
  proof (cases "r = SML_ERR_OK")
    case False
    with a docs_err [of E d ?x r d1 "[1, 1]"] show ?thesis by (simp add: write_cmds_def appended_def)
  next
    case True
    with a(2) have x: "docs E d ?x SML_ERR_OK d1" by (simp add: appended_def)
    from True a(2) e have e1: "xe_enc e1 = SML_WBXML" "xe_space_evaluation e1 = None" "\<not> xe_final e1"
      by (auto simp: appended_def)
    have z: "doc_bytes (xe_cur_ext e1) (close_events (xe_final e1)) = [1, 1]" using e1(3) by (simp add: close_events_def)
    have "E - doc_pos d1 + int (length (doc_bytes (xe_cur_ext e1) (close_events (xe_final e1)))) + 5 < 2 ^ 31"
      using len(1) docs_pos [OF x] unfolding z by simp
    from xltEncTerminate_writes [OF e1(1,2) docs_ready [OF x d] this] obtain r2 d2 where
      "xltEncTerminate e1 E d1 = Some (r2, d2)" "docs E d1 [1, 1] r2 d2" unfolding z by blast
    with docs_then [OF d x] a(1) True show ?thesis by (auto simp: write_cmds_def)
  qed
qed

end
