(* ===== verification/Encoder_Props.thy ===== *)
theory Encoder_Props
  imports Encoder_Size
begin

text \<open>
  The properties of the document encoder.
\<close>

section \<open>A message for the witnesses\<close>

definition str_data :: "string \<Rightarrow> data option" where
  "str_data s = Some \<lparr>pd_contentType = SML_PCDATA_STRING, pd_extension = SML_EXT_UNDEFINED,
     pd_length = int (length s), pd_content = Some (C_bytes (bytes_of s @ [0]))\<rparr>"

definition sample_target :: "string \<Rightarrow> SmlTarget option" where
  "sample_target s = Some \<lparr>tgt_locURI = str_data s, tgt_locName = None\<rparr>"

definition sample_hdr :: SmlSyncHdr where
  "sample_hdr = \<lparr>hdr_version = str_data ''1.2'', hdr_proto = str_data ''DM/1.2'', hdr_sessionID = str_data ''1'',
     hdr_msgID = str_data ''1'', hdr_flags = 0, hdr_target = sample_target ''http://s'',
     hdr_source = sample_target ''IMEI:1'', hdr_respURI = None, hdr_cred = None, hdr_meta = None\<rparr>"

definition sample_meta :: "data option" where
  "sample_meta = Some \<lparr>pd_contentType = SML_PCDATA_EXTENSION, pd_extension = SML_EXT_METINF, pd_length = 0,
     pd_content = Some (C_metinf \<lparr>mi_format = Some \<lparr>pd_contentType = SML_PCDATA_STRING,
         pd_extension = SML_EXT_UNDEFINED, pd_length = 3, pd_content = Some (bytes_of ''int'' @ [0])\<rparr>,
       mi_type = None, mi_mark = None, mi_size = None, mi_nextnonce = None, mi_version = None, mi_maxmsgsize = None,
       mi_maxobjsize = None, mi_mem = None, mi_emi = [], mi_anchor = None\<rparr>)\<rparr>"

definition sample_item :: "SmlItem option" where
  "sample_item = Some \<lparr>item_target = sample_target ''./A'', item_source = None, item_meta = sample_meta,
     item_data = str_data ''7'', item_flags = 0\<rparr>"

definition sample_cmds :: "cmd list" where
  "sample_cmds =
     [(SML_PE_ATOMIC_START, Some (El_atomic \<lparr>at_cmdID = str_data ''1'', at_flags = SmlNoResp_f, at_meta = None\<rparr>)),
      (SML_PE_REPLACE, Some (El_generic \<lparr>gen_cmdID = str_data ''2'', gen_flags = 0, gen_cred = None, gen_meta = None,
         gen_itemList = [sample_item]\<rparr>)),
      (SML_PE_ATOMIC_END, None)]"

definition sample_events :: "wb_event list" where
  "sample_events = (case message_spec (Some sample_hdr) sample_cmds True of Sp_ok es \<Rightarrow> es | _ \<Rightarrow> [])"

definition empty_table :: TokTbl where
  "empty_table = \<lparr>tt_anchor = True, tt_SyncML = None, tt_MetInf = None, tt_DevInf = None, tt_DmTnd = None, tt_mallocs = []\<rparr>"

lemma sample_spec: "message_spec (Some sample_hdr) sample_cmds True = Sp_ok sample_events"
  by code_simp


fun ev_length :: "SmlPcdataExtension \<Rightarrow> wb_event \<Rightarrow> nat" where
  "ev_length cur (Ev_start ext i) = length (page_switch cur ext) + 1"
| "ev_length cur (Ev_empty ext i) = length (page_switch cur ext) + 1"
| "ev_length cur Ev_end = 1"
| "ev_length cur (Ev_str s) = length s + 2"
| "ev_length cur (Ev_opaque bs) = 1 + opaque_bytes_needed (int (length bs)) + length bs"

fun doc_length :: "SmlPcdataExtension \<Rightarrow> wb_event list \<Rightarrow> nat" where
  "doc_length cur [] = 0"
| "doc_length cur (e # es) = ev_length cur e + doc_length (ev_ext cur e) es"

lemma length_doc_bytes: "length (doc_bytes cur es) = doc_length cur es"
proof (induction es arbitrary: cur)
  case (Cons e es)
  have "length (ev_bytes cur e) = ev_length cur e" by (cases e) (simp_all add: mb_uint_def)
  with Cons.IH [of "ev_ext cur e"] show ?case by simp
qed simp

lemma sample_lengths: "length sample_events = 55" "doc_length SML_EXT_UNDEFINED sample_events = 104"
  by code_simp+

lemma sample_sizes:
  "length sample_events = 55" "length (message_bytes (bytes_of ''-//SYNCML//DTD SyncML 1.2//EN'') sample_events) = 138"
  by (simp_all add: message_bytes_def length_doc_bytes sample_lengths doc_header_def bytes_of_def)

lemma sample_cmds_spec:
  "cmds_spec sample_cmds = Sp_ok (case cmds_spec sample_cmds of Sp_ok es \<Rightarrow> es | _ \<Rightarrow> [])"
  "doc_length SML_EXT_UNDEFINED (case cmds_spec sample_cmds of Sp_ok es \<Rightarrow> es | _ \<Rightarrow> []) = 44"
  by code_simp+

lemma empty_table_ready: "tok_ready empty_table"
  by (simp add: tok_ready_def tok_inv_def empty_table_def)

definition sample_doc :: "nat \<Rightarrow> Doc" where
  "sample_doc n = \<lparr>doc_mem = replicate n 0, doc_pos = 0, doc_tok = empty_table\<rparr>"

lemma sample_doc_ready: "int n \<le> E \<Longrightarrow> E \<le> int n \<Longrightarrow> doc_ready E (sample_doc n)"
  by (simp add: doc_ready_def sample_doc_def empty_table_ready)

lemma syncml_fpi_length: "syncml_fpi v = Some fpi \<Longrightarrow> length fpi = 29"
  by (auto simp: syncml_fpi_def bytes_of_def split: SmlVersion.splits)

section \<open>Whole messages\<close>

text \<open>
  Property C3 (roundtrip: encoder and scanner agree on every well formed message). Let the header and the
  commands of a message be acceptable to the DTD (\<open>message_spec\<close> gives the events \<open>es\<close>), let every atomic,
  sequence and sync that is opened be closed again, and let the message fit into the document. Then
  \<open>xltEncInit\<close>, \<open>xltEncAppend\<close> for every command and \<open>xltEncTerminate\<close> succeed, and the scanner, started
  on exactly the bytes that were written, delivers the tokens of \<open>es\<close>, one call of \<open>nextTok\<close> for each, and
  ends with no tag open and no byte left.
\<close>

theorem message_roundtrip:
  assumes "syncml_fpi v = Some fpi" "doc_ready E d" "message_spec h cs fin = Sp_ok es" "balanced 0 cs"
    and "doc_pos d + int (length (message_bytes fpi es)) \<le> E"
    and "E - doc_pos d + int (length (message_bytes fpi es)) + 5 < 2 ^ 31"
    and "tok_ready g"
  shows "\<exists>d' s ts s'. encode_message h v cs fin E d = Some (SML_ERR_OK, d') \<and>
           xltDecWbxmlInit (doc_mem d') (doc_pos d') (doc_pos d) g = Some (SML_ERR_OK, Some s, g) \<and>
           scan_all (length es) s = Some (ts, s') \<and> toks_of [] es ts \<and>
           stk_view (sc_tagstack s') = [] \<and> ahead s' = []"
proof -
  obtain r d' where w: "encode_message h v cs fin E d = Some (r, d')" "docs E d (message_bytes fpi es) r d'"
    using encode_message_writes [OF assms(1-3,6)] by blast
  with assms(5) have r: "r = SML_ERR_OK" by (simp add: docs_def)
  have "int (length es) \<le> 2 ^ 31 - 20"
    using assms(5,6) events_le_bytes [of es SML_EXT_UNDEFINED] by (simp add: message_bytes_def doc_header_def)
  with message_scanned [OF w(2) [unfolded r] assms(2) syncml_fpi_length [OF assms(1)] message_ok [OF assms(3)]
      message_stack [OF assms(3,4)] _ assms(7)] w(1) r show ?thesis by blast
qed

theorem message_roundtrip_witness:
  "\<exists>d' s ts s'. encode_message (Some sample_hdr) SML_VERS_1_2 sample_cmds True 200 (sample_doc 200) = Some (SML_ERR_OK, d') \<and>
     xltDecWbxmlInit (doc_mem d') (doc_pos d') 0 empty_table = Some (SML_ERR_OK, Some s, empty_table) \<and>
     scan_all 55 s = Some (ts, s') \<and> toks_of [] sample_events ts \<and> stk_view (sc_tagstack s') = [] \<and> ahead s' = []"
proof -
  have "syncml_fpi SML_VERS_1_2 = Some (bytes_of ''-//SYNCML//DTD SyncML 1.2//EN'')" by (simp add: syncml_fpi_def)
  from message_roundtrip [OF this sample_doc_ready [of 200 200] sample_spec _ _ _ empty_table_ready] show ?thesis
    unfolding sample_sizes by (simp add: sample_cmds_def sample_doc_def)
qed



text \<open>
  Property C14 (error: an incomplete command is refused). When a part that the DTD requires is missing (or
  character data has an unknown type, or belongs to an unknown sub-DTD), \<open>xltEncAppend\<close> returns an error;
  the encoder state and the write position stay as they were, so that nothing of the command becomes part
  of the message. (\<open>n\<close> is the number of bytes that the parts in front of the missing one take.)
\<close>

theorem command_refused:
  assumes "xe_enc e = SML_WBXML" "xe_space_evaluation e = None" "doc_ready E d" "cmd_spec (pe, c) = Sp_err n"
    and "E - doc_pos d + int n + 5 < 2 ^ 31"
  shows "\<exists>r d'. xltEncAppend e pe E c d = Some (r, e, d') \<and> r \<noteq> SML_ERR_OK \<and> doc_pos d' = doc_pos d"
  by (rule xltEncAppend_refuses [OF assms])

text \<open>A replace command without the required item list.\<close>

definition bad_replace :: "sml_elem option" where
  "bad_replace = Some (El_generic \<lparr>gen_cmdID = str_data ''2'', gen_flags = 0, gen_cred = None, gen_meta = None,
     gen_itemList = []\<rparr>)"

theorem command_refused_witness:
  "\<exists>r d'. xltEncAppend (new_encoder SML_VERS_1_2) SML_PE_REPLACE 100 bad_replace (sample_doc 100) =
     Some (r, new_encoder SML_VERS_1_2, d') \<and> r \<noteq> SML_ERR_OK \<and> doc_pos d' = 0"
proof -
  have "cmd_spec (SML_PE_REPLACE, bad_replace) = Sp_err 18" by code_simp
  from command_refused [OF _ _ sample_doc_ready [of 100 100] this, of "new_encoder SML_VERS_1_2"] show ?thesis
    by (simp add: new_encoder_def sample_doc_def)
qed




section \<open>Sub-documents\<close>

lemma raw_put_ok:
  "0 \<le> bm_pos b \<Longrightarrow> bm_pos b + int (length bs) \<le> int (length (bm_mem b)) \<Longrightarrow>
     raw_put bs b = Some (b\<lparr>bm_mem := take (nat (bm_pos b)) (bm_mem b) @ bs @ drop (nat (bm_pos b) + length bs) (bm_mem b),
                            bm_pos := bm_pos b + int (length bs)\<rparr>)"
  by (simp add: raw_put_def mem_put_def)

text \<open>
  Property C37 (safety, a violation: the copy of a sub-document is not bounded). Let the document buffer be
  full, and let memory that does not belong to it follow. When the device information of a \<open>Data\<close> element
  has been encoded into its own buffer, \<open>subdtdEncWBXML\<close> copies it behind the end of the document buffer all
  the same, without its length, and reports success.
\<close>

theorem sub_document_overruns:
  assumes "buf_ok b" "bm_written b = bm_len b" "bm_len b + 5 < 2 ^ 31" "devinf_fpi (bm_vers b) = Some fpi"
    and "devinfEncBlock ro p enc (sub_buffer fpi b) = Some (SML_ERR_OK, sub)" "tok_ready (bm_tok sub)"
    and "ptr_bytes (Some (bm_mem sub)) (bm_written sub) = Some bs" "bm_len b + int (length bs) < 2 ^ 31"
    and "bm_pos b + 1 + int (length bs) \<le> int (length (bm_mem b))" "0 < length bs" "length bs < 2 ^ 28"
  shows "\<exists>b'. subdtdEncWBXML ro p enc b = Some (SML_ERR_OK, b') \<and>
     bm_mem b' = take (nat (bm_pos b)) (bm_mem b) @ 0xC3 # bs @ drop (nat (bm_pos b) + 1 + length bs) (bm_mem b) \<and>
     bm_len b' < bm_written b'"
proof -
  have g: "tok_malloc (bm_tok b) = (True, bm_tok b)" using assms(1) by (intro tok_malloc_ready) (simp add: buf_ok_def)
  have n: "bm_written sub = int (length bs)" using assms(7) by (auto simp: ptr_bytes_def split: if_splits)
  have pos: "0 \<le> bm_pos b" "bm_eval b = False" using assms(1) by (simp_all add: buf_ok_def)
  define b1 where "b1 = b\<lparr>bm_tok := bm_tok sub, bm_mem := take (nat (bm_pos b)) (bm_mem b) @ [0xC3] @ drop (nat (bm_pos b) + 1) (bm_mem b),
      bm_pos := bm_pos b + 1\<rparr>"
  have p1: "raw_put [0xC3] (b\<lparr>bm_tok := bm_tok sub\<rparr>) = Some b1"
    using raw_put_ok [of "b\<lparr>bm_tok := bm_tok sub\<rparr>" "[0xC3]"] assms(9) pos by (simp add: b1_def)
  have m1: "length (bm_mem b1) = length (bm_mem b)" using assms(9) pos by (simp add: b1_def)
  have "buf_ok b1" using assms(1,2,6,9) m1 by (simp add: buf_ok_def b1_def)
  moreover have size: "0 < length (mb_uint (length bs))" "length (mb_uint (length bs)) \<le> 4"
    using opaque_bytes_needed_spec [of "int (length bs)"] assms(11) by (simp_all add: mb_uint_def)
  ultimately have "enc_emits (wbxmlOpaqueSize2Buf (int (length bs)) b1) b1 (mb_uint (length bs)) (bm_curExt b1) 0"
    using assms(3) by (intro opaque_size_emits) (simp_all add: b1_def)
  then obtain r b2 where b2: "wbxmlOpaqueSize2Buf (int (length bs)) b1 = Some (r, b2)" "emits b1 (mb_uint (length bs)) r b2" "buf_ok b2"
    by (auto simp: enc_emits_def)
  have full: "bm_written b1 = bm_len b1" using assms(2) by (simp add: b1_def)
  with b2(2) size(1) obtain k where "bm_written b1 + int k \<le> bm_len b1"
    "same_doc (buf_put_bytes (take k (mb_uint (length bs))) b1) b2" by (auto simp: emits_def)
  moreover from this full have "k = 0" by simp
  ultimately have "same_doc b1 b2" by (simp add: same_doc_def buf_put_bytes_def)
  then have b2': "bm_mem b2 = bm_mem b1" "bm_pos b2 = bm_pos b + 1" "bm_written b2 = bm_len b" "bm_len b2 = bm_len b"
    using assms(2) by (simp_all add: same_doc_def b1_def)
  have p2: "raw_put bs b2 = Some (b2\<lparr>bm_mem := take (nat (bm_pos b2)) (bm_mem b2) @ bs @ drop (nat (bm_pos b2) + length bs) (bm_mem b2),
                            bm_pos := bm_pos b2 + int (length bs)\<rparr>)"
    using assms(9) pos m1 by (intro raw_put_ok) (simp_all add: b2')
  have w: "s32 (bm_len b + int (length bs)) = Some (bm_len b + int (length bs))"
    using assms(1,8) by (simp add: s32_def buf_ok_def)
  have mem: "take (nat (bm_pos b + 1)) (bm_mem b1) @ bs @ drop (nat (bm_pos b + 1) + length bs) (bm_mem b1) =
      take (nat (bm_pos b)) (bm_mem b) @ 0xC3 # bs @ drop (nat (bm_pos b) + 1 + length bs) (bm_mem b)"
    using assms(9) pos by (simp add: b1_def nat_add_distrib add.commute)
  show ?thesis
    unfolding subdtdEncWBXML_def Let_def assms(4) option.case g prod.case
    using assms(5,7,10) pos p1 p2 b2(1) w mem by (simp add: n b2' g)
qed


definition full_buffer :: BufferMgmt where
  "full_buffer = \<lparr>bm_mem = replicate 100 0, bm_pos = 10, bm_written = 10, bm_len = 10, bm_switchExtTag = TN_UNDEF,
     bm_curExt = SML_EXT_UNDEFINED, bm_lastExt = SML_EXT_UNDEFINED, bm_activeExt = SML_EXT_UNDEFINED,
     bm_endTagSize = 0, bm_eval = False, bm_vers = SML_VERS_1_2, bm_tok = empty_table\<rparr>"

theorem sub_document_overruns_witness:
  "\<exists>b'. subdtdEncWBXML OPTIONAL None SML_WBXML full_buffer = Some (SML_ERR_OK, b') \<and>
     drop 10 (bm_mem b') \<noteq> drop 10 (bm_mem full_buffer) \<and> bm_len b' < bm_written b'"
proof -
  define fpi where "fpi = bytes_of ''-//SYNCML//DTD DevInf 1.1//EN''"
  have l: "length fpi = 29" by (simp add: fpi_def bytes_of_def)
  define sub where "sub = sub_buffer fpi full_buffer"
  have "devinf_fpi (bm_vers full_buffer) = Some fpi" by (simp add: full_buffer_def devinf_fpi_def fpi_def)
  moreover have "devinfEncBlock OPTIONAL None SML_WBXML sub = Some (SML_ERR_OK, sub)"
    by (simp add: devinfEncBlock_def enc_elem_def)
  moreover have "buf_ok full_buffer" by (simp add: buf_ok_def full_buffer_def empty_table_ready)
  moreover have "tok_ready (bm_tok sub)" "bm_written sub = 34" "length (bm_mem sub) = 12000"
    using l by (simp_all add: sub_def sub_buffer_def full_buffer_def empty_table_ready Let_def)
  moreover from this(2,3) have "ptr_bytes (Some (bm_mem sub)) (bm_written sub) = Some (take 34 (bm_mem sub))"
    by (simp add: ptr_bytes_def)
  ultimately obtain b' where "subdtdEncWBXML OPTIONAL None SML_WBXML full_buffer = Some (SML_ERR_OK, b')"
    "bm_mem b' = take 10 (bm_mem full_buffer) @ 0xC3 # take 34 (bm_mem sub) @ drop 45 (bm_mem full_buffer)"
    "bm_len b' < bm_written b'"
    using sub_document_overruns [of full_buffer fpi OPTIONAL None SML_WBXML sub "take 34 (bm_mem sub)"]
    unfolding sub_def by (auto simp: full_buffer_def)
  moreover have "replicate 90 (0 :: byte) = 0 # replicate 89 0" by (simp add: numeral_eq_Suc)
  ultimately show ?thesis by (simp add: full_buffer_def)
qed

end
