(* ===== verification/Decoder_Props.thy ===== *)
theory Decoder_Props
  imports Decoder_Message Encoder_Props
begin

text \<open>
  The properties of the decoder, with the messages they are tried on.
\<close>

section \<open>Samples\<close>

definition sample_heap :: Heap where
  "sample_heap = \<lparr>hp_encodings = (0, 0), hp_sub_encodings = (0, 0), hp_extension = SML_EXT_UNDEFINED, hp_block = 2\<rparr>"

lemma sample_good: "good_hdr sample_hdr" "wf_cmds [] sample_cmds"
  by (simp_all add: sample_hdr_def sample_cmds_def sample_item_def sample_meta_def sample_target_def str_data_def
      good_hdr_def good_target_def good_data_def good_elem_def good_atomic_def good_generic_def good_items_def good_entry_def
      good_item_def good_item_data_def good_metinf_def follows_def breaks_of_def starts_def ends_def pe_tag_def
      getPEEncTable_def end_tag_of_def atomic_breaks_def type_ok_def nrm_data_def nrm_bytes_def string_pc_def
      content_bytes_def zero_pcdata_def bytes_of_def Let_def)

section \<open>Encoder and decoder\<close>



end
