(* ===== verification/Dm_Containers.thy ===== *)
theory Dm_Containers
  imports DM_Prelude
begin

text \<open>
  The container templates \<open>dmvector.h\<close>: \<open>DMVector\<close>, an array of constructed elements inside a block
  of raw memory, and \<open>DMMap\<close>, a vector of keys beside a vector of values. Every allocation takes its
  outcome as an argument. A slot of the block is \<open>None\<close> as long as no object lives in it; using
  such a slot as an object, or a slot behind the block, is undefined behaviour.
\<close>

section \<open>The vector\<close>

record 'a dmvector =
  m_nAllocated :: nat
  m_nCount :: nat
  m_ptrs :: "'a option list option"

definition DMVector_new :: "'a dmvector" where
  "DMVector_new = \<lparr> m_nAllocated = 0, m_nCount = 0, m_ptrs = None \<rparr>"

text \<open>The live objects; reading the vector as a list is what its users do.\<close>

definition vec_at :: "'a dmvector \<Rightarrow> nat \<Rightarrow> 'a option" where
  "vec_at v i = (case m_ptrs v of None \<Rightarrow> None | Some b \<Rightarrow> if i < length b then b ! i else None)"

definition vec_list :: "'a dmvector \<Rightarrow> 'a list" where
  "vec_list v = (case m_ptrs v of None \<Rightarrow> [] | Some b \<Rightarrow> map the (take (m_nCount v) b))"

text \<open>Writing an object into a slot. Construction needs raw memory, assignment a live object.\<close>

definition vec_construct :: "'a \<Rightarrow> 'a dmvector \<Rightarrow> nat \<Rightarrow> 'a dmvector option" where
  "vec_construct x v i = (case m_ptrs v of None \<Rightarrow> None
     | Some b \<Rightarrow> if i < length b then Some (v\<lparr>m_ptrs := Some (b[i := Some x])\<rparr>) else None)"

definition vec_assign :: "'a \<Rightarrow> 'a dmvector \<Rightarrow> nat \<Rightarrow> 'a dmvector option" where
  "vec_assign x v i = (if vec_at v i = None then None else vec_construct x v i)"

definition DestructElement :: "'a dmvector \<Rightarrow> nat \<Rightarrow> 'a dmvector option" where
  "DestructElement v i = (case m_ptrs v of None \<Rightarrow> None
     | Some b \<Rightarrow> if i < length b \<and> b ! i \<noteq> None then Some (v\<lparr>m_ptrs := Some (b[i := None])\<rparr>) else None)"

text \<open>
  \<open>Reallocate\<close>: a size of zero frees the block; a size below the allocated one keeps it; otherwise a
  block rounded up to four elements replaces it, \<open>ok\<close> being the success of the allocation.
\<close>

definition Reallocate :: "bool \<Rightarrow> nat \<Rightarrow> 'a dmvector \<Rightarrow> (bool \<times> 'a dmvector) option" where
  "Reallocate ok nNewSize v =
     (if nNewSize = 0 then Some (True, v\<lparr>m_ptrs := None, m_nAllocated := 0\<rparr>)
      else if nNewSize < m_nAllocated v then Some (True, v)
      else if \<not> ok then Some (False, v)
      else
        let nNewAlloc = (nNewSize + 3) div 4 * 4;
            old = (case m_ptrs v of None \<Rightarrow> [] | Some b \<Rightarrow> b)
        in if m_nCount v \<le> length old \<and> m_nCount v \<le> nNewAlloc
           then Some (True, v\<lparr>m_ptrs := Some (take (m_nCount v) old @ replicate (nNewAlloc - m_nCount v) None),
                              m_nAllocated := nNewAlloc\<rparr>)
           else None)"

fun destruct_down :: "nat \<Rightarrow> nat \<Rightarrow> 'a dmvector \<Rightarrow> 'a dmvector option" where
  "destruct_down 0 lo v = Some v"
| "destruct_down (Suc n) lo v =
     (if lo \<le> n then do { v' \<leftarrow> DestructElement v n; destruct_down n lo v' } else Some v)"

fun construct_up :: "'a \<Rightarrow> nat \<Rightarrow> nat \<Rightarrow> 'a dmvector \<Rightarrow> 'a dmvector option" where
  "construct_up d i 0 v = Some v"
| "construct_up d i (Suc k) v = do { v' \<leftarrow> vec_construct d v i; construct_up d (Suc i) k v' }"

definition set_size :: "bool \<Rightarrow> 'a \<Rightarrow> int \<Rightarrow> 'a dmvector \<Rightarrow> (bool \<times> 'a dmvector) option" where
  "set_size ok d nNewSize v =
     (if nNewSize < 0 then Some (False, v)
      else let n = nat nNewSize in do {
        v \<leftarrow> destruct_down (m_nCount v) n v;
        r \<leftarrow> Reallocate ok n v;
        (case r of
           (False, v) \<Rightarrow> Some (False, if n < m_nCount v then v\<lparr>m_nCount := n\<rparr> else v)
         | (True, v) \<Rightarrow> do {
             v \<leftarrow> construct_up d (m_nCount v) (n - m_nCount v) v;
             Some (True, v\<lparr>m_nCount := n\<rparr>) }) })"

definition push_back :: "bool \<Rightarrow> 'a \<Rightarrow> 'a \<Rightarrow> 'a dmvector \<Rightarrow> (int \<times> 'a dmvector) option" where
  "push_back ok d x v = do {
     r \<leftarrow> set_size ok d (int (m_nCount v) + 1) v;
     (case r of
        (False, v) \<Rightarrow> Some (int (m_nCount v) - 1, v)
      | (True, v) \<Rightarrow> do {
          v \<leftarrow> vec_assign x v (m_nCount v - 1);
          Some (int (m_nCount v) - 1, v) }) }"

text \<open>\<open>memmove\<close> relocates the objects behind the removed one; their last slot is raw memory then.\<close>

definition vec_remove :: "int \<Rightarrow> 'a dmvector \<Rightarrow> 'a dmvector option" where
  "vec_remove index v =
     (if index < 0 \<or> int (m_nCount v) \<le> index then Some v
      else let i = nat index in do {
        v \<leftarrow> DestructElement v i;
        b \<leftarrow> m_ptrs v;
        b \<leftarrow> (if m_nCount v \<le> length b
              then Some (take i b @ drop (Suc i) (take (m_nCount v) b) @ None # drop (m_nCount v) b)
              else None);
        Some (v\<lparr>m_ptrs := Some b, m_nCount := m_nCount v - 1\<rparr>) })"

fun find_from :: "'a \<Rightarrow> 'a dmvector \<Rightarrow> nat \<Rightarrow> nat \<Rightarrow> int option" where
  "find_from x v pos 0 = Some (-1)"
| "find_from x v pos (Suc k) = do {
     y \<leftarrow> vec_at v pos;
     if y = x then Some (int pos) else find_from x v (Suc pos) k }"

definition vec_find :: "'a \<Rightarrow> 'a dmvector \<Rightarrow> int option" where
  "vec_find x v = find_from x v 0 (m_nCount v)"

text \<open>
  What the class keeps: the block has the allocated size, the first \<open>m_nCount\<close> slots hold objects
  and the others do not.
\<close>

definition vec_ok :: "'a dmvector \<Rightarrow> bool" where
  "vec_ok v \<longleftrightarrow> (case m_ptrs v of
       None \<Rightarrow> m_nAllocated v = 0 \<and> m_nCount v = 0
     | Some b \<Rightarrow> length b = m_nAllocated v \<and> m_nCount v \<le> length b \<and>
         (\<forall>i<length b. (b ! i \<noteq> None) = (i < m_nCount v)))"

text \<open>A vector as its live objects and its free slots.\<close>

definition vec_of :: "nat \<Rightarrow> 'a list \<Rightarrow> 'a dmvector" where
  "vec_of free xs = \<lparr> m_nAllocated = length xs + free, m_nCount = length xs,
     m_ptrs = Some (map Some xs @ replicate free None) \<rparr>"

lemma vec_ok_cases:
  assumes "vec_ok v"
  obtains "v = DMVector_new" | free xs where "v = vec_of free xs"
proof (cases "m_ptrs v")
  case None
  with assms have "v = DMVector_new" by (cases v) (simp add: vec_ok_def DMVector_new_def)
  then show thesis by (rule that(1))
next
  case (Some b)
  let ?n = "m_nCount v"
  from assms Some have b: "length b = m_nAllocated v" "?n \<le> length b"
    "\<And>i. i < length b \<Longrightarrow> (b ! i \<noteq> None) = (i < ?n)"
    by (auto simp: vec_ok_def)
  have "b = map Some (map the (take ?n b)) @ replicate (length b - ?n) None"
  proof (intro nth_equalityI)
    fix i assume "i < length b"
    with b(2) b(3) [of i] show "b ! i = (map Some (map the (take ?n b)) @ replicate (length b - ?n) None) ! i"
      by (cases "i < ?n") (auto simp: nth_append)
  qed (use b(2) in simp)
  then have "v = vec_of (length b - ?n) (map the (take ?n b))"
    using b Some by (cases v) (simp add: vec_of_def)
  then show thesis by (rule that(2))
qed

lemma vec_ok_simps [simp]: "vec_ok DMVector_new" "vec_ok (vec_of free xs)"
  by (auto simp: vec_ok_def DMVector_new_def vec_of_def nth_append)

lemma vec_list_simps [simp]: "vec_list DMVector_new = []" "vec_list (vec_of free xs) = xs"
  by (simp_all add: vec_list_def DMVector_new_def vec_of_def)

lemma vec_count_simps [simp]:
  "m_nCount DMVector_new = 0" "m_nCount (vec_of free xs) = length xs"
  "m_nAllocated DMVector_new = 0" "m_nAllocated (vec_of free xs) = length xs + free"
  by (simp_all add: DMVector_new_def vec_of_def)

lemma vec_of_count [simp]: "(vec_of free xs)\<lparr>m_nCount := length xs\<rparr> = vec_of free xs"
  by (simp add: vec_of_def)

lemma count_vec: "vec_ok v \<Longrightarrow> m_nCount v = length (vec_list v)"
  by (erule vec_ok_cases) simp_all

lemma vec_at_of [simp]: "vec_at (vec_of free xs) i = (if i < length xs then Some (xs ! i) else None)"
  by (auto simp: vec_at_def vec_of_def nth_append)

section \<open>The vector is a list\<close>

lemma destruct_down_id: "m \<le> lo \<Longrightarrow> destruct_down m lo v = Some v"
  by (cases m) simp_all

lemma construct_up_of:
  "k \<le> free \<Longrightarrow> construct_up d (length xs) k ((vec_of free xs)\<lparr>m_nCount := c\<rparr>) =
     Some ((vec_of (free - k) (xs @ replicate k d))\<lparr>m_nCount := c\<rparr>)"
proof (induction k arbitrary: xs free)
  case (Suc k)
  then obtain f where f: "free = Suc f" by (cases free) simp_all
  have "vec_construct d ((vec_of free xs)\<lparr>m_nCount := c\<rparr>) (length xs) =
      Some ((vec_of f (xs @ [d]))\<lparr>m_nCount := c\<rparr>)"
    by (simp add: vec_construct_def vec_of_def f list_update_append)
  with Suc.IH [of f "xs @ [d]"] Suc.prems f show ?case by (simp add: replicate_append_same)
qed simp

lemma Reallocate_of:
  assumes "0 < n" "length xs \<le> n"
  shows "Reallocate ok n (vec_of free xs) =
    (if n < length xs + free then Some (True, vec_of free xs)
     else if ok then Some (True, vec_of ((n + 3) div 4 * 4 - length xs) xs) else Some (False, vec_of free xs))"
  using assms by (auto simp: Reallocate_def vec_of_def Let_def)

lemma Reallocate_new:
  "0 < n \<Longrightarrow> Reallocate ok n DMVector_new =
    (if ok then Some (True, vec_of ((n + 3) div 4 * 4) []) else Some (False, DMVector_new))"
  by (simp add: Reallocate_def DMVector_new_def vec_of_def Let_def)

text \<open>Whether the next element fits without a new block.\<close>

definition vec_room :: "'a dmvector \<Rightarrow> bool" where
  "vec_room v \<longleftrightarrow> m_nCount v + 1 < m_nAllocated v"

lemma set_size_grow_of:
  "set_size ok d (int (length xs) + 1) (vec_of free xs) =
    (if 1 < free then Some (True, vec_of (free - 1) (xs @ [d]))
     else if ok then Some (True, vec_of ((length xs + 4) div 4 * 4 - length xs - 1) (xs @ [d]))
     else Some (False, vec_of free xs))"
proof -
  have n: "nat (int (length xs) + 1) = Suc (length xs)" by simp
  have up: "construct_up d (length xs) 1 (vec_of f xs) =
      Some ((vec_of (f - 1) (xs @ [d]))\<lparr>m_nCount := length xs\<rparr>)" if "0 < f" for f
    using construct_up_of [of 1 f d xs "length xs"] that by simp
  have "0 < (length xs + 4) div 4 * 4 - length xs" by simp
  with up show ?thesis
    by (auto simp: set_size_def n Let_def destruct_down_id Reallocate_of vec_of_def [of _ "xs @ [d]"]
          add.commute [of 4])
qed

lemma set_size_grow_new:
  "set_size ok d 1 DMVector_new = (if ok then Some (True, vec_of 3 [d]) else Some (False, DMVector_new))"
  using construct_up_of [of 1 4 d "[]" 0]
  by (simp add: set_size_def Let_def Reallocate_new vec_of_def)

lemma vec_assign_last [simp]:
  "vec_assign x (vec_of free (xs @ [d])) (length xs) = Some (vec_of free (xs @ [x]))"
  by (simp add: vec_assign_def) (simp add: vec_construct_def vec_of_def list_update_append)

text \<open>
  Appending: the element is at the end and its index is returned, or there is no memory for a new
  block, the vector is as it was and the index of the last element is returned.
\<close>

lemma push_back_ok:
  assumes "vec_ok v" "ok \<or> vec_room v"
  shows "\<exists>v'. push_back ok d x v = Some (int (length (vec_list v)), v') \<and> vec_ok v' \<and>
    vec_list v' = vec_list v @ [x]"
  using assms(1)
proof (cases rule: vec_ok_cases)
  case 1
  with assms(2) have ok: ok by (simp add: vec_room_def)
  with 1 set_size_grow_new [of True d] vec_assign_last [of x 3 "[]" d]
  show ?thesis by (simp add: push_back_def)
next
  case (2 free xs)
  obtain f where "set_size ok d (int (length xs) + 1) v = Some (True, vec_of f (xs @ [d]))"
    using assms(2) 2 by (cases "1 < free") (auto simp: set_size_grow_of vec_room_def)
  with 2 show ?thesis by (simp add: push_back_def)
qed

lemma push_back_oom:
  assumes "vec_ok v" "\<not> vec_room v"
  shows "push_back False d x v = Some (int (length (vec_list v)) - 1, v)"
  using assms(1)
proof (cases rule: vec_ok_cases)
  case 1
  with set_size_grow_new [of False d] show ?thesis by (simp add: push_back_def)
next
  case (2 free xs)
  with assms(2) set_size_grow_of [of False d xs free] show ?thesis
    by (simp add: push_back_def vec_room_def)
qed

lemma find_from_of:
  "find_from x (vec_of free (ys @ zs)) (length ys) (length zs) =
     Some (if x \<in> set zs then int (length ys + length (takeWhile (\<lambda>z. z \<noteq> x) zs)) else -1)"
proof (induction zs arbitrary: ys)
  case (Cons z zs)
  from Cons.IH [of "ys @ [z]"] show ?case by (auto simp: nth_append)
qed simp

definition index_of :: "'a \<Rightarrow> 'a list \<Rightarrow> nat" where
  "index_of x xs = length (takeWhile (\<lambda>y. y \<noteq> x) xs)"

lemma index_of_bound: "x \<in> set xs \<Longrightarrow> index_of x xs < length xs"
  by (induction xs) (auto simp: index_of_def)

lemma index_of_nth: "x \<in> set xs \<Longrightarrow> xs ! index_of x xs = x"
  by (induction xs) (auto simp: index_of_def)

lemma vec_find_ok:
  assumes "vec_ok v"
  shows "vec_find x v = Some (if x \<in> set (vec_list v) then int (index_of x (vec_list v)) else -1)"
  using assms
proof (cases rule: vec_ok_cases)
  case (2 free xs)
  with find_from_of [of x free "[]" xs] show ?thesis by (simp add: vec_find_def index_of_def)
qed (simp add: vec_find_def)

lemma vec_remove_ok:
  assumes "vec_ok v" "i < length (vec_list v)"
  shows "\<exists>v'. vec_remove (int i) v = Some v' \<and> vec_ok v' \<and>
    vec_list v' = take i (vec_list v) @ drop (Suc i) (vec_list v)"
  using assms(1)
proof (cases rule: vec_ok_cases)
  case 1
  with assms(2) show ?thesis by simp
next
  case (2 free xs)
  let ?ys = "take i xs @ drop (Suc i) xs"
  from assms(2) 2 have i: "i < length xs" by simp
  then have "DestructElement v i = Some (v\<lparr>m_ptrs := Some ((map Some xs)[i := None] @ replicate free None)\<rparr>)"
    using 2 by (auto simp: DestructElement_def vec_of_def list_update_append nth_append)
  then have "vec_remove (int i) v = Some (v\<lparr>m_ptrs := Some (map Some ?ys @ None # replicate free None),
      m_nCount := length xs - 1\<rparr>)"
    using i 2 by (simp add: vec_remove_def Let_def vec_of_def take_map drop_map)
  also have "v\<lparr>m_ptrs := Some (map Some ?ys @ None # replicate free None), m_nCount := length xs - 1\<rparr> =
      vec_of (Suc free) ?ys"
    using i 2 by (simp add: vec_of_def)
  finally show ?thesis using 2 by (intro exI [of _ "vec_of (Suc free) ?ys"]) simp
qed

section \<open>The map\<close>

record ('k, 'v) dmmap =
  m_aKeys :: "'k dmvector"
  m_aValues :: "'v dmvector"

definition DMMap_new :: "('k, 'v) dmmap" where
  "DMMap_new = \<lparr> m_aKeys = DMVector_new, m_aValues = DMVector_new \<rparr>"

definition DMMap_size :: "('k, 'v) dmmap \<Rightarrow> nat" where
  "DMMap_size m = m_nCount (m_aKeys m)"

definition DMMap_lookup :: "'k \<Rightarrow> ('k, 'v) dmmap \<Rightarrow> 'v option option" where
  "DMMap_lookup key m = do {
     index \<leftarrow> vec_find key (m_aKeys m);
     if index < 0 then Some None else do {
       x \<leftarrow> vec_at (m_aValues m) (nat index);
       Some (Some x) } }"

definition DMMap_get :: "'k \<Rightarrow> ('k, 'v) dmmap \<Rightarrow> 'v option" where
  "DMMap_get key m = do {
     index \<leftarrow> vec_find key (m_aKeys m);
     if index < 0 then None else vec_at (m_aValues m) (nat index) }"

text \<open>
  \<open>put\<close> with the outcomes of the two allocations, of the vector of keys and of the vector of values.
\<close>

definition DMMap_put :: "bool \<Rightarrow> bool \<Rightarrow> 'k \<Rightarrow> 'v \<Rightarrow> 'k \<Rightarrow> 'v \<Rightarrow> ('k, 'v) dmmap \<Rightarrow> ('k, 'v) dmmap option" where
  "DMMap_put ok1 ok2 dk dv key x m = do {
     index \<leftarrow> vec_find key (m_aKeys m);
     if index < 0 then
       let nSize = int (m_nCount (m_aKeys m)) in do {
         (r, ks) \<leftarrow> push_back ok1 dk key (m_aKeys m);
         if r \<noteq> nSize then Some (m\<lparr>m_aKeys := ks\<rparr>)
         else do {
           (r', vs) \<leftarrow> push_back ok2 dv x (m_aValues m);
           if r' \<noteq> nSize then do {
             ks \<leftarrow> vec_remove nSize ks;
             Some (m\<lparr>m_aKeys := ks, m_aValues := vs\<rparr>) }
           else Some (m\<lparr>m_aKeys := ks, m_aValues := vs\<rparr>) } }
     else do {
       vs \<leftarrow> vec_assign x (m_aValues m) (nat index);
       Some (m\<lparr>m_aValues := vs\<rparr>) } }"

definition DMMap_remove :: "'k \<Rightarrow> ('k, 'v) dmmap \<Rightarrow> (bool \<times> ('k, 'v) dmmap) option" where
  "DMMap_remove key m = do {
     index \<leftarrow> vec_find key (m_aKeys m);
     if 0 \<le> index then do {
       ks \<leftarrow> vec_remove index (m_aKeys m);
       vs \<leftarrow> vec_remove index (m_aValues m);
       Some (True, m\<lparr>m_aKeys := ks, m_aValues := vs\<rparr>) }
     else Some (False, m) }"

text \<open>The map as an association list in insertion order, and what the class keeps.\<close>

definition map_list :: "('k, 'v) dmmap \<Rightarrow> ('k \<times> 'v) list" where
  "map_list m = zip (vec_list (m_aKeys m)) (vec_list (m_aValues m))"

definition map_ok :: "('k, 'v) dmmap \<Rightarrow> bool" where
  "map_ok m \<longleftrightarrow> vec_ok (m_aKeys m) \<and> vec_ok (m_aValues m) \<and> distinct (vec_list (m_aKeys m)) \<and>
     length (vec_list (m_aKeys m)) = length (vec_list (m_aValues m))"

text \<open>Whether there is memory for the pair: the key is there already, or both vectors can take one more.\<close>

definition put_fits :: "bool \<Rightarrow> bool \<Rightarrow> 'k \<Rightarrow> ('k, 'v) dmmap \<Rightarrow> bool" where
  "put_fits ok1 ok2 key m \<longleftrightarrow> key \<in> set (vec_list (m_aKeys m)) \<or>
     (ok1 \<or> vec_room (m_aKeys m)) \<and> (ok2 \<or> vec_room (m_aValues m))"

text \<open>The operations on the list.\<close>

fun al_put :: "'k \<Rightarrow> 'v \<Rightarrow> ('k \<times> 'v) list \<Rightarrow> ('k \<times> 'v) list" where
  "al_put k x [] = [(k, x)]"
| "al_put k x ((k', y) # ps) = (if k' = k then (k, x) # ps else (k', y) # al_put k x ps)"

definition al_remove :: "'k \<Rightarrow> ('k \<times> 'v) list \<Rightarrow> ('k \<times> 'v) list" where
  "al_remove k ps = filter (\<lambda>p. fst p \<noteq> k) ps"

lemma map_of_al_put [simp]: "map_of (al_put k x ps) = (map_of ps)(k \<mapsto> x)"
  by (induction ps) (auto simp: fun_eq_iff)

lemma map_of_al_remove [simp]: "map_of (al_remove k ps) = (map_of ps)(k := None)"
  by (induction ps) (auto simp: al_remove_def fun_eq_iff)

lemma fst_al_put: "map fst (al_put k x ps) = (if k \<in> set (map fst ps) then map fst ps else map fst ps @ [k])"
  by (induction ps) (auto simp del: set_map)

lemma al_put_new: "k \<notin> set ks \<Longrightarrow> length ks = length xs \<Longrightarrow> al_put k x (zip ks xs) = zip (ks @ [k]) (xs @ [x])"
  by (induction ks xs rule: list_induct2') auto

lemma al_put_old:
  "k \<in> set ks \<Longrightarrow> length ks = length xs \<Longrightarrow>
     al_put k x (zip ks xs) = zip ks (xs[index_of k ks := x])"
  by (induction ks xs rule: list_induct2') (auto simp: index_of_def)

lemma al_remove_zip:
  "distinct ks \<Longrightarrow> k \<in> set ks \<Longrightarrow> length ks = length xs \<Longrightarrow>
     al_remove k (zip ks xs) =
     zip (take (index_of k ks) ks @ drop (Suc (index_of k ks)) ks)
       (take (index_of k ks) xs @ drop (Suc (index_of k ks)) xs)"
proof (induction ks xs rule: list_induct2')
  case (4 a ks b xs)
  then show ?case
    by (cases "a = k") (auto simp: index_of_def al_remove_def filter_id_conv dest: set_zip_leftD)
qed simp_all

lemma vec_assign_ok:
  assumes "vec_ok v" "i < length (vec_list v)"
  shows "\<exists>v'. vec_assign x v i = Some v' \<and> vec_ok v' \<and> vec_list v' = (vec_list v)[i := x]"
  using assms(1)
proof (cases rule: vec_ok_cases)
  case (2 free xs)
  moreover from this assms(2) have "vec_assign x (vec_of free xs) i = Some (vec_of free (xs[i := x]))"
    by (simp add: vec_assign_def) (simp add: vec_construct_def vec_of_def list_update_append map_update)
  ultimately show ?thesis by simp
qed (use assms in simp)

lemma vec_at_ok: "vec_ok v \<Longrightarrow> i < length (vec_list v) \<Longrightarrow> vec_at v i = Some (vec_list v ! i)"
  by (erule vec_ok_cases) simp_all

lemma map_of_zip_index:
  "k \<in> set ks \<Longrightarrow> length ks = length xs \<Longrightarrow> map_of (zip ks xs) k = Some (xs ! index_of k ks)"
  by (induction ks xs rule: list_induct2') (auto simp: index_of_def)

lemma DMMap_new_ok [simp]: "map_ok DMMap_new" "map_list DMMap_new = []"
  by (simp_all add: map_ok_def map_list_def DMMap_new_def)

theorem DMMap_lookup_ok:
  assumes "map_ok m"
  shows "DMMap_lookup key m = Some (map_of (map_list m) key)"
proof -
  let ?ks = "vec_list (m_aKeys m)" and ?xs = "vec_list (m_aValues m)"
  have m: "vec_ok (m_aKeys m)" "vec_ok (m_aValues m)" "length ?ks = length ?xs"
    using assms by (auto simp: map_ok_def)
  show ?thesis
  proof (cases "key \<in> set ?ks")
    case True
    with m vec_at_ok [OF m(2), of "index_of key ?ks"] show ?thesis
      using index_of_bound [OF True]
      by (simp add: DMMap_lookup_def vec_find_ok map_list_def map_of_zip_index)
  next
    case False
    with m show ?thesis
      by (simp add: DMMap_lookup_def vec_find_ok map_list_def map_of_zip_is_None [THEN iffD2])
  qed
qed

theorem DMMap_put_ok:
  assumes "map_ok m" "put_fits ok1 ok2 key m"
  shows "\<exists>m'. DMMap_put ok1 ok2 dk dv key x m = Some m' \<and> map_ok m' \<and> map_list m' = al_put key x (map_list m)"
proof -
  let ?ks = "vec_list (m_aKeys m)" and ?xs = "vec_list (m_aValues m)"
  have m: "vec_ok (m_aKeys m)" "vec_ok (m_aValues m)" "length ?ks = length ?xs" "distinct ?ks"
    using assms by (auto simp: map_ok_def)
  show ?thesis
  proof (cases "key \<in> set ?ks")
    case True
    obtain v' where "vec_assign x (m_aValues m) (index_of key ?ks) = Some v'" "vec_ok v'"
      "vec_list v' = ?xs[index_of key ?ks := x]"
      using vec_assign_ok [OF m(2), of "index_of key ?ks" x] index_of_bound [OF True] m(3) by auto
    with m True show ?thesis
      by (simp add: DMMap_put_def vec_find_ok map_list_def map_ok_def al_put_old)
  next
    case False
    obtain k' where "push_back ok1 dk key (m_aKeys m) = Some (int (length ?ks), k')" "vec_ok k'"
      "vec_list k' = ?ks @ [key]"
      using push_back_ok [OF m(1), of ok1 dk key] assms(2) False by (auto simp: put_fits_def)
    moreover obtain v' where "push_back ok2 dv x (m_aValues m) = Some (int (length ?xs), v')" "vec_ok v'"
      "vec_list v' = ?xs @ [x]"
      using push_back_ok [OF m(2), of ok2 dv x] assms(2) False by (auto simp: put_fits_def)
    ultimately show ?thesis using m False
      by (simp add: DMMap_put_def vec_find_ok map_list_def map_ok_def al_put_new count_vec)
  qed
qed

text \<open>Without memory the new pair is dropped silently, and no half of it stays behind.\<close>

theorem DMMap_put_oom:
  assumes "map_ok m" "\<not> put_fits ok1 ok2 key m"
  shows "\<exists>m'. DMMap_put ok1 ok2 dk dv key x m = Some m' \<and> map_ok m' \<and> map_list m' = map_list m"
proof -
  let ?ks = "vec_list (m_aKeys m)" and ?xs = "vec_list (m_aValues m)"
  have m: "vec_ok (m_aKeys m)" "vec_ok (m_aValues m)" "length ?ks = length ?xs" "distinct ?ks"
    using assms by (auto simp: map_ok_def)
  from assms(2) have new: "key \<notin> set ?ks"
    and oom: "\<not> ok1 \<and> \<not> vec_room (m_aKeys m) \<or> \<not> ok2 \<and> \<not> vec_room (m_aValues m)"
    by (auto simp: put_fits_def)
  show ?thesis
  proof (cases "ok1 \<or> vec_room (m_aKeys m)")
    case False
    with m new push_back_oom [OF m(1), of dk key] assms(1) show ?thesis
      by (simp add: DMMap_put_def vec_find_ok map_list_def count_vec)
  next
    case True
    then obtain k' where k': "push_back ok1 dk key (m_aKeys m) = Some (int (length ?ks), k')" "vec_ok k'"
      "vec_list k' = ?ks @ [key]"
      using push_back_ok [OF m(1) True, of dk key] by auto
    have v': "push_back ok2 dv x (m_aValues m) = Some (int (length ?xs) - 1, m_aValues m)"
      using push_back_oom [OF m(2), of dv x] True oom by auto
    obtain k'' where "vec_remove (int (length ?ks)) k' = Some k''" "vec_ok k''" "vec_list k'' = ?ks"
      using vec_remove_ok [OF k'(2), of "length ?ks"] k'(3) by auto
    with k' v' m new show ?thesis
      by (simp add: DMMap_put_def vec_find_ok map_list_def map_ok_def count_vec)
  qed
qed

theorem DMMap_remove_ok:
  assumes "map_ok m"
  shows "\<exists>m'. DMMap_remove key m = Some (key \<in> fst ` set (map_list m), m') \<and> map_ok m' \<and>
    map_list m' = al_remove key (map_list m)"
proof -
  let ?ks = "vec_list (m_aKeys m)" and ?xs = "vec_list (m_aValues m)"
  have m: "vec_ok (m_aKeys m)" "vec_ok (m_aValues m)" "length ?ks = length ?xs" "distinct ?ks"
    using assms by (auto simp: map_ok_def)
  have dom: "fst ` set (map_list m) = set ?ks"
    using m(3) by (metis map_list_def map_fst_zip set_map)
  show ?thesis
  proof (cases "key \<in> set ?ks")
    case True
    let ?i = "index_of key ?ks"
    obtain k' where "vec_remove (int ?i) (m_aKeys m) = Some k'" "vec_ok k'"
      "vec_list k' = take ?i ?ks @ drop (Suc ?i) ?ks"
      using vec_remove_ok [OF m(1), of ?i] index_of_bound [OF True] by auto
    moreover obtain v' where "vec_remove (int ?i) (m_aValues m) = Some v'" "vec_ok v'"
      "vec_list v' = take ?i ?xs @ drop (Suc ?i) ?xs"
      using vec_remove_ok [OF m(2), of ?i] index_of_bound [OF True] m(3) by auto
    moreover have "distinct (take ?i ?ks @ drop (Suc ?i) ?ks)"
      using m(4) by (auto simp: distinct_append dest: in_set_takeD in_set_dropD)
        (metis disjoint_iff set_take_disj_set_drop_if_distinct le_Suc_eq order_refl)
    ultimately show ?thesis using m True dom
      by (simp add: DMMap_remove_def vec_find_ok map_list_def map_ok_def al_remove_zip)
  next
    case False
    moreover from this dom have "al_remove key (map_list m) = map_list m"
      by (force simp: al_remove_def filter_id_conv)
    ultimately show ?thesis using m assms dom by (simp add: DMMap_remove_def vec_find_ok)
  qed
qed

section \<open>A map in use\<close>

text \<open>Sequences of calls, each insertion with the outcomes of its two allocations.\<close>

datatype ('k, 'v) map_call = Put 'k 'v bool bool | Remove 'k

fun map_do :: "'k \<Rightarrow> 'v \<Rightarrow> ('k, 'v) map_call \<Rightarrow> ('k, 'v) dmmap \<Rightarrow> ('k, 'v) dmmap option" where
  "map_do dk dv (Put k x ok1 ok2) m = DMMap_put ok1 ok2 dk dv k x m"
| "map_do dk dv (Remove k) m = map_option snd (DMMap_remove k m)"

fun map_run :: "'k \<Rightarrow> 'v \<Rightarrow> ('k, 'v) map_call list \<Rightarrow> ('k, 'v) dmmap \<Rightarrow> ('k, 'v) dmmap option" where
  "map_run dk dv [] m = Some m"
| "map_run dk dv (c # cs) m = do { m \<leftarrow> map_do dk dv c m; map_run dk dv cs m }"

fun call_spec :: "('k, 'v) map_call \<Rightarrow> ('k \<times> 'v) list \<Rightarrow> ('k \<times> 'v) list" where
  "call_spec (Put k x ok1 ok2) ps = al_put k x ps"
| "call_spec (Remove k) ps = al_remove k ps"

fun has_memory :: "('k, 'v) map_call \<Rightarrow> bool" where
  "has_memory (Put k x ok1 ok2) = (ok1 \<and> ok2)"
| "has_memory (Remove k) = True"

lemma map_do_step:
  assumes "map_ok m"
  obtains m' where "map_do dk dv c m = Some m'" "map_ok m'"
    "map_list m' = call_spec c (map_list m) \<or> \<not> has_memory c \<and> map_list m' = map_list m"
proof (cases c)
  case (Put k x ok1 ok2)
  show thesis
  proof (cases "put_fits ok1 ok2 k m")
    case True
    with DMMap_put_ok [OF assms this, of dk dv x] Put that show thesis by auto
  next
    case False
    moreover from this have "\<not> (ok1 \<and> ok2)" by (auto simp: put_fits_def)
    ultimately show thesis using DMMap_put_oom [OF assms False, of dk dv x] Put that by auto
  qed
next
  case (Remove k)
  with DMMap_remove_ok [OF assms, of k] that show thesis by auto
qed


text \<open>
  Property C33: with memory, a map answers like the association list that the same calls build: its
  pairs stand in the order in which their keys came first.
\<close>

theorem dmmap_refines:
  assumes "\<forall>c\<in>set cs. has_memory c"
  shows "\<exists>m. map_run dk dv cs DMMap_new = Some m \<and>
    (\<forall>k. DMMap_lookup k m = Some (map_of (fold call_spec cs []) k))"
proof -
  have "map_ok m \<Longrightarrow> \<forall>c\<in>set cs. has_memory c \<Longrightarrow>
      \<exists>m'. map_run dk dv cs m = Some m' \<and> map_ok m' \<and> map_list m' = fold call_spec cs (map_list m)"
    for m :: "('a, 'b) dmmap"
  proof (induction cs arbitrary: m)
    case (Cons c cs)
    from map_do_step [OF Cons.prems(1), of dk dv c] Cons.prems(2)
    obtain m1 where "map_do dk dv c m = Some m1" "map_ok m1" "map_list m1 = call_spec c (map_list m)"
      by (metis list.set_intros(1))
    with Cons.IH [of m1] Cons.prems(2) show ?case by simp
  qed simp
  from this [of DMMap_new] assms show ?thesis by (auto simp: DMMap_lookup_ok)
qed

lemma dmmap_refines_witness:
  "let cs = [Put (1::nat) ''a'' True True, Put 2 ''b'' True True, Put 1 ''c'' True True, Remove 2] in
   (\<exists>m. map_run 0 [] cs DMMap_new = Some m \<and>
     (\<forall>k. DMMap_lookup k m = Some (map_of (fold call_spec cs []) k))) \<and>
   map_of (fold call_spec cs []) 1 = Some ''c'' \<and> map_of (fold call_spec cs []) 2 = None"
  unfolding Let_def by (intro conjI, rule dmmap_refines) (simp_all add: al_remove_def)

end
