(* ===== verification/Dm_String.thy ===== *)
theory Dm_String
  imports DM_Prelude
begin

text \<open>
  The string class \<open>DMString\<close> (\<open>dmstring.h\<close>, \<open>dmstring.cc\<close>) at the level of its buffer. A string is a
  pointer to a block of memory that holds the characters and a terminating zero, or \<open>NULL\<close> for the
  empty string; the class does not store the size of the block, it recomputes a lower bound from the
  length of the string. Blocks come from an allocator \<open>al\<close>, which maps the requested size to a block
  with arbitrary contents or to \<open>None\<close>. Memory behind a block is not readable.
\<close>

type_synonym dmstring = "byte list option"
type_synonym allocator = "nat \<Rightarrow> byte list option"

text \<open>What \<open>malloc\<close> guarantees: a block that it returns has the requested size.\<close>

definition sized :: "allocator \<Rightarrow> bool" where
  "sized al \<longleftrightarrow> (\<forall>n b. al n = Some b \<longrightarrow> length b = n)"

section \<open>Strings in memory\<close>

text \<open>The string that starts a piece of memory, \<open>strchr\<close>, \<open>strrchr\<close> and \<open>strncpy\<close> on it.\<close>

fun zstr :: "byte list \<Rightarrow> byte list option" where
  "zstr [] = None"
| "zstr (c # cs) = (if c = 0 then Some [] else do { s \<leftarrow> zstr cs; Some (c # s) })"

fun strchr :: "byte \<Rightarrow> byte list \<Rightarrow> nat option option" where
  "strchr c [] = None"
| "strchr c (x # xs) =
     (if x = c then Some (Some 0) else if x = 0 then Some None
      else do { r \<leftarrow> strchr c xs; Some (map_option Suc r) })"

text \<open>The last position of a character in a string; on the terminating zero it is never asked here.\<close>

fun last_pos :: "byte \<Rightarrow> byte list \<Rightarrow> nat option" where
  "last_pos c [] = None"
| "last_pos c (x # xs) = (case last_pos c xs of Some i \<Rightarrow> Some (Suc i)
     | None \<Rightarrow> if x = c then Some 0 else None)"

definition strrchr :: "byte \<Rightarrow> byte list \<Rightarrow> nat option option" where
  "strrchr c m = do { s \<leftarrow> zstr m; Some (last_pos c s) }"

definition strncpy :: "byte list \<Rightarrow> nat \<Rightarrow> byte list option" where
  "strncpy src n =
     (let s = takeWhile (\<lambda>c. c \<noteq> 0) (take n src) in
      if length s < n \<and> length s = length src then None else Some (s @ replicate (n - length s) 0))"

section \<open>The operations\<close>

definition GetAdjustedLen :: "nat \<Rightarrow> nat" where
  "GetAdjustedLen nLen = (nLen + 15) div 16 * 16"

definition str_c :: "dmstring \<Rightarrow> byte list option" where
  "str_c s = (case s of None \<Rightarrow> Some [] | Some b \<Rightarrow> zstr b)"

definition str_length :: "dmstring \<Rightarrow> nat option" where
  "str_length s = map_option length (str_c s)"

text \<open>The size that the class assumes for the current block.\<close>

definition str_buffer :: "dmstring \<Rightarrow> nat option" where
  "str_buffer s = (case s of None \<Rightarrow> Some 0
     | Some b \<Rightarrow> do { n \<leftarrow> str_length s; Some (GetAdjustedLen (n + 1)) })"

text \<open>\<open>assign\<close>: \<open>pStr\<close> is the memory that the source pointer points to.\<close>

definition str_assign :: "allocator \<Rightarrow> byte list option \<Rightarrow> int \<Rightarrow> dmstring \<Rightarrow> (bool \<times> dmstring) option" where
  "str_assign al pStr nLen s =
     (case pStr of
        None \<Rightarrow> Some (True, None)
      | Some [] \<Rightarrow> None
      | Some (c # src) \<Rightarrow>
          if c = 0 \<or> nLen \<le> 0 then Some (True, None)
          else do {
            nCurBuffer \<leftarrow> str_buffer s;
            let n = nat nLen;
            let s = (if nCurBuffer \<le> n then al (GetAdjustedLen (n + 1)) else s);
            (case s of
               None \<Rightarrow> Some (False, None)
             | Some b \<Rightarrow> do {
                 bs \<leftarrow> strncpy (c # src) n;
                 b \<leftarrow> buf_put b 0 bs;
                 b \<leftarrow> buf_put b n [0];
                 Some (True, Some b) }) })"

text \<open>Assignment of a string, which the constructors from a string and from a copy use as well.\<close>

definition str_set :: "allocator \<Rightarrow> byte list option \<Rightarrow> dmstring \<Rightarrow> dmstring option" where
  "str_set al szStr s = do {
     nTrgLen \<leftarrow> (case szStr of None \<Rightarrow> Some 0 | Some m \<Rightarrow> map_option length (zstr m));
     (_, s) \<leftarrow> str_assign al szStr (int nTrgLen) s;
     Some s }"

definition str_append :: "allocator \<Rightarrow> byte list option \<Rightarrow> dmstring \<Rightarrow> dmstring option" where
  "str_append al szStr s = do {
     str2 \<leftarrow> (case szStr of None \<Rightarrow> Some [] | Some m \<Rightarrow> zstr m);
     if str2 = [] then Some s
     else do {
       str1 \<leftarrow> str_c s;
       nCurBuffer \<leftarrow> str_buffer s;
       if length str1 + length str2 < nCurBuffer then
         (case s of None \<Rightarrow> None
          | Some b \<Rightarrow> do { b \<leftarrow> buf_put b (length str1) (str2 @ [0]); Some (Some b) })
       else
         (case al (GetAdjustedLen (length str1 + length str2 + 1)) of
            None \<Rightarrow> Some None
          | Some b \<Rightarrow> do { b \<leftarrow> buf_put b 0 (str1 @ str2 @ [0]); Some (Some b) }) } }"

definition str_append_char :: "allocator \<Rightarrow> byte \<Rightarrow> dmstring \<Rightarrow> dmstring option" where
  "str_append_char al c s = do {
     str1 \<leftarrow> str_c s;
     nCurBuffer \<leftarrow> str_buffer s;
     if length str1 + 1 < nCurBuffer then
       (case s of None \<Rightarrow> None
        | Some b \<Rightarrow> do { b \<leftarrow> buf_put b (length str1) [c, 0]; Some (Some b) })
     else
       (case al (GetAdjustedLen (length str1 + 1 + 1)) of
          None \<Rightarrow> Some None
        | Some b \<Rightarrow> do { b \<leftarrow> buf_put b 0 (str1 @ [c, 0]); Some (Some b) }) }"

definition str_SetAt :: "int \<Rightarrow> byte \<Rightarrow> dmstring \<Rightarrow> dmstring option" where
  "str_SetAt nPos c s = do {
     str \<leftarrow> str_c s;
     if nPos < 0 \<or> int (length str) \<le> nPos then Some s
     else (case s of None \<Rightarrow> None | Some b \<Rightarrow> do { b \<leftarrow> buf_put b (nat nPos) [c]; Some (Some b) }) }"

function replace_loop :: "byte \<Rightarrow> byte \<Rightarrow> nat \<Rightarrow> byte list \<Rightarrow> dmstring option" where
  "replace_loop oldCh newCh pos b =
     (if length b \<le> pos then None
      else do {
        r \<leftarrow> strchr oldCh (drop pos b);
        (case r of
           None \<Rightarrow> Some (Some b)
         | Some i \<Rightarrow> (case str_SetAt (int (pos + i)) newCh (Some b) of
               Some (Some b') \<Rightarrow> if length b' = length b then replace_loop oldCh newCh (Suc (pos + i)) b' else None
             | _ \<Rightarrow> None)) })"
  by pat_completeness auto
termination by (relation "measure (\<lambda>(old, new, pos, b). length b - pos)") auto

definition str_replaceAll :: "byte \<Rightarrow> byte \<Rightarrow> dmstring \<Rightarrow> dmstring option" where
  "str_replaceAll oldCh newCh s = (case s of None \<Rightarrow> Some None | Some b \<Rightarrow> replace_loop oldCh newCh 0 b)"

definition drop_last_while :: "('a \<Rightarrow> bool) \<Rightarrow> 'a list \<Rightarrow> 'a list" where
  "drop_last_while P xs = rev (dropWhile P (rev xs))"

definition str_trim :: "dmstring \<Rightarrow> dmstring option" where
  "str_trim s = do {
     str \<leftarrow> str_c s;
     let rest = dropWhile (\<lambda>c. c = 0x20) str;
     if rest = [] then Some s
     else (case s of None \<Rightarrow> None
           | Some b \<Rightarrow> do { b \<leftarrow> buf_put b 0 (drop_last_while (\<lambda>c. c = 0x20) rest @ [0]); Some (Some b) }) }"

definition str_AllocateBuffer :: "allocator \<Rightarrow> nat \<Rightarrow> dmstring \<Rightarrow> dmstring option" where
  "str_AllocateBuffer al nLen s = do {
     nCurBuffer \<leftarrow> str_buffer s;
     if nLen \<le> nCurBuffer then Some s
     else (case al (GetAdjustedLen nLen) of
             None \<Rightarrow> Some None
           | Some b \<Rightarrow> do { b \<leftarrow> buf_put b 0 [0]; Some (Some b) }) }"

definition str_RemoveSufix :: "allocator \<Rightarrow> byte list option \<Rightarrow> byte \<Rightarrow> dmstring \<Rightarrow> dmstring option" where
  "str_RemoveSufix al sourceStr seperator s =
     (case sourceStr of
        None \<Rightarrow> Some s
      | Some m \<Rightarrow> do {
          ptr \<leftarrow> strrchr seperator m;
          (_, s) \<leftarrow> str_assign al sourceStr (case ptr of None \<Rightarrow> 0 | Some i \<Rightarrow> int i) s;
          Some s })"

text \<open>Comparison: pointers first, then the strings.\<close>

definition str_eq_c :: "dmstring \<Rightarrow> byte list option \<Rightarrow> bool option" where
  "str_eq_c s szStr =
     (case szStr of
        None \<Rightarrow> Some (s = None)
      | Some m \<Rightarrow> do { a \<leftarrow> str_c s; b \<leftarrow> zstr m; Some (a = b) })"

section \<open>URI encoding\<close>

definition uri_plain :: "byte \<Rightarrow> bool" where
  "uri_plain c \<longleftrightarrow> 0x26 \<le> c \<and> c \<le> 0x3B \<or> 0x3F \<le> c \<and> c \<le> 0x5A \<or> 0x61 \<le> c \<and> c \<le> 0x7A \<or>
     c = 0x21 \<or> c = 0x3D \<or> c = 0x24 \<or> c = 0x5F \<or> c = 0x7E"

definition hex_digit :: "byte \<Rightarrow> byte" where
  "hex_digit n = bytes_of ''0123456789ABCDEF'' ! unat (n AND 0xF)"

fun uri_encode :: "byte list \<Rightarrow> byte list" where
  "uri_encode [] = []"
| "uri_encode (c # cs) =
     (if uri_plain c then c # uri_encode cs
      else 0x25 # hex_digit (drop_bit 4 c) # hex_digit c # uri_encode cs)"

definition str_Encode :: "allocator \<Rightarrow> dmstring \<Rightarrow> (bool \<times> dmstring) option" where
  "str_Encode al s =
     (case s of
        None \<Rightarrow> Some (True, None)
      | Some m \<Rightarrow> do {
          str \<leftarrow> zstr m;
          (case al (GetAdjustedLen (length str * 3 + 1)) of
             None \<Rightarrow> Some (False, s)
           | Some b \<Rightarrow> do { b \<leftarrow> buf_put b 0 (uri_encode str @ [0]); Some (True, Some b) }) })"

definition HexDigit2N :: "byte \<Rightarrow> byte option" where
  "HexDigit2N c =
     (if 0x30 \<le> c \<and> c \<le> 0x39 then Some (c - 0x30)
      else if 0x41 \<le> c \<and> c \<le> 0x46 then Some (c - 0x41 + 10)
      else if 0x61 \<le> c \<and> c \<le> 0x66 then Some (c - 0x61 + 10)
      else None)"

definition byte_at :: "byte list \<Rightarrow> nat \<Rightarrow> byte option" where
  "byte_at b i = (if i < length b then Some (b ! i) else None)"

text \<open>
  The decoding loop, in place: \<open>src\<close> and \<open>trg\<close> are the positions of the two pointers. A backslash
  stands for the two characters of an escape, a percent sign for one; what follows is skipped
  without a look at it.
\<close>

function decode_loop :: "byte list \<Rightarrow> nat \<Rightarrow> nat \<Rightarrow> (bool \<times> byte list) option" where
  "decode_loop b src trg = do {
     c \<leftarrow> byte_at b src;
     if c = 0 then do { b \<leftarrow> buf_put b trg [0]; Some (True, b) }
     else if c \<noteq> 0x25 \<and> c \<noteq> 0x5C then
       if trg < length b then decode_loop (b[trg := c]) (src + 1) (trg + 1) else None
     else
       let src = (if c = 0x5C then src + 2 else src + 1) in do {
         c1 \<leftarrow> byte_at b src;
         (case HexDigit2N c1 of
            None \<Rightarrow> Some (False, b)
          | Some n1 \<Rightarrow> do {
              c2 \<leftarrow> byte_at b (src + 1);
              (case HexDigit2N c2 of
                 None \<Rightarrow> Some (False, b)
               | Some n2 \<Rightarrow>
                   if trg < length b then decode_loop (b[trg := push_bit 4 n1 + n2]) (src + 2) (trg + 1) else None) }) } }"
  by pat_completeness auto
termination
  by (relation "measure (\<lambda>(b, src, trg). length b - src)")
    (auto simp: byte_at_def split: if_splits)

declare decode_loop.simps [simp del]

definition str_Decode :: "dmstring \<Rightarrow> (bool \<times> dmstring) option" where
  "str_Decode s = (case s of None \<Rightarrow> None
     | Some b \<Rightarrow> do { (r, b) \<leftarrow> decode_loop b 0 0; Some (r, Some b) })"

section \<open>The buffer is large enough\<close>

lemma zstr_simp [simp]: "0 \<notin> set c \<Longrightarrow> zstr (c @ 0 # rest) = Some c"
  by (induction c) auto

lemma zstr_split: "zstr m = Some c \<Longrightarrow> \<exists>rest. m = c @ 0 # rest \<and> 0 \<notin> set c"
  by (induction m arbitrary: c) (fastforce split: if_splits Option.bind_splits)+

lemma zstr_iff: "zstr m = Some c \<longleftrightarrow> (\<exists>rest. m = c @ 0 # rest \<and> 0 \<notin> set c)"
  using zstr_split by auto

lemma GetAdjustedLen_le: "n \<le> GetAdjustedLen n"
  unfolding GetAdjustedLen_def by presburger

lemma GetAdjustedLen_mono: "n \<le> m \<Longrightarrow> GetAdjustedLen n \<le> GetAdjustedLen m"
  unfolding GetAdjustedLen_def by (simp add: div_le_mono)

text \<open>A rounded size that exceeds \<open>n\<close> exceeds \<open>n\<close> rounded up.\<close>

lemma GetAdjustedLen_less:
  assumes "n < GetAdjustedLen m"
  shows "GetAdjustedLen (Suc n) \<le> GetAdjustedLen m"
proof -
  have "(Suc n + 15) div 16 < Suc ((m + 15) div 16)"
    using assms unfolding GetAdjustedLen_def by (intro less_mult_imp_div_less) simp
  then show ?thesis unfolding GetAdjustedLen_def by (intro mult_le_mono1) simp
qed

definition dms_ok :: "dmstring \<Rightarrow> bool" where
  "dms_ok s \<longleftrightarrow> (case s of None \<Rightarrow> True
     | Some b \<Rightarrow> (case zstr b of None \<Rightarrow> False | Some c \<Rightarrow> GetAdjustedLen (length c + 1) \<le> length b))"

lemma dms_ok_cases:
  assumes "dms_ok s"
  obtains "s = None"
  | c rest where "s = Some (c @ 0 # rest)" "0 \<notin> set c" "GetAdjustedLen (length c + 1) \<le> length c + 1 + length rest"
  using assms by (fastforce simp: dms_ok_def zstr_iff split: option.splits)

lemma dms_okI: "0 \<notin> set c \<Longrightarrow> GetAdjustedLen (length c + 1) \<le> length c + 1 + length rest \<Longrightarrow>
    dms_ok (Some (c @ 0 # rest))"
  by (simp add: dms_ok_def)

lemma dms_ok_None [simp]: "dms_ok None"
  by (simp add: dms_ok_def)

text \<open>Writing a string to the start of a block that is large enough.\<close>

lemma dms_write:
  assumes "0 \<notin> set c" "GetAdjustedLen (length c + 1) \<le> length b"
  shows "\<exists>b'. buf_put b 0 (c @ [0]) = Some b' \<and> dms_ok (Some b') \<and> str_c (Some b') = Some c \<and> length b' = length b"
proof -
  have len: "length c + 1 \<le> length b" using GetAdjustedLen_le [of "length c + 1"] assms(2) by linarith
  let ?b = "c @ 0 # drop (length c + 1) b"
  have "buf_put b 0 (c @ [0]) = Some ?b" using len by simp
  moreover have "dms_ok (Some ?b)" using assms len by (intro dms_okI) simp_all
  moreover have "str_c (Some ?b) = Some c" using assms by (simp add: str_c_def)
  ultimately show ?thesis using len by auto
qed

text \<open>What an operation does with the memory it may get: it is safe, keeps the buffer consistent and, when the
  allocator delivers, leaves the string \<open>c\<close>.\<close>

definition leaves :: "allocator \<Rightarrow> dmstring option \<Rightarrow> byte list \<Rightarrow> bool" where
  "leaves al r c \<longleftrightarrow> (\<exists>s. r = Some s \<and> dms_ok s \<and> ((\<forall>n. al n \<noteq> None) \<longrightarrow> str_c s = Some c))"

lemma leavesI: "r = Some s \<Longrightarrow> dms_ok s \<Longrightarrow> str_c s = Some c \<Longrightarrow> leaves al r c"
  by (auto simp: leaves_def)

lemma leaves_fails: "al n = None \<Longrightarrow> dms_ok s \<Longrightarrow> leaves al (Some s) c"
  unfolding leaves_def by metis

lemma leaves_oom: "al n = None \<Longrightarrow> leaves al (Some None) c"
  by (simp add: leaves_fails)

lemma leaves_block:
  assumes "sized al" "0 \<notin> set c" "GetAdjustedLen (length c + 1) \<le> n"
  shows "leaves al (case al n of None \<Rightarrow> Some None
    | Some b \<Rightarrow> do { b \<leftarrow> buf_put b 0 (c @ [0]); Some (Some b) }) c"
proof (cases "al n")
  case None
  then show ?thesis using leaves_oom [of al] by simp
next
  case (Some b)
  with assms have "length b = n" by (simp add: sized_def)
  with dms_write [of c b] assms Some show ?thesis by (auto simp: leaves_def)
qed

lemma strncpy_string:
  assumes "0 \<notin> set c"
  shows "strncpy (c @ 0 # rest) n = Some (take n c @ replicate (n - length c) 0)"
proof -
  have "takeWhile (\<lambda>x. x \<noteq> 0) (take n (c @ 0 # rest)) = take n c"
  proof (cases "n \<le> length c")
    case True
    with assms show ?thesis by (auto simp: takeWhile_eq_all_conv dest: in_set_takeD)
  next
    case False
    then obtain k where "n = length c + Suc k" by (metis less_imp_Suc_add not_le add_Suc_right)
    moreover have "takeWhile (\<lambda>x. x \<noteq> 0) (c @ 0 # ys) = c" for ys using assms by (induction c) auto
    ultimately show ?thesis by simp
  qed
  then show ?thesis by (simp add: strncpy_def Let_def min_def)
qed

lemma str_buffer_block: "0 \<notin> set c \<Longrightarrow> str_buffer (Some (c @ 0 # rest)) = Some (GetAdjustedLen (length c + 1))"
  by (simp add: str_buffer_def str_length_def str_c_def)

lemma str_buffer_ok:
  assumes "dms_ok s"
  obtains n where "str_buffer s = Some n" "\<And>k. k < n \<Longrightarrow> \<exists>b. s = Some b \<and> GetAdjustedLen (k + 1) \<le> length b"
proof (cases rule: dms_ok_cases [OF assms])
  case 1
  then show thesis by (intro that [of 0]) (simp_all add: str_buffer_def)
next
  case (2 c rest)
  show thesis
  proof (rule that)
    show "str_buffer s = Some (GetAdjustedLen (length c + 1))" using 2 by (simp add: str_buffer_block)
    fix k assume "k < GetAdjustedLen (length c + 1)"
    then have "GetAdjustedLen (k + 1) \<le> GetAdjustedLen (length c + 1)"
      using GetAdjustedLen_less by simp
    with 2 show "\<exists>b. s = Some b \<and> GetAdjustedLen (k + 1) \<le> length b" by simp
  qed
qed

lemma dms_ok_c: "dms_ok s \<Longrightarrow> \<exists>c. str_c s = Some c \<and> 0 \<notin> set c"
  by (erule dms_ok_cases) (auto simp: str_c_def)

lemma buf_put_terminated:
  assumes "length u = n" "n + 1 \<le> length b"
  shows "(do { b \<leftarrow> buf_put b 0 u; b \<leftarrow> buf_put b n [0]; F b }) = F (u @ 0 # drop (n + 1) b)"
proof -
  have "buf_put b 0 u = Some (u @ drop n b)" using assms by simp
  moreover have "buf_put (u @ drop n b) n [0] = Some (u @ 0 # drop (n + 1) b)" using assms by simp
  ultimately show ?thesis by simp
qed

lemma str_assign_leaves:
  assumes "sized al" "dms_ok s" "zstr m = Some c"
  shows "leaves al (map_option snd (str_assign al (Some m) n s)) (take (nat n) c)"
proof (cases "c = [] \<or> n \<le> 0")
  case True
  from assms(3) obtain rest where m: "m = c @ 0 # rest" "0 \<notin> set c" by (auto simp: zstr_iff)
  from True have e: "take (nat n) c = []" by auto
  show ?thesis unfolding e using True m
    by (cases c) (auto simp: str_assign_def leaves_def str_c_def)
next
  case False
  let ?n = "nat n"
  from assms(3) obtain rest where m: "m = c @ 0 # rest" "0 \<notin> set c" by (auto simp: zstr_iff)
  from False obtain x xs where c: "c = x # xs" by (cases c) auto
  with m have x: "x \<noteq> 0" by auto
  from str_buffer_ok [OF assms(2)] obtain cur where cur: "str_buffer s = Some cur"
    "\<And>k. k < cur \<Longrightarrow> \<exists>b. s = Some b \<and> GetAdjustedLen (k + 1) \<le> length b" by metis
  let ?s = "if cur \<le> ?n then al (GetAdjustedLen (?n + 1)) else s"
  have r: "str_assign al (Some m) n s = (case ?s of None \<Rightarrow> Some (False, None)
      | Some b \<Rightarrow> do { b \<leftarrow> buf_put b 0 (take ?n c @ replicate (?n - length c) 0); b \<leftarrow> buf_put b ?n [0]; Some (True, Some b) })"
    using False x cur(1) strncpy_string [OF m(2), of rest ?n]
    by (simp add: str_assign_def Let_def m(1) c cong: option.case_cong)
  show ?thesis
  proof (cases ?s)
    case None
    then have "cur \<le> ?n" using cur(2) [of ?n] by (cases "cur \<le> ?n") auto
    with None r show ?thesis using leaves_oom [of al] by simp
  next
    case (Some b)
    have len: "GetAdjustedLen (?n + 1) \<le> length b"
    proof (cases "cur \<le> ?n")
      case True
      with Some assms(1) show ?thesis by (simp add: sized_def)
    next
      case False
      with Some cur(2) [of ?n] show ?thesis by auto
    qed
    then have n: "?n + 1 \<le> length b" using GetAdjustedLen_le [of "?n + 1"] by linarith
    let ?c = "take ?n c"
    let ?pad = "replicate (?n - length c) 0 @ [0]"
    let ?b = "?c @ 0 # replicate (?n - length c) 0 @ drop (?n + 1) b"
    have "?c @ replicate (?n - length c) 0 @ 0 # drop (?n + 1) b = ?b"
      using replicate_app_Cons_same [of "?n - length c" 0] by simp
    moreover have "length (?c @ replicate (?n - length c) 0) = ?n" by simp
    ultimately have "map_option snd (str_assign al (Some m) n s) = Some (Some ?b)"
      using r Some n buf_put_terminated [of "?c @ replicate (?n - length c) 0" ?n b "\<lambda>b. Some (True, Some b)"]
      by simp
    moreover have "dms_ok (Some ?b)"
    proof (rule dms_okI)
      show "0 \<notin> set ?c" using m(2) by (auto dest: in_set_takeD)
      have "GetAdjustedLen (length ?c + 1) \<le> GetAdjustedLen (?n + 1)" by (intro GetAdjustedLen_mono) simp
      moreover have "length ?c + 1 + length (replicate (?n - length c) 0 @ drop (?n + 1) b) = length b"
        using n by (simp add: min_def)
      ultimately show "GetAdjustedLen (length ?c + 1) \<le> length ?c + 1 + length (replicate (?n - length c) 0 @ drop (?n + 1) b)"
        using len by simp
    qed
    moreover have "str_c (Some ?b) = Some ?c"
      using m(2) by (auto simp: str_c_def intro!: zstr_simp dest: in_set_takeD)
    ultimately show ?thesis by (blast intro: leavesI)
  qed
qed

lemma str_append_leaves:
  assumes "sized al" "dms_ok s" "str_c s = Some a" "case p of None \<Rightarrow> c = [] | Some m \<Rightarrow> zstr m = Some c"
  shows "leaves al (str_append al p s) (a @ c)"
proof (cases "c = []")
  case True
  then show ?thesis using assms by (auto simp: str_append_def leaves_def split: option.splits)
next
  case False
  with assms(4) obtain m where m: "p = Some m" "zstr m = Some c" by (cases p) auto
  then have c0: "0 \<notin> set c" by (auto simp: zstr_iff)
  have a0: "0 \<notin> set a" using dms_ok_c [OF assms(2)] assms(3) by auto
  from str_buffer_ok [OF assms(2)] obtain cur where cur: "str_buffer s = Some cur"
    "\<And>k. k < cur \<Longrightarrow> \<exists>b. s = Some b \<and> GetAdjustedLen (k + 1) \<le> length b" by metis
  show ?thesis
  proof (cases "length a + length c < cur")
    case True
    with cur(2) obtain b where b: "s = Some b" "GetAdjustedLen (length (a @ c) + 1) \<le> length b" by auto
    from b(1) assms(3) obtain rest where rest: "b = a @ 0 # rest" by (auto simp: str_c_def zstr_iff)
    have len: "length (a @ c) + 1 \<le> length b"
      using GetAdjustedLen_le [of "length (a @ c) + 1"] b(2) by linarith
    have "buf_put b (length a) (c @ [0]) = buf_put b 0 ((a @ c) @ [0])"
      using len by (simp add: rest)
    with dms_write [of "a @ c" b] a0 c0 b False m True cur(1) assms(3) show ?thesis
      by (auto simp: str_append_def leaves_def)
  next
    case False
    have "leaves al (case al (GetAdjustedLen (length (a @ c) + 1)) of None \<Rightarrow> Some None
        | Some b \<Rightarrow> do { b \<leftarrow> buf_put b 0 ((a @ c) @ [0]); Some (Some b) }) (a @ c)"
      using a0 c0 by (intro leaves_block [OF assms(1)]) simp_all
    with False \<open>c \<noteq> []\<close> m cur(1) assms(3) show ?thesis
      by (simp add: str_append_def cong: option.case_cong)
  qed
qed

lemma zstr_text: "zstr (u @ 0 # rest) = Some (takeWhile (\<lambda>x. x \<noteq> 0) u)"
  by (induction u) auto

lemma takeWhile_nonzero [simp]: "0 \<notin> set c \<Longrightarrow> takeWhile (\<lambda>x. x \<noteq> 0) c = c"
  by (induction c) auto

lemma leaves_text:
  assumes "GetAdjustedLen (length u + 1) \<le> length u + 1 + length rest"
  shows "leaves al (Some (Some (u @ 0 # rest))) (takeWhile (\<lambda>x. x \<noteq> 0) u)"
proof (rule leavesI [OF refl])
  have "length (takeWhile (\<lambda>x. x \<noteq> 0) u) \<le> length u" by (rule length_takeWhile_le)
  then have "GetAdjustedLen (length (takeWhile (\<lambda>x. x \<noteq> 0) u) + 1) \<le> length u + 1 + length rest"
    using GetAdjustedLen_mono [of "length (takeWhile (\<lambda>x. x \<noteq> 0) u) + 1" "length u + 1"] assms by linarith
  then show "dms_ok (Some (u @ 0 # rest))" by (simp add: dms_ok_def zstr_text)
qed (simp add: str_c_def zstr_text)

text \<open>A text written to the start of a block.\<close>

lemma leaves_written:
  assumes "GetAdjustedLen (length u + 1) \<le> length b"
  shows "leaves al (do { b \<leftarrow> buf_put b 0 (u @ [0]); Some (Some b) }) (takeWhile (\<lambda>x. x \<noteq> 0) u)"
proof -
  have len: "length u + 1 \<le> length b" using GetAdjustedLen_le [of "length u + 1"] assms by linarith
  with assms leaves_text [of u "drop (length u + 1) b" al] show ?thesis by simp
qed

lemma str_append_char_leaves:
  assumes "sized al" "dms_ok s" "str_c s = Some a"
  shows "leaves al (str_append_char al c s) (if c = 0 then a else a @ [c])"
proof -
  have a0: "0 \<notin> set a" using dms_ok_c [OF assms(2)] assms(3) by auto
  have e: "(if c = 0 then a else a @ [c]) = takeWhile (\<lambda>x. x \<noteq> 0) (a @ [c])"
    using a0 by (simp add: takeWhile_tail)
  from str_buffer_ok [OF assms(2)] obtain cur where cur: "str_buffer s = Some cur"
    "\<And>k. k < cur \<Longrightarrow> \<exists>b. s = Some b \<and> GetAdjustedLen (k + 1) \<le> length b" by metis
  show ?thesis
  proof (cases "length a + 1 < cur")
    case True
    with cur(2) obtain b where b: "s = Some b" "GetAdjustedLen (length (a @ [c]) + 1) \<le> length b" by auto
    from b(1) assms(3) obtain rest where rest: "b = a @ 0 # rest" by (auto simp: str_c_def zstr_iff)
    have "length (a @ [c]) + 1 \<le> length b"
      using GetAdjustedLen_le [of "length (a @ [c]) + 1"] b(2) by linarith
    then have "buf_put b (length a) [c, 0] = buf_put b 0 ((a @ [c]) @ [0])" by (simp add: rest)
    with leaves_written [OF b(2), of al] True cur(1) assms(3) b(1) show ?thesis
      unfolding e by (simp add: str_append_char_def)
  next
    case False
    show ?thesis
    proof (cases "al (GetAdjustedLen (length a + 1 + 1))")
      case None
      with False cur(1) assms(3) show ?thesis
        using leaves_oom [of al] by (simp add: str_append_char_def)
    next
      case (Some b)
      with assms(1) have "length b = GetAdjustedLen (length (a @ [c]) + 1)" by (simp add: sized_def)
      with leaves_written [of "a @ [c]" b al] Some False cur(1) assms(3) show ?thesis
        unfolding e by (simp add: str_append_char_def)
    qed
  qed
qed

lemma buf_put_one: "i < length b \<Longrightarrow> buf_put b i [c] = Some (b[i := c])"
  by (simp add: upd_conv_take_nth_drop)

lemma str_SetAt_leaves:
  assumes "dms_ok s" "str_c s = Some a"
  shows "leaves al (str_SetAt n c s)
    (if n < 0 \<or> int (length a) \<le> n then a else takeWhile (\<lambda>x. x \<noteq> 0) (a[nat n := c]))"
  using assms(1)
proof (cases rule: dms_ok_cases)
  case (2 a' rest)
  with assms(2) have [simp]: "a' = a" by (simp add: str_c_def)
  show ?thesis
  proof (cases "n < 0 \<or> int (length a) \<le> n")
    case True
    with assms show ?thesis by (auto simp: str_SetAt_def leaves_def)
  next
    case False
    then have "nat n < length a" by auto
    then have "buf_put (a @ 0 # rest) (nat n) [c] = Some (a[nat n := c] @ 0 # rest)"
      by (simp add: buf_put_one list_update_append del: buf_put_ok)
    with False 2 leaves_text [of "a[nat n := c]" rest al] assms(2) show ?thesis
      by (simp add: str_SetAt_def)
  qed
qed (use assms in \<open>auto simp: str_SetAt_def leaves_def str_c_def\<close>)

lemma strchr_string:
  assumes "x \<noteq> 0" "0 \<notin> set c"
  shows "strchr x (c @ 0 # rest) = Some (if x \<in> set c then Some (length (takeWhile (\<lambda>y. y \<noteq> x) c)) else None)"
  using assms(2) by (induction c) (use assms(1) in auto)

lemma replace_loop_ok:
  assumes "oldCh \<noteq> 0" "newCh \<noteq> 0" "0 \<notin> set u" "0 \<notin> set c"
  shows "replace_loop oldCh newCh (length u) (u @ c @ 0 # rest) =
    Some (Some (u @ map (\<lambda>x. if x = oldCh then newCh else x) c @ 0 # rest))"
  using assms(3,4)
proof (induction "length c" arbitrary: u c rule: less_induct)
  case less
  let ?f = "\<lambda>x. if x = oldCh then newCh else x"
  show ?case
  proof (cases "oldCh \<in> set c")
    case False
    then have "map ?f c = c" by (induction c) auto
    with False less.prems show ?thesis
      by (subst replace_loop.simps) (simp add: strchr_string assms)
  next
    case True
    then obtain p q where c: "c = p @ oldCh # q" "oldCh \<notin> set p" by (blast dest: split_list_first)
    have p: "map ?f p = p" "takeWhile (\<lambda>y. y \<noteq> oldCh) c = p"
      using c by (auto simp: takeWhile_tail takeWhile_eq_all_conv intro!: map_idI)
    have nz: "0 \<notin> set (u @ p @ [newCh])" "0 \<notin> set q" "0 \<notin> set (u @ c)"
      using less.prems assms(2) c by auto
    have set: "str_SetAt (int (length u + length p)) newCh (Some (u @ c @ 0 # rest)) =
        Some (Some ((u @ p @ [newCh]) @ q @ 0 # rest))"
      using zstr_simp [OF nz(3), of rest] c
      by (simp add: str_SetAt_def str_c_def buf_put_one list_update_append nat_int_add del: buf_put_ok)
    have ih: "replace_loop oldCh newCh (Suc (length u + length p)) ((u @ p @ [newCh]) @ q @ 0 # rest) =
        Some (Some ((u @ p @ [newCh]) @ map ?f q @ 0 # rest))"
      using less.hyps [of q "u @ p @ [newCh]"] nz c by simp
    have "strchr oldCh (c @ 0 # rest) = Some (Some (length p))"
      using strchr_string [OF assms(1), of c rest] less.prems True p(2) by simp
    with ih set c p show ?thesis
      by (subst replace_loop.simps) simp
  qed
qed

declare replace_loop.simps [simp del]

lemma str_replaceAll_leaves:
  assumes "dms_ok s" "str_c s = Some a" "oldCh \<noteq> 0" "newCh \<noteq> 0"
  shows "leaves al (str_replaceAll oldCh newCh s) (map (\<lambda>x. if x = oldCh then newCh else x) a)"
  using assms(1)
proof (cases rule: dms_ok_cases)
  case (2 a' rest)
  with assms(2) have [simp]: "a' = a" by (simp add: str_c_def)
  let ?a = "map (\<lambda>x. if x = oldCh then newCh else x) a"
  have "0 \<notin> set ?a" using 2 assms(4) by auto
  with 2 replace_loop_ok [OF assms(3,4), of "[]" a rest] leaves_text [of ?a rest al] show ?thesis
    by (simp add: str_replaceAll_def)
qed (use assms in \<open>auto simp: str_replaceAll_def leaves_def str_c_def\<close>)

lemma set_drop_last_while: "set (drop_last_while P xs) \<subseteq> set xs"
  by (auto simp: drop_last_while_def dest: set_dropWhileD)

lemma length_drop_last_while: "length (drop_last_while P xs) \<le> length xs"
  using length_dropWhile_le [of P "rev xs"] by (simp add: drop_last_while_def)

text \<open>A string of blanks is left alone.\<close>

definition trimmed :: "byte list \<Rightarrow> byte list" where
  "trimmed a = (let rest = dropWhile (\<lambda>c. c = 0x20) a in
     if rest = [] then a else drop_last_while (\<lambda>c. c = 0x20) rest)"

lemma str_trim_leaves:
  assumes "dms_ok s" "str_c s = Some a"
  shows "leaves al (str_trim s) (trimmed a)"
  using assms(1)
proof (cases rule: dms_ok_cases)
  case (2 a' rest)
  with assms(2) have [simp]: "a' = a" by (simp add: str_c_def)
  let ?r = "dropWhile (\<lambda>c. c = 0x20) a"
  let ?u = "drop_last_while (\<lambda>c. c = 0x20) ?r"
  show ?thesis
  proof (cases "?r = []")
    case True
    with assms 2 show ?thesis by (auto simp: str_trim_def leaves_def trimmed_def Let_def)
  next
    case False
    have "length ?u \<le> length a"
      using length_drop_last_while length_dropWhile_le le_trans by blast
    then have "GetAdjustedLen (length ?u + 1) \<le> length (a @ 0 # rest)"
      using GetAdjustedLen_mono [of "length ?u + 1" "length a + 1"] 2(3) by simp
    moreover have "0 \<notin> set ?u" using set_drop_last_while 2(2) by (fastforce dest: set_dropWhileD)
    ultimately show ?thesis
      using leaves_written [of ?u "a @ 0 # rest" al] False assms(2) 2(1)
      by (simp add: str_trim_def trimmed_def Let_def del: dropWhile_eq_Nil_conv)
  qed
qed (use assms in \<open>auto simp: str_trim_def leaves_def str_c_def trimmed_def\<close>)

lemma str_AllocateBuffer_leaves:
  assumes "sized al" "dms_ok s" "str_c s = Some a"
  shows "leaves al (str_AllocateBuffer al n s) (if n \<le> GetAdjustedLen (length a + 1) then a else [])"
proof (cases "str_buffer s")
  case None
  with str_buffer_ok [OF assms(2)] show ?thesis by auto
next
  case (Some cur)
  then have cur: "cur = (if s = None then 0 else GetAdjustedLen (length a + 1))"
    using assms(3) by (auto simp: str_buffer_def str_length_def split: option.splits)
  show ?thesis
  proof (cases "n \<le> cur")
    case True
    then have "n \<le> GetAdjustedLen (length a + 1)" using cur by (auto split: if_splits)
    with True Some assms show ?thesis by (auto simp: str_AllocateBuffer_def leaves_def)
  next
    case False
    then have v: "(if n \<le> GetAdjustedLen (length a + 1) then a else []) = []"
      using cur assms(3) by (cases s) (auto simp: str_c_def)
    show ?thesis
    proof (cases "al (GetAdjustedLen n)")
      case None
      with False Some show ?thesis using leaves_oom [of al] by (simp add: str_AllocateBuffer_def)
    next
      case (Some b)
      with assms(1) have "length b = GetAdjustedLen n" by (simp add: sized_def)
      then have "GetAdjustedLen (length ([]::byte list) + 1) \<le> length b"
        using False GetAdjustedLen_mono [of 1 n] by simp
      from leaves_written [OF this, of al] Some False \<open>str_buffer s = Some cur\<close> show ?thesis
        unfolding v by (simp add: str_AllocateBuffer_def)
    qed
  qed
qed

lemma last_pos_bound: "last_pos x c = Some i \<Longrightarrow> i < length c"
  by (induction c arbitrary: i) (auto split: option.splits if_splits)

text \<open>What stands before the last separator; without a separator nothing is left.\<close>

definition before_last :: "byte \<Rightarrow> byte list \<Rightarrow> byte list" where
  "before_last x c = (case last_pos x c of None \<Rightarrow> [] | Some i \<Rightarrow> take i c)"

lemma str_RemoveSufix_leaves:
  assumes "sized al" "dms_ok s" "zstr m = Some c"
  shows "leaves al (str_RemoveSufix al (Some m) x s) (before_last x c)"
proof -
  let ?n = "case last_pos x c of None \<Rightarrow> 0 | Some i \<Rightarrow> int i"
  have "str_RemoveSufix al (Some m) x s = map_option snd (str_assign al (Some m) ?n s)"
    using assms(3) by (cases "str_assign al (Some m) ?n s") (auto simp: str_RemoveSufix_def strrchr_def)
  moreover have "take (nat ?n) c = before_last x c" by (simp add: before_last_def split: option.split)
  ultimately show ?thesis using str_assign_leaves [OF assms, of ?n] by simp
qed

lemma hex_digit_nonzero: "hex_digit c \<noteq> 0"
proof -
  have "unat (c AND 0xF) < 16" using word_and_le1 [of c 15] by (simp add: word_le_nat_alt)
  then have "unat (c AND 0xF) \<in> set [0..<16]" by simp
  moreover have "\<forall>i\<in>set [0..<16]. bytes_of ''0123456789ABCDEF'' ! i \<noteq> 0" by code_simp
  ultimately show ?thesis unfolding hex_digit_def by blast
qed

lemma uri_encode_nonzero: "0 \<notin> set c \<Longrightarrow> 0 \<notin> set (uri_encode c)"
  by (induction c) (auto simp: hex_digit_nonzero [symmetric])

lemma length_uri_encode: "length (uri_encode c) \<le> 3 * length c"
  by (induction c) auto

text \<open>Encoding that finds no memory leaves the string as it is and reports it.\<close>

lemma str_Encode_leaves:
  assumes "sized al" "dms_ok s" "str_c s = Some a"
  shows "leaves al (map_option snd (str_Encode al s)) (uri_encode a)"
  using assms(2)
proof (cases rule: dms_ok_cases)
  case 1
  with assms show ?thesis by (auto simp: str_Encode_def leaves_def str_c_def)
next
  case (2 a' rest)
  with assms(3) have [simp]: "a' = a" by (simp add: str_c_def)
  let ?n = "GetAdjustedLen (length a * 3 + 1)"
  show ?thesis
  proof (cases "al ?n")
    case None
    with 2 assms(2) show ?thesis using leaves_fails [of al, OF None] by (simp add: str_Encode_def)
  next
    case (Some b)
    with assms(1) have "length b = ?n" by (simp add: sized_def)
    then have "GetAdjustedLen (length (uri_encode a) + 1) \<le> length b"
      using GetAdjustedLen_mono [of "length (uri_encode a) + 1" "length a * 3 + 1"] length_uri_encode [of a] by simp
    from leaves_written [OF this, of al] uri_encode_nonzero [of a] Some 2
    have "leaves al (do { b \<leftarrow> buf_put b 0 (uri_encode a @ [0]); Some (Some b) }) (uri_encode a)" by simp
    moreover have "map_option snd (str_Encode al s) = (do { b \<leftarrow> buf_put b 0 (uri_encode a @ [0]); Some (Some b) })"
      using Some 2 by (cases "buf_put b 0 (uri_encode a @ [0])") (simp_all add: str_Encode_def)
    ultimately show ?thesis by simp
  qed
qed

section \<open>A string in use\<close>

text \<open>The calls on one string; the sources are the memory behind the pointers passed.\<close>

datatype str_call =
    Assign "byte list option" int
  | Set "byte list option"
  | Append "byte list option"
  | AppendChar byte
  | SetAt int byte
  | ReplaceAll byte byte
  | Trim
  | AllocateBuffer nat
  | RemoveSufix "byte list option" byte
  | Encode
  | Clear

fun str_do :: "allocator \<Rightarrow> str_call \<Rightarrow> dmstring \<Rightarrow> dmstring option" where
  "str_do al (Assign p n) s = map_option snd (str_assign al p n s)"
| "str_do al (Set p) s = str_set al p s"
| "str_do al (Append p) s = str_append al p s"
| "str_do al (AppendChar c) s = str_append_char al c s"
| "str_do al (SetAt n c) s = str_SetAt n c s"
| "str_do al (ReplaceAll x y) s = str_replaceAll x y s"
| "str_do al Trim s = str_trim s"
| "str_do al (AllocateBuffer n) s = str_AllocateBuffer al n s"
| "str_do al (RemoveSufix p x) s = str_RemoveSufix al p x s"
| "str_do al Encode s = map_option snd (str_Encode al s)"
| "str_do al Clear s = Some None"

fun str_run :: "allocator \<Rightarrow> str_call list \<Rightarrow> dmstring \<Rightarrow> dmstring option" where
  "str_run al [] s = Some s"
| "str_run al (c # cs) s = do { s \<leftarrow> str_do al c s; str_run al cs s }"

text \<open>A source is \<open>NULL\<close> or a terminated string; \<open>replaceAll\<close> is about characters, not the end of the string.\<close>

definition readable :: "byte list option \<Rightarrow> bool" where
  "readable p \<longleftrightarrow> (case p of None \<Rightarrow> True | Some m \<Rightarrow> zstr m \<noteq> None)"

fun call_ok :: "str_call \<Rightarrow> bool" where
  "call_ok (Assign p n) = readable p"
| "call_ok (Set p) = readable p"
| "call_ok (Append p) = readable p"
| "call_ok (ReplaceAll x y) = (x \<noteq> 0 \<and> y \<noteq> 0)"
| "call_ok (RemoveSufix p x) = readable p"
| "call_ok _ = True"

text \<open>The calls on values.\<close>

definition text_of :: "byte list option \<Rightarrow> byte list" where
  "text_of p = (case p of None \<Rightarrow> [] | Some m \<Rightarrow> (case zstr m of None \<Rightarrow> [] | Some c \<Rightarrow> c))"

fun str_value :: "str_call \<Rightarrow> byte list \<Rightarrow> byte list" where
  "str_value (Assign p n) a = take (nat n) (text_of p)"
| "str_value (Set p) a = text_of p"
| "str_value (Append p) a = a @ text_of p"
| "str_value (AppendChar c) a = (if c = 0 then a else a @ [c])"
| "str_value (SetAt n c) a =
     (if n < 0 \<or> int (length a) \<le> n then a else takeWhile (\<lambda>x. x \<noteq> 0) (a[nat n := c]))"
| "str_value (ReplaceAll x y) a = map (\<lambda>z. if z = x then y else z) a"
| "str_value Trim a = trimmed a"
| "str_value (AllocateBuffer n) a = (if n \<le> GetAdjustedLen (length a + 1) then a else [])"
| "str_value (RemoveSufix p x) a = (case p of None \<Rightarrow> a | Some m \<Rightarrow> before_last x (text_of p))"
| "str_value Encode a = uri_encode a"
| "str_value Clear a = []"

lemma str_set_leaves:
  assumes "sized al" "dms_ok s" "readable p"
  shows "leaves al (str_set al p s) (text_of p)"
proof (cases p)
  case None
  then show ?thesis by (auto simp: str_set_def str_assign_def leaves_def str_c_def text_of_def)
next
  case (Some m)
  with assms(3) obtain c where c: "zstr m = Some c" by (auto simp: readable_def)
  then have "str_set al p s = map_option snd (str_assign al (Some m) (int (length c)) s)"
    using Some by (cases "str_assign al (Some m) (int (length c)) s") (auto simp: str_set_def)
  with str_assign_leaves [OF assms(1,2) c, of "int (length c)"] c Some show ?thesis
    by (simp add: text_of_def)
qed

lemma str_do_leaves:
  assumes "sized al" "dms_ok s" "str_c s = Some a" "call_ok k"
  shows "leaves al (str_do al k s) (str_value k a)"
proof (cases k)
  case (Assign p n)
  show ?thesis
  proof (cases p)
    case None
    with Assign show ?thesis by (auto simp: str_assign_def leaves_def str_c_def text_of_def)
  next
    case (Some m)
    with assms(4) Assign obtain c where "zstr m = Some c" by (auto simp: readable_def)
    with str_assign_leaves [OF assms(1,2), of m c n] Assign Some show ?thesis by (simp add: text_of_def)
  qed
next
  case (Append p)
  have "case p of None \<Rightarrow> text_of p = [] | Some m \<Rightarrow> zstr m = Some (text_of p)"
    using assms(4) Append by (auto simp: readable_def text_of_def split: option.splits)
  with str_append_leaves [OF assms(1-3)] Append show ?thesis by simp
next
  case (RemoveSufix p x)
  show ?thesis
  proof (cases p)
    case None
    with RemoveSufix assms show ?thesis by (auto simp: str_RemoveSufix_def leaves_def)
  next
    case (Some m)
    with assms(4) RemoveSufix obtain c where "zstr m = Some c" by (auto simp: readable_def)
    with str_RemoveSufix_leaves [OF assms(1,2), of m c x] RemoveSufix Some show ?thesis by (simp add: text_of_def)
  qed
next
  case (AllocateBuffer n)
  with str_AllocateBuffer_leaves [OF assms(1-3), of n] show ?thesis by simp
qed (use assms in \<open>simp_all add: str_set_leaves str_append_char_leaves str_SetAt_leaves
  str_replaceAll_leaves str_trim_leaves str_Encode_leaves
  leaves_def [of _ "Some None"] str_c_def [of None]\<close>)



section \<open>Decoding what was encoded\<close>

lemma HexDigit2N_hex:
  "HexDigit2N (hex_digit c) = Some (c AND 0xF)"
proof -
  have "unat (c AND 0xF) < 16" using word_and_le1 [of c 15] by (simp add: word_le_nat_alt)
  then have "unat (c AND 0xF) \<in> set [0..<16]" by simp
  moreover have "\<forall>i\<in>set [0..<16]. HexDigit2N (bytes_of ''0123456789ABCDEF'' ! i) = Some (of_nat i)"
    by code_simp
  ultimately have "HexDigit2N (bytes_of ''0123456789ABCDEF'' ! unat (c AND 0xF)) = Some (of_nat (unat (c AND 0xF)))"
    by blast
  then show ?thesis by (simp add: hex_digit_def)
qed

lemma low_nibble: "(c::byte) AND 0xF = take_bit 4 c"
  by (simp add: take_bit_eq_mask mask_eq_exp_minus_1)

lemma byte_nibbles: "push_bit 4 (drop_bit 4 c AND 0xF) + (c AND 0xF) = (c::byte)"
proof -
  have "take_bit 4 (drop_bit 4 c) = drop_bit 4 c"
    by (rule bit_word_eqI) (auto simp: bit_simps dest: bit_imp_le_length)
  then show ?thesis by (simp add: low_nibble bits_ident)
qed

lemma byte_at_append [simp]: "byte_at (u @ c # v) (length u) = Some c"
  by (simp add: byte_at_def)

text \<open>
  The decoder in the middle of an encoded string: what it has written, the rest of the block up to
  the source pointer, and what is still to be read.
\<close>

lemma decode_loop_encoded:
  assumes "0 \<notin> set c"
  shows "\<exists>v. decode_loop (u @ w @ uri_encode c @ 0 # rest) (length (u @ w)) (length u) =
    Some (True, u @ c @ 0 # v) \<and> length (u @ c @ 0 # v) = length (u @ w @ uri_encode c @ 0 # rest)"
  using assms
proof (induction c arbitrary: u w)
  case Nil
  have "byte_at (u @ w @ 0 # rest) (length (u @ w)) = Some 0"
    using byte_at_append [of "u @ w" 0 rest] by simp
  then show ?case
    by (subst decode_loop.simps)
      (cases w, simp_all add: buf_put_one list_update_append del: buf_put_ok)
next
  case (Cons x c)
  show ?case
  proof (cases "uri_plain x")
    case True
    then have x: "x \<noteq> 0" "x \<noteq> 0x25" "x \<noteq> 0x5C" by (auto simp: uri_plain_def)
    let ?b = "u @ w @ x # uri_encode c @ 0 # rest"
    have at: "byte_at ?b (length (u @ w)) = Some x"
      using byte_at_append [of "u @ w" x] by simp
    obtain w' where w': "?b[length u := x] = (u @ [x]) @ w' @ uri_encode c @ 0 # rest" "length w' = length w"
    proof (cases w)
      case Nil
      then show thesis by (intro that [of "[]"]) (simp_all add: list_update_append)
    next
      case (Cons y w1)
      then show thesis by (intro that [of "w1 @ [x]"]) (simp_all add: list_update_append)
    qed
    from Cons.IH [of "u @ [x]" w'] Cons.prems obtain v
      where "decode_loop ((u @ [x]) @ w' @ uri_encode c @ 0 # rest) (length ((u @ [x]) @ w')) (length (u @ [x])) =
        Some (True, (u @ [x]) @ c @ 0 # v)"
        "length ((u @ [x]) @ c @ 0 # v) = length ((u @ [x]) @ w' @ uri_encode c @ 0 # rest)" by auto
    with at x w' True show ?thesis
      by (subst decode_loop.simps) simp
  next
    case False
    let ?h = "hex_digit (drop_bit 4 x)" and ?l = "hex_digit x"
    let ?b = "u @ w @ 0x25 # ?h # ?l # uri_encode c @ 0 # rest"
    have at: "byte_at ?b (length (u @ w)) = Some 0x25"
      "byte_at ?b (length (u @ w) + 1) = Some ?h" "byte_at ?b (length (u @ w) + 1 + 1) = Some ?l"
      using byte_at_append [of "u @ w" "0x25"] byte_at_append [of "u @ w @ [0x25]" ?h]
        byte_at_append [of "u @ w @ [0x25, ?h]" ?l] by simp_all
    have n: "push_bit 4 (drop_bit 4 x AND 0xF) + (x AND 0xF) = x" by (rule byte_nibbles)
    obtain w' where w': "?b[length u := x] = (u @ [x]) @ w' @ uri_encode c @ 0 # rest" "length w' = length w + 2"
    proof (cases w)
      case Nil
      then show thesis by (intro that [of "[?h, ?l]"]) (simp_all add: list_update_append)
    next
      case (Cons y w1)
      then show thesis by (intro that [of "w1 @ [0x25, ?h, ?l]"]) (simp_all add: list_update_append)
    qed
    from Cons.IH [of "u @ [x]" w'] Cons.prems obtain v
      where "decode_loop ((u @ [x]) @ w' @ uri_encode c @ 0 # rest) (length ((u @ [x]) @ w')) (length (u @ [x])) =
        Some (True, (u @ [x]) @ c @ 0 # v)"
        "length ((u @ [x]) @ c @ 0 # v) = length ((u @ [x]) @ w' @ uri_encode c @ 0 # rest)" by auto
    with at w' n False show ?thesis
      by (subst decode_loop.simps) (simp add: HexDigit2N_hex)
  qed
qed



text \<open>
  A backslash at the end of a string: the decoder steps over the terminating zero and decodes what
  happens to lie behind it. In a block without anything behind it, it leaves the block.
\<close>

lemma Decode_after_the_end:
  "str_Decode (Some [0x5C, 0, 0x34, 0x31, 0]) = Some (True, Some [0x41, 0, 0x34, 0x31, 0])"
  "str_Decode (Some [0x5C, 0]) = None"
  by (simp_all add: str_Decode_def decode_loop.simps byte_at_def HexDigit2N_def)

text \<open>A string of blanks is not trimmed, and a path without a separator has no prefix.\<close>

lemma trim_blanks: "trimmed (replicate n 0x20) = replicate n 0x20"
  by (simp add: trimmed_def Let_def)

lemma RemoveSufix_no_separator: "x \<notin> set c \<Longrightarrow> before_last x c = []"
proof -
  assume "x \<notin> set c"
  then have "last_pos x c = None" by (induction c) auto
  then show ?thesis by (simp add: before_last_def)
qed

end
