(* ===== verification/Dm_Token.thy ===== *)
theory Dm_Token
  imports Dm_String
begin

text \<open>
  Paths: the tokenizers \<open>DMToken\<close>, \<open>DMURI\<close> and \<open>DMParser\<close> of \<open>dmtoken.cc\<close> and the helpers of
  \<open>dm_uri_utils.cc\<close>. The tokenizers do not copy: they cut the caller's string by writing zeros over
  its delimiters and put the delimiters back later. A tokenizer is modelled with the memory that its
  string lives in; pointers into the string are positions.
\<close>

section \<open>Tokenizers\<close>

record DMToken =
  tk_str :: "byte list option"
  tk_tok :: nat
  tk_delim :: "nat option"
  tk_char :: byte

definition strchr_at :: "byte list \<Rightarrow> nat \<Rightarrow> byte \<Rightarrow> nat option option" where
  "strchr_at m pos c = do { r \<leftarrow> strchr c (drop pos m); Some (map_option (\<lambda>i. pos + i) r) }"

text \<open>
  The constructor with a string. A tokenizer of its own (\<open>bIsAlloc\<close>) works on a copy, and has no
  string when the copy cannot be made or the string is empty; the other kind works on the string itself.
\<close>

definition DMToken_new :: "bool \<Rightarrow> allocator \<Rightarrow> byte list option \<Rightarrow> byte \<Rightarrow> DMToken option" where
  "DMToken_new bIsAlloc al str delimeter = do {
     m \<leftarrow> (if bIsAlloc then
             (case str of None \<Rightarrow> Some None
              | Some m \<Rightarrow> do {
                  s \<leftarrow> zstr m;
                  if s = [] then Some None
                  else (case al (length s + 1) of None \<Rightarrow> Some None
                        | Some b \<Rightarrow> do { b \<leftarrow> buf_put b 0 (s @ [0]); Some (Some b) }) })
           else Some str);
     Some \<lparr> tk_str = m, tk_tok = 0, tk_delim = map_option (\<lambda>_. 0) m, tk_char = delimeter \<rparr> }"

definition nextSegment :: "DMToken \<Rightarrow> (nat option \<times> DMToken) option" where
  "nextSegment t =
     (case tk_delim t of
        None \<Rightarrow> Some (None, t)
      | Some d \<Rightarrow> (case tk_str t of
          None \<Rightarrow> None
        | Some m \<Rightarrow> do {
            (m, tok) \<leftarrow> (if d \<noteq> 0 then do { m \<leftarrow> buf_put m d [tk_char t]; Some (m, d + 1) }
                         else Some (m, tk_tok t));
            r \<leftarrow> strchr_at m tok (tk_char t);
            m \<leftarrow> (case r of None \<Rightarrow> Some m | Some p \<Rightarrow> buf_put m p [0]);
            c \<leftarrow> byte_at m tok;
            Some (if c = 0 then None else Some tok, t\<lparr>tk_str := Some m, tk_tok := tok, tk_delim := r\<rparr>) }))"

text \<open>\<open>reset\<close>, which the destructor of a tokenizer without a copy calls as well.\<close>

definition token_reset :: "DMToken \<Rightarrow> DMToken option" where
  "token_reset t = do {
     m \<leftarrow> (case tk_delim t of
             None \<Rightarrow> Some (tk_str t)
           | Some d \<Rightarrow> if d = 0 then Some (tk_str t)
                       else (case tk_str t of None \<Rightarrow> None
                             | Some m \<Rightarrow> do { m \<leftarrow> buf_put m d [tk_char t]; Some (Some m) }));
     Some (t\<lparr>tk_str := m, tk_tok := 0, tk_delim := map_option (\<lambda>_. 0) m\<rparr>) }"

function count_loop :: "byte list \<Rightarrow> byte \<Rightarrow> nat \<Rightarrow> nat \<Rightarrow> (nat \<times> nat) option" where
  "count_loop m c tok count = do {
     r \<leftarrow> strchr_at m tok c;
     (case r of
        None \<Rightarrow> Some (tok, count)
      | Some p \<Rightarrow> if tok \<le> p \<and> p < length m then count_loop m c (p + 1) (count + 1) else None) }"
  by pat_completeness auto
termination by (relation "measure (\<lambda>(m, c, tok, count). length m - tok)") auto

definition getSegmentsCount :: "DMToken \<Rightarrow> (nat \<times> DMToken) option" where
  "getSegmentsCount t =
     (case tk_str t of
        None \<Rightarrow> Some (0, t)
      | Some _ \<Rightarrow> do {
          t \<leftarrow> token_reset t;
          m \<leftarrow> tk_str t;
          (tok, count) \<leftarrow> count_loop m (tk_char t) 0 0;
          c \<leftarrow> byte_at m tok;
          if c = 0 then Some (count, t\<lparr>tk_tok := tok, tk_delim := None\<rparr>)
          else Some (count + 1, t\<lparr>tk_tok := 0, tk_delim := Some 0\<rparr>) })"

definition getTailSegments :: "DMToken \<Rightarrow> nat option option" where
  "getTailSegments t =
     (case tk_delim t of
        None \<Rightarrow> Some None
      | Some d \<Rightarrow> (case tk_str t of
          None \<Rightarrow> None
        | Some m \<Rightarrow> do {
            c \<leftarrow> byte_at m 0;
            Some (Some (if d = 0 \<and> c \<noteq> 0x2F then 0 else d + 1)) }))"

definition getLastSegment :: "DMToken \<Rightarrow> (nat option \<times> DMToken) option" where
  "getLastSegment t =
     (case tk_str t of
        None \<Rightarrow> Some (None, t)
      | Some _ \<Rightarrow> do {
          t \<leftarrow> token_reset t;
          m \<leftarrow> tk_str t;
          sPos \<leftarrow> strrchr (tk_char t) m;
          Some (map_option Suc sPos, t) })"

text \<open>Whether there is a parent, which the string is cut down to then.\<close>

definition getParentURI :: "DMToken \<Rightarrow> (bool \<times> DMToken) option" where
  "getParentURI t =
     (case tk_str t of
        None \<Rightarrow> Some (False, t)
      | Some m \<Rightarrow> do {
          r \<leftarrow> strrchr 0x2F m;
          (case r of
             None \<Rightarrow> Some (False, t)
           | Some i \<Rightarrow>
               if i = 0 then Some (False, t)
               else do {
                 m \<leftarrow> buf_put m i [0];
                 m \<leftarrow> (case tk_delim t of
                         None \<Rightarrow> None
                       | Some prev \<Rightarrow> if prev \<noteq> 0 then buf_put m prev [0x2F] else Some m);
                 Some (True, t\<lparr>tk_str := Some m, tk_delim := Some i\<rparr>) }) })"

text \<open>The loop of all users: the segments up to the first \<open>NULL\<close>, with the tokenizer afterwards.\<close>

fun token_all :: "nat \<Rightarrow> DMToken \<Rightarrow> (byte list list \<times> DMToken) option" where
  "token_all 0 t = None"
| "token_all (Suc n) t = do {
     (r, t) \<leftarrow> nextSegment t;
     (case r of
        None \<Rightarrow> Some ([], t)
      | Some p \<Rightarrow> do {
          m \<leftarrow> tk_str t;
          s \<leftarrow> zstr (drop p m);
          (ss, t) \<leftarrow> token_all n t;
          Some (s # ss, t) }) }"

section \<open>The parser with a table of segments\<close>

text \<open>\<open>ps_room\<close> is the size of the table, the greatest path depth of the tree; \<open>None\<close> is no table.\<close>

record DMParser =
  ps_str :: "byte list option"
  ps_char :: byte
  ps_room :: "nat option"
  ps_segments :: "(nat \<times> nat) list"
  ps_cur :: nat

function parse_loop :: "nat \<Rightarrow> byte list \<Rightarrow> byte \<Rightarrow> nat \<Rightarrow> (nat \<times> nat) list \<Rightarrow> (nat \<times> (nat \<times> nat) list) option" where
  "parse_loop room m c tok segs = do {
     r \<leftarrow> strchr_at m tok c;
     (case r of
        None \<Rightarrow> Some (tok, segs)
      | Some p \<Rightarrow>
          if tok \<le> p \<and> p < length m \<and> length segs < room
          then parse_loop room m c (p + 1) (segs @ [(tok, p - tok)]) else None) }"
  by pat_completeness auto
termination by (relation "measure (\<lambda>(room, m, c, tok, segs). length m - tok)") auto

definition DMParser_new :: "nat option \<Rightarrow> byte list option \<Rightarrow> byte \<Rightarrow> DMParser option" where
  "DMParser_new room str delimeter =
     (let p = \<lparr> ps_str = None, ps_char = delimeter, ps_room = room, ps_segments = [], ps_cur = 0 \<rparr> in
      (case room of
         None \<Rightarrow> Some p
       | Some n \<Rightarrow> (case str of
           None \<Rightarrow> Some p
         | Some m \<Rightarrow> do {
             (tok, segs) \<leftarrow> parse_loop n m delimeter 0 [];
             s \<leftarrow> zstr (drop tok m);
             if s = [] then Some (p\<lparr>ps_str := Some m, ps_segments := segs\<rparr>)
             else if length segs < n
             then Some (p\<lparr>ps_str := Some m, ps_segments := segs @ [(tok, length s)]\<rparr>)
             else None })))"

definition cut_segment :: "DMParser \<Rightarrow> nat \<Rightarrow> byte \<Rightarrow> DMParser option" where
  "cut_segment p i c =
     (case ps_str p of None \<Rightarrow> None
      | Some m \<Rightarrow> if i < length (ps_segments p)
                  then do { m \<leftarrow> buf_put m (fst (ps_segments p ! i) + snd (ps_segments p ! i)) [c];
                            Some (p\<lparr>ps_str := Some m\<rparr>) }
                  else None)"

definition parser_next :: "DMParser \<Rightarrow> (nat option \<times> DMParser) option" where
  "parser_next p =
     (if ps_cur p = length (ps_segments p) then Some (None, p)
      else do {
        p' \<leftarrow> cut_segment p (ps_cur p) 0;
        Some (Some (fst (ps_segments p ! ps_cur p)), p'\<lparr>ps_cur := ps_cur p + 1\<rparr>) })"

fun restore_segments :: "nat \<Rightarrow> DMParser \<Rightarrow> DMParser option" where
  "restore_segments 0 p = Some p"
| "restore_segments (Suc n) p = do { p \<leftarrow> restore_segments n p; cut_segment p n (ps_char p) }"

definition parser_reset :: "DMParser \<Rightarrow> DMParser option" where
  "parser_reset p =
     (if ps_room p = None then Some p
      else do {
        p \<leftarrow> (if 0 < ps_cur p then restore_segments (length (ps_segments p) - 1) p else Some p);
        Some (p\<lparr>ps_cur := 0\<rparr>) })"

section \<open>Helpers on paths\<close>

text \<open>\<open>DmStringParserGetItem\<close> on the values of the two strings.\<close>

definition DmStringParserGetItem :: "byte \<Rightarrow> byte list \<Rightarrow> byte list \<Rightarrow> bool \<times> byte list \<times> byte list" where
  "DmStringParserGetItem cDelim strItem strReminder =
     (if strReminder = [] then (False, strItem, strReminder)
      else if cDelim \<in> set strReminder
      then (True, takeWhile (\<lambda>c. c \<noteq> cDelim) strReminder, tl (dropWhile (\<lambda>c. c \<noteq> cDelim) strReminder))
      else (True, strReminder, []))"

lemma get_item_shorter:
  "DmStringParserGetItem cDelim i s = (True, x, s') \<Longrightarrow> length s' < length s"
proof -
  assume "DmStringParserGetItem cDelim i s = (True, x, s')"
  then have s: "s \<noteq> []" "s' = tl (dropWhile (\<lambda>c. c \<noteq> cDelim) s) \<or> s' = []"
    by (auto simp: DmStringParserGetItem_def split: if_splits)
  have "length (tl (dropWhile (\<lambda>c. c \<noteq> cDelim) s)) < length s"
    using s(1) length_dropWhile_le [of "\<lambda>c. c \<noteq> cDelim" s] length_greater_0_conv [of s]
    unfolding length_tl by linarith
  with s show "length s' < length s" by auto
qed

text \<open>The loop over all items, as \<open>DmStrToStringVector\<close> runs it.\<close>

function DmStrToStringVector :: "byte \<Rightarrow> byte list \<Rightarrow> byte list list" where
  "DmStrToStringVector cDelim strList =
     (case DmStringParserGetItem cDelim [] strList of
        (r, strChild, strList') \<Rightarrow> if r then strChild # DmStrToStringVector cDelim strList' else [])"
  by pat_completeness auto
termination by (relation "measure (\<lambda>(c, s). length s)") (auto intro: get_item_shorter dest: sym)

declare DmStrToStringVector.simps [simp del]

text \<open>\<open>DmParseURI\<close>: the node and its property; without a slash nothing is assigned.\<close>

definition DmParseURI :: "byte list \<Rightarrow> byte list \<times> byte list \<Rightarrow> byte list \<times> byte list" where
  "DmParseURI szPath out =
     (case last_pos 0x2F szPath of
        None \<Rightarrow> out
      | Some i \<Rightarrow> (take i szPath, takeWhile (\<lambda>c. c \<noteq> 0x3F) (drop (i + 1) szPath)))"

text \<open>\<open>GetStringSegment\<close> cuts the first segment off; the position of the rest is \<open>None\<close> for \<open>NULL\<close>.\<close>

definition GetStringSegment :: "byte list \<Rightarrow> nat option \<Rightarrow> byte \<Rightarrow> (nat option \<times> nat option \<times> byte list) option" where
  "GetStringSegment m ppbURI cDelim =
     (case ppbURI of
        None \<Rightarrow> Some (None, None, m)
      | Some p \<Rightarrow> do {
          r \<leftarrow> strchr_at m p cDelim;
          (case r of
             None \<Rightarrow> Some (Some p, None, m)
           | Some q \<Rightarrow> do { m \<leftarrow> buf_put m q [0]; Some (Some p, Some (q + 1), m) }) })"

text \<open>
  \<open>DmIsParentURI\<close>: two parsers on the two strings; \<open>roomP\<close> and \<open>roomC\<close> are the outcomes of the
  allocation of their tables. The destructors of the parsers restore the strings.
\<close>

definition segment_text :: "DMParser \<Rightarrow> nat \<Rightarrow> byte list option" where
  "segment_text p i = (case ps_str p of None \<Rightarrow> None | Some m \<Rightarrow> zstr (drop i m))"

fun compare_loop :: "nat \<Rightarrow> nat option \<Rightarrow> nat option \<Rightarrow> DMParser \<Rightarrow> DMParser \<Rightarrow> (bool \<times> DMParser \<times> DMParser) option" where
  "compare_loop 0 sP sC p c = None"
| "compare_loop (Suc n) sP sC p c =
     (case (sP, sC) of
        (Some i, Some j) \<Rightarrow> do {
          tP \<leftarrow> segment_text p i;
          tC \<leftarrow> segment_text c j;
          if take 1 tP \<noteq> [0x2A] \<and> take 1 tC \<noteq> [0x2A] \<and> tC \<noteq> tP then Some (False, p, c)
          else do {
            (sP, p) \<leftarrow> parser_next p;
            (sC, c) \<leftarrow> parser_next c;
            compare_loop n sP sC p c } }
      | _ \<Rightarrow> Some (True, p, c))"

definition DmIsParentURI :: "nat option \<Rightarrow> nat option \<Rightarrow> byte list option \<Rightarrow> byte list option \<Rightarrow>
    (bool \<times> byte list option \<times> byte list option) option" where
  "DmIsParentURI roomP roomC szParentURI szChildURI = do {
     p \<leftarrow> DMParser_new roomP szParentURI 0x2F;
     c \<leftarrow> DMParser_new roomC szChildURI 0x2F;
     (sP, p) \<leftarrow> parser_next p;
     (sC, c) \<leftarrow> parser_next c;
     let countP = length (ps_segments p);
     let countC = length (ps_segments c);
     (r, p, c) \<leftarrow> (if countP = 0 then Some (True, p, c)
                    else if countC < countP then Some (False, p, c)
                    else compare_loop (Suc countP) sP sC p c);
     c \<leftarrow> parser_reset c;
     p \<leftarrow> parser_reset p;
     Some (r, if ps_str p = None then szParentURI else ps_str p,
              if ps_str c = None then szChildURI else ps_str c) }"

section \<open>Segments\<close>

text \<open>A string split at its delimiters; it has one segment more than delimiters.\<close>

fun split_at :: "byte \<Rightarrow> byte list \<Rightarrow> byte list list" where
  "split_at d [] = [[]]"
| "split_at d (c # s) =
     (if c = d then [] # split_at d s
      else (case split_at d s of [] \<Rightarrow> [] | x # xs \<Rightarrow> (c # x) # xs))"

lemma split_at_not_Nil [simp]: "split_at d s \<noteq> []"
  by (induction s) (auto split: list.split)

lemma split_at_no_delim [simp]: "d \<notin> set s \<Longrightarrow> split_at d s = [s]"
  by (induction s) auto

lemma split_at_append [simp]: "d \<notin> set p \<Longrightarrow> split_at d (p @ d # q) = p # split_at d q"
  by (induction p) auto

text \<open>What the loops over \<open>nextSegment\<close> see: an empty segment ends them.\<close>

definition token_segments :: "byte \<Rightarrow> byte list \<Rightarrow> byte list list" where
  "token_segments d s = takeWhile (\<lambda>x. x \<noteq> []) (split_at d s)"

text \<open>What the parser stores: all segments but an empty last one.\<close>

definition parser_segments :: "byte \<Rightarrow> byte list \<Rightarrow> byte list list" where
  "parser_segments d s = (if last (split_at d s) = [] then butlast (split_at d s) else split_at d s)"

lemma split_cases:
  obtains "d \<notin> set s" | p q where "s = p @ d # q" "d \<notin> set p"
  by (meson split_list_first)

lemma strchr_at_string:
  assumes "d \<noteq> 0" "0 \<notin> set v" "pos = length u"
  shows "strchr_at (u @ v @ 0 # rest) pos d =
    Some (if d \<in> set v then Some (pos + length (takeWhile (\<lambda>y. y \<noteq> d) v)) else None)"
  using assms by (simp add: strchr_at_def strchr_string)

lemma takeWhile_delim [simp]: "d \<notin> set p \<Longrightarrow> takeWhile (\<lambda>y. y \<noteq> d) (p @ d # q) = p"
  by (auto simp: takeWhile_tail takeWhile_eq_all_conv)

section \<open>Iterating over segments\<close>

text \<open>A tokenizer in the middle of its string: \<open>u\<close> is done, and its delimiter is cut out.\<close>

definition token_at :: "byte \<Rightarrow> byte list \<Rightarrow> byte list \<Rightarrow> byte list \<Rightarrow> nat \<Rightarrow> DMToken" where
  "token_at d u v rest tok =
     \<lparr> tk_str = Some (u @ 0 # v @ 0 # rest), tk_tok = tok, tk_delim = Some (length u), tk_char = d \<rparr>"

definition token_end :: "byte \<Rightarrow> byte list \<Rightarrow> byte list \<Rightarrow> nat \<Rightarrow> DMToken" where
  "token_end d s rest tok =
     \<lparr> tk_str = Some (s @ 0 # rest), tk_tok = tok, tk_delim = None, tk_char = d \<rparr>"

definition token_start :: "byte \<Rightarrow> byte list \<Rightarrow> byte list \<Rightarrow> DMToken" where
  "token_start d s rest =
     \<lparr> tk_str = Some (s @ 0 # rest), tk_tok = 0, tk_delim = Some 0, tk_char = d \<rparr>"

lemma DMToken_new_shared: "DMToken_new False al (Some (s @ 0 # rest)) d = Some (token_start d s rest)"
  by (simp add: DMToken_new_def token_start_def)

lemma put_mid [simp]: "buf_put (u @ c # v) (length u) [x] = Some (u @ x # v)"
  by simp

lemma byte_at_mid [simp]:
  "byte_at (u @ d # v @ 0 # rest) (Suc (length u)) = Some (if v = [] then 0 else hd v)"
  by (cases v) (simp_all add: byte_at_def nth_append)

lemma nextSegment_mid_last:
  assumes "d \<noteq> 0" "0 \<notin> set v" "d \<notin> set v" "u \<noteq> []"
  shows "nextSegment (token_at d u v rest tok) =
    Some (if v = [] then None else Some (Suc (length u)), token_end d (u @ d # v) rest (Suc (length u)))"
proof -
  have "strchr_at (u @ d # v @ 0 # rest) (Suc (length u)) d = Some None"
    using strchr_at_string [of d v "Suc (length u)" "u @ [d]" rest] assms by simp
  moreover have "v \<noteq> [] \<Longrightarrow> hd v \<noteq> 0" using assms(2) by (cases v) auto
  ultimately show ?thesis using assms
    by (simp add: nextSegment_def token_at_def token_end_def del: buf_put_ok)
qed

lemma nextSegment_mid_next:
  assumes "d \<noteq> 0" "0 \<notin> set p" "0 \<notin> set q" "d \<notin> set p" "u \<noteq> []"
  shows "nextSegment (token_at d u (p @ d # q) rest tok) =
    Some (if p = [] then None else Some (Suc (length u)), token_at d (u @ d # p) q rest (Suc (length u)))"
proof -
  have "strchr_at (u @ d # (p @ d # q) @ 0 # rest) (Suc (length u)) d = Some (Some (Suc (length u) + length p))"
    using strchr_at_string [of d "p @ d # q" "Suc (length u)" "u @ [d]" rest] assms by simp
  moreover have "buf_put (u @ d # (p @ d # q) @ 0 # rest) (Suc (length u) + length p) [0] =
      Some (u @ d # p @ 0 # q @ 0 # rest)"
    using put_mid [of "u @ d # p" d "q @ 0 # rest" 0] by simp
  moreover have "byte_at (u @ d # p @ 0 # q @ 0 # rest) (Suc (length u)) = Some (if p = [] then 0 else hd p)"
    using byte_at_mid [of u d p "q @ 0 # rest"] by simp
  moreover have "p \<noteq> [] \<Longrightarrow> hd p \<noteq> 0" using assms(2) by (cases p) auto
  ultimately show ?thesis using assms
    by (simp add: nextSegment_def token_at_def del: buf_put_ok)
qed

lemma nextSegment_first_last:
  assumes "d \<noteq> 0" "0 \<notin> set s" "d \<notin> set s"
  shows "nextSegment (token_start d s rest) = Some (if s = [] then None else Some 0, token_end d s rest 0)"
proof -
  have "strchr_at (s @ 0 # rest) 0 d = Some None"
    using strchr_at_string [of d s 0 "[]" rest] assms by simp
  moreover have "byte_at (s @ 0 # rest) 0 = Some (if s = [] then 0 else hd s)"
    by (cases s) (simp_all add: byte_at_def)
  moreover have "s \<noteq> [] \<Longrightarrow> hd s \<noteq> 0" using assms(2) by (cases s) auto
  ultimately show ?thesis by (simp add: nextSegment_def token_start_def token_end_def del: buf_put_ok)
qed

lemma nextSegment_first_next:
  assumes "d \<noteq> 0" "0 \<notin> set p" "0 \<notin> set q" "d \<notin> set p"
  shows "nextSegment (token_start d (p @ d # q) rest) =
    Some (if p = [] then None else Some 0, token_at d p q rest 0)"
proof -
  have "strchr_at ((p @ d # q) @ 0 # rest) 0 d = Some (Some (length p))"
    using strchr_at_string [of d "p @ d # q" 0 "[]" rest] assms by simp
  moreover have "byte_at (p @ 0 # q @ 0 # rest) 0 = Some (if p = [] then 0 else hd p)"
    by (cases p) (simp_all add: byte_at_def)
  moreover have "p \<noteq> [] \<Longrightarrow> hd p \<noteq> 0" using assms(2) by (cases p) auto
  ultimately show ?thesis
    using put_mid [of p d "q @ 0 # rest" 0]
    by (simp add: nextSegment_def token_start_def token_at_def del: buf_put_ok)
qed

lemma token_reset_end: "token_reset (token_end d s rest tok) = Some (token_start d s rest)"
  by (simp add: token_reset_def token_end_def token_start_def)

lemma token_reset_at: "u \<noteq> [] \<Longrightarrow> token_reset (token_at d u v rest tok) = Some (token_start d (u @ d # v) rest)"
  by (simp add: token_reset_def token_at_def token_start_def del: buf_put_ok)

lemma zstr_drop:
  assumes "0 \<notin> set v"
  shows "zstr (drop (Suc (length u)) (u @ d # v @ 0 # rest)) = Some v"
  using assms by simp

lemma token_all_mid:
  assumes "d \<noteq> 0" "0 \<notin> set v" "u \<noteq> []" "length v < n"
  shows "\<exists>t. token_all n (token_at d u v rest tok) = Some (takeWhile (\<lambda>x. x \<noteq> []) (split_at d v), t) \<and>
    token_reset t = Some (token_start d (u @ d # v) rest)"
  using assms(2-)
proof (induction n arbitrary: u v tok)
  case (Suc n)
  show ?case
  proof (cases d v rule: split_cases)
    case 1
    note step = nextSegment_mid_last [OF assms(1) Suc.prems(1) 1 Suc.prems(2), of rest tok]
    obtain k where k: "v \<noteq> [] \<Longrightarrow> n = Suc k" using Suc.prems(3) by (cases n; cases v) auto
    show ?thesis
      using step 1 k Suc.prems(1) zstr_drop [OF Suc.prems(1), of u d rest]
      by (cases "v = []")
        (simp_all add: token_reset_end, simp_all add: token_end_def nextSegment_def, simp add: token_reset_def token_start_def)
  next
    case (2 p q)
    then have nz: "0 \<notin> set p" "0 \<notin> set q" using Suc.prems(1) by auto
    note step = nextSegment_mid_next [OF assms(1) nz 2(2) Suc.prems(2), of rest tok]
    show ?thesis
    proof (cases "p = []")
      case True
      with step 2 show ?thesis
        by (simp add: token_reset_at)
    next
      case False
      have "length q < n" using Suc.prems(3) 2(1) by simp
      from Suc.IH [OF nz(2) _ this, of "u @ d # p" "Suc (length u)"] obtain t where
        t: "token_all n (token_at d (u @ d # p) q rest (Suc (length u))) = Some (takeWhile (\<lambda>x. x \<noteq> []) (split_at d q), t)"
        "token_reset t = Some (token_start d ((u @ d # p) @ d # q) rest)" by auto
      have "zstr (drop (Suc (length u)) ((u @ d # p) @ 0 # q @ 0 # rest)) = Some p"
        using zstr_drop [OF nz(1), of u d "q @ 0 # rest"] by simp
      then show ?thesis using step t False 2
        by (auto simp: token_at_def)
    qed
  qed
qed simp

text \<open>
  The loop over the segments of a shared string that does not begin with the delimiter: the segments
  up to the first empty one; the destructor puts every delimiter back.
\<close>

lemma token_all_ok:
  assumes "d \<noteq> 0" "0 \<notin> set s" "take 1 s \<noteq> [d]" "length s < n"
  shows "\<exists>t. token_all (Suc n) (token_start d s rest) = Some (token_segments d s, t) \<and>
    token_reset t = Some (token_start d s rest)"
proof (cases d s rule: split_cases)
  case 1
  note step = nextSegment_first_last [OF assms(1,2) 1, of rest]
  obtain k where k: "n = Suc k" using assms(4) by (cases n) auto
  show ?thesis
    using step 1 k assms(2)
    by (cases "s = []")
      (simp_all add: token_reset_end token_segments_def,
        simp_all add: token_end_def nextSegment_def, simp add: token_reset_def token_start_def)
next
  case (2 p q)
  then have nz: "0 \<notin> set p" "0 \<notin> set q" using assms(2) by auto
  have p: "p \<noteq> []" using 2 assms(3) by auto
  note step = nextSegment_first_next [OF assms(1) nz 2(2), of rest]
  from token_all_mid [OF assms(1) nz(2) p, of n rest 0] assms(4) 2(1) obtain t where
    t: "token_all n (token_at d p q rest 0) = Some (takeWhile (\<lambda>x. x \<noteq> []) (split_at d q), t)"
    "token_reset t = Some (token_start d (p @ d # q) rest)" by auto
  then show ?thesis using step p 2 nz
    by (auto simp: token_segments_def token_at_def)
qed

text \<open>With a delimiter in front there is no segment, and the destructor does not put it back.\<close>

lemma token_all_leading:
  assumes "d \<noteq> 0" "0 \<notin> set s"
  shows "\<exists>t. token_all (Suc n) (token_start d (d # s) rest) = Some ([], t) \<and>
    token_reset t = Some (token_start d [] (s @ 0 # rest))"
  using nextSegment_first_next [of d "[]" s rest] assms
  by (simp add: token_at_def token_reset_def token_start_def)

section \<open>Walking up\<close>

text \<open>A path and its ancestors; the part before a leading slash is none.\<close>

lemma last_pos_split: "last_pos x s = Some i \<Longrightarrow> s = take i s @ x # drop (Suc i) s \<and> x \<notin> set (drop (Suc i) s)"
proof (induction s arbitrary: i)
  case (Cons a s)
  show ?case
  proof (cases "last_pos x s")
    case None
    moreover from this have "x \<notin> set s" by (induction s) (auto split: option.splits if_splits)
    ultimately show ?thesis using Cons.prems by (auto split: if_splits)
  next
    case (Some j)
    with Cons show ?thesis by auto
  qed
qed simp

function ancestors :: "byte list \<Rightarrow> byte list list" where
  "ancestors s = s # (case last_pos 0x2F s of None \<Rightarrow> []
     | Some i \<Rightarrow> if i = 0 then [] else ancestors (take i s))"
  by pat_completeness auto
termination by (relation "measure length") (auto dest: last_pos_bound)

declare ancestors.simps [simp del]

text \<open>The walk upwards as its users do it: the current string, and on to its parent while there is one.\<close>

definition token_text :: "DMToken \<Rightarrow> byte list option" where
  "token_text t = (case tk_str t of None \<Rightarrow> None | Some m \<Rightarrow> zstr m)"

lemma getParentURI_start:
  assumes "0 \<notin> set s"
  shows "getParentURI (token_start 0x2F s rest) =
    (case last_pos 0x2F s of None \<Rightarrow> Some (False, token_start 0x2F s rest)
     | Some i \<Rightarrow> if i = 0 then Some (False, token_start 0x2F s rest)
         else Some (True, (token_at 0x2F (take i s) (drop (Suc i) s) rest 0)))"
proof (cases "last_pos 0x2F s")
  case None
  then show ?thesis using assms by (simp add: getParentURI_def token_start_def strrchr_def)
next
  case (Some i)
  then have s: "s = take i s @ 0x2F # drop (Suc i) s" and i: "i < length s"
    using last_pos_split last_pos_bound by blast+
  have "buf_put (s @ 0 # rest) i [0] = Some (take i s @ 0 # drop (Suc i) s @ 0 # rest)"
    using put_mid [of "take i s" "0x2F" "drop (Suc i) s @ 0 # rest" 0] s i
    by (metis append.assoc append_Cons length_take min.absorb4)
  with Some assms show ?thesis
    using i by (simp add: getParentURI_def token_start_def strrchr_def token_at_def min.absorb2 del: buf_put_ok)
qed

lemma getParentURI_at:
  assumes "0 \<notin> set u" "u \<noteq> []"
  shows "getParentURI (token_at 0x2F u v rest 0) =
    (case last_pos 0x2F u of None \<Rightarrow> Some (False, token_at 0x2F u v rest 0)
     | Some i \<Rightarrow> if i = 0 then Some (False, token_at 0x2F u v rest 0)
         else Some (True, token_at 0x2F (take i u) (drop (Suc i) u @ 0x2F # v) rest 0))"
proof (cases "last_pos 0x2F u")
  case None
  then show ?thesis using assms by (simp add: getParentURI_def token_at_def strrchr_def)
next
  case (Some i)
  then have u: "u = take i u @ 0x2F # drop (Suc i) u" and i: "i < length u"
    using last_pos_split last_pos_bound by blast+
  let ?v = "drop (Suc i) u @ 0 # v @ 0 # rest"
  have 1: "buf_put (u @ 0 # v @ 0 # rest) i [0] = Some (take i u @ 0 # ?v)"
    using put_mid [of "take i u" "0x2F" ?v 0] u i
    by (metis append.assoc append_Cons length_take min.absorb4)
  have 2: "buf_put (take i u @ 0 # ?v) (length u) [0x2F] =
      Some (take i u @ 0 # (drop (Suc i) u @ 0x2F # v) @ 0 # rest)"
  proof -
    define w where "w = take i u @ 0 # drop (Suc i) u"
    have "length w = length u" using i by (simp add: w_def)
    moreover have "take i u @ 0 # ?v = w @ 0 # v @ 0 # rest"
      "take i u @ 0 # (drop (Suc i) u @ 0x2F # v) @ 0 # rest = w @ 0x2F # v @ 0 # rest"
      by (simp_all add: w_def)
    ultimately show ?thesis using put_mid [of w 0 "v @ 0 # rest" "0x2F"] by metis
  qed
  from Some assms 1 2 show ?thesis
    using i by (simp add: getParentURI_def strrchr_def token_at_def min.absorb2 del: buf_put_ok)
qed

section \<open>The parser\<close>

text \<open>Segments in memory, each with the character behind it; and the table of their positions.\<close>

definition seg_bytes :: "byte list list \<Rightarrow> byte list \<Rightarrow> byte list" where
  "seg_bytes ss cs = concat (map2 (\<lambda>s c. s @ [c]) ss cs)"

fun seg_table :: "nat \<Rightarrow> byte list list \<Rightarrow> (nat \<times> nat) list" where
  "seg_table pos [] = []"
| "seg_table pos (s # ss) = (pos, length s) # seg_table (pos + length s + 1) ss"

lemma seg_bytes_simps [simp]:
  "seg_bytes [] cs = []" "seg_bytes ss [] = []"
  "seg_bytes (s # ss) (c # cs) = s @ c # seg_bytes ss cs"
  by (simp_all add: seg_bytes_def)

lemma seg_bytes_append:
  "length ss = length cs \<Longrightarrow> seg_bytes (ss @ ts) (cs @ ds) = seg_bytes ss cs @ seg_bytes ts ds"
  by (simp add: seg_bytes_def)

lemma length_seg_table [simp]: "length (seg_table pos ss) = length ss"
  by (induction pos ss rule: seg_table.induct) auto

lemma seg_table_nth:
  "i < length ss \<Longrightarrow> length cs = length ss \<Longrightarrow>
     seg_table pos ss ! i = (pos + length (seg_bytes (take i ss) (take i cs)), length (ss ! i))"
proof (induction pos ss arbitrary: i cs rule: seg_table.induct)
  case (2 pos s ss)
  then obtain c cs' where [simp]: "cs = c # cs'" by (cases cs) auto
  with 2 show ?case by (cases i) (auto simp del: One_nat_def)
qed simp

lemma seg_bytes_split:
  assumes "i < length ss" "length cs = length ss"
  shows "seg_bytes ss cs = seg_bytes (take i ss) (take i cs) @ ss ! i @ cs ! i # seg_bytes (drop (Suc i) ss) (drop (Suc i) cs)"
proof -
  have "ss = take i ss @ ss ! i # drop (Suc i) ss" "cs = take i cs @ cs ! i # drop (Suc i) cs"
    using assms by (simp_all add: id_take_nth_drop [symmetric])
  then have "seg_bytes ss cs = seg_bytes (take i ss @ ss ! i # drop (Suc i) ss) (take i cs @ cs ! i # drop (Suc i) cs)"
    by simp
  also have "\<dots> = seg_bytes (take i ss) (take i cs) @ seg_bytes (ss ! i # drop (Suc i) ss) (cs ! i # drop (Suc i) cs)"
    using assms by (intro seg_bytes_append) simp
  finally show ?thesis by simp
qed

text \<open>A parser on the segments \<open>ss\<close>, whose following characters are now \<open>cs\<close>.\<close>

definition parser_at :: "byte \<Rightarrow> nat \<Rightarrow> byte list list \<Rightarrow> byte list \<Rightarrow> byte list \<Rightarrow> nat \<Rightarrow> DMParser" where
  "parser_at d room ss cs tail cur =
     \<lparr> ps_str = Some (seg_bytes ss cs @ tail), ps_char = d, ps_room = Some room,
       ps_segments = seg_table 0 ss, ps_cur = cur \<rparr>"

lemma ps_simps [simp]:
  "ps_char (parser_at d room ss cs tail cur) = d"
  "ps_segments (parser_at d room ss cs tail cur) = seg_table 0 ss"
  "ps_str (parser_at d room ss cs tail cur) = Some (seg_bytes ss cs @ tail)"
  "ps_cur (parser_at d room ss cs tail cur) = cur"
  "ps_room (parser_at d room ss cs tail cur) = Some room"
  by (simp_all add: parser_at_def)

lemma cut_segment_at:
  assumes "i < length ss" "length cs = length ss"
  shows "cut_segment (parser_at d room ss cs tail cur) i c = Some (parser_at d room ss (cs[i := c]) tail cur)"
proof -
  let ?u = "seg_bytes (take i ss) (take i cs) @ ss ! i"
  let ?v = "seg_bytes (drop (Suc i) ss) (drop (Suc i) cs)"
  have 1: "seg_bytes ss cs = ?u @ cs ! i # ?v" using seg_bytes_split [OF assms] by simp
  have 2: "seg_bytes ss (cs[i := c]) = ?u @ c # ?v" using seg_bytes_split [of i ss "cs[i := c]"] assms by simp
  have 3: "fst (seg_table 0 ss ! i) + snd (seg_table 0 ss ! i) = length ?u"
    using seg_table_nth [OF assms, of 0] by simp
  have "buf_put (seg_bytes ss cs @ tail) (length ?u) [c] = Some (seg_bytes ss (cs[i := c]) @ tail)"
    unfolding 1 2 using put_mid [of ?u "cs ! i" "?v @ tail" c] by simp
  then show ?thesis using assms by (simp add: cut_segment_def parser_at_def 3 del: buf_put_ok)
qed

lemma segment_text_at:
  assumes "i < length ss" "length cs = length ss" "cs ! i = 0" "0 \<notin> set (ss ! i)"
  shows "segment_text (parser_at d room ss cs tail cur) (fst (seg_table 0 ss ! i)) = Some (ss ! i)"
  using seg_table_nth [OF assms(1,2), of 0] assms(3,4)
  by (simp add: segment_text_def parser_at_def seg_bytes_split [OF assms(1,2)])

text \<open>The first \<open>k\<close> segments are cut.\<close>

definition cut :: "nat \<Rightarrow> byte list \<Rightarrow> byte list" where
  "cut k cs = replicate k 0 @ drop k cs"

lemma cut_simps [simp]: "length (cut k cs) = max k (length cs)" "cut 0 cs = cs"
  by (simp_all add: cut_def)

lemma cut_nth [simp]: "i < k \<Longrightarrow> cut k cs ! i = 0"
  by (simp add: cut_def nth_append)

lemma cut_step: "k < length cs \<Longrightarrow> (cut k cs)[k := 0] = cut (Suc k) cs"
  by (simp add: cut_def list_update_append Cons_nth_drop_Suc [symmetric] replicate_append_same [symmetric])

lemma parser_next_at:
  assumes "k \<le> length ss" "length cs = length ss"
  shows "parser_next (parser_at d room ss (cut k cs) tail k) =
    (if k = length ss then Some (None, parser_at d room ss (cut k cs) tail k)
     else Some (Some (fst (seg_table 0 ss ! k)), parser_at d room ss (cut (Suc k) cs) tail (Suc k)))"
  using assms cut_segment_at [of k ss "cut k cs" d room tail k 0]
  by (auto simp: parser_next_def cut_step parser_at_def)

lemma restore_segments_at:
  assumes "n \<le> length ss" "length cs = length ss"
  shows "restore_segments n (parser_at d room ss cs tail cur) =
    Some (parser_at d room ss (replicate n d @ drop n cs) tail cur)"
  using assms
proof (induction n)
  case (Suc n)
  have "(replicate n d @ drop n cs)[n := d] = replicate (Suc n) d @ drop (Suc n) cs"
    using Suc.prems by (simp add: list_update_append Cons_nth_drop_Suc [symmetric] replicate_append_same [symmetric])
  with Suc cut_segment_at [of n ss "replicate n d @ drop n cs" d room tail cur d] show ?case by simp
qed simp

text \<open>Parsing.\<close>

lemma split_seg_bytes: "s = seg_bytes (butlast (split_at d s)) (replicate (length (split_at d s) - 1) d) @ last (split_at d s)"
proof (induction "length s" arbitrary: s rule: less_induct)
  case less
  show ?case
  proof (cases d s rule: split_cases)
    case (2 p q)
    have "length (split_at d q) - 1 + 1 = length (split_at d q)" by (cases "split_at d q") auto
    then have "replicate (length (split_at d q)) d = d # replicate (length (split_at d q) - 1) d"
      by (metis Suc_eq_plus1 replicate_Suc)
    with 2 less [of q] show ?thesis by simp
  qed simp
qed

lemma parse_loop_ok:
  assumes "d \<noteq> 0" "0 \<notin> set s" "length acc + length (split_at d s) \<le> Suc room"
  shows "parse_loop room (u @ s @ 0 # rest) d (length u) acc =
    Some (length u + (length s - length (last (split_at d s))), acc @ seg_table (length u) (butlast (split_at d s)))"
  using assms(2,3)
proof (induction "length s" arbitrary: s u acc rule: less_induct)
  case less
  show ?case
  proof (cases d s rule: split_cases)
    case 1
    then show ?thesis using strchr_at_string [OF assms(1) less.prems(1) refl, of u rest]
      by (subst parse_loop.simps) simp
  next
    case (2 p q)
    have a: "strchr_at (u @ s @ 0 # rest) (length u) d = Some (Some (length u + length p))"
      using strchr_at_string [OF assms(1) less.prems(1) refl, of u rest] 2 by simp
    have "length acc < room" using less.prems(2) 2 by (cases "split_at d q") auto
    moreover have "parse_loop room ((u @ p @ [d]) @ q @ 0 # rest) d (length (u @ p @ [d])) (acc @ [(length u, length p)]) =
        Some (length (u @ p @ [d]) + (length q - length (last (split_at d q))),
          (acc @ [(length u, length p)]) @ seg_table (length (u @ p @ [d])) (butlast (split_at d q)))"
      using less.hyps [of q "acc @ [(length u, length p)]" "u @ p @ [d]"] less.prems 2 by simp
    moreover have "length (last (split_at d q)) \<le> length q"
      by (subst (2) split_seg_bytes [of q d]) simp
    ultimately show ?thesis using 2 a
      by (subst parse_loop.simps) (simp add: add.assoc)
  qed
qed

text \<open>A string that does not end with the delimiter.\<close>

definition no_trailing :: "byte \<Rightarrow> byte list \<Rightarrow> bool" where
  "no_trailing d s \<longleftrightarrow> s = [] \<or> last s \<noteq> d"

lemma last_split: "no_trailing d s \<Longrightarrow> s \<noteq> [] \<Longrightarrow> last (split_at d s) \<noteq> []"
proof (induction "length s" arbitrary: s rule: less_induct)
  case less
  show ?case
  proof (cases d s rule: split_cases)
    case (2 p q)
    with less.prems have "q \<noteq> []" by (auto simp: no_trailing_def)
    with 2 less(1) [of q] less.prems show ?thesis by (auto simp: no_trailing_def)
  qed (use less.prems in simp)
qed

text \<open>The characters behind the segments of such a string: delimiters, and the end of the string.\<close>

definition ends_of :: "byte \<Rightarrow> byte list list \<Rightarrow> byte list" where
  "ends_of d ss = replicate (length ss - 1) d @ (if ss = [] then [] else [0])"

lemma length_ends_of [simp]: "length (ends_of d ss) = length ss"
  by (cases ss) (auto simp: ends_of_def)

lemma DMParser_new_ok:
  assumes "d \<noteq> 0" "0 \<notin> set s" "no_trailing d s" "length (parser_segments d s) \<le> room"
  defines "ss \<equiv> parser_segments d s"
  shows "DMParser_new (Some room) (Some (s @ 0 # rest)) d =
      Some (parser_at d room ss (ends_of d ss) (if s = [] then 0 # rest else rest) 0)" (is ?new)
    and "seg_bytes ss (ends_of d ss) @ (if s = [] then 0 # rest else rest) = s @ 0 # rest" (is ?mem)
proof -
  show mem: ?mem
  proof (cases "s = []")
    case False
    with last_split [OF assms(3)] have ss: "ss = split_at d s" by (simp add: ss_def parser_segments_def)
    have "split_at d s = butlast (split_at d s) @ [last (split_at d s)]" by simp
    then have "seg_bytes ss (ends_of d ss) = seg_bytes (butlast (split_at d s) @ [last (split_at d s)])
        (replicate (length (split_at d s) - 1) d @ [0])"
      unfolding ss ends_of_def by simp
    also have "\<dots> = seg_bytes (butlast (split_at d s)) (replicate (length (split_at d s) - 1) d) @
        seg_bytes [last (split_at d s)] [0]"
      by (intro seg_bytes_append) simp
    also have "seg_bytes [last (split_at d s)] [0] = last (split_at d s) @ [0]" by simp
    also have "seg_bytes (butlast (split_at d s)) (replicate (length (split_at d s) - 1) d) @ last (split_at d s) @ [0] = s @ [0]"
      using split_seg_bytes [of s d] by (metis append.assoc)
    finally show ?thesis using False by simp
  qed (simp add: ss_def parser_segments_def)
  show ?new
  proof (cases "s = []")
    case True
    then show ?thesis using parse_loop_ok [OF assms(1), of "[]" "[]" room "[]" rest]
      by (simp add: DMParser_new_def parser_at_def ss_def parser_segments_def ends_of_def)
  next
    case False
    note l = last_split [OF assms(3) False]
    then have ss: "ss = split_at d s" by (simp add: ss_def parser_segments_def)
    let ?l = "last (split_at d s)"
    have len: "length (split_at d s) \<le> room" using assms(4) ss ss_def by simp
    have app: "split_at d s = butlast (split_at d s) @ [?l]" by simp
    have table: "seg_table pos (xs @ [x]) = seg_table pos xs @ [(pos + length (seg_bytes xs (replicate (length xs) d)), length x)]"
      for pos xs x
      by (induction pos xs rule: seg_table.induct) (auto simp: add.assoc)
    have "length s - length ?l = length (seg_bytes (butlast (split_at d s)) (replicate (length (split_at d s) - 1) d))"
      using arg_cong [OF split_seg_bytes [of s d], of length] by simp
    then have t: "seg_table 0 (split_at d s) = seg_table 0 (butlast (split_at d s)) @ [(length s - length ?l, length ?l)]"
      using table [of 0 "butlast (split_at d s)" ?l] by (subst app) simp
    have "drop (length s - length ?l) (s @ 0 # rest) = ?l @ 0 # rest"
      using split_seg_bytes [of s d] by (metis append.assoc append_eq_conv_conj length_append diff_add_inverse2)
    moreover have "0 \<notin> set ?l" using assms(2) split_seg_bytes [of s d] by (metis Un_iff set_append)
    moreover have "length (butlast (split_at d s)) < room" using len by (cases "split_at d s") auto
    ultimately show ?thesis
      using parse_loop_ok [OF assms(1,2), of "[]" room "[]" rest] len l mem False t
      by (simp add: DMParser_new_def parser_at_def ss)
  qed
qed

section \<open>Parent paths\<close>

definition starred :: "byte list \<Rightarrow> bool" where
  "starred s \<longleftrightarrow> take 1 s = [0x2A]"

text \<open>The segments of one path are a prefix of those of the other, where a segment with a star in
  front matches anything, on both sides.\<close>

definition segments_prefix :: "byte list list \<Rightarrow> byte list list \<Rightarrow> bool" where
  "segments_prefix ps cs \<longleftrightarrow> length ps \<le> length cs \<and>
     (\<forall>(p, c)\<in>set (zip ps cs). starred p \<or> starred c \<or> p = c)"

text \<open>What the parsers leave: some segments are cut, at least one if there is one.\<close>

definition parser_left :: "byte \<Rightarrow> nat \<Rightarrow> byte list list \<Rightarrow> byte list \<Rightarrow> DMParser \<Rightarrow> bool" where
  "parser_left d room ss tail p \<longleftrightarrow>
     (\<exists>k \<le> length ss. (ss \<noteq> [] \<longrightarrow> 0 < k) \<and> p = parser_at d room ss (cut k (ends_of d ss)) tail k)"

lemma parser_left_reset:
  assumes "parser_left d room ss tail p"
  shows "parser_reset p = Some (parser_at d room ss (ends_of d ss) tail 0)"
proof -
  from assms obtain k where k: "k \<le> length ss" "ss \<noteq> [] \<longrightarrow> 0 < k"
    "p = parser_at d room ss (cut k (ends_of d ss)) tail k" by (auto simp: parser_left_def)
  have "replicate (length ss - 1) d @ drop (length ss - 1) (cut k (ends_of d ss)) = ends_of d ss"
    if "ss \<noteq> []"
  proof -
    from that obtain n where "length ss = Suc n" by (cases ss) auto
    moreover have "drop n (0 # replicate n (0::byte)) = [0]" by (induction n) auto
    ultimately show ?thesis using k(1,2) that
      by (cases "k = Suc n") (auto simp: ends_of_def cut_def replicate_append_same)
  qed
  with k restore_segments_at [of "length ss - 1" ss "cut k (ends_of d ss)" d room tail k] show ?thesis
    by (cases "ss = []") (auto simp: parser_reset_def parser_at_def)
qed

definition seg_start :: "byte list list \<Rightarrow> nat \<Rightarrow> nat option" where
  "seg_start ss k = (if k < length ss then Some (fst (seg_table 0 ss ! k)) else None)"

definition parser_step :: "byte \<Rightarrow> nat \<Rightarrow> byte list list \<Rightarrow> byte list \<Rightarrow> nat \<Rightarrow> DMParser" where
  "parser_step d room ss tail k =
     parser_at d room ss (cut (min k (length ss)) (ends_of d ss)) tail (min k (length ss))"

lemma parser_step_next:
  "parser_next (parser_step d room ss tail k) = Some (seg_start ss k, parser_step d room ss tail (Suc k))"
  using parser_next_at [of "min k (length ss)" ss "ends_of d ss" d room tail]
  by (cases "k < length ss") (simp_all add: parser_step_def seg_start_def min_def)

lemma parser_step_left: "0 < k \<Longrightarrow> parser_left d room ss tail (parser_step d room ss tail k)"
  unfolding parser_left_def parser_step_def by (intro exI [of _ "min k (length ss)"]) auto

lemma parser_step_text:
  assumes "k < length ss" "0 \<notin> set (ss ! k)"
  shows "segment_text (parser_step d room ss tail (Suc k)) (fst (seg_table 0 ss ! k)) = Some (ss ! k)"
  using assms segment_text_at [of k ss "cut (Suc k) (ends_of d ss)" d room tail "Suc k"]
  by (simp add: parser_step_def min_def max_def)

lemma compare_loop_ok:
  assumes "length ps \<le> length cs" "\<forall>s\<in>set ps. 0 \<notin> set s" "\<forall>s\<in>set cs. 0 \<notin> set s"
    "k \<le> length ps" "length ps < k + n"
  shows "\<exists>p c. compare_loop n (seg_start ps k) (seg_start cs k)
      (parser_step d rp ps tp (Suc k)) (parser_step d rc cs tc (Suc k)) =
      Some (\<forall>(p, c)\<in>set (zip (drop k ps) (drop k cs)). starred p \<or> starred c \<or> p = c, p, c) \<and>
    parser_left d rp ps tp p \<and> parser_left d rc cs tc c"
  using assms(4,5)
proof (induction n arbitrary: k)
  case (Suc n)
  show ?case
  proof (cases "k < length ps")
    case False
    with Suc.prems show ?thesis by (simp add: seg_start_def parser_step_left)
  next
    case True
    with assms have kc: "k < length cs" by simp
    have z: "0 \<notin> set (ps ! k)" "0 \<notin> set (cs ! k)" using assms(2,3) True kc by auto
    have d: "drop k ps = ps ! k # drop (Suc k) ps" "drop k cs = cs ! k # drop (Suc k) cs"
      using True kc by (simp_all add: Cons_nth_drop_Suc)
    from Suc.IH [of "Suc k"] Suc.prems True show ?thesis
      unfolding d
      using parser_step_text [OF True z(1), of d rp tp] parser_step_text [OF kc z(2), of d rc tc]
      by (cases "starred (ps ! k) \<or> starred (cs ! k) \<or> ps ! k = cs ! k")
        (auto simp: seg_start_def [of ps k] seg_start_def [of cs k] True kc parser_step_next parser_step_left starred_def)
  qed
qed simp

lemma parser_step_segments [simp]: "ps_segments (parser_step d room ss tail k) = seg_table 0 ss"
  by (simp add: parser_step_def)

lemma seg_table_Nil [simp]: "seg_table pos ss = [] \<longleftrightarrow> ss = []"
  by (cases ss) auto

lemma parser_step_0: "parser_at d room ss (ends_of d ss) tail 0 = parser_step d room ss tail 0"
  by (simp add: parser_step_def)

lemma split_at_zero: "0 \<notin> set s \<Longrightarrow> t \<in> set (split_at d s) \<Longrightarrow> 0 \<notin> set t"
proof (induction "length s" arbitrary: s rule: less_induct)
  case less
  show ?case
  proof (cases d s rule: split_cases)
    case (2 p q)
    with less(1) [of q] less.prems show ?thesis by auto
  qed (use less.prems in simp)
qed

lemma parser_segments_zero: "0 \<notin> set s \<Longrightarrow> \<forall>t\<in>set (parser_segments d s). 0 \<notin> set t"
  using split_at_zero by (auto simp: parser_segments_def dest: in_set_butlastD)

text \<open>
  Property C22: \<open>DmIsParentURI\<close> decides whether the segments of one path are a prefix of those of the
  other, a star in front of a segment standing for any segment on either side; and it gives both
  strings, which it cuts into pieces meanwhile, back as they were. It needs paths that are no deeper
  than the tables of its parsers and do not end with a slash.
\<close>

theorem DmIsParentURI_correct:
  assumes "0 \<notin> set P" "0 \<notin> set C" "no_trailing 0x2F P" "no_trailing 0x2F C"
    "length (parser_segments 0x2F P) \<le> rp" "length (parser_segments 0x2F C) \<le> rc"
  shows "DmIsParentURI (Some rp) (Some rc) (Some (P @ 0 # r1)) (Some (C @ 0 # r2)) =
    Some (segments_prefix (parser_segments 0x2F P) (parser_segments 0x2F C), Some (P @ 0 # r1), Some (C @ 0 # r2))"
proof -
  let ?ps = "parser_segments 0x2F P" and ?cs = "parser_segments 0x2F C"
  obtain tp where P: "DMParser_new (Some rp) (Some (P @ 0 # r1)) 0x2F = Some (parser_step 0x2F rp ?ps tp 0)"
    "seg_bytes ?ps (ends_of 0x2F ?ps) @ tp = P @ 0 # r1"
    using DMParser_new_ok [OF _ assms(1,3,5), of r1] by (simp add: parser_step_0)
  obtain tc where C: "DMParser_new (Some rc) (Some (C @ 0 # r2)) 0x2F = Some (parser_step 0x2F rc ?cs tc 0)"
    "seg_bytes ?cs (ends_of 0x2F ?cs) @ tc = C @ 0 # r2"
    using DMParser_new_ok [OF _ assms(2,4,6), of r2] by (simp add: parser_step_0)
  have left: "parser_reset p = Some (parser_at 0x2F room ss (ends_of 0x2F ss) tail 0)"
    if "parser_left 0x2F room ss tail p" for room ss tail p
    by (rule parser_left_reset [OF that])
  have loop: "\<exists>p c. compare_loop (Suc (length ?ps)) (seg_start ?ps 0) (seg_start ?cs 0)
        (parser_step 0x2F rp ?ps tp (Suc 0)) (parser_step 0x2F rc ?cs tc (Suc 0)) =
        Some (segments_prefix ?ps ?cs, p, c) \<and> parser_left 0x2F rp ?ps tp p \<and> parser_left 0x2F rc ?cs tc c"
    if "length ?ps \<le> length ?cs"
    using compare_loop_ok [OF that parser_segments_zero [OF assms(1)] parser_segments_zero [OF assms(2)], of 0 "Suc (length ?ps)" "0x2F" rp tp rc tc]
    using that by (simp add: segments_prefix_def)
  show ?thesis
  proof (cases "?ps \<noteq> [] \<and> length ?ps \<le> length ?cs")
    case True
    with loop obtain p c where "compare_loop (Suc (length ?ps)) (seg_start ?ps 0) (seg_start ?cs 0)
        (parser_step 0x2F rp ?ps tp (Suc 0)) (parser_step 0x2F rc ?cs tc (Suc 0)) =
        Some (segments_prefix ?ps ?cs, p, c)" "parser_left 0x2F rp ?ps tp p" "parser_left 0x2F rc ?cs tc c"
      by blast
    with True P C left show ?thesis
      by (simp add: DmIsParentURI_def Let_def parser_step_next del: compare_loop.simps)
  next
    case False
    have l: "parser_left 0x2F rp ?ps tp (parser_step 0x2F rp ?ps tp (Suc 0))"
      "parser_left 0x2F rc ?cs tc (parser_step 0x2F rc ?cs tc (Suc 0))"
      by (simp_all add: parser_step_left)
    from False have "segments_prefix ?ps ?cs = (?ps = [])" by (auto simp: segments_prefix_def)
    with False P C left [OF l(1)] left [OF l(2)] show ?thesis
      by (auto simp: DmIsParentURI_def Let_def parser_step_next)
  qed
qed

lemma DmIsParentURI_correct_witness:
  "DmIsParentURI (Some 4) (Some 4) (Some (bytes_of ''./A/*'' @ [0])) (Some (bytes_of ''./A/B/C'' @ [0])) =
    Some (True, Some (bytes_of ''./A/*'' @ [0]), Some (bytes_of ''./A/B/C'' @ [0]))"
proof -
  let ?P = "bytes_of ''./A/*''" and ?C = "bytes_of ''./A/B/C''"
  have s: "parser_segments 0x2F ?P = [[0x2E], [0x41], [0x2A]]" "parser_segments 0x2F ?C = [[0x2E], [0x41], [0x42], [0x43]]"
    by (simp_all add: parser_segments_def)
  then have "segments_prefix (parser_segments 0x2F ?P) (parser_segments 0x2F ?C)"
    by (simp add: segments_prefix_def starred_def)
  with DmIsParentURI_correct [of ?P ?C 4 4 "[]" "[]"] s show ?thesis by (simp add: no_trailing_def)
qed

text \<open>
  A path that ends with a slash is not restored: the parser takes the end of its last segment for the
  end of the string, so that the last slash stays cut off. A path deeper than the table is written
  behind its end.
\<close>

lemma DmIsParentURI_trailing_slash:
  "DmIsParentURI (Some 4) (Some 4) (Some (bytes_of ''A/'' @ [0])) (Some (bytes_of ''A'' @ [0])) =
    Some (True, Some [0x41, 0, 0], Some [0x41, 0])"
  by (simp add: DmIsParentURI_def DMParser_new_def parse_loop.simps strchr_at_def Let_def parser_next_def
      cut_segment_def segment_text_def parser_reset_def buf_put_def)

lemma DmIsParentURI_deep:
  "DmIsParentURI (Some 1) (Some 1) (Some (bytes_of ''A/B'' @ [0])) C = None"
  by (simp add: DmIsParentURI_def DMParser_new_def parse_loop.simps strchr_at_def Let_def)

end
