(* ===== verification/Dm_Acl.thy ===== *)
theory Dm_Acl
  imports Dm_Containers Dm_Token
begin

text \<open>
  Access control lists: \<open>DmtAcl\<close> (\<open>dmtAcl.cc\<close>), a map from principals to permission bits with its text
  form, and the decision of \<open>DMAclManager::IsPermitted\<close> (\<open>dmACLManager.cc\<close>). Strings are values here,
  and the map is the list of its pairs in insertion order; the theories on strings and containers
  show that the classes behave like that.
\<close>

section \<open>Permissions\<close>

definition ADD :: byte where "ADD = 0x01"
definition DELETE :: byte where "DELETE = 0x02"
definition GET :: byte where "GET = 0x04"
definition REPLACE :: byte where "REPLACE = 0x08"
definition EXEC :: byte where "EXEC = 0x10"

lemmas permission_defs = ADD_def DELETE_def GET_def REPLACE_def EXEC_def

type_synonym principal = "byte list"
type_synonym acl = "(principal \<times> byte) list"

section \<open>One list\<close>

definition GetPermissions :: "principal \<Rightarrow> acl \<Rightarrow> byte" where
  "GetPermissions p a = (case map_of a p of None \<Rightarrow> 0 | Some n \<Rightarrow> n)"

definition SetPermission :: "principal \<Rightarrow> byte \<Rightarrow> acl \<Rightarrow> acl" where
  "SetPermission p n a = al_put p n a"

definition AddPermission :: "principal \<Rightarrow> byte \<Rightarrow> acl \<Rightarrow> acl" where
  "AddPermission p n a = al_put p (n OR GetPermissions p a) a"

definition DeletePermission :: "principal \<Rightarrow> byte \<Rightarrow> acl \<Rightarrow> acl" where
  "DeletePermission p n a = al_put p (GetPermissions p a AND NOT n) a"

definition acl_IsPermitted :: "principal \<Rightarrow> byte \<Rightarrow> acl \<Rightarrow> bool" where
  "acl_IsPermitted p n a \<longleftrightarrow> GetPermissions p a AND n \<noteq> 0"

definition GetPrincipals :: "acl \<Rightarrow> principal list" where
  "GetPrincipals a = map fst a"

section \<open>The text form\<close>

definition command_permission :: "byte list \<Rightarrow> byte option" where
  "command_permission strCmd =
     (if strCmd = bytes_of ''Add'' then Some ADD
      else if strCmd = bytes_of ''Delete'' then Some DELETE
      else if strCmd = bytes_of ''Exec'' then Some EXEC
      else if strCmd = bytes_of ''Get'' then Some GET
      else if strCmd = bytes_of ''Replace'' then Some REPLACE
      else None)"

definition parse_item :: "byte list \<Rightarrow> acl \<Rightarrow> acl" where
  "parse_item strAcl a =
     (case DmStringParserGetItem 0x3D [] strAcl of
        (False, _, _) \<Rightarrow> a
      | (True, strCmd, strAcl) \<Rightarrow>
          (case command_permission strCmd of
             None \<Rightarrow> a
           | Some nPermision \<Rightarrow>
               fold (\<lambda>strHost. AddPermission strHost nPermision) (DmStrToStringVector 0x2B strAcl) a))"

text \<open>The constructor from a string.\<close>

definition DmtAcl :: "byte list option \<Rightarrow> acl" where
  "DmtAcl szAcl = (case szAcl of None \<Rightarrow> [] | Some s \<Rightarrow> fold parse_item (DmStrToStringVector 0x26 s) [])"

definition AttachProperty :: "byte \<Rightarrow> byte list \<Rightarrow> byte list \<Rightarrow> byte list" where
  "AttachProperty cDelim szProperty strConfig =
     (if strConfig \<noteq> [] then strConfig @ [cDelim] else []) @ szProperty"

definition AddCommand :: "byte list \<Rightarrow> byte list \<Rightarrow> byte list \<Rightarrow> byte list" where
  "AddCommand szCmd strPrincipals str =
     (if strPrincipals = [] then str
      else (if str \<noteq> [] then str @ [0x26] else []) @ szCmd @ strPrincipals)"

definition attach_all :: "byte \<Rightarrow> acl \<Rightarrow> byte list" where
  "attach_all perm a =
     fold (\<lambda>(name, n) s. if n AND perm \<noteq> 0 then AttachProperty 0x2B name s else s) a []"

definition toString :: "acl \<Rightarrow> byte list" where
  "toString a =
     AddCommand (bytes_of ''Replace='') (attach_all REPLACE a)
      (AddCommand (bytes_of ''Get='') (attach_all GET a)
        (AddCommand (bytes_of ''Exec='') (attach_all EXEC a)
          (AddCommand (bytes_of ''Delete='') (attach_all DELETE a)
            (AddCommand (bytes_of ''Add='') (attach_all ADD a) []))))"

section \<open>The decision\<close>

text \<open>The configuration: the paths with their lists, in the order of the file. \<open>Find\<close> takes the first.\<close>

type_synonym acl_item = "byte list \<times> acl"

definition acl_find :: "byte list \<Rightarrow> acl_item list \<Rightarrow> acl option" where
  "acl_find szPath config = map_option snd (find (\<lambda>(path, _). path = szPath) config)"

text \<open>
  The loop from a path to its ancestors: the decision of the first one with a list, which may grant
  the right to everybody or to the server. The recursion is bounded by the length of the path, which
  every step shortens.
\<close>

fun permitted_loop :: "nat \<Rightarrow> acl_item list \<Rightarrow> principal \<Rightarrow> byte \<Rightarrow> DMToken \<Rightarrow> (bool \<times> DMToken) option" where
  "permitted_loop 0 config server n t = None"
| "permitted_loop (Suc k) config server n t = do {
     path \<leftarrow> token_text t;
     (case acl_find path config of
        Some a \<Rightarrow> Some (acl_IsPermitted [0x2A] n a \<or> acl_IsPermitted server n a, t)
      | None \<Rightarrow> do {
          (more, t) \<leftarrow> getParentURI t;
          if more then permitted_loop k config server n t else Some (False, t) }) }"

definition IsPermitted :: "acl_item list \<Rightarrow> byte list \<Rightarrow> principal \<Rightarrow> byte \<Rightarrow> (bool \<times> byte list) option" where
  "IsPermitted config szPath szServerID nPermissions = do {
     oURI \<leftarrow> DMToken_new False (\<lambda>_. None) (Some szPath) 0x2F;
     if config = [] then Some (True, szPath)
     else do {
       (r, oURI) \<leftarrow> permitted_loop (Suc (length szPath)) config szServerID nPermissions oURI;
       oURI \<leftarrow> token_reset oURI;
       szPath \<leftarrow> tk_str oURI;
       Some (r, szPath) } }"

text \<open>The specification: the nearest ancestor, the path included, that has a list decides.\<close>

definition nearest_acl :: "acl_item list \<Rightarrow> byte list \<Rightarrow> acl option" where
  "nearest_acl config path =
     (case find (\<lambda>p. acl_find p config \<noteq> None) (ancestors path) of
        None \<Rightarrow> None | Some p \<Rightarrow> acl_find p config)"

definition decision :: "acl_item list \<Rightarrow> byte list \<Rightarrow> principal \<Rightarrow> byte \<Rightarrow> bool" where
  "decision config path server n \<longleftrightarrow> config = [] \<or>
     (case nearest_acl config path of None \<Rightarrow> False
      | Some a \<Rightarrow> acl_IsPermitted [0x2A] n a \<or> acl_IsPermitted server n a)"

lemma nearest_acl_unfold:
  "nearest_acl config path =
     (case acl_find path config of Some a \<Rightarrow> Some a
      | None \<Rightarrow> (case last_pos 0x2F path of None \<Rightarrow> None
          | Some i \<Rightarrow> if i = 0 then None else nearest_acl config (take i path)))"
  unfolding nearest_acl_def
  by (subst ancestors.simps) (auto split: option.splits)

definition grants :: "principal \<Rightarrow> byte \<Rightarrow> acl option \<Rightarrow> bool" where
  "grants server n r \<longleftrightarrow> (case r of None \<Rightarrow> False
     | Some a \<Rightarrow> acl_IsPermitted [0x2A] n a \<or> acl_IsPermitted server n a)"

lemma token_text_at: "0 \<notin> set u \<Longrightarrow> token_text (token_at d u v rest tok) = Some u"
  by (simp add: token_text_def token_at_def)

lemma permitted_loop_at:
  assumes "0 \<notin> set u" "u \<noteq> []" "length u < k"
  shows "\<exists>t. permitted_loop k config server n (token_at 0x2F u v rest 0) =
      Some (grants server n (nearest_acl config u), t) \<and>
    token_reset t = Some (token_start 0x2F (u @ 0x2F # v) rest)"
  using assms
proof (induction k arbitrary: u v)
  case (Suc k)
  show ?case
  proof (cases "acl_find u config")
    case (Some a)
    with Suc.prems show ?thesis
      by (simp add: token_text_at token_reset_at nearest_acl_unfold [of config u] grants_def)
  next
    case None
    note parent = getParentURI_at [OF Suc.prems(1,2), of v rest]
    show ?thesis
    proof (cases "last_pos 0x2F u")
      case None
      with \<open>acl_find u config = None\<close> parent Suc.prems show ?thesis
        by (simp add: token_text_at token_reset_at nearest_acl_unfold [of config u] grants_def)
    next
      case (Some i)
      have u: "u = take i u @ 0x2F # drop (Suc i) u" and i: "i < length u"
        using last_pos_split [OF Some] last_pos_bound [OF Some] by blast+
      show ?thesis
      proof (cases "i = 0")
        case True
        with \<open>acl_find u config = None\<close> Some parent Suc.prems show ?thesis
          by (simp add: token_text_at token_reset_at nearest_acl_unfold [of config u] grants_def)
      next
        case False
        have "0 \<notin> set (take i u)" "take i u \<noteq> []" "length (take i u) < k"
          using Suc.prems i False by (auto dest: in_set_takeD)
        from Suc.IH [OF this, of "drop (Suc i) u @ 0x2F # v"] obtain t where
          "permitted_loop k config server n (token_at 0x2F (take i u) (drop (Suc i) u @ 0x2F # v) rest 0) =
            Some (grants server n (nearest_acl config (take i u)), t)"
          "token_reset t = Some (token_start 0x2F (take i u @ 0x2F # drop (Suc i) u @ 0x2F # v) rest)" by auto
        moreover have "take i u @ 0x2F # drop (Suc i) u @ 0x2F # v = u @ 0x2F # v"
          using u by (metis append.assoc append_Cons)
        ultimately show ?thesis
          using \<open>acl_find u config = None\<close> Some parent Suc.prems False
          by (simp add: token_text_at nearest_acl_unfold [of config u])
      qed
    qed
  qed
qed simp

text \<open>
  Property C7: the access decision. Without a configuration everything is allowed; otherwise the list
  of the nearest ancestor that has one decides, the node itself included, and a server is allowed
  what the list grants to it or to everybody. The search cuts the caller's path, and leaves it as it
  was.
\<close>

theorem IsPermitted_correct:
  assumes "0 \<notin> set path"
  shows "IsPermitted config (path @ 0 # rest) server n = Some (decision config path server n, path @ 0 # rest)"
proof (cases "config = []")
  case True
  then show ?thesis by (simp add: IsPermitted_def DMToken_new_shared decision_def)
next
  case False
  have d: "decision config path server n = grants server n (nearest_acl config path)"
    using False by (auto simp: decision_def grants_def)
  let ?k = "length (path @ 0 # rest)"
  have now: "token_text (token_start 0x2F path rest) = Some path"
    using assms by (simp add: token_text_def token_start_def)
  have start: "token_reset (token_start 0x2F path rest) = Some (token_start 0x2F path rest)"
    by (simp add: token_reset_def token_start_def)
  have str: "tk_str (token_start 0x2F path rest) = Some (path @ 0 # rest)" by (simp add: token_start_def)
  note parent = getParentURI_start [OF assms, of rest]
  show ?thesis
  proof (cases "acl_find path config")
    case (Some a)
    with False now start str show ?thesis unfolding d
      by (simp add: IsPermitted_def DMToken_new_shared nearest_acl_unfold [of config path] grants_def)
  next
    case None
    show ?thesis
    proof (cases "\<exists>i. last_pos 0x2F path = Some i \<and> i \<noteq> 0")
      case no_parent: False
      then have "nearest_acl config path = None"
        using None by (auto simp: nearest_acl_unfold [of config path] split: option.splits)
      moreover have "getParentURI (token_start 0x2F path rest) = Some (False, token_start 0x2F path rest)"
        using parent no_parent by (auto split: option.splits)
      ultimately show ?thesis using False None now start str unfolding d
        by (simp add: IsPermitted_def DMToken_new_shared grants_def)
    next
      case True
      then obtain i where i: "last_pos 0x2F path = Some i" "i \<noteq> 0" by auto
      have p: "path = take i path @ 0x2F # drop (Suc i) path" and l: "i < length path"
        using last_pos_split [OF i(1)] last_pos_bound [OF i(1)] by blast+
      have "0 \<notin> set (take i path)" "take i path \<noteq> []" "length (take i path) < ?k"
        using assms l i(2) by (auto dest: in_set_takeD)
      from permitted_loop_at [OF this, of config server n "drop (Suc i) path" rest] obtain t where
        "permitted_loop ?k config server n (token_at 0x2F (take i path) (drop (Suc i) path) rest 0) =
          Some (grants server n (nearest_acl config (take i path)), t)"
        "token_reset t = Some (token_start 0x2F path rest)"
        using p by auto
      then show ?thesis using False None now parent i str unfolding d
        by (simp add: IsPermitted_def DMToken_new_shared nearest_acl_unfold [of config path])
    qed
  qed
qed

lemma IsPermitted_correct_witness:
  "let config = [(bytes_of ''.'', [(bytes_of ''*'', GET)]), (bytes_of ''./A'', [(bytes_of ''srv'', ADD OR GET)])];
       path = bytes_of ''./A/B/C'' @ [0] in
   IsPermitted config path (bytes_of ''srv'') ADD = Some (True, path) \<and>
   IsPermitted config path (bytes_of ''oth'') GET = Some (False, path)"
proof -
  let ?config = "[(bytes_of ''.'', [(bytes_of ''*'', GET)]), (bytes_of ''./A'', [(bytes_of ''srv'', ADD OR GET)])]"
  have "decision ?config (bytes_of ''./A/B/C'') (bytes_of ''srv'') ADD"
    "\<not> decision ?config (bytes_of ''./A/B/C'') (bytes_of ''oth'') GET"
    by (simp_all add: decision_def nearest_acl_def ancestors.simps acl_find_def acl_IsPermitted_def
        GetPermissions_def permission_defs)
  then show ?thesis
    using IsPermitted_correct [of "bytes_of ''./A/B/C''" ?config "[]" "bytes_of ''srv''" ADD]
      IsPermitted_correct [of "bytes_of ''./A/B/C''" ?config "[]" "bytes_of ''oth''" GET]
    by simp
qed

section \<open>Text and list\<close>

fun join :: "byte \<Rightarrow> byte list list \<Rightarrow> byte list" where
  "join d [] = []"
| "join d [x] = x"
| "join d (x # y # xs) = x @ d # join d (y # xs)"

lemma join_Nil [simp]: "\<forall>x\<in>set xs. x \<noteq> [] \<Longrightarrow> (join d xs = []) = (xs = [])"
  by (cases xs; cases "tl xs") auto

lemma join_snoc: "xs \<noteq> [] \<Longrightarrow> join d (xs @ [x]) = join d xs @ d # x"
  by (induction xs rule: induct_list012) auto

lemma AttachProperty_join:
  "\<forall>y\<in>set xs. y \<noteq> [] \<Longrightarrow> AttachProperty d x (join d xs) = join d (xs @ [x])"
  by (cases "xs = []") (simp_all add: AttachProperty_def join_snoc)

lemma vector_Nil [simp]: "DmStrToStringVector d [] = []"
  by (subst DmStrToStringVector.simps) (simp add: DmStringParserGetItem_def)

lemma vector_last: "d \<notin> set x \<Longrightarrow> x \<noteq> [] \<Longrightarrow> DmStrToStringVector d x = [x]"
  by (subst DmStrToStringVector.simps) (simp add: DmStringParserGetItem_def)

lemma dropWhile_delim [simp]: "d \<notin> set p \<Longrightarrow> dropWhile (\<lambda>c. c \<noteq> d) (p @ d # q) = d # q"
  by (induction p) auto

lemma vector_Cons: "d \<notin> set x \<Longrightarrow> DmStrToStringVector d (x @ d # s) = x # DmStrToStringVector d s"
  by (subst DmStrToStringVector.simps) (simp add: DmStringParserGetItem_def)

lemma vector_join:
  "\<forall>x\<in>set xs. d \<notin> set x \<and> x \<noteq> [] \<Longrightarrow> DmStrToStringVector d (join d xs) = xs"
  by (induction d xs rule: join.induct) (simp_all add: vector_last vector_Cons)

text \<open>The principals with a permission, and names that the text form can carry.\<close>

definition holders :: "byte \<Rightarrow> acl \<Rightarrow> principal list" where
  "holders perm a = map fst (filter (\<lambda>(p, n). n AND perm \<noteq> 0) a)"

definition good_names :: "acl \<Rightarrow> bool" where
  "good_names a \<longleftrightarrow> distinct (map fst a) \<and>
     (\<forall>p\<in>set (map fst a). p \<noteq> [] \<and> 0x26 \<notin> set p \<and> 0x2B \<notin> set p)"

lemma attach_all_join:
  assumes "\<forall>p\<in>set (map fst a). p \<noteq> []"
  shows "attach_all perm a = join 0x2B (holders perm a)"
proof -
  have "\<forall>y\<in>set xs. y \<noteq> [] \<Longrightarrow> \<forall>p\<in>set (map fst a). p \<noteq> [] \<Longrightarrow>
      fold (\<lambda>(name, n) s. if n AND perm \<noteq> 0 then AttachProperty 0x2B name s else s) a (join 0x2B xs) =
      join 0x2B (xs @ holders perm a)" for xs
  proof (induction a arbitrary: xs)
    case (Cons b a)
    obtain p n where [simp]: "b = (p, n)" by (cases b)
    from Cons.IH [of "xs @ [p]"] Cons.IH [of xs] Cons.prems show ?case
      by (simp add: holders_def AttachProperty_join)
  qed (simp add: holders_def)
  from this [of "[]"] assms show ?thesis by (simp add: attach_all_def)
qed

text \<open>The commands of the text form in their order.\<close>

definition commands :: "(byte list \<times> byte) list" where
  "commands = [(bytes_of ''Add'', ADD), (bytes_of ''Delete'', DELETE), (bytes_of ''Exec'', EXEC),
     (bytes_of ''Get'', GET), (bytes_of ''Replace'', REPLACE)]"

definition items :: "(byte list \<times> byte) list \<Rightarrow> acl \<Rightarrow> byte list list" where
  "items cs a = map (\<lambda>(cmd, perm). cmd @ 0x3D # join 0x2B (holders perm a))
     (filter (\<lambda>(cmd, perm). holders perm a \<noteq> []) cs)"

lemma items_Nil [simp]: "\<forall>x\<in>set (items cs a). x \<noteq> []"
  by (auto simp: items_def)

lemma AddCommand_join:
  assumes "\<forall>y\<in>set xs. y \<noteq> []" "\<forall>p\<in>set (map fst a). p \<noteq> []"
  shows "AddCommand (cmd @ [0x3D]) (attach_all perm a) (join 0x26 xs) = join 0x26 (xs @ items [(cmd, perm)] a)"
proof -
  have "\<forall>x\<in>set (holders perm a). x \<noteq> []" using assms(2) by (auto simp: holders_def)
  then show ?thesis using assms
    by (cases "xs = []") (simp_all add: AddCommand_def attach_all_join items_def join_snoc)
qed

lemma AddCommand_fold:
  assumes "\<forall>p\<in>set (map fst a). p \<noteq> []"
  shows "\<forall>y\<in>set xs. y \<noteq> [] \<Longrightarrow>
    fold (\<lambda>(cmd, perm). AddCommand (cmd @ [0x3D]) (attach_all perm a)) cs (join 0x26 xs) = join 0x26 (xs @ items cs a)"
proof (induction cs arbitrary: xs)
  case (Cons c cs)
  obtain cmd perm where [simp]: "c = (cmd, perm)" by (cases c)
  have "items (c # cs) a = items [(cmd, perm)] a @ items cs a" by (simp add: items_def)
  with Cons.IH [of "xs @ items [(cmd, perm)] a"] Cons.prems AddCommand_join [OF Cons.prems assms] show ?case
    by (auto simp: ball_Un)
qed (simp add: items_def)

lemma toString_join:
  assumes "\<forall>p\<in>set (map fst a). p \<noteq> []"
  shows "toString a = join 0x26 (items commands a)"
  using AddCommand_fold [OF assms, of "[]" commands] by (simp add: toString_def commands_def)

text \<open>Reading one command back.\<close>

lemma GetPermissions_AddPermission:
  "GetPermissions q (AddPermission p n a) = (if q = p then n OR GetPermissions p a else GetPermissions q a)"
  by (simp add: AddPermission_def GetPermissions_def)

lemma GetPermissions_fold:
  "GetPermissions q (fold (\<lambda>h. AddPermission h n) hs a) =
     GetPermissions q a OR (if q \<in> set hs then n else 0)"
  by (induction hs arbitrary: a) (auto simp: GetPermissions_AddPermission or.assoc or.commute or.left_commute)

lemma parse_item_command:
  assumes "command_permission cmd = Some perm" "0x3D \<notin> set cmd" "cmd \<noteq> []"
    "\<forall>h\<in>set hs. 0x2B \<notin> set h \<and> h \<noteq> []"
  shows "parse_item (cmd @ 0x3D # join 0x2B hs) a = fold (\<lambda>h. AddPermission h perm) hs a"
  using assms by (simp add: parse_item_def DmStringParserGetItem_def vector_join)

lemma holders_iff:
  "distinct (map fst a) \<Longrightarrow> p \<in> set (holders perm a) \<longleftrightarrow> GetPermissions p a AND perm \<noteq> 0"
  by (induction a) (auto simp: holders_def GetPermissions_def image_iff map_of_eq_None_iff split: option.splits)

lemma parse_items:
  assumes "good_names a" "\<forall>(cmd, perm)\<in>set cs. command_permission cmd = Some perm \<and> 0x3D \<notin> set cmd \<and> cmd \<noteq> []"
  shows "GetPermissions q (fold parse_item (items cs a) b) =
    fold (\<lambda>(cmd, perm) m. m OR (if q \<in> set (holders perm a) then perm else 0)) cs (GetPermissions q b)"
  using assms(2)
proof (induction cs arbitrary: b)
  case (Cons c cs)
  obtain cmd perm where [simp]: "c = (cmd, perm)" by (cases c)
  have "\<forall>h\<in>set (holders perm a). 0x2B \<notin> set h \<and> h \<noteq> []"
    using assms(1) by (auto simp: holders_def good_names_def)
  with Cons show ?case
    by (auto simp: items_def parse_item_command GetPermissions_fold)
qed (simp add: items_def)

lemma single_bit:
  "(if (n::byte) AND 2 ^ k \<noteq> 0 then 2 ^ k else 0) = n AND 2 ^ k"
  by (rule bit_word_eqI) (auto simp: and_exp_eq_0_iff_not_bit bit_simps)

lemma single_bits:
  "(if (n::byte) AND 0x01 \<noteq> 0 then 0x01 else 0) = n AND 0x01"
  "(if n AND 0x02 \<noteq> 0 then 0x02 else 0) = n AND 0x02"
  "(if n AND 0x04 \<noteq> 0 then 0x04 else 0) = n AND 0x04"
  "(if n AND 0x08 \<noteq> 0 then 0x08 else 0) = n AND 0x08"
  "(if n AND 0x10 \<noteq> 0 then 0x10 else 0) = n AND 0x10"
proof -
  have p: "(2::byte) ^ 0 = 0x01" "(2::byte) ^ 1 = 0x02" "(2::byte) ^ 2 = 0x04" "(2::byte) ^ 3 = 0x08" "(2::byte) ^ 4 = 0x10"
    by simp_all
  show "(if (n::byte) AND 0x01 \<noteq> 0 then 0x01 else 0) = n AND 0x01" using single_bit [of n 0] unfolding p .
  show "(if n AND 0x02 \<noteq> 0 then 0x02 else 0) = n AND 0x02" using single_bit [of n 1] unfolding p .
  show "(if n AND 0x04 \<noteq> 0 then 0x04 else 0) = n AND 0x04" using single_bit [of n 2] unfolding p .
  show "(if n AND 0x08 \<noteq> 0 then 0x08 else 0) = n AND 0x08" using single_bit [of n 3] unfolding p .
  show "(if n AND 0x10 \<noteq> 0 then 0x10 else 0) = n AND 0x10" using single_bit [of n 4] unfolding p .
qed

text \<open>
  Property C35: the text form of a list is faithful. A list whose principals have names without the two
  separators is written and read back to a list with the same decision for every principal and
  every permission; only the order of the principals may differ.
\<close>

theorem acl_text_roundtrip:
  assumes "good_names a"
  shows "GetPermissions p (DmtAcl (Some (toString a))) = GetPermissions p a AND 0x1F"
proof -
  let ?n = "GetPermissions p a"
  have d: "distinct (map fst a)" and ne: "\<forall>p\<in>set (map fst a). p \<noteq> []"
    using assms by (auto simp: good_names_def)
  have cs: "\<forall>(cmd, perm)\<in>set commands. command_permission cmd = Some perm \<and> 0x3D \<notin> set cmd \<and> cmd \<noteq> []"
    by (simp add: commands_def command_permission_def)
  have no_amp: "\<forall>(cmd, perm)\<in>set commands. 0x26 \<notin> set cmd" by (simp add: commands_def)
  have join_amp: "0x26 \<notin> set (join 0x2B xs)" if "\<forall>x\<in>set xs. 0x26 \<notin> set x" for xs :: "byte list list"
    using that by (induction "0x2B::byte" xs rule: join.induct) auto
  have "0x26 \<notin> set (join 0x2B (holders perm a))" for perm
    using assms by (intro join_amp) (auto simp: holders_def good_names_def)
  then have "\<forall>x\<in>set (items commands a). 0x26 \<notin> set x \<and> x \<noteq> []"
    using no_amp by (fastforce simp: items_def)
  then have "DmtAcl (Some (toString a)) = fold parse_item (items commands a) []"
    unfolding toString_join [OF ne] by (simp add: DmtAcl_def vector_join)
  then have "GetPermissions p (DmtAcl (Some (toString a))) =
      fold (\<lambda>(cmd, perm) m. m OR (if p \<in> set (holders perm a) then perm else 0)) commands 0"
    using parse_items [OF assms cs, of p "[]"] by (simp add: GetPermissions_def [of p "[]"])
  also have "\<dots> = (?n AND 0x01) OR (?n AND 0x02) OR (?n AND 0x10) OR (?n AND 0x04) OR (?n AND 0x08)"
    unfolding commands_def permission_defs
    by (simp only: fold_simps prod.case holders_iff [OF d] single_bits) (simp add: or.assoc)
  also have "\<dots> = ?n AND 0x1F"
    by (simp flip: bit.conj_disj_distrib)
  finally show ?thesis .
qed

lemma acl_text_roundtrip_witness:
  "let a = [(bytes_of ''srv'', ADD OR GET), (bytes_of ''*'', GET)] in
   GetPermissions (bytes_of ''srv'') (DmtAcl (Some (toString a))) = 0x05 \<and>
   toString a = bytes_of ''Add=srv&Get=srv+*''"
proof -
  let ?a = "[(bytes_of ''srv'', ADD OR GET), (bytes_of ''*'', GET)]"
  have "good_names ?a" by (simp add: good_names_def)
  from acl_text_roundtrip [OF this, of "bytes_of ''srv''"] show ?thesis
    by (simp add: GetPermissions_def permission_defs toString_def AddCommand_def attach_all_def AttachProperty_def)
qed

end
