(* ===== verification/Dm_Config.thy ===== *)
theory Dm_Config
  imports Dm_Acl
begin

text \<open>
  The configuration files of the access control lists: reading and writing of the file
  (\<open>dmConfigManager.cc\<close>, \<open>dmConfigItem.cc\<close>, \<open>dmACLItem.cc\<close>, \<open>fgets\<close> of \<open>SyncML_DM_FileHandle.cc\<close>), the
  operations of the manager, and the replacement of the inp with its recovery after a power failure.
\<close>

section \<open>Lines\<close>

definition DM_MAX_CONFIG_LINE :: nat where "DM_MAX_CONFIG_LINE = 400"

text \<open>
  The loop of \<open>fgets\<close>: the bytes read so far and the flag that one of them was not blank. The loop
  reads a character before it looks at the room for it: the character that does not fit is lost.
\<close>

fun fgets_loop :: "nat \<Rightarrow> bool \<Rightarrow> byte list \<Rightarrow> byte list \<Rightarrow> byte list \<times> byte list" where
  "fgets_loop n bIsValid s [] = (s, [])"
| "fgets_loop n bIsValid s (c # inp) =
     (if n \<le> length s + 1 then (s, inp)
      else if c = 0x0A then (s, inp)
      else if c = 0x0D then fgets_loop n bIsValid s inp
      else let c = (if c = 0x09 then 0x20 else c) in
        if c \<noteq> 0x20 then fgets_loop n True (s @ [c]) inp
        else if \<not> bIsValid then fgets_loop n bIsValid s inp
        else fgets_loop n bIsValid (s @ [c]) inp)"

definition fgets :: "nat \<Rightarrow> byte list \<Rightarrow> byte list \<times> byte list" where
  "fgets n inp = (case fgets_loop n False [] inp of (s, inp') \<Rightarrow>
     (takeWhile (\<lambda>c. c \<noteq> 0) (drop_last_while (\<lambda>c. c = 0x20) s), inp'))"

lemma fgets_loop_length: "length (snd (fgets_loop n v s inp)) \<le> length inp"
  by (induction n v s inp rule: fgets_loop.induct) (auto simp: Let_def)

lemma fgets_length: "fgets n (c # inp) = (line, inp') \<Longrightarrow> length inp' < Suc (length inp)"
  using fgets_loop_length [of n True "[c]" inp] fgets_loop_length [of n False "[]" inp]
    fgets_loop_length [of n True "[0x20]" inp]
  by (auto simp: fgets_def Let_def split: prod.splits if_splits)

text \<open>The next line that is not a comment.\<close>

function GetNextLine :: "byte list \<Rightarrow> (byte list \<times> byte list) option" where
  "GetNextLine [] = None"
| "GetNextLine (c # inp) =
     (case fgets DM_MAX_CONFIG_LINE (c # inp) of (line, inp') \<Rightarrow>
        if take 1 line \<noteq> [0x23] then Some (line, inp') else GetNextLine inp')"
  by pat_completeness auto
termination by (relation "measure length") (auto intro: fgets_length dest: sym)

lemma GetNextLine_length: "GetNextLine inp = Some (line, inp') \<Longrightarrow> length inp' < length inp"
proof (induction inp rule: GetNextLine.induct)
  case (2 c inp)
  show ?case
  proof (cases "fgets DM_MAX_CONFIG_LINE (c # inp)")
    case (Pair l f)
    with 2 fgets_length [OF Pair] show ?thesis by (auto split: if_splits)
  qed
qed simp

section \<open>Numbers\<close>

definition is_space :: "byte \<Rightarrow> bool" where
  "is_space c \<longleftrightarrow> c = 0x20 \<or> 0x09 \<le> c \<and> c \<le> 0x0D"

fun digits_value :: "int \<Rightarrow> byte list \<Rightarrow> int" where
  "digits_value v [] = v"
| "digits_value v (c # s) =
     (if 0x30 \<le> c \<and> c \<le> 0x39 then digits_value (v * 10 + uint (c - 0x30)) s else v)"

text \<open>\<open>atoi\<close>; a number that is no \<open>int\<close> is undefined.\<close>

definition atoi :: "byte list \<Rightarrow> int option" where
  "atoi s = (case dropWhile is_space s of
       [] \<Rightarrow> Some 0
     | c # t \<Rightarrow>
         s32 (if c = 0x2D then - digits_value 0 t
              else if c = 0x2B then digits_value 0 t else digits_value 0 (c # t)))"

text \<open>The format \<open>%d\<close> of a number that is not negative.\<close>

fun decimal :: "nat \<Rightarrow> byte list" where
  "decimal n = (if n < 10 then [of_nat (48 + n)] else decimal (n div 10) @ [of_nat (48 + n mod 10)])"

declare decimal.simps [simp del]

section \<open>Reading\<close>

type_synonym id_dict = "(int \<times> principal) list"
type_synonym name_dict = "(principal \<times> nat) list"

definition ParsePermission :: "byte list \<Rightarrow> byte option" where
  "ParsePermission szKeyWord =
     (if szKeyWord = bytes_of ''A'' then Some ADD
      else if szKeyWord = bytes_of ''D'' then Some DELETE
      else if szKeyWord = bytes_of ''E'' then Some EXEC
      else if szKeyWord = bytes_of ''G'' then Some GET
      else if szKeyWord = bytes_of ''R'' then Some REPLACE
      else None)"

text \<open>The status of the parsing functions is a flag; what was read before an error stays.\<close>

fun parse_principals :: "byte list list \<Rightarrow> byte \<Rightarrow> id_dict \<Rightarrow> acl \<Rightarrow> (bool \<times> acl) option" where
  "parse_principals [] nPermission aDict a = Some (True, a)"
| "parse_principals (pSegment # ss) nPermission aDict a = do {
     i \<leftarrow> atoi pSegment;
     (case map_of aDict i of
        None \<Rightarrow> Some (False, a)
      | Some strPrincipal \<Rightarrow> parse_principals ss nPermission aDict (AddPermission strPrincipal nPermission a)) }"

definition ParsePrincipal :: "byte list \<Rightarrow> byte \<Rightarrow> id_dict \<Rightarrow> acl \<Rightarrow> (bool \<times> acl) option" where
  "ParsePrincipal szSegment = parse_principals (token_segments 0x2B szSegment)"

text \<open>\<open>room\<close> is the size of the parser's table of segments; more of them are written behind it.\<close>

definition ParseSegment :: "nat \<Rightarrow> byte list \<Rightarrow> id_dict \<Rightarrow> acl \<Rightarrow> (bool \<times> acl) option" where
  "ParseSegment room szSegment aDict a =
     (let segs = parser_segments 0x3D szSegment in
      if room < length segs then None
      else (case segs of
          pKeyWord # pValue # _ \<Rightarrow>
            (case ParsePermission pKeyWord of
               None \<Rightarrow> Some (False, a)
             | Some nPermission \<Rightarrow> ParsePrincipal pValue nPermission aDict a)
        | _ \<Rightarrow> Some (False, a)))"

fun parse_commands :: "nat \<Rightarrow> byte list list \<Rightarrow> id_dict \<Rightarrow> acl \<Rightarrow> (bool \<times> acl) option" where
  "parse_commands room [] aDict a = Some (True, a)"
| "parse_commands room (pCommand # cs) aDict a = do {
     (ok, a) \<leftarrow> ParseSegment room pCommand aDict a;
     if ok then parse_commands room cs aDict a else Some (False, a) }"

definition DMAclItem_Set :: "nat \<Rightarrow> byte list \<Rightarrow> id_dict \<Rightarrow> (bool \<times> acl) option" where
  "DMAclItem_Set room szConfig aDict = parse_commands room (token_segments 0x26 szConfig) aDict []"

function DeserializeDictionary :: "byte list \<Rightarrow> id_dict \<Rightarrow> (id_dict \<times> byte list) option" where
  "DeserializeDictionary inp aDict =
     (case GetNextLine inp of
        None \<Rightarrow> Some (aDict, [])
      | Some (line, inp') \<Rightarrow>
          if line = [] then Some (aDict, inp')
          else (case DmStringParserGetItem 0x3A [] line of (_, strID, strSrv) \<Rightarrow> do {
            i \<leftarrow> atoi strID;
            DeserializeDictionary inp' (al_put i strSrv aDict) }))"
  by pat_completeness auto
termination by (relation "measure (\<lambda>(inp, d). length inp)") (auto dest: GetNextLine_length)

declare DeserializeDictionary.simps [simp del]

text \<open>The path of a line: between the first brackets, with a dot in front.\<close>

definition config_GetPath :: "byte list \<Rightarrow> byte list option" where
  "config_GetPath line =
     (if 0x5B \<in> set line \<and> 0x5D \<in> set line then
        let startP = length (takeWhile (\<lambda>c. c \<noteq> 0x5B) line);
            endP = length (takeWhile (\<lambda>c. c \<noteq> 0x5D) line)
        in if endP < startP then None
           else let p = drop (startP + 1) (take endP line)
                in Some ((if take 1 p \<noteq> [0x2E] then [0x2E] else []) @ p)
      else None)"

text \<open>\<open>Add\<close>: the new configuration, or failure for a path that is there or a value that cannot be read.\<close>

definition config_Add :: "nat \<Rightarrow> byte list \<Rightarrow> byte list \<Rightarrow> id_dict \<Rightarrow> acl_item list \<Rightarrow> (bool \<times> acl_item list) option" where
  "config_Add room szPath szConfig aDict config =
     (if acl_find szPath config \<noteq> None then Some (False, config)
      else do {
        (ok, a) \<leftarrow> DMAclItem_Set room szConfig aDict;
        Some (ok, if ok then config @ [(szPath, a)] else config) })"

text \<open>The entries; the loop stops silently at a value that is missing or cannot be read.\<close>

function read_entries :: "nat \<Rightarrow> id_dict \<Rightarrow> byte list \<Rightarrow> acl_item list \<Rightarrow> acl_item list option" where
  "read_entries room aDict inp config =
     (case GetNextLine inp of
        None \<Rightarrow> Some config
      | Some (line, inp') \<Rightarrow>
          (case config_GetPath line of
             None \<Rightarrow> read_entries room aDict inp' config
           | Some strPath \<Rightarrow>
               (case GetNextLine inp' of
                  None \<Rightarrow> Some config
                | Some (line', inp'') \<Rightarrow> do {
                    (ok, config) \<leftarrow> config_Add room strPath line' aDict config;
                    if ok then read_entries room aDict inp'' config else Some config })))"
  by pat_completeness auto
termination
  by (relation "measure (\<lambda>(r, d, inp, c). length inp)") (auto dest!: GetNextLine_length)

declare read_entries.simps [simp del]

definition read_config :: "nat \<Rightarrow> byte list \<Rightarrow> acl_item list option" where
  "read_config room inp = do {
     (aDict, inp) \<leftarrow> DeserializeDictionary inp [];
     read_entries room aDict inp [] }"

section \<open>Writing\<close>

fun update_dictionary :: "principal list \<Rightarrow> name_dict \<Rightarrow> name_dict" where
  "update_dictionary [] aDict = aDict"
| "update_dictionary (p # ps) aDict =
     update_dictionary ps (if map_of aDict p = None then al_put p (length aDict + 1) aDict else aDict)"

definition UpdateDictionary :: "acl_item list \<Rightarrow> name_dict \<Rightarrow> name_dict" where
  "UpdateDictionary config aDict = fold (\<lambda>(_, a). update_dictionary (GetPrincipals a)) config aDict"

text \<open>The writes of a function, one list of bytes for every call of \<open>write\<close>.\<close>

definition SerializeDictionary :: "name_dict \<Rightarrow> byte list list" where
  "SerializeDictionary aDict = concat (map (\<lambda>(name, i). [decimal i @ [0x3A], name, [0x0A]]) aDict)"

fun principal_ids :: "name_dict \<Rightarrow> principal list \<Rightarrow> byte list \<Rightarrow> byte list option" where
  "principal_ids aDict [] s = Some s"
| "principal_ids aDict (p # ps) s = do {
     i \<leftarrow> map_of aDict p;
     principal_ids aDict ps (AttachProperty 0x2B (decimal i) s) }"

definition CreateProperty :: "principal list \<Rightarrow> byte list \<Rightarrow> name_dict \<Rightarrow> byte list option" where
  "CreateProperty aPrincipals szKey aDict = do {
     strPrincipals \<leftarrow> principal_ids aDict aPrincipals [];
     Some (szKey @ strPrincipals) }"

definition item_commands :: "(byte \<times> byte list) list" where
  "item_commands = [(ADD, bytes_of ''A=''), (DELETE, bytes_of ''D=''), (GET, bytes_of ''G=''),
     (EXEC, bytes_of ''E=''), (REPLACE, bytes_of ''R='')]"

fun item_text :: "(byte \<times> byte list) list \<Rightarrow> name_dict \<Rightarrow> acl \<Rightarrow> byte list \<Rightarrow> byte list option" where
  "item_text [] aDict a str = Some str"
| "item_text ((nPermission, szCmd) # cs) aDict a str =
     (let aSelected = filter (\<lambda>p. acl_IsPermitted p nPermission a) (GetPrincipals a) in
      if aSelected = [] then item_text cs aDict a str
      else do {
        strProperty \<leftarrow> CreateProperty aSelected szCmd aDict;
        item_text cs aDict a (AttachProperty 0x26 strProperty str) })"

definition DMAclItem_Serialize :: "name_dict \<Rightarrow> acl_item \<Rightarrow> byte list list option" where
  "DMAclItem_Serialize aDict it = do {
     str \<leftarrow> item_text item_commands aDict (snd it) [];
     Some ([[0x5B], fst it, [0x5D, 0x0A]] @ (if str = [] then [] else [str, [0x0A]])) }"

fun serialize_items :: "name_dict \<Rightarrow> acl_item list \<Rightarrow> byte list list option" where
  "serialize_items aDict [] = Some []"
| "serialize_items aDict (it # its) = do {
     w \<leftarrow> DMAclItem_Serialize aDict it;
     ws \<leftarrow> serialize_items aDict its;
     Some (w @ ws) }"

definition config_writes :: "acl_item list \<Rightarrow> byte list list option" where
  "config_writes config =
     (if config = [] then Some []
      else let aDict = UpdateDictionary config [] in do {
        ws \<leftarrow> serialize_items aDict config;
        Some (SerializeDictionary aDict @ [[0x0A]] @ ws) })"

section \<open>Lines that can be stored\<close>

definition line_ok :: "byte list \<Rightarrow> bool" where
  "line_ok line \<longleftrightarrow> length line + 1 < DM_MAX_CONFIG_LINE \<and> set line \<inter> {0, 0x09, 0x0A, 0x0D} = {} \<and>
     (line \<noteq> [] \<longrightarrow> hd line \<noteq> 0x20 \<and> hd line \<noteq> 0x23 \<and> last line \<noteq> 0x20)"

lemma fgets_loop_line:
  assumes "length s + length line + 1 < n" "set line \<inter> {0x09, 0x0A, 0x0D} = {}"
    "v \<or> (line \<noteq> [] \<longrightarrow> hd line \<noteq> 0x20)"
  shows "fgets_loop n v s (line @ 0x0A # rest) = (s @ line, rest)"
  using assms by (induction line arbitrary: s v) (auto simp: Let_def)

lemma drop_last_while_id: "xs \<noteq> [] \<longrightarrow> \<not> P (last xs) \<Longrightarrow> drop_last_while P xs = xs"
  by (cases xs rule: rev_cases) (auto simp: drop_last_while_def)

lemma GetNextLine_line:
  assumes "line_ok line"
  shows "GetNextLine (line @ 0x0A # rest) = Some (line, rest)"
proof -
  have "fgets_loop DM_MAX_CONFIG_LINE False [] (line @ 0x0A # rest) = (line, rest)"
    using fgets_loop_line [of "[]" line DM_MAX_CONFIG_LINE False rest] assms by (auto simp: line_ok_def)
  moreover have "drop_last_while (\<lambda>c. c = 0x20) line = line"
    using assms by (intro drop_last_while_id) (auto simp: line_ok_def)
  moreover have "0 \<notin> set line" "take 1 line \<noteq> [0x23]"
    using assms by (auto simp: line_ok_def) (cases line, auto)
  ultimately show ?thesis
    by (cases "line @ 0x0A # rest") (auto simp: fgets_def)
qed

lemma line_ok_Nil [simp]: "line_ok []"
  by (simp add: line_ok_def DM_MAX_CONFIG_LINE_def)

section \<open>Segments of joined strings\<close>

lemma split_at_join: "xs \<noteq> [] \<Longrightarrow> \<forall>x\<in>set xs. d \<notin> set x \<Longrightarrow> split_at d (join d xs) = xs"
  by (induction d xs rule: join.induct) auto

lemma token_segments_join:
  assumes "\<forall>x\<in>set xs. d \<notin> set x \<and> x \<noteq> []"
  shows "token_segments d (join d xs) = xs"
proof (cases "xs = []")
  case True
  then show ?thesis by (simp add: token_segments_def)
next
  case False
  with assms show ?thesis by (simp add: token_segments_def split_at_join takeWhile_eq_all_conv)
qed

section \<open>Numbers read back\<close>

lemma unat_byte: "n < 256 \<Longrightarrow> unat (of_nat n :: byte) = n"
  by (simp add: unsigned_of_nat take_bit_nat_eq_self)

lemma digit_byte:
  assumes "k < 10"
  shows "0x30 \<le> (of_nat (48 + k) :: byte)" "(of_nat (48 + k) :: byte) \<le> 0x39"
    "uint ((of_nat (48 + k) :: byte) - 0x30) = int k"
proof -
  have u: "unat (of_nat (48 + k) :: byte) = 48 + k" using assms by (intro unat_byte) simp
  show "0x30 \<le> (of_nat (48 + k) :: byte)" "(of_nat (48 + k) :: byte) \<le> 0x39"
    using assms u by (simp_all add: word_le_nat_alt del: of_nat_add)
  have "(of_nat (48 + k) :: byte) - 0x30 = of_nat k" by simp
  then show "uint ((of_nat (48 + k) :: byte) - 0x30) = int k"
    using unat_byte [of k] assms by (simp add: uint_nat del: of_nat_add)
qed

lemma decimal_digits: "\<forall>c\<in>set (decimal n). 0x30 \<le> c \<and> c \<le> 0x39"
proof (induction n rule: decimal.induct)
  case (1 n)
  show ?case using 1 digit_byte [of n] digit_byte [of "n mod 10"]
    by (subst decimal.simps) (auto simp del: of_nat_add)
qed

lemma decimal_not_Nil [simp]: "decimal n \<noteq> []"
  by (subst decimal.simps) auto

lemma decimal_no_sep:
  "x \<notin> set (decimal n)" if "x < 0x30 \<or> 0x39 < x"
  using decimal_digits [of n] that by force

lemma digits_value_append:
  "\<forall>c\<in>set s. 0x30 \<le> c \<and> c \<le> 0x39 \<Longrightarrow> digits_value v (s @ t) = digits_value (digits_value v s) t"
  by (induction s arbitrary: v) auto

lemma digits_value_decimal: "digits_value 0 (decimal n) = int n"
proof (induction n rule: decimal.induct)
  case (1 n)
  have d: "digits_value v [of_nat (48 + k)] = v * 10 + int k" if "k < 10" for v k
    using digit_byte [OF that] by (simp del: of_nat_add)
  show ?case
  proof (cases "n < 10")
    case True
    with d [of n 0] show ?thesis by (subst decimal.simps) (simp del: of_nat_add)
  next
    case False
    have "digits_value 0 (decimal n) = digits_value 0 (decimal (n div 10) @ [of_nat (48 + n mod 10)])"
      using False by (subst decimal.simps) simp
    also have "\<dots> = digits_value (int (n div 10)) [of_nat (48 + n mod 10)]"
      using decimal_digits [of "n div 10"] 1 False by (simp only: digits_value_append) simp
    also have "\<dots> = int n" by (subst d) (simp_all add: zdiv_int zmod_int)
    finally show ?thesis .
  qed
qed

lemma atoi_decimal: "n < 2 ^ 31 \<Longrightarrow> atoi (decimal n) = Some (int n)"
proof -
  assume n: "n < 2 ^ 31"
  obtain c t where ct: "decimal n = c # t" by (cases "decimal n") auto
  with decimal_digits [of n] have c: "0x30 \<le> c" "c \<le> 0x39" by auto
  then have "\<not> is_space c" "c \<noteq> 0x2D" "c \<noteq> 0x2B" by (auto simp: is_space_def word_le_nat_alt)
  with ct digits_value_decimal [of n] n show ?thesis
    by (auto simp: atoi_def s32_def)
qed

section \<open>The dictionary\<close>

definition dict_ok :: "name_dict \<Rightarrow> bool" where
  "dict_ok d \<longleftrightarrow> distinct (map fst d) \<and> map snd d = [1..<Suc (length d)]"

lemma al_put_append: "map_of ps k = None \<Longrightarrow> al_put k x ps = ps @ [(k, x)]"
  by (induction ps) (auto split: if_splits)

lemma dict_ok_put: "dict_ok d \<Longrightarrow> map_of d p = None \<Longrightarrow> dict_ok (al_put p (length d + 1) d)"
  by (simp add: dict_ok_def al_put_append map_of_eq_None_iff)

lemma update_dictionary_ok:
  "dict_ok d \<Longrightarrow> dict_ok (update_dictionary ps d) \<and>
    fst ` set (update_dictionary ps d) = fst ` set d \<union> set ps"
proof (induction ps d rule: update_dictionary.induct)
  case (2 p ps d)
  show ?case
  proof (cases "map_of d p")
    case None
    with 2 dict_ok_put [OF 2(2) None] show ?thesis by (auto simp: al_put_append)
  next
    case (Some i)
    then have "p \<in> fst ` set d" by (metis map_of_eq_None_iff option.distinct(1))
    with 2 Some show ?thesis by auto
  qed
qed simp

lemma UpdateDictionary_ok:
  "dict_ok d \<Longrightarrow> dict_ok (UpdateDictionary config d) \<and>
    fst ` set (UpdateDictionary config d) = fst ` set d \<union> (\<Union>(_, a)\<in>set config. set (GetPrincipals a))"
proof (induction config arbitrary: d)
  case (Cons it config)
  obtain p a where [simp]: "it = (p, a)" by (cases it)
  from Cons.IH [of "update_dictionary (GetPrincipals a) d"] update_dictionary_ok [OF Cons.prems, of "GetPrincipals a"]
  show ?case by (auto simp: UpdateDictionary_def)
qed (simp add: UpdateDictionary_def)

text \<open>The dictionary as it is read: numbers to names.\<close>

definition ids_of :: "name_dict \<Rightarrow> id_dict" where
  "ids_of d = map (\<lambda>(name, i). (int i, name)) d"

definition dict_line_ok :: "principal \<times> nat \<Rightarrow> bool" where
  "dict_line_ok e \<longleftrightarrow> line_ok (decimal (snd e) @ 0x3A # fst e) \<and> snd e < 2 ^ 31"

lemma Deserialize_dictionary:
  assumes "\<forall>e\<in>set d. dict_line_ok e" "distinct (map fst acc @ map (int \<circ> snd) d)"
  shows "DeserializeDictionary (concat (SerializeDictionary d) @ 0x0A # rest) acc = Some (acc @ ids_of d, rest)"
  using assms
proof (induction d arbitrary: acc)
  case Nil
  from GetNextLine_line [of "[]" rest] show ?case
    by (subst DeserializeDictionary.simps) (simp add: SerializeDictionary_def ids_of_def)
next
  case (Cons e d)
  obtain name i where e: "e = (name, i)" by (cases e)
  let ?line = "decimal i @ 0x3A # name"
  from Cons.prems(1) e have l: "line_ok ?line" "i < 2 ^ 31" by (auto simp: dict_line_ok_def)
  have "0x3A \<notin> set (decimal i)" by (rule decimal_no_sep) simp
  then have item: "DmStringParserGetItem 0x3A [] ?line = (True, decimal i, name)"
    by (simp add: DmStringParserGetItem_def)
  have f: "concat (SerializeDictionary (e # d)) @ 0x0A # rest =
      ?line @ 0x0A # concat (SerializeDictionary d) @ 0x0A # rest"
    by (simp add: SerializeDictionary_def e)
  have "map_of acc (int i) = None" using Cons.prems(2) e by (auto simp: map_of_eq_None_iff)
  moreover have "GetNextLine (?line @ 0x0A # R) = Some (?line, R)" for R
    by (rule GetNextLine_line [OF l(1)])
  ultimately show ?case
    using Cons.IH [of "acc @ [(int i, name)]"] Cons.prems e item l
    unfolding f
    by (subst DeserializeDictionary.simps) (simp add: atoi_decimal al_put_append ids_of_def)
qed

section \<open>One entry\<close>

definition selected :: "byte \<Rightarrow> acl \<Rightarrow> principal list" where
  "selected perm a = filter (\<lambda>p. acl_IsPermitted p perm a) (GetPrincipals a)"

definition id_strings :: "name_dict \<Rightarrow> principal list \<Rightarrow> byte list list" where
  "id_strings d ps = map (\<lambda>p. decimal (the (map_of d p))) ps"

definition properties_of :: "(byte \<times> byte list) list \<Rightarrow> name_dict \<Rightarrow> acl \<Rightarrow> byte list list" where
  "properties_of cs d a = map (\<lambda>(perm, cmd). cmd @ join 0x2B (id_strings d (selected perm a)))
     (filter (\<lambda>(perm, cmd). selected perm a \<noteq> []) cs)"

lemma principal_ids_join:
  assumes "set ps \<subseteq> fst ` set d" "\<forall>x\<in>set xs. x \<noteq> []"
  shows "principal_ids d ps (join 0x2B xs) = Some (join 0x2B (xs @ id_strings d ps))"
  using assms
proof (induction ps arbitrary: xs)
  case (Cons p ps)
  then obtain i where "map_of d p = Some i"
    by (metis insert_subset list.simps(15) map_of_eq_None_iff not_Some_eq)
  with Cons.IH [of "xs @ [decimal i]"] Cons.prems show ?case
    by (simp add: id_strings_def AttachProperty_join)
qed (simp add: id_strings_def)

lemma item_text_join:
  assumes "set (GetPrincipals a) \<subseteq> fst ` set d" "\<forall>(perm, cmd)\<in>set cs. cmd \<noteq> []" "\<forall>x\<in>set xs. x \<noteq> []"
  shows "item_text cs d a (join 0x26 xs) = Some (join 0x26 (xs @ properties_of cs d a))"
  using assms(2,3)
proof (induction cs arbitrary: xs)
  case (Cons c cs)
  obtain perm cmd where [simp]: "c = (perm, cmd)" by (cases c)
  have sel: "filter (\<lambda>p. acl_IsPermitted p perm a) (GetPrincipals a) = selected perm a"
    by (simp add: selected_def)
  have "set (selected perm a) \<subseteq> fst ` set d" using assms(1) by (auto simp: selected_def)
  then have cp: "CreateProperty (selected perm a) cmd d = Some (cmd @ join 0x2B (id_strings d (selected perm a)))"
    using principal_ids_join [of "selected perm a" d "[]"] by (simp add: CreateProperty_def)
  show ?case
    using Cons.IH [of xs] Cons.IH [of "xs @ [cmd @ join 0x2B (id_strings d (selected perm a))]"] Cons.prems
    by (simp add: Let_def sel cp properties_of_def AttachProperty_join)
qed (simp add: properties_of_def)

text \<open>What a list is after it was written and read: the commands add the permissions again.\<close>

definition reread :: "(byte \<times> byte list) list \<Rightarrow> acl \<Rightarrow> acl \<Rightarrow> acl" where
  "reread cs a b = fold (\<lambda>(perm, cmd). fold (\<lambda>p. AddPermission p perm) (selected perm a)) cs b"

lemma parse_principals_ok:
  assumes "\<forall>p\<in>set ps. \<exists>i. map_of d p = Some i \<and> i < 2 ^ 31" "dict_ok d"
  shows "parse_principals (id_strings d ps) perm (ids_of d) b = Some (True, fold (\<lambda>p. AddPermission p perm) ps b)"
  using assms(1)
proof (induction ps arbitrary: b)
  case (Cons p ps)
  then obtain i where i: "map_of d p = Some i" "i < 2 ^ 31" by auto
  have "map fst (ids_of d) = map int (map snd d)" by (simp add: ids_of_def case_prod_beta)
  with assms(2) have "distinct (map fst (ids_of d))"
    by (simp add: dict_ok_def distinct_map del: map_map upt_Suc)
  moreover have "(int i, p) \<in> set (ids_of d)"
    using map_of_SomeD [OF i(1)] by (force simp: ids_of_def)
  ultimately have "map_of (ids_of d) (int i) = Some p" by simp
  with Cons i show ?case by (simp add: id_strings_def atoi_decimal)
qed (simp add: id_strings_def)

definition command_ok :: "byte \<times> byte list \<Rightarrow> bool" where
  "command_ok c \<longleftrightarrow> (\<exists>k. snd c = k @ [0x3D] \<and> k \<noteq> [] \<and> 0x3D \<notin> set k \<and> 0x26 \<notin> set k \<and> ParsePermission k = Some (fst c))"

lemma id_strings_chars:
  "x \<in> set (join 0x2B (id_strings d ps)) \<Longrightarrow> x = 0x2B \<or> 0x30 \<le> x \<and> x \<le> 0x39"
proof -
  have "x \<in> set (join c xs) \<Longrightarrow> x = c \<or> (\<exists>y\<in>set xs. x \<in> set y)" for c :: byte and xs
    by (induction c xs rule: join.induct) auto
  then show "x \<in> set (join 0x2B (id_strings d ps)) \<Longrightarrow> x = 0x2B \<or> 0x30 \<le> x \<and> x \<le> 0x39"
    using decimal_digits by (fastforce simp: id_strings_def)
qed

lemma ParseSegment_property:
  assumes "command_ok (perm, cmd)" "2 \<le> room" "ps \<noteq> []"
    "\<forall>p\<in>set ps. \<exists>i. map_of d p = Some i \<and> i < 2 ^ 31" "dict_ok d"
  shows "ParseSegment room (cmd @ join 0x2B (id_strings d ps)) (ids_of d) b =
    Some (True, fold (\<lambda>p. AddPermission p perm) ps b)"
proof -
  from assms(1) obtain k where k: "cmd = k @ [0x3D]" "k \<noteq> []" "0x3D \<notin> set k" "ParsePermission k = Some perm"
    by (auto simp: command_ok_def)
  let ?v = "join 0x2B (id_strings d ps)"
  have no: "0x3D \<notin> set ?v"
  proof
    assume "0x3D \<in> set ?v"
    from id_strings_chars [OF this] show False by simp
  qed
  have ids: "\<forall>x\<in>set (id_strings d ps). 0x2B \<notin> set x \<and> x \<noteq> []"
    using decimal_no_sep [of "0x2B"] by (simp add: id_strings_def)
  then have "?v \<noteq> []" using assms(3) by (simp add: id_strings_def)
  with no k have "parser_segments 0x3D (cmd @ ?v) = [k, ?v]" by (simp add: parser_segments_def)
  moreover have "token_segments 0x2B ?v = id_strings d ps" by (rule token_segments_join [OF ids])
  ultimately show ?thesis
    using assms(2) k(4) parse_principals_ok [OF assms(4,5)]
    by (simp add: ParseSegment_def ParsePrincipal_def)
qed

lemma parse_commands_ok:
  assumes "\<forall>c\<in>set cs. command_ok c" "2 \<le> room" "dict_ok d"
    "\<forall>p\<in>set (GetPrincipals a). \<exists>i. map_of d p = Some i \<and> i < 2 ^ 31"
  shows "parse_commands room (properties_of cs d a) (ids_of d) b = Some (True, reread cs a b)"
  using assms(1)
proof (induction cs arbitrary: b)
  case (Cons c cs)
  obtain perm cmd where c: "c = (perm, cmd)" by (cases c)
  have "\<forall>p\<in>set (selected perm a). \<exists>i. map_of d p = Some i \<and> i < 2 ^ 31"
    using assms(4) by (auto simp: selected_def)
  with Cons c ParseSegment_property [of perm cmd room "selected perm a" d b] assms(2,3) show ?case
    by (cases "selected perm a = []") (simp_all add: properties_of_def reread_def)
qed (simp add: properties_of_def reread_def)

lemma item_commands_ok: "\<forall>c\<in>set item_commands. command_ok c"
  unfolding item_commands_def
  by (simp add: command_ok_def ParsePermission_def)

lemma DMAclItem_roundtrip:
  assumes "2 \<le> room" "dict_ok d" "\<forall>p\<in>set (GetPrincipals a). \<exists>i. map_of d p = Some i \<and> i < 2 ^ 31"
  shows "\<exists>str. item_text item_commands d a [] = Some str \<and> str = join 0x26 (properties_of item_commands d a) \<and>
    DMAclItem_Set room str (ids_of d) = Some (True, reread item_commands a [])"
proof -
  have "set (GetPrincipals a) \<subseteq> fst ` set d"
    using assms(3) by (metis map_of_eq_None_iff option.distinct(1) subsetI)
  then have "item_text item_commands d a [] = Some (join 0x26 (properties_of item_commands d a))"
    using item_text_join [of a d item_commands "[]"] by (simp add: item_commands_def)
  moreover have "\<forall>x\<in>set (properties_of item_commands d a). 0x26 \<notin> set x \<and> x \<noteq> []"
  proof -
    have "0x26 \<notin> set (join 0x2B (id_strings d ps))" for ps
    proof
      assume "0x26 \<in> set (join 0x2B (id_strings d ps))"
      from id_strings_chars [OF this] show False by simp
    qed
    then show ?thesis using item_commands_ok by (fastforce simp: properties_of_def command_ok_def)
  qed
  ultimately show ?thesis
    using parse_commands_ok [OF item_commands_ok assms] token_segments_join
    by (simp add: DMAclItem_Set_def)
qed

lemma reread_permissions:
  "GetPermissions p (reread cs a b) =
     fold (\<lambda>(perm, cmd) m. m OR (if p \<in> set (selected perm a) then perm else 0)) cs (GetPermissions p b)"
  by (induction cs arbitrary: b) (auto simp: reread_def GetPermissions_fold split: prod.splits)

lemma selected_iff: "p \<in> set (selected perm a) \<longleftrightarrow> GetPermissions p a AND perm \<noteq> 0"
  by (auto simp: selected_def acl_IsPermitted_def GetPrincipals_def GetPermissions_def
      dest: map_of_SomeD intro: rev_image_eqI split: option.splits)

lemma reread_ok: "GetPermissions p (reread item_commands a []) = GetPermissions p a AND 0x1F"
proof -
  let ?n = "GetPermissions p a"
  have "GetPermissions p (reread item_commands a []) =
      fold (\<lambda>(perm, cmd) m. m OR (if p \<in> set (selected perm a) then perm else 0)) item_commands 0"
    by (simp add: reread_permissions GetPermissions_def [of p "[]"])
  also have "\<dots> = (?n AND 0x01) OR (?n AND 0x02) OR (?n AND 0x04) OR (?n AND 0x10) OR (?n AND 0x08)"
    unfolding item_commands_def permission_defs
    by (simp only: fold_simps prod.case selected_iff single_bits) (simp add: or.assoc)
  also have "\<dots> = ?n AND 0x1F"
    by (simp flip: bit.conj_disj_distrib)
  finally show ?thesis .
qed

section \<open>The whole file\<close>

definition path_ok :: "byte list \<Rightarrow> bool" where
  "path_ok p \<longleftrightarrow> take 1 p = [0x2E] \<and> 0x5D \<notin> set p \<and> line_ok (0x5B # p @ [0x5D])"

lemma config_GetPath_ok: "path_ok p \<Longrightarrow> config_GetPath (0x5B # p @ [0x5D]) = Some p"
  by (simp add: config_GetPath_def path_ok_def)

text \<open>An entry that can be stored: some permission is granted, and its lines fit.\<close>

definition entry_ok :: "name_dict \<Rightarrow> acl_item \<Rightarrow> bool" where
  "entry_ok d it \<longleftrightarrow> path_ok (fst it) \<and> properties_of item_commands d (snd it) \<noteq> [] \<and>
     line_ok (join 0x26 (properties_of item_commands d (snd it)))"

definition storable :: "acl_item list \<Rightarrow> bool" where
  "storable config \<longleftrightarrow> distinct (map fst config) \<and>
     (let d = UpdateDictionary config [] in list_all dict_line_ok d \<and> list_all (entry_ok d) config)"

lemma properties_not_Nil: "\<forall>x\<in>set (properties_of item_commands d a). x \<noteq> []"
  by (auto simp: properties_of_def item_commands_def)

lemma acl_find_append:
  "acl_find p config = None \<Longrightarrow> acl_find q (config @ [(p, a)]) = (if q = p then Some a else acl_find q config)"
  by (induction config) (auto simp: acl_find_def)

lemma acl_find_None: "acl_find p config = None \<longleftrightarrow> p \<notin> fst ` set config"
  by (induction config) (auto simp: acl_find_def)

lemma read_entries_ok:
  assumes "2 \<le> room" "dict_ok d" "\<forall>it\<in>set config. entry_ok d it"
    "\<forall>it\<in>set config. \<forall>p\<in>set (GetPrincipals (snd it)). \<exists>i. map_of d p = Some i \<and> i < 2 ^ 31"
    "distinct (map fst acc @ map fst config)"
  shows "\<exists>ws. serialize_items d config = Some ws \<and>
    read_entries room (ids_of d) (concat ws) acc =
      Some (acc @ map (\<lambda>(path, a). (path, reread item_commands a [])) config)"
  using assms(3-)
proof (induction config arbitrary: acc)
  case Nil
  then show ?case by (subst read_entries.simps) simp
next
  case (Cons it config)
  obtain path a where it: "it = (path, a)" by (cases it)
  from Cons.prems(1) it have p: "path_ok path"
    and str: "properties_of item_commands d a \<noteq> []" "line_ok (join 0x26 (properties_of item_commands d a))"
    by (auto simp: entry_ok_def)
  from Cons.prems(2) it have "\<forall>p\<in>set (GetPrincipals a). \<exists>i. map_of d p = Some i \<and> i < 2 ^ 31" by simp
  from DMAclItem_roundtrip [OF assms(1,2) this] obtain str where s:
    "item_text item_commands d a [] = Some str" "str = join 0x26 (properties_of item_commands d a)"
    "DMAclItem_Set room str (ids_of d) = Some (True, reread item_commands a [])" by blast
  have "str \<noteq> []" using s(2) str(1) properties_not_Nil [of d a] by simp
  with s(1) it have w: "DMAclItem_Serialize d it = Some [[0x5B], path, [0x5D, 0x0A], str, [0x0A]]"
    by (simp add: DMAclItem_Serialize_def)
  let ?acc = "acc @ [(path, reread item_commands a [])]"
  from Cons.IH [of ?acc] Cons.prems it obtain ws where ws: "serialize_items d config = Some ws"
    "read_entries room (ids_of d) (concat ws) ?acc =
      Some (?acc @ map (\<lambda>(path, a). (path, reread item_commands a [])) config)" by auto
  have "GetNextLine ((0x5B # path @ [0x5D]) @ 0x0A # str @ 0x0A # concat ws) =
      Some (0x5B # path @ [0x5D], str @ 0x0A # concat ws)"
    using p by (intro GetNextLine_line) (simp add: path_ok_def)
  moreover have "GetNextLine (str @ 0x0A # concat ws) = Some (str, concat ws)"
    using str(2) s(2) by (intro GetNextLine_line) simp
  moreover have "acl_find path acc = None" using Cons.prems(3) it by (auto simp: acl_find_None)
  ultimately show ?case
    using ws w s(3) config_GetPath_ok [OF p] it
    by (subst read_entries.simps) (simp add: config_Add_def)
qed

text \<open>
  Property C12: the file keeps the access rights. A configuration that can be stored is written, and
  what is read back from the file takes the same decision for every path, server and permission; for
  a configuration without entries that is a file without bytes.
\<close>

theorem config_roundtrip:
  assumes "storable config" "2 \<le> room"
  shows "\<exists>ws config'. config_writes config = Some ws \<and> read_config room (concat ws) = Some config' \<and>
    (\<forall>path server n. decision config' path server (n AND 0x1F) = decision config path server (n AND 0x1F))"
proof (cases "config = []")
  case True
  have "read_config room [] = Some []"
    by (simp add: read_config_def DeserializeDictionary.simps read_entries.simps)
  with True show ?thesis by (simp add: config_writes_def)
next
  case False
  let ?d = "UpdateDictionary config []"
  let ?config' = "map (\<lambda>(path, a). (path, reread item_commands a [])) config"
  have d: "dict_ok ?d" "fst ` set ?d = (\<Union>(_, a)\<in>set config. set (GetPrincipals a))"
    using UpdateDictionary_ok [of "[]" config] by (simp_all add: dict_ok_def)
  from assms(1) have s: "distinct (map fst config)" "\<forall>e\<in>set ?d. dict_line_ok e" "\<forall>it\<in>set config. entry_ok ?d it"
    by (simp_all add: storable_def Let_def list_all_iff)
  have "\<exists>i. map_of ?d p = Some i \<and> i < 2 ^ 31" if "it \<in> set config" "p \<in> set (GetPrincipals (snd it))" for it p
  proof -
    have "p \<in> fst ` set ?d" unfolding d(2) using that by (auto simp: case_prod_beta)
    then obtain i where "map_of ?d p = Some i" by (metis map_of_eq_None_iff option.exhaust)
    with s(2) map_of_SomeD [OF this] show ?thesis by (auto simp: dict_line_ok_def)
  qed
  from read_entries_ok [OF assms(2) d(1) s(3), of "[]"] this s(1) obtain ws where ws:
    "serialize_items ?d config = Some ws" "read_entries room (ids_of ?d) (concat ws) [] = Some ?config'" by auto
  have "distinct (map int (map snd ?d))"
    using d(1) by (simp add: dict_ok_def distinct_map del: map_map upt_Suc)
  then have "distinct (map (int \<circ> snd) ?d)" by simp
  with Deserialize_dictionary [OF s(2), of "[]" "concat ws"] ws(2)
  have "read_config room (concat (SerializeDictionary ?d @ [[0x0A]] @ ws)) = Some ?config'"
    by (simp add: read_config_def)
  moreover have "config_writes config = Some (SerializeDictionary ?d @ [[0x0A]] @ ws)"
    using False ws(1) by (simp add: config_writes_def Let_def)
  moreover have "decision ?config' path server (n AND 0x1F) = decision config path server (n AND 0x1F)"
    for path server n
  proof -
    have f: "acl_find p ?config' = map_option (\<lambda>a. reread item_commands a []) (acl_find p config)" for p
      by (induction config) (auto simp: acl_find_def split: prod.splits)
    have "nearest_acl ?config' path = map_option (\<lambda>a. reread item_commands a []) (nearest_acl config path)"
      by (simp add: nearest_acl_def f split: option.split)
    moreover have "acl_IsPermitted q (n AND 0x1F) (reread item_commands a []) = acl_IsPermitted q (n AND 0x1F) a" for q a
      by (simp add: acl_IsPermitted_def reread_ok and.assoc and.commute and.left_commute)
    ultimately show ?thesis using False by (auto simp: decision_def split: option.splits)
  qed
  ultimately show ?thesis by blast
qed

lemma config_roundtrip_witness:
  "let config = [(bytes_of ''./A'', [(bytes_of ''srv'', ADD OR GET), (bytes_of ''*'', GET)])] in
   \<exists>ws config'. config_writes config = Some ws \<and> read_config 2 (concat ws) = Some config' \<and>
    (\<forall>path server n. decision config' path server (n AND 0x1F) = decision config path server (n AND 0x1F))"
proof -
  let ?config = "[(bytes_of ''./A'', [(bytes_of ''srv'', ADD OR GET), (bytes_of ''*'', GET)])]"
  have "UpdateDictionary ?config [] = [(bytes_of ''srv'', 1), (bytes_of ''*'', 2)]"
    by (simp add: UpdateDictionary_def GetPrincipals_def)
  moreover have "properties_of item_commands [(bytes_of ''srv'', 1), (bytes_of ''*'', 2)]
      [(bytes_of ''srv'', ADD OR GET), (bytes_of ''*'', GET)] = [bytes_of ''A=1'', bytes_of ''G=1+2'']"
    by (simp add: properties_of_def item_commands_def selected_def acl_IsPermitted_def GetPrincipals_def
        GetPermissions_def permission_defs id_strings_def decimal.simps)
  ultimately have "storable ?config"
    by (simp add: storable_def dict_line_ok_def entry_ok_def path_ok_def line_ok_def DM_MAX_CONFIG_LINE_def
        decimal.simps)
  from config_roundtrip [OF this, of 2] show ?thesis by simp
qed

text \<open>
  An entry without permissions is written as a path without a value line. Reading takes the next path
  for its value, and everything from there on is lost without an error.
\<close>

lemma empty_entry_loses_the_rest:
  "let config = [(bytes_of ''./A'', []), (bytes_of ''./B'', [(bytes_of ''*'', GET)])] in
   map_option concat (config_writes config) =
     Some (bytes_of ''1:*'' @ [0x0A, 0x0A] @ bytes_of ''[./A]'' @ [0x0A] @ bytes_of ''[./B]'' @ [0x0A] @ bytes_of ''G=1'' @ [0x0A]) \<and>
   DMAclItem_Set 2 (bytes_of ''[./B]'') [(1, bytes_of ''*'')] = Some (False, [])"
  by (simp add: config_writes_def Let_def UpdateDictionary_def GetPrincipals_def DMAclItem_Serialize_def item_commands_def
      acl_IsPermitted_def GetPermissions_def permission_defs CreateProperty_def SerializeDictionary_def decimal.simps
      AttachProperty_def DMAclItem_Set_def token_segments_def ParseSegment_def parser_segments_def)

end
