(* ===== verification/Dm_Lock.thy ===== *)
theory Dm_Lock
  imports DM_Prelude "HOL-Library.Word"
begin

unbundle bit_operations_syntax

text \<open>
  The locks of the data files (\<open>dm_ua/src/dmLock.cc\<close>, in the configuration without
  \<open>DM_NO_LOCKING\<close>): a lock counts the readers or notes the writer and locks a file for the other
  processes; the locks of a set are taken in ascending order by one thread, which keeps the requests
  it cannot serve and tries them again. What the file system answers is an argument.
\<close>

section \<open>One lock\<close>

datatype dm_status = SYNCML_DM_SUCCESS | SYNCML_DM_FAIL | SYNCML_DM_IO_FAILURE | SYNCML_DM_NOT_FOUND
  | SYNCML_DM_LOCK_TRY_AGAIN

datatype lock_type = SYNCML_DM_LOCK_TYPE_AUTOMATIC | SYNCML_DM_LOCK_TYPE_SHARED | SYNCML_DM_LOCK_TYPE_EXCLUSIVE

record DMLock =
  m_pFile :: bool
  m_nReadWriteCounter :: int

definition DMLock_take :: "dm_status \<Rightarrow> int \<Rightarrow> DMLock \<Rightarrow> dm_status \<times> DMLock" where
  "DMLock_take result n l =
     (let l' = l\<lparr>m_nReadWriteCounter := n\<rparr> in
      if n \<le> 1 then
        if \<not> m_pFile l then (SYNCML_DM_FAIL, l')
        else if result = SYNCML_DM_LOCK_TRY_AGAIN then (result, l)
        else (result, l')
      else (SYNCML_DM_SUCCESS, l'))"

definition DMLock_Lock :: "dm_status \<Rightarrow> lock_type \<Rightarrow> DMLock \<Rightarrow> dm_status \<times> DMLock" where
  "DMLock_Lock result eLockType l =
     (if eLockType = SYNCML_DM_LOCK_TYPE_EXCLUSIVE then
        if m_nReadWriteCounter l \<noteq> 0 then (SYNCML_DM_LOCK_TRY_AGAIN, l)
        else DMLock_take result (- 1) l
      else if m_nReadWriteCounter l < 0 then (SYNCML_DM_LOCK_TRY_AGAIN, l)
      else DMLock_take result (m_nReadWriteCounter l + 1) l)"

definition DMLock_Unlock :: "dm_status \<Rightarrow> DMLock \<Rightarrow> dm_status \<times> DMLock" where
  "DMLock_Unlock result l =
     (if m_pFile l \<and> m_nReadWriteCounter l \<le> 1 then result else SYNCML_DM_SUCCESS,
      l\<lparr>m_nReadWriteCounter := (if m_nReadWriteCounter l < 0 then 0 else m_nReadWriteCounter l - 1)\<rparr>)"

section \<open>Requests\<close>

record DMFileLockParam =
  m_bIsLock :: bool
  m_nLockSet :: "32 word"
  m_eLockType :: lock_type

text \<open>
  The loop over the locks: a lock that is not free ends it, and what was taken is no longer in the
  set. The status is that of the last lock.
\<close>

fun request_loop :: "(nat \<Rightarrow> dm_status) \<Rightarrow> nat list \<Rightarrow> DMFileLockParam \<Rightarrow> DMLock list \<Rightarrow> dm_status
    \<Rightarrow> bool \<times> dm_status \<times> DMFileLockParam \<times> DMLock list" where
  "request_loop env [] msg locks nRes = (True, nRes, msg, locks)"
| "request_loop env (i # is) msg locks nRes =
     (if bit (m_nLockSet msg) i then
        let msg' = msg\<lparr>m_nLockSet := m_nLockSet msg AND NOT (push_bit i 1)\<rparr> in
        if \<not> m_bIsLock msg then
          (case DMLock_Unlock (env i) (locks ! i) of
             (nRes, l) \<Rightarrow> request_loop env is msg' (locks[i := l]) nRes)
        else
          (case DMLock_Lock (env i) (m_eLockType msg) (locks ! i) of
             (nRes, l) \<Rightarrow>
               if nRes = SYNCML_DM_LOCK_TRY_AGAIN then (False, nRes, msg, locks[i := l])
               else request_loop env is msg' (locks[i := l]) nRes)
      else request_loop env is msg locks nRes)"

definition ProcessLockRequest :: "(nat \<Rightarrow> dm_status) \<Rightarrow> DMFileLockParam \<Rightarrow> DMLock list
    \<Rightarrow> bool \<times> dm_status \<times> DMFileLockParam \<times> DMLock list" where
  "ProcessLockRequest env msg locks = request_loop env [0..<length locks] msg locks SYNCML_DM_SUCCESS"

text \<open>
  A client of the manager: the locks it wants, and its message. A message whose set is empty is done:
  the client has the locks, or has given them back.
\<close>

record client =
  cl_type :: lock_type
  cl_set :: "32 word"
  cl_msg :: DMFileLockParam

definition holds :: "client \<Rightarrow> nat \<Rightarrow> bool" where
  "holds c i \<longleftrightarrow> (if m_bIsLock (cl_msg c) then bit (cl_set c) i \<and> \<not> bit (m_nLockSet (cl_msg c)) i
     else bit (m_nLockSet (cl_msg c)) i)"

definition serve :: "(nat \<Rightarrow> dm_status) \<Rightarrow> client \<Rightarrow> DMLock list \<Rightarrow> client \<times> DMLock list" where
  "serve env c locks =
     (case ProcessLockRequest env (cl_msg c) locks of (_, _, msg, locks') \<Rightarrow> (c\<lparr>cl_msg := msg\<rparr>, locks'))"

text \<open>
  One round of the thread over the requests it keeps. A request that is done leaves the queue; it is
  kept here because a further round does not change it.
\<close>

fun sweep :: "(nat \<Rightarrow> dm_status) \<Rightarrow> client list \<times> DMLock list \<Rightarrow> client list \<times> DMLock list" where
  "sweep env ([], locks) = ([], locks)"
| "sweep env (c # cs, locks) =
     (let (c, locks) = serve env c locks; (cs, locks) = sweep env (cs, locks) in (c # cs, locks))"

text \<open>
  A reader takes its locks without the thread, one after the other, and sleeps between its attempts:
  one attempt at the next lock of its set.
\<close>

definition LockSet_try :: "(nat \<Rightarrow> dm_status) \<Rightarrow> client \<Rightarrow> DMLock list \<Rightarrow> client \<times> DMLock list" where
  "LockSet_try env c locks =
     (case find (\<lambda>i. bit (m_nLockSet (cl_msg c)) i) [0..<length locks] of
        None \<Rightarrow> (c, locks)
      | Some i \<Rightarrow>
          (case request_loop env [i] (cl_msg c) locks SYNCML_DM_SUCCESS of
             (_, _, msg, locks') \<Rightarrow> (c\<lparr>cl_msg := msg\<rparr>, locks')))"

text \<open>
  The number of locks that the initialisation sets up, if it accepts the number of files: two more,
  for the event subscriptions and for the access control lists, whose sets have a single lock.
\<close>

definition lock_number :: "nat \<Rightarrow> nat option" where
  "lock_number nFiles = (if 32 \<le> nFiles then None else Some (nFiles + 2))"

definition config_file_lock :: "bool \<Rightarrow> nat \<Rightarrow> nat" where
  "config_file_lock is_acl n = (if is_acl then n - 1 else n - 2)"

section \<open>The system\<close>

text \<open>Clients ask for locks, are served, give back what they have, and leave.\<close>

inductive lock_step :: "client list \<times> DMLock list \<Rightarrow> client list \<times> DMLock list \<Rightarrow> bool" where
  ask: "\<forall>i. bit locks_wanted i \<longrightarrow> i < length locks \<Longrightarrow>
    lock_step (cs, locks) (cs @ [\<lparr>cl_type = t, cl_set = locks_wanted,
      cl_msg = \<lparr>m_bIsLock = True, m_nLockSet = locks_wanted, m_eLockType = t\<rparr>\<rparr>], locks)"
| served: "serve env c locks = (c', locks') \<Longrightarrow> lock_step (xs @ c # ys, locks) (xs @ c' # ys, locks')"
| tried: "LockSet_try env c locks = (c', locks') \<Longrightarrow> lock_step (xs @ c # ys, locks) (xs @ c' # ys, locks')"
| release: "m_bIsLock (cl_msg c) \<Longrightarrow> m_nLockSet (cl_msg c) = 0 \<Longrightarrow>
    lock_step (xs @ c # ys, locks)
      (xs @ c\<lparr>cl_msg := \<lparr>m_bIsLock = False, m_nLockSet = cl_set c, m_eLockType = SYNCML_DM_LOCK_TYPE_SHARED\<rparr>\<rparr> # ys, locks)"
| leave: "\<not> m_bIsLock (cl_msg c) \<Longrightarrow> m_nLockSet (cl_msg c) = 0 \<Longrightarrow>
    lock_step (xs @ c # ys, locks) (xs @ ys, locks)"

inductive lock_reachable :: "client list \<times> DMLock list \<Rightarrow> bool" where
  start: "\<forall>l\<in>set locks. m_nReadWriteCounter l = 0 \<Longrightarrow> lock_reachable ([], locks)"
| step: "lock_reachable s \<Longrightarrow> lock_step s s' \<Longrightarrow> lock_reachable s'"

section \<open>The counters\<close>

text \<open>A counter is right when it is the number of readers, or minus one for a single writer.\<close>

definition counter_ok :: "nat \<Rightarrow> nat \<Rightarrow> int \<Rightarrow> bool" where
  "counter_ok writers readers n \<longleftrightarrow>
     writers = 0 \<and> n = int readers \<or> writers = 1 \<and> readers = 0 \<and> n = - 1"

definition is_writer :: "client \<Rightarrow> bool" where
  "is_writer c \<longleftrightarrow> cl_type c = SYNCML_DM_LOCK_TYPE_EXCLUSIVE"

definition writers :: "nat \<Rightarrow> client list \<Rightarrow> nat" where
  "writers i cs = length (filter (\<lambda>c. holds c i \<and> is_writer c) cs)"

definition readers :: "nat \<Rightarrow> client list \<Rightarrow> nat" where
  "readers i cs = length (filter (\<lambda>c. holds c i \<and> \<not> is_writer c) cs)"

definition client_ok :: "nat \<Rightarrow> client \<Rightarrow> bool" where
  "client_ok n c \<longleftrightarrow> (\<forall>i. bit (cl_set c) i \<longrightarrow> i < n) \<and>
     (\<forall>i. bit (m_nLockSet (cl_msg c)) i \<longrightarrow> bit (cl_set c) i) \<and>
     (m_bIsLock (cl_msg c) \<longrightarrow> m_eLockType (cl_msg c) = cl_type c \<and>
       (\<forall>i j. holds c i \<and> bit (m_nLockSet (cl_msg c)) j \<longrightarrow> i < j))"

definition counters_ok :: "client list \<Rightarrow> DMLock list \<Rightarrow> bool" where
  "counters_ok cs locks \<longleftrightarrow> (\<forall>i<length locks. counter_ok (writers i cs) (readers i cs) (m_nReadWriteCounter (locks ! i)))"

definition lock_inv :: "client list \<times> DMLock list \<Rightarrow> bool" where
  "lock_inv s \<longleftrightarrow> (\<forall>c\<in>set (fst s). client_ok (length (snd s)) c) \<and> counters_ok (fst s) (snd s)"

lemma counts_append [simp]:
  "writers i (xs @ ys) = writers i xs + writers i ys" "writers i [] = 0"
  "readers i (xs @ ys) = readers i xs + readers i ys" "readers i [] = 0"
  "writers i (c # cs) = (if holds c i \<and> is_writer c then 1 else 0) + writers i cs"
  "readers i (c # cs) = (if holds c i \<and> \<not> is_writer c then 1 else 0) + readers i cs"
  by (simp_all add: writers_def readers_def)

lemma Lock_counter:
  assumes "DMLock_Lock r t l = (s, l')" "s \<noteq> SYNCML_DM_LOCK_TRY_AGAIN" "counter_ok w n (m_nReadWriteCounter l)"
  shows "counter_ok (w + (if t = SYNCML_DM_LOCK_TYPE_EXCLUSIVE then 1 else 0))
    (n + (if t = SYNCML_DM_LOCK_TYPE_EXCLUSIVE then 0 else 1)) (m_nReadWriteCounter l')"
  using assms by (auto simp: DMLock_Lock_def DMLock_take_def counter_ok_def Let_def split: if_splits)

lemma Lock_try_again: "DMLock_Lock r t l = (SYNCML_DM_LOCK_TRY_AGAIN, l') \<Longrightarrow> l' = l"
  by (auto simp: DMLock_Lock_def DMLock_take_def Let_def split: if_splits)

lemma Lock_free:
  "m_nReadWriteCounter l = 0 \<Longrightarrow> r \<noteq> SYNCML_DM_LOCK_TRY_AGAIN \<Longrightarrow>
    fst (DMLock_Lock r t l) \<noteq> SYNCML_DM_LOCK_TRY_AGAIN"
  by (auto simp: DMLock_Lock_def DMLock_take_def Let_def)

lemma Unlock_counter:
  assumes "DMLock_Unlock r l = (s, l')" "counter_ok (w + (if x then 1 else 0)) (n + (if x then 0 else 1)) (m_nReadWriteCounter l)"
  shows "counter_ok w n (m_nReadWriteCounter l')"
  using assms by (auto simp: DMLock_Unlock_def counter_ok_def split: if_splits)

text \<open>The effect of a loop over an ascending list of locks on the client and the counters.\<close>

lemma bit_length: "bit (w :: 32 word) i \<Longrightarrow> i < 32"
  using bit_imp_le_length [of w i] by simp

lemma bit_clear:
  "bit (w AND NOT (push_bit i 1)) j \<longleftrightarrow> bit w j \<and> j \<noteq> i"
  "bit (w AND NOT (2 ^ i)) j \<longleftrightarrow> bit w j \<and> j \<noteq> i" for w :: "32 word"
  by (auto simp: bit_simps dest: bit_length)

lemma client_ok_clear:
  assumes "client_ok n c" "m_bIsLock (cl_msg c)" "\<And>k. k < i \<longrightarrow> \<not> bit (m_nLockSet (cl_msg c)) k"
  shows "client_ok n (c\<lparr>cl_msg := (cl_msg c)\<lparr>m_nLockSet := m_nLockSet (cl_msg c) AND NOT (push_bit i 1)\<rparr>\<rparr>)"
    (is "client_ok n ?c")
proof -
  have h: "holds ?c k \<longleftrightarrow> holds c k \<or> k = i \<and> bit (cl_set c) k" for k
    using assms(2) by (auto simp: holds_def bit_clear)
  have "k < j" if "holds ?c k" "bit (m_nLockSet (cl_msg ?c)) j" for k j
  proof -
    from that(2) have j: "bit (m_nLockSet (cl_msg c)) j" "j \<noteq> i" by (simp_all add: bit_clear)
    then have "i < j" using assms(3) by (meson linorder_neqE_nat)
    with that(1) j(1) assms(1,2) show ?thesis unfolding h by (auto simp: client_ok_def)
  qed
  then show ?thesis using assms(1,2) by (simp add: client_ok_def bit_clear)
qed

lemma request_loop_inv:
  assumes "request_loop env is (cl_msg c) locks r = (d, r', msg', locks')"
    "client_ok (length locks) c" "counters_ok (xs @ c # ys) locks" "sorted is" "distinct is" "set is \<subseteq> {..<length locks}"
    "\<forall>i. bit (m_nLockSet (cl_msg c)) i \<longrightarrow> (\<forall>j\<in>set is. j \<le> i) \<or> i \<in> set is"
  shows "client_ok (length locks') (c\<lparr>cl_msg := msg'\<rparr>) \<and> counters_ok (xs @ c\<lparr>cl_msg := msg'\<rparr> # ys) locks' \<and>
    length locks' = length locks"
  using assms
proof (induction "is" arbitrary: c locks r)
  case (Cons i "is")
  let ?msg = "(cl_msg c)\<lparr>m_nLockSet := m_nLockSet (cl_msg c) AND NOT (push_bit i 1)\<rparr>"
  let ?c = "c\<lparr>cl_msg := ?msg\<rparr>"
  have i: "i < length locks" "\<forall>j\<in>set is. i < j"
    using Cons.prems by (auto simp: order_less_le)
  show ?case
  proof (cases "bit (m_nLockSet (cl_msg c)) i")
    case False
    have "\<forall>k. bit (m_nLockSet (cl_msg c)) k \<longrightarrow> (\<forall>j\<in>set is. j \<le> k) \<or> k \<in> set is"
      using Cons.prems(7) False by auto
    with Cons.IH [of c locks r] Cons.prems False show ?thesis by auto
  next
    case True
    note i32 = bit_length [OF True]
    have next_ok: "\<forall>k. bit (m_nLockSet ?msg) k \<longrightarrow> (\<forall>j\<in>set is. j \<le> k) \<or> k \<in> set is"
      using Cons.prems(7) by (auto simp: bit_clear i32)
    have before: "k < i \<longrightarrow> \<not> bit (m_nLockSet (cl_msg c)) k" for k
      using Cons.prems(7) i(2) by fastforce
    show ?thesis
    proof (cases "m_bIsLock (cl_msg c)")
      case unlock: False
      obtain s l where u: "DMLock_Unlock (env i) (locks ! i) = (s, l)" by fastforce
      have "client_ok (length locks) ?c"
        using Cons.prems(2) unlock by (auto simp: client_ok_def bit_clear i32)
      moreover have "counters_ok (xs @ ?c # ys) (locks[i := l])"
        unfolding counters_ok_def
      proof (intro allI impI)
        fix k assume "k < length (locks[i := l])"
        with Cons.prems(3) have k: "counter_ok (writers k (xs @ c # ys)) (readers k (xs @ c # ys)) (m_nReadWriteCounter (locks ! k))"
          by (simp add: counters_ok_def)
        show "counter_ok (writers k (xs @ ?c # ys)) (readers k (xs @ ?c # ys)) (m_nReadWriteCounter (locks[i := l] ! k))"
        proof (cases "k = i")
          case True
          with k unlock \<open>bit (m_nLockSet (cl_msg c)) i\<close> i(1) show ?thesis
            using Unlock_counter [OF u, of "writers i (xs @ ys)" "is_writer c" "readers i (xs @ ys)"]
            by (auto simp: holds_def bit_clear i32 ac_simps is_writer_def split: if_splits)
        next
          case False
          with k unlock show ?thesis by (simp add: holds_def bit_clear i32 is_writer_def)
        qed
      qed
      ultimately show ?thesis
        using Cons.IH [of ?c "locks[i := l]" s] Cons.prems True unlock u next_ok by (auto simp: Let_def)
    next
      case lock: True
      then have t: "m_eLockType (cl_msg c) = cl_type c" using Cons.prems(2) by (simp add: client_ok_def)
      obtain s l where u: "DMLock_Lock (env i) (m_eLockType (cl_msg c)) (locks ! i) = (s, l)" by fastforce
      show ?thesis
      proof (cases "s = SYNCML_DM_LOCK_TRY_AGAIN")
        case again: True
        with u Lock_try_again [of "env i" "m_eLockType (cl_msg c)" "locks ! i" l] have "locks[i := l] = locks" by simp
        with Cons.prems True lock u again show ?thesis by (auto simp: Let_def)
      next
        case got: False
        have "client_ok (length locks) ?c"
          by (rule client_ok_clear [OF Cons.prems(2) lock before])
        moreover have "counters_ok (xs @ ?c # ys) (locks[i := l])"
          unfolding counters_ok_def
        proof (intro allI impI)
          fix k assume "k < length (locks[i := l])"
          with Cons.prems(3) have k: "counter_ok (writers k (xs @ c # ys)) (readers k (xs @ c # ys)) (m_nReadWriteCounter (locks ! k))"
            by (simp add: counters_ok_def)
          show "counter_ok (writers k (xs @ ?c # ys)) (readers k (xs @ ?c # ys)) (m_nReadWriteCounter (locks[i := l] ! k))"
          proof (cases "k = i")
            case True
            have "bit (cl_set c) i" using Cons.prems(2) \<open>bit (m_nLockSet (cl_msg c)) i\<close> by (simp add: client_ok_def)
            with True k lock \<open>bit (m_nLockSet (cl_msg c)) i\<close> i(1) t show ?thesis
              using Lock_counter [OF u got, of "writers i (xs @ ys)" "readers i (xs @ ys)"]
              by (auto simp: holds_def bit_clear i32 ac_simps is_writer_def split: if_splits)
          next
            case False
            with k lock show ?thesis by (simp add: holds_def bit_clear i32 is_writer_def)
          qed
        qed
        ultimately show ?thesis
          using Cons.IH [of ?c "locks[i := l]" s] Cons.prems True lock u got next_ok by (auto simp: Let_def)
      qed
    qed
  qed
qed auto

lemma indices_below: "set [0..<n] \<subseteq> {..<n}"
  by auto

lemma serve_inv:
  assumes "serve env c locks = (c', locks')" "client_ok (length locks) c" "counters_ok (xs @ c # ys) locks"
  shows "client_ok (length locks') c' \<and> counters_ok (xs @ c' # ys) locks' \<and> length locks' = length locks"
proof -
  obtain d r msg where p: "request_loop env [0..<length locks] (cl_msg c) locks SYNCML_DM_SUCCESS = (d, r, msg, locks')"
    and c': "c' = c\<lparr>cl_msg := msg\<rparr>"
    using assms(1) by (auto simp: serve_def ProcessLockRequest_def split: prod.splits)
  have "\<forall>i. bit (m_nLockSet (cl_msg c)) i \<longrightarrow> i \<in> set [0..<length locks]"
    using assms(2) by (auto simp: client_ok_def)
  then show ?thesis using request_loop_inv [OF p assms(2,3)] indices_below [of "length locks"] c'
    by (auto simp del: set_upt)
qed

lemma LockSet_try_inv:
  assumes "LockSet_try env c locks = (c', locks')" "client_ok (length locks) c" "counters_ok (xs @ c # ys) locks"
  shows "client_ok (length locks') c' \<and> counters_ok (xs @ c' # ys) locks' \<and> length locks' = length locks"
proof (cases "find (\<lambda>i. bit (m_nLockSet (cl_msg c)) i) [0..<length locks]")
  case None
  with assms show ?thesis by (simp add: LockSet_try_def)
next
  case (Some i)
  then have i: "i < length locks" "\<forall>j<i. \<not> bit (m_nLockSet (cl_msg c)) j"
    by (auto simp: find_Some_iff)
  obtain d r msg where p: "request_loop env [i] (cl_msg c) locks SYNCML_DM_SUCCESS = (d, r, msg, locks')"
    and c': "c' = c\<lparr>cl_msg := msg\<rparr>"
    using assms(1) Some by (auto simp: LockSet_try_def simp del: request_loop.simps split: prod.splits)
  have "\<forall>k. bit (m_nLockSet (cl_msg c)) k \<longrightarrow> (\<forall>j\<in>set [i]. j \<le> k) \<or> k \<in> set [i]"
    using i(2) by (auto simp: not_less)
  with request_loop_inv [OF p assms(2,3)] i(1) c' show ?thesis by auto
qed

lemma lock_step_inv: "lock_step s s' \<Longrightarrow> lock_inv s \<Longrightarrow> lock_inv s'"
proof (induction rule: lock_step.induct)
  case (ask w locks cs t)
  then show ?case by (auto simp: lock_inv_def client_ok_def counters_ok_def holds_def)
next
  case (served env c locks c' locks' xs ys)
  then show ?case using serve_inv [OF served.hyps, of xs ys] by (auto simp: lock_inv_def)
next
  case (tried env c locks c' locks' xs ys)
  then show ?case using LockSet_try_inv [OF tried.hyps, of xs ys] by (auto simp: lock_inv_def)
next
  case (release c xs ys locks)
  let ?c = "c\<lparr>cl_msg := \<lparr>m_bIsLock = False, m_nLockSet = cl_set c, m_eLockType = SYNCML_DM_LOCK_TYPE_SHARED\<rparr>\<rparr>"
  have "holds ?c i \<longleftrightarrow> holds c i" for i using release.hyps by (simp add: holds_def)
  moreover have "is_writer ?c = is_writer c" by (simp add: is_writer_def)
  ultimately show ?case using release.prems by (auto simp: lock_inv_def counters_ok_def client_ok_def)
next
  case (leave c xs ys locks)
  then have "\<not> holds c i" for i by (simp add: holds_def)
  with leave.prems show ?case by (auto simp: lock_inv_def counters_ok_def)
qed

lemma lock_reachable_inv: "lock_reachable s \<Longrightarrow> lock_inv s"
proof (induction rule: lock_reachable.induct)
  case (start locks)
  then show ?case by (simp add: lock_inv_def counters_ok_def counter_ok_def)
next
  case (step s s')
  then show ?case by (blast intro: lock_step_inv)
qed

text \<open>
  Property C11: exclusion. However the requests of the clients, the rounds of the thread, the attempts of
  the readers and the releases interleave, and whatever the file system answers, two clients that
  hold the same lock are both readers, and the counter of a lock tells who holds it.
\<close>

theorem lock_exclusion:
  assumes "lock_reachable (xs @ c # ys @ d # zs, locks)" "i < length locks" "holds c i" "holds d i"
  shows "\<not> is_writer c \<and> \<not> is_writer d"
proof -
  from lock_reachable_inv [OF assms(1)] assms(2)
  have "counter_ok (writers i (xs @ c # ys @ d # zs)) (readers i (xs @ c # ys @ d # zs)) (m_nReadWriteCounter (locks ! i))"
    by (simp add: lock_inv_def counters_ok_def)
  with assms(3,4) show ?thesis by (auto simp: counter_ok_def split: if_splits)
qed

section \<open>Progress\<close>

text \<open>The locks that are missing.\<close>

definition missing :: "nat \<Rightarrow> client \<Rightarrow> nat" where
  "missing n c = card {i. i < n \<and> bit (m_nLockSet (cl_msg c)) i}"

lemma missing_clear:
  assumes "i < n" "bit (m_nLockSet (cl_msg c)) i" "m_nLockSet msg = m_nLockSet (cl_msg c) AND NOT (push_bit i 1)"
  shows "missing n (c\<lparr>cl_msg := msg\<rparr>) < missing n c"
  unfolding missing_def by (rule psubset_card_mono) (use assms in \<open>auto simp: bit_clear\<close>)

lemma request_loop_missing:
  assumes "request_loop env is (cl_msg c) locks r = (d, r', msg', locks')" "set is \<subseteq> {..<n}"
  shows "missing n (c\<lparr>cl_msg := msg'\<rparr>) < missing n c \<or> msg' = cl_msg c \<and> locks' = locks"
  using assms
proof (induction "is" arbitrary: c locks r)
  case (Cons i "is")
  show ?case
  proof (cases "bit (m_nLockSet (cl_msg c)) i")
    case False
    with Cons.IH [of c locks r] Cons.prems show ?thesis by auto
  next
    case True
    let ?msg = "(cl_msg c)\<lparr>m_nLockSet := m_nLockSet (cl_msg c) AND NOT (push_bit i 1)\<rparr>"
    have less: "missing n (c\<lparr>cl_msg := ?msg\<rparr>) < missing n c"
      using Cons.prems(2) True by (intro missing_clear [where i = i]) simp_all
    have step: "missing n (c\<lparr>cl_msg := msg'\<rparr>) < missing n c"
      if "request_loop env is ?msg locks1 r1 = (d, r', msg', locks')" for locks1 r1
      using Cons.IH [of "c\<lparr>cl_msg := ?msg\<rparr>" locks1 r1] that Cons.prems(2) less by auto
    show ?thesis
    proof (cases "m_bIsLock (cl_msg c)")
      case False
      with Cons.prems(1) True step show ?thesis
        by (auto simp del: push_bit_of_1 simp: Let_def split: prod.splits)
    next
      case lock: True
      obtain s l where u: "DMLock_Lock (env i) (m_eLockType (cl_msg c)) (locks ! i) = (s, l)" by fastforce
      show ?thesis
      proof (cases "s = SYNCML_DM_LOCK_TRY_AGAIN")
        case again: True
        with u Lock_try_again [of "env i" "m_eLockType (cl_msg c)" "locks ! i" l] have "locks[i := l] = locks" by simp
        with Cons.prems(1) True lock u again show ?thesis by (auto simp: Let_def)
      next
        case got: False
        with Cons.prems(1) True lock u step show ?thesis
          by (auto simp del: push_bit_of_1 simp: Let_def)
      qed
    qed
  qed
qed auto

lemma serve_missing:
  assumes "serve env c locks = (c', locks')"
  shows "missing (length locks) c' < missing (length locks) c \<or> c' = c \<and> locks' = locks"
proof -
  obtain d r msg where p: "request_loop env [0..<length locks] (cl_msg c) locks SYNCML_DM_SUCCESS = (d, r, msg, locks')"
    and c': "c' = c\<lparr>cl_msg := msg\<rparr>"
    using assms by (auto simp: serve_def ProcessLockRequest_def split: prod.splits)
  from request_loop_missing [OF p indices_below] c' show ?thesis by auto
qed

text \<open>A client at whose next lock nobody is gets on.\<close>

lemma request_loop_free:
  assumes "i \<in> set is" "bit (m_nLockSet msg) i" "\<forall>k<i. \<not> bit (m_nLockSet msg) k" "sorted is" "m_bIsLock msg"
    "m_nReadWriteCounter (locks ! i) = 0" "\<forall>k. env k \<noteq> SYNCML_DM_LOCK_TRY_AGAIN"
  shows "\<exists>is' locks' r'. request_loop env is msg locks r =
    request_loop env is' (msg\<lparr>m_nLockSet := m_nLockSet msg AND NOT (push_bit i 1)\<rparr>) locks' r'"
  using assms
proof (induction "is" arbitrary: r)
  case (Cons j "is")
  show ?case
  proof (cases "j = i")
    case True
    obtain s l where u: "DMLock_Lock (env i) (m_eLockType msg) (locks ! i) = (s, l)" by fastforce
    with Lock_free [of "locks ! i" "env i" "m_eLockType msg"] Cons.prems(6,7) have "s \<noteq> SYNCML_DM_LOCK_TRY_AGAIN" by simp
    with u True Cons.prems(2,5) show ?thesis by (auto simp: Let_def)
  next
    case False
    with Cons.prems have "i \<in> set is" "j < i" by (auto simp: order_less_le)
    with Cons.prems Cons.IH [of r] show ?thesis by auto
  qed
qed simp

lemma request_loop_missing_le:
  "request_loop env is msg locks r = (d, r', msg', locks') \<Longrightarrow> bit (m_nLockSet msg') k \<Longrightarrow> bit (m_nLockSet msg) k"
proof (induction "is" arbitrary: msg locks r)
  case (Cons i "is")
  from Cons.prems show ?case
    by (auto simp: Let_def bit_clear split: if_splits prod.splits dest: Cons.IH)
qed simp

lemma serve_free:
  assumes "i < length locks" "bit (m_nLockSet (cl_msg c)) i" "\<forall>k<i. \<not> bit (m_nLockSet (cl_msg c)) k" "m_bIsLock (cl_msg c)"
    "m_nReadWriteCounter (locks ! i) = 0" "\<forall>k. env k \<noteq> SYNCML_DM_LOCK_TRY_AGAIN"
  shows "fst (serve env c locks) \<noteq> c"
proof -
  obtain d r msg locks' where p: "ProcessLockRequest env (cl_msg c) locks = (d, r, msg, locks')" by (cases rule: prod_cases4)
  obtain is' locks1 r1 where q: "ProcessLockRequest env (cl_msg c) locks =
      request_loop env is' ((cl_msg c)\<lparr>m_nLockSet := m_nLockSet (cl_msg c) AND NOT (push_bit i 1)\<rparr>) locks1 r1"
    using request_loop_free [of i "[0..<length locks]" "cl_msg c" locks env SYNCML_DM_SUCCESS] assms
    unfolding ProcessLockRequest_def by auto
  from request_loop_missing_le [OF q [unfolded p, symmetric], of i] bit_clear(1) [of "m_nLockSet (cl_msg c)" i i] have "\<not> bit (m_nLockSet msg) i" by (auto simp: bit_clear)
  with assms(2) p show ?thesis by (cases c) (auto simp: serve_def)
qed

lemma waiting_bit:
  assumes "client_ok n c" "m_nLockSet (cl_msg c) \<noteq> 0"
  shows "\<exists>i<n. bit (m_nLockSet (cl_msg c)) i \<and> (\<forall>k<i. \<not> bit (m_nLockSet (cl_msg c)) k)"
proof -
  from assms(2) obtain j where "bit (m_nLockSet (cl_msg c)) j" by (auto simp: bit_eq_iff)
  then have b: "bit (m_nLockSet (cl_msg c)) (LEAST i. bit (m_nLockSet (cl_msg c)) i)" by (rule LeastI)
  moreover from b assms(1) have "(LEAST i. bit (m_nLockSet (cl_msg c)) i) < n" by (auto simp: client_ok_def)
  ultimately show ?thesis by (blast dest: not_less_Least)
qed

text \<open>Of the clients that wait, one waits for a lock that nobody has: the one whose next lock comes last.\<close>

lemma someone_advances:
  assumes "lock_inv (cs, locks)" "cs \<noteq> []" "\<forall>c\<in>set cs. m_bIsLock (cl_msg c) \<and> m_nLockSet (cl_msg c) \<noteq> 0"
    "\<forall>k. env k \<noteq> SYNCML_DM_LOCK_TRY_AGAIN"
  shows "\<exists>c\<in>set cs. fst (serve env c locks) \<noteq> c"
proof -
  let ?next = "\<lambda>c. LEAST i. bit (m_nLockSet (cl_msg c)) i"
  obtain c where c: "c \<in> set cs" "\<And>d. d \<in> set cs \<Longrightarrow> ?next d \<le> ?next c"
  proof -
    have "Max (?next ` set cs) \<in> ?next ` set cs" using assms(2) by (intro Max_in) auto
    then obtain c where "c \<in> set cs" "?next c = Max (?next ` set cs)" by auto
    then show thesis using that [of c] by simp
  qed
  from assms(1) have ok: "\<And>d. d \<in> set cs \<Longrightarrow> client_ok (length locks) d" and cnt: "counters_ok cs locks"
    by (simp_all add: lock_inv_def)
  from waiting_bit [OF ok [OF c(1)]] assms(3) c(1) obtain i where i: "i < length locks"
    "bit (m_nLockSet (cl_msg c)) i" "\<forall>k<i. \<not> bit (m_nLockSet (cl_msg c)) k" by blast
  have "?next c = i"
    by (rule Least_equality) (use i in \<open>auto simp: not_less [symmetric]\<close>)
  have "\<not> holds d i" if "d \<in> set cs" for d
  proof
    assume h: "holds d i"
    from waiting_bit [OF ok [OF that]] assms(3) that obtain j where j: "bit (m_nLockSet (cl_msg d)) j"
      "\<forall>k<j. \<not> bit (m_nLockSet (cl_msg d)) k" by blast
    have "?next d = j" by (rule Least_equality) (use j in \<open>auto simp: not_less [symmetric]\<close>)
    moreover have "i < j" using ok [OF that] assms(3) that h j(1) by (auto simp: client_ok_def)
    ultimately show False using c(2) [OF that] \<open>?next c = i\<close> by simp
  qed
  then have "writers i cs = 0" "readers i cs = 0"
    by (simp_all add: writers_def readers_def filter_empty_conv)
  with cnt i(1) have "m_nReadWriteCounter (locks ! i) = 0"
    by (auto simp: counters_ok_def counter_ok_def)
  with serve_free [of i locks c env] i c(1) assms(3,4) show ?thesis by blast
qed

definition all_missing :: "client list \<times> DMLock list \<Rightarrow> nat" where
  "all_missing s = sum_list (map (missing (length (snd s))) (fst s))"

lemma sweep_inv:
  "lock_inv (pre @ cs, locks) \<Longrightarrow> sweep env (cs, locks) = (cs', locks') \<Longrightarrow>
    lock_inv (pre @ cs', locks') \<and> length locks' = length locks \<and> length cs' = length cs"
proof (induction cs arbitrary: pre locks cs' locks')
  case (Cons c cs)
  obtain c1 locks1 where s: "serve env c locks = (c1, locks1)" by fastforce
  obtain cs1 locks2 where r: "sweep env (cs, locks1) = (cs1, locks2)" by fastforce
  have "lock_inv ((pre @ [c1]) @ cs, locks1)"
    using lock_step_inv [OF lock_step.served [OF s, of pre cs]] Cons.prems(1) by simp
  from Cons.IH [OF this r] serve_inv [OF s, of pre cs] Cons.prems s r show ?case
    by (auto simp: lock_inv_def)
qed auto

lemma sweep_missing:
  assumes "lock_inv (pre @ cs, locks)" "sweep env (cs, locks) = (cs', locks')"
  shows "all_missing (cs', locks') < all_missing (cs, locks) \<or>
    cs' = cs \<and> locks' = locks \<and> (\<forall>c\<in>set cs. fst (serve env c locks) = c)"
  using assms
proof (induction cs arbitrary: pre locks cs' locks')
  case (Cons c cs)
  obtain c1 locks1 where s: "serve env c locks = (c1, locks1)" by fastforce
  obtain cs1 locks2 where r: "sweep env (cs, locks1) = (cs1, locks2)" by fastforce
  have inv: "lock_inv ((pre @ [c1]) @ cs, locks1)" and l1: "length locks1 = length locks"
    using lock_step_inv [OF lock_step.served [OF s, of pre cs]] serve_inv [OF s, of pre cs] Cons.prems(1)
    by (auto simp: lock_inv_def)
  have l2: "length locks2 = length locks1" using sweep_inv [OF inv r] by simp
  from Cons.IH [OF inv r] serve_missing [OF s] Cons.prems(2) s r l1 l2 show ?case
    by (auto simp: all_missing_def)
qed auto

lemma request_loop_is_lock: "request_loop env is msg locks r = (d, r', msg', locks') \<Longrightarrow> m_bIsLock msg' = m_bIsLock msg"
proof (induction "is" arbitrary: msg locks r)
  case (Cons i "is")
  from Cons.prems show ?case
    by (auto simp: Let_def split: if_splits prod.splits dest: Cons.IH)
qed simp

lemma serve_is_lock: "m_bIsLock (cl_msg (fst (serve env c locks))) = m_bIsLock (cl_msg c)"
  by (auto simp: serve_def ProcessLockRequest_def dest: request_loop_is_lock split: prod.splits)

lemma sweep_is_lock:
  "sweep env (cs, locks) = (cs', locks') \<Longrightarrow> \<forall>c\<in>set cs. m_bIsLock (cl_msg c) \<Longrightarrow> \<forall>c\<in>set cs'. m_bIsLock (cl_msg c)"
proof (induction cs arbitrary: locks cs' locks')
  case (Cons c cs)
  then show ?case using serve_is_lock [of env c locks] by (auto simp: Let_def split: prod.splits)
qed simp


section \<open>Examples\<close>

text \<open>Two clients ask for two locks each, one of which both want.\<close>

definition asking :: "lock_type \<Rightarrow> 32 word \<Rightarrow> client" where
  "asking t w = \<lparr>cl_type = t, cl_set = w, cl_msg = \<lparr>m_bIsLock = True, m_nLockSet = w, m_eLockType = t\<rparr>\<rparr>"

lemma two_reachable:
  assumes "\<And>i. bit w i \<longrightarrow> i < n" "\<And>i. bit v i \<longrightarrow> i < n"
  shows "lock_reachable ([asking t w, asking u v], replicate n \<lparr>m_pFile = True, m_nReadWriteCounter = 0\<rparr>)"
proof -
  let ?locks = "replicate n \<lparr>m_pFile = True, m_nReadWriteCounter = 0\<rparr>"
  have "lock_reachable ([], ?locks)" by (rule start) simp
  moreover have "lock_step ([], ?locks) ([] @ [asking t w], ?locks)"
    unfolding asking_def by (rule ask) (use assms in auto)
  ultimately have "lock_reachable ([asking t w], ?locks)" by (auto intro: step)
  moreover have "lock_step ([asking t w], ?locks) ([asking t w] @ [asking u v], ?locks)"
    unfolding asking_def by (rule ask) (use assms in auto)
  ultimately show ?thesis by (auto intro: step)
qed


lemma lock_exclusion_witness:
  "let c = (asking SYNCML_DM_LOCK_TYPE_SHARED 1)\<lparr>cl_msg := \<lparr>m_bIsLock = True, m_nLockSet = 0, m_eLockType = SYNCML_DM_LOCK_TYPE_SHARED\<rparr>\<rparr> in
   holds c 0 \<and> \<not> is_writer c \<and> \<not> is_writer c"
proof -
  let ?a = "asking SYNCML_DM_LOCK_TYPE_SHARED 1"
  let ?c = "?a\<lparr>cl_msg := \<lparr>m_bIsLock = True, m_nLockSet = 0, m_eLockType = SYNCML_DM_LOCK_TYPE_SHARED\<rparr>\<rparr>"
  let ?l = "\<lambda>n. [\<lparr>m_pFile = True, m_nReadWriteCounter = n\<rparr>]"
  have serve: "serve (\<lambda>_. SYNCML_DM_SUCCESS) ?a (?l n) = (?c, ?l (n + 1))" if "0 \<le> n" for n
    using that by (simp add: serve_def ProcessLockRequest_def asking_def DMLock_Lock_def DMLock_take_def Let_def)
  have "lock_reachable ([?a, ?a], ?l 0)"
    using two_reachable [of 1 1 1 SYNCML_DM_LOCK_TYPE_SHARED SYNCML_DM_LOCK_TYPE_SHARED] by (simp add: bit_1_iff)
  moreover have "lock_step ([] @ ?a # [?a], ?l 0) ([] @ ?c # [?a], ?l 1)"
    using serve [of 0] by (intro served) simp
  ultimately have "lock_reachable ([?c, ?a], ?l 1)" by (auto intro: step)
  moreover have "lock_step ([?c] @ ?a # [], ?l 1) ([?c] @ ?c # [], ?l 2)"
    using serve [of 1] by (intro served) simp
  ultimately have "lock_reachable ([?c, ?c], ?l 2)" by (auto intro: step)
  then have "lock_reachable ([] @ ?c # [] @ ?c # [], ?l 2)" by simp
  moreover have "holds ?c 0" by (simp add: holds_def asking_def)
  ultimately show ?thesis using lock_exclusion [of "[]" ?c "[]" ?c "[]" "?l 2" 0] by simp
qed

text \<open>
  The status of a request is that of its last lock: a lock that could not be taken before it is not
  reported, and counts as taken.
\<close>

lemma error_is_overwritten:
  "ProcessLockRequest (\<lambda>i. if i = 0 then SYNCML_DM_IO_FAILURE else SYNCML_DM_SUCCESS)
     \<lparr>m_bIsLock = True, m_nLockSet = 3, m_eLockType = SYNCML_DM_LOCK_TYPE_EXCLUSIVE\<rparr>
     [\<lparr>m_pFile = True, m_nReadWriteCounter = 0\<rparr>, \<lparr>m_pFile = True, m_nReadWriteCounter = 0\<rparr>] =
   (True, SYNCML_DM_SUCCESS, \<lparr>m_bIsLock = True, m_nLockSet = 0, m_eLockType = SYNCML_DM_LOCK_TYPE_EXCLUSIVE\<rparr>,
     [\<lparr>m_pFile = True, m_nReadWriteCounter = - 1\<rparr>, \<lparr>m_pFile = True, m_nReadWriteCounter = - 1\<rparr>])"
  by (simp add: ProcessLockRequest_def upt_rec DMLock_Lock_def DMLock_take_def Let_def)

text \<open>Unlocking a lock that nobody has makes a writer of nobody.\<close>

lemma Unlock_free_lock: "DMLock_Unlock r \<lparr>m_pFile = False, m_nReadWriteCounter = 0\<rparr> =
  (SYNCML_DM_SUCCESS, \<lparr>m_pFile = False, m_nReadWriteCounter = - 1\<rparr>)"
  by (simp add: DMLock_Unlock_def)

text \<open>With 31 files, which are accepted, the access control lists have a lock no set can name.\<close>

lemma acl_lock_out_of_range:
  "map_option (config_file_lock True) (lock_number 31) = Some 32" "\<not> bit (w :: 32 word) 32"
  using bit_length [of w 32] by (auto simp: lock_number_def config_file_lock_def)

end
