(* ===== verification/Dm_Manager.thy ===== *)
theory Dm_Manager
  imports Dm_Config Dm_Lock
begin

text \<open>
  The manager of the access control lists (\<open>DMConfigManager\<close> with \<open>DMAclManager\<close>): its cached copy of the
  configuration, and the three files it saves it with. A new version is written to a temporary file,
  the old one is renamed to a backup, the new one takes its name and the backup is deleted; the next
  start finds out from the files that are there how far a saving came.
\<close>

section \<open>The files\<close>

record files =
  f_main :: "byte list option"
  f_temp :: "byte list option"
  f_bak :: "byte list option"

datatype file_op = CreateMain | OpenTemp | WriteTemp "byte list"
  | RenameMainBak | RenameTempMain | RenameBakMain | RemoveTemp | RemoveBak

text \<open>Renaming a file that is not there fails and does nothing; an existing target is replaced.\<close>

fun file_do :: "file_op \<Rightarrow> files \<Rightarrow> files" where
  "file_do CreateMain fs = fs\<lparr>f_main := Some []\<rparr>"
| "file_do OpenTemp fs = fs\<lparr>f_temp := Some []\<rparr>"
| "file_do (WriteTemp bs) fs = fs\<lparr>f_temp := map_option (\<lambda>c. c @ bs) (f_temp fs)\<rparr>"
| "file_do RenameMainBak fs =
     (case f_main fs of None \<Rightarrow> fs | Some c \<Rightarrow> fs\<lparr>f_main := None, f_bak := Some c\<rparr>)"
| "file_do RenameTempMain fs =
     (case f_temp fs of None \<Rightarrow> fs | Some c \<Rightarrow> fs\<lparr>f_temp := None, f_main := Some c\<rparr>)"
| "file_do RenameBakMain fs =
     (case f_bak fs of None \<Rightarrow> fs | Some c \<Rightarrow> fs\<lparr>f_bak := None, f_main := Some c\<rparr>)"
| "file_do RemoveTemp fs = fs\<lparr>f_temp := None\<rparr>"
| "file_do RemoveBak fs = fs\<lparr>f_bak := None\<rparr>"

definition run_ops :: "file_op list \<Rightarrow> files \<Rightarrow> files" where
  "run_ops ops fs = fold file_do ops fs"

text \<open>\<open>Serialize\<close>: the writes of the configuration, and the exchange of the files.\<close>

definition Serialize_ops :: "byte list list \<Rightarrow> file_op list" where
  "Serialize_ops ws = OpenTemp # map WriteTemp ws @ [RenameMainBak, RenameTempMain, RemoveBak]"

text \<open>\<open>CheckRecovery\<close>: the four combinations of a temporary file and a backup.\<close>

definition CheckRecovery_ops :: "files \<Rightarrow> file_op list" where
  "CheckRecovery_ops fs =
     (case (f_temp fs, f_bak fs) of
        (Some _, Some _) \<Rightarrow> [RenameBakMain, RemoveTemp]
      | (Some _, None) \<Rightarrow> [RemoveTemp]
      | (None, Some _) \<Rightarrow> [RemoveBak]
      | (None, None) \<Rightarrow> [])"

definition CheckRecovery :: "files \<Rightarrow> files" where
  "CheckRecovery fs = run_ops (CheckRecovery_ops fs) fs"

text \<open>\<open>Init\<close> creates the file when it is missing.\<close>

definition Init_ops :: "files \<Rightarrow> file_op list" where
  "Init_ops fs = (if f_main fs = None then [CreateMain] else [])"

definition start_ops :: "files \<Rightarrow> file_op list" where
  "start_ops fs = Init_ops fs @ CheckRecovery_ops (run_ops (Init_ops fs) fs)"

section \<open>Power failures\<close>

text \<open>The states in which a sequence of file operations can be interrupted; a write may be torn.\<close>

inductive interrupted :: "file_op list \<Rightarrow> files \<Rightarrow> files \<Rightarrow> bool" where
  now: "interrupted ops fs fs"
| torn: "interrupted (WriteTemp (a @ b) # ops) fs (file_do (WriteTemp a) fs)"
| later: "interrupted ops (file_do op fs) fs' \<Longrightarrow> interrupted (op # ops) fs fs'"

inductive_cases interrupted_Nil [elim!]: "interrupted [] fs fs'"
inductive_cases interrupted_Cons: "interrupted (op # ops) fs fs'"

text \<open>A start that goes through, after any number of starts that were interrupted.\<close>

inductive recovered :: "files \<Rightarrow> files \<Rightarrow> bool" where
  through: "recovered fs (run_ops (start_ops fs) fs)"
| again: "interrupted (start_ops fs) fs fs1 \<Longrightarrow> recovered fs1 fs2 \<Longrightarrow> recovered fs fs2"

text \<open>The states on the way from the old to the new contents and back.\<close>

inductive safe :: "byte list \<Rightarrow> byte list \<Rightarrow> files \<Rightarrow> bool" for old new where
  before: "safe old new \<lparr>f_main = Some old, f_temp = t, f_bak = None\<rparr>"
| moved: "m = None \<or> m = Some [] \<Longrightarrow> safe old new \<lparr>f_main = m, f_temp = Some t, f_bak = Some old\<rparr>"
| replaced: "safe old new \<lparr>f_main = Some new, f_temp = None, f_bak = Some old\<rparr>"
| cleaned: "safe old new \<lparr>f_main = Some new, f_temp = None, f_bak = None\<rparr>"

lemmas files_simps = run_ops_def CheckRecovery_ops_def Init_ops_def start_ops_def

lemma interrupted_writes:
  assumes "interrupted (map WriteTemp ws @ ops) \<lparr>f_main = Some old, f_temp = Some t, f_bak = None\<rparr> fs'"
    "\<And>fs'. interrupted ops \<lparr>f_main = Some old, f_temp = Some (t @ concat ws), f_bak = None\<rparr> fs' \<Longrightarrow> safe old new fs'"
  shows "safe old new fs'"
  using assms
proof (induction ws arbitrary: t)
  case (Cons w ws)
  from Cons.prems(1) show ?case
    by (auto elim!: interrupted_Cons intro: before Cons.IH [OF _ Cons.prems(2)])
qed simp

lemma interrupted_Serialize:
  assumes "interrupted (Serialize_ops ws) \<lparr>f_main = Some old, f_temp = None, f_bak = None\<rparr> fs'"
  shows "safe old (concat ws) fs'"
proof -
  have last: "safe old (concat ws) fs'"
    if "interrupted [RenameMainBak, RenameTempMain, RemoveBak]
      \<lparr>f_main = Some old, f_temp = Some (concat ws), f_bak = None\<rparr> fs'" for fs'
    using that by (auto elim!: interrupted_Cons intro: safe.intros)
  from assms show ?thesis
    unfolding Serialize_ops_def
  proof (rule interrupted_Cons)
    assume "interrupted (map WriteTemp ws @ [RenameMainBak, RenameTempMain, RemoveBak])
      (file_do OpenTemp \<lparr>f_main = Some old, f_temp = None, f_bak = None\<rparr>) fs'"
    then show ?thesis using interrupted_writes [where t = "[]"] last by simp
  qed (auto intro: before)
qed

lemma interrupted_start:
  assumes "safe old new fs" "interrupted (start_ops fs) fs fs'"
  shows "safe old new fs'"
  using assms
proof (cases rule: safe.cases)
  case b: (before t)
  with assms(2) show ?thesis
    by (cases t) (auto simp: files_simps elim!: interrupted_Cons intro: safe.intros)
next
  case m: (moved m t)
  from m(2) show ?thesis
  proof
    assume "m = None"
    with m(1) assms(2) show ?thesis
      by (auto simp: files_simps elim!: interrupted_Cons intro: safe.moved safe.intros)
  next
    assume "m = Some []"
    with m(1) assms(2) show ?thesis
      by (auto simp: files_simps elim!: interrupted_Cons intro: safe.moved safe.intros)
  qed
qed (use assms(2) in \<open>auto simp: files_simps elim!: interrupted_Cons intro: safe.intros\<close>)

lemma safe_start:
  assumes "safe old new fs"
  shows "run_ops (start_ops fs) fs \<in>
    {\<lparr>f_main = Some old, f_temp = None, f_bak = None\<rparr>, \<lparr>f_main = Some new, f_temp = None, f_bak = None\<rparr>}"
  using assms by (cases rule: safe.cases) (auto simp: files_simps split: option.splits)



text \<open>
  The results of the renames are not looked at. When the second one fails, the backup is deleted all
  the same, and the next start deletes the temporary file: nothing is left.
\<close>

lemma Serialize_rename_fails:
  assumes "fs = file_do RemoveBak (file_do RenameMainBak \<lparr>f_main = Some old, f_temp = Some new, f_bak = None\<rparr>)"
  shows "run_ops (start_ops fs) fs = \<lparr>f_main = Some [], f_temp = None, f_bak = None\<rparr>"
  unfolding assms by (simp add: files_simps)

section \<open>The manager in memory\<close>

record manager =
  m_aConfig :: "acl_item list"
  m_bChanged :: bool
  m_bLoaded :: bool
  m_nLastLoadTimeStamp :: nat

definition DMConfigManager_new :: manager where
  "DMConfigManager_new = \<lparr>m_aConfig = [], m_bChanged = False, m_bLoaded = False, m_nLastLoadTimeStamp = 0\<rparr>"

text \<open>
  \<open>stamp\<close> is what \<open>XPL_FS_GetModTime\<close> answers for the file. An empty or missing file empties the
  memory and leaves the flags as they were.
\<close>

definition Deserialize :: "nat \<Rightarrow> nat \<Rightarrow> manager \<times> files \<Rightarrow> (dm_status \<times> manager \<times> files) option" where
  "Deserialize room stamp = (\<lambda>(m, fs).
     if m_bLoaded m \<and> stamp = m_nLastLoadTimeStamp m then Some (SYNCML_DM_SUCCESS, m, fs)
     else
       let fs = CheckRecovery fs; m = m\<lparr>m_aConfig := []\<rparr>
       in case f_main fs of
            None \<Rightarrow> Some (SYNCML_DM_IO_FAILURE, m, fs)
          | Some [] \<Rightarrow> Some (SYNCML_DM_SUCCESS, m, fs)
          | Some (c # cs) \<Rightarrow> do {
              config \<leftarrow> read_config room (c # cs);
              Some (SYNCML_DM_SUCCESS, \<lparr>m_aConfig = config, m_bChanged = False, m_bLoaded = True,
                m_nLastLoadTimeStamp = stamp\<rparr>, fs) })"

definition Serialize :: "nat \<Rightarrow> manager \<times> files \<Rightarrow> (dm_status \<times> manager \<times> files) option" where
  "Serialize stamp = (\<lambda>(m, fs).
     if \<not> m_bChanged m then Some (SYNCML_DM_SUCCESS, m, fs)
     else do {
       ws \<leftarrow> config_writes (m_aConfig m);
       Some (SYNCML_DM_SUCCESS, m\<lparr>m_bChanged := False, m_bLoaded := True, m_nLastLoadTimeStamp := stamp\<rparr>,
         run_ops (Serialize_ops ws) fs) })"

definition Revert :: "nat \<Rightarrow> nat \<Rightarrow> manager \<times> files \<Rightarrow> (dm_status \<times> manager \<times> files) option" where
  "Revert room stamp = (\<lambda>(m, fs).
     if \<not> m_bLoaded m \<or> \<not> m_bChanged m then Some (SYNCML_DM_SUCCESS, m, fs)
     else Deserialize room stamp (m\<lparr>m_bChanged := False, m_bLoaded := False\<rparr>, fs))"

text \<open>The status of the reload is not looked at.\<close>

definition CheckLocking :: "nat \<Rightarrow> nat \<Rightarrow> manager \<times> files \<Rightarrow> (manager \<times> files) option" where
  "CheckLocking room stamp mf =
     (if \<not> m_bChanged (fst mf) then map_option snd (Deserialize room stamp mf) else Some mf)"

definition config_index :: "byte list \<Rightarrow> acl_item list \<Rightarrow> nat option" where
  "config_index szPath config = find (\<lambda>i. fst (config ! i) = szPath) [0..<length config]"

text \<open>Removing at an index that is behind the vector does nothing (\<open>DMVector::remove\<close>).\<close>

definition config_remove :: "nat \<Rightarrow> acl_item list \<Rightarrow> acl_item list" where
  "config_remove i config = take i config @ drop (Suc i) config"

text \<open>The index is the one from before the reload.\<close>

definition config_Delete :: "nat \<Rightarrow> nat \<Rightarrow> byte list \<Rightarrow> manager \<times> files \<Rightarrow> (dm_status \<times> manager \<times> files) option" where
  "config_Delete room stamp szPath = (\<lambda>(m, fs).
     case config_index szPath (m_aConfig m) of
       None \<Rightarrow> Some (SYNCML_DM_NOT_FOUND, m, fs)
     | Some i \<Rightarrow> do {
         (m, fs) \<leftarrow> CheckLocking room stamp (m, fs);
         Some (SYNCML_DM_SUCCESS, m\<lparr>m_aConfig := config_remove i (m_aConfig m), m_bChanged := True\<rparr>, fs) })"

definition SetACL :: "nat \<Rightarrow> nat \<Rightarrow> byte list \<Rightarrow> byte list option \<Rightarrow> manager \<times> files \<Rightarrow> (dm_status \<times> manager \<times> files) option" where
  "SetACL room stamp szPath szACL mf = do {
     mf \<leftarrow> CheckLocking room stamp mf;
     (_, m, fs) \<leftarrow> config_Delete room stamp szPath mf;
     Some (SYNCML_DM_SUCCESS, m\<lparr>m_aConfig := m_aConfig m @ [(szPath, DmtAcl szACL)], m_bChanged := True\<rparr>, fs) }"

text \<open>
  \<open>mdf\<close> is the answer of the metadata manager: the path of the node in the description of the tree,
  in which the parts of the path that are arbitrary names have a common one.
\<close>

definition config_Get :: "(byte list \<Rightarrow> dm_status + byte list) \<Rightarrow> byte list \<Rightarrow> acl_item list \<Rightarrow> dm_status + acl" where
  "config_Get mdf szPath config =
     (case acl_find szPath config of
        Some a \<Rightarrow> Inr a
      | None \<Rightarrow>
          (case mdf szPath of
             Inl status \<Rightarrow> Inl status
           | Inr szMDF \<Rightarrow>
               if szMDF \<noteq> szPath then
                 (case acl_find szMDF config of None \<Rightarrow> Inl SYNCML_DM_NOT_FOUND | Some a \<Rightarrow> Inr a)
               else Inl SYNCML_DM_NOT_FOUND))"

definition GetACL :: "nat \<Rightarrow> nat \<Rightarrow> (byte list \<Rightarrow> dm_status + byte list) \<Rightarrow> byte list \<Rightarrow> manager \<times> files
    \<Rightarrow> ((dm_status + byte list) \<times> manager \<times> files) option" where
  "GetACL room stamp mdf szPath = (\<lambda>(m, fs). do {
     (m, fs) \<leftarrow> (if m_bLoaded m then Some (m, fs) else map_option snd (Deserialize room stamp (m, fs)));
     Some (map_sum id toString (config_Get mdf szPath (m_aConfig m)), m, fs) })"

text \<open>
  The check of a command: \<open>is_local\<close> and \<open>mdf\<close> are the answers of the metadata manager. A node must
  be permitted by its own path, and when its description has another one, by that as well.
\<close>

definition IsPermitted_local :: "nat \<Rightarrow> nat \<Rightarrow> (byte list \<Rightarrow> bool) \<Rightarrow> (byte list \<Rightarrow> dm_status + byte list) \<Rightarrow> byte list \<Rightarrow> principal \<Rightarrow> byte \<Rightarrow> bool
    \<Rightarrow> manager \<times> files \<Rightarrow> (bool \<times> manager \<times> files) option" where
  "IsPermitted_local room stamp is_local mdf szPath szServerID nPermissions bIsCheckLocal = (\<lambda>(m, fs).
     if bIsCheckLocal \<and> is_local szPath then Some (False, m, fs)
     else do {
       (m, fs) \<leftarrow> (if m_bLoaded m then Some (m, fs) else map_option snd (Deserialize room stamp (m, fs)));
       (r, _) \<leftarrow> IsPermitted (m_aConfig m) (szPath @ [0]) szServerID nPermissions;
       (if \<not> r then Some (False, m, fs)
        else
          let szMDF = (case mdf szPath of Inl _ \<Rightarrow> [] | Inr p \<Rightarrow> p)
          in if szMDF \<noteq> szPath then do {
               (r, _) \<leftarrow> IsPermitted (m_aConfig m) (szMDF @ [0]) szServerID nPermissions;
               Some (r, m, fs) }
             else Some (True, m, fs)) })"

section \<open>Setting a list\<close>

text \<open>The specification: the list of a path is replaced, or added at the end.\<close>

definition acl_set :: "byte list \<Rightarrow> acl \<Rightarrow> acl_item list \<Rightarrow> acl_item list" where
  "acl_set p a config = filter (\<lambda>it. fst it \<noteq> p) config @ [(p, a)]"

lemma acl_find_set: "acl_find q (acl_set p a config) = (if q = p then Some a else acl_find q config)"
  by (induction config) (auto simp: acl_find_def acl_set_def)

lemma config_index_None: "config_index p config = None \<longleftrightarrow> p \<notin> fst ` set config"
proof -
  have "p \<in> fst ` set config \<longleftrightarrow> (\<exists>i<length config. fst (config ! i) = p)"
    by (force simp: in_set_conv_nth image_iff)
  then show ?thesis by (auto simp: config_index_def find_None_iff)
qed

lemma config_remove_filter:
  assumes "distinct (map fst config)" "config_index p config = Some i"
  shows "config_remove i config = filter (\<lambda>it. fst it \<noteq> p) config"
proof -
  from assms(2) have i: "i < length config" "fst (config ! i) = p"
    by (auto simp: config_index_def find_Some_iff)
  then have c: "config = take i config @ config ! i # drop (Suc i) config" by (rule_tac id_take_nth_drop)
  have "distinct (map fst (take i config @ config ! i # drop (Suc i) config))"
    using assms(1) c by simp
  then have "\<forall>it\<in>set (take i config) \<union> set (drop (Suc i) config). fst it \<noteq> p"
    using i(2) by (force simp: image_iff)
  then have "filter (\<lambda>it. fst it \<noteq> p) (take i config @ config ! i # drop (Suc i) config) = config_remove i config"
    using i(2) by (simp add: config_remove_def filter_True)
  then show ?thesis using c by simp
qed

lemma config_remove_absent: "p \<notin> fst ` set config \<Longrightarrow> filter (\<lambda>it. fst it \<noteq> p) config = config"
  by (auto simp: filter_id_conv)

lemma Serialize_files:
  "run_ops (Serialize_ops ws) \<lparr>f_main = Some old, f_temp = None, f_bak = None\<rparr> =
    \<lparr>f_main = Some (concat ws), f_temp = None, f_bak = None\<rparr>"
proof -
  have "fold file_do (map WriteTemp ws) \<lparr>f_main = Some old, f_temp = Some t, f_bak = None\<rparr> =
      \<lparr>f_main = Some old, f_temp = Some (t @ concat ws), f_bak = None\<rparr>" for t
    by (induction ws arbitrary: t) simp_all
  then show ?thesis by (simp add: run_ops_def Serialize_ops_def)
qed

lemma config_writes_not_Nil: "config \<noteq> [] \<Longrightarrow> config_writes config = Some ws \<Longrightarrow> concat ws \<noteq> []"
  by (auto simp: config_writes_def Let_def split: Option.bind_splits)

lemma SetACL_config:
  assumes "distinct (map fst (m_aConfig m))"
    "m_bChanged m \<or> m_bLoaded m \<and> stamp = m_nLastLoadTimeStamp m"
  shows "SetACL room stamp path txt (m, fs) =
    Some (SYNCML_DM_SUCCESS, m\<lparr>m_aConfig := acl_set path (DmtAcl txt) (m_aConfig m), m_bChanged := True\<rparr>, fs)"
proof -
  have c: "CheckLocking room stamp (m, fs) = Some (m, fs)"
    using assms(2) by (auto simp: CheckLocking_def Deserialize_def)
  show ?thesis
  proof (cases "config_index path (m_aConfig m)")
    case None
    with c show ?thesis
      by (simp add: SetACL_def config_Delete_def acl_set_def config_remove_absent config_index_None [symmetric])
  next
    case (Some i)
    with c config_remove_filter [OF assms(1) Some] show ?thesis
      by (simp add: SetACL_def config_Delete_def acl_set_def)
  qed
qed



text \<open>
  Deleting uses the position that the path had before the file was read again: when another process
  has changed the file, the entry of another node is deleted.
\<close>

lemma Delete_stale_index:
  assumes "read_config room new = Some [(p, a), (q, b)]" "p \<noteq> q" "new \<noteq> []" "m_nLastLoadTimeStamp m \<noteq> stamp"
    "m_bChanged m = False" "m_aConfig m = [(q, b)]"
  shows "config_Delete room stamp q (m, \<lparr>f_main = Some new, f_temp = None, f_bak = None\<rparr>) =
    Some (SYNCML_DM_SUCCESS,
      \<lparr>m_aConfig = [(q, b)], m_bChanged = True, m_bLoaded = True, m_nLastLoadTimeStamp = stamp\<rparr>,
      \<lparr>f_main = Some new, f_temp = None, f_bak = None\<rparr>)"
  using assms
  by (cases new) (auto simp: config_Delete_def config_index_def CheckLocking_def Deserialize_def CheckRecovery_def
      CheckRecovery_ops_def run_ops_def config_remove_def)

end
