(* ===== verification/Scanner_Props.thy ===== *)
theory Scanner_Props
  imports Encoder_Props
begin

text \<open>
  The properties of the scanner on arbitrary bytes, and of the length field of opaque data.
\<close>

lemma nextTok_bounds:
  assumes "nextTok s = Some (r, s')" "sc_pos s \<le> sc_bufend s"
  shows "sc_pos s' \<le> sc_bufend s' \<and> sc_bufend s' = sc_bufend s \<and> sc_mem s' = sc_mem s \<and>
    (r = SML_ERR_OK \<longrightarrow> sc_pos s < sc_pos s')"
  using nextTok_advance [OF assms(1)] assms(2) by (auto simp: advances_def keeps_def)


definition sample_scanner :: "byte list \<Rightarrow> wbxmlScanner" where
  "sample_scanner m = scanner_init m (int (length m)) 0 \<lparr>topidx = 0, stk_size = 10, chunksize = 10,
     stk_array = replicate 10 None\<rparr> empty_table"


text \<open>
  The comparison in \<open>readBytes\<close>
  admits the position \<open>bufend\<close> itself, and the byte at the position is read without a check. Whenever a
  document has been consumed to its last byte and no memory follows it, the next call of \<open>nextTok\<close> reads
  outside the document.
\<close>

theorem scanner_overreads:
  assumes "sc_pos s = sc_bufend s" "sc_bufend s = int (length (sc_mem s))"
  shows "nextTok s = None"
  using assms by (simp add: nextTok_def nextTok_loop.simps sc_cur_def mem_at_def)

theorem scanner_overreads_witness:
  "nextTok ((sample_scanner [3, 65, 0])\<lparr>sc_pos := 3\<rparr>) = None"
  using scanner_overreads [of "(sample_scanner [3, 65, 0])\<lparr>sc_pos := 3\<rparr>"]
  by (simp add: sample_scanner_def scanner_init_def)

text \<open>
  For data of \<open>2^28\<close> bytes or more
  \<open>wbxmlOpaqueSize2Buf\<close> writes no length at all and reports success, so that the document cannot be read
  back.
\<close>

theorem opaque_length_lost:
  assumes "buf_ok b" "2 ^ 28 \<le> n"
  shows "\<exists>g. wbxmlOpaqueSize2Buf n b = Some (SML_ERR_OK, b\<lparr>bm_tok := g\<rparr>)"
proof -
  have "opaque_bytes_needed n = 0" using assms(2) by (simp add: opaque_bytes_needed_def)
  moreover have "tok_malloc (bm_tok b) = (True, bm_tok b)" using assms(1) by (intro tok_malloc_ready) (simp add: buf_ok_def)
  moreover have "s32 (bm_written b) = Some (bm_written b)" "0 \<le> bm_pos b" "\<not> bm_eval b" "bm_written b \<le> bm_len b"
    "nat (bm_pos b) \<le> length (bm_mem b)"
    using assms(1) by (auto simp: buf_ok_def s32_def)
  ultimately show ?thesis
    by (intro exI [of _ "bm_tok b"])
       (simp add: wbxmlOpaqueSize2Buf_def add_bytes_def xltAddToBuffer_def ptr_bytes_def mem_put_def buf_put_def)
qed

theorem opaque_length_lost_witness:
  "\<exists>g. wbxmlOpaqueSize2Buf 300000000 full_buffer = Some (SML_ERR_OK, full_buffer\<lparr>bm_tok := g\<rparr>)"
  using opaque_length_lost [of full_buffer 300000000]
  by (simp add: buf_ok_def full_buffer_def empty_table_ready)

end
