(* ===== verification/Wsm_Storage.thy ===== *)
theory Wsm_Storage
  imports DM_Prelude
begin

text \<open>
  The storage layer of the workspace manager, \<open>wsm_sm.c\<close>: a linked list of named memory blocks,
  with the state that \<open>wsm.c\<close> keeps beside it (\<open>WsmGlobals_t\<close> of \<open>wsm.h\<close>). Memory blocks are
  entries of \<open>heap\<close>, a byte being \<open>None\<close> until it is written; a list node whose memory was
  freed while it is still linked has \<open>live = False\<close>. The results of the allocator are the
  oracle \<open>oom\<close>: \<open>oom i\<close> says that allocation number \<open>i\<close> fails. Sizes (\<open>MemSize_t\<close>, a signed
  long) and handles (\<open>MemHandle_t\<close>, a short) are integers.
\<close>

section \<open>Data\<close>

definition MAX_WSM_BUFFERS :: nat where "MAX_WSM_BUFFERS = 4"

text \<open>A pointer into a block, \<open>(Some b, off)\<close>, or an offset from the null pointer.\<close>

type_synonym MemPtr = "nat option \<times> int"

abbreviation NULL :: MemPtr where "NULL \<equiv> (None, 0)"

record smWinList =
  memName :: "byte list"
  winH :: "nat option"
  sm_memH :: int
  locked :: bool
  memSize :: int
  live :: bool

record WsmBuf =
  bufName :: "byte list option"
  memH :: int
  pFirstFree :: MemPtr
  pFirstData :: MemPtr
  bsize :: int
  usedBytes :: int
  flags :: byte

text \<open>The pointer \<open>wsmGlobals\<close> of the anchor: null, valid, or freed and still set.\<close>

datatype gstat = No_globals | Live_globals | Freed_globals

record wsm =
  globals :: gstat
  wsmRet :: ret
  initWasCalled :: bool
  wsmBuf :: "WsmBuf list"
  wsmIndex :: int
  wsmSm :: "smWinList list"
  maxWsmAvailMem :: int
  heap :: "nat \<Rightarrow> byte option list option"
  hnext :: nat
  oom :: "nat \<Rightarrow> bool"
  mallocs :: nat

section \<open>Allocation\<close>

definition c_malloc :: "wsm \<Rightarrow> bool \<times> wsm" where
  "c_malloc s = (\<not> oom s (mallocs s), s\<lparr>mallocs := Suc (mallocs s)\<rparr>)"

definition block_malloc :: "int \<Rightarrow> wsm \<Rightarrow> nat option \<times> wsm" where
  "block_malloc n s =
     (let (ok, s) = c_malloc s
      in if ok then (Some (hnext s), s\<lparr>heap := (heap s)(hnext s \<mapsto> replicate (nat n) None),
                                       hnext := Suc (hnext s)\<rparr>)
         else (None, s))"

definition block_free :: "nat option \<Rightarrow> wsm \<Rightarrow> wsm option" where
  "block_free b s =
     (case b of None \<Rightarrow> Some s
      | Some i \<Rightarrow> if heap s i = None then None else Some (s\<lparr>heap := (heap s)(i := None)\<rparr>))"

text \<open>Reading and writing an entry of the buffer table.\<close>

definition buf_at :: "int \<Rightarrow> wsm \<Rightarrow> WsmBuf option" where
  "buf_at i s =
     (if globals s = Live_globals \<and> 0 \<le> i \<and> i < int (length (wsmBuf s)) then Some (wsmBuf s ! nat i)
      else None)"

definition buf_upd :: "int \<Rightarrow> (WsmBuf \<Rightarrow> WsmBuf) \<Rightarrow> wsm \<Rightarrow> wsm option" where
  "buf_upd i f s = do {
     e \<leftarrow> buf_at i s;
     Some (s\<lparr>wsmBuf := (wsmBuf s)[nat i := f e]\<rparr>)
   }"

definition node_upd :: "nat \<Rightarrow> (smWinList \<Rightarrow> smWinList) \<Rightarrow> wsm \<Rightarrow> wsm" where
  "node_upd k f s = s\<lparr>wsmSm := (wsmSm s)[k := f (wsmSm s ! k)]\<rparr>"

text \<open>\<open>strcmp (a, b) == 0\<close>; \<open>b\<close> may be a null pointer.\<close>

definition str_eq :: "byte list \<Rightarrow> byte list option \<Rightarrow> bool option" where
  "str_eq a b = (case b of None \<Rightarrow> None | Some b \<Rightarrow> Some (a = b))"

section \<open>The list of blocks\<close>

fun sm_find :: "(smWinList \<Rightarrow> bool option) \<Rightarrow> smWinList list \<Rightarrow> nat option option" where
  "sm_find P [] = Some None"
| "sm_find P (n # ns) =
     (if \<not> live n then None
      else do {
        c \<leftarrow> P n;
        if c then Some (Some 0)
        else do { r \<leftarrow> sm_find P ns; Some (map_option Suc r) }
      })"

definition locateEle :: "byte list option \<Rightarrow> wsm \<Rightarrow> nat option option" where
  "locateEle eleName s = sm_find (\<lambda>n. str_eq (memName n) eleName) (wsmSm s)"

definition locateH :: "int \<Rightarrow> wsm \<Rightarrow> nat option option" where
  "locateH h s = sm_find (\<lambda>n. Some (sm_memH n = h)) (wsmSm s)"

text \<open>The loop of \<open>newListEle\<close>: the bound tests \<open>*newHandle\<close>, which the loop does not change.\<close>

function first_unused :: "int \<Rightarrow> wsm \<Rightarrow> nat \<Rightarrow> nat option" where
  "first_unused newHandle s i =
     (if newHandle < int MAX_WSM_BUFFERS then
        (case buf_at (int i) s of
           None \<Rightarrow> None
         | Some e \<Rightarrow> if memH e \<noteq> - 1 then first_unused newHandle s (Suc i) else Some i)
      else Some i)"
  by pat_completeness auto
termination
  by (relation "measure (\<lambda>(h, s, i). length (wsmBuf s) - i)") (auto simp: buf_at_def split: if_splits)

text \<open>
  \<open>newListEle\<close>: the index of the new element and its handle, or \<open>None\<close> for the result 0. The
  fields that the caller sets before it reads them start at zero here.
\<close>

definition newListEle :: "byte list \<Rightarrow> int \<Rightarrow> wsm \<Rightarrow> (nat option \<times> int \<times> wsm) option" where
  "newListEle name newHandle s = do {
     i \<leftarrow> first_unused newHandle s 0;
     if i = MAX_WSM_BUFFERS then Some (None, newHandle, s)
     else do {
       let newHandle = int i + 1;
       let (ok, s) = c_malloc s;
       if \<not> ok then Some (None, newHandle, s)
       else do {
         let (ok, s) = c_malloc s;
         if \<not> ok then Some (None, newHandle, s)
         else if \<exists>n \<in> set (wsmSm s). \<not> live n then None
         else Some (Some (length (wsmSm s)), newHandle,
                s\<lparr>wsmSm := wsmSm s @ [\<lparr>memName = name, winH = None, sm_memH = 0, locked = False,
                                        memSize = 0, live = True\<rparr>]\<rparr>)
       }
     }
   }"

definition removeEle :: "byte list option \<Rightarrow> wsm \<Rightarrow> wsm option" where
  "removeEle eleName s = do {
     r \<leftarrow> locateEle eleName s;
     case r of
       None \<Rightarrow> Some s
     | Some k \<Rightarrow> Some (s\<lparr>wsmSm := take k (wsmSm s) @ drop (Suc k) (wsmSm s)\<rparr>)
   }"

section \<open>The operations\<close>

definition smCreate :: "byte list \<Rightarrow> int \<Rightarrow> int \<Rightarrow> wsm \<Rightarrow> (ret \<times> int \<times> wsm) option" where
  "smCreate name sz h s =
     (if sz \<le> 0 then Some (SML_ERR_INVALID_SIZE, h, s)
      else do {
        r \<leftarrow> locateEle (Some name) s;
        if r \<noteq> None then Some (SML_ERR_WRONG_USAGE, h, s)
        else do {
          (r, h, s) \<leftarrow> newListEle name h s;
          case r of
            None \<Rightarrow> Some (SML_ERR_NOT_ENOUGH_SPACE, h, s)
          | Some k \<Rightarrow>
              (let (b, s) = block_malloc sz s
               in if b = None
                  then Some (SML_ERR_NOT_ENOUGH_SPACE, h, node_upd k (\<lambda>n. n\<lparr>live := False\<rparr>) s)
                  else Some (SML_ERR_OK, h, node_upd k (\<lambda>n. n\<lparr>winH := b, locked := False,
                                                              sm_memH := h, memSize := sz\<rparr>) s))
        }
      })"

definition smOpen :: "byte list \<Rightarrow> int \<Rightarrow> wsm \<Rightarrow> (ret \<times> int) option" where
  "smOpen name h s = do {
     r \<leftarrow> locateEle (Some name) s;
     case r of
       None \<Rightarrow> Some (SML_ERR_WRONG_PARAM, h)
     | Some k \<Rightarrow> Some (SML_ERR_OK, sm_memH (wsmSm s ! k))
   }"

definition smClose :: "int \<Rightarrow> wsm \<Rightarrow> (ret \<times> wsm) option" where
  "smClose h s = do {
     r \<leftarrow> locateH h s;
     case r of
       None \<Rightarrow> Some (SML_ERR_WRONG_USAGE, s)
     | Some k \<Rightarrow> do {
         s \<leftarrow> block_free (winH (wsmSm s ! k)) s;
         Some (SML_ERR_OK, node_upd k (\<lambda>n. n\<lparr>sm_memH := 0, locked := False, memSize := 0\<rparr>) s)
       }
   }"

definition smDestroy :: "byte list option \<Rightarrow> wsm \<Rightarrow> (ret \<times> wsm) option" where
  "smDestroy name s = do {
     r \<leftarrow> locateEle name s;
     case r of
       None \<Rightarrow> Some (SML_ERR_WRONG_PARAM, s)
     | Some k \<Rightarrow>
         if locked (wsmSm s ! k) then Some (SML_ERR_WRONG_USAGE, s)
         else do { s \<leftarrow> removeEle name s; Some (SML_ERR_OK, s) }
   }"

definition smLock :: "int \<Rightarrow> MemPtr \<Rightarrow> wsm \<Rightarrow> (ret \<times> MemPtr \<times> wsm) option" where
  "smLock h pMem s = do {
     r \<leftarrow> locateH h s;
     case r of
       None \<Rightarrow> Some (SML_ERR_WRONG_PARAM, pMem, s)
     | Some k \<Rightarrow>
         if locked (wsmSm s ! k) then Some (SML_ERR_WRONG_USAGE, pMem, s)
         else Some (SML_ERR_OK, (winH (wsmSm s ! k), 0), node_upd k (\<lambda>n. n\<lparr>locked := True\<rparr>) s)
   }"

definition smUnlock :: "int \<Rightarrow> wsm \<Rightarrow> (ret \<times> wsm) option" where
  "smUnlock h s = do {
     r \<leftarrow> locateH h s;
     case r of
       None \<Rightarrow> Some (SML_ERR_WRONG_PARAM, s)
     | Some k \<Rightarrow>
         if \<not> locked (wsmSm s ! k) then Some (SML_ERR_WRONG_USAGE, s)
         else Some (SML_ERR_OK, node_upd k (\<lambda>n. n\<lparr>locked := False\<rparr>) s)
   }"

definition smSetSize :: "int \<Rightarrow> int \<Rightarrow> wsm \<Rightarrow> (ret \<times> wsm) option" where
  "smSetSize h newSize s = do {
     r \<leftarrow> locateH h s;
     case r of
       None \<Rightarrow> Some (SML_ERR_WRONG_PARAM, s)
     | Some k \<Rightarrow>
         if locked (wsmSm s ! k) then Some (SML_ERR_WRONG_USAGE, s)
         else if newSize \<le> 0 then Some (SML_ERR_INVALID_SIZE, s)
         else do {
           s \<leftarrow> block_free (winH (wsmSm s ! k)) s;
           let (b, s) = block_malloc newSize s;
           let s = node_upd k (\<lambda>n. n\<lparr>winH := b\<rparr>) s;
           if b = None then Some (SML_ERR_NOT_ENOUGH_SPACE, s)
           else Some (SML_ERR_OK, node_upd k (\<lambda>n. n\<lparr>memSize := newSize\<rparr>) s)
         }
   }"

definition smGetSize :: "int \<Rightarrow> int \<Rightarrow> wsm \<Rightarrow> (ret \<times> int) option" where
  "smGetSize h actSize s = do {
     r \<leftarrow> locateH h s;
     case r of
       None \<Rightarrow> Some (SML_ERR_WRONG_PARAM, actSize)
     | Some k \<Rightarrow> Some (SML_ERR_OK, memSize (wsmSm s ! k))
   }"

section \<open>Searching the list\<close>

lemma sm_find_found:
  "sm_find (\<lambda>n. Some (P n)) ns = Some (Some k) \<Longrightarrow> k < length ns \<and> P (ns ! k)"
  by (induction ns arbitrary: k) (auto split: if_splits bind_splits simp: bind_eq_Some_conv)

lemma sm_find_live:
  assumes "\<forall>n \<in> set ns. live n"
  shows "\<exists>r. sm_find (\<lambda>n. Some (P n)) ns = Some r \<and> (r = None \<longleftrightarrow> (\<forall>n \<in> set ns. \<not> P n))"
  using assms by (induction ns) auto

lemma sm_find_unique:
  assumes "\<forall>n \<in> set ns. live n" and "k < length ns" and "P (ns ! k)"
    and "\<And>j. j < length ns \<Longrightarrow> P (ns ! j) \<Longrightarrow> j = k"
  shows "sm_find (\<lambda>n. Some (P n)) ns = Some (Some k)"
proof -
  from sm_find_live [OF assms(1)] obtain r
    where r: "sm_find (\<lambda>n. Some (P n)) ns = Some r" "r = None \<longleftrightarrow> (\<forall>n \<in> set ns. \<not> P n)"
    by blast
  with assms(2,3) obtain j where "r = Some j" by (cases r) auto
  with r(1) sm_find_found [of P ns j] assms(4) show ?thesis by simp
qed

lemma sm_find_none:
  assumes "\<forall>n \<in> set ns. live n" and "\<forall>n \<in> set ns. \<not> P n"
  shows "sm_find (\<lambda>n. Some (P n)) ns = Some None"
  using sm_find_live [OF assms(1), of P] assms(2) by auto

text \<open>A freed node that is still linked makes every search beyond it undefined.\<close>

lemma sm_find_dead:
  "\<not> live n \<Longrightarrow> \<forall>m \<in> set ms. live m \<and> \<not> P m \<Longrightarrow> sm_find (\<lambda>n. Some (P n)) (ms @ n # ns) = None"
  by (induction ms) auto

end
