(* ===== verification/Wsm.thy ===== *)
theory Wsm
  imports Wsm_Storage
begin

text \<open>
  The workspace manager \<open>wsm.c\<close> (the variant of the build, without \<open>__SML_LITE__\<close>): the table
  of four buffers on top of the storage layer. Every operation returns \<open>None\<close> where the code
  has undefined behaviour (an index outside the table, a freed block or node, a null string)
  and otherwise its return code, its output parameters and the new state.
\<close>

section \<open>Flags and table searches\<close>

definition WSM_VALID_F :: byte where "WSM_VALID_F = 0x01"
definition WSM_LOCKED_F :: byte where "WSM_LOCKED_F = 0x02"
definition WSM_MEMH_UNUSED :: int where "WSM_MEMH_UNUSED = - 1"

lemmas wsm_consts = WSM_VALID_F_def WSM_LOCKED_F_def WSM_MEMH_UNUSED_def

definition ret_with :: "ret \<Rightarrow> wsm \<Rightarrow> ret \<times> wsm" where
  "ret_with r s = (r, s\<lparr>wsmRet := r\<rparr>)"

fun buf_index :: "(WsmBuf \<Rightarrow> bool) \<Rightarrow> WsmBuf list \<Rightarrow> nat option" where
  "buf_index P [] = None"
| "buf_index P (e # es) = (if P e then Some 0 else map_option Suc (buf_index P es))"

definition getNextFreeEntry :: "wsm \<Rightarrow> int option" where
  "getNextFreeEntry s =
     (if globals s \<noteq> Live_globals then None
      else case buf_index (\<lambda>e. memH e = WSM_MEMH_UNUSED) (wsmBuf s) of
             Some i \<Rightarrow> Some (int i) | None \<Rightarrow> Some (- 1))"

definition lookup :: "int \<Rightarrow> wsm \<Rightarrow> (int \<times> wsm) option" where
  "lookup h s = do {
     e \<leftarrow> buf_at (wsmIndex s) s;
     if memH e = h then Some (wsmIndex s, s)
     else case buf_index (\<lambda>e. memH e = h) (wsmBuf s) of
            Some i \<Rightarrow> Some (int i, s\<lparr>wsmIndex := int i\<rparr>)
          | None \<Rightarrow> Some (- 1, s)
   }"

fun name_index :: "byte list option \<Rightarrow> WsmBuf list \<Rightarrow> nat option option" where
  "name_index name [] = Some None"
| "name_index name (e # es) =
     (case bufName e of
        None \<Rightarrow> do { r \<leftarrow> name_index name es; Some (map_option Suc r) }
      | Some b \<Rightarrow> do {
          c \<leftarrow> str_eq b name;
          if c then Some (Some 0) else do { r \<leftarrow> name_index name es; Some (map_option Suc r) }
        })"

definition nameToHandle :: "byte list option \<Rightarrow> wsm \<Rightarrow> int option" where
  "nameToHandle name s = do {
     e \<leftarrow> buf_at (wsmIndex s) s;
     c \<leftarrow> (case bufName e of None \<Rightarrow> Some False | Some b \<Rightarrow> str_eq b name);
     if c then Some (memH e)
     else do {
       r \<leftarrow> name_index name (wsmBuf s);
       case r of Some i \<Rightarrow> Some (memH (wsmBuf s ! i)) | None \<Rightarrow> Some WSM_MEMH_UNUSED
     }
   }"

text \<open>The result of \<open>deleteBufferHandle\<close> is 0 or -1.\<close>

definition deleteBufferHandle :: "int \<Rightarrow> wsm \<Rightarrow> (int \<times> wsm) option" where
  "deleteBufferHandle h s = do {
     (i, s) \<leftarrow> lookup h s;
     let s = s\<lparr>wsmIndex := i\<rparr>;
     if i < 0 then Some (- 1, s)
     else do {
       s \<leftarrow> buf_upd i (\<lambda>e. e\<lparr>memH := WSM_MEMH_UNUSED, pFirstFree := NULL, pFirstData := NULL,
              bsize := 0, usedBytes := 0, flags := NOT WSM_VALID_F, bufName := None\<rparr>) s;
       Some (0, s)
     }
   }"

definition resetBufferGlobals :: "int \<Rightarrow> wsm \<Rightarrow> (int \<times> wsm) option" where
  "resetBufferGlobals h s = do {
     (i, s) \<leftarrow> lookup h s;
     let s = s\<lparr>wsmIndex := i\<rparr>;
     let clear = (\<lambda>e. e\<lparr>pFirstFree := NULL, pFirstData := NULL, bsize := 0, usedBytes := 0,
                        flags := WSM_VALID_F, bufName := None\<rparr>);
     if i < 0 then do {
       i \<leftarrow> getNextFreeEntry s;
       let s = s\<lparr>wsmIndex := i\<rparr>;
       if i < 0 then Some (- 1, s)
       else do { s \<leftarrow> buf_upd i (\<lambda>e. clear (e\<lparr>memH := h\<rparr>)) s; Some (i, s) }
     } else do { s \<leftarrow> buf_upd i clear s; Some (i, s) }
   }"

definition isValidMemH :: "int \<Rightarrow> wsm \<Rightarrow> (bool \<times> wsm) option" where
  "isValidMemH h s = do {
     (i, s) \<leftarrow> lookup h s;
     if i < 0 then Some (False, s)
     else do { e \<leftarrow> buf_at i s; Some (flags e AND WSM_VALID_F \<noteq> 0, s) }
   }"

definition isLockedMemH :: "int \<Rightarrow> wsm \<Rightarrow> (bool \<times> wsm) option" where
  "isLockedMemH h s = do {
     (i, s) \<leftarrow> lookup h s;
     if i < 0 then Some (False, s)
     else do { e \<leftarrow> buf_at i s; Some (flags e AND WSM_LOCKED_F \<noteq> 0, s) }
   }"

fun used_total :: "int \<Rightarrow> WsmBuf list \<Rightarrow> int option" where
  "used_total act [] = Some act"
| "used_total act (e # es) =
     (if memH e \<noteq> WSM_MEMH_UNUSED then do { act \<leftarrow> s32 (act + bsize e); used_total act es }
      else used_total act es)"

definition isMemAvailable :: "int \<Rightarrow> wsm \<Rightarrow> bool option" where
  "isMemAvailable n s =
     (if maxWsmAvailMem s = 0 then Some True
      else do { act \<leftarrow> used_total n (wsmBuf s); Some (act \<le> maxWsmAvailMem s) })"

section \<open>Initialisation\<close>

definition zero_buf :: WsmBuf where
  "zero_buf = \<lparr>bufName = None, memH = 0, pFirstFree = NULL, pFirstData = NULL, bsize = 0,
               usedBytes = 0, flags = 0\<rparr>"

definition createDataStructs :: "wsm \<Rightarrow> wsm" where
  "createDataStructs s =
     (if globals s = No_globals then
        (let (ok, s) = c_malloc s
         in if ok then s\<lparr>globals := Live_globals, wsmRet := SML_ERR_OK, initWasCalled := False,
                         wsmBuf := replicate MAX_WSM_BUFFERS zero_buf, wsmIndex := 0, wsmSm := []\<rparr>
            else s)
      else s)"

definition wsmInit :: "int option \<Rightarrow> wsm \<Rightarrow> (ret \<times> wsm) option" where
  "wsmInit wsmOpts s =
     (let s = createDataStructs s
      in case globals s of
           No_globals \<Rightarrow> Some (SML_ERR_NOT_ENOUGH_SPACE, s)
         | Freed_globals \<Rightarrow> None
         | Live_globals \<Rightarrow>
             if initWasCalled s then Some (SML_ERR_WRONG_USAGE, s)
             else (let s = (case wsmOpts of Some n \<Rightarrow> if n > 0 then s\<lparr>maxWsmAvailMem := n\<rparr> else s
                                          | None \<Rightarrow> s);
                       s = s\<lparr>wsmBuf := map (\<lambda>e. e\<lparr>memH := WSM_MEMH_UNUSED\<rparr>) (wsmBuf s),
                             wsmIndex := 0, initWasCalled := True\<rparr>
                   in Some (ret_with SML_ERR_OK s)))"

section \<open>Creating, opening, closing and destroying buffers\<close>

text \<open>The calls that make \<open>name\<close> a block of the storage layer, with the handle in \<open>h\<close>.\<close>

definition wsm_obtain :: "byte list \<Rightarrow> int \<Rightarrow> wsm \<Rightarrow> (ret \<times> int \<times> wsm) option" where
  "wsm_obtain name n s = do {
     (r, h, s) \<leftarrow> smCreate name n 0 s;
     let s = s\<lparr>wsmRet := r\<rparr>;
     if r = SML_ERR_OK then Some (SML_ERR_OK, h, s)
     else if r = SML_ERR_WRONG_USAGE then do {
       (r, h) \<leftarrow> smOpen name h s;
       let s = s\<lparr>wsmRet := r\<rparr>;
       if r \<noteq> SML_ERR_OK then Some (SML_ERR_NOT_ENOUGH_SPACE, h, s\<lparr>wsmRet := SML_ERR_NOT_ENOUGH_SPACE\<rparr>)
       else do {
         (r, s) \<leftarrow> smSetSize h n s;
         let s = s\<lparr>wsmRet := r\<rparr>;
         if r \<noteq> SML_ERR_OK
         then Some (SML_ERR_NOT_ENOUGH_SPACE, h, s\<lparr>wsmRet := SML_ERR_NOT_ENOUGH_SPACE\<rparr>)
         else Some (SML_ERR_OK, h, s)
       }
     }
     else Some (r, h, s)
   }"

definition wsmCreate :: "byte list \<Rightarrow> int \<Rightarrow> wsm \<Rightarrow> (ret \<times> int \<times> wsm) option" where
  "wsmCreate name n s =
     (if globals s \<noteq> Live_globals then None
      else if \<not> initWasCalled s then Some (SML_ERR_WRONG_USAGE, 0, s)
      else do {
        free \<leftarrow> getNextFreeEntry s;
        if free = - 1 then Some (SML_ERR_WSM_BUF_TABLE_FULL, 0, s\<lparr>wsmRet := SML_ERR_WSM_BUF_TABLE_FULL\<rparr>)
        else do {
          avail \<leftarrow> isMemAvailable n s;
          if \<not> avail then Some (SML_ERR_NOT_ENOUGH_SPACE, 0, s)
          else do {
            (r, h, s) \<leftarrow> wsm_obtain name n s;
            if r \<noteq> SML_ERR_OK then Some (r, h, s)
            else do {
              (i, s) \<leftarrow> resetBufferGlobals h s;
              let s = s\<lparr>wsmIndex := i\<rparr>;
              let (ok, s) = c_malloc s;
              s \<leftarrow> buf_upd i (\<lambda>e. e\<lparr>bsize := n, bufName := (if ok then Some name else None)\<rparr>) s;
              if \<not> ok then do {
                (_, s) \<leftarrow> smClose h s;
                (_, s) \<leftarrow> smDestroy (Some name) s;
                Some (SML_ERR_NOT_ENOUGH_SPACE, h, s\<lparr>wsmRet := SML_ERR_NOT_ENOUGH_SPACE\<rparr>)
              }
              else Some (SML_ERR_OK, h, s\<lparr>wsmRet := SML_ERR_OK\<rparr>)
            }
          }
        }
      })"

definition wsmOpen :: "byte list \<Rightarrow> int \<Rightarrow> wsm \<Rightarrow> (ret \<times> int \<times> wsm) option" where
  "wsmOpen name h s = do {
     (r, h) \<leftarrow> smOpen name h s;
     let s = s\<lparr>wsmRet := r\<rparr>;
     if r \<noteq> SML_ERR_OK then Some (r, h, s)
     else do {
       (i, s) \<leftarrow> resetBufferGlobals h s;
       let s = s\<lparr>wsmIndex := i\<rparr>;
       e \<leftarrow> buf_at i s;
       (r, n) \<leftarrow> smGetSize h (bsize e) s;
       let (ok, s) = c_malloc s;
       s \<leftarrow> buf_upd i (\<lambda>e. e\<lparr>bsize := n, bufName := (if ok then Some name else None)\<rparr>) s;
       Some (SML_ERR_OK, h, s\<lparr>wsmRet := SML_ERR_OK\<rparr>)
     }
   }"

definition wsmClose :: "int \<Rightarrow> wsm \<Rightarrow> (ret \<times> wsm) option" where
  "wsmClose h s = do {
     (valid, s) \<leftarrow> isValidMemH h s;
     if \<not> valid then Some (ret_with SML_ERR_INVALID_HANDLE s)
     else do {
       (r, s) \<leftarrow> smClose h s;
       if r \<noteq> SML_ERR_OK then Some (ret_with r s)
       else do {
         (_, s) \<leftarrow> deleteBufferHandle h s;
         Some (ret_with SML_ERR_OK s)
       }
     }
   }"

definition wsmDestroy :: "byte list option \<Rightarrow> wsm \<Rightarrow> (ret \<times> wsm) option" where
  "wsmDestroy name s = do {
     h \<leftarrow> nameToHandle name s;
     (r, s) \<leftarrow> wsmClose h s;
     if r \<noteq> SML_ERR_OK then Some (ret_with r s)
     else do {
       (r, s) \<leftarrow> smDestroy name s;
       Some (ret_with r s)
     }
   }"

fun wsm_destroy_all :: "nat list \<Rightarrow> wsm \<Rightarrow> (ret \<times> wsm) option" where
  "wsm_destroy_all [] s = Some (SML_ERR_OK, s)"
| "wsm_destroy_all (i # is) s = do {
     e \<leftarrow> buf_at (int i) s;
     if memH e \<noteq> WSM_MEMH_UNUSED then do {
       (r, s) \<leftarrow> wsmDestroy (bufName e) s;
       if r = SML_ERR_WRONG_USAGE then Some (SML_ERR_WRONG_USAGE, s) else wsm_destroy_all is s
     }
     else wsm_destroy_all is s
   }"

definition wsmTerminate :: "wsm \<Rightarrow> (ret \<times> wsm) option" where
  "wsmTerminate s = do {
     (r, s) \<leftarrow> wsm_destroy_all [0..<MAX_WSM_BUFFERS] s;
     if r = SML_ERR_WRONG_USAGE then Some (SML_ERR_WRONG_USAGE, s)
     else Some (SML_ERR_OK, s\<lparr>globals := Freed_globals\<rparr>)
   }"

section \<open>Locking, sizes and processed bytes\<close>

definition heap_read :: "MemPtr \<Rightarrow> int \<Rightarrow> wsm \<Rightarrow> byte option list option" where
  "heap_read p n s =
     (if n = 0 then Some []
      else case p of (None, off) \<Rightarrow> None
      | (Some b, off) \<Rightarrow> (case heap s b of None \<Rightarrow> None
          | Some bs \<Rightarrow> if 0 \<le> off \<and> 0 \<le> n \<and> off + n \<le> int (length bs)
                       then Some (take (nat n) (drop (nat off) bs)) else None))"

definition heap_write :: "MemPtr \<Rightarrow> byte option list \<Rightarrow> wsm \<Rightarrow> wsm option" where
  "heap_write p xs s =
     (if xs = [] then Some s
      else case p of (None, off) \<Rightarrow> None
      | (Some b, off) \<Rightarrow> (case heap s b of None \<Rightarrow> None
          | Some bs \<Rightarrow> if 0 \<le> off
                       then (case buf_put bs (nat off) xs of None \<Rightarrow> None
                             | Some bs' \<Rightarrow> Some (s\<lparr>heap := (heap s)(b \<mapsto> bs')\<rparr>))
                       else None))"

definition ptr_add :: "MemPtr \<Rightarrow> int \<Rightarrow> MemPtr" where
  "ptr_add p n = (fst p, snd p + n)"

definition wsmProcessedBytes :: "int \<Rightarrow> int \<Rightarrow> wsm \<Rightarrow> (ret \<times> wsm) option" where
  "wsmProcessedBytes h noBytes s = do {
     (valid, s) \<leftarrow> isValidMemH h s;
     if \<not> valid then Some (ret_with SML_ERR_INVALID_HANDLE s)
     else do {
       (lck, s) \<leftarrow> isLockedMemH h s;
       if \<not> lck then Some (ret_with SML_ERR_WRONG_USAGE s)
       else do {
         (i, s) \<leftarrow> lookup h s;
         let s = s\<lparr>wsmIndex := i\<rparr>;
         e \<leftarrow> buf_at i s;
         if noBytes > usedBytes e then Some (ret_with SML_ERR_INVALID_SIZE s)
         else do {
           n \<leftarrow> s32 (usedBytes e - noBytes);
           s \<leftarrow> buf_upd i (\<lambda>e. e\<lparr>usedBytes := n\<rparr>) s;
           xs \<leftarrow> heap_read (ptr_add (pFirstData e) noBytes) n s;
           s \<leftarrow> heap_write (pFirstData e) xs s;
           s \<leftarrow> buf_upd i (\<lambda>e. e\<lparr>pFirstFree := ptr_add (pFirstFree e) (- noBytes)\<rparr>) s;
           Some (ret_with SML_ERR_OK s)
         }
       }
     }
   }"

text \<open>Any other value of the enumeration \<open>SmlBufPtrPos_t\<close> is \<open>Other_item\<close>.\<close>

datatype SmlBufPtrPos = SML_FIRST_DATA_ITEM | SML_FIRST_FREE_ITEM | Other_item

definition wsmLockH :: "int \<Rightarrow> SmlBufPtrPos \<Rightarrow> MemPtr \<Rightarrow> wsm \<Rightarrow> (ret \<times> MemPtr \<times> wsm) option" where
  "wsmLockH h requestedPos pMem s = do {
     (valid, s) \<leftarrow> isValidMemH h s;
     if \<not> valid then Some (SML_ERR_INVALID_HANDLE, pMem, s\<lparr>wsmRet := SML_ERR_INVALID_HANDLE\<rparr>)
     else do {
       (lck, s) \<leftarrow> isLockedMemH h s;
       if lck then Some (SML_ERR_WRONG_USAGE, pMem, s\<lparr>wsmRet := SML_ERR_WRONG_USAGE\<rparr>)
       else do {
         (r, p, s) \<leftarrow> smLock h pMem s;
         if r \<noteq> SML_ERR_OK then Some (SML_ERR_UNSPECIFIC, p, s\<lparr>wsmRet := SML_ERR_UNSPECIFIC\<rparr>)
         else do {
           (i, s) \<leftarrow> lookup h s;
           let s = s\<lparr>wsmIndex := i\<rparr>;
           s \<leftarrow> buf_upd i (\<lambda>e. e\<lparr>pFirstData := p, pFirstFree := ptr_add p (usedBytes e),
                                 flags := flags e OR WSM_LOCKED_F\<rparr>) s;
           e \<leftarrow> buf_at i s;
           case requestedPos of
             SML_FIRST_DATA_ITEM \<Rightarrow> Some (SML_ERR_OK, pFirstData e, s\<lparr>wsmRet := SML_ERR_OK\<rparr>)
           | SML_FIRST_FREE_ITEM \<Rightarrow> Some (SML_ERR_OK, pFirstFree e, s\<lparr>wsmRet := SML_ERR_OK\<rparr>)
           | Other_item \<Rightarrow> Some (SML_ERR_UNSPECIFIC, p, s\<lparr>wsmRet := SML_ERR_UNSPECIFIC\<rparr>)
         }
       }
     }
   }"

text \<open>The output parameter keeps its value \<open>out\<close> when the handle is invalid.\<close>

definition wsmGetFreeSize :: "int \<Rightarrow> int \<Rightarrow> wsm \<Rightarrow> (ret \<times> int \<times> wsm) option" where
  "wsmGetFreeSize h out s = do {
     (valid, s) \<leftarrow> isValidMemH h s;
     if \<not> valid then Some (SML_ERR_INVALID_HANDLE, out, s\<lparr>wsmRet := SML_ERR_INVALID_HANDLE\<rparr>)
     else do {
       (i, s) \<leftarrow> lookup h s;
       let s = s\<lparr>wsmIndex := i\<rparr>;
       e \<leftarrow> buf_at i s;
       n \<leftarrow> s32 (bsize e - usedBytes e);
       Some (SML_ERR_OK, n, s\<lparr>wsmRet := SML_ERR_OK\<rparr>)
     }
   }"

definition wsmGetUsedSize :: "int \<Rightarrow> int \<Rightarrow> wsm \<Rightarrow> (ret \<times> int \<times> wsm) option" where
  "wsmGetUsedSize h out s = do {
     (valid, s) \<leftarrow> isValidMemH h s;
     if \<not> valid then Some (SML_ERR_INVALID_HANDLE, out, s\<lparr>wsmRet := SML_ERR_INVALID_HANDLE\<rparr>)
     else do {
       (i, s) \<leftarrow> lookup h s;
       let s = s\<lparr>wsmIndex := i\<rparr>;
       e \<leftarrow> buf_at i s;
       Some (SML_ERR_OK, usedBytes e, s\<lparr>wsmRet := SML_ERR_OK\<rparr>)
     }
   }"

definition wsmUnlockH :: "int \<Rightarrow> wsm \<Rightarrow> (ret \<times> wsm) option" where
  "wsmUnlockH h s = do {
     (valid, s) \<leftarrow> isValidMemH h s;
     if \<not> valid then Some (ret_with SML_ERR_INVALID_HANDLE s)
     else do {
       (lck, s) \<leftarrow> isLockedMemH h s;
       if \<not> lck then Some (ret_with SML_ERR_WRONG_USAGE s)
       else do {
         (r, s) \<leftarrow> smUnlock h s;
         if r \<noteq> SML_ERR_OK then Some (ret_with SML_ERR_UNSPECIFIC s)
         else do {
           (i, s) \<leftarrow> lookup h s;
           let s = s\<lparr>wsmIndex := i\<rparr>;
           s \<leftarrow> buf_upd i (\<lambda>e. e\<lparr>pFirstData := NULL, pFirstFree := NULL,
                                 flags := flags e AND NOT WSM_LOCKED_F\<rparr>) s;
           Some (ret_with SML_ERR_OK s)
         }
       }
     }
   }"

definition wsmSetUsedSize :: "int \<Rightarrow> int \<Rightarrow> wsm \<Rightarrow> (ret \<times> wsm) option" where
  "wsmSetUsedSize h usedSize s = do {
     (valid, s) \<leftarrow> isValidMemH h s;
     if \<not> valid then Some (ret_with SML_ERR_INVALID_HANDLE s)
     else do {
       (lck, s) \<leftarrow> isLockedMemH h s;
       if \<not> lck then Some (ret_with SML_ERR_WRONG_USAGE s)
       else do {
         (i, s) \<leftarrow> lookup h s;
         let s = s\<lparr>wsmIndex := i\<rparr>;
         e \<leftarrow> buf_at i s;
         free \<leftarrow> s32 (bsize e - usedBytes e);
         if usedSize > free then Some (ret_with SML_ERR_INVALID_SIZE s)
         else do {
           n \<leftarrow> s32 (usedBytes e + usedSize);
           s \<leftarrow> buf_upd i (\<lambda>e. e\<lparr>usedBytes := n, pFirstFree := ptr_add (pFirstFree e) usedSize\<rparr>) s;
           Some (ret_with SML_ERR_OK s)
         }
       }
     }
   }"

definition wsmReset :: "int \<Rightarrow> wsm \<Rightarrow> (ret \<times> wsm) option" where
  "wsmReset h s = do {
     (i, s) \<leftarrow> lookup h s;
     let s = s\<lparr>wsmIndex := i\<rparr>;
     s \<leftarrow> buf_upd i (\<lambda>e. let p = ptr_add (pFirstFree e) (- usedBytes e)
                          in e\<lparr>pFirstFree := p, pFirstData := p, usedBytes := 0\<rparr>) s;
     Some (SML_ERR_OK, s)
   }"

end
