(* ===== verification/Toolkit_State.thy ===== *)
theory Toolkit_State
  imports Wsm Encoder Decoder
begin

text \<open>
  The globals of the toolkit (\<open>mgr.c\<close>, \<open>mgr.h\<close>), the list of instances (\<open>mgrinstancelist.c\<close>) and the
  instance manager (\<open>mgrinstancemgr.c\<close>), in the variant of the build: with the workspace manager and
  without \<open>__SML_LITE__\<close>. The lock macros are empty in this build. An operation returns \<open>None\<close> where the
  code has undefined behaviour: a null pointer, a freed block.
\<close>

section \<open>Data\<close>

text \<open>A pointer to a structure: null, to freed memory, or to a value.\<close>

datatype 'a cptr = Null | Freed | Ptr 'a

definition deref :: "'a cptr \<Rightarrow> 'a option" where
  "deref p = (case p of Ptr x \<Rightarrow> Some x | _ \<Rightarrow> None)"

definition free_ptr :: "'a cptr \<Rightarrow> 'a cptr option" where
  "free_ptr p = (case p of Null \<Rightarrow> Some Null | Freed \<Rightarrow> None | Ptr _ \<Rightarrow> Some Freed)"

datatype InstanceStatus = MGR_IDLE | MGR_USED | MGR_RECEIVE | MGR_SEND | MGR_ENCODING | MGR_DECODING

text \<open>The callbacks of an application are the addresses of its functions.\<close>

record SmlCallbacks =
  startMessageFunc :: "nat option"
  endMessageFunc :: "nat option"
  startSyncFunc :: "nat option"
  endSyncFunc :: "nat option"
  startAtomicFunc :: "nat option"
  endAtomicFunc :: "nat option"
  startSequenceFunc :: "nat option"
  endSequenceFunc :: "nat option"
  addCmdFunc :: "nat option"
  alertCmdFunc :: "nat option"
  deleteCmdFunc :: "nat option"
  getCmdFunc :: "nat option"
  putCmdFunc :: "nat option"
  mapCmdFunc :: "nat option"
  resultsCmdFunc :: "nat option"
  statusCmdFunc :: "nat option"
  replaceCmdFunc :: "nat option"
  copyCmdFunc :: "nat option"
  execCmdFunc :: "nat option"
  searchCmdFunc :: "nat option"
  handleErrorFunc :: "nat option"
  transmitChunkFunc :: "nat option"

record SmlInstanceOptions =
  io_encoding :: SmlEncoding
  io_workspaceSize :: int
  io_workspaceName :: "byte list option"

text \<open>
  \<open>InstanceInfo_t\<close>; \<open>ii_addr\<close> is its address, and the list of the toolkit is the chain of the
  \<open>nextInfo\<close> pointers. \<open>workspaceState\<close> is always null.
\<close>

record 'u InstanceInfo =
  ii_addr :: nat
  ii_id :: int
  ii_status :: InstanceStatus
  ii_callbacks :: "SmlCallbacks cptr"
  ii_options :: "SmlInstanceOptions cptr"
  ii_userData :: 'u
  ii_encoder :: "XltEncoder option"
  ii_decoder :: "XltDecoder option"

text \<open>\<open>SmlOptions_t\<close> is its limit for the workspaces; the print function is not used by this component.\<close>

record 'u SyncMLInfo =
  si_instances :: "'u InstanceInfo list"
  si_options :: "int option"

text \<open>
  The toolkit: the anchor, the workspace manager, the tag tables of the anchor with the results of the
  allocator, and what the code reads without having written it -- the members of a decoder (\<open>tk_heap\<close>)
  and the bytes of a workspace (\<open>tk_fill\<close>). \<open>tk_next\<close> is an address that is not in use.
\<close>

record 'u toolkit =
  tk_anchor :: "'u SyncMLInfo cptr"
  tk_wsm :: wsm
  tk_tok :: TokTbl
  tk_heap :: Heap
  tk_fill :: byte
  tk_next :: nat

definition tk_malloc :: "'u toolkit \<Rightarrow> bool \<times> 'u toolkit" where
  "tk_malloc t = (let (ok, g) = tok_malloc (tk_tok t) in (ok, t\<lparr>tk_tok := g\<rparr>))"

definition on_wsm :: "(wsm \<Rightarrow> ('r \<times> wsm) option) \<Rightarrow> 'u toolkit \<Rightarrow> ('r \<times> 'u toolkit) option" where
  "on_wsm f t = do { (r, s) \<leftarrow> f (tk_wsm t); Some (r, t\<lparr>tk_wsm := s\<rparr>) }"

type_synonym 'u op = "(ret \<times> 'u toolkit) option"

section \<open>Globals\<close>

definition smlSetSyncMLOptions :: "int option \<Rightarrow> 'u toolkit \<Rightarrow> 'u op" where
  "smlSetSyncMLOptions pCoreOptions t =
     (case pCoreOptions of
        None \<Rightarrow> Some (SML_ERR_WRONG_USAGE, t)
      | Some n \<Rightarrow> do {
          a \<leftarrow> deref (tk_anchor t);
          let (ok, t) = tk_malloc (t\<lparr>tk_anchor := Ptr (a\<lparr>si_options := None\<rparr>)\<rparr>);
          if \<not> ok then Some (SML_ERR_NOT_ENOUGH_SPACE, t)
          else Some (SML_ERR_OK, t\<lparr>tk_anchor := Ptr (a\<lparr>si_options := Some n\<rparr>)\<rparr>)
        })"

definition no_tables :: "bool \<Rightarrow> TokTbl \<Rightarrow> TokTbl" where
  "no_tables anchor g =
     g\<lparr>tt_anchor := anchor, tt_SyncML := None, tt_MetInf := None, tt_DevInf := None, tt_DmTnd := None\<rparr>"

text \<open>\<open>pGlobalAnchor = NULL\<close>.\<close>

definition drop_anchor :: "'u toolkit \<Rightarrow> 'u toolkit" where
  "drop_anchor t = t\<lparr>tk_anchor := Null, tk_tok := no_tables False (tk_tok t)\<rparr>"

definition smlInit :: "int option \<Rightarrow> 'u toolkit \<Rightarrow> 'u op" where
  "smlInit pCoreOptions t =
     (if tk_anchor t \<noteq> Null then Some (SML_ERR_ALREADY_INITIALIZED, t)
      else if pCoreOptions = None then Some (SML_ERR_WRONG_USAGE, t)
      else let (ok, t) = tk_malloc t in
      if \<not> ok then Some (SML_ERR_NOT_ENOUGH_SPACE, t)
      else do {
        let t = t\<lparr>tk_anchor := Ptr \<lparr>si_instances = [], si_options = None\<rparr>,
                  tk_wsm := (tk_wsm t)\<lparr>globals := No_globals\<rparr>, tk_tok := no_tables True (tk_tok t)\<rparr>;
        (rc, t) \<leftarrow> smlSetSyncMLOptions pCoreOptions t;
        if rc \<noteq> SML_ERR_OK then Some (rc, drop_anchor t)
        else let (ok, t) = tk_malloc t in
        if \<not> ok then Some (SML_ERR_NOT_ENOUGH_SPACE, t\<lparr>tk_anchor := Freed\<rparr>)
        else let (ok, t) = tk_malloc t in
        if \<not> ok then Some (SML_ERR_NOT_ENOUGH_SPACE, drop_anchor t)
        else do {
          a \<leftarrow> deref (tk_anchor t);
          (rc, t) \<leftarrow> on_wsm (wsmInit (si_options a)) t;
          Some (rc, if rc \<noteq> SML_ERR_OK then drop_anchor t else t)
        }
      })"

definition smlTerminate :: "'u toolkit \<Rightarrow> 'u op" where
  "smlTerminate t = do {
     a \<leftarrow> deref (tk_anchor t);
     if si_instances a \<noteq> [] then Some (SML_ERR_WRONG_USAGE, t)
     else do {
       (_, t) \<leftarrow> on_wsm wsmTerminate t;
       Some (SML_ERR_OK, drop_anchor t)
     }
   }"

section \<open>The list of instances\<close>

definition instances :: "'u toolkit \<Rightarrow> 'u InstanceInfo list option" where
  "instances t = map_option si_instances (deref (tk_anchor t))"

definition set_instances :: "'u InstanceInfo list \<Rightarrow> 'u toolkit \<Rightarrow> 'u toolkit option" where
  "set_instances is t = do {
     a \<leftarrow> deref (tk_anchor t);
     Some (t\<lparr>tk_anchor := Ptr (a\<lparr>si_instances := is\<rparr>)\<rparr>)
   }"

definition addInfo :: "'u InstanceInfo option \<Rightarrow> 'u toolkit \<Rightarrow> 'u op" where
  "addInfo pInfo t =
     (case pInfo of
        None \<Rightarrow> Some (SML_ERR_MGR_INVALID_INSTANCE_INFO, t)
      | Some i \<Rightarrow> do {
          is \<leftarrow> instances t;
          t \<leftarrow> set_instances (i # is) t;
          Some (SML_ERR_OK, t)
        })"

text \<open>\<open>findInfo\<close> returns the address of the first structure with the id.\<close>

fun find_id :: "int \<Rightarrow> 'u InstanceInfo list \<Rightarrow> 'u InstanceInfo option" where
  "find_id iid [] = None"
| "find_id iid (i # is) = (if ii_id i = iid then Some i else find_id iid is)"

definition findInfo :: "int \<Rightarrow> 'u toolkit \<Rightarrow> nat option option" where
  "findInfo iid t = do { is \<leftarrow> instances t; Some (map_option ii_addr (find_id iid is)) }"

fun remove_id :: "int \<Rightarrow> 'u InstanceInfo list \<Rightarrow> 'u InstanceInfo list option" where
  "remove_id iid [] = None"
| "remove_id iid (i # is) = (if ii_id i = iid then Some is else map_option ((#) i) (remove_id iid is))"

definition removeInfo :: "int \<Rightarrow> 'u toolkit \<Rightarrow> 'u op" where
  "removeInfo iid t = do {
     is \<leftarrow> instances t;
     case remove_id iid is of
       None \<Rightarrow> Some (SML_ERR_MGR_INVALID_INSTANCE_INFO, t)
     | Some is \<Rightarrow> do { t \<leftarrow> set_instances is t; Some (SML_ERR_OK, t) }
   }"

text \<open>Reading and writing a structure through a pointer; \<open>None\<close> when it is not linked any more.\<close>

fun find_addr :: "nat \<Rightarrow> 'u InstanceInfo list \<Rightarrow> 'u InstanceInfo option" where
  "find_addr a [] = None"
| "find_addr a (i # is) = (if ii_addr i = a then Some i else find_addr a is)"

fun upd_addr :: "nat \<Rightarrow> ('u InstanceInfo \<Rightarrow> 'u InstanceInfo) \<Rightarrow> 'u InstanceInfo list \<Rightarrow> 'u InstanceInfo list" where
  "upd_addr a f [] = []"
| "upd_addr a f (i # is) = (if ii_addr i = a then f i # is else i # upd_addr a f is)"

definition info_at :: "nat \<Rightarrow> 'u toolkit \<Rightarrow> 'u InstanceInfo option" where
  "info_at a t = do { is \<leftarrow> instances t; find_addr a is }"

definition info_upd :: "nat \<Rightarrow> ('u InstanceInfo \<Rightarrow> 'u InstanceInfo) \<Rightarrow> 'u toolkit \<Rightarrow> 'u toolkit option" where
  "info_upd a f t = do {
     is \<leftarrow> instances t;
     _ \<leftarrow> find_addr a is;
     set_instances (upd_addr a f is) t
   }"

text \<open>An operation on the structure of an id.\<close>

definition with_info :: "int \<Rightarrow> (nat \<Rightarrow> 'u toolkit \<Rightarrow> 'u op) \<Rightarrow> 'u toolkit \<Rightarrow> 'u op" where
  "with_info iid f t = do {
     a \<leftarrow> findInfo iid t;
     case a of None \<Rightarrow> Some (SML_ERR_MGR_INVALID_INSTANCE_INFO, t) | Some a \<Rightarrow> f a t
   }"

section \<open>Instances\<close>

definition smlSetCallbacks :: "int \<Rightarrow> SmlCallbacks option \<Rightarrow> 'u toolkit \<Rightarrow> 'u op" where
  "smlSetCallbacks iid pCallbacks t =
     (case pCallbacks of
        None \<Rightarrow> Some (SML_ERR_WRONG_USAGE, t)
      | Some cb \<Rightarrow> with_info iid (\<lambda>a t. do {
          i \<leftarrow> info_at a t;
          old \<leftarrow> free_ptr (ii_callbacks i);
          t \<leftarrow> info_upd a (ii_callbacks_update (\<lambda>_. old)) t;
          let (ok, t) = tk_malloc t;
          if \<not> ok then Some (SML_ERR_NOT_ENOUGH_SPACE, t)
          else do {
            t \<leftarrow> info_upd a (ii_callbacks_update (\<lambda>_. Ptr cb)) t;
            Some (SML_ERR_OK, t)
          }
        }) t)"

definition smlSetUserData :: "int \<Rightarrow> 'u \<Rightarrow> 'u toolkit \<Rightarrow> 'u op" where
  "smlSetUserData iid pUserData =
     with_info iid (\<lambda>a t. do {
       t \<leftarrow> info_upd a (ii_userData_update (\<lambda>_. pUserData)) t;
       Some (SML_ERR_OK, t)
     })"

definition smlGetUserData :: "int \<Rightarrow> 'u \<Rightarrow> 'u toolkit \<Rightarrow> (ret \<times> 'u) option" where
  "smlGetUserData iid ppUserData t = do {
     a \<leftarrow> findInfo iid t;
     case a of
       None \<Rightarrow> Some (SML_ERR_MGR_INVALID_INSTANCE_INFO, ppUserData)
     | Some a \<Rightarrow> do { i \<leftarrow> info_at a t; Some (SML_ERR_OK, ii_userData i) }
   }"

definition smlGetEncoding :: "int \<Rightarrow> SmlEncoding \<Rightarrow> 'u toolkit \<Rightarrow> (ret \<times> SmlEncoding) option" where
  "smlGetEncoding iid pEncoding t = do {
     a \<leftarrow> findInfo iid t;
     case a of
       None \<Rightarrow> Some (SML_ERR_MGR_INVALID_INSTANCE_INFO, pEncoding)
     | Some a \<Rightarrow> do { i \<leftarrow> info_at a t; opts \<leftarrow> deref (ii_options i); Some (SML_ERR_OK, io_encoding opts) }
   }"

definition smlSetEncoding :: "int \<Rightarrow> SmlEncoding \<Rightarrow> 'u toolkit \<Rightarrow> 'u op" where
  "smlSetEncoding iid encoding t =
     (if encoding = SML_UNDEF then Some (SML_ERR_WRONG_USAGE, t)
      else with_info iid (\<lambda>a t. do {
        i \<leftarrow> info_at a t;
        opts \<leftarrow> deref (ii_options i);
        t \<leftarrow> info_upd a (ii_options_update (\<lambda>_. Ptr (opts\<lparr>io_encoding := encoding\<rparr>))) t;
        Some (SML_ERR_OK, t)
      }) t)"

text \<open>\<open>setInstanceOptions\<close>, with \<open>freeInstanceOptions\<close>, which leaves the pointer as it is.\<close>

definition setInstanceOptions :: "int \<Rightarrow> SmlInstanceOptions option \<Rightarrow> 'u toolkit \<Rightarrow> 'u op" where
  "setInstanceOptions iid pOptions t =
     (case pOptions of
        None \<Rightarrow> Some (SML_ERR_WRONG_USAGE, t)
      | Some opts \<Rightarrow>
          if io_workspaceName opts = None \<or> io_encoding opts = SML_UNDEF then Some (SML_ERR_WRONG_USAGE, t)
          else with_info iid (\<lambda>a t. do {
            i \<leftarrow> info_at a t;
            old \<leftarrow> free_ptr (ii_options i);
            t \<leftarrow> info_upd a (ii_options_update (\<lambda>_. old)) t;
            let (ok, t) = tk_malloc t;
            if \<not> ok then Some (SML_ERR_NOT_ENOUGH_SPACE, t)
            else do {
              let (ok, t) = tk_malloc t;
              if \<not> ok then do {
                t \<leftarrow> info_upd a (ii_options_update (\<lambda>_. Null)) t;
                Some (SML_ERR_NOT_ENOUGH_SPACE, t)
              }
              else do {
                t \<leftarrow> info_upd a (ii_options_update (\<lambda>_. Ptr opts)) t;
                Some (SML_ERR_OK, t)
              }
            }
          }) t)"

text \<open>\<open>pInstanceID\<close> is read, too: an instance must not have the id that it holds before the call.\<close>

definition new_instance :: "nat \<Rightarrow> int \<Rightarrow> 'u \<Rightarrow> 'u InstanceInfo" where
  "new_instance a iid u =
     \<lparr>ii_addr = a, ii_id = iid, ii_status = MGR_IDLE, ii_callbacks = Null, ii_options = Null, ii_userData = u,
      ii_encoder = None, ii_decoder = None\<rparr>"

definition smlInitInstance ::
    "SmlCallbacks option \<Rightarrow> SmlInstanceOptions option \<Rightarrow> 'u \<Rightarrow> int \<Rightarrow> 'u toolkit \<Rightarrow> (ret \<times> int \<times> 'u toolkit) option" where
  "smlInitInstance pCallbacks pOptions pUserData pInstanceID t =
     (case pOptions of
        None \<Rightarrow> Some (SML_ERR_WRONG_USAGE, pInstanceID, t)
      | Some opts \<Rightarrow> (case io_workspaceName opts of
          None \<Rightarrow> Some (SML_ERR_WRONG_USAGE, pInstanceID, t)
        | Some name \<Rightarrow> do {
            known \<leftarrow> findInfo pInstanceID t;
            if known \<noteq> None then Some (SML_ERR_WRONG_USAGE, pInstanceID, t)
            else do {
              (rc, h, s) \<leftarrow> wsmCreate name (io_workspaceSize opts) (tk_wsm t);
              let t = t\<lparr>tk_wsm := s\<rparr>;
              if rc \<noteq> SML_ERR_OK then Some (rc, h, t)
              else do {
                let (ok, t) = tk_malloc t;
                if \<not> ok then do {
                  (_, t) \<leftarrow> on_wsm (wsmDestroy (Some name)) t;
                  Some (SML_ERR_NOT_ENOUGH_SPACE, h, t)
                }
                else do {
                  (rc, t) \<leftarrow> addInfo (Some (new_instance (tk_next t) h pUserData)) (t\<lparr>tk_next := Suc (tk_next t)\<rparr>);
                  (rc1, t) \<leftarrow> smlSetCallbacks h pCallbacks t;
                  if rc1 \<noteq> SML_ERR_OK then do {
                    (_, t) \<leftarrow> on_wsm (wsmDestroy (Some name)) t;
                    Some (rc, h, t)
                  }
                  else do {
                    (rc2, t) \<leftarrow> setInstanceOptions h pOptions t;
                    if rc2 \<noteq> SML_ERR_OK then do {
                      (_, t) \<leftarrow> on_wsm (wsmDestroy (Some name)) t;
                      Some (rc, h, t)
                    }
                    else Some (SML_ERR_OK, h, t)
                  }
                }
              }
            }
          }))"

definition freeInstanceInfo :: "'u InstanceInfo \<Rightarrow> unit option" where
  "freeInstanceInfo i = do { _ \<leftarrow> free_ptr (ii_callbacks i); _ \<leftarrow> free_ptr (ii_options i); Some () }"

definition smlTerminateInstance :: "int \<Rightarrow> 'u toolkit \<Rightarrow> 'u op" where
  "smlTerminateInstance iid =
     with_info iid (\<lambda>a t. do {
       i \<leftarrow> info_at a t;
       (rc, t) \<leftarrow> (if ii_options i = Null then Some (SML_ERR_OK, t)
                   else do {
                     opts \<leftarrow> deref (ii_options i);
                     on_wsm (wsmDestroy (io_workspaceName opts)) t
                   });
       if rc \<noteq> SML_ERR_OK then Some (rc, t)
       else do {
         (_, t) \<leftarrow> removeInfo iid t;
         _ \<leftarrow> freeInstanceInfo i;
         Some (SML_ERR_OK, t)
       }
     })"

section \<open>Access to the workspace\<close>

definition mgrResetWorkspace :: "int \<Rightarrow> 'u toolkit \<Rightarrow> 'u op" where
  "mgrResetWorkspace iid = on_wsm (wsmReset iid)"

text \<open>\<open>p\<close> and \<open>n\<close> are the output variables of the caller; they keep their values when the call fails early.\<close>

type_synonym 'u locked = "(ret \<times> MemPtr \<times> int \<times> 'u toolkit) option"

definition lock_buffer ::
    "SmlBufPtrPos \<Rightarrow> (int \<Rightarrow> int \<Rightarrow> wsm \<Rightarrow> (ret \<times> int \<times> wsm) option) \<Rightarrow> int \<Rightarrow> MemPtr \<Rightarrow> int \<Rightarrow> 'u toolkit \<Rightarrow> 'u locked" where
  "lock_buffer where_to get_size iid p n t = do {
     (rc, p, s) \<leftarrow> wsmLockH iid where_to p (tk_wsm t);
     if rc \<noteq> SML_ERR_OK then Some (rc, p, n, t\<lparr>tk_wsm := s\<rparr>)
     else do {
       (rc, n, s) \<leftarrow> get_size iid n s;
       Some (rc, p, n, t\<lparr>tk_wsm := s\<rparr>)
     }
   }"

definition smlLockReadBuffer :: "int \<Rightarrow> MemPtr \<Rightarrow> int \<Rightarrow> 'u toolkit \<Rightarrow> 'u locked" where
  "smlLockReadBuffer = lock_buffer SML_FIRST_DATA_ITEM wsmGetUsedSize"

definition smlLockWriteBuffer :: "int \<Rightarrow> MemPtr \<Rightarrow> int \<Rightarrow> 'u toolkit \<Rightarrow> 'u locked" where
  "smlLockWriteBuffer = lock_buffer SML_FIRST_FREE_ITEM wsmGetFreeSize"

definition smlUnlockReadBuffer :: "int \<Rightarrow> int \<Rightarrow> 'u toolkit \<Rightarrow> 'u op" where
  "smlUnlockReadBuffer iid processedBytes t = do {
     (rc, t) \<leftarrow> on_wsm (wsmProcessedBytes iid processedBytes) t;
     if rc \<noteq> SML_ERR_OK then Some (rc, t) else on_wsm (wsmUnlockH iid) t
   }"

definition smlUnlockWriteBuffer :: "int \<Rightarrow> int \<Rightarrow> 'u toolkit \<Rightarrow> 'u op" where
  "smlUnlockWriteBuffer iid writtenBytes t = do {
     (rc, t) \<leftarrow> (if writtenBytes > 0 then on_wsm (wsmSetUsedSize iid writtenBytes) t else Some (SML_ERR_OK, t));
     if rc \<noteq> SML_ERR_OK then Some (rc, t) else on_wsm (wsmUnlockH iid) t
   }"

definition smlGetFreeBuffer :: "int \<Rightarrow> 'u toolkit \<Rightarrow> (int \<times> 'u toolkit) option" where
  "smlGetFreeBuffer iid t = do {
     (_, n, s) \<leftarrow> wsmGetFreeSize iid 0 (tk_wsm t);
     Some (n, t\<lparr>tk_wsm := s\<rparr>)
   }"

text \<open>The block a workspace pointer points into, as the encoder and the decoder read it, and the offset.\<close>

definition block_at :: "MemPtr \<Rightarrow> 'u toolkit \<Rightarrow> (byte list \<times> int) option" where
  "block_at p t =
     (case p of
        (None, _) \<Rightarrow> None
      | (Some b, off) \<Rightarrow> map_option (\<lambda>bs. (map (case_option (tk_fill t) (\<lambda>b. b)) bs, off)) (heap (tk_wsm t) b))"

end
