(* ===== verification/Toolkit.thy ===== *)
theory Toolkit
  imports Toolkit_State
begin

text \<open>
  The calls that build a message (\<open>mgrcmdbuilder.c\<close>) and the command dispatcher
  (\<open>mgrcmddispatcher.c\<close>). The application is an argument: \<open>app f\<close> is what its function at address
  \<open>f\<close> does with the toolkit and the state \<open>w\<close> of the application; it may call the toolkit itself.
\<close>

section \<open>The application\<close>

text \<open>
  The arguments of a callback behind the id and the user data. The user data are those of the instance;
  \<open>None\<close> is the null pointer that the transmit function gets instead.
\<close>

datatype sml_call =
  Call_startMessage "SmlSyncHdr option"
| Call_endMessage bool
| Call_content "sml_elem option"
| Call_plain

type_synonym ('u, 'w) app = "nat \<Rightarrow> int \<Rightarrow> 'u option \<Rightarrow> sml_call \<Rightarrow> 'u toolkit \<Rightarrow> 'w \<Rightarrow> (ret \<times> 'u toolkit \<times> 'w) option"

type_synonym ('u, 'w) run = "(ret \<times> 'u toolkit \<times> 'w) option"

definition tk_callbacks :: "nat \<Rightarrow> 'u toolkit \<Rightarrow> (SmlCallbacks \<times> 'u) option" where
  "tk_callbacks a t = do { i \<leftarrow> info_at a t; cb \<leftarrow> deref (ii_callbacks i); Some (cb, ii_userData i) }"

text \<open>Calling a function of the application when it is set.\<close>

definition call_back ::
    "('u, 'w) app \<Rightarrow> int \<Rightarrow> nat \<Rightarrow> (SmlCallbacks \<Rightarrow> nat option) \<Rightarrow> sml_call \<Rightarrow> 'u toolkit \<Rightarrow> 'w \<Rightarrow> ('u, 'w) run" where
  "call_back app iid a fn arg t w = do {
     (cb, u) \<leftarrow> tk_callbacks a t;
     case fn cb of None \<Rightarrow> Some (SML_ERR_COMMAND_NOT_HANDLED, t, w) | Some f \<Rightarrow> app f iid (Some u) arg t w
   }"

section \<open>Building messages\<close>

text \<open>The document that the encoder writes into, and the toolkit after it has written.\<close>

definition doc_in :: "MemPtr \<Rightarrow> 'u toolkit \<Rightarrow> Doc option" where
  "doc_in p t = map_option (\<lambda>(m, off). \<lparr>doc_mem = m, doc_pos = off, doc_tok = tk_tok t\<rparr>) (block_at p t)"

definition put_doc :: "MemPtr \<Rightarrow> Doc \<Rightarrow> 'u toolkit \<Rightarrow> 'u toolkit option" where
  "put_doc p d t = do {
     s \<leftarrow> heap_write p (map Some (drop (nat (snd p)) (doc_mem d))) (tk_wsm t);
     Some (t\<lparr>tk_wsm := s, tk_tok := doc_tok d\<rparr>)
   }"

definition set_encoder :: "nat \<Rightarrow> XltEncoder option \<Rightarrow> 'u toolkit \<Rightarrow> 'u toolkit option" where
  "set_encoder a e = info_upd a (ii_encoder_update (\<lambda>_. e))"

definition smlStartMessageExt :: "int \<Rightarrow> SmlSyncHdr option \<Rightarrow> SmlVersion \<Rightarrow> 'u toolkit \<Rightarrow> 'u op" where
  "smlStartMessageExt iid pContent vers =
     with_info iid (\<lambda>a t. do {
       (rc, p, freeSize, t) \<leftarrow> smlLockWriteBuffer iid NULL 0 t;
       if rc \<noteq> SML_ERR_OK then do { (_, t) \<leftarrow> smlUnlockWriteBuffer iid 0 t; Some (rc, t) }
       else do {
         i \<leftarrow> info_at a t;
         opts \<leftarrow> deref (ii_options i);
         d \<leftarrow> doc_in p t;
         (rc, e, d') \<leftarrow> xltEncInit (io_encoding opts) pContent (snd p + freeSize) vers d;
         t \<leftarrow> put_doc p d' t;
         if rc \<noteq> SML_ERR_OK then do {
           (_, t) \<leftarrow> smlUnlockWriteBuffer iid 0 t;
           t \<leftarrow> set_encoder a None t;
           Some (rc, t)
         }
         else do {
           t \<leftarrow> set_encoder a e t;
           smlUnlockWriteBuffer iid (doc_pos d' - snd p) t
         }
       }
     })"

definition smlStartMessage :: "int \<Rightarrow> SmlSyncHdr option \<Rightarrow> 'u toolkit \<Rightarrow> 'u op" where
  "smlStartMessage iid pContent = smlStartMessageExt iid pContent SML_VERS_1_1"

definition smlEndMessage :: "int \<Rightarrow> bool \<Rightarrow> 'u toolkit \<Rightarrow> 'u op" where
  "smlEndMessage iid final =
     with_info iid (\<lambda>a t. do {
       i \<leftarrow> info_at a t;
       case ii_encoder i of
         None \<Rightarrow> Some (SML_ERR_MGR_INVALID_INSTANCE_INFO, t)
       | Some e \<Rightarrow> do {
           (rc, p, freeSize, t) \<leftarrow> smlLockWriteBuffer iid NULL 0 t;
           if rc \<noteq> SML_ERR_OK then do { (_, t) \<leftarrow> smlUnlockWriteBuffer iid 0 t; Some (rc, t) }
           else do {
             d \<leftarrow> doc_in p t;
             (rc, d') \<leftarrow> xltEncTerminate (e\<lparr>xe_final := final\<rparr>) (snd p + freeSize) d;
             t \<leftarrow> put_doc p d' t;
             if rc \<noteq> SML_ERR_OK then do {
               (_, t) \<leftarrow> smlUnlockWriteBuffer iid 0 t;
               t \<leftarrow> set_encoder a None t;
               Some (rc, t)
             }
             else do {
               t \<leftarrow> set_encoder a None t;
               smlUnlockWriteBuffer iid (doc_pos d' - snd p) t
             }
           }
         }
     })"

text \<open>
  One call of the encoder for a command in a locked workspace: the position, and the toolkit with the
  encoder in its new state.
\<close>

definition append_in ::
    "nat \<Rightarrow> SmlProtoElement \<Rightarrow> sml_elem option \<Rightarrow> MemPtr \<Rightarrow> int \<Rightarrow> 'u toolkit \<Rightarrow> (ret \<times> int \<times> 'u toolkit) option" where
  "append_in a cmdType pContent p freeSize t = do {
     i \<leftarrow> info_at a t;
     e \<leftarrow> ii_encoder i;
     d \<leftarrow> doc_in p t;
     (rc, e, d') \<leftarrow> xltEncAppend e cmdType (snd p + freeSize) pContent d;
     t \<leftarrow> put_doc p d' t;
     t \<leftarrow> set_encoder a (Some e) t;
     Some (rc, doc_pos d', t)
   }"

definition drop_encoder :: "int \<Rightarrow> nat \<Rightarrow> 'u toolkit \<Rightarrow> 'u toolkit option" where
  "drop_encoder iid a t = do { (_, t) \<leftarrow> smlUnlockWriteBuffer iid 0 t; set_encoder a None t }"

text \<open>
  When the workspace is full, a transmit function of the application may empty it for a second attempt.
  Without such a function the error is forgotten: the call goes on to the end.
\<close>

definition mgrCreateNextCommand ::
    "('u, 'w) app \<Rightarrow> int \<Rightarrow> SmlProtoElement \<Rightarrow> sml_elem option \<Rightarrow> 'u toolkit \<Rightarrow> 'w \<Rightarrow> ('u, 'w) run" where
  "mgrCreateNextCommand app iid cmdType pContent t w = do {
     a \<leftarrow> findInfo iid t;
     case a of
       None \<Rightarrow> Some (SML_ERR_MGR_INVALID_INSTANCE_INFO, t, w)
     | Some a \<Rightarrow> do {
         i \<leftarrow> info_at a t;
         if ii_encoder i = None then Some (SML_ERR_MGR_INVALID_INSTANCE_INFO, t, w)
         else do {
           (rc, p, freeSize, t) \<leftarrow> smlLockWriteBuffer iid NULL 0 t;
           if rc \<noteq> SML_ERR_OK then do { (_, t) \<leftarrow> smlUnlockWriteBuffer iid 0 t; Some (rc, t, w) }
           else do {
             (rc, pos, t) \<leftarrow> append_in a cmdType pContent p freeSize t;
             if rc = SML_ERR_OK then do {
               (rc, t) \<leftarrow> smlUnlockWriteBuffer iid (pos - snd p) t;
               Some (rc, t, w)
             }
             else if rc \<noteq> SML_ERR_XLT_BUF_ERR then do { t \<leftarrow> drop_encoder iid a t; Some (rc, t, w) }
             else do {
               (cb, _) \<leftarrow> tk_callbacks a t;
               case transmitChunkFunc cb of
                 None \<Rightarrow> do {
                   (rc, t) \<leftarrow> smlUnlockWriteBuffer iid (pos - snd p) t;
                   Some (rc, t, w)
                 }
               | Some f \<Rightarrow> do {
                   (_, t) \<leftarrow> smlUnlockWriteBuffer iid 0 t;
                   (_, t, w) \<leftarrow> app f iid None Call_plain t w;
                   (_, p, freeSize, t) \<leftarrow> smlLockWriteBuffer iid (fst p, pos) freeSize t;
                   (rc, pos, t) \<leftarrow> append_in a cmdType pContent p freeSize t;
                   if rc \<noteq> SML_ERR_OK then do { t \<leftarrow> drop_encoder iid a t; Some (rc, t, w) }
                   else do {
                     (rc, t) \<leftarrow> smlUnlockWriteBuffer iid (pos - snd p) t;
                     Some (rc, t, w)
                   }
                 }
             }
           }
         }
       }
   }"

definition smlStartSync :: "('u, 'w) app \<Rightarrow> int \<Rightarrow> SmlSync option \<Rightarrow> 'u toolkit \<Rightarrow> 'w \<Rightarrow> ('u, 'w) run" where
  "smlStartSync app iid pContent = mgrCreateNextCommand app iid SML_PE_SYNC_START (map_option El_sync pContent)"

definition smlEndSync :: "('u, 'w) app \<Rightarrow> int \<Rightarrow> 'u toolkit \<Rightarrow> 'w \<Rightarrow> ('u, 'w) run" where
  "smlEndSync app iid = mgrCreateNextCommand app iid SML_PE_SYNC_END None"

definition smlStartAtomic :: "('u, 'w) app \<Rightarrow> int \<Rightarrow> SmlAtomic option \<Rightarrow> 'u toolkit \<Rightarrow> 'w \<Rightarrow> ('u, 'w) run" where
  "smlStartAtomic app iid pContent = mgrCreateNextCommand app iid SML_PE_ATOMIC_START (map_option El_atomic pContent)"

definition smlEndAtomic :: "('u, 'w) app \<Rightarrow> int \<Rightarrow> 'u toolkit \<Rightarrow> 'w \<Rightarrow> ('u, 'w) run" where
  "smlEndAtomic app iid = mgrCreateNextCommand app iid SML_PE_ATOMIC_END None"

definition smlStartSequence :: "('u, 'w) app \<Rightarrow> int \<Rightarrow> SmlAtomic option \<Rightarrow> 'u toolkit \<Rightarrow> 'w \<Rightarrow> ('u, 'w) run" where
  "smlStartSequence app iid pContent = mgrCreateNextCommand app iid SML_PE_SEQUENCE_START (map_option El_atomic pContent)"

definition smlEndSequence :: "('u, 'w) app \<Rightarrow> int \<Rightarrow> 'u toolkit \<Rightarrow> 'w \<Rightarrow> ('u, 'w) run" where
  "smlEndSequence app iid = mgrCreateNextCommand app iid SML_PE_SEQUENCE_END None"

definition smlAddCmd :: "('u, 'w) app \<Rightarrow> int \<Rightarrow> SmlGenericCmd option \<Rightarrow> 'u toolkit \<Rightarrow> 'w \<Rightarrow> ('u, 'w) run" where
  "smlAddCmd app iid pContent = mgrCreateNextCommand app iid SML_PE_ADD (map_option El_generic pContent)"

definition smlAlertCmd :: "('u, 'w) app \<Rightarrow> int \<Rightarrow> SmlAlert option \<Rightarrow> 'u toolkit \<Rightarrow> 'w \<Rightarrow> ('u, 'w) run" where
  "smlAlertCmd app iid pContent = mgrCreateNextCommand app iid SML_PE_ALERT (map_option El_alert pContent)"

definition smlDeleteCmd :: "('u, 'w) app \<Rightarrow> int \<Rightarrow> SmlGenericCmd option \<Rightarrow> 'u toolkit \<Rightarrow> 'w \<Rightarrow> ('u, 'w) run" where
  "smlDeleteCmd app iid pContent = mgrCreateNextCommand app iid SML_PE_DELETE (map_option El_generic pContent)"

definition smlGetCmd :: "('u, 'w) app \<Rightarrow> int \<Rightarrow> SmlGetPut option \<Rightarrow> 'u toolkit \<Rightarrow> 'w \<Rightarrow> ('u, 'w) run" where
  "smlGetCmd app iid pContent = mgrCreateNextCommand app iid SML_PE_GET (map_option El_getput pContent)"

definition smlPutCmd :: "('u, 'w) app \<Rightarrow> int \<Rightarrow> SmlGetPut option \<Rightarrow> 'u toolkit \<Rightarrow> 'w \<Rightarrow> ('u, 'w) run" where
  "smlPutCmd app iid pContent = mgrCreateNextCommand app iid SML_PE_PUT (map_option El_getput pContent)"

definition smlMapCmd :: "('u, 'w) app \<Rightarrow> int \<Rightarrow> SmlMap option \<Rightarrow> 'u toolkit \<Rightarrow> 'w \<Rightarrow> ('u, 'w) run" where
  "smlMapCmd app iid pContent = mgrCreateNextCommand app iid SML_PE_MAP (map_option El_map pContent)"

definition smlResultsCmd :: "('u, 'w) app \<Rightarrow> int \<Rightarrow> SmlResults option \<Rightarrow> 'u toolkit \<Rightarrow> 'w \<Rightarrow> ('u, 'w) run" where
  "smlResultsCmd app iid pContent = mgrCreateNextCommand app iid SML_PE_RESULTS (map_option El_results pContent)"

definition smlStatusCmd :: "('u, 'w) app \<Rightarrow> int \<Rightarrow> SmlStatus option \<Rightarrow> 'u toolkit \<Rightarrow> 'w \<Rightarrow> ('u, 'w) run" where
  "smlStatusCmd app iid pContent = mgrCreateNextCommand app iid SML_PE_STATUS (map_option El_status pContent)"

definition smlReplaceCmd :: "('u, 'w) app \<Rightarrow> int \<Rightarrow> SmlGenericCmd option \<Rightarrow> 'u toolkit \<Rightarrow> 'w \<Rightarrow> ('u, 'w) run" where
  "smlReplaceCmd app iid pContent = mgrCreateNextCommand app iid SML_PE_REPLACE (map_option El_generic pContent)"

definition smlCopyCmd :: "('u, 'w) app \<Rightarrow> int \<Rightarrow> SmlGenericCmd option \<Rightarrow> 'u toolkit \<Rightarrow> 'w \<Rightarrow> ('u, 'w) run" where
  "smlCopyCmd app iid pContent = mgrCreateNextCommand app iid SML_PE_COPY (map_option El_generic pContent)"

definition smlExecCmd :: "('u, 'w) app \<Rightarrow> int \<Rightarrow> SmlExec option \<Rightarrow> 'u toolkit \<Rightarrow> 'w \<Rightarrow> ('u, 'w) run" where
  "smlExecCmd app iid pContent = mgrCreateNextCommand app iid SML_PE_EXEC (map_option El_exec pContent)"

definition smlSearchCmd :: "('u, 'w) app \<Rightarrow> int \<Rightarrow> SmlSearch option \<Rightarrow> 'u toolkit \<Rightarrow> 'w \<Rightarrow> ('u, 'w) run" where
  "smlSearchCmd app iid pContent = mgrCreateNextCommand app iid SML_PE_SEARCH (map_option El_search pContent)"

text \<open>Measuring; \<open>smlStartEvaluation\<close> does not ask whether there is an encoder.\<close>

definition smlStartEvaluation :: "int \<Rightarrow> 'u toolkit \<Rightarrow> 'u op" where
  "smlStartEvaluation iid =
     with_info iid (\<lambda>a t. do {
       i \<leftarrow> info_at a t;
       e \<leftarrow> ii_encoder i;
       let (rc, e, g) = xltStartEvaluation e (tk_tok t);
       t \<leftarrow> set_encoder a (Some e) (t\<lparr>tk_tok := g\<rparr>);
       Some (rc, t)
     })"

definition smlEndEvaluation :: "int \<Rightarrow> int \<Rightarrow> 'u toolkit \<Rightarrow> (ret \<times> int \<times> 'u toolkit) option" where
  "smlEndEvaluation iid freemem t = do {
     a \<leftarrow> findInfo iid t;
     case a of
       None \<Rightarrow> Some (SML_ERR_MGR_INVALID_INSTANCE_INFO, freemem, t)
     | Some a \<Rightarrow> do {
         i \<leftarrow> info_at a t;
         case ii_encoder i of
           None \<Rightarrow> Some (SML_ERR_WRONG_USAGE, freemem, t)
         | Some e \<Rightarrow> do {
             (free, t) \<leftarrow> (if xe_space_evaluation e = None then Some (0, t) else smlGetFreeBuffer iid t);
             (_, f, e) \<leftarrow> xltEndEvaluation free e;
             t \<leftarrow> set_encoder a (Some e) t;
             Some (SML_ERR_OK, case f of None \<Rightarrow> freemem | Some n \<Rightarrow> n, t)
           }
       }
   }"

section \<open>Dispatching commands\<close>

definition set_decoder :: "nat \<Rightarrow> XltDecoder option \<Rightarrow> 'u toolkit \<Rightarrow> 'u toolkit option" where
  "set_decoder a d = info_upd a (ii_decoder_update (\<lambda>_. d))"

text \<open>What every error path does: the workspace is unlocked and emptied, the decoder is freed.\<close>

definition abort_decoding :: "int \<Rightarrow> nat \<Rightarrow> 'u toolkit \<Rightarrow> 'u toolkit option" where
  "abort_decoding iid a t = do {
     (_, t) \<leftarrow> smlUnlockReadBuffer iid 0 t;
     t \<leftarrow> set_decoder a None t;
     (_, t) \<leftarrow> mgrResetWorkspace iid t;
     Some t
   }"

text \<open>The end of the document that \<open>xltDecInit\<close> gets is one byte short.\<close>

definition mgrProcessStartMessage :: "('u, 'w) app \<Rightarrow> int \<Rightarrow> nat \<Rightarrow> 'u toolkit \<Rightarrow> 'w \<Rightarrow> ('u, 'w) run" where
  "mgrProcessStartMessage app iid a t w = do {
     (rc, p, usedSize, t) \<leftarrow> smlLockReadBuffer iid NULL 0 t;
     if rc \<noteq> SML_ERR_OK then do { (_, t) \<leftarrow> smlUnlockReadBuffer iid 0 t; Some (rc, t, w) }
     else do {
       i \<leftarrow> info_at a t;
       opts \<leftarrow> deref (ii_options i);
       (m, off) \<leftarrow> block_at p t;
       (rc, pos, d, hdr, g) \<leftarrow>
         xltDecInit (io_encoding opts) m (off + usedSize - 1) off None (tk_heap t) (tk_tok t);
       t \<leftarrow> (case d of None \<Rightarrow> Some t | Some d \<Rightarrow> set_decoder a (Some d) t);
       let t = t\<lparr>tk_tok := g\<rparr>;
       if rc \<noteq> SML_ERR_OK then do { t \<leftarrow> abort_decoding iid a t; Some (rc, t, w) }
       else do {
         (rc, t) \<leftarrow> smlUnlockReadBuffer iid (pos - off) t;
         if rc \<noteq> SML_ERR_OK then Some (rc, t, w)
         else do {
           (cb, u) \<leftarrow> tk_callbacks a t;
           case startMessageFunc cb of
             None \<Rightarrow> Some (SML_ERR_COMMAND_NOT_HANDLED, t, w)
           | Some f \<Rightarrow> do {
               (rc, t, w) \<leftarrow> app f iid (Some u) (Call_startMessage hdr) t w;
               if rc \<noteq> SML_ERR_OK then do { t \<leftarrow> abort_decoding iid a t; Some (rc, t, w) }
               else Some (rc, t, w)
             }
         }
       }
     }
   }"

text \<open>The callback of a command; \<open>None\<close> for an element that is no command.\<close>

definition callback_of :: "SmlProtoElement \<Rightarrow> (SmlCallbacks \<Rightarrow> nat option) option" where
  "callback_of pe =
     (case pe of
        SML_PE_ADD \<Rightarrow> Some addCmdFunc
      | SML_PE_ALERT \<Rightarrow> Some alertCmdFunc
      | SML_PE_DELETE \<Rightarrow> Some deleteCmdFunc
      | SML_PE_PUT \<Rightarrow> Some putCmdFunc
      | SML_PE_GET \<Rightarrow> Some getCmdFunc
      | SML_PE_MAP \<Rightarrow> Some mapCmdFunc
      | SML_PE_RESULTS \<Rightarrow> Some resultsCmdFunc
      | SML_PE_STATUS \<Rightarrow> Some statusCmdFunc
      | SML_PE_SYNC_START \<Rightarrow> Some startSyncFunc
      | SML_PE_SYNC_END \<Rightarrow> Some endSyncFunc
      | SML_PE_REPLACE \<Rightarrow> Some replaceCmdFunc
      | SML_PE_SEARCH \<Rightarrow> Some searchCmdFunc
      | SML_PE_SEQUENCE_START \<Rightarrow> Some startSequenceFunc
      | SML_PE_SEQUENCE_END \<Rightarrow> Some endSequenceFunc
      | SML_PE_ATOMIC_START \<Rightarrow> Some startAtomicFunc
      | SML_PE_ATOMIC_END \<Rightarrow> Some endAtomicFunc
      | SML_PE_COPY \<Rightarrow> Some copyCmdFunc
      | SML_PE_EXEC \<Rightarrow> Some execCmdFunc
      | _ \<Rightarrow> None)"

definition dispatch ::
    "('u, 'w) app \<Rightarrow> int \<Rightarrow> nat \<Rightarrow> SmlProtoElement \<Rightarrow> sml_elem option \<Rightarrow> 'u toolkit \<Rightarrow> 'w \<Rightarrow> ('u, 'w) run" where
  "dispatch app iid a cmdType pContent t w =
     (if cmdType = SML_PE_FINAL then Some (SML_ERR_OK, t, w)
      else case callback_of cmdType of
        None \<Rightarrow> Some (SML_ERR_XLT_INVAL_PROTO_ELEM, t, w)
      | Some fn \<Rightarrow>
          call_back app iid a fn
            (if cmdType \<in> {SML_PE_SYNC_END, SML_PE_SEQUENCE_END, SML_PE_ATOMIC_END} then Call_plain
             else Call_content pContent) t w)"

text \<open>The decoder uses the tables of the toolkit.\<close>

definition with_tok :: "TokTbl \<Rightarrow> XltDecoder \<Rightarrow> XltDecoder" where
  "with_tok g d = d\<lparr>xd_scanner := (xd_scanner d)\<lparr>sc_tok := g\<rparr>\<rparr>"

definition mgrProcessNextCommand :: "('u, 'w) app \<Rightarrow> int \<Rightarrow> nat \<Rightarrow> 'u toolkit \<Rightarrow> 'w \<Rightarrow> ('u, 'w) run" where
  "mgrProcessNextCommand app iid a t w = do {
     (rc, p, usedSize, t) \<leftarrow> smlLockReadBuffer iid NULL 0 t;
     if rc \<noteq> SML_ERR_OK then do { (_, t) \<leftarrow> smlUnlockReadBuffer iid 0 t; Some (rc, t, w) }
     else do {
       i \<leftarrow> info_at a t;
       d \<leftarrow> ii_decoder i;
       (m, off) \<leftarrow> block_at p t;
       (rc, pos, cmdType, pContent, d) \<leftarrow>
         xltDecNext m (off + usedSize) off SML_PE_UNDEF None (with_tok (tk_tok t) d);
       t \<leftarrow> set_decoder a (Some d) (t\<lparr>tk_tok := dec_tok d\<rparr>);
       if rc \<noteq> SML_ERR_OK then do { t \<leftarrow> abort_decoding iid a t; Some (rc, t, w) }
       else do {
         (rc, t) \<leftarrow> smlUnlockReadBuffer iid (pos - off) t;
         if rc \<noteq> SML_ERR_OK then do { (_, t) \<leftarrow> smlUnlockReadBuffer iid 0 t; Some (rc, t, w) }
         else if xd_finished d then do {
           let (rc, dead) = xltDecTerminate (Some d);
           if rc \<noteq> SML_ERR_OK then do { t \<leftarrow> abort_decoding iid a t; Some (rc, t, w) }
           else do {
             t \<leftarrow> set_decoder a dead t;
             call_back app iid a endMessageFunc (Call_endMessage (xd_final d)) t w
           }
         }
         else dispatch app iid a cmdType pContent t w
       }
     }
   }"

datatype SmlProcessMode = SML_DO_NOTHING | SML_FIRST_COMMAND | SML_NEXT_COMMAND | SML_NEXT_MESSAGE | SML_ALL_COMMANDS

text \<open>The loop may run forever: an application can write into the workspace that it reads.\<close>

partial_function (option) process_loop ::
    "('u, 'w) app \<Rightarrow> int \<Rightarrow> nat \<Rightarrow> SmlProcessMode \<Rightarrow> 'u toolkit \<Rightarrow> 'w \<Rightarrow> ('u, 'w) run" where
  "process_loop app iid a mode t w = do {
     (rc, t, w) \<leftarrow> mgrProcessNextCommand app iid a t w;
     if rc \<noteq> SML_ERR_OK then Some (rc, t, w)
     else do {
       i \<leftarrow> info_at a t;
       if ii_decoder i \<noteq> None \<and> mode = SML_ALL_COMMANDS then process_loop app iid a mode t w
       else Some (rc, t, w)
     }
   }"

definition smlProcessData :: "('u, 'w) app \<Rightarrow> int \<Rightarrow> SmlProcessMode \<Rightarrow> 'u toolkit \<Rightarrow> 'w \<Rightarrow> ('u, 'w) run" where
  "smlProcessData app iid mode t w = do {
     a \<leftarrow> findInfo iid t;
     case a of
       None \<Rightarrow> Some (SML_ERR_MGR_INVALID_INSTANCE_INFO, t, w)
     | Some a \<Rightarrow> do {
         i \<leftarrow> info_at a t;
         if ii_callbacks i = Null then Some (SML_ERR_COMMAND_NOT_HANDLED, t, w)
         else do {
           (rc, t, w) \<leftarrow> (if ii_decoder i = None then mgrProcessStartMessage app iid a t w
                          else Some (SML_ERR_OK, t, w));
           if rc \<noteq> SML_ERR_OK then Some (rc, t, w)
           else do {
             (rc, t, w) \<leftarrow> process_loop app iid a mode t w;
             if rc \<noteq> SML_ERR_OK then do { t \<leftarrow> abort_decoding iid a t; Some (rc, t, w) }
             else Some (rc, t, w)
           }
         }
       }
   }"

end
