(* ===== verification/Wsm_Spec.thy ===== *)
theory Wsm_Spec
  imports Wsm
begin

text \<open>
  The contract of the workspace manager and the proof that \<open>wsm.c\<close> on top of \<open>wsm_sm.c\<close>
  implements it: the invariant that ties the buffer table, the list of blocks and the heap
  together, the abstract view (handle to named byte buffer), and one refinement lemma per
  operation.
\<close>

section \<open>The invariant\<close>

definition free_ok :: "WsmBuf \<Rightarrow> bool" where
  "free_ok e \<longleftrightarrow> memH e = - 1 \<and> flags e AND WSM_VALID_F = 0 \<and> bufName e = None"

definition pair_ok :: "(nat \<Rightarrow> byte option list option) \<Rightarrow> int \<Rightarrow> WsmBuf \<Rightarrow> smWinList \<Rightarrow> bool" where
  "pair_ok hp h e n \<longleftrightarrow> live n \<and> memH e = h \<and> sm_memH n = h \<and> bufName e = Some (memName n)
     \<and> flags e = (if locked n then 3 else 1)
     \<and> bsize e = memSize n \<and> 0 \<le> usedBytes e \<and> usedBytes e \<le> bsize e \<and> bsize e < 2 ^ 29
     \<and> (\<exists>b bs. winH n = Some b \<and> hp b = Some bs \<and> int (length bs) = bsize e)
     \<and> (locked n \<longrightarrow> pFirstData e = (winH n, 0) \<and> pFirstFree e = (winH n, usedBytes e))"

definition wsm_inv :: "wsm \<Rightarrow> bool" where
  "wsm_inv s \<longleftrightarrow> globals s = Live_globals \<and> initWasCalled s
     \<and> length (wsmBuf s) = 4 \<and> 0 \<le> wsmIndex s \<and> wsmIndex s < 4 \<and> (\<forall>j. \<not> oom s j)
     \<and> (\<forall>i<4. free_ok (wsmBuf s ! i)
            \<or> (\<exists>n \<in> set (wsmSm s). pair_ok (heap s) (int i + 1) (wsmBuf s ! i) n))
     \<and> (\<forall>n \<in> set (wsmSm s). \<exists>i<4. pair_ok (heap s) (int i + 1) (wsmBuf s ! i) n)
     \<and> distinct (map sm_memH (wsmSm s)) \<and> distinct (map memName (wsmSm s))
     \<and> distinct (map winH (wsmSm s)) \<and> (\<forall>b. heap s b \<noteq> None \<longrightarrow> b < hnext s)"

section \<open>The abstract view\<close>

record wview =
  v_name :: "byte list"
  v_block :: "byte option list"
  v_used :: nat
  v_locked :: bool

definition v_data :: "wview \<Rightarrow> byte option list" where
  "v_data v = take (v_used v) (v_block v)"

definition view_of :: "wsm \<Rightarrow> smWinList \<Rightarrow> wview" where
  "view_of s n = \<lparr>v_name = memName n, v_block = the (heap s (the (winH n))),
     v_used = nat (usedBytes (wsmBuf s ! nat (sm_memH n - 1))), v_locked = locked n\<rparr>"

definition wsm_view :: "wsm \<Rightarrow> int \<Rightarrow> wview option" where
  "wsm_view s = map_of (map (\<lambda>n. (sm_memH n, view_of s n)) (wsmSm s))"

section \<open>Facts about the invariant\<close>

lemma inv_basic:
  assumes "wsm_inv s"
  shows "globals s = Live_globals" "initWasCalled s" "length (wsmBuf s) = 4" "0 \<le> wsmIndex s" "wsmIndex s < 4"
    "\<forall>n \<in> set (wsmSm s). live n" "distinct (map sm_memH (wsmSm s))" "distinct (map memName (wsmSm s))"
    "distinct (map winH (wsmSm s))" "\<forall>b. heap s b \<noteq> None \<longrightarrow> b < hnext s" "\<not> oom s j"
  using assms unfolding wsm_inv_def pair_ok_def by simp_all blast

lemma inv_irrelevant [simp]:
  "0 \<le> i \<Longrightarrow> i < 4 \<Longrightarrow> wsm_inv s \<Longrightarrow> wsm_inv (s\<lparr>wsmIndex := i\<rparr>)"
  "wsm_inv (s\<lparr>wsmRet := r\<rparr>) = wsm_inv s"
  "wsm_inv (s\<lparr>mallocs := n\<rparr>) = wsm_inv s"
  by (simp_all add: wsm_inv_def)

lemma view_irrelevant [simp]:
  "wsm_view (s\<lparr>wsmIndex := i\<rparr>) = wsm_view s"
  "wsm_view (s\<lparr>wsmRet := r\<rparr>) = wsm_view s"
  "wsm_view (s\<lparr>mallocs := m\<rparr>) = wsm_view s"
  by (simp_all add: wsm_view_def view_of_def)

lemma view_Some_iff:
  assumes "distinct (map sm_memH (wsmSm s))"
  shows "wsm_view s h = Some v \<longleftrightarrow> (\<exists>k < length (wsmSm s). sm_memH (wsmSm s ! k) = h \<and> v = view_of s (wsmSm s ! k))"
proof -
  have "distinct (map fst (map (\<lambda>n. (sm_memH n, view_of s n)) (wsmSm s)))"
    using assms by (simp add: comp_def)
  from map_of_eq_Some_iff [OF this, of h v] show ?thesis
    unfolding wsm_view_def by (simp add: image_iff Bex_def in_set_conv_nth) blast
qed

text \<open>Everything the proofs use of a known handle.\<close>

lemma known_handle:
  assumes inv: "wsm_inv s" and v: "wsm_view s h = Some v"
  obtains i k b where "i < 4" "h = int i + 1" "k < length (wsmSm s)"
    "pair_ok (heap s) h (wsmBuf s ! i) (wsmSm s ! k)" "winH (wsmSm s ! k) = Some b"
    "v = \<lparr>v_name = memName (wsmSm s ! k), v_block = the (heap s b),
          v_used = nat (usedBytes (wsmBuf s ! i)), v_locked = locked (wsmSm s ! k)\<rparr>"
    "heap s b \<noteq> None" "int (length (v_block v)) = bsize (wsmBuf s ! i)"
proof -
  from v view_Some_iff [OF inv_basic(7) [OF inv]] obtain k where
    k: "k < length (wsmSm s)" "sm_memH (wsmSm s ! k) = h" "v = view_of s (wsmSm s ! k)" by blast
  with inv obtain i where i: "i < 4" "pair_ok (heap s) (int i + 1) (wsmBuf s ! i) (wsmSm s ! k)"
    unfolding wsm_inv_def by (meson nth_mem)
  then have "h = int i + 1" using k by (simp add: pair_ok_def)
  moreover from i(2) obtain b bs where b: "winH (wsmSm s ! k) = Some b" "heap s b = Some bs"
    "int (length bs) = bsize (wsmBuf s ! i)" by (auto simp: pair_ok_def)
  moreover have "v = \<lparr>v_name = memName (wsmSm s ! k), v_block = the (heap s b),
          v_used = nat (usedBytes (wsmBuf s ! i)), v_locked = locked (wsmSm s ! k)\<rparr>"
    using k b \<open>h = int i + 1\<close> by (simp add: view_of_def)
  ultimately show ?thesis using i k(1) by (intro that [of i k b]) simp_all
qed

lemma memH_iff:
  assumes "wsm_inv s" and "i < 4" and "memH (wsmBuf s ! i) = int i + 1" and "j < 4"
  shows "memH (wsmBuf s ! j) = int i + 1 \<longleftrightarrow> j = i"
  using assms unfolding wsm_inv_def free_ok_def pair_ok_def by force

lemma buf_index_unique:
  "i < length es \<Longrightarrow> \<forall>j < length es. P (es ! j) \<longleftrightarrow> j = i \<Longrightarrow> buf_index P es = Some i"
proof (induction es arbitrary: i)
  case (Cons e es)
  then show ?case
  proof (cases i)
    case (Suc m)
    have "\<not> P e" using Cons.prems(2) [rule_format, of 0] Suc by simp
    moreover have "\<forall>j < length es. P (es ! j) \<longleftrightarrow> j = m"
      using Cons.prems(2) Suc by (metis Suc_inject Suc_less_eq length_Cons nth_Cons_Suc)
    ultimately show ?thesis using Cons Suc by simp
  qed auto
qed simp

lemma buf_index_Some: "buf_index P es = Some i \<Longrightarrow> i < length es \<and> P (es ! i) \<and> (\<forall>j<i. \<not> P (es ! j))"
proof (induction es arbitrary: i)
  case (Cons e es)
  then show ?case by (cases i) (auto split: if_splits simp: less_Suc_eq_0_disj)
qed simp

lemma buf_index_None: "buf_index P es = None \<longleftrightarrow> (\<forall>e \<in> set es. \<not> P e)"
  by (induction es) auto

lemma buf_at_ok: "globals s = Live_globals \<Longrightarrow> i < length (wsmBuf s) \<Longrightarrow> buf_at (int i) s = Some (wsmBuf s ! i)"
  by (simp add: buf_at_def)

lemma buf_upd_ok: "globals s = Live_globals \<Longrightarrow> i < length (wsmBuf s) \<Longrightarrow>
    buf_upd (int i) f s = Some (s\<lparr>wsmBuf := (wsmBuf s)[i := f (wsmBuf s ! i)]\<rparr>)"
  by (simp add: buf_upd_def buf_at_ok)

lemma buf_at_index: "globals s = Live_globals \<Longrightarrow> 0 \<le> i \<Longrightarrow> i < int (length (wsmBuf s)) \<Longrightarrow>
    buf_at i s = Some (wsmBuf s ! nat i)"
  by (simp add: buf_at_def)

lemma lookup_at:
  assumes "globals s = Live_globals" "length (wsmBuf s) = 4" "0 \<le> wsmIndex s" "wsmIndex s < 4"
    and "i < 4" "\<forall>j<4. memH (wsmBuf s ! j) = h \<longleftrightarrow> j = i"
  shows "lookup h s = Some (int i, s\<lparr>wsmIndex := int i\<rparr>)"
proof -
  have "buf_index (\<lambda>e. memH e = h) (wsmBuf s) = Some i"
    using assms by (intro buf_index_unique) auto
  moreover have "nat (wsmIndex s) = i \<Longrightarrow> s\<lparr>wsmIndex := int i\<rparr> = s" using assms by auto
  ultimately show ?thesis
    using assms by (auto simp: lookup_def buf_at_index)
qed

lemma lookup_unknown:
  assumes "globals s = Live_globals" "length (wsmBuf s) = 4" "0 \<le> wsmIndex s" "wsmIndex s < 4"
    and "\<forall>e \<in> set (wsmBuf s). memH e \<noteq> h"
  shows "lookup h s = Some (- 1, s)"
proof -
  have "buf_index (\<lambda>e. memH e = h) (wsmBuf s) = None" using assms by (simp add: buf_index_None)
  with assms show ?thesis by (auto simp: lookup_def buf_at_index)
qed

lemma locateH_at:
  assumes "\<forall>n \<in> set (wsmSm s). live n" "distinct (map sm_memH (wsmSm s))" "k < length (wsmSm s)"
    "sm_memH (wsmSm s ! k) = h"
  shows "locateH h s = Some (Some k)"
  unfolding locateH_def
  by (rule sm_find_unique) (use assms in \<open>auto simp: distinct_conv_nth\<close>)

lemma locateEle_at:
  assumes "\<forall>n \<in> set (wsmSm s). live n" "distinct (map memName (wsmSm s))" "k < length (wsmSm s)"
    "memName (wsmSm s ! k) = nm"
  shows "locateEle (Some nm) s = Some (Some k)"
  unfolding locateEle_def str_eq_def option.case
  by (rule sm_find_unique) (use assms in \<open>auto simp: distinct_conv_nth\<close>)

lemma locateEle_none:
  assumes "\<forall>n \<in> set (wsmSm s). live n" "nm \<notin> memName ` set (wsmSm s)"
  shows "locateEle (Some nm) s = Some None"
  unfolding locateEle_def str_eq_def option.case
  by (rule sm_find_none) (use assms in auto)

section \<open>Stepping through an operation on a known handle\<close>

definition handle_at :: "wsm \<Rightarrow> int \<Rightarrow> nat \<Rightarrow> nat \<Rightarrow> bool" where
  "handle_at s h i k \<longleftrightarrow> globals s = Live_globals \<and> length (wsmBuf s) = 4
     \<and> 0 \<le> wsmIndex s \<and> wsmIndex s < 4 \<and> i < 4 \<and> k < length (wsmSm s)
     \<and> (\<forall>j<4. memH (wsmBuf s ! j) = h \<longleftrightarrow> j = i) \<and> (\<forall>n \<in> set (wsmSm s). live n)
     \<and> distinct (map sm_memH (wsmSm s)) \<and> sm_memH (wsmSm s ! k) = h"

lemma handle_atI:
  assumes "wsm_inv s" "i < 4" "k < length (wsmSm s)" "pair_ok (heap s) (int i + 1) (wsmBuf s ! i) (wsmSm s ! k)"
  shows "handle_at s (int i + 1) i k"
  using inv_basic [OF assms(1)] assms memH_iff [of s i] by (simp add: handle_at_def pair_ok_def)

lemma handle_at_irrelevant [simp]:
  "handle_at s h i k \<Longrightarrow> handle_at (s\<lparr>wsmIndex := int i\<rparr>) h i k"
  "handle_at (s\<lparr>wsmRet := r\<rparr>) h i k = handle_at s h i k"
  "handle_at (s\<lparr>heap := hp\<rparr>) h i k = handle_at s h i k"
  by (simp_all add: handle_at_def)

lemma distinct_map_update:
  assumes "distinct (map f xs)" "f y = f (xs ! k)"
  shows "distinct (map f (xs[k := y]))"
proof -
  have "map f (xs[k := y]) = map f xs"
    using assms(2) by (cases "k < length xs") (auto simp: list_eq_iff_nth_eq nth_list_update list_update_beyond)
  with assms(1) show ?thesis by simp
qed

lemma handle_at_node [simp]:
  assumes "handle_at s h i k" "xs = (wsmSm s)[k := xs ! k]" "live (xs ! k)" "sm_memH (xs ! k) = h"
  shows "handle_at (s\<lparr>wsmSm := xs\<rparr>) h i k"
proof -
  have "distinct (map sm_memH ((wsmSm s)[k := xs ! k]))"
    using assms by (intro distinct_map_update) (simp_all add: handle_at_def)
  moreover have "\<forall>n \<in> set ((wsmSm s)[k := xs ! k]). live n"
    using assms(1,3) set_update_subset_insert [of "wsmSm s" k "xs ! k"] by (auto simp: handle_at_def)
  moreover have "length xs = length (wsmSm s)" by (subst assms(2)) simp
  ultimately show ?thesis
    using assms(1,4) by (simp add: handle_at_def flip: assms(2))
qed

lemma handle_at_buf [simp]:
  assumes "handle_at s h i k" "es = (wsmBuf s)[i := es ! i]" "memH (es ! i) = h"
  shows "handle_at (s\<lparr>wsmBuf := es\<rparr>) h i k"
proof -
  have "length es = length (wsmBuf s)" by (subst assms(2)) simp
  moreover have "es ! j = wsmBuf s ! j" if "j \<noteq> i" for j
    using that by (subst assms(2)) simp
  ultimately show ?thesis
    using assms(1,3) unfolding handle_at_def by (simp, metis)
qed

lemma handle_at_bounds:
  "handle_at s h i k \<Longrightarrow> i < length (wsmBuf s)" "handle_at s h i k \<Longrightarrow> k < length (wsmSm s)"
  by (simp_all add: handle_at_def)

lemma handle_at_steps:
  assumes "handle_at s h i k"
  shows "lookup h s = Some (int i, s\<lparr>wsmIndex := int i\<rparr>)"
    and "isValidMemH h s = Some (flags (wsmBuf s ! i) AND WSM_VALID_F \<noteq> 0, s\<lparr>wsmIndex := int i\<rparr>)"
    and "isLockedMemH h s = Some (flags (wsmBuf s ! i) AND WSM_LOCKED_F \<noteq> 0, s\<lparr>wsmIndex := int i\<rparr>)"
    and "locateH h s = Some (Some k)"
    and "buf_at (int i) s = Some (wsmBuf s ! i)"
    and "buf_upd (int i) f s = Some (s\<lparr>wsmBuf := (wsmBuf s)[i := f (wsmBuf s ! i)]\<rparr>)"
proof -
  show l: "lookup h s = Some (int i, s\<lparr>wsmIndex := int i\<rparr>)"
    using assms by (auto simp: handle_at_def intro!: lookup_at)
  show "locateH h s = Some (Some k)"
    using assms by (auto simp: handle_at_def intro!: locateH_at)
  show "buf_at (int i) s = Some (wsmBuf s ! i)"
    and "buf_upd (int i) f s = Some (s\<lparr>wsmBuf := (wsmBuf s)[i := f (wsmBuf s ! i)]\<rparr>)"
    using assms by (auto simp: handle_at_def intro!: buf_at_ok buf_upd_ok)
  have "buf_at (int i) (s\<lparr>wsmIndex := int i\<rparr>) = Some (wsmBuf s ! i)"
    using assms by (subst buf_at_ok) (auto simp: handle_at_def)
  then show "isValidMemH h s = Some (flags (wsmBuf s ! i) AND WSM_VALID_F \<noteq> 0, s\<lparr>wsmIndex := int i\<rparr>)"
    and "isLockedMemH h s = Some (flags (wsmBuf s ! i) AND WSM_LOCKED_F \<noteq> 0, s\<lparr>wsmIndex := int i\<rparr>)"
    by (simp_all add: isValidMemH_def isLockedMemH_def l)
qed

section \<open>One entry changes\<close>

lemma pair_ok_other_heap:
  "pair_ok hp h e n \<Longrightarrow> (\<And>b. winH n = Some b \<Longrightarrow> hp' b = hp b) \<Longrightarrow> pair_ok hp' h e n"
  unfolding pair_ok_def by auto

lemma inv_update:
  assumes inv: "wsm_inv s" and i: "i < 4" and k: "k < length (wsmSm s)"
    and old: "pair_ok (heap s) (int i + 1) (wsmBuf s ! i) (wsmSm s ! k)" "winH (wsmSm s ! k) = Some b"
    and new: "pair_ok hp (int i + 1) e' n'" "memName n' = memName (wsmSm s ! k)" "winH n' = Some b'"
    and hp: "\<forall>c. c \<noteq> b \<longrightarrow> c \<noteq> b' \<longrightarrow> hp c = heap s c" "b' = b \<or> heap s b' = None" "\<forall>c. hp c \<noteq> None \<longrightarrow> c < hnext s'"
    and s': "globals s' = globals s" "initWasCalled s' = initWasCalled s" "wsmBuf s' = (wsmBuf s)[i := e']"
      "wsmSm s' = (wsmSm s)[k := n']" "heap s' = hp" "oom s' = oom s" "0 \<le> wsmIndex s'" "wsmIndex s' < 4"
  shows "wsm_inv s'"
    and "wsm_view s' = (wsm_view s)(int i + 1 \<mapsto> \<lparr>v_name = memName n', v_block = the (hp b'),
           v_used = nat (usedBytes e'), v_locked = locked n'\<rparr>)"
proof -
  note basic = inv_basic [OF inv]
  have h: "sm_memH (wsmSm s ! k) = int i + 1" "sm_memH n' = int i + 1"
    using old new by (simp_all add: pair_ok_def)
  have node: "\<exists>j<4. j \<noteq> i \<and> sm_memH (wsmSm s ! l) = int j + 1 \<and> pair_ok hp (int j + 1) (wsmBuf s ! j) (wsmSm s ! l)"
    if l: "l < length (wsmSm s)" "l \<noteq> k" for l
  proof -
    obtain j where j: "j < 4" "pair_ok (heap s) (int j + 1) (wsmBuf s ! j) (wsmSm s ! l)"
      using inv l unfolding wsm_inv_def by (meson nth_mem)
    have jh: "sm_memH (wsmSm s ! l) = int j + 1" using j(2) by (simp add: pair_ok_def)
    have "sm_memH (wsmSm s ! l) \<noteq> sm_memH (wsmSm s ! k)" "winH (wsmSm s ! l) \<noteq> winH (wsmSm s ! k)"
      using basic(7,9) l k by (auto simp: distinct_conv_nth)
    moreover have "winH (wsmSm s ! l) \<noteq> Some b'" if "heap s b' = None"
      using j(2) that by (auto simp: pair_ok_def)
    ultimately have "j \<noteq> i" "pair_ok hp (int j + 1) (wsmBuf s ! j) (wsmSm s ! l)"
      using j(2) h(1) jh old(2) hp(1,2) by (auto intro: pair_ok_other_heap)
    with j(1) jh show ?thesis by blast
  qed
  have winH': "winH n' \<noteq> winH (wsmSm s ! l)" if l: "l < length (wsmSm s)" "l \<noteq> k" for l
  proof -
    obtain j where j: "j < 4" "pair_ok (heap s) (int j + 1) (wsmBuf s ! j) (wsmSm s ! l)"
      using inv l unfolding wsm_inv_def by (meson nth_mem)
    moreover have "winH (wsmSm s ! l) \<noteq> winH (wsmSm s ! k)"
      using basic(9) l k by (auto simp: distinct_conv_nth)
    ultimately show ?thesis using old(2) new(3) hp(2) by (auto simp: pair_ok_def)
  qed
  have entries: "free_ok (wsmBuf s' ! j) \<or> (\<exists>n \<in> set (wsmSm s'). pair_ok (heap s') (int j + 1) (wsmBuf s' ! j) n)"
    if j: "j < 4" for j
  proof (cases "j = i")
    case True
    have "wsmSm s' ! k \<in> set (wsmSm s')" using k s'(4) by (intro nth_mem) simp
    with True s' new(1) k i basic(3) show ?thesis by auto
  next
    case False
    then have same: "wsmBuf s' ! j = wsmBuf s ! j" by (simp add: s'(3))
    show ?thesis
    proof (cases "free_ok (wsmBuf s ! j)")
      case False
      with inv j obtain l where l: "l < length (wsmSm s)" "pair_ok (heap s) (int j + 1) (wsmBuf s ! j) (wsmSm s ! l)"
        unfolding wsm_inv_def by (metis in_set_conv_nth)
      then have "l \<noteq> k" using \<open>j \<noteq> i\<close> h(1) by (auto simp: pair_ok_def)
      with node [OF l(1)] l(2) have "pair_ok hp (int j + 1) (wsmBuf s ! j) (wsmSm s ! l)"
        by (auto simp: pair_ok_def)
      moreover have "wsmSm s ! l \<in> set (wsmSm s')"
        using \<open>l \<noteq> k\<close> l(1) s'(4) by (metis length_list_update nth_list_update_neq nth_mem)
      ultimately show ?thesis using same s'(5) by auto
    qed (simp add: same)
  qed
  have nodes: "\<exists>j<4. pair_ok (heap s') (int j + 1) (wsmBuf s' ! j) n" if "n \<in> set (wsmSm s')" for n
  proof -
    from that obtain l where l: "l < length (wsmSm s)" "n = wsmSm s' ! l"
      by (auto simp: s'(4) in_set_conv_nth)
    show ?thesis
    proof (cases "l = k")
      case True
      with l s' new(1) i basic(3) show ?thesis by (intro exI [of _ i]) simp
    next
      case False
      with node [OF l(1) False] l s' show ?thesis by auto
    qed
  qed
  have wins: "distinct (map winH (wsmSm s'))"
    unfolding distinct_conv_nth
    using basic(9) winH' k
    by (auto simp: s'(4) distinct_conv_nth nth_list_update) metis+
  show inv': "wsm_inv s'"
    unfolding wsm_inv_def
    using entries nodes wins basic s' h new(2) hp(3)
    by (auto intro!: distinct_map_update)
  show "wsm_view s' = (wsm_view s)(int i + 1 \<mapsto> \<lparr>v_name = memName n', v_block = the (hp b'),
           v_used = nat (usedBytes e'), v_locked = locked n'\<rparr>)" (is "_ = (wsm_view s)(_ \<mapsto> ?v)")
  proof
    fix x
    have vk: "view_of s' n' = ?v"
      using s' i basic(3) h(2) new(3) by (simp add: view_of_def)
    have vl: "view_of s' (wsmSm s ! l) = view_of s (wsmSm s ! l)" if l: "l < length (wsmSm s)" "l \<noteq> k" for l
    proof -
      from node [OF l] obtain j where j: "j < 4" "j \<noteq> i" "sm_memH (wsmSm s ! l) = int j + 1" by blast
      from node [OF l] obtain c where c: "winH (wsmSm s ! l) = Some c" by (auto simp: pair_ok_def)
      have "winH (wsmSm s ! l) \<noteq> winH (wsmSm s ! k)" using basic(9) l k by (auto simp: distinct_conv_nth)
      then have "c \<noteq> b" using c old(2) by simp
      moreover have "c \<noteq> b'" using winH' [OF l] new(3) c by auto
      ultimately show ?thesis using s' j c hp(1) by (simp add: view_of_def)
    qed
    show "wsm_view s' x = ((wsm_view s)(int i + 1 \<mapsto> ?v)) x"
    proof (cases "x = int i + 1")
      case True
      have "wsm_view s' x = Some ?v"
        unfolding view_Some_iff [OF inv_basic(7) [OF inv']]
        using k s'(4) True h(2) vk by (intro exI [of _ k]) simp
      with True show ?thesis by simp
    next
      case False
      have "wsm_view s' x = Some v \<longleftrightarrow> wsm_view s x = Some v" for v
        unfolding view_Some_iff [OF inv_basic(7) [OF inv']] view_Some_iff [OF basic(7)]
        using False h vl k by (auto simp: s'(4) nth_list_update) (metis+)?
      with False show ?thesis by (metis fun_upd_other not_None_eq)
    qed
  qed
qed

section \<open>Refinement of the operations on a known handle\<close>

text \<open>Everything an operation on a known handle needs.\<close>

definition known_at :: "wsm \<Rightarrow> int \<Rightarrow> wview \<Rightarrow> nat \<Rightarrow> nat \<Rightarrow> nat \<Rightarrow> bool" where
  "known_at s h v i k b \<longleftrightarrow> wsm_inv s \<and> h = int i + 1 \<and> i < 4 \<and> i < length (wsmBuf s) \<and> k < length (wsmSm s)
    \<and> handle_at s (int i + 1) i k
    \<and> pair_ok (heap s) (int i + 1) (wsmBuf s ! i) (wsmSm s ! k) \<and> winH (wsmSm s ! k) = Some b
    \<and> memName (wsmSm s ! k) = v_name v \<and> locked (wsmSm s ! k) = v_locked v
    \<and> flags (wsmBuf s ! i) = (if v_locked v then 3 else 1) \<and> live (wsmSm s ! k)
    \<and> sm_memH (wsmSm s ! k) = int i + 1 \<and> memH (wsmBuf s ! i) = int i + 1
    \<and> heap s b = Some (v_block v) \<and> usedBytes (wsmBuf s ! i) = int (v_used v)
    \<and> bsize (wsmBuf s ! i) = int (length (v_block v)) \<and> v_used v \<le> length (v_block v)
    \<and> length (v_block v) < 2 ^ 29"

lemma known_op:
  assumes inv: "wsm_inv s" and v: "wsm_view s h = Some v"
  obtains i k b where "known_at s h v i k b"
proof -
  from known_handle [OF inv v] obtain i k b where ik: "i < 4" "h = int i + 1" "k < length (wsmSm s)"
    "pair_ok (heap s) h (wsmBuf s ! i) (wsmSm s ! k)" "winH (wsmSm s ! k) = Some b"
    "v = \<lparr>v_name = memName (wsmSm s ! k), v_block = the (heap s b),
          v_used = nat (usedBytes (wsmBuf s ! i)), v_locked = locked (wsmSm s ! k)\<rparr>"
    "heap s b \<noteq> None" "int (length (v_block v)) = bsize (wsmBuf s ! i)" .
  note p = ik(4) [unfolded ik(2)]
  note at = handle_atI [OF inv ik(1,3) p]
  from p ik(8) have u: "0 \<le> usedBytes (wsmBuf s ! i)" "usedBytes (wsmBuf s ! i) \<le> int (length (v_block v))"
    "int (length (v_block v)) < 2 ^ 29" by (simp_all add: pair_ok_def)
  have h: "heap s b = Some (v_block v)" "memName (wsmSm s ! k) = v_name v" "locked (wsmSm s ! k) = v_locked v"
    using ik(6,7) by auto
  have n: "usedBytes (wsmBuf s ! i) = int (v_used v)" "bsize (wsmBuf s ! i) = int (length (v_block v))"
    using ik(6,8) u(1) by simp_all
  have b: "v_used v \<le> length (v_block v)" "length (v_block v) < 2 ^ 29"
    using u(2,3) by (simp_all add: n(1))
  have f: "flags (wsmBuf s ! i) = (if v_locked v then 3 else 1)" "live (wsmSm s ! k)"
    "sm_memH (wsmSm s ! k) = int i + 1" "memH (wsmBuf s ! i) = int i + 1"
    using p h(3) by (simp_all only: pair_ok_def)
  show ?thesis
    by (rule that [of i k b]) (use inv ik(1,2,3,5) handle_at_bounds [OF at] at p f h n b in \<open>simp add: known_at_def\<close>)
qed

lemma known_atD:
  assumes "known_at s h v i k b"
  shows "wsm_inv s" "h = int i + 1" "i < 4" "i < length (wsmBuf s)" "k < length (wsmSm s)"
    "handle_at s (int i + 1) i k" "winH (wsmSm s ! k) = Some b"
    "memName (wsmSm s ! k) = v_name v" "locked (wsmSm s ! k) = v_locked v"
    "flags (wsmBuf s ! i) = (if v_locked v then 3 else 1)" "live (wsmSm s ! k)"
    "sm_memH (wsmSm s ! k) = int i + 1" "memH (wsmBuf s ! i) = int i + 1"
    "heap s b = Some (v_block v)" "usedBytes (wsmBuf s ! i) = int (v_used v)"
    "bsize (wsmBuf s ! i) = int (length (v_block v))" "v_used v \<le> length (v_block v)"
    "length (v_block v) < 2 ^ 29"
    "pair_ok (heap s) (int i + 1) (wsmBuf s ! i) (wsmSm s ! k)"
  using assms by (simp_all only: known_at_def)

lemma view_known: "known_at s h v i k b \<Longrightarrow> wsm_view s h = Some v"
  unfolding known_at_def
  by (subst view_Some_iff) (auto simp: inv_basic view_of_def intro!: exI [of _ k])

text \<open>The block behind a handle, which the code reaches only through a locked pointer.\<close>

definition block_of :: "wsm \<Rightarrow> int \<Rightarrow> nat option" where
  "block_of s h = (case map_of (map (\<lambda>n. (sm_memH n, winH n)) (wsmSm s)) h of Some w \<Rightarrow> w | None \<Rightarrow> None)"

lemma block_of_nth:
  assumes "distinct (map sm_memH (wsmSm s))" "k < length (wsmSm s)" "sm_memH (wsmSm s ! k) = h"
  shows "block_of s h = winH (wsmSm s ! k)"
proof -
  have "(h, winH (wsmSm s ! k)) \<in> set (map (\<lambda>n. (sm_memH n, winH n)) (wsmSm s))"
    using assms(2,3) by auto
  moreover have "distinct (map fst (map (\<lambda>n. (sm_memH n, winH n)) (wsmSm s)))"
    using assms(1) by (simp add: comp_def)
  ultimately have "map_of (map (\<lambda>n. (sm_memH n, winH n)) (wsmSm s)) h = Some (winH (wsmSm s ! k))"
    by (rule map_of_is_SomeI [rotated])
  then show ?thesis by (simp add: block_of_def)
qed

lemma block_of_known:
  assumes "known_at s h v i k b"
  shows "block_of s h = Some b"
  using block_of_nth [of s k h] known_atD [OF assms] inv_basic(7) [of s] by simp

text \<open>The same block, with any contents: the form most operations use.\<close>

lemma known_update:
  assumes at: "known_at s h v i k b"
    and e': "pair_ok hp (int i + 1) e' n'" "memName n' = v_name v" "winH n' = Some b"
    and s': "globals s' = globals s" "initWasCalled s' = initWasCalled s" "wsmBuf s' = (wsmBuf s)[i := e']"
      "wsmSm s' = (wsmSm s)[k := n']" "heap s' = hp" "hnext s' = hnext s" "oom s' = oom s" "wsmIndex s' = int i"
    and hp: "hp = (heap s)(b \<mapsto> blk)"
  shows "wsm_inv s' \<and> wsm_view s' = (wsm_view s)(h \<mapsto>
    v\<lparr>v_block := blk, v_used := nat (usedBytes e'), v_locked := locked n'\<rparr>)"
proof -
  note a = known_atD [OF at]
  have n: "memName n' = memName (wsmSm s ! k)" using e'(2) a(8) by simp
  have f: "\<forall>c. c \<noteq> b \<longrightarrow> c \<noteq> b \<longrightarrow> hp c = heap s c" "b = b \<or> heap s b = None" by (simp_all add: hp)
  have d: "\<forall>c. hp c \<noteq> None \<longrightarrow> c < hnext s'"
    using inv_basic(10) [OF a(1)] a(14) by (auto simp: hp s'(6))
  have x: "0 \<le> wsmIndex s'" "wsmIndex s' < 4" using s'(8) a(3) by simp_all
  have "the (hp b) = blk" by (simp add: hp)
  then have eq: "\<lparr>v_name = memName n', v_block = the (hp b), v_used = nat (usedBytes e'), v_locked = locked n'\<rparr>
      = v\<lparr>v_block := blk, v_used := nat (usedBytes e'), v_locked := locked n'\<rparr>"
    using e'(2) by simp
  from inv_update [OF a(1) a(3) a(5) a(19) a(7) e'(1) n e'(3) f d s'(1-5,7) x, unfolded eq]
  show ?thesis by (simp only: a(2))
qed

lemma known_update_same:
  assumes at: "known_at s h v i k b"
    and e': "pair_ok (heap s) (int i + 1) e' n'" "memName n' = v_name v" "winH n' = Some b"
    and s': "globals s' = globals s" "initWasCalled s' = initWasCalled s" "wsmBuf s' = (wsmBuf s)[i := e']"
      "wsmSm s' = (wsmSm s)[k := n']" "heap s' = heap s" "hnext s' = hnext s" "oom s' = oom s" "wsmIndex s' = int i"
  shows "wsm_inv s'"
    and "wsm_view s' = (wsm_view s)(h \<mapsto> v\<lparr>v_used := nat (usedBytes e'), v_locked := locked n'\<rparr>)"
proof -
  have "heap s = (heap s)(b \<mapsto> v_block v)" using known_atD(14) [OF at] by auto
  from known_update [OF at e' s' this]
  show "wsm_inv s'"
    and "wsm_view s' = (wsm_view s)(h \<mapsto> v\<lparr>v_used := nat (usedBytes e'), v_locked := locked n'\<rparr>)"
    by simp_all
qed

lemmas wsm_simps = wsm_consts node_upd_def ptr_add_def ret_with_def Let_def

lemma wsmLockH_known:
  assumes inv: "wsm_inv s" and v: "wsm_view s h = Some v" and pos: "pos \<noteq> Other_item"
  shows "\<exists>r p s'. wsmLockH h pos pMem s = Some (r, p, s') \<and> wsm_inv s'
    \<and> (if v_locked v then r = SML_ERR_WRONG_USAGE \<and> wsm_view s' = wsm_view s
       else r = SML_ERR_OK \<and> wsm_view s' = (wsm_view s)(h \<mapsto> v\<lparr>v_locked := True\<rparr>)
         \<and> p = (block_of s' h, if pos = SML_FIRST_FREE_ITEM then int (v_used v) else 0))"
proof -
  from known_op [OF inv v] obtain i k b where at: "known_at s h v i k b" .
  note a = known_atD [OF at]
  show ?thesis
  proof (cases "v_locked v")
    case True
    then show ?thesis
      using a(2-6,10) inv
      by (simp add: wsmLockH_def wsm_simps handle_at_steps [where h = "int i + 1" and i = i and k = k])
  next
    case False
    let ?e = "(wsmBuf s ! i)\<lparr>pFirstData := (Some b, 0), pFirstFree := (Some b, int (v_used v)), flags := 3\<rparr>"
    let ?n = "(wsmSm s ! k)\<lparr>locked := True\<rparr>"
    have p: "pair_ok (heap s) (int i + 1) ?e ?n" using a(7,15,19) by (auto simp: pair_ok_def)
    have "\<exists>q s'. wsmLockH h pos pMem s = Some (SML_ERR_OK, q, s')
       \<and> q = (Some b, if pos = SML_FIRST_FREE_ITEM then int (v_used v) else 0)
       \<and> globals s' = globals s \<and> initWasCalled s' = initWasCalled s \<and> wsmBuf s' = (wsmBuf s)[i := ?e]
       \<and> wsmSm s' = (wsmSm s)[k := ?n] \<and> heap s' = heap s \<and> hnext s' = hnext s \<and> oom s' = oom s \<and> wsmIndex s' = int i"
      using False a(2-15) pos
      by (cases pos) (simp_all add: wsmLockH_def smLock_def
          wsm_simps handle_at_steps [where h = "int i + 1" and i = i and k = k])
    then obtain q s' where s': "wsmLockH h pos pMem s = Some (SML_ERR_OK, q, s')"
       "q = (Some b, if pos = SML_FIRST_FREE_ITEM then int (v_used v) else 0)"
       "globals s' = globals s" "initWasCalled s' = initWasCalled s" "wsmBuf s' = (wsmBuf s)[i := ?e]"
       "wsmSm s' = (wsmSm s)[k := ?n]" "heap s' = heap s" "hnext s' = hnext s" "oom s' = oom s" "wsmIndex s' = int i"
      by blast
    note upd = known_update_same [OF at p _ _ s'(3-)]
    have i': "wsm_view s' = (wsm_view s)(h \<mapsto> v\<lparr>v_locked := True\<rparr>)" "wsm_inv s'"
      using upd a(7,8,15) by simp_all
    have "block_of s' h = Some b"
      using block_of_nth [of s' k h] inv_basic(7) [OF i'(2)] s'(6) a(2,5,7,12) by simp
    with s' i' False show ?thesis by simp
  qed
qed

lemma wsmUnlockH_known:
  assumes inv: "wsm_inv s" and v: "wsm_view s h = Some v"
  shows "\<exists>r s'. wsmUnlockH h s = Some (r, s') \<and> wsm_inv s'
    \<and> (if v_locked v then r = SML_ERR_OK \<and> wsm_view s' = (wsm_view s)(h \<mapsto> v\<lparr>v_locked := False\<rparr>)
       else r = SML_ERR_WRONG_USAGE \<and> wsm_view s' = wsm_view s)"
proof -
  from known_op [OF inv v] obtain i k b where at: "known_at s h v i k b" .
  note a = known_atD [OF at]
  show ?thesis
  proof (cases "v_locked v")
    case False
    then show ?thesis
      using a(2-6,10) inv
      by (simp add: wsmUnlockH_def wsm_simps handle_at_steps [where h = "int i + 1" and i = i and k = k])
  next
    case True
    let ?e = "(wsmBuf s ! i)\<lparr>pFirstData := NULL, pFirstFree := NULL, flags := 1\<rparr>"
    let ?n = "(wsmSm s ! k)\<lparr>locked := False\<rparr>"
    have p: "pair_ok (heap s) (int i + 1) ?e ?n" using a(7,15,19) by (auto simp: pair_ok_def)
    have "\<exists>s'. wsmUnlockH h s = Some (SML_ERR_OK, s')
       \<and> globals s' = globals s \<and> initWasCalled s' = initWasCalled s \<and> wsmBuf s' = (wsmBuf s)[i := ?e]
       \<and> wsmSm s' = (wsmSm s)[k := ?n] \<and> heap s' = heap s \<and> hnext s' = hnext s \<and> oom s' = oom s \<and> wsmIndex s' = int i"
      using True a(2-15)
      by (simp add: wsmUnlockH_def smUnlock_def
          wsm_simps handle_at_steps [where h = "int i + 1" and i = i and k = k])
    then obtain s' where s': "wsmUnlockH h s = Some (SML_ERR_OK, s')"
       "globals s' = globals s" "initWasCalled s' = initWasCalled s" "wsmBuf s' = (wsmBuf s)[i := ?e]"
       "wsmSm s' = (wsmSm s)[k := ?n]" "heap s' = heap s" "hnext s' = hnext s" "oom s' = oom s" "wsmIndex s' = int i"
      by blast
    note upd = known_update_same [OF at p _ _ s'(2-)]
    have "wsm_view s' = (wsm_view s)(h \<mapsto> v\<lparr>v_locked := False\<rparr>)" "wsm_inv s'"
      using upd a(7,8,15) by simp_all
    with s' True show ?thesis by simp
  qed
qed

lemma s32_in_range: "- (2 ^ 31) \<le> x \<Longrightarrow> x < 2 ^ 31 \<Longrightarrow> s32 x = Some x"
  by (simp add: s32_def)

lemma wsmSizes_known:
  assumes inv: "wsm_inv s" and v: "wsm_view s h = Some v"
  shows "\<exists>s'. wsmGetUsedSize h out s = Some (SML_ERR_OK, int (v_used v), s') \<and> wsm_inv s' \<and> wsm_view s' = wsm_view s"
    and "\<exists>s'. wsmGetFreeSize h out s = Some (SML_ERR_OK, int (length (v_block v) - v_used v), s')
      \<and> wsm_inv s' \<and> wsm_view s' = wsm_view s"
proof -
  from known_op [OF inv v] obtain i k b where at: "known_at s h v i k b" .
  note a = known_atD [OF at]
  have x: "s32 (int (length (v_block v)) - int (v_used v)) = Some (int (length (v_block v) - v_used v))"
    using a(17,18) by (subst s32_in_range) auto
  show "\<exists>s'. wsmGetUsedSize h out s = Some (SML_ERR_OK, int (v_used v), s') \<and> wsm_inv s' \<and> wsm_view s' = wsm_view s"
    and "\<exists>s'. wsmGetFreeSize h out s = Some (SML_ERR_OK, int (length (v_block v) - v_used v), s')
      \<and> wsm_inv s' \<and> wsm_view s' = wsm_view s"
    using a(2-6,10,15,16) inv
    by (simp_all add: wsmGetUsedSize_def wsmGetFreeSize_def x wsm_simps
        handle_at_steps [where h = "int i + 1" and i = i and k = k] split: if_splits)
qed

lemma wsmSetUsedSize_known:
  assumes inv: "wsm_inv s" and v: "wsm_view s h = Some v" and n: "n < 2 ^ 31"
  shows "\<exists>r s'. wsmSetUsedSize h (int n) s = Some (r, s') \<and> wsm_inv s'
    \<and> (if \<not> v_locked v then r = SML_ERR_WRONG_USAGE \<and> wsm_view s' = wsm_view s
       else if length (v_block v) - v_used v < n then r = SML_ERR_INVALID_SIZE \<and> wsm_view s' = wsm_view s
       else r = SML_ERR_OK \<and> wsm_view s' = (wsm_view s)(h \<mapsto> v\<lparr>v_used := v_used v + n\<rparr>))"
proof -
  from known_op [OF inv v] obtain i k b where at: "known_at s h v i k b" .
  note a = known_atD [OF at]
  have x: "s32 (int (length (v_block v)) - int (v_used v)) = Some (int (length (v_block v) - v_used v))"
    using a(17,18) by (subst s32_in_range) auto
  consider "\<not> v_locked v" | "v_locked v" "length (v_block v) - v_used v < n"
    | "v_locked v" "n \<le> length (v_block v) - v_used v" by linarith
  then show ?thesis
  proof cases
    case 1
    then show ?thesis
      using a(2-6,10) inv
      by (simp add: wsmSetUsedSize_def wsm_simps handle_at_steps [where h = "int i + 1" and i = i and k = k])
  next
    case 2
    then show ?thesis
      using a(2-6,10,15,16) inv
      by (simp add: wsmSetUsedSize_def x wsm_simps handle_at_steps [where h = "int i + 1" and i = i and k = k])
  next
    case 3
    then have le: "v_used v + n \<le> length (v_block v)" using a(17) by linarith
    then have y: "s32 (int (v_used v) + int n) = Some (int (v_used v + n))"
      using a(18) by (subst s32_in_range) auto
    let ?e = "(wsmBuf s ! i)\<lparr>usedBytes := int (v_used v + n), pFirstFree := (Some b, int (v_used v + n))\<rparr>"
    let ?n = "wsmSm s ! k"
    have fr: "pFirstFree (wsmBuf s ! i) = (Some b, int (v_used v))"
      using a(7,9,15,19) 3(1) by (simp add: pair_ok_def)
    have p: "pair_ok (heap s) (int i + 1) ?e ?n" using a(7,14,15,16,19) le by (auto simp: pair_ok_def)
    have "\<exists>s'. wsmSetUsedSize h (int n) s = Some (SML_ERR_OK, s')
       \<and> globals s' = globals s \<and> initWasCalled s' = initWasCalled s \<and> wsmBuf s' = (wsmBuf s)[i := ?e]
       \<and> wsmSm s' = (wsmSm s)[k := ?n] \<and> heap s' = heap s \<and> hnext s' = hnext s \<and> oom s' = oom s \<and> wsmIndex s' = int i"
      using 3 a(2-16) fr
      by (simp add: wsmSetUsedSize_def x y
          wsm_simps handle_at_steps [where h = "int i + 1" and i = i and k = k])
    then obtain s' where s': "wsmSetUsedSize h (int n) s = Some (SML_ERR_OK, s')"
       "globals s' = globals s" "initWasCalled s' = initWasCalled s" "wsmBuf s' = (wsmBuf s)[i := ?e]"
       "wsmSm s' = (wsmSm s)[k := ?n]" "heap s' = heap s" "hnext s' = hnext s" "oom s' = oom s" "wsmIndex s' = int i"
      by blast
    note upd = known_update_same [OF at p _ _ s'(2-)]
    have "wsm_view s' = (wsm_view s)(h \<mapsto> v\<lparr>v_used := v_used v + n\<rparr>)" "wsm_inv s'"
      using upd a(7,8,9) by (simp_all del: of_nat_add)
    with s' 3 show ?thesis by simp
  qed
qed

text \<open>The bytes that stay move to the front; the bytes behind them keep their value.\<close>

definition moved :: "nat \<Rightarrow> wview \<Rightarrow> byte option list" where
  "moved n v = drop n (v_data v) @ drop (v_used v - n) (v_block v)"

lemma wsmProcessedBytes_known:
  assumes inv: "wsm_inv s" and v: "wsm_view s h = Some v"
  shows "\<exists>r s'. wsmProcessedBytes h (int n) s = Some (r, s') \<and> wsm_inv s'
    \<and> (if \<not> v_locked v then r = SML_ERR_WRONG_USAGE \<and> wsm_view s' = wsm_view s
       else if v_used v < n then r = SML_ERR_INVALID_SIZE \<and> wsm_view s' = wsm_view s
       else r = SML_ERR_OK \<and> wsm_view s' = (wsm_view s)(h \<mapsto> v\<lparr>v_block := moved n v, v_used := v_used v - n\<rparr>))"
proof -
  from known_op [OF inv v] obtain i k b where at: "known_at s h v i k b" .
  note a = known_atD [OF at]
  consider "\<not> v_locked v" | "v_locked v" "v_used v < n" | "v_locked v" "n \<le> v_used v" by linarith
  then show ?thesis
  proof cases
    case 1
    then show ?thesis
      using a(2-6,10) inv
      by (simp add: wsmProcessedBytes_def wsm_simps handle_at_steps [where h = "int i + 1" and i = i and k = k])
  next
    case 2
    then show ?thesis
      using a(2-6,10,15,16) inv
      by (simp add: wsmProcessedBytes_def wsm_simps handle_at_steps [where h = "int i + 1" and i = i and k = k])
  next
    case 3
    then have y: "s32 (int (v_used v) - int n) = Some (int (v_used v - n))"
      using a(17,18) by (subst s32_in_range) auto
    let ?e = "(wsmBuf s ! i)\<lparr>usedBytes := int (v_used v - n), pFirstFree := (Some b, int (v_used v - n))\<rparr>"
    let ?n = "wsmSm s ! k"
    let ?hp = "(heap s)(b \<mapsto> moved n v)"
    have pt: "pFirstFree (wsmBuf s ! i) = (Some b, int (v_used v))" "pFirstData (wsmBuf s ! i) = (Some b, 0)"
      using a(7,9,15,19) 3(1) by (simp_all add: pair_ok_def)
    have len: "length (moved n v) = length (v_block v)"
      using 3(2) a(17) by (simp add: moved_def v_data_def)
    have p: "pair_ok ?hp (int i + 1) ?e ?n" using a(7,14,15,16,17,19) 3(2) len by (auto simp: pair_ok_def)
    have rd: "heap_read (Some b, int n) (int (v_used v - n)) s' = Some (drop n (v_data v))"
      if "heap s' = heap s" for s'
    proof (cases "v_used v = n")
      case True
      with a(17) show ?thesis by (simp add: heap_read_def v_data_def)
    next
      case False
      then have "take (v_used v - n) (drop n (v_block v)) = drop n (v_data v)" using 3(2)
        by (simp add: v_data_def drop_take)
      with False show ?thesis
        using that a(14,17) 3(2) by (simp add: heap_read_def of_nat_diff nat_diff_distrib)
    qed
    have rd: "heap_read (Some b, int n) (int (v_used v) - int n) s' = Some (drop n (v_data v))"
      if "heap s' = heap s" for s'
      using rd [OF that] 3(2) by (simp add: of_nat_diff)
    have wr: "\<exists>s''. heap_write (Some b, 0) (drop n (v_data v)) s' = Some s'' \<and> heap s'' = ?hp
        \<and> globals s'' = globals s' \<and> initWasCalled s'' = initWasCalled s' \<and> wsmBuf s'' = wsmBuf s'
        \<and> wsmSm s'' = wsmSm s' \<and> hnext s'' = hnext s' \<and> oom s'' = oom s' \<and> wsmIndex s'' = wsmIndex s'
        \<and> (handle_at s' (int i + 1) i k \<longrightarrow> handle_at s'' (int i + 1) i k)"
      if "heap s' = heap s" for s'
    proof (cases "drop n (v_data v) = []")
      case True
      with a(17) 3(2) have "v_used v = n" by (simp add: v_data_def)
      with True that a(14) show ?thesis
        by (auto simp: heap_write_def moved_def)
    next
      case False
      then show ?thesis
        using that a(14,17) 3(2) by (simp add: heap_write_def moved_def v_data_def)
    qed
    have "\<exists>s'. wsmProcessedBytes h (int n) s = Some (SML_ERR_OK, s')
       \<and> globals s' = globals s \<and> initWasCalled s' = initWasCalled s \<and> wsmBuf s' = (wsmBuf s)[i := ?e]
       \<and> wsmSm s' = (wsmSm s)[k := ?n] \<and> heap s' = ?hp \<and> hnext s' = hnext s \<and> oom s' = oom s \<and> wsmIndex s' = int i"
    proof -
      let ?s = "s\<lparr>wsmIndex := int i, wsmBuf := (wsmBuf s)[i := (wsmBuf s ! i)\<lparr>usedBytes := int (v_used v - n)\<rparr>]\<rparr>"
      obtain s'' where s'': "heap_write (Some b, 0) (drop n (v_data v)) ?s = Some s''" "heap s'' = ?hp"
        "globals s'' = globals s" "initWasCalled s'' = initWasCalled s" "wsmBuf s'' = wsmBuf ?s"
        "wsmSm s'' = wsmSm s" "hnext s'' = hnext s" "oom s'' = oom s" "wsmIndex s'' = int i" "handle_at s'' (int i + 1) i k"
        using wr [of ?s] a(4,6,13) by auto
      show ?thesis
        using 3 a(2-16) pt s''
        by (simp add: wsmProcessedBytes_def y rd
          wsm_simps handle_at_steps [where h = "int i + 1" and i = i and k = k] of_nat_diff)
    qed
    then obtain s' where s': "wsmProcessedBytes h (int n) s = Some (SML_ERR_OK, s')"
       "globals s' = globals s" "initWasCalled s' = initWasCalled s" "wsmBuf s' = (wsmBuf s)[i := ?e]"
       "wsmSm s' = (wsmSm s)[k := ?n]" "heap s' = ?hp" "hnext s' = hnext s" "oom s' = oom s" "wsmIndex s' = int i"
      by blast
    have "wsm_inv s' \<and> wsm_view s' = (wsm_view s)(h \<mapsto> v\<lparr>v_block := moved n v, v_used := v_used v - n\<rparr>)"
      using known_update [OF at p _ _ s'(2-) refl] a(7,8,9) by simp
    with s' 3 show ?thesis by simp
  qed
qed

lemma wsmReset_known:
  assumes inv: "wsm_inv s" and v: "wsm_view s h = Some v"
  shows "\<exists>s'. wsmReset h s = Some (SML_ERR_OK, s') \<and> wsm_inv s'
    \<and> wsm_view s' = (wsm_view s)(h \<mapsto> v\<lparr>v_used := 0\<rparr>)"
proof -
  from known_op [OF inv v] obtain i k b where at: "known_at s h v i k b" .
  note a = known_atD [OF at]
  let ?p = "ptr_add (pFirstFree (wsmBuf s ! i)) (- usedBytes (wsmBuf s ! i))"
  let ?e = "(wsmBuf s ! i)\<lparr>pFirstFree := ?p, pFirstData := ?p, usedBytes := 0\<rparr>"
  let ?n = "wsmSm s ! k"
  have p: "pair_ok (heap s) (int i + 1) ?e ?n" using a(7,14,15,16,19) by (auto simp: pair_ok_def ptr_add_def)
  have "\<exists>s'. wsmReset h s = Some (SML_ERR_OK, s')
       \<and> globals s' = globals s \<and> initWasCalled s' = initWasCalled s \<and> wsmBuf s' = (wsmBuf s)[i := ?e]
       \<and> wsmSm s' = (wsmSm s)[k := ?n] \<and> heap s' = heap s \<and> hnext s' = hnext s \<and> oom s' = oom s \<and> wsmIndex s' = int i"
    using a(2-16)
    by (simp add: wsmReset_def wsm_consts Let_def handle_at_steps [where h = "int i + 1" and i = i and k = k])
  then obtain s' where s': "wsmReset h s = Some (SML_ERR_OK, s')"
       "globals s' = globals s" "initWasCalled s' = initWasCalled s" "wsmBuf s' = (wsmBuf s)[i := ?e]"
       "wsmSm s' = (wsmSm s)[k := ?n]" "heap s' = heap s" "hnext s' = hnext s" "oom s' = oom s" "wsmIndex s' = int i"
    by blast
  note upd = known_update_same [OF at p _ _ s'(2-)]
  have "wsm_view s' = (wsm_view s)(h \<mapsto> v\<lparr>v_used := 0\<rparr>)" "wsm_inv s'"
    using upd a(7,8,9) by simp_all
  with s' show ?thesis by blast
qed

text \<open>A client writes into the free part of a locked buffer.\<close>

lemma heap_write_known:
  assumes inv: "wsm_inv s" and v: "wsm_view s h = Some v" and off: "off + length xs \<le> length (v_block v)"
  shows "\<exists>s'. heap_write (block_of s h, int off) xs s = Some s' \<and> wsm_inv s'
    \<and> wsm_view s' = (wsm_view s)(h \<mapsto>
        v\<lparr>v_block := take off (v_block v) @ xs @ drop (off + length xs) (v_block v)\<rparr>)"
proof -
  from known_op [OF inv v] obtain i k b where at: "known_at s h v i k b" .
  note a = known_atD [OF at]
  let ?blk = "take off (v_block v) @ xs @ drop (off + length xs) (v_block v)"
  let ?hp = "(heap s)(b \<mapsto> ?blk)"
  let ?s = "s\<lparr>heap := ?hp\<rparr>"
  have len: "length ?blk = length (v_block v)" using off by simp
  have p: "pair_ok ?hp (int i + 1) (wsmBuf s ! i) (wsmSm s ! k)"
    using a(7,14,15,16,17,19) len by (auto simp: pair_ok_def)
  have i': "wsm_inv (?s\<lparr>wsmIndex := int i\<rparr>) \<and> wsm_view (?s\<lparr>wsmIndex := int i\<rparr>) = (wsm_view s)(h \<mapsto> v\<lparr>v_block := ?blk\<rparr>)"
    using known_update [OF at p _ _ _ _ _ _ _ _ _ _ refl, of "?s\<lparr>wsmIndex := int i\<rparr>"] a(7,8,9,15) by simp
  have "?s\<lparr>wsmIndex := int i, wsmIndex := wsmIndex s\<rparr> = ?s" by simp
  then have "wsm_inv ?s"
    using inv_irrelevant(1) [OF inv_basic(4,5) [OF inv] i' [THEN conjunct1]] by (simp only:)
  moreover have "wsm_view ?s = (wsm_view s)(h \<mapsto> v\<lparr>v_block := ?blk\<rparr>)"
    using i' by simp
  moreover have "heap_write (block_of s h, int off) xs s = Some ?s"
  proof (cases "xs = []")
    case True
    with a(14) have "?hp = heap s" by auto
    with True show ?thesis by (simp add: heap_write_def)
  next
    case False
    with a(14) off show ?thesis by (simp add: heap_write_def block_of_known [OF at])
  qed
  ultimately show ?thesis by blast
qed

section \<open>Unknown handles\<close>

lemma isValidMemH_unknown:
  assumes inv: "wsm_inv s" and v: "wsm_view s h = None"
  shows "\<exists>s'. isValidMemH h s = Some (False, s') \<and> wsm_inv s' \<and> wsm_view s' = wsm_view s"
proof -
  note basic = inv_basic [OF inv]
  have free: "flags (wsmBuf s ! j) AND WSM_VALID_F = 0" if "j < 4" "memH (wsmBuf s ! j) = h" for j
  proof -
    have "\<not> pair_ok (heap s) (int j + 1) (wsmBuf s ! j) n" if "n \<in> set (wsmSm s)" for n
    proof
      assume "pair_ok (heap s) (int j + 1) (wsmBuf s ! j) n"
      then have "sm_memH n = h" using \<open>memH (wsmBuf s ! j) = h\<close> by (simp add: pair_ok_def)
      moreover obtain k where "k < length (wsmSm s)" "n = wsmSm s ! k" using \<open>n \<in> set (wsmSm s)\<close>
        by (auto simp: in_set_conv_nth)
      ultimately have "wsm_view s h = Some (view_of s n)" using view_Some_iff [OF basic(7)] by blast
      then show False using v by simp
    qed
    with inv that(1) have "free_ok (wsmBuf s ! j)" unfolding wsm_inv_def by blast
    then show ?thesis by (simp add: free_ok_def)
  qed
  consider "memH (wsmBuf s ! nat (wsmIndex s)) = h" | j where "memH (wsmBuf s ! nat (wsmIndex s)) \<noteq> h"
      "buf_index (\<lambda>e. memH e = h) (wsmBuf s) = Some j"
    | "memH (wsmBuf s ! nat (wsmIndex s)) \<noteq> h" "buf_index (\<lambda>e. memH e = h) (wsmBuf s) = None"
    by fastforce
  then show ?thesis
  proof cases
    case 1
    then show ?thesis
      using basic(1,3,4,5) inv free [of "nat (wsmIndex s)"] by (simp add: isValidMemH_def lookup_def buf_at_def)
  next
    case 2
    then show ?thesis
      using basic(1,3,4,5) inv free [of j] buf_index_Some [OF 2(2)]
      by (simp add: isValidMemH_def lookup_def buf_at_def)
  next
    case 3
    then show ?thesis
      using basic(1,3,4,5) inv by (simp add: isValidMemH_def lookup_def buf_at_def)
  qed
qed

lemma unknown_handle:
  assumes "wsm_inv s" and "wsm_view s h = None"
  shows "\<exists>s'. wsmLockH h pos p s = Some (SML_ERR_INVALID_HANDLE, p, s') \<and> wsm_inv s' \<and> wsm_view s' = wsm_view s"
    and "\<exists>s'. wsmUnlockH h s = Some (SML_ERR_INVALID_HANDLE, s') \<and> wsm_inv s' \<and> wsm_view s' = wsm_view s"
    and "\<exists>s'. wsmSetUsedSize h n s = Some (SML_ERR_INVALID_HANDLE, s') \<and> wsm_inv s' \<and> wsm_view s' = wsm_view s"
    and "\<exists>s'. wsmProcessedBytes h n s = Some (SML_ERR_INVALID_HANDLE, s') \<and> wsm_inv s' \<and> wsm_view s' = wsm_view s"
    and "\<exists>s'. wsmGetUsedSize h n s = Some (SML_ERR_INVALID_HANDLE, n, s') \<and> wsm_inv s' \<and> wsm_view s' = wsm_view s"
    and "\<exists>s'. wsmGetFreeSize h n s = Some (SML_ERR_INVALID_HANDLE, n, s') \<and> wsm_inv s' \<and> wsm_view s' = wsm_view s"
    and "\<exists>s'. wsmClose h s = Some (SML_ERR_INVALID_HANDLE, s') \<and> wsm_inv s' \<and> wsm_view s' = wsm_view s"
proof -
  from isValidMemH_unknown [OF assms] obtain s'
    where "isValidMemH h s = Some (False, s')" "wsm_inv s'" "wsm_view s' = wsm_view s" by blast
  then show "\<exists>s'. wsmLockH h pos p s = Some (SML_ERR_INVALID_HANDLE, p, s') \<and> wsm_inv s' \<and> wsm_view s' = wsm_view s"
    and "\<exists>s'. wsmUnlockH h s = Some (SML_ERR_INVALID_HANDLE, s') \<and> wsm_inv s' \<and> wsm_view s' = wsm_view s"
    and "\<exists>s'. wsmSetUsedSize h n s = Some (SML_ERR_INVALID_HANDLE, s') \<and> wsm_inv s' \<and> wsm_view s' = wsm_view s"
    and "\<exists>s'. wsmProcessedBytes h n s = Some (SML_ERR_INVALID_HANDLE, s') \<and> wsm_inv s' \<and> wsm_view s' = wsm_view s"
    and "\<exists>s'. wsmGetUsedSize h n s = Some (SML_ERR_INVALID_HANDLE, n, s') \<and> wsm_inv s' \<and> wsm_view s' = wsm_view s"
    and "\<exists>s'. wsmGetFreeSize h n s = Some (SML_ERR_INVALID_HANDLE, n, s') \<and> wsm_inv s' \<and> wsm_view s' = wsm_view s"
    and "\<exists>s'. wsmClose h s = Some (SML_ERR_INVALID_HANDLE, s') \<and> wsm_inv s' \<and> wsm_view s' = wsm_view s"
    by (simp_all add: wsmLockH_def wsmUnlockH_def wsmSetUsedSize_def wsmProcessedBytes_def
        wsmGetUsedSize_def wsmGetFreeSize_def wsmClose_def ret_with_def)
qed

section \<open>Removing a buffer\<close>

lemma distinct_map_mid: "distinct (map f (A @ m # B)) \<Longrightarrow> n \<in> set (A @ B) \<Longrightarrow> f n \<noteq> f m"
  by (force simp: image_iff)

lemma inv_remove:
  assumes at: "known_at s h v i k b" and e': "free_ok e'"
    and s': "globals s' = globals s" "initWasCalled s' = initWasCalled s" "wsmBuf s' = (wsmBuf s)[i := e']"
      "wsmSm s' = take k (wsmSm s) @ drop (Suc k) (wsmSm s)" "heap s' = (heap s)(b := None)"
      "hnext s' = hnext s" "oom s' = oom s" "0 \<le> wsmIndex s'" "wsmIndex s' < 4"
  shows "wsm_inv s' \<and> wsm_view s' = (wsm_view s)(h := None)"
proof -
  note a = known_atD [OF at]
  note basic = inv_basic [OF a(1)]
  define A where "A = take k (wsmSm s)"
  define B where "B = drop (Suc k) (wsmSm s)"
  define m where "m = wsmSm s ! k"
  have sm: "wsmSm s = A @ m # B" using a(5) by (simp add: A_def B_def m_def id_take_nth_drop)
  have sm': "wsmSm s' = A @ B" by (simp add: s'(4) A_def B_def)
  have m: "sm_memH m = int i + 1" "winH m = Some b" using a(7,12) by (simp_all add: m_def)
  have node: "\<exists>j<4. j \<noteq> i \<and> sm_memH n = int j + 1 \<and> pair_ok (heap s) (int j + 1) (wsmBuf s ! j) n
      \<and> pair_ok (heap s') (int j + 1) (wsmBuf s' ! j) n"
    if n: "n \<in> set (A @ B)" for n
  proof -
    from n sm have "n \<in> set (wsmSm s)" by auto
    then obtain j where j: "j < 4" "pair_ok (heap s) (int j + 1) (wsmBuf s ! j) n"
      using a(1) unfolding wsm_inv_def by blast
    have "sm_memH n \<noteq> sm_memH m" "winH n \<noteq> winH m"
      using distinct_map_mid [OF _ n] basic(7,9) sm by simp_all
    then have "j \<noteq> i" "winH n \<noteq> Some b" using j(2) m by (auto simp: pair_ok_def)
    then have "pair_ok (heap s') (int j + 1) (wsmBuf s ! j) n"
      using j(2) s'(5) by (auto intro: pair_ok_other_heap)
    moreover have "wsmBuf s' ! j = wsmBuf s ! j" using \<open>j \<noteq> i\<close> by (simp add: s'(3))
    moreover have "sm_memH n = int j + 1" using j(2) by (simp add: pair_ok_def)
    ultimately show ?thesis using j \<open>j \<noteq> i\<close> by (intro exI [of _ j]) simp
  qed
  have entries: "free_ok (wsmBuf s' ! j) \<or> (\<exists>n \<in> set (wsmSm s'). pair_ok (heap s') (int j + 1) (wsmBuf s' ! j) n)"
    if j: "j < 4" for j
  proof (cases "j = i \<or> free_ok (wsmBuf s ! j)")
    case True
    then show ?thesis using e' a(4) by (auto simp: s'(3) nth_list_update)
  next
    case False
    with a(1) j obtain n where n: "n \<in> set (wsmSm s)" "pair_ok (heap s) (int j + 1) (wsmBuf s ! j) n"
      unfolding wsm_inv_def by blast
    then have nh: "sm_memH n = int j + 1" by (simp add: pair_ok_def)
    with False m(1) have "n \<noteq> m" by auto
    with n(1) sm have AB: "n \<in> set (A @ B)" by simp
    from node [OF AB] obtain l where l: "sm_memH n = int l + 1"
      "pair_ok (heap s') (int l + 1) (wsmBuf s' ! l) n" by blast
    with nh have "l = j" by simp
    with l(2) AB show ?thesis unfolding sm' by blast
  qed
  have inv': "wsm_inv s'"
    unfolding wsm_inv_def
  proof (intro conjI allI impI ballI)
    show "\<exists>j<4. pair_ok (heap s') (int j + 1) (wsmBuf s' ! j) n" if "n \<in> set (wsmSm s')" for n
      using node [of n] that sm' by auto
    show "c < hnext s'" if "heap s' c \<noteq> None" for c
      using that basic(10) s'(5,6) by (auto split: if_splits)
    show "\<not> oom s' j" for j using basic(11) s'(7) by simp
    show "free_ok (wsmBuf s' ! j) \<or> (\<exists>n \<in> set (wsmSm s'). pair_ok (heap s') (int j + 1) (wsmBuf s' ! j) n)"
      if "j < 4" for j using entries [OF that] .
  qed (use basic(1-3,7-9) s'(1-3,8,9) sm sm' in simp_all)
  moreover have "wsm_view s' x = ((wsm_view s)(h := None)) x" for x
  proof -
    have eq: "map (\<lambda>n. (sm_memH n, view_of s' n)) (A @ B) = map (\<lambda>n. (sm_memH n, view_of s n)) (A @ B)"
    proof (rule map_cong [OF refl])
      fix n assume n: "n \<in> set (A @ B)"
      from node [OF n] obtain j where j: "j < 4" "j \<noteq> i" "sm_memH n = int j + 1"
        "pair_ok (heap s) (int j + 1) (wsmBuf s ! j) n" by blast
      have "winH n \<noteq> winH m" using distinct_map_mid [OF _ n] basic(9) sm by simp
      with m(2) j show "(sm_memH n, view_of s' n) = (sm_memH n, view_of s n)"
        by (auto simp: view_of_def s'(3,5) pair_ok_def)
    qed
    have "sm_memH m \<notin> sm_memH ` set A" "sm_memH m \<notin> sm_memH ` set B" using basic(7) sm by auto
    then have "map_of (map (\<lambda>n. (sm_memH n, view_of s n)) A) h = None"
      "map_of (map (\<lambda>n. (sm_memH n, view_of s n)) B) h = None"
      using m(1) a(2) by (auto simp: map_of_eq_None_iff)
    then show ?thesis
      unfolding wsm_view_def sm sm' eq using m(1) a(2)
      by (auto simp: map_add_def split: option.splits)
  qed
  ultimately show ?thesis by blast
qed

lemma name_index_buf: "name_index (Some nm) es = Some (buf_index (\<lambda>e. bufName e = Some nm) es)"
  by (induction es) (auto simp: str_eq_def split: option.splits)

lemma bufName_iff:
  assumes at: "known_at s h v i k b" and j: "j < 4"
  shows "bufName (wsmBuf s ! j) = Some (v_name v) \<longleftrightarrow> j = i"
proof
  assume nm: "bufName (wsmBuf s ! j) = Some (v_name v)"
  note a = known_atD [OF at]
  from a(1) j nm obtain n where n: "n \<in> set (wsmSm s)" "pair_ok (heap s) (int j + 1) (wsmBuf s ! j) n"
    unfolding wsm_inv_def by (auto simp: free_ok_def)
  then obtain l where l: "l < length (wsmSm s)" "n = wsmSm s ! l" by (auto simp: in_set_conv_nth)
  have "memName n = memName (wsmSm s ! k)" using nm n(2) a(8) by (simp add: pair_ok_def)
  then have "l = k" using inv_basic(8) [OF a(1)] l a(5) by (auto simp: distinct_conv_nth)
  then show "j = i" using n(2) l(2) a(12) by (simp add: pair_ok_def)
next
  assume "j = i" then show "bufName (wsmBuf s ! j) = Some (v_name v)"
    using known_atD(8,19) [OF at] by (simp add: pair_ok_def)
qed

lemma nameToHandle_known:
  assumes at: "known_at s h v i k b"
  shows "nameToHandle (Some (v_name v)) s = Some h"
proof -
  note a = known_atD [OF at]
  note basic = inv_basic [OF a(1)]
  have "buf_index (\<lambda>e. bufName e = Some (v_name v)) (wsmBuf s) = Some i"
    using a(4) bufName_iff [OF at] basic(3) by (intro buf_index_unique) auto
  moreover have "nat (wsmIndex s) = i" if "bufName (wsmBuf s ! nat (wsmIndex s)) = Some (v_name v)"
    using that bufName_iff [OF at, of "nat (wsmIndex s)"] basic(4,5) by simp
  ultimately show ?thesis
    using basic(1,3,4,5) a(2,13)
    by (auto simp: nameToHandle_def buf_at_def name_index_buf str_eq_def split: option.splits)
qed

lemma nameToHandle_unknown:
  assumes inv: "wsm_inv s" and nm: "\<forall>h v. wsm_view s h = Some v \<longrightarrow> v_name v \<noteq> nm"
  shows "nameToHandle (Some nm) s = Some (- 1)"
proof -
  note basic = inv_basic [OF inv]
  have no: "bufName (wsmBuf s ! j) \<noteq> Some nm" if j: "j < 4" for j
  proof
    assume e: "bufName (wsmBuf s ! j) = Some nm"
    with inv j obtain n where n: "n \<in> set (wsmSm s)" "pair_ok (heap s) (int j + 1) (wsmBuf s ! j) n"
      unfolding wsm_inv_def by (auto simp: free_ok_def)
    then obtain l where "l < length (wsmSm s)" "n = wsmSm s ! l" by (auto simp: in_set_conv_nth)
    then have "wsm_view s (sm_memH n) = Some (view_of s n)" using view_Some_iff [OF basic(7)] by blast
    moreover have "v_name (view_of s n) = nm" using e n(2) by (simp add: view_of_def pair_ok_def)
    ultimately show False using nm by blast
  qed
  then have "buf_index (\<lambda>e. bufName e = Some nm) (wsmBuf s) = None"
    using basic(3) by (auto simp: buf_index_None in_set_conv_nth)
  with no [of "nat (wsmIndex s)"] basic(1,3,4,5) show ?thesis
    by (auto simp: nameToHandle_def buf_at_def name_index_buf str_eq_def WSM_MEMH_UNUSED_def split: option.splits)
qed

lemma view_handle: "wsm_inv s \<Longrightarrow> wsm_view s h = Some v \<Longrightarrow> 1 \<le> h \<and> h \<le> 4"
  by (erule (1) known_op) (frule known_atD(2), drule known_atD(3), simp)

lemma wsmDestroy_unknown:
  assumes inv: "wsm_inv s" and nm: "\<forall>h v. wsm_view s h = Some v \<longrightarrow> v_name v \<noteq> nm"
  shows "\<exists>s'. wsmDestroy (Some nm) s = Some (SML_ERR_INVALID_HANDLE, s') \<and> wsm_inv s' \<and> wsm_view s' = wsm_view s"
proof -
  have "wsm_view s (- 1) = None" using view_handle [OF inv, of "- 1"] by (cases "wsm_view s (- 1)") auto
  from unknown_handle(7) [OF inv this] nameToHandle_unknown [OF assms] show ?thesis
    by (auto simp: wsmDestroy_def ret_with_def)
qed

text \<open>
  Closing frees the block and the table entry; the list node stays, with handle 0 and a pointer
  to the freed block. The code does not look at the lock.
\<close>

abbreviation closed_node :: "smWinList \<Rightarrow> smWinList" where
  "closed_node m \<equiv> m\<lparr>sm_memH := 0, locked := False, memSize := 0\<rparr>"

lemma wsmClose_known:
  assumes at: "known_at s h v i k b"
  shows "\<exists>s' e'. wsmClose h s = Some (SML_ERR_OK, s') \<and> free_ok e'
    \<and> globals s' = globals s \<and> initWasCalled s' = initWasCalled s \<and> wsmBuf s' = (wsmBuf s)[i := e']
    \<and> wsmSm s' = (wsmSm s)[k := closed_node (wsmSm s ! k)] \<and> heap s' = (heap s)(b := None)
    \<and> hnext s' = hnext s \<and> oom s' = oom s \<and> wsmIndex s' = int i \<and> maxWsmAvailMem s' = maxWsmAvailMem s"
proof -
  note a = known_atD [OF at]
  note basic = inv_basic [OF a(1)]
  let ?e = "(wsmBuf s ! i)\<lparr>memH := - 1, pFirstFree := NULL, pFirstData := NULL, bsize := 0,
      usedBytes := 0, flags := NOT WSM_VALID_F, bufName := None\<rparr>"
  let ?s1 = "s\<lparr>wsmIndex := int i, heap := (heap s)(b := None), wsmSm := (wsmSm s)[k := closed_node (wsmSm s ! k)]\<rparr>"
  let ?s2 = "?s1\<lparr>wsmIndex := int i, wsmBuf := (wsmBuf s)[i := ?e]\<rparr>"
  have c: "smClose h (s\<lparr>wsmIndex := int i\<rparr>) = Some (SML_ERR_OK, ?s1)"
    using a(2-14) by (simp add: smClose_def handle_at_steps [where h = "int i + 1" and i = i and k = k]
        block_free_def node_upd_def)
  have l: "lookup h ?s1 = Some (int i, ?s1\<lparr>wsmIndex := int i\<rparr>)"
    using basic(1,3) a(2,3) memH_iff [OF a(1,3,13)] by (intro lookup_at) auto
  then have d: "deleteBufferHandle h ?s1 = Some (0, ?s2)"
    using basic(1,3) a(2,3) by (simp add: deleteBufferHandle_def buf_upd_ok WSM_MEMH_UNUSED_def Let_def)
  have cl: "wsmClose h s = Some (SML_ERR_OK, ?s2\<lparr>wsmRet := SML_ERR_OK\<rparr>)"
    using a(2-6,10) c d
    by (simp add: wsmClose_def handle_at_steps [where h = "int i + 1" and i = i and k = k] wsm_consts ret_with_def)
  have "free_ok ?e" by (simp add: free_ok_def WSM_VALID_F_def)
  with cl show ?thesis by (intro exI [of _ "?s2\<lparr>wsmRet := SML_ERR_OK\<rparr>"] exI [of _ ?e]) simp
qed

lemma closed_located:
  assumes at: "known_at s h v i k b" and sm: "wsmSm s' = (wsmSm s)[k := closed_node (wsmSm s ! k)]"
  shows "locateEle (Some (v_name v)) s' = Some (Some k)"
proof -
  note a = known_atD [OF at]
  note basic = inv_basic [OF a(1)]
  have "\<forall>n \<in> set (wsmSm s'). live n"
    using basic(6) a(11) set_update_subset_insert [of "wsmSm s" k "closed_node (wsmSm s ! k)"] by (auto simp: sm)
  moreover have "distinct (map memName (wsmSm s'))"
    unfolding sm using basic(8) by (intro distinct_map_update) simp_all
  ultimately show ?thesis using a(5,8) by (intro locateEle_at) (simp_all add: sm)
qed

lemma wsmDestroy_known:
  assumes inv: "wsm_inv s" and v: "wsm_view s h = Some v"
  shows "\<exists>s'. wsmDestroy (Some (v_name v)) s = Some (SML_ERR_OK, s') \<and> wsm_inv s'
    \<and> wsm_view s' = (wsm_view s)(h := None)"
proof -
  from known_op [OF inv v] obtain i k b where at: "known_at s h v i k b" .
  note a = known_atD [OF at]
  from wsmClose_known [OF at] obtain s1 e' where s1: "wsmClose h s = Some (SML_ERR_OK, s1)" "free_ok e'"
    "globals s1 = globals s" "initWasCalled s1 = initWasCalled s" "wsmBuf s1 = (wsmBuf s)[i := e']"
    "wsmSm s1 = (wsmSm s)[k := closed_node (wsmSm s ! k)]" "heap s1 = (heap s)(b := None)"
    "hnext s1 = hnext s" "oom s1 = oom s" "wsmIndex s1 = int i" by blast
  note loc = closed_located [OF at s1(6)]
  let ?s' = "s1\<lparr>wsmSm := take k (wsmSm s) @ drop (Suc k) (wsmSm s), wsmRet := SML_ERR_OK\<rparr>"
  have "wsmDestroy (Some (v_name v)) s = Some (SML_ERR_OK, ?s')"
    using a(5) s1(1,6) loc by (simp add: wsmDestroy_def nameToHandle_known [OF at] smDestroy_def removeEle_def ret_with_def)
  then show ?thesis
    using inv_remove [OF at s1(2), of ?s'] s1 a(3) by simp
qed

section \<open>Adding a buffer\<close>

lemma inv_add:
  assumes inv: "wsm_inv s" and i: "i < 4" and free: "memH (wsmBuf s ! i) = - 1"
    and new: "pair_ok hp (int i + 1) e' n'" "winH n' = Some (hnext s)" "memName n' \<notin> memName ` set (wsmSm s)"
    and hp: "\<forall>c. c \<noteq> hnext s \<longrightarrow> hp c = heap s c"
    and s': "globals s' = globals s" "initWasCalled s' = initWasCalled s" "wsmBuf s' = (wsmBuf s)[i := e']"
      "wsmSm s' = wsmSm s @ [n']" "heap s' = hp" "hnext s' = Suc (hnext s)" "oom s' = oom s"
      "0 \<le> wsmIndex s'" "wsmIndex s' < 4"
  shows "wsm_inv s' \<and> wsm_view s' = (wsm_view s)(int i + 1 \<mapsto> \<lparr>v_name = memName n',
     v_block = the (hp (hnext s)), v_used = nat (usedBytes e'), v_locked = locked n'\<rparr>)"
proof -
  note basic = inv_basic [OF inv]
  have node: "\<exists>j<4. j \<noteq> i \<and> sm_memH n = int j + 1 \<and> pair_ok (heap s) (int j + 1) (wsmBuf s ! j) n
      \<and> pair_ok (heap s') (int j + 1) (wsmBuf s' ! j) n \<and> winH n \<noteq> Some (hnext s)"
    if n: "n \<in> set (wsmSm s)" for n
  proof -
    obtain j where j: "j < 4" "pair_ok (heap s) (int j + 1) (wsmBuf s ! j) n"
      using n inv unfolding wsm_inv_def by blast
    then have ji: "j \<noteq> i" "sm_memH n = int j + 1" using free by (auto simp: pair_ok_def)
    have w: "winH n \<noteq> Some (hnext s)" using j(2) basic(10) by (auto simp: pair_ok_def)
    then have "pair_ok (heap s') (int j + 1) (wsmBuf s ! j) n"
      using j(2) s'(5) hp by (auto intro: pair_ok_other_heap)
    moreover have "wsmBuf s' ! j = wsmBuf s ! j" using ji by (simp add: s'(3))
    ultimately show ?thesis using j ji w by (intro exI [of _ j]) simp
  qed
  have at_i: "pair_ok (heap s') (int i + 1) (wsmBuf s' ! i) n'"
    using new(1) s'(3,5) i basic(3) by simp
  have h': "sm_memH n' = int i + 1" using new(1) by (simp add: pair_ok_def)
  have entries: "free_ok (wsmBuf s' ! j) \<or> (\<exists>n \<in> set (wsmSm s'). pair_ok (heap s') (int j + 1) (wsmBuf s' ! j) n)"
    if j: "j < 4" for j
  proof (cases "j = i")
    case True
    then show ?thesis using at_i s'(4) by auto
  next
    case False
    then have same: "wsmBuf s' ! j = wsmBuf s ! j" by (simp add: s'(3))
    show ?thesis
    proof (cases "free_ok (wsmBuf s ! j)")
      case False
      with inv j obtain n where n: "n \<in> set (wsmSm s)" "pair_ok (heap s) (int j + 1) (wsmBuf s ! j) n"
        unfolding wsm_inv_def by blast
      then have nh: "sm_memH n = int j + 1" by (simp add: pair_ok_def)
      from node [OF n(1)] obtain l where "sm_memH n = int l + 1"
        "pair_ok (heap s') (int l + 1) (wsmBuf s' ! l) n" by blast
      with nh n(1) s'(4) show ?thesis by auto
    qed (simp add: same)
  qed
  have inv': "wsm_inv s'"
    unfolding wsm_inv_def
  proof (intro conjI allI impI ballI)
    show "\<exists>j<4. pair_ok (heap s') (int j + 1) (wsmBuf s' ! j) n" if "n \<in> set (wsmSm s')" for n
      using node [of n] that s'(4) at_i i by auto
    show "c < hnext s'" if "heap s' c \<noteq> None" for c
      using that basic(10) hp s'(5,6) by (cases "c = hnext s") (auto simp: less_Suc_eq)
    show "\<not> oom s' j" for j using basic(11) s'(7) by simp
    show "free_ok (wsmBuf s' ! j) \<or> (\<exists>n \<in> set (wsmSm s'). pair_ok (heap s') (int j + 1) (wsmBuf s' ! j) n)"
      if "j < 4" for j using entries [OF that] .
    show "distinct (map sm_memH (wsmSm s'))" using basic(7) node h' by (fastforce simp: s'(4))
    show "distinct (map winH (wsmSm s'))" using basic(9) node new(2) by (fastforce simp: s'(4))
  qed (use basic(1-3,8) s'(1-4,8,9) new(3) in simp_all)
  have eq: "map (\<lambda>n. (sm_memH n, view_of s' n)) (wsmSm s) = map (\<lambda>n. (sm_memH n, view_of s n)) (wsmSm s)"
  proof (rule map_cong [OF refl])
    fix n assume n: "n \<in> set (wsmSm s)"
    from node [OF n] obtain j where j: "j < 4" "j \<noteq> i" "sm_memH n = int j + 1" "winH n \<noteq> Some (hnext s)"
      "pair_ok (heap s) (int j + 1) (wsmBuf s ! j) n" by blast
    then obtain c where "winH n = Some c" "c \<noteq> hnext s" by (auto simp: pair_ok_def)
    with j hp show "(sm_memH n, view_of s' n) = (sm_memH n, view_of s n)"
      by (simp add: view_of_def s'(3,5))
  qed
  have "sm_memH n' \<notin> sm_memH ` set (wsmSm s)" using node h' by fastforce
  then have no: "map_of (map (\<lambda>n. (sm_memH n, view_of s n)) (wsmSm s)) (int i + 1) = None"
    using h' by (auto simp: map_of_eq_None_iff)
  have "view_of s' n' = \<lparr>v_name = memName n', v_block = the (hp (hnext s)), v_used = nat (usedBytes e'),
      v_locked = locked n'\<rparr>"
    using h' new(2) i basic(3) by (simp add: view_of_def s'(3,5))
  then have "wsm_view s' x = ((wsm_view s)(int i + 1 \<mapsto> \<lparr>v_name = memName n',
     v_block = the (hp (hnext s)), v_used = nat (usedBytes e'), v_locked = locked n'\<rparr>)) x" for x
    using no h' by (auto simp: wsm_view_def s'(4) eq map_add_def split: option.splits)
  with inv' show ?thesis by blast
qed

lemma first_unused_at:
  assumes "globals s = Live_globals" "i < length (wsmBuf s)" "memH (wsmBuf s ! i) = - 1"
    and "\<forall>l<i. memH (wsmBuf s ! l) \<noteq> - 1" and "j \<le> i"
  shows "first_unused 0 s j = Some i"
  using assms(5)
proof (induction "i - j" arbitrary: j)
  case 0
  with assms show ?case by (subst first_unused.simps) (simp add: buf_at_ok MAX_WSM_BUFFERS_def)
next
  case (Suc m)
  then have "j < i" "first_unused 0 s (Suc j) = Some i" by auto
  with assms show ?case by (subst first_unused.simps) (simp add: buf_at_ok MAX_WSM_BUFFERS_def)
qed

lemma names_view:
  assumes inv: "wsm_inv s"
  shows "nm \<in> memName ` set (wsmSm s) \<longleftrightarrow> (\<exists>h v. wsm_view s h = Some v \<and> v_name v = nm)"
proof
  assume "nm \<in> memName ` set (wsmSm s)"
  then obtain k where k: "k < length (wsmSm s)" "memName (wsmSm s ! k) = nm" by (auto simp: in_set_conv_nth)
  then have "wsm_view s (sm_memH (wsmSm s ! k)) = Some (view_of s (wsmSm s ! k))"
    using view_Some_iff [OF inv_basic(7) [OF inv]] by blast
  with k show "\<exists>h v. wsm_view s h = Some v \<and> v_name v = nm" by (force simp: view_of_def)
next
  assume "\<exists>h v. wsm_view s h = Some v \<and> v_name v = nm"
  then obtain h v where "wsm_view s h = Some v" "v_name v = nm" by blast
  with view_Some_iff [OF inv_basic(7) [OF inv]] show "nm \<in> memName ` set (wsmSm s)"
    by (auto simp: view_of_def)
qed

definition wsm_total :: "wsm \<Rightarrow> int" where
  "wsm_total s = sum_list (map bsize (filter (\<lambda>e. memH e \<noteq> - 1) (wsmBuf s)))"

lemma used_total_sum:
  assumes "\<forall>e \<in> set es. memH e \<noteq> - 1 \<longrightarrow> 0 \<le> bsize e \<and> bsize e < 2 ^ 29" "0 \<le> act"
    and "act + 2 ^ 29 * int (length (filter (\<lambda>e. memH e \<noteq> - 1) es)) < 2 ^ 31"
  shows "used_total act es = Some (act + sum_list (map bsize (filter (\<lambda>e. memH e \<noteq> - 1) es)))"
  using assms
proof (induction es arbitrary: act)
  case (Cons e es)
  then show ?case
  proof (cases "memH e = - 1")
    case False
    with Cons.prems have "s32 (act + bsize e) = Some (act + bsize e)" by (intro s32_in_range) auto
    moreover have "used_total (act + bsize e) es
        = Some (act + bsize e + sum_list (map bsize (filter (\<lambda>e. memH e \<noteq> - 1) es)))"
      using Cons.prems False by (intro Cons.IH) auto
    ultimately show ?thesis using False by (simp add: WSM_MEMH_UNUSED_def)
  qed (simp add: WSM_MEMH_UNUSED_def)
qed simp

lemma isMemAvailable_inv:
  assumes inv: "wsm_inv s" and n: "0 \<le> n" "n < 2 ^ 29" and i: "i < 4" "memH (wsmBuf s ! i) = - 1"
  shows "isMemAvailable n s = Some (maxWsmAvailMem s = 0 \<or> n + wsm_total s \<le> maxWsmAvailMem s)"
proof -
  note basic = inv_basic [OF inv]
  have "memH e \<noteq> - 1 \<longrightarrow> 0 \<le> bsize e \<and> bsize e < 2 ^ 29" if e: "e \<in> set (wsmBuf s)" for e
  proof -
    obtain j where "j < 4" "e = wsmBuf s ! j" using e basic(3) by (auto simp: in_set_conv_nth)
    with inv show ?thesis unfolding wsm_inv_def by (force simp: free_ok_def pair_ok_def)
  qed
  moreover have "length (filter (\<lambda>e. memH e \<noteq> - 1) (wsmBuf s)) < length (wsmBuf s)"
    using i basic(3) by (intro length_filter_less [of "wsmBuf s ! i"]) simp_all
  ultimately have "used_total n (wsmBuf s) = Some (n + wsm_total s)"
    unfolding wsm_total_def using n basic(3) by (intro used_total_sum) auto
  then show ?thesis by (simp add: isMemAvailable_def)
qed

end
