(* ===== verification/Toolkit_Spec.thy ===== *)
theory Toolkit_Spec
  imports Toolkit Wsm_Spec Encoder_Message
begin

text \<open>
  What the calls of the toolkit rely on: how the structure of an instance is found and updated, and what
  locking a workspace, writing a document into it and unlocking it amount to.
\<close>

section \<open>Instances\<close>

lemma instances_other [simp]:
  "instances (t\<lparr>tk_wsm := s\<rparr>) = instances t" "instances (t\<lparr>tk_tok := g\<rparr>) = instances t"
  "info_at a (t\<lparr>tk_wsm := s\<rparr>) = info_at a t" "info_at a (t\<lparr>tk_tok := g\<rparr>) = info_at a t"
  "findInfo iid (t\<lparr>tk_wsm := s\<rparr>) = findInfo iid t" "findInfo iid (t\<lparr>tk_tok := g\<rparr>) = findInfo iid t"
  by (simp_all add: instances_def info_at_def findInfo_def)

text \<open>The structure \<open>i\<close> belongs to the id and is at address \<open>a\<close>.\<close>

definition linked :: "'u toolkit \<Rightarrow> int \<Rightarrow> nat \<Rightarrow> 'u InstanceInfo \<Rightarrow> bool" where
  "linked t iid a i \<longleftrightarrow> findInfo iid t = Some (Some a) \<and> info_at a t = Some i"

definition set_info :: "nat \<Rightarrow> 'u InstanceInfo \<Rightarrow> 'u toolkit \<Rightarrow> 'u toolkit" where
  "set_info a i t =
     (case tk_anchor t of
        Ptr A \<Rightarrow> t\<lparr>tk_anchor := Ptr (A\<lparr>si_instances := upd_addr a (\<lambda>_. i) (si_instances A)\<rparr>)\<rparr>
      | _ \<Rightarrow> t)"

lemma set_info_fields [simp]:
  "tk_wsm (set_info a i t) = tk_wsm t" "tk_tok (set_info a i t) = tk_tok t" "tk_heap (set_info a i t) = tk_heap t"
  "tk_fill (set_info a i t) = tk_fill t" "tk_next (set_info a i t) = tk_next t"
  "set_info a i (t\<lparr>tk_wsm := s\<rparr>) = (set_info a i t)\<lparr>tk_wsm := s\<rparr>"
  "set_info a i (t\<lparr>tk_tok := g\<rparr>) = (set_info a i t)\<lparr>tk_tok := g\<rparr>"
  by (simp_all add: set_info_def split: cptr.split)

lemma find_addr_Some: "find_addr a is = Some i \<Longrightarrow> ii_addr i = a"
  by (induction "is") (auto split: if_splits)

lemma upd_addr_const: "find_addr a is = Some i \<Longrightarrow> upd_addr a f is = upd_addr a (\<lambda>_. f i) is"
  by (induction "is") (auto split: if_splits)

lemma upd_addr_keys:
  "find_addr a is = Some i \<Longrightarrow> ii_id i' = ii_id i \<Longrightarrow> ii_addr i' = a \<Longrightarrow>
     map (\<lambda>x. (ii_id x, ii_addr x)) (upd_addr a (\<lambda>_. i') is) = map (\<lambda>x. (ii_id x, ii_addr x)) is \<and>
     find_addr a (upd_addr a (\<lambda>_. i') is) = Some i'"
  by (induction "is") (auto split: if_splits)

lemma find_id_keys:
  "map (\<lambda>x. (ii_id x, ii_addr x)) is = map (\<lambda>x. (ii_id x, ii_addr x)) js \<Longrightarrow>
     map_option ii_addr (find_id iid is) = map_option ii_addr (find_id iid js)"
proof (induction "is" arbitrary: js)
  case (Cons i "is")
  then show ?case by (cases js) auto
qed simp

lemma linked_addr: "linked t iid a i \<Longrightarrow> ii_addr i = a"
  by (auto simp: linked_def info_at_def bind_eq_Some_conv dest: find_addr_Some)

lemma info_upd_linked: "linked t iid a i \<Longrightarrow> info_upd a f t = Some (set_info a (f i) t)"
  using upd_addr_const
  by (fastforce simp: linked_def info_at_def info_upd_def instances_def set_instances_def set_info_def deref_def
      bind_eq_Some_conv split: cptr.splits)

lemma linked_set:
  assumes "linked t iid a i" "ii_id i' = ii_id i" "ii_addr i' = a"
  shows "linked (set_info a i' t) iid a i'"
proof -
  from assms(1) obtain A where A: "tk_anchor t = Ptr A" "find_addr a (si_instances A) = Some i"
    "map_option ii_addr (find_id iid (si_instances A)) = Some a"
    by (auto simp: linked_def info_at_def findInfo_def instances_def deref_def bind_eq_Some_conv split: cptr.splits)
  from upd_addr_keys [OF A(2) assms(2,3)] A(3) show ?thesis
    using find_id_keys [of "upd_addr a (\<lambda>_. i') (si_instances A)" "si_instances A" iid]
    by (simp add: linked_def info_at_def findInfo_def instances_def deref_def set_info_def A(1))
qed

lemma linked_other [simp]:
  "linked (t\<lparr>tk_wsm := s\<rparr>) iid a i = linked t iid a i" "linked (t\<lparr>tk_tok := g\<rparr>) iid a i = linked t iid a i"
  by (simp_all add: linked_def)

lemma linked_with: "linked t iid a i \<Longrightarrow> with_info iid f t = f a t"
  by (simp add: with_info_def linked_def)

section \<open>Workspaces\<close>

text \<open>An unlocked workspace of \<open>cap\<close> bytes with the contents \<open>xs\<close>.\<close>

definition workspace :: "wsm \<Rightarrow> int \<Rightarrow> byte list \<Rightarrow> nat \<Rightarrow> bool" where
  "workspace s h xs cap \<longleftrightarrow> wsm_inv s \<and>
     (\<exists>v. wsm_view s h = Some v \<and> \<not> v_locked v \<and> v_data v = map Some xs \<and> length (v_block v) = cap)"

lemma lookup_keeps: "lookup h s = Some (i, s') \<Longrightarrow> wsmSm s' = wsmSm s \<and> heap s' = heap s"
  by (auto simp: lookup_def bind_eq_Some_conv split: if_splits option.splits)

lemma isValidMemH_keeps: "isValidMemH h s = Some (b, s') \<Longrightarrow> wsmSm s' = wsmSm s \<and> heap s' = heap s"
  by (auto simp: isValidMemH_def bind_eq_Some_conv split: if_splits dest: lookup_keeps)

lemma sizes_keep:
  "wsmGetUsedSize h n s = Some (r, m, s') \<Longrightarrow> wsmSm s' = wsmSm s \<and> heap s' = heap s"
  "wsmGetFreeSize h n s = Some (r, m, s') \<Longrightarrow> wsmSm s' = wsmSm s \<and> heap s' = heap s"
  by (auto simp: wsmGetUsedSize_def wsmGetFreeSize_def bind_eq_Some_conv Let_def split: if_splits
      dest!: isValidMemH_keeps lookup_keeps)

definition filled :: "'u toolkit \<Rightarrow> wview \<Rightarrow> byte list" where
  "filled t v = map (case_option (tk_fill t) (\<lambda>b. b)) (v_block v)"

lemma block_at_view:
  assumes "wsm_inv s" "wsm_view s h = Some v"
  shows "block_at (block_of s h, off) (t\<lparr>tk_wsm := s\<rparr>) = Some (filled t v, off)"
proof -
  from known_op [OF assms] obtain i k b where "known_at s h v i k b" .
  then show ?thesis using known_atD(14) block_of_known by (fastforce simp: block_at_def filled_def)
qed

lemma lock_read:
  assumes "wsm_inv (tk_wsm t)" "wsm_view (tk_wsm t) h = Some v" "\<not> v_locked v"
  shows "\<exists>s. smlLockReadBuffer h p0 n0 t = Some (SML_ERR_OK, (block_of s h, 0), int (v_used v), t\<lparr>tk_wsm := s\<rparr>) \<and>
    wsm_inv s \<and> wsm_view s = (wsm_view (tk_wsm t))(h \<mapsto> v\<lparr>v_locked := True\<rparr>)"
proof -
  from wsmLockH_known [OF assms(1,2), of SML_FIRST_DATA_ITEM p0] assms(3) obtain s1 where
    s1: "wsmLockH h SML_FIRST_DATA_ITEM p0 (tk_wsm t) = Some (SML_ERR_OK, (block_of s1 h, 0), s1)" "wsm_inv s1"
      "wsm_view s1 = (wsm_view (tk_wsm t))(h \<mapsto> v\<lparr>v_locked := True\<rparr>)" by auto
  then have "wsm_view s1 h = Some (v\<lparr>v_locked := True\<rparr>)" by simp
  from wsmSizes_known(1) [OF s1(2) this, of n0] obtain s2 where
    s2: "wsmGetUsedSize h n0 s1 = Some (SML_ERR_OK, int (v_used v), s2)" "wsm_inv s2" "wsm_view s2 = wsm_view s1" by auto
  with sizes_keep(1) [OF s2(1)] s1 show ?thesis
    by (intro exI [of _ s2]) (auto simp: smlLockReadBuffer_def lock_buffer_def block_of_def)
qed

lemma lock_write:
  assumes "wsm_inv (tk_wsm t)" "wsm_view (tk_wsm t) h = Some v" "\<not> v_locked v"
  shows "\<exists>s. smlLockWriteBuffer h p0 n0 t =
      Some (SML_ERR_OK, (block_of s h, int (v_used v)), int (length (v_block v) - v_used v), t\<lparr>tk_wsm := s\<rparr>) \<and>
    wsm_inv s \<and> wsm_view s = (wsm_view (tk_wsm t))(h \<mapsto> v\<lparr>v_locked := True\<rparr>)"
proof -
  from wsmLockH_known [OF assms(1,2), of SML_FIRST_FREE_ITEM p0] assms(3) obtain s1 where
    s1: "wsmLockH h SML_FIRST_FREE_ITEM p0 (tk_wsm t) = Some (SML_ERR_OK, (block_of s1 h, int (v_used v)), s1)" "wsm_inv s1"
      "wsm_view s1 = (wsm_view (tk_wsm t))(h \<mapsto> v\<lparr>v_locked := True\<rparr>)" by auto
  then have "wsm_view s1 h = Some (v\<lparr>v_locked := True\<rparr>)" by simp
  from wsmSizes_known(2) [OF s1(2) this, of n0] obtain s2 where
    s2: "wsmGetFreeSize h n0 s1 = Some (SML_ERR_OK, int (length (v_block v) - v_used v), s2)" "wsm_inv s2"
      "wsm_view s2 = wsm_view s1" by auto
  with sizes_keep(2) [OF s2(1)] s1 show ?thesis
    by (intro exI [of _ s2]) (auto simp: smlLockWriteBuffer_def lock_buffer_def block_of_def)
qed

lemma put_doc_view:
  assumes "wsm_inv s" "wsm_view s h = Some v" "length (doc_mem d) = length (v_block v)" "v_used v \<le> length (v_block v)"
  shows "\<exists>s'. (\<forall>t. put_doc (block_of s h, int (v_used v)) d (t\<lparr>tk_wsm := s\<rparr>) =
      Some (t\<lparr>tk_tok := doc_tok d, tk_wsm := s'\<rparr>)) \<and>
    wsm_inv s' \<and> wsm_view s' = (wsm_view s)(h \<mapsto>
      v\<lparr>v_block := take (v_used v) (v_block v) @ map Some (drop (v_used v) (doc_mem d))\<rparr>)"
proof -
  let ?xs = "map Some (drop (v_used v) (doc_mem d))"
  have "v_used v + length ?xs \<le> length (v_block v)" "drop (v_used v + length ?xs) (v_block v) = []"
    using assms(3,4) by simp_all
  with heap_write_known [OF assms(1,2), of "v_used v" ?xs] obtain s' where
    "heap_write (block_of s h, int (v_used v)) ?xs s = Some s'" "wsm_inv s'"
    "wsm_view s' = (wsm_view s)(h \<mapsto> v\<lparr>v_block := take (v_used v) (v_block v) @ ?xs\<rparr>)" by auto
  then show ?thesis by (intro exI [of _ s']) (simp add: put_doc_def)
qed

lemma unlock_write:
  assumes "wsm_inv s" "wsm_view s h = Some v" "v_locked v" "v_used v + n \<le> length (v_block v)"
  shows "\<exists>s'. (\<forall>t. smlUnlockWriteBuffer h (int n) (t\<lparr>tk_wsm := s\<rparr>) = Some (SML_ERR_OK, t\<lparr>tk_wsm := s'\<rparr>)) \<and>
    wsm_inv s' \<and> wsm_view s' = (wsm_view s)(h \<mapsto> v\<lparr>v_used := v_used v + n, v_locked := False\<rparr>)"
proof -
  from known_op [OF assms(1,2)] obtain i k b where "known_at s h v i k b" .
  from known_atD(18) [OF this] assms(4) have n: "n < 2 ^ 31" by simp
  have "\<exists>s1. (0 < n \<longrightarrow> wsmSetUsedSize h (int n) s = Some (SML_ERR_OK, s1)) \<and> (n = 0 \<longrightarrow> s1 = s) \<and>
      wsm_inv s1 \<and> wsm_view s1 = (wsm_view s)(h \<mapsto> v\<lparr>v_used := v_used v + n\<rparr>)"
  proof (cases "n = 0")
    case True
    with assms(1,2) show ?thesis by auto
  next
    case False
    from wsmSetUsedSize_known [OF assms(1,2) n] assms(3,4) False show ?thesis by auto
  qed
  then obtain s1 where s1: "0 < n \<longrightarrow> wsmSetUsedSize h (int n) s = Some (SML_ERR_OK, s1)" "n = 0 \<longrightarrow> s1 = s"
    "wsm_inv s1" "wsm_view s1 = (wsm_view s)(h \<mapsto> v\<lparr>v_used := v_used v + n\<rparr>)" by blast
  then have "wsm_view s1 h = Some (v\<lparr>v_used := v_used v + n\<rparr>)" by simp
  from wsmUnlockH_known [OF s1(3) this] assms(3) s1(4) obtain s2 where
    "wsmUnlockH h s1 = Some (SML_ERR_OK, s2)" "wsm_inv s2"
    "wsm_view s2 = (wsm_view s)(h \<mapsto> v\<lparr>v_used := v_used v + n, v_locked := False\<rparr>)" by auto
  with s1(1,2) show ?thesis by (cases "n = 0") (auto simp: smlUnlockWriteBuffer_def on_wsm_def)
qed

lemma unlock_read:
  assumes "wsm_inv s" "wsm_view s h = Some v" "v_locked v" "n \<le> v_used v"
  shows "\<exists>s'. (\<forall>t. smlUnlockReadBuffer h (int n) (t\<lparr>tk_wsm := s\<rparr>) = Some (SML_ERR_OK, t\<lparr>tk_wsm := s'\<rparr>)) \<and>
    wsm_inv s' \<and> wsm_view s' = (wsm_view s)(h \<mapsto> v\<lparr>v_block := moved n v, v_used := v_used v - n, v_locked := False\<rparr>)"
proof -
  from wsmProcessedBytes_known [OF assms(1,2), of n] assms(3,4) obtain s1 where
    s1: "wsmProcessedBytes h (int n) s = Some (SML_ERR_OK, s1)" "wsm_inv s1"
      "wsm_view s1 = (wsm_view s)(h \<mapsto> v\<lparr>v_block := moved n v, v_used := v_used v - n\<rparr>)" by auto
  then have "wsm_view s1 h = Some (v\<lparr>v_block := moved n v, v_used := v_used v - n\<rparr>)" by simp
  from wsmUnlockH_known [OF s1(2) this] assms(3) s1 show ?thesis by (auto simp: smlUnlockReadBuffer_def on_wsm_def)
qed

text \<open>One access of a writer: what it finds, and the workspace afterwards when it reports \<open>n\<close> bytes.\<close>

lemma write_session:
  assumes w: "workspace (tk_wsm t) h xs cap" and g: "tok_ready (tk_tok t)"
  obtains p n s d where
    "smlLockWriteBuffer h p0 n0 t = Some (SML_ERR_OK, p, n, t\<lparr>tk_wsm := s\<rparr>)"
    "snd p = int (length xs)" "snd p + n = int cap"
    "doc_in p (t\<lparr>tk_wsm := s\<rparr>) = Some d" "doc_ready (int cap) d" "length (doc_mem d) = cap" "doc_pos d = int (length xs)"
    "\<And>d' k. length (doc_mem d') = cap \<Longrightarrow> length xs + k \<le> cap \<Longrightarrow> \<exists>s1 s2.
       (\<forall>u :: 'u toolkit. put_doc p d' (u\<lparr>tk_wsm := s\<rparr>) = Some (u\<lparr>tk_tok := doc_tok d', tk_wsm := s1\<rparr>)) \<and>
       (\<forall>u :: 'u toolkit. smlUnlockWriteBuffer h (int k) (u\<lparr>tk_wsm := s1\<rparr>) = Some (SML_ERR_OK, u\<lparr>tk_wsm := s2\<rparr>)) \<and>
       workspace s2 h (xs @ take k (drop (length xs) (doc_mem d'))) cap"
proof -
  from w obtain v where v: "wsm_inv (tk_wsm t)" "wsm_view (tk_wsm t) h = Some v" "\<not> v_locked v" "v_data v = map Some xs"
    "length (v_block v) = cap" by (auto simp: workspace_def)
  from known_op [OF v(1,2)] obtain i k b where "known_at (tk_wsm t) h v i k b" .
  from known_atD(17) [OF this] v(4) have used: "v_used v = length xs" "length xs \<le> cap" 
    by (auto simp: v_data_def v(5) dest: arg_cong [where f = length])
  from lock_write [OF v(1-3), of p0 n0] used v(5) obtain s where
    s: "smlLockWriteBuffer h p0 n0 t = Some (SML_ERR_OK, (block_of s h, int (length xs)), int (cap - length xs), t\<lparr>tk_wsm := s\<rparr>)"
      "wsm_inv s" "wsm_view s = (wsm_view (tk_wsm t))(h \<mapsto> v\<lparr>v_locked := True\<rparr>)" by auto
  let ?d = "\<lparr>doc_mem = filled t (v\<lparr>v_locked := True\<rparr>), doc_pos = int (length xs), doc_tok = tk_tok t\<rparr>"
  have view: "wsm_view s h = Some (v\<lparr>v_locked := True\<rparr>)" by (simp add: s(3))
  have d: "doc_in (block_of s h, int (length xs)) (t\<lparr>tk_wsm := s\<rparr>) = Some ?d"
    by (simp add: doc_in_def block_at_view [OF s(2) view])
  have len: "length (filled t (v\<lparr>v_locked := True\<rparr>)) = cap" by (simp add: filled_def v(5))
  show ?thesis
  proof (rule that [OF s(1)])
    show "snd (block_of s h, int (length xs)) + int (cap - length xs) = int cap" using used by simp
    show "doc_in (block_of s h, int (length xs)) (t\<lparr>tk_wsm := s\<rparr>) = Some ?d" by (rule d)
    show "doc_ready (int cap) ?d" using g used len by (simp add: doc_ready_def)
    fix d' :: Doc and k
    assume d': "length (doc_mem d') = cap" "length xs + k \<le> cap"
    let ?v = "v\<lparr>v_locked := True, v_block := take (length xs) (v_block v) @ map Some (drop (length xs) (doc_mem d'))\<rparr>"
    from put_doc_view [OF s(2) view, of d'] d' used v(5) obtain s1 where
      s1: "\<forall>u :: 'u toolkit. put_doc (block_of s h, int (length xs)) d' (u\<lparr>tk_wsm := s\<rparr>) = Some (u\<lparr>tk_tok := doc_tok d', tk_wsm := s1\<rparr>)"
        "wsm_inv s1" "wsm_view s1 = (wsm_view (tk_wsm t))(h \<mapsto> ?v)" by (auto simp: s(3))
    have view1: "wsm_view s1 h = Some ?v" by (simp add: s1(3))
    from unlock_write [OF s1(2) view1, of k] d' used v(5) obtain s2 where
      s2: "\<forall>u :: 'u toolkit. smlUnlockWriteBuffer h (int k) (u\<lparr>tk_wsm := s1\<rparr>) = Some (SML_ERR_OK, u\<lparr>tk_wsm := s2\<rparr>)"
        "wsm_inv s2" "wsm_view s2 = (wsm_view s1)(h \<mapsto> ?v\<lparr>v_used := length xs + k, v_locked := False\<rparr>)" by auto
    have "workspace s2 h (xs @ take k (drop (length xs) (doc_mem d'))) cap"
      using s2(2) v(4,5) used d' by (auto simp: workspace_def s2(3) v_data_def take_map)
    with s1(1) s2(1) show "\<exists>s1 s2. (\<forall>u :: 'u toolkit. put_doc (block_of s h, int (length xs)) d' (u\<lparr>tk_wsm := s\<rparr>) =
          Some (u\<lparr>tk_tok := doc_tok d', tk_wsm := s1\<rparr>)) \<and>
       (\<forall>u :: 'u toolkit. smlUnlockWriteBuffer h (int k) (u\<lparr>tk_wsm := s1\<rparr>) = Some (SML_ERR_OK, u\<lparr>tk_wsm := s2\<rparr>)) \<and>
       workspace s2 h (xs @ take k (drop (length xs) (doc_mem d'))) cap" by blast
  qed (simp_all add: len)
qed

end
