(* ===== verification/Toolkit_Receive.thy ===== *)
theory Toolkit_Receive
  imports Toolkit_Spec Decoder_Message
begin

text \<open>
  Receiving: every command of the dispatcher takes its part of the document from the workspace and hands
  it to the function that the application has set for it.
\<close>

section \<open>One access\<close>

lemma read_session:
  assumes w: "workspace (tk_wsm t) h xs cap"
  obtains p s m where
    "smlLockReadBuffer h p0 n0 t = Some (SML_ERR_OK, p, int (length xs), t\<lparr>tk_wsm := s\<rparr>)"
    "block_at p (t\<lparr>tk_wsm := s\<rparr>) = Some (m, 0)" "doc_at m 0 (int (length xs)) xs"
    "\<And>n. n \<le> length xs \<Longrightarrow> \<exists>s'.
       (\<forall>u :: 'u toolkit. smlUnlockReadBuffer h (int n) (u\<lparr>tk_wsm := s\<rparr>) = Some (SML_ERR_OK, u\<lparr>tk_wsm := s'\<rparr>)) \<and>
       workspace s' h (drop n xs) cap"
proof -
  from w obtain v where v: "wsm_inv (tk_wsm t)" "wsm_view (tk_wsm t) h = Some v" "\<not> v_locked v" "v_data v = map Some xs"
    "length (v_block v) = cap" by (auto simp: workspace_def)
  from known_op [OF v(1,2)] obtain i k b where "known_at (tk_wsm t) h v i k b" .
  from known_atD(17) [OF this] v(4) have used: "v_used v = length xs" "length xs \<le> cap"
    by (auto simp: v_data_def v(5) dest: arg_cong [where f = length])
  from lock_read [OF v(1-3), of p0 n0] used obtain s where
    s: "smlLockReadBuffer h p0 n0 t = Some (SML_ERR_OK, (block_of s h, 0), int (length xs), t\<lparr>tk_wsm := s\<rparr>)"
      "wsm_inv s" "wsm_view s = (wsm_view (tk_wsm t))(h \<mapsto> v\<lparr>v_locked := True\<rparr>)" by auto
  have view: "wsm_view s h = Some (v\<lparr>v_locked := True\<rparr>)" by (simp add: s(3))
  let ?m = "filled t (v\<lparr>v_locked := True\<rparr>)"
  have "take (length xs) ?m = xs" using v(4) used
    by (simp add: filled_def v_data_def take_map del: map_map) (simp add: map_map comp_def)
  then have "doc_at ?m 0 (int (length xs)) xs" using used by (simp add: doc_at_def filled_def v(5))
  moreover have "\<exists>s'. (\<forall>u :: 'u toolkit. smlUnlockReadBuffer h (int n) (u\<lparr>tk_wsm := s\<rparr>) = Some (SML_ERR_OK, u\<lparr>tk_wsm := s'\<rparr>)) \<and>
      workspace s' h (drop n xs) cap" if n: "n \<le> length xs" for n
  proof -
    let ?w = "v\<lparr>v_block := moved n (v\<lparr>v_locked := True\<rparr>), v_used := length xs - n, v_locked := False\<rparr>"
    have "v_locked (v\<lparr>v_locked := True\<rparr>)" "n \<le> v_used (v\<lparr>v_locked := True\<rparr>)" using n used by simp_all
    from unlock_read [where ?'a = 'u, OF s(2) view this] used obtain s' where
      s': "\<forall>u :: 'u toolkit. smlUnlockReadBuffer h (int n) (u\<lparr>tk_wsm := s\<rparr>) = Some (SML_ERR_OK, u\<lparr>tk_wsm := s'\<rparr>)" "wsm_inv s'"
        "wsm_view s' = (wsm_view s)(h \<mapsto> ?w)" by auto
    then have "wsm_view s' h = Some ?w" by simp
    have "length (v_data v) = length xs" by (simp add: v(4))
    with n used v(4,5) have "take (length xs - n) (moved n (v\<lparr>v_locked := True\<rparr>)) = map Some (drop n xs)"
      "length (moved n (v\<lparr>v_locked := True\<rparr>)) = cap"
      by (simp_all add: moved_def v_data_def drop_map)
    with s' \<open>wsm_view s' h = Some ?w\<close> show ?thesis by (intro exI [of _ s']) (simp add: workspace_def v_data_def)
  qed
  ultimately show ?thesis using that [OF s(1) block_at_view [OF s(2) view]] by blast
qed

text \<open>The caller moves the rest of the document; the decoder goes on there.\<close>

lemma at_body_moved:
  assumes "at_body m pos E fl cur st es d" "doc_at m 0 E xs" "doc_at m' 0 E' (drop (nat pos) xs)"
  shows "at_body m' 0 E' fl cur st es d"
proof -
  have "doc_at m pos E bs \<Longrightarrow> drop (nat pos) xs = bs" for bs using assms(2) by (auto simp: doc_at_def)
  with assms(1,3) show ?thesis by (auto simp: at_body_def)
qed

lemma at_body_tok: "at_body m pos E fl cur st es d \<Longrightarrow> tok_ready (dec_tok d)"
proof -
  have "tok_ready (dec_tok d)" if "ahead_of K cur st es rest (rebuf m pos E d)" for K cur st es rest
    using that by (auto simp: ahead_of_def dec_ready_def scan_ready_def rebuf_def setBuf_def dec_tok_def)
  then show "at_body m pos E fl cur st es d \<Longrightarrow> tok_ready (dec_tok d)"
    unfolding at_body_def paused_def by blast
qed

lemma at_body_pos: "at_body m pos E fl cur st es d \<Longrightarrow> 0 \<le> pos \<and> pos \<le> E"
  by (auto simp: at_body_def doc_at_def)

text \<open>
  The contents are what the decoder expects: the events \<open>es\<close>, after the page of \<open>cur\<close> and with the tags of
  \<open>st\<close> open.
\<close>

definition reading :: "byte list \<Rightarrow> bool \<Rightarrow> SmlPcdataExtension \<Rightarrow> XltTagID list \<Rightarrow> wb_event list \<Rightarrow> XltDecoder \<Rightarrow> bool" where
  "reading xs fl cur st es d \<longleftrightarrow>
     (\<exists>m. doc_at m 0 (int (length xs)) xs \<and> at_body m 0 (int (length xs)) fl cur st es d)"

lemma reading_at:
  assumes "reading xs fl cur st es d" "doc_at m 0 (int (length xs)) xs"
  shows "at_body m 0 (int (length xs)) fl cur st es d"
  using assms at_body_moved [of _ 0 "int (length xs)" fl cur st es d xs m "int (length xs)"] by (auto simp: reading_def)

lemma reading_rest:
  assumes "at_body m pos (int (length xs)) fl cur st es d" "doc_at m 0 (int (length xs)) xs"
  shows "reading (drop (nat pos) xs) fl cur st es d"
proof -
  let ?ys = "drop (nat pos) xs"
  have "doc_at ?ys 0 (int (length ?ys)) ?ys" by (simp add: doc_at_def)
  with at_body_moved [OF assms this] show ?thesis by (auto simp: reading_def)
qed

text \<open>An instance that has read its header: the decoder uses the tables of the toolkit.\<close>

definition receiving :: "'u toolkit \<Rightarrow> int \<Rightarrow> nat \<Rightarrow> 'u InstanceInfo \<Rightarrow> XltDecoder \<Rightarrow> bool" where
  "receiving t iid a i d \<longleftrightarrow> linked t iid a i \<and> ii_decoder i = Some d \<and> dec_tok d = tk_tok t"

lemma wsm_last: "t\<lparr>tk_wsm := s, tk_tok := g\<rparr> = t\<lparr>tk_tok := g, tk_wsm := s\<rparr>"
  by simp

lemma with_tok_same: "with_tok (dec_tok d) d = d"
  by (simp add: with_tok_def dec_tok_def)

lemma set_decoder_linked:
  "linked t iid a i \<Longrightarrow> set_decoder a x t = Some (set_info a (i\<lparr>ii_decoder := x\<rparr>) t)"
  using info_upd_linked [of t iid a i] by (simp add: set_decoder_def)

lemma linked_decoder: "linked t iid a i \<Longrightarrow> linked (set_info a (i\<lparr>ii_decoder := x\<rparr>) t) iid a (i\<lparr>ii_decoder := x\<rparr>)"
  by (rule linked_set) (simp_all add: linked_addr)

text \<open>What \<open>mgrProcessNextCommand\<close> does when \<open>xltDecNext\<close> succeeds.\<close>

definition after_next ::
    "('u, 'w) app \<Rightarrow> int \<Rightarrow> nat \<Rightarrow> XltDecoder \<Rightarrow> SmlProtoElement \<Rightarrow> sml_elem option \<Rightarrow> 'u toolkit \<Rightarrow> 'w \<Rightarrow> ('u, 'w) run" where
  "after_next app iid a d pe c t w =
     (if xd_finished d
      then do { t \<leftarrow> set_decoder a None t; call_back app iid a endMessageFunc (Call_endMessage (xd_final d)) t w }
      else dispatch app iid a pe c t w)"

lemma command_read:
  assumes r: "receiving t iid a i d" and w: "workspace (tk_wsm t) iid xs cap"
  obtains m where "doc_at m 0 (int (length xs)) xs"
    "\<And>q pe c d'. xltDecNext m (int (length xs)) 0 SML_PE_UNDEF None d = Some (SML_ERR_OK, q, pe, c, d') \<Longrightarrow>
       0 \<le> q \<Longrightarrow> q \<le> int (length xs) \<Longrightarrow>
       \<exists>t'. receiving t' iid a (i\<lparr>ii_decoder := Some d'\<rparr>) d' \<and> workspace (tk_wsm t') iid (drop (nat q) xs) cap \<and>
            tk_heap t' = tk_heap t \<and> mgrProcessNextCommand app iid a t w0 = after_next app iid a d' pe c t' w0"
proof -
  have t: "linked t iid a i" "ii_decoder i = Some d" "dec_tok d = tk_tok t" using r by (simp_all add: receiving_def)
  obtain p s m where l: "smlLockReadBuffer iid NULL 0 t = Some (SML_ERR_OK, p, int (length xs), t\<lparr>tk_wsm := s\<rparr>)"
    "block_at p (t\<lparr>tk_wsm := s\<rparr>) = Some (m, 0)" "doc_at m 0 (int (length xs)) xs"
    and u: "\<And>n. n \<le> length xs \<Longrightarrow> \<exists>s'.
       (\<forall>u :: 'a toolkit. smlUnlockReadBuffer iid (int n) (u\<lparr>tk_wsm := s\<rparr>) = Some (SML_ERR_OK, u\<lparr>tk_wsm := s'\<rparr>)) \<and>
       workspace s' iid (drop n xs) cap"
    using read_session [OF w, of NULL 0] by blast
  show ?thesis
  proof (rule that [OF l(3)])
    fix q pe c d'
    assume x: "xltDecNext m (int (length xs)) 0 SML_PE_UNDEF None d = Some (SML_ERR_OK, q, pe, c, d')"
      and q: "0 \<le> q" "q \<le> int (length xs)"
    from u [of "nat q"] q nat_le_iff [of q "length xs"] obtain s' where
      s': "\<And>u :: 'a toolkit. smlUnlockReadBuffer iid q (u\<lparr>tk_wsm := s\<rparr>) = Some (SML_ERR_OK, u\<lparr>tk_wsm := s'\<rparr>)"
        "workspace s' iid (drop (nat q) xs) cap" by auto
    let ?i = "i\<lparr>ii_decoder := Some d'\<rparr>"
    let ?t = "(set_info a ?i t)\<lparr>tk_tok := dec_tok d', tk_wsm := s'\<rparr>"
    have "set_decoder a (Some d') (t\<lparr>tk_tok := dec_tok d', tk_wsm := s\<rparr>) =
        Some ((set_info a ?i t)\<lparr>tk_tok := dec_tok d', tk_wsm := s\<rparr>)"
      using set_decoder_linked [of "t\<lparr>tk_tok := dec_tok d', tk_wsm := s\<rparr>" iid a i "Some d'"] t(1) by simp
    then have "mgrProcessNextCommand app iid a t w0 = after_next app iid a d' pe c ?t w0"
      using t l(1,2) x s'(1) with_tok_same [of d]
      by (simp add: mgrProcessNextCommand_def after_next_def xltDecTerminate_def linked_def wsm_last)
    moreover have "receiving ?t iid a ?i d'"
      using linked_decoder [OF t(1), of "Some d'"] by (simp add: receiving_def)
    ultimately show "\<exists>t'. receiving t' iid a ?i d' \<and> workspace (tk_wsm t') iid (drop (nat q) xs) cap \<and>
        tk_heap t' = tk_heap t \<and> mgrProcessNextCommand app iid a t w0 = after_next app iid a d' pe c t' w0"
      using s'(2) by (intro exI [of _ ?t]) simp
  qed
qed

section \<open>The application\<close>

text \<open>
  An application that leaves the toolkit alone; \<open>act\<close> is what it answers to a call and what it does with its
  own state. It has set a function for every command.
\<close>

definition listener :: "('u, 'w) app \<Rightarrow> (nat \<Rightarrow> 'u \<Rightarrow> sml_call \<Rightarrow> 'w \<Rightarrow> ret \<times> 'w) \<Rightarrow> bool" where
  "listener app act \<longleftrightarrow> (\<forall>f iid u c t w. app f iid (Some u) c t w = Some (fst (act f u c w), t, snd (act f u c w)))"

text \<open>The function that an element belongs to.\<close>

definition handlers :: "(SmlProtoElement \<times> (SmlCallbacks \<Rightarrow> nat option)) list" where
  "handlers =
     [(SML_PE_SYNC_START, startSyncFunc), (SML_PE_SYNC_END, endSyncFunc), (SML_PE_ATOMIC_START, startAtomicFunc),
      (SML_PE_ATOMIC_END, endAtomicFunc), (SML_PE_SEQUENCE_START, startSequenceFunc), (SML_PE_SEQUENCE_END, endSequenceFunc),
      (SML_PE_ADD, addCmdFunc), (SML_PE_ALERT, alertCmdFunc), (SML_PE_DELETE, deleteCmdFunc), (SML_PE_GET, getCmdFunc),
      (SML_PE_PUT, putCmdFunc), (SML_PE_MAP, mapCmdFunc), (SML_PE_RESULTS, resultsCmdFunc), (SML_PE_STATUS, statusCmdFunc),
      (SML_PE_REPLACE, replaceCmdFunc), (SML_PE_COPY, copyCmdFunc), (SML_PE_EXEC, execCmdFunc), (SML_PE_SEARCH, searchCmdFunc)]"

definition all_set :: "SmlCallbacks \<Rightarrow> bool" where
  "all_set cb \<longleftrightarrow> startMessageFunc cb \<noteq> None \<and> endMessageFunc cb \<noteq> None \<and> (\<forall>(pe, fn) \<in> set handlers. fn cb \<noteq> None)"

text \<open>The calls that an element leads to: the function and its argument. The ends of groups have no content.\<close>

definition calls_of :: "SmlCallbacks \<Rightarrow> cmd \<Rightarrow> (nat \<times> sml_call) list" where
  "calls_of cb x = (case x of (pe, c) \<Rightarrow> (case map_of handlers pe of
     None \<Rightarrow> []
   | Some fn \<Rightarrow> [(the (fn cb), if pe \<in> {SML_PE_SYNC_END, SML_PE_SEQUENCE_END, SML_PE_ATOMIC_END} then Call_plain
                           else Call_content c)]))"

lemma callback_handler: "callback_of pe = map_of handlers pe"
  by (cases pe) (simp_all add: callback_of_def handlers_def)

lemma all_set_handler: "all_set cb \<Longrightarrow> callback_of pe = Some fn \<Longrightarrow> fn cb \<noteq> None"
  by (auto simp: all_set_def callback_handler dest: map_of_SomeD)

text \<open>The answer to a sequence of calls, which ends with the first call that is refused.\<close>

fun listen :: "(nat \<Rightarrow> 'u \<Rightarrow> sml_call \<Rightarrow> 'w \<Rightarrow> ret \<times> 'w) \<Rightarrow> 'u \<Rightarrow> (nat \<times> sml_call) list \<Rightarrow> 'w \<Rightarrow> ret \<times> 'w" where
  "listen act u [] w = (SML_ERR_OK, w)"
| "listen act u ((f, c) # cs) w =
     (let (rc, w) = act f u c w in if rc = SML_ERR_OK then listen act u cs w else (rc, w))"

lemma listen_single: "listen act u [(f, c)] w = act f u c w"
  by (auto split: prod.split)

lemma listen_append:
  "listen act u (cs @ ds) w =
     (if fst (listen act u cs w) = SML_ERR_OK then listen act u ds (snd (listen act u cs w)) else listen act u cs w)"
  by (induction act u cs w rule: listen.induct) (auto split: prod.split)

lemma command_callback:
  assumes "cmd_spec (pe, c) = Sp_ok es" "pred_option good_elem c"
  shows "callback_of pe \<noteq> None"
proof (cases "pe \<in> starts \<or> pe \<in> ends")
  case True
  then show ?thesis by (auto simp: starts_def ends_def callback_of_def)
next
  case False
  obtain x where x: "c = Some x" "content_spec (pe_tag pe) REQUIRED x = Sp_ok es" using cmd_content [OF assms(1)] False by blast
  from complete_command [OF x(2), of undefined] False assms(2) x(1) obtain B where "map_of getPETable (pe_tag pe) = Some (pe, B)" by auto
  then have "pe \<in> fst ` snd ` set getPETable" by (force dest: map_of_SomeD)
  then show ?thesis by (auto simp: getPETable_def callback_of_def)
qed

lemma call_back_listens:
  assumes "listener app act" "linked t iid a i" "ii_callbacks i = Ptr cb" "fn cb \<noteq> None"
    and "r = listen act (ii_userData i) [(the (fn cb), c)] w"
  shows "call_back app iid a fn c t w = Some (fst r, t, snd r)"
  using assms by (auto simp: call_back_def tk_callbacks_def linked_def deref_def listener_def listen_single simp del: listen.simps)

lemma dispatch_listens:
  assumes "listener app act" "linked t iid a i" "ii_callbacks i = Ptr cb" "all_set cb" "callback_of pe \<noteq> None"
    and "r = listen act (ii_userData i) (calls_of cb (pe, c)) w"
  shows "dispatch app iid a pe c t w = Some (fst r, t, snd r)"
proof -
  have "pe \<noteq> SML_PE_FINAL" using assms(5) by (auto simp: callback_of_def)
  with assms(5,6) all_set_handler [OF assms(4)] call_back_listens [OF assms(1-3) _ refl] show ?thesis
    by (auto simp: dispatch_def calls_of_def callback_handler [symmetric] simp del: listen.simps)
qed

text \<open>Every error path leaves an empty workspace, unlocked, and no decoder.\<close>

lemma abort_clean:
  assumes t: "linked t iid a i" and v: "wsm_inv (tk_wsm t)" "wsm_view (tk_wsm t) iid = Some v" "length (v_block v) = cap"
  shows "\<exists>t'. abort_decoding iid a t = Some t' \<and> linked t' iid a (i\<lparr>ii_decoder := None\<rparr>) \<and>
    workspace (tk_wsm t') iid [] cap \<and> tk_heap t' = tk_heap t"
proof -
  have "\<exists>r s1. smlUnlockReadBuffer iid 0 t = Some (r, t\<lparr>tk_wsm := s1\<rparr>) \<and> wsm_inv s1 \<and>
      (\<exists>v1. wsm_view s1 iid = Some v1 \<and> \<not> v_locked v1 \<and> length (v_block v1) = cap)"
  proof (cases "v_locked v")
    case True
    from unlock_read [where ?'a = 'a, OF v(1,2) True, of 0] obtain s1 where
      s1: "\<forall>u :: 'a toolkit. smlUnlockReadBuffer iid 0 (u\<lparr>tk_wsm := tk_wsm t\<rparr>) = Some (SML_ERR_OK, u\<lparr>tk_wsm := s1\<rparr>)" "wsm_inv s1"
      "wsm_view s1 = (wsm_view (tk_wsm t))(iid \<mapsto> v\<lparr>v_block := moved 0 v, v_used := v_used v - 0, v_locked := False\<rparr>)" by auto
    from known_op [OF v(1,2)] obtain j k b where "known_at (tk_wsm t) iid v j k b" .
    from known_atD(17) [OF this] v(3) have "length (moved 0 v) = cap" by (simp add: moved_def v_data_def)
    with s1(2,3) spec [OF s1(1), of t] show ?thesis by auto
  next
    case False
    from wsmProcessedBytes_known [OF v(1,2), of 0] False obtain s1 where
      "wsmProcessedBytes iid 0 (tk_wsm t) = Some (SML_ERR_WRONG_USAGE, s1)" "wsm_inv s1" "wsm_view s1 = wsm_view (tk_wsm t)" by auto
    with v(2,3) False show ?thesis by (auto simp: smlUnlockReadBuffer_def on_wsm_def)
  qed
  then obtain r s1 v1 where s1: "smlUnlockReadBuffer iid 0 t = Some (r, t\<lparr>tk_wsm := s1\<rparr>)" "wsm_inv s1"
    "wsm_view s1 iid = Some v1" "\<not> v_locked v1" "length (v_block v1) = cap" by blast
  from wsmReset_known [OF s1(2,3)] obtain s2 where
    s2: "wsmReset iid s1 = Some (SML_ERR_OK, s2)" "wsm_inv s2" "wsm_view s2 = (wsm_view s1)(iid \<mapsto> v1\<lparr>v_used := 0\<rparr>)" by blast
  let ?i = "i\<lparr>ii_decoder := None\<rparr>"
  have "set_decoder a None (t\<lparr>tk_wsm := s1\<rparr>) = Some ((set_info a ?i t)\<lparr>tk_wsm := s1\<rparr>)"
    using set_decoder_linked [of "t\<lparr>tk_wsm := s1\<rparr>" iid a i None] t by simp
  with s1(1) s2(1) have "abort_decoding iid a t = Some ((set_info a ?i t)\<lparr>tk_wsm := s2\<rparr>)"
    by (simp add: abort_decoding_def mgrResetWorkspace_def on_wsm_def)
  moreover have "workspace s2 iid [] cap" using s2(2,3) s1(4,5) by (simp add: workspace_def v_data_def)
  ultimately show ?thesis using linked_decoder [OF t, of None] by simp
qed

lemma workspace_view:
  assumes "workspace s h xs cap"
  obtains v where "wsm_inv s" "wsm_view s h = Some v" "length (v_block v) = cap"
  using assms by (auto simp: workspace_def)

section \<open>The calls of the dispatcher\<close>

lemma deliver_command:
  assumes t: "receiving t iid a i d" "workspace (tk_wsm t) iid xs cap" and cb: "ii_callbacks i = Ptr cb" "all_set cb"
    and app: "listener app act"
    and es: "cmd_spec (pe, c) = Sp_ok es" and wf: "wf_cmds st ((pe, c) # cs)" and bs: "cmds_spec cs = Sp_ok bs"
    and plain: "plain_ext (ext_after cur es)" and len: "length st + 2 + length es < 2 ^ 31 - 25"
    and x: "reading xs fl cur st (es @ bs @ cl) d"
    and a: "r = listen act (ii_userData i) (calls_of cb (nrm_cmd (pe, c))) w"
  shows "\<exists>t' d' ys st'. mgrProcessNextCommand app iid a t w = Some (fst r, t', snd r) \<and>
    receiving t' iid a (i\<lparr>ii_decoder := Some d'\<rparr>) d' \<and> workspace (tk_wsm t') iid ys cap \<and> tk_heap t' = tk_heap t \<and>
    reading ys fl (ext_after cur es) st' (bs @ cl) d' \<and> wf_cmds st' cs \<and> length st' \<le> length st + length es"
proof -
  obtain m where m: "doc_at m 0 (int (length xs)) xs"
    and n: "\<And>q pe c d'. xltDecNext m (int (length xs)) 0 SML_PE_UNDEF None d = Some (SML_ERR_OK, q, pe, c, d') \<Longrightarrow>
       0 \<le> q \<Longrightarrow> q \<le> int (length xs) \<Longrightarrow>
       \<exists>t'. receiving t' iid a (i\<lparr>ii_decoder := Some d'\<rparr>) d' \<and> workspace (tk_wsm t') iid (drop (nat q) xs) cap \<and>
            tk_heap t' = tk_heap t \<and> mgrProcessNextCommand app iid a t w = after_next app iid a d' pe c t' w"
    using command_read [OF t, of app w] by blast
  from xltDecNext_command [OF es wf bs plain len reading_at [OF x m], of SML_PE_UNDEF] obtain st' q d' where
    d': "xltDecNext m (int (length xs)) 0 SML_PE_UNDEF None d = Some (SML_ERR_OK, q, pe, snd (nrm_cmd (pe, c)), d')"
      "at_body m q (int (length xs)) fl (ext_after cur es) st' (bs @ cl) d'" "wf_cmds st' cs" "length st' \<le> length st + length es"
    by blast
  let ?i = "i\<lparr>ii_decoder := Some d'\<rparr>"
  from n [OF d'(1)] at_body_pos [OF d'(2)] obtain t' where
    t': "receiving t' iid a ?i d'" "workspace (tk_wsm t') iid (drop (nat q) xs) cap" "tk_heap t' = tk_heap t"
      "mgrProcessNextCommand app iid a t w = after_next app iid a d' pe (snd (nrm_cmd (pe, c))) t' w" by blast
  have "xd_finished d' = False" using at_body_enter [OF d'(2)] by blast
  moreover have "callback_of pe \<noteq> None" using command_callback [OF es] wf by simp
  with dispatch_listens [OF app, of t' iid a ?i cb pe r "snd (nrm_cmd (pe, c))" w] t'(1) cb a
  have "dispatch app iid a pe (snd (nrm_cmd (pe, c))) t' w = Some (fst r, t', snd r)"
    by (simp add: receiving_def nrm_cmd_def)
  ultimately have "mgrProcessNextCommand app iid a t w = Some (fst r, t', snd r)"
    using t'(4) by (simp add: after_next_def)
  with t'(1-3) d'(3,4) reading_rest [OF d'(2) m] show ?thesis by blast
qed

lemma deliver_final:
  assumes r: "receiving t iid a i d" "workspace (tk_wsm t) iid xs cap"
    and x: "reading xs fl cur [] (Ev_empty SML_EXT_UNDEFINED TN_FINAL # es) d"
  shows "\<exists>t' d' ys. mgrProcessNextCommand app iid a t w = Some (SML_ERR_OK, t', w) \<and>
    receiving t' iid a (i\<lparr>ii_decoder := Some d'\<rparr>) d' \<and> workspace (tk_wsm t') iid ys cap \<and> tk_heap t' = tk_heap t \<and>
    reading ys True SML_EXT_UNDEFINED [] es d'"
proof -
  obtain m where m: "doc_at m 0 (int (length xs)) xs"
    and n: "\<And>q pe c d'. xltDecNext m (int (length xs)) 0 SML_PE_UNDEF None d = Some (SML_ERR_OK, q, pe, c, d') \<Longrightarrow>
       0 \<le> q \<Longrightarrow> q \<le> int (length xs) \<Longrightarrow>
       \<exists>t'. receiving t' iid a (i\<lparr>ii_decoder := Some d'\<rparr>) d' \<and> workspace (tk_wsm t') iid (drop (nat q) xs) cap \<and>
            tk_heap t' = tk_heap t \<and> mgrProcessNextCommand app iid a t w = after_next app iid a d' pe c t' w"
    using command_read [OF r, of app w] by blast
  from xltDecNext_final [OF reading_at [OF x m], of SML_PE_UNDEF] obtain q d' where
    d': "xltDecNext m (int (length xs)) 0 SML_PE_UNDEF None d = Some (SML_ERR_OK, q, SML_PE_FINAL, None, d')"
      "at_body m q (int (length xs)) True SML_EXT_UNDEFINED [] es d'" by blast
  from n [OF d'(1)] at_body_pos [OF d'(2)] obtain t' where
    "receiving t' iid a (i\<lparr>ii_decoder := Some d'\<rparr>) d'" "workspace (tk_wsm t') iid (drop (nat q) xs) cap" "tk_heap t' = tk_heap t"
    "mgrProcessNextCommand app iid a t w = after_next app iid a d' SML_PE_FINAL None t' w" by blast
  moreover have "xd_finished d' = False" using at_body_enter [OF d'(2)] by blast
  ultimately show ?thesis using reading_rest [OF d'(2) m] by (auto simp: after_next_def dispatch_def)
qed

lemma deliver_close:
  assumes t: "receiving t iid a i d" "workspace (tk_wsm t) iid xs cap" and cb: "ii_callbacks i = Ptr cb" "all_set cb"
    and app: "listener app act" and x: "reading xs fl cur [] [Ev_end, Ev_end] d"
    and a: "r = listen act (ii_userData i) [(the (endMessageFunc cb), Call_endMessage fl)] w"
  shows "\<exists>t'. mgrProcessNextCommand app iid a t w = Some (fst r, t', snd r) \<and>
    linked t' iid a (i\<lparr>ii_decoder := None\<rparr>) \<and> workspace (tk_wsm t') iid [] cap \<and> tk_heap t' = tk_heap t"
proof -
  obtain m where m: "doc_at m 0 (int (length xs)) xs"
    and n: "\<And>q pe c d'. xltDecNext m (int (length xs)) 0 SML_PE_UNDEF None d = Some (SML_ERR_OK, q, pe, c, d') \<Longrightarrow>
       0 \<le> q \<Longrightarrow> q \<le> int (length xs) \<Longrightarrow>
       \<exists>t'. receiving t' iid a (i\<lparr>ii_decoder := Some d'\<rparr>) d' \<and> workspace (tk_wsm t') iid (drop (nat q) xs) cap \<and>
            tk_heap t' = tk_heap t \<and> mgrProcessNextCommand app iid a t w = after_next app iid a d' pe c t' w"
    using command_read [OF t, of app w] by blast
  from xltDecNext_close [OF reading_at [OF x m], of SML_PE_UNDEF] obtain d' where
    d': "xltDecNext m (int (length xs)) 0 SML_PE_UNDEF None d = Some (SML_ERR_OK, int (length xs), SML_PE_UNDEF, None, d')"
      "xd_finished d'" "xd_final d' = fl" by blast
  from n [OF d'(1)] obtain t1 where
    t1: "linked t1 iid a (i\<lparr>ii_decoder := Some d'\<rparr>)" "workspace (tk_wsm t1) iid [] cap" "tk_heap t1 = tk_heap t"
      "mgrProcessNextCommand app iid a t w = after_next app iid a d' SML_PE_UNDEF None t1 w" by (auto simp: receiving_def)
  let ?i = "i\<lparr>ii_decoder := None\<rparr>"
  let ?t = "set_info a ?i t1"
  have s: "set_decoder a None t1 = Some ?t" "linked ?t iid a ?i"
    using set_decoder_linked [OF t1(1), of None] linked_decoder [OF t1(1), of None] by simp_all
  have "endMessageFunc cb \<noteq> None" using cb(2) by (simp add: all_set_def)
  from call_back_listens [where fn = endMessageFunc, OF app s(2) _ this, of r "Call_endMessage fl" w] cb(1) s d'(2,3) t1(4) a
  have "mgrProcessNextCommand app iid a t w = Some (fst r, ?t, snd r)" by (simp add: after_next_def)
  with s(2) t1(2,3) show ?thesis by (intro exI [of _ ?t]) simp
qed

section \<open>A whole message\<close>

text \<open>The loop of \<open>smlProcessData\<close>: it goes on, an error has come, the message has been read.\<close>

lemma loop_again:
  assumes "mgrProcessNextCommand app iid a t w = Some (SML_ERR_OK, t', w')" "receiving t' iid a i d"
  shows "process_loop app iid a SML_ALL_COMMANDS t w = process_loop app iid a SML_ALL_COMMANDS t' w'"
  using assms by (subst process_loop.simps) (simp add: receiving_def linked_def)

lemma loop_end:
  assumes "mgrProcessNextCommand app iid a t w = Some (rc, t', w')" "rc = SML_ERR_OK \<longrightarrow> linked t' iid a i \<and> ii_decoder i = None"
  shows "process_loop app iid a mode t w = Some (rc, t', w')"
  using assms by (subst process_loop.simps) (auto simp: linked_def)

text \<open>What the loop leaves: the rest of the document after an error, nothing at the end of the message.\<close>

definition left_over :: "'u toolkit \<Rightarrow> int \<Rightarrow> nat \<Rightarrow> 'u InstanceInfo \<Rightarrow> nat \<Rightarrow> ret \<Rightarrow> bool" where
  "left_over t iid a i cap rc \<longleftrightarrow>
     (\<exists>x ys. linked t iid a (i\<lparr>ii_decoder := x\<rparr>) \<and> workspace (tk_wsm t) iid ys cap \<and>
        (rc = SML_ERR_OK \<longrightarrow> x = None \<and> ys = []))"

lemma left_over_err:
  "receiving t iid a (i\<lparr>ii_decoder := Some d\<rparr>) d \<Longrightarrow> workspace (tk_wsm t) iid ys cap \<Longrightarrow> rc \<noteq> SML_ERR_OK \<Longrightarrow>
     left_over t iid a i cap rc"
  by (auto simp: left_over_def receiving_def)

lemma left_over_same: "left_over t iid a (i\<lparr>ii_decoder := x\<rparr>) cap rc = left_over t iid a i cap rc"
  by (simp add: left_over_def)

definition end_call :: "SmlCallbacks \<Rightarrow> bool \<Rightarrow> nat \<times> sml_call" where
  "end_call cb fin = (the (endMessageFunc cb), Call_endMessage fin)"

lemma loop_close:
  assumes t: "receiving t iid a i d" "workspace (tk_wsm t) iid xs cap" and cb: "ii_callbacks i = Ptr cb" "all_set cb"
    and app: "listener app act" and x: "reading xs fl cur [] [Ev_end, Ev_end] d"
    and r: "r = listen act (ii_userData i) [end_call cb fl] w"
  shows "\<exists>t'. process_loop app iid a mode t w = Some (fst r, t', snd r) \<and> left_over t' iid a i cap (fst r) \<and> tk_heap t' = tk_heap t"
proof -
  from deliver_close [OF t cb app x r [unfolded end_call_def]] obtain t' where
    t': "mgrProcessNextCommand app iid a t w = Some (fst r, t', snd r)" "linked t' iid a (i\<lparr>ii_decoder := None\<rparr>)"
      "workspace (tk_wsm t') iid [] cap" "tk_heap t' = tk_heap t" by blast
  then have "left_over t' iid a i cap (fst r)" by (auto simp: left_over_def)
  moreover have "process_loop app iid a mode t w = Some (fst r, t', snd r)"
    using t'(1,2) by (intro loop_end [where i = "i\<lparr>ii_decoder := None\<rparr>"]) simp_all
  ultimately show ?thesis using t'(4) by blast
qed

lemma loop_final:
  assumes t: "receiving t iid a i d" "workspace (tk_wsm t) iid xs cap" and cb: "ii_callbacks i = Ptr cb" "all_set cb"
    and app: "listener app act" and x: "reading xs False cur [] (close_events fin) d"
    and r: "r = listen act (ii_userData i) [end_call cb fin] w"
  shows "\<exists>t'. process_loop app iid a SML_ALL_COMMANDS t w = Some (fst r, t', snd r) \<and> left_over t' iid a i cap (fst r) \<and>
    tk_heap t' = tk_heap t"
proof (cases fin)
  case False
  then have "reading xs False cur [] [Ev_end, Ev_end] d" using x by (simp add: close_events_def)
  from loop_close [OF t cb app this] r False show ?thesis by simp
next
  case True
  then have "reading xs False cur [] (Ev_empty SML_EXT_UNDEFINED TN_FINAL # [Ev_end, Ev_end]) d"
    using x by (simp add: close_events_def)
  from deliver_final [OF t this, of app w] obtain t1 d1 ys where
    t1: "mgrProcessNextCommand app iid a t w = Some (SML_ERR_OK, t1, w)" "receiving t1 iid a (i\<lparr>ii_decoder := Some d1\<rparr>) d1"
      "workspace (tk_wsm t1) iid ys cap" "tk_heap t1 = tk_heap t" "reading ys True SML_EXT_UNDEFINED [] [Ev_end, Ev_end] d1"
    by blast
  have i: "ii_callbacks (i\<lparr>ii_decoder := Some d1\<rparr>) = Ptr cb" using cb(1) by simp
  from loop_close [OF t1(2,3) i cb(2) app t1(5), of r w SML_ALL_COMMANDS] r True t1(4) loop_again [OF t1(1,2)] show ?thesis
    by (simp add: left_over_same)
qed

lemma loop_commands:
  assumes "receiving t iid a i d" "workspace (tk_wsm t) iid xs cap" "ii_callbacks i = Ptr cb" "all_set cb" "listener app act"
    "wf_cmds st cs" "cmds_spec cs = Sp_ok es" "plain_ext cur" "length st + 2 + length es < 2 ^ 31 - 25"
    "reading xs False cur st (es @ close_events fin) d"
    "r = listen act (ii_userData i) (concat (map (\<lambda>x. calls_of cb (nrm_cmd x)) cs) @ [end_call cb fin]) w"
  shows "\<exists>t'. process_loop app iid a SML_ALL_COMMANDS t w = Some (fst r, t', snd r) \<and> left_over t' iid a i cap (fst r) \<and>
    tk_heap t' = tk_heap t"
  using assms
proof (induction cs arbitrary: t i d xs w st es cur)
  case Nil
  then have "reading xs False cur [] (close_events fin) d" "r = listen act (ii_userData i) [end_call cb fin] w" by simp_all
  from loop_final [OF Nil.prems(1-5) this] show ?case .
next
  case (Cons x cs)
  obtain pe c where x: "x = (pe, c)" by (cases x)
  from Cons.prems(7) obtain as bs where es: "cmd_spec (pe, c) = Sp_ok as" "cmds_spec cs = Sp_ok bs" "es = as @ bs"
    by (auto simp: x sp_append_ok)
  have plain: "plain_ext (ext_after cur as)" using plain_after [OF cmd_doc_ok [OF es(1)] Cons.prems(8)] .
  have b: "reading xs False cur st (as @ bs @ close_events fin) d" using Cons.prems(10) by (simp add: es(3))
  have len: "length st + 2 + length as < 2 ^ 31 - 25" using Cons.prems(9) by (simp add: es(3))
  define r1 where "r1 = listen act (ii_userData i) (calls_of cb (nrm_cmd (pe, c))) w"
  from deliver_command [OF Cons.prems(1-5) es(1) Cons.prems(6) [unfolded x] es(2) plain len b r1_def] obtain t1 d1 ys st1 where
    t1: "mgrProcessNextCommand app iid a t w = Some (fst r1, t1, snd r1)"
      "receiving t1 iid a (i\<lparr>ii_decoder := Some d1\<rparr>) d1" "workspace (tk_wsm t1) iid ys cap" "tk_heap t1 = tk_heap t"
      "reading ys False (ext_after cur as) st1 (bs @ close_events fin) d1" "wf_cmds st1 cs" "length st1 \<le> length st + length as"
    by blast
  have r: "r = (if fst r1 = SML_ERR_OK
      then listen act (ii_userData i) (concat (map (\<lambda>x. calls_of cb (nrm_cmd x)) cs) @ [end_call cb fin]) (snd r1) else r1)"
    using Cons.prems(11) listen_append [of act "ii_userData i" "calls_of cb (nrm_cmd (pe, c))"] by (simp add: x r1_def)
  show ?case
  proof (cases "fst r1 = SML_ERR_OK")
    case True
    have "length st1 + 2 + length bs < 2 ^ 31 - 25" using t1(7) Cons.prems(9) by (simp add: es(3))
    from Cons.IH [OF t1(2,3) _ Cons.prems(4,5) t1(6) es(2) plain this t1(5)] Cons.prems(3) r True t1(4)
      loop_again [OF t1(1) [unfolded True] t1(2)] show ?thesis by (simp add: left_over_same)
  next
    case False
    with loop_end [OF t1(1)] left_over_err [OF t1(2,3) False] r t1(4) show ?thesis by auto
  qed
qed

text \<open>The first call reads the header; the end of the document that it sees is one byte short.\<close>

definition start_call :: "SmlCallbacks \<Rightarrow> SmlSyncHdr \<Rightarrow> nat \<times> sml_call" where
  "start_call cb h = (the (startMessageFunc cb), Call_startMessage (Some (nrm_hdr h)))"

lemma doc_at_take: "doc_at m 0 (int n) zs \<Longrightarrow> take n m = zs \<and> n \<le> length m"
  by (simp add: doc_at_def)

lemma doc_at_butlast:
  assumes "doc_at m 0 (int (length (xs @ ys))) (xs @ ys)" "ys \<noteq> []"
  shows "doc_at m 0 (int (length (xs @ ys)) - 1) (xs @ butlast ys)"
proof -
  let ?n = "length (xs @ ys)"
  have m: "take ?n m = xs @ ys" "?n \<le> length m" using doc_at_take [OF assms(1)] by auto
  have "take (?n - 1) m = take (?n - 1) (take ?n m)" by (simp add: min_def)
  also have "\<dots> = butlast (xs @ ys)" unfolding m(1) by (simp only: butlast_conv_take)
  finally have "take (?n - 1) m = xs @ butlast ys" using assms(2) by (simp add: butlast_append)
  moreover have "0 < length xs + length ys" using assms(2) by (cases ys) simp_all
  then have "0 < int (length xs) + int (length ys)" by linarith
  moreover have "nat (int ?n - 1) = ?n - 1" by simp
  ultimately show ?thesis using m(2) by (simp add: doc_at_def)
qed

lemma message_split:
  assumes "message_spec (Some h) cs fin = Sp_ok es"
  obtains hs bs where "el_hdr h = Sp_ok hs" "cmds_spec cs = Sp_ok bs"
    "es = Ev_start SML_EXT_UNDEFINED TN_SYNCML # hs @ body_start # bs @ close_events fin"
    "\<And>fpi. message_bytes fpi es =
       hdr_bytes fpi hs @ doc_bytes (ext_after SML_EXT_UNDEFINED hs) (body_start # bs @ close_events fin)"
proof -
  from assms obtain hs bs where ev: "el_hdr h = Sp_ok hs" "cmds_spec cs = Sp_ok bs"
    "es = Ev_start SML_EXT_UNDEFINED TN_SYNCML # hs @ body_start # bs @ close_events fin"
    by (auto simp: message_spec_def open_spec_def sp_append_ok block_spec_def end_tag_of_def sp_elem_def content_spec_def body_start_def)
  then show ?thesis using that by (simp add: message_bytes_def hdr_bytes_def doc_bytes_append)
qed

lemma deliver_start:
  assumes t: "linked t iid a i" "tok_ready (tk_tok t)" "ii_options i = Ptr opts" "io_encoding opts = SML_WBXML"
    and heap: "heap_ok (fst (hp_encodings (tk_heap t))) (snd (hp_encodings (tk_heap t))) (tk_heap t)"
    and cb: "ii_callbacks i = Ptr cb" "all_set cb" and app: "listener app act"
    and es: "el_hdr h = Sp_ok hs" and good: "good_hdr h" and len: "length hs < 2 ^ 31 - 30"
    and fpi: "length fpi = 29" and w: "workspace (tk_wsm t) iid (hdr_bytes fpi hs @ rest) cap"
    and rest: "rest = doc_bytes (ext_after SML_EXT_UNDEFINED hs) (body_start # bs)"
    and r: "r = listen act (ii_userData i) [start_call cb h] w0"
  shows "\<exists>t' x. mgrProcessStartMessage app iid a t w0 = Some (fst r, t', snd r) \<and> tk_heap t' = tk_heap t \<and>
    linked t' iid a (i\<lparr>ii_decoder := x\<rparr>) \<and>
    (if fst r = SML_ERR_OK
     then \<exists>d. x = Some d \<and> dec_tok d = tk_tok t' \<and> workspace (tk_wsm t') iid rest cap \<and>
       reading rest False SML_EXT_UNDEFINED [] bs d
     else x = None \<and> workspace (tk_wsm t') iid [] cap)"
proof -
  let ?xs = "hdr_bytes fpi hs @ rest" and ?n = "length (hdr_bytes fpi hs)"
  have ne: "rest \<noteq> []" unfolding rest body_start_def by simp
  obtain p s m where l: "smlLockReadBuffer iid NULL 0 t = Some (SML_ERR_OK, p, int (length ?xs), t\<lparr>tk_wsm := s\<rparr>)"
    "block_at p (t\<lparr>tk_wsm := s\<rparr>) = Some (m, 0)" "doc_at m 0 (int (length ?xs)) ?xs"
    and u: "\<And>n. n \<le> length ?xs \<Longrightarrow> \<exists>s'.
       (\<forall>u :: 'a toolkit. smlUnlockReadBuffer iid (int n) (u\<lparr>tk_wsm := s\<rparr>) = Some (SML_ERR_OK, u\<lparr>tk_wsm := s'\<rparr>)) \<and>
       workspace s' iid (drop n ?xs) cap"
    using read_session [OF w, of NULL 0] by blast
  from xltDecInit_ok [OF es good len doc_at_butlast [OF l(3) ne] fpi t(2) heap] obtain d where
    d: "xltDecInit SML_WBXML m (int (length ?xs) - 1) 0 None (tk_heap t) (tk_tok t) =
      Some (SML_ERR_OK, int ?n, Some d, Some (nrm_hdr h), dec_tok d)" "xd_finished d = False" "xd_final d = False"
      "dec_ready (dec_ctx d) (ext_after SML_EXT_UNDEFINED hs) [TN_SYNCML] (butlast rest) d" by auto
  from u [of ?n] obtain s' where
    s': "\<And>u :: 'a toolkit. smlUnlockReadBuffer iid (int ?n) (u\<lparr>tk_wsm := s\<rparr>) = Some (SML_ERR_OK, u\<lparr>tk_wsm := s'\<rparr>)"
      "workspace s' iid rest cap" by auto
  have "at_body rest 0 (int (length rest)) False SML_EXT_UNDEFINED [] bs d"
    using ready_paused [OF d(4)] d(2,3) unfolding at_body_def rest by (auto simp: doc_at_def)
  then have read: "reading rest False SML_EXT_UNDEFINED [] bs d" by (auto simp: reading_def doc_at_def)
  let ?i = "i\<lparr>ii_decoder := Some d\<rparr>"
  let ?t = "(set_info a ?i t)\<lparr>tk_tok := dec_tok d, tk_wsm := s'\<rparr>"
  have set: "set_decoder a (Some d) (t\<lparr>tk_wsm := s\<rparr>) = Some ((set_info a ?i t)\<lparr>tk_wsm := s\<rparr>)"
    using set_decoder_linked [of "t\<lparr>tk_wsm := s\<rparr>" iid a i "Some d"] t(1) by simp
  have l': "linked ?t iid a ?i" using linked_decoder [OF t(1), of "Some d"] by simp
  have start: "mgrProcessStartMessage app iid a t w0 =
      (if fst r \<noteq> SML_ERR_OK then do { t \<leftarrow> abort_decoding iid a ?t; Some (fst r, t, snd r) } else Some (fst r, ?t, snd r))"
    using t(1,3,4) l' l(1,2) d(1) s'(1) set cb app r
    by (auto simp: mgrProcessStartMessage_def linked_def deref_def wsm_last tk_callbacks_def listener_def start_call_def
        all_set_def listen_single simp del: listen.simps)
  show ?thesis
  proof (cases "fst r = SML_ERR_OK")
    case True
    with start have "mgrProcessStartMessage app iid a t w0 = Some (fst r, ?t, snd r)" by simp
    moreover have "dec_tok d = tk_tok ?t" "tk_heap ?t = tk_heap t" "tk_wsm ?t = s'" by simp_all
    ultimately show ?thesis using l' s'(2) read True by (intro exI [of _ ?t] exI [of _ "Some d"]) simp
  next
    case False
    have "workspace (tk_wsm ?t) iid rest cap" using s'(2) by simp
    from workspace_view [OF this] obtain v where v: "wsm_inv (tk_wsm ?t)" "wsm_view (tk_wsm ?t) iid = Some v" "length (v_block v) = cap" by blast
    from abort_clean [OF l' v] obtain t' where
      "abort_decoding iid a ?t = Some t'" "linked t' iid a (i\<lparr>ii_decoder := None\<rparr>)" "workspace (tk_wsm t') iid [] cap"
      "tk_heap t' = tk_heap t" by auto
    with start False show ?thesis by (intro exI [of _ t'] exI [of _ None]) simp
  qed
qed

definition message_calls :: "SmlCallbacks \<Rightarrow> SmlSyncHdr \<Rightarrow> cmd list \<Rightarrow> bool \<Rightarrow> (nat \<times> sml_call) list" where
  "message_calls cb h cs fin = start_call cb h # concat (map (\<lambda>x. calls_of cb (nrm_cmd x)) cs) @ [end_call cb fin]"

lemma process_data_ok:
  assumes t: "linked t iid a i" "tok_ready (tk_tok t)" "ii_options i = Ptr opts" "io_encoding opts = SML_WBXML" "ii_decoder i = None"
    and heap: "heap_ok (fst (hp_encodings (tk_heap t))) (snd (hp_encodings (tk_heap t))) (tk_heap t)"
    and cb: "ii_callbacks i = Ptr cb" "all_set cb" and app: "listener app act"
    and es: "message_spec (Some h) cs fin = Sp_ok es" and good: "good_hdr h" "wf_cmds [] cs" and len: "length es < 2 ^ 31 - 30"
    and fpi: "length fpi = 29" and w: "workspace (tk_wsm t) iid (message_bytes fpi es) cap"
    and r: "r = listen act (ii_userData i) (message_calls cb h cs fin) w0"
  shows "\<exists>t'. smlProcessData app iid SML_ALL_COMMANDS t w0 = Some (fst r, t', snd r) \<and>
    linked t' iid a i \<and> workspace (tk_wsm t') iid [] cap \<and> tk_heap t' = tk_heap t"
proof -
  let ?U = SML_EXT_UNDEFINED
  obtain hs bs where ev: "el_hdr h = Sp_ok hs" "cmds_spec cs = Sp_ok bs"
    "es = Ev_start ?U TN_SYNCML # hs @ body_start # bs @ close_events fin"
    "message_bytes fpi es = hdr_bytes fpi hs @ doc_bytes (ext_after ?U hs) (body_start # bs @ close_events fin)"
    using message_split [OF es] by metis
  have hs: "length hs < 2 ^ 31 - 30" and bs: "length ([] :: XltTagID list) + 2 + length bs < 2 ^ 31 - 25" using len by (simp_all add: ev(3))
  define r1 where "r1 = listen act (ii_userData i) [start_call cb h] w0"
  have r': "r = (if fst r1 = SML_ERR_OK
      then listen act (ii_userData i) (concat (map (\<lambda>x. calls_of cb (nrm_cmd x)) cs) @ [end_call cb fin]) (snd r1) else r1)"
    using listen_append [of act "ii_userData i" "[start_call cb h]" "concat (map (\<lambda>x. calls_of cb (nrm_cmd x)) cs) @ [end_call cb fin]" w0]
    by (simp add: r message_calls_def r1_def del: listen.simps)
  have i: "i\<lparr>ii_decoder := None\<rparr> = i" using t(5) by simp
  have run: "smlProcessData app iid SML_ALL_COMMANDS t w0 = do {
      (rc, t, w) \<leftarrow> mgrProcessStartMessage app iid a t w0;
      if rc \<noteq> SML_ERR_OK then Some (rc, t, w)
      else do {
        (rc, t, w) \<leftarrow> process_loop app iid a SML_ALL_COMMANDS t w;
        if rc \<noteq> SML_ERR_OK then do { t \<leftarrow> abort_decoding iid a t; Some (rc, t, w) } else Some (rc, t, w)
      } }" using t(1,5) cb(1) by (simp add: smlProcessData_def linked_def)
  note start = deliver_start [OF t(1-4) heap cb app ev(1) good(1) hs fpi w [unfolded ev(4)] refl r1_def]
  obtain t1 x where
    t1: "mgrProcessStartMessage app iid a t w0 = Some (fst r1, t1, snd r1)" "tk_heap t1 = tk_heap t" "linked t1 iid a (i\<lparr>ii_decoder := x\<rparr>)"
      "if fst r1 = SML_ERR_OK
       then \<exists>d. x = Some d \<and> dec_tok d = tk_tok t1 \<and>
         workspace (tk_wsm t1) iid (doc_bytes (ext_after ?U hs) (body_start # bs @ close_events fin)) cap \<and>
         reading (doc_bytes (ext_after ?U hs) (body_start # bs @ close_events fin)) False ?U [] (bs @ close_events fin) d
       else x = None \<and> workspace (tk_wsm t1) iid [] cap" using start by (elim exE conjE)
  show ?thesis
  proof (cases "fst r1 = SML_ERR_OK")
    case False
    with t1 run r' i show ?thesis by simp
  next
    case True
    with t1(3,4) obtain d where d: "receiving t1 iid a (i\<lparr>ii_decoder := Some d\<rparr>) d"
      "workspace (tk_wsm t1) iid (doc_bytes (ext_after ?U hs) (body_start # bs @ close_events fin)) cap"
      "reading (doc_bytes (ext_after ?U hs) (body_start # bs @ close_events fin)) False ?U [] (bs @ close_events fin) d"
      by (auto simp: receiving_def)
    have cb': "ii_callbacks (i\<lparr>ii_decoder := Some d\<rparr>) = Ptr cb" using cb(1) by simp
    from loop_commands [OF d(1,2) cb' cb(2) app good(2) ev(2) plain_undef bs d(3), of r "snd r1"] r' True obtain t2 where
      t2: "process_loop app iid a SML_ALL_COMMANDS t1 (snd r1) = Some (fst r, t2, snd r)" "left_over t2 iid a i cap (fst r)"
        "tk_heap t2 = tk_heap t1" by (auto simp: left_over_same)
    show ?thesis
    proof (cases "fst r = SML_ERR_OK")
      case ok: True
      with t2(2) i have "linked t2 iid a i" "workspace (tk_wsm t2) iid [] cap" by (auto simp: left_over_def)
      with run t1(1,2) t2(1,3) True ok show ?thesis by simp
    next
      case err: False
      from t2(2) obtain y ys where y: "linked t2 iid a (i\<lparr>ii_decoder := y\<rparr>)" "workspace (tk_wsm t2) iid ys cap"
        by (auto simp: left_over_def)
      from workspace_view [OF y(2)] obtain v where v: "wsm_inv (tk_wsm t2)" "wsm_view (tk_wsm t2) iid = Some v" "length (v_block v) = cap" by blast
      from abort_clean [OF y(1) v] i obtain t3 where
        "abort_decoding iid a t2 = Some t3" "linked t3 iid a i" "workspace (tk_wsm t3) iid [] cap" "tk_heap t3 = tk_heap t2" by auto
      with run t1(1,2) t2(1,3) True err show ?thesis by simp
    qed
  qed
qed

end
