(* ===== verification/Toolkit_Send.thy ===== *)
theory Toolkit_Send
  imports Toolkit_Spec
begin

text \<open>
  Sending: every call that builds a message appends its part of the document to the workspace, or
  leaves the contents of the workspace as they are.
\<close>

section \<open>One command\<close>

text \<open>An instance that uses WBXML, with its encoder.\<close>

definition sending :: "'u toolkit \<Rightarrow> int \<Rightarrow> nat \<Rightarrow> 'u InstanceInfo \<Rightarrow> bool" where
  "sending t iid a i \<longleftrightarrow> tok_ready (tk_tok t) \<and> linked t iid a i \<and>
     (\<exists>opts. ii_options i = Ptr opts \<and> io_encoding opts = SML_WBXML)"

definition encoding :: "XltEncoder \<Rightarrow> nat \<Rightarrow> bool" where
  "encoding e n \<longleftrightarrow> xe_enc e = SML_WBXML \<and> xe_space_evaluation e = None \<and> \<bar>xe_end_tag_size e\<bar> \<le> int n"

lemma cap_bound: "workspace s h xs cap \<Longrightarrow> length xs \<le> cap \<and> cap < 2 ^ 29"
proof -
  assume "workspace s h xs cap"
  then obtain v where v: "wsm_inv s" "wsm_view s h = Some v" "v_data v = map Some xs" "length (v_block v) = cap"
    by (auto simp: workspace_def)
  from known_op [OF v(1,2)] obtain i k b where "known_at s h v i k b" .
  from known_atD(17,18) [OF this] v(3,4) show ?thesis by (auto simp: v_data_def dest: arg_cong [where f = length])
qed

lemma sending_set:
  assumes "sending t iid a i" "ii_id i' = ii_id i" "ii_addr i' = a" "ii_options i' = ii_options i" "tok_ready g"
  shows "sending ((set_info a i' t)\<lparr>tk_tok := g, tk_wsm := s\<rparr>) iid a i'"
  using assms linked_set [of t iid a i i'] by (simp add: sending_def)

text \<open>The bytes a document call has written behind the contents.\<close>

lemma put_bytes:
  assumes "length xs + length bs \<le> length (doc_mem d)" "doc_pos d = int (length xs)"
  shows "length (doc_mem (doc_put bs d g)) = length (doc_mem d)"
    "take (length bs) (drop (length xs) (doc_mem (doc_put bs d g))) = bs"
    "doc_pos (doc_put bs d g) = int (length xs) + int (length bs)" "doc_tok (doc_put bs d g) = g"
  using assms by (simp_all add: doc_put_def)

text \<open>A call that writes \<open>bs\<close> appends it to the workspace.\<close>

lemma append_session:
  assumes w: "workspace (tk_wsm t) h xs cap" and g: "tok_ready (tk_tok t)"
  obtains p n s d where
    "smlLockWriteBuffer h p0 n0 t = Some (SML_ERR_OK, p, n, t\<lparr>tk_wsm := s\<rparr>)"
    "snd p + n = int cap" "doc_in p (t\<lparr>tk_wsm := s\<rparr>) = Some d" "doc_ready (int cap) d" "doc_pos d = int (length xs)"
    "\<And>bs d'. docs (int cap) d bs SML_ERR_OK d' \<Longrightarrow> \<exists>s1 s2.
       (\<forall>u :: 'u toolkit. put_doc p d' (u\<lparr>tk_wsm := s\<rparr>) = Some (u\<lparr>tk_tok := doc_tok d', tk_wsm := s1\<rparr>)) \<and>
       (\<forall>u :: 'u toolkit. smlUnlockWriteBuffer h (doc_pos d' - snd p) (u\<lparr>tk_wsm := s1\<rparr>) =
          Some (SML_ERR_OK, u\<lparr>tk_wsm := s2\<rparr>)) \<and>
       workspace s2 h (xs @ bs) cap"
proof -
  obtain p n s d where l: "smlLockWriteBuffer h p0 n0 t = Some (SML_ERR_OK, p, n, t\<lparr>tk_wsm := s\<rparr>)"
    "snd p = int (length xs)" "snd p + n = int cap" "doc_in p (t\<lparr>tk_wsm := s\<rparr>) = Some d" "doc_ready (int cap) d"
    "length (doc_mem d) = cap" "doc_pos d = int (length xs)"
    and f: "\<And>d' k. length (doc_mem d') = cap \<Longrightarrow> length xs + k \<le> cap \<Longrightarrow> \<exists>s1 s2.
       (\<forall>u :: 'u toolkit. put_doc p d' (u\<lparr>tk_wsm := s\<rparr>) = Some (u\<lparr>tk_tok := doc_tok d', tk_wsm := s1\<rparr>)) \<and>
       (\<forall>u :: 'u toolkit. smlUnlockWriteBuffer h (int k) (u\<lparr>tk_wsm := s1\<rparr>) = Some (SML_ERR_OK, u\<lparr>tk_wsm := s2\<rparr>)) \<and>
       workspace s2 h (xs @ take k (drop (length xs) (doc_mem d'))) cap"
    using write_session [OF w g, of p0 n0] by blast
  show ?thesis
  proof (rule that [OF l(1,3,4,5,7)])
    fix bs d'
    assume "docs (int cap) d bs SML_ERR_OK d'"
    then have d': "length xs + length bs \<le> cap" "d' = doc_put bs d (doc_tok d')"
      using l(7) by (auto simp: docs_def split: if_splits)
    note b = put_bytes [of xs bs d "doc_tok d'", folded d'(2), unfolded l(6), OF d'(1) l(7)]
    from f [OF b(1) d'(1)] b(2,3) l(2) show "\<exists>s1 s2.
       (\<forall>u :: 'u toolkit. put_doc p d' (u\<lparr>tk_wsm := s\<rparr>) = Some (u\<lparr>tk_tok := doc_tok d', tk_wsm := s1\<rparr>)) \<and>
       (\<forall>u :: 'u toolkit. smlUnlockWriteBuffer h (doc_pos d' - snd p) (u\<lparr>tk_wsm := s1\<rparr>) =
          Some (SML_ERR_OK, u\<lparr>tk_wsm := s2\<rparr>)) \<and>
       workspace s2 h (xs @ bs) cap" by simp
  qed
qed

lemma docs_tok: "docs E d bs r d' \<Longrightarrow> tok_ready (doc_tok d')"
  by (simp add: docs_def)

text \<open>A command that fits is appended.\<close>

lemma command_appended:
  assumes s: "sending t iid a i" "ii_encoder i = Some e" "encoding e n" "n + length (doc_bytes (xe_cur_ext e) es) < 2 ^ 30"
    and w: "workspace (tk_wsm t) iid xs cap"
    and es: "cmd_spec (pe, c) = Sp_ok es" and fit: "length xs + length (doc_bytes (xe_cur_ext e) es) \<le> cap"
  shows "\<exists>t' e'. mgrCreateNextCommand app iid pe c t w0 = Some (SML_ERR_OK, t', w0) \<and>
    sending t' iid a (i\<lparr>ii_encoder := Some e'\<rparr>) \<and> encoding e' (n + length (doc_bytes (xe_cur_ext e) es)) \<and>
    xe_cur_ext e' = ext_after (xe_cur_ext e) es \<and> workspace (tk_wsm t') iid (xs @ doc_bytes (xe_cur_ext e) es) cap \<and>
    tk_heap t' = tk_heap t"
proof -
  let ?bs = "doc_bytes (xe_cur_ext e) es"
  have t: "tok_ready (tk_tok t)" "linked t iid a i" using s(1) by (simp_all add: sending_def)
  note a = linked_addr [OF t(2)] and c = cap_bound [OF w]
  obtain p m s1 d where l: "smlLockWriteBuffer iid NULL 0 t = Some (SML_ERR_OK, p, m, t\<lparr>tk_wsm := s1\<rparr>)"
    "snd p + m = int cap" "doc_in p (t\<lparr>tk_wsm := s1\<rparr>) = Some d" "doc_ready (int cap) d" "doc_pos d = int (length xs)"
    and f: "\<And>bs d'. docs (int cap) d bs SML_ERR_OK d' \<Longrightarrow> \<exists>s1' s2.
       (\<forall>u :: 'a toolkit. put_doc p d' (u\<lparr>tk_wsm := s1\<rparr>) = Some (u\<lparr>tk_tok := doc_tok d', tk_wsm := s1'\<rparr>)) \<and>
       (\<forall>u :: 'a toolkit. smlUnlockWriteBuffer iid (doc_pos d' - snd p) (u\<lparr>tk_wsm := s1'\<rparr>) =
          Some (SML_ERR_OK, u\<lparr>tk_wsm := s2\<rparr>)) \<and>
       workspace s2 iid (xs @ bs) cap"
    using append_session [OF w t(1), of NULL 0] by blast
  from xltEncAppend_writes [OF _ _ l(4) es, of e] s(3,4) fit c l(5) obtain l' g where
    enc: "tok_ready g" "xltEncAppend e pe (int cap) c d = Some (SML_ERR_OK,
            e\<lparr>xe_end_tag_size := xe_end_tag_size e + sum_list (map ev_open es),
              xe_cur_ext := ext_after (xe_cur_ext e) es, xe_last_ext := l'\<rparr>, doc_put ?bs d g)"
    by (auto simp: encoding_def)
  let ?e = "e\<lparr>xe_end_tag_size := xe_end_tag_size e + sum_list (map ev_open es),
      xe_cur_ext := ext_after (xe_cur_ext e) es, xe_last_ext := l'\<rparr>"
  let ?i = "i\<lparr>ii_encoder := Some ?e\<rparr>" and ?d = "doc_put ?bs d g"
  have d: "docs (int cap) d ?bs SML_ERR_OK ?d" "doc_tok ?d = g" using enc(1) fit l(5) by (simp_all add: docs_def doc_put_def)
  from f [OF d(1)] d(2) obtain s2 s3 where
    s2: "\<And>u :: 'a toolkit. put_doc p ?d (u\<lparr>tk_wsm := s1\<rparr>) = Some (u\<lparr>tk_tok := g, tk_wsm := s2\<rparr>)"
      "\<And>u :: 'a toolkit. smlUnlockWriteBuffer iid (doc_pos ?d - snd p) (u\<lparr>tk_wsm := s2\<rparr>) = Some (SML_ERR_OK, u\<lparr>tk_wsm := s3\<rparr>)"
      "workspace s3 iid (xs @ ?bs) cap" by auto
  let ?t = "(set_info a ?i t)\<lparr>tk_tok := g, tk_wsm := s3\<rparr>"
  have "set_encoder a (Some ?e) (t\<lparr>tk_tok := g, tk_wsm := s2\<rparr>) = Some ((set_info a ?i t)\<lparr>tk_tok := g, tk_wsm := s2\<rparr>)"
    using info_upd_linked [of "t\<lparr>tk_tok := g, tk_wsm := s2\<rparr>" iid a i] t(2) by (simp add: set_encoder_def)
  then have "append_in a pe c p m (t\<lparr>tk_wsm := s1\<rparr>) =
      Some (SML_ERR_OK, doc_pos ?d, (set_info a ?i t)\<lparr>tk_tok := g, tk_wsm := s2\<rparr>)"
    using t(2) s(2) l(2,3) enc(2) s2(1) by (simp add: append_in_def linked_def)
  then have "mgrCreateNextCommand app iid pe c t w0 = Some (SML_ERR_OK, ?t, w0)"
    using t(2) s(2) l(1) s2(2) by (simp add: mgrCreateNextCommand_def linked_def)
  moreover have "sending ?t iid a ?i" using sending_set [OF s(1), of ?i g s3] a enc(1) by simp
  moreover have "encoding ?e (n + length ?bs)"
    using s(3) open_bound [of es "xe_cur_ext e"] by (auto simp: encoding_def)
  ultimately show ?thesis using s2(3) by (intro exI [of _ ?t] exI [of _ ?e]) simp
qed

text \<open>
  A command that does not fit is lost without notice when the application has no transmit function: the
  call returns \<open>SML_ERR_OK\<close>.
\<close>

lemma command_lost:
  assumes s: "sending t iid a i" "ii_encoder i = Some e" "encoding e n" "n + length (doc_bytes (xe_cur_ext e) es) < 2 ^ 30"
    and cb: "ii_callbacks i = Ptr cb" "transmitChunkFunc cb = None"
    and w: "workspace (tk_wsm t) iid xs cap" and es: "cmd_spec (pe, c) = Sp_ok es"
    and full: "cap < length xs + length (doc_bytes (xe_cur_ext e) es)"
  shows "\<exists>t'. mgrCreateNextCommand app iid pe c t w0 = Some (SML_ERR_OK, t', w0) \<and>
    sending t' iid a i \<and> workspace (tk_wsm t') iid xs cap"
proof -
  let ?bs = "doc_bytes (xe_cur_ext e) es"
  have t: "tok_ready (tk_tok t)" "linked t iid a i" using s(1) by (simp_all add: sending_def)
  note a = linked_addr [OF t(2)] and c = cap_bound [OF w]
  obtain p m s1 d where l: "smlLockWriteBuffer iid NULL 0 t = Some (SML_ERR_OK, p, m, t\<lparr>tk_wsm := s1\<rparr>)"
    "snd p = int (length xs)" "snd p + m = int cap" "doc_in p (t\<lparr>tk_wsm := s1\<rparr>) = Some d" "doc_ready (int cap) d"
    "length (doc_mem d) = cap" "doc_pos d = int (length xs)"
    and f: "\<And>d' k. length (doc_mem d') = cap \<Longrightarrow> length xs + k \<le> cap \<Longrightarrow> \<exists>s1' s2.
       (\<forall>u :: 'a toolkit. put_doc p d' (u\<lparr>tk_wsm := s1\<rparr>) = Some (u\<lparr>tk_tok := doc_tok d', tk_wsm := s1'\<rparr>)) \<and>
       (\<forall>u :: 'a toolkit. smlUnlockWriteBuffer iid (int k) (u\<lparr>tk_wsm := s1'\<rparr>) = Some (SML_ERR_OK, u\<lparr>tk_wsm := s2\<rparr>)) \<and>
       workspace s2 iid (xs @ take k (drop (length xs) (doc_mem d'))) cap"
    using write_session [OF w t(1), of NULL 0] by blast
  have "\<not> doc_pos d + int (length ?bs) \<le> int cap" using full l(7) by simp
  moreover have "xe_enc e = SML_WBXML" "xe_space_evaluation e = None" "int cap - doc_pos d + int (length ?bs) + 5 < 2 ^ 31"
    "\<bar>xe_end_tag_size e\<bar> + int (length ?bs) < 2 ^ 31" using s(3,4) c l(7) by (simp_all add: encoding_def)
  ultimately obtain k g where
    enc: "tok_ready g" "k < length ?bs" "doc_pos d + int k \<le> int cap" "xltEncAppend e pe (int cap) c d = Some (SML_ERR_XLT_BUF_ERR, e,
             (doc_put (take k ?bs) d g)\<lparr>doc_pos := doc_pos d\<rparr>)"
    using xltEncAppend_writes [OF _ _ l(5) es, of e] by (auto simp only: if_False)
  from enc(3) l(7) have enc3: "length xs + k \<le> cap" by simp
  let ?d = "(doc_put (take k ?bs) d g)\<lparr>doc_pos := int (length xs)\<rparr>"
  have p: "length (doc_mem ?d) = cap" "doc_tok ?d = g"
    using put_bytes(1) [of xs "take k ?bs" d g] l(6,7) enc(2) enc3 by (simp_all add: doc_put_def)
  from f [OF p(1), of 0] c p(2) obtain s2 s3 where
    s2: "\<And>u :: 'a toolkit. put_doc p ?d (u\<lparr>tk_wsm := s1\<rparr>) = Some (u\<lparr>tk_tok := g, tk_wsm := s2\<rparr>)"
      "\<And>u :: 'a toolkit. smlUnlockWriteBuffer iid 0 (u\<lparr>tk_wsm := s2\<rparr>) = Some (SML_ERR_OK, u\<lparr>tk_wsm := s3\<rparr>)"
      "workspace s3 iid xs cap" by auto
  have i: "i\<lparr>ii_encoder := Some e\<rparr> = i" using s(2) by simp
  let ?t = "(set_info a i t)\<lparr>tk_tok := g, tk_wsm := s3\<rparr>"
  have "set_encoder a (Some e) (t\<lparr>tk_tok := g, tk_wsm := s2\<rparr>) = Some ((set_info a i t)\<lparr>tk_tok := g, tk_wsm := s2\<rparr>)"
    using info_upd_linked [of "t\<lparr>tk_tok := g, tk_wsm := s2\<rparr>" iid a i] t(2) i by (simp add: set_encoder_def)
  then have "append_in a pe c p m (t\<lparr>tk_wsm := s1\<rparr>) =
      Some (SML_ERR_XLT_BUF_ERR, int (length xs), (set_info a i t)\<lparr>tk_tok := g, tk_wsm := s2\<rparr>)"
    using t(2) s(2) l(3,4,7) enc(4) s2(1) by (simp add: append_in_def linked_def)
  moreover have s': "sending ?t iid a i" using sending_set [OF s(1), of i g s3] a enc(1) by simp
  then have "tk_callbacks a ((set_info a i t)\<lparr>tk_tok := g, tk_wsm := s2\<rparr>) = Some (cb, ii_userData i)"
    using cb(1) by (simp add: sending_def linked_def tk_callbacks_def deref_def)
  ultimately have "mgrCreateNextCommand app iid pe c t w0 = Some (SML_ERR_OK, ?t, w0)"
    using t(2) s(2) l(1,2) s2(2) cb(2) by (simp add: mgrCreateNextCommand_def linked_def)
  with s' s2(3) show ?thesis by (intro exI [of _ ?t]) simp
qed

section \<open>Beginning and end of a message\<close>

lemma message_started:
  assumes s: "sending t iid a i" and w: "workspace (tk_wsm t) iid xs cap" and v: "syncml_fpi v = Some fpi"
    and es: "open_spec h = Sp_ok es" and fit: "length xs + length (doc_header fpi @ doc_bytes SML_EXT_UNDEFINED es) \<le> cap"
  shows "\<exists>t' e. smlStartMessageExt iid h v t = Some (SML_ERR_OK, t') \<and>
    sending t' iid a (i\<lparr>ii_encoder := Some e\<rparr>) \<and> encoding e (length (doc_bytes SML_EXT_UNDEFINED es)) \<and>
    xe_cur_ext e = ext_after SML_EXT_UNDEFINED es \<and>
    workspace (tk_wsm t') iid (xs @ doc_header fpi @ doc_bytes SML_EXT_UNDEFINED es) cap \<and> tk_heap t' = tk_heap t"
proof -
  let ?bs = "doc_header fpi @ doc_bytes SML_EXT_UNDEFINED es"
  have t: "tok_ready (tk_tok t)" "linked t iid a i" using s(1) by (simp_all add: sending_def)
  from s obtain opts where o: "ii_options i = Ptr opts" "io_encoding opts = SML_WBXML" by (auto simp: sending_def)
  note a = linked_addr [OF t(2)] and c = cap_bound [OF w]
  obtain p m s1 d where l: "smlLockWriteBuffer iid NULL 0 t = Some (SML_ERR_OK, p, m, t\<lparr>tk_wsm := s1\<rparr>)"
    "snd p + m = int cap" "doc_in p (t\<lparr>tk_wsm := s1\<rparr>) = Some d" "doc_ready (int cap) d" "doc_pos d = int (length xs)"
    and f: "\<And>bs d'. docs (int cap) d bs SML_ERR_OK d' \<Longrightarrow> \<exists>s1' s2.
       (\<forall>u :: 'a toolkit. put_doc p d' (u\<lparr>tk_wsm := s1\<rparr>) = Some (u\<lparr>tk_tok := doc_tok d', tk_wsm := s1'\<rparr>)) \<and>
       (\<forall>u :: 'a toolkit. smlUnlockWriteBuffer iid (doc_pos d' - snd p) (u\<lparr>tk_wsm := s1'\<rparr>) =
          Some (SML_ERR_OK, u\<lparr>tk_wsm := s2\<rparr>)) \<and>
       workspace s2 iid (xs @ bs) cap"
    using append_session [OF w t(1), of NULL 0] by blast
  have "int cap - doc_pos d + int (length ?bs) + 5 < 2 ^ 31" using c fit l(5) by simp
  from xltEncInit_writes [OF v l(4) es this] obtain r e' d' where
    x: "xltEncInit SML_WBXML h (int cap) v d = Some (r, e', d')" "docs (int cap) d ?bs r d'"
      "if r = SML_ERR_OK then \<exists>l. e' = Some ((new_encoder v)\<lparr>xe_cur_ext := ext_after SML_EXT_UNDEFINED es, xe_last_ext := l,
             xe_end_tag_size := sum_list (map ev_open es)\<rparr>) else e' = None" by blast
  have ok: "r = SML_ERR_OK" using x(2) fit l(5) by (simp add: docs_def)
  with x(3) obtain e where e: "e' = Some e" "xe_cur_ext e = ext_after SML_EXT_UNDEFINED es"
    "xe_enc e = SML_WBXML" "xe_space_evaluation e = None" "xe_end_tag_size e = sum_list (map ev_open es)"
    by (auto simp: new_encoder_def)
  from f [OF x(2) [unfolded ok]] obtain s2 s3 where
    s2: "\<And>u :: 'a toolkit. put_doc p d' (u\<lparr>tk_wsm := s1\<rparr>) = Some (u\<lparr>tk_tok := doc_tok d', tk_wsm := s2\<rparr>)"
      "\<And>u :: 'a toolkit. smlUnlockWriteBuffer iid (doc_pos d' - snd p) (u\<lparr>tk_wsm := s2\<rparr>) = Some (SML_ERR_OK, u\<lparr>tk_wsm := s3\<rparr>)"
      "workspace s3 iid (xs @ ?bs) cap" by blast
  let ?i = "i\<lparr>ii_encoder := Some e\<rparr>"
  let ?t = "(set_info a ?i t)\<lparr>tk_tok := doc_tok d', tk_wsm := s3\<rparr>"
  have "set_encoder a e' (t\<lparr>tk_tok := doc_tok d', tk_wsm := s2\<rparr>) = Some ((set_info a ?i t)\<lparr>tk_tok := doc_tok d', tk_wsm := s2\<rparr>)"
    using info_upd_linked [of "t\<lparr>tk_tok := doc_tok d', tk_wsm := s2\<rparr>" iid a i] t(2) by (simp add: set_encoder_def e(1))
  then have "smlStartMessageExt iid h v t = Some (SML_ERR_OK, ?t)"
    using t(2) o l(1-3) x(1) ok s2(1,2) by (simp add: smlStartMessageExt_def linked_with [OF t(2)]) (simp add: linked_def deref_def)
  moreover have "sending ?t iid a ?i" using sending_set [OF s, of ?i "doc_tok d'" s3] a docs_tok [OF x(2)] by simp
  moreover have "encoding e (length (doc_bytes SML_EXT_UNDEFINED es))"
    using e(3-5) open_bound [of es SML_EXT_UNDEFINED] by (simp add: encoding_def)
  ultimately show ?thesis using s2(3) e(2) by (intro exI [of _ ?t] exI [of _ e]) simp
qed

lemma message_ended:
  assumes s: "sending t iid a i" "ii_encoder i = Some e" "encoding e n" and w: "workspace (tk_wsm t) iid xs cap"
    and fit: "length xs + length (doc_bytes (xe_cur_ext e) (close_events fin)) \<le> cap"
  shows "\<exists>t'. smlEndMessage iid fin t = Some (SML_ERR_OK, t') \<and> sending t' iid a (i\<lparr>ii_encoder := None\<rparr>) \<and>
    workspace (tk_wsm t') iid (xs @ doc_bytes (xe_cur_ext e) (close_events fin)) cap \<and> tk_heap t' = tk_heap t"
proof -
  let ?bs = "doc_bytes (xe_cur_ext e) (close_events fin)" and ?e = "e\<lparr>xe_final := fin\<rparr>"
  have t: "tok_ready (tk_tok t)" "linked t iid a i" using s(1) by (simp_all add: sending_def)
  note a = linked_addr [OF t(2)] and c = cap_bound [OF w]
  obtain p m s1 d where l: "smlLockWriteBuffer iid NULL 0 t = Some (SML_ERR_OK, p, m, t\<lparr>tk_wsm := s1\<rparr>)"
    "snd p + m = int cap" "doc_in p (t\<lparr>tk_wsm := s1\<rparr>) = Some d" "doc_ready (int cap) d" "doc_pos d = int (length xs)"
    and f: "\<And>bs d'. docs (int cap) d bs SML_ERR_OK d' \<Longrightarrow> \<exists>s1' s2.
       (\<forall>u :: 'a toolkit. put_doc p d' (u\<lparr>tk_wsm := s1\<rparr>) = Some (u\<lparr>tk_tok := doc_tok d', tk_wsm := s1'\<rparr>)) \<and>
       (\<forall>u :: 'a toolkit. smlUnlockWriteBuffer iid (doc_pos d' - snd p) (u\<lparr>tk_wsm := s1'\<rparr>) =
          Some (SML_ERR_OK, u\<lparr>tk_wsm := s2\<rparr>)) \<and>
       workspace s2 iid (xs @ bs) cap"
    using append_session [OF w t(1), of NULL 0] by blast
  have "int cap - doc_pos d + int (length ?bs) + 5 < 2 ^ 31" using c fit l(5) by simp
  with xltEncTerminate_writes [of ?e "int cap" d] l(4) s(3) obtain r d' where
    x: "xltEncTerminate ?e (int cap) d = Some (r, d')" "docs (int cap) d ?bs r d'" by (auto simp: encoding_def)
  have ok: "r = SML_ERR_OK" using x(2) fit l(5) by (simp add: docs_def)
  from f [OF x(2) [unfolded ok]] obtain s2 s3 where
    s2: "\<And>u :: 'a toolkit. put_doc p d' (u\<lparr>tk_wsm := s1\<rparr>) = Some (u\<lparr>tk_tok := doc_tok d', tk_wsm := s2\<rparr>)"
      "\<And>u :: 'a toolkit. smlUnlockWriteBuffer iid (doc_pos d' - snd p) (u\<lparr>tk_wsm := s2\<rparr>) = Some (SML_ERR_OK, u\<lparr>tk_wsm := s3\<rparr>)"
      "workspace s3 iid (xs @ ?bs) cap" by blast
  let ?i = "i\<lparr>ii_encoder := None\<rparr>"
  let ?t = "(set_info a ?i t)\<lparr>tk_tok := doc_tok d', tk_wsm := s3\<rparr>"
  have "set_encoder a None (t\<lparr>tk_tok := doc_tok d', tk_wsm := s2\<rparr>) = Some ((set_info a ?i t)\<lparr>tk_tok := doc_tok d', tk_wsm := s2\<rparr>)"
    using info_upd_linked [of "t\<lparr>tk_tok := doc_tok d', tk_wsm := s2\<rparr>" iid a i] t(2) by (simp add: set_encoder_def)
  then have "smlEndMessage iid fin t = Some (SML_ERR_OK, ?t)"
    using t(2) s(2) l(1-3) x(1) ok s2(1,2) by (simp add: smlEndMessage_def linked_with [OF t(2)]) (simp add: linked_def)
  moreover have "sending ?t iid a ?i" using sending_set [OF s(1), of ?i "doc_tok d'" s3] a docs_tok [OF x(2)] by simp
  ultimately show ?thesis using s2(3) by (intro exI [of _ ?t]) simp
qed

section \<open>A whole message\<close>

text \<open>The calls of an application that sends a message: the first error ends the sequence.\<close>

fun send_commands :: "('u, 'w) app \<Rightarrow> int \<Rightarrow> cmd list \<Rightarrow> 'u toolkit \<Rightarrow> 'w \<Rightarrow> ('u, 'w) run" where
  "send_commands app iid [] t w = Some (SML_ERR_OK, t, w)"
| "send_commands app iid ((pe, c) # cs) t w = do {
     (rc, t, w) \<leftarrow> mgrCreateNextCommand app iid pe c t w;
     if rc \<noteq> SML_ERR_OK then Some (rc, t, w) else send_commands app iid cs t w
   }"

definition send_message ::
    "('u, 'w) app \<Rightarrow> int \<Rightarrow> SmlSyncHdr option \<Rightarrow> SmlVersion \<Rightarrow> cmd list \<Rightarrow> bool \<Rightarrow> 'u toolkit \<Rightarrow> 'w \<Rightarrow> ('u, 'w) run" where
  "send_message app iid h v cs fin t w = do {
     (rc, t) \<leftarrow> smlStartMessageExt iid h v t;
     if rc \<noteq> SML_ERR_OK then Some (rc, t, w)
     else do {
       (rc, t, w) \<leftarrow> send_commands app iid cs t w;
       if rc \<noteq> SML_ERR_OK then Some (rc, t, w)
       else do { (rc, t) \<leftarrow> smlEndMessage iid fin t; Some (rc, t, w) }
     }
   }"

lemma instance_same: "ii_encoder i = e \<Longrightarrow> i\<lparr>ii_encoder := e\<rparr> = i"
  by simp

lemma send_commands_ok:
  assumes "sending t iid a i" "ii_encoder i = Some e" "encoding e n" "n + length (doc_bytes (xe_cur_ext e) es) < 2 ^ 30"
    "workspace (tk_wsm t) iid xs cap" "cmds_spec cs = Sp_ok es" "length xs + length (doc_bytes (xe_cur_ext e) es) \<le> cap"
  shows "\<exists>t' e'. send_commands app iid cs t w = Some (SML_ERR_OK, t', w) \<and>
    sending t' iid a (i\<lparr>ii_encoder := Some e'\<rparr>) \<and> encoding e' (n + length (doc_bytes (xe_cur_ext e) es)) \<and>
    xe_cur_ext e' = ext_after (xe_cur_ext e) es \<and> workspace (tk_wsm t') iid (xs @ doc_bytes (xe_cur_ext e) es) cap \<and>
    tk_heap t' = tk_heap t"
  using assms
proof (induction cs arbitrary: t i e n xs es)
  case Nil
  then have "sending t iid a (i\<lparr>ii_encoder := Some e\<rparr>)" using instance_same by metis
  with Nil show ?case by (intro exI [of _ t] exI [of _ e]) simp
next
  case (Cons x cs)
  obtain pe c where x: "x = (pe, c)" by (cases x)
  from Cons.prems(6) obtain as bs where es: "cmd_spec (pe, c) = Sp_ok as" "cmds_spec cs = Sp_ok bs" "es = as @ bs"
    by (auto simp: x sp_append_ok)
  let ?x = "doc_bytes (xe_cur_ext e) as" and ?cur = "ext_after (xe_cur_ext e) as"
  have b: "doc_bytes (xe_cur_ext e) es = ?x @ doc_bytes ?cur bs" by (simp add: es(3) doc_bytes_append)
  from command_appended [OF Cons.prems(1-3) _ Cons.prems(5) es(1), of app w] Cons.prems(4,7) obtain t1 e1 where
    t1: "mgrCreateNextCommand app iid pe c t w = Some (SML_ERR_OK, t1, w)" "sending t1 iid a (i\<lparr>ii_encoder := Some e1\<rparr>)"
      "encoding e1 (n + length ?x)" "xe_cur_ext e1 = ?cur" "workspace (tk_wsm t1) iid (xs @ ?x) cap" "tk_heap t1 = tk_heap t"
    by (auto simp: b)
  from Cons.IH [OF t1(2) _ t1(3) _ t1(5) es(2)] Cons.prems(4,7) t1(4) obtain t2 e2 where
    "send_commands app iid cs t1 w = Some (SML_ERR_OK, t2, w)" "sending t2 iid a (i\<lparr>ii_encoder := Some e2\<rparr>)"
    "encoding e2 (n + length ?x + length (doc_bytes ?cur bs))" "xe_cur_ext e2 = ext_after ?cur bs"
    "workspace (tk_wsm t2) iid ((xs @ ?x) @ doc_bytes ?cur bs) cap" "tk_heap t2 = tk_heap t1" by (auto simp: b)
  with t1(1,6) show ?case
    by (intro exI [of _ t2] exI [of _ e2]) (simp add: x es(3) doc_bytes_append ext_after_append add.assoc)
qed

lemma send_message_ok:
  assumes s: "sending t iid a i" and w: "workspace (tk_wsm t) iid xs cap" and v: "syncml_fpi v = Some fpi"
    and es: "message_spec h cs fin = Sp_ok es" and fit: "length xs + length (message_bytes fpi es) \<le> cap"
  shows "\<exists>t'. send_message app iid h v cs fin t w0 = Some (SML_ERR_OK, t', w0) \<and>
    sending t' iid a (i\<lparr>ii_encoder := None\<rparr>) \<and> workspace (tk_wsm t') iid (xs @ message_bytes fpi es) cap \<and> tk_heap t' = tk_heap t"
proof -
  from es obtain hs bs where p: "open_spec h = Sp_ok hs" "cmds_spec cs = Sp_ok bs" "es = hs @ bs @ close_events fin"
    by (auto simp: message_spec_def sp_append_ok)
  let ?c1 = "ext_after SML_EXT_UNDEFINED hs"
  let ?x = "doc_header fpi @ doc_bytes SML_EXT_UNDEFINED hs" and ?y = "doc_bytes ?c1 bs"
  let ?z = "doc_bytes (ext_after ?c1 bs) (close_events fin)"
  have b: "message_bytes fpi es = ?x @ ?y @ ?z" by (simp add: message_bytes_def p(3) doc_bytes_append)
  have n: "length xs + length ?x + length ?y + length ?z \<le> cap" "cap < 2 ^ 29" using fit cap_bound [OF w] unfolding b by simp_all
  from message_started [OF s w v p(1)] n obtain t1 e1 where
    t1: "smlStartMessageExt iid h v t = Some (SML_ERR_OK, t1)" "sending t1 iid a (i\<lparr>ii_encoder := Some e1\<rparr>)"
      "encoding e1 (length (doc_bytes SML_EXT_UNDEFINED hs))" "xe_cur_ext e1 = ?c1" "workspace (tk_wsm t1) iid (xs @ ?x) cap"
      "tk_heap t1 = tk_heap t" by auto
  from send_commands_ok [OF t1(2) _ t1(3) _ t1(5) p(2), of app w0] n t1(4) obtain t2 e2 k where
    t2: "send_commands app iid cs t1 w0 = Some (SML_ERR_OK, t2, w0)" "sending t2 iid a (i\<lparr>ii_encoder := Some e2\<rparr>)"
      "encoding e2 k" "xe_cur_ext e2 = ext_after ?c1 bs" "workspace (tk_wsm t2) iid ((xs @ ?x) @ ?y) cap" "tk_heap t2 = tk_heap t1"
    by auto
  from message_ended [OF t2(2) _ t2(3,5), of fin] n t2(4) obtain t3 where
    "smlEndMessage iid fin t2 = Some (SML_ERR_OK, t3)" "sending t3 iid a (i\<lparr>ii_encoder := None\<rparr>)"
    "workspace (tk_wsm t3) iid (((xs @ ?x) @ ?y) @ ?z) cap" "tk_heap t3 = tk_heap t2" by auto
  with t1(1,6) t2(1,6) show ?thesis unfolding b by (simp add: send_message_def)
qed

end
