(* ===== verification/Wsm_Create.thy ===== *)
theory Wsm_Create
  imports Wsm_Spec
begin

text \<open>
  \<open>wsmCreate\<close> against its contract: a full table, too little memory, a new name, a name that
  exists (the buffer is resized and loses its contents) and a name whose buffer is locked.
\<close>

lemma getNextFreeEntry_cases:
  assumes inv: "wsm_inv s"
  obtains (full) "getNextFreeEntry s = Some (- 1)" "\<forall>j<4. memH (wsmBuf s ! j) \<noteq> - 1"
  | (free) i where "getNextFreeEntry s = Some (int i)" "i < 4" "memH (wsmBuf s ! i) = - 1"
      "\<forall>l<i. memH (wsmBuf s ! l) \<noteq> - 1" "buf_index (\<lambda>e. memH e = - 1) (wsmBuf s) = Some i"
proof (cases "buf_index (\<lambda>e. memH e = - 1) (wsmBuf s)")
  case None
  then show ?thesis
    using full inv_basic(1,3) [OF inv] None [unfolded buf_index_None]
    by (simp add: getNextFreeEntry_def WSM_MEMH_UNUSED_def None)
next
  case (Some i)
  with buf_index_Some [OF Some] show ?thesis
    using free [of i] inv_basic(1,3) [OF inv] by (simp add: getNextFreeEntry_def WSM_MEMH_UNUSED_def)
qed

lemma smCreate_new:
  assumes inv: "wsm_inv s" and n: "0 < n" and nm: "nm \<notin> memName ` set (wsmSm s)"
    and i: "i < 4" "memH (wsmBuf s ! i) = - 1" "\<forall>l<i. memH (wsmBuf s ! l) \<noteq> - 1"
  shows "smCreate nm n 0 s = Some (SML_ERR_OK, int i + 1,
     s\<lparr>mallocs := Suc (Suc (Suc (mallocs s))), heap := (heap s)(hnext s \<mapsto> replicate (nat n) None),
       hnext := Suc (hnext s),
       wsmSm := wsmSm s @ [\<lparr>memName = nm, winH = Some (hnext s), sm_memH = int i + 1, locked = False,
         memSize = n, live = True\<rparr>]\<rparr>)"
proof -
  note basic = inv_basic [OF inv]
  have "locateEle (Some nm) s = Some None" using basic(6) nm by (rule locateEle_none)
  moreover have "first_unused 0 s 0 = Some i" using basic(1,3) i by (intro first_unused_at) auto
  moreover have "\<not> (\<exists>n \<in> set (wsmSm s). \<not> live n)" using basic(6) by blast
  ultimately show ?thesis
    using n i(1) basic(11)
    by (simp add: smCreate_def newListEle_def MAX_WSM_BUFFERS_def c_malloc_def block_malloc_def
        node_upd_def Let_def nth_append list_update_append)
qed

lemma no_other_handle:
  assumes inv: "wsm_inv s" and i: "i < 4" "memH (wsmBuf s ! i) = - 1"
  shows "\<forall>e \<in> set (wsmBuf s). memH e \<noteq> int i + 1"
proof
  fix e assume "e \<in> set (wsmBuf s)"
  then obtain j where j: "j < 4" "e = wsmBuf s ! j" using inv_basic(3) [OF inv] by (auto simp: in_set_conv_nth)
  show "memH e \<noteq> int i + 1"
  proof (cases "j = i")
    case False
    with inv j show ?thesis unfolding wsm_inv_def by (auto simp: free_ok_def pair_ok_def)
  qed (use i j in simp)
qed

lemma wsmCreate_full:
  assumes inv: "wsm_inv s" and full: "\<forall>h \<in> {1..4}. wsm_view s h \<noteq> None"
  shows "\<exists>s'. wsmCreate nm n s = Some (SML_ERR_WSM_BUF_TABLE_FULL, 0, s') \<and> wsm_inv s' \<and> wsm_view s' = wsm_view s"
proof -
  note basic = inv_basic [OF inv]
  from inv show ?thesis
  proof (cases rule: getNextFreeEntry_cases)
    case full
    with basic(1,2) inv show ?thesis by (simp add: wsmCreate_def)
  next
    case (free i)
    with full obtain v where v: "wsm_view s (int i + 1) = Some v" by force
    from known_op [OF inv v] obtain i' k b where at: "known_at s (int i + 1) v i' k b" .
    then have "memH (wsmBuf s ! i) = int i + 1" using known_atD(2,13) [OF at] by simp
    with free show ?thesis by simp
  qed
qed

lemma view_free:
  assumes inv: "wsm_inv s" and h: "h \<in> {1..4}" "wsm_view s h = None"
  obtains i where "getNextFreeEntry s = Some (int i)" "i < 4" "memH (wsmBuf s ! i) = - 1"
      "\<forall>l<i. memH (wsmBuf s ! l) \<noteq> - 1" "buf_index (\<lambda>e. memH e = - 1) (wsmBuf s) = Some i"
  using inv
proof (cases rule: getNextFreeEntry_cases)
  case full
  define j where "j = nat (h - 1)"
  have j: "j < 4" "h = int j + 1" using h(1) by (auto simp: j_def)
  with full(2) inv obtain n where n: "n \<in> set (wsmSm s)" "pair_ok (heap s) (int j + 1) (wsmBuf s ! j) n"
    unfolding wsm_inv_def by (auto simp: free_ok_def)
  then obtain l where "l < length (wsmSm s)" "n = wsmSm s ! l" by (auto simp: in_set_conv_nth)
  with n(2) j have "wsm_view s h = Some (view_of s n)"
    using view_Some_iff [OF inv_basic(7) [OF inv]] by (auto simp: pair_ok_def)
  with h(2) show ?thesis by simp
qed

lemma wsmCreate_no_memory:
  assumes inv: "wsm_inv s" and h: "h \<in> {1..4}" "wsm_view s h = None" and n: "0 \<le> n" "n < 2 ^ 29"
    and mem: "maxWsmAvailMem s \<noteq> 0" "n + wsm_total s > maxWsmAvailMem s"
  shows "wsmCreate nm n s = Some (SML_ERR_NOT_ENOUGH_SPACE, 0, s)"
proof -
  from view_free [OF inv h] obtain i where i: "getNextFreeEntry s = Some (int i)" "i < 4"
    "memH (wsmBuf s ! i) = - 1" by metis
  from isMemAvailable_inv [OF inv n i(2,3)] mem inv_basic(1,2) [OF inv] i(1) show ?thesis
    by (simp add: wsmCreate_def)
qed

text \<open>The steps behind the checks, for a name that is new and for one that exists.\<close>

lemma wsmCreate_new:
  assumes inv: "wsm_inv s" and h: "h \<in> {1..4}" "wsm_view s h = None" and n: "0 < n" "n < 2 ^ 29"
    and mem: "maxWsmAvailMem s = 0 \<or> n + wsm_total s \<le> maxWsmAvailMem s"
    and nm: "\<forall>h v. wsm_view s h = Some v \<longrightarrow> v_name v \<noteq> nm"
  shows "\<exists>h s'. wsmCreate nm n s = Some (SML_ERR_OK, h, s') \<and> h \<in> {1..4} \<and> wsm_view s h = None \<and> wsm_inv s'
    \<and> wsm_view s' = (wsm_view s)(h \<mapsto> \<lparr>v_name = nm, v_block = replicate (nat n) None, v_used = 0, v_locked = False\<rparr>)"
proof -
  note basic = inv_basic [OF inv]
  from view_free [OF inv h] obtain i where i: "getNextFreeEntry s = Some (int i)" "i < 4"
    "memH (wsmBuf s ! i) = - 1" "\<forall>l<i. memH (wsmBuf s ! l) \<noteq> - 1"
    "buf_index (\<lambda>e. memH e = - 1) (wsmBuf s) = Some i" .
  have nm': "nm \<notin> memName ` set (wsmSm s)" using nm names_view [OF inv] by blast
  let ?node = "\<lparr>memName = nm, winH = Some (hnext s), sm_memH = int i + 1, locked = False, memSize = n, live = True\<rparr>"
  let ?hp = "(heap s)(hnext s \<mapsto> replicate (nat n) None)"
  let ?s1 = "s\<lparr>mallocs := Suc (Suc (Suc (mallocs s))), heap := ?hp, hnext := Suc (hnext s),
     wsmSm := wsmSm s @ [?node], wsmRet := SML_ERR_OK\<rparr>"
  have o: "wsm_obtain nm n s = Some (SML_ERR_OK, int i + 1, ?s1)"
    using smCreate_new [OF inv n(1) nm' i(2,3,4)] by (simp add: wsm_obtain_def Let_def)
  have l: "lookup (int i + 1) ?s1 = Some (- 1, ?s1)"
    using basic(1,3,4,5) no_other_handle [OF inv i(2,3)] by (intro lookup_unknown) simp_all
  let ?e = "(wsmBuf s ! i)\<lparr>memH := int i + 1, pFirstFree := NULL, pFirstData := NULL, bsize := 0, usedBytes := 0,
     flags := WSM_VALID_F, bufName := None\<rparr>"
  let ?s2 = "?s1\<lparr>wsmIndex := int i, wsmBuf := (wsmBuf s)[i := ?e]\<rparr>"
  have r: "resetBufferGlobals (int i + 1) ?s1 = Some (int i, ?s2)"
    using basic(1,3) i by (simp add: resetBufferGlobals_def l getNextFreeEntry_def WSM_MEMH_UNUSED_def
        buf_upd_ok Let_def)
  let ?e2 = "?e\<lparr>bsize := n, bufName := Some nm\<rparr>"
  have "\<exists>s'. wsmCreate nm n s = Some (SML_ERR_OK, int i + 1, s')
      \<and> globals s' = globals s \<and> initWasCalled s' = initWasCalled s \<and> wsmBuf s' = (wsmBuf s)[i := ?e2]
      \<and> wsmSm s' = wsmSm s @ [?node] \<and> heap s' = ?hp \<and> hnext s' = Suc (hnext s) \<and> oom s' = oom s
      \<and> wsmIndex s' = int i"
    using basic(1,2,3,11) i(1,2) isMemAvailable_inv [OF inv _ n(2) i(2,3)] n(1) mem
    by (simp add: wsmCreate_def o r [simplified] c_malloc_def buf_upd_ok Let_def)
  then obtain s' where s': "wsmCreate nm n s = Some (SML_ERR_OK, int i + 1, s')"
      "globals s' = globals s" "initWasCalled s' = initWasCalled s" "wsmBuf s' = (wsmBuf s)[i := ?e2]"
      "wsmSm s' = wsmSm s @ [?node]" "heap s' = ?hp" "hnext s' = Suc (hnext s)" "oom s' = oom s"
      "wsmIndex s' = int i" by blast
  have p: "pair_ok ?hp (int i + 1) ?e2 ?node" using n by (simp add: pair_ok_def WSM_VALID_F_def)
  have "wsm_inv s' \<and> wsm_view s' = (wsm_view s)(int i + 1 \<mapsto> \<lparr>v_name = nm,
      v_block = replicate (nat n) None, v_used = 0, v_locked = False\<rparr>)"
    using inv_add [OF inv i(2,3) p _ _ _ s'(2-8)] nm' i(2) s'(9) by simp
  moreover have "wsm_view s (int i + 1) = None"
  proof (rule ccontr)
    assume "wsm_view s (int i + 1) \<noteq> None"
    then obtain v where "wsm_view s (int i + 1) = Some v" by blast
    from known_op [OF inv this] obtain i' k b where "known_at s (int i + 1) v i' k b" .
    from known_atD(2,13) [OF this] i(3) show False by simp
  qed
  ultimately show ?thesis using s'(1) i(2) by (intro exI [of _ "int i + 1"] exI [of _ s']) simp
qed

lemma name_located:
  assumes "known_at s h v i k b"
  shows "locateEle (Some (v_name v)) s = Some (Some k)"
  using known_atD [OF assms] inv_basic(6,8) [of s] by (intro locateEle_at) simp_all

lemma wsmCreate_locked:
  assumes inv: "wsm_inv s" and f: "f \<in> {1..4}" "wsm_view s f = None" and n: "0 < n" "n < 2 ^ 29"
    and v: "wsm_view s h = Some v" "v_locked v"
  shows "\<exists>g s'. wsmCreate (v_name v) n s = Some (SML_ERR_NOT_ENOUGH_SPACE, g, s') \<and> wsm_inv s' \<and> wsm_view s' = wsm_view s"
proof -
  note basic = inv_basic [OF inv]
  from view_free [OF inv f] obtain j where j: "getNextFreeEntry s = Some (int j)" "j < 4"
    "memH (wsmBuf s ! j) = - 1" by metis
  from known_op [OF inv v(1)] obtain i k b where at: "known_at s h v i k b" .
  note a = known_atD [OF at]
  have loc: "locateEle (Some (v_name v)) (s\<lparr>wsmRet := r\<rparr>) = locateEle (Some (v_name v)) s" for r
    by (simp add: locateEle_def)
  have "wsm_obtain (v_name v) n s = Some (SML_ERR_NOT_ENOUGH_SPACE, h, s\<lparr>wsmRet := SML_ERR_NOT_ENOUGH_SPACE\<rparr>)"
    using n a(2,5,6,9,12) v(2) name_located [OF at]
    by (simp add: wsm_obtain_def smCreate_def smOpen_def smSetSize_def loc Let_def
        handle_at_steps(4) [where h = "int i + 1" and i = i and k = k])
  with isMemAvailable_inv [OF inv _ n(2) j(2,3)] basic(1,2) j(1) n(1) inv
  show ?thesis by (cases "maxWsmAvailMem s = 0 \<or> n + wsm_total s \<le> maxWsmAvailMem s") (simp_all add: wsmCreate_def)
qed

lemma wsmCreate_resize:
  assumes inv: "wsm_inv s" and f: "f \<in> {1..4}" "wsm_view s f = None" and n: "0 < n" "n < 2 ^ 29"
    and mem: "maxWsmAvailMem s = 0 \<or> n + wsm_total s \<le> maxWsmAvailMem s"
    and v: "wsm_view s h = Some v" "\<not> v_locked v"
  shows "\<exists>s'. wsmCreate (v_name v) n s = Some (SML_ERR_OK, h, s') \<and> wsm_inv s'
    \<and> wsm_view s' = (wsm_view s)(h \<mapsto> v\<lparr>v_block := replicate (nat n) None, v_used := 0\<rparr>)"
proof -
  note basic = inv_basic [OF inv]
  from view_free [OF inv f] obtain j where j: "getNextFreeEntry s = Some (int j)" "j < 4"
    "memH (wsmBuf s ! j) = - 1" by metis
  from known_op [OF inv v(1)] obtain i k b where at: "known_at s h v i k b" .
  note a = known_atD [OF at]
  let ?node = "(wsmSm s ! k)\<lparr>winH := Some (hnext s), memSize := n\<rparr>"
  let ?hp = "(heap s)(b := None, hnext s \<mapsto> replicate (nat n) None)"
  let ?s1 = "s\<lparr>wsmRet := SML_ERR_OK, heap := ?hp, mallocs := Suc (mallocs s), hnext := Suc (hnext s),
     wsmSm := (wsmSm s)[k := ?node]\<rparr>"
  have loc: "locateEle (Some (v_name v)) (s\<lparr>wsmRet := r\<rparr>) = locateEle (Some (v_name v)) s" for r
    by (simp add: locateEle_def)
  have "\<exists>s1. wsm_obtain (v_name v) n s = Some (SML_ERR_OK, h, s1)
      \<and> globals s1 = globals s \<and> initWasCalled s1 = initWasCalled s \<and> wsmBuf s1 = wsmBuf s
      \<and> wsmSm s1 = (wsmSm s)[k := ?node] \<and> heap s1 = ?hp \<and> hnext s1 = Suc (hnext s) \<and> oom s1 = oom s
      \<and> wsmIndex s1 = wsmIndex s"
    using n a(2,5,6,7,9,11,12,14) v(2) name_located [OF at] basic(11)
    by (simp add: wsm_obtain_def smCreate_def smOpen_def smSetSize_def loc Let_def block_free_def
        block_malloc_def c_malloc_def node_upd_def
        handle_at_steps(4) [where h = "int i + 1" and i = i and k = k])
  then obtain s1 where s1: "wsm_obtain (v_name v) n s = Some (SML_ERR_OK, h, s1)"
      "globals s1 = globals s" "initWasCalled s1 = initWasCalled s" "wsmBuf s1 = wsmBuf s"
      "wsmSm s1 = (wsmSm s)[k := ?node]" "heap s1 = ?hp" "hnext s1 = Suc (hnext s)" "oom s1 = oom s"
      "wsmIndex s1 = wsmIndex s" by blast
  have l: "lookup h s1 = Some (int i, s1\<lparr>wsmIndex := int i\<rparr>)"
    using basic(1,3,4,5) s1 a(2,3) memH_iff [OF inv a(3,13)] by (intro lookup_at) auto
  let ?e = "(wsmBuf s ! i)\<lparr>pFirstFree := NULL, pFirstData := NULL, bsize := 0, usedBytes := 0,
     flags := WSM_VALID_F, bufName := None\<rparr>"
  have r: "resetBufferGlobals h s1 = Some (int i, s1\<lparr>wsmIndex := int i, wsmBuf := (wsmBuf s)[i := ?e]\<rparr>)"
    using basic(1,3) a(3) s1 by (simp add: resetBufferGlobals_def l buf_upd_ok Let_def)
  let ?e2 = "?e\<lparr>bsize := n, bufName := Some (v_name v)\<rparr>"
  have "\<exists>s'. wsmCreate (v_name v) n s = Some (SML_ERR_OK, h, s')
      \<and> globals s' = globals s \<and> initWasCalled s' = initWasCalled s \<and> wsmBuf s' = (wsmBuf s)[i := ?e2]
      \<and> wsmSm s' = (wsmSm s)[k := ?node] \<and> heap s' = ?hp \<and> hnext s' = Suc (hnext s) \<and> oom s' = oom s
      \<and> wsmIndex s' = int i"
    using basic(1,2,3,11) j(1,2) a(3) isMemAvailable_inv [OF inv _ n(2) j(2,3)] n(1) mem s1(2-)
    by (simp add: wsmCreate_def s1(1) r c_malloc_def buf_upd_ok Let_def)
  then obtain s' where s': "wsmCreate (v_name v) n s = Some (SML_ERR_OK, h, s')"
      "globals s' = globals s" "initWasCalled s' = initWasCalled s" "wsmBuf s' = (wsmBuf s)[i := ?e2]"
      "wsmSm s' = (wsmSm s)[k := ?node]" "heap s' = ?hp" "hnext s' = Suc (hnext s)" "oom s' = oom s"
      "wsmIndex s' = int i" by blast
  have nb: "heap s (hnext s) = None" using basic(10) by blast
  have p: "pair_ok ?hp (int i + 1) ?e2 ?node" using n a(8,9,11,12,13) v(2) by (simp add: pair_ok_def WSM_VALID_F_def)
  have fr: "\<forall>c. ?hp c \<noteq> None \<longrightarrow> c < hnext s'" using basic(10) s'(7) by (auto simp: less_Suc_eq)
  have "wsm_inv s' \<and> wsm_view s' = (wsm_view s)(int i + 1 \<mapsto> \<lparr>v_name = v_name v,
      v_block = replicate (nat n) None, v_used = 0, v_locked = False\<rparr>)"
    using inv_update [OF inv a(3,5,19,7) p _ _ _ _ fr s'(2-6,8)] s'(9) a(3,8,9) v(2) nb by simp
  moreover have "\<lparr>v_name = v_name v, v_block = replicate (nat n) None, v_used = 0, v_locked = False\<rparr>
      = v\<lparr>v_block := replicate (nat n) None, v_used := 0\<rparr>" using v(2) by (cases v) simp
  ultimately show ?thesis using s'(1) a(2) by auto
qed

end
