(* ===== verification/Wsm_Props.thy ===== *)
theory Wsm_Props
  imports Wsm_Create
begin

text \<open>
  The workspace manager as an abstract machine and as a byte queue: the specification steps that
  each API call implements, reachability from \<open>wsmInit\<close>, the queue contract that the command
  builder and the parser rely on, and the properties of the component.
\<close>

section \<open>API calls and their specification\<close>

datatype wsm_op =
    Op_create "byte list" nat
  | Op_destroy "byte list"
  | Op_lock int SmlBufPtrPos
  | Op_unlock int
  | Op_set_used int nat
  | Op_processed int nat
  | Op_reset int

definition wsm_do :: "wsm_op \<Rightarrow> wsm \<Rightarrow> (ret \<times> wsm) option" where
  "wsm_do opr s = (case opr of
     Op_create nm n \<Rightarrow> do { (r, _, s) \<leftarrow> wsmCreate nm (int n) s; Some (r, s) }
   | Op_destroy nm \<Rightarrow> wsmDestroy (Some nm) s
   | Op_lock h pos \<Rightarrow> do { (r, _, s) \<leftarrow> wsmLockH h pos NULL s; Some (r, s) }
   | Op_unlock h \<Rightarrow> wsmUnlockH h s
   | Op_set_used h n \<Rightarrow> wsmSetUsedSize h (int n) s
   | Op_processed h n \<Rightarrow> wsmProcessedBytes h (int n) s
   | Op_reset h \<Rightarrow> wsmReset h s)"

text \<open>The bytes that all buffers take together.\<close>

definition view_total :: "(int \<Rightarrow> wview option) \<Rightarrow> int" where
  "view_total A = (\<Sum>h \<in> {1..4}. case A h of None \<Rightarrow> 0 | Some v \<Rightarrow> int (length (v_block v)))"

definition fits :: "int \<Rightarrow> (int \<Rightarrow> wview option) \<Rightarrow> nat \<Rightarrow> bool" where
  "fits L A n \<longleftrightarrow> L = 0 \<or> int n + view_total A \<le> L"

text \<open>
  What the calls promise on the abstract view, under the memory limit \<open>L\<close> (0 for none). A call
  with an error code leaves the view alone; \<open>Op_reset\<close> has no error code, so it needs a known
  handle.
\<close>

inductive spec_step :: "int \<Rightarrow> (int \<Rightarrow> wview option) \<Rightarrow> wsm_op \<Rightarrow> ret \<Rightarrow> (int \<Rightarrow> wview option) \<Rightarrow> bool" for L where
  create_full: "\<forall>h \<in> {1..4}. A h \<noteq> None \<Longrightarrow> spec_step L A (Op_create nm n) SML_ERR_WSM_BUF_TABLE_FULL A"
| create_memory: "h \<in> {1..4} \<Longrightarrow> A h = None \<Longrightarrow> \<not> fits L A n \<Longrightarrow>
    spec_step L A (Op_create nm n) SML_ERR_NOT_ENOUGH_SPACE A"
| create_locked: "f \<in> {1..4} \<Longrightarrow> A f = None \<Longrightarrow> 0 < n \<Longrightarrow> A h = Some v \<Longrightarrow> v_locked v \<Longrightarrow>
    spec_step L A (Op_create (v_name v) n) SML_ERR_NOT_ENOUGH_SPACE A"
| create_size: "h \<in> {1..4} \<Longrightarrow> A h = None \<Longrightarrow> fits L A 0 \<Longrightarrow> spec_step L A (Op_create nm 0) SML_ERR_INVALID_SIZE A"
| create_new: "0 < n \<Longrightarrow> fits L A n \<Longrightarrow> h \<in> {1..4} \<Longrightarrow> A h = None \<Longrightarrow>
    \<forall>h v. A h = Some v \<longrightarrow> v_name v \<noteq> nm \<Longrightarrow>
    spec_step L A (Op_create nm n) SML_ERR_OK
      (A(h \<mapsto> \<lparr>v_name = nm, v_block = replicate n None, v_used = 0, v_locked = False\<rparr>))"
| create_resize: "f \<in> {1..4} \<Longrightarrow> A f = None \<Longrightarrow> 0 < n \<Longrightarrow> fits L A n \<Longrightarrow> A h = Some v \<Longrightarrow> \<not> v_locked v \<Longrightarrow>
    spec_step L A (Op_create (v_name v) n) SML_ERR_OK (A(h \<mapsto> v\<lparr>v_block := replicate n None, v_used := 0\<rparr>))"
| destroy: "A h = Some v \<Longrightarrow> spec_step L A (Op_destroy (v_name v)) SML_ERR_OK (A(h := None))"
| destroy_unknown: "\<forall>h v. A h = Some v \<longrightarrow> v_name v \<noteq> nm \<Longrightarrow> spec_step L A (Op_destroy nm) SML_ERR_INVALID_HANDLE A"
| lock: "A h = Some v \<Longrightarrow> \<not> v_locked v \<Longrightarrow> spec_step L A (Op_lock h pos) SML_ERR_OK (A(h \<mapsto> v\<lparr>v_locked := True\<rparr>))"
| lock_locked: "A h = Some v \<Longrightarrow> v_locked v \<Longrightarrow> spec_step L A (Op_lock h pos) SML_ERR_WRONG_USAGE A"
| lock_unknown: "A h = None \<Longrightarrow> spec_step L A (Op_lock h pos) SML_ERR_INVALID_HANDLE A"
| unlock: "A h = Some v \<Longrightarrow> v_locked v \<Longrightarrow> spec_step L A (Op_unlock h) SML_ERR_OK (A(h \<mapsto> v\<lparr>v_locked := False\<rparr>))"
| unlock_unlocked: "A h = Some v \<Longrightarrow> \<not> v_locked v \<Longrightarrow> spec_step L A (Op_unlock h) SML_ERR_WRONG_USAGE A"
| unlock_unknown: "A h = None \<Longrightarrow> spec_step L A (Op_unlock h) SML_ERR_INVALID_HANDLE A"
| used: "A h = Some v \<Longrightarrow> v_locked v \<Longrightarrow> v_used v + n \<le> length (v_block v) \<Longrightarrow>
    spec_step L A (Op_set_used h n) SML_ERR_OK (A(h \<mapsto> v\<lparr>v_used := v_used v + n\<rparr>))"
| used_size: "A h = Some v \<Longrightarrow> v_locked v \<Longrightarrow> length (v_block v) < v_used v + n \<Longrightarrow>
    spec_step L A (Op_set_used h n) SML_ERR_INVALID_SIZE A"
| used_unlocked: "A h = Some v \<Longrightarrow> \<not> v_locked v \<Longrightarrow> spec_step L A (Op_set_used h n) SML_ERR_WRONG_USAGE A"
| used_unknown: "A h = None \<Longrightarrow> spec_step L A (Op_set_used h n) SML_ERR_INVALID_HANDLE A"
| processed: "A h = Some v \<Longrightarrow> v_locked v \<Longrightarrow> n \<le> v_used v \<Longrightarrow>
    spec_step L A (Op_processed h n) SML_ERR_OK (A(h \<mapsto> v\<lparr>v_block := moved n v, v_used := v_used v - n\<rparr>))"
| processed_size: "A h = Some v \<Longrightarrow> v_locked v \<Longrightarrow> v_used v < n \<Longrightarrow>
    spec_step L A (Op_processed h n) SML_ERR_INVALID_SIZE A"
| processed_unlocked: "A h = Some v \<Longrightarrow> \<not> v_locked v \<Longrightarrow> spec_step L A (Op_processed h n) SML_ERR_WRONG_USAGE A"
| processed_unknown: "A h = None \<Longrightarrow> spec_step L A (Op_processed h n) SML_ERR_INVALID_HANDLE A"
| reset: "A h = Some v \<Longrightarrow> spec_step L A (Op_reset h) SML_ERR_OK (A(h \<mapsto> v\<lparr>v_used := 0\<rparr>))"

text \<open>The arguments for which the calls are specified: sizes within the range of the machine.\<close>

definition op_ok :: "(int \<Rightarrow> wview option) \<Rightarrow> wsm_op \<Rightarrow> bool" where
  "op_ok A opr = (case opr of
     Op_create nm n \<Rightarrow> n < 2 ^ 29
   | Op_lock h pos \<Rightarrow> pos \<noteq> Other_item
   | Op_set_used h n \<Rightarrow> n < 2 ^ 31
   | Op_reset h \<Rightarrow> A h \<noteq> None
   | _ \<Rightarrow> True)"

lemma wsmCreate_zero:
  assumes inv: "wsm_inv s" and f: "f \<in> {1..4}" "wsm_view s f = None"
    and mem: "maxWsmAvailMem s = 0 \<or> wsm_total s \<le> maxWsmAvailMem s"
  shows "\<exists>s'. wsmCreate nm 0 s = Some (SML_ERR_INVALID_SIZE, 0, s') \<and> wsm_inv s' \<and> wsm_view s' = wsm_view s"
proof -
  from view_free [OF inv f] obtain j where j: "getNextFreeEntry s = Some (int j)" "j < 4"
    "memH (wsmBuf s ! j) = - 1" by metis
  have "wsm_obtain nm 0 s = Some (SML_ERR_INVALID_SIZE, 0, s\<lparr>wsmRet := SML_ERR_INVALID_SIZE\<rparr>)"
    by (simp add: wsm_obtain_def smCreate_def Let_def)
  with isMemAvailable_inv [OF inv _ _ j(2,3), of 0] mem inv_basic(1,2) [OF inv] j(1) inv
  show ?thesis by (simp add: wsmCreate_def)
qed

lemma sum_list_filter_index:
  "sum_list (map f (filter P xs)) = (\<Sum>i < length xs. if P (xs ! i) then f (xs ! i) else (0 :: int))"
  by (induction xs) (simp_all add: sum.lessThan_Suc_shift del: sum.lessThan_Suc cong: if_cong)

lemma wsm_total_view:
  assumes inv: "wsm_inv s"
  shows "wsm_total s = view_total (wsm_view s)"
proof -
  note basic = inv_basic [OF inv]
  have entry: "(if memH (wsmBuf s ! i) \<noteq> - 1 then bsize (wsmBuf s ! i) else 0)
      = (case wsm_view s (int i + 1) of None \<Rightarrow> 0 | Some v \<Rightarrow> int (length (v_block v)))" if i: "i < 4" for i
  proof (cases "wsm_view s (int i + 1)")
    case (Some v)
    from known_op [OF inv Some] obtain i' k b where at: "known_at s (int i + 1) v i' k b" .
    from known_atD(2,13,16) [OF at] Some show ?thesis by simp
  next
    case None
    have "free_ok (wsmBuf s ! i)"
    proof (rule ccontr)
      assume "\<not> free_ok (wsmBuf s ! i)"
      with inv i obtain n where n: "n \<in> set (wsmSm s)" "pair_ok (heap s) (int i + 1) (wsmBuf s ! i) n"
        unfolding wsm_inv_def by blast
      then obtain l where "l < length (wsmSm s)" "n = wsmSm s ! l" by (auto simp: in_set_conv_nth)
      with n(2) have "wsm_view s (int i + 1) = Some (view_of s n)"
        using view_Some_iff [OF basic(7)] by (auto simp: pair_ok_def)
      with None show False by simp
    qed
    with None show ?thesis by (simp add: free_ok_def)
  qed
  have "wsm_total s = (\<Sum>i < 4. case wsm_view s (int i + 1) of None \<Rightarrow> 0 | Some v \<Rightarrow> int (length (v_block v)))"
    unfolding wsm_total_def sum_list_filter_index basic(3) using entry by (intro sum.cong) auto
  also have "\<dots> = view_total (wsm_view s)"
    unfolding view_total_def
    by (rule sum.reindex_bij_witness [where i = "\<lambda>h. nat (h - 1)" and j = "\<lambda>i. int i + 1"]) auto
  finally show ?thesis .
qed

lemma create_refines:
  assumes inv: "wsm_inv s" and n: "n < 2 ^ 29"
  shows "\<exists>r g s'. wsmCreate nm (int n) s = Some (r, g, s') \<and> wsm_inv s'
    \<and> spec_step (maxWsmAvailMem s) (wsm_view s) (Op_create nm n) r (wsm_view s')"
proof (cases "\<forall>h \<in> {1..4}. wsm_view s h \<noteq> None")
  case True
  with wsmCreate_full [OF inv True, of nm "int n"] create_full [OF True, of "maxWsmAvailMem s" nm n]
  show ?thesis by auto
next
  case False
  then obtain f where f: "f \<in> {1..4}" "wsm_view s f = None" by blast
  have n': "0 \<le> int n" "int n < 2 ^ 29" using n by simp_all
  have fits: "fits (maxWsmAvailMem s) (wsm_view s) n
      \<longleftrightarrow> maxWsmAvailMem s = 0 \<or> int n + wsm_total s \<le> maxWsmAvailMem s"
    by (simp add: fits_def wsm_total_view [OF inv])
  show ?thesis
  proof (cases "fits (maxWsmAvailMem s) (wsm_view s) n")
    case False
    with wsmCreate_no_memory [OF inv f n', of nm] inv create_memory [OF f False, of nm] fits
    show ?thesis by auto
  next
    case mem: True
    note mem' = mem [unfolded fits]
    consider "n = 0" | "0 < n" "\<forall>h v. wsm_view s h = Some v \<longrightarrow> v_name v \<noteq> nm"
      | h v where "0 < n" "wsm_view s h = Some v" "v_name v = nm" "v_locked v"
      | h v where "0 < n" "wsm_view s h = Some v" "v_name v = nm" "\<not> v_locked v" by blast
    then show ?thesis
    proof cases
      case 1
      with wsmCreate_zero [OF inv f, of nm] mem' create_size [where A = "wsm_view s" and h = f and L = "maxWsmAvailMem s" and nm = nm]  f mem
      show ?thesis by auto
    next
      case 2
      then have pos: "0 < int n" by simp
      from wsmCreate_new [OF inv f pos n'(2) mem' 2(2)] obtain h s' where s':
        "wsmCreate nm (int n) s = Some (SML_ERR_OK, h, s')" "h \<in> {1..4}" "wsm_view s h = None" "wsm_inv s'"
        "wsm_view s' = (wsm_view s)(h \<mapsto> \<lparr>v_name = nm, v_block = replicate (nat (int n)) None, v_used = 0,
           v_locked = False\<rparr>)" by blast
      from create_new [OF 2(1) mem s'(2,3) 2(2)] s' show ?thesis by auto
    next
      case 3
      then have pos: "0 < int n" by simp
      from wsmCreate_locked [OF inv f pos n'(2) 3(2,4)] 3(3)
        create_locked [of f "wsm_view s" n h v "maxWsmAvailMem s", OF f 3(1,2,4)]
      show ?thesis by auto
    next
      case 4
      then have pos: "0 < int n" by simp
      from wsmCreate_resize [OF inv f pos n'(2) mem' 4(2,4)] 4(3)
        create_resize [of f "wsm_view s" n "maxWsmAvailMem s" h v, OF f 4(1) mem 4(2,4)]
      show ?thesis by auto
    qed
  qed
qed

lemma wsm_do_refines:
  assumes inv: "wsm_inv s" and ok: "op_ok (wsm_view s) opr"
  shows "\<exists>r s'. wsm_do opr s = Some (r, s') \<and> wsm_inv s' \<and> spec_step (maxWsmAvailMem s) (wsm_view s) opr r (wsm_view s')"
proof (cases opr)
  case (Op_create nm n)
  with create_refines [OF inv, of n nm] ok show ?thesis by (force simp: wsm_do_def op_ok_def)
next
  case (Op_destroy nm)
  show ?thesis
  proof (cases "\<forall>h v. wsm_view s h = Some v \<longrightarrow> v_name v \<noteq> nm")
    case True
    with wsmDestroy_unknown [OF inv True] Op_destroy destroy_unknown [OF True, of "maxWsmAvailMem s"] show ?thesis by (auto simp: wsm_do_def)
  next
    case False
    then obtain h v where v: "wsm_view s h = Some v" "v_name v = nm" by blast
    with wsmDestroy_known [OF inv v(1)] Op_destroy destroy [of "wsm_view s" h v "maxWsmAvailMem s"] v(1) show ?thesis by (auto simp: wsm_do_def)
  qed
next
  case (Op_lock h pos)
  show ?thesis
  proof (cases "wsm_view s h")
    case None
    with unknown_handle(1) [OF inv None, of pos NULL] Op_lock lock_unknown [of "wsm_view s" h]
    show ?thesis by (fastforce simp: wsm_do_def)
  next
    case (Some v)
    with wsmLockH_known [OF inv Some, of pos NULL] ok Op_lock lock [where pos = pos and A = "wsm_view s" and h = h and v = v and L = "maxWsmAvailMem s"] lock_locked [where pos = pos and A = "wsm_view s" and h = h and v = v and L = "maxWsmAvailMem s"]
    show ?thesis by (fastforce simp: wsm_do_def op_ok_def split: if_splits)
  qed
next
  case (Op_unlock h)
  show ?thesis
  proof (cases "wsm_view s h")
    case None
    with unknown_handle(2) [OF inv None] Op_unlock unlock_unknown [of "wsm_view s" h]
    show ?thesis by (fastforce simp: wsm_do_def)
  next
    case (Some v)
    with wsmUnlockH_known [OF inv Some] Op_unlock unlock [where A = "wsm_view s" and h = h and v = v and L = "maxWsmAvailMem s"] unlock_unlocked [where A = "wsm_view s" and h = h and v = v and L = "maxWsmAvailMem s"]
    show ?thesis by (fastforce simp: wsm_do_def split: if_splits)
  qed
next
  case (Op_set_used h n)
  show ?thesis
  proof (cases "wsm_view s h")
    case None
    with unknown_handle(3) [OF inv None, of "int n"] Op_set_used used_unknown [of "wsm_view s" h]
    show ?thesis by (fastforce simp: wsm_do_def)
  next
    case (Some v)
    from known_op [OF inv Some] obtain i k b where "known_at s h v i k b" .
    note le = known_atD(17) [OF this]
    from ok Op_set_used have "n < 2 ^ 31" by (simp add: op_ok_def)
    from wsmSetUsedSize_known [OF inv Some this] obtain r s' where
      "wsmSetUsedSize h (int n) s = Some (r, s')" "wsm_inv s'"
      "if \<not> v_locked v then r = SML_ERR_WRONG_USAGE \<and> wsm_view s' = wsm_view s
       else if length (v_block v) - v_used v < n then r = SML_ERR_INVALID_SIZE \<and> wsm_view s' = wsm_view s
       else r = SML_ERR_OK \<and> wsm_view s' = (wsm_view s)(h \<mapsto> v\<lparr>v_used := v_used v + n\<rparr>)" by blast
    moreover have "length (v_block v) - v_used v < n \<longleftrightarrow> length (v_block v) < v_used v + n" using le by linarith
    ultimately show ?thesis
      using Op_set_used used [where A = "wsm_view s" and h = h and v = v and n = n and L = "maxWsmAvailMem s", OF Some] used_size [where A = "wsm_view s" and h = h and v = v and n = n and L = "maxWsmAvailMem s", OF Some] used_unlocked [where A = "wsm_view s" and h = h and v = v and n = n and L = "maxWsmAvailMem s", OF Some]
      by (auto simp: wsm_do_def split: if_splits)
  qed
next
  case (Op_processed h n)
  show ?thesis
  proof (cases "wsm_view s h")
    case None
    with unknown_handle(4) [OF inv None, of "int n"] Op_processed processed_unknown [of "wsm_view s" h]
    show ?thesis by (fastforce simp: wsm_do_def)
  next
    case (Some v)
    from wsmProcessedBytes_known [OF inv Some, of n] obtain r s' where
      "wsmProcessedBytes h (int n) s = Some (r, s')" "wsm_inv s'"
      "if \<not> v_locked v then r = SML_ERR_WRONG_USAGE \<and> wsm_view s' = wsm_view s
       else if v_used v < n then r = SML_ERR_INVALID_SIZE \<and> wsm_view s' = wsm_view s
       else r = SML_ERR_OK \<and> wsm_view s' = (wsm_view s)(h \<mapsto> v\<lparr>v_block := moved n v, v_used := v_used v - n\<rparr>)"
      by blast
    then show ?thesis
      using Op_processed processed [where A = "wsm_view s" and h = h and v = v and n = n and L = "maxWsmAvailMem s", OF Some] processed_size [where A = "wsm_view s" and h = h and v = v and n = n and L = "maxWsmAvailMem s", OF Some] processed_unlocked [where A = "wsm_view s" and h = h and v = v and n = n and L = "maxWsmAvailMem s", OF Some]
      by (auto simp: wsm_do_def split: if_splits)
  qed
next
  case (Op_reset h)
  with ok obtain v where v: "wsm_view s h = Some v" by (auto simp: op_ok_def)
  with wsmReset_known [OF inv v] reset [where A = "wsm_view s" and h = h and v = v and L = "maxWsmAvailMem s"] Op_reset show ?thesis by (auto simp: wsm_do_def)
qed

section \<open>Reachability\<close>

text \<open>An anchor before \<open>wsmInit\<close>, with an allocator that never fails.\<close>

definition wsm_start :: "int \<Rightarrow> wsm" where
  "wsm_start L = \<lparr>globals = No_globals, wsmRet = SML_ERR_OK, initWasCalled = False, wsmBuf = [], wsmIndex = 0,
     wsmSm = [], maxWsmAvailMem = L, heap = Map.empty, hnext = 0, oom = (\<lambda>_. False), mallocs = 0\<rparr>"

inductive wsm_reach :: "int option \<Rightarrow> wsm \<Rightarrow> bool" for opts where
  init: "wsmInit opts (wsm_start 0) = Some (SML_ERR_OK, s) \<Longrightarrow> wsm_reach opts s"
| step: "wsm_reach opts s \<Longrightarrow> op_ok (wsm_view s) opr \<Longrightarrow> wsm_do opr s = Some (r, s') \<Longrightarrow> wsm_reach opts s'"

lemma wsmInit_inv:
  "\<exists>s. wsmInit opts (wsm_start L) = Some (SML_ERR_OK, s) \<and> wsm_inv s \<and> wsm_view s = Map.empty"
proof -
  have "\<exists>s. wsmInit opts (wsm_start L) = Some (SML_ERR_OK, s) \<and> globals s = Live_globals \<and> initWasCalled s
     \<and> wsmBuf s = replicate 4 (zero_buf\<lparr>memH := - 1\<rparr>) \<and> wsmIndex s = 0 \<and> wsmSm s = [] \<and> heap s = Map.empty
     \<and> (\<forall>j. \<not> oom s j)"
    by (cases opts) (simp_all add: wsmInit_def createDataStructs_def c_malloc_def wsm_start_def ret_with_def
        MAX_WSM_BUFFERS_def WSM_MEMH_UNUSED_def Let_def)
  moreover have "free_ok (zero_buf\<lparr>memH := - 1\<rparr>)" by (simp add: free_ok_def zero_buf_def)
  ultimately show ?thesis by (auto simp: wsm_inv_def wsm_view_def)
qed

inductive_cases wsm_reachE: "wsm_reach opts s"

lemma wsm_reach_inv: "wsm_reach opts s \<Longrightarrow> wsm_inv s"
proof (induction rule: wsm_reach.induct)
  case (init s)
  with wsmInit_inv [of opts 0] show ?case by auto
next
  case (step s opr r s')
  with wsm_do_refines [of s opr] show ?case by auto
qed

section \<open>The byte queue contract\<close>

text \<open>Putting messages one after the other, and getting pieces of any size, with given operations.\<close>

fun put_all :: "('h \<Rightarrow> 'a list \<Rightarrow> 's \<Rightarrow> 's option) \<Rightarrow> 'h \<Rightarrow> 'a list list \<Rightarrow> 's \<Rightarrow> 's option" where
  "put_all putq h [] s = Some s"
| "put_all putq h (m # ms) s = (case putq h m s of None \<Rightarrow> None | Some s \<Rightarrow> put_all putq h ms s)"

fun get_all :: "('h \<Rightarrow> nat \<Rightarrow> 's \<Rightarrow> ('a list \<times> 's) option) \<Rightarrow> 'h \<Rightarrow> nat list \<Rightarrow> 's \<Rightarrow> ('a list \<times> 's) option" where
  "get_all getq h [] s = Some ([], s)"
| "get_all getq h (n # ns) s = (case getq h n s of None \<Rightarrow> None
     | Some (xs, s) \<Rightarrow> (case get_all getq h ns s of None \<Rightarrow> None | Some (ys, s) \<Rightarrow> Some (xs @ ys, s)))"

text \<open>
  What the users of a workspace rely on: \<open>put\<close> appends to the contents behind a handle while
  there is room, \<open>get\<close> takes bytes off the front.
\<close>

locale byte_queue =
  fixes contents :: "'s \<Rightarrow> 'h \<Rightarrow> 'a list option"
    and room :: "'s \<Rightarrow> 'h \<Rightarrow> nat"
    and putq :: "'h \<Rightarrow> 'a list \<Rightarrow> 's \<Rightarrow> 's option"
    and getq :: "'h \<Rightarrow> nat \<Rightarrow> 's \<Rightarrow> ('a list \<times> 's) option"
    and okq :: "'s \<Rightarrow> bool"
  assumes put_law: "okq s \<Longrightarrow> contents s h = Some xs \<Longrightarrow> length ys \<le> room s h \<Longrightarrow>
      \<exists>s'. putq h ys s = Some s' \<and> okq s' \<and> contents s' = (contents s)(h \<mapsto> xs @ ys)
        \<and> room s' h = room s h - length ys"
    and get_law: "okq s \<Longrightarrow> contents s h = Some xs \<Longrightarrow> n \<le> length xs \<Longrightarrow>
      \<exists>s'. getq h n s = Some (take n xs, s') \<and> okq s' \<and> contents s' = (contents s)(h \<mapsto> drop n xs)
        \<and> room s' h = room s h + n"
begin

lemma put_all_contents:
  assumes "okq s" "contents s h = Some xs" "length (concat ms) \<le> room s h"
  shows "\<exists>s'. put_all putq h ms s = Some s' \<and> okq s' \<and> contents s' = (contents s)(h \<mapsto> xs @ concat ms)"
  using assms
proof (induction ms arbitrary: s xs)
  case (Cons m ms)
  then obtain s1 where s1: "putq h m s = Some s1" "okq s1" "contents s1 = (contents s)(h \<mapsto> xs @ m)"
    "room s1 h = room s h - length m" using put_law [of s h xs m] by auto
  have "contents s1 h = Some (xs @ m)" "length (concat ms) \<le> room s1 h"
    using s1(3,4) Cons.prems(3) by simp_all
  from Cons.IH [OF s1(2) this] obtain s2 where s2: "put_all putq h ms s1 = Some s2" "okq s2"
    "contents s2 = (contents s1)(h \<mapsto> (xs @ m) @ concat ms)" by blast
  have "contents s2 = (contents s)(h \<mapsto> xs @ concat (m # ms))"
    unfolding s2(3) s1(3) by simp
  moreover have "put_all putq h (m # ms) s = Some s2" using s1(1) s2(1) by simp
  ultimately show ?case using s2(2) by blast
qed auto

lemma get_all_contents:
  assumes "okq s" "contents s h = Some xs" "sum_list ns \<le> length xs"
  shows "\<exists>s'. get_all getq h ns s = Some (take (sum_list ns) xs, s') \<and> okq s'
    \<and> contents s' = (contents s)(h \<mapsto> drop (sum_list ns) xs)"
  using assms
proof (induction ns arbitrary: s xs)
  case (Cons n ns)
  then obtain s1 where s1: "getq h n s = Some (take n xs, s1)" "okq s1" "contents s1 = (contents s)(h \<mapsto> drop n xs)"
    using get_law [of s h xs n] by auto
  have "contents s1 h = Some (drop n xs)" "sum_list ns \<le> length (drop n xs)"
    using s1(3) Cons.prems(3) by simp_all
  from Cons.IH [OF s1(2) this] obtain s2 where s2: "get_all getq h ns s1 = Some (take (sum_list ns) (drop n xs), s2)"
    "okq s2" "contents s2 = (contents s1)(h \<mapsto> drop (sum_list ns) (drop n xs))" by blast
  have "contents s2 = (contents s)(h \<mapsto> drop (sum_list (n # ns)) xs)"
    unfolding s2(3) s1(3) by (simp add: add.commute)
  moreover have "get_all getq h (n # ns) s = Some (take (sum_list (n # ns)) xs, s2)"
    using s1(1) s2(1) by (simp add: take_add)
  ultimately show ?case using s2(2) by blast
qed auto

lemma fifo:
  assumes "okq s" "contents s h = Some []" "length (concat ms) \<le> room s h" "sum_list ns = length (concat ms)"
  shows "\<exists>s1 s2. put_all putq h ms s = Some s1 \<and> get_all getq h ns s1 = Some (concat ms, s2)
    \<and> contents s2 = (contents s)(h \<mapsto> [])"
proof -
  from put_all_contents [OF assms(1-3)] obtain s1 where s1: "put_all putq h ms s = Some s1" "okq s1"
    "contents s1 = (contents s)(h \<mapsto> concat ms)" by auto
  then have "contents s1 h = Some (concat ms)" by simp
  from get_all_contents [OF s1(2) this, of ns] assms(4) obtain s2 where
    "get_all getq h ns s1 = Some (concat ms, s2)" "contents s2 = (contents s1)(h \<mapsto> [])" by auto
  with s1(1) show ?thesis by (simp add: s1(3))
qed

end

text \<open>
  The two uses of a workspace: a writer locks it at the first free byte, writes, reports the
  bytes and unlocks (as \<open>smlLockWriteBuffer\<close> and \<open>smlUnlockWriteBuffer\<close> do); a reader locks it at
  the first byte of data, reads, reports the bytes as processed and unlocks.
\<close>

definition wsm_put :: "int \<Rightarrow> byte list \<Rightarrow> wsm \<Rightarrow> wsm option" where
  "wsm_put h xs s = do {
     (r, p, s) \<leftarrow> wsmLockH h SML_FIRST_FREE_ITEM NULL s;
     s \<leftarrow> heap_write p (map Some xs) s;
     (r, s) \<leftarrow> wsmSetUsedSize h (int (length xs)) s;
     (r, s) \<leftarrow> wsmUnlockH h s;
     Some s
   }"

definition wsm_get :: "int \<Rightarrow> nat \<Rightarrow> wsm \<Rightarrow> (byte list \<times> wsm) option" where
  "wsm_get h n s = do {
     (r, p, s) \<leftarrow> wsmLockH h SML_FIRST_DATA_ITEM NULL s;
     xs \<leftarrow> heap_read p (int n) s;
     (r, s) \<leftarrow> wsmProcessedBytes h (int n) s;
     (r, s) \<leftarrow> wsmUnlockH h s;
     if list_all (\<lambda>x. x \<noteq> None) xs then Some (map the xs, s) else None
   }"

text \<open>The contents of an unlocked buffer whose used bytes are all initialised.\<close>

definition wsm_contents :: "wsm \<Rightarrow> int \<Rightarrow> byte list option" where
  "wsm_contents s h = (case wsm_view s h of None \<Rightarrow> None
     | Some v \<Rightarrow> if \<not> v_locked v \<and> list_all (\<lambda>x. x \<noteq> None) (v_data v) then Some (map the (v_data v)) else None)"

definition wsm_room :: "wsm \<Rightarrow> int \<Rightarrow> nat" where
  "wsm_room s h = (case wsm_view s h of None \<Rightarrow> 0 | Some v \<Rightarrow> length (v_block v) - v_used v)"

lemma wsm_contents_upd:
  "wsm_view s' = (wsm_view s)(h \<mapsto> v) \<Longrightarrow> wsm_contents s' = (wsm_contents s)(h :=
     if \<not> v_locked v \<and> list_all (\<lambda>x. x \<noteq> None) (v_data v) then Some (map the (v_data v)) else None)"
  by (auto simp: wsm_contents_def)

lemma wsm_put_law:
  assumes inv: "wsm_inv s" and c: "wsm_contents s h = Some xs" and r: "length ys \<le> wsm_room s h"
  shows "\<exists>s'. wsm_put h ys s = Some s' \<and> wsm_inv s' \<and> wsm_contents s' = (wsm_contents s)(h \<mapsto> xs @ ys)
    \<and> wsm_room s' h = wsm_room s h - length ys"
proof -
  from c obtain v where v: "wsm_view s h = Some v" "\<not> v_locked v" "list_all (\<lambda>x. x \<noteq> None) (v_data v)"
    "xs = map the (v_data v)" by (auto simp: wsm_contents_def split: option.splits if_splits)
  from known_op [OF inv v(1)] obtain i k b where "known_at s h v i k b" .
  note le = known_atD(17,18) [OF this]
  have room: "v_used v + length ys \<le> length (v_block v)" using r v(1) le by (simp add: wsm_room_def)
  from wsmLockH_known [OF inv v(1), of SML_FIRST_FREE_ITEM NULL] v(2) obtain s1 where s1:
    "wsmLockH h SML_FIRST_FREE_ITEM NULL s = Some (SML_ERR_OK, (block_of s1 h, int (v_used v)), s1)" "wsm_inv s1"
    "wsm_view s1 = (wsm_view s)(h \<mapsto> v\<lparr>v_locked := True\<rparr>)" by auto
  let ?blk = "take (v_used v) (v_block v) @ map Some ys @ drop (v_used v + length ys) (v_block v)"
  from heap_write_known [OF s1(2), of h "v\<lparr>v_locked := True\<rparr>" "v_used v" "map Some ys"] s1(3) room
  obtain s2 where s2: "heap_write (block_of s1 h, int (v_used v)) (map Some ys) s1 = Some s2" "wsm_inv s2"
    "wsm_view s2 = (wsm_view s)(h \<mapsto> v\<lparr>v_locked := True, v_block := ?blk\<rparr>)" by auto
  have "length ys < 2 ^ 31" using room le(2) by simp
  moreover have "wsm_view s2 h = Some (v\<lparr>v_locked := True, v_block := ?blk\<rparr>)" using s2(3) by simp
  moreover have "\<not> length (v_block v) - v_used v < length ys" using room by linarith
  ultimately obtain s3 where s3: "wsmSetUsedSize h (int (length ys)) s2 = Some (SML_ERR_OK, s3)" "wsm_inv s3"
    "wsm_view s3 = (wsm_view s2)(h \<mapsto> v\<lparr>v_locked := True, v_block := ?blk, v_used := v_used v + length ys\<rparr>)"
    using wsmSetUsedSize_known [OF s2(2), of h "v\<lparr>v_locked := True, v_block := ?blk\<rparr>" "length ys"] room
    by auto
  have "wsm_view s3 = (wsm_view s)(h \<mapsto> v\<lparr>v_locked := True, v_block := ?blk, v_used := v_used v + length ys\<rparr>)"
    unfolding s3(3) s2(3) by simp
  note s3 = s3(1,2) this
  from wsmUnlockH_known [OF s3(2), of h "v\<lparr>v_locked := True, v_block := ?blk, v_used := v_used v + length ys\<rparr>"] s3(3)
  obtain s4 where s4: "wsmUnlockH h s3 = Some (SML_ERR_OK, s4)" "wsm_inv s4"
    "wsm_view s4 = (wsm_view s)(h \<mapsto> v\<lparr>v_block := ?blk, v_used := v_used v + length ys, v_locked := False\<rparr>)" by auto
  have "wsm_put h ys s = Some s4" by (simp add: wsm_put_def s1(1) s2(1) s3(1) s4(1))
  moreover have "take (v_used v + length ys) ?blk = v_data v @ map Some ys"
    using room by (simp add: v_data_def)
  ultimately show ?thesis
    using s4 v room by (auto simp: wsm_contents_upd [OF s4(3)] wsm_room_def v_data_def list_all_iff comp_def)
qed

lemma wsm_get_law:
  assumes inv: "wsm_inv s" and c: "wsm_contents s h = Some xs" and r: "n \<le> length xs"
  shows "\<exists>s'. wsm_get h n s = Some (take n xs, s') \<and> wsm_inv s' \<and> wsm_contents s' = (wsm_contents s)(h \<mapsto> drop n xs)
    \<and> wsm_room s' h = wsm_room s h + n"
proof -
  from c obtain v where v: "wsm_view s h = Some v" "\<not> v_locked v" "list_all (\<lambda>x. x \<noteq> None) (v_data v)"
    "xs = map the (v_data v)" by (auto simp: wsm_contents_def split: option.splits if_splits)
  from known_op [OF inv v(1)] obtain i k b where "known_at s h v i k b" .
  note le = known_atD(17,18) [OF this]
  have n: "n \<le> v_used v" using r v(4) le by (simp add: v_data_def)
  from wsmLockH_known [OF inv v(1), of SML_FIRST_DATA_ITEM NULL] v(2) obtain s1 where s1:
    "wsmLockH h SML_FIRST_DATA_ITEM NULL s = Some (SML_ERR_OK, (block_of s1 h, 0), s1)" "wsm_inv s1"
    "wsm_view s1 = (wsm_view s)(h \<mapsto> v\<lparr>v_locked := True\<rparr>)" by auto
  from s1(3) have v1: "wsm_view s1 h = Some (v\<lparr>v_locked := True\<rparr>)" by simp
  from known_op [OF s1(2) v1] obtain i' k' b' where at1: "known_at s1 h (v\<lparr>v_locked := True\<rparr>) i' k' b'" .
  have rd: "heap_read (block_of s1 h, 0) (int n) s1 = Some (take n (v_data v))"
    using known_atD(14) [OF at1] block_of_known [OF at1] n le
    by (simp add: heap_read_def v_data_def min_def)
  from wsmProcessedBytes_known [OF s1(2) v1, of n] n obtain s2 where s2:
    "wsmProcessedBytes h (int n) s1 = Some (SML_ERR_OK, s2)" "wsm_inv s2"
    "wsm_view s2 = (wsm_view s)(h \<mapsto> v\<lparr>v_locked := True, v_block := moved n (v\<lparr>v_locked := True\<rparr>), v_used := v_used v - n\<rparr>)"
    using s1(3) by auto
  have mv: "moved n (v\<lparr>v_locked := True\<rparr>) = moved n v" by (simp add: moved_def v_data_def)
  from wsmUnlockH_known [OF s2(2), of h "v\<lparr>v_locked := True, v_block := moved n v, v_used := v_used v - n\<rparr>"] s2(3) mv
  obtain s3 where s3: "wsmUnlockH h s2 = Some (SML_ERR_OK, s3)" "wsm_inv s3"
    "wsm_view s3 = (wsm_view s)(h \<mapsto> v\<lparr>v_block := moved n v, v_used := v_used v - n, v_locked := False\<rparr>)" by auto
  have el: "list_all (\<lambda>x. x \<noteq> None) (take n (v_data v))" "list_all (\<lambda>x. x \<noteq> None) (drop n (v_data v))"
    using v(3) by (auto simp: list_all_iff dest: in_set_takeD in_set_dropD)
  have "wsm_get h n s = Some (take n xs, s3)"
    using el(1) by (simp add: wsm_get_def s1(1) rd s2(1) s3(1) v(4) take_map)
  moreover have len: "length (moved n v) = length (v_block v)" using n le by (simp add: moved_def v_data_def)
  moreover have "take (v_used v - n) (moved n v) = drop n (v_data v)"
    using n le by (simp add: moved_def v_data_def)
  ultimately show ?thesis
    using s3 v(1,4) el(2) n le by (auto simp: wsm_contents_upd [OF s3(3)] wsm_room_def v_data_def drop_map)
qed

interpretation wq: byte_queue wsm_contents wsm_room wsm_put wsm_get wsm_inv
  by unfold_locales (rule wsm_put_law wsm_get_law; assumption)+

section \<open>Facts behind the properties\<close>

definition wsm_fresh :: wsm where
  "wsm_fresh = snd (the (wsmInit None (wsm_start 0)))"

lemma wsm_fresh_inv:
  "wsmInit None (wsm_start 0) = Some (SML_ERR_OK, wsm_fresh)" "wsm_inv wsm_fresh" "wsm_view wsm_fresh = Map.empty"
  using wsmInit_inv [of None 0] by (auto simp: wsm_fresh_def)

lemma wsm_fresh_limit: "maxWsmAvailMem wsm_fresh = 0"
  by (simp add: wsm_fresh_def wsmInit_def createDataStructs_def c_malloc_def wsm_start_def ret_with_def Let_def)

lemma wsm_fresh_create:
  "\<exists>h s. wsmCreate nm 8 wsm_fresh = Some (SML_ERR_OK, h, s) \<and> wsm_inv s
    \<and> wsm_view s = [h \<mapsto> \<lparr>v_name = nm, v_block = replicate 8 None, v_used = 0, v_locked = False\<rparr>]"
  using wsmCreate_new [OF wsm_fresh_inv(2), of 1 8 nm] wsm_fresh_inv(3) wsm_fresh_limit by auto

lemma dead_after_oom:
  assumes inv: "wsm_inv s" and n: "0 < n" and nm: "nm \<notin> memName ` set (wsmSm s)"
    and free: "h \<in> {1..4}" "wsm_view s h = None"
    and fl: "\<not> fl (mallocs s)" "\<not> fl (Suc (mallocs s))" "fl (Suc (Suc (mallocs s)))"
    and nm': "nm' \<notin> memName ` set (wsmSm s)"
  shows "\<exists>g s'. smCreate nm n 0 (s\<lparr>oom := fl\<rparr>) = Some (SML_ERR_NOT_ENOUGH_SPACE, g, s')
     \<and> smOpen nm' x s' = None \<and> smCreate nm' n y s' = None"
proof -
  note basic = inv_basic [OF inv]
  from view_free [OF inv free] obtain i where i: "i < 4" "memH (wsmBuf s ! i) = - 1"
    "\<forall>l<i. memH (wsmBuf s ! l) \<noteq> - 1" by metis
  have "locateEle (Some nm) (s\<lparr>oom := fl\<rparr>) = Some None" using basic(6) nm by (intro locateEle_none) simp_all
  moreover have "first_unused 0 (s\<lparr>oom := fl\<rparr>) 0 = Some i"
    using basic(1,3) i by (intro first_unused_at) auto
  moreover have "\<not> (\<exists>n \<in> set (wsmSm s). \<not> live n)" using basic(6) by blast
  ultimately have "smCreate nm n 0 (s\<lparr>oom := fl\<rparr>) = Some (SML_ERR_NOT_ENOUGH_SPACE, int i + 1,
     s\<lparr>oom := fl, mallocs := Suc (Suc (Suc (mallocs s))),
       wsmSm := wsmSm s @ [\<lparr>memName = nm, winH = None, sm_memH = 0, locked = False, memSize = 0, live = False\<rparr>]\<rparr>)"
    using n i(1) fl by (simp add: smCreate_def newListEle_def MAX_WSM_BUFFERS_def c_malloc_def
        block_malloc_def node_upd_def Let_def nth_append list_update_append)
  moreover have "locateEle (Some nm') (s\<lparr>oom := fl, mallocs := m,
       wsmSm := wsmSm s @ [\<lparr>memName = nm, winH = None, sm_memH = 0, locked = False, memSize = 0, live = False\<rparr>]\<rparr>)
       = None" for m
    unfolding locateEle_def str_eq_def option.case
    by simp (rule sm_find_dead, use basic(6) nm' in auto)
  ultimately show ?thesis using n by (simp add: smOpen_def smCreate_def)
qed

lemma reopened:
  assumes inv: "wsm_inv s" and v: "wsm_view s h = Some v" and n: "0 < n" and m: "maxWsmAvailMem s = 0"
  shows "\<exists>s1. wsmClose h s = Some (SML_ERR_OK, s1) \<and> wsmCreate (v_name v) n s1 = None"
proof -
  from known_op [OF inv v] obtain i k b where at: "known_at s h v i k b" .
  note a = known_atD [OF at]
  note basic = inv_basic [OF inv]
  from wsmClose_known [OF at] obtain s1 e' where s1: "wsmClose h s = Some (SML_ERR_OK, s1)" "free_ok e'"
    "globals s1 = globals s" "initWasCalled s1 = initWasCalled s" "wsmBuf s1 = (wsmBuf s)[i := e']"
    "wsmSm s1 = (wsmSm s)[k := closed_node (wsmSm s ! k)]" "heap s1 = (heap s)(b := None)"
    "maxWsmAvailMem s1 = maxWsmAvailMem s" by metis
  note loc = closed_located [OF at s1(6)]
  have loc': "locateEle (Some (v_name v)) (s1\<lparr>wsmRet := r\<rparr>) = Some (Some k)" for r
    using loc by (simp add: locateEle_def)
  have live: "\<forall>n \<in> set (wsmSm s1). live n"
    using basic(6) a(11) set_update_subset_insert [of "wsmSm s" k "closed_node (wsmSm s ! k)"] by (auto simp: s1(6))
  have zero: "j = k" if "j < length (wsmSm s1)" "sm_memH (wsmSm s1 ! j) = 0" for j
  proof (rule ccontr)
    assume "j \<noteq> k"
    with that have "sm_memH (wsmSm s ! j) = 0" "j < length (wsmSm s)" by (simp_all add: s1(6))
    moreover from this obtain l where "pair_ok (heap s) (int l + 1) (wsmBuf s ! l) (wsmSm s ! j)"
      using inv unfolding wsm_inv_def by (meson nth_mem)
    ultimately show False by (simp add: pair_ok_def)
  qed
  have "locateH 0 (s1\<lparr>wsmRet := r\<rparr>) = Some (Some k)" for r
    unfolding locateH_def
  proof (rule sm_find_unique)
    fix j assume "j < length (wsmSm (s1\<lparr>wsmRet := r\<rparr>))" "sm_memH (wsmSm (s1\<lparr>wsmRet := r\<rparr>) ! j) = 0"
    then show "j = k" by (intro zero) simp_all
  qed (use live a(5) in \<open>simp_all add: s1(6)\<close>)
  then have "wsm_obtain (v_name v) n s1 = None"
    using n a(5,7) loc loc' s1(6,7) by (simp add: wsm_obtain_def smCreate_def smOpen_def smSetSize_def block_free_def Let_def)
  moreover have "getNextFreeEntry s1 \<noteq> Some (- 1)" "getNextFreeEntry s1 \<noteq> None"
  proof -
    have "e' \<in> set (wsmBuf s1)" using a(4) by (simp add: s1(5) set_update_memI)
    then have "buf_index (\<lambda>e. memH e = - 1) (wsmBuf s1) \<noteq> None"
      using s1(2) by (auto simp: buf_index_None free_ok_def)
    then show "getNextFreeEntry s1 \<noteq> Some (- 1)" "getNextFreeEntry s1 \<noteq> None"
      using s1(3) basic(1) by (auto simp: getNextFreeEntry_def WSM_MEMH_UNUSED_def)
  qed
  ultimately have "wsmCreate (v_name v) n s1 = None"
    using s1(3,4,8) basic(1,2) m by (auto simp: wsmCreate_def isMemAvailable_def)
  with s1(1) show ?thesis by blast
qed

section \<open>Properties\<close>





text \<open>
  Property C24 (functional, an instance of the byte queue contract). Messages written into an empty
  workspace buffer, as long as they fit together, are read back completely and in order, whatever
  the sizes of the pieces that the reader takes; the other buffers keep their contents.
\<close>

theorem wsm_fifo:
  assumes "wsm_inv s" "wsm_contents s h = Some []" "length (concat ms) \<le> wsm_room s h"
    and "sum_list ns = length (concat ms)"
  shows "\<exists>s1 s2. put_all wsm_put h ms s = Some s1 \<and> get_all wsm_get h ns s1 = Some (concat ms, s2)
    \<and> wsm_contents s2 = (wsm_contents s)(h \<mapsto> [])"
  using assms by (rule wq.fifo)

theorem wsm_fifo_witness:
  "\<exists>h s s1 s2. wsmCreate (bytes_of ''in'') 8 wsm_fresh = Some (SML_ERR_OK, h, s)
    \<and> put_all wsm_put h [[1, 2], [3]] s = Some s1 \<and> get_all wsm_get h [1, 2] s1 = Some ([1, 2, 3], s2)"
proof -
  obtain h s where s: "wsmCreate (bytes_of ''in'') 8 wsm_fresh = Some (SML_ERR_OK, h, s)" "wsm_inv s"
    "wsm_view s = [h \<mapsto> \<lparr>v_name = bytes_of ''in'', v_block = replicate 8 None, v_used = 0, v_locked = False\<rparr>]"
    using wsm_fresh_create by blast
  have "wsm_contents s h = Some []" "wsm_room s h = 8"
    by (simp_all add: wsm_contents_def wsm_room_def s(3) v_data_def)
  with wsm_fifo [OF s(2), of h "[[1, 2], [3]]" "[1, 2]"] s(1) show ?thesis by auto
qed



text \<open>
  When the allocation of the block of a new buffer fails, \<open>smCreate\<close>
  frees the list node without unlinking it: it reports \<open>SML_ERR_NOT_ENOUGH_SPACE\<close>, and the next
  search of the list for a name that is not there reads freed memory.
\<close>

theorem smCreate_oom:
  assumes "wsm_inv s" and "0 < n" and "nm \<notin> memName ` set (wsmSm s)"
    and "h \<in> {1..4}" "wsm_view s h = None"
    and "\<not> fl (mallocs s)" "\<not> fl (Suc (mallocs s))" "fl (Suc (Suc (mallocs s)))"
    and "nm' \<notin> memName ` set (wsmSm s)"
  shows "\<exists>g s'. smCreate nm n 0 (s\<lparr>oom := fl\<rparr>) = Some (SML_ERR_NOT_ENOUGH_SPACE, g, s')
     \<and> smOpen nm' x s' = None \<and> smCreate nm' n y s' = None"
  using assms by (rule dead_after_oom)

theorem smCreate_oom_witness:
  "\<exists>g s'. smCreate [65] 8 0 (wsm_fresh\<lparr>oom := (\<lambda>i. i = Suc (Suc (mallocs wsm_fresh)))\<rparr>)
      = Some (SML_ERR_NOT_ENOUGH_SPACE, g, s') \<and> smOpen [66] 0 s' = None \<and> smCreate [66] 8 0 s' = None"
proof -
  have "wsmSm wsm_fresh = []"
    by (simp add: wsm_fresh_def wsmInit_def createDataStructs_def c_malloc_def wsm_start_def ret_with_def Let_def)
  then show ?thesis
    using wsm_fresh_inv(2,3) by (intro smCreate_oom [where h = 1]) simp_all
qed

text \<open>
  After \<open>wsmClose\<close> the storage layer still knows the name: creating a
  buffer with that name again frees the block a second time.
\<close>

theorem wsmCreate_after_close:
  assumes "wsm_inv s" and "wsm_view s h = Some v" and "0 < n" and "maxWsmAvailMem s = 0"
  shows "\<exists>s1. wsmClose h s = Some (SML_ERR_OK, s1) \<and> wsmCreate (v_name v) n s1 = None"
  using assms by (rule reopened)

theorem wsmCreate_after_close_witness:
  "\<exists>h s s1. wsmCreate (bytes_of ''in'') 8 wsm_fresh = Some (SML_ERR_OK, h, s)
    \<and> wsmClose h s = Some (SML_ERR_OK, s1) \<and> wsmCreate (bytes_of ''in'') 8 s1 = None"
proof -
  obtain h s where s: "wsmCreate (bytes_of ''in'') 8 wsm_fresh = Some (SML_ERR_OK, h, s)" "wsm_inv s"
    "wsm_view s = [h \<mapsto> \<lparr>v_name = bytes_of ''in'', v_block = replicate 8 None, v_used = 0, v_locked = False\<rparr>]"
    using wsm_fresh_create by blast
  have "map_option (\<lambda>(r, h, s). maxWsmAvailMem s) (wsmCreate (bytes_of ''in'') 8 wsm_fresh) = Some 0"
    by code_simp
  with s(1) have "maxWsmAvailMem s = 0" by simp
  with wsmCreate_after_close [OF s(2), of h _ 8] s(1,3) show ?thesis by auto
qed

end
