(* ===== verification/Toolkit_Props.thy ===== *)
theory Toolkit_Props
  imports Toolkit_Send Toolkit_Receive Wsm_Props Decoder_Props
begin

text \<open>
  The life of an instance, and the properties of the toolkit: messages arrive as they were sent, and what
  the error paths leave.
\<close>

section \<open>Creating and terminating instances\<close>

lemma tk_malloc_ready: "tok_ready (tk_tok t) \<Longrightarrow> tk_malloc t = (True, t)"
  by (simp add: tk_malloc_def tok_malloc_ready)

lemmas instance_steps = deref_def free_ptr_def on_wsm_def findInfo_def info_at_def info_upd_def instances_def
  set_instances_def addInfo_def with_info_def new_instance_def

definition with_instance :: "'u InstanceInfo \<Rightarrow> wsm \<Rightarrow> 'u SyncMLInfo \<Rightarrow> 'u toolkit \<Rightarrow> 'u toolkit" where
  "with_instance i s A t =
     t\<lparr>tk_wsm := s, tk_next := Suc (tk_next t), tk_anchor := Ptr (A\<lparr>si_instances := i # si_instances A\<rparr>)\<rparr>"

text \<open>A new structure is the first of the list; it is found by its id, whatever the other ids are.\<close>

lemma smlInitInstance_ok:
  assumes t: "tk_anchor t = Ptr A" "tok_ready (tk_tok t)" "find_id pid (si_instances A) = None"
    and o: "io_workspaceName opts = Some name" "io_encoding opts \<noteq> SML_UNDEF"
    and c: "wsmCreate name (io_workspaceSize opts) (tk_wsm t) = Some (SML_ERR_OK, h, s)"
  shows "smlInitInstance (Some cb) (Some opts) u pid t =
    Some (SML_ERR_OK, h, with_instance ((new_instance (tk_next t) h u)\<lparr>ii_callbacks := Ptr cb, ii_options := Ptr opts\<rparr>) s A t)"
  using t o c
  by (simp add: smlInitInstance_def smlSetCallbacks_def setInstanceOptions_def instance_steps tk_malloc_ready with_instance_def)

lemma smlInitInstance_no_callbacks:
  assumes t: "tk_anchor t = Ptr A" "tok_ready (tk_tok t)" "find_id pid (si_instances A) = None"
    and o: "io_workspaceName opts = Some name"
    and c: "wsmCreate name (io_workspaceSize opts) (tk_wsm t) = Some (SML_ERR_OK, h, s)" "wsmDestroy (Some name) s = Some (rc, s')"
  shows "smlInitInstance None (Some opts) u pid t = Some (SML_ERR_OK, h, with_instance (new_instance (tk_next t) h u) s' A t)"
  using t o c
  by (simp add: smlInitInstance_def smlSetCallbacks_def instance_steps tk_malloc_ready with_instance_def)

lemma with_instance_fields [simp]:
  "tk_wsm (with_instance i s A t) = s" "tk_tok (with_instance i s A t) = tk_tok t" "tk_heap (with_instance i s A t) = tk_heap t"
  by (simp_all add: with_instance_def)

lemma with_instance_linked: "linked (with_instance i s A t) (ii_id i) (ii_addr i) i"
  by (simp add: linked_def with_instance_def findInfo_def info_at_def instances_def deref_def)

lemma smlTerminateInstance_ok:
  assumes "ii_callbacks i = Ptr cb" "ii_options i = Ptr opts" "wsmDestroy (io_workspaceName opts) s = Some (SML_ERR_OK, s')"
  shows "\<exists>t'. smlTerminateInstance (ii_id i) (with_instance i s A t) = Some (SML_ERR_OK, t') \<and>
    instances t' = Some (si_instances A) \<and> tk_wsm t' = s'"
  using assms
  by (simp add: smlTerminateInstance_def removeInfo_def freeInstanceInfo_def instance_steps with_instance_def)

lemma new_workspace:
  assumes "wsm_inv s" "f \<in> {1..4}" "wsm_view s f = None" "0 < n" "n < 2 ^ 29"
    "maxWsmAvailMem s = 0 \<or> n + wsm_total s \<le> maxWsmAvailMem s" "\<forall>h v. wsm_view s h = Some v \<longrightarrow> v_name v \<noteq> name"
  shows "\<exists>h s1 s2. wsmCreate name n s = Some (SML_ERR_OK, h, s1) \<and> workspace s1 h [] (nat n) \<and>
    wsmDestroy (Some name) s1 = Some (SML_ERR_OK, s2) \<and> wsm_inv s2 \<and> wsm_view s2 = wsm_view s \<and> wsm_view s h = None"
proof -
  let ?v = "\<lparr>v_name = name, v_block = replicate (nat n) None, v_used = 0, v_locked = False\<rparr>"
  from wsmCreate_new [OF assms(1-7)] obtain h s1 where
    s1: "wsmCreate name n s = Some (SML_ERR_OK, h, s1)" "wsm_view s h = None" "wsm_inv s1" "wsm_view s1 = (wsm_view s)(h \<mapsto> ?v)" by blast
  have v: "wsm_view s1 h = Some ?v" by (simp add: s1(4))
  from wsmDestroy_known [OF s1(3) v] obtain s2 where
    "wsmDestroy (Some name) s1 = Some (SML_ERR_OK, s2)" "wsm_inv s2" "wsm_view s2 = (wsm_view s)(h := None)" by (auto simp: s1(4))
  moreover have "(wsm_view s)(h := None) = wsm_view s" using s1(2) by (simp add: fun_eq_iff)
  moreover have "workspace s1 h [] (nat n)" using s1(3) v by (simp add: workspace_def v_data_def)
  ultimately show ?thesis using s1(1,2) by (intro exI [of _ h] exI [of _ s1] exI [of _ s2]) simp
qed

section \<open>Samples\<close>

definition sample_options :: SmlInstanceOptions where
  "sample_options = \<lparr>io_encoding = SML_WBXML, io_workspaceSize = 140, io_workspaceName = Some (bytes_of ''ws'')\<rparr>"

definition sample_callbacks :: SmlCallbacks where
  "sample_callbacks = \<lparr>startMessageFunc = Some 1, endMessageFunc = Some 2, startSyncFunc = Some 3, endSyncFunc = Some 4,
     startAtomicFunc = Some 5, endAtomicFunc = Some 6, startSequenceFunc = Some 7, endSequenceFunc = Some 8,
     addCmdFunc = Some 9, alertCmdFunc = Some 10, deleteCmdFunc = Some 11, getCmdFunc = Some 12, putCmdFunc = Some 13,
     mapCmdFunc = Some 14, resultsCmdFunc = Some 15, statusCmdFunc = Some 16, replaceCmdFunc = Some 17,
     copyCmdFunc = Some 18, execCmdFunc = Some 19, searchCmdFunc = Some 20, handleErrorFunc = None, transmitChunkFunc = None\<rparr>"

definition sample_toolkit :: "unit toolkit" where
  "sample_toolkit = \<lparr>tk_anchor = Ptr \<lparr>si_instances = [], si_options = Some 0\<rparr>, tk_wsm = wsm_fresh, tk_tok = empty_table,
     tk_heap = sample_heap, tk_fill = 0, tk_next = 1\<rparr>"

text \<open>An application that notes every call.\<close>

definition sample_act :: "nat \<Rightarrow> unit \<Rightarrow> sml_call \<Rightarrow> (nat \<times> sml_call) list \<Rightarrow> ret \<times> (nat \<times> sml_call) list" where
  "sample_act f u c w = (SML_ERR_OK, w @ [(f, c)])"

definition sample_app :: "(unit, (nat \<times> sml_call) list) app" where
  "sample_app f iid u c t w = Some (SML_ERR_OK, t, w @ [(f, c)])"

lemma sample_listener: "listener sample_app sample_act"
  by (simp add: listener_def sample_app_def sample_act_def)

lemma sample_all_set: "all_set sample_callbacks"
  by (simp add: all_set_def handlers_def sample_callbacks_def)

lemma sample_listen: "listen sample_act () cs w = (SML_ERR_OK, w @ cs)"
  by (induction cs arbitrary: w) (auto simp: sample_act_def)

lemma sample_ready:
  "tk_anchor sample_toolkit = Ptr \<lparr>si_instances = [], si_options = Some 0\<rparr>" "tok_ready (tk_tok sample_toolkit)"
  "tk_wsm sample_toolkit = wsm_fresh" "wsm_inv wsm_fresh" "wsm_view wsm_fresh = Map.empty" "tk_heap sample_toolkit = sample_heap"
  "tk_next sample_toolkit = 1" "heap_ok (fst (hp_encodings sample_heap)) (snd (hp_encodings sample_heap)) sample_heap"
  using wsm_fresh_inv by (simp_all add: sample_toolkit_def empty_table_ready heap_ok_def sample_heap_def)

text \<open>An instance of the sample toolkit whose workspace has \<open>n\<close> bytes.\<close>

lemma sample_instance:
  assumes "0 < n" "n < 2 ^ 29"
  obtains h t where "smlInitInstance (Some sample_callbacks) (Some (sample_options\<lparr>io_workspaceSize := int n\<rparr>)) () 0 sample_toolkit =
      Some (SML_ERR_OK, h, t)"
    "sending t h 1 ((new_instance 1 h ())\<lparr>ii_callbacks := Ptr sample_callbacks,
        ii_options := Ptr (sample_options\<lparr>io_workspaceSize := int n\<rparr>)\<rparr>)"
    "workspace (tk_wsm t) h [] n" "tk_heap t = sample_heap"
proof -
  let ?o = "sample_options\<lparr>io_workspaceSize := int n\<rparr>"
  obtain h s where s: "wsmCreate (bytes_of ''ws'') (int n) wsm_fresh = Some (SML_ERR_OK, h, s)" "workspace s h [] n"
    using new_workspace [OF sample_ready(4), of 1 "int n" "bytes_of ''ws''"] sample_ready(5) assms wsm_fresh_limit by auto
  let ?i = "(new_instance 1 h ())\<lparr>ii_callbacks := Ptr sample_callbacks, ii_options := Ptr ?o\<rparr>"
  let ?t = "with_instance ?i s \<lparr>si_instances = [], si_options = Some 0\<rparr> sample_toolkit"
  have "smlInitInstance (Some sample_callbacks) (Some ?o) () 0 sample_toolkit = Some (SML_ERR_OK, h, ?t)"
    using smlInitInstance_ok [OF sample_ready(1,2), of 0 ?o "bytes_of ''ws''" h s sample_callbacks "()"] s(1) sample_ready(3,7)
    by (simp add: sample_options_def)
  moreover have "sending ?t h 1 ?i"
    using with_instance_linked [of ?i s "\<lparr>si_instances = [], si_options = Some 0\<rparr>" sample_toolkit] sample_ready(2)
    by (simp add: sending_def new_instance_def sample_options_def)
  ultimately show ?thesis using that s(2) sample_ready(6) by simp
qed

section \<open>Messages\<close>



text \<open>
  Property C5 (safety: a command that does not fit is lost in silence). Let an instance that uses WBXML have no transmit
  function, and let a message of one command be acceptable to the DTD. When the command does not fit into the
  workspace behind the header, while the message without the command does, all the calls that build the
  message return \<open>SML_ERR_OK\<close> and the workspace holds the message without the command: \<open>mgrCreateNextCommand\<close> forgets
  \<open>SML_ERR_XLT_BUF_ERR\<close> when there is no function to transmit the full buffer.
\<close>

theorem command_lost_in_message:
  assumes "sending t iid a i" "ii_callbacks i = Ptr cb" "transmitChunkFunc cb = None"
    and "workspace (tk_wsm t) iid xs cap" "syncml_fpi v = Some fpi" "open_spec h = Sp_ok hs" "cmd_spec (pe, c) = Sp_ok bs"
    and "cap < length xs + length (doc_header fpi @ doc_bytes SML_EXT_UNDEFINED (hs @ bs))"
    and "length (doc_bytes SML_EXT_UNDEFINED (hs @ bs)) < 2 ^ 30"
    and "length xs + length (message_bytes fpi (hs @ close_events fin)) \<le> cap"
  shows "\<exists>t'. send_message app iid h v [(pe, c)] fin t w = Some (SML_ERR_OK, t', w) \<and>
    workspace (tk_wsm t') iid (xs @ message_bytes fpi (hs @ close_events fin)) cap"
proof -
  let ?U = SML_EXT_UNDEFINED and ?cur = "ext_after SML_EXT_UNDEFINED hs"
  let ?x = "doc_header fpi @ doc_bytes ?U hs" and ?z = "doc_bytes ?cur (close_events fin)"
  have b: "message_bytes fpi (hs @ close_events fin) = ?x @ ?z" by (simp add: message_bytes_def doc_bytes_append)
  have n: "length xs + length ?x + length ?z \<le> cap" using assms(10) unfolding b by simp
  from message_started [OF assms(1,4,5,6)] n obtain t1 e where
    t1: "smlStartMessageExt iid h v t = Some (SML_ERR_OK, t1)" "sending t1 iid a (i\<lparr>ii_encoder := Some e\<rparr>)"
      "encoding e (length (doc_bytes ?U hs))" "xe_cur_ext e = ?cur" "workspace (tk_wsm t1) iid (xs @ ?x) cap" by auto
  have full: "cap < length (xs @ ?x) + length (doc_bytes (xe_cur_ext e) bs)"
    "length (doc_bytes ?U hs) + length (doc_bytes (xe_cur_ext e) bs) < 2 ^ 30"
    using assms(8,9) by (simp_all add: t1(4) doc_bytes_append)
  have i: "ii_encoder (i\<lparr>ii_encoder := Some e\<rparr>) = Some e" "ii_callbacks (i\<lparr>ii_encoder := Some e\<rparr>) = Ptr cb" using assms(2) by simp_all
  from command_lost [OF t1(2) i(1) t1(3) full(2) i(2) assms(3) t1(5) assms(7) full(1), of app w] obtain t2 where
    t2: "mgrCreateNextCommand app iid pe c t1 w = Some (SML_ERR_OK, t2, w)" "sending t2 iid a (i\<lparr>ii_encoder := Some e\<rparr>)"
      "workspace (tk_wsm t2) iid (xs @ ?x) cap" by blast
  from message_ended [OF t2(2) i(1) t1(3) t2(3), of fin] n t1(4) obtain t3 where
    "smlEndMessage iid fin t2 = Some (SML_ERR_OK, t3)" "workspace (tk_wsm t3) iid ((xs @ ?x) @ ?z) cap" by auto
  with t1(1) t2(1) show ?thesis unfolding b by (simp add: send_message_def)
qed

definition sample_cmd :: cmd where
  "sample_cmd = sample_cmds ! 1"

definition sample_open :: "wb_event list" where
  "sample_open = (case open_spec (Some sample_hdr) of Sp_ok es \<Rightarrow> es | _ \<Rightarrow> [])"

definition sample_replace :: "wb_event list" where
  "sample_replace = (case cmd_spec sample_cmd of Sp_ok es \<Rightarrow> es | _ \<Rightarrow> [])"

lemma sample_parts:
  "open_spec (Some sample_hdr) = Sp_ok sample_open" "cmd_spec sample_cmd = Sp_ok sample_replace"
  "doc_length SML_EXT_UNDEFINED sample_open = 57" "doc_length SML_EXT_UNDEFINED (sample_open @ sample_replace) = 93"
  "doc_length SML_EXT_UNDEFINED (sample_open @ close_events True) = 60"
  by code_simp+

theorem command_lost_in_message_witness:
  "\<exists>h t t'. smlInitInstance (Some sample_callbacks) (Some (sample_options\<lparr>io_workspaceSize := 100\<rparr>)) () 0 sample_toolkit =
       Some (SML_ERR_OK, h, t) \<and>
     send_message sample_app h (Some sample_hdr) SML_VERS_1_2 [sample_cmd] True t [] = Some (SML_ERR_OK, t', []) \<and>
     workspace (tk_wsm t') h (message_bytes (bytes_of ''-//SYNCML//DTD SyncML 1.2//EN'') (sample_open @ close_events True)) 100"
proof -
  obtain h t where t: "smlInitInstance (Some sample_callbacks) (Some (sample_options\<lparr>io_workspaceSize := int 100\<rparr>)) () 0 sample_toolkit =
      Some (SML_ERR_OK, h, t)"
    "sending t h 1 ((new_instance 1 h ())\<lparr>ii_callbacks := Ptr sample_callbacks,
        ii_options := Ptr (sample_options\<lparr>io_workspaceSize := int 100\<rparr>)\<rparr>)"
    "workspace (tk_wsm t) h [] 100" by (rule sample_instance [of 100]) simp_all
  have fpi: "syncml_fpi SML_VERS_1_2 = Some (bytes_of ''-//SYNCML//DTD SyncML 1.2//EN'')" by (simp add: syncml_fpi_def)
  obtain pe c where c: "sample_cmd = (pe, c)" by (cases sample_cmd)
  from command_lost_in_message [OF t(2) _ _ t(3) fpi sample_parts(1) sample_parts(2) [unfolded c], of sample_callbacks True sample_app "[]"]
  show ?thesis using t(1) sample_parts(3-5)
    by (fastforce simp: c sample_callbacks_def message_bytes_def doc_header_def length_doc_bytes bytes_of_def)
qed

section \<open>Instances\<close>

text \<open>
  Property C39 (functional: the life of an instance). Let the toolkit be initialised, no allocation fail, \<open>*pInstanceID\<close> not
  hold the id of an instance, the name of the workspace be new and its size fit into the limit. Then
  \<open>smlInitInstance\<close> adds an instance with the callbacks, the options and the user data that it was given and with an
  empty workspace of the wanted size; \<open>smlTerminateInstance\<close> for its id then brings back the list of instances
  and the workspaces as they were before.
\<close>

theorem instance_lifecycle:
  assumes "tk_anchor t = Ptr A" "tok_ready (tk_tok t)" "find_id pid (si_instances A) = None" "wsm_inv (tk_wsm t)"
    and "io_workspaceName opts = Some name" "io_encoding opts \<noteq> SML_UNDEF" "f \<in> {1..4}" "wsm_view (tk_wsm t) f = None"
    and "0 < io_workspaceSize opts" "io_workspaceSize opts < 2 ^ 29"
    and "maxWsmAvailMem (tk_wsm t) = 0 \<or> io_workspaceSize opts + wsm_total (tk_wsm t) \<le> maxWsmAvailMem (tk_wsm t)"
    and "\<forall>h v. wsm_view (tk_wsm t) h = Some v \<longrightarrow> v_name v \<noteq> name"
  shows "\<exists>h t1 t2. smlInitInstance (Some cb) (Some opts) u pid t = Some (SML_ERR_OK, h, t1) \<and>
    linked t1 h (tk_next t) ((new_instance (tk_next t) h u)\<lparr>ii_callbacks := Ptr cb, ii_options := Ptr opts\<rparr>) \<and>
    workspace (tk_wsm t1) h [] (nat (io_workspaceSize opts)) \<and>
    smlTerminateInstance h t1 = Some (SML_ERR_OK, t2) \<and> instances t2 = instances t \<and> wsm_view (tk_wsm t2) = wsm_view (tk_wsm t)"
proof -
  from new_workspace [OF assms(4,7-12)] obtain h s1 s2 where
    s: "wsmCreate name (io_workspaceSize opts) (tk_wsm t) = Some (SML_ERR_OK, h, s1)" "workspace s1 h [] (nat (io_workspaceSize opts))"
      "wsmDestroy (Some name) s1 = Some (SML_ERR_OK, s2)" "wsm_view s2 = wsm_view (tk_wsm t)" by blast
  let ?i = "(new_instance (tk_next t) h u)\<lparr>ii_callbacks := Ptr cb, ii_options := Ptr opts\<rparr>"
  have i: "ii_id ?i = h" "ii_addr ?i = tk_next t" "ii_callbacks ?i = Ptr cb" "ii_options ?i = Ptr opts" by (simp_all add: new_instance_def)
  have "wsmDestroy (io_workspaceName opts) s1 = Some (SML_ERR_OK, s2)" using assms(5) s(3) by simp
  from smlTerminateInstance_ok [OF i(3,4) this, of A t, unfolded i(1)] obtain t2 where
    "smlTerminateInstance h (with_instance ?i s1 A t) = Some (SML_ERR_OK, t2)" "instances t2 = Some (si_instances A)" "tk_wsm t2 = s2"
    by blast
  moreover have "instances t = Some (si_instances A)" using assms(1) by (simp add: instances_def deref_def)
  ultimately show ?thesis
    using smlInitInstance_ok [OF assms(1-3,5,6) s(1), of cb u] with_instance_linked [of ?i s1 A t, unfolded i(1,2)] s(2,4)
    by (intro exI [of _ h] exI [of _ "with_instance ?i s1 A t"] exI [of _ t2]) simp
qed

theorem instance_lifecycle_witness:
  "\<exists>h t1 t2. smlInitInstance (Some sample_callbacks) (Some sample_options) () 0 sample_toolkit = Some (SML_ERR_OK, h, t1) \<and>
    smlTerminateInstance h t1 = Some (SML_ERR_OK, t2) \<and> instances t2 = Some []"
proof -
  have o: "io_workspaceName sample_options = Some (bytes_of ''ws'')" "io_encoding sample_options \<noteq> SML_UNDEF"
    "0 < io_workspaceSize sample_options" "io_workspaceSize sample_options < 2 ^ 29"
    by (simp_all add: sample_options_def)
  have t: "find_id 0 (si_instances \<lparr>si_instances = [], si_options = Some 0\<rparr> :: unit InstanceInfo list) = None" "instances sample_toolkit = Some []"
    "wsm_inv (tk_wsm sample_toolkit)" "wsm_view (tk_wsm sample_toolkit) 1 = None" "maxWsmAvailMem (tk_wsm sample_toolkit) = 0"
    "\<forall>h v. wsm_view (tk_wsm sample_toolkit) h = Some v \<longrightarrow> v_name v \<noteq> bytes_of ''ws''"
    using sample_ready(3-5) wsm_fresh_limit by (simp_all add: instances_def deref_def sample_ready(1))
  from instance_lifecycle [OF sample_ready(1,2) t(1,3) o(1,2) _ t(4) o(3,4) _ t(6), of sample_callbacks "()"] t(2,5)
  show ?thesis by auto
qed

text \<open>
  Property C40 (error: a failed \<open>smlInitInstance\<close> reports success). Under the same conditions, but without callbacks,
  \<open>smlInitInstance\<close> returns \<open>SML_ERR_OK\<close> although it has destroyed the workspace again: the instance stays in
  the list, and every access to its workspace fails with \<open>SML_ERR_INVALID_HANDLE\<close>.
\<close>

theorem init_without_callbacks:
  assumes "tk_anchor t = Ptr A" "tok_ready (tk_tok t)" "find_id pid (si_instances A) = None" "wsm_inv (tk_wsm t)"
    and "io_workspaceName opts = Some name" "f \<in> {1..4}" "wsm_view (tk_wsm t) f = None"
    and "0 < io_workspaceSize opts" "io_workspaceSize opts < 2 ^ 29"
    and "maxWsmAvailMem (tk_wsm t) = 0 \<or> io_workspaceSize opts + wsm_total (tk_wsm t) \<le> maxWsmAvailMem (tk_wsm t)"
    and "\<forall>h v. wsm_view (tk_wsm t) h = Some v \<longrightarrow> v_name v \<noteq> name"
  shows "\<exists>h t1 p n t2. smlInitInstance None (Some opts) u pid t = Some (SML_ERR_OK, h, t1) \<and>
    linked t1 h (tk_next t) (new_instance (tk_next t) h u) \<and>
    smlLockWriteBuffer h NULL 0 t1 = Some (SML_ERR_INVALID_HANDLE, p, n, t2)"
proof -
  from new_workspace [OF assms(4,6-11)] obtain h s1 s2 where
    s: "wsmCreate name (io_workspaceSize opts) (tk_wsm t) = Some (SML_ERR_OK, h, s1)" "wsm_view (tk_wsm t) h = None"
      "wsmDestroy (Some name) s1 = Some (SML_ERR_OK, s2)" "wsm_inv s2" "wsm_view s2 = wsm_view (tk_wsm t)" by blast
  let ?i = "new_instance (tk_next t) h u"
  have i: "ii_id ?i = h" "ii_addr ?i = tk_next t" by (simp_all add: new_instance_def)
  from unknown_handle(1) [OF s(4), of h SML_FIRST_FREE_ITEM NULL] s(2,5) obtain p s3 where
    "wsmLockH h SML_FIRST_FREE_ITEM NULL s2 = Some (SML_ERR_INVALID_HANDLE, p, s3)" by auto
  then have "smlLockWriteBuffer h NULL 0 (with_instance ?i s2 A t) =
      Some (SML_ERR_INVALID_HANDLE, p, 0, (with_instance ?i s2 A t)\<lparr>tk_wsm := s3\<rparr>)"
    by (simp add: smlLockWriteBuffer_def lock_buffer_def)
  with smlInitInstance_no_callbacks [OF assms(1-3,5) s(1,3), of u] with_instance_linked [of ?i s2 A t, unfolded i]
  show ?thesis by blast
qed

theorem init_without_callbacks_witness:
  "\<exists>h t1. smlInitInstance None (Some sample_options) () 0 sample_toolkit = Some (SML_ERR_OK, h, t1) \<and>
    linked t1 h 1 (new_instance 1 h ())"
proof -
  have o: "io_workspaceName sample_options = Some (bytes_of ''ws'')"
    "0 < io_workspaceSize sample_options" "io_workspaceSize sample_options < 2 ^ 29"
    by (simp_all add: sample_options_def)
  have t: "find_id 0 (si_instances \<lparr>si_instances = [], si_options = Some 0\<rparr> :: unit InstanceInfo list) = None"
    "wsm_inv (tk_wsm sample_toolkit)" "wsm_view (tk_wsm sample_toolkit) 1 = None" "maxWsmAvailMem (tk_wsm sample_toolkit) = 0"
    "\<forall>h v. wsm_view (tk_wsm sample_toolkit) h = Some v \<longrightarrow> v_name v \<noteq> bytes_of ''ws''"
    using sample_ready(3-5) wsm_fresh_limit by simp_all
  from init_without_callbacks [OF sample_ready(1,2) t(1,2) o(1) _ t(3) o(2,3) _ t(5), of "()"] t(4) sample_ready(7)
  show ?thesis by auto
qed

end
